(* ===== verification/Usance_Prelude.thy ===== *)
theory Usance_Prelude
  imports Main "HOL-Library.Signed_Division" "HOL-Library.Char_ord"
    "HOL-Library.List_Lexorder" "HOL-Library.AList"
begin

text \<open>
  Shared vocabulary of the development.

  \<^item> Results of JavaScript code that may throw are values of \<open>'e + 'a\<close>: \<open>Inl\<close> is the
    exception, \<open>Inr\<close> the returned value. \<open>bindR\<close> sequences two such computations and
    \<open>mapR\<close> is \<open>Array.prototype.map\<close> with a callback that may throw.
  \<^item> \<open>bigint\<close> is \<open>int\<close> with the truncating division \<open>sdiv\<close>; a \<open>number\<close> that the source uses as
    an integer is \<open>int\<close> too.
  \<^item> A JavaScript \<open>Map\<close> iterates in insertion order, so it is an association list updated with
    \<open>AList.update\<close>, which replaces in place and appends new keys; a \<open>Set\<close> is a duplicate-free list
    grown by \<open>set_add\<close>.
  \<^item> Strings are character lists ordered by code unit, which is the order of \<open>sort()\<close> and \<open><\<close>.
  \<^item> \<open>Array.prototype.sort\<close> is stable, and so is \<open>sort_key\<close>.
\<close>

named_theorems result_simps \<open>rewriting of computations that may throw\<close>
named_theorems pos_arith \<open>division and multiplication facts on non-negative integers\<close>

section \<open>Computations that may throw\<close>

datatype js_error =
    RangeError string
  | JsError string
  | SyntaxError string

type_synonym 'a result = "js_error + 'a"

definition bindR :: "'e + 'a \<Rightarrow> ('a \<Rightarrow> 'e + 'b) \<Rightarrow> 'e + 'b" where
  "bindR m f = (case m of Inl e \<Rightarrow> Inl e | Inr a \<Rightarrow> f a)"

lemma bindR_simps [simp, result_simps]:
  "bindR (Inl e) f = Inl e"
  "bindR (Inr a) f = f a"
  by (simp_all add: bindR_def)

lemma bindR_Inr_iff [result_simps]:
  "bindR m f = Inr b \<longleftrightarrow> (\<exists>a. m = Inr a \<and> f a = Inr b)"
  by (cases m) auto

lemma bindR_Inl_iff [result_simps]:
  "bindR m f = Inl e \<longleftrightarrow> m = Inl e \<or> (\<exists>a. m = Inr a \<and> f a = Inl e)"
  by (cases m) auto

lemma bindR_assoc: "bindR (bindR m f) g = bindR m (\<lambda>x. bindR (f x) g)"
  by (cases m) auto

lemma bindR_InrE [elim!]:
  assumes "bindR m f = Inr b"
  obtains a where "m = Inr a" and "f a = Inr b"
  using assms by (auto simp: bindR_Inr_iff)

fun mapR :: "('a \<Rightarrow> 'e + 'b) \<Rightarrow> 'a list \<Rightarrow> 'e + 'b list" where
  "mapR f [] = Inr []"
| "mapR f (x # xs) = bindR (f x) (\<lambda>y. bindR (mapR f xs) (\<lambda>ys. Inr (y # ys)))"

lemma mapR_Inr_list_all2: "mapR f xs = Inr ys \<Longrightarrow> list_all2 (\<lambda>x y. f x = Inr y) xs ys"
  by (induction xs arbitrary: ys) auto

lemma mapR_Inr_length: "mapR f xs = Inr ys \<Longrightarrow> length ys = length xs"
  by (auto dest: mapR_Inr_list_all2 simp: list_all2_lengthD)

lemma mapR_pure: "(\<And>x. x \<in> set xs \<Longrightarrow> f x = Inr (g x)) \<Longrightarrow> mapR f xs = Inr (map g xs)"
  by (induction xs) auto

lemma mapR_Inr_ex: "(\<And>x. x \<in> set xs \<Longrightarrow> \<exists>y. f x = Inr y) \<Longrightarrow> \<exists>ys. mapR f xs = Inr ys"
proof (induction xs)
  case (Cons a xs)
  obtain y where "f a = Inr y" using Cons.prems by force
  moreover obtain ys where "mapR f xs = Inr ys" using Cons by force
  ultimately show ?case by simp
qed simp

fun foldR :: "('b \<Rightarrow> 'a \<Rightarrow> 'e + 'b) \<Rightarrow> 'b \<Rightarrow> 'a list \<Rightarrow> 'e + 'b" where
  "foldR f s [] = Inr s"
| "foldR f s (x # xs) = bindR (f s x) (\<lambda>s'. foldR f s' xs)"

lemma foldR_invariant:
  assumes "foldR f s xs = Inr t" and "P s"
    and "\<And>s x s'. P s \<Longrightarrow> x \<in> set xs \<Longrightarrow> f s x = Inr s' \<Longrightarrow> P s'"
  shows "P t"
  using assms
proof (induction xs arbitrary: s)
  case (Cons x xs)
  from Cons.prems(1) obtain s' where s': "f s x = Inr s'" "foldR f s' xs = Inr t"
    by auto
  from Cons.prems(2,3) s'(1) have "P s'" by (meson list.set_intros(1))
  from Cons.IH [OF s'(2) this] Cons.prems(3) show ?case by (meson list.set_intros(2))
qed simp

lemma foldR_append: "foldR f s (xs @ ys) = bindR (foldR f s xs) (\<lambda>s'. foldR f s' ys)"
  by (induction xs arbitrary: s) (simp_all add: bindR_assoc)

section \<open>Integers\<close>

text \<open>The truncating quotient agrees with \<open>div\<close> where the sources stay non-negative.\<close>

lemma sdiv_nonneg [pos_arith]: "0 \<le> a \<Longrightarrow> 0 < b \<Longrightarrow> a sdiv b = a div (b::int)"
  by (auto simp: signed_divide_int_eq_divide_int sgn_if)

lemma div_mult_le_self: "0 < d \<Longrightarrow> (a div d) * d \<le> (a::int)"
  by (metis div_mult_mod_eq le_add_same_cancel1 pos_mod_sign)

lemma self_less_div_mult: "0 < d \<Longrightarrow> (a::int) < (a div d + 1) * d"
  by (metis add.commute div_mult_mod_eq distrib_right mult_1 add_less_cancel_left
      pos_mod_bound)

lemma le_div_iff_mult: "0 < d \<Longrightarrow> (k::int) \<le> a div d \<longleftrightarrow> k * d \<le> a"
  by (metis div_mult_le_self mult_right_mono nonzero_mult_div_cancel_right order_less_le
      order_trans zdiv_mono1 less_le)

lemma muldiv_nonneg [pos_arith]: "0 \<le> a \<Longrightarrow> 0 \<le> b \<Longrightarrow> 0 < d \<Longrightarrow> 0 \<le> (a * b) div (d::int)"
  by (simp add: pos_imp_zdiv_nonneg_iff)

lemma muldiv_le [pos_arith]:
  assumes "0 \<le> a" "b \<le> d" "0 < d"
  shows "(a * b) div d \<le> (a::int)"
proof -
  have "a * b \<le> a * d" using assms by (simp add: mult_left_mono)
  then have "(a * b) div d \<le> (a * d) div d" using assms(3) by (rule zdiv_mono1)
  also have "(a * d) div d = a" using assms(3) by simp
  finally show ?thesis .
qed

lemma muldiv_mono [pos_arith]:
  assumes "0 \<le> a" "a \<le> a'" "0 \<le> b" "b \<le> b'" "0 < d"
  shows "(a * b) div d \<le> (a' * b') div (d::int)"
  using assms by (intro zdiv_mono1 mult_mono) auto

lemma sum_list_nonneg_int: "(\<And>x. x \<in> set xs \<Longrightarrow> 0 \<le> x) \<Longrightarrow> 0 \<le> sum_list (xs :: int list)"
  by (induction xs) auto

lemma sum_list_map_le:
  "(\<And>x. x \<in> set xs \<Longrightarrow> f x \<le> (g x :: int)) \<Longrightarrow> sum_list (map f xs) \<le> sum_list (map g xs)"
  by (induction xs) (auto intro: add_mono)

section \<open>Lists, sets and maps in insertion order\<close>

fun indexOf :: "'a \<Rightarrow> 'a list \<Rightarrow> int" where
  "indexOf x [] = -1"
| "indexOf x (y # ys) = (if x = y then 0 else let i = indexOf x ys in if i < 0 then -1 else i + 1)"

definition set_add :: "'a \<Rightarrow> 'a list \<Rightarrow> 'a list" where
  "set_add x xs = (if x \<in> set xs then xs else xs @ [x])"

lemma set_set_add [simp]: "set (set_add x xs) = insert x (set xs)"
  by (auto simp: set_add_def)

lemma distinct_set_add [simp]: "distinct (set_add x xs) \<longleftrightarrow> distinct xs"
  by (auto simp: set_add_def)

definition set_adds :: "'a list \<Rightarrow> 'a list \<Rightarrow> 'a list" where
  "set_adds ys xs = fold set_add ys xs"

lemma set_set_adds [simp]: "set (set_adds ys xs) = set ys \<union> set xs"
  unfolding set_adds_def by (induction ys arbitrary: xs) auto

lemma distinct_set_adds [simp]: "distinct (set_adds ys xs) \<longleftrightarrow> distinct xs"
  unfolding set_adds_def by (induction ys arbitrary: xs) auto

text \<open>The values of a JavaScript map, in insertion order.\<close>

definition map_values :: "('k \<times> 'v) list \<Rightarrow> 'v list" where
  "map_values m = map snd m"

lemma map_of_update_alist [simp]: "map_of (AList.update k v m) k' = (if k' = k then Some v else map_of m k')"
  by (simp add: update_conv)

lemma update_absent: "k \<notin> fst ` set m \<Longrightarrow> AList.update k v m = m @ [(k, v)]"
  by (induction m) auto

lemma sum_values_update_present:
  "map_of m k = Some e \<Longrightarrow>
   sum_list (map f (map_values (AList.update k v m))) = sum_list (map f (map_values m)) - f e + (f v :: int)"
  by (induction m) (auto simp: map_values_def)

lemma keys_update: "map fst (AList.update k v m) = (if k \<in> set (map fst m) then map fst m else map fst m @ [k])"
  by (induction m) auto

lemma in_values_update:
  "x \<in> set (map_values (AList.update k v m)) \<Longrightarrow> x = v \<or> x \<in> set (map_values m)"
  by (induction m) (auto simp: map_values_def split: if_splits)

lemma sum_list_div_le:
  assumes "0 < d"
  shows "sum_list (map (\<lambda>x. f x div d) xs) \<le> sum_list (map f xs) div (d :: int)"
proof (induction xs)
  case (Cons x xs)
  have "f x div d + sum_list (map f xs) div d \<le> (f x + sum_list (map f xs)) div d"
    using assms by (simp add: le_div_iff_mult distrib_right div_mult_le_self add_mono)
  with Cons show ?case by simp
qed simp

lemma find_Some_in: "find P xs = Some x \<Longrightarrow> x \<in> set xs \<and> P x"
  by (auto simp: find_Some_iff)

lemma find_None_iff_all: "find P xs = None \<longleftrightarrow> (\<forall>x\<in>set xs. \<not> P x)"
  by (auto simp: find_None_iff)

definition option_default :: "'a option \<Rightarrow> 'a \<Rightarrow> 'a" where
  "option_default x d = (case x of None \<Rightarrow> d | Some y \<Rightarrow> y)"

lemma option_default_simps [simp]:
  "option_default None d = d" "option_default (Some y) d = y"
  by (simp_all add: option_default_def)

definition option_or :: "'a option \<Rightarrow> 'a option \<Rightarrow> 'a option" where
  "option_or x y = (case x of None \<Rightarrow> y | Some v \<Rightarrow> Some v)"

lemma option_or_simps [simp]: "option_or None y = y" "option_or (Some v) y = Some v"
  by (simp_all add: option_or_def)

lemma option_or_None_right [simp]: "option_or x None = x"
  by (cases x) simp_all

text \<open>What an update leaves in an association list.\<close>

lemma set_update_subset: "set (AList.update k v m) \<subseteq> insert (k, v) (set m)"
  by (induction m) auto

end
