(* ===== verification/Js_Strings.thy ===== *)
theory Js_Strings
  imports Usance_Prelude
begin

text \<open>
  The string operations of JavaScript that the modelled code uses, on character lists whose
  characters are code units below 256: decimal printing and reading of \<open>bigint\<close>, padding,
  slicing, trimming and thousands separators, and the laws between them.
\<close>

section \<open>Digits\<close>

definition is_digit :: "char \<Rightarrow> bool" where
  "is_digit c \<longleftrightarrow> 48 \<le> (of_char c :: nat) \<and> (of_char c :: nat) \<le> 57"

definition digit_val :: "char \<Rightarrow> nat" where
  "digit_val c = of_char c - 48"

definition digit_char :: "nat \<Rightarrow> char" where
  "digit_char d = char_of (48 + d)"

lemma of_char_digit_char: "d < 10 \<Longrightarrow> (of_char (digit_char d) :: nat) = 48 + d"
  by (simp add: digit_char_def)

lemma digit_char_roundtrip [simp]: "d < 10 \<Longrightarrow> digit_val (digit_char d) = d"
  by (simp add: digit_val_def of_char_digit_char)

lemma is_digit_digit_char [simp]: "d < 10 \<Longrightarrow> is_digit (digit_char d)"
  by (simp add: is_digit_def of_char_digit_char)

lemma digit_val_less: "is_digit c \<Longrightarrow> digit_val c < 10"
  unfolding is_digit_def digit_val_def by linarith

lemma digit_char_digit_val: "is_digit c \<Longrightarrow> digit_char (digit_val c) = c"
  by (simp add: is_digit_def digit_val_def digit_char_def)

lemma digit_char_0 [simp]: "digit_char 0 = CHR ''0''"
  by (simp add: digit_char_def char_of_def bit_Suc_0_iff)

lemma digit_val_0 [simp]: "digit_val (CHR ''0'') = 0"
  by (simp add: digit_val_def)

lemma is_digit_0 [simp]: "is_digit (CHR ''0'')"
  by (simp add: is_digit_def)

lemma digit_val_zero_iff: "is_digit c \<Longrightarrow> digit_val c = 0 \<longleftrightarrow> c = CHR ''0''"
  using digit_char_digit_val [of c] by auto

section \<open>Printing and reading decimal numbers\<close>

fun show_nat :: "nat \<Rightarrow> string" where
  "show_nat n = (if n < 10 then [digit_char n] else show_nat (n div 10) @ [digit_char (n mod 10)])"

declare show_nat.simps [simp del]

definition show_int :: "int \<Rightarrow> string" where
  "show_int i = (if i < 0 then ''-'' @ show_nat (nat (- i)) else show_nat (nat i))"

definition nat_of_digits :: "string \<Rightarrow> nat" where
  "nat_of_digits s = foldl (\<lambda>a c. 10 * a + digit_val c) 0 s"

lemma nat_of_digits_snoc [simp]: "nat_of_digits (s @ [c]) = 10 * nat_of_digits s + digit_val c"
  by (simp add: nat_of_digits_def)

lemma nat_of_digits_Nil [simp]: "nat_of_digits [] = 0"
  by (simp add: nat_of_digits_def)

lemma nat_of_digits_show_nat [simp]: "nat_of_digits (show_nat n) = n"
proof (induction n rule: show_nat.induct)
  case (1 n)
  show ?case
  proof (cases "n < 10")
    case True
    then show ?thesis by (simp add: show_nat.simps nat_of_digits_def)
  next
    case False
    with 1 show ?thesis by (subst show_nat.simps) simp
  qed
qed

lemma show_nat_digits: "\<forall>c\<in>set (show_nat n). is_digit c"
proof (induction n rule: show_nat.induct)
  case (1 n)
  then show ?case by (subst show_nat.simps) auto
qed

lemma show_nat_nonempty [simp]: "show_nat n \<noteq> []"
  by (subst show_nat.simps) simp

lemma show_nat_inj [simp]: "show_nat m = show_nat n \<longleftrightarrow> m = n"
  by (metis nat_of_digits_show_nat)

lemma nat_of_digits_append:
  "nat_of_digits (s @ t) = nat_of_digits s * 10 ^ length t + nat_of_digits t"
proof (induction t rule: rev_induct)
  case (snoc c t)
  have "nat_of_digits (s @ t @ [c]) = 10 * nat_of_digits (s @ t) + digit_val c"
    using nat_of_digits_snoc [of "s @ t" c] by simp
  with snoc show ?case by (simp add: algebra_simps)
qed simp

lemma nat_of_digits_bound: "\<forall>c\<in>set s. is_digit c \<Longrightarrow> nat_of_digits s < 10 ^ length s"
proof (induction s rule: rev_induct)
  case (snoc c s)
  then have "nat_of_digits s + 1 \<le> 10 ^ length s" and "digit_val c < 10"
    by (auto simp: digit_val_less Suc_leI)
  then have "10 * nat_of_digits s + digit_val c < 10 * 10 ^ length s" by linarith
  then show ?case by simp
qed simp

lemma nat_of_digits_replicate_zero [simp]: "nat_of_digits (replicate k (CHR ''0'')) = 0"
proof (induction k)
  case (Suc k)
  have "nat_of_digits (replicate k (CHR ''0'') @ [CHR ''0'']) = 0"
    using Suc by (simp add: digit_val_def)
  then show ?case by (simp add: replicate_append_same)
qed simp

lemma length_show_nat_le: "n < 10 ^ k \<Longrightarrow> 0 < k \<Longrightarrow> length (show_nat n) \<le> k"
proof (induction n arbitrary: k rule: show_nat.induct)
  case (1 n)
  show ?case
  proof (cases "n < 10")
    case True
    then show ?thesis using 1 by (simp add: show_nat.simps)
  next
    case False
    then have "k \<noteq> 1" using "1.prems" by auto
    then obtain j where k: "k = Suc j" "0 < j"
      using "1.prems" by (cases k) auto
    have "n div 10 < 10 ^ j" using "1.prems" k by auto
    with "1.IH" [OF False] k have "length (show_nat (n div 10)) \<le> j" by blast
    with k False show ?thesis by (subst show_nat.simps) simp
  qed
qed

text \<open>Strings that \<open>toString(10)\<close> can return: no sign, no leading zero.\<close>

definition canonical_decimal :: "string \<Rightarrow> bool" where
  "canonical_decimal s \<longleftrightarrow>
     s = ''0'' \<or> (s \<noteq> [] \<and> hd s \<noteq> CHR ''0'' \<and> (\<forall>c\<in>set s. is_digit c))"

lemma show_nat_hd: "0 < n \<Longrightarrow> hd (show_nat n) \<noteq> CHR ''0''"
proof (induction n rule: show_nat.induct)
  case (1 n)
  show ?case
  proof (cases "n < 10")
    case True
    then have "digit_char n \<noteq> CHR ''0''"
      using "1.prems" by (metis digit_char_roundtrip digit_val_0 less_irrefl)
    with True show ?thesis by (subst show_nat.simps) simp
  next
    case False
    then have "0 < n div 10" by auto
    with 1 False show ?thesis by (subst show_nat.simps) simp
  qed
qed

lemma canonical_show_nat: "canonical_decimal (show_nat n)"
proof (cases "n = 0")
  case True
  then show ?thesis by (simp add: show_nat.simps canonical_decimal_def)
next
  case False
  then show ?thesis
    using show_nat_hd [of n] show_nat_digits [of n] by (simp add: canonical_decimal_def)
qed

lemma nat_of_digits_pos:
  assumes "s \<noteq> []" "hd s \<noteq> CHR ''0''" "\<forall>c\<in>set s. is_digit c"
  shows "10 ^ (length s - 1) \<le> nat_of_digits s"
proof -
  obtain c t where s: "s = c # t" using assms(1) by (cases s) auto
  have "digit_val c \<noteq> 0" using assms s digit_val_zero_iff [of c] by auto
  then have "10 ^ length t \<le> digit_val c * 10 ^ length t" by simp
  moreover have "nat_of_digits s = digit_val c * 10 ^ length t + nat_of_digits t"
    using nat_of_digits_append [of "[c]" t] s by (simp add: nat_of_digits_def)
  ultimately show ?thesis using s by (simp add: trans_le_add1)
qed

lemma show_nat_of_digits: "canonical_decimal s \<Longrightarrow> show_nat (nat_of_digits s) = s"
proof (induction s rule: rev_induct)
  case (snoc c s)
  show ?case
  proof (cases "s = []")
    case True
    then show ?thesis
      using snoc.prems digit_char_digit_val [of c] digit_val_less [of c]
      by (subst show_nat.simps) (auto simp: canonical_decimal_def nat_of_digits_def)
  next
    case False
    have dig: "\<forall>c\<in>set (s @ [c]). is_digit c" and hd: "hd s \<noteq> CHR ''0''"
      using snoc.prems False by (auto simp: canonical_decimal_def)
    then have can: "canonical_decimal s" using False by (simp add: canonical_decimal_def)
    have "10 ^ (length s - 1) \<le> nat_of_digits s"
      using False hd dig by (intro nat_of_digits_pos) auto
    then have "0 < nat_of_digits s" by (metis gr0I le_zero_eq power_not_zero zero_neq_numeral)
    then have "\<not> nat_of_digits (s @ [c]) < 10" by simp
    moreover have "digit_val c < 10" "digit_char (digit_val c) = c"
      using dig by (auto simp: digit_val_less digit_char_digit_val)
    ultimately show ?thesis
      using snoc.IH [OF can] by (subst show_nat.simps) auto
  qed
qed (simp add: canonical_decimal_def)

section \<open>Trimming, padding, splitting, letter case\<close>

definition is_ws :: "char \<Rightarrow> bool" where
  "is_ws c \<longleftrightarrow> (of_char c :: nat) \<in> {9, 10, 11, 12, 13, 32, 160}"

definition trim :: "string \<Rightarrow> string" where
  "trim s = rev (dropWhile is_ws (rev (dropWhile is_ws s)))"

definition padStart :: "string \<Rightarrow> nat \<Rightarrow> char \<Rightarrow> string" where
  "padStart s n c = replicate (n - length s) c @ s"

definition padEnd :: "string \<Rightarrow> nat \<Rightarrow> char \<Rightarrow> string" where
  "padEnd s n c = s @ replicate (n - length s) c"

fun join_with :: "string \<Rightarrow> string list \<Rightarrow> string" where
  "join_with sep [] = []"
| "join_with sep [x] = x"
| "join_with sep (x # y # xs) = x @ sep @ join_with sep (y # xs)"

fun split_on :: "char \<Rightarrow> string \<Rightarrow> string list" where
  "split_on d [] = [[]]"
| "split_on d (c # cs) =
     (if c = d then [] # split_on d cs
      else case split_on d cs of [] \<Rightarrow> [[c]] | w # ws \<Rightarrow> (c # w) # ws)"

text \<open>\<open>toLowerCase\<close> on code units below 256.\<close>

definition lower_char :: "char \<Rightarrow> char" where
  "lower_char c =
     (let n = of_char c :: nat
      in if (65 \<le> n \<and> n \<le> 90) \<or> (192 \<le> n \<and> n \<le> 222 \<and> n \<noteq> 215) then char_of (n + 32) else c)"

definition toLowerCase :: "string \<Rightarrow> string" where
  "toLowerCase s = map lower_char s"

lemma is_digit_not_ws: "is_digit c \<Longrightarrow> \<not> is_ws c"
  by (auto simp: is_digit_def is_ws_def)

lemma dropWhile_none: "\<forall>c\<in>set s. \<not> P c \<Longrightarrow> dropWhile P s = s"
  by (cases s) auto

lemma trim_no_ws: "\<forall>c\<in>set s. \<not> is_ws c \<Longrightarrow> trim s = s"
  by (simp add: trim_def dropWhile_none)

lemma split_on_absent: "d \<notin> set s \<Longrightarrow> split_on d s = [s]"
  by (induction s) auto

lemma split_on_once: "d \<notin> set s \<Longrightarrow> d \<notin> set t \<Longrightarrow> split_on d (s @ d # t) = [s, t]"
  by (induction s) (auto simp: split_on_absent)

lemma padStart_digits:
  "\<forall>c\<in>set s. is_digit c \<Longrightarrow> \<forall>c\<in>set (padStart s n (CHR ''0'')). is_digit c"
  by (auto simp: padStart_def)

lemma nat_of_digits_padStart [simp]:
  "nat_of_digits (padStart s n (CHR ''0'')) = nat_of_digits s"
  by (simp add: padStart_def nat_of_digits_append)

lemma length_padStart: "length s \<le> n \<Longrightarrow> length (padStart s n c) = n"
  by (simp add: padStart_def)

section \<open>\<open>BigInt(s)\<close>\<close>

definition base_digit :: "nat \<Rightarrow> char \<Rightarrow> nat option" where
  "base_digit b c =
     (let n = of_char c :: nat;
          v = (if 48 \<le> n \<and> n \<le> 57 then Some (n - 48)
               else if 97 \<le> n \<and> n \<le> 102 then Some (n - 87)
               else if 65 \<le> n \<and> n \<le> 70 then Some (n - 55) else None)
      in case v of None \<Rightarrow> None | Some d \<Rightarrow> if d < b then Some d else None)"

fun base_value :: "nat \<Rightarrow> nat \<Rightarrow> string \<Rightarrow> nat option" where
  "base_value b acc [] = Some acc"
| "base_value b acc (c # cs) =
     (case base_digit b c of None \<Rightarrow> None | Some d \<Rightarrow> base_value b (b * acc + d) cs)"

definition digits_in_base :: "nat \<Rightarrow> string \<Rightarrow> int result" where
  "digits_in_base b s =
     (if s = [] then Inl (SyntaxError ''Cannot convert to a BigInt'')
      else case base_value b 0 s of
             None \<Rightarrow> Inl (SyntaxError ''Cannot convert to a BigInt'')
           | Some n \<Rightarrow> Inr (int n))"

definition bigint_of_string :: "string \<Rightarrow> int result" where
  "bigint_of_string s =
     (let t = trim s; p = take 2 t
      in if t = [] then Inr 0
         else if p = ''0x'' \<or> p = ''0X'' then digits_in_base 16 (drop 2 t)
         else if p = ''0o'' \<or> p = ''0O'' then digits_in_base 8 (drop 2 t)
         else if p = ''0b'' \<or> p = ''0B'' then digits_in_base 2 (drop 2 t)
         else if hd t = CHR ''-'' then bindR (digits_in_base 10 (tl t)) (\<lambda>n. Inr (- n))
         else if hd t = CHR ''+'' then digits_in_base 10 (tl t)
         else digits_in_base 10 t)"

lemma base_digit_decimal: "is_digit c \<Longrightarrow> base_digit 10 c = Some (digit_val c)"
  using digit_val_less [of c] by (auto simp: base_digit_def is_digit_def digit_val_def Let_def)

lemma base_value_decimal:
  "\<forall>c\<in>set s. is_digit c \<Longrightarrow> base_value 10 a s = Some (foldl (\<lambda>a c. 10 * a + digit_val c) a s)"
  by (induction s arbitrary: a) (auto simp: base_digit_decimal)

lemma bigint_of_digits:
  assumes "s \<noteq> []" "\<forall>c\<in>set s. is_digit c"
  shows "bigint_of_string s = Inr (int (nat_of_digits s))"
proof -
  have t: "trim s = s" using assms(2) by (simp add: trim_no_ws is_digit_not_ws)
  have letters: "\<not> is_digit (CHR ''x'')" "\<not> is_digit (CHR ''X'')" "\<not> is_digit (CHR ''o'')"
    "\<not> is_digit (CHR ''O'')" "\<not> is_digit (CHR ''b'')" "\<not> is_digit (CHR ''B'')"
    "\<not> is_digit (CHR ''-'')" "\<not> is_digit (CHR ''+'')"
    by (simp_all add: is_digit_def)
  have p: "take 2 s \<noteq> [c, d]" if "\<not> is_digit d" for c d
    using assms(2) that by (metis in_set_takeD list.set_intros(1) list.set_intros(2))
  have h: "is_digit (hd s)" using assms by simp
  have "digits_in_base 10 s = Inr (int (nat_of_digits s))"
    using assms by (simp add: digits_in_base_def base_value_decimal nat_of_digits_def)
  moreover have "hd s \<noteq> CHR ''-''" "hd s \<noteq> CHR ''+''" using h letters by auto
  ultimately show ?thesis
    using assms(1) p letters by (simp add: bigint_of_string_def t Let_def)
qed

lemma bigint_of_show_nat [simp]: "bigint_of_string (show_nat n) = Inr (int n)"
  using bigint_of_digits [OF show_nat_nonempty show_nat_digits] by simp

lemma bigint_of_canonical: "canonical_decimal s \<Longrightarrow> bigint_of_string s = Inr (int (nat_of_digits s))"
  by (rule bigint_of_digits) (auto simp: canonical_decimal_def)

section \<open>Thousands separators\<close>

text \<open>
  \<open>s.replace(/\B(?=(\d{3})+(?!\d))/g, ",")\<close> on an optionally signed run of digits: a comma
  before every group of three digits counted from the right, except at the front of the run.
\<close>

fun commas_rev :: "string \<Rightarrow> string" where
  "commas_rev (a # b # c # d # r) = a # b # c # CHR '','' # commas_rev (d # r)"
| "commas_rev s = s"

definition thousands :: "string \<Rightarrow> string" where
  "thousands s =
     (if s \<noteq> [] \<and> hd s = CHR ''-'' then CHR ''-'' # rev (commas_rev (rev (tl s)))
      else rev (commas_rev (rev s)))"

lemma commas_rev_filter:
  "\<forall>x\<in>set s. x \<noteq> CHR '','' \<Longrightarrow> filter (\<lambda>x. x \<noteq> CHR '','') (commas_rev s) = s"
  by (induction s rule: commas_rev.induct) auto

lemma set_commas_rev: "set (commas_rev s) \<subseteq> insert (CHR '','') (set s)"
  by (induction s rule: commas_rev.induct) auto

lemma thousands_remove_commas:
  assumes "\<forall>x\<in>set s. is_digit x"
  shows "filter (\<lambda>x. x \<noteq> CHR '','') (thousands s) = s"
proof -
  have nc: "\<forall>x\<in>set s. x \<noteq> CHR '',''" and nm: "\<forall>x\<in>set s. x \<noteq> CHR ''-''"
    using assms by (auto simp: is_digit_def)
  then have t: "thousands s = rev (commas_rev (rev s))" by (cases s) (auto simp: thousands_def)
  have "filter (\<lambda>x. x \<noteq> CHR '','') (commas_rev (rev s)) = rev s"
    using nc by (intro commas_rev_filter) simp
  then show ?thesis by (simp add: t rev_filter [symmetric])
qed

end
