(* ===== verification/Risk_Engine.thy ===== *)
theory Risk_Engine
  imports Js_Strings
begin

text \<open>
  The risk pipeline of \<open>packages/domain/src/risk.ts\<close>: rounding, valuation of one asset, the
  portfolio evaluation with its gates and account status, the interest index, and the
  presentation of amounts. A field \<open>f\<close> of a source interface with prefix \<open>x\<close> is the record
  field \<open>x_f\<close>.
\<close>

section \<open>Constants and vocabularies\<close>

definition BPS :: int where "BPS = 10000"
definition WAD :: int where "WAD = 10 ^ 18"
definition USD :: int where "USD = 10 ^ 18"
definition SECONDS_PER_YEAR :: int where "SECONDS_PER_YEAR = 31536000"
definition UINT256_MAX :: int where "UINT256_MAX = 2 ^ 256 - 1"

lemma BPS_pos [simp]: "0 < BPS" "0 \<le> BPS" "BPS \<noteq> 0" by (simp_all add: BPS_def)
lemma WAD_pos [simp]: "0 < WAD" "0 \<le> WAD" "WAD \<noteq> 0" by (simp_all add: WAD_def)
lemma USD_pos [simp]: "0 < USD" "0 \<le> USD" "USD \<noteq> 0" by (simp_all add: USD_def)
lemma SECONDS_PER_YEAR_pos [simp]: "0 < SECONDS_PER_YEAR" by (simp add: SECONDS_PER_YEAR_def)

datatype AccountStatus =
    NORMAL | NO_NEW_RISK | REDUCE_ONLY | MARGIN_CALL | LIQUIDATING | SETTLED | BAD_DEBT

definition ACCOUNT_STATUS :: "AccountStatus list" where
  "ACCOUNT_STATUS =
     [NORMAL, NO_NEW_RISK, REDUCE_ONLY, MARGIN_CALL, LIQUIDATING, SETTLED, BAD_DEBT]"

text \<open>The ladder order of the source's constant array makes the statuses a linear order.\<close>

instantiation AccountStatus :: linorder
begin

definition less_eq_AccountStatus :: "AccountStatus \<Rightarrow> AccountStatus \<Rightarrow> bool" where
  "less_eq_AccountStatus s t \<longleftrightarrow> indexOf s ACCOUNT_STATUS \<le> indexOf t ACCOUNT_STATUS"

definition less_AccountStatus :: "AccountStatus \<Rightarrow> AccountStatus \<Rightarrow> bool" where
  "less_AccountStatus s t \<longleftrightarrow> indexOf s ACCOUNT_STATUS < indexOf t ACCOUNT_STATUS"

instance
proof
  fix x y z :: AccountStatus
  show "x \<le> y \<Longrightarrow> y \<le> x \<Longrightarrow> x = y"
    by (cases x; cases y) (simp_all add: less_eq_AccountStatus_def ACCOUNT_STATUS_def)
qed (auto simp: less_eq_AccountStatus_def less_AccountStatus_def)

end

datatype PassportStatus = PS_NONE | PS_ACTIVE | PS_STALE | PS_CONFLICTED | PS_SUSPENDED | PS_REVOKED

datatype AssetStatus = AS_UNREGISTERED | AS_ACTIVE | AS_PAUSED | AS_SUSPENDED | AS_RETIRED

datatype Gate =
    ORACLE_STALE | ORACLE_INVALID | PASSPORT_STALE | G_CLAIM_CONFLICT | ASSET_SUSPENDED
  | SEQUENCER_DOWN | SEQUENCER_GRACE

text \<open>The string each gate is in the source; \<open>sort()\<close> on gates orders these strings.\<close>

fun gate_name :: "Gate \<Rightarrow> string" where
  "gate_name ORACLE_STALE = ''ORACLE_STALE''"
| "gate_name ORACLE_INVALID = ''ORACLE_INVALID''"
| "gate_name PASSPORT_STALE = ''PASSPORT_STALE''"
| "gate_name G_CLAIM_CONFLICT = ''CLAIM_CONFLICT''"
| "gate_name ASSET_SUSPENDED = ''ASSET_SUSPENDED''"
| "gate_name SEQUENCER_DOWN = ''SEQUENCER_DOWN''"
| "gate_name SEQUENCER_GRACE = ''SEQUENCER_GRACE''"

section \<open>Rounding\<close>

definition mulDiv :: "int \<Rightarrow> int \<Rightarrow> int \<Rightarrow> int result" where
  "mulDiv a b d =
     (if d = 0 then Inl (RangeError ''mulDiv: zero denominator'')
      else if a < 0 \<or> b < 0 then Inl (RangeError ''mulDiv: negative input'')
      else Inr ((a * b) sdiv d))"

definition mulDivUp :: "int \<Rightarrow> int \<Rightarrow> int \<Rightarrow> int result" where
  "mulDivUp a b d =
     (if d = 0 then Inl (RangeError ''mulDivUp: zero denominator'')
      else if a = 0 \<or> b = 0 then Inr 0
      else Inr ((a * b - 1) sdiv d + 1))"

definition pow10 :: "int \<Rightarrow> int result" where
  "pow10 k = (if k < 0 then Inl (RangeError ''Exponent must be non-negative'')
              else Inr (10 ^ nat k))"

definition statusMax :: "AccountStatus list \<Rightarrow> AccountStatus" where
  "statusMax ss = ACCOUNT_STATUS ! nat (foldr (\<lambda>x m. max (indexOf x ACCOUNT_STATUS) m) ss (-1))"

section \<open>Inputs and results\<close>

record ExitTier =
  t_thresholdUsd18 :: int
  t_recoveryBps :: int

record RiskParameters =
  p_initialLtvBps :: int
  p_maintenanceLtvBps :: int
  p_liquidationLtvBps :: int
  p_maxConcentrationBps :: int
  p_haircutMarketBps :: int
  p_haircutLiquidityBps :: int
  p_haircutIssuerBps :: int
  p_haircutSettlementBps :: int
  p_haircutCrosschainBps :: int
  p_maxOracleAge :: int
  p_maxPassportAge :: int

record AssetRiskInput =
  a_assetId :: string
  a_symbol :: "string option"
  a_quantity :: int
  a_decimals :: int
  a_priceUsd18 :: int
  a_priceUpdatedAt :: int
  a_passportCommittedAt :: int
  a_passportStatus :: PassportStatus
  a_redemptionSupported :: bool
  a_redemptionFloorBps :: int
  a_assetStatus :: AssetStatus
  a_params :: RiskParameters
  a_exitCurve :: "ExitTier list"

record AccountInput =
  c_scaledPrincipal :: int
  c_borrowIndex :: int
  c_reservedUsd18 :: int
  c_statusOverride :: AccountStatus

record SequencerInput =
  s_up :: bool
  s_lastRestartAt :: int
  s_gracePeriod :: int

record AssetValuation =
  v_assetId :: string
  v_marketValueUsd18 :: int
  v_haircutMarkUsd18 :: int
  v_stressedExitUsd18 :: int
  v_redemptionFloorUsd18 :: "int option"
  v_recognizedUsd18 :: int
  v_cappedUsd18 :: int

record RiskResult =
  r_perAsset :: "AssetValuation list"
  r_totalRecognizedUsd18 :: int
  r_borrowLimitUsd18 :: int
  r_maintenanceLimitUsd18 :: int
  r_liquidationLimitUsd18 :: int
  r_debtUsd18 :: int
  r_availableBorrowUsd18 :: int
  r_healthFactorWad :: int
  r_status :: AccountStatus
  r_gates :: "Gate list"

section \<open>Valuation\<close>

definition selectRecoveryBps :: "ExitTier list \<Rightarrow> int \<Rightarrow> int result" where
  "selectRecoveryBps curve marketValue =
     (if curve = [] then Inl (RangeError ''exit curve is empty'')
      else case find (\<lambda>tier. marketValue \<le> t_thresholdUsd18 tier) curve of
             Some tier \<Rightarrow> Inr (t_recoveryBps tier)
           | None \<Rightarrow> Inr (t_recoveryBps (last curve)))"

definition haircuts :: "RiskParameters \<Rightarrow> int list" where
  "haircuts p = [p_haircutMarketBps p, p_haircutLiquidityBps p, p_haircutIssuerBps p,
                 p_haircutSettlementBps p, p_haircutCrosschainBps p]"

definition reduce_min :: "int \<Rightarrow> int list \<Rightarrow> int" where
  "reduce_min x xs = foldl (\<lambda>x y. if x < y then x else y) x xs"

definition valueAsset :: "AssetRiskInput \<Rightarrow> AssetValuation result" where
  "valueAsset a =
     bindR (pow10 (a_decimals a)) (\<lambda>scale.
     bindR (mulDiv (a_quantity a) (a_priceUsd18 a) scale) (\<lambda>mv.
     bindR (foldR (\<lambda>m h. mulDiv m (BPS - h) BPS) mv (haircuts (a_params a))) (\<lambda>m.
     bindR (selectRecoveryBps (a_exitCurve a) mv) (\<lambda>rec.
     bindR (mulDiv mv rec BPS) (\<lambda>stressed.
     bindR (if a_redemptionSupported a
            then bindR (mulDiv mv (a_redemptionFloorBps a) BPS) (\<lambda>f. Inr (Some f))
            else Inr None) (\<lambda>floor.
     Inr \<lparr>v_assetId = a_assetId a, v_marketValueUsd18 = mv, v_haircutMarkUsd18 = m,
          v_stressedExitUsd18 = stressed, v_redemptionFloorUsd18 = floor,
          v_recognizedUsd18 = reduce_min m (stressed # (case floor of None \<Rightarrow> [] | Some f \<Rightarrow> [f])),
          v_cappedUsd18 = 0\<rparr>))))))"

definition assetGates :: "AssetRiskInput \<Rightarrow> int \<Rightarrow> Gate list" where
  "assetGates a now =
     (if a_quantity a = 0 then []
      else (if now - a_priceUpdatedAt a > p_maxOracleAge (a_params a) then [ORACLE_STALE] else [])
         @ (if a_priceUsd18 a \<le> 0 then [ORACLE_INVALID] else [])
         @ (if now - a_passportCommittedAt a > p_maxPassportAge (a_params a) then [PASSPORT_STALE] else [])
         @ (if a_passportStatus a = PS_CONFLICTED then [G_CLAIM_CONFLICT] else [])
         @ (if a_passportStatus a = PS_SUSPENDED \<or> a_assetStatus a = AS_SUSPENDED
            then [ASSET_SUSPENDED] else []))"

section \<open>Portfolio evaluation\<close>

fun checkSorted :: "AssetRiskInput list \<Rightarrow> unit result" where
  "checkSorted (x # y # r) =
     bindR (bigint_of_string (a_assetId y)) (\<lambda>iy.
     bindR (bigint_of_string (a_assetId x)) (\<lambda>ix.
     if iy \<le> ix then Inl (RangeError ''assets must be sorted ascending by assetId'')
     else checkSorted (y # r)))"
| "checkSorted _ = Inr ()"

definition collectGates :: "AssetRiskInput list \<Rightarrow> SequencerInput \<Rightarrow> int \<Rightarrow> Gate list" where
  "collectGates assets seq now =
     fold (\<lambda>a g. set_adds (assetGates a now) g) assets
       (if \<not> s_up seq then [SEQUENCER_DOWN]
        else if now - s_lastRestartAt seq < s_gracePeriod seq then [SEQUENCER_GRACE] else [])"

text \<open>The accumulators of the capping pass: the capped valuations and the four totals.\<close>

record CapState =
  k_perAsset :: "AssetValuation list"
  k_total :: int
  k_borrow :: int
  k_maintenance :: int
  k_liquidation :: int

definition capStep :: "int \<Rightarrow> CapState \<Rightarrow> AssetValuation \<times> RiskParameters \<Rightarrow> CapState result" where
  "capStep rawTotal k vp =
     (let v = fst vp; p = snd vp in
      bindR (mulDiv rawTotal (p_maxConcentrationBps p) BPS) (\<lambda>cap.
      let c = (if v_recognizedUsd18 v < cap then v_recognizedUsd18 v else cap) in
      bindR (mulDiv c (p_initialLtvBps p) BPS) (\<lambda>b.
      bindR (mulDiv c (p_maintenanceLtvBps p) BPS) (\<lambda>m.
      bindR (mulDiv c (p_liquidationLtvBps p) BPS) (\<lambda>l.
      Inr \<lparr>k_perAsset = k_perAsset k @ [v\<lparr>v_cappedUsd18 := c\<rparr>], k_total = k_total k + c,
           k_borrow = k_borrow k + b, k_maintenance = k_maintenance k + m,
           k_liquidation = k_liquidation k + l\<rparr>)))))"

definition capPass :: "AssetRiskInput list \<Rightarrow> AssetValuation list \<Rightarrow> CapState result" where
  "capPass assets vs =
     foldR (capStep (sum_list (map v_recognizedUsd18 vs)))
       \<lparr>k_perAsset = [], k_total = 0, k_borrow = 0, k_maintenance = 0, k_liquidation = 0\<rparr>
       (zip vs (map a_params assets))"

definition baseStatus :: "int \<Rightarrow> int \<Rightarrow> int \<Rightarrow> int \<Rightarrow> AccountStatus" where
  "baseStatus debt borrow maintenance liquidation =
     (if debt = 0 \<or> debt \<le> borrow then NORMAL
      else if debt \<le> maintenance then NO_NEW_RISK
      else if debt \<le> liquidation then REDUCE_ONLY
      else MARGIN_CALL)"

definition evaluate ::
  "AssetRiskInput list \<Rightarrow> AccountInput \<Rightarrow> SequencerInput \<Rightarrow> int \<Rightarrow> RiskResult result" where
  "evaluate assets account seq now =
     bindR (checkSorted assets) (\<lambda>_.
     bindR (mapR valueAsset assets) (\<lambda>vs.
     bindR (capPass assets vs) (\<lambda>k.
     bindR (mulDivUp (c_scaledPrincipal account) (c_borrowIndex account) WAD) (\<lambda>debt.
     let gates = collectGates assets seq now;
         base = baseStatus debt (k_borrow k) (k_maintenance k) (k_liquidation k);
         gateFloor = (if gates \<noteq> [] then NO_NEW_RISK else NORMAL);
         status = statusMax [base, gateFloor, c_statusOverride account];
         used = debt + c_reservedUsd18 account;
         available = (if status = NORMAL
                      then (if k_borrow k > used then k_borrow k - used else 0) else 0)
     in bindR (if debt = 0 then Inr UINT256_MAX else mulDiv (k_maintenance k) WAD debt) (\<lambda>hf.
     Inr \<lparr>r_perAsset = k_perAsset k, r_totalRecognizedUsd18 = k_total k,
          r_borrowLimitUsd18 = k_borrow k, r_maintenanceLimitUsd18 = k_maintenance k,
          r_liquidationLimitUsd18 = k_liquidation k, r_debtUsd18 = debt,
          r_availableBorrowUsd18 = available, r_healthFactorWad = hf, r_status = status,
          r_gates = sort_key gate_name gates\<rparr>)))))"

section \<open>Interest\<close>

definition borrowRateBps :: "int \<Rightarrow> int \<Rightarrow> int \<Rightarrow> int \<Rightarrow> int \<Rightarrow> int \<Rightarrow> int result" where
  "borrowRateBps cash borrows base slope1 slope2 kink =
     (if borrows = 0 then Inr base
      else bindR (mulDiv borrows BPS (cash + borrows)) (\<lambda>u.
           if u \<le> kink then bindR (mulDiv u slope1 kink) (\<lambda>x. Inr (base + x))
           else bindR (mulDiv (u - kink) slope2 (BPS - kink)) (\<lambda>x. Inr (base + slope1 + x))))"

definition accrueIndex :: "int \<Rightarrow> int \<Rightarrow> int \<Rightarrow> int result" where
  "accrueIndex index rateBps dt =
     (if dt = 0 \<or> rateBps = 0 then Inr index
      else bindR (mulDiv index (rateBps * dt) (BPS * SECONDS_PER_YEAR)) (\<lambda>x. Inr (index + x)))"

section \<open>Presentation\<close>

definition formatUsd :: "int \<Rightarrow> nat \<Rightarrow> string" where
  "formatUsd usd18 dec =
     (let neg = usd18 < 0; v = (if neg then - usd18 else usd18);
          whole = v sdiv USD; frac = v smod USD;
          fracStr = take dec (padStart (show_int frac) 18 (CHR ''0''));
          wholeStr = thousands (show_int whole)
      in (if neg then ''-'' else '''') @ wholeStr @ (if dec > 0 then ''.'' @ fracStr else ''''))"

definition formatTokens :: "int \<Rightarrow> int \<Rightarrow> nat \<Rightarrow> string result" where
  "formatTokens raw dec displayDecimals =
     bindR (pow10 dec) (\<lambda>unit.
     let whole = raw sdiv unit; frac = raw smod unit;
         fracStr = take displayDecimals (padStart (show_int frac) (nat dec) (CHR ''0''));
         wholeStr = thousands (show_int whole)
     in Inr (if displayDecimals > 0 then wholeStr @ ''.'' @ fracStr else wholeStr))"

text \<open>\<open>/^\d*(\.\d*)?$/\<close>: digits, then optionally a point and digits.\<close>

definition decimal_pattern :: "string \<Rightarrow> bool" where
  "decimal_pattern s \<longleftrightarrow>
     (let rest = dropWhile is_digit s
      in rest = [] \<or> (hd rest = CHR ''.'' \<and> list_all is_digit (tl rest)))"

definition parseUsd :: "string \<Rightarrow> int result" where
  "parseUsd input =
     (let cleaned = trim (filter (\<lambda>c. c \<noteq> CHR '','') input)
      in if \<not> decimal_pattern cleaned \<or> cleaned = [] \<or> cleaned = ''.'' then Inr 0
         else let parts = split_on (CHR ''.'') cleaned;
                  w = (case parts of [] \<Rightarrow> ''0'' | w # _ \<Rightarrow> w);
                  f = (case parts of _ # f # _ \<Rightarrow> f | _ \<Rightarrow> '''')
              in bindR (bigint_of_string w) (\<lambda>wi.
                 bindR (bigint_of_string (take 18 (padEnd f 18 (CHR ''0'')))) (\<lambda>fi.
                 Inr (wi * USD + fi))))"

text \<open>The source renders an account without debt as the infinity sign.\<close>

datatype HealthText = InfinitySign | HealthValue string

definition formatHealth :: "int \<Rightarrow> HealthText" where
  "formatHealth hf = (if hf = UINT256_MAX then InfinitySign else HealthValue (formatUsd hf 2))"

definition explainHaircut :: "AssetValuation \<Rightarrow> string" where
  "explainHaircut v =
     (if v_marketValueUsd18 v = 0 then ''No market value.''
      else if v_recognizedUsd18 v = v_stressedExitUsd18 v
           \<and> v_stressedExitUsd18 v < v_haircutMarkUsd18 v
      then ''Limited by what this position could actually be sold for at this size.''
      else if (case v_redemptionFloorUsd18 v of None \<Rightarrow> False
               | Some f \<Rightarrow> v_recognizedUsd18 v = f \<and> f < v_haircutMarkUsd18 v)
      then ''Limited by what the issuer's redemption terms currently guarantee.''
      else ''Reduced by volatility, liquidity, issuer and settlement buffers.'')"

record GateCopy =
  gc_title :: string
  gc_body :: string
  gc_repair :: string

fun GATE_COPY :: "Gate \<Rightarrow> GateCopy" where
  "GATE_COPY ORACLE_STALE =
     \<lparr>gc_title = ''Price feed is stale'',
      gc_body = ''New borrowing is paused because the market price for one of your assets has not updated recently.'',
      gc_repair = ''You can still repay, add collateral, or reduce exposure.''\<rparr>"
| "GATE_COPY ORACLE_INVALID =
     \<lparr>gc_title = ''No valid price'',
      gc_body = ''The price source for one of your assets is not returning a usable value.'',
      gc_repair = ''You can still repay, add collateral, or reduce exposure.''\<rparr>"
| "GATE_COPY PASSPORT_STALE =
     \<lparr>gc_title = ''Issuer information needs refreshing'',
      gc_body = ''The evidence behind one of your assets is older than policy allows, so it cannot support new borrowing.'',
      gc_repair = ''Review the evidence, or repay to free up room.''\<rparr>"
| "GATE_COPY G_CLAIM_CONFLICT =
     \<lparr>gc_title = ''Conflicting evidence'',
      gc_body = ''Two independent readings of the issuer's documents disagree. Usance will not increase your limits while that is unresolved.'',
      gc_repair = ''View the conflict, or continue using your existing position.''\<rparr>"
| "GATE_COPY ASSET_SUSPENDED =
     \<lparr>gc_title = ''Asset suspended'',
      gc_body = ''One of your assets has been suspended. Your balance is unaffected, but it cannot support new risk.'',
      gc_repair = ''Repay or withdraw as normal.''\<rparr>"
| "GATE_COPY SEQUENCER_DOWN =
     \<lparr>gc_title = ''Network sequencer is down'',
      gc_body = ''X Layer is not currently sequencing, so prices cannot be trusted for new lending decisions.'',
      gc_repair = ''Existing positions are unaffected. Try again once the network recovers.''\<rparr>"
| "GATE_COPY SEQUENCER_GRACE =
     \<lparr>gc_title = ''Network recently recovered'',
      gc_body = ''X Layer restarted recently. Usance waits a short period before trusting prices again.'',
      gc_repair = ''New borrowing resumes automatically.''\<rparr>"

section \<open>Rounding laws\<close>

lemma mulDiv_pos [pos_arith]:
  "0 \<le> a \<Longrightarrow> 0 \<le> b \<Longrightarrow> 0 < d \<Longrightarrow> mulDiv a b d = Inr ((a * b) div d)"
  by (simp add: mulDiv_def sdiv_nonneg)

lemma mulDivUp_pos [pos_arith]:
  "0 \<le> a \<Longrightarrow> 0 \<le> b \<Longrightarrow> 0 < d \<Longrightarrow>
   mulDivUp a b d = Inr (if a * b = 0 then 0 else (a * b - 1) div d + 1)"
  by (cases "a = 0 \<or> b = 0") (auto simp: mulDivUp_def sdiv_nonneg zero_less_mult_iff
      intro!: sdiv_nonneg)

definition ceil_div :: "int \<Rightarrow> int \<Rightarrow> int" where
  "ceil_div x d = (if x = 0 then 0 else (x - 1) div d + 1)"

lemma ceil_div_nonneg: "0 \<le> x \<Longrightarrow> 0 < d \<Longrightarrow> 0 \<le> ceil_div x d"
  by (auto simp: ceil_div_def pos_imp_zdiv_nonneg_iff)

lemma ceil_div_mono: "0 \<le> x \<Longrightarrow> x \<le> y \<Longrightarrow> 0 < d \<Longrightarrow> ceil_div x d \<le> ceil_div y d"
  by (auto simp: ceil_div_def zdiv_mono1 pos_imp_zdiv_nonneg_iff)

lemma mulDivUp_ceil: "0 \<le> a \<Longrightarrow> 0 \<le> b \<Longrightarrow> 0 < d \<Longrightarrow> mulDivUp a b d = Inr (ceil_div (a * b) d)"
  by (simp add: mulDivUp_pos ceil_div_def)

section \<open>Well-formed inputs\<close>

definition bps_ok :: "int \<Rightarrow> bool" where
  "bps_ok b \<longleftrightarrow> 0 \<le> b \<and> b \<le> BPS"

definition valid_params :: "RiskParameters \<Rightarrow> bool" where
  "valid_params p \<longleftrightarrow>
     list_all bps_ok (haircuts p) \<and> bps_ok (p_maxConcentrationBps p) \<and>
     0 \<le> p_initialLtvBps p \<and> p_initialLtvBps p \<le> p_maintenanceLtvBps p \<and>
     p_maintenanceLtvBps p \<le> p_liquidationLtvBps p \<and> p_liquidationLtvBps p \<le> BPS"

definition valid_asset :: "AssetRiskInput \<Rightarrow> bool" where
  "valid_asset a \<longleftrightarrow>
     0 \<le> a_quantity a \<and> 0 \<le> a_priceUsd18 a \<and> 0 \<le> a_decimals a \<and>
     a_exitCurve a \<noteq> [] \<and> list_all (\<lambda>t. bps_ok (t_recoveryBps t)) (a_exitCurve a) \<and>
     bps_ok (a_redemptionFloorBps a) \<and> valid_params (a_params a)"

section \<open>Valuation is conservative\<close>

lemma haircut_fold:
  assumes "list_all bps_ok hs" "0 \<le> m"
  shows "\<exists>m'. foldR (\<lambda>m h. mulDiv m (BPS - h) BPS) m hs = Inr m' \<and> 0 \<le> m' \<and> m' \<le> m"
  using assms
proof (induction hs arbitrary: m)
  case (Cons h hs)
  then have h: "0 \<le> BPS - h" "BPS - h \<le> BPS" by (auto simp: bps_ok_def)
  let ?m = "(m * (BPS - h)) div BPS"
  have m: "0 \<le> ?m" "?m \<le> m" using h Cons.prems by (simp_all add: muldiv_nonneg muldiv_le)
  with Cons.IH [of ?m] Cons.prems h show ?case by (fastforce simp: mulDiv_pos)
qed auto

lemma selectRecoveryBps_ok:
  assumes "curve \<noteq> []" "list_all (\<lambda>t. bps_ok (t_recoveryBps t)) curve"
  shows "\<exists>b. selectRecoveryBps curve mv = Inr b \<and> bps_ok b"
proof (cases "find (\<lambda>tier. mv \<le> t_thresholdUsd18 tier) curve")
  case None
  then show ?thesis using assms by (auto simp: selectRecoveryBps_def list_all_iff)
next
  case (Some t)
  then have "t \<in> set curve" by (auto dest: find_Some_in)
  with Some assms show ?thesis by (auto simp: selectRecoveryBps_def list_all_iff)
qed

definition conservative :: "AssetRiskInput \<Rightarrow> AssetValuation \<Rightarrow> bool" where
  "conservative a v \<longleftrightarrow>
     v_marketValueUsd18 v = (a_quantity a * a_priceUsd18 a) div 10 ^ nat (a_decimals a) \<and>
     0 \<le> v_recognizedUsd18 v \<and>
     v_recognizedUsd18 v \<le> v_haircutMarkUsd18 v \<and> v_haircutMarkUsd18 v \<le> v_marketValueUsd18 v \<and>
     v_recognizedUsd18 v \<le> v_stressedExitUsd18 v \<and> v_stressedExitUsd18 v \<le> v_marketValueUsd18 v \<and>
     (case v_redemptionFloorUsd18 v of
        None \<Rightarrow> \<not> a_redemptionSupported a
      | Some f \<Rightarrow> a_redemptionSupported a \<and> v_recognizedUsd18 v \<le> f \<and> f \<le> v_marketValueUsd18 v) \<and>
     (v_recognizedUsd18 v = v_haircutMarkUsd18 v \<or> v_recognizedUsd18 v = v_stressedExitUsd18 v \<or>
      Some (v_recognizedUsd18 v) = v_redemptionFloorUsd18 v)"

lemma valueAsset_valid:
  assumes "valid_asset a"
  shows "\<exists>v. valueAsset a = Inr v \<and> conservative a v"
proof -
  note va = assms [unfolded valid_asset_def valid_params_def]
  let ?mv = "(a_quantity a * a_priceUsd18 a) div 10 ^ nat (a_decimals a)"
  have mv0: "0 \<le> ?mv" using va by (simp add: pos_imp_zdiv_nonneg_iff)
  obtain m where m: "foldR (\<lambda>m h. mulDiv m (BPS - h) BPS) ?mv (haircuts (a_params a)) = Inr m"
    "0 \<le> m" "m \<le> ?mv"
    using haircut_fold [of "haircuts (a_params a)" ?mv] va mv0 by auto
  obtain b where b: "selectRecoveryBps (a_exitCurve a) ?mv = Inr b" "bps_ok b"
    using selectRecoveryBps_ok va by blast
  have s: "0 \<le> ?mv * b div BPS" "?mv * b div BPS \<le> ?mv"
    using b mv0 by (simp_all add: bps_ok_def muldiv_nonneg muldiv_le)
  have f: "0 \<le> ?mv * a_redemptionFloorBps a div BPS" "?mv * a_redemptionFloorBps a div BPS \<le> ?mv"
    using va mv0 by (simp_all add: bps_ok_def muldiv_nonneg muldiv_le)
  show ?thesis
    using va m b s f mv0
    by (cases "a_redemptionSupported a")
      (simp_all add: valueAsset_def pow10_def mulDiv_pos bps_ok_def conservative_def reduce_min_def)
qed

section \<open>The capping pass\<close>

text \<open>What the pass leaves, stated without the accumulators.\<close>

definition cap_ok :: "int \<Rightarrow> RiskParameters \<Rightarrow> AssetValuation \<Rightarrow> bool" where
  "cap_ok rawTotal p v \<longleftrightarrow>
     0 \<le> v_cappedUsd18 v \<and> v_cappedUsd18 v \<le> v_recognizedUsd18 v \<and>
     v_cappedUsd18 v * BPS \<le> rawTotal * p_maxConcentrationBps p"

definition limits_ok :: "CapState \<Rightarrow> bool" where
  "limits_ok k \<longleftrightarrow>
     0 \<le> k_borrow k \<and> k_borrow k \<le> k_maintenance k \<and> k_maintenance k \<le> k_liquidation k \<and>
     k_liquidation k \<le> k_total k \<and> k_total k = sum_list (map v_cappedUsd18 (k_perAsset k)) \<and>
     k_total k \<le> sum_list (map v_recognizedUsd18 (k_perAsset k))"

lemma capStep_valid:
  assumes "valid_params p" "0 \<le> raw" "0 \<le> v_recognizedUsd18 v" "limits_ok k"
  shows "\<exists>k'. capStep raw k (v, p) = Inr k' \<and> limits_ok k' \<and>
    (\<exists>c. k_perAsset k' = k_perAsset k @ [v\<lparr>v_cappedUsd18 := c\<rparr>] \<and>
         cap_ok raw p (v\<lparr>v_cappedUsd18 := c\<rparr>))"
proof -
  note vp = assms(1) [unfolded valid_params_def bps_ok_def]
  define cap where "cap = (raw * p_maxConcentrationBps p) div BPS"
  define c where "c = (if v_recognizedUsd18 v < cap then v_recognizedUsd18 v else cap)"
  have cap: "0 \<le> cap" "cap * BPS \<le> raw * p_maxConcentrationBps p"
    using vp assms(2) by (simp_all add: cap_def muldiv_nonneg div_mult_le_self)
  have c: "0 \<le> c" "c \<le> v_recognizedUsd18 v" "c \<le> cap"
    using cap assms(3) by (auto simp: c_def)
  have "c * BPS \<le> cap * BPS" using c(3) by simp
  with cap have cB: "c * BPS \<le> raw * p_maxConcentrationBps p" by linarith
  have nn: "0 \<le> p_maxConcentrationBps p" "0 \<le> p_initialLtvBps p" "0 \<le> p_maintenanceLtvBps p"
    "0 \<le> p_liquidationLtvBps p"
    using vp by auto
  have l: "0 \<le> c * p_initialLtvBps p div BPS"
    "c * p_initialLtvBps p div BPS \<le> c * p_maintenanceLtvBps p div BPS"
    "c * p_maintenanceLtvBps p div BPS \<le> c * p_liquidationLtvBps p div BPS"
    "c * p_liquidationLtvBps p div BPS \<le> c"
    using c vp nn by (auto intro!: muldiv_mono muldiv_nonneg muldiv_le)
  have "capStep raw k (v, p) =
      Inr \<lparr>k_perAsset = k_perAsset k @ [v\<lparr>v_cappedUsd18 := c\<rparr>], k_total = k_total k + c,
        k_borrow = k_borrow k + c * p_initialLtvBps p div BPS,
        k_maintenance = k_maintenance k + c * p_maintenanceLtvBps p div BPS,
        k_liquidation = k_liquidation k + c * p_liquidationLtvBps p div BPS\<rparr>"
    using nn c assms(2)
    by (simp add: capStep_def mulDiv_pos Let_def cap_def [symmetric] c_def [symmetric])
  with assms(4) l c cB show ?thesis by (auto simp: limits_ok_def cap_ok_def)
qed

lemma capPass_fold:
  assumes "\<forall>(v, p)\<in>set vps. valid_params p \<and> 0 \<le> v_recognizedUsd18 v" "0 \<le> raw" "limits_ok k"
  shows "\<exists>k' ws. foldR (capStep raw) k vps = Inr k' \<and> limits_ok k' \<and>
    k_perAsset k' = k_perAsset k @ ws \<and>
    list_all2 (\<lambda>vp w. cap_ok raw (snd vp) w \<and> w\<lparr>v_cappedUsd18 := v_cappedUsd18 (fst vp)\<rparr> = fst vp) vps ws"
  using assms
proof (induction vps arbitrary: k)
  case (Cons vp vps)
  obtain v p where vp: "vp = (v, p)" by (cases vp)
  from Cons.prems vp obtain k' c where k': "capStep raw k (v, p) = Inr k'" "limits_ok k'"
    "k_perAsset k' = k_perAsset k @ [v\<lparr>v_cappedUsd18 := c\<rparr>]" "cap_ok raw p (v\<lparr>v_cappedUsd18 := c\<rparr>)"
    using capStep_valid [of p raw v k] by auto
  from Cons.IH [of k'] Cons.prems k' obtain k'' ws where
    "foldR (capStep raw) k' vps = Inr k''" "limits_ok k''" "k_perAsset k'' = k_perAsset k' @ ws"
    "list_all2 (\<lambda>vp w. cap_ok raw (snd vp) w \<and> w\<lparr>v_cappedUsd18 := v_cappedUsd18 (fst vp)\<rparr> = fst vp) vps ws"
    by auto
  with k' vp show ?case
    by (intro exI [of _ k''] exI [of _ "v\<lparr>v_cappedUsd18 := c\<rparr> # ws"]) simp
qed (auto simp: limits_ok_def)

section \<open>The account status\<close>

lemma status_of_index [simp]: "ACCOUNT_STATUS ! nat (indexOf s ACCOUNT_STATUS) = s"
  by (cases s) (simp_all add: ACCOUNT_STATUS_def)

lemma status_index_nonneg: "0 \<le> indexOf (s :: AccountStatus) ACCOUNT_STATUS"
  by (cases s) (simp_all add: ACCOUNT_STATUS_def)

lemma status_index_max:
  "max (indexOf s ACCOUNT_STATUS) (indexOf t ACCOUNT_STATUS) = indexOf (max s t) ACCOUNT_STATUS"
  by (auto simp: max_def less_eq_AccountStatus_def)

lemma statusMax_eq_Max: "ss \<noteq> [] \<Longrightarrow> statusMax ss = Max (set ss)"
proof -
  have "ss \<noteq> [] \<Longrightarrow>
    foldr (\<lambda>x m. max (indexOf x ACCOUNT_STATUS) m) ss (-1) = indexOf (Max (set ss)) ACCOUNT_STATUS"
  proof (induction ss)
    case (Cons s ss)
    show ?case
    proof (cases "ss = []")
      case True
      then show ?thesis using status_index_nonneg [of s] by simp
    next
      case False
      with Cons.IH show ?thesis by (simp add: status_index_max)
    qed
  qed simp
  then show "ss \<noteq> [] \<Longrightarrow> statusMax ss = Max (set ss)" by (simp add: statusMax_def)
qed

lemma NORMAL_least [simp]: "NORMAL \<le> s"
  by (cases s) (simp_all add: less_eq_AccountStatus_def ACCOUNT_STATUS_def)

lemma statusMax_NORMAL_iff: "statusMax [a, b, c] = NORMAL \<longleftrightarrow> a = NORMAL \<and> b = NORMAL \<and> c = NORMAL"
  using NORMAL_least by (auto simp: statusMax_eq_Max max_def dest: antisym)

lemma statusMax_mono: "a \<le> a' \<Longrightarrow> statusMax [a, b, c] \<le> statusMax [a', b, c]"
proof -
  have "statusMax [x, b, c] = max x (max b c)" for x by (simp add: statusMax_eq_Max max.assoc)
  moreover assume "a \<le> a'"
  ultimately show ?thesis by (simp only: max.mono order_refl)
qed

lemma baseStatus_mono:
  "0 \<le> debt \<Longrightarrow> debt \<le> debt' \<Longrightarrow> baseStatus debt b m l \<le> baseStatus debt' b m l"
  by (auto simp: baseStatus_def less_eq_AccountStatus_def ACCOUNT_STATUS_def)

section \<open>What a successful evaluation computed\<close>

definition evaluation_facts ::
  "AssetRiskInput list \<Rightarrow> AccountInput \<Rightarrow> SequencerInput \<Rightarrow> int \<Rightarrow> RiskResult \<Rightarrow>
   AssetValuation list \<Rightarrow> CapState \<Rightarrow> int \<Rightarrow> bool" where
  "evaluation_facts assets account seq now r vs k debt \<longleftrightarrow>
     mapR valueAsset assets = Inr vs \<and> capPass assets vs = Inr k \<and>
     mulDivUp (c_scaledPrincipal account) (c_borrowIndex account) WAD = Inr debt \<and>
     (if debt = 0 then Inr UINT256_MAX else mulDiv (k_maintenance k) WAD debt) = Inr (r_healthFactorWad r) \<and>
     r_perAsset r = k_perAsset k \<and> r_totalRecognizedUsd18 r = k_total k \<and>
     r_borrowLimitUsd18 r = k_borrow k \<and> r_maintenanceLimitUsd18 r = k_maintenance k \<and>
     r_liquidationLimitUsd18 r = k_liquidation k \<and> r_debtUsd18 r = debt \<and>
     r_status r = statusMax [baseStatus debt (k_borrow k) (k_maintenance k) (k_liquidation k),
       if collectGates assets seq now \<noteq> [] then NO_NEW_RISK else NORMAL, c_statusOverride account] \<and>
     r_availableBorrowUsd18 r = (if r_status r = NORMAL then
       (if k_borrow k > debt + c_reservedUsd18 account
        then k_borrow k - (debt + c_reservedUsd18 account) else 0) else 0) \<and>
     r_gates r = sort_key gate_name (collectGates assets seq now)"

lemma evaluate_facts:
  assumes "evaluate assets account seq now = Inr r"
  shows "\<exists>vs k debt. evaluation_facts assets account seq now r vs k debt"
  using assms unfolding evaluate_def Let_def evaluation_facts_def
  by (elim bindR_InrE) (auto split: if_splits)

lemma valueAsset_all:
  assumes "\<forall>a\<in>set assets. valid_asset a" "mapR valueAsset assets = Inr vs"
  shows "list_all2 conservative assets vs"
proof -
  have "list_all2 (\<lambda>a v. valueAsset a = Inr v) assets vs"
    using assms(2) by (rule mapR_Inr_list_all2)
  moreover have "conservative a v" if "a \<in> set assets" "valueAsset a = Inr v" for a v
    using assms(1) valueAsset_valid that by fastforce
  ultimately show ?thesis by (auto simp: list_all2_conv_all_nth)
qed

lemma capPass_ok:
  assumes "\<forall>a\<in>set assets. valid_asset a" "mapR valueAsset assets = Inr vs"
  shows "\<exists>k. capPass assets vs = Inr k \<and> limits_ok k \<and>
    list_all2 (\<lambda>vp w. cap_ok (sum_list (map v_recognizedUsd18 vs)) (snd vp) w \<and>
                 w\<lparr>v_cappedUsd18 := v_cappedUsd18 (fst vp)\<rparr> = fst vp)
      (zip vs (map a_params assets)) (k_perAsset k)"
proof -
  have cons: "list_all2 conservative assets vs" using assms by (rule valueAsset_all)
  have rec: "\<forall>v\<in>set vs. 0 \<le> v_recognizedUsd18 v"
    using cons by (auto simp: list_all2_conv_all_nth in_set_conv_nth conservative_def)
  then have raw: "0 \<le> sum_list (map v_recognizedUsd18 vs)" by (intro sum_list_nonneg_int) auto
  have "\<forall>(v, p)\<in>set (zip vs (map a_params assets)). valid_params p \<and> 0 \<le> v_recognizedUsd18 v"
    using rec assms(1) by (fastforce simp: valid_asset_def dest: set_zip_leftD set_zip_rightD)
  from capPass_fold [OF this raw, of "\<lparr>k_perAsset = [], k_total = 0, k_borrow = 0, k_maintenance = 0, k_liquidation = 0\<rparr>"]
  show ?thesis by (auto simp: capPass_def limits_ok_def)
qed


lemma perAsset_facts:
  assumes "\<forall>a\<in>set assets. valid_asset a" "mapR valueAsset assets = Inr vs" "capPass assets vs = Inr k"
  shows "limits_ok k" "length (k_perAsset k) = length assets"
    "map v_recognizedUsd18 (k_perAsset k) = map v_recognizedUsd18 vs"
    "\<forall>i<length assets. cap_ok (sum_list (map v_recognizedUsd18 vs)) (a_params (assets ! i)) (k_perAsset k ! i) \<and>
       v_recognizedUsd18 (k_perAsset k ! i) \<le> v_marketValueUsd18 (k_perAsset k ! i)"
proof -
  have cons: "list_all2 conservative assets vs" using assms(1,2) by (rule valueAsset_all)
  then have len: "length vs = length assets" by (simp add: list_all2_lengthD)
  from capPass_ok [OF assms(1,2)] assms(3) have k: "limits_ok k"
    and l2: "list_all2 (\<lambda>vp w. cap_ok (sum_list (map v_recognizedUsd18 vs)) (snd vp) w \<and>
        w\<lparr>v_cappedUsd18 := v_cappedUsd18 (fst vp)\<rparr> = fst vp) (zip vs (map a_params assets)) (k_perAsset k)"
    by auto
  show "limits_ok k" by (rule k)
  show lk: "length (k_perAsset k) = length assets" using list_all2_lengthD [OF l2] len by simp
  have nth: "cap_ok (sum_list (map v_recognizedUsd18 vs)) (a_params (assets ! i)) (k_perAsset k ! i) \<and>
      (k_perAsset k ! i)\<lparr>v_cappedUsd18 := v_cappedUsd18 (vs ! i)\<rparr> = vs ! i" if "i < length assets" for i
    using list_all2_nthD2 [OF l2, of i] that lk len by simp
  have same: "v_recognizedUsd18 (k_perAsset k ! i) = v_recognizedUsd18 (vs ! i) \<and>
      v_marketValueUsd18 (k_perAsset k ! i) = v_marketValueUsd18 (vs ! i)" if "i < length assets" for i
    using nth [OF that] by (metis AssetValuation.select_convs(2,6) AssetValuation.surjective
        AssetValuation.update_convs(7))
  show "map v_recognizedUsd18 (k_perAsset k) = map v_recognizedUsd18 vs"
    using same lk len by (intro nth_equalityI) auto
  have "v_recognizedUsd18 (vs ! i) \<le> v_marketValueUsd18 (vs ! i)" if "i < length assets" for i
    using list_all2_nthD [OF cons that] by (auto simp: conservative_def)
  with nth same show "\<forall>i<length assets. cap_ok (sum_list (map v_recognizedUsd18 vs))
      (a_params (assets ! i)) (k_perAsset k ! i) \<and>
      v_recognizedUsd18 (k_perAsset k ! i) \<le> v_marketValueUsd18 (k_perAsset k ! i)" by auto
qed

lemma collectGates_no_dup: "distinct (collectGates assets seq now)"
proof -
  have "distinct (fold (\<lambda>a g. set_adds (assetGates a now) g) assets g)" if "distinct g" for g
    using that by (induction assets arbitrary: g) auto
  then show ?thesis by (simp add: collectGates_def)
qed

lemma set_collectGates:
  "set (collectGates assets seq now) = (\<Union>a\<in>set assets. set (assetGates a now)) \<union>
     (if \<not> s_up seq then {SEQUENCER_DOWN}
      else if now - s_lastRestartAt seq < s_gracePeriod seq then {SEQUENCER_GRACE} else {})"
proof -
  have "set (fold (\<lambda>a g. set_adds (assetGates a now) g) assets g) =
      (\<Union>a\<in>set assets. set (assetGates a now)) \<union> set g" for g
    by (induction assets arbitrary: g) auto
  then show ?thesis by (auto simp: collectGates_def)
qed

section \<open>Interest\<close>

lemma utilisation_bounds:
  assumes "0 \<le> cash" "0 < b"
  shows "0 \<le> b * BPS div (cash + b)" "b * BPS div (cash + b) \<le> BPS"
  using assms muldiv_le [of BPS b "cash + b"]
  by (auto simp: pos_imp_zdiv_nonneg_iff mult.commute)

lemma utilisation_mono:
  assumes "0 \<le> cash" "0 < b" "b \<le> b'"
  shows "b * BPS div (cash + b) \<le> b' * BPS div (cash + b')"
proof -
  let ?q = "b * BPS div (cash + b)"
  have "?q * (cash + b) \<le> b * BPS" using assms by (intro div_mult_le_self) simp
  moreover have "?q * (b' - b) \<le> BPS * (b' - b)"
    using utilisation_bounds [of cash b] assms by (intro mult_right_mono) auto
  ultimately have "?q * (cash + b') \<le> b' * BPS" by (simp add: algebra_simps)
  then show ?thesis using assms by (simp add: le_div_iff_mult)
qed

definition rate_curve :: "int \<Rightarrow> int \<Rightarrow> int \<Rightarrow> int \<Rightarrow> int \<Rightarrow> int" where
  "rate_curve base s1 s2 kink u =
     (if u \<le> kink then base + u * s1 div kink else base + s1 + (u - kink) * s2 div (BPS - kink))"

lemma rate_curve_bounds:
  assumes "0 \<le> s1" "0 \<le> s2" "0 < kink" "kink < BPS" "0 \<le> u" "u \<le> BPS"
  shows "base \<le> rate_curve base s1 s2 kink u" "rate_curve base s1 s2 kink u \<le> base + s1 + s2"
  using assms muldiv_le [of s1 u kink] muldiv_le [of s2 "u - kink" "BPS - kink"]
    muldiv_nonneg [of u s1 kink] muldiv_nonneg [of "u - kink" s2 "BPS - kink"]
  by (auto simp: rate_curve_def mult.commute)

lemma rate_curve_mono:
  assumes "0 \<le> s1" "0 \<le> s2" "0 < kink" "kink < BPS" "0 \<le> u" "u \<le> u'" "u' \<le> BPS"
  shows "rate_curve base s1 s2 kink u \<le> rate_curve base s1 s2 kink u'"
proof -
  have 1: "u * s1 div kink \<le> u' * s1 div kink" using assms by (intro muldiv_mono) auto
  have 2: "(u - kink) * s2 div (BPS - kink) \<le> (u' - kink) * s2 div (BPS - kink)" if "kink < u"
    using assms that by (intro muldiv_mono) auto
  have 3: "u * s1 div kink \<le> s1" if "u \<le> kink"
    using assms that muldiv_le [of s1 u kink] by (simp add: mult.commute)
  have 4: "0 \<le> (u' - kink) * s2 div (BPS - kink)" if "kink < u'"
    using assms that by (intro muldiv_nonneg) auto
  show ?thesis using 1 2 3 4 assms by (fastforce simp: rate_curve_def)
qed

lemma borrowRateBps_curve:
  assumes "0 \<le> cash" "0 < b" "0 \<le> s1" "0 \<le> s2" "0 < kink" "kink < BPS"
  shows "borrowRateBps cash b base s1 s2 kink = Inr (rate_curve base s1 s2 kink (b * BPS div (cash + b)))"
  using assms utilisation_bounds [of cash b]
  by (simp add: borrowRateBps_def rate_curve_def mulDiv_pos)

section \<open>Printing and reading back\<close>

lemma parse_pieces:
  assumes w: "w \<noteq> []" "\<forall>c\<in>set w. is_digit c" and f: "length f = 18" "\<forall>c\<in>set f. is_digit c"
    and s: "filter (\<lambda>c. c \<noteq> CHR '','') s = w @ ''.'' @ f"
  shows "parseUsd s = Inr (int (nat_of_digits w) * USD + int (nat_of_digits f))"
proof -
  let ?c = "w @ CHR ''.'' # f"
  have dot: "\<not> is_digit (CHR ''.'')" "\<not> is_ws (CHR ''.'')" by (simp_all add: is_digit_def is_ws_def)
  have t: "trim ?c = ?c"
    using w f dot by (intro trim_no_ws) (auto simp: is_digit_not_ws)
  have "dropWhile is_digit ?c = CHR ''.'' # f"
    using w dot by (simp add: dropWhile_append2)
  then have pat: "decimal_pattern ?c" using f by (simp add: decimal_pattern_def list_all_iff)
  have ne: "?c \<noteq> ''.''" using w by (cases w) auto
  have sp: "split_on (CHR ''.'') ?c = [w, f]"
    using w f dot by (intro split_on_once) auto
  have "f \<noteq> []" using f by auto
  with w f have "bigint_of_string w = Inr (int (nat_of_digits w))"
    "bigint_of_string f = Inr (int (nat_of_digits f))"
    by (simp_all add: bigint_of_digits)
  then show ?thesis
    using pat ne sp f s t by (simp add: parseUsd_def padEnd_def Let_def)
qed

lemma parse_format_usd:
  assumes "0 \<le> x"
  shows "parseUsd (formatUsd x 18) = Inr x"
proof -
  define q where "q = nat (x div USD)"
  define f where "f = nat (x mod USD)"
  have frac: "f < 10 ^ 18" using assms by (simp add: f_def USD_def nat_less_iff)
  then have lf: "length (show_nat f) \<le> 18" by (intro length_show_nat_le) auto
  have xx: "int q * USD + int f = x" using assms by (simp add: q_def f_def pos_imp_zdiv_nonneg_iff)
  let ?w = "show_nat q" and ?f = "padStart (show_nat f) 18 (CHR ''0'')"
  have "x smod USD = x mod USD" using assms by (auto simp: signed_modulo_int_def sgn_if)
  moreover have neg: "(x mod USD < 0) = False" by (simp add: not_less)
  ultimately have fmt: "formatUsd x 18 = thousands ?w @ ''.'' @ ?f"
    using assms lf length_padStart [OF lf, of "CHR ''0''"] neg
    by (simp add: formatUsd_def show_int_def sdiv_nonneg q_def f_def Let_def pos_imp_zdiv_neg_iff)
  have fd: "\<forall>c\<in>set ?f. is_digit c" by (rule padStart_digits [OF show_nat_digits])
  then have "filter (\<lambda>c. c \<noteq> CHR '','') ?f = ?f"
    by (intro filter_True) (auto simp: is_digit_def)
  then have s: "filter (\<lambda>c. c \<noteq> CHR '','') (formatUsd x 18) = ?w @ ''.'' @ ?f"
    using thousands_remove_commas [OF show_nat_digits, of q] by (simp add: fmt)
  show ?thesis
    using parse_pieces [OF show_nat_nonempty show_nat_digits length_padStart [OF lf] fd s] xx by simp
qed


section \<open>Properties\<close>

text \<open>
  C1: on a well-formed asset the valuation returns, its market value is the floor of quantity
  times price, and the recognised value is the least of the haircut mark, the stressed exit value
  and (when redemption is supported) the redemption floor, none of which exceeds market value.
\<close>

theorem valueAsset_conservative:
  assumes "valid_asset a"
  shows "\<exists>v. valueAsset a = Inr v \<and>
    v_marketValueUsd18 v = (a_quantity a * a_priceUsd18 a) div 10 ^ nat (a_decimals a) \<and>
    0 \<le> v_recognizedUsd18 v \<and>
    v_recognizedUsd18 v \<le> v_haircutMarkUsd18 v \<and> v_haircutMarkUsd18 v \<le> v_marketValueUsd18 v \<and>
    v_recognizedUsd18 v \<le> v_stressedExitUsd18 v \<and> v_stressedExitUsd18 v \<le> v_marketValueUsd18 v \<and>
    (case v_redemptionFloorUsd18 v of
       None \<Rightarrow> \<not> a_redemptionSupported a
     | Some f \<Rightarrow> a_redemptionSupported a \<and> v_recognizedUsd18 v \<le> f \<and> f \<le> v_marketValueUsd18 v) \<and>
    (v_recognizedUsd18 v = v_haircutMarkUsd18 v \<or> v_recognizedUsd18 v = v_stressedExitUsd18 v \<or>
     Some (v_recognizedUsd18 v) = v_redemptionFloorUsd18 v)"
  using valueAsset_valid [OF assms] by (simp add: conservative_def)

text \<open>
  The limits of a successful evaluation are ordered (borrow, maintenance, liquidation, capped
  total, recognised total, market total), and every asset's capped value respects its
  concentration limit against the uncapped total and its own recognised value.
\<close>

theorem evaluate_limits_ordered:
  assumes "\<forall>a\<in>set assets. valid_asset a" and "evaluate assets account seq now = Inr r"
  shows "0 \<le> r_borrowLimitUsd18 r \<and> r_borrowLimitUsd18 r \<le> r_maintenanceLimitUsd18 r \<and>
    r_maintenanceLimitUsd18 r \<le> r_liquidationLimitUsd18 r \<and>
    r_liquidationLimitUsd18 r \<le> r_totalRecognizedUsd18 r \<and>
    r_totalRecognizedUsd18 r = sum_list (map v_cappedUsd18 (r_perAsset r)) \<and>
    length (r_perAsset r) = length assets \<and>
    (\<forall>i<length assets. let v = r_perAsset r ! i in
       0 \<le> v_cappedUsd18 v \<and> v_cappedUsd18 v \<le> v_recognizedUsd18 v \<and>
       v_recognizedUsd18 v \<le> v_marketValueUsd18 v \<and>
       v_cappedUsd18 v * BPS \<le>
         sum_list (map v_recognizedUsd18 (r_perAsset r)) * p_maxConcentrationBps (a_params (assets ! i)))"
proof -
  from evaluate_facts [OF assms(2)] obtain vs k debt where
    "evaluation_facts assets account seq now r vs k debt" by blast
  note e = this [unfolded evaluation_facts_def]
  have e12: "mapR valueAsset assets = Inr vs" "capPass assets vs = Inr k" using e by simp_all
  from perAsset_facts [OF assms(1) e12] show ?thesis
    by (simp add: e limits_ok_def cap_ok_def Let_def)
qed

text \<open>
  C22: borrowing power is offered only when nothing restricts it. Whenever an evaluation reports a
  positive available borrow, the status and the override are NORMAL, no gate is open (so no asset
  with a balance has a stale or invalid price, a stale passport, a claim conflict or a suspension,
  and the sequencer is up and past its grace period), and debt, reservation and available borrow
  add up to the borrow limit.
\<close>

theorem available_borrow_guarded:
  assumes "evaluate assets account seq now = Inr r" and "0 < r_availableBorrowUsd18 r"
  shows "r_status r = NORMAL \<and> c_statusOverride account = NORMAL \<and> r_gates r = [] \<and>
    s_up seq \<and> s_gracePeriod seq \<le> now - s_lastRestartAt seq \<and>
    (\<forall>a\<in>set assets. a_quantity a \<noteq> 0 \<longrightarrow>
       now - a_priceUpdatedAt a \<le> p_maxOracleAge (a_params a) \<and> 0 < a_priceUsd18 a \<and>
       now - a_passportCommittedAt a \<le> p_maxPassportAge (a_params a) \<and>
       a_passportStatus a \<notin> {PS_CONFLICTED, PS_SUSPENDED} \<and> a_assetStatus a \<noteq> AS_SUSPENDED) \<and>
    r_debtUsd18 r + c_reservedUsd18 account + r_availableBorrowUsd18 r = r_borrowLimitUsd18 r"
proof -
  from evaluate_facts [OF assms(1)] obtain vs k debt where
    "evaluation_facts assets account seq now r vs k debt" by blast
  note e = this [unfolded evaluation_facts_def]
  have st: "r_status r = NORMAL" using assms(2) e by (auto split: if_splits)
  then have g: "collectGates assets seq now = []" and ov: "c_statusOverride account = NORMAL"
    using e by (auto simp: statusMax_NORMAL_iff split: if_splits)
  have "set (collectGates assets seq now) = {}" using g by simp
  then have "\<forall>a\<in>set assets. assetGates a now = []"
    and "s_up seq" "s_gracePeriod seq \<le> now - s_lastRestartAt seq"
    by (auto simp: set_collectGates split: if_splits)
  moreover have "debt + c_reservedUsd18 account + r_availableBorrowUsd18 r = k_borrow k"
    using assms(2) e st by (auto split: if_splits)
  ultimately show ?thesis
    using st ov g e by (fastforce simp: assetGates_def split: if_splits)
qed

text \<open>
  More debt never helps. Evaluating the same assets, gates and override with a larger scaled
  principal gives a status at least as severe, no more available borrow and a health factor no
  larger.
\<close>

theorem evaluate_debt_monotone:
  assumes "\<forall>a\<in>set assets. valid_asset a"
    and "0 \<le> c_scaledPrincipal account" "0 \<le> c_borrowIndex account"
    and "c_scaledPrincipal account \<le> newPrincipal"
    and "evaluate assets account seq now = Inr r"
    and "evaluate assets (account\<lparr>c_scaledPrincipal := newPrincipal\<rparr>) seq now = Inr r'"
  shows "r_debtUsd18 r \<le> r_debtUsd18 r' \<and> r_status r \<le> r_status r' \<and>
    r_availableBorrowUsd18 r' \<le> r_availableBorrowUsd18 r \<and>
    (r_debtUsd18 r \<noteq> 0 \<longrightarrow> r_healthFactorWad r' \<le> r_healthFactorWad r)"
proof -
  from evaluate_facts [OF assms(5)] obtain vs k debt where
    "evaluation_facts assets account seq now r vs k debt" by blast
  note e = this [unfolded evaluation_facts_def]
  from evaluate_facts [OF assms(6)] obtain vs' k' debt' where
    "evaluation_facts assets (account\<lparr>c_scaledPrincipal := newPrincipal\<rparr>) seq now r' vs' k' debt'" by blast
  note e' = this [unfolded evaluation_facts_def, simplified]
  have e12: "mapR valueAsset assets = Inr vs" "capPass assets vs = Inr k" and k: "k' = k"
    using e e' by auto
  have m: "0 \<le> k_maintenance k"
    using perAsset_facts(1) [OF assms(1) e12] by (simp add: limits_ok_def)
  have d: "debt = ceil_div (c_scaledPrincipal account * c_borrowIndex account) WAD"
    "debt' = ceil_div (newPrincipal * c_borrowIndex account) WAD"
    using e e' assms(2-4) by (simp_all add: mulDivUp_ceil)
  have dd: "0 \<le> debt" "debt \<le> debt'"
    using assms(2-4) by (auto simp: d intro!: ceil_div_nonneg ceil_div_mono mult_right_mono)
  have st: "r_status r \<le> r_status r'"
    using e e' k dd by (simp add: statusMax_mono baseStatus_mono)
  have "r_status r' = NORMAL \<Longrightarrow> r_status r = NORMAL" using st NORMAL_least by (metis antisym)
  then have av: "r_availableBorrowUsd18 r' \<le> r_availableBorrowUsd18 r"
    using e e' dd k by auto
  have "r_healthFactorWad r' \<le> r_healthFactorWad r" if "debt \<noteq> 0"
  proof -
    have pos: "0 < debt" "0 < debt'" "debt \<noteq> 0" "debt' \<noteq> 0" using that dd by auto
    have "mulDiv (k_maintenance k) WAD debt = Inr (r_healthFactorWad r)"
      "mulDiv (k_maintenance k) WAD debt' = Inr (r_healthFactorWad r')"
      using e e' k pos by simp_all
    then have "r_healthFactorWad r = k_maintenance k * WAD div debt"
      "r_healthFactorWad r' = k_maintenance k * WAD div debt'"
      using m pos by (simp_all add: mulDiv_pos)
    then show ?thesis using m dd pos by (auto intro!: zdiv_mono2)
  qed
  with dd st av e e' show ?thesis by simp
qed

text \<open>
  With a kink strictly inside the range and non-negative slopes the borrow rate is defined at
  any utilisation, lies between the base rate and the base rate plus both slopes, and never falls
  when more is borrowed against the same cash.
\<close>

theorem borrow_rate_band:
  assumes "0 \<le> cash" "0 \<le> borrows" "borrows \<le> larger" "0 < larger"
    and "0 \<le> slope1" "0 \<le> slope2" "0 < kink" "kink < BPS"
  shows "\<exists>lo hi. borrowRateBps cash borrows base slope1 slope2 kink = Inr lo \<and>
    borrowRateBps cash larger base slope1 slope2 kink = Inr hi \<and>
    base \<le> lo \<and> lo \<le> hi \<and> hi \<le> base + slope1 + slope2"
proof -
  let ?u = "\<lambda>b. b * BPS div (cash + b)"
  let ?r = "\<lambda>b. rate_curve base slope1 slope2 kink (?u b)"
  have hi: "borrowRateBps cash larger base slope1 slope2 kink = Inr (?r larger)" "base \<le> ?r larger"
    "?r larger \<le> base + slope1 + slope2"
    using assms by (auto simp: borrowRateBps_curve intro!: rate_curve_bounds utilisation_bounds)
  show ?thesis
  proof (cases "borrows = 0")
    case True
    with hi show ?thesis by (simp add: borrowRateBps_def)
  next
    case False
    then have "borrowRateBps cash borrows base slope1 slope2 kink = Inr (?r borrows)" "base \<le> ?r borrows"
      "?r borrows \<le> ?r larger"
      using assms by (auto simp: borrowRateBps_curve
          intro!: rate_curve_bounds rate_curve_mono utilisation_bounds utilisation_mono)
    with hi show ?thesis by blast
  qed
qed

text \<open>
  Printing an amount with all eighteen decimals and parsing the printed text gives the amount
  back, thousands separators included.
\<close>

theorem parse_format_roundtrip: "0 \<le> x \<Longrightarrow> parseUsd (formatUsd x 18) = Inr x"
  by (rule parse_format_usd)


section \<open>Witnesses on the canonical scenarios\<close>

text \<open>
  Scenario S03 of \<open>fixtures/canonical/risk-scenarios.json\<close>: one thousand units of a tokenized
  treasury fund and five hundred dollars of debt. \<open>scenario_S03\<close> is the expected result the
  fixture freezes, to the wei.
\<close>

definition ustb_params :: RiskParameters where
  "ustb_params = \<lparr>p_initialLtvBps = 8500, p_maintenanceLtvBps = 9000, p_liquidationLtvBps = 9300,
     p_maxConcentrationBps = 10000, p_haircutMarketBps = 50, p_haircutLiquidityBps = 25,
     p_haircutIssuerBps = 100, p_haircutSettlementBps = 25, p_haircutCrosschainBps = 0,
     p_maxOracleAge = 86400, p_maxPassportAge = 2592000\<rparr>"

definition ustb_asset :: AssetRiskInput where
  "ustb_asset = \<lparr>a_assetId = ''0xa01'', a_symbol = Some ''USTBx'',
     a_quantity = 1000000000000000000000, a_decimals = 18, a_priceUsd18 = 1000000000000000000,
     a_priceUpdatedAt = 1750000000, a_passportCommittedAt = 1749996400,
     a_passportStatus = PS_ACTIVE, a_redemptionSupported = True, a_redemptionFloorBps = 9900,
     a_assetStatus = AS_ACTIVE, a_params = ustb_params,
     a_exitCurve = [\<lparr>t_thresholdUsd18 = 100000000000000000000000, t_recoveryBps = 9990\<rparr>,
       \<lparr>t_thresholdUsd18 = 500000000000000000000000, t_recoveryBps = 9960\<rparr>,
       \<lparr>t_thresholdUsd18 = 2000000000000000000000000, t_recoveryBps = 9900\<rparr>]\<rparr>"

definition s03_account :: AccountInput where
  "s03_account = \<lparr>c_scaledPrincipal = 500000000000000000000, c_borrowIndex = 1000000000000000000,
     c_reservedUsd18 = 0, c_statusOverride = NORMAL\<rparr>"

definition s03_sequencer :: SequencerInput where
  "s03_sequencer = \<lparr>s_up = True, s_lastRestartAt = 1749913600, s_gracePeriod = 3600\<rparr>"

definition s03_result :: "int \<Rightarrow> int \<Rightarrow> int \<Rightarrow> AccountStatus \<Rightarrow> RiskResult" where
  "s03_result debt available health status =
    \<lparr>r_perAsset = [\<lparr>v_assetId = ''0xa01'', v_marketValueUsd18 = 1000000000000000000000,
        v_haircutMarkUsd18 = 980130906562500000000, v_stressedExitUsd18 = 999000000000000000000,
        v_redemptionFloorUsd18 = Some 990000000000000000000,
        v_recognizedUsd18 = 980130906562500000000, v_cappedUsd18 = 980130906562500000000\<rparr>],
      r_totalRecognizedUsd18 = 980130906562500000000,
      r_borrowLimitUsd18 = 833111270578125000000,
      r_maintenanceLimitUsd18 = 882117815906250000000,
      r_liquidationLimitUsd18 = 911521743103125000000, r_debtUsd18 = debt,
      r_availableBorrowUsd18 = available, r_healthFactorWad = health, r_status = status,
      r_gates = []\<rparr>"

lemma ustb_asset_valid: "valid_asset ustb_asset"
  by code_simp

lemma scenario_S03:
  "evaluate [ustb_asset] s03_account s03_sequencer 1750000000 =
     Inr (s03_result 500000000000000000000 333111270578125000000 1764235631812500000 NORMAL)"
  by code_simp

lemma scenario_S04:
  "evaluate [ustb_asset] (s03_account\<lparr>c_scaledPrincipal := 850000000000000000000\<rparr>) s03_sequencer 1750000000 =
     Inr (s03_result 850000000000000000000 0 1037785665772058823 NO_NEW_RISK)"
  by code_simp

theorem valueAsset_conservative_witness:
  "valid_asset ustb_asset \<and> (\<exists>v. valueAsset ustb_asset = Inr v \<and> 0 \<le> v_recognizedUsd18 v \<and>
     v_recognizedUsd18 v \<le> v_marketValueUsd18 v)"
  using valueAsset_conservative [OF ustb_asset_valid] ustb_asset_valid by fastforce

theorem evaluate_limits_ordered_witness:
  "0 \<le> (833111270578125000000 :: int) \<and>
   sum_list (map v_cappedUsd18 (r_perAsset (s03_result 500000000000000000000 333111270578125000000
     1764235631812500000 NORMAL))) = 980130906562500000000"
  using evaluate_limits_ordered [OF _ scenario_S03] ustb_asset_valid by (simp add: s03_result_def)

theorem available_borrow_guarded_witness:
  "s_up s03_sequencer \<and> 500000000000000000000 + c_reservedUsd18 s03_account + 333111270578125000000
     = (833111270578125000000 :: int)"
  using available_borrow_guarded [OF scenario_S03] by (simp add: s03_result_def)

theorem evaluate_debt_monotone_witness:
  "NORMAL \<le> NO_NEW_RISK \<and> (0 :: int) \<le> 333111270578125000000 \<and>
   (1037785665772058823 :: int) \<le> 1764235631812500000"
  using evaluate_debt_monotone [OF _ _ _ _ scenario_S03 scenario_S04] ustb_asset_valid
  by (simp add: s03_result_def s03_account_def)

theorem borrow_rate_band_witness:
  "\<exists>lo hi. borrowRateBps 1000 500 200 400 6000 8000 = Inr lo \<and>
     borrowRateBps 1000 9000 200 400 6000 8000 = Inr hi \<and> 200 \<le> lo \<and> lo \<le> hi \<and> hi \<le> 6600"
  using borrow_rate_band [of 1000 500 9000 400 6000 8000 200] by (simp add: BPS_def)

theorem parse_format_roundtrip_witness:
  "parseUsd (formatUsd 1234567000000000000000005 18) = Inr 1234567000000000000000005"
  using parse_format_roundtrip [of 1234567000000000000000005] by simp

end
