(* ===== verification/Js_Json.thy ===== *)
theory Js_Json
  imports Js_Strings "HOL-Library.Multiset"
begin

text \<open>
  JSON values, \<open>JSON.stringify\<close>, and the canonical form of
  \<open>packages/schemas/src/sentinel-triggers.ts\<close> (\<open>canonicalJson\<close>) that every derived identity is
  hashed from: object keys sorted, hexadecimal strings in lower case. An object is the association
  list of its properties in their order; a property whose value is undefined is absent from it.
\<close>

section \<open>Values and their text\<close>

datatype json = JNull | JBool bool | JNum int | JStr string | JArr "json list" | JObj "(string \<times> json) list"

definition hex_digit :: "nat \<Rightarrow> char" where
  "hex_digit n = (if n < 10 then char_of (48 + n) else char_of (87 + n))"

definition json_escape :: "char \<Rightarrow> string" where
  "json_escape c =
     (if c = CHR 0x22 then [CHR 0x5C, CHR 0x22]
      else if c = CHR 0x5C then [CHR 0x5C, CHR 0x5C]
      else if c = CHR 0x0A then [CHR 0x5C, CHR ''n'']
      else if c = CHR 0x0D then [CHR 0x5C, CHR ''r'']
      else if c = CHR 0x09 then [CHR 0x5C, CHR ''t'']
      else if c = CHR 0x08 then [CHR 0x5C, CHR ''b'']
      else if c = CHR 0x0C then [CHR 0x5C, CHR ''f'']
      else if (of_char c :: nat) < 32
           then [CHR 0x5C, CHR ''u'', CHR ''0'', CHR ''0'', hex_digit (of_char c div 16),
                 hex_digit (of_char c mod 16)]
      else [c])"

definition json_string :: "string \<Rightarrow> string" where
  "json_string s = [CHR 0x22] @ concat (map json_escape s) @ [CHR 0x22]"

fun JSON_stringify :: "json \<Rightarrow> string" where
  "JSON_stringify JNull = ''null''"
| "JSON_stringify (JBool b) = (if b then ''true'' else ''false'')"
| "JSON_stringify (JNum n) = show_int n"
| "JSON_stringify (JStr s) = json_string s"
| "JSON_stringify (JArr xs) = ''['' @ join_with '','' (map JSON_stringify xs) @ '']''"
| "JSON_stringify (JObj kvs) =
     ''{'' @ join_with '','' (map (\<lambda>kv. json_string (fst kv) @ '':'' @ JSON_stringify (snd kv)) kvs)
     @ ''}''"

section \<open>Sorting by a key\<close>

lemma sort_key_mset:
  assumes "mset ps = mset qs" "distinct (map f ps)"
  shows "sort_key f qs = sort_key (f :: _ \<Rightarrow> string) ps"
proof (rule properties_for_sort_key)
  show "mset (sort_key f ps) = mset qs" by (simp add: assms(1))
  show "sorted (map f (sort_key f ps))" by simp
  show "filter (\<lambda>x. f k = f x) (sort_key f ps) = filter (\<lambda>x. f k = f x) qs"
    if "k \<in> set (sort_key f ps)" for k
  proof -
    have "k \<in> set ps" using that by simp
    then have one: "filter (\<lambda>x. f k = f x) ps = [k]" using assms(2)
    proof (induction ps)
      case (Cons a ps)
      then show ?case by (cases "a = k") (auto simp: filter_empty_conv image_iff)
    qed simp
    have "mset (filter (\<lambda>x. f k = f x) xs) = {#k#}" if "mset xs = mset ps" for xs
      using arg_cong [OF one, of mset] that by simp
    then have "filter (\<lambda>x. f k = f x) xs = [k]" if "mset xs = mset ps" for xs
      using that by (simp only: mset_single_iff)
    then show ?thesis by (simp add: assms(1))
  qed
qed


section \<open>The canonical form\<close>

definition hex_char :: "char \<Rightarrow> bool" where
  "hex_char c \<longleftrightarrow> is_digit c \<or> c \<in> set ''abcdefABCDEF''"

definition hex_literal :: "string \<Rightarrow> bool" where
  "hex_literal s \<longleftrightarrow> take 2 s = ''0x'' \<and> 2 < length s \<and> list_all hex_char (drop 2 s)"

fun sortValue :: "json \<Rightarrow> json" where
  "sortValue (JArr xs) = JArr (map sortValue xs)"
| "sortValue (JObj kvs) = JObj (sort_key fst (map (\<lambda>kv. (fst kv, sortValue (snd kv))) kvs))"
| "sortValue (JStr s) = JStr (if hex_literal s then toLowerCase s else s)"
| "sortValue (JBool b) = JBool b"
| "sortValue (JNum n) = JNum n"
| "sortValue JNull = JNull"

definition canonicalJson :: "json \<Rightarrow> string" where
  "canonicalJson v = JSON_stringify (sortValue v)"

lemma sortValue_obj_order:
  assumes "mset kvs = mset kvs'" "distinct (map fst kvs)"
  shows "sortValue (JObj kvs') = sortValue (JObj kvs)"
proof -
  let ?f = "\<lambda>kv. (fst kv, sortValue (snd kv))"
  have "mset (map ?f kvs) = mset (map ?f kvs')" by (simp add: assms(1) mset_map)
  moreover have "distinct (map fst (map ?f kvs))" using assms(2) by (simp add: comp_def)
  ultimately show ?thesis by (simp add: sort_key_mset)
qed

end
