(* ===== verification/Portfolio_Risk.thy ===== *)
theory Portfolio_Risk
  imports Js_Json
begin

text \<open>
  The portfolio-risk reference model of \<open>packages/portfolio-risk/src/types.ts\<close> and
  \<open>evaluate.ts\<close>: grouping of positions, the scale of every capacity dimension, the session and
  stress factors, the evaluation with its breakdown, and the canonical encoding. A JavaScript
  \<open>Map\<close> or plain object is the association list of its entries in insertion order, a \<open>Set\<close> a
  distinct list; an absent, undefined or null optional field is \<open>None\<close>.
\<close>

section \<open>Types\<close>

definition P_WAD :: int where "P_WAD = 1000000000000000000"
definition P_BPS :: int where "P_BPS = 10000"

lemma P_WAD_pos [simp]: "0 < P_WAD" "0 \<le> P_WAD" "P_WAD \<noteq> 0" by (simp_all add: P_WAD_def)
lemma P_BPS_pos [simp]: "0 < P_BPS" "0 \<le> P_BPS" "P_BPS \<noteq> 0" by (simp_all add: P_BPS_def)

datatype Dimension = UNDERLYING | ISSUER | CUSTODY | SECTOR | LIQUIDITY

definition DIMENSIONS :: "Dimension list" where
  "DIMENSIONS = [UNDERLYING, ISSUER, CUSTODY, SECTOR, LIQUIDITY]"

datatype MarketSession = OPEN | PRE_MARKET | POST_MARKET | CLOSED | SESSION_UNKNOWN

definition MARKET_SESSIONS :: "MarketSession list" where
  "MARKET_SESSIONS = [OPEN, PRE_MARKET, POST_MARKET, CLOSED, SESSION_UNKNOWN]"

datatype GroupKind = NAMED | UNKNOWN

fun dimension_name :: "Dimension \<Rightarrow> string" where
  "dimension_name UNDERLYING = ''UNDERLYING''"
| "dimension_name ISSUER = ''ISSUER''"
| "dimension_name CUSTODY = ''CUSTODY''"
| "dimension_name SECTOR = ''SECTOR''"
| "dimension_name LIQUIDITY = ''LIQUIDITY''"

fun session_name :: "MarketSession \<Rightarrow> string" where
  "session_name OPEN = ''OPEN''"
| "session_name PRE_MARKET = ''PRE_MARKET''"
| "session_name POST_MARKET = ''POST_MARKET''"
| "session_name CLOSED = ''CLOSED''"
| "session_name SESSION_UNKNOWN = ''UNKNOWN''"

record RiskGroupRef =
  rg_dimension :: Dimension
  rg_groupId :: string
  rg_taxonomy :: string
  rg_taxonomyVersion :: string
  rg_source :: string
  rg_effectiveAt :: int
  rg_reviewBy :: "int option"

record PortfolioPosition =
  po_instrumentId :: string
  po_legacyAssetId :: "string option"
  po_homeDomain :: string
  po_singleRecognizedUsd18 :: int
  po_marketValueUsd18 :: int
  po_marketSession :: MarketSession
  po_groups :: "(Dimension \<times> string option) list"
  po_liquidityDepthUsd18 :: "int option"

record StressScenario =
  ss_id :: string
  ss_haircutBps :: int
  ss_appliesToGroupIds :: "string list"
  ss_appliesToSessions :: "MarketSession list"

record PortfolioRiskPolicy =
  pp_policyId :: string
  pp_version :: int
  pp_taxonomyVersion :: string
  pp_capBps :: "Dimension \<Rightarrow> GroupKind \<Rightarrow> int"
  pp_sessionFactorBps :: "(MarketSession \<times> int) list"
  pp_stressScenarios :: "StressScenario list"
  pp_maxCollateralInstruments :: int
  pp_maxStressScenarios :: int

datatype BindingKind = B_DIMENSION Dimension | B_SESSION | B_STRESS | B_NONE

record PositionResult =
  pr_instrumentId :: string
  pr_singleRecognizedUsd18 :: int
  pr_workingUsd18 :: int
  pr_positionScaleWad :: int
  pr_bindingDimension :: BindingKind
  pr_bindingGroup :: "string option"

record ConstraintReduction =
  cr_kind :: BindingKind
  cr_standaloneReductionUsd18 :: int
  cr_bindingGroups :: "string list"

section \<open>Canonical encoding\<close>

definition group_of :: "PortfolioPosition \<Rightarrow> Dimension \<Rightarrow> string option" where
  "group_of p d = (case map_of (po_groups p) d of Some (Some g) \<Rightarrow> Some g | _ \<Rightarrow> None)"

definition encodePosition :: "PortfolioPosition \<Rightarrow> json" where
  "encodePosition p = JObj
     [(''i'', JStr (po_instrumentId p)),
      (''d'', JStr (po_homeDomain p)),
      (''r'', JStr (show_int (po_singleRecognizedUsd18 p))),
      (''m'', JStr (show_int (po_marketValueUsd18 p))),
      (''s'', JStr (session_name (po_marketSession p))),
      (''g'', JObj (map (\<lambda>k. (dimension_name k,
                      case group_of p k of None \<Rightarrow> JNull | Some g \<Rightarrow> JStr g)) DIMENSIONS)),
      (''l'', JStr (show_int (option_default (po_liquidityDepthUsd18 p) 0)))]"

definition encodeScenario :: "StressScenario \<Rightarrow> json" where
  "encodeScenario s = JObj
     [(''id'', JStr (ss_id s)),
      (''h'', JStr (show_int (ss_haircutBps s))),
      (''g'', JArr (map JStr (sort (ss_appliesToGroupIds s)))),
      (''se'', JArr (map JStr (sort (map session_name (ss_appliesToSessions s)))))]"

text \<open>
  The two comparators order positions by instrument id and scenarios by scenario id. The scenario
  comparator answers 1 on equal ids as well, so the model's stable sort speaks for scenario lists
  whose ids are distinct.
\<close>

definition encodePolicy :: "PortfolioRiskPolicy \<Rightarrow> json" where
  "encodePolicy policy = JObj
     [(''id'', JStr (pp_policyId policy)),
      (''v'', JNum (pp_version policy)),
      (''t'', JStr (pp_taxonomyVersion policy)),
      (''c'', JObj (map (\<lambda>d. (dimension_name d, JObj
                 [(''N'', JStr (show_int (pp_capBps policy d NAMED))),
                  (''U'', JStr (show_int (pp_capBps policy d UNKNOWN)))])) DIMENSIONS)),
      (''sf'', JObj (map (\<lambda>(k, v). (session_name k, JStr (show_int v)))
                 (pp_sessionFactorBps policy))),
      (''ss'', JArr (map encodeScenario (sort_key ss_id (pp_stressScenarios policy))))]"

definition canonicalEncode :: "PortfolioPosition list \<Rightarrow> PortfolioRiskPolicy \<Rightarrow> string" where
  "canonicalEncode positions policy = JSON_stringify (JObj
     [(''pos'', JArr (map encodePosition (sort_key po_instrumentId positions))),
      (''pol'', encodePolicy policy)])"

section \<open>Groups and scales\<close>

definition mulDivDown :: "int \<Rightarrow> int \<Rightarrow> int \<Rightarrow> int result" where
  "mulDivDown a b d =
     (if d = 0 then Inl (JsError ''mulDivDown: division by zero'') else Inr ((a * b) sdiv d))"

text \<open>The kind is \<open>None\<close> where the source says \<open>''NONE''\<close>.\<close>

definition groupKeyOf :: "PortfolioPosition \<Rightarrow> Dimension \<Rightarrow> string \<times> GroupKind option" where
  "groupKeyOf pos d =
     (let g = option_default (group_of pos d) []
      in if d = LIQUIDITY then
           (if g = [] \<or> option_default (po_liquidityDepthUsd18 pos) 0 \<le> 0 then (''NONE'', None)
            else (g, Some NAMED))
         else if g = [] then (''UNKNOWN_'' @ dimension_name d, Some UNKNOWN)
         else (g, Some NAMED))"

record GroupTotals =
  gt_totals :: "(string \<times> int) list"
  gt_kinds :: "(string \<times> GroupKind option) list"
  gt_depthByGroup :: "(string \<times> int) list"

definition groupStep :: "Dimension \<Rightarrow> PortfolioPosition \<Rightarrow> GroupTotals \<Rightarrow> GroupTotals" where
  "groupStep d p g =
     (let k = fst (groupKeyOf p d);
          kind = snd (groupKeyOf p d);
          g = g\<lparr>gt_kinds := AList.update k kind (gt_kinds g)\<rparr>
      in if kind = None then g
         else let g = g\<lparr>gt_totals := AList.update k
                    (option_default (map_of (gt_totals g) k) 0 + po_singleRecognizedUsd18 p)
                    (gt_totals g)\<rparr>
              in if d = LIQUIDITY then
                   (let depth = option_default (po_liquidityDepthUsd18 p) 0
                    in g\<lparr>gt_depthByGroup := AList.update k
                         (case map_of (gt_depthByGroup g) k of
                            None \<Rightarrow> depth | Some cur \<Rightarrow> min cur depth) (gt_depthByGroup g)\<rparr>)
                 else g)"

definition groupTotals :: "PortfolioPosition list \<Rightarrow> Dimension \<Rightarrow> GroupTotals" where
  "groupTotals positions d =
     fold (groupStep d) positions \<lparr>gt_totals = [], gt_kinds = [], gt_depthByGroup = []\<rparr>"

definition groupScale ::
  "int \<Rightarrow> Dimension \<Rightarrow> PortfolioRiskPolicy \<Rightarrow> GroupTotals \<Rightarrow> string \<Rightarrow> int result" where
  "groupScale base d policy g k =
     (case option_default (map_of (gt_kinds g) k) None of
        None \<Rightarrow> Inr P_WAD
      | Some kind \<Rightarrow>
          let total = option_default (map_of (gt_totals g) k) 0
          in if total = 0 then Inr P_WAD
             else bindR (mulDivDown base (pp_capBps policy d kind) P_BPS) (\<lambda>cap.
               let allowed = (if d = LIQUIDITY
                              then min cap (option_default (map_of (gt_depthByGroup g) k) 0)
                              else cap)
               in bindR (mulDivDown allowed P_WAD total) (\<lambda>s. Inr (min P_WAD s))))"

record DimensionScales =
  ds_scaleWad :: "int list"
  ds_groupKey :: "string list"
  ds_overGroups :: "string list"

definition dimensionScales ::
  "PortfolioPosition list \<Rightarrow> int \<Rightarrow> Dimension \<Rightarrow> PortfolioRiskPolicy \<Rightarrow> DimensionScales result" where
  "dimensionScales positions base d policy =
     (let key = map (\<lambda>p. fst (groupKeyOf p d)) positions;
          g = groupTotals positions d
      in bindR (mapR (groupScale base d policy g) key) (\<lambda>scaleWad.
           Inr \<lparr>ds_scaleWad = scaleWad, ds_groupKey = key,
                ds_overGroups = set_adds (map fst (filter (\<lambda>ks. snd ks < P_WAD) (zip key scaleWad))) []\<rparr>))"

text \<open>The policy's type lists every session; a missing one is JavaScript's \<open>undefined\<close>, on which
  the bigint arithmetic throws.\<close>

definition sessionScaleWad :: "MarketSession \<Rightarrow> PortfolioRiskPolicy \<Rightarrow> int result" where
  "sessionScaleWad session policy =
     (case map_of (pp_sessionFactorBps policy) session of
        None \<Rightarrow> Inl (JsError ''Cannot mix BigInt and other types'')
      | Some factor \<Rightarrow> mulDivDown (min P_BPS factor) P_WAD P_BPS)"

section \<open>Evaluation\<close>

definition checkPolicyCap :: "PortfolioRiskPolicy \<Rightarrow> unit \<Rightarrow> Dimension \<Rightarrow> unit result" where
  "checkPolicyCap policy u d =
     (if pp_capBps policy d NAMED < pp_capBps policy d UNKNOWN
      then Inl (JsError (''policy '' @ dimension_name d @ '': UNKNOWN cap must be <= NAMED cap''))
      else if P_BPS < pp_capBps policy d NAMED \<or> pp_capBps policy d UNKNOWN < 0
      then Inl (JsError (''policy '' @ dimension_name d @ '': cap out of [0, BPS]''))
      else Inr ())"

definition mergePosition :: "PortfolioPosition \<Rightarrow> PortfolioPosition \<Rightarrow> PortfolioPosition" where
  "mergePosition existing p = existing
     \<lparr>po_singleRecognizedUsd18 := po_singleRecognizedUsd18 existing + po_singleRecognizedUsd18 p,
      po_marketValueUsd18 := po_marketValueUsd18 existing + po_marketValueUsd18 p,
      po_liquidityDepthUsd18 :=
        (if po_liquidityDepthUsd18 existing \<noteq> po_liquidityDepthUsd18 p
         then Some (min (option_default (po_liquidityDepthUsd18 existing) 0)
                        (option_default (po_liquidityDepthUsd18 p) 0))
         else po_liquidityDepthUsd18 existing)\<rparr>"

definition dedupeStep ::
  "(string \<times> PortfolioPosition) list \<Rightarrow> PortfolioPosition \<Rightarrow> (string \<times> PortfolioPosition) list result" where
  "dedupeStep byId p =
     (case map_of byId (po_instrumentId p) of
        None \<Rightarrow> Inr (AList.update (po_instrumentId p) p byId)
      | Some existing \<Rightarrow>
          if po_marketSession existing \<noteq> po_marketSession p
             \<or> po_homeDomain existing \<noteq> po_homeDomain p
             \<or> po_groups existing \<noteq> po_groups p
          then Inl (JsError (''duplicate instrumentId '' @ po_instrumentId p
                 @ '' with conflicting risk metadata''))
          else Inr (AList.update (po_instrumentId p) (mergePosition existing p) byId))"

definition dedupe :: "PortfolioPosition list \<Rightarrow> PortfolioPosition list result" where
  "dedupe rawPositions = bindR (foldR dedupeStep [] rawPositions) (\<lambda>byId. Inr (map_values byId))"

definition allScales ::
  "PortfolioPosition list \<Rightarrow> int \<Rightarrow> PortfolioRiskPolicy \<Rightarrow> (Dimension \<times> DimensionScales) list result" where
  "allScales positions base policy =
     mapR (\<lambda>d. bindR (dimensionScales positions base d policy) (\<lambda>dd. Inr (d, dd))) DIMENSIONS"

definition tightenScale ::
  "nat \<Rightarrow> Dimension \<times> DimensionScales \<Rightarrow> int \<times> BindingKind \<times> string option
     \<Rightarrow> int \<times> BindingKind \<times> string option" where
  "tightenScale i ddd acc =
     (let (d, dd) = ddd; (scale, bk, bg) = acc
      in if ds_scaleWad dd ! i < scale
         then (ds_scaleWad dd ! i, B_DIMENSION d, Some (ds_groupKey dd ! i))
         else (scale, bk, bg))"

definition positionResult ::
  "PortfolioRiskPolicy \<Rightarrow> (Dimension \<times> DimensionScales) list \<Rightarrow> PortfolioPosition \<times> nat
     \<Rightarrow> PositionResult result" where
  "positionResult policy dimData pi =
     (let (p, i) = pi
      in bindR (sessionScaleWad (po_marketSession p) policy) (\<lambda>s0.
         let (scale, bk, bg) = fold (tightenScale i) dimData
               (s0, if s0 < P_WAD then B_SESSION else B_NONE, None)
         in bindR (mulDivDown (po_singleRecognizedUsd18 p) scale P_WAD) (\<lambda>working.
            Inr \<lparr>pr_instrumentId = po_instrumentId p,
                 pr_singleRecognizedUsd18 = po_singleRecognizedUsd18 p,
                 pr_workingUsd18 = working,
                 pr_positionScaleWad = scale,
                 pr_bindingDimension = bk,
                 pr_bindingGroup = bg\<rparr>)))"

definition scenarioHits :: "StressScenario \<Rightarrow> PortfolioPosition \<Rightarrow> bool" where
  "scenarioHits s p \<longleftrightarrow>
     po_marketSession p \<in> set (ss_appliesToSessions s)
     \<or> list_ex (\<lambda>d. case group_of p d of
                       None \<Rightarrow> False
                     | Some g \<Rightarrow> g \<noteq> [] \<and> g \<in> set (ss_appliesToGroupIds s)) DIMENSIONS"

definition stressedValue ::
  "(PortfolioPosition \<times> PositionResult) list \<Rightarrow> StressScenario \<Rightarrow> int result" where
  "stressedValue prs s =
     bindR (mapR (\<lambda>(p, r). if scenarioHits s p
                    then mulDivDown (pr_workingUsd18 r) (P_BPS - ss_haircutBps s) P_BPS
                    else Inr (pr_workingUsd18 r)) prs)
       (\<lambda>ws. Inr (sum_list ws))"

definition dimensionReduction ::
  "PortfolioPosition list \<Rightarrow> int \<Rightarrow> Dimension \<times> DimensionScales \<Rightarrow> ConstraintReduction result" where
  "dimensionReduction positions base ddd =
     (let (d, dd) = ddd
      in bindR (mapR (\<lambda>(p, s). mulDivDown (po_singleRecognizedUsd18 p) (min P_WAD s) P_WAD)
                  (zip positions (ds_scaleWad dd)))
           (\<lambda>only. Inr \<lparr>cr_kind = B_DIMENSION d,
                        cr_standaloneReductionUsd18 = base - sum_list only,
                        cr_bindingGroups = ds_overGroups dd\<rparr>))"

definition sessionReduction ::
  "PortfolioPosition list \<Rightarrow> int \<Rightarrow> PortfolioRiskPolicy \<Rightarrow> ConstraintReduction result" where
  "sessionReduction positions base policy =
     bindR (mapR (\<lambda>p. bindR (sessionScaleWad (po_marketSession p) policy) (\<lambda>s.
                    mulDivDown (po_singleRecognizedUsd18 p) s P_WAD)) positions)
       (\<lambda>only. Inr \<lparr>cr_kind = B_SESSION,
                    cr_standaloneReductionUsd18 = base - sum_list only,
                    cr_bindingGroups = map session_name (set_adds (filter (\<lambda>s.
                        case map_of (pp_sessionFactorBps policy) s of
                          None \<Rightarrow> False | Some f \<Rightarrow> f < P_BPS)
                        (map po_marketSession positions)) [])\<rparr>)"

definition bindingOf :: "ConstraintReduction list \<Rightarrow> BindingKind" where
  "bindingOf breakdown = fst (fold (\<lambda>b (bk, worst).
       if worst < cr_standaloneReductionUsd18 b then (cr_kind b, cr_standaloneReductionUsd18 b)
       else (bk, worst)) breakdown (B_NONE, 0))"

record PortfolioResult =
  pf_portfolioMarketValueUsd18 :: int
  pf_singleAssetRecognizedTotalUsd18 :: int
  pf_portfolioRecognizedValueUsd18 :: int
  pf_positions :: "PositionResult list"
  pf_constraintBreakdown :: "ConstraintReduction list"
  pf_bindingConstraint :: BindingKind
  pf_policyVersion :: int
  pf_canonicalInput :: string

definition evaluatePositions ::
  "PortfolioPosition list \<Rightarrow> PortfolioRiskPolicy \<Rightarrow> PortfolioResult result" where
  "evaluatePositions positions policy =
     (let base = sum_list (map po_singleRecognizedUsd18 positions);
          marketValue = sum_list (map po_marketValueUsd18 positions)
      in if base = 0 then
           Inr \<lparr>pf_portfolioMarketValueUsd18 = marketValue,
                pf_singleAssetRecognizedTotalUsd18 = 0,
                pf_portfolioRecognizedValueUsd18 = 0,
                pf_positions = map (\<lambda>p.
                  \<lparr>pr_instrumentId = po_instrumentId p, pr_singleRecognizedUsd18 = 0,
                   pr_workingUsd18 = 0, pr_positionScaleWad = P_WAD,
                   pr_bindingDimension = B_NONE, pr_bindingGroup = None\<rparr>) positions,
                pf_constraintBreakdown = [],
                pf_bindingConstraint = B_NONE,
                pf_policyVersion = pp_version policy,
                pf_canonicalInput = canonicalEncode positions policy\<rparr>
         else
           bindR (allScales positions base policy) (\<lambda>dimData.
           bindR (mapR (positionResult policy dimData) (zip positions [0..<length positions]))
             (\<lambda>posResults.
           let recognized = sum_list (map pr_workingUsd18 posResults)
           in bindR (mapR (stressedValue (zip positions posResults)) (pp_stressScenarios policy))
             (\<lambda>stressed.
           let worstStressed = fold min stressed recognized
           in bindR (mapR (dimensionReduction positions base) dimData) (\<lambda>dimRed.
           bindR (sessionReduction positions base policy) (\<lambda>sesRed.
           let breakdown = dimRed @ [sesRed,
                 \<lparr>cr_kind = B_STRESS,
                  cr_standaloneReductionUsd18 = (if base - worstStressed < 0 then 0
                                                 else base - worstStressed),
                  cr_bindingGroups = map ss_id (pp_stressScenarios policy)\<rparr>]
           in Inr \<lparr>pf_portfolioMarketValueUsd18 = marketValue,
                   pf_singleAssetRecognizedTotalUsd18 = base,
                   pf_portfolioRecognizedValueUsd18 = min recognized worstStressed,
                   pf_positions = posResults,
                   pf_constraintBreakdown = breakdown,
                   pf_bindingConstraint = bindingOf breakdown,
                   pf_policyVersion = pp_version policy,
                   pf_canonicalInput = canonicalEncode positions policy\<rparr>))))))"

definition evaluatePortfolio ::
  "PortfolioPosition list \<Rightarrow> PortfolioRiskPolicy \<Rightarrow> PortfolioResult result" where
  "evaluatePortfolio rawPositions policy =
     (if pp_maxCollateralInstruments policy < int (length rawPositions)
      then Inl (JsError (''portfolio has '' @ show_nat (length rawPositions)
             @ '' instruments, over the policy bound of ''
             @ show_int (pp_maxCollateralInstruments policy)))
      else if pp_maxStressScenarios policy < int (length (pp_stressScenarios policy))
      then Inl (JsError ''policy defines more stress scenarios than its own bound allows'')
      else bindR (foldR (checkPolicyCap policy) () DIMENSIONS) (\<lambda>_.
           bindR (dedupe rawPositions) (\<lambda>positions.
           evaluatePositions positions policy)))"


section \<open>What the groups accumulate\<close>

definition members :: "PortfolioPosition list \<Rightarrow> Dimension \<Rightarrow> string \<Rightarrow> PortfolioPosition list" where
  "members ps d k = filter (\<lambda>p. fst (groupKeyOf p d) = k) ps"

definition counted :: "PortfolioPosition list \<Rightarrow> Dimension \<Rightarrow> string \<Rightarrow> PortfolioPosition list" where
  "counted ps d k = filter (\<lambda>p. fst (groupKeyOf p d) = k \<and> snd (groupKeyOf p d) \<noteq> None) ps"

lemma groupTotals_Nil: "groupTotals [] d = \<lparr>gt_totals = [], gt_kinds = [], gt_depthByGroup = []\<rparr>"
  by (simp add: groupTotals_def)

lemma groupTotals_snoc: "groupTotals (ps @ [p]) d = groupStep d p (groupTotals ps d)"
  by (simp add: groupTotals_def)

lemma members_simps [simp]:
  "members [] d k = []"
  "members (ps @ [p]) d k = (if fst (groupKeyOf p d) = k then members ps d k @ [p] else members ps d k)"
  by (simp_all add: members_def)

lemma counted_simps [simp]:
  "counted [] d k = []"
  "counted (ps @ [p]) d k =
     (if fst (groupKeyOf p d) = k \<and> snd (groupKeyOf p d) \<noteq> None
      then counted ps d k @ [p] else counted ps d k)"
  by (simp_all add: counted_def)

lemma groupStep_maps:
  "map_of (gt_kinds (groupStep d p g)) k =
     (if fst (groupKeyOf p d) = k then Some (snd (groupKeyOf p d)) else map_of (gt_kinds g) k)"
  "map_of (gt_totals (groupStep d p g)) k =
     (if fst (groupKeyOf p d) = k \<and> snd (groupKeyOf p d) \<noteq> None
      then Some (option_default (map_of (gt_totals g) k) 0 + po_singleRecognizedUsd18 p)
      else map_of (gt_totals g) k)"
  by (cases "snd (groupKeyOf p d)"; cases "d = LIQUIDITY"; simp add: groupStep_def Let_def)+

lemma groupTotals_totals:
  "map_of (gt_totals (groupTotals ps d)) k =
     (if counted ps d k = [] then None
      else Some (sum_list (map po_singleRecognizedUsd18 (counted ps d k))))"
  by (induction ps rule: rev_induct)
    (simp_all add: groupTotals_Nil groupTotals_snoc groupStep_maps del: not_None_eq)

lemma groupTotals_kinds:
  "map_of (gt_kinds (groupTotals ps d)) k =
     (if members ps d k = [] then None else Some (snd (groupKeyOf (last (members ps d k)) d)))"
  by (induction ps rule: rev_induct)
    (simp_all add: groupTotals_Nil groupTotals_snoc groupStep_maps del: not_None_eq)

definition depth_of :: "PortfolioPosition \<Rightarrow> int" where
  "depth_of p = option_default (po_liquidityDepthUsd18 p) 0"

lemma groupStep_depth:
  "map_of (gt_depthByGroup (groupStep LIQUIDITY p g)) k =
     (if fst (groupKeyOf p LIQUIDITY) = k \<and> snd (groupKeyOf p LIQUIDITY) \<noteq> None
      then Some (case map_of (gt_depthByGroup g) k of None \<Rightarrow> depth_of p | Some cur \<Rightarrow> min cur (depth_of p))
      else map_of (gt_depthByGroup g) k)"
  by (cases "snd (groupKeyOf p LIQUIDITY)"; cases "fst (groupKeyOf p LIQUIDITY) = k";
      simp add: groupStep_def Let_def depth_of_def split: option.split)

lemma groupTotals_depth:
  "map_of (gt_depthByGroup (groupTotals ps LIQUIDITY)) k =
     (if counted ps LIQUIDITY k = [] then None
      else Some (Min (depth_of ` set (counted ps LIQUIDITY k))))"
proof (induction ps rule: rev_induct)
  case (snoc p ps)
  have "Min (insert (depth_of p) (depth_of ` set (counted ps LIQUIDITY k)))
        = min (Min (depth_of ` set (counted ps LIQUIDITY k))) (depth_of p)"
    if "counted ps LIQUIDITY k \<noteq> []"
    using that by (simp add: Min_insert min.commute)
  with snoc show ?case by (simp add: groupTotals_snoc groupStep_depth del: not_None_eq)
qed (simp add: groupTotals_Nil)

section \<open>Closed form of the evaluation\<close>

text \<open>
  \<open>scaleAt\<close> is the value of \<open>groupScale\<close>; \<open>recognizedValue\<close> is the formula of the model with
  the exceptions gone: position scales as minima over the dimensions, and the worst scenario.
\<close>

definition allowedAt :: "int \<Rightarrow> Dimension \<Rightarrow> PortfolioRiskPolicy \<Rightarrow> GroupTotals \<Rightarrow> string \<Rightarrow> GroupKind \<Rightarrow> int" where
  "allowedAt base d policy g k kind =
     (let cap = (base * pp_capBps policy d kind) sdiv P_BPS
      in if d = LIQUIDITY then min cap (option_default (map_of (gt_depthByGroup g) k) 0) else cap)"

definition scaleAt :: "int \<Rightarrow> Dimension \<Rightarrow> PortfolioRiskPolicy \<Rightarrow> GroupTotals \<Rightarrow> string \<Rightarrow> int" where
  "scaleAt base d policy g k =
     (case option_default (map_of (gt_kinds g) k) None of
        None \<Rightarrow> P_WAD
      | Some kind \<Rightarrow>
          let total = option_default (map_of (gt_totals g) k) 0
          in if total = 0 then P_WAD
             else min P_WAD ((allowedAt base d policy g k kind * P_WAD) sdiv total))"

lemma mulDivDown_ok [simp, result_simps]: "d \<noteq> 0 \<Longrightarrow> mulDivDown a b d = Inr ((a * b) sdiv d)"
  by (simp add: mulDivDown_def)

lemma groupScale_ok [simp]: "groupScale base d policy g k = Inr (scaleAt base d policy g k)"
  by (auto simp: groupScale_def scaleAt_def allowedAt_def Let_def split: option.split)

definition dimScale :: "PortfolioRiskPolicy \<Rightarrow> PortfolioPosition list \<Rightarrow> Dimension \<Rightarrow> PortfolioPosition \<Rightarrow> int" where
  "dimScale policy ps d p =
     scaleAt (sum_list (map po_singleRecognizedUsd18 ps)) d policy (groupTotals ps d)
       (fst (groupKeyOf p d))"

lemma dimensionScales_ok:
  "dimensionScales ps (sum_list (map po_singleRecognizedUsd18 ps)) d policy = Inr
     \<lparr>ds_scaleWad = map (dimScale policy ps d) ps,
      ds_groupKey = map (\<lambda>p. fst (groupKeyOf p d)) ps,
      ds_overGroups = set_adds (map fst (filter (\<lambda>ks. snd ks < P_WAD)
        (zip (map (\<lambda>p. fst (groupKeyOf p d)) ps) (map (dimScale policy ps d) ps)))) []\<rparr>"
proof -
  let ?b = "sum_list (map po_singleRecognizedUsd18 ps)"
  have "mapR (groupScale ?b d policy (groupTotals ps d)) (map (\<lambda>p. fst (groupKeyOf p d)) ps)
        = Inr (map (dimScale policy ps d) ps)"
    by (subst mapR_pure [where g = "scaleAt ?b d policy (groupTotals ps d)"])
      (simp_all add: dimScale_def [abs_def])
  then show ?thesis by (simp add: dimensionScales_def Let_def)
qed

definition sessions_complete :: "PortfolioRiskPolicy \<Rightarrow> bool" where
  "sessions_complete policy \<longleftrightarrow>
     list_all (\<lambda>s. map_of (pp_sessionFactorBps policy) s \<noteq> None) MARKET_SESSIONS"

definition factorOf :: "PortfolioRiskPolicy \<Rightarrow> MarketSession \<Rightarrow> int" where
  "factorOf policy s = option_default (map_of (pp_sessionFactorBps policy) s) 0"

definition sessScale :: "PortfolioRiskPolicy \<Rightarrow> MarketSession \<Rightarrow> int" where
  "sessScale policy s = (min P_BPS (factorOf policy s) * P_WAD) sdiv P_BPS"

lemma sessions_completeD: "sessions_complete policy \<Longrightarrow> map_of (pp_sessionFactorBps policy) s \<noteq> None"
  by (cases s) (simp_all add: sessions_complete_def MARKET_SESSIONS_def)

lemma sessionScaleWad_ok:
  assumes "sessions_complete policy"
  shows "sessionScaleWad s policy = Inr (sessScale policy s)"
  using sessions_completeD [OF assms, of s]
  by (auto simp: sessionScaleWad_def sessScale_def factorOf_def)

definition posScale :: "PortfolioRiskPolicy \<Rightarrow> PortfolioPosition list \<Rightarrow> PortfolioPosition \<Rightarrow> int" where
  "posScale policy ps p =
     fold min (map (\<lambda>d. dimScale policy ps d p) DIMENSIONS) (sessScale policy (po_marketSession p))"

definition working :: "PortfolioRiskPolicy \<Rightarrow> PortfolioPosition list \<Rightarrow> PortfolioPosition \<Rightarrow> int" where
  "working policy ps p = (po_singleRecognizedUsd18 p * posScale policy ps p) sdiv P_WAD"

definition stressedAt :: "PortfolioRiskPolicy \<Rightarrow> PortfolioPosition list \<Rightarrow> StressScenario \<Rightarrow> int" where
  "stressedAt policy ps s = sum_list (map (\<lambda>p.
     if scenarioHits s p then (working policy ps p * (P_BPS - ss_haircutBps s)) sdiv P_BPS
     else working policy ps p) ps)"

definition recognizedValue :: "PortfolioRiskPolicy \<Rightarrow> PortfolioPosition list \<Rightarrow> int" where
  "recognizedValue policy ps =
     (if sum_list (map po_singleRecognizedUsd18 ps) = 0 then 0
      else fold min (map (stressedAt policy ps) (pp_stressScenarios policy))
             (sum_list (map (working policy ps) ps)))"

lemma fst_fold_tighten:
  "fst (fold (tightenScale i) dds acc) = fold min (map (\<lambda>dd. ds_scaleWad (snd dd) ! i) dds) (fst acc)"
proof (induction dds arbitrary: acc)
  case (Cons a dds)
  have "fst (tightenScale i a acc) = min (ds_scaleWad (snd a) ! i) (fst acc)"
    by (auto simp: tightenScale_def Let_def split: prod.splits)
  then show ?case using Cons by simp
qed simp

lemma fold_min_le: "fold min xs (a :: int) \<le> a"
proof (induction xs arbitrary: a)
  case (Cons x xs)
  have "fold min xs (min x a) \<le> min x a" by (rule Cons)
  then show ?case by simp
qed simp

lemma fold_min_le_mem: "x \<in> set xs \<Longrightarrow> fold min xs (a :: int) \<le> x"
proof (induction xs arbitrary: a)
  case (Cons y xs)
  show ?case
  proof (cases "x = y")
    case True
    have "fold min xs (min y a) \<le> min y a" by (rule fold_min_le)
    with True show ?thesis by simp
  next
    case False
    with Cons show ?thesis by simp
  qed
qed simp

lemma fold_min_ge: "c \<le> a \<Longrightarrow> (\<And>x. x \<in> set xs \<Longrightarrow> c \<le> x) \<Longrightarrow> c \<le> fold min xs (a :: int)"
  by (induction xs arbitrary: a) auto

lemma fold_min_mono:
  "list_all2 (\<le>) xs ys \<Longrightarrow> a \<le> b \<Longrightarrow> fold min xs a \<le> fold min ys (b :: int)"
proof (induction xs ys arbitrary: a b rule: list_all2_induct)
  case (Cons x xs y ys)
  have "min x a \<le> min y b" using Cons.hyps(1) Cons.prems by (auto simp: min_le_iff_disj)
  then show ?case using Cons.IH by simp
qed simp


lemma positionResult_ok:
  assumes "sessions_complete policy" "i < length ps"
    and dd: "dds = map (\<lambda>d. (d, D d)) DIMENSIONS"
    and D: "\<And>d. ds_scaleWad (D d) = map (dimScale policy ps d) ps"
  shows "\<exists>r. positionResult policy dds (ps ! i, i) = Inr r
           \<and> pr_instrumentId r = po_instrumentId (ps ! i)
           \<and> pr_singleRecognizedUsd18 r = po_singleRecognizedUsd18 (ps ! i)
           \<and> pr_positionScaleWad r = posScale policy ps (ps ! i)
           \<and> pr_workingUsd18 r = working policy ps (ps ! i)"
proof -
  let ?s0 = "sessScale policy (po_marketSession (ps ! i))"
  let ?acc = "(?s0, if ?s0 < P_WAD then B_SESSION else B_NONE, None)"
  have m: "map (\<lambda>dd. ds_scaleWad (snd dd) ! i) dds = map (\<lambda>d. dimScale policy ps d (ps ! i)) DIMENSIONS"
    using assms(2) by (simp add: dd D)
  have f: "fst (fold (tightenScale i) dds ?acc) = posScale policy ps (ps ! i)"
    by (simp only: fst_fold_tighten m posScale_def fst_conv)
  obtain sc bk bg where fo: "fold (tightenScale i) dds ?acc = (sc, bk, bg)"
    by (cases "fold (tightenScale i) dds ?acc") auto
  with f have sc: "sc = posScale policy ps (ps ! i)" by simp
  show ?thesis
    using fo sc by (simp add: positionResult_def sessionScaleWad_ok [OF assms(1)] working_def)
qed

lemma positionResults_ok:
  assumes "sessions_complete policy"
    and dd: "dds = map (\<lambda>d. (d, D d)) DIMENSIONS"
    and D: "\<And>d. ds_scaleWad (D d) = map (dimScale policy ps d) ps"
  shows "\<exists>rs. mapR (positionResult policy dds) (zip ps [0..<length ps]) = Inr rs
           \<and> map pr_workingUsd18 rs = map (working policy ps) ps
           \<and> map pr_instrumentId rs = map po_instrumentId ps
           \<and> map pr_singleRecognizedUsd18 rs = map po_singleRecognizedUsd18 ps"
proof -
  let ?z = "zip ps [0..<length ps]"
  have each: "\<exists>r. positionResult policy dds x = Inr r
           \<and> pr_instrumentId r = po_instrumentId (fst x)
           \<and> pr_singleRecognizedUsd18 r = po_singleRecognizedUsd18 (fst x)
           \<and> pr_workingUsd18 r = working policy ps (fst x)" if "x \<in> set ?z" for x
  proof -
    from that obtain i where "i < length ?z" "?z ! i = x" by (auto simp only: in_set_conv_nth)
    then have i: "i < length ps" "x = (ps ! i, i)" by auto
    from positionResult_ok [OF assms(1) i(1) dd D] show ?thesis by (auto simp: i(2))
  qed
  then obtain rs where rs: "mapR (positionResult policy dds) ?z = Inr rs"
    using mapR_Inr_ex [of ?z "positionResult policy dds"] by blast
  have l: "list_all2 (\<lambda>x r. positionResult policy dds x = Inr r) ?z rs"
    by (rule mapR_Inr_list_all2 [OF rs])
  have all: "list_all2 (\<lambda>x r. pr_instrumentId r = po_instrumentId (fst x)
           \<and> pr_singleRecognizedUsd18 r = po_singleRecognizedUsd18 (fst x)
           \<and> pr_workingUsd18 r = working policy ps (fst x)) ?z rs"
  proof (rule list.rel_mono_strong [OF l])
    fix x r assume "x \<in> set ?z" "positionResult policy dds x = Inr r"
    with each [of x] show "pr_instrumentId r = po_instrumentId (fst x)
           \<and> pr_singleRecognizedUsd18 r = po_singleRecognizedUsd18 (fst x)
           \<and> pr_workingUsd18 r = working policy ps (fst x)" by auto
  qed
  have "length rs = length ps" using l by (simp add: list_all2_lengthD [symmetric])
  then have "map pr_workingUsd18 rs = map (working policy ps) ps"
    "map pr_instrumentId rs = map po_instrumentId ps"
    "map pr_singleRecognizedUsd18 rs = map po_singleRecognizedUsd18 ps"
    using all by (auto simp: list_all2_conv_all_nth intro!: nth_equalityI)
  with rs show ?thesis by blast
qed

lemma stressedValue_ok:
  assumes "map pr_workingUsd18 rs = map (working policy ps) ps"
  shows "stressedValue (zip ps rs) s = Inr (stressedAt policy ps s)"
proof -
  let ?h = "\<lambda>(p, r). if scenarioHits s p
      then (pr_workingUsd18 r * (P_BPS - ss_haircutBps s)) sdiv P_BPS else pr_workingUsd18 r"
  have len: "length rs = length ps" using assms by (metis length_map)
  have "mapR (\<lambda>(p, r). if scenarioHits s p
                    then mulDivDown (pr_workingUsd18 r) (P_BPS - ss_haircutBps s) P_BPS
                    else Inr (pr_workingUsd18 r)) (zip ps rs) = Inr (map ?h (zip ps rs))"
    by (rule mapR_pure) (auto split: prod.splits)
  moreover have "map ?h (zip ps rs) = map (\<lambda>p. if scenarioHits s p
      then (working policy ps p * (P_BPS - ss_haircutBps s)) sdiv P_BPS else working policy ps p) ps"
    using len assms by (auto intro!: nth_equalityI dest!: arg_cong [where f = "\<lambda>l. l ! _"] simp: list_eq_iff_nth_eq)
  ultimately show ?thesis by (simp add: stressedValue_def stressedAt_def)
qed

definition portfolio_facts ::
  "PortfolioRiskPolicy \<Rightarrow> PortfolioPosition list \<Rightarrow> PortfolioResult \<Rightarrow> bool" where
  "portfolio_facts policy ps r \<longleftrightarrow>
     pf_singleAssetRecognizedTotalUsd18 r = sum_list (map po_singleRecognizedUsd18 ps)
     \<and> pf_portfolioRecognizedValueUsd18 r = recognizedValue policy ps
     \<and> map pr_instrumentId (pf_positions r) = map po_instrumentId ps
     \<and> pf_canonicalInput r = canonicalEncode ps policy
     \<and> pf_portfolioMarketValueUsd18 r = sum_list (map po_marketValueUsd18 ps)
     \<and> (sum_list (map po_singleRecognizedUsd18 ps) \<noteq> 0 \<longrightarrow>
          map pr_workingUsd18 (pf_positions r) = map (working policy ps) ps
          \<and> map pr_singleRecognizedUsd18 (pf_positions r) = map po_singleRecognizedUsd18 ps)
     \<and> (sum_list (map po_singleRecognizedUsd18 ps) = 0 \<longrightarrow>
          list_all (\<lambda>x. pr_workingUsd18 x = 0 \<and> pr_singleRecognizedUsd18 x = 0) (pf_positions r))"

lemma evaluatePositions_ok:
  assumes "sessions_complete policy"
  shows "\<exists>r. evaluatePositions ps policy = Inr r \<and> portfolio_facts policy ps r"
proof (cases "sum_list (map po_singleRecognizedUsd18 ps) = 0")
  case True
  then show ?thesis
    by (simp add: evaluatePositions_def portfolio_facts_def recognizedValue_def comp_def list_all_iff)
next
  case False
  let ?base = "sum_list (map po_singleRecognizedUsd18 ps)"
  define D where "D d = \<lparr>ds_scaleWad = map (dimScale policy ps d) ps,
      ds_groupKey = map (\<lambda>p. fst (groupKeyOf p d)) ps,
      ds_overGroups = set_adds (map fst (filter (\<lambda>ks. snd ks < P_WAD)
        (zip (map (\<lambda>p. fst (groupKeyOf p d)) ps) (map (dimScale policy ps d) ps)))) []\<rparr>" for d
  define dds where "dds = map (\<lambda>d. (d, D d)) DIMENSIONS"
  have dsc: "ds_scaleWad (D d) = map (dimScale policy ps d) ps" for d by (simp add: D_def)
  have sc: "allScales ps ?base policy = Inr dds"
    unfolding allScales_def dds_def
    by (rule mapR_pure) (simp add: dimensionScales_ok D_def)
  obtain rs where rs: "mapR (positionResult policy dds) (zip ps [0..<length ps]) = Inr rs"
    "map pr_workingUsd18 rs = map (working policy ps) ps"
    "map pr_instrumentId rs = map po_instrumentId ps"
    "map pr_singleRecognizedUsd18 rs = map po_singleRecognizedUsd18 ps"
    using positionResults_ok [OF assms dds_def dsc] by blast
  have st: "mapR (stressedValue (zip ps rs)) (pp_stressScenarios policy)
            = Inr (map (stressedAt policy ps) (pp_stressScenarios policy))"
    by (rule mapR_pure) (rule stressedValue_ok [OF rs(2)])
  obtain dr where dr: "mapR (dimensionReduction ps ?base) dds = Inr dr"
  proof -
    have "\<exists>y. dimensionReduction ps ?base x = Inr y" for x
    proof -
      have "\<exists>ys. mapR (\<lambda>(p, s). mulDivDown (po_singleRecognizedUsd18 p) (min P_WAD s) P_WAD)
                  (zip ps (ds_scaleWad (snd x))) = Inr ys"
        by (rule mapR_Inr_ex) (auto split: prod.splits)
      then show ?thesis by (auto simp: dimensionReduction_def split: prod.splits)
    qed
    then show ?thesis using that mapR_Inr_ex [of dds "dimensionReduction ps ?base"] by blast
  qed
  obtain sr where sr: "sessionReduction ps ?base policy = Inr sr"
  proof -
    have "\<exists>ys. mapR (\<lambda>p. bindR (sessionScaleWad (po_marketSession p) policy) (\<lambda>s.
                    mulDivDown (po_singleRecognizedUsd18 p) s P_WAD)) ps = Inr ys"
      by (rule mapR_Inr_ex) (simp add: sessionScaleWad_ok [OF assms])
    then show ?thesis using that by (auto simp: sessionReduction_def)
  qed
  have wmin: "min a (fold min xs a) = fold min xs (a :: int)" for a xs
    using fold_min_le [of xs a] by simp
  show ?thesis
    using False
    by (simp add: evaluatePositions_def Let_def sc rs st dr sr portfolio_facts_def
        recognizedValue_def wmin)
qed


section \<open>Deduplication\<close>

definition keyed :: "(string \<times> PortfolioPosition) list \<Rightarrow> bool" where
  "keyed m \<longleftrightarrow> distinct (map fst m) \<and> map po_instrumentId (map_values m) = map fst m"

lemma map_values_append [simp]: "map_values (m @ m') = map_values m @ map_values m'"
  by (simp add: map_values_def)

lemma keyed_update:
  assumes "keyed m" "po_instrumentId v = k"
  shows "keyed (AList.update k v m)"
proof -
  have "distinct (map fst (AList.update k v m))"
    using assms(1) by (simp add: keyed_def distinct_update)
  moreover have "map po_instrumentId (map_values (AList.update k v m)) = map fst (AList.update k v m)"
    using assms unfolding keyed_def map_values_def by (induction m) auto
  ultimately show ?thesis by (simp add: keyed_def)
qed

lemma keyed_lookup: "keyed m \<Longrightarrow> map_of m k = Some e \<Longrightarrow> po_instrumentId e = k"
  by (induction m) (auto simp: keyed_def map_values_def split: if_splits)

lemma dedupeStep_cases:
  assumes "dedupeStep m p = Inr m'"
  obtains "map_of m (po_instrumentId p) = None" "m' = m @ [(po_instrumentId p, p)]"
  | e where "map_of m (po_instrumentId p) = Some e"
      "m' = AList.update (po_instrumentId p) (mergePosition e p) m"
      "po_marketSession e = po_marketSession p" "po_homeDomain e = po_homeDomain p"
      "po_groups e = po_groups p"
proof (cases "map_of m (po_instrumentId p)")
  case None
  then have "po_instrumentId p \<notin> fst ` set m" by (simp add: map_of_eq_None_iff)
  with None assms that(1) show ?thesis by (simp add: dedupeStep_def update_absent)
next
  case (Some e)
  with assms that(2) [of e] show ?thesis by (simp add: dedupeStep_def split: if_splits)
qed

lemma dedupeStep_keyed: "dedupeStep m p = Inr m' \<Longrightarrow> keyed m \<Longrightarrow> keyed m'"
proof (erule dedupeStep_cases)
  assume "keyed m" "map_of m (po_instrumentId p) = None" "m' = m @ [(po_instrumentId p, p)]"
  then show "keyed m'" by (auto simp: keyed_def map_values_def map_of_eq_None_iff)
next
  fix e assume a: "keyed m" "map_of m (po_instrumentId p) = Some e"
    "m' = AList.update (po_instrumentId p) (mergePosition e p) m"
  have "po_instrumentId (mergePosition e p) = po_instrumentId p"
    using keyed_lookup [OF a(1,2)] by (simp add: mergePosition_def)
  from keyed_update [OF a(1) this] show "keyed m'" by (simp add: a(3))
qed

lemma dedupeStep_sums:
  assumes "dedupeStep m p = Inr m'"
  shows "sum_list (map po_singleRecognizedUsd18 (map_values m'))
           = sum_list (map po_singleRecognizedUsd18 (map_values m)) + po_singleRecognizedUsd18 p"
    and "sum_list (map po_marketValueUsd18 (map_values m'))
           = sum_list (map po_marketValueUsd18 (map_values m)) + po_marketValueUsd18 p"
proof -
  from assms have "sum_list (map po_singleRecognizedUsd18 (map_values m'))
           = sum_list (map po_singleRecognizedUsd18 (map_values m)) + po_singleRecognizedUsd18 p \<and>
    sum_list (map po_marketValueUsd18 (map_values m'))
           = sum_list (map po_marketValueUsd18 (map_values m)) + po_marketValueUsd18 p"
  proof (rule dedupeStep_cases)
    assume "m' = m @ [(po_instrumentId p, p)]"
    then show ?thesis by (simp add: map_values_def)
  next
    fix e assume "map_of m (po_instrumentId p) = Some e"
      "m' = AList.update (po_instrumentId p) (mergePosition e p) m"
    then show ?thesis by (simp add: sum_values_update_present mergePosition_def)
  qed
  then show "sum_list (map po_singleRecognizedUsd18 (map_values m'))
           = sum_list (map po_singleRecognizedUsd18 (map_values m)) + po_singleRecognizedUsd18 p"
    "sum_list (map po_marketValueUsd18 (map_values m'))
           = sum_list (map po_marketValueUsd18 (map_values m)) + po_marketValueUsd18 p" by auto
qed

lemma map_of_in_values: "map_of m k = Some e \<Longrightarrow> e \<in> set (map_values m)"
  by (induction m) (auto simp: map_values_def split: if_splits)

lemma dedupeStep_nonneg:
  assumes "dedupeStep m p = Inr m'" "0 \<le> po_singleRecognizedUsd18 p"
    "\<forall>q\<in>set (map_values m). 0 \<le> po_singleRecognizedUsd18 q"
  shows "\<forall>q\<in>set (map_values m'). 0 \<le> po_singleRecognizedUsd18 q"
  using assms(1)
proof (rule dedupeStep_cases)
  assume "m' = m @ [(po_instrumentId p, p)]"
  then show ?thesis using assms by (auto simp: map_values_def)
next
  fix e assume e: "map_of m (po_instrumentId p) = Some e"
    "m' = AList.update (po_instrumentId p) (mergePosition e p) m"
  have "0 \<le> po_singleRecognizedUsd18 e" using assms(3) map_of_in_values [OF e(1)] by blast
  then have "0 \<le> po_singleRecognizedUsd18 (mergePosition e p)"
    using assms(2) by (simp add: mergePosition_def)
  then show ?thesis using assms(3) e(2) by (auto dest: in_values_update)
qed

lemma foldR_dedupe_sums:
  "foldR dedupeStep m raw = Inr m' \<Longrightarrow>
   sum_list (map po_singleRecognizedUsd18 (map_values m'))
     = sum_list (map po_singleRecognizedUsd18 (map_values m)) + sum_list (map po_singleRecognizedUsd18 raw) \<and>
   sum_list (map po_marketValueUsd18 (map_values m'))
     = sum_list (map po_marketValueUsd18 (map_values m)) + sum_list (map po_marketValueUsd18 raw)"
proof (induction raw arbitrary: m)
  case (Cons p raw)
  then obtain m1 where m1: "dedupeStep m p = Inr m1" "foldR dedupeStep m1 raw = Inr m'" by auto
  from Cons.IH [OF m1(2)] dedupeStep_sums [OF m1(1)] show ?case by simp
qed simp

lemma keyed_Nil [simp]: "keyed []" by (simp add: keyed_def map_values_def)

lemma dedupe_facts:
  assumes "dedupe raw = Inr ps"
  shows "sum_list (map po_singleRecognizedUsd18 ps) = sum_list (map po_singleRecognizedUsd18 raw)"
    and "sum_list (map po_marketValueUsd18 ps) = sum_list (map po_marketValueUsd18 raw)"
    and "distinct (map po_instrumentId ps)"
    and "\<forall>p\<in>set raw. 0 \<le> po_singleRecognizedUsd18 p \<Longrightarrow> \<forall>p\<in>set ps. 0 \<le> po_singleRecognizedUsd18 p"
proof -
  from assms obtain m where m: "foldR dedupeStep [] raw = Inr m" "ps = map_values m"
    by (auto simp: dedupe_def)
  have k: "keyed m"
    by (rule foldR_invariant [where P = keyed, OF m(1)]) (auto intro: dedupeStep_keyed)
  then show "distinct (map po_instrumentId ps)" by (simp add: keyed_def m(2))
  from foldR_dedupe_sums [OF m(1)]
  show "sum_list (map po_singleRecognizedUsd18 ps) = sum_list (map po_singleRecognizedUsd18 raw)"
    "sum_list (map po_marketValueUsd18 ps) = sum_list (map po_marketValueUsd18 raw)"
    by (simp_all add: m(2) map_values_def)
  assume nn: "\<forall>p\<in>set raw. 0 \<le> po_singleRecognizedUsd18 p"
  have "\<forall>q\<in>set (map_values m). 0 \<le> po_singleRecognizedUsd18 q"
  proof (rule foldR_invariant
        [where P = "\<lambda>m. \<forall>q\<in>set (map_values m). 0 \<le> po_singleRecognizedUsd18 q", OF m(1)])
    show "\<forall>q\<in>set (map_values []). 0 \<le> po_singleRecognizedUsd18 q" by (simp add: map_values_def)
  next
    fix s p s'
    assume "\<forall>q\<in>set (map_values s). 0 \<le> po_singleRecognizedUsd18 q" "p \<in> set raw"
      "dedupeStep s p = Inr s'"
    with nn show "\<forall>q\<in>set (map_values s'). 0 \<le> po_singleRecognizedUsd18 q"
      using dedupeStep_nonneg [of s p s'] by simp
  qed
  then show "\<forall>p\<in>set ps. 0 \<le> po_singleRecognizedUsd18 p" by (simp add: m(2))
qed

lemma foldR_dedupe_distinct:
  "distinct (map fst m @ map po_instrumentId raw) \<Longrightarrow>
   foldR dedupeStep m raw = Inr (m @ map (\<lambda>p. (po_instrumentId p, p)) raw)"
proof (induction raw arbitrary: m)
  case (Cons p raw)
  then have "po_instrumentId p \<notin> fst ` set m" by auto
  then have "dedupeStep m p = Inr (m @ [(po_instrumentId p, p)])"
    by (simp add: dedupeStep_def update_absent map_of_eq_None_iff [THEN iffD2])
  with Cons show ?case by simp
qed simp

lemma dedupe_distinct: "distinct (map po_instrumentId raw) \<Longrightarrow> dedupe raw = Inr raw"
  using foldR_dedupe_distinct [of "[]" raw] by (simp add: dedupe_def map_values_def comp_def)


section \<open>Bounds\<close>

definition caps_ok :: "PortfolioRiskPolicy \<Rightarrow> bool" where
  "caps_ok policy \<longleftrightarrow> list_all (\<lambda>d. 0 \<le> pp_capBps policy d UNKNOWN
     \<and> pp_capBps policy d UNKNOWN \<le> pp_capBps policy d NAMED
     \<and> pp_capBps policy d NAMED \<le> P_BPS) DIMENSIONS"

definition valid_policy :: "PortfolioRiskPolicy \<Rightarrow> bool" where
  "valid_policy policy \<longleftrightarrow> sessions_complete policy
     \<and> list_all (\<lambda>s. 0 \<le> factorOf policy s) MARKET_SESSIONS
     \<and> (\<forall>s\<in>set (pp_stressScenarios policy). 0 \<le> ss_haircutBps s \<and> ss_haircutBps s \<le> P_BPS)"

definition nonneg_positions :: "PortfolioPosition list \<Rightarrow> bool" where
  "nonneg_positions ps \<longleftrightarrow> list_all (\<lambda>p. 0 \<le> po_singleRecognizedUsd18 p) ps"

lemma checkPolicyCap_fold: "foldR (checkPolicyCap policy) () DIMENSIONS = Inr u \<longleftrightarrow> caps_ok policy"
  by (auto simp: DIMENSIONS_def caps_ok_def checkPolicyCap_def result_simps)

lemma caps_okD:
  assumes "caps_ok policy"
  shows "0 \<le> pp_capBps policy d kind" "pp_capBps policy d kind \<le> pp_capBps policy d NAMED"
    "pp_capBps policy d kind \<le> P_BPS"
  using assms by (cases d; cases kind; simp add: caps_ok_def DIMENSIONS_def)+

lemma valid_policyD:
  assumes "valid_policy policy"
  shows "sessions_complete policy" "0 \<le> factorOf policy s"
  using assms by (cases s; simp add: valid_policy_def MARKET_SESSIONS_def)+

lemma sum_single_nonneg: "nonneg_positions ps \<Longrightarrow> 0 \<le> sum_list (map po_singleRecognizedUsd18 ps)"
  by (induction ps) (auto simp: nonneg_positions_def)

lemma counted_depth_pos: "p \<in> set (counted ps LIQUIDITY k) \<Longrightarrow> 0 < depth_of p"
  by (auto simp: counted_def groupKeyOf_def depth_of_def Let_def split: if_splits)

lemma depth_nonneg:
  "0 \<le> option_default (map_of (gt_depthByGroup (groupTotals ps LIQUIDITY)) k) 0"
proof (cases "counted ps LIQUIDITY k = []")
  case False
  then have "Min (depth_of ` set (counted ps LIQUIDITY k)) \<in> depth_of ` set (counted ps LIQUIDITY k)"
    by (intro Min_in) auto
  with False show ?thesis using counted_depth_pos [of _ ps k]
    by (fastforce simp: groupTotals_depth)
qed (simp add: groupTotals_depth)

lemma allowedAt_nonneg:
  assumes "caps_ok policy" "0 \<le> base"
  shows "0 \<le> allowedAt base d policy (groupTotals ps d) k kind"
  using assms depth_nonneg [of ps k]
  by (simp add: allowedAt_def Let_def caps_okD(1) [OF assms(1)] muldiv_nonneg sdiv_nonneg)

lemma allowedAt_le:
  assumes "caps_ok policy" "0 \<le> base"
  shows "allowedAt base d policy g k kind \<le> base * pp_capBps policy d kind div P_BPS"
  using assms by (simp add: allowedAt_def Let_def caps_okD(1) [OF assms(1)] sdiv_nonneg)

lemma total_nonneg:
  "nonneg_positions ps \<Longrightarrow> 0 \<le> option_default (map_of (gt_totals (groupTotals ps d)) k) 0"
proof -
  assume "nonneg_positions ps"
  then have "nonneg_positions (counted ps d k)"
    by (auto simp: nonneg_positions_def counted_def list_all_iff)
  then show ?thesis by (auto simp: groupTotals_totals sum_single_nonneg)
qed

lemma scaleAt_bounds:
  assumes "caps_ok policy" "nonneg_positions ps" "0 \<le> base"
  shows "0 \<le> scaleAt base d policy (groupTotals ps d) k"
    and "scaleAt base d policy (groupTotals ps d) k \<le> P_WAD"
proof -
  let ?t = "option_default (map_of (gt_totals (groupTotals ps d)) k) 0"
  have t: "0 \<le> ?t" by (rule total_nonneg [OF assms(2)])
  have "0 \<le> (allowedAt base d policy (groupTotals ps d) k kind * P_WAD) sdiv ?t" if "?t \<noteq> 0" for kind
    using t that allowedAt_nonneg [OF assms(1,3), of d ps k kind]
    by (subst sdiv_nonneg) (auto intro: muldiv_nonneg)
  then show "0 \<le> scaleAt base d policy (groupTotals ps d) k"
    "scaleAt base d policy (groupTotals ps d) k \<le> P_WAD"
    by (auto simp: scaleAt_def Let_def split: option.split)
qed

lemma sessScale_bounds:
  assumes "valid_policy policy"
  shows "0 \<le> sessScale policy s" "sessScale policy s \<le> P_WAD"
  using valid_policyD(2) [OF assms, of s] muldiv_le [of P_WAD "min P_BPS (factorOf policy s)" P_BPS]
  by (simp_all add: sessScale_def sdiv_nonneg muldiv_nonneg mult.commute)

lemma posScale_bounds:
  assumes "valid_policy policy" "caps_ok policy" "nonneg_positions ps"
  shows "0 \<le> posScale policy ps p" "posScale policy ps p \<le> P_WAD"
    and "posScale policy ps p \<le> dimScale policy ps d p"
proof -
  show "0 \<le> posScale policy ps p"
    unfolding posScale_def
    by (rule fold_min_ge)
      (auto simp: dimScale_def sessScale_bounds [OF assms(1)]
        intro!: scaleAt_bounds [OF assms(2,3)] sum_single_nonneg [OF assms(3)])
  show "posScale policy ps p \<le> P_WAD"
    unfolding posScale_def using fold_min_le sessScale_bounds(2) [OF assms(1)] order_trans by blast
  show "posScale policy ps p \<le> dimScale policy ps d p"
    unfolding posScale_def by (rule fold_min_le_mem) (cases d; simp add: DIMENSIONS_def)
qed

lemma working_div:
  assumes "valid_policy policy" "caps_ok policy" "nonneg_positions ps" "p \<in> set ps"
  shows "working policy ps p = po_singleRecognizedUsd18 p * posScale policy ps p div P_WAD"
  using posScale_bounds(1) [OF assms(1-3), of p] assms(3,4)
  by (auto simp: working_def nonneg_positions_def list_all_iff intro!: sdiv_nonneg)

lemma working_bounds:
  assumes "valid_policy policy" "caps_ok policy" "nonneg_positions ps" "p \<in> set ps"
  shows "0 \<le> working policy ps p" "working policy ps p \<le> po_singleRecognizedUsd18 p"
  using posScale_bounds(1,2) [OF assms(1-3), of p] assms(3,4)
  by (auto simp: working_div [OF assms] nonneg_positions_def list_all_iff
      intro: muldiv_nonneg muldiv_le)

lemma stressedAt_bounds:
  assumes "valid_policy policy" "caps_ok policy" "nonneg_positions ps" "s \<in> set (pp_stressScenarios policy)"
  shows "0 \<le> stressedAt policy ps s" "stressedAt policy ps s \<le> sum_list (map (working policy ps) ps)"
proof -
  have h: "0 \<le> P_BPS - ss_haircutBps s" "P_BPS - ss_haircutBps s \<le> P_BPS"
    using assms(1,4) by (auto simp: valid_policy_def)
  have w: "0 \<le> working policy ps p" if "p \<in> set ps" for p
    by (rule working_bounds(1) [OF assms(1-3) that])
  show "0 \<le> stressedAt policy ps s"
    unfolding stressedAt_def using h w
    by (intro sum_list_nonneg_int) (auto simp: sdiv_nonneg muldiv_nonneg)
  show "stressedAt policy ps s \<le> sum_list (map (working policy ps) ps)"
    unfolding stressedAt_def using h w
    by (intro sum_list_map_le) (auto simp: sdiv_nonneg intro: muldiv_le)
qed

lemma recognizedValue_bounds:
  assumes "valid_policy policy" "caps_ok policy" "nonneg_positions ps"
  shows "0 \<le> recognizedValue policy ps"
    and "recognizedValue policy ps \<le> sum_list (map (working policy ps) ps)"
    and "sum_list (map (working policy ps) ps) \<le> sum_list (map po_singleRecognizedUsd18 ps)"
    and "s \<in> set (pp_stressScenarios policy) \<Longrightarrow> recognizedValue policy ps \<le> stressedAt policy ps s"
proof -
  have w: "0 \<le> sum_list (map (working policy ps) ps)"
    by (rule sum_list_nonneg_int) (auto intro: working_bounds(1) [OF assms])
  show "0 \<le> recognizedValue policy ps"
    unfolding recognizedValue_def using w
    by (auto intro!: fold_min_ge stressedAt_bounds(1) [OF assms])
  show "recognizedValue policy ps \<le> sum_list (map (working policy ps) ps)"
    using w by (auto simp: recognizedValue_def fold_min_le)
  show "sum_list (map (working policy ps) ps) \<le> sum_list (map po_singleRecognizedUsd18 ps)"
    by (rule sum_list_map_le) (rule working_bounds(2) [OF assms])
  show "recognizedValue policy ps \<le> stressedAt policy ps s" if "s \<in> set (pp_stressScenarios policy)"
    using stressedAt_bounds(1) [OF assms that] that
    by (auto simp: recognizedValue_def intro: fold_min_le_mem)
qed

text \<open>The inversion of a successful evaluation.\<close>

lemma evaluatePortfolio_ok:
  assumes "sessions_complete policy" "evaluatePortfolio raw policy = Inr r"
  obtains ps where "dedupe raw = Inr ps" "caps_ok policy" "portfolio_facts policy ps r"
    "evaluatePositions ps policy = Inr r"
proof -
  from assms(2) obtain u ps where u: "foldR (checkPolicyCap policy) () DIMENSIONS = Inr u"
    "dedupe raw = Inr ps" "evaluatePositions ps policy = Inr r"
    by (auto simp: evaluatePortfolio_def split: if_splits)
  obtain r' where "evaluatePositions ps policy = Inr r'" "portfolio_facts policy ps r'"
    using evaluatePositions_ok [OF assms(1)] by blast
  with u that show thesis by (simp add: checkPolicyCap_fold)
qed

section \<open>Concentration\<close>

definition concentration_sum ::
  "PortfolioRiskPolicy \<Rightarrow> PortfolioPosition list \<Rightarrow> Dimension \<Rightarrow> string \<Rightarrow> int" where
  "concentration_sum policy ps d k = sum_list (map (working policy ps) (members ps d k))"

lemma counted_members: "d \<noteq> LIQUIDITY \<Longrightarrow> counted ps d k = members ps d k"
  unfolding counted_def members_def
  by (rule filter_cong) (auto simp: groupKeyOf_def Let_def)

lemma group_capped:
  assumes "valid_policy policy" "caps_ok policy" "nonneg_positions ps" "d \<noteq> LIQUIDITY"
    and kind: "map_of (gt_kinds (groupTotals ps d)) k = Some (Some kind)"
  shows "concentration_sum policy ps d k
           \<le> sum_list (map po_singleRecognizedUsd18 ps) * pp_capBps policy d kind div P_BPS"
proof -
  let ?base = "sum_list (map po_singleRecognizedUsd18 ps)"
  let ?g = "groupTotals ps d"
  let ?s = "scaleAt ?base d policy ?g k"
  let ?T = "sum_list (map po_singleRecognizedUsd18 (members ps d k))"
  let ?A = "allowedAt ?base d policy ?g k kind"
  have base: "0 \<le> ?base" by (rule sum_single_nonneg [OF assms(3)])
  have nm: "nonneg_positions (members ps d k)"
    using assms(3) by (auto simp: nonneg_positions_def members_def list_all_iff)
  have T: "0 \<le> ?T" by (rule sum_single_nonneg [OF nm])
  have A: "0 \<le> ?A" by (rule allowedAt_nonneg [OF assms(2) base])
  have "concentration_sum policy ps d k
          \<le> sum_list (map (\<lambda>p. po_singleRecognizedUsd18 p * ?s div P_WAD) (members ps d k))"
    unfolding concentration_sum_def
  proof (rule sum_list_map_le)
    fix p assume p: "p \<in> set (members ps d k)"
    then have ps: "p \<in> set ps" "fst (groupKeyOf p d) = k" by (auto simp: members_def)
    have "posScale policy ps p \<le> ?s"
      using posScale_bounds(3) [OF assms(1-3), of p d] ps(2) by (simp add: dimScale_def)
    then show "working policy ps p \<le> po_singleRecognizedUsd18 p * ?s div P_WAD"
      using ps(1) assms(3) posScale_bounds(1) [OF assms(1-3), of p]
      by (auto simp: working_div [OF assms(1-3)] nonneg_positions_def list_all_iff intro!: muldiv_mono)
  qed
  also have "\<dots> \<le> sum_list (map (\<lambda>p. po_singleRecognizedUsd18 p * ?s) (members ps d k)) div P_WAD"
    by (rule sum_list_div_le) simp
  also have "\<dots> = ?T * ?s div P_WAD" by (simp add: sum_list_mult_const)
  also have "\<dots> \<le> ?A"
  proof (cases "?T = 0")
    case False
    have tot: "option_default (map_of (gt_totals ?g) k) 0 = ?T"
      using False by (auto simp: groupTotals_totals counted_members [OF assms(4)])
    have "?s \<le> ?A * P_WAD div ?T"
      using False T A kind by (simp add: scaleAt_def Let_def tot sdiv_nonneg)
    then have "?T * ?s \<le> ?T * (?A * P_WAD div ?T)" using T by (rule mult_left_mono)
    also have "\<dots> \<le> ?A * P_WAD"
      using False T div_mult_le_self [of ?T "?A * P_WAD"] by (simp add: mult.commute)
    finally have "?T * ?s div P_WAD \<le> ?A * P_WAD div P_WAD" by (rule zdiv_mono1) simp
    then show ?thesis by simp
  qed (use A in simp)
  also have "?A \<le> ?base * pp_capBps policy d kind div P_BPS" by (rule allowedAt_le [OF assms(2) base])
  finally show ?thesis .
qed

lemma members_kind:
  assumes "d \<noteq> LIQUIDITY" "members ps d k \<noteq> []"
  obtains kind where "map_of (gt_kinds (groupTotals ps d)) k = Some (Some kind)"
    "kind = NAMED \<or> k = ''UNKNOWN_'' @ dimension_name d"
proof -
  have "last (members ps d k) \<in> set (members ps d k)" using assms(2) by simp
  then have "fst (groupKeyOf (last (members ps d k)) d) = k" by (simp add: members_def)
  then show thesis using assms that
    by (auto simp: groupTotals_kinds groupKeyOf_def Let_def split: if_splits)
qed


section \<open>Stricter policies\<close>

definition stricter :: "PortfolioRiskPolicy \<Rightarrow> PortfolioRiskPolicy \<Rightarrow> bool" where
  "stricter policy' policy \<longleftrightarrow>
     list_all (\<lambda>d. pp_capBps policy' d NAMED \<le> pp_capBps policy d NAMED
       \<and> pp_capBps policy' d UNKNOWN \<le> pp_capBps policy d UNKNOWN) DIMENSIONS
     \<and> list_all (\<lambda>s. factorOf policy' s \<le> factorOf policy s) MARKET_SESSIONS
     \<and> list_all2 (\<lambda>s' s. ss_appliesToGroupIds s' = ss_appliesToGroupIds s
         \<and> ss_appliesToSessions s' = ss_appliesToSessions s \<and> ss_haircutBps s \<le> ss_haircutBps s')
       (pp_stressScenarios policy') (pp_stressScenarios policy)"

lemma stricterD:
  assumes "stricter policy' policy"
  shows "pp_capBps policy' d kind \<le> pp_capBps policy d kind"
    and "factorOf policy' s \<le> factorOf policy s"
  using assms by (cases d; cases kind; cases s;
      simp add: stricter_def DIMENSIONS_def MARKET_SESSIONS_def)+

lemma scaleAt_mono:
  assumes "stricter policy' policy" "caps_ok policy'" "caps_ok policy" "nonneg_positions ps" "0 \<le> base"
  shows "scaleAt base d policy' (groupTotals ps d) k \<le> scaleAt base d policy (groupTotals ps d) k"
proof -
  let ?t = "option_default (map_of (gt_totals (groupTotals ps d)) k) 0"
  have t: "0 \<le> ?t" by (rule total_nonneg [OF assms(4)])
  have a: "allowedAt base d policy' (groupTotals ps d) k kind
           \<le> allowedAt base d policy (groupTotals ps d) k kind" for kind
  proof -
    have "base * pp_capBps policy' d kind div P_BPS \<le> base * pp_capBps policy d kind div P_BPS"
      using stricterD(1) [OF assms(1)] assms(5) by (intro zdiv_mono1 mult_left_mono) auto
    then show ?thesis using caps_okD(1) [OF assms(2)] caps_okD(1) [OF assms(3)] assms(5)
      by (auto simp: allowedAt_def Let_def sdiv_nonneg)
  qed
  have "(allowedAt base d policy' (groupTotals ps d) k kind * P_WAD) sdiv ?t
        \<le> (allowedAt base d policy (groupTotals ps d) k kind * P_WAD) sdiv ?t" if "?t \<noteq> 0" for kind
    using t that a [of kind] allowedAt_nonneg [OF assms(2,5), of d ps k kind]
      allowedAt_nonneg [OF assms(3,5), of d ps k kind]
    by (auto simp: sdiv_nonneg intro!: zdiv_mono1 mult_right_mono)
  then show ?thesis
    by (auto simp: scaleAt_def Let_def intro: min.coboundedI2 split: option.split)
qed

lemma posScale_mono:
  assumes "stricter policy' policy" "caps_ok policy'" "caps_ok policy" "nonneg_positions ps"
    "valid_policy policy'" "valid_policy policy"
  shows "posScale policy' ps p \<le> posScale policy ps p"
  unfolding posScale_def
proof (rule fold_min_mono)
  show "list_all2 (\<le>) (map (\<lambda>d. dimScale policy' ps d p) DIMENSIONS)
          (map (\<lambda>d. dimScale policy ps d p) DIMENSIONS)"
    by (auto simp: dimScale_def list_all2_conv_all_nth
        intro!: scaleAt_mono [OF assms(1-4)] sum_single_nonneg [OF assms(4)])
  show "sessScale policy' (po_marketSession p) \<le> sessScale policy (po_marketSession p)"
    using stricterD(2) [OF assms(1)] valid_policyD(2) [OF assms(5)] valid_policyD(2) [OF assms(6)]
    by (auto simp: sessScale_def sdiv_nonneg intro!: zdiv_mono1 mult_right_mono min.mono)
qed

lemma recognizedValue_mono:
  assumes "stricter policy' policy" "caps_ok policy'" "caps_ok policy" "nonneg_positions ps"
    "valid_policy policy'" "valid_policy policy"
  shows "recognizedValue policy' ps \<le> recognizedValue policy ps"
proof -
  note m = posScale_mono [OF assms]
  have w: "working policy' ps p \<le> working policy ps p" if "p \<in> set ps" for p
    using that assms(4) m [of p] posScale_bounds(1) [OF assms(5,2,4), of p]
    by (auto simp: working_div [OF assms(5,2,4)] working_div [OF assms(6,3,4)]
        nonneg_positions_def list_all_iff intro!: muldiv_mono)
  have st: "stressedAt policy' ps s' \<le> stressedAt policy ps s"
    if s: "s' \<in> set (pp_stressScenarios policy')" "s \<in> set (pp_stressScenarios policy)"
      and e: "ss_appliesToGroupIds s' = ss_appliesToGroupIds s"
      "ss_appliesToSessions s' = ss_appliesToSessions s" "ss_haircutBps s \<le> ss_haircutBps s'" for s' s
    unfolding stressedAt_def
  proof (rule sum_list_map_le)
    fix p assume p: "p \<in> set ps"
    have h: "0 \<le> P_BPS - ss_haircutBps s'" "0 \<le> P_BPS - ss_haircutBps s"
      using s assms(5,6) by (auto simp: valid_policy_def)
    have hit: "scenarioHits s' p = scenarioHits s p" by (simp only: scenarioHits_def e)
    show "(if scenarioHits s' p then working policy' ps p * (P_BPS - ss_haircutBps s') sdiv P_BPS
           else working policy' ps p)
        \<le> (if scenarioHits s p then working policy ps p * (P_BPS - ss_haircutBps s) sdiv P_BPS
           else working policy ps p)"
      using w [OF p] h e(3) working_bounds(1) [OF assms(5,2,4) p] working_bounds(1) [OF assms(6,3,4) p]
      by (auto simp: hit sdiv_nonneg intro!: muldiv_mono)
  qed
  have l2: "list_all2 (\<le>) (map (stressedAt policy' ps) (pp_stressScenarios policy'))
              (map (stressedAt policy ps) (pp_stressScenarios policy))"
    using assms(1) st by (auto simp: stricter_def list_all2_conv_all_nth)
  show ?thesis
    unfolding recognizedValue_def
    by (auto intro!: fold_min_mono [OF l2] sum_list_map_le w)
qed

section \<open>The order of the positions\<close>

definition kinds_consistent :: "PortfolioPosition list \<Rightarrow> bool" where
  "kinds_consistent ps \<longleftrightarrow> (\<forall>d\<in>set DIMENSIONS. \<forall>p\<in>set ps. \<forall>q\<in>set ps.
     fst (groupKeyOf p d) = fst (groupKeyOf q d) \<longrightarrow> snd (groupKeyOf p d) = snd (groupKeyOf q d))"

lemma sum_list_mset: "mset xs = mset ys \<Longrightarrow> sum_list (map f xs) = (sum_list (map f ys) :: int)"
  by (metis mset_map sum_mset_sum_list)

lemma all_dimensions: "d \<in> set DIMENSIONS" by (cases d) (simp_all add: DIMENSIONS_def)

lemma kinds_mset:
  assumes "mset ps = mset qs" "kinds_consistent ps"
  shows "map_of (gt_kinds (groupTotals ps d)) k = map_of (gt_kinds (groupTotals qs d)) k"
proof -
  have m: "mset (members ps d k) = mset (members qs d k)"
    by (simp add: members_def mset_filter assms(1))
  show ?thesis
  proof (cases "members ps d k = []")
    case True
    with m show ?thesis by (simp add: groupTotals_kinds)
  next
    case False
    then have q: "members qs d k \<noteq> []" using m by auto
    from False have a: "last (members ps d k) \<in> set (members ps d k)" by simp
    from q have "last (members qs d k) \<in> set (members qs d k)" by simp
    then have b: "last (members qs d k) \<in> set (members ps d k)" using m mset_eq_setD by blast
    from a b have "snd (groupKeyOf (last (members ps d k)) d) = snd (groupKeyOf (last (members qs d k)) d)"
      using assms(2) all_dimensions [of d] by (auto simp: kinds_consistent_def members_def)
    with False q show ?thesis by (simp add: groupTotals_kinds)
  qed
qed

lemma counted_mset: "mset ps = mset qs \<Longrightarrow> mset (counted ps d k) = mset (counted qs d k)"
  by (simp add: counted_def mset_filter)

lemma dimScale_mset:
  assumes "mset ps = mset qs" "kinds_consistent ps"
  shows "dimScale policy ps d p = dimScale policy qs d p"
proof -
  note c = counted_mset [OF assms(1), of d]
  have t: "map_of (gt_totals (groupTotals ps d)) k = map_of (gt_totals (groupTotals qs d)) k" for k
    using c [of k] sum_list_mset [OF c [of k]] by (auto simp: groupTotals_totals)
  have dp: "map_of (gt_depthByGroup (groupTotals ps d)) k = map_of (gt_depthByGroup (groupTotals qs d)) k"
    if "d = LIQUIDITY" for k
    using c [of k] mset_eq_setD [OF c [of k]] that by (auto simp: groupTotals_depth)
  show ?thesis
  proof (cases "d = LIQUIDITY")
    case True
    show ?thesis
      unfolding dimScale_def scaleAt_def allowedAt_def t kinds_mset [OF assms]
        sum_list_mset [OF assms(1)] dp [OF True] by (rule refl)
  next
    case False
    then have l: "(d = LIQUIDITY) = False" by simp
    show ?thesis
      unfolding dimScale_def scaleAt_def allowedAt_def t kinds_mset [OF assms]
        sum_list_mset [OF assms(1)] l if_False by (rule refl)
  qed
qed

lemma recognizedValue_mset:
  assumes "mset ps = mset qs" "kinds_consistent ps"
  shows "recognizedValue policy ps = recognizedValue policy qs"
proof -
  have w: "working policy ps = working policy qs"
    by (rule ext) (simp add: working_def posScale_def dimScale_mset [OF assms])
  have s: "stressedAt policy ps = stressedAt policy qs"
    by (rule ext) (simp only: stressedAt_def w sum_list_mset [OF assms(1)])
  show ?thesis
    by (simp add: recognizedValue_def w s sum_list_mset [OF assms(1)])
qed

section \<open>Withholding a classification\<close>

definition blank :: "Dimension \<Rightarrow> PortfolioPosition \<Rightarrow> PortfolioPosition" where
  "blank d p = p\<lparr>po_groups := AList.update d None (po_groups p)\<rparr>"

lemma blank_simps [simp]:
  "po_instrumentId (blank d p) = po_instrumentId p"
  "po_singleRecognizedUsd18 (blank d p) = po_singleRecognizedUsd18 p"
  "po_marketSession (blank d p) = po_marketSession p"
  "po_liquidityDepthUsd18 (blank d p) = po_liquidityDepthUsd18 p"
  "group_of (blank d p) e = (if e = d then None else group_of p e)"
  by (simp_all add: blank_def group_of_def)

definition unknown_key :: "Dimension \<Rightarrow> string" where
  "unknown_key d = ''UNKNOWN_'' @ dimension_name d"

lemma groupKeyOf_blank:
  "e \<noteq> d \<Longrightarrow> groupKeyOf (blank d p) e = groupKeyOf p e"
  "d \<noteq> LIQUIDITY \<Longrightarrow> groupKeyOf (blank d p) d = (unknown_key d, Some UNKNOWN)"
  by (simp_all add: groupKeyOf_def Let_def unknown_key_def)

lemma dimScale_blank_other:
  assumes "e \<noteq> d"
  shows "dimScale policy (map (blank d) ps) e (blank d p) = dimScale policy ps e p"
proof -
  have "groupStep e (blank d q) = groupStep e q" for q
    by (rule ext) (simp only: groupStep_def groupKeyOf_blank(1) [OF assms] blank_simps)
  then have "groupTotals (map (blank d) ps) e = groupTotals ps e"
    by (simp add: groupTotals_def fold_map comp_def)
  then show ?thesis by (simp add: dimScale_def groupKeyOf_blank(1) [OF assms] comp_def)
qed

lemma counted_total_le:
  assumes "nonneg_positions ps"
  shows "sum_list (map po_singleRecognizedUsd18 (counted ps d k)) \<le> sum_list (map po_singleRecognizedUsd18 ps)"
  using assms by (induction ps) (auto simp: counted_def nonneg_positions_def)

lemma dimScale_blank_same:
  assumes "caps_ok policy" "nonneg_positions ps" "d \<noteq> LIQUIDITY" "p \<in> set ps"
  shows "dimScale policy (map (blank d) ps) d (blank d p) \<le> dimScale policy ps d p"
proof -
  let ?base = "sum_list (map po_singleRecognizedUsd18 ps)"
  let ?u = "unknown_key d"
  let ?k = "fst (groupKeyOf p d)"
  let ?t = "option_default (map_of (gt_totals (groupTotals ps d)) ?k) 0"
  have base: "0 \<le> ?base" by (rule sum_single_nonneg [OF assms(2)])
  have mem: "members ps d ?k \<noteq> []" using assms(4) by (auto simp: members_def filter_empty_conv)
  obtain kind where kind: "map_of (gt_kinds (groupTotals ps d)) ?k = Some (Some kind)"
    using members_kind [OF assms(3) mem] by blast
  have t: "0 \<le> ?t" by (rule total_nonneg [OF assms(2)])
  have t_le: "?t \<le> ?base"
    using counted_total_le [OF assms(2), of d ?k] base by (auto simp: groupTotals_totals)
  have all: "members (map (blank d) ps) d ?u = map (blank d) ps"
    "counted (map (blank d) ps) d ?u = map (blank d) ps"
    by (simp_all add: members_def counted_def groupKeyOf_blank(2) [OF assms(3)] filter_map comp_def)
  have ne: "ps \<noteq> []" using assms(4) by auto
  have lk: "map_of (gt_kinds (groupTotals (map (blank d) ps) d)) ?u = Some (Some UNKNOWN)"
    using ne by (simp only: groupTotals_kinds all)
      (simp add: last_map groupKeyOf_blank(2) [OF assms(3)])
  have lt: "map_of (gt_totals (groupTotals (map (blank d) ps) d)) ?u = Some ?base"
    using ne by (simp add: groupTotals_totals all comp_def)
  let ?A' = "?base * pp_capBps policy d UNKNOWN div P_BPS"
  let ?A = "?base * pp_capBps policy d kind div P_BPS"
  have aa: "?A' \<le> ?A" "0 \<le> ?A'"
    using caps_okD(1) [OF assms(1), of d] base assms(1)
    by (cases kind; cases d; auto simp: caps_ok_def DIMENSIONS_def intro!: zdiv_mono1 mult_left_mono muldiv_nonneg)+
  have l: "dimScale policy (map (blank d) ps) d (blank d p)
           = (if ?base = 0 then P_WAD else min P_WAD (?A' * P_WAD div ?base))"
    using lk lt base caps_okD(1) [OF assms(1), of d UNKNOWN] assms(3) aa
    by (simp add: dimScale_def scaleAt_def allowedAt_def Let_def comp_def groupKeyOf_blank(2) [OF assms(3)]
        sdiv_nonneg)
  have r: "dimScale policy ps d p = (if ?t = 0 then P_WAD else min P_WAD (?A * P_WAD div ?t))"
    using kind base caps_okD(1) [OF assms(1), of d kind] assms(3) aa t
    by (simp add: dimScale_def scaleAt_def allowedAt_def Let_def sdiv_nonneg)
  show ?thesis
  proof (cases "?t = 0")
    case False
    then have "0 < ?t" "?base \<noteq> 0" using t t_le by auto
    moreover have "?A' * P_WAD div ?base \<le> ?A * P_WAD div ?t"
    proof -
      have "?A' * P_WAD div ?base \<le> ?A' * P_WAD div ?t"
        using \<open>0 < ?t\<close> t_le aa(2) by (intro zdiv_mono2) auto
      also have "\<dots> \<le> ?A * P_WAD div ?t"
        by (rule zdiv_mono1 [OF mult_right_mono [OF aa(1)]]) (use \<open>0 < ?t\<close> in simp_all)
      finally show ?thesis .
    qed
    ultimately show ?thesis using False by (simp add: l r min.coboundedI2)
  qed (simp add: l r)
qed

lemma posScale_blank:
  assumes "caps_ok policy" "nonneg_positions ps" "d \<noteq> LIQUIDITY" "p \<in> set ps"
  shows "posScale policy (map (blank d) ps) (blank d p) \<le> posScale policy ps p"
  unfolding posScale_def
proof (rule fold_min_mono)
  have "dimScale policy (map (blank d) ps) e (blank d p) \<le> dimScale policy ps e p" for e
    using dimScale_blank_other [of e d policy ps p] dimScale_blank_same [OF assms]
    by (cases "e = d") auto
  then show "list_all2 (\<le>) (map (\<lambda>e. dimScale policy (map (blank d) ps) e (blank d p)) DIMENSIONS)
      (map (\<lambda>e. dimScale policy ps e p) DIMENSIONS)"
    by (simp add: list_all2_conv_all_nth)
qed simp

lemma recognizedValue_blank:
  assumes "valid_policy policy" "caps_ok policy" "nonneg_positions ps" "d \<noteq> LIQUIDITY"
    and "\<forall>s\<in>set (pp_stressScenarios policy). ss_appliesToGroupIds s = []"
  shows "recognizedValue policy (map (blank d) ps) \<le> recognizedValue policy ps"
proof -
  have nb: "nonneg_positions (map (blank d) ps)"
    using assms(3) by (simp add: nonneg_positions_def list_all_iff)
  have w: "working policy (map (blank d) ps) (blank d p) \<le> working policy ps p" if "p \<in> set ps" for p
  proof -
    have "blank d p \<in> set (map (blank d) ps)" using that by simp
    from working_div [OF assms(1,2) nb this] show ?thesis
      using that assms(3) posScale_blank [OF assms(2-4) that] posScale_bounds(1) [OF assms(1,2) nb]
      by (auto simp: working_div [OF assms(1-3)] nonneg_positions_def list_all_iff intro!: muldiv_mono)
  qed
  have st: "stressedAt policy (map (blank d) ps) s \<le> stressedAt policy ps s"
    if s: "s \<in> set (pp_stressScenarios policy)" for s
  proof -
    have h: "0 \<le> P_BPS - ss_haircutBps s" using s assms(1) by (auto simp: valid_policy_def)
    have hit: "scenarioHits s (blank d p) = scenarioHits s p" for p
      using assms(5) s by (auto simp: scenarioHits_def list_ex_iff split: option.splits if_splits)
    have "sum_list (map ((\<lambda>p. if scenarioHits s p
        then (working policy (map (blank d) ps) p * (P_BPS - ss_haircutBps s)) sdiv P_BPS
        else working policy (map (blank d) ps) p) \<circ> blank d) ps) \<le> stressedAt policy ps s"
      unfolding stressedAt_def
    proof (rule sum_list_map_le)
      fix p assume p: "p \<in> set ps"
      then have "blank d p \<in> set (map (blank d) ps)" by simp
      from working_bounds(1) [OF assms(1,2) nb this] working_bounds(1) [OF assms(1-3) p] w [OF p] h
      show "((\<lambda>p. if scenarioHits s p
        then (working policy (map (blank d) ps) p * (P_BPS - ss_haircutBps s)) sdiv P_BPS
        else working policy (map (blank d) ps) p) \<circ> blank d) p
        \<le> (if scenarioHits s p then (working policy ps p * (P_BPS - ss_haircutBps s)) sdiv P_BPS
           else working policy ps p)"
        by (auto simp: hit sdiv_nonneg intro!: muldiv_mono)
    qed
    then show ?thesis by (simp only: stressedAt_def [of policy "map (blank d) ps"] map_map)
  qed
  have "sum_list (map (working policy (map (blank d) ps)) (map (blank d) ps))
        \<le> sum_list (map (working policy ps) ps)"
    using sum_list_map_le [of ps "\<lambda>p. working policy (map (blank d) ps) (blank d p)" "working policy ps"] w
    by (simp add: comp_def)
  moreover have "list_all2 (\<le>) (map (stressedAt policy (map (blank d) ps)) (pp_stressScenarios policy))
              (map (stressedAt policy ps) (pp_stressScenarios policy))"
    using st by (auto simp: list_all2_conv_all_nth)
  moreover have "sum_list (map po_singleRecognizedUsd18 (map (blank d) ps))
                 = sum_list (map po_singleRecognizedUsd18 ps)"
    by (simp add: comp_def)
  ultimately show ?thesis
    unfolding recognizedValue_def by (simp only: if_split) (auto intro: fold_min_mono)
qed

section \<open>Which inputs are accepted\<close>

definition risk_tag :: "PortfolioPosition \<Rightarrow> string \<times> MarketSession \<times> string \<times> (Dimension \<times> string option) list" where
  "risk_tag p = (po_instrumentId p, po_marketSession p, po_homeDomain p, po_groups p)"

definition no_conflicts :: "PortfolioPosition list \<Rightarrow> bool" where
  "no_conflicts ps \<longleftrightarrow> (\<forall>p\<in>set ps. \<forall>q\<in>set ps.
     po_instrumentId p = po_instrumentId q \<longrightarrow> risk_tag p = risk_tag q)"

lemma risk_tag_fst: "risk_tag p = (po_instrumentId p, snd (risk_tag p))"
  by (simp add: risk_tag_def)

lemma no_conflicts_tags: "no_conflicts ps \<longleftrightarrow> single_valued (risk_tag ` set ps)"
proof
  assume nc: "no_conflicts ps"
  show "single_valued (risk_tag ` set ps)"
  proof (rule single_valuedI)
    fix x y z assume "(x, y) \<in> risk_tag ` set ps" "(x, z) \<in> risk_tag ` set ps"
    then obtain p q where pq: "p \<in> set ps" "q \<in> set ps" "risk_tag p = (x, y)" "risk_tag q = (x, z)"
      by (metis imageE)
    then have "po_instrumentId p = po_instrumentId q" by (simp add: risk_tag_def)
    then have "risk_tag p = risk_tag q" using nc pq(1,2) unfolding no_conflicts_def by blast
    then show "y = z" by (simp add: pq)
  qed
next
  assume sv: "single_valued (risk_tag ` set ps)"
  show "no_conflicts ps"
    unfolding no_conflicts_def
  proof (intro ballI impI)
    fix p q assume pq: "p \<in> set ps" "q \<in> set ps" "po_instrumentId p = po_instrumentId q"
    have "(po_instrumentId p, snd (risk_tag p)) \<in> risk_tag ` set ps"
      "(po_instrumentId p, snd (risk_tag q)) \<in> risk_tag ` set ps"
      using pq risk_tag_fst [of p] risk_tag_fst [of q] by (metis imageI)+
    from single_valuedD [OF sv this] show "risk_tag p = risk_tag q"
      using pq(3) risk_tag_fst [of p] risk_tag_fst [of q] by metis
  qed
qed

lemma dedupeStep_tags:
  assumes "dedupeStep m p = Inr m'" "keyed m"
  shows "risk_tag ` set (map_values m') = insert (risk_tag p) (risk_tag ` set (map_values m))"
  using assms(1)
proof (rule dedupeStep_cases)
  fix e assume e: "map_of m (po_instrumentId p) = Some e"
      "m' = AList.update (po_instrumentId p) (mergePosition e p) m"
      "po_marketSession e = po_marketSession p" "po_homeDomain e = po_homeDomain p"
      "po_groups e = po_groups p"
  have id: "po_instrumentId e = po_instrumentId p" by (rule keyed_lookup [OF assms(2) e(1)])
  have tg: "risk_tag (mergePosition e p) = risk_tag p" "risk_tag e = risk_tag p"
    using e id by (simp_all add: risk_tag_def mergePosition_def)
  have "map risk_tag (map_values m') = map risk_tag (map_values m)"
    unfolding e(2) using e(1) tg by (induction m) (auto simp: map_values_def)
  then have "risk_tag ` set (map_values m') = risk_tag ` set (map_values m)" by (metis set_map)
  moreover have "risk_tag p \<in> risk_tag ` set (map_values m)"
    by (rule image_eqI [where x = e]) (simp_all add: tg map_of_in_values [OF e(1)])
  ultimately show ?thesis by auto
qed (simp add: map_values_def)

lemma dedupe_accepts:
  assumes "keyed m"
  shows "(\<exists>m'. foldR dedupeStep m raw = Inr m')
           \<longleftrightarrow> single_valued (risk_tag ` (set (map_values m) \<union> set raw))"
  using assms
proof (induction raw arbitrary: m)
  case Nil
  have "single_valued (risk_tag ` set (map_values m))"
  proof (rule single_valuedI)
    fix x y z assume "(x, y) \<in> risk_tag ` set (map_values m)" "(x, z) \<in> risk_tag ` set (map_values m)"
    then obtain p q where "p \<in> set (map_values m)" "q \<in> set (map_values m)"
      "risk_tag p = (x, y)" "risk_tag q = (x, z)" by (metis imageE)
    moreover have "inj_on po_instrumentId (set (map_values m))"
    proof -
      have "distinct (map po_instrumentId (map_values m))" using Nil unfolding keyed_def by (simp only:)
      then show ?thesis by (simp only: distinct_map)
    qed
    ultimately show "y = z" by (auto simp: risk_tag_def dest: inj_onD)
  qed
  then show ?case by simp
next
  case (Cons p raw)
  show ?case
  proof (cases "dedupeStep m p")
    case (Inr m1)
    have k1: "keyed m1" by (rule dedupeStep_keyed [OF Inr Cons.prems])
    show ?thesis
      using Cons.IH [OF k1] dedupeStep_tags [OF Inr Cons.prems] Inr by (simp add: image_Un)
  next
    case (Inl err)
    then obtain e where e: "map_of m (po_instrumentId p) = Some e" "risk_tag e \<noteq> risk_tag p"
      by (auto simp: dedupeStep_def risk_tag_def split: option.splits if_splits)
    have id: "po_instrumentId e = po_instrumentId p" by (rule keyed_lookup [OF Cons.prems e(1)])
    let ?T = "risk_tag ` (set (map_values m) \<union> set (p # raw))"
    have "risk_tag e \<in> ?T" "risk_tag p \<in> ?T" using map_of_in_values [OF e(1)] by auto
    then have "(po_instrumentId p, snd (risk_tag e)) \<in> ?T" "(po_instrumentId p, snd (risk_tag p)) \<in> ?T"
      using risk_tag_fst [of e] risk_tag_fst [of p] id by metis+
    moreover have "snd (risk_tag e) \<noteq> snd (risk_tag p)"
      using e(2) id risk_tag_fst [of e] risk_tag_fst [of p] by metis
    ultimately have "\<not> single_valued ?T" by (metis single_valuedD)
    then show ?thesis using Inl by simp
  qed
qed

lemma dedupe_accepts_iff: "(\<exists>ps. dedupe raw = Inr ps) \<longleftrightarrow> no_conflicts raw"
  using dedupe_accepts [OF keyed_Nil, of raw]
  by (simp add: dedupe_def no_conflicts_tags result_simps map_values_def)


section \<open>A launch policy and two positions\<close>

definition launch_policy :: "StressScenario list \<Rightarrow> PortfolioRiskPolicy" where
  "launch_policy scenarios =
     \<lparr>pp_policyId = ''PORT-LAUNCH'', pp_version = 1, pp_taxonomyVersion = ''usance-risk-groups/1'',
      pp_capBps = (\<lambda>d kind. case kind of
         NAMED \<Rightarrow> (case d of UNDERLYING \<Rightarrow> 4000 | ISSUER \<Rightarrow> 6000 | CUSTODY \<Rightarrow> 6000
                          | SECTOR \<Rightarrow> 5000 | LIQUIDITY \<Rightarrow> 10000)
       | UNKNOWN \<Rightarrow> (case d of UNDERLYING \<Rightarrow> 2500 | ISSUER \<Rightarrow> 3000 | CUSTODY \<Rightarrow> 3000
                          | SECTOR \<Rightarrow> 3000 | LIQUIDITY \<Rightarrow> 4000)),
      pp_sessionFactorBps = [(OPEN, 10000), (PRE_MARKET, 9500), (POST_MARKET, 9500),
        (CLOSED, 8000), (SESSION_UNKNOWN, 6000)],
      pp_stressScenarios = scenarios,
      pp_maxCollateralInstruments = 24, pp_maxStressScenarios = 8\<rparr>"

definition sample_position :: "string \<Rightarrow> string option \<Rightarrow> int \<Rightarrow> PortfolioPosition" where
  "sample_position i issuer value =
     \<lparr>po_instrumentId = i, po_legacyAssetId = None, po_homeDomain = ''eip155:8453'',
      po_singleRecognizedUsd18 = value, po_marketValueUsd18 = value, po_marketSession = OPEN,
      po_groups = [(UNDERLYING, Some (''u-'' @ i)), (ISSUER, issuer), (CUSTODY, Some (''c-'' @ i)),
        (SECTOR, Some (''s-'' @ i)), (LIQUIDITY, Some (''route-'' @ i))],
      po_liquidityDepthUsd18 = Some 1000000\<rparr>"

definition night_shock :: StressScenario where
  "night_shock = \<lparr>ss_id = ''night'', ss_haircutBps = 2000, ss_appliesToGroupIds = [],
     ss_appliesToSessions = [OPEN]\<rparr>"

definition sample_a :: PortfolioPosition where
  "sample_a = sample_position ''a'' (Some ''ondo'') 100"
definition sample_b :: PortfolioPosition where
  "sample_b = sample_position ''b'' (Some ''ondo'') 100"

text \<open>A distinct, accepted input evaluates to the closed form, without evaluating the encoding.\<close>

lemma accepts_iff:
  assumes "sessions_complete policy"
  shows "(\<exists>r. evaluatePortfolio raw policy = Inr r) \<longleftrightarrow>
     int (length raw) \<le> pp_maxCollateralInstruments policy
     \<and> int (length (pp_stressScenarios policy)) \<le> pp_maxStressScenarios policy
     \<and> caps_ok policy \<and> no_conflicts raw"
proof
  assume "\<exists>r. evaluatePortfolio raw policy = Inr r"
  then obtain r where r: "evaluatePortfolio raw policy = Inr r" ..
  obtain ps where "dedupe raw = Inr ps" "caps_ok policy" by (rule evaluatePortfolio_ok [OF assms r])
  with r dedupe_accepts_iff show "int (length raw) \<le> pp_maxCollateralInstruments policy
     \<and> int (length (pp_stressScenarios policy)) \<le> pp_maxStressScenarios policy
     \<and> caps_ok policy \<and> no_conflicts raw"
    by (auto simp: evaluatePortfolio_def split: if_splits)
next
  assume a: "int (length raw) \<le> pp_maxCollateralInstruments policy
     \<and> int (length (pp_stressScenarios policy)) \<le> pp_maxStressScenarios policy
     \<and> caps_ok policy \<and> no_conflicts raw"
  then obtain ps where "dedupe raw = Inr ps" using dedupe_accepts_iff by blast
  moreover obtain r where "evaluatePositions ps policy = Inr r" using evaluatePositions_ok [OF assms] by blast
  ultimately show "\<exists>r. evaluatePortfolio raw policy = Inr r"
    using a by (simp add: evaluatePortfolio_def checkPolicyCap_fold [of policy "()", THEN iffD2])
qed

lemma distinct_no_conflicts: "distinct (map po_instrumentId raw) \<Longrightarrow> no_conflicts raw"
  by (auto simp: no_conflicts_def distinct_map dest: inj_onD)

lemma evaluates_to:
  assumes "sessions_complete policy" "caps_ok policy" "distinct (map po_instrumentId raw)"
    "int (length raw) \<le> pp_maxCollateralInstruments policy"
    "int (length (pp_stressScenarios policy)) \<le> pp_maxStressScenarios policy"
  obtains r where "evaluatePortfolio raw policy = Inr r" "portfolio_facts policy raw r"
proof -
  from assms distinct_no_conflicts obtain r where r: "evaluatePortfolio raw policy = Inr r"
    using accepts_iff [OF assms(1), of raw] by blast
  from r evaluatePortfolio_ok [OF assms(1) r] dedupe_distinct [OF assms(3)] that show thesis by auto
qed


lemma two_position_value:
  assumes "working policy [p, q] p = x" "working policy [p, q] q = y"
    "po_singleRecognizedUsd18 p + po_singleRecognizedUsd18 q \<noteq> 0" "pp_stressScenarios policy = []"
  shows "recognizedValue policy [p, q] = x + y"
  using assms by (simp add: recognizedValue_def)

lemma sample_workings:
  "working (launch_policy []) [sample_a, sample_b] sample_a = 60"
  "working (launch_policy []) [sample_a, sample_b] sample_b = 60"
  "working (launch_policy []) [sample_a, blank ISSUER sample_b] sample_a = 80"
  "working (launch_policy []) [sample_a, blank ISSUER sample_b] (blank ISSUER sample_b) = 60"
  by code_simp+

lemma launch_policy_ok:
  "sessions_complete (launch_policy ss)" "caps_ok (launch_policy ss)"
  "pp_stressScenarios (launch_policy ss) = ss" "pp_maxCollateralInstruments (launch_policy ss) = 24"
  "pp_maxStressScenarios (launch_policy ss) = 8"
  by (simp_all add: sessions_complete_def caps_ok_def MARKET_SESSIONS_def DIMENSIONS_def
      launch_policy_def P_BPS_def)

lemma sample_facts:
  "po_singleRecognizedUsd18 sample_a = 100" "po_singleRecognizedUsd18 sample_b = 100"
  "po_instrumentId sample_a = ''a''" "po_instrumentId sample_b = ''b''"
  by (simp_all add: sample_a_def sample_b_def sample_position_def)

lemma sample_values:
  "recognizedValue (launch_policy []) [sample_a, sample_b] = 120"
  "recognizedValue (launch_policy []) [sample_a, blank ISSUER sample_b] = 140"
  by (simp_all add: two_position_value [OF sample_workings(1,2)]
      two_position_value [OF sample_workings(3,4)] launch_policy_ok sample_facts)

text \<open>
  The specification says that withholding a classification never improves the result. It holds
  when a whole dimension is withheld; withholding it for one position does not follow. Two
  positions of one issuer are held to 60 percent together; with the issuer of one withheld they
  are measured in two groups, and 140 of 200 is recognised instead of 120.
\<close>

lemma one_withheld_issuer_improves:
  "\<exists>r r'. evaluatePortfolio [sample_a, sample_b] (launch_policy []) = Inr r
     \<and> evaluatePortfolio [sample_a, blank ISSUER sample_b] (launch_policy []) = Inr r'
     \<and> pf_portfolioRecognizedValueUsd18 r = 120 \<and> pf_portfolioRecognizedValueUsd18 r' = 140"
proof -
  obtain r where "evaluatePortfolio [sample_a, sample_b] (launch_policy []) = Inr r"
    "portfolio_facts (launch_policy []) [sample_a, sample_b] r"
    by (rule evaluates_to [of "launch_policy []" "[sample_a, sample_b]"])
      (simp_all add: launch_policy_ok sample_facts)
  moreover obtain r' where "evaluatePortfolio [sample_a, blank ISSUER sample_b] (launch_policy []) = Inr r'"
    "portfolio_facts (launch_policy []) [sample_a, blank ISSUER sample_b] r'"
    by (rule evaluates_to [of "launch_policy []" "[sample_a, blank ISSUER sample_b]"])
      (simp_all add: launch_policy_ok sample_facts)
  ultimately show ?thesis by (auto simp: portfolio_facts_def sample_values)
qed

text \<open>
  A position classified with the literal name the model gives its own unknown group shares that
  group's key, and the kind recorded last decides the cap of both, so the order of the two
  positions changes the scale: the order independence of the result needs the keys to be kept apart.
\<close>

definition sample_u :: PortfolioPosition where
  "sample_u = sample_position ''u'' (Some ''UNKNOWN_ISSUER'') 100"
definition sample_n :: PortfolioPosition where
  "sample_n = sample_position ''n'' None 100"

lemma unknown_name_collision:
  "map_of (gt_kinds (groupTotals [sample_n, sample_u] ISSUER)) ''UNKNOWN_ISSUER'' = Some (Some NAMED)"
  "map_of (gt_kinds (groupTotals [sample_u, sample_n] ISSUER)) ''UNKNOWN_ISSUER'' = Some (Some UNKNOWN)"
  by code_simp+

section \<open>Properties\<close>

text \<open>
  C39: an evaluation is refused exactly for the reasons the code names: more positions or scenarios
  than the policy's bounds, a cap outside \<open>0 \<le> UNKNOWN \<le> NAMED \<le> BPS\<close>, or two rows of one
  instrument that disagree on session, domain or groups. Every other input gets a result.
\<close>

theorem portfolio_accepts_iff:
  assumes "sessions_complete policy"
  shows "(\<exists>r. evaluatePortfolio raw policy = Inr r) \<longleftrightarrow>
     int (length raw) \<le> pp_maxCollateralInstruments policy
     \<and> int (length (pp_stressScenarios policy)) \<le> pp_maxStressScenarios policy
     \<and> list_all (\<lambda>d. 0 \<le> pp_capBps policy d UNKNOWN
         \<and> pp_capBps policy d UNKNOWN \<le> pp_capBps policy d NAMED
         \<and> pp_capBps policy d NAMED \<le> P_BPS) DIMENSIONS
     \<and> (\<forall>p\<in>set raw. \<forall>q\<in>set raw. po_instrumentId p = po_instrumentId q \<longrightarrow>
          po_marketSession p = po_marketSession q \<and> po_homeDomain p = po_homeDomain q
          \<and> po_groups p = po_groups q)"
  unfolding accepts_iff [OF assms] caps_ok_def no_conflicts_def risk_tag_def by auto

theorem portfolio_accepts_iff_witness:
  "\<exists>r. evaluatePortfolio [sample_a, sample_b] (launch_policy []) = Inr r"
  by (subst portfolio_accepts_iff [OF launch_policy_ok(1)])
    (use launch_policy_ok(2) [of "[]"] in \<open>auto simp: launch_policy_ok caps_ok_def sample_facts\<close>)

text \<open>
  C3: the portfolio never recognises more than the sum of its parts and never less than nothing.
  For a policy with non-negative session factors and scenario haircuts within a hundred percent,
  and positions with non-negative recognised values, every accepted evaluation reports the base as
  the sum over all rows, lists each instrument once, works each between 0 and its own recognised
  value, and recognises no more than the sum of the working values.
\<close>

theorem portfolio_no_bonus:
  assumes "valid_policy policy" "nonneg_positions raw" "evaluatePortfolio raw policy = Inr r"
  shows "pf_singleAssetRecognizedTotalUsd18 r = sum_list (map po_singleRecognizedUsd18 raw)
    \<and> distinct (map pr_instrumentId (pf_positions r))
    \<and> list_all (\<lambda>x. 0 \<le> pr_workingUsd18 x \<and> pr_workingUsd18 x \<le> pr_singleRecognizedUsd18 x) (pf_positions r)
    \<and> 0 \<le> pf_portfolioRecognizedValueUsd18 r
    \<and> pf_portfolioRecognizedValueUsd18 r \<le> sum_list (map pr_workingUsd18 (pf_positions r))
    \<and> sum_list (map pr_workingUsd18 (pf_positions r)) \<le> pf_singleAssetRecognizedTotalUsd18 r"
proof -
  obtain ps where ps: "dedupe raw = Inr ps" "caps_ok policy" "portfolio_facts policy ps r"
    by (rule evaluatePortfolio_ok [OF valid_policyD(1) [OF assms(1)] assms(3)])
  have nn: "nonneg_positions ps"
    using dedupe_facts(4) [OF ps(1)] assms(2) by (simp add: nonneg_positions_def list_all_iff)
  note b = recognizedValue_bounds [OF assms(1) ps(2) nn]
  note f = ps(3) [unfolded portfolio_facts_def]
  have w: "list_all (\<lambda>x. 0 \<le> pr_workingUsd18 x \<and> pr_workingUsd18 x \<le> pr_singleRecognizedUsd18 x) (pf_positions r)
    \<and> pf_portfolioRecognizedValueUsd18 r \<le> sum_list (map pr_workingUsd18 (pf_positions r))
    \<and> sum_list (map pr_workingUsd18 (pf_positions r)) \<le> pf_singleAssetRecognizedTotalUsd18 r"
  proof (cases "sum_list (map po_singleRecognizedUsd18 ps) = 0")
    case True
    then have z: "list_all (\<lambda>x. pr_workingUsd18 x = 0 \<and> pr_singleRecognizedUsd18 x = 0) (pf_positions r)"
      using f by simp
    then have "map pr_workingUsd18 (pf_positions r) = map (\<lambda>_. 0) (pf_positions r)"
      by (auto simp: list_all_iff)
    then have "sum_list (map pr_workingUsd18 (pf_positions r)) = 0" by (simp only: sum_list_0)
    with z True f show ?thesis by (auto simp: list_all_iff recognizedValue_def)
  next
    case False
    then have m: "map pr_workingUsd18 (pf_positions r) = map (working policy ps) ps"
      "map pr_singleRecognizedUsd18 (pf_positions r) = map po_singleRecognizedUsd18 ps"
      using f by simp_all
    have "pr_workingUsd18 x \<le> pr_singleRecognizedUsd18 x \<and> 0 \<le> pr_workingUsd18 x"
      if "x \<in> set (pf_positions r)" for x
    proof -
      from that obtain i where i: "i < length (pf_positions r)" "pf_positions r ! i = x"
        by (auto simp: in_set_conv_nth)
      have l: "length (pf_positions r) = length ps" using m(1) by (metis length_map)
      have "pr_workingUsd18 x = working policy ps (ps ! i)"
        "pr_singleRecognizedUsd18 x = po_singleRecognizedUsd18 (ps ! i)"
        using i l arg_cong [OF m(1), of "\<lambda>xs. xs ! i"] arg_cong [OF m(2), of "\<lambda>xs. xs ! i"] by simp_all
      then show ?thesis using working_bounds [OF assms(1) ps(2) nn, of "ps ! i"] i l by simp
    qed
    then show ?thesis using m f b(2,3) by (simp add: list_all_iff)
  qed
  show ?thesis
    using w f b(1) dedupe_facts(1,3) [OF ps(1)] by simp
qed

lemma launch_policy_valid:
  "valid_policy (launch_policy [])" "valid_policy (launch_policy [night_shock])"
  by (simp_all add: valid_policy_def launch_policy_ok factorOf_def MARKET_SESSIONS_def night_shock_def
      P_BPS_def) (simp_all add: launch_policy_def)

lemma sample_nonneg: "nonneg_positions [sample_a, sample_b]"
  by (simp add: nonneg_positions_def sample_facts)

theorem portfolio_no_bonus_witness:
  "\<exists>r. evaluatePortfolio [sample_a, sample_b] (launch_policy []) = Inr r
     \<and> 0 \<le> pf_portfolioRecognizedValueUsd18 r \<and> pf_portfolioRecognizedValueUsd18 r = 120
     \<and> pf_singleAssetRecognizedTotalUsd18 r = 200"
proof -
  obtain r where r: "evaluatePortfolio [sample_a, sample_b] (launch_policy []) = Inr r"
    "pf_portfolioRecognizedValueUsd18 r = 120"
    using one_withheld_issuer_improves by blast
  from portfolio_no_bonus [OF launch_policy_valid(1) sample_nonneg r(1)] r show ?thesis
    by (auto simp: sample_facts)
qed

lemma map_values_update_same:
  "map_of m k = Some u \<Longrightarrow> f v = f u \<Longrightarrow> map f (map_values (AList.update k v m)) = map f (map_values m)"
  by (induction m) (auto simp: map_values_def split: if_splits)

definition row_key :: "PortfolioPosition \<Rightarrow> string \<times> (Dimension \<times> string option) list" where
  "row_key p = (po_instrumentId p, po_groups p)"

lemma dedupeStep_groups:
  assumes "dedupeStep m p = Inr m'" "keyed m"
  shows "row_key ` set (map_values m')
    = insert (row_key p) (row_key ` set (map_values m))"
  using assms(1)
proof (cases rule: dedupeStep_cases)
  case 1
  then show ?thesis by (auto simp: map_values_def)
next
  case (2 e)
  have e: "row_key (mergePosition e p) = row_key e" "row_key e = row_key p"
    using 2 keyed_lookup [OF assms(2)] by (simp_all add: mergePosition_def row_key_def)
  have "row_key ` set (map_values m') = row_key ` set (map_values m)"
    using map_values_update_same [of m _ e row_key, OF 2(1) e(1)] unfolding 2(2) by (metis set_map)
  moreover have "row_key p \<in> row_key ` set (map_values m)" using map_of_in_values [OF 2(1)] e(2) by (metis imageI)
  ultimately show ?thesis by auto
qed

lemma dedupe_groups:
  assumes "dedupe raw = Inr ps"
  shows "row_key ` set ps = row_key ` set raw"
proof -
  have "row_key ` set (map_values m') = row_key ` set raw \<union> row_key ` set (map_values m)"
    if "foldR dedupeStep m raw = Inr m'" "keyed m" for m m'
    using that
  proof (induction raw arbitrary: m)
    case (Cons p raw)
    then obtain m1 where m1: "dedupeStep m p = Inr m1" "foldR dedupeStep m1 raw = Inr m'" by auto
    from Cons.IH [OF m1(2) dedupeStep_keyed [OF m1(1) Cons.prems(2)]] dedupeStep_groups [OF m1(1) Cons.prems(2)]
    show ?case by auto
  qed simp
  moreover obtain m where "foldR dedupeStep [] raw = Inr m" "ps = map_values m" using assms by (auto simp: dedupe_def)
  ultimately show ?thesis by (metis Un_empty_right empty_set image_empty keyed_Nil list.simps(8) map_values_def)
qed

lemma sum_filter_rows:
  assumes "map key xs = map key' ys" "map val xs = map val' ys"
  shows "sum_list (map val (filter (\<lambda>x. Q (key x)) xs)) = (sum_list (map val' (filter (\<lambda>y. Q (key' y)) ys)) :: int)"
proof -
  have "length xs = length ys" using assms(1) by (metis length_map)
  then show ?thesis using assms by (induction xs ys rule: list_induct2) auto
qed

lemma sum_filter_mono:
  assumes "\<And>x. x \<in> set xs \<Longrightarrow> 0 \<le> (f x :: int)" "\<And>x. x \<in> set xs \<Longrightarrow> P x \<Longrightarrow> Q x"
  shows "sum_list (map f (filter P xs)) \<le> sum_list (map f (filter Q xs))"
  using assms by (induction xs) (auto simp: add_increasing)

text \<open>The worked value, in a result, of the instruments that some row puts into a group of a dimension.\<close>

definition worked_in :: "PortfolioPosition list \<Rightarrow> PortfolioResult \<Rightarrow> (PortfolioPosition \<Rightarrow> bool) \<Rightarrow> int" where
  "worked_in raw r G = sum_list (map pr_workingUsd18
     (filter (\<lambda>x. list_ex (\<lambda>p. po_instrumentId p = pr_instrumentId x \<and> G p) raw) (pf_positions r)))"

lemma worked_in_le:
  assumes "valid_policy policy" "caps_ok policy" "nonneg_positions ps" "dedupe raw = Inr ps" "portfolio_facts policy ps r"
    and G: "\<And>p q. po_groups p = po_groups q \<Longrightarrow> G p = G q" "\<And>p. G p \<Longrightarrow> fst (groupKeyOf p d) = k"
    and "0 \<le> B" "concentration_sum policy ps d k \<le> B"
  shows "worked_in raw r G \<le> B"
proof (cases "sum_list (map po_singleRecognizedUsd18 ps) = 0")
  case True
  then have "\<forall>x\<in>set (pf_positions r). pr_workingUsd18 x = 0"
    using assms(5) by (auto simp: portfolio_facts_def list_all_iff)
  then have "map pr_workingUsd18 (filter P (pf_positions r)) = map (\<lambda>_. 0) (filter P (pf_positions r))" for P
    by auto
  then show ?thesis using assms(8) by (simp only: worked_in_def sum_list_0)
next
  case False
  let ?Q = "\<lambda>i. list_ex (\<lambda>p. po_instrumentId p = i \<and> G p) raw"
  have m: "map pr_instrumentId (pf_positions r) = map po_instrumentId ps"
    "map pr_workingUsd18 (pf_positions r) = map (working policy ps) ps"
    using assms(5) False by (auto simp: portfolio_facts_def)
  have "G q" if q: "q \<in> set ps" "?Q (po_instrumentId q)" for q
  proof -
    obtain p where p: "p \<in> set raw" "po_instrumentId p = po_instrumentId q" "G p" using q(2) by (auto simp: list_ex_iff)
    then have "row_key p \<in> row_key ` set ps"
      using dedupe_groups [OF assms(4)] by blast
    then obtain q' where q': "q' \<in> set ps" "po_instrumentId q' = po_instrumentId p" "po_groups q' = po_groups p"
      by (auto simp: row_key_def)
    then have "q' = q" using dedupe_facts(3) [OF assms(4)] q(1) p(2) by (auto simp: distinct_map inj_on_def)
    then show "G q" using p(3) q'(3) G(1) by blast
  qed
  then have "sum_list (map (working policy ps) (filter (\<lambda>q. ?Q (po_instrumentId q)) ps))
      \<le> sum_list (map (working policy ps) (filter (\<lambda>q. fst (groupKeyOf q d) = k) ps))"
    using G(2) working_bounds [OF assms(1-3)] by (intro sum_filter_mono) auto
  then show ?thesis
    using assms(9) sum_filter_rows [OF m, of ?Q] by (simp add: worked_in_def concentration_sum_def members_def)
qed

text \<open>
  C13: no shared-fate group is worked above its cap. For a policy with non-negative session factors and
  haircuts within a hundred percent, and rows with non-negative recognised values, duplicates of an instrument
  included: in each of the dimensions underlying, issuer, custody and sector, the instruments that the rows
  put into one named group are worked, together, to at most the policy's named cap on the sum of all
  recognised values, and those whose group is missing to at most its cap for unknown groups, as long as no row
  names a group with the text the code uses for the unknown one. The liquidity dimension, a limit on
  depth, is not covered.
\<close>

theorem concentration_capped:
  assumes "valid_policy policy" "nonneg_positions raw" "evaluatePortfolio raw policy = Inr r"
    "d \<noteq> LIQUIDITY"
  shows "(g \<noteq> [] \<longrightarrow> worked_in raw r (\<lambda>p. group_of p d = Some g)
           \<le> sum_list (map po_singleRecognizedUsd18 raw) * pp_capBps policy d NAMED div 10000)
    \<and> ((\<forall>p\<in>set raw. group_of p d \<noteq> Some (''UNKNOWN_'' @ dimension_name d)) \<longrightarrow>
       worked_in raw r (\<lambda>p. group_of p d = None \<or> group_of p d = Some [])
           \<le> sum_list (map po_singleRecognizedUsd18 raw) * pp_capBps policy d UNKNOWN div 10000)"
proof -
  obtain ps where ps: "dedupe raw = Inr ps" "caps_ok policy" "portfolio_facts policy ps r"
    by (rule evaluatePortfolio_ok [OF valid_policyD(1) [OF assms(1)] assms(3)])
  have nn: "nonneg_positions ps"
    using dedupe_facts(4) [OF ps(1)] assms(2) by (simp add: nonneg_positions_def list_all_iff)
  let ?base = "sum_list (map po_singleRecognizedUsd18 ps)"
  have base: "0 \<le> ?base" "?base = sum_list (map po_singleRecognizedUsd18 raw)"
    by (rule sum_single_nonneg [OF nn], rule dedupe_facts(1) [OF ps(1)])
  have pos: "0 \<le> ?base * pp_capBps policy d kind div P_BPS" for kind
    using base(1) caps_okD(1) [OF ps(2)] by (simp add: muldiv_nonneg P_BPS_def)
  have cap: "concentration_sum policy ps d k \<le> ?base * pp_capBps policy d NAMED div P_BPS" for k
  proof (cases "members ps d k = []")
    case True
    then show ?thesis using pos by (simp add: concentration_sum_def)
  next
    case False
    obtain kind where kd: "map_of (gt_kinds (groupTotals ps d)) k = Some (Some kind)"
      using members_kind [OF assms(4) False] by blast
    have "?base * pp_capBps policy d kind div P_BPS \<le> ?base * pp_capBps policy d NAMED div P_BPS"
      using base caps_okD(2) [OF ps(2)] by (intro zdiv_mono1 mult_left_mono) (auto simp: P_BPS_def)
    with group_capped [OF assms(1) ps(2) nn assms(4) kd] show ?thesis by simp
  qed
  have grp: "group_of p d = group_of q d" if "po_groups p = po_groups q" for p q :: PortfolioPosition
    using that by (simp add: group_of_def)
  have named: "worked_in raw r (\<lambda>p. group_of p d = Some g) \<le> ?base * pp_capBps policy d NAMED div P_BPS" if "g \<noteq> []"
  proof (rule worked_in_le [OF assms(1) ps(2) nn ps(1,3) _ _ pos cap])
    show "(group_of p d = Some g) = (group_of q d = Some g)" if "po_groups p = po_groups q" for p q
      by (simp only: grp [OF that])
    show "fst (groupKeyOf p d) = g" if "group_of p d = Some g" for p
      using that \<open>g \<noteq> []\<close> assms(4) by (simp add: groupKeyOf_def Let_def)
  qed
  have unknown: "worked_in raw r (\<lambda>p. group_of p d = None \<or> group_of p d = Some [])
      \<le> ?base * pp_capBps policy d UNKNOWN div P_BPS"
    if free: "\<forall>p\<in>set raw. group_of p d \<noteq> Some (unknown_key d)"
  proof (rule worked_in_le [OF assms(1) ps(2) nn ps(1,3) _ _ pos])
    show "concentration_sum policy ps d (unknown_key d) \<le> ?base * pp_capBps policy d UNKNOWN div P_BPS"
    proof (cases "members ps d (unknown_key d) = []")
      case True
      then show ?thesis using pos by (simp add: concentration_sum_def)
    next
      case False
      let ?q = "last (members ps d (unknown_key d))"
      have q: "?q \<in> set ps" "fst (groupKeyOf ?q d) = unknown_key d"
        using last_in_set [OF False] by (auto simp: members_def)
      then obtain p where "p \<in> set raw" "po_groups p = po_groups ?q"
        using dedupe_groups [OF ps(1)] by (metis (no_types, lifting) imageE image_eqI row_key_def snd_conv)
      then have "group_of ?q d \<noteq> Some (unknown_key d)" using free grp by metis
      then have "snd (groupKeyOf ?q d) = Some UNKNOWN"
        using q(2) assms(4) by (cases "group_of ?q d") (auto simp: groupKeyOf_def Let_def split: if_splits)
      with False have "map_of (gt_kinds (groupTotals ps d)) (unknown_key d) = Some (Some UNKNOWN)"
        by (simp add: groupTotals_kinds)
      from group_capped [OF assms(1) ps(2) nn assms(4) this] show ?thesis .
    qed
    show "(group_of p d = None \<or> group_of p d = Some []) = (group_of q d = None \<or> group_of q d = Some [])"
      if "po_groups p = po_groups q" for p q by (simp only: grp [OF that])
    show "fst (groupKeyOf p d) = unknown_key d" if "group_of p d = None \<or> group_of p d = Some []" for p
      using that assms(4) by (auto simp: groupKeyOf_def Let_def unknown_key_def)
  qed
  show ?thesis using named unknown unfolding base(2) P_BPS_def unknown_key_def by blast
qed

text \<open>Two rows of one instrument and one of another issue, and a fourth whose issuer is withheld.\<close>

definition merged_rows :: "PortfolioPosition list" where
  "merged_rows = [sample_a, sample_b, sample_a, sample_position ''c'' None 100]"

theorem concentration_capped_witness:
  "\<exists>r. evaluatePortfolio merged_rows (launch_policy []) = Inr r
     \<and> worked_in merged_rows r (\<lambda>p. group_of p ISSUER = Some ''ondo'') \<le> 240
     \<and> worked_in merged_rows r (\<lambda>p. group_of p ISSUER = None \<or> group_of p ISSUER = Some []) \<le> 120"
proof -
  have nc: "no_conflicts merged_rows"
    unfolding no_conflicts_def by (simp add: merged_rows_def risk_tag_def sample_a_def sample_b_def sample_position_def)
  obtain r where r: "evaluatePortfolio merged_rows (launch_policy []) = Inr r"
    using accepts_iff [of "launch_policy []" merged_rows] launch_policy_ok nc launch_policy_valid(1) valid_policyD(1)
    by (auto simp: merged_rows_def launch_policy_def)
  have n: "nonneg_positions merged_rows"
    by (simp add: nonneg_positions_def merged_rows_def sample_a_def sample_b_def sample_position_def)
  have c: "pp_capBps (launch_policy []) ISSUER NAMED = 6000" "pp_capBps (launch_policy []) ISSUER UNKNOWN = 3000"
    by (simp_all add: launch_policy_def)
  have "sum_list (map po_singleRecognizedUsd18 merged_rows) = 400"
    "\<forall>p\<in>set merged_rows. group_of p ISSUER \<noteq> Some (''UNKNOWN_'' @ dimension_name ISSUER)"
    by (simp_all add: merged_rows_def sample_a_def sample_b_def sample_position_def group_of_def)
  with concentration_capped [OF launch_policy_valid(1) n r, of ISSUER "''ondo''"] r
  show ?thesis by (auto simp: c)
qed

text \<open>
  The order of the rows does not matter. Rows in another order, with distinct instruments and
  no named group that carries the name of an unknown one, are accepted with the same base, market
  value, recognised value and canonical encoding.
\<close>

theorem portfolio_order_irrelevant:
  assumes "sessions_complete policy" "evaluatePortfolio raw policy = Inr r"
    "mset raw' = mset raw" "distinct (map po_instrumentId raw)" "kinds_consistent raw"
  shows "\<exists>r'. evaluatePortfolio raw' policy = Inr r'
    \<and> pf_singleAssetRecognizedTotalUsd18 r' = pf_singleAssetRecognizedTotalUsd18 r
    \<and> pf_portfolioMarketValueUsd18 r' = pf_portfolioMarketValueUsd18 r
    \<and> pf_portfolioRecognizedValueUsd18 r' = pf_portfolioRecognizedValueUsd18 r
    \<and> pf_canonicalInput r' = pf_canonicalInput r"
proof -
  have dist: "distinct (map po_instrumentId raw')"
    using assms(3,4) by (metis mset_map mset_eq_imp_distinct_iff)
  obtain ps where ps: "dedupe raw = Inr ps" "caps_ok policy" "portfolio_facts policy ps r"
    by (rule evaluatePortfolio_ok [OF assms(1,2)])
  have eq: "ps = raw" using ps(1) dedupe_distinct [OF assms(4)] by simp
  have lens: "int (length raw') \<le> pp_maxCollateralInstruments policy"
    "int (length (pp_stressScenarios policy)) \<le> pp_maxStressScenarios policy"
    using accepts_iff [OF assms(1), THEN iffD1, OF exI, OF assms(2)] mset_eq_length [OF assms(3)]
    by (simp_all only:)
  obtain r' where r': "evaluatePortfolio raw' policy = Inr r'" "portfolio_facts policy raw' r'"
    by (rule evaluates_to [OF assms(1) ps(2) dist lens])
  have "canonicalEncode raw' policy = canonicalEncode raw policy"
    unfolding canonicalEncode_def by (simp add: sort_key_mset [OF assms(3) dist])
  moreover have "recognizedValue policy raw' = recognizedValue policy raw"
    by (rule recognizedValue_mset [OF assms(3) [symmetric] assms(5), symmetric])
  moreover note sum_list_mset [OF assms(3), of po_singleRecognizedUsd18]
    sum_list_mset [OF assms(3), of po_marketValueUsd18]
  ultimately show ?thesis using r' ps(3) by (auto simp: portfolio_facts_def eq)
qed

lemma sample_kinds: "kinds_consistent [sample_a, sample_b]"
  unfolding kinds_consistent_def
  by (auto simp: DIMENSIONS_def groupKeyOf_def group_of_def sample_a_def sample_b_def sample_position_def)

theorem portfolio_order_irrelevant_witness:
  "\<exists>r'. evaluatePortfolio [sample_b, sample_a] (launch_policy []) = Inr r'
     \<and> pf_portfolioRecognizedValueUsd18 r' = 120"
proof -
  obtain r where r: "evaluatePortfolio [sample_a, sample_b] (launch_policy []) = Inr r"
    "pf_portfolioRecognizedValueUsd18 r = 120"
    using one_withheld_issuer_improves by blast
  from portfolio_order_irrelevant [OF launch_policy_ok(1) r(1), of "[sample_b, sample_a]"]
  show ?thesis by (auto simp: sample_facts sample_kinds r(2))
qed

text \<open>
  A stricter policy never recognises more. Lowering caps or session factors, or raising
  scenario haircuts, gives a recognised value no larger on the same rows.
\<close>

theorem stricter_policy_recognises_less:
  assumes "valid_policy policy" "valid_policy policy'" "nonneg_positions raw"
    "evaluatePortfolio raw policy = Inr r" "evaluatePortfolio raw policy' = Inr r'"
    "stricter policy' policy"
  shows "pf_portfolioRecognizedValueUsd18 r' \<le> pf_portfolioRecognizedValueUsd18 r"
proof -
  obtain ps where ps: "dedupe raw = Inr ps" "caps_ok policy" "portfolio_facts policy ps r"
    by (rule evaluatePortfolio_ok [OF valid_policyD(1) [OF assms(1)] assms(4)])
  obtain ps' where ps': "dedupe raw = Inr ps'" "caps_ok policy'" "portfolio_facts policy' ps' r'"
    by (rule evaluatePortfolio_ok [OF valid_policyD(1) [OF assms(2)] assms(5)])
  have nn: "nonneg_positions ps"
    using dedupe_facts(4) [OF ps(1)] assms(3) by (simp add: nonneg_positions_def list_all_iff)
  show ?thesis
    using ps ps' recognizedValue_mono [OF assms(6) ps'(2) ps(2) nn assms(2,1)]
    by (simp add: portfolio_facts_def)
qed

definition tight_policy :: PortfolioRiskPolicy where
  "tight_policy = (launch_policy [])\<lparr>pp_sessionFactorBps :=
     [(OPEN, 5000), (PRE_MARKET, 5000), (POST_MARKET, 5000), (CLOSED, 4000), (SESSION_UNKNOWN, 3000)]\<rparr>"

lemma tight_policy_ok:
  "sessions_complete tight_policy" "caps_ok tight_policy" "valid_policy tight_policy"
  "stricter tight_policy (launch_policy [])"
  by (simp_all add: tight_policy_def launch_policy_def sessions_complete_def caps_ok_def valid_policy_def
      stricter_def factorOf_def MARKET_SESSIONS_def DIMENSIONS_def P_BPS_def)

theorem stricter_policy_recognises_less_witness:
  "\<exists>r'. evaluatePortfolio [sample_a, sample_b] tight_policy = Inr r'
     \<and> pf_portfolioRecognizedValueUsd18 r' \<le> 120"
proof -
  obtain r where r: "evaluatePortfolio [sample_a, sample_b] (launch_policy []) = Inr r"
    "pf_portfolioRecognizedValueUsd18 r = 120"
    using one_withheld_issuer_improves by blast
  obtain r' where r': "evaluatePortfolio [sample_a, sample_b] tight_policy = Inr r'"
    by (rule evaluates_to [OF tight_policy_ok(1,2), of "[sample_a, sample_b]"])
      (simp_all add: sample_facts, simp_all add: tight_policy_def launch_policy_ok)
  from stricter_policy_recognises_less
    [OF launch_policy_valid(1) tight_policy_ok(3) sample_nonneg r(1) r' tight_policy_ok(4)] r r'
  show ?thesis by auto
qed

text \<open>
  Withholding a whole concentration dimension never helps. With stress scenarios that select by
  session only, evaluating the rows with one dimension's classification removed from all of them
  recognises no more than with it.
\<close>

theorem blanked_dimension_never_helps:
  assumes "valid_policy policy" "nonneg_positions raw" "distinct (map po_instrumentId raw)"
    "d \<noteq> LIQUIDITY" "\<forall>s\<in>set (pp_stressScenarios policy). ss_appliesToGroupIds s = []"
    "evaluatePortfolio raw policy = Inr r" "evaluatePortfolio (map (blank d) raw) policy = Inr r'"
  shows "pf_portfolioRecognizedValueUsd18 r' \<le> pf_portfolioRecognizedValueUsd18 r"
proof -
  have dist: "distinct (map po_instrumentId (map (blank d) raw))" using assms(3) by (simp add: comp_def)
  obtain ps where ps: "dedupe raw = Inr ps" "caps_ok policy" "portfolio_facts policy ps r"
    by (rule evaluatePortfolio_ok [OF valid_policyD(1) [OF assms(1)] assms(6)])
  obtain ps' where ps': "dedupe (map (blank d) raw) = Inr ps'" "portfolio_facts policy ps' r'"
    by (rule evaluatePortfolio_ok [OF valid_policyD(1) [OF assms(1)] assms(7)])
  have "ps = raw" "ps' = map (blank d) raw"
    using ps(1) ps'(1) dedupe_distinct [OF assms(3)] dedupe_distinct [OF dist] by simp_all
  with ps ps' recognizedValue_blank [OF assms(1) ps(2) assms(2,4,5)] show ?thesis
    by (simp add: portfolio_facts_def)
qed

theorem blanked_dimension_never_helps_witness:
  "\<exists>r'. evaluatePortfolio [blank ISSUER sample_a, blank ISSUER sample_b] (launch_policy []) = Inr r'
     \<and> pf_portfolioRecognizedValueUsd18 r' \<le> 120"
proof -
  obtain r where r: "evaluatePortfolio [sample_a, sample_b] (launch_policy []) = Inr r"
    "pf_portfolioRecognizedValueUsd18 r = 120"
    using one_withheld_issuer_improves by blast
  obtain r' where r': "evaluatePortfolio [blank ISSUER sample_a, blank ISSUER sample_b] (launch_policy []) = Inr r'"
    by (rule evaluates_to [of "launch_policy []" "[blank ISSUER sample_a, blank ISSUER sample_b]"])
      (simp_all add: launch_policy_ok sample_facts)
  from blanked_dimension_never_helps
    [OF launch_policy_valid(1) sample_nonneg, of ISSUER r r'] r r'
  show ?thesis by (auto simp: launch_policy_ok sample_facts)
qed

end
