(* ===== verification/Corporate_Actions.thy ===== *)
theory Corporate_Actions
  imports Risk_Engine
begin

text \<open>
  The corporate-action reference model of \<open>packages/corp-actions/src\<close>: the factor of a snapshot
  and the quantities and values derived from it (\<open>quantity.ts\<close>), the share pool (\<open>pool.ts\<close>),
  the reconciliation of snapshots (\<open>ingestion.ts\<close>) and the bridge to the risk pipeline
  (\<open>risk-bridge.ts\<close>). The pool's \<open>shares\<close> map is an association list in insertion order.
\<close>

section \<open>Types\<close>

definition CA_WAD :: int where "CA_WAD = 1000000000000000000"

lemma CA_WAD_pos [simp]: "0 < CA_WAD" "0 \<le> CA_WAD" "CA_WAD \<noteq> 0" by (simp_all add: CA_WAD_def)

datatype AccountingMode =
  FIXED_UNIT | EXTERNALLY_SCALED | REBASING_BALANCE | SHARE_BASED_CUSTODY | EXTERNALLY_MANAGED

datatype PriceConvention = FACTOR_IN_PRICE | FACTOR_IN_QUANTITY | FACTOR_ABSENT

datatype FeedStatus = LIVE | PAUSED_FOR_ACTION | FEED_STALE | FEED_UNKNOWN

datatype SupportStatus =
  VERIFIED_SUPPORTED | TESTED_SUPPORTED | RESTRICTED | SUPPORT_UNKNOWN | UNSUPPORTED

record CorporateActionSnapshot =
  cs_instrumentId :: string
  cs_accountingMode :: AccountingMode
  cs_accountingModeVersion :: int
  cs_factorWad :: int
  cs_pendingFactorWad :: "int option"
  cs_pendingActivationAt :: "int option"
  cs_sourceDomain :: string
  cs_sourceBlock :: int
  cs_sourceEvent :: "string option"
  cs_priceConvention :: PriceConvention
  cs_feedStatus :: FeedStatus
  cs_adapterVersion :: string
  cs_support :: SupportStatus
  cs_observedAt :: int

record EffectiveFactor =
  ef_factorWad :: int
  ef_restrictNewRisk :: bool
  ef_reason :: "string option"

record SharePool =
  sp_totalShares :: int
  sp_tokenBalance :: int

datatype ActionKind = DEPOSIT | WITHDRAW | REBASE | LIQUIDATION_SEIZE | FEE

record Action =
  ac_kind :: ActionKind
  ac_value :: int
  ac_account :: "string option"
  ac_provenance :: "string option"

datatype EffectKind = SHARES_MINTED | SHARES_BURNED | REBASE_OBSERVED | UNATTRIBUTED_SURPLUS | FEE_TAKEN

record ActionEffect =
  ae_kind :: EffectKind
  ae_account :: "string option"
  ae_shares :: int
  ae_rawDelta :: int
  ae_impliedFactorWad :: "int option"
  ae_note :: string

fun support_name :: "SupportStatus \<Rightarrow> string" where
  "support_name VERIFIED_SUPPORTED = ''VERIFIED_SUPPORTED''"
| "support_name TESTED_SUPPORTED = ''TESTED_SUPPORTED''"
| "support_name RESTRICTED = ''RESTRICTED''"
| "support_name SUPPORT_UNKNOWN = ''UNKNOWN''"
| "support_name UNSUPPORTED = ''UNSUPPORTED''"

fun feed_name :: "FeedStatus \<Rightarrow> string" where
  "feed_name LIVE = ''LIVE''"
| "feed_name PAUSED_FOR_ACTION = ''PAUSED_FOR_ACTION''"
| "feed_name FEED_STALE = ''STALE''"
| "feed_name FEED_UNKNOWN = ''UNKNOWN''"

section \<open>Factor, quantity and value\<close>

definition mulDivDown_q :: "int \<Rightarrow> int \<Rightarrow> int \<Rightarrow> int result" where
  "mulDivDown_q a b d =
     (if d = 0 then Inl (JsError ''mulDivDown: division by zero'') else Inr ((a * b) sdiv d))"

lemma mulDivDown_q_ok [simp]: "d \<noteq> 0 \<Longrightarrow> mulDivDown_q a b d = Inr ((a * b) sdiv d)"
  by (simp add: mulDivDown_q_def)

definition pendingReason :: "CorporateActionSnapshot \<Rightarrow> int \<Rightarrow> string" where
  "pendingReason snap now =
     (case cs_pendingActivationAt snap of
        Some t \<Rightarrow> if t \<le> now
          then ''snapshot predates the pending activation; re-read the factor from chain''
          else ''a corporate-action factor change is pending''
      | None \<Rightarrow> ''a corporate-action factor change is pending'')"

definition restrictReasons :: "CorporateActionSnapshot \<Rightarrow> int \<Rightarrow> string list" where
  "restrictReasons snap now =
     (if cs_support snap = SUPPORT_UNKNOWN \<or> cs_support snap = RESTRICTED
      then [''support is '' @ support_name (cs_support snap)] else [])
     @ (if cs_feedStatus snap \<noteq> LIVE then [''feed is '' @ feed_name (cs_feedStatus snap)] else [])
     @ (if cs_pendingFactorWad snap \<noteq> None then [pendingReason snap now] else [])"

definition effectiveFactor :: "CorporateActionSnapshot \<Rightarrow> int \<Rightarrow> EffectiveFactor result" where
  "effectiveFactor snap now =
     (if cs_support snap = UNSUPPORTED
      then Inl (JsError (''corporate-action support is UNSUPPORTED for '' @ cs_instrumentId snap))
      else if cs_accountingMode snap = FIXED_UNIT then
        if cs_factorWad snap \<noteq> CA_WAD
        then Inl (JsError ''FIXED_UNIT must carry factorWad == 1e18'')
        else Inr \<lparr>ef_factorWad = CA_WAD, ef_restrictNewRisk = False, ef_reason = None\<rparr>
      else
        let reasons = restrictReasons snap now;
            factor = (case cs_pendingFactorWad snap of
                        None \<Rightarrow> cs_factorWad snap
                      | Some p \<Rightarrow> if p < cs_factorWad snap then p else cs_factorWad snap)
        in Inr \<lparr>ef_factorWad = factor,
                ef_restrictNewRisk = (reasons \<noteq> []),
                ef_reason = (if reasons \<noteq> [] then Some (join_with ''; '' reasons) else None)\<rparr>)"

record EffectiveQuantity =
  eq_effective :: int
  eq_restrictNewRisk :: bool
  eq_reason :: "string option"

definition effectiveQuantity ::
  "int \<Rightarrow> CorporateActionSnapshot \<Rightarrow> int \<Rightarrow> EffectiveQuantity result" where
  "effectiveQuantity stored snap now =
     bindR (effectiveFactor snap now) (\<lambda>f.
       case cs_accountingMode snap of
         FIXED_UNIT \<Rightarrow> Inr \<lparr>eq_effective = stored, eq_restrictNewRisk = False, eq_reason = None\<rparr>
       | EXTERNALLY_SCALED \<Rightarrow>
           bindR (mulDivDown_q stored (ef_factorWad f) CA_WAD) (\<lambda>q.
             Inr \<lparr>eq_effective = q, eq_restrictNewRisk = ef_restrictNewRisk f, eq_reason = ef_reason f\<rparr>)
       | REBASING_BALANCE \<Rightarrow>
           bindR (mulDivDown_q stored (ef_factorWad f) (cs_factorWad snap)) (\<lambda>q.
             Inr \<lparr>eq_effective = q, eq_restrictNewRisk = ef_restrictNewRisk f, eq_reason = ef_reason f\<rparr>)
       | SHARE_BASED_CUSTODY \<Rightarrow>
           Inl (JsError ''SHARE_BASED_CUSTODY effective quantity is a pool computation'')
       | EXTERNALLY_MANAGED \<Rightarrow>
           Inl (JsError ''EXTERNALLY_MANAGED accounting is not modelled in Phase 03''))"

datatype QuantityBasis = RAW_BASIS | EFFECTIVE_BASIS

record EconomicValue =
  ev_valueUsd18 :: int
  ev_quantityUsed :: int
  ev_basis :: QuantityBasis
  ev_restrictNewRisk :: bool
  ev_reason :: "string option"

definition economicValueUsd18 ::
  "int \<Rightarrow> int \<Rightarrow> int \<Rightarrow> CorporateActionSnapshot \<Rightarrow> int \<Rightarrow> EconomicValue result" where
  "economicValueUsd18 storedRaw priceUsd18 decimals snap now =
     bindR (pow10 decimals) (\<lambda>scale.
       if cs_priceConvention snap = FACTOR_ABSENT \<or> cs_priceConvention snap = FACTOR_IN_PRICE then
         bindR (if cs_accountingMode snap = FIXED_UNIT
                then Inr \<lparr>ef_factorWad = CA_WAD, ef_restrictNewRisk = False, ef_reason = None\<rparr>
                else effectiveFactor snap now) (\<lambda>f.
         bindR (mulDivDown_q storedRaw priceUsd18 scale) (\<lambda>v.
           Inr \<lparr>ev_valueUsd18 = v, ev_quantityUsed = storedRaw, ev_basis = RAW_BASIS,
                ev_restrictNewRisk = ef_restrictNewRisk f, ev_reason = ef_reason f\<rparr>))
       else
         bindR (effectiveQuantity storedRaw snap now) (\<lambda>e.
         bindR (mulDivDown_q (eq_effective e) priceUsd18 scale) (\<lambda>v.
           Inr \<lparr>ev_valueUsd18 = v, ev_quantityUsed = eq_effective e, ev_basis = EFFECTIVE_BASIS,
                ev_restrictNewRisk = eq_restrictNewRisk e, ev_reason = eq_reason e\<rparr>)))"

definition doubleCountedValueUsd18 :: "int \<Rightarrow> int \<Rightarrow> int \<Rightarrow> int \<Rightarrow> int result" where
  "doubleCountedValueUsd18 storedRaw factorInPriceUsd18 decimals factorWad =
     bindR (pow10 decimals) (\<lambda>scale.
     bindR (mulDivDown_q storedRaw factorWad CA_WAD) (\<lambda>scaledQty.
       mulDivDown_q scaledQty factorInPriceUsd18 scale))"

datatype OracleBasis = FACTOR_CARRYING_FEED | RAW_UNDERLYING_FEED | PLAIN

record RiskQuantity =
  rq_quantityForPipeline :: int
  rq_requiredOracleBasis :: OracleBasis
  rq_restrictNewRisk :: bool
  rq_reason :: "string option"
  rq_pinnedSnapshot :: CorporateActionSnapshot

definition toRiskQuantity :: "int \<Rightarrow> CorporateActionSnapshot \<Rightarrow> int \<Rightarrow> RiskQuantity result" where
  "toRiskQuantity storedRaw snap now =
     (case cs_priceConvention snap of
        FACTOR_ABSENT \<Rightarrow>
          Inr \<lparr>rq_quantityForPipeline = storedRaw, rq_requiredOracleBasis = PLAIN,
               rq_restrictNewRisk = False, rq_reason = None, rq_pinnedSnapshot = snap\<rparr>
      | FACTOR_IN_PRICE \<Rightarrow>
          bindR (if cs_accountingMode snap = FIXED_UNIT
                 then Inr \<lparr>eq_effective = storedRaw, eq_restrictNewRisk = False, eq_reason = None\<rparr>
                 else effectiveQuantity storedRaw snap now) (\<lambda>e.
            Inr \<lparr>rq_quantityForPipeline = storedRaw, rq_requiredOracleBasis = FACTOR_CARRYING_FEED,
                 rq_restrictNewRisk = eq_restrictNewRisk e, rq_reason = eq_reason e,
                 rq_pinnedSnapshot = snap\<rparr>)
      | FACTOR_IN_QUANTITY \<Rightarrow>
          bindR (effectiveQuantity storedRaw snap now) (\<lambda>e.
            Inr \<lparr>rq_quantityForPipeline = eq_effective e, rq_requiredOracleBasis = RAW_UNDERLYING_FEED,
                 rq_restrictNewRisk = eq_restrictNewRisk e, rq_reason = eq_reason e,
                 rq_pinnedSnapshot = snap\<rparr>))"

section \<open>Reconciliation of snapshots\<close>

record ReconcileContext =
  rc_headBlock :: int
  rc_safeDepthBlocks :: int

datatype ReconcileOutcome =
    UNCHANGED CorporateActionSnapshot string
  | ADOPTED CorporateActionSnapshot string
  | REORG_RECONCILED CorporateActionSnapshot string

fun outcome_snapshot :: "ReconcileOutcome \<Rightarrow> CorporateActionSnapshot" where
  "outcome_snapshot (UNCHANGED s r) = s"
| "outcome_snapshot (ADOPTED s r) = s"
| "outcome_snapshot (REORG_RECONCILED s r) = s"

definition belowSafeDepth :: "CorporateActionSnapshot \<Rightarrow> ReconcileContext \<Rightarrow> bool" where
  "belowSafeDepth observed ctx \<longleftrightarrow> rc_headBlock ctx - cs_sourceBlock observed < rc_safeDepthBlocks ctx"

definition staged :: "CorporateActionSnapshot \<Rightarrow> ReconcileContext \<Rightarrow> CorporateActionSnapshot" where
  "staged observed ctx =
     (if belowSafeDepth observed ctx then observed\<lparr>cs_feedStatus := FEED_STALE\<rparr> else observed)"

definition reconcileSnapshot ::
  "CorporateActionSnapshot option \<Rightarrow> CorporateActionSnapshot \<Rightarrow> ReconcileContext \<Rightarrow> ReconcileOutcome" where
  "reconcileSnapshot current observed ctx =
     (case current of
        None \<Rightarrow> ADOPTED (staged observed ctx)
          (if belowSafeDepth observed ctx then ''first observation, below safe depth -> STALE''
           else ''first observation'')
      | Some cur \<Rightarrow>
          if cs_sourceEvent observed \<noteq> None \<and> cs_sourceEvent observed = cs_sourceEvent cur
             \<and> cs_sourceBlock observed \<le> cs_sourceBlock cur
          then UNCHANGED cur ''duplicate event delivery''
          else if cs_sourceBlock cur < cs_sourceBlock observed \<and> \<not> belowSafeDepth observed ctx
          then ADOPTED (staged observed ctx) ''newer finalised observation''
          else if cs_sourceBlock cur < cs_sourceBlock observed \<and> belowSafeDepth observed ctx
          then ADOPTED (staged observed ctx) ''newer observation, below safe depth -> STALE''
          else if cs_sourceBlock observed \<le> cs_sourceBlock cur
                  \<and> (cs_sourceEvent observed \<noteq> cs_sourceEvent cur
                     \<or> cs_factorWad observed \<noteq> cs_factorWad cur)
          then REORG_RECONCILED (staged observed ctx)
            ''current snapshot's source block was reorganised; reconciled to canonical state''
          else UNCHANGED cur ''no change'')"

section \<open>The share pool\<close>

record PoolState =
  pl_pool :: SharePool
  pl_shares :: "(string \<times> int) list"
  pl_unattributedSurplus :: int

definition emptyPool :: PoolState where
  "emptyPool = \<lparr>pl_pool = \<lparr>sp_totalShares = 0, sp_tokenBalance = 0\<rparr>, pl_shares = [],
                pl_unattributedSurplus = 0\<rparr>"

definition backedBalance :: "PoolState \<Rightarrow> int" where
  "backedBalance state = sp_tokenBalance (pl_pool state) - pl_unattributedSurplus state"

definition shares_of :: "PoolState \<Rightarrow> string \<Rightarrow> int" where
  "shares_of state account = option_default (map_of (pl_shares state) account) 0"

definition effectiveOf :: "PoolState \<Rightarrow> string \<Rightarrow> int result" where
  "effectiveOf state account =
     (if sp_totalShares (pl_pool state) = 0 then Inr 0
      else mulDivDown_q (shares_of state account) (backedBalance state) (sp_totalShares (pl_pool state)))"

definition totalEffective :: "PoolState \<Rightarrow> int result" where
  "totalEffective state =
     foldR (\<lambda>total account. bindR (effectiveOf state account) (\<lambda>e. Inr (total + e))) 0
       (map fst (pl_shares state))"

definition dust :: "PoolState \<Rightarrow> int result" where
  "dust state = bindR (totalEffective state) (\<lambda>owed.
     let backed = backedBalance state in Inr (if owed \<le> backed then backed - owed else 0))"

record Conservation =
  co_ok :: bool
  co_totalEffective :: int
  co_unattributedSurplus :: int
  co_dust :: int
  co_tokenBalance :: int

definition conservation :: "PoolState \<Rightarrow> Conservation result" where
  "conservation state =
     bindR (totalEffective state) (\<lambda>te.
     bindR (dust state) (\<lambda>d.
       Inr \<lparr>co_ok = (te + pl_unattributedSurplus state + d = sp_tokenBalance (pl_pool state)
                      \<and> te \<le> backedBalance state \<and> 0 \<le> pl_unattributedSurplus state),
            co_totalEffective = te,
            co_unattributedSurplus = pl_unattributedSurplus state,
            co_dust = d,
            co_tokenBalance = sp_tokenBalance (pl_pool state)\<rparr>))"

text \<open>An absent account or provenance and an empty string are both falsy.\<close>

definition present :: "string option \<Rightarrow> string option" where
  "present x = (case x of Some s \<Rightarrow> if s = [] then None else Some s | None \<Rightarrow> None)"

definition movePool :: "PoolState \<Rightarrow> string \<Rightarrow> int \<Rightarrow> int \<Rightarrow> int \<Rightarrow> PoolState" where
  "movePool state account held dShares dTokens = state
     \<lparr>pl_shares := AList.update account (held + dShares) (pl_shares state),
      pl_pool := (pl_pool state)
        \<lparr>sp_totalShares := sp_totalShares (pl_pool state) + dShares,
         sp_tokenBalance := sp_tokenBalance (pl_pool state) + dTokens\<rparr>\<rparr>"

definition applyDeposit :: "PoolState \<Rightarrow> Action \<Rightarrow> (PoolState \<times> ActionEffect) result" where
  "applyDeposit state action =
     (case present (ac_account action) of
        None \<Rightarrow> Inl (JsError ''DEPOSIT needs an account'')
      | Some account \<Rightarrow>
          if ac_value action \<le> 0 then Inl (JsError ''DEPOSIT value must be positive'')
          else let backedBefore = backedBalance state; total = sp_totalShares (pl_pool state)
               in bindR (if total = 0 then Inr (ac_value action)
                         else mulDivDown_q (ac_value action) total
                                (if backedBefore = 0 then ac_value action else backedBefore)) (\<lambda>minted.
                  Inr (movePool state account (shares_of state account) minted (ac_value action),
                       \<lparr>ae_kind = SHARES_MINTED, ae_account = Some account, ae_shares = minted,
                        ae_rawDelta = ac_value action, ae_impliedFactorWad = None,
                        ae_note = ''authorised deposit''\<rparr>)))"

definition applyRedeem :: "PoolState \<Rightarrow> Action \<Rightarrow> (PoolState \<times> ActionEffect) result" where
  "applyRedeem state action =
     (case present (ac_account action) of
        None \<Rightarrow> Inl (JsError ((if ac_kind action = LIQUIDATION_SEIZE then ''LIQUIDATION_SEIZE''
                              else ''WITHDRAW'') @ '' needs an account''))
      | Some account \<Rightarrow>
          let held = shares_of state account
          in if held < ac_value action then Inl (JsError ''cannot redeem more shares than held'')
             else bindR (mulDivDown_q (ac_value action) (backedBalance state)
                           (sp_totalShares (pl_pool state))) (\<lambda>rawOut.
                  Inr (movePool state account held (- ac_value action) (- rawOut),
                       \<lparr>ae_kind = SHARES_BURNED, ae_account = Some account, ae_shares = ac_value action,
                        ae_rawDelta = - rawOut, ae_impliedFactorWad = None,
                        ae_note = (if ac_kind action = LIQUIDATION_SEIZE then ''liquidation transfer''
                                   else ''authorised withdrawal'')\<rparr>)))"

definition applyRebase :: "PoolState \<Rightarrow> Action \<Rightarrow> (PoolState \<times> ActionEffect) result" where
  "applyRebase state action =
     (let before = sp_tokenBalance (pl_pool state);
          delta = ac_value action - before;
          moved = (\<lambda>surplus. state\<lparr>pl_pool := (pl_pool state)\<lparr>sp_tokenBalance := ac_value action\<rparr>,
                                   pl_unattributedSurplus := surplus\<rparr>)
      in case present (ac_provenance action) of
           None \<Rightarrow>
             if delta < 0
             then Inl (JsError ''an unprovenanced balance decrease cannot happen to a vault'')
             else Inr (moved (pl_unattributedSurplus state + delta),
                       \<lparr>ae_kind = UNATTRIBUTED_SURPLUS, ae_account = None, ae_shares = 0,
                        ae_rawDelta = delta, ae_impliedFactorWad = None,
                        ae_note = ''balance increased with no corporate-action provenance; classified as surplus (I-82)''\<rparr>)
         | Some event \<Rightarrow>
             bindR (if before = 0 then Inr CA_WAD
                    else mulDivDown_q (ac_value action) CA_WAD before) (\<lambda>implied.
             bindR (if before = 0 then Inr (pl_unattributedSurplus state)
                    else mulDivDown_q (pl_unattributedSurplus state) (ac_value action) before) (\<lambda>surplus.
               Inr (moved surplus,
                    \<lparr>ae_kind = REBASE_OBSERVED, ae_account = None, ae_shares = 0,
                     ae_rawDelta = delta, ae_impliedFactorWad = Some implied,
                     ae_note = ''issuer corporate action, event '' @ event\<rparr>))))"

definition applyFee :: "PoolState \<Rightarrow> Action \<Rightarrow> (PoolState \<times> ActionEffect) result" where
  "applyFee state action =
     (if ac_value action < 0 then Inl (JsError ''FEE value must be non-negative'')
      else Inr (state\<lparr>pl_pool := (pl_pool state)
                  \<lparr>sp_tokenBalance := sp_tokenBalance (pl_pool state) - ac_value action\<rparr>\<rparr>,
                \<lparr>ae_kind = FEE_TAKEN, ae_account = None, ae_shares = 0,
                 ae_rawDelta = - ac_value action, ae_impliedFactorWad = None,
                 ae_note = ''modelled protocol fee''\<rparr>))"

definition applyAction :: "PoolState \<Rightarrow> Action \<Rightarrow> (PoolState \<times> ActionEffect) result" where
  "applyAction state action =
     (case ac_kind action of
        DEPOSIT \<Rightarrow> applyDeposit state action
      | WITHDRAW \<Rightarrow> applyRedeem state action
      | LIQUIDATION_SEIZE \<Rightarrow> applyRedeem state action
      | REBASE \<Rightarrow> applyRebase state action
      | FEE \<Rightarrow> applyFee state action)"


section \<open>The factor\<close>

lemma effectiveFactor_inv:
  assumes "effectiveFactor snap now = Inr f"
  shows "cs_support snap \<noteq> UNSUPPORTED"
    and "cs_accountingMode snap = FIXED_UNIT \<Longrightarrow>
           cs_factorWad snap = CA_WAD \<and> ef_factorWad f = CA_WAD \<and> \<not> ef_restrictNewRisk f"
    and "ef_factorWad f \<le> cs_factorWad snap"
    and "cs_accountingMode snap \<noteq> FIXED_UNIT \<Longrightarrow>
           ef_factorWad f = (case cs_pendingFactorWad snap of
             None \<Rightarrow> cs_factorWad snap | Some p \<Rightarrow> min (cs_factorWad snap) p)"
    and "cs_accountingMode snap \<noteq> FIXED_UNIT \<Longrightarrow>
           ef_restrictNewRisk f \<longleftrightarrow> cs_support snap \<in> {SUPPORT_UNKNOWN, RESTRICTED}
             \<or> cs_feedStatus snap \<noteq> LIVE \<or> cs_pendingFactorWad snap \<noteq> None"
    and "ef_restrictNewRisk f \<longleftrightarrow> ef_reason f \<noteq> None"
  using assms
  by (auto simp: effectiveFactor_def Let_def restrictReasons_def split: if_splits option.splits)

lemma effectiveFactor_nonneg:
  assumes "effectiveFactor snap now = Inr f" "0 \<le> cs_factorWad snap"
    "\<And>p. cs_pendingFactorWad snap = Some p \<Longrightarrow> 0 \<le> p"
  shows "0 \<le> ef_factorWad f"
  using assms by (auto simp: effectiveFactor_def Let_def split: if_splits option.splits)

section \<open>The pool\<close>

definition shares_sum :: "(string \<times> int) list \<Rightarrow> int" where
  "shares_sum sh = sum_list (map_values sh)"

definition pool_ok :: "PoolState \<Rightarrow> bool" where
  "pool_ok s \<longleftrightarrow>
     distinct (map fst (pl_shares s))
     \<and> list_all (\<lambda>v. 0 \<le> v) (map_values (pl_shares s))
     \<and> sp_totalShares (pl_pool s) = shares_sum (pl_shares s)
     \<and> 0 \<le> pl_unattributedSurplus s \<and> pl_unattributedSurplus s \<le> sp_tokenBalance (pl_pool s)"

lemma pool_okD:
  assumes "pool_ok s"
  shows "distinct (map fst (pl_shares s))" "0 \<le> backedBalance s" "0 \<le> sp_totalShares (pl_pool s)"
    "0 \<le> pl_unattributedSurplus s" "sp_totalShares (pl_pool s) = shares_sum (pl_shares s)"
    and pool_okA: "0 \<le> shares_of s a" "shares_of s a \<le> sp_totalShares (pl_pool s)"
proof -
  have nn: "\<forall>v\<in>set (map_values (pl_shares s)). 0 \<le> v" using assms by (simp add: pool_ok_def list_all_iff)
  then have le: "v \<in> set (map_values (pl_shares s)) \<Longrightarrow> v \<le> shares_sum (pl_shares s)" for v
    unfolding shares_sum_def by (induction "map_values (pl_shares s)") (auto intro: member_le_sum_list)
  have m: "map_of (pl_shares s) a = Some v \<Longrightarrow> v \<in> set (map_values (pl_shares s))" for v
    by (auto simp: map_values_def dest: map_of_SomeD intro: rev_image_eqI)
  show "distinct (map fst (pl_shares s))" "0 \<le> backedBalance s" "0 \<le> pl_unattributedSurplus s"
    "sp_totalShares (pl_pool s) = shares_sum (pl_shares s)"
    using assms by (simp_all add: pool_ok_def backedBalance_def)
  then show t: "0 \<le> sp_totalShares (pl_pool s)"
    using nn by (simp add: shares_sum_def sum_list_nonneg_int)
  show "0 \<le> shares_of s a"
    using nn m by (cases "map_of (pl_shares s) a") (auto simp: shares_of_def)
  show "shares_of s a \<le> sp_totalShares (pl_pool s)"
    using le m t \<open>sp_totalShares (pl_pool s) = _\<close>
    by (cases "map_of (pl_shares s) a") (auto simp: shares_of_def)
qed

definition claim_of :: "PoolState \<Rightarrow> string \<Rightarrow> int" where
  "claim_of s a = (if sp_totalShares (pl_pool s) = 0 then 0
     else shares_of s a * backedBalance s div sp_totalShares (pl_pool s))"

lemma effectiveOf_ok: "pool_ok s \<Longrightarrow> effectiveOf s a = Inr (claim_of s a)"
  using pool_okD [of s] pool_okA [of s a]
  by (auto simp: effectiveOf_def claim_of_def sdiv_nonneg intro!: sdiv_nonneg)

lemma claim_of_bounds:
  assumes "pool_ok s" shows "0 \<le> claim_of s a" "claim_of s a \<le> backedBalance s"
proof -
  have T: "0 < sp_totalShares (pl_pool s)" if "sp_totalShares (pl_pool s) \<noteq> 0"
    using that pool_okD(3) [OF assms] by linarith
  show "0 \<le> claim_of s a" "claim_of s a \<le> backedBalance s"
    using pool_okD(2) [OF assms] pool_okA [OF assms, of a] T
      muldiv_le [of "backedBalance s" "shares_of s a" "sp_totalShares (pl_pool s)"]
    by (auto simp: claim_of_def muldiv_nonneg mult.commute)
qed






section \<open>What every action keeps\<close>

text \<open>
  What a pool must not be driven with: a fee above the share-backed balance, and a corporate action
  that sets a negative balance. The code checks neither. Every other accepted action keeps the books,
  also a withdrawal of a negative number of shares.
\<close>

definition action_ok :: "PoolState \<Rightarrow> Action \<Rightarrow> bool" where
  "action_ok s a \<longleftrightarrow> (ac_kind a = FEE \<longrightarrow> ac_value a \<le> backedBalance s)
     \<and> (ac_kind a = REBASE \<and> present (ac_provenance a) \<noteq> None \<longrightarrow> 0 \<le> ac_value a)"

lemma rebase_value:
  assumes "pool_ok s" "action_ok s a" "ac_kind a = REBASE" "applyAction s a = Inr (s', e)"
  shows "0 \<le> ac_value a"
  using assms by (cases "present (ac_provenance a)")
    (auto simp: action_ok_def applyAction_def applyRebase_def Let_def pool_ok_def split: if_splits)

lemma sdiv_nonpos:
  assumes "(x::int) \<le> 0" "0 \<le> B" "0 < T"
  shows "(x * B) sdiv T \<le> 0"
proof -
  have "x * B \<le> 0" using assms by (simp add: mult_nonpos_nonneg)
  moreover have "0 \<le> \<bar>x * B\<bar> div T" using assms(3) by (simp add: pos_imp_zdiv_nonneg_iff)
  moreover have "(x * B) sdiv T = sgn (x * B) * (\<bar>x * B\<bar> div T)" using assms(3) by (simp add: signed_divide_int_def)
  ultimately show ?thesis by (cases "x * B = 0") (auto simp: sgn_if signed_divide_int_def)
qed

lemma shares_sum_update:
  assumes "distinct (map fst m)"
  shows "shares_sum (AList.update k (option_default (map_of m k) 0 + d) m) = shares_sum m + d"
proof (cases "map_of m k")
  case None
  then have "k \<notin> fst ` set m" by (simp add: map_of_eq_None_iff)
  then show ?thesis using None by (simp add: update_absent shares_sum_def map_values_def)
next
  case (Some v)
  show ?thesis
    using sum_values_update_present [OF Some, of "\<lambda>x. x" "v + d"] Some by (simp add: shares_sum_def)
qed

lemma movePool_ok:
  assumes "pool_ok s" "0 \<le> shares_of s a + dS" "0 \<le> backedBalance s + dT"
  shows "pool_ok (movePool s a (shares_of s a) dS dT)"
proof -
  note ok = pool_okD [OF assms(1)]
  have "\<forall>v\<in>set (map_values (AList.update a (shares_of s a + dS) (pl_shares s))). 0 \<le> v"
    using assms(1,2) by (auto simp: pool_ok_def list_all_iff dest: in_values_update)
  then show ?thesis
    using assms ok(1,4,5) shares_sum_update [OF ok(1), of a dS]
    by (simp add: pool_ok_def movePool_def list_all_iff distinct_update backedBalance_def shares_of_def)
qed

lemma movePool_simps [simp]:
  "backedBalance (movePool s a h dS dT) = backedBalance s + dT"
  "sp_totalShares (pl_pool (movePool s a h dS dT)) = sp_totalShares (pl_pool s) + dS"
  "sp_tokenBalance (pl_pool (movePool s a h dS dT)) = sp_tokenBalance (pl_pool s) + dT"
  "pl_unattributedSurplus (movePool s a h dS dT) = pl_unattributedSurplus s"
  "shares_of (movePool s a h dS dT) b = (if b = a then h + dS else shares_of s b)"
  by (simp_all add: movePool_def backedBalance_def shares_of_def)

lemma applyDeposit_inv:
  assumes "applyDeposit s a = Inr (s', e)"
  obtains acct m where "present (ac_account a) = Some acct" "0 < ac_value a"
    "s' = movePool s acct (shares_of s acct) m (ac_value a)" "ae_shares e = m"
    "if sp_totalShares (pl_pool s) = 0 then m = ac_value a
     else m = (ac_value a * sp_totalShares (pl_pool s)) sdiv
                (if backedBalance s = 0 then ac_value a else backedBalance s)"
  using assms
  by (auto simp: applyDeposit_def Let_def split: option.splits if_splits)

lemma applyRedeem_inv:
  assumes "applyRedeem s a = Inr (s', e)"
  obtains acct where "present (ac_account a) = Some acct" "ac_value a \<le> shares_of s acct"
    "sp_totalShares (pl_pool s) \<noteq> 0"
    "s' = movePool s acct (shares_of s acct) (- ac_value a)
            (- ((ac_value a * backedBalance s) sdiv sp_totalShares (pl_pool s)))"
    "ae_rawDelta e = - ((ac_value a * backedBalance s) sdiv sp_totalShares (pl_pool s))"
  using assms
  by (auto simp: applyRedeem_def Let_def mulDivDown_q_def split: option.splits if_splits)

lemma minted_bounds:
  assumes "pool_ok s" "0 < v" "sp_totalShares (pl_pool s) \<noteq> 0"
    and "m = (v * sp_totalShares (pl_pool s)) sdiv (if backedBalance s = 0 then v else backedBalance s)"
  shows "0 \<le> m" "m * backedBalance s \<le> v * sp_totalShares (pl_pool s)"
proof -
  note ok = pool_okD [OF assms(1)]
  let ?d = "if backedBalance s = 0 then v else backedBalance s"
  have d: "0 < ?d" using ok(2) assms(2) by auto
  have m: "m = v * sp_totalShares (pl_pool s) div ?d"
    using assms(2,4) ok(3) d by (simp add: sdiv_nonneg del: split_paired_All)
  show "0 \<le> m" using m d assms(2) ok(3) by (simp add: muldiv_nonneg)
  show "m * backedBalance s \<le> v * sp_totalShares (pl_pool s)"
    using m ok(2,3) assms(2) div_mult_le_self [of "backedBalance s" "v * sp_totalShares (pl_pool s)"]
    by (cases "backedBalance s = 0") auto
qed

lemma raw_out_bounds:
  assumes "pool_ok s" "0 \<le> x" "x \<le> shares_of s a" "sp_totalShares (pl_pool s) \<noteq> 0"
  defines "r \<equiv> (x * backedBalance s) sdiv sp_totalShares (pl_pool s)"
  shows "0 \<le> r" "r \<le> backedBalance s" "r * sp_totalShares (pl_pool s) \<le> x * backedBalance s"
proof -
  note ok = pool_okD [OF assms(1)]
  have T: "0 < sp_totalShares (pl_pool s)" using ok(3) assms(4) by simp
  have r: "r = x * backedBalance s div sp_totalShares (pl_pool s)"
    unfolding r_def using T assms(2) ok(2) by (simp add: sdiv_nonneg)
  show "0 \<le> r" using r T assms(2) ok(2) by (simp add: muldiv_nonneg)
  show "r \<le> backedBalance s"
    using r muldiv_le [of "backedBalance s" x "sp_totalShares (pl_pool s)"] T ok(2) pool_okA(2) [OF assms(1), of a] assms(3)
    by (simp add: mult.commute)
  show "r * sp_totalShares (pl_pool s) \<le> x * backedBalance s"
    unfolding r by (rule div_mult_le_self [OF T])
qed

lemma raw_out_le:
  assumes "pool_ok s" "x \<le> shares_of s a" "sp_totalShares (pl_pool s) \<noteq> 0"
  shows "(x * backedBalance s) sdiv sp_totalShares (pl_pool s) \<le> backedBalance s"
proof (cases "0 \<le> x")
  case True
  then show ?thesis using raw_out_bounds(2) [OF assms(1) _ assms(2,3)] by simp
next
  case False
  then show ?thesis
    using sdiv_nonpos [of x "backedBalance s" "sp_totalShares (pl_pool s)"] pool_okD [OF assms(1)] assms(3) by simp
qed

lemma applyAction_ok:
  assumes "pool_ok s" "action_ok s a" "applyAction s a = Inr (s', e)"
  shows "pool_ok s'"
proof (cases "ac_kind a")
  case DEPOSIT
  with assms(3) have "applyDeposit s a = Inr (s', e)" by (simp add: applyAction_def)
  then obtain acct m where m: "0 < ac_value a" "s' = movePool s acct (shares_of s acct) m (ac_value a)"
    "if sp_totalShares (pl_pool s) = 0 then m = ac_value a
     else m = (ac_value a * sp_totalShares (pl_pool s)) sdiv
                (if backedBalance s = 0 then ac_value a else backedBalance s)"
    by (rule applyDeposit_inv) blast
  have "0 \<le> m" using m(1,3) minted_bounds(1) [OF assms(1) m(1)] by (auto split: if_splits)
  then show ?thesis
    using m(1,2) pool_okD [OF assms(1)] pool_okA [OF assms(1), of acct] by (auto intro!: movePool_ok [OF assms(1)])
next
  case FEE
  with assms show ?thesis
    by (auto simp: applyAction_def applyFee_def pool_ok_def action_ok_def backedBalance_def split: if_splits)
next
  case REBASE
  with assms(3) have r: "applyRebase s a = Inr (s', e)" by (simp add: applyAction_def)
  have v: "0 \<le> ac_value a" by (rule rebase_value [OF assms(1,2) REBASE assms(3)])
  let ?b = "sp_tokenBalance (pl_pool s)" and ?u = "pl_unattributedSurplus s"
  have u: "0 \<le> ?u" "?u \<le> ?b" using assms(1) by (simp_all add: pool_ok_def)
  show ?thesis
  proof (cases "?b = 0")
    case True
    then show ?thesis using r assms(1) v u
      by (auto simp: applyRebase_def Let_def pool_ok_def split: option.splits if_splits)
  next
    case False
    then have b: "0 < ?b" using u by simp
    have "?u * ac_value a div ?b \<le> ac_value a"
      using muldiv_le [of "ac_value a" ?u ?b] u b v by (simp add: mult.commute)
    moreover have "0 \<le> ?u * ac_value a div ?b" using u v b by (simp add: muldiv_nonneg)
    ultimately show ?thesis using r assms(1) v u b False
      by (auto simp: applyRebase_def Let_def pool_ok_def sdiv_nonneg split: option.splits if_splits)
  qed
qed (use assms(3) in \<open>auto simp: applyAction_def elim!: applyRedeem_inv
       intro!: movePool_ok [OF assms(1)] dest: raw_out_le [OF assms(1)]\<close>)


text \<open>The states a pool reaches from empty under accepted actions.\<close>

inductive pool_reachable :: "PoolState \<Rightarrow> bool" where
  pool_empty: "pool_reachable emptyPool"
| pool_step: "pool_reachable s \<Longrightarrow> action_ok s a \<Longrightarrow> applyAction s a = Inr (s', e) \<Longrightarrow> pool_reachable s'"

lemma emptyPool_ok: "pool_ok emptyPool"
  by (simp add: pool_ok_def emptyPool_def map_values_def shares_sum_def)

lemma pool_reachable_ok: "pool_reachable s \<Longrightarrow> pool_ok s"
  by (induction rule: pool_reachable.induct) (auto intro: emptyPool_ok applyAction_ok)

lemma claim_mono:
  assumes "0 \<le> sh" "0 < T" "0 < T'" "B * T' \<le> B' * T"
  shows "sh * B div T \<le> sh * B' div (T'::int)"
proof -
  have "(sh * B div T) * T * T' \<le> sh * B * T'"
    using assms by (intro mult_right_mono div_mult_le_self) auto
  also have "\<dots> = sh * (B * T')" by simp
  also have "\<dots> \<le> sh * (B' * T)" using assms by (intro mult_left_mono) auto
  finally have "((sh * B div T) * T') * T \<le> (sh * B') * T" by (simp add: ac_simps)
  then have "(sh * B div T) * T' \<le> sh * B'" using assms(2) by simp
  then show ?thesis using assms(3) by (simp add: le_div_iff_mult)
qed

lemma claim_up:
  assumes "pool_ok s" "pool_ok s'" "shares_of s' b = shares_of s b"
    "sp_totalShares (pl_pool s) \<noteq> 0 \<Longrightarrow>
       backedBalance s * sp_totalShares (pl_pool s') \<le> backedBalance s' * sp_totalShares (pl_pool s)"
  shows "claim_of s b \<le> claim_of s' b"
proof -
  note ok = pool_okD(3) [OF assms(1)] pool_okD(3) [OF assms(2)]
  have "sp_totalShares (pl_pool s') = 0 \<Longrightarrow> shares_of s b = 0"
    using pool_okA [OF assms(2), of b] assms(3) by simp
  moreover have "0 \<le> claim_of s' b" by (rule claim_of_bounds [OF assms(2)])
  ultimately show ?thesis
    using claim_mono [OF pool_okA(1) [OF assms(1), of b] _ _ assms(4)] ok assms(3)
    by (auto simp: claim_of_def)
qed

section \<open>Properties\<close>






text \<open>
  No dilution. A deposit, withdrawal or seizure of an amount that is not negative on one account never
  lowers what another account owns, and leaves its share count alone.
\<close>

theorem pool_no_dilution:
  assumes "pool_reachable s" "0 \<le> ac_value a" "applyAction s a = Inr (s', e)"
    "ac_kind a \<in> {DEPOSIT, WITHDRAW, LIQUIDATION_SEIZE}" "ac_account a \<noteq> Some b"
    "effectiveOf s b = Inr x"
  shows "\<exists>y. effectiveOf s' b = Inr y \<and> x \<le> y \<and> shares_of s' b = shares_of s b"
proof -
  have ok: "pool_ok s" by (rule pool_reachable_ok [OF assms(1)])
  have "action_ok s a" using assms(4) by (auto simp: action_ok_def)
  then have ok': "pool_ok s'" by (rule applyAction_ok [OF ok _ assms(3)])
  note v = assms(2)
  have "shares_of s' b = shares_of s b
    \<and> (sp_totalShares (pl_pool s) \<noteq> 0 \<longrightarrow>
         backedBalance s * sp_totalShares (pl_pool s') \<le> backedBalance s' * sp_totalShares (pl_pool s))"
  proof (cases "ac_kind a = DEPOSIT")
    case True
    with assms(3) have "applyDeposit s a = Inr (s', e)" by (simp add: applyAction_def)
    then obtain acct m where m: "present (ac_account a) = Some acct" "0 < ac_value a"
      "s' = movePool s acct (shares_of s acct) m (ac_value a)"
      "if sp_totalShares (pl_pool s) = 0 then m = ac_value a
       else m = (ac_value a * sp_totalShares (pl_pool s)) sdiv
                (if backedBalance s = 0 then ac_value a else backedBalance s)"
      by (rule applyDeposit_inv) blast
    have ne: "acct \<noteq> b" using m(1) assms(5) by (auto simp: present_def split: option.splits if_splits)
    have "sp_totalShares (pl_pool s) \<noteq> 0 \<Longrightarrow> m * backedBalance s \<le> ac_value a * sp_totalShares (pl_pool s)"
      using m(2,4) minted_bounds(2) [OF ok m(2)] by simp
    then show ?thesis using m(3) ne by (cases "sp_totalShares (pl_pool s) = 0") (auto simp: algebra_simps)
  next
    case False
    with assms(3,4) have "applyRedeem s a = Inr (s', e)" by (auto simp: applyAction_def)
    then obtain acct where r: "present (ac_account a) = Some acct" "ac_value a \<le> shares_of s acct"
      "sp_totalShares (pl_pool s) \<noteq> 0"
      "s' = movePool s acct (shares_of s acct) (- ac_value a)
              (- ((ac_value a * backedBalance s) sdiv sp_totalShares (pl_pool s)))"
      by (rule applyRedeem_inv) blast
    have ne: "acct \<noteq> b" using r(1) assms(5) by (auto simp: present_def split: option.splits if_splits)
    show ?thesis using raw_out_bounds(3) [OF ok v r(2,3)] r(4) ne by (simp add: algebra_simps)
  qed
  then show ?thesis
    using claim_up [OF ok ok', of b] assms(6) effectiveOf_ok [OF ok] effectiveOf_ok [OF ok'] by simp
qed


text \<open>
  A deposit is worth no more than what was paid in. Depositing and redeeming the minted shares
  at once returns at most the deposit, in a pool with share-backed balance only behind shares.
\<close>

theorem deposit_redeem_no_profit:
  assumes "pool_reachable s" "sp_totalShares (pl_pool s) = 0 \<longrightarrow> backedBalance s = 0"
    "ac_kind a = DEPOSIT" "applyAction s a = Inr (s1, e1)"
    "ac_kind w = WITHDRAW" "ac_account w = ac_account a" "ac_value w = ae_shares e1"
    "applyAction s1 w = Inr (s2, e2)"
  shows "- ae_rawDelta e2 \<le> ac_value a \<and> sp_tokenBalance (pl_pool s) \<le> sp_tokenBalance (pl_pool s2)"
proof -
  have ok: "pool_ok s" by (rule pool_reachable_ok [OF assms(1)])
  from assms(3,4) have "applyDeposit s a = Inr (s1, e1)" by (simp add: applyAction_def)
  then obtain acct m where m: "present (ac_account a) = Some acct" "0 < ac_value a"
    "s1 = movePool s acct (shares_of s acct) m (ac_value a)" "ae_shares e1 = m"
    "if sp_totalShares (pl_pool s) = 0 then m = ac_value a
     else m = (ac_value a * sp_totalShares (pl_pool s)) sdiv
              (if backedBalance s = 0 then ac_value a else backedBalance s)"
    by (rule applyDeposit_inv) blast
  have m0: "0 \<le> m" using m(2,5) minted_bounds(1) [OF ok m(2)] by (auto split: if_splits)
  have ok1: "pool_ok s1"
    unfolding m(3) using m(2) m0 pool_okD(2) [OF ok] pool_okA(1) [OF ok, of acct]
    by (intro movePool_ok [OF ok]) auto
  from assms(5,8) have "applyRedeem s1 w = Inr (s2, e2)" by (simp add: applyAction_def)
  then obtain acct' where r: "ac_value w \<le> shares_of s1 acct'" "sp_totalShares (pl_pool s1) \<noteq> 0"
    "s2 = movePool s1 acct' (shares_of s1 acct') (- ac_value w)
            (- ((ac_value w * backedBalance s1) sdiv sp_totalShares (pl_pool s1)))"
    "ae_rawDelta e2 = - ((ac_value w * backedBalance s1) sdiv sp_totalShares (pl_pool s1))"
    by (rule applyRedeem_inv) blast
  let ?out = "(ac_value w * backedBalance s1) sdiv sp_totalShares (pl_pool s1)"
  have w: "ac_value w = m" using assms(7) m(4) by simp
  have T1: "0 < sp_totalShares (pl_pool s1)" using pool_okD(3) [OF ok1] r(2) by simp
  have out: "?out * sp_totalShares (pl_pool s1) \<le> m * backedBalance s1"
    using raw_out_bounds(3) [OF ok1, of m acct'] r(1,2) w m0 by simp
  have "m * backedBalance s1 \<le> ac_value a * sp_totalShares (pl_pool s1)"
  proof (cases "sp_totalShares (pl_pool s) = 0")
    case True
    then show ?thesis using assms(2) m(3,5) by (simp add: mult.commute)
  next
    case False
    then show ?thesis using minted_bounds(2) [OF ok m(2), of m] m(3,5) by (simp add: algebra_simps)
  qed
  with out have "?out * sp_totalShares (pl_pool s1) \<le> ac_value a * sp_totalShares (pl_pool s1)" by simp
  then have "?out \<le> ac_value a" using T1 by simp
  then show ?thesis using r(3,4) m(3) by simp
qed

text \<open>
  A rebase moves nobody's shares. An unprovenanced increase leaves every account's balance
  exactly as it was, and a provenanced rebase of a non-empty vault moves every account's balance in
  the direction of the vault's: up when the balance rises, down when it falls.
\<close>

theorem rebase_proportional:
  assumes "pool_reachable s" "action_ok s a" "ac_kind a = REBASE" "applyAction s a = Inr (s', e)"
    "effectiveOf s b = Inr x"
  shows "\<exists>y. effectiveOf s' b = Inr y \<and> pl_shares s' = pl_shares s
    \<and> sp_totalShares (pl_pool s') = sp_totalShares (pl_pool s)
    \<and> (present (ac_provenance a) = None \<longrightarrow> y = x)
    \<and> (sp_tokenBalance (pl_pool s) \<noteq> 0 \<and> sp_tokenBalance (pl_pool s) \<le> ac_value a \<longrightarrow> x \<le> y)
    \<and> (present (ac_provenance a) \<noteq> None \<and> ac_value a \<le> sp_tokenBalance (pl_pool s) \<longrightarrow> y \<le> x)"
proof -
  have ok: "pool_ok s" by (rule pool_reachable_ok [OF assms(1)])
  have ok': "pool_ok s'" by (rule applyAction_ok [OF ok assms(2,4)])
  let ?b = "sp_tokenBalance (pl_pool s)" and ?u = "pl_unattributedSurplus s" and ?v = "ac_value a"
  have v: "0 \<le> ?v" by (rule rebase_value [OF ok assms(2-4)])
  have u: "0 \<le> ?u" "?u \<le> ?b" using ok by (simp_all add: pool_ok_def)
  from assms(3,4) have r: "applyRebase s a = Inr (s', e)" by (simp add: applyAction_def)
  have sh: "pl_shares s' = pl_shares s" "sp_totalShares (pl_pool s') = sp_totalShares (pl_pool s)"
    using r by (auto simp: applyRebase_def Let_def split: option.splits if_splits)
  have un: "present (ac_provenance a) = None \<Longrightarrow> backedBalance s' = backedBalance s"
    using r by (auto simp: applyRebase_def Let_def backedBalance_def split: if_splits)
  have pr: "backedBalance s' = (if ?b = 0 then ?v - ?u else ?v - ?u * ?v div ?b)"
    if "present (ac_provenance a) \<noteq> None"
    using r that u v by (auto simp: applyRebase_def Let_def backedBalance_def sdiv_nonneg split: if_splits)
  have up: "backedBalance s \<le> backedBalance s'" if "?b \<noteq> 0" "?b \<le> ?v"
  proof (cases "present (ac_provenance a) = None")
    case False
    have "?u * ?v \<le> ?u * ?b + (?v - ?b) * ?b"
      using u that(2) mult_right_mono [of ?u ?b "?v - ?b"] by (simp add: algebra_simps)
    then have "?u * ?v \<le> (?u + (?v - ?b)) * ?b" by (simp add: algebra_simps)
    then have "?u * ?v div ?b \<le> (?u + (?v - ?b)) * ?b div ?b" using u that(1) by (intro zdiv_mono1) auto
    then show ?thesis using pr [OF False] that(1) by (simp add: backedBalance_def)
  qed (simp add: un)
  have down: "backedBalance s' \<le> backedBalance s" if "present (ac_provenance a) \<noteq> None" "?v \<le> ?b"
  proof (cases "?b = 0")
    case True
    then show ?thesis using pr [OF that(1)] that(2) v by (simp add: backedBalance_def)
  next
    case False
    have "(?u - (?b - ?v)) * ?b \<le> ?u * ?v"
      using u that(2) mult_right_mono [of ?u ?b "?b - ?v"] by (simp add: algebra_simps)
    then have "?u - (?b - ?v) \<le> ?u * ?v div ?b" using u False by (simp add: le_div_iff_mult)
    then show ?thesis using pr [OF that(1)] False by (simp add: backedBalance_def)
  qed
  have so: "shares_of s' b = shares_of s b" by (simp add: shares_of_def sh)
  have T: "0 \<le> sp_totalShares (pl_pool s)" by (rule pool_okD(3) [OF ok])
  have cm: "claim_of s b \<le> claim_of s' b" if "backedBalance s \<le> backedBalance s'"
    using claim_up [OF ok ok' so] that T sh by (simp add: mult_right_mono)
  have cm': "claim_of s' b \<le> claim_of s b" if "backedBalance s' \<le> backedBalance s"
    using claim_up [OF ok' ok so [symmetric]] that T sh by (simp add: mult_right_mono)
  show ?thesis
    using effectiveOf_ok [OF ok, of b] effectiveOf_ok [OF ok', of b] assms(5) sh un up down cm cm'
    by (auto intro: antisym)
qed

text \<open>
  The factor is applied exactly once. When both the valuation and the bridge to the risk
  pipeline accept a snapshot they use the same quantity; the valuation is that quantity at the
  price; with the factor in the price (or absent) the quantity is the raw one, and with the factor
  in the quantity of an externally scaled token it is the raw one times the effective factor, which
  is never above the snapshot's factor nor a pending one.
\<close>

theorem factor_applied_once:
  assumes "economicValueUsd18 stored price decimals snap now = Inr v"
    "toRiskQuantity stored snap now = Inr q"
  shows "rq_quantityForPipeline q = ev_quantityUsed v
    \<and> ev_valueUsd18 v = (ev_quantityUsed v * price) sdiv (10 ^ nat decimals)
    \<and> (cs_priceConvention snap \<noteq> FACTOR_IN_QUANTITY \<longrightarrow> ev_quantityUsed v = stored)
    \<and> (cs_priceConvention snap = FACTOR_IN_QUANTITY \<and> cs_accountingMode snap = EXTERNALLY_SCALED \<longrightarrow>
         ev_quantityUsed v = (stored * (case cs_pendingFactorWad snap of
            None \<Rightarrow> cs_factorWad snap | Some p \<Rightarrow> min (cs_factorWad snap) p)) sdiv CA_WAD)
    \<and> (cs_priceConvention snap \<noteq> FACTOR_ABSENT \<longrightarrow> rq_restrictNewRisk q = ev_restrictNewRisk v)"
  using assms
  by (cases "cs_priceConvention snap"; cases "cs_accountingMode snap")
    (auto simp: economicValueUsd18_def toRiskQuantity_def effectiveQuantity_def pow10_def
      effectiveFactor_inv(4) dest: effectiveFactor_inv(2) split: if_splits)


text \<open>
  A degraded snapshot restricts and never raises a number. Outside the fixed-unit mode an
  accepted snapshot restricts new risk exactly when its support is unknown or restricted, its feed
  is not live, or a factor change is pending, gives a reason exactly then, and the factor used is the
  smaller of the current and the pending one; an unsupported snapshot is refused.
\<close>

theorem degraded_snapshot_restricts:
  assumes "cs_accountingMode snap \<noteq> FIXED_UNIT"
  shows "(case effectiveFactor snap now of
      Inl _ \<Rightarrow> cs_support snap = UNSUPPORTED
    | Inr f \<Rightarrow> cs_support snap \<noteq> UNSUPPORTED
        \<and> (ef_restrictNewRisk f \<longleftrightarrow> cs_support snap \<in> {SUPPORT_UNKNOWN, RESTRICTED}
             \<or> cs_feedStatus snap \<noteq> LIVE \<or> cs_pendingFactorWad snap \<noteq> None)
        \<and> (ef_restrictNewRisk f \<longleftrightarrow> ef_reason f \<noteq> None)
        \<and> ef_factorWad f = (case cs_pendingFactorWad snap of
             None \<Rightarrow> cs_factorWad snap | Some p \<Rightarrow> min (cs_factorWad snap) p))"
proof (cases "effectiveFactor snap now")
  case (Inl err)
  then show ?thesis using assms
    by (auto simp: effectiveFactor_def Let_def split: if_splits option.splits)
next
  case (Inr f)
  then show ?thesis
    using effectiveFactor_inv [OF Inr] assms by simp
qed

text \<open>
  A reconciled snapshot is either the one already held or the observed one, and an observation
  that is not buried deep enough is only ever adopted as stale. Delivering the same event again is
  reported as unchanged and keeps the snapshot; a reorganised chain is followed to the observed
  value.
\<close>

theorem reconcile_outcomes:
  assumes "reconcileSnapshot current observed ctx = out"
  shows "(outcome_snapshot out = staged observed ctx \<or> (current = Some (outcome_snapshot out)
        \<and> (\<exists>r. out = UNCHANGED (outcome_snapshot out) r)))
    \<and> (belowSafeDepth observed ctx \<and> current \<noteq> Some (outcome_snapshot out) \<longrightarrow>
         cs_feedStatus (outcome_snapshot out) = FEED_STALE)
    \<and> (cs_sourceEvent observed \<noteq> None \<longrightarrow>
         (\<exists>r. reconcileSnapshot (Some (outcome_snapshot out)) observed ctx
                = UNCHANGED (outcome_snapshot out) r))
    \<and> (\<forall>cur. current = Some cur \<and> cs_sourceBlock observed \<le> cs_sourceBlock cur
         \<and> cs_sourceEvent observed \<noteq> cs_sourceEvent cur \<longrightarrow>
         (\<exists>r. out = REORG_RECONCILED (staged observed ctx) r))"
proof -
  have st: "cs_sourceBlock (staged observed ctx) = cs_sourceBlock observed"
    "cs_sourceEvent (staged observed ctx) = cs_sourceEvent observed"
    "belowSafeDepth observed ctx \<Longrightarrow> cs_feedStatus (staged observed ctx) = FEED_STALE"
    by (simp_all add: staged_def)
  have A: "outcome_snapshot out = staged observed ctx \<or> (current = Some (outcome_snapshot out)
        \<and> (\<exists>r. out = UNCHANGED (outcome_snapshot out) r))"
    using assms by (auto simp: reconcileSnapshot_def split: option.splits if_splits)
  have B: "\<exists>r. reconcileSnapshot (Some (staged observed ctx)) observed ctx = UNCHANGED (staged observed ctx) r"
    if "cs_sourceEvent observed \<noteq> None"
    using that by (simp add: reconcileSnapshot_def st)
  have C: "\<exists>r. out = REORG_RECONCILED (staged observed ctx) r"
    if "current = Some cur" "cs_sourceBlock observed \<le> cs_sourceBlock cur"
      "cs_sourceEvent observed \<noteq> cs_sourceEvent cur" for cur
    using that assms by (auto simp: reconcileSnapshot_def)
  from A B C assms st(3) show ?thesis by metis
qed

text \<open>
  An event first seen below the safe depth is held as stale, and observing the same event again at
  any later head leaves it stale: the duplicate check answers before the depth is looked at.
\<close>

lemma shallow_snapshot_stays_stale:
  assumes "belowSafeDepth observed ctx" "cs_sourceEvent observed = Some ev"
  shows "cs_feedStatus (outcome_snapshot (reconcileSnapshot
     (Some (outcome_snapshot (reconcileSnapshot None observed ctx))) observed ctx')) = FEED_STALE"
  using assms by (simp add: reconcileSnapshot_def staged_def)

text \<open>
  Without a factor the bridge to the risk pipeline does not look at the support or the feed: an
  unsupported instrument, which the valuation refuses, gets an unrestricted quantity.
\<close>

lemma bridge_ignores_support_without_factor:
  assumes "cs_priceConvention snap = FACTOR_ABSENT" "cs_support snap = UNSUPPORTED"
    "cs_accountingMode snap \<noteq> FIXED_UNIT"
  shows "\<exists>q. toRiskQuantity stored snap now = Inr q \<and> \<not> rq_restrictNewRisk q"
    and "\<exists>err. economicValueUsd18 stored price 18 snap now = Inl err"
  using assms by (simp_all add: toRiskQuantity_def economicValueUsd18_def effectiveFactor_def pow10_def)

text \<open>Redeeming a negative number of shares is not refused and mints shares.\<close>

lemma negative_withdrawal_mints:
  "\<exists>s' e. applyAction (emptyPool\<lparr>pl_pool := \<lparr>sp_totalShares = 10, sp_tokenBalance = 10\<rparr>,
        pl_shares := [(''a'', 10)]\<rparr>)
      \<lparr>ac_kind = WITHDRAW, ac_value = -5, ac_account = Some ''b'', ac_provenance = None\<rparr> = Inr (s', e)
    \<and> shares_of s' ''b'' = 5"
  by (simp add: applyAction_def applyRedeem_def present_def Let_def shares_of_def emptyPool_def
      mulDivDown_q_def movePool_def)

text \<open>A fee is not bounded by the balance, and breaks the conservation check.\<close>

lemma unbounded_fee_breaks_conservation:
  "\<exists>s' e c. applyAction emptyPool
      \<lparr>ac_kind = FEE, ac_value = 1, ac_account = None, ac_provenance = None\<rparr> = Inr (s', e)
    \<and> conservation s' = Inr c \<and> \<not> co_ok c"
  by (simp add: applyAction_def applyFee_def emptyPool_def conservation_def dust_def totalEffective_def
      backedBalance_def)

section \<open>A pool of two accounts\<close>

definition deposit_of :: "string \<Rightarrow> int \<Rightarrow> Action" where
  "deposit_of a v = \<lparr>ac_kind = DEPOSIT, ac_value = v, ac_account = Some a, ac_provenance = None\<rparr>"
definition withdraw_of :: "string \<Rightarrow> int \<Rightarrow> Action" where
  "withdraw_of a v = \<lparr>ac_kind = WITHDRAW, ac_value = v, ac_account = Some a, ac_provenance = None\<rparr>"
definition rebase_to :: "int \<Rightarrow> Action" where
  "rebase_to v = \<lparr>ac_kind = REBASE, ac_value = v, ac_account = None, ac_provenance = Some ''ev1''\<rparr>"

definition pool_after :: "PoolState \<Rightarrow> Action \<Rightarrow> PoolState" where
  "pool_after s a = (case applyAction s a of Inr (s', e) \<Rightarrow> s' | Inl _ \<Rightarrow> s)"

definition two_pool :: PoolState where
  "two_pool = pool_after emptyPool (deposit_of ''alice'' 100)"

lemma two_pool_eq:
  "two_pool = \<lparr>pl_pool = \<lparr>sp_totalShares = 100, sp_tokenBalance = 100\<rparr>, pl_shares = [(''alice'', 100)],
     pl_unattributedSurplus = 0\<rparr>"
  by code_simp

lemma two_pool_step: "\<exists>e. applyAction emptyPool (deposit_of ''alice'' 100) = Inr (two_pool, e)"
  by (simp add: two_pool_eq applyAction_def applyDeposit_def deposit_of_def present_def Let_def
      emptyPool_def shares_of_def movePool_def)

lemma two_pool_reachable: "pool_reachable two_pool"
proof -
  obtain e where "applyAction emptyPool (deposit_of ''alice'' 100) = Inr (two_pool, e)"
    using two_pool_step by blast
  then show ?thesis by (rule pool_step [OF pool_empty, rotated]) (simp add: action_ok_def deposit_of_def)
qed

lemma two_pool_effective: "effectiveOf two_pool ''alice'' = Inr 100"
  by (simp add: effectiveOf_def two_pool_eq shares_of_def backedBalance_def)


lemma bob_joins:
  "\<exists>s' e. applyAction two_pool (deposit_of ''bob'' 50) = Inr (s', e) \<and> ae_shares e = 50"
  by (simp add: two_pool_eq applyAction_def applyDeposit_def deposit_of_def present_def Let_def
      shares_of_def backedBalance_def)

theorem pool_no_dilution_witness:
  "\<exists>s' e y. applyAction two_pool (deposit_of ''bob'' 50) = Inr (s', e)
     \<and> effectiveOf s' ''alice'' = Inr y \<and> 100 \<le> y"
proof -
  obtain s' e where b: "applyAction two_pool (deposit_of ''bob'' 50) = Inr (s', e)" using bob_joins by blast
  from pool_no_dilution [OF two_pool_reachable _ b, of "''alice''" 100] two_pool_effective b
  show ?thesis by (auto simp: action_ok_def deposit_of_def)
qed

theorem deposit_redeem_no_profit_witness:
  "\<exists>s1 e1 s2 e2. applyAction two_pool (deposit_of ''bob'' 50) = Inr (s1, e1)
     \<and> applyAction s1 (withdraw_of ''bob'' 50) = Inr (s2, e2) \<and> - ae_rawDelta e2 \<le> 50"
proof -
  obtain s1 e1 where d: "applyAction two_pool (deposit_of ''bob'' 50) = Inr (s1, e1)" "ae_shares e1 = 50"
    using bob_joins by blast
  from d(1) have s1: "s1 = \<lparr>pl_pool = \<lparr>sp_totalShares = 150, sp_tokenBalance = 150\<rparr>,
      pl_shares = [(''alice'', 100), (''bob'', 50)], pl_unattributedSurplus = 0\<rparr>"
    by (auto simp: two_pool_eq applyAction_def applyDeposit_def deposit_of_def present_def Let_def
        shares_of_def backedBalance_def movePool_def signed_divide_int_eq_divide_int)
  obtain s2 e2 where w: "applyAction s1 (withdraw_of ''bob'' 50) = Inr (s2, e2)"
    by (simp add: s1 applyAction_def applyRedeem_def withdraw_of_def present_def Let_def
        shares_of_def backedBalance_def mulDivDown_q_def)
  have "sp_totalShares (pl_pool two_pool) = 0 \<longrightarrow> backedBalance two_pool = 0" by (simp add: two_pool_eq)
  from deposit_redeem_no_profit [OF two_pool_reachable this _ d(1) _ _ _ w] d w show ?thesis
    by (auto simp: deposit_of_def withdraw_of_def)
qed

theorem rebase_proportional_witness:
  "\<exists>s' e y. applyAction two_pool (rebase_to 150) = Inr (s', e)
     \<and> effectiveOf s' ''alice'' = Inr y \<and> 100 \<le> y"
proof -
  obtain s' e where b: "applyAction two_pool (rebase_to 150) = Inr (s', e)"
    by (simp add: two_pool_eq applyAction_def applyRebase_def rebase_to_def present_def Let_def mulDivDown_q_def)
  have t: "sp_tokenBalance (pl_pool two_pool) = 100" by (simp add: two_pool_eq)
  from rebase_proportional [OF two_pool_reachable _ _ b two_pool_effective] b t
  show ?thesis by (auto simp: action_ok_def rebase_to_def)
qed

definition b20_snapshot :: CorporateActionSnapshot where
  "b20_snapshot = \<lparr>cs_instrumentId = ''bNVDA'', cs_accountingMode = EXTERNALLY_SCALED,
     cs_accountingModeVersion = 1, cs_factorWad = 2000000000000000000,
     cs_pendingFactorWad = Some 1000000000000000000, cs_pendingActivationAt = Some 100,
     cs_sourceDomain = ''eip155:8453'', cs_sourceBlock = 10, cs_sourceEvent = Some ''ev'',
     cs_priceConvention = FACTOR_IN_QUANTITY, cs_feedStatus = LIVE, cs_adapterVersion = ''1'',
     cs_support = TESTED_SUPPORTED, cs_observedAt = 5\<rparr>"

theorem factor_applied_once_witness:
  "\<exists>v q. economicValueUsd18 10 7 0 b20_snapshot 50 = Inr v \<and> toRiskQuantity 10 b20_snapshot 50 = Inr q
     \<and> rq_quantityForPipeline q = ev_quantityUsed v \<and> ev_quantityUsed v = 10"
proof -
  obtain v where v: "economicValueUsd18 10 7 0 b20_snapshot 50 = Inr v"
    by (simp add: economicValueUsd18_def pow10_def b20_snapshot_def effectiveQuantity_def effectiveFactor_def Let_def)
  obtain q where q: "toRiskQuantity 10 b20_snapshot 50 = Inr q"
    by (simp add: toRiskQuantity_def b20_snapshot_def effectiveQuantity_def effectiveFactor_def Let_def)
  from factor_applied_once [OF v q] v q show ?thesis
    by (auto simp: b20_snapshot_def CA_WAD_def signed_divide_int_eq_divide_int)
qed

theorem degraded_snapshot_restricts_witness:
  "\<exists>f. effectiveFactor b20_snapshot 50 = Inr f \<and> ef_restrictNewRisk f"
  using degraded_snapshot_restricts [of b20_snapshot 50]
  by (auto simp: b20_snapshot_def split: sum.splits)

definition sample_context :: ReconcileContext where
  "sample_context = \<lparr>rc_headBlock = 11, rc_safeDepthBlocks = 12\<rparr>"

theorem reconcile_outcomes_witness:
  "cs_feedStatus (outcome_snapshot (reconcileSnapshot None b20_snapshot sample_context)) = FEED_STALE"
proof -
  have "belowSafeDepth b20_snapshot sample_context"
    by (simp add: belowSafeDepth_def sample_context_def b20_snapshot_def)
  with reconcile_outcomes [OF refl, of None b20_snapshot sample_context] show ?thesis by blast
qed

end
