(* ===== verification/Schema_Primitives.thy ===== *)
theory Schema_Primitives
  imports Js_Json
begin

text \<open>
  The schemas of \<open>packages/schemas/src/primitives.ts\<close> that the Sentinel and the evidence schemas
  share, each the predicate of the values it accepts. A 32-byte identifier is its hexadecimal text.
\<close>

section \<open>Primitives\<close>

definition hex_of_length :: "nat \<Rightarrow> string \<Rightarrow> bool" where
  "hex_of_length n s \<longleftrightarrow> take 2 s = ''0x'' \<and> length s = n + 2 \<and> list_all hex_char (drop 2 s)"

definition hex32Schema :: "string \<Rightarrow> bool" where "hex32Schema s \<longleftrightarrow> hex_of_length 64 s"
definition addressSchema :: "string \<Rightarrow> bool" where "addressSchema s \<longleftrightarrow> hex_of_length 40 s"
definition bpsSchema :: "int \<Rightarrow> bool" where "bpsSchema n \<longleftrightarrow> 0 \<le> n \<and> n \<le> 10000"
definition unixSecondsSchema :: "int \<Rightarrow> bool" where "unixSecondsSchema n \<longleftrightarrow> 0 \<le> n"

definition opt_ok :: "('a \<Rightarrow> bool) \<Rightarrow> 'a option \<Rightarrow> bool" where
  "opt_ok P x \<longleftrightarrow> (case x of None \<Rightarrow> True | Some y \<Rightarrow> P y)"

lemma opt_ok_simps [simp]: "opt_ok P None" "opt_ok P (Some x) = P x"
  by (simp_all add: opt_ok_def)

end
