(* ===== verification/Interfaces.thy ===== *)
theory Interfaces
  imports Usance_Prelude
begin

text \<open>
  The interfaces several components rely on: a table of legal transitions (runs, instances, evidence
  workflows), a keyed store whose writes name the version they expect to replace (the run and
  workflow stores), and computations that thread a world through calls that may throw (the engine).
\<close>

section \<open>Tables of legal transitions\<close>

fun legal_path :: "('s \<Rightarrow> 's list) \<Rightarrow> 's list \<Rightarrow> bool" where
  "legal_path edges [] \<longleftrightarrow> True"
| "legal_path edges [a] \<longleftrightarrow> True"
| "legal_path edges (a # b # xs) \<longleftrightarrow> b \<in> set (edges a) \<and> legal_path edges (b # xs)"

lemma legal_path_snoc:
  "xs \<noteq> [] \<Longrightarrow> legal_path edges (xs @ [b]) \<longleftrightarrow> legal_path edges xs \<and> b \<in> set (edges (last xs))"
proof (induction xs)
  case (Cons a xs)
  then show ?case by (cases xs) auto
qed simp

text \<open>A path that starts in a region closed but for one state leaves it only through that state.\<close>

lemma path_gate:
  assumes "legal_path edges xs" "xs \<noteq> []" "hd xs \<in> S"
    and closed: "\<And>a b. a \<in> S \<Longrightarrow> b \<in> set (edges a) \<Longrightarrow> b = d \<or> b \<in> S"
  shows "set xs \<subseteq> S \<or> d \<in> set xs"
  using assms(1-3)
proof (induction xs)
  case (Cons a xs)
  show ?case
  proof (cases xs)
    case (Cons b ys)
    then have "b = d \<or> b \<in> S" using closed Cons.prems by auto
    then show ?thesis using Cons Cons.IH Cons.prems by auto
  qed (use Cons.prems in simp)
qed simp

locale transition_table =
  fixes edges :: "'s \<Rightarrow> 's list"
    and can_step :: "'s \<Rightarrow> 's \<Rightarrow> bool"
    and terminal :: "'s \<Rightarrow> bool"
  assumes can_step_iff: "can_step a b \<longleftrightarrow> b \<in> set (edges a)"
    and terminal_iff: "terminal a \<longleftrightarrow> edges a = []"
begin

lemma terminal_stuck: "terminal a \<Longrightarrow> \<not> can_step a b"
  by (simp add: can_step_iff terminal_iff)

lemma path_extend:
  "xs \<noteq> [] \<Longrightarrow> legal_path edges xs \<Longrightarrow> can_step (last xs) b \<Longrightarrow> legal_path edges (xs @ [b])"
  by (simp add: legal_path_snoc can_step_iff)

lemma path_terminal_last:
  "legal_path edges xs \<Longrightarrow> Suc i < length xs \<Longrightarrow> \<not> terminal (xs ! i)"
proof (induction xs arbitrary: i)
  case (Cons a xs)
  then show ?case by (cases xs; cases i) (auto simp: terminal_iff)
qed simp

end

section \<open>Versioned stores\<close>

text \<open>
  The expected version of a write: not given (\<open>None\<close>), required absent (\<open>Some None\<close>), or the
  version of the record it replaces (\<open>Some (Some v)\<close>).
\<close>

locale versioned_store =
  fixes get_record :: "'st \<Rightarrow> 'k \<Rightarrow> 'r option"
    and save_record :: "'st \<Rightarrow> 'r \<Rightarrow> int option option \<Rightarrow> 'e + 'st"
    and key_of :: "'r \<Rightarrow> 'k"
    and version_of :: "'r \<Rightarrow> int"
    and conflict :: "'k \<Rightarrow> 'e"
  assumes save_accepts:
      "expected = None \<or> expected = Some (map_option version_of (get_record st (key_of r))) \<Longrightarrow>
       \<exists>st'. save_record st r expected = Inr st' \<and>
             get_record st' = (get_record st)(key_of r \<mapsto> r)"
    and save_refuses:
      "e \<noteq> map_option version_of (get_record st (key_of r)) \<Longrightarrow>
       save_record st r (Some e) = Inl (conflict (key_of r))"
begin

lemma save_inv:
  assumes "save_record st r expected = Inr st'"
  shows "get_record st' = (get_record st)(key_of r \<mapsto> r)"
    and "expected = None \<or> expected = Some (map_option version_of (get_record st (key_of r)))"
proof -
  show ex: "expected = None \<or> expected = Some (map_option version_of (get_record st (key_of r)))"
  proof (cases expected)
    case (Some e)
    then show ?thesis
      using assms save_refuses [of e st r] by (cases "e = map_option version_of (get_record st (key_of r))") auto
  qed simp
  from save_accepts [OF ex] assms show "get_record st' = (get_record st)(key_of r \<mapsto> r)" by auto
qed

lemma create_once:
  assumes "save_record st r (Some None) = Inr st'" "key_of r' = key_of r"
  shows "save_record st' r' (Some None) = Inl (conflict (key_of r'))"
  using save_inv(1) [OF assms(1)] assms(2) by (intro save_refuses) simp

lemma no_lost_update:
  assumes "save_record st r (Some (Some v)) = Inr st'" "version_of r \<noteq> v" "key_of r' = key_of r"
  shows "save_record st' r' (Some (Some v)) = Inl (conflict (key_of r'))"
  using save_inv(1) [OF assms(1)] assms(2,3) by (intro save_refuses) simp

lemma same_version_overwrites:
  assumes "save_record st r (Some (Some v)) = Inr st'" "version_of r = v" "key_of r' = key_of r"
  shows "\<exists>st''. save_record st' r' (Some (Some v)) = Inr st'' \<and> get_record st'' (key_of r) = Some r'"
  using save_inv(1) [OF assms(1)] assms(2,3) save_accepts [of "Some (Some v)" st' r'] by auto

end

section \<open>Computations over a world\<close>

text \<open>A call returns or throws, and the world keeps what was written before a throw.\<close>

type_synonym ('w, 'e, 'a) action = "'w \<Rightarrow> ('e + 'a) \<times> 'w"

definition ret :: "'a \<Rightarrow> ('w, 'e, 'a) action" where
  "ret a = (\<lambda>w. (Inr a, w))"

definition lift :: "'e + 'a \<Rightarrow> ('w, 'e, 'a) action" where
  "lift r = (\<lambda>w. (r, w))"

definition bindW ::
  "('w, 'e, 'a) action \<Rightarrow> ('a \<Rightarrow> ('w, 'e, 'b) action) \<Rightarrow> ('w, 'e, 'b) action" where
  "bindW m f = (\<lambda>w. case m w of (Inl e, w') \<Rightarrow> (Inl e, w') | (Inr a, w') \<Rightarrow> f a w')"

lemma bindW_run [simp]:
  "m w = (Inl e, w') \<Longrightarrow> bindW m f w = (Inl e, w')"
  "m w = (Inr a, w') \<Longrightarrow> bindW m f w = f a w'"
  by (simp_all add: bindW_def)

lemma ret_run [simp]: "ret a w = (Inr a, w)" by (simp add: ret_def)

lemma lift_run [simp]: "lift (Inr a) w = (Inr a, w)" "lift (Inl e) w = (Inl e, w)"
  by (simp_all add: lift_def)

lemma bindW_InrE [consumes 1, case_names bind]:
  assumes "bindW m f w = (Inr b, w')"
  obtains a v where "m w = (Inr a, v)" "f a v = (Inr b, w')"
  using assms by (auto simp: bindW_def split: prod.splits sum.splits)

text \<open>Partial correctness of an action, with a postcondition for returning and one for throwing.\<close>

definition hoare ::
  "('w \<Rightarrow> bool) \<Rightarrow> ('w, 'e, 'a) action \<Rightarrow> ('a \<Rightarrow> 'w \<Rightarrow> bool) \<Rightarrow> ('e \<Rightarrow> 'w \<Rightarrow> bool) \<Rightarrow> bool" where
  "hoare P m Q E \<longleftrightarrow> (\<forall>w. P w \<longrightarrow> (case m w of (Inr a, w') \<Rightarrow> Q a w' | (Inl e, w') \<Rightarrow> E e w'))"

lemma hoareD:
  assumes "hoare P m Q E" "P w"
  shows "m w = (Inr a, w') \<Longrightarrow> Q a w'" and "m w = (Inl e, w') \<Longrightarrow> E e w'"
  using assms by (auto simp: hoare_def split: prod.splits sum.splits)

lemma hoare_bind:
  assumes "hoare P m Q E" "\<And>a. hoare (Q a) (f a) R E"
  shows "hoare P (bindW m f) R E"
  using assms unfolding hoare_def bindW_def
  by (fastforce split: prod.splits sum.splits)

lemma hoare_ret: "hoare (Q a) (ret a) Q E"
  by (simp add: hoare_def)

lemma hoare_lift: "hoare (\<lambda>w. case r of Inr a \<Rightarrow> Q a w | Inl e \<Rightarrow> E e w) (lift r) Q E"
  by (simp add: hoare_def lift_def)

lemma hoare_weaken:
  "hoare P' m Q' E \<Longrightarrow> (\<And>w. P w \<Longrightarrow> P' w) \<Longrightarrow> (\<And>a w. Q' a w \<Longrightarrow> Q a w) \<Longrightarrow> hoare P m Q E"
  unfolding hoare_def by (fastforce split: prod.splits sum.splits)

lemma hoare_if:
  "(c \<Longrightarrow> hoare P m Q E) \<Longrightarrow> (\<not> c \<Longrightarrow> hoare P m' Q E) \<Longrightarrow> hoare P (if c then m else m') Q E"
  by simp

text \<open>An invariant of the world: kept whether the action returns or throws.\<close>

definition keeps :: "('w \<Rightarrow> bool) \<Rightarrow> ('w, 'e, 'a) action \<Rightarrow> bool" where
  "keeps I m \<longleftrightarrow> (\<forall>w. I w \<longrightarrow> I (snd (m w)))"

lemma keeps_bind: "keeps I m \<Longrightarrow> (\<And>a. keeps I (f a)) \<Longrightarrow> keeps I (bindW m f)"
  unfolding keeps_def bindW_def by (fastforce split: prod.splits sum.splits)

lemma keeps_ret [simp]: "keeps I (ret a)" by (simp add: keeps_def)

lemma keeps_lift [simp]: "keeps I (lift r)" by (simp add: keeps_def lift_def)

lemma keepsD: "keeps I m \<Longrightarrow> I w \<Longrightarrow> m w = (r, w') \<Longrightarrow> I w'"
  by (metis keeps_def snd_conv)

text \<open>A part of the world an action never changes, and where a changed part was changed.\<close>

definition preserves :: "('w \<Rightarrow> 'b) \<Rightarrow> ('w, 'e, 'a) action \<Rightarrow> bool" where
  "preserves f m \<longleftrightarrow> (\<forall>w. f (snd (m w)) = f w)"

lemma preservesD: "preserves f m \<Longrightarrow> m w = (r, v) \<Longrightarrow> f v = f w"
  by (metis preserves_def snd_conv)

lemma preserves_bind:
  assumes m: "preserves f m" and g: "\<And>a. preserves f (g a)"
  shows "preserves f (bindW m g)"
  unfolding preserves_def
proof
  fix w
  show "f (snd (bindW m g w)) = f w"
  proof (cases "m w")
    case (Pair r v)
    then have "f v = f w" using preservesD [OF m] by blast
    then show ?thesis using Pair g by (cases r) (simp_all add: preserves_def)
  qed
qed

lemma preserves_ret [simp]: "preserves f (ret a)" by (simp add: preserves_def)

lemma preserves_lift [simp]: "preserves f (lift r)" by (simp add: preserves_def lift_def)

lemma moves_bindE:
  assumes "f (snd (bindW m g w)) \<noteq> f w" "preserves f m"
  obtains a v where "m w = (Inr a, v)" "f v = f w" "f (snd (g a v)) \<noteq> f v"
proof (cases "m w")
  case (Pair r v)
  then have "f v = f w" using preservesD [OF assms(2)] by blast
  then show thesis using Pair assms(1) that by (cases r) auto
qed

end
