(* ===== verification/Sentinel_Schemas.thy ===== *)
theory Sentinel_Schemas
  imports Schema_Primitives Interfaces
begin

text \<open>
  The Sentinel vocabulary of \<open>packages/schemas/src\<close>: triggers and their authority
  (\<open>sentinel-triggers.ts\<close>), market sessions, mandate actions, plans, snapshots and the run with its
  transition table (\<open>sentinel-run.ts\<close>). A zod schema is the predicate of the values it accepts,
  next to the transformation it applies. The hash \<open>keccak256\<close> of the viem package is the argument
  \<open>keccak\<close> of the definitions that use it. A bit bits is a non-negative integer.
\<close>

definition usd18StringSchema :: "string \<Rightarrow> bool" where
  "usd18StringSchema s \<longleftrightarrow> canonical_decimal s"

section \<open>Market sessions\<close>

datatype SentinelSession = SESSION_OPEN | SESSION_PRE_MARKET | SESSION_POST_MARKET | SESSION_CLOSED
  | SESSION_UNPROVEN

definition isSessionRestrictive :: "SentinelSession \<Rightarrow> bool" where
  "isSessionRestrictive session \<longleftrightarrow> session \<noteq> SESSION_OPEN"

section \<open>Trigger authority\<close>

datatype TriggerAuthorityClass =
    DETERMINISTIC_ONCHAIN | DETERMINISTIC_SCHEDULE | VERIFIED_EXTERNAL | EVIDENCE_BOUND
  | AI_INTERPRETED | LOW_TRUST_OBSERVATION

definition TRIGGER_AUTHORITY_CLASSES :: "TriggerAuthorityClass list" where
  "TRIGGER_AUTHORITY_CLASSES =
     [DETERMINISTIC_ONCHAIN, DETERMINISTIC_SCHEDULE, VERIFIED_EXTERNAL, EVIDENCE_BOUND,
      AI_INTERPRETED, LOW_TRUST_OBSERVATION]"

definition authorityRank :: "TriggerAuthorityClass \<Rightarrow> int" where
  "authorityRank a = indexOf a TRIGGER_AUTHORITY_CLASSES"

definition authorityAtLeast :: "TriggerAuthorityClass \<Rightarrow> TriggerAuthorityClass \<Rightarrow> bool" where
  "authorityAtLeast a bound \<longleftrightarrow> authorityRank a \<le> authorityRank bound"

section \<open>Trigger specifications\<close>

datatype OnchainEvent = DEBT_CHANGED | COLLATERAL_CHANGED | RESERVATION_CHANGED
datatype RiskStateKind = EPOCH_CHANGED | HEALTH_CHANGED
datatype OracleStateKind = ORACLE_WENT_STALE | ORACLE_RECOVERED | ORACLE_SEQUENCER
datatype TimeKind = INTERVAL | WINDOW
datatype CorporateActionType = EARNINGS | SPLIT | DIVIDEND | REDEMPTION_CHANGE | OTHER_ACTION

datatype NonCompositeTriggerSpec =
    onchainStateSpec OnchainEvent
  | riskStateSpec RiskStateKind "int option"
  | passportStateSpec "string option"
  | oracleStateSpec OracleStateKind "string option"
  | marketStateSpec string SentinelSession
  | timeSpec TimeKind "int option" "int option" "int option"
  | corporateActionSpec string CorporateActionType
  | evidenceObservationSpec "string option"
  | aiObservationSpec "string list"
  | manualSpec

datatype TriggerSpec =
    singleSpec NonCompositeTriggerSpec
  | compositeSpec "NonCompositeTriggerSpec list"

definition refineTimeSpec :: "NonCompositeTriggerSpec \<Rightarrow> bool" where
  "refineTimeSpec v = (case v of
     timeSpec INTERVAL i ws we \<Rightarrow> i \<noteq> None
   | timeSpec WINDOW i ws we \<Rightarrow> ws \<noteq> None \<and> we \<noteq> None
   | _ \<Rightarrow> True)"

definition nonCompositeSpecSchema :: "NonCompositeTriggerSpec \<Rightarrow> bool" where
  "nonCompositeSpecSchema v = (case v of
     onchainStateSpec e \<Rightarrow> True
   | riskStateSpec k b \<Rightarrow> opt_ok bpsSchema b
   | passportStateSpec a \<Rightarrow> opt_ok hex32Schema a
   | oracleStateSpec k a \<Rightarrow> opt_ok hex32Schema a
   | marketStateSpec a s \<Rightarrow> hex32Schema a
   | timeSpec k i ws we \<Rightarrow> opt_ok (\<lambda>n. 60 \<le> n) i \<and> opt_ok unixSecondsSchema ws \<and> opt_ok unixSecondsSchema we
   | corporateActionSpec a t \<Rightarrow> hex32Schema a
   | evidenceObservationSpec a \<Rightarrow> opt_ok hex32Schema a
   | aiObservationSpec ts \<Rightarrow> list_all (\<lambda>t. t \<noteq> []) ts \<and> 1 \<le> length ts \<and> length ts \<le> 16
   | manualSpec \<Rightarrow> True)"

definition triggerSpecSchema :: "TriggerSpec \<Rightarrow> bool" where
  "triggerSpecSchema s = (case s of
     singleSpec v \<Rightarrow> nonCompositeSpecSchema v \<and> refineTimeSpec v
   | compositeSpec vs \<Rightarrow> 2 \<le> length vs \<and> length vs \<le> 8
       \<and> list_all (\<lambda>v. nonCompositeSpecSchema v \<and> refineTimeSpec v) vs)"

section \<open>Trigger events\<close>

datatype TriggerClass =
    ONCHAIN_STATE | RISK_STATE | PASSPORT_STATE | ORACLE_STATE | MARKET_STATE | TIME
  | CORPORATE_ACTION | EVIDENCE_OBSERVATION | AI_OBSERVATION | MANUAL | COMPOSITE

definition TRIGGER_CLASSES :: "TriggerClass list" where
  "TRIGGER_CLASSES =
     [ONCHAIN_STATE, RISK_STATE, PASSPORT_STATE, ORACLE_STATE, MARKET_STATE, TIME,
      CORPORATE_ACTION, EVIDENCE_OBSERVATION, AI_OBSERVATION, MANUAL, COMPOSITE]"

fun trigger_class_name :: "TriggerClass \<Rightarrow> string" where
  "trigger_class_name ONCHAIN_STATE = ''ONCHAIN_STATE''"
| "trigger_class_name RISK_STATE = ''RISK_STATE''"
| "trigger_class_name PASSPORT_STATE = ''PASSPORT_STATE''"
| "trigger_class_name ORACLE_STATE = ''ORACLE_STATE''"
| "trigger_class_name MARKET_STATE = ''MARKET_STATE''"
| "trigger_class_name TIME = ''TIME''"
| "trigger_class_name CORPORATE_ACTION = ''CORPORATE_ACTION''"
| "trigger_class_name EVIDENCE_OBSERVATION = ''EVIDENCE_OBSERVATION''"
| "trigger_class_name AI_OBSERVATION = ''AI_OBSERVATION''"
| "trigger_class_name MANUAL = ''MANUAL''"
| "trigger_class_name COMPOSITE = ''COMPOSITE''"

fun spec_class :: "NonCompositeTriggerSpec \<Rightarrow> TriggerClass" where
  "spec_class (onchainStateSpec e) = ONCHAIN_STATE"
| "spec_class (riskStateSpec k b) = RISK_STATE"
| "spec_class (passportStateSpec a) = PASSPORT_STATE"
| "spec_class (oracleStateSpec k a) = ORACLE_STATE"
| "spec_class (marketStateSpec a s) = MARKET_STATE"
| "spec_class (timeSpec k i ws we) = TIME"
| "spec_class (corporateActionSpec a t) = CORPORATE_ACTION"
| "spec_class (evidenceObservationSpec a) = EVIDENCE_OBSERVATION"
| "spec_class (aiObservationSpec ts) = AI_OBSERVATION"
| "spec_class manualSpec = MANUAL"

record TriggerEvent =
  te_class :: TriggerClass
  te_authority :: TriggerAuthorityClass
  te_identity :: "(string \<times> string) list"
  te_observedAt :: int
  te_detail :: "string option"
  te_account :: "string option"

definition triggerEventSchema :: "TriggerEvent \<Rightarrow> bool" where
  "triggerEventSchema e \<longleftrightarrow> unixSecondsSchema (te_observedAt e)
     \<and> opt_ok (\<lambda>d. length d \<le> 2000) (te_detail e) \<and> opt_ok addressSchema (te_account e)"

fun CLASS_AUTHORITY_CEILING :: "TriggerClass \<Rightarrow> TriggerAuthorityClass" where
  "CLASS_AUTHORITY_CEILING ONCHAIN_STATE = DETERMINISTIC_ONCHAIN"
| "CLASS_AUTHORITY_CEILING RISK_STATE = DETERMINISTIC_ONCHAIN"
| "CLASS_AUTHORITY_CEILING PASSPORT_STATE = DETERMINISTIC_ONCHAIN"
| "CLASS_AUTHORITY_CEILING ORACLE_STATE = DETERMINISTIC_ONCHAIN"
| "CLASS_AUTHORITY_CEILING TIME = DETERMINISTIC_SCHEDULE"
| "CLASS_AUTHORITY_CEILING MARKET_STATE = VERIFIED_EXTERNAL"
| "CLASS_AUTHORITY_CEILING CORPORATE_ACTION = VERIFIED_EXTERNAL"
| "CLASS_AUTHORITY_CEILING EVIDENCE_OBSERVATION = EVIDENCE_BOUND"
| "CLASS_AUTHORITY_CEILING AI_OBSERVATION = AI_INTERPRETED"
| "CLASS_AUTHORITY_CEILING MANUAL = DETERMINISTIC_SCHEDULE"
| "CLASS_AUTHORITY_CEILING COMPOSITE = DETERMINISTIC_SCHEDULE"

definition clampAuthority :: "TriggerClass \<Rightarrow> TriggerAuthorityClass \<Rightarrow> TriggerAuthorityClass" where
  "clampAuthority cls claimed =
     (if authorityAtLeast claimed (CLASS_AUTHORITY_CEILING cls)
      then CLASS_AUTHORITY_CEILING cls else claimed)"

definition triggerIdFor :: "(string \<Rightarrow> string) \<Rightarrow> TriggerEvent \<Rightarrow> string" where
  "triggerIdFor keccak event = keccak (canonicalJson (JObj
     [(''class'', JStr (trigger_class_name (te_class event))),
      (''identity'', JObj (map (\<lambda>kv. (fst kv, JStr (snd kv))) (te_identity event)))]))"

definition runIdFor :: "(string \<Rightarrow> string) \<Rightarrow> string \<Rightarrow> string \<Rightarrow> int \<Rightarrow> string" where
  "runIdFor keccak instanceId triggerId triggerVersion = keccak (canonicalJson (JObj
     [(''instanceId'', JStr instanceId), (''triggerId'', JStr triggerId),
      (''triggerVersion'', JNum triggerVersion), (''tag'', JStr ''USANCE_SENTINEL_RUN_V1'')]))"

definition scheduleBucket :: "int \<Rightarrow> int \<Rightarrow> int" where
  "scheduleBucket nowSeconds intervalSeconds = nowSeconds div intervalSeconds * intervalSeconds"

section \<open>Mandate actions\<close>

datatype MandateActionName = BORROW | REPAY_ACTION | ADD_COLLATERAL_ACTION | TRADE_ACTION | HEDGE_ACTION
  | CLOSE_ACTION

record MandateAction =
  ma_bit :: nat
  ma_name :: MandateActionName
  ma_raisesRisk :: bool
  ma_delegable :: bool

definition mandate_action :: "nat \<Rightarrow> MandateActionName \<Rightarrow> bool \<Rightarrow> bool \<Rightarrow> MandateAction" where
  "mandate_action b n r d = \<lparr>ma_bit = b, ma_name = n, ma_raisesRisk = r, ma_delegable = d\<rparr>"

definition MANDATE_ACTIONS :: "MandateAction list" where
  "MANDATE_ACTIONS =
     [mandate_action 0 BORROW True False,
      mandate_action 1 REPAY_ACTION False True,
      mandate_action 2 ADD_COLLATERAL_ACTION False True,
      mandate_action 3 TRADE_ACTION True False,
      mandate_action 4 HEDGE_ACTION True False,
      mandate_action 5 CLOSE_ACTION False False]"

definition MANDATE_ACTION_COUNT :: nat where
  "MANDATE_ACTION_COUNT = length MANDATE_ACTIONS"

definition ACTION_BY_NAME :: "MandateActionName \<Rightarrow> MandateAction" where
  "ACTION_BY_NAME n = (case find (\<lambda>a. ma_name a = n) MANDATE_ACTIONS of Some a \<Rightarrow> a
     | None \<Rightarrow> mandate_action 0 n False False)"

definition mask_bit :: "nat \<Rightarrow> int" where "mask_bit b = push_bit b 1"

definition in_mask :: "int \<Rightarrow> nat \<Rightarrow> bool" where
  "in_mask bits b \<longleftrightarrow> and bits (mask_bit b) \<noteq> 0"

definition maskForActions :: "MandateActionName list \<Rightarrow> int" where
  "maskForActions names = foldl (\<lambda>m n. or m (mask_bit (ma_bit (ACTION_BY_NAME n)))) 0 names"

definition actionsInMask :: "int \<Rightarrow> MandateAction list" where
  "actionsInMask bits = filter (\<lambda>a. in_mask bits (ma_bit a)) MANDATE_ACTIONS"

definition actionsWithinVocabulary :: "int \<Rightarrow> bool" where
  "actionsWithinVocabulary bits \<longleftrightarrow> 0 \<le> bits \<and> bits < mask_bit MANDATE_ACTION_COUNT"

definition maskRaisesRisk :: "int \<Rightarrow> bool" where
  "maskRaisesRisk bits \<longleftrightarrow> list_ex ma_raisesRisk (actionsInMask bits)"

section \<open>Errors\<close>

datatype RunState =
    TRIGGER_OBSERVED | TRIGGER_VALIDATED | SNAPSHOT_PINNING | SNAPSHOT_PINNED | PLANNING
  | PLAN_READY | PLAN_REJECTED | NO_ACTION_REQUIRED | WAITING_USER_CONFIRMATION
  | AUTHORIZATION_CHECKING | AUTHORIZED | AUTHORIZATION_REJECTED | RESERVING | CAPITAL_RESERVED
  | RESERVATION_REJECTED | SUBMITTING | SUBMITTED | CONFIRMATION_UNKNOWN | PARTIALLY_FILLED
  | FILLED | EXECUTION_UNKNOWN | RECONCILING | RECONCILED | COMPLETE | BLOCKED_BY_POLICY
  | BLOCKED_BY_MANDATE | BLOCKED_BY_BUDGET | BLOCKED_BY_RISK_EPOCH | BLOCKED_BY_VENUE
  | BLOCKED_BY_LIQUIDITY | BLOCKED_BY_MARKET_SESSION

text \<open>What the Sentinel code throws.\<close>

datatype sentinel_error =
    IllegalRunTransition RunState RunState
  | BudgetLedgerError string
  | ZodError string
  | RunConflict string
  | SentinelJsError js_error

definition js :: "'a result \<Rightarrow> sentinel_error + 'a" where
  "js r = (case r of Inl e \<Rightarrow> Inl (SentinelJsError e) | Inr a \<Rightarrow> Inr a)"

lemma js_simps [simp]: "js (Inl e) = Inl (SentinelJsError e)" "js (Inr a) = Inr a"
  by (simp_all add: js_def)

lemma js_Inr_iff [simp]: "js r = Inr a \<longleftrightarrow> r = Inr a"
  by (cases r) auto

definition parseUsd18 :: "string \<Rightarrow> sentinel_error + int" where
  "parseUsd18 s = js (bigint_of_string s)"

definition formatUsd18 :: "int \<Rightarrow> sentinel_error + string" where
  "formatUsd18 v = (if v < 0 then Inl (SentinelJsError (RangeError ''usd18 amounts are non-negative''))
                    else Inr (show_int v))"

section \<open>Plans\<close>

datatype RiskDirection = REDUCING | NEUTRAL | INCREASING
datatype VenueAction = TRADE | HEDGE | CLOSE
datatype TradeSide = BUY | SELL

record VenueTrade =
  vt_action :: VenueAction
  vt_venueId :: string
  vt_assetId :: string
  vt_side :: TradeSide
  vt_notionalUsd18 :: string
  vt_maxSlippageBps :: int
  vt_riskDirection :: RiskDirection

datatype SentinelPlan =
    repayPlan string bool
  | addCollateralPlan string string int
  | supplyVaultPlan string int
  | venueTradePlan VenueTrade

fun riskDirection :: "SentinelPlan \<Rightarrow> RiskDirection" where
  "riskDirection (repayPlan amountUsd18 repayAll) = REDUCING"
| "riskDirection (addCollateralPlan assetId amountTokens decimals) = REDUCING"
| "riskDirection (supplyVaultPlan amountTokens decimals) = NEUTRAL"
| "riskDirection (venueTradePlan t) = vt_riskDirection t"

fun sentinelPlanSchema :: "SentinelPlan \<Rightarrow> bool" where
  "sentinelPlanSchema (repayPlan amountUsd18 repayAll) \<longleftrightarrow> usd18StringSchema amountUsd18"
| "sentinelPlanSchema (addCollateralPlan assetId amountTokens decimals) \<longleftrightarrow>
     hex32Schema assetId \<and> canonical_decimal amountTokens \<and> 0 \<le> decimals \<and> decimals \<le> 18"
| "sentinelPlanSchema (supplyVaultPlan amountTokens decimals) \<longleftrightarrow>
     canonical_decimal amountTokens \<and> 0 \<le> decimals \<and> decimals \<le> 18"
| "sentinelPlanSchema (venueTradePlan t) \<longleftrightarrow>
     vt_venueId t \<noteq> [] \<and> length (vt_venueId t) \<le> 64 \<and> hex32Schema (vt_assetId t)
     \<and> usd18StringSchema (vt_notionalUsd18 t) \<and> bpsSchema (vt_maxSlippageBps t)"

fun direction_name :: "RiskDirection \<Rightarrow> string" where
  "direction_name REDUCING = ''REDUCING''"
| "direction_name NEUTRAL = ''NEUTRAL''"
| "direction_name INCREASING = ''INCREASING''"

fun venue_action_name :: "VenueAction \<Rightarrow> string" where
  "venue_action_name TRADE = ''TRADE''"
| "venue_action_name HEDGE = ''HEDGE''"
| "venue_action_name CLOSE = ''CLOSE''"

fun plan_action_name :: "SentinelPlan \<Rightarrow> string" where
  "plan_action_name (repayPlan a r) = ''REPAY''"
| "plan_action_name (addCollateralPlan a t d) = ''ADD_COLLATERAL''"
| "plan_action_name (supplyVaultPlan t d) = ''SUPPLY_VAULT''"
| "plan_action_name (venueTradePlan t) = venue_action_name (vt_action t)"

fun plan_json :: "SentinelPlan \<Rightarrow> json" where
  "plan_json (repayPlan amountUsd18 repayAll) = JObj
     [(''action'', JStr ''REPAY''), (''amountUsd18'', JStr amountUsd18),
      (''repayAll'', JBool repayAll), (''riskDirection'', JStr ''REDUCING'')]"
| "plan_json (addCollateralPlan assetId amountTokens decimals) = JObj
     [(''action'', JStr ''ADD_COLLATERAL''), (''assetId'', JStr assetId),
      (''amountTokens'', JStr amountTokens), (''decimals'', JNum decimals),
      (''riskDirection'', JStr ''REDUCING'')]"
| "plan_json (supplyVaultPlan amountTokens decimals) = JObj
     [(''action'', JStr ''SUPPLY_VAULT''), (''amountTokens'', JStr amountTokens),
      (''decimals'', JNum decimals), (''riskDirection'', JStr ''NEUTRAL'')]"
| "plan_json (venueTradePlan t) = JObj
     [(''action'', JStr (venue_action_name (vt_action t))), (''venueId'', JStr (vt_venueId t)),
      (''assetId'', JStr (vt_assetId t)),
      (''side'', JStr (case vt_side t of BUY \<Rightarrow> ''BUY'' | SELL \<Rightarrow> ''SELL'')),
      (''notionalUsd18'', JStr (vt_notionalUsd18 t)), (''maxSlippageBps'', JNum (vt_maxSlippageBps t)),
      (''riskDirection'', JStr (direction_name (vt_riskDirection t)))]"

definition planHashFor :: "(string \<Rightarrow> string) \<Rightarrow> SentinelPlan \<Rightarrow> string" where
  "planHashFor keccak plan = keccak (canonicalJson (plan_json plan))"

section \<open>Snapshots\<close>

record SnapshotMandate =
  sm_mandateId :: string
  sm_live :: bool
  sm_expiresAt :: int
  sm_remainingDebtUsd18 :: string
  sm_remainingNotionalUsd18 :: string

record PassportRef =
  pf_assetId :: string
  pf_version :: int
  pf_status :: string

record SentinelSnapshot =
  sn_chainId :: int
  sn_blockNumber :: int
  sn_blockHash :: string
  sn_account :: string
  sn_accountStatus :: string
  sn_recognisedUsd18 :: string
  sn_debtUsd18 :: string
  sn_borrowLimitUsd18 :: string
  sn_maintenanceLimitUsd18 :: string
  sn_availableBorrowUsd18 :: string
  sn_reservedUsd18 :: string
  sn_bufferBps :: int
  sn_riskEpoch :: int
  sn_mandate :: SnapshotMandate
  sn_passports :: "PassportRef list"
  sn_marketSession :: "SentinelSession option"
  sn_instanceConfigHash :: string
  sn_takenAt :: int

definition sentinelSnapshotSchema :: "SentinelSnapshot \<Rightarrow> bool" where
  "sentinelSnapshotSchema s \<longleftrightarrow>
     0 < sn_chainId s \<and> 0 \<le> sn_blockNumber s \<and> hex32Schema (sn_blockHash s)
     \<and> addressSchema (sn_account s) \<and> sn_accountStatus s \<noteq> []
     \<and> list_all usd18StringSchema
         [sn_recognisedUsd18 s, sn_debtUsd18 s, sn_borrowLimitUsd18 s, sn_maintenanceLimitUsd18 s,
          sn_availableBorrowUsd18 s, sn_reservedUsd18 s, sm_remainingDebtUsd18 (sn_mandate s),
          sm_remainingNotionalUsd18 (sn_mandate s)]
     \<and> bpsSchema (sn_bufferBps s) \<and> 1 \<le> sn_riskEpoch s
     \<and> hex32Schema (sm_mandateId (sn_mandate s)) \<and> unixSecondsSchema (sm_expiresAt (sn_mandate s))
     \<and> length (sn_passports s) \<le> 64
     \<and> list_all (\<lambda>p. hex32Schema (pf_assetId p) \<and> 0 \<le> pf_version p) (sn_passports s)
     \<and> hex32Schema (sn_instanceConfigHash s) \<and> unixSecondsSchema (sn_takenAt s)"

text \<open>Parsing lowers the case of hashes and addresses.\<close>

definition parseSnapshot :: "SentinelSnapshot \<Rightarrow> sentinel_error + SentinelSnapshot" where
  "parseSnapshot s =
     (if sentinelSnapshotSchema s
      then Inr (s\<lparr>sn_blockHash := toLowerCase (sn_blockHash s),
                  sn_account := toLowerCase (sn_account s),
                  sn_mandate := (sn_mandate s)\<lparr>sm_mandateId := toLowerCase (sm_mandateId (sn_mandate s))\<rparr>,
                  sn_passports := map (\<lambda>p. p\<lparr>pf_assetId := toLowerCase (pf_assetId p)\<rparr>) (sn_passports s),
                  sn_instanceConfigHash := toLowerCase (sn_instanceConfigHash s)\<rparr>)
      else Inl (ZodError ''sentinelSnapshotSchema''))"

section \<open>The run\<close>

definition RUN_STATES :: "RunState list" where
  "RUN_STATES =
     [TRIGGER_OBSERVED, TRIGGER_VALIDATED, SNAPSHOT_PINNING, SNAPSHOT_PINNED, PLANNING, PLAN_READY,
      PLAN_REJECTED, NO_ACTION_REQUIRED, WAITING_USER_CONFIRMATION, AUTHORIZATION_CHECKING,
      AUTHORIZED, AUTHORIZATION_REJECTED, RESERVING, CAPITAL_RESERVED, RESERVATION_REJECTED,
      SUBMITTING, SUBMITTED, CONFIRMATION_UNKNOWN, PARTIALLY_FILLED, FILLED, EXECUTION_UNKNOWN,
      RECONCILING, RECONCILED, COMPLETE, BLOCKED_BY_POLICY, BLOCKED_BY_MANDATE, BLOCKED_BY_BUDGET,
      BLOCKED_BY_RISK_EPOCH, BLOCKED_BY_VENUE, BLOCKED_BY_LIQUIDITY, BLOCKED_BY_MARKET_SESSION]"

fun RUN_TRANSITIONS :: "RunState \<Rightarrow> RunState list" where
  "RUN_TRANSITIONS TRIGGER_OBSERVED = [TRIGGER_VALIDATED, BLOCKED_BY_POLICY]"
| "RUN_TRANSITIONS TRIGGER_VALIDATED = [SNAPSHOT_PINNING]"
| "RUN_TRANSITIONS SNAPSHOT_PINNING = [SNAPSHOT_PINNED, BLOCKED_BY_POLICY]"
| "RUN_TRANSITIONS SNAPSHOT_PINNED = [PLANNING]"
| "RUN_TRANSITIONS PLANNING = [PLAN_READY, PLAN_REJECTED, NO_ACTION_REQUIRED]"
| "RUN_TRANSITIONS PLAN_READY =
     [AUTHORIZATION_CHECKING, WAITING_USER_CONFIRMATION, BLOCKED_BY_BUDGET,
      BLOCKED_BY_MARKET_SESSION, BLOCKED_BY_POLICY]"
| "RUN_TRANSITIONS WAITING_USER_CONFIRMATION = [AUTHORIZATION_CHECKING, BLOCKED_BY_POLICY]"
| "RUN_TRANSITIONS AUTHORIZATION_CHECKING =
     [AUTHORIZED, AUTHORIZATION_REJECTED, BLOCKED_BY_MANDATE, BLOCKED_BY_RISK_EPOCH]"
| "RUN_TRANSITIONS AUTHORIZED = [RESERVING, SUBMITTING]"
| "RUN_TRANSITIONS RESERVING = [CAPITAL_RESERVED, RESERVATION_REJECTED, BLOCKED_BY_LIQUIDITY]"
| "RUN_TRANSITIONS CAPITAL_RESERVED = [SUBMITTING]"
| "RUN_TRANSITIONS SUBMITTING = [SUBMITTED, BLOCKED_BY_VENUE]"
| "RUN_TRANSITIONS SUBMITTED =
     [CONFIRMATION_UNKNOWN, PARTIALLY_FILLED, FILLED, EXECUTION_UNKNOWN, RECONCILING]"
| "RUN_TRANSITIONS CONFIRMATION_UNKNOWN = [RECONCILING]"
| "RUN_TRANSITIONS PARTIALLY_FILLED = [FILLED, RECONCILING]"
| "RUN_TRANSITIONS FILLED = [RECONCILING]"
| "RUN_TRANSITIONS EXECUTION_UNKNOWN = [RECONCILING]"
| "RUN_TRANSITIONS RECONCILING = [RECONCILED, EXECUTION_UNKNOWN]"
| "RUN_TRANSITIONS RECONCILED = [COMPLETE]"
| "RUN_TRANSITIONS COMPLETE = []"
| "RUN_TRANSITIONS PLAN_REJECTED = []"
| "RUN_TRANSITIONS NO_ACTION_REQUIRED = []"
| "RUN_TRANSITIONS AUTHORIZATION_REJECTED = []"
| "RUN_TRANSITIONS RESERVATION_REJECTED = []"
| "RUN_TRANSITIONS BLOCKED_BY_POLICY = []"
| "RUN_TRANSITIONS BLOCKED_BY_MANDATE = []"
| "RUN_TRANSITIONS BLOCKED_BY_BUDGET = []"
| "RUN_TRANSITIONS BLOCKED_BY_RISK_EPOCH = []"
| "RUN_TRANSITIONS BLOCKED_BY_VENUE = []"
| "RUN_TRANSITIONS BLOCKED_BY_LIQUIDITY = []"
| "RUN_TRANSITIONS BLOCKED_BY_MARKET_SESSION = []"

definition RUN_TERMINAL_STATES :: "RunState list" where
  "RUN_TERMINAL_STATES = filter (\<lambda>s. RUN_TRANSITIONS s = []) RUN_STATES"

definition RUN_RESUMABLE_STATES :: "RunState list" where
  "RUN_RESUMABLE_STATES =
     [SNAPSHOT_PINNING, PLANNING, AUTHORIZATION_CHECKING, AUTHORIZED, RESERVING, CAPITAL_RESERVED,
      SUBMITTING, SUBMITTED, CONFIRMATION_UNKNOWN, PARTIALLY_FILLED, FILLED, EXECUTION_UNKNOWN,
      RECONCILING, RECONCILED]"

definition canTransitionRun :: "RunState \<Rightarrow> RunState \<Rightarrow> bool" where
  "canTransitionRun src dst \<longleftrightarrow> dst \<in> set (RUN_TRANSITIONS src)"

definition isRunTerminal :: "RunState \<Rightarrow> bool" where
  "isRunTerminal state \<longleftrightarrow> RUN_TRANSITIONS state = []"

record RunTransitionRecord =
  rt_to :: RunState
  rt_at :: int
  rt_reason :: "string option"

record SentinelRun =
  sr_runId :: string
  sr_instanceId :: string
  sr_triggerId :: string
  sr_triggerVersion :: int
  sr_trigger :: TriggerEvent
  sr_authority :: TriggerAuthorityClass
  sr_state :: RunState
  sr_snapshot :: "SentinelSnapshot option"
  sr_plan :: "SentinelPlan option"
  sr_planHash :: "string option"
  sr_transactions :: "string list"
  sr_intentId :: "string option"
  sr_history :: "RunTransitionRecord list"
  sr_createdAt :: int
  sr_updatedAt :: int
  sr_attempts :: int

record AdvanceRunOptions =
  ao_reason :: "string option"
  ao_snapshot :: "SentinelSnapshot option"
  ao_plan :: "SentinelPlan option"
  ao_transaction :: "string option"
  ao_intentId :: "string option"

definition no_options :: AdvanceRunOptions where
  "no_options = \<lparr>ao_reason = None, ao_snapshot = None, ao_plan = None, ao_transaction = None,
                 ao_intentId = None\<rparr>"

text \<open>An absent string and an empty one are both falsy.\<close>

definition truthy :: "string option \<Rightarrow> string option" where
  "truthy x = (case x of None \<Rightarrow> None | Some s \<Rightarrow> if s = [] then None else Some s)"

definition advanceRun ::
  "(string \<Rightarrow> string) \<Rightarrow> SentinelRun \<Rightarrow> RunState \<Rightarrow> int \<Rightarrow> AdvanceRunOptions \<Rightarrow> sentinel_error + SentinelRun" where
  "advanceRun keccak run dst now options =
     (if \<not> canTransitionRun (sr_state run) dst then Inl (IllegalRunTransition (sr_state run) dst)
      else let plan = option_or (ao_plan options) (sr_plan run)
        in Inr (run\<lparr>sr_state := dst,
                    sr_snapshot := option_or (ao_snapshot options) (sr_snapshot run),
                    sr_plan := plan,
                    sr_planHash := (case plan of Some p \<Rightarrow> Some (planHashFor keccak p)
                                               | None \<Rightarrow> sr_planHash run),
                    sr_transactions := (case truthy (ao_transaction options) of
                        None \<Rightarrow> sr_transactions run | Some t \<Rightarrow> sr_transactions run @ [t]),
                    sr_intentId := option_or (ao_intentId options) (sr_intentId run),
                    sr_history := sr_history run
                        @ [\<lparr>rt_to = dst, rt_at = now, rt_reason = truthy (ao_reason options)\<rparr>],
                    sr_updatedAt := now,
                    sr_attempts := (if dst = SUBMITTING then sr_attempts run + 1
                                    else sr_attempts run)\<rparr>))"

definition createRun ::
  "string \<Rightarrow> string \<Rightarrow> TriggerEvent \<Rightarrow> string \<Rightarrow> int \<Rightarrow> int \<Rightarrow> SentinelRun" where
  "createRun runId instanceId trigger triggerId triggerVersion now =
     \<lparr>sr_runId = runId, sr_instanceId = instanceId, sr_triggerId = triggerId,
      sr_triggerVersion = triggerVersion, sr_trigger = trigger, sr_authority = te_authority trigger,
      sr_state = TRIGGER_OBSERVED, sr_snapshot = None, sr_plan = None, sr_planHash = None,
      sr_transactions = [], sr_intentId = None,
      sr_history = [\<lparr>rt_to = TRIGGER_OBSERVED, rt_at = now, rt_reason = None\<rparr>],
      sr_createdAt = now, sr_updatedAt = now, sr_attempts = 0\<rparr>"


section \<open>Authority\<close>

lemma authorityRank_simps [simp]:
  "authorityRank DETERMINISTIC_ONCHAIN = 0" "authorityRank DETERMINISTIC_SCHEDULE = 1"
  "authorityRank VERIFIED_EXTERNAL = 2" "authorityRank EVIDENCE_BOUND = 3"
  "authorityRank AI_INTERPRETED = 4" "authorityRank LOW_TRUST_OBSERVATION = 5"
  by (simp_all add: authorityRank_def TRIGGER_AUTHORITY_CLASSES_def)

lemma authorityRank_inj: "authorityRank a = authorityRank b \<longleftrightarrow> a = b"
  by (cases a; cases b) simp_all

text \<open>The ranks make the authority classes a linear order, the strongest class least.\<close>

instantiation TriggerAuthorityClass :: linorder
begin

definition less_eq_TriggerAuthorityClass :: "TriggerAuthorityClass \<Rightarrow> TriggerAuthorityClass \<Rightarrow> bool" where
  "less_eq_TriggerAuthorityClass a b \<longleftrightarrow> authorityAtLeast a b"

definition less_TriggerAuthorityClass :: "TriggerAuthorityClass \<Rightarrow> TriggerAuthorityClass \<Rightarrow> bool" where
  "less_TriggerAuthorityClass a b \<longleftrightarrow> authorityRank a < authorityRank b"

instance
proof
  note d = less_eq_TriggerAuthorityClass_def less_TriggerAuthorityClass_def authorityAtLeast_def
  fix a b c :: TriggerAuthorityClass
  show "a < b \<longleftrightarrow> a \<le> b \<and> \<not> b \<le> a" unfolding d by linarith
  show "a \<le> a" unfolding d by (rule order_refl)
  show "a \<le> b \<Longrightarrow> b \<le> c \<Longrightarrow> a \<le> c" unfolding d by (rule order_trans)
  show "a \<le> b \<Longrightarrow> b \<le> a \<Longrightarrow> a = b" unfolding d using authorityRank_inj [of a b] by linarith
  show "a \<le> b \<or> b \<le> a" unfolding d by linarith
qed

end

lemma clampAuthority_max: "clampAuthority cls claimed = max (CLASS_AUTHORITY_CEILING cls) claimed"
  by (auto simp: clampAuthority_def less_eq_TriggerAuthorityClass_def [symmetric] max_def)

section \<open>Masks\<close>

lemma in_mask_bit: "in_mask m b \<longleftrightarrow> bit m b"
  by (simp add: in_mask_def mask_bit_def and_exp_eq_0_iff_not_bit push_bit_of_1)

lemma bit_mask_bit: "bit (mask_bit b) n \<longleftrightarrow> n = b"
  by (auto simp: mask_bit_def push_bit_of_1 bit_exp_iff)

lemma bit_fold_or:
  "bit (foldl (\<lambda>m x. or m (mask_bit (f x))) m0 xs) n \<longleftrightarrow> bit m0 n \<or> n \<in> f ` set xs"
  by (induction xs arbitrary: m0) (auto simp: bit_or_iff bit_mask_bit)

lemma action_bit_inj: "ma_bit (ACTION_BY_NAME a) = ma_bit (ACTION_BY_NAME b) \<longleftrightarrow> a = b"
  by (cases a; cases b) (simp_all add: ACTION_BY_NAME_def MANDATE_ACTIONS_def mandate_action_def)

lemma mandate_actions_by_name: "x \<in> set MANDATE_ACTIONS \<Longrightarrow> ACTION_BY_NAME (ma_name x) = x"
  by (auto simp: ACTION_BY_NAME_def MANDATE_ACTIONS_def mandate_action_def)

lemma actions_of_mask:
  "actionsInMask (maskForActions names) = filter (\<lambda>a. ma_name a \<in> set names) MANDATE_ACTIONS"
  unfolding actionsInMask_def
proof (rule filter_cong [OF refl])
  fix a assume "a \<in> set MANDATE_ACTIONS"
  then have "ACTION_BY_NAME (ma_name a) = a" by (rule mandate_actions_by_name)
  then show "in_mask (maskForActions names) (ma_bit a) \<longleftrightarrow> ma_name a \<in> set names"
    using action_bit_inj [of "ma_name a"]
    by (auto simp: in_mask_bit maskForActions_def bit_fold_or image_iff)
qed

section \<open>Runs\<close>

interpretation run_table: transition_table RUN_TRANSITIONS canTransitionRun isRunTerminal
  by unfold_locales (simp_all add: canTransitionRun_def isRunTerminal_def)

definition run_ok :: "SentinelRun \<Rightarrow> bool" where
  "run_ok run \<longleftrightarrow>
     sr_history run \<noteq> [] \<and> rt_to (hd (sr_history run)) = TRIGGER_OBSERVED
     \<and> legal_path RUN_TRANSITIONS (map rt_to (sr_history run))
     \<and> rt_to (last (sr_history run)) = sr_state run
     \<and> rt_at (last (sr_history run)) = sr_updatedAt run
     \<and> sr_attempts run = int (length (filter (\<lambda>h. rt_to h = SUBMITTING) (sr_history run)))"

lemma createRun_ok: "run_ok (createRun runId instanceId trigger triggerId v now)"
  by (simp add: run_ok_def createRun_def)

lemma advanceRun_inv:
  assumes "advanceRun keccak run dst now opts = Inr run'"
  shows "canTransitionRun (sr_state run) dst" "sr_state run' = dst" "sr_updatedAt run' = now"
    "sr_runId run' = sr_runId run" "sr_instanceId run' = sr_instanceId run"
    "sr_history run' = sr_history run @ [\<lparr>rt_to = dst, rt_at = now, rt_reason = truthy (ao_reason opts)\<rparr>]"
    "sr_attempts run' = (if dst = SUBMITTING then sr_attempts run + 1 else sr_attempts run)"
    "sr_transactions run' = (case truthy (ao_transaction opts) of
        None \<Rightarrow> sr_transactions run | Some t \<Rightarrow> sr_transactions run @ [t])"
    "sr_trigger run' = sr_trigger run" "sr_authority run' = sr_authority run"
    "sr_plan run' = option_or (ao_plan opts) (sr_plan run)"
    "sr_snapshot run' = option_or (ao_snapshot opts) (sr_snapshot run)"
  using assms by (auto simp: advanceRun_def Let_def split: if_splits)

lemma advanceRun_ok:
  assumes "run_ok run" "advanceRun keccak run dst now opts = Inr run'"
  shows "run_ok run'"
proof -
  note i = advanceRun_inv [OF assms(2)]
  have "legal_path RUN_TRANSITIONS (map rt_to (sr_history run) @ [dst])"
    using assms(1) i(1) by (intro run_table.path_extend) (auto simp: run_ok_def last_map)
  then show ?thesis
    using assms(1) i by (auto simp: run_ok_def)
qed

lemma advanceRun_legal:
  "canTransitionRun (sr_state run) dst \<Longrightarrow> \<exists>run'. advanceRun keccak run dst now opts = Inr run'"
  by (simp add: advanceRun_def Let_def)

text \<open>
  Progress: every edge goes up in this measure except the two between reconciling and an unknown
  execution, so no state before the submission is met twice.
\<close>

fun run_rank :: "RunState \<Rightarrow> nat" where
  "run_rank TRIGGER_OBSERVED = 0"
| "run_rank TRIGGER_VALIDATED = 1"
| "run_rank SNAPSHOT_PINNING = 2"
| "run_rank SNAPSHOT_PINNED = 3"
| "run_rank PLANNING = 4"
| "run_rank PLAN_READY = 5"
| "run_rank WAITING_USER_CONFIRMATION = 6"
| "run_rank AUTHORIZATION_CHECKING = 7"
| "run_rank AUTHORIZED = 8"
| "run_rank RESERVING = 9"
| "run_rank CAPITAL_RESERVED = 10"
| "run_rank SUBMITTING = 11"
| "run_rank SUBMITTED = 12"
| "run_rank CONFIRMATION_UNKNOWN = 13"
| "run_rank PARTIALLY_FILLED = 13"
| "run_rank FILLED = 14"
| "run_rank EXECUTION_UNKNOWN = 15"
| "run_rank RECONCILING = 15"
| "run_rank RECONCILED = 16"
| "run_rank COMPLETE = 17"
| "run_rank _ = 18"

lemma run_rank_step:
  assumes "b \<in> set (RUN_TRANSITIONS a)"
  shows "run_rank a \<le> run_rank b" "run_rank a \<le> 11 \<Longrightarrow> run_rank a < run_rank b"
  using assms by (cases a; auto)+

lemma path_above:
  "legal_path RUN_TRANSITIONS (a # xs) \<Longrightarrow> run_rank a \<le> 11 \<Longrightarrow> b \<in> set xs \<Longrightarrow> run_rank a < run_rank b"
proof (induction xs arbitrary: a)
  case (Cons c xs)
  have ac: "run_rank a < run_rank c" "legal_path RUN_TRANSITIONS (c # xs)"
    using Cons.prems(1,2) run_rank_step(2) by auto
  show ?case
  proof (cases "b = c")
    case False
    then have b: "b \<in> set xs" using Cons.prems(3) by simp
    show ?thesis
    proof (cases "run_rank c \<le> 11")
      case True
      with Cons.IH [OF ac(2) True b] ac(1) show ?thesis by simp
    next
      case False
      have "legal_path RUN_TRANSITIONS (c # xs) \<Longrightarrow> b \<in> set xs \<Longrightarrow> run_rank c \<le> run_rank b" for c
      proof (induction xs arbitrary: c)
        case (Cons d xs)
        then show ?case using run_rank_step(1) [of d c] by (cases "b = d") (auto intro: order_trans)
      qed simp
      from this [OF ac(2) b] False Cons.prems(2) ac(1) show ?thesis by simp
    qed
  qed (use ac in simp)
qed simp

lemma submitting_once:
  "legal_path RUN_TRANSITIONS xs \<Longrightarrow> length (filter (\<lambda>s. s = SUBMITTING) xs) \<le> 1"
proof (induction xs)
  case (Cons a xs)
  have p: "legal_path RUN_TRANSITIONS xs" using Cons.prems by (cases xs) auto
  show ?case
  proof (cases "a = SUBMITTING")
    case True
    then have "SUBMITTING \<notin> set xs" using path_above [OF Cons.prems] by fastforce
    then have "filter (\<lambda>s. s = SUBMITTING) xs = []" by (auto simp: filter_empty_conv)
    with True show ?thesis by simp
  qed (use Cons.IH [OF p] in simp)
qed simp

lemma run_attempts_le_1: "run_ok run \<Longrightarrow> 0 \<le> sr_attempts run \<and> sr_attempts run \<le> 1"
  using submitting_once [of "map rt_to (sr_history run)"]
  by (simp add: run_ok_def filter_map comp_def)

end
