(* ===== verification/Sentinel_Policy.thy ===== *)
theory Sentinel_Policy
  imports Sentinel_Schemas
begin

text \<open>
  What an owner arms a Sentinel with: the budget and its ledger (\<open>sentinel-budget.ts\<close>), the
  instance, its priority, confirmation policy and life cycle (\<open>sentinel-instance.ts\<close>), and the
  template manifest with its masks, status ladder and fee ceilings (\<open>sentinel-template.ts\<close>).
\<close>

section \<open>The budget\<close>

record RollingWindow =
  rw_windowSeconds :: int
  rw_capUsd18 :: string

record SentinelBudget =
  bu_maxPerRunUsd18 :: string
  bu_maxPerDayUsd18 :: "string option"
  bu_rollingWindow :: "RollingWindow option"
  bu_maxTotalUsd18 :: "string option"
  bu_maxRunsPerHour :: "int option"
  bu_maxRunsPerDay :: "int option"
  bu_maxFeeUsd18 :: "string option"
  bu_maxSlippageBps :: "int option"
  bu_cooldownSeconds :: int
  bu_maxOutstandingReservationUsd18 :: "string option"

definition sentinelBudgetSchema :: "SentinelBudget \<Rightarrow> bool" where
  "sentinelBudgetSchema b \<longleftrightarrow>
     usd18StringSchema (bu_maxPerRunUsd18 b) \<and> opt_ok usd18StringSchema (bu_maxPerDayUsd18 b)
     \<and> opt_ok (\<lambda>w. 60 \<le> rw_windowSeconds w \<and> usd18StringSchema (rw_capUsd18 w)) (bu_rollingWindow b)
     \<and> opt_ok usd18StringSchema (bu_maxTotalUsd18 b)
     \<and> opt_ok (\<lambda>n. 1 \<le> n) (bu_maxRunsPerHour b) \<and> opt_ok (\<lambda>n. 1 \<le> n) (bu_maxRunsPerDay b)
     \<and> opt_ok usd18StringSchema (bu_maxFeeUsd18 b) \<and> opt_ok bpsSchema (bu_maxSlippageBps b)
     \<and> 0 \<le> bu_cooldownSeconds b
     \<and> opt_ok usd18StringSchema (bu_maxOutstandingReservationUsd18 b)"

datatype BudgetEntryState = RESERVED | CONFIRMED | RELEASED

record BudgetLedgerEntry =
  be_runId :: string
  be_state :: BudgetEntryState
  be_amountUsd18 :: string
  be_feeUsd18 :: string
  be_effectiveAt :: int

type_synonym BudgetLedger = "BudgetLedgerEntry list"

definition budgetLedgerEntrySchema :: "BudgetLedgerEntry \<Rightarrow> bool" where
  "budgetLedgerEntrySchema e \<longleftrightarrow> hex32Schema (be_runId e) \<and> usd18StringSchema (be_amountUsd18 e)
     \<and> usd18StringSchema (be_feeUsd18 e) \<and> unixSecondsSchema (be_effectiveAt e)"

definition findEntry :: "BudgetLedger \<Rightarrow> string \<Rightarrow> BudgetLedgerEntry option" where
  "findEntry ledger runId = find (\<lambda>e. be_runId e = runId) ledger"

definition reserveBudget ::
  "BudgetLedger \<Rightarrow> string \<Rightarrow> string \<Rightarrow> string \<Rightarrow> int \<Rightarrow> sentinel_error + BudgetLedger" where
  "reserveBudget ledger runId amountUsd18 feeUsd18 effectiveAt =
     (if findEntry ledger runId \<noteq> None then Inr ledger
      else let e = \<lparr>be_runId = runId, be_state = RESERVED, be_amountUsd18 = amountUsd18,
                    be_feeUsd18 = feeUsd18, be_effectiveAt = effectiveAt\<rparr>
           in if budgetLedgerEntrySchema e
              then Inr (ledger @ [e\<lparr>be_runId := toLowerCase runId\<rparr>])
              else Inl (ZodError ''budgetLedgerEntrySchema''))"

definition setEntryState :: "BudgetLedger \<Rightarrow> string \<Rightarrow> BudgetEntryState \<Rightarrow> BudgetLedger" where
  "setEntryState ledger runId st =
     map (\<lambda>x. if be_runId x = runId then x\<lparr>be_state := st\<rparr> else x) ledger"

definition confirmBudget :: "BudgetLedger \<Rightarrow> string \<Rightarrow> sentinel_error + BudgetLedger" where
  "confirmBudget ledger runId =
     (case findEntry ledger runId of
        None \<Rightarrow> Inl (BudgetLedgerError (''confirm of unknown run '' @ runId))
      | Some e \<Rightarrow>
          if be_state e = CONFIRMED then Inr ledger
          else if be_state e = RELEASED
          then Inl (BudgetLedgerError (''cannot confirm a released run '' @ runId))
          else Inr (setEntryState ledger runId CONFIRMED))"

definition releaseBudget :: "BudgetLedger \<Rightarrow> string \<Rightarrow> sentinel_error + BudgetLedger" where
  "releaseBudget ledger runId =
     (case findEntry ledger runId of
        None \<Rightarrow> Inl (BudgetLedgerError (''release of unknown run '' @ runId))
      | Some e \<Rightarrow>
          if be_state e = RELEASED then Inr ledger
          else if be_state e = CONFIRMED
          then Inl (BudgetLedgerError (''cannot release a confirmed run '' @ runId @ '' (I-64)''))
          else Inr (setEntryState ledger runId RELEASED))"

definition committed :: "BudgetLedger \<Rightarrow> BudgetLedgerEntry list" where
  "committed ledger = filter (\<lambda>e. be_state e \<noteq> RELEASED) ledger"

definition sumUsd18 :: "string list \<Rightarrow> sentinel_error + int" where
  "sumUsd18 amounts = foldR (\<lambda>s a. bindR (parseUsd18 a) (\<lambda>v. Inr (s + v))) 0 amounts"

definition spentUsd18 :: "BudgetLedger \<Rightarrow> sentinel_error + int" where
  "spentUsd18 ledger = sumUsd18 (map be_amountUsd18 (committed ledger))"

definition spentSinceUsd18 :: "BudgetLedger \<Rightarrow> int \<Rightarrow> sentinel_error + int" where
  "spentSinceUsd18 ledger sinceInclusive =
     sumUsd18 (map be_amountUsd18 (filter (\<lambda>e. sinceInclusive \<le> be_effectiveAt e) (committed ledger)))"

definition feeSpentUsd18 :: "BudgetLedger \<Rightarrow> sentinel_error + int" where
  "feeSpentUsd18 ledger = sumUsd18 (map be_feeUsd18 (filter (\<lambda>e. be_state e = CONFIRMED) ledger))"

definition runCountSince :: "BudgetLedger \<Rightarrow> int \<Rightarrow> int" where
  "runCountSince ledger sinceInclusive =
     int (length (filter (\<lambda>e. sinceInclusive \<le> be_effectiveAt e) (committed ledger)))"

definition lastEffectiveAt :: "BudgetLedger \<Rightarrow> int option" where
  "lastEffectiveAt ledger =
     (if committed ledger = [] then None
      else Some (foldl (\<lambda>m e. max m (be_effectiveAt e)) 0 (committed ledger)))"

text \<open>The check is a chain of early returns: each gives a reason, or falls through to the next.\<close>

definition over_cap ::
  "string option \<Rightarrow> (sentinel_error + int) \<Rightarrow> int \<Rightarrow> string \<Rightarrow> sentinel_error + string option" where
  "over_cap cap spent amount reason =
     (case cap of
        None \<Rightarrow> Inr None
      | Some c \<Rightarrow> bindR spent (\<lambda>s. bindR (parseUsd18 c) (\<lambda>m.
          Inr (if m < s + amount then Some reason else None))))"

definition or_else ::
  "sentinel_error + string option \<Rightarrow> sentinel_error + string option \<Rightarrow> sentinel_error + string option" where
  "or_else first rest = bindR first (\<lambda>r. case r of Some reason \<Rightarrow> Inr (Some reason) | None \<Rightarrow> rest)"

definition withinBudget ::
  "SentinelBudget \<Rightarrow> BudgetLedger \<Rightarrow> string \<Rightarrow> string \<Rightarrow> int \<Rightarrow> sentinel_error + string option" where
  "withinBudget budget ledger amountUsd18 feeUsd18 now =
     bindR (parseUsd18 amountUsd18) (\<lambda>amount.
     bindR (parseUsd18 feeUsd18) (\<lambda>fee.
       or_else (bindR (parseUsd18 (bu_maxPerRunUsd18 budget)) (\<lambda>m.
                  Inr (if m < amount then Some ''BUDGET_PER_RUN'' else None)))
      (or_else (over_cap (bu_maxTotalUsd18 budget) (spentUsd18 ledger) amount ''BUDGET_TOTAL'')
      (or_else (over_cap (bu_maxPerDayUsd18 budget) (spentSinceUsd18 ledger (now - 86400)) amount
                  ''BUDGET_DAILY'')
      (or_else (case bu_rollingWindow budget of
                  None \<Rightarrow> Inr None
                | Some w \<Rightarrow> over_cap (Some (rw_capUsd18 w))
                    (spentSinceUsd18 ledger (now - rw_windowSeconds w)) amount ''BUDGET_WINDOW'')
      (or_else (over_cap (bu_maxFeeUsd18 budget) (feeSpentUsd18 ledger) fee ''BUDGET_FEE'')
      (or_else (Inr (case bu_maxRunsPerHour budget of
                  None \<Rightarrow> None
                | Some n \<Rightarrow> if n \<le> runCountSince ledger (now - 3600) then Some ''BUDGET_RUNS_PER_HOUR''
                            else None))
      (or_else (Inr (case bu_maxRunsPerDay budget of
                  None \<Rightarrow> None
                | Some n \<Rightarrow> if n \<le> runCountSince ledger (now - 86400) then Some ''BUDGET_RUNS_PER_DAY''
                            else None))
         (Inr (case lastEffectiveAt ledger of
                  None \<Rightarrow> None
                | Some t \<Rightarrow> if 0 < bu_cooldownSeconds budget \<and> now - t < bu_cooldownSeconds budget
                    then Some ''BUDGET_COOLDOWN'' else None)))))))))) "

section \<open>The instance\<close>

datatype SentinelPriority =
    P0_EMERGENCY_RISK_REDUCTION | P1_SAFETY_MAINTENANCE | P2_HEDGE | P3_REBALANCE
  | P4_YIELD_OPPORTUNISTIC

definition SENTINEL_PRIORITIES :: "SentinelPriority list" where
  "SENTINEL_PRIORITIES =
     [P0_EMERGENCY_RISK_REDUCTION, P1_SAFETY_MAINTENANCE, P2_HEDGE, P3_REBALANCE,
      P4_YIELD_OPPORTUNISTIC]"

definition priorityRank :: "SentinelPriority \<Rightarrow> int" where
  "priorityRank p = indexOf p SENTINEL_PRIORITIES"

datatype ConfirmationPolicy =
    AUTO_WITHIN_MANDATE | CONFIRM_EVERY_ACTION | CONFIRM_RISK_INCREASING
  | CONFIRM_ABOVE_AMOUNT string | CONFIRM_WEAK_TRIGGER

record TriggerPolicy =
  tp_triggers :: "TriggerSpec list"
  tp_allowedAuthorityClasses :: "TriggerAuthorityClass list"

definition triggerPolicySchema :: "TriggerPolicy \<Rightarrow> bool" where
  "triggerPolicySchema p \<longleftrightarrow> list_all triggerSpecSchema (tp_triggers p)
     \<and> 1 \<le> length (tp_triggers p) \<and> length (tp_triggers p) \<le> 16
     \<and> 1 \<le> length (tp_allowedAuthorityClasses p) \<and> length (tp_allowedAuthorityClasses p) \<le> 6"

datatype InstanceState = DRAFT | AWAITING_MANDATE | ARMED | PAUSED | BLOCKED | EXPIRED | REVOKED

fun INSTANCE_TRANSITIONS :: "InstanceState \<Rightarrow> InstanceState list" where
  "INSTANCE_TRANSITIONS DRAFT = [AWAITING_MANDATE, REVOKED]"
| "INSTANCE_TRANSITIONS AWAITING_MANDATE = [ARMED, DRAFT, REVOKED]"
| "INSTANCE_TRANSITIONS ARMED = [PAUSED, BLOCKED, EXPIRED, REVOKED]"
| "INSTANCE_TRANSITIONS PAUSED = [ARMED, BLOCKED, EXPIRED, REVOKED]"
| "INSTANCE_TRANSITIONS BLOCKED = [ARMED, PAUSED, EXPIRED, REVOKED]"
| "INSTANCE_TRANSITIONS EXPIRED = [REVOKED]"
| "INSTANCE_TRANSITIONS REVOKED = []"

definition canTransitionInstance :: "InstanceState \<Rightarrow> InstanceState \<Rightarrow> bool" where
  "canTransitionInstance src dst \<longleftrightarrow> dst \<in> set (INSTANCE_TRANSITIONS src)"

definition isInstanceTerminal :: "InstanceState \<Rightarrow> bool" where
  "isInstanceTerminal state \<longleftrightarrow> INSTANCE_TRANSITIONS state = []"

interpretation instance_table: transition_table INSTANCE_TRANSITIONS canTransitionInstance isInstanceTerminal
  by unfold_locales (simp_all add: canTransitionInstance_def isInstanceTerminal_def)

record SentinelInstance =
  si_instanceId :: string
  si_owner :: string
  si_account :: string
  si_templateId :: string
  si_templateVersion :: int
  si_manifestHash :: string
  si_agentExecutor :: string
  si_mandateId :: string
  si_configHash :: string
  si_triggerPolicy :: TriggerPolicy
  si_budgetPolicy :: SentinelBudget
  si_priorityClass :: SentinelPriority
  si_confirmationPolicy :: ConfirmationPolicy
  si_status :: InstanceState
  si_createdAt :: int
  si_validAfter :: int
  si_expiresAt :: int
  si_lastRunId :: "string option"
  si_lastSuccessfulRunAt :: "int option"

definition sentinelInstanceSchema :: "SentinelInstance \<Rightarrow> bool" where
  "sentinelInstanceSchema i \<longleftrightarrow>
     list_all hex32Schema [si_instanceId i, si_templateId i, si_manifestHash i, si_mandateId i, si_configHash i]
     \<and> list_all addressSchema [si_owner i, si_account i, si_agentExecutor i]
     \<and> 1 \<le> si_templateVersion i \<and> triggerPolicySchema (si_triggerPolicy i)
     \<and> sentinelBudgetSchema (si_budgetPolicy i)
     \<and> (case si_confirmationPolicy i of CONFIRM_ABOVE_AMOUNT t \<Rightarrow> usd18StringSchema t | _ \<Rightarrow> True)
     \<and> list_all unixSecondsSchema [si_createdAt i, si_validAfter i, si_expiresAt i]
     \<and> opt_ok hex32Schema (si_lastRunId i) \<and> opt_ok unixSecondsSchema (si_lastSuccessfulRunAt i)
     \<and> si_validAfter i < si_expiresAt i"

section \<open>The template\<close>

datatype RiskClass = RISK_REDUCING_ONLY | MARKET_NEUTRAL | RISK_INCREASING

datatype TemplateStatus = TEMPLATE_ACTIVE | TEMPLATE_DEPRECATED | SECURITY_DISABLED

definition TEMPLATE_STATUSES :: "TemplateStatus list" where
  "TEMPLATE_STATUSES = [TEMPLATE_ACTIVE, TEMPLATE_DEPRECATED, SECURITY_DISABLED]"

definition templateStatusRank :: "TemplateStatus \<Rightarrow> int" where
  "templateStatusRank s = indexOf s TEMPLATE_STATUSES"

definition isRestrictingStatusChange :: "TemplateStatus \<Rightarrow> TemplateStatus \<Rightarrow> bool" where
  "isRestrictingStatusChange src dst \<longleftrightarrow> templateStatusRank src \<le> templateStatusRank dst"

definition MAX_TEMPLATE_FEE_BPS :: int where "MAX_TEMPLATE_FEE_BPS = 1000"
definition MAX_TEMPLATE_FLAT_FEE_USD18 :: int where "MAX_TEMPLATE_FLAT_FEE_USD18 = 100 * 10 ^ 18"

record TemplateFeePolicy =
  fp_perSuccessfulRunBps :: int
  fp_flatPerRunUsd18 :: string

definition templateFeePolicySchema :: "TemplateFeePolicy \<Rightarrow> bool" where
  "templateFeePolicySchema p \<longleftrightarrow> 0 \<le> fp_perSuccessfulRunBps p
     \<and> fp_perSuccessfulRunBps p \<le> MAX_TEMPLATE_FEE_BPS
     \<and> usd18StringSchema (fp_flatPerRunUsd18 p)
     \<and> (case bigint_of_string (fp_flatPerRunUsd18 p) of
          Inr v \<Rightarrow> v \<le> MAX_TEMPLATE_FLAT_FEE_USD18 | Inl e \<Rightarrow> False)"

definition TRIGGER_CLASS_BIT :: "TriggerClass \<Rightarrow> nat" where
  "TRIGGER_CLASS_BIT c = nat (indexOf c TRIGGER_CLASSES)"

definition triggerClassMaskFor :: "TriggerClass list \<Rightarrow> int" where
  "triggerClassMaskFor classes = foldl (\<lambda>m c. or m (mask_bit (TRIGGER_CLASS_BIT c))) 0 classes"

definition triggerClassesWithinVocabulary :: "int \<Rightarrow> bool" where
  "triggerClassesWithinVocabulary bits \<longleftrightarrow> 0 \<le> bits \<and> bits < mask_bit (length TRIGGER_CLASSES)"

datatype Capability = HOLD | COLLATERAL | CAP_TRADE | CAP_BORROW | LEND | REPO | CROSSCHAIN_ESCROW
  | PERP_UNDERLYING | OUTCOME_UNDERLYING

record SentinelTemplateManifest =
  tm_templateId :: string
  tm_version :: int
  tm_publisher :: string
  tm_name :: string
  tm_description :: string
  tm_riskClass :: RiskClass
  tm_requiredActions :: int
  tm_requiredTriggerClasses :: int
  tm_requiredCapabilities :: "Capability list"
  tm_requiredVenues :: "string list"
  tm_configSchemaHash :: string
  tm_triggerSchemaHash :: string
  tm_planSchemaHash :: string
  tm_feePolicy :: TemplateFeePolicy
  tm_compilerVersion :: string
  tm_promptVersion :: "string option"
  tm_minimumProtocolVersion :: string
  tm_createdAt :: int

definition short_text :: "nat \<Rightarrow> string \<Rightarrow> bool" where
  "short_text n s \<longleftrightarrow> s \<noteq> [] \<and> length s \<le> n"

definition sentinelTemplateManifestSchema :: "SentinelTemplateManifest \<Rightarrow> bool" where
  "sentinelTemplateManifestSchema m \<longleftrightarrow>
     list_all hex32Schema [tm_templateId m, tm_configSchemaHash m, tm_triggerSchemaHash m, tm_planSchemaHash m]
     \<and> 1 \<le> tm_version m \<and> addressSchema (tm_publisher m)
     \<and> short_text 120 (tm_name m) \<and> short_text 4000 (tm_description m)
     \<and> actionsWithinVocabulary (tm_requiredActions m)
     \<and> triggerClassesWithinVocabulary (tm_requiredTriggerClasses m)
     \<and> length (tm_requiredCapabilities m) \<le> 16
     \<and> list_all (short_text 64) (tm_requiredVenues m) \<and> length (tm_requiredVenues m) \<le> 16
     \<and> templateFeePolicySchema (tm_feePolicy m)
     \<and> short_text 64 (tm_compilerVersion m) \<and> opt_ok (short_text 64) (tm_promptVersion m)
     \<and> short_text 32 (tm_minimumProtocolVersion m) \<and> unixSecondsSchema (tm_createdAt m)
     \<and> \<not> (tm_riskClass m = RISK_REDUCING_ONLY \<and> maskRaisesRisk (tm_requiredActions m))"


section \<open>The ledger\<close>

definition usd :: "string \<Rightarrow> int" where
  "usd s = int (nat_of_digits s)"

lemma parseUsd18_ok: "usd18StringSchema s \<Longrightarrow> parseUsd18 s = Inr (usd s)"
  by (simp add: parseUsd18_def usd18StringSchema_def usd_def bigint_of_canonical)

lemma usd_nonneg [simp]: "0 \<le> usd s" by (simp add: usd_def)

lemma usd_show [simp]: "usd (show_nat n) = int n" by (simp add: usd_def)

lemma formatUsd18_roundtrip: "0 \<le> v \<Longrightarrow> formatUsd18 v = Inr (show_nat (nat v)) \<and> usd18StringSchema (show_nat (nat v))"
  by (simp add: formatUsd18_def show_int_def usd18StringSchema_def canonical_show_nat)

definition ledger_ok :: "BudgetLedger \<Rightarrow> bool" where
  "ledger_ok l \<longleftrightarrow> distinct (map be_runId l) \<and> list_all budgetLedgerEntrySchema l"

lemma ledger_ok_Nil [simp]: "ledger_ok []" by (simp add: ledger_ok_def)

definition usd_sum :: "(BudgetLedgerEntry \<Rightarrow> string) \<Rightarrow> BudgetLedger \<Rightarrow> int" where
  "usd_sum f l = sum_list (map (\<lambda>e. usd (f e)) l)"

lemma usd_sum_nonneg: "0 \<le> usd_sum f l"
  unfolding usd_sum_def by (rule sum_list_nonneg_int) auto

lemma sumUsd18_fold:
  "list_all usd18StringSchema as \<Longrightarrow>
   foldR (\<lambda>s a. bindR (parseUsd18 a) (\<lambda>v. Inr (s + v))) t as = Inr (t + sum_list (map usd as))"
  by (induction as arbitrary: t) (simp_all add: parseUsd18_ok)

lemma sumUsd18_ok: "list_all usd18StringSchema as \<Longrightarrow> sumUsd18 as = Inr (sum_list (map usd as))"
  by (simp add: sumUsd18_def sumUsd18_fold)

lemma ledger_amounts:
  "ledger_ok l \<Longrightarrow> list_all usd18StringSchema (map be_amountUsd18 (filter P l))"
  "ledger_ok l \<Longrightarrow> list_all usd18StringSchema (map be_feeUsd18 (filter P l))"
  by (auto simp: ledger_ok_def list_all_iff budgetLedgerEntrySchema_def)

definition since :: "int \<Rightarrow> BudgetLedger \<Rightarrow> BudgetLedger" where
  "since t l = filter (\<lambda>e. t \<le> be_effectiveAt e) (committed l)"

lemma spentUsd18_ok: "ledger_ok l \<Longrightarrow> spentUsd18 l = Inr (usd_sum be_amountUsd18 (committed l))"
  using ledger_amounts(1) [of l "\<lambda>e. be_state e \<noteq> RELEASED"]
  by (simp add: spentUsd18_def sumUsd18_ok committed_def usd_sum_def comp_def)

lemma spentSince_ok: "ledger_ok l \<Longrightarrow> spentSinceUsd18 l t = Inr (usd_sum be_amountUsd18 (since t l))"
  using ledger_amounts(1) [of l "\<lambda>e. be_state e \<noteq> RELEASED \<and> t \<le> be_effectiveAt e"]
  by (simp add: spentSinceUsd18_def sumUsd18_ok since_def committed_def usd_sum_def comp_def conj_commute)

lemma feeSpent_ok:
  "ledger_ok l \<Longrightarrow> feeSpentUsd18 l = Inr (usd_sum be_feeUsd18 (filter (\<lambda>e. be_state e = CONFIRMED) l))"
  using ledger_amounts(2) [of l "\<lambda>e. be_state e = CONFIRMED"]
  by (simp add: feeSpentUsd18_def sumUsd18_ok usd_sum_def comp_def)

definition entry_state :: "BudgetLedger \<Rightarrow> string \<Rightarrow> BudgetEntryState option" where
  "entry_state l r = map_option be_state (findEntry l r)"

lemma findEntry_Some: "findEntry l r = Some e \<Longrightarrow> e \<in> set l \<and> be_runId e = r"
  by (auto simp: findEntry_def dest: find_Some_in)

lemma findEntry_None: "findEntry l r = None \<longleftrightarrow> r \<notin> be_runId ` set l"
  by (auto simp: findEntry_def find_None_iff_all)

lemma findEntry_append: "findEntry (l @ l') r = option_or (findEntry l r) (findEntry l' r)"
  by (induction l) (simp_all add: findEntry_def)

lemma setEntryState_find:
  "findEntry (setEntryState l r st) r' =
     (if r' = r then map_option (\<lambda>e. e\<lparr>be_state := st\<rparr>) (findEntry l r) else findEntry l r')"
  by (induction l) (auto simp: findEntry_def setEntryState_def)

lemma setEntryState_ok:
  assumes "ledger_ok l" shows "ledger_ok (setEntryState l r st)"
proof -
  have ids: "map be_runId (setEntryState l r st) = map be_runId l"
    by (simp add: setEntryState_def)
  have "list_all budgetLedgerEntrySchema (setEntryState l r st)"
    using assms by (auto simp: ledger_ok_def list_all_iff setEntryState_def budgetLedgerEntrySchema_def)
  then show ?thesis using assms unfolding ledger_ok_def ids by simp
qed

definition is_lower :: "string \<Rightarrow> bool" where
  "is_lower r \<longleftrightarrow> toLowerCase r = r"

text \<open>What the three operations do to a ledger, as one relation.\<close>

definition ledger_moves :: "BudgetLedger \<Rightarrow> string \<Rightarrow> BudgetEntryState option \<Rightarrow> BudgetLedger \<Rightarrow> bool" where
  "ledger_moves l r st l' \<longleftrightarrow> ledger_ok l' \<and> entry_state l' r = st
     \<and> (\<forall>r'. r' \<noteq> r \<longrightarrow> findEntry l' r' = findEntry l r')"

lemma reserveBudget_moves:
  assumes "ledger_ok l" "reserveBudget l r amount fee t = Inr l'" "is_lower r"
  shows "ledger_moves l r (Some (case entry_state l r of Some st \<Rightarrow> st | None \<Rightarrow> RESERVED)) l'"
proof (cases "findEntry l r")
  case None
  with assms(2,3) have l': "l' = l @ [\<lparr>be_runId = r, be_state = RESERVED, be_amountUsd18 = amount,
      be_feeUsd18 = fee, be_effectiveAt = t\<rparr>]" "budgetLedgerEntrySchema \<lparr>be_runId = r, be_state = RESERVED,
      be_amountUsd18 = amount, be_feeUsd18 = fee, be_effectiveAt = t\<rparr>"
    by (auto simp: reserveBudget_def is_lower_def Let_def split: if_splits)
  have "r \<notin> be_runId ` set l" using None by (simp add: findEntry_None)
  then show ?thesis
    using l' assms(1) None
    by (auto simp: ledger_moves_def ledger_ok_def entry_state_def findEntry_append)
      (auto simp: findEntry_def split: option.splits)
next
  case (Some e)
  then show ?thesis using assms by (auto simp: reserveBudget_def ledger_moves_def entry_state_def)
qed

lemma confirmBudget_moves:
  assumes "ledger_ok l" "confirmBudget l r = Inr l'"
  shows "ledger_moves l r (Some CONFIRMED) l' \<and> entry_state l r \<in> {Some RESERVED, Some CONFIRMED}"
  using assms setEntryState_ok [OF assms(1)]
  by (cases "findEntry l r"; cases "be_state (the (findEntry l r))")
    (auto simp: confirmBudget_def ledger_moves_def entry_state_def setEntryState_find)

lemma releaseBudget_moves:
  assumes "ledger_ok l" "releaseBudget l r = Inr l'"
  shows "ledger_moves l r (Some RELEASED) l' \<and> entry_state l r \<in> {Some RESERVED, Some RELEASED}"
  using assms setEntryState_ok [OF assms(1)]
  by (cases "findEntry l r"; cases "be_state (the (findEntry l r))")
    (auto simp: releaseBudget_def ledger_moves_def entry_state_def setEntryState_find)

lemma confirm_reserved: "entry_state l r = Some RESERVED \<Longrightarrow> \<exists>l'. confirmBudget l r = Inr l'"
  by (auto simp: entry_state_def confirmBudget_def)

lemma release_reserved: "entry_state l r = Some RESERVED \<Longrightarrow> \<exists>l'. releaseBudget l r = Inr l'"
  by (auto simp: entry_state_def releaseBudget_def)

section \<open>The check and the reservation\<close>

lemma or_else_None: "or_else a b = Inr None \<longleftrightarrow> a = Inr None \<and> b = Inr None"
  by (auto simp: or_else_def result_simps split: option.splits)

lemma over_cap_None:
  "over_cap cap (Inr s) amount reason = Inr None \<Longrightarrow> cap = Some c \<Longrightarrow> usd18StringSchema c \<Longrightarrow> s + amount \<le> usd c"
  by (auto simp: over_cap_def parseUsd18_ok split: if_splits)

lemma reserve_adds:
  assumes "reserveBudget l r amount fee t = Inr l'" "findEntry l r = None"
  shows "l' = l @ [\<lparr>be_runId = toLowerCase r, be_state = RESERVED, be_amountUsd18 = amount,
      be_feeUsd18 = fee, be_effectiveAt = t\<rparr>]" "usd18StringSchema amount" "hex32Schema r"
  using assms by (auto simp: reserveBudget_def Let_def budgetLedgerEntrySchema_def split: if_splits)

lemma committed_append [simp]: "committed (l @ l') = committed l @ committed l'"
  by (simp add: committed_def)

lemma usd_sum_append [simp]: "usd_sum f (l @ l') = usd_sum f l + usd_sum f l'"
  by (simp add: usd_sum_def)

lemma since_append [simp]: "since t (l @ l') = since t l @ since t l'"
  by (simp add: since_def)


section \<open>Properties\<close>

text \<open>
  No source can promote itself. The authority a trigger is stamped with is the weaker of the
  class's ceiling and what was claimed: never stronger than either, and clamping again changes
  nothing.
\<close>

theorem authority_never_promoted:
  "clampAuthority cls claimed = max (CLASS_AUTHORITY_CEILING cls) claimed
   \<and> authorityRank (CLASS_AUTHORITY_CEILING cls) \<le> authorityRank (clampAuthority cls claimed)
   \<and> authorityRank claimed \<le> authorityRank (clampAuthority cls claimed)
   \<and> clampAuthority cls (clampAuthority cls claimed) = clampAuthority cls claimed
   \<and> \<not> authorityAtLeast (clampAuthority AI_OBSERVATION claimed) VERIFIED_EXTERNAL"
proof -
  have "max AI_INTERPRETED claimed = AI_INTERPRETED \<or> max AI_INTERPRETED claimed = LOW_TRUST_OBSERVATION"
    by (cases claimed) (simp_all add: max_def less_eq_TriggerAuthorityClass_def authorityAtLeast_def)
  then have "\<not> authorityAtLeast (clampAuthority AI_OBSERVATION claimed) VERIFIED_EXTERNAL"
    by (auto simp: clampAuthority_max authorityAtLeast_def)
  moreover have "authorityRank (CLASS_AUTHORITY_CEILING cls) \<le> authorityRank (clampAuthority cls claimed)"
    "authorityRank claimed \<le> authorityRank (clampAuthority cls claimed)"
    by (auto simp: clampAuthority_def authorityAtLeast_def)
  ultimately show ?thesis by (simp add: clampAuthority_max)
qed

text \<open>
  A trigger's identity is its source occurrence. Two events of one class whose identity fields
  are the same up to their order get the same trigger and run ids, whatever their authority, time,
  account or detail, and whatever the hash.
\<close>

theorem trigger_identity_derived:
  assumes "te_class e = te_class e'" "mset (te_identity e) = mset (te_identity e')"
    "distinct (map fst (te_identity e))"
  shows "triggerIdFor keccak e = triggerIdFor keccak e'
    \<and> runIdFor keccak i (triggerIdFor keccak e) v = runIdFor keccak i (triggerIdFor keccak e') v"
proof -
  let ?f = "\<lambda>kv. (fst kv, JStr (snd kv))"
  have "sortValue (JObj (map ?f (te_identity e'))) = sortValue (JObj (map ?f (te_identity e)))"
    using assms(2,3) by (intro sortValue_obj_order) (simp_all add: mset_map comp_def)
  then have "sortValue (JObj [(''class'', JStr (trigger_class_name (te_class e'))), (''identity'', JObj (map ?f (te_identity e')))])
      = sortValue (JObj [(''class'', JStr (trigger_class_name (te_class e))), (''identity'', JObj (map ?f (te_identity e)))])"
    using assms(1) by (simp del: sortValue.simps(2) add: sortValue.simps(2) [of "[_, _]"])
  then show ?thesis by (simp add: triggerIdFor_def canonicalJson_def)
qed

definition epoch_event :: "(string \<times> string) list \<Rightarrow> TriggerEvent" where
  "epoch_event identity = \<lparr>te_class = RISK_STATE, te_authority = DETERMINISTIC_ONCHAIN,
     te_identity = identity, te_observedAt = 10, te_detail = None, te_account = None\<rparr>"

theorem trigger_identity_derived_witness:
  "triggerIdFor (\<lambda>s. s) (epoch_event [(''account'', ''0xA''), (''epoch'', ''4'')])
     = triggerIdFor (\<lambda>s. s) ((epoch_event [(''epoch'', ''4''), (''account'', ''0xA'')])\<lparr>te_observedAt := 99\<rparr>)"
  using trigger_identity_derived [of "epoch_event [(''account'', ''0xA''), (''epoch'', ''4'')]"
      "(epoch_event [(''epoch'', ''4''), (''account'', ''0xA'')])\<lparr>te_observedAt := 99\<rparr>" "\<lambda>s. s" "[]" 1]
  by (simp add: epoch_event_def add_mset_commute)

inductive run_reachable :: "(string \<Rightarrow> string) \<Rightarrow> SentinelRun \<Rightarrow> bool" for keccak where
  run_created: "run_reachable keccak (createRun runId instanceId trigger triggerId v now)"
| run_advanced: "run_reachable keccak run \<Longrightarrow> advanceRun keccak run dst now opts = Inr run' \<Longrightarrow>
    run_reachable keccak run'"

lemma run_reachable_ok: "run_reachable keccak run \<Longrightarrow> run_ok run"
  by (induction rule: run_reachable.induct) (auto intro: createRun_ok advanceRun_ok)

text \<open>
  The life of a run. Starting from a created run, any sequence of accepted transitions leaves
  the history a path of the transition table from its first state to the current one, stamps the
  current time on the last entry, never leaves a terminal state, and enters the submission at most
  once, which the attempt counter counts.
\<close>

theorem run_lifecycle:
  assumes "run_reachable keccak run"
  shows "legal_path RUN_TRANSITIONS (map rt_to (sr_history run))
    \<and> rt_to (hd (sr_history run)) = TRIGGER_OBSERVED
    \<and> rt_to (last (sr_history run)) = sr_state run
    \<and> rt_at (last (sr_history run)) = sr_updatedAt run
    \<and> (\<forall>i. Suc i < length (sr_history run) \<longrightarrow> \<not> isRunTerminal (rt_to (sr_history run ! i)))
    \<and> (isRunTerminal (sr_state run) \<longrightarrow>
         (\<forall>dst now opts. advanceRun keccak run dst now opts = Inl (IllegalRunTransition (sr_state run) dst)))
    \<and> 0 \<le> sr_attempts run \<and> sr_attempts run \<le> 1
    \<and> (sr_attempts run = 1 \<longleftrightarrow> SUBMITTING \<in> set (map rt_to (sr_history run)))"
proof -
  have ok: "run_ok run" by (rule run_reachable_ok [OF assms])
  have p: "legal_path RUN_TRANSITIONS (map rt_to (sr_history run))" using ok by (simp add: run_ok_def)
  have t: "\<not> isRunTerminal (rt_to (sr_history run ! i))" if "Suc i < length (sr_history run)" for i
    using run_table.path_terminal_last [OF p, of i] that by simp
  have a: "sr_attempts run = int (length (filter (\<lambda>h. rt_to h = SUBMITTING) (sr_history run)))"
    using ok by (simp add: run_ok_def)
  have "sr_attempts run = 1 \<longleftrightarrow> SUBMITTING \<in> set (map rt_to (sr_history run))"
  proof
    assume "sr_attempts run = 1"
    then have "filter (\<lambda>h. rt_to h = SUBMITTING) (sr_history run) \<noteq> []" using a by auto
    then show "SUBMITTING \<in> set (map rt_to (sr_history run))"
      by (force simp: filter_empty_conv)
  next
    assume "SUBMITTING \<in> set (map rt_to (sr_history run))"
    then obtain h where "h \<in> set (sr_history run)" "rt_to h = SUBMITTING" by auto
    then have "filter (\<lambda>h. rt_to h = SUBMITTING) (sr_history run) \<noteq> []"
      unfolding filter_empty_conv by blast
    then have "0 < length (filter (\<lambda>h. rt_to h = SUBMITTING) (sr_history run))" by (rule length_greater_0_conv [THEN iffD2])
    then show "sr_attempts run = 1" using a run_attempts_le_1 [OF ok] by linarith
  qed
  then show ?thesis
    using ok p t run_attempts_le_1 [OF ok] run_table.terminal_stuck
    by (auto simp: run_ok_def advanceRun_def)
qed

definition sample_run :: SentinelRun where
  "sample_run = createRun ''0xr'' ''0xi'' (epoch_event []) ''0xt'' 1 10"

theorem run_lifecycle_witness:
  "sr_attempts sample_run = 0 \<and> rt_to (last (sr_history sample_run)) = TRIGGER_OBSERVED"
proof -
  have "run_reachable (\<lambda>s. s) sample_run" unfolding sample_run_def by (rule run_created)
  from run_lifecycle [OF this] show ?thesis by (simp add: sample_run_def createRun_def)
qed

text \<open>
  A reservation that passed the check keeps every cap. With a well-formed ledger and budget, a
  run admitted by the check and then reserved leaves the total, daily and window consumption within
  their caps, the run counts within theirs, its own amount within the per-run cap, and the cooldown
  since the last run elapsed, whenever the reservation is stamped.
\<close>

theorem reservation_within_caps:
  assumes "ledger_ok l" "sentinelBudgetSchema b"
    "withinBudget b l amount fee now = Inr None" "reserveBudget l r amount fee t = Inr l'"
    "findEntry l r = None" "usd18StringSchema fee"
  shows "(\<forall>c. bu_maxTotalUsd18 b = Some c \<longrightarrow> (\<exists>s. spentUsd18 l' = Inr s \<and> s \<le> usd c))
    \<and> (\<forall>c. bu_maxPerDayUsd18 b = Some c \<longrightarrow> (\<exists>s. spentSinceUsd18 l' (now - 86400) = Inr s \<and> s \<le> usd c))
    \<and> (\<forall>w. bu_rollingWindow b = Some w \<longrightarrow>
         (\<exists>s. spentSinceUsd18 l' (now - rw_windowSeconds w) = Inr s \<and> s \<le> usd (rw_capUsd18 w)))
    \<and> (\<forall>n. bu_maxRunsPerHour b = Some n \<longrightarrow> runCountSince l' (now - 3600) \<le> n)
    \<and> (\<forall>n. bu_maxRunsPerDay b = Some n \<longrightarrow> runCountSince l' (now - 86400) \<le> n)
    \<and> usd amount \<le> usd (bu_maxPerRunUsd18 b)
    \<and> (\<forall>u. lastEffectiveAt l = Some u \<and> 0 < bu_cooldownSeconds b \<longrightarrow> bu_cooldownSeconds b \<le> now - u)"
proof -
  note rs = reserve_adds [OF assms(4,5)]
  let ?e = "\<lparr>be_runId = toLowerCase r, be_state = RESERVED, be_amountUsd18 = amount,
      be_feeUsd18 = fee, be_effectiveAt = t\<rparr>"
  have ok1: "list_all usd18StringSchema (map be_amountUsd18 (filter P l'))" for P
    using ledger_amounts(1) [OF assms(1)] rs(1,2) by (simp add: list_all_iff)
  have l': "spentUsd18 l' = Inr (usd_sum be_amountUsd18 (committed l) + usd amount)"
    using ok1 [of "\<lambda>e. be_state e \<noteq> RELEASED"] rs(1)
    by (simp add: spentUsd18_def committed_def sumUsd18_ok usd_sum_def comp_def)
  have ls: "\<exists>s. spentSinceUsd18 l' u = Inr s \<and> s \<le> usd_sum be_amountUsd18 (since u l) + usd amount" for u
  proof -
    have "spentSinceUsd18 l' u = Inr (sum_list (map usd (map be_amountUsd18 (since u l'))))"
      using ok1 [of "\<lambda>e. be_state e \<noteq> RELEASED \<and> u \<le> be_effectiveAt e"]
      by (simp add: spentSinceUsd18_def sumUsd18_ok since_def committed_def conj_commute del: map_map)
    then show ?thesis using rs(1)
      by (cases "u \<le> t") (simp_all add: since_def committed_def usd_sum_def comp_def)
  qed
  have lc: "runCountSince l' u \<le> runCountSince l u + 1" for u
    using rs(1) by (simp add: runCountSince_def committed_def)
  have am: "parseUsd18 amount = Inr (usd amount)" "parseUsd18 fee = Inr (usd fee)"
    using rs(2) assms(6) by (simp_all add: parseUsd18_ok)
  have sc: "usd18StringSchema (bu_maxPerRunUsd18 b)" "opt_ok usd18StringSchema (bu_maxTotalUsd18 b)"
    "opt_ok usd18StringSchema (bu_maxPerDayUsd18 b)"
    "opt_ok (\<lambda>w. 60 \<le> rw_windowSeconds w \<and> usd18StringSchema (rw_capUsd18 w)) (bu_rollingWindow b)"
    using assms(2) by (simp_all add: sentinelBudgetSchema_def)
  note w = assms(3) [unfolded withinBudget_def am bindR_simps or_else_None
      spentUsd18_ok [OF assms(1)] spentSince_ok [OF assms(1)] feeSpent_ok [OF assms(1)]]
  have c1: "usd amount \<le> usd (bu_maxPerRunUsd18 b)"
    using w sc(1) by (auto simp: parseUsd18_ok split: if_splits)
  have c2: "\<exists>s. spentUsd18 l' = Inr s \<and> s \<le> usd c" if "bu_maxTotalUsd18 b = Some c" for c
    using w over_cap_None [OF _ that] sc(2) that l' by auto
  have c3: "\<exists>s. spentSinceUsd18 l' (now - 86400) = Inr s \<and> s \<le> usd c" if "bu_maxPerDayUsd18 b = Some c" for c
    using w over_cap_None [OF _ that] sc(3) that ls [of "now - 86400"] by force
  have c4: "\<exists>s. spentSinceUsd18 l' (now - rw_windowSeconds ww) = Inr s \<and> s \<le> usd (rw_capUsd18 ww)"
    if "bu_rollingWindow b = Some ww" for ww
    using w over_cap_None [OF _ refl] sc(4) that ls [of "now - rw_windowSeconds ww"] by force
  have c5: "runCountSince l' (now - 3600) \<le> n" if "bu_maxRunsPerHour b = Some n" for n
    using w that lc [of "now - 3600"] by (auto split: if_splits)
  have c6: "runCountSince l' (now - 86400) \<le> n" if "bu_maxRunsPerDay b = Some n" for n
    using w that lc [of "now - 86400"] by (auto split: if_splits)
  have c7: "bu_cooldownSeconds b \<le> now - u" if "lastEffectiveAt l = Some u" "0 < bu_cooldownSeconds b" for u
    using w that by (auto split: if_splits)
  show ?thesis using c1 c2 c3 c4 c5 c6 c7 by blast
qed

text \<open>
  A reservation is consumed once and settled once. On a well-formed ledger a second reservation
  of a run changes nothing; confirming and releasing move only a reserved entry and only that run's;
  a confirmed run is never released and a released one never confirmed.
\<close>

theorem ledger_settles_once:
  assumes "ledger_ok l" "is_lower r"
  shows "(\<forall>l' amount fee t amount' fee' t'. reserveBudget l r amount fee t = Inr l' \<longrightarrow>
            ledger_ok l' \<and> entry_state l' r \<noteq> None \<and> reserveBudget l' r amount' fee' t' = Inr l')
    \<and> (\<forall>l'. confirmBudget l r = Inr l' \<longrightarrow> ledger_ok l' \<and> entry_state l' r = Some CONFIRMED
            \<and> (\<exists>err. releaseBudget l' r = Inl err) \<and> confirmBudget l' r = Inr l')
    \<and> (\<forall>l'. releaseBudget l r = Inr l' \<longrightarrow> ledger_ok l' \<and> entry_state l' r = Some RELEASED
            \<and> (\<exists>err. confirmBudget l' r = Inl err) \<and> releaseBudget l' r = Inr l')
    \<and> (\<forall>l' r'. (confirmBudget l r = Inr l' \<or> releaseBudget l r = Inr l') \<and> r' \<noteq> r \<longrightarrow>
            findEntry l' r' = findEntry l r')"
proof (intro conjI allI impI)
  fix l' amount fee t amount' fee' t'
  assume a: "reserveBudget l r amount fee t = Inr l'"
  note m = reserveBudget_moves [OF assms(1) a assms(2), unfolded ledger_moves_def]
  show "ledger_ok l'" "entry_state l' r \<noteq> None" using m by auto
  then show "reserveBudget l' r amount' fee' t' = Inr l'"
    by (auto simp: reserveBudget_def entry_state_def)
next
  fix l' assume a: "confirmBudget l r = Inr l'"
  note m = confirmBudget_moves [OF assms(1) a, unfolded ledger_moves_def]
  show "ledger_ok l'" "entry_state l' r = Some CONFIRMED" using m by auto
  then show "\<exists>err. releaseBudget l' r = Inl err" "confirmBudget l' r = Inr l'"
    by (auto simp: releaseBudget_def confirmBudget_def entry_state_def)
next
  fix l' assume a: "releaseBudget l r = Inr l'"
  note m = releaseBudget_moves [OF assms(1) a, unfolded ledger_moves_def]
  show "ledger_ok l'" "entry_state l' r = Some RELEASED" using m by auto
  then show "\<exists>err. confirmBudget l' r = Inl err" "releaseBudget l' r = Inr l'"
    by (auto simp: releaseBudget_def confirmBudget_def entry_state_def)
next
  fix l' r' assume "(confirmBudget l r = Inr l' \<or> releaseBudget l r = Inr l') \<and> r' \<noteq> r"
  then show "findEntry l' r' = findEntry l r'"
    using confirmBudget_moves [OF assms(1), of r l'] releaseBudget_moves [OF assms(1), of r l']
    by (auto simp: ledger_moves_def)
qed


definition zeros :: "nat \<Rightarrow> string" where "zeros n = ''0x'' @ replicate n (CHR ''0'')"

lemma zeros_ok: "hex_of_length n (zeros n)" "toLowerCase (zeros n) = zeros n"
  by (simp_all add: hex_of_length_def zeros_def hex_char_def is_digit_def toLowerCase_def
      lower_char_def list_all_iff map_replicate_const)

lemma zeros_schemas: "hex32Schema (zeros 64)" "addressSchema (zeros 40)" "is_lower (zeros n)"
  by (simp_all add: hex32Schema_def addressSchema_def zeros_ok is_lower_def)

definition sample_budget :: SentinelBudget where
  "sample_budget = \<lparr>bu_maxPerRunUsd18 = ''50'', bu_maxPerDayUsd18 = Some ''90'',
     bu_rollingWindow = Some \<lparr>rw_windowSeconds = 3600, rw_capUsd18 = ''80''\<rparr>,
     bu_maxTotalUsd18 = Some ''100'', bu_maxRunsPerHour = Some 2, bu_maxRunsPerDay = Some 3,
     bu_maxFeeUsd18 = Some ''5'', bu_maxSlippageBps = None, bu_cooldownSeconds = 10,
     bu_maxOutstandingReservationUsd18 = None\<rparr>"

lemma sample_numerals:
  "canonical_decimal ''50''" "canonical_decimal ''90''" "canonical_decimal ''80''"
  "canonical_decimal ''100''" "canonical_decimal ''5''" "canonical_decimal ''0''" "canonical_decimal ''40''"
  "usd ''50'' = 50" "usd ''90'' = 90" "usd ''80'' = 80" "usd ''100'' = 100" "usd ''5'' = 5"
  "usd ''0'' = 0" "usd ''40'' = 40"
  by code_simp+

lemma sample_budget_ok: "sentinelBudgetSchema sample_budget"
  by (simp add: sentinelBudgetSchema_def sample_budget_def usd18StringSchema_def sample_numerals)

lemma sample_check: "withinBudget sample_budget [] ''40'' ''0'' 100 = Inr None"
proof -
  have n: "parseUsd18 ''50'' = Inr 50" "parseUsd18 ''90'' = Inr 90" "parseUsd18 ''80'' = Inr 80"
    "parseUsd18 ''100'' = Inr 100" "parseUsd18 ''5'' = Inr 5" "parseUsd18 ''0'' = Inr 0" "parseUsd18 ''40'' = Inr 40"
    by (simp_all add: parseUsd18_ok usd18StringSchema_def sample_numerals)
  show ?thesis
    by (simp add: withinBudget_def n sample_budget_def or_else_def over_cap_def spentUsd18_def
        spentSinceUsd18_def feeSpentUsd18_def committed_def sumUsd18_def runCountSince_def lastEffectiveAt_def)
qed

lemma sample_reserve: "\<exists>l'. reserveBudget [] (zeros 64) ''40'' ''0'' 101 = Inr l'"
  by (simp add: reserveBudget_def findEntry_def Let_def budgetLedgerEntrySchema_def zeros_schemas
      usd18StringSchema_def sample_numerals unixSecondsSchema_def)

theorem reservation_within_caps_witness:
  "\<exists>l' s. reserveBudget [] (zeros 64) ''40'' ''0'' 101 = Inr l' \<and> spentUsd18 l' = Inr s \<and> s \<le> 100"
proof -
  obtain l' where l': "reserveBudget [] (zeros 64) ''40'' ''0'' 101 = Inr l'" using sample_reserve by blast
  have f: "findEntry [] (zeros 64) = None" by (simp add: findEntry_def)
  have z: "usd18StringSchema ''0''" by (simp add: usd18StringSchema_def sample_numerals)
  have c: "bu_maxTotalUsd18 sample_budget = Some ''100''" by (simp add: sample_budget_def)
  from reservation_within_caps [OF ledger_ok_Nil sample_budget_ok sample_check l' f z] c l' show ?thesis
    by (auto simp: sample_numerals)
qed

theorem ledger_settles_once_witness:
  "\<exists>l'. reserveBudget [] (zeros 64) ''40'' ''0'' 101 = Inr l' \<and> entry_state l' (zeros 64) \<noteq> None"
proof -
  obtain l' where l': "reserveBudget [] (zeros 64) ''40'' ''0'' 101 = Inr l'" using sample_reserve by blast
  from ledger_settles_once [OF ledger_ok_Nil zeros_schemas(3)] l' show ?thesis by blast
qed

text \<open>
  An action mask says exactly the actions it was made from. The rows a mask selects are the
  vocabulary rows whose names were given, in vocabulary order, and the mask of any names stays
  within the vocabulary; it raises risk exactly when a risk-raising action was named.
\<close>

theorem action_mask_roundtrip:
  "actionsInMask (maskForActions names) = filter (\<lambda>a. ma_name a \<in> set names) MANDATE_ACTIONS
   \<and> actionsWithinVocabulary (maskForActions names)
   \<and> (maskRaisesRisk (maskForActions names) \<longleftrightarrow>
        BORROW \<in> set names \<or> TRADE_ACTION \<in> set names \<or> HEDGE_ACTION \<in> set names)"
proof -
  have b: "ma_bit (ACTION_BY_NAME n) < 6" for n
    by (cases n) (simp_all add: ACTION_BY_NAME_def MANDATE_ACTIONS_def mandate_action_def)
  have "take_bit 6 (maskForActions names) = maskForActions names"
    by (rule bit_eqI) (use b in \<open>auto simp: bit_take_bit_iff maskForActions_def bit_fold_or\<close>)
  then have "0 \<le> maskForActions names" "maskForActions names < 2 ^ 6"
    by (metis take_bit_nonnegative, metis take_bit_int_less_exp)
  then have "actionsWithinVocabulary (maskForActions names)"
    by (simp add: actionsWithinVocabulary_def MANDATE_ACTION_COUNT_def MANDATE_ACTIONS_def mask_bit_def push_bit_of_1)
  moreover have "maskRaisesRisk (maskForActions names) \<longleftrightarrow>
        BORROW \<in> set names \<or> TRADE_ACTION \<in> set names \<or> HEDGE_ACTION \<in> set names"
    by (auto simp: maskRaisesRisk_def actions_of_mask list_ex_iff MANDATE_ACTIONS_def mandate_action_def)
  ultimately show ?thesis by (simp add: actions_of_mask)
qed

end
