(* ===== verification/Sentinel_Services.thy ===== *)
theory Sentinel_Services
  imports Sentinel_Policy
begin

text \<open>
  The pure and reading parts of \<open>services/sentinel/src\<close>: trigger ingestion (\<open>triggers.ts\<close>), the
  chain interface and its in-memory implementation (\<open>chain.ts\<close>), snapshots (\<open>snapshot.ts\<close>), plan
  validation (\<open>validate.ts\<close>), the authorization check (\<open>authorize.ts\<close>) and the safety-buffer
  compiler (\<open>templates.ts\<close>). The chain is a state of any type with one function per read, each of
  which may throw and may find the chain moved; \<open>MockChain\<close> is the source's own implementation.
\<close>

section \<open>Trigger ingestion\<close>

definition build ::
  "TriggerClass \<Rightarrow> TriggerAuthorityClass \<Rightarrow> (string \<times> string) list \<Rightarrow> int \<Rightarrow> string option \<Rightarrow>
   string option \<Rightarrow> sentinel_error + TriggerEvent" where
  "build cls authorityClaim identity observedAt account detail =
     (let e = \<lparr>te_class = cls, te_authority = clampAuthority cls authorityClaim, te_identity = identity,
               te_observedAt = observedAt, te_detail = truthy detail, te_account = truthy account\<rparr>
      in if triggerEventSchema e
         then Inr (e\<lparr>te_account := map_option toLowerCase (te_account e)\<rparr>)
         else Inl (ZodError ''triggerEventSchema''))"

definition riskEpochTrigger :: "string \<Rightarrow> int \<Rightarrow> int \<Rightarrow> sentinel_error + TriggerEvent" where
  "riskEpochTrigger account epoch observedAt =
     build RISK_STATE DETERMINISTIC_ONCHAIN [(''account'', account), (''epoch'', show_int epoch)]
       observedAt (Some account) None"

definition accountHealthTrigger ::
  "string \<Rightarrow> string \<Rightarrow> int \<Rightarrow> int \<Rightarrow> sentinel_error + TriggerEvent" where
  "accountHealthTrigger account status blockNumber observedAt =
     build RISK_STATE DETERMINISTIC_ONCHAIN
       [(''account'', account), (''status'', status), (''block'', show_int blockNumber)]
       observedAt (Some account) None"

definition passportChangedTrigger :: "string \<Rightarrow> int \<Rightarrow> int \<Rightarrow> sentinel_error + TriggerEvent" where
  "passportChangedTrigger assetId version observedAt =
     build PASSPORT_STATE DETERMINISTIC_ONCHAIN
       [(''asset'', assetId), (''version'', show_int version)] observedAt None None"

definition scheduledTrigger :: "string \<Rightarrow> string \<Rightarrow> int \<Rightarrow> int \<Rightarrow> sentinel_error + TriggerEvent" where
  "scheduledTrigger instanceId spec nowSeconds intervalSeconds =
     build TIME DETERMINISTIC_SCHEDULE
       [(''instance'', instanceId), (''spec'', spec),
        (''bucket'', show_int (scheduleBucket nowSeconds intervalSeconds))] nowSeconds None None"

definition observationTrigger ::
  "string \<Rightarrow> string \<Rightarrow> TriggerAuthorityClass \<Rightarrow> int \<Rightarrow> string option \<Rightarrow> string option \<Rightarrow>
   sentinel_error + TriggerEvent" where
  "observationTrigger contentHash observationType claimedAuthority observedAt account detail =
     build AI_OBSERVATION claimedAuthority [(''content'', contentHash), (''type'', observationType)]
       observedAt account detail"

definition manualTrigger :: "string \<Rightarrow> string \<Rightarrow> int \<Rightarrow> sentinel_error + TriggerEvent" where
  "manualTrigger instanceId ownerNonce observedAt =
     build MANUAL DETERMINISTIC_SCHEDULE [(''instance'', instanceId), (''nonce'', ownerNonce)]
       observedAt None None"

definition triggerMatchesInstance :: "SentinelInstance \<Rightarrow> TriggerEvent \<Rightarrow> bool" where
  "triggerMatchesInstance inst event =
     list_ex (\<lambda>spec. case spec of
         compositeSpec members \<Rightarrow> list_ex (\<lambda>m. spec_class m = te_class event) members
       | singleSpec s \<Rightarrow> spec_class s = te_class event)
     (tp_triggers (si_triggerPolicy inst))"

definition authorityPermittedByInstance :: "SentinelInstance \<Rightarrow> TriggerEvent \<Rightarrow> bool" where
  "authorityPermittedByInstance inst event \<longleftrightarrow>
     te_authority event \<in> set (tp_allowedAuthorityClasses (si_triggerPolicy inst))"

section \<open>The chain interface\<close>

record AccountState =
  as_status :: string
  as_recognisedUsd18 :: string
  as_debtUsd18 :: string
  as_borrowLimitUsd18 :: string
  as_maintenanceLimitUsd18 :: string
  as_availableBorrowUsd18 :: string
  as_reservedUsd18 :: string
  as_bufferBps :: int

record MandateSnapshot =
  ms_live :: bool
  ms_expiresAt :: int
  ms_remainingDebtUsd18 :: string
  ms_remainingNotionalUsd18 :: string
  ms_allowedActions :: int
  ms_agentExecutor :: string

record BlockRef =
  br_chainId :: int
  br_number :: int
  br_hash :: string

datatype TxOutcome = tx_success | tx_reverted

type_synonym ('c, 'a) read = "('c, sentinel_error, 'a) action"

record 'c SentinelChainView =
  cv_block :: "('c, BlockRef) read"
  cv_currentRiskEpoch :: "('c, int) read"
  cv_accountState :: "string \<Rightarrow> ('c, AccountState) read"
  cv_mandateState :: "string \<Rightarrow> ('c, MandateSnapshot option) read"
  cv_passportVersions :: "string list \<Rightarrow> ('c, PassportRef list) read"
  cv_marketSession :: "string \<Rightarrow> ('c, SentinelSession) read"
  cv_transactionOutcome :: "string \<Rightarrow> ('c, TxOutcome option) read"

record ExecutionRequest =
  er_runId :: string
  er_account :: string
  er_agentExecutor :: string
  er_mandateId :: string
  er_expectedEpoch :: int
  er_plan :: SentinelPlan

datatype ExecutionOutcome = EX_SUCCESS | EX_REVERTED | EX_UNKNOWN

record ExecutionResult =
  ex_txHash :: string
  ex_outcome :: ExecutionOutcome
  ex_revertReason :: "string option"

type_synonym 'c DelegationGatewayClient = "ExecutionRequest \<Rightarrow> ('c, ExecutionResult) read"

fun planActionBit :: "SentinelPlan \<Rightarrow> nat" where
  "planActionBit (repayPlan a r) = 1"
| "planActionBit (addCollateralPlan a t d) = 2"
| "planActionBit (venueTradePlan t) =
     (case vt_action t of TRADE \<Rightarrow> 3 | HEDGE \<Rightarrow> 4 | CLOSE \<Rightarrow> 5)"
| "planActionBit (supplyVaultPlan t d) = 2"

section \<open>Snapshots\<close>

definition buildSnapshot ::
  "'c SentinelChainView \<Rightarrow> SentinelInstance \<Rightarrow> int \<Rightarrow> string list \<Rightarrow> ('c, SentinelSnapshot) read" where
  "buildSnapshot chain inst takenAt assetIds =
     bindW (cv_block chain) (\<lambda>block.
     bindW (cv_accountState chain (si_account inst)) (\<lambda>account.
     bindW (cv_mandateState chain (si_mandateId inst)) (\<lambda>mandate.
     bindW (cv_currentRiskEpoch chain) (\<lambda>epoch.
     bindW (cv_passportVersions chain assetIds) (\<lambda>passports.
     bindW (cv_marketSession chain (si_account inst)) (\<lambda>marketSession.
       case mandate of
         None \<Rightarrow> lift (Inl (SentinelJsError (JsError (''snapshot: no mandate '' @ si_mandateId inst))))
       | Some m \<Rightarrow> lift (parseSnapshot
           \<lparr>sn_chainId = br_chainId block, sn_blockNumber = br_number block, sn_blockHash = br_hash block,
            sn_account = si_account inst, sn_accountStatus = as_status account,
            sn_recognisedUsd18 = as_recognisedUsd18 account, sn_debtUsd18 = as_debtUsd18 account,
            sn_borrowLimitUsd18 = as_borrowLimitUsd18 account,
            sn_maintenanceLimitUsd18 = as_maintenanceLimitUsd18 account,
            sn_availableBorrowUsd18 = as_availableBorrowUsd18 account,
            sn_reservedUsd18 = as_reservedUsd18 account, sn_bufferBps = as_bufferBps account,
            sn_riskEpoch = epoch,
            sn_mandate = \<lparr>sm_mandateId = si_mandateId inst, sm_live = ms_live m,
               sm_expiresAt = ms_expiresAt m, sm_remainingDebtUsd18 = ms_remainingDebtUsd18 m,
               sm_remainingNotionalUsd18 = ms_remainingNotionalUsd18 m\<rparr>,
            sn_passports = passports, sn_marketSession = Some marketSession,
            sn_instanceConfigHash = si_configHash inst, sn_takenAt = takenAt\<rparr>)))))))"

section \<open>Plan validation\<close>

datatype ValidateOutcome = V_OK | V_CONFIRM string | V_BLOCK RunState string

definition tokensUsd18 :: "string \<Rightarrow> int \<Rightarrow> sentinel_error + int" where
  "tokensUsd18 amountTokens decimals =
     bindR (parseUsd18 amountTokens) (\<lambda>n.
       if 18 - decimals < 0
       then Inl (SentinelJsError (RangeError ''Exponent must be non-negative''))
       else Inr (n * 10 ^ nat (18 - decimals)))"

fun planNotionalUsd18 :: "SentinelPlan \<Rightarrow> sentinel_error + string" where
  "planNotionalUsd18 (repayPlan amountUsd18 repayAll) = Inr amountUsd18"
| "planNotionalUsd18 (venueTradePlan t) = Inr (vt_notionalUsd18 t)"
| "planNotionalUsd18 (addCollateralPlan assetId amountTokens decimals) =
     bindR (tokensUsd18 amountTokens decimals) (\<lambda>v. Inr (show_int v))"
| "planNotionalUsd18 (supplyVaultPlan amountTokens decimals) =
     bindR (tokensUsd18 amountTokens decimals) (\<lambda>v. Inr (show_int v))"

definition confirmationRequired ::
  "ConfirmationPolicy \<Rightarrow> SentinelPlan \<Rightarrow> TriggerEvent \<Rightarrow> string \<Rightarrow> sentinel_error + string option" where
  "confirmationRequired policy plan trigger notionalUsd18 =
     (case policy of
        AUTO_WITHIN_MANDATE \<Rightarrow> Inr None
      | CONFIRM_EVERY_ACTION \<Rightarrow> Inr (Some ''policy requires confirming every action'')
      | CONFIRM_RISK_INCREASING \<Rightarrow>
          Inr (if riskDirection plan = INCREASING
               then Some ''policy requires confirming risk-increasing actions'' else None)
      | CONFIRM_ABOVE_AMOUNT threshold \<Rightarrow>
          bindR (parseUsd18 notionalUsd18) (\<lambda>n. bindR (parseUsd18 threshold) (\<lambda>t.
            Inr (if t < n then Some ''policy requires confirming actions above the threshold''
                 else None)))
      | CONFIRM_WEAK_TRIGGER \<Rightarrow>
          Inr (if \<not> authorityAtLeast (te_authority trigger) VERIFIED_EXTERNAL
               then Some ''policy requires confirming weak-trigger actions'' else None))"

fun session_text :: "SentinelSession \<Rightarrow> string" where
  "session_text SESSION_OPEN = ''OPEN''"
| "session_text SESSION_PRE_MARKET = ''PRE_MARKET''"
| "session_text SESSION_POST_MARKET = ''POST_MARKET''"
| "session_text SESSION_CLOSED = ''CLOSED''"
| "session_text SESSION_UNPROVEN = ''UNKNOWN''"

fun venueAction :: "SentinelPlan \<Rightarrow> bool" where
  "venueAction (venueTradePlan t) = True"
| "venueAction _ = False"

definition validatePlan ::
  "SentinelInstance \<Rightarrow> SentinelSnapshot \<Rightarrow> SentinelPlan \<Rightarrow> TriggerEvent \<Rightarrow> BudgetLedger \<Rightarrow> RiskClass \<Rightarrow>
   int \<Rightarrow> sentinel_error + ValidateOutcome" where
  "validatePlan inst snapshot plan trigger ledger templateRiskClass now =
     (if \<not> sentinelPlanSchema plan then Inl (ZodError ''sentinelPlanSchema'')
      else if riskDirection plan = INCREASING \<and> templateRiskClass = RISK_REDUCING_ONLY
      then Inr (V_BLOCK BLOCKED_BY_POLICY ''risk-reducing-only template produced a risk-increasing plan'')
      else if riskDirection plan = INCREASING \<and> \<not> authorityAtLeast (te_authority trigger) VERIFIED_EXTERNAL
      then Inr (V_CONFIRM ''risk-increasing plan on a weak-authority trigger requires user confirmation (I-66)'')
      else let session = option_default (sn_marketSession snapshot) SESSION_UNPROVEN in
        if venueAction plan \<and> isSessionRestrictive session
        then Inr (V_BLOCK BLOCKED_BY_MARKET_SESSION
                    (''market session '' @ session_text session @ '' is restrictive''))
        else bindR (planNotionalUsd18 plan) (\<lambda>notional.
             bindR (withinBudget (si_budgetPolicy inst) ledger notional ''0'' now) (\<lambda>budget.
               case budget of
                 Some reason \<Rightarrow> Inr (V_BLOCK BLOCKED_BY_BUDGET reason)
               | None \<Rightarrow>
                   bindR (confirmationRequired (si_confirmationPolicy inst) plan trigger notional) (\<lambda>confirm.
                     case confirm of Some reason \<Rightarrow> Inr (V_CONFIRM reason) | None \<Rightarrow> Inr V_OK))))"

section \<open>The authorization check\<close>

datatype AuthorizeOutcome = AUTH_OK | AUTH_BLOCK RunState string

definition mandateGate :: "SentinelPlan \<Rightarrow> int \<Rightarrow> MandateSnapshot option \<Rightarrow> AuthorizeOutcome" where
  "mandateGate plan now mandate = (case mandate of
     None \<Rightarrow> AUTH_BLOCK BLOCKED_BY_MANDATE ''mandate is not live''
   | Some m \<Rightarrow>
       if \<not> ms_live m then AUTH_BLOCK BLOCKED_BY_MANDATE ''mandate is not live''
       else if ms_expiresAt m \<le> now then AUTH_BLOCK BLOCKED_BY_MANDATE ''mandate has expired''
       else if \<not> in_mask (ms_allowedActions m) (planActionBit plan)
       then AUTH_BLOCK BLOCKED_BY_MANDATE ''action is not permitted by the mandate''
       else AUTH_OK)"

definition checkAuthorization ::
  "'c SentinelChainView \<Rightarrow> SentinelInstance \<Rightarrow> SentinelSnapshot \<Rightarrow> SentinelPlan \<Rightarrow> int \<Rightarrow>
   ('c, AuthorizeOutcome) read" where
  "checkAuthorization chain inst snapshot plan now =
     bindW (cv_currentRiskEpoch chain) (\<lambda>epoch.
       if epoch \<noteq> sn_riskEpoch snapshot
       then ret (AUTH_BLOCK BLOCKED_BY_RISK_EPOCH
              (''risk epoch moved '' @ show_int (sn_riskEpoch snapshot) @ '' -> '' @ show_int epoch))
       else bindW (cv_mandateState chain (si_mandateId inst)) (\<lambda>mandate.
         ret (mandateGate plan now mandate)))"

lemma mandateGate_ok_iff:
  "mandateGate plan now mandate = AUTH_OK \<longleftrightarrow>
     (\<exists>m. mandate = Some m \<and> ms_live m \<and> now < ms_expiresAt m
          \<and> in_mask (ms_allowedActions m) (planActionBit plan))"
  by (auto simp: mandateGate_def split: option.splits)

section \<open>The safety-buffer compiler\<close>

record CompileResult =
  cr_plan :: "SentinelPlan option"
  cr_reason :: string

record 'cfg SentinelTemplateRuntime =
  tr_riskClass :: RiskClass
  tr_planSchemaHash :: string
  tr_compile :: "'cfg \<Rightarrow> SentinelSnapshot \<Rightarrow> TriggerEvent \<Rightarrow> sentinel_error + CompileResult"

record SafetyBufferConfig =
  sb_targetBufferBps :: int
  sb_warningBufferBps :: int
  sb_actionBufferBps :: int
  sb_maxRepayPerRunUsd18 :: string
  sb_dailyCapUsd18 :: string
  sb_cooldownSeconds :: int

definition safetyBufferConfigSchema :: "SafetyBufferConfig \<Rightarrow> bool" where
  "safetyBufferConfigSchema c \<longleftrightarrow> bpsSchema (sb_targetBufferBps c) \<and> bpsSchema (sb_warningBufferBps c)
     \<and> bpsSchema (sb_actionBufferBps c) \<and> usd18StringSchema (sb_maxRepayPerRunUsd18 c)
     \<and> usd18StringSchema (sb_dailyCapUsd18 c) \<and> 0 \<le> sb_cooldownSeconds c
     \<and> sb_actionBufferBps c \<le> sb_targetBufferBps c"

definition no_plan :: "string \<Rightarrow> sentinel_error + CompileResult" where
  "no_plan reason = Inr \<lparr>cr_plan = None, cr_reason = reason\<rparr>"

definition safetyBufferCompile ::
  "SafetyBufferConfig \<Rightarrow> SentinelSnapshot \<Rightarrow> TriggerEvent \<Rightarrow> sentinel_error + CompileResult" where
  "safetyBufferCompile c snapshot trigger =
     (if \<not> safetyBufferConfigSchema c then Inl (ZodError ''safetyBufferConfigSchema'')
      else bindR (parseUsd18 (sn_debtUsd18 snapshot)) (\<lambda>debt.
           bindR (parseUsd18 (sn_maintenanceLimitUsd18 snapshot)) (\<lambda>maintenance.
             if debt = 0 \<or> maintenance = 0 then no_plan ''no debt to reduce''
             else if sb_actionBufferBps c < sn_bufferBps snapshot
             then no_plan (''buffer '' @ show_int (sn_bufferBps snapshot)
                    @ ''bps holds above the action threshold '' @ show_int (sb_actionBufferBps c) @ ''bps'')
             else let targetDebt = (maintenance * (10000 - sb_targetBufferBps c)) sdiv 10000;
                      repay = (if targetDebt < debt then debt - targetDebt else 0)
               in bindR (parseUsd18 (sb_maxRepayPerRunUsd18 c)) (\<lambda>cap.
                    let repay = (if cap < repay then cap else repay)
                    in if repay \<le> 0 then no_plan ''computed repay is zero''
                       else bindR (formatUsd18 repay) (\<lambda>amount.
                         Inr \<lparr>cr_plan = Some (repayPlan amount False),
                              cr_reason = ''repay to restore the buffer toward ''
                                @ show_int (sb_targetBufferBps c) @ ''bps''\<rparr>)))))"

definition SAFETY_BUFFER_PLAN_SCHEMA_HASH :: "(string \<Rightarrow> string) \<Rightarrow> string" where
  "SAFETY_BUFFER_PLAN_SCHEMA_HASH keccak = keccak ''usance.sentinel.plan.repay.v1''"

definition safetyBufferRuntime :: "(string \<Rightarrow> string) \<Rightarrow> SafetyBufferConfig SentinelTemplateRuntime" where
  "safetyBufferRuntime keccak = \<lparr>tr_riskClass = RISK_REDUCING_ONLY,
     tr_planSchemaHash = SAFETY_BUFFER_PLAN_SCHEMA_HASH keccak, tr_compile = safetyBufferCompile\<rparr>"

definition templateIdFor :: "(string \<Rightarrow> string) \<Rightarrow> string \<Rightarrow> string \<Rightarrow> string" where
  "templateIdFor keccak publisher slug = keccak (canonicalJson (JObj
     [(''tag'', JStr ''USANCE_SENTINEL_TEMPLATE_V1''), (''publisher'', JStr publisher), (''slug'', JStr slug)]))"

definition safetyBufferManifest ::
  "(string \<Rightarrow> string) \<Rightarrow> string \<Rightarrow> int \<Rightarrow> SentinelTemplateManifest" where
  "safetyBufferManifest keccak publisher createdAt =
     \<lparr>tm_templateId = templateIdFor keccak publisher ''safety-buffer'', tm_version = 1,
      tm_publisher = publisher, tm_name = ''Safety Buffer'',
      tm_description = ''Keeps an account's safety buffer above a target by repaying debt from the agent's own balance. Risk-reducing only - it can never borrow, trade or move collateral.'',
      tm_riskClass = RISK_REDUCING_ONLY,
      tm_requiredActions = maskForActions [REPAY_ACTION, ADD_COLLATERAL_ACTION],
      tm_requiredTriggerClasses = triggerClassMaskFor [RISK_STATE, ONCHAIN_STATE, PASSPORT_STATE, TIME],
      tm_requiredCapabilities = [], tm_requiredVenues = [],
      tm_configSchemaHash = keccak ''usance.sentinel.config.safety-buffer.v1'',
      tm_triggerSchemaHash = keccak ''usance.sentinel.trigger.v1'',
      tm_planSchemaHash = SAFETY_BUFFER_PLAN_SCHEMA_HASH keccak,
      tm_feePolicy = \<lparr>fp_perSuccessfulRunBps = 0, fp_flatPerRunUsd18 = ''0''\<rparr>,
      tm_compilerVersion = ''safety-buffer@1.0.0'', tm_promptVersion = None,
      tm_minimumProtocolVersion = ''1.0.0'', tm_createdAt = createdAt\<rparr>"

definition defaultTemplateRegistry ::
  "(string \<Rightarrow> string) \<Rightarrow> string \<Rightarrow> int \<Rightarrow> (string \<times> SafetyBufferConfig SentinelTemplateRuntime) list" where
  "defaultTemplateRegistry keccak publisher createdAt =
     [(templateIdFor keccak publisher ''safety-buffer'', safetyBufferRuntime keccak)]"

end
