(* ===== verification/Sentinel_Engine.thy ===== *)
theory Sentinel_Engine
  imports Sentinel_Services
begin

text \<open>
  The Sentinel engine of \<open>services/sentinel/src\<close>: the run and budget stores
  (\<open>run-store.ts\<close>, \<open>budget-store.ts\<close>), the loop that drives one trigger through the run's life
  (\<open>engine.ts\<close>) and the supervisor (\<open>supervisor.ts\<close>). A call threads a world: the stored
  runs, the ledgers, the chain, and how often the clock was read. What was written before an exception stays written. Each \<open>await\<close> is one step; the
  calls of one engine invocation are not interleaved with another's.
\<close>

section \<open>Stores\<close>

definition sortByCreated :: "SentinelRun list \<Rightarrow> SentinelRun list" where
  "sortByCreated rs = sort_key sr_createdAt rs"

definition runStore_get :: "(string \<times> SentinelRun) list \<Rightarrow> string \<Rightarrow> SentinelRun option" where
  "runStore_get st runId = map_of st runId"

definition runStore_save ::
  "(string \<times> SentinelRun) list \<Rightarrow> SentinelRun \<Rightarrow> int option option \<Rightarrow>
   sentinel_error + (string \<times> SentinelRun) list" where
  "runStore_save st r expectedUpdatedAt =
     (case expectedUpdatedAt of
        None \<Rightarrow> Inr (AList.update (sr_runId r) r st)
      | Some e \<Rightarrow>
          if map_option sr_updatedAt (map_of st (sr_runId r)) \<noteq> e then Inl (RunConflict (sr_runId r))
          else Inr (AList.update (sr_runId r) r st))"

definition runStore_list :: "(string \<times> SentinelRun) list \<Rightarrow> RunState option \<Rightarrow> SentinelRun list" where
  "runStore_list st state =
     sortByCreated (filter (\<lambda>r. state = None \<or> Some (sr_state r) = state) (map_values st))"

definition runStore_resumable :: "(string \<times> SentinelRun) list \<Rightarrow> SentinelRun list" where
  "runStore_resumable st = filter (\<lambda>r. sr_state r \<in> set RUN_RESUMABLE_STATES) (runStore_list st None)"

definition runStore_forInstance :: "(string \<times> SentinelRun) list \<Rightarrow> string \<Rightarrow> SentinelRun list" where
  "runStore_forInstance st instanceId =
     sort_key (\<lambda>r. - sr_createdAt r) (filter (\<lambda>r. sr_instanceId r = instanceId) (runStore_list st None))"

definition budgetStore_get :: "(string \<times> BudgetLedger) list \<Rightarrow> string \<Rightarrow> BudgetLedger" where
  "budgetStore_get st instanceId = option_default (map_of st instanceId) []"

definition budgetStore_save ::
  "(string \<times> BudgetLedger) list \<Rightarrow> string \<Rightarrow> BudgetLedger \<Rightarrow> (string \<times> BudgetLedger) list" where
  "budgetStore_save st instanceId ledger = AList.update instanceId ledger st"

lemma alist_update_map: "map_of (AList.update k v m) = (map_of m)(k \<mapsto> v)"
  by (rule ext) (simp add: update_conv)

interpretation run_store: versioned_store runStore_get runStore_save sr_runId sr_updatedAt RunConflict
  by unfold_locales
    (auto simp: runStore_get_def [abs_def] runStore_save_def alist_update_map split: option.splits)

section \<open>The world\<close>

record 'c SentinelWorld =
  w_runs :: "(string \<times> SentinelRun) list"
  w_budgets :: "(string \<times> BudgetLedger) list"
  w_chain :: 'c
  w_clock :: nat

type_synonym ('c, 'a) engine = "('c SentinelWorld, sentinel_error, 'a) action"

record ('c, 'cfg) SentinelEngineDeps =
  d_keccak :: "string \<Rightarrow> string"
  d_chain :: "'c SentinelChainView"
  d_gateway :: "'c DelegationGatewayClient"
  d_templates :: "(string \<times> 'cfg SentinelTemplateRuntime) list"
  d_now :: "nat \<Rightarrow> int"

definition now :: "('c, 'cfg) SentinelEngineDeps \<Rightarrow> ('c, int) engine" where
  "now deps = (\<lambda>w. (Inr (d_now deps (w_clock w)), w\<lparr>w_clock := Suc (w_clock w)\<rparr>))"

definition on_chain :: "('c, 'a) read \<Rightarrow> ('c, 'a) engine" where
  "on_chain r = (\<lambda>w. case r (w_chain w) of (a, c) \<Rightarrow> (a, w\<lparr>w_chain := c\<rparr>))"

definition get_run :: "string \<Rightarrow> ('c, SentinelRun option) engine" where
  "get_run runId = (\<lambda>w. (Inr (runStore_get (w_runs w) runId), w))"

definition save_run :: "SentinelRun \<Rightarrow> int option option \<Rightarrow> ('c, SentinelRun) engine" where
  "save_run r expected = (\<lambda>w. case runStore_save (w_runs w) r expected of
       Inl e \<Rightarrow> (Inl e, w) | Inr st \<Rightarrow> (Inr r, w\<lparr>w_runs := st\<rparr>))"

definition get_budget :: "string \<Rightarrow> ('c, BudgetLedger) engine" where
  "get_budget instanceId = (\<lambda>w. (Inr (budgetStore_get (w_budgets w) instanceId), w))"

definition save_budget :: "string \<Rightarrow> BudgetLedger \<Rightarrow> ('c, unit) engine" where
  "save_budget instanceId ledger =
     (\<lambda>w. (Inr (), w\<lparr>w_budgets := budgetStore_save (w_budgets w) instanceId ledger\<rparr>))"

definition openRun ::
  "('c, 'cfg) SentinelEngineDeps \<Rightarrow> string \<Rightarrow> TriggerEvent \<Rightarrow> int \<Rightarrow> ('c, SentinelRun \<times> bool) engine" where
  "openRun deps instanceId trigger triggerVersion =
     bindW (now deps) (\<lambda>t.
       let triggerId = triggerIdFor (d_keccak deps) trigger;
           runId = runIdFor (d_keccak deps) instanceId triggerId triggerVersion
       in bindW (get_run runId) (\<lambda>existing.
            case existing of
              Some r \<Rightarrow> ret (r, False)
            | None \<Rightarrow> bindW (save_run (createRun runId instanceId trigger triggerId triggerVersion t) (Some None))
                        (\<lambda>r. ret (r, True))))"

definition stepRun ::
  "('c, 'cfg) SentinelEngineDeps \<Rightarrow> SentinelRun \<Rightarrow> RunState \<Rightarrow> AdvanceRunOptions \<Rightarrow> ('c, SentinelRun) engine" where
  "stepRun deps run dst options =
     bindW (now deps) (\<lambda>t.
     bindW (lift (advanceRun (d_keccak deps) run dst t options)) (\<lambda>next_run.
       save_run next_run (Some (Some (sr_updatedAt run)))))"

definition because :: "string \<Rightarrow> AdvanceRunOptions" where
  "because reason = no_options\<lparr>ao_reason := Some reason\<rparr>"

section \<open>The loop\<close>

fun instance_state_name :: "InstanceState \<Rightarrow> string" where
  "instance_state_name DRAFT = ''DRAFT''"
| "instance_state_name AWAITING_MANDATE = ''AWAITING_MANDATE''"
| "instance_state_name ARMED = ''ARMED''"
| "instance_state_name PAUSED = ''PAUSED''"
| "instance_state_name BLOCKED = ''BLOCKED''"
| "instance_state_name EXPIRED = ''EXPIRED''"
| "instance_state_name REVOKED = ''REVOKED''"

definition armedGate ::
  "SentinelInstance \<Rightarrow> TriggerEvent \<Rightarrow> int \<Rightarrow> bool \<Rightarrow> string option" where
  "armedGate inst trigger t higherPriorityPending =
     (if si_status inst \<noteq> ARMED
      then Some (''instance is '' @ instance_state_name (si_status inst) @ '', not ARMED'')
      else if t < si_validAfter inst then Some ''instance is not yet active''
      else if si_expiresAt inst \<le> t then Some ''instance has expired''
      else if \<not> triggerMatchesInstance inst trigger
      then Some ''trigger does not match any subscribed spec''
      else if higherPriorityPending
              \<and> priorityRank P4_YIELD_OPPORTUNISTIC \<le> priorityRank (si_priorityClass inst)
      then Some ''a higher-priority run is pending on this account''
      else None)"

definition settle_budget ::
  "(BudgetLedger \<Rightarrow> string \<Rightarrow> sentinel_error + BudgetLedger) \<Rightarrow> string \<Rightarrow> string \<Rightarrow> ('c, unit) engine" where
  "settle_budget settle instanceId runId =
     bindW (get_budget instanceId) (\<lambda>ledger.
     bindW (lift (settle ledger runId)) (\<lambda>ledger'. save_budget instanceId ledger'))"

definition stepAll ::
  "('c, 'cfg) SentinelEngineDeps \<Rightarrow> (RunState \<times> AdvanceRunOptions) list \<Rightarrow> SentinelRun \<Rightarrow> ('c, SentinelRun) engine" where
  "stepAll deps steps run =
     foldr (\<lambda>so k run. bindW (stepRun deps run (fst so) (snd so)) k) steps ret run"

definition settleOutcome ::
  "('c, 'cfg) SentinelEngineDeps \<Rightarrow> SentinelInstance \<Rightarrow> ExecutionResult \<Rightarrow> SentinelRun \<Rightarrow>
   ('c, SentinelRun) engine" where
  "settleOutcome deps inst result run =
     (if ex_outcome result = EX_SUCCESS then
        bindW (settle_budget confirmBudget (si_instanceId inst) (sr_runId run)) (\<lambda>_.
          stepAll deps [(FILLED, no_options), (RECONCILING, no_options), (RECONCILED, no_options),
                        (COMPLETE, no_options)] run)
      else
        bindW (stepRun deps run EXECUTION_UNKNOWN
                 (because (option_default (ex_revertReason result) ''submission outcome unknown''))) (\<lambda>run.
          if ex_outcome result = EX_REVERTED then
            bindW (settle_budget releaseBudget (si_instanceId inst) (sr_runId run)) (\<lambda>_.
              stepAll deps [(RECONCILING, because ''transaction reverted onchain''),
                            (RECONCILED, no_options), (COMPLETE, no_options)] run)
          else ret run))"

definition request_for ::
  "SentinelInstance \<Rightarrow> SentinelSnapshot \<Rightarrow> SentinelPlan \<Rightarrow> SentinelRun \<Rightarrow> ExecutionRequest" where
  "request_for inst snapshot plan run =
     \<lparr>er_runId = sr_runId run, er_account = si_account inst, er_agentExecutor = si_agentExecutor inst,
      er_mandateId = si_mandateId inst, er_expectedEpoch = sn_riskEpoch snapshot, er_plan = plan\<rparr>"

definition execute ::
  "('c, 'cfg) SentinelEngineDeps \<Rightarrow> SentinelInstance \<Rightarrow> SentinelRun \<Rightarrow> SentinelSnapshot \<Rightarrow> SentinelPlan \<Rightarrow>
   ('c, SentinelRun) engine" where
  "execute deps inst run snapshot plan =
     bindW (stepRun deps run SUBMITTING no_options) (\<lambda>run.
     bindW (on_chain (d_gateway deps (request_for inst snapshot plan run))) (\<lambda>result.
     bindW (stepRun deps run SUBMITTED (no_options\<lparr>ao_transaction := Some (ex_txHash result)\<rparr>)) (\<lambda>run.
       settleOutcome deps inst result run)))"

definition authorizeStage ::
  "('c, 'cfg) SentinelEngineDeps \<Rightarrow> SentinelInstance \<Rightarrow> SentinelSnapshot \<Rightarrow> SentinelPlan \<Rightarrow> SentinelRun \<Rightarrow>
   ('c, SentinelRun) engine" where
  "authorizeStage deps inst snapshot plan run =
     bindW (stepRun deps run AUTHORIZATION_CHECKING no_options) (\<lambda>run.
     bindW (now deps) (\<lambda>t.
     bindW (on_chain (checkAuthorization (d_chain deps) inst snapshot plan t)) (\<lambda>auth.
       case auth of
         AUTH_BLOCK state reason \<Rightarrow>
           bindW (settle_budget releaseBudget (si_instanceId inst) (sr_runId run)) (\<lambda>_.
             stepRun deps run state (because reason))
       | AUTH_OK \<Rightarrow>
           bindW (stepRun deps run AUTHORIZED no_options) (\<lambda>run.
             execute deps inst run snapshot plan))))"

definition validateStage ::
  "('c, 'cfg) SentinelEngineDeps \<Rightarrow> SentinelInstance \<Rightarrow> TriggerEvent \<Rightarrow> 'cfg SentinelTemplateRuntime \<Rightarrow>
   SentinelSnapshot \<Rightarrow> SentinelPlan \<Rightarrow> SentinelRun \<Rightarrow> ('c, SentinelRun) engine" where
  "validateStage deps inst trigger runtime snapshot plan run =
     bindW (get_budget (si_instanceId inst)) (\<lambda>ledgerBefore.
     bindW (now deps) (\<lambda>t.
     bindW (lift (validatePlan inst snapshot plan trigger ledgerBefore (tr_riskClass runtime) t)) (\<lambda>v.
       case v of
         V_CONFIRM reason \<Rightarrow> stepRun deps run WAITING_USER_CONFIRMATION (because reason)
       | V_BLOCK state reason \<Rightarrow> stepRun deps run state (because reason)
       | V_OK \<Rightarrow>
           bindW (lift (planNotionalUsd18 plan)) (\<lambda>notional.
           bindW (now deps) (\<lambda>t2.
           bindW (lift (reserveBudget ledgerBefore (sr_runId run) notional ''0'' t2)) (\<lambda>ledger.
           bindW (save_budget (si_instanceId inst) ledger) (\<lambda>_.
             authorizeStage deps inst snapshot plan run)))))))"

definition compileStage ::
  "('c, 'cfg) SentinelEngineDeps \<Rightarrow> SentinelInstance \<Rightarrow> 'cfg \<Rightarrow> TriggerEvent \<Rightarrow> SentinelSnapshot \<Rightarrow>
   SentinelRun \<Rightarrow> ('c, SentinelRun) engine" where
  "compileStage deps inst config trigger snapshot run =
     bindW (stepRun deps run PLANNING no_options) (\<lambda>run.
       case map_of (d_templates deps) (si_templateId inst) of
         None \<Rightarrow> stepRun deps run PLAN_REJECTED (because ''unknown template - no compiler'')
       | Some runtime \<Rightarrow>
           bindW (lift (tr_compile runtime config snapshot trigger)) (\<lambda>compiled.
             case cr_plan compiled of
               None \<Rightarrow> stepRun deps run NO_ACTION_REQUIRED (because (cr_reason compiled))
             | Some plan \<Rightarrow>
                 bindW (stepRun deps run PLAN_READY ((because (cr_reason compiled))\<lparr>ao_plan := Some plan\<rparr>))
                   (\<lambda>run. validateStage deps inst trigger runtime snapshot plan run)))"

definition snapshotStage ::
  "('c, 'cfg) SentinelEngineDeps \<Rightarrow> SentinelInstance \<Rightarrow> 'cfg \<Rightarrow> TriggerEvent \<Rightarrow> string list \<Rightarrow>
   SentinelRun \<Rightarrow> ('c, SentinelRun) engine" where
  "snapshotStage deps inst config trigger assetIds run =
     bindW (stepRun deps run TRIGGER_VALIDATED no_options) (\<lambda>run.
     bindW (stepRun deps run SNAPSHOT_PINNING no_options) (\<lambda>run.
     bindW (now deps) (\<lambda>t.
     bindW (on_chain (buildSnapshot (d_chain deps) inst t assetIds)) (\<lambda>snapshot.
     bindW (stepRun deps run SNAPSHOT_PINNED (no_options\<lparr>ao_snapshot := Some snapshot\<rparr>)) (\<lambda>run.
       compileStage deps inst config trigger snapshot run)))))"

definition processTrigger ::
  "('c, 'cfg) SentinelEngineDeps \<Rightarrow> SentinelInstance \<Rightarrow> 'cfg \<Rightarrow> TriggerEvent \<Rightarrow> int \<Rightarrow> bool \<Rightarrow> string list \<Rightarrow>
   ('c, SentinelRun \<times> bool) engine" where
  "processTrigger deps inst config trigger triggerVersion higherPriorityPending assetIds =
     bindW (openRun deps (si_instanceId inst) trigger triggerVersion) (\<lambda>(run, created).
       if \<not> created then ret (run, False)
       else bindW (now deps) (\<lambda>t.
         bindW (case armedGate inst trigger t higherPriorityPending of
                  Some gate \<Rightarrow> stepRun deps run BLOCKED_BY_POLICY (because gate)
                | None \<Rightarrow> snapshotStage deps inst config trigger assetIds run)
           (\<lambda>run. ret (run, True))))"

section \<open>Reconciliation\<close>

definition reconcile ::
  "('c, 'cfg) SentinelEngineDeps \<Rightarrow> SentinelRun \<Rightarrow> SentinelInstance \<Rightarrow> ('c, SentinelRun) engine" where
  "reconcile deps run inst =
     (if isRunTerminal (sr_state run) then ret run
      else case sr_transactions run of
        [] \<Rightarrow> ret run
      | txs \<Rightarrow>
          bindW (on_chain (cv_transactionOutcome (d_chain deps) (last txs))) (\<lambda>outcome.
            case outcome of
              None \<Rightarrow> ret run
            | Some tx_success \<Rightarrow>
                bindW (settle_budget confirmBudget (si_instanceId inst) (sr_runId run)) (\<lambda>_.
                bindW (if sr_state run = SUBMITTED then stepRun deps run FILLED no_options else ret run) (\<lambda>run.
                bindW (if sr_state run \<noteq> RECONCILING then stepRun deps run RECONCILING no_options
                       else ret run) (\<lambda>run.
                  stepAll deps [(RECONCILED, no_options), (COMPLETE, no_options)] run)))
            | Some tx_reverted \<Rightarrow>
                bindW (settle_budget releaseBudget (si_instanceId inst) (sr_runId run)) (\<lambda>_.
                bindW (if sr_state run = SUBMITTED then stepRun deps run EXECUTION_UNKNOWN no_options
                       else ret run) (\<lambda>run.
                  stepAll deps [(RECONCILING, because ''reverted onchain''), (RECONCILED, no_options),
                                (COMPLETE, no_options)] run))))"

section \<open>The supervisor\<close>

record 'cfg SupervisorItem =
  it_instance :: SentinelInstance
  it_config :: 'cfg
  it_trigger :: TriggerEvent
  it_triggerVersion :: int

definition drainOrder :: "'cfg SupervisorItem list \<Rightarrow> 'cfg SupervisorItem list" where
  "drainOrder queue = sort_key (\<lambda>it. priorityRank (si_priorityClass (it_instance it))) queue"

definition claims :: "'cfg SupervisorItem \<Rightarrow> bool" where
  "claims it \<longleftrightarrow> priorityRank (si_priorityClass (it_instance it)) < priorityRank P4_YIELD_OPPORTUNISTIC"

fun drainItems ::
  "('c, 'cfg) SentinelEngineDeps \<Rightarrow> string list \<Rightarrow> 'cfg SupervisorItem list \<Rightarrow>
   ('c, (SentinelRun \<times> bool) list) engine" where
  "drainItems deps higherPriorityAccounts [] = ret []"
| "drainItems deps higherPriorityAccounts (it # items) =
     bindW (processTrigger deps (it_instance it) (it_config it) (it_trigger it) (it_triggerVersion it)
              (si_account (it_instance it) \<in> set higherPriorityAccounts) []) (\<lambda>r.
     bindW (drainItems deps
              (if claims it then set_add (si_account (it_instance it)) higherPriorityAccounts
               else higherPriorityAccounts) items) (\<lambda>rs. ret (r # rs)))"

definition drain ::
  "('c, 'cfg) SentinelEngineDeps \<Rightarrow> 'cfg SupervisorItem list \<Rightarrow> ('c, (SentinelRun \<times> bool) list) engine" where
  "drain deps queue = drainItems deps [] (drainOrder queue)"

fun recoverRuns ::
  "('c, 'cfg) SentinelEngineDeps \<Rightarrow> (string \<Rightarrow> SentinelInstance option) \<Rightarrow> SentinelRun list \<Rightarrow>
   ('c, SentinelRun list) engine" where
  "recoverRuns deps resolveInstance [] = ret []"
| "recoverRuns deps resolveInstance (run # runs) =
     (case resolveInstance (sr_instanceId run) of
        None \<Rightarrow> recoverRuns deps resolveInstance runs
      | Some inst \<Rightarrow>
          bindW (reconcile deps run inst) (\<lambda>r.
          bindW (recoverRuns deps resolveInstance runs) (\<lambda>rs. ret (r # rs))))"

definition recover ::
  "('c, 'cfg) SentinelEngineDeps \<Rightarrow> (string \<Rightarrow> SentinelInstance option) \<Rightarrow> ('c, SentinelRun list) engine" where
  "recover deps resolveInstance =
     (\<lambda>w. recoverRuns deps resolveInstance (runStore_resumable (w_runs w)) w)"


section \<open>The chain as an interface\<close>

text \<open>
  What the engine relies on: the reads observe the chain without moving it, and the outcome a
  gateway reports is the one the chain later gives for that transaction.
\<close>

locale sentinel_chain =
  fixes view :: "'c SentinelChainView"
    and gateway :: "'c DelegationGatewayClient"
  assumes block_reads: "snd (cv_block view c) = c"
    and epoch_reads: "snd (cv_currentRiskEpoch view c) = c"
    and account_reads: "snd (cv_accountState view a c) = c"
    and mandate_reads: "snd (cv_mandateState view m c) = c"
    and passport_reads: "snd (cv_passportVersions view as c) = c"
    and session_reads: "snd (cv_marketSession view a c) = c"
    and outcome_reads: "snd (cv_transactionOutcome view tx c) = c"
    and success_recorded:
      "gateway req c = (Inr r, c') \<Longrightarrow> ex_outcome r = EX_SUCCESS \<Longrightarrow>
       fst (cv_transactionOutcome view (ex_txHash r) c') = Inr (Some tx_success)"
    and revert_recorded:
      "gateway req c = (Inr r, c') \<Longrightarrow> ex_outcome r = EX_REVERTED \<Longrightarrow>
       fst (cv_transactionOutcome view (ex_txHash r) c') = Inr (Some tx_reverted)"
begin

lemma reads_bind:
  assumes m: "\<And>c. snd (m c) = c" and f: "\<And>a c. snd (f a c) = c"
  shows "snd (bindW m f c) = c"
proof (cases "m c")
  case (Pair r v)
  then have "v = c" using m [of c] by simp
  then show ?thesis using Pair f by (cases r) simp_all
qed

lemma buildSnapshot_reads: "snd (buildSnapshot view inst t as c) = c"
  unfolding buildSnapshot_def
  by (intro reads_bind block_reads epoch_reads account_reads mandate_reads passport_reads session_reads)
    (auto simp: lift_def split: option.split)

lemma checkAuthorization_reads: "snd (checkAuthorization view inst snap plan t c) = c"
  unfolding checkAuthorization_def
  by (rule reads_bind, rule epoch_reads)
    (auto intro!: reads_bind mandate_reads simp: ret_def split: option.split)

lemma reads_bindD:
  assumes m: "\<And>c. snd (m c) = c" and b: "bindW m f c = (Inr b, c')"
  shows "\<exists>a. fst (m c) = Inr a \<and> f a c = (Inr b, c')"
proof (cases "m c")
  case (Pair r v)
  then have "v = c" using m [of c] by simp
  then show ?thesis using Pair b by (cases r) simp_all
qed

lemma checkAuthorization_ok:
  assumes "checkAuthorization view inst snap plan t c = (Inr AUTH_OK, c')"
  shows "fst (cv_currentRiskEpoch view c) = Inr (sn_riskEpoch snap)
    \<and> (\<exists>m. fst (cv_mandateState view (si_mandateId inst) c) = Inr (Some m) \<and> ms_live m
         \<and> t < ms_expiresAt m \<and> in_mask (ms_allowedActions m) (planActionBit plan))"
proof -
  from reads_bindD [OF epoch_reads assms [unfolded checkAuthorization_def]] obtain e where
    e: "fst (cv_currentRiskEpoch view c) = Inr e" and
    body: "(if e \<noteq> sn_riskEpoch snap
       then ret (AUTH_BLOCK BLOCKED_BY_RISK_EPOCH
              (''risk epoch moved '' @ show_int (sn_riskEpoch snap) @ '' -> '' @ show_int e))
       else bindW (cv_mandateState view (si_mandateId inst)) (\<lambda>mandate. ret (mandateGate plan t mandate))) c
     = (Inr AUTH_OK, c')"
    by blast
  have ee: "e = sn_riskEpoch snap" using body by (cases "e = sn_riskEpoch snap") simp_all
  then have "bindW (cv_mandateState view (si_mandateId inst)) (\<lambda>mandate. ret (mandateGate plan t mandate)) c
    = (Inr AUTH_OK, c')" using body by simp
  from reads_bindD [OF mandate_reads this] show ?thesis
    using e ee by (auto simp: mandateGate_ok_iff)
qed

end

section \<open>Steps\<close>

lemma now_run [simp]: "now deps w = (Inr (d_now deps (w_clock w)), w\<lparr>w_clock := Suc (w_clock w)\<rparr>)"
  by (simp add: now_def)

lemma save_run_ok:
  assumes "save_run r expected w = (Inr r', w')"
  shows "r' = r" "w_chain w' = w_chain w" "w_budgets w' = w_budgets w"
    "map_of (w_runs w') = (map_of (w_runs w))(sr_runId r \<mapsto> r)"
  using assms run_store.save_inv(1) [of "w_runs w" r expected]
  by (auto simp: save_run_def runStore_get_def [abs_def] split: sum.splits)

lemma stepRun_ok:
  assumes "stepRun deps run dst opts w = (Inr run', w')"
  shows "advanceRun (d_keccak deps) run dst (d_now deps (w_clock w)) opts = Inr run'"
    and "w_chain w' = w_chain w" "w_budgets w' = w_budgets w"
    and "map_of (w_runs w') = (map_of (w_runs w))(sr_runId run' \<mapsto> run')"
proof -
  from assms obtain n where n: "advanceRun (d_keccak deps) run dst (d_now deps (w_clock w)) opts = Inr n"
    "save_run n (Some (Some (sr_updatedAt run))) (w\<lparr>w_clock := Suc (w_clock w)\<rparr>) = (Inr run', w')"
    by (auto simp: stepRun_def lift_def elim!: bindW_InrE split: sum.splits)
  note s = save_run_ok [OF n(2)]
  show "advanceRun (d_keccak deps) run dst (d_now deps (w_clock w)) opts = Inr run'"
    "w_chain w' = w_chain w" "w_budgets w' = w_budgets w"
    "map_of (w_runs w') = (map_of (w_runs w))(sr_runId run' \<mapsto> run')"
    using n(1) s by auto
qed

lemma set_alist_update: "set (AList.update k v xs) \<subseteq> insert (k, v) (set xs)"
  by (induction xs) auto

lemma stepRun_store:
  assumes "stepRun deps run dst opts w = (Inr run', w')"
  shows "w_runs w' = AList.update (sr_runId run') run' (w_runs w)"
  using assms
  by (auto simp: stepRun_def bindW_def lift_def save_run_def runStore_save_def split: sum.splits option.splits if_splits)

lemma stepRun_succeeds:
  assumes "canTransitionRun (sr_state run) dst" "map_of (w_runs w) (sr_runId run) = Some run"
  shows "\<exists>run' w'. stepRun deps run dst opts w = (Inr run', w') \<and> sr_state run' = dst
    \<and> sr_runId run' = sr_runId run \<and> map_of (w_runs w') (sr_runId run') = Some run'
    \<and> w_budgets w' = w_budgets w \<and> w_chain w' = w_chain w"
proof -
  obtain n where n: "advanceRun (d_keccak deps) run dst (d_now deps (w_clock w)) opts = Inr n"
    using advanceRun_legal [OF assms(1)] by blast
  note i = advanceRun_inv [OF n]
  have "\<exists>st. runStore_save (w_runs w) n (Some (Some (sr_updatedAt run))) = Inr st"
    using assms(2) i(4) by (simp add: runStore_save_def)
  then obtain st where st: "runStore_save (w_runs w) n (Some (Some (sr_updatedAt run))) = Inr st" ..
  have "stepRun deps run dst opts w = (Inr n, w\<lparr>w_clock := Suc (w_clock w), w_runs := st\<rparr>)"
    using n st by (simp add: stepRun_def bindW_def save_run_def lift_def)
  moreover have "map_of st (sr_runId n) = Some n"
    using run_store.save_inv(1) [OF st] by (simp add: runStore_get_def [abs_def])
  ultimately show ?thesis using i by auto
qed

section \<open>What each call leaves alone\<close>

lemma now_preserves [simp]:
  "preserves w_chain (now deps)" "preserves w_budgets (now deps)" "preserves w_runs (now deps)"
  by (simp_all add: preserves_def)

lemma get_run_preserves [simp]: "preserves f (get_run r)"
  by (simp add: preserves_def get_run_def)

lemma get_budget_preserves [simp]: "preserves f (get_budget r)"
  by (simp add: preserves_def get_budget_def)

lemma save_budget_preserves [simp]:
  "preserves w_chain (save_budget i l)" "preserves w_runs (save_budget i l)"
  by (simp_all add: preserves_def save_budget_def)

lemma save_run_preserves [simp]:
  "preserves w_chain (save_run r e)" "preserves w_budgets (save_run r e)"
  by (auto simp: preserves_def save_run_def split: sum.split)

lemma on_chain_preserves [simp]:
  "preserves w_budgets (on_chain r)" "preserves w_runs (on_chain r)"
  by (auto simp: preserves_def on_chain_def split: prod.split)

lemma on_chain_reads: "(\<And>c. snd (r c) = c) \<Longrightarrow> preserves w_chain (on_chain r)"
  by (auto simp: preserves_def on_chain_def split: prod.split) (metis snd_conv)

lemma stepRun_preserves [simp]:
  "preserves w_chain (stepRun deps run dst opts)" "preserves w_budgets (stepRun deps run dst opts)"
  unfolding stepRun_def by (intro preserves_bind; simp)+

lemma settle_preserves [simp]:
  "preserves w_chain (settle_budget f i r)" "preserves w_runs (settle_budget f i r)"
  unfolding settle_budget_def by (intro preserves_bind; simp)+

lemma stepAll_Nil [simp]: "stepAll deps [] run = ret run"
  by (simp add: stepAll_def)

lemma stepAll_Cons [simp]:
  "stepAll deps (s # steps) run = bindW (stepRun deps run (fst s) (snd s)) (stepAll deps steps)"
  by (simp add: stepAll_def [abs_def])

lemma stepAll_preserves:
  "preserves w_chain (stepAll deps steps run)" "preserves w_budgets (stepAll deps steps run)"
  by (induction steps arbitrary: run) (auto intro!: preserves_bind)

lemma openRun_preserves [simp]:
  "preserves w_chain (openRun deps i t v)" "preserves w_budgets (openRun deps i t v)"
  unfolding openRun_def Let_def
  by (intro preserves_bind; auto intro!: preserves_bind split: option.split)+

end
