(* ===== verification/Sentinel_Safety.thy ===== *)
theory Sentinel_Safety
  imports Sentinel_Engine
begin

text \<open>
  What one invocation of the engine (\<open>services/sentinel/src/engine.ts\<close>) guarantees: what has to hold
  before the gateway can move the chain, and what the reservation of a run has become when the
  invocation returns. The first is read off backwards from a moved chain, stage by stage; the second
  forwards over every branch.
\<close>


section \<open>How the chain comes to move\<close>

lemma on_chainE:
  assumes "on_chain r w = (Inr a, v)"
  obtains c where "r (w_chain w) = (Inr a, c)" "v = w\<lparr>w_chain := c\<rparr>"
  using assms by (auto simp: on_chain_def split: prod.splits)

definition authorized ::
  "('c, 'cfg) SentinelEngineDeps \<Rightarrow> SentinelInstance \<Rightarrow> SentinelSnapshot \<Rightarrow> SentinelPlan \<Rightarrow> 'c \<Rightarrow> bool" where
  "authorized deps inst snap plan c \<longleftrightarrow>
     fst (cv_currentRiskEpoch (d_chain deps) c) = Inr (sn_riskEpoch snap)
     \<and> (\<exists>m k. fst (cv_mandateState (d_chain deps) (si_mandateId inst) c) = Inr (Some m) \<and> ms_live m
         \<and> d_now deps k < ms_expiresAt m \<and> in_mask (ms_allowedActions m) (planActionBit plan))"

lemma authorizedI:
  assumes "sentinel_chain (d_chain deps) gw" "now deps w = (Inr t, w')"
    "on_chain (checkAuthorization (d_chain deps) inst snap plan t) w' = (Inr AUTH_OK, w'')"
  shows "authorized deps inst snap plan (w_chain w')"
proof -
  from assms(3) obtain c where
    c: "checkAuthorization (d_chain deps) inst snap plan t (w_chain w') = (Inr AUTH_OK, c)"
    by (rule on_chainE)
  have "t = d_now deps (w_clock w)" using assms(2) by simp
  with sentinel_chain.checkAuthorization_ok [OF assms(1) c] show ?thesis
    unfolding authorized_def by blast
qed

lemma authorizeStage_moves:
  assumes sc: "sentinel_chain (d_chain deps) gw"
    and moves: "w_chain (snd (authorizeStage deps inst snap plan run w)) \<noteq> w_chain w"
  shows "authorized deps inst snap plan (w_chain w)"
  using moves unfolding authorizeStage_def
apply -
proof ((erule moves_bindE [where f = w_chain], rule stepRun_preserves now_preserves
    on_chain_reads [OF sentinel_chain.checkAuthorization_reads [OF sc]])+)
  fix run1 w1 t w2 auth w3
  assume eqs: "w_chain w1 = w_chain w" "now deps w1 = (Inr t, w2)" "w_chain w2 = w_chain w1"
    and auth: "on_chain (checkAuthorization (d_chain deps) inst snap plan t) w2 = (Inr auth, w3)"
    and rest: "w_chain (snd ((case auth of
         AUTH_OK \<Rightarrow> bindW (stepRun deps run1 AUTHORIZED no_options) (\<lambda>run. execute deps inst run snap plan)
       | AUTH_BLOCK state reason \<Rightarrow>
           bindW (settle_budget releaseBudget (si_instanceId inst) (sr_runId run1)) (\<lambda>_.
             stepRun deps run1 state (because reason))) w3)) \<noteq> w_chain w3"
  have "preserves w_chain (bindW (settle_budget releaseBudget (si_instanceId inst) (sr_runId run1))
      (\<lambda>_. stepRun deps run1 state (because reason)))" for state reason
    by (intro preserves_bind) simp_all
  then have "auth = AUTH_OK" using rest by (cases auth) (simp_all add: preserves_def)
  then show ?thesis using authorizedI [OF sc eqs(2)] auth eqs by simp
qed

lemma validateStage_moves:
  assumes sc: "sentinel_chain (d_chain deps) gw"
    and moves: "w_chain (snd (validateStage deps inst trigger runtime snap plan run w)) \<noteq> w_chain w"
  shows "authorized deps inst snap plan (w_chain w)
    \<and> (\<exists>k. validatePlan inst snap plan trigger (budgetStore_get (w_budgets w) (si_instanceId inst))
             (tr_riskClass runtime) (d_now deps k) = Inr V_OK)"
  using moves unfolding validateStage_def
apply -
proof ((erule moves_bindE [where f = w_chain], rule get_budget_preserves now_preserves preserves_lift)+)
  fix ledger w1 t w2 v w3
  assume eqs: "get_budget (si_instanceId inst) w = (Inr ledger, w1)" "w_chain w1 = w_chain w"
      "now deps w1 = (Inr t, w2)" "w_chain w2 = w_chain w1" "w_chain w3 = w_chain w2"
    and v: "lift (validatePlan inst snap plan trigger ledger (tr_riskClass runtime) t) w2 = (Inr v, w3)"
    and rest: "w_chain (snd ((case v of
         V_OK \<Rightarrow>
           bindW (lift (planNotionalUsd18 plan)) (\<lambda>notional.
           bindW (now deps) (\<lambda>t2.
           bindW (lift (reserveBudget ledger (sr_runId run) notional ''0'' t2)) (\<lambda>ledger.
           bindW (save_budget (si_instanceId inst) ledger) (\<lambda>_.
             authorizeStage deps inst snap plan run))))
       | V_CONFIRM reason \<Rightarrow> stepRun deps run WAITING_USER_CONFIRMATION (because reason)
       | V_BLOCK state reason \<Rightarrow> stepRun deps run state (because reason)) w3)) \<noteq> w_chain w3"
  have ok: "v = V_OK"
    using rest stepRun_preserves(1) [of deps run] by (cases v) (auto simp: preserves_def)
  then have "authorized deps inst snap plan (w_chain w3)"
    using rest
    apply simp
    by ((erule moves_bindE [where f = w_chain], rule preserves_lift now_preserves save_budget_preserves)+,
        drule authorizeStage_moves [OF sc], simp)
  moreover have "ledger = budgetStore_get (w_budgets w) (si_instanceId inst)" "t = d_now deps (w_clock w1)"
    "validatePlan inst snap plan trigger ledger (tr_riskClass runtime) t = Inr V_OK"
    using eqs v ok by (auto simp: get_budget_def lift_def)
  ultimately show ?thesis using eqs by auto
qed

definition cleared ::
  "('c, 'cfg) SentinelEngineDeps \<Rightarrow> SentinelInstance \<Rightarrow> 'cfg \<Rightarrow> TriggerEvent \<Rightarrow> SentinelSnapshot \<Rightarrow>
   BudgetLedger \<Rightarrow> 'c \<Rightarrow> bool" where
  "cleared deps inst config trigger snap ledger c \<longleftrightarrow>
     (\<exists>runtime compiled plan k. map_of (d_templates deps) (si_templateId inst) = Some runtime
        \<and> tr_compile runtime config snap trigger = Inr compiled \<and> cr_plan compiled = Some plan
        \<and> validatePlan inst snap plan trigger ledger (tr_riskClass runtime) (d_now deps k) = Inr V_OK
        \<and> authorized deps inst snap plan c)"

lemma compileStage_moves:
  assumes sc: "sentinel_chain (d_chain deps) gw"
    and moves: "w_chain (snd (compileStage deps inst config trigger snap run w)) \<noteq> w_chain w"
  shows "cleared deps inst config trigger snap (budgetStore_get (w_budgets w) (si_instanceId inst)) (w_chain w)"
  using moves unfolding compileStage_def
  apply -
proof ((erule moves_bindE [where f = w_chain], rule stepRun_preserves))
  fix run1 w1
  assume eqs: "stepRun deps run PLANNING no_options w = (Inr run1, w1)" "w_chain w1 = w_chain w"
    and rest: "w_chain (snd ((case map_of (d_templates deps) (si_templateId inst) of
         None \<Rightarrow> stepRun deps run1 PLAN_REJECTED (because ''unknown template - no compiler'')
       | Some runtime \<Rightarrow>
           bindW (lift (tr_compile runtime config snap trigger)) (\<lambda>compiled.
             case cr_plan compiled of
               None \<Rightarrow> stepRun deps run1 NO_ACTION_REQUIRED (because (cr_reason compiled))
             | Some plan \<Rightarrow>
                 bindW (stepRun deps run1 PLAN_READY ((because (cr_reason compiled))\<lparr>ao_plan := Some plan\<rparr>))
                   (\<lambda>run. validateStage deps inst trigger runtime snap plan run))) w1)) \<noteq> w_chain w1"
  note b1 = preservesD [OF stepRun_preserves(2) eqs(1)]
  from rest obtain runtime where rt: "map_of (d_templates deps) (si_templateId inst) = Some runtime"
    using stepRun_preserves(1) [of deps run1]
    by (cases "map_of (d_templates deps) (si_templateId inst)") (simp_all add: preserves_def)
  from rest rt obtain compiled where compiled: "tr_compile runtime config snap trigger = Inr compiled"
    by (cases "tr_compile runtime config snap trigger") simp_all
  from rest rt compiled obtain plan where plan: "cr_plan compiled = Some plan"
    using stepRun_preserves(1) [of deps run1]
    by (cases "cr_plan compiled") (simp_all add: preserves_def)
  from rest rt compiled plan have
    "w_chain (snd (bindW (stepRun deps run1 PLAN_READY ((because (cr_reason compiled))\<lparr>ao_plan := Some plan\<rparr>))
                   (\<lambda>run. validateStage deps inst trigger runtime snap plan run) w1)) \<noteq> w_chain w1"
    by simp
  then obtain run2 w2 where 2: "stepRun deps run1 PLAN_READY ((because (cr_reason compiled))\<lparr>ao_plan := Some plan\<rparr>) w1
      = (Inr run2, w2)" "w_chain w2 = w_chain w1"
    "w_chain (snd (validateStage deps inst trigger runtime snap plan run2 w2)) \<noteq> w_chain w2"
    by (rule moves_bindE [OF _ stepRun_preserves(1)])
  note b2 = preservesD [OF stepRun_preserves(2) 2(1)]
  from validateStage_moves [OF sc 2(3)] show ?thesis
    unfolding cleared_def using rt compiled plan b1 b2 eqs(2) 2(2) by auto
qed

lemma snapshotStage_moves:
  assumes sc: "sentinel_chain (d_chain deps) gw"
    and moves: "w_chain (snd (snapshotStage deps inst config trigger assetIds run w)) \<noteq> w_chain w"
  shows "\<exists>snap k. fst (buildSnapshot (d_chain deps) inst (d_now deps k) assetIds (w_chain w)) = Inr snap
    \<and> cleared deps inst config trigger snap (budgetStore_get (w_budgets w) (si_instanceId inst)) (w_chain w)"
  using moves unfolding snapshotStage_def
  apply -
proof ((erule moves_bindE [where f = w_chain], rule stepRun_preserves now_preserves
    on_chain_reads [OF sentinel_chain.buildSnapshot_reads [OF sc]])+)
  fix run1 w1 run2 w2 t w3 snap w4 run3 w5
  assume 1: "stepRun deps run TRIGGER_VALIDATED no_options w = (Inr run1, w1)" "w_chain w1 = w_chain w"
    and 2: "stepRun deps run1 SNAPSHOT_PINNING no_options w1 = (Inr run2, w2)" "w_chain w2 = w_chain w1"
    and 3: "now deps w2 = (Inr t, w3)" "w_chain w3 = w_chain w2"
    and 4: "on_chain (buildSnapshot (d_chain deps) inst t assetIds) w3 = (Inr snap, w4)" "w_chain w4 = w_chain w3"
    and 5: "stepRun deps run2 SNAPSHOT_PINNED (no_options\<lparr>ao_snapshot := Some snap\<rparr>) w4 = (Inr run3, w5)"
      "w_chain w5 = w_chain w4"
    and rest: "w_chain (snd (compileStage deps inst config trigger snap run3 w5)) \<noteq> w_chain w5"
  have b: "w_budgets w5 = w_budgets w"
    using preservesD [OF stepRun_preserves(2) 1(1)] preservesD [OF stepRun_preserves(2) 2(1)]
      preservesD [OF now_preserves(2) 3(1)] preservesD [OF on_chain_preserves(1) 4(1)]
      preservesD [OF stepRun_preserves(2) 5(1)] by simp
  have "t = d_now deps (w_clock w2)" using 3 by simp
  moreover have "fst (buildSnapshot (d_chain deps) inst t assetIds (w_chain w3)) = Inr snap"
    using 4 by (auto elim: on_chainE)
  ultimately show ?thesis
    using compileStage_moves [OF sc rest] b 1 2 3 4 5 by auto
qed

section \<open>How a run settles its reservation\<close>

definition moved :: "'c SentinelWorld \<Rightarrow> string \<Rightarrow> string \<Rightarrow> BudgetEntryState option \<Rightarrow> 'c SentinelWorld \<Rightarrow> bool" where
  "moved w i r st w' \<longleftrightarrow>
     ledger_moves (budgetStore_get (w_budgets w) i) r st (budgetStore_get (w_budgets w') i)
     \<and> (\<forall>j. j \<noteq> i \<longrightarrow> budgetStore_get (w_budgets w') j = budgetStore_get (w_budgets w) j)"

definition settles_as :: "SentinelRun \<Rightarrow> BudgetEntryState option \<Rightarrow> bool" where
  "settles_as run st \<longleftrightarrow>
     (if sr_state run = COMPLETE
      then st = Some (if FILLED \<in> rt_to ` set (sr_history run) then CONFIRMED else RELEASED)
      else if sr_state run = EXECUTION_UNKNOWN then st = Some RESERVED
      else st = None \<or> st = Some RELEASED)"

definition settled :: "'c SentinelWorld \<Rightarrow> string \<Rightarrow> SentinelRun \<Rightarrow> 'c SentinelWorld \<Rightarrow> bool" where
  "settled w i run w' \<longleftrightarrow> (\<exists>st. moved w i (sr_runId run) st w' \<and> settles_as run st)"

lemma moved_trans: "moved w i r st w1 \<Longrightarrow> moved w1 i r st' w2 \<Longrightarrow> moved w i r st' w2"
  by (auto simp: moved_def ledger_moves_def)

lemma moved_before: "w_budgets w0 = w_budgets w \<Longrightarrow> moved w0 i r st w' = moved w i r st w'"
  by (simp add: moved_def)

lemma moved_after: "w_budgets w' = w_budgets w1 \<Longrightarrow> moved w i r st w' = moved w i r st w1"
  by (simp add: moved_def)

lemma moved_refl:
  "ledger_ok (budgetStore_get (w_budgets w) i) \<Longrightarrow> w_budgets w' = w_budgets w \<Longrightarrow>
   moved w i r (entry_state (budgetStore_get (w_budgets w) i) r) w'"
  by (simp add: moved_def ledger_moves_def)

lemma budget_get_save:
  "budgetStore_get (budgetStore_save b i l) j = (if j = i then l else budgetStore_get b j)"
  by (simp add: budgetStore_get_def budgetStore_save_def update_conv)

lemma settle_run:
  assumes "settle_budget f i r w = (Inr u, w')"
  obtains l' where "f (budgetStore_get (w_budgets w) i) r = Inr l'"
    "w' = w\<lparr>w_budgets := budgetStore_save (w_budgets w) i l'\<rparr>"
  using assms
  by (cases "f (budgetStore_get (w_budgets w) i) r")
    (auto simp: settle_budget_def bindW_def get_budget_def lift_def save_budget_def)

lemma settle_confirm:
  assumes "ledger_ok (budgetStore_get (w_budgets w) i)" "settle_budget confirmBudget i r w = (Inr u, w')"
  shows "moved w i r (Some CONFIRMED) w'"
  using assms(2)
  by (rule settle_run) (use confirmBudget_moves [OF assms(1)] in \<open>auto simp: moved_def budget_get_save\<close>)

lemma settle_release:
  assumes "ledger_ok (budgetStore_get (w_budgets w) i)" "settle_budget releaseBudget i r w = (Inr u, w')"
  shows "moved w i r (Some RELEASED) w'"
  using assms(2)
  by (rule settle_run) (use releaseBudget_moves [OF assms(1)] in \<open>auto simp: moved_def budget_get_save\<close>)

text \<open>What a step does to the run, as far as settlement goes.\<close>

definition went :: "SentinelRun \<Rightarrow> RunState list \<Rightarrow> SentinelRun \<Rightarrow> bool" where
  "went run path run' \<longleftrightarrow> sr_runId run' = sr_runId run
     \<and> map rt_to (sr_history run') = map rt_to (sr_history run) @ path
     \<and> sr_state run' = last (sr_state run # path)"

lemma went_refl: "went run [] run" by (simp add: went_def)

lemma went_trans: "went run p run1 \<Longrightarrow> went run1 q run2 \<Longrightarrow> went run (p @ q) run2"
  by (cases q; cases p) (simp_all add: went_def)

lemma stepRun_went:
  assumes "stepRun deps run dst opts w = (Inr run', w')"
  shows "went run [dst] run'" "w_budgets w' = w_budgets w"
  using advanceRun_inv [OF stepRun_ok(1) [OF assms]] stepRun_ok(3) [OF assms]
  by (simp_all add: went_def)

lemma stepAll_went:
  "stepAll deps steps run w = (Inr run', w') \<Longrightarrow> went run (map fst steps) run' \<and> w_budgets w' = w_budgets w"
proof (induction steps arbitrary: run w)
  case Nil then show ?case by (simp add: went_refl)
next
  case (Cons s steps)
  from Cons.prems obtain run1 w1 where 1: "stepRun deps run (fst s) (snd s) w = (Inr run1, w1)"
    "stepAll deps steps run1 w1 = (Inr run', w')"
    by (auto elim: bindW_InrE)
  from went_trans [OF stepRun_went(1) [OF 1(1)]] Cons.IH [OF 1(2)] stepRun_went(2) [OF 1(1)]
  show ?case by fastforce
qed

lemma settles_as_path:
  "went run p run' \<Longrightarrow> p \<noteq> [] \<Longrightarrow> FILLED \<notin> rt_to ` set (sr_history run) \<Longrightarrow>
   settles_as run' st \<longleftrightarrow>
     (if last p = COMPLETE then st = Some (if FILLED \<in> set p then CONFIRMED else RELEASED)
      else if last p = EXECUTION_UNKNOWN then st = Some RESERVED
      else st = None \<or> st = Some RELEASED)"
proof -
  assume a: "went run p run'" "p \<noteq> []" "FILLED \<notin> rt_to ` set (sr_history run)"
  then have "set (map rt_to (sr_history run')) = set (map rt_to (sr_history run)) \<union> set p"
    by (metis went_def set_append)
  then have "FILLED \<in> rt_to ` set (sr_history run') \<longleftrightarrow> FILLED \<in> set p" using a(3) by auto
  then show ?thesis using a by (simp add: settles_as_def went_def)
qed

lemma settleOutcome_success:
  "ex_outcome result = EX_SUCCESS \<Longrightarrow> settleOutcome deps inst result run =
     bindW (settle_budget confirmBudget (si_instanceId inst) (sr_runId run)) (\<lambda>_.
       stepAll deps [(FILLED, no_options), (RECONCILING, no_options), (RECONCILED, no_options),
                     (COMPLETE, no_options)] run)"
  by (simp add: settleOutcome_def)

lemma settleOutcome_otherwise:
  "ex_outcome result \<noteq> EX_SUCCESS \<Longrightarrow> settleOutcome deps inst result run =
     bindW (stepRun deps run EXECUTION_UNKNOWN
              (because (option_default (ex_revertReason result) ''submission outcome unknown''))) (\<lambda>run.
       if ex_outcome result = EX_REVERTED then
         bindW (settle_budget releaseBudget (si_instanceId inst) (sr_runId run)) (\<lambda>_.
           stepAll deps [(RECONCILING, because ''transaction reverted onchain''),
                         (RECONCILED, no_options), (COMPLETE, no_options)] run)
       else ret run)"
  by (simp add: settleOutcome_def)

lemma settleOutcome_settles:
  assumes ok: "ledger_ok (budgetStore_get (w_budgets w) (si_instanceId inst))"
    and reserved: "entry_state (budgetStore_get (w_budgets w) (si_instanceId inst)) (sr_runId run) = Some RESERVED"
    and unfilled: "FILLED \<notin> rt_to ` set (sr_history run)"
    and run: "settleOutcome deps inst result run w = (Inr run', w')"
  shows "settled w (si_instanceId inst) run' w' \<and> sr_runId run' = sr_runId run"
proof (cases "ex_outcome result = EX_SUCCESS")
  case True
  from run [unfolded settleOutcome_success [OF True]] obtain u w1 where 1: "settle_budget confirmBudget (si_instanceId inst) (sr_runId run) w = (Inr u, w1)"
    "stepAll deps [(FILLED, no_options), (RECONCILING, no_options), (RECONCILED, no_options),
                        (COMPLETE, no_options)] run w1 = (Inr run', w')"
    by (rule bindW_InrE)
  note s = conjunct1 [OF stepAll_went [OF 1(2)], simplified] conjunct2 [OF stepAll_went [OF 1(2)]]
  have "moved w (si_instanceId inst) (sr_runId run) (Some CONFIRMED) w'"
    using settle_confirm [OF ok 1(1)] moved_after [OF s(2)] by blast
  moreover have "settles_as run' (Some CONFIRMED)"
    by (subst settles_as_path [OF s(1) _ unfilled]) simp_all
  moreover have "sr_runId run' = sr_runId run" using s(1) by (simp add: went_def)
  ultimately show ?thesis by (auto simp: settled_def)
next
  case False
  from run [unfolded settleOutcome_otherwise [OF False]] obtain run1 w1 where 1: "stepRun deps run EXECUTION_UNKNOWN
        (because (option_default (ex_revertReason result) ''submission outcome unknown'')) w = (Inr run1, w1)"
    "(if ex_outcome result = EX_REVERTED then
            bindW (settle_budget releaseBudget (si_instanceId inst) (sr_runId run1)) (\<lambda>_.
              stepAll deps [(RECONCILING, because ''transaction reverted onchain''),
                            (RECONCILED, no_options), (COMPLETE, no_options)] run1)
          else ret run1) w1 = (Inr run', w')"
    by (rule bindW_InrE)
  note s1 = stepRun_went [OF 1(1)]
  then have id1: "sr_runId run1 = sr_runId run" by (simp add: went_def)
  show ?thesis
  proof (cases "ex_outcome result = EX_REVERTED")
    case True
    from 1(2) [unfolded if_P [OF True]] obtain u w2 where 2: "settle_budget releaseBudget (si_instanceId inst) (sr_runId run1) w1 = (Inr u, w2)"
      "stepAll deps [(RECONCILING, because ''transaction reverted onchain''),
                            (RECONCILED, no_options), (COMPLETE, no_options)] run1 w2 = (Inr run', w')"
      by (rule bindW_InrE)
    note s = went_trans [OF s1(1) conjunct1 [OF stepAll_went [OF 2(2)]], simplified] conjunct2 [OF stepAll_went [OF 2(2)]]
    have "moved w (si_instanceId inst) (sr_runId run) (Some RELEASED) w'"
    proof -
      have "ledger_ok (budgetStore_get (w_budgets w1) (si_instanceId inst))" using ok s1(2) by simp
      from settle_release [OF this 2(1)] show ?thesis
        unfolding moved_before [OF s1(2)] moved_after [OF s(2)] id1 .
    qed
    moreover have "settles_as run' (Some RELEASED)"
      by (subst settles_as_path [OF s(1) _ unfilled]) simp_all
    moreover have "sr_runId run' = sr_runId run" using s(1) by (simp add: went_def)
    ultimately show ?thesis by (auto simp: settled_def)
  next
    case False
    then have "run' = run1" "w' = w1" using 1(2) by simp_all
    moreover have "settles_as run1 (Some RESERVED)"
      by (subst settles_as_path [OF s1(1) _ unfilled]) simp_all
    moreover have "moved w (si_instanceId inst) (sr_runId run) (Some RESERVED) w1"
      using moved_refl [OF ok s1(2), of "sr_runId run"] reserved by simp
    ultimately show ?thesis using id1 by (auto simp: settled_def)
  qed
qed

lemma settled_run: "moved w i (sr_runId run) st w' \<Longrightarrow> settles_as run st \<Longrightarrow> settled w i run w'"
  by (auto simp: settled_def)

lemma execute_settles:
  assumes ok: "ledger_ok (budgetStore_get (w_budgets w) (si_instanceId inst))"
    and reserved: "entry_state (budgetStore_get (w_budgets w) (si_instanceId inst)) (sr_runId run) = Some RESERVED"
    and unfilled: "FILLED \<notin> rt_to ` set (sr_history run)"
    and run: "execute deps inst run snap plan w = (Inr run', w')"
  shows "settled w (si_instanceId inst) run' w' \<and> sr_runId run' = sr_runId run"
  using run unfolding execute_def
  apply -
proof ((erule bindW_InrE)+)
  fix run1 w1 result w2 run2 w3
  assume 1: "stepRun deps run SUBMITTING no_options w = (Inr run1, w1)"
    and 2: "on_chain (d_gateway deps (request_for inst snap plan run1)) w1 = (Inr result, w2)"
    and 3: "stepRun deps run1 SUBMITTED (no_options\<lparr>ao_transaction := Some (ex_txHash result)\<rparr>) w2 = (Inr run2, w3)"
    and 4: "settleOutcome deps inst result run2 w3 = (Inr run', w')"
  note s = went_trans [OF stepRun_went(1) [OF 1] stepRun_went(1) [OF 3]]
  have b: "w_budgets w3 = w_budgets w"
    using stepRun_went(2) [OF 1] stepRun_went(2) [OF 3] preservesD [OF on_chain_preserves(1) 2] by simp
  have h: "set (map rt_to (sr_history run2)) = set (map rt_to (sr_history run)) \<union> {SUBMITTING, SUBMITTED}"
    using s unfolding went_def by (metis append.simps set_append set_simps(1,2))
  have "FILLED \<notin> rt_to ` set (sr_history run2)" "sr_runId run2 = sr_runId run"
    using h unfilled s by (auto simp: went_def)
  with settleOutcome_settles [OF _ _ _ 4] ok reserved b show ?thesis
    by (auto simp: settled_def moved_def)
qed

definition unfilled :: "SentinelRun \<Rightarrow> bool" where
  "unfilled run \<longleftrightarrow> FILLED \<notin> rt_to ` set (sr_history run)"

lemma unfilled_went: "went run p run' \<Longrightarrow> unfilled run \<Longrightarrow> FILLED \<notin> set p \<Longrightarrow> unfilled run'"
proof -
  assume a: "went run p run'" "unfilled run" "FILLED \<notin> set p"
  then have "set (map rt_to (sr_history run')) = set (map rt_to (sr_history run)) \<union> set p"
    by (metis went_def set_append)
  then show ?thesis using a by (auto simp: unfilled_def)
qed

lemma step_entering:
  assumes "stepRun deps run dst opts w = (Inr run', w')" "unfilled run" "dst \<noteq> FILLED"
  shows "unfilled run'" "w_budgets w' = w_budgets w" "sr_runId run' = sr_runId run"
  using unfilled_went [OF stepRun_went(1) [OF assms(1)] assms(2)] assms(3) stepRun_went [OF assms(1)]
  by (auto simp: went_def)

lemma step_stops:
  assumes "stepRun deps run dst opts w = (Inr run', w')" "unfilled run"
    "dst \<noteq> COMPLETE" "dst \<noteq> EXECUTION_UNKNOWN" "st = None \<or> st = Some RELEASED"
  shows "settles_as run' st"
  using settles_as_path [OF stepRun_went(1) [OF assms(1)]] assms(2-5) by (auto simp: unfilled_def)

lemma authorization_blocks:
  assumes "checkAuthorization chain inst snap plan t c = (Inr (AUTH_BLOCK st r), c')"
  shows "st = BLOCKED_BY_RISK_EPOCH \<or> st = BLOCKED_BY_MANDATE"
proof -
  from assms obtain e c1 where e: "(if e \<noteq> sn_riskEpoch snap
       then ret (AUTH_BLOCK BLOCKED_BY_RISK_EPOCH
              (''risk epoch moved '' @ show_int (sn_riskEpoch snap) @ '' -> '' @ show_int e))
       else bindW (cv_mandateState chain (si_mandateId inst)) (\<lambda>mandate.
         ret (mandateGate plan t mandate))) c1 = (Inr (AUTH_BLOCK st r), c')"
    unfolding checkAuthorization_def by (rule bindW_InrE)
  show ?thesis
  proof (cases "e = sn_riskEpoch snap")
    case True
    with e obtain m where "mandateGate plan t m = AUTH_BLOCK st r"
      by (auto elim: bindW_InrE)
    then show ?thesis by (auto simp: mandateGate_def split: option.splits if_splits)
  qed (use e in auto)
qed

lemma validation_blocks:
  "validatePlan inst snap plan trigger ledger rc t = Inr (V_BLOCK st r) \<Longrightarrow>
   st = BLOCKED_BY_POLICY \<or> st = BLOCKED_BY_MARKET_SESSION \<or> st = BLOCKED_BY_BUDGET"
  by (auto simp: validatePlan_def Let_def bindR_Inr_iff split: if_splits option.splits)

lemma authorizeStage_settles:
  assumes ok: "ledger_ok (budgetStore_get (w_budgets w) (si_instanceId inst))"
    and reserved: "entry_state (budgetStore_get (w_budgets w) (si_instanceId inst)) (sr_runId run) = Some RESERVED"
    and u: "unfilled run"
    and run: "authorizeStage deps inst snap plan run w = (Inr run', w')"
  shows "settled w (si_instanceId inst) run' w' \<and> sr_runId run' = sr_runId run"
  using run unfolding authorizeStage_def
  apply -
proof ((erule bindW_InrE)+)
  fix run1 w1 t w2 auth w3
  assume 1: "stepRun deps run AUTHORIZATION_CHECKING no_options w = (Inr run1, w1)"
    and 2: "now deps w1 = (Inr t, w2)"
    and 3: "on_chain (checkAuthorization (d_chain deps) inst snap plan t) w2 = (Inr auth, w3)"
    and 4: "(case auth of
         AUTH_OK \<Rightarrow> bindW (stepRun deps run1 AUTHORIZED no_options) (\<lambda>run. execute deps inst run snap plan)
       | AUTH_BLOCK state reason \<Rightarrow>
           bindW (settle_budget releaseBudget (si_instanceId inst) (sr_runId run1)) (\<lambda>_.
             stepRun deps run1 state (because reason))) w3 = (Inr run', w')"
  note s1 = step_entering [OF 1 u]
  have b3: "w_budgets w3 = w_budgets w"
    using s1 preservesD [OF now_preserves(2) 2] preservesD [OF on_chain_preserves(1) 3] by simp
  show ?thesis
  proof (cases auth)
    case AUTH_OK
    with 4 obtain run2 w4 where 5: "stepRun deps run1 AUTHORIZED no_options w3 = (Inr run2, w4)"
      "execute deps inst run2 snap plan w4 = (Inr run', w')"
      by (auto elim: bindW_InrE)
    note s2 = step_entering [OF 5(1) s1(1)]
    have "settled w4 (si_instanceId inst) run' w' \<and> sr_runId run' = sr_runId run2"
      using execute_settles [OF _ _ _ 5(2)] ok reserved s1 s2 b3 by (simp add: unfilled_def)
    then show ?thesis using s1 s2 b3 by (auto simp: settled_def moved_def)
  next
    case (AUTH_BLOCK state reason)
    with 4 obtain x w4 where 5: "settle_budget releaseBudget (si_instanceId inst) (sr_runId run1) w3 = (Inr x, w4)"
      "stepRun deps run1 state (because reason) w4 = (Inr run', w')"
      by (auto elim: bindW_InrE)
    have st: "state = BLOCKED_BY_RISK_EPOCH \<or> state = BLOCKED_BY_MANDATE"
      using 3 AUTH_BLOCK by (auto elim!: on_chainE dest: authorization_blocks)
    then have "state \<noteq> FILLED" "state \<noteq> COMPLETE" "state \<noteq> EXECUTION_UNKNOWN" by auto
    note s = step_entering [OF 5(2) s1(1) this(1)] step_stops [OF 5(2) s1(1) this(2,3)]
    have "ledger_ok (budgetStore_get (w_budgets w3) (si_instanceId inst))" using ok b3 by simp
    from settle_release [OF this 5(1)] have "moved w (si_instanceId inst) (sr_runId run1) (Some RELEASED) w'"
      using b3 s(2) by (simp add: moved_def)
    then show ?thesis using s(4) [of "Some RELEASED"] s(3) s1(3) by (auto simp: settled_def)
  qed
qed


lemma stop_settles:
  assumes ok: "ledger_ok (budgetStore_get (w_budgets w) i)"
    and free: "findEntry (budgetStore_get (w_budgets w) i) (sr_runId run) = None" and u: "unfilled run"
    and step: "stepRun deps run dst opts w = (Inr run', w')" "dst \<notin> {FILLED, COMPLETE, EXECUTION_UNKNOWN}"
  shows "settled w i run' w' \<and> sr_runId run' = sr_runId run"
proof -
  have d: "dst \<noteq> FILLED" "dst \<noteq> COMPLETE" "dst \<noteq> EXECUTION_UNKNOWN" using step(2) by auto
  note s = step_entering [OF step(1) u d(1)] step_stops [OF step(1) u d(2,3), of None]
  have "moved w i (sr_runId run) None w'"
    using ok free s(2) by (simp add: moved_def ledger_moves_def entry_state_def)
  then show ?thesis using s by (auto simp: settled_def)
qed

lemma settled_before: "w_budgets w0 = w_budgets w \<Longrightarrow> settled w0 i run w' \<longleftrightarrow> settled w i run w'"
  by (simp add: settled_def moved_def)

lemma validateStage_settles:
  assumes ok: "ledger_ok (budgetStore_get (w_budgets w) (si_instanceId inst))"
    and free: "findEntry (budgetStore_get (w_budgets w) (si_instanceId inst)) (sr_runId run) = None"
    and lower: "is_lower (sr_runId run)" and u: "unfilled run"
    and run: "validateStage deps inst trigger runtime snap plan run w = (Inr run', w')"
  shows "settled w (si_instanceId inst) run' w' \<and> sr_runId run' = sr_runId run"
  using run unfolding validateStage_def
  apply -
proof ((erule bindW_InrE)+)
  fix ledger w1 t w2 v w3
  assume 1: "get_budget (si_instanceId inst) w = (Inr ledger, w1)" and 2: "now deps w1 = (Inr t, w2)"
    and 3: "lift (validatePlan inst snap plan trigger ledger (tr_riskClass runtime) t) w2 = (Inr v, w3)"
    and 4: "(case v of
         V_OK \<Rightarrow>
           bindW (lift (planNotionalUsd18 plan)) (\<lambda>notional.
           bindW (now deps) (\<lambda>t2.
           bindW (lift (reserveBudget ledger (sr_runId run) notional ''0'' t2)) (\<lambda>ledger.
           bindW (save_budget (si_instanceId inst) ledger) (\<lambda>_.
             authorizeStage deps inst snap plan run))))
       | V_CONFIRM reason \<Rightarrow> stepRun deps run WAITING_USER_CONFIRMATION (because reason)
       | V_BLOCK state reason \<Rightarrow> stepRun deps run state (because reason)) w3 = (Inr run', w')"
  have l: "ledger = budgetStore_get (w_budgets w) (si_instanceId inst)" "w1 = w"
    using 1 by (auto simp: get_budget_def)
  have b3: "w_budgets w3 = w_budgets w"
    using l(2) preservesD [OF now_preserves(2) 2] preservesD [OF preserves_lift 3, of w_budgets] by simp
  have stop: "settled w (si_instanceId inst) run' w' \<and> sr_runId run' = sr_runId run"
    if "stepRun deps run dst opts w3 = (Inr run', w')" "dst \<notin> {FILLED, COMPLETE, EXECUTION_UNKNOWN}" for dst opts
    using stop_settles [OF _ _ u that] ok free b3 settled_before [OF b3] by simp
  show ?thesis
  proof (cases v)
    case V_OK
    with 4 have "bindW (lift (planNotionalUsd18 plan)) (\<lambda>notional.
           bindW (now deps) (\<lambda>t2.
           bindW (lift (reserveBudget ledger (sr_runId run) notional ''0'' t2)) (\<lambda>ledger.
           bindW (save_budget (si_instanceId inst) ledger) (\<lambda>_.
             authorizeStage deps inst snap plan run)))) w3 = (Inr run', w')" by simp
    then show ?thesis
      apply -
    proof ((erule bindW_InrE)+)
      fix notional w4 t2 w5 ledger' w6 x w7
      assume 5: "lift (planNotionalUsd18 plan) w3 = (Inr notional, w4)" "now deps w4 = (Inr t2, w5)"
        and 6: "lift (reserveBudget ledger (sr_runId run) notional ''0'' t2) w5 = (Inr ledger', w6)"
        and 7: "save_budget (si_instanceId inst) ledger' w6 = (Inr x, w7)"
        and 8: "authorizeStage deps inst snap plan run w7 = (Inr run', w')"
      have b6: "w_budgets w6 = w_budgets w"
        using b3 preservesD [OF preserves_lift 5(1), of w_budgets] preservesD [OF now_preserves(2) 5(2)]
          preservesD [OF preserves_lift 6, of w_budgets] by simp
      have "reserveBudget ledger (sr_runId run) notional ''0'' t2 = Inr ledger'"
        using 6 by (simp add: lift_def)
      from reserveBudget_moves [OF _ this lower] ok l free
      have lm: "ledger_moves ledger (sr_runId run) (Some RESERVED) ledger'" by (simp add: entry_state_def)
      have w7: "w_budgets w7 = budgetStore_save (w_budgets w) (si_instanceId inst) ledger'"
        using 7 b6 by (auto simp: save_budget_def)
      have mv: "moved w (si_instanceId inst) (sr_runId run) (Some RESERVED) w7"
        using lm l by (simp add: moved_def w7 budget_get_save)
      have "settled w7 (si_instanceId inst) run' w' \<and> sr_runId run' = sr_runId run"
        using authorizeStage_settles [OF _ _ u 8] mv by (simp add: moved_def ledger_moves_def)
      then show ?thesis using moved_trans [OF mv] unfolding settled_def by metis
    qed
  next
    case (V_CONFIRM reason)
    then show ?thesis using 4 by (intro stop [of WAITING_USER_CONFIRMATION "because reason"]) simp_all
  next
    case (V_BLOCK state reason)
    have "validatePlan inst snap plan trigger ledger (tr_riskClass runtime) t = Inr (V_BLOCK state reason)"
      using 3 V_BLOCK by (auto simp: lift_def)
    from validation_blocks [OF this] show ?thesis
      using 4 V_BLOCK by (intro stop [of state "because reason"]) auto
  qed
qed

lemma compileStage_settles:
  assumes ok: "ledger_ok (budgetStore_get (w_budgets w) (si_instanceId inst))"
    and free: "findEntry (budgetStore_get (w_budgets w) (si_instanceId inst)) (sr_runId run) = None"
    and lower: "is_lower (sr_runId run)" and u: "unfilled run"
    and run: "compileStage deps inst config trigger snap run w = (Inr run', w')"
  shows "settled w (si_instanceId inst) run' w' \<and> sr_runId run' = sr_runId run"
  using run unfolding compileStage_def
  apply -
proof (erule bindW_InrE)
  fix run1 w1
  assume 1: "stepRun deps run PLANNING no_options w = (Inr run1, w1)"
    and 2: "(case map_of (d_templates deps) (si_templateId inst) of
         None \<Rightarrow> stepRun deps run1 PLAN_REJECTED (because ''unknown template - no compiler'')
       | Some runtime \<Rightarrow>
           bindW (lift (tr_compile runtime config snap trigger)) (\<lambda>compiled.
             case cr_plan compiled of
               None \<Rightarrow> stepRun deps run1 NO_ACTION_REQUIRED (because (cr_reason compiled))
             | Some plan \<Rightarrow>
                 bindW (stepRun deps run1 PLAN_READY ((because (cr_reason compiled))\<lparr>ao_plan := Some plan\<rparr>))
                   (\<lambda>run. validateStage deps inst trigger runtime snap plan run))) w1 = (Inr run', w')"
  note s1 = step_entering [OF 1 u]
  have ok1: "ledger_ok (budgetStore_get (w_budgets w1) (si_instanceId inst))"
    "findEntry (budgetStore_get (w_budgets w1) (si_instanceId inst)) (sr_runId run1) = None"
    using ok free s1 by simp_all
  have "settled w1 (si_instanceId inst) run' w' \<and> sr_runId run' = sr_runId run1"
  proof (cases "map_of (d_templates deps) (si_templateId inst)")
    case None
    then show ?thesis using 2 by (intro stop_settles [OF ok1 s1(1), where dst = PLAN_REJECTED]) simp_all
  next
    case (Some runtime)
    with 2 obtain compiled where c: "tr_compile runtime config snap trigger = Inr compiled"
      by (cases "tr_compile runtime config snap trigger") simp_all
    from 2 Some c have 3: "(case cr_plan compiled of
               None \<Rightarrow> stepRun deps run1 NO_ACTION_REQUIRED (because (cr_reason compiled))
             | Some plan \<Rightarrow>
                 bindW (stepRun deps run1 PLAN_READY ((because (cr_reason compiled))\<lparr>ao_plan := Some plan\<rparr>))
                   (\<lambda>run. validateStage deps inst trigger runtime snap plan run)) w1 = (Inr run', w')"
      by simp
    show ?thesis
    proof (cases "cr_plan compiled")
      case None
      then show ?thesis using 3 by (intro stop_settles [OF ok1 s1(1), where dst = NO_ACTION_REQUIRED]) simp_all
    next
      case (Some plan)
      with 3 have "bindW (stepRun deps run1 PLAN_READY ((because (cr_reason compiled))\<lparr>ao_plan := Some plan\<rparr>))
                   (\<lambda>run. validateStage deps inst trigger runtime snap plan run) w1 = (Inr run', w')" by simp
      then obtain run2 w2 where
        4: "stepRun deps run1 PLAN_READY ((because (cr_reason compiled))\<lparr>ao_plan := Some plan\<rparr>) w1 = (Inr run2, w2)"
          "validateStage deps inst trigger runtime snap plan run2 w2 = (Inr run', w')"
        by (rule bindW_InrE)
      note s2 = step_entering [OF 4(1) s1(1)]
      from validateStage_settles [OF _ _ _ _ 4(2)] show ?thesis
        using ok1 lower s1 s2 settled_before [OF s2(2)] by simp
    qed
  qed
  then show ?thesis using s1 settled_before [OF s1(2)] by simp
qed

lemma snapshotStage_settles:
  assumes ok: "ledger_ok (budgetStore_get (w_budgets w) (si_instanceId inst))"
    and free: "findEntry (budgetStore_get (w_budgets w) (si_instanceId inst)) (sr_runId run) = None"
    and lower: "is_lower (sr_runId run)" and u: "unfilled run"
    and run: "snapshotStage deps inst config trigger assetIds run w = (Inr run', w')"
  shows "settled w (si_instanceId inst) run' w' \<and> sr_runId run' = sr_runId run"
  using run unfolding snapshotStage_def
  apply -
proof ((erule bindW_InrE)+)
  fix run1 w1 run2 w2 t w3 snap w4 run3 w5
  assume 1: "stepRun deps run TRIGGER_VALIDATED no_options w = (Inr run1, w1)"
    and 2: "stepRun deps run1 SNAPSHOT_PINNING no_options w1 = (Inr run2, w2)"
    and 3: "now deps w2 = (Inr t, w3)"
    and 4: "on_chain (buildSnapshot (d_chain deps) inst t assetIds) w3 = (Inr snap, w4)"
    and 5: "stepRun deps run2 SNAPSHOT_PINNED (no_options\<lparr>ao_snapshot := Some snap\<rparr>) w4 = (Inr run3, w5)"
    and 6: "compileStage deps inst config trigger snap run3 w5 = (Inr run', w')"
  note s1 = step_entering [OF 1 u, simplified]
  note s2 = step_entering [OF 2 s1(1), simplified]
  note s5 = step_entering [OF 5 s2(1), simplified]
  have b: "w_budgets w5 = w_budgets w"
    using s1 s2 s5 preservesD [OF now_preserves(2) 3] preservesD [OF on_chain_preserves(1) 4] by simp
  from compileStage_settles [OF _ _ _ s5(1) 6] ok free lower show ?thesis
    using s1 s2 s5 b settled_before [OF b] by simp
qed
section \<open>A cleared trigger completes\<close>

definition stored :: "'c SentinelWorld \<Rightarrow> SentinelRun \<Rightarrow> bool" where
  "stored w run \<longleftrightarrow> map_of (w_runs w) (sr_runId run) = Some run"

lemma stepRun_goes:
  assumes "canTransitionRun (sr_state run) dst" "stored w run"
  obtains run' w' where "stepRun deps run dst opts w = (Inr run', w')" "went run [dst] run'" "sr_state run' = dst"
    "stored w' run'" "w_budgets w' = w_budgets w" "w_chain w' = w_chain w"
proof -
  from stepRun_succeeds [OF assms [unfolded stored_def], of deps opts] obtain run' w' where
    s: "stepRun deps run dst opts w = (Inr run', w')" "sr_state run' = dst"
      "map_of (w_runs w') (sr_runId run') = Some run'" "w_budgets w' = w_budgets w" "w_chain w' = w_chain w"
    by blast
  show thesis using that [OF s(1) stepRun_went(1) [OF s(1)] s(2) _ s(4,5)] s(3) by (simp add: stored_def)
qed

lemma stepAll_goes:
  assumes "legal_path RUN_TRANSITIONS (sr_state run # map fst steps)" "stored w run"
  shows "\<exists>run' w'. stepAll deps steps run w = (Inr run', w') \<and> went run (map fst steps) run' \<and> stored w' run'
    \<and> w_budgets w' = w_budgets w \<and> w_chain w' = w_chain w"
  using assms
proof (induction steps arbitrary: run w)
  case Nil then show ?case by (simp add: went_refl)
next
  case (Cons s steps)
  then have "canTransitionRun (sr_state run) (fst s)" by (simp add: canTransitionRun_def)
  from stepRun_goes [OF this Cons.prems(2), of deps "snd s"] obtain run1 w1 where
    1: "stepRun deps run (fst s) (snd s) w = (Inr run1, w1)" "went run [fst s] run1" "sr_state run1 = fst s"
      "stored w1 run1" "w_budgets w1 = w_budgets w" "w_chain w1 = w_chain w" .
  from Cons.IH [of run1 w1] Cons.prems(1) 1(3,4) obtain run2 w2 where
    2: "stepAll deps steps run1 w1 = (Inr run2, w2)" "went run1 (map fst steps) run2" "stored w2 run2"
      "w_budgets w2 = w_budgets w1" "w_chain w2 = w_chain w1" by auto
  show ?case using 1 2 went_trans [OF 1(2) 2(2)] by auto
qed

lemma execute_goes:
  assumes "sr_state run = AUTHORIZED" "stored w run"
    and reserved: "entry_state (budgetStore_get (w_budgets w) (si_instanceId inst)) (sr_runId run) = Some RESERVED"
    and gw: "\<And>r. sr_runId r = sr_runId run \<Longrightarrow>
       d_gateway deps (request_for inst snap plan r) (w_chain w) = (Inr result, c')"
    and ok: "ex_outcome result = EX_SUCCESS"
  shows "\<exists>run' w'. execute deps inst run snap plan w = (Inr run', w') \<and> sr_state run' = COMPLETE
    \<and> sr_runId run' = sr_runId run \<and> stored w' run' \<and> w_chain w' = c'"
proof -
  have "canTransitionRun (sr_state run) SUBMITTING" by (simp add: assms(1) canTransitionRun_def)
  from stepRun_goes [OF this assms(2), of deps no_options] obtain run1 w1 where
    1: "stepRun deps run SUBMITTING no_options w = (Inr run1, w1)" "went run [SUBMITTING] run1"
      "sr_state run1 = SUBMITTING" "stored w1 run1" "w_budgets w1 = w_budgets w" "w_chain w1 = w_chain w" .
  have id1: "sr_runId run1 = sr_runId run" using 1(2) by (simp add: went_def)
  let ?w2 = "w1\<lparr>w_chain := c'\<rparr>"
  have g: "on_chain (d_gateway deps (request_for inst snap plan run1)) w1 = (Inr result, ?w2)"
    using gw [OF id1] 1(6) by (simp add: on_chain_def)
  have "canTransitionRun (sr_state run1) SUBMITTED" "stored ?w2 run1"
    using 1(4) by (simp_all add: 1(3) canTransitionRun_def stored_def)
  from stepRun_goes [OF this, of deps "no_options\<lparr>ao_transaction := Some (ex_txHash result)\<rparr>"] obtain run2 w3 where
    2: "stepRun deps run1 SUBMITTED (no_options\<lparr>ao_transaction := Some (ex_txHash result)\<rparr>) ?w2 = (Inr run2, w3)"
      "went run1 [SUBMITTED] run2" "sr_state run2 = SUBMITTED" "stored w3 run2" "w_budgets w3 = w_budgets ?w2"
      "w_chain w3 = w_chain ?w2" .
  have id2: "sr_runId run2 = sr_runId run" using 2(2) id1 by (simp add: went_def)
  have "entry_state (budgetStore_get (w_budgets w3) (si_instanceId inst)) (sr_runId run2) = Some RESERVED"
    using reserved id2 1(5) 2(5) by simp
  from confirm_reserved [OF this] obtain l' where
    l': "confirmBudget (budgetStore_get (w_budgets w3) (si_instanceId inst)) (sr_runId run2) = Inr l'" by blast
  let ?w4 = "w3\<lparr>w_budgets := budgetStore_save (w_budgets w3) (si_instanceId inst) l'\<rparr>"
  have s: "settle_budget confirmBudget (si_instanceId inst) (sr_runId run2) w3 = (Inr (), ?w4)"
    using l' by (simp add: settle_budget_def bindW_def get_budget_def lift_def save_budget_def)
  have "legal_path RUN_TRANSITIONS (sr_state run2 # map fst [(FILLED, no_options), (RECONCILING, no_options),
      (RECONCILED, no_options), (COMPLETE, no_options)])" "stored ?w4 run2"
    using 2(4) by (simp_all add: 2(3) stored_def)
  from stepAll_goes [OF this, of deps] obtain run3 w5 where
    3: "stepAll deps [(FILLED, no_options), (RECONCILING, no_options),
      (RECONCILED, no_options), (COMPLETE, no_options)] run2 ?w4 = (Inr run3, w5)"
      "went run2 [FILLED, RECONCILING, RECONCILED, COMPLETE] run3" "stored w5 run3" "w_chain w5 = w_chain ?w4"
    by auto
  have "execute deps inst run snap plan w = (Inr run3, w5)"
    by (simp add: execute_def 1(1) g 2(1) settleOutcome_success [OF ok] s 3(1) del: stepAll_Cons)
  then show ?thesis using 3 2(6) id2 by (auto simp: went_def)
qed

lemma on_chain_goes:
  assumes "\<And>c. snd (r c) = c" "fst (r (w_chain w)) = Inr a"
  shows "on_chain r w = (Inr a, w)"
  using assms(1) [of "w_chain w"] assms(2) by (cases "r (w_chain w)") (simp add: on_chain_def)

definition goes ::
  "('c, SentinelRun) engine \<Rightarrow> 'c SentinelWorld \<Rightarrow> string \<Rightarrow> 'c \<Rightarrow> bool" where
  "goes m w runId c \<longleftrightarrow> (\<exists>run' w'. m w = (Inr run', w') \<and> sr_state run' = COMPLETE \<and> sr_runId run' = runId
     \<and> stored w' run' \<and> w_chain w' = c)"

lemma goes_bind: "m w = (Inr a, v) \<Longrightarrow> goes (f a) v i c \<Longrightarrow> goes (bindW m f) w i c"
  by (simp add: goes_def)

lemma goes_step:
  assumes "canTransitionRun (sr_state run) dst" "stored w run" "sr_runId run = i"
    and "\<And>run' w'. sr_state run' = dst \<Longrightarrow> stored w' run' \<Longrightarrow> sr_runId run' = i \<Longrightarrow>
       w_budgets w' = w_budgets w \<Longrightarrow> w_chain w' = w_chain w \<Longrightarrow> goes (f run') w' i c"
  shows "goes (bindW (stepRun deps run dst opts) f) w i c"
proof -
  from stepRun_goes [OF assms(1,2), of deps opts] obtain run' w' where
    s: "stepRun deps run dst opts w = (Inr run', w')" "went run [dst] run'" "sr_state run' = dst"
      "stored w' run'" "w_budgets w' = w_budgets w" "w_chain w' = w_chain w" .
  have "sr_runId run' = i" using s(2) assms(3) by (simp add: went_def)
  from assms(4) [OF s(3,4) this s(5,6)] show ?thesis by (simp add: goes_def s(1))
qed

lemma execute_goes':
  assumes "sr_state run = AUTHORIZED" "stored w run" "sr_runId run = i"
    and "entry_state (budgetStore_get (w_budgets w) (si_instanceId inst)) i = Some RESERVED"
    and "\<And>r. sr_runId r = i \<Longrightarrow>
       d_gateway deps (request_for inst snap plan r) (w_chain w) = (Inr result, c')"
    and "ex_outcome result = EX_SUCCESS"
  shows "goes (execute deps inst run snap plan) w i c'"
  using execute_goes [OF assms(1,2) _ _ assms(6), of inst deps snap plan c'] assms(3-5)
  unfolding goes_def by simp

lemma authorizeStage_goes:
  assumes sc: "sentinel_chain (d_chain deps) gw"
    and clock: "\<And>k. d_now deps k = t"
    and run: "sr_state run = PLAN_READY" "stored w run" "sr_runId run = i"
    and reserved: "entry_state (budgetStore_get (w_budgets w) (si_instanceId inst)) i = Some RESERVED"
    and auth: "fst (checkAuthorization (d_chain deps) inst snap plan t (w_chain w)) = Inr AUTH_OK"
    and gw: "\<And>r. sr_runId r = i \<Longrightarrow>
       d_gateway deps (request_for inst snap plan r) (w_chain w) = (Inr result, c')"
    and ok: "ex_outcome result = EX_SUCCESS"
  shows "goes (authorizeStage deps inst snap plan run) w i c'"
  unfolding authorizeStage_def
proof (rule goes_step)
  show "canTransitionRun (sr_state run) AUTHORIZATION_CHECKING" by (simp add: run(1) canTransitionRun_def)
  show "stored w run" "sr_runId run = i" by (fact run)+
  fix run1 w1
  assume 1: "sr_state run1 = AUTHORIZATION_CHECKING" "stored w1 run1" "sr_runId run1 = i"
    "w_budgets w1 = w_budgets w" "w_chain w1 = w_chain w"
  let ?w2 = "w1\<lparr>w_clock := Suc (w_clock w1)\<rparr>"
  have n: "now deps w1 = (Inr t, ?w2)" by (simp add: clock)
  have a: "on_chain (checkAuthorization (d_chain deps) inst snap plan t) ?w2 = (Inr AUTH_OK, ?w2)"
    by (rule on_chain_goes) (simp_all add: sentinel_chain.checkAuthorization_reads [OF sc] 1(5) auth)
  have "goes (bindW (stepRun deps run1 AUTHORIZED no_options) (\<lambda>run. execute deps inst run snap plan)) ?w2 i c'"
  proof (rule goes_step)
    show "canTransitionRun (sr_state run1) AUTHORIZED" by (simp add: 1(1) canTransitionRun_def)
    show "stored ?w2 run1" using 1(2) by (simp add: stored_def)
    show "sr_runId run1 = i" by (fact 1(3))
    fix run2 w3
    assume 2: "sr_state run2 = AUTHORIZED" "stored w3 run2" "sr_runId run2 = i"
      "w_budgets w3 = w_budgets ?w2" "w_chain w3 = w_chain ?w2"
    show "goes (execute deps inst run2 snap plan) w3 i c'"
      by (rule execute_goes' [OF 2(1-3) _ _ ok]) (use reserved gw 1 2 in simp_all)
  qed
  then show "goes (bindW (now deps) (\<lambda>t. bindW (on_chain (checkAuthorization (d_chain deps) inst snap plan t)) (\<lambda>auth.
      case auth of
        AUTH_OK \<Rightarrow> bindW (stepRun deps run1 AUTHORIZED no_options) (\<lambda>run. execute deps inst run snap plan)
      | AUTH_BLOCK state reason \<Rightarrow> bindW (settle_budget releaseBudget (si_instanceId inst) (sr_runId run1))
          (\<lambda>_. stepRun deps run1 state (because reason))))) w1 i c'"
    by (simp add: goes_def a clock)
qed

lemma validateStage_goes:
  assumes sc: "sentinel_chain (d_chain deps) gw"
    and clock: "\<And>k. d_now deps k = t"
    and run: "sr_state run = PLAN_READY" "stored w run" "sr_runId run = i"
    and ledger: "ledger_ok (budgetStore_get (w_budgets w) (si_instanceId inst))"
      "findEntry (budgetStore_get (w_budgets w) (si_instanceId inst)) i = None" "is_lower i"
    and valid: "validatePlan inst snap plan trigger (budgetStore_get (w_budgets w) (si_instanceId inst))
        (tr_riskClass runtime) t = Inr V_OK"
    and reserve: "planNotionalUsd18 plan = Inr notional"
      "reserveBudget (budgetStore_get (w_budgets w) (si_instanceId inst)) i notional ''0'' t = Inr l'"
    and auth: "fst (checkAuthorization (d_chain deps) inst snap plan t (w_chain w)) = Inr AUTH_OK"
    and gw: "\<And>r. sr_runId r = i \<Longrightarrow>
       d_gateway deps (request_for inst snap plan r) (w_chain w) = (Inr result, c')"
    and ok: "ex_outcome result = EX_SUCCESS"
  shows "goes (validateStage deps inst trigger runtime snap plan run) w i c'"
proof -
  let ?l = "budgetStore_get (w_budgets w) (si_instanceId inst)"
  let ?w = "w\<lparr>w_clock := Suc (Suc (w_clock w)), w_budgets := budgetStore_save (w_budgets w) (si_instanceId inst) l'\<rparr>"
  have e: "entry_state l' i = Some RESERVED"
    using reserveBudget_moves [OF ledger(1) reserve(2) ledger(3)] ledger(2)
    by (simp add: ledger_moves_def entry_state_def)
  have st: "stored ?w run" using run(2) by (simp add: stored_def)
  have "goes (authorizeStage deps inst snap plan run) ?w i c'"
    by (rule authorizeStage_goes [OF sc clock run(1) st run(3) _ _ _ ok])
      (use e auth gw in \<open>simp_all add: budget_get_save\<close>)
  then show ?thesis
    by (simp add: goes_def validateStage_def get_budget_def save_budget_def clock valid reserve run(3) bindW_def)
qed

lemma compileStage_goes:
  assumes sc: "sentinel_chain (d_chain deps) gw"
    and clock: "\<And>k. d_now deps k = t"
    and run: "sr_state run = SNAPSHOT_PINNED" "stored w run" "sr_runId run = i"
    and ledger: "ledger_ok (budgetStore_get (w_budgets w) (si_instanceId inst))"
      "findEntry (budgetStore_get (w_budgets w) (si_instanceId inst)) i = None" "is_lower i"
    and template: "map_of (d_templates deps) (si_templateId inst) = Some runtime"
      "tr_compile runtime config snap trigger = Inr compiled" "cr_plan compiled = Some plan"
    and valid: "validatePlan inst snap plan trigger (budgetStore_get (w_budgets w) (si_instanceId inst))
        (tr_riskClass runtime) t = Inr V_OK"
    and reserve: "planNotionalUsd18 plan = Inr notional"
      "reserveBudget (budgetStore_get (w_budgets w) (si_instanceId inst)) i notional ''0'' t = Inr l'"
    and auth: "fst (checkAuthorization (d_chain deps) inst snap plan t (w_chain w)) = Inr AUTH_OK"
    and gw: "\<And>r. sr_runId r = i \<Longrightarrow>
       d_gateway deps (request_for inst snap plan r) (w_chain w) = (Inr result, c')"
    and ok: "ex_outcome result = EX_SUCCESS"
  shows "goes (compileStage deps inst config trigger snap run) w i c'"
  unfolding compileStage_def
proof (rule goes_step)
  show "canTransitionRun (sr_state run) PLANNING" by (simp add: run(1) canTransitionRun_def)
  show "stored w run" "sr_runId run = i" by (fact run)+
  fix run1 w1
  assume 1: "sr_state run1 = PLANNING" "stored w1 run1" "sr_runId run1 = i"
    "w_budgets w1 = w_budgets w" "w_chain w1 = w_chain w"
  have "goes (bindW (stepRun deps run1 PLAN_READY ((because (cr_reason compiled))\<lparr>ao_plan := Some plan\<rparr>))
          (\<lambda>run. validateStage deps inst trigger runtime snap plan run)) w1 i c'"
  proof (rule goes_step)
    show "canTransitionRun (sr_state run1) PLAN_READY" by (simp add: 1(1) canTransitionRun_def)
    show "stored w1 run1" "sr_runId run1 = i" by (fact 1)+
    fix run2 w2
    assume 2: "sr_state run2 = PLAN_READY" "stored w2 run2" "sr_runId run2 = i"
      "w_budgets w2 = w_budgets w1" "w_chain w2 = w_chain w1"
    have b: "w_budgets w2 = w_budgets w" "w_chain w2 = w_chain w" using 1 2 by simp_all
    show "goes (validateStage deps inst trigger runtime snap plan run2) w2 i c'"
      by (rule validateStage_goes [OF sc clock 2(1-3) _ _ _ _ reserve(1) _ _ _ ok, unfolded b,
            OF ledger valid reserve(2) auth gw])
  qed
  then show "goes (case map_of (d_templates deps) (si_templateId inst) of
         None \<Rightarrow> stepRun deps run1 PLAN_REJECTED (because ''unknown template - no compiler'')
       | Some runtime \<Rightarrow>
           bindW (lift (tr_compile runtime config snap trigger)) (\<lambda>compiled.
             case cr_plan compiled of
               None \<Rightarrow> stepRun deps run1 NO_ACTION_REQUIRED (because (cr_reason compiled))
             | Some plan \<Rightarrow>
                 bindW (stepRun deps run1 PLAN_READY ((because (cr_reason compiled))\<lparr>ao_plan := Some plan\<rparr>))
                   (\<lambda>run. validateStage deps inst trigger runtime snap plan run))) w1 i c'"
    by (simp add: template goes_def)
qed

lemma snapshotStage_goes:
  assumes sc: "sentinel_chain (d_chain deps) gw"
    and clock: "\<And>k. d_now deps k = t"
    and run: "sr_state run = TRIGGER_OBSERVED" "stored w run" "sr_runId run = i"
    and ledger: "ledger_ok (budgetStore_get (w_budgets w) (si_instanceId inst))"
      "findEntry (budgetStore_get (w_budgets w) (si_instanceId inst)) i = None" "is_lower i"
    and snap: "fst (buildSnapshot (d_chain deps) inst t assetIds (w_chain w)) = Inr snap"
    and template: "map_of (d_templates deps) (si_templateId inst) = Some runtime"
      "tr_compile runtime config snap trigger = Inr compiled" "cr_plan compiled = Some plan"
    and valid: "validatePlan inst snap plan trigger (budgetStore_get (w_budgets w) (si_instanceId inst))
        (tr_riskClass runtime) t = Inr V_OK"
    and reserve: "planNotionalUsd18 plan = Inr notional"
      "reserveBudget (budgetStore_get (w_budgets w) (si_instanceId inst)) i notional ''0'' t = Inr l'"
    and auth: "fst (checkAuthorization (d_chain deps) inst snap plan t (w_chain w)) = Inr AUTH_OK"
    and gw: "\<And>r. sr_runId r = i \<Longrightarrow>
       d_gateway deps (request_for inst snap plan r) (w_chain w) = (Inr result, c')"
    and ok: "ex_outcome result = EX_SUCCESS"
  shows "goes (snapshotStage deps inst config trigger assetIds run) w i c'"
  unfolding snapshotStage_def
proof (rule goes_step)
  show "canTransitionRun (sr_state run) TRIGGER_VALIDATED" by (simp add: run(1) canTransitionRun_def)
  show "stored w run" "sr_runId run = i" by (fact run)+
  fix run1 w1
  assume 1: "sr_state run1 = TRIGGER_VALIDATED" "stored w1 run1" "sr_runId run1 = i"
    "w_budgets w1 = w_budgets w" "w_chain w1 = w_chain w"
  show "goes (bindW (stepRun deps run1 SNAPSHOT_PINNING no_options) (\<lambda>run.
     bindW (now deps) (\<lambda>t.
     bindW (on_chain (buildSnapshot (d_chain deps) inst t assetIds)) (\<lambda>snapshot.
     bindW (stepRun deps run SNAPSHOT_PINNED (no_options\<lparr>ao_snapshot := Some snapshot\<rparr>)) (\<lambda>run.
       compileStage deps inst config trigger snapshot run))))) w1 i c'"
  proof (rule goes_step)
    show "canTransitionRun (sr_state run1) SNAPSHOT_PINNING" by (simp add: 1(1) canTransitionRun_def)
    show "stored w1 run1" "sr_runId run1 = i" by (fact 1)+
    fix run2 w2
    assume 2: "sr_state run2 = SNAPSHOT_PINNING" "stored w2 run2" "sr_runId run2 = i"
      "w_budgets w2 = w_budgets w1" "w_chain w2 = w_chain w1"
    let ?w3 = "w2\<lparr>w_clock := Suc (w_clock w2)\<rparr>"
    have a: "on_chain (buildSnapshot (d_chain deps) inst t assetIds) ?w3 = (Inr snap, ?w3)"
      by (rule on_chain_goes) (simp_all add: sentinel_chain.buildSnapshot_reads [OF sc] 1(5) 2(5) snap)
    have "goes (bindW (stepRun deps run2 SNAPSHOT_PINNED (no_options\<lparr>ao_snapshot := Some snap\<rparr>)) (\<lambda>run.
       compileStage deps inst config trigger snap run)) ?w3 i c'"
    proof (rule goes_step)
      show "canTransitionRun (sr_state run2) SNAPSHOT_PINNED" by (simp add: 2(1) canTransitionRun_def)
      show "stored ?w3 run2" using 2(2) by (simp add: stored_def)
      show "sr_runId run2 = i" by (fact 2(3))
      fix run3 w4
      assume 3: "sr_state run3 = SNAPSHOT_PINNED" "stored w4 run3" "sr_runId run3 = i"
        "w_budgets w4 = w_budgets ?w3" "w_chain w4 = w_chain ?w3"
      have b: "w_budgets w4 = w_budgets w" "w_chain w4 = w_chain w" using 1 2 3 by simp_all
      show "goes (compileStage deps inst config trigger snap run3) w4 i c'"
        by (rule compileStage_goes [OF sc clock 3(1-3) _ _ _ template _ reserve(1) _ _ _ ok, unfolded b,
              OF ledger valid reserve(2) auth gw])
    qed
    then show "goes (bindW (now deps) (\<lambda>t.
     bindW (on_chain (buildSnapshot (d_chain deps) inst t assetIds)) (\<lambda>snapshot.
     bindW (stepRun deps run2 SNAPSHOT_PINNED (no_options\<lparr>ao_snapshot := Some snapshot\<rparr>)) (\<lambda>run.
       compileStage deps inst config trigger snapshot run)))) w2 i c'"
      by (simp add: goes_def a clock)
  qed
qed

end
