(* ===== verification/Sentinel_Invariants.thy ===== *)
theory Sentinel_Invariants
  imports Sentinel_Safety
begin

text \<open>
  Predicates that hold of the run in hand through every stage of the engine, stated once as an
  interface and interpreted twice: every stored run is a lawful history, and one invocation writes
  no run but its own. Then one delivery of a trigger, split into the duplicate and the new one.
\<close>


section \<open>Predicates on the run in hand\<close>

text \<open>
  A predicate that every step of a run establishes again and that only looks at the stored runs: it
  holds of the run in hand through every stage, and of the store when a stage throws.
\<close>

locale run_invariant =
  fixes J :: "'c SentinelWorld \<Rightarrow> SentinelRun \<Rightarrow> bool"
    and E :: "'c SentinelWorld \<Rightarrow> bool"
    and deps :: "('c, 'cfg) SentinelEngineDeps"
  assumes step: "J w run \<Longrightarrow> stepRun deps run dst opts w = (Inr run', w') \<Longrightarrow> J w' run'"
    and store: "J w run \<Longrightarrow> E w"
    and runs_only: "w_runs w' = w_runs w \<Longrightarrow> J w' run = J w run"
begin

definition carries :: "SentinelRun \<Rightarrow> ('c, SentinelRun) engine \<Rightarrow> bool" where
  "carries run m \<longleftrightarrow> hoare (\<lambda>w. J w run) m (\<lambda>r w. J w r) (\<lambda>e w. E w)"

lemma carries_ret: "carries run (ret run)"
  by (simp add: carries_def hoare_def)

lemma carries_step: "carries run (stepRun deps run dst opts)"
  unfolding carries_def hoare_def
proof (intro allI impI)
  fix w assume J: "J w run"
  show "case stepRun deps run dst opts w of (Inl e, w') \<Rightarrow> E w' | (Inr r, w') \<Rightarrow> J w' r"
  proof (cases "stepRun deps run dst opts w")
    case (Pair r w')
    show ?thesis
    proof (cases r)
      case (Inl e)
      then have "w_runs w' = w_runs w"
        using Pair by (auto simp: stepRun_def bindW_def lift_def save_run_def split: prod.splits sum.splits)
      then show ?thesis using Pair Inl runs_only [of w' w run] store [of w' run] J by simp
    next
      case (Inr run')
      then show ?thesis using Pair step [OF J] by simp
    qed
  qed
qed

lemma carries_step_bind: "(\<And>r. carries r (f r)) \<Longrightarrow> carries run (bindW (stepRun deps run dst opts) f)"
  using carries_step [of run dst opts] unfolding carries_def by (rule hoare_bind)

lemma carries_bind: "carries run m \<Longrightarrow> (\<And>r. carries r (f r)) \<Longrightarrow> carries run (bindW m f)"
  unfolding carries_def by (rule hoare_bind)

lemma carries_other:
  assumes m: "preserves w_runs m" and f: "\<And>a. carries run (f a)"
  shows "carries run (bindW m f)"
proof -
  have "hoare (\<lambda>w. J w run) m (\<lambda>a w. J w run) (\<lambda>e w. E w)"
    unfolding hoare_def
  proof (intro allI impI)
    fix w assume J: "J w run"
    show "case m w of (Inl e, w') \<Rightarrow> E w' | (Inr a, w') \<Rightarrow> J w' run"
    proof (cases "m w")
      case (Pair r w')
      then have "J w' run" using runs_only [OF preservesD [OF m Pair]] J by simp
      then show ?thesis using Pair store by (cases r) auto
    qed
  qed
  then show ?thesis using f unfolding carries_def by (rule hoare_bind)
qed

lemma carries_stepAll: "carries run (stepAll deps steps run)"
  by (induction steps arbitrary: run) (simp_all add: carries_ret carries_step_bind)

lemma carries_settleOutcome: "carries run (settleOutcome deps inst result run)"
  unfolding settleOutcome_def
  by (auto simp del: stepAll_Cons intro!: carries_other carries_stepAll carries_step_bind carries_ret)

lemma carries_execute: "carries run (execute deps inst run snap plan)"
  unfolding execute_def
  by (intro carries_step_bind carries_other carries_settleOutcome) simp

lemma carries_authorize: "carries run (authorizeStage deps inst snap plan run)"
  unfolding authorizeStage_def
  by (intro carries_step_bind carries_other)
    (auto intro!: carries_other carries_step carries_step_bind carries_execute split: AuthorizeOutcome.split)

lemma carries_validate: "carries run (validateStage deps inst trigger runtime snap plan run)"
  unfolding validateStage_def
  by (intro carries_other)
    (auto intro!: carries_other carries_step carries_authorize split: ValidateOutcome.split)

lemma carries_compile: "carries run (compileStage deps inst config trigger snap run)"
  unfolding compileStage_def
  by (intro carries_step_bind)
    (auto intro!: carries_other carries_step carries_step_bind carries_validate split: option.split)

lemma carries_snapshot: "carries run (snapshotStage deps inst config trigger assetIds run)"
  unfolding snapshotStage_def
  by (intro carries_step_bind carries_other carries_compile) simp_all

lemma carries_reconcile: "carries run (reconcile deps run inst)"
  unfolding reconcile_def
  by (auto simp del: stepAll_Cons intro!: carries_ret carries_other carries_stepAll carries_bind carries_step
      split: list.split option.split TxOutcome.split)

lemma carries_run:
  "carries run m \<Longrightarrow> J w run \<Longrightarrow> (case m w of (Inr r, w') \<Rightarrow> J w' r | (Inl e, w') \<Rightarrow> E w')"
  unfolding carries_def hoare_def by (auto split: prod.splits sum.splits)

end

definition runs_ok :: "'c SentinelWorld \<Rightarrow> bool" where
  "runs_ok w \<longleftrightarrow> (\<forall>(i, r) \<in> set (w_runs w). sr_runId r = i \<and> run_ok r)"

interpretation lawful: run_invariant "\<lambda>w r. runs_ok w \<and> run_ok r" runs_ok deps
  for deps :: "('c, 'cfg) SentinelEngineDeps"
proof unfold_locales
  fix w :: "'c SentinelWorld" and run dst opts run' w'
  assume a: "runs_ok w \<and> run_ok run" and s: "stepRun deps run dst opts w = (Inr run', w')"
  have "run_ok run'" using advanceRun_ok [OF _ stepRun_ok(1) [OF s]] a by simp
  then show "runs_ok w' \<and> run_ok run'"
    using a set_alist_update [of "sr_runId run'" run' "w_runs w"]
    by (auto simp: runs_ok_def stepRun_store [OF s])
qed (auto simp: runs_ok_def)

interpretation own_run: run_invariant
    "\<lambda>w r. sr_runId r = i \<and> map_of (w_runs w) = R(i \<mapsto> r)" "\<lambda>w. \<exists>r. map_of (w_runs w) = R(i \<mapsto> r)" deps
  for R :: "string \<rightharpoonup> SentinelRun" and i :: string and deps :: "('c, 'cfg) SentinelEngineDeps"
proof unfold_locales
  fix w :: "'c SentinelWorld" and run dst opts run' w'
  assume a: "sr_runId run = i \<and> map_of (w_runs w) = R(i \<mapsto> run)"
    and s: "stepRun deps run dst opts w = (Inr run', w')"
  have "sr_runId run' = i" using a advanceRun_inv(4) [OF stepRun_ok(1) [OF s]] by simp
  then show "sr_runId run' = i \<and> map_of (w_runs w') = R(i \<mapsto> run')"
    using a stepRun_ok(4) [OF s] by simp
qed auto

section \<open>One delivery\<close>

definition run_id :: "('c, 'cfg) SentinelEngineDeps \<Rightarrow> SentinelInstance \<Rightarrow> TriggerEvent \<Rightarrow> int \<Rightarrow> string" where
  "run_id deps inst trigger v =
     runIdFor (d_keccak deps) (si_instanceId inst) (triggerIdFor (d_keccak deps) trigger) v"

definition fresh_run ::
  "('c, 'cfg) SentinelEngineDeps \<Rightarrow> SentinelInstance \<Rightarrow> TriggerEvent \<Rightarrow> int \<Rightarrow> int \<Rightarrow> SentinelRun" where
  "fresh_run deps inst trigger v t = createRun (run_id deps inst trigger v) (si_instanceId inst) trigger
     (triggerIdFor (d_keccak deps) trigger) v t"

lemma openRun_existing:
  "map_of (w_runs w) (run_id deps inst trigger v) = Some r \<Longrightarrow>
   openRun deps (si_instanceId inst) trigger v w = (Inr (r, False), w\<lparr>w_clock := Suc (w_clock w)\<rparr>)"
  by (simp add: openRun_def run_id_def Let_def get_run_def runStore_get_def bindW_def)

lemma openRun_new:
  assumes "map_of (w_runs w) (run_id deps inst trigger v) = None"
  shows "openRun deps (si_instanceId inst) trigger v w
    = (Inr (fresh_run deps inst trigger v (d_now deps (w_clock w)), True),
       w\<lparr>w_clock := Suc (w_clock w),
         w_runs := AList.update (run_id deps inst trigger v)
           (fresh_run deps inst trigger v (d_now deps (w_clock w))) (w_runs w)\<rparr>)"
  using assms
  by (simp add: openRun_def run_id_def Let_def get_run_def runStore_get_def bindW_def save_run_def
      runStore_save_def fresh_run_def createRun_def)

definition driveRun ::
  "('c, 'cfg) SentinelEngineDeps \<Rightarrow> SentinelInstance \<Rightarrow> 'cfg \<Rightarrow> TriggerEvent \<Rightarrow> bool \<Rightarrow> string list \<Rightarrow>
   SentinelRun \<Rightarrow> ('c, SentinelRun) engine" where
  "driveRun deps inst config trigger pending assetIds run =
     bindW (now deps) (\<lambda>t.
       case armedGate inst trigger t pending of
         Some gate \<Rightarrow> stepRun deps run BLOCKED_BY_POLICY (because gate)
       | None \<Rightarrow> snapshotStage deps inst config trigger assetIds run)"

lemma processTrigger_existing:
  "map_of (w_runs w) (run_id deps inst trigger v) = Some r \<Longrightarrow>
   processTrigger deps inst config trigger v pending assetIds w
     = (Inr (r, False), w\<lparr>w_clock := Suc (w_clock w)\<rparr>)"
  by (simp add: processTrigger_def openRun_existing bindW_def)

lemma processTrigger_new:
  assumes "map_of (w_runs w) (run_id deps inst trigger v) = None"
    and "w0 = w\<lparr>w_clock := Suc (w_clock w), w_runs := AList.update (run_id deps inst trigger v)
           (fresh_run deps inst trigger v (d_now deps (w_clock w))) (w_runs w)\<rparr>"
  shows "processTrigger deps inst config trigger v pending assetIds w
    = (case driveRun deps inst config trigger pending assetIds
              (fresh_run deps inst trigger v (d_now deps (w_clock w))) w0 of
         (Inr r, w') \<Rightarrow> (Inr (r, True), w') | (Inl e, w') \<Rightarrow> (Inl e, w'))"
  by (simp add: processTrigger_def openRun_new [OF assms(1)] assms(2) driveRun_def bindW_def
      split: prod.splits sum.splits option.splits)
end
