(* ===== verification/Sentinel_Delivery.thy ===== *)
theory Sentinel_Delivery
  imports Sentinel_Invariants
begin

text \<open>
  The engine's entry points as a whole (\<open>processTrigger\<close> and \<open>reconcile\<close> of
  \<open>services/sentinel/src/engine.ts\<close>, \<open>drain\<close> and \<open>recover\<close> of \<open>supervisor.ts\<close>): what they write,
  what they need, and what becomes of the reservation. The section on reconciliation also records
  two interrupted runs that recovery cannot finish.
\<close>

section \<open>Deliveries\<close>

lemma driveRun_carries_own: "own_run.carries i R run (driveRun deps inst config trigger pending assetIds run)"
  unfolding driveRun_def
proof (rule own_run.carries_other, rule now_preserves)
  fix t
  show "own_run.carries i R run (case armedGate inst trigger t pending of
         Some gate \<Rightarrow> stepRun deps run BLOCKED_BY_POLICY (because gate)
       | None \<Rightarrow> snapshotStage deps inst config trigger assetIds run)"
    by (cases "armedGate inst trigger t pending") (simp_all add: own_run.carries_step own_run.carries_snapshot)
qed

lemma driveRun_carries_lawful: "lawful.carries run (driveRun deps inst config trigger pending assetIds run)"
  unfolding driveRun_def
proof (rule lawful.carries_other, rule now_preserves)
  fix t
  show "lawful.carries run (case armedGate inst trigger t pending of
         Some gate \<Rightarrow> stepRun deps run BLOCKED_BY_POLICY (because gate)
       | None \<Rightarrow> snapshotStage deps inst config trigger assetIds run)"
    by (cases "armedGate inst trigger t pending") (simp_all add: lawful.carries_step lawful.carries_snapshot)
qed

lemma driveRun_own:
  assumes "sr_runId run = i" "map_of (w_runs w) = R(i \<mapsto> run)"
  shows "case driveRun deps inst config trigger pending assetIds run w of
      (Inr r, w') \<Rightarrow> sr_runId r = i \<and> map_of (w_runs w') = R(i \<mapsto> r)
    | (Inl e, w') \<Rightarrow> \<exists>r. map_of (w_runs w') = R(i \<mapsto> r)"
  by (rule own_run.carries_run [OF driveRun_carries_own]) (use assms in simp)

lemma driveRun_lawful:
  assumes "runs_ok w" "run_ok run"
  shows "runs_ok (snd (driveRun deps inst config trigger pending assetIds run w))"
  using lawful.carries_run [OF driveRun_carries_lawful conjI [OF assms], of deps inst config trigger pending assetIds]
  by (simp split: prod.splits sum.splits)

lemma fresh_run_id: "sr_runId (fresh_run deps inst trigger v t) = run_id deps inst trigger v"
  by (simp add: fresh_run_def createRun_def)

lemma processTrigger_runs:
  "\<exists>r. map_of (w_runs (snd (processTrigger deps inst config trigger v pending assetIds w)))
         = (map_of (w_runs w))(run_id deps inst trigger v \<mapsto> r)
     \<and> (\<forall>run c. fst (processTrigger deps inst config trigger v pending assetIds w) = Inr (run, c) \<longrightarrow> run = r)"
proof (cases "map_of (w_runs w) (run_id deps inst trigger v)")
  case (Some r)
  then show ?thesis by (auto simp: processTrigger_existing intro!: exI [of _ r])
next
  case None
  let ?i = "run_id deps inst trigger v"
  let ?run = "fresh_run deps inst trigger v (d_now deps (w_clock w))"
  let ?w = "w\<lparr>w_clock := Suc (w_clock w), w_runs := AList.update ?i ?run (w_runs w)\<rparr>"
  have "map_of (w_runs ?w) = (map_of (w_runs w))(?i \<mapsto> ?run)" by (simp add: alist_update_map)
  from driveRun_own [OF fresh_run_id this, of deps inst config trigger pending assetIds]
  show ?thesis unfolding processTrigger_new [OF None refl]
    by (auto split: prod.splits sum.splits)
qed

lemma processTrigger_lawful:
  assumes "runs_ok w"
  shows "runs_ok (snd (processTrigger deps inst config trigger v pending assetIds w))"
proof (cases "map_of (w_runs w) (run_id deps inst trigger v)")
  case (Some r)
  then show ?thesis using assms by (simp add: processTrigger_existing runs_ok_def)
next
  case None
  let ?i = "run_id deps inst trigger v"
  let ?run = "fresh_run deps inst trigger v (d_now deps (w_clock w))"
  let ?w = "w\<lparr>w_clock := Suc (w_clock w), w_runs := AList.update ?i ?run (w_runs w)\<rparr>"
  have ok: "run_ok ?run" by (simp add: fresh_run_def createRun_ok)
  then have "runs_ok ?w" using assms set_alist_update [of ?i ?run "w_runs w"]
    by (auto simp: runs_ok_def fresh_run_id)
  from driveRun_lawful [OF this ok, of deps inst config trigger pending assetIds]
  show ?thesis unfolding processTrigger_new [OF None refl]
    by (auto split: prod.splits sum.splits)
qed

lemma keeps_processTrigger: "keeps runs_ok (processTrigger deps inst config trigger v pending assetIds)"
  unfolding keeps_def by (simp add: processTrigger_lawful)

lemma keeps_drainItems: "keeps runs_ok (drainItems deps accounts items)"
  by (induction items arbitrary: accounts) (simp_all add: keeps_bind keeps_processTrigger)

lemma keeps_recoverRuns:
  fixes deps :: "('c, 'cfg) SentinelEngineDeps"
  shows "list_all run_ok runs \<Longrightarrow> keeps runs_ok (recoverRuns deps resolve runs)"
proof (induction runs)
  case (Cons r rs)
  have "keeps runs_ok (reconcile deps r inst)" for inst
    unfolding keeps_def
  proof (intro allI impI)
    fix w :: "'c SentinelWorld"
    assume w: "runs_ok w"
    have "run_ok r" using Cons.prems by simp
    have "lawful.carries r (reconcile deps r inst)" by (rule lawful.carries_reconcile)
    from lawful.carries_run [OF this conjI [OF w \<open>run_ok r\<close>]]
    show "runs_ok (snd (reconcile deps r inst w))" by (simp split: prod.splits sum.splits)
  qed
  then show ?case using Cons by (auto intro!: keeps_bind split: option.split)
qed simp

lemma resumable_lawful: "runs_ok w \<Longrightarrow> list_all run_ok (runStore_resumable (w_runs w))"
  by (auto simp: list_all_iff runStore_resumable_def runStore_list_def sortByCreated_def runs_ok_def map_values_def)

lemma armedGate_None:
  assumes "armedGate inst trigger t pending = None"
  shows "si_status inst = ARMED" "si_validAfter inst \<le> t" "t < si_expiresAt inst"
    "triggerMatchesInstance inst trigger"
    "\<not> (pending \<and> si_priorityClass inst = P4_YIELD_OPPORTUNISTIC)"
  using assms
  by (auto simp: armedGate_def split: if_splits)

lemma processTrigger_created:
  assumes "processTrigger deps inst config trigger v pending assetIds w = (Inr (run, True), w')"
  obtains w0 where "map_of (w_runs w) (run_id deps inst trigger v) = None"
    "w_chain w0 = w_chain w" "w_budgets w0 = w_budgets w" "w_clock w0 = Suc (w_clock w)"
    "driveRun deps inst config trigger pending assetIds
       (fresh_run deps inst trigger v (d_now deps (w_clock w))) w0 = (Inr run, w')"
proof (cases "map_of (w_runs w) (run_id deps inst trigger v)")
  case (Some r)
  then show thesis using assms by (simp add: processTrigger_existing)
next
  case None
  show thesis
    using assms that [OF None, of "w\<lparr>w_clock := Suc (w_clock w),
        w_runs := AList.update (run_id deps inst trigger v)
          (fresh_run deps inst trigger v (d_now deps (w_clock w))) (w_runs w)\<rparr>"]
    unfolding processTrigger_new [OF None refl] by (auto split: prod.splits sum.splits)
qed

lemma processTrigger_moves:
  assumes sc: "sentinel_chain (d_chain deps) gw"
    and moves: "w_chain (snd (processTrigger deps inst config trigger v pending assetIds w)) \<noteq> w_chain w"
  shows "map_of (w_runs w) (run_id deps inst trigger v) = None
    \<and> armedGate inst trigger (d_now deps (Suc (w_clock w))) pending = None
    \<and> (\<exists>snap k. fst (buildSnapshot (d_chain deps) inst (d_now deps k) assetIds (w_chain w)) = Inr snap
        \<and> cleared deps inst config trigger snap (budgetStore_get (w_budgets w) (si_instanceId inst)) (w_chain w))"
proof (cases "map_of (w_runs w) (run_id deps inst trigger v)")
  case (Some r)
  then show ?thesis using moves by (simp add: processTrigger_existing)
next
  case None
  let ?w = "w\<lparr>w_clock := Suc (w_clock w), w_runs := AList.update (run_id deps inst trigger v)
      (fresh_run deps inst trigger v (d_now deps (w_clock w))) (w_runs w)\<rparr>"
  let ?w' = "?w\<lparr>w_clock := Suc (Suc (w_clock w))\<rparr>"
  let ?run = "fresh_run deps inst trigger v (d_now deps (w_clock w))"
  have m: "w_chain (snd (driveRun deps inst config trigger pending assetIds ?run ?w)) \<noteq> w_chain w"
    using moves unfolding processTrigger_new [OF None refl] by (auto split: prod.splits sum.splits)
  have d: "driveRun deps inst config trigger pending assetIds ?run ?w
    = (case armedGate inst trigger (d_now deps (Suc (w_clock w))) pending of
         Some gate \<Rightarrow> stepRun deps ?run BLOCKED_BY_POLICY (because gate)
       | None \<Rightarrow> snapshotStage deps inst config trigger assetIds ?run) ?w'"
    by (simp add: driveRun_def bindW_def)
  show ?thesis
  proof (cases "armedGate inst trigger (d_now deps (Suc (w_clock w))) pending")
    case None
    with m d have "w_chain (snd (snapshotStage deps inst config trigger assetIds ?run ?w')) \<noteq> w_chain ?w'"
      by simp
    from snapshotStage_moves [OF sc this] show ?thesis using \<open>map_of _ _ = None\<close> None by simp
  next
    case (Some gate)
    then show ?thesis
      using m d stepRun_preserves(1) [of deps ?run BLOCKED_BY_POLICY "because gate"] by (simp add: preserves_def)
  qed
qed

lemma processTrigger_settles:
  assumes ok: "ledger_ok (budgetStore_get (w_budgets w) (si_instanceId inst))"
    and free: "findEntry (budgetStore_get (w_budgets w) (si_instanceId inst)) (run_id deps inst trigger v) = None"
    and lower: "is_lower (run_id deps inst trigger v)"
    and run: "processTrigger deps inst config trigger v pending assetIds w = (Inr (run, True), w')"
  shows "settled w (si_instanceId inst) run w' \<and> sr_runId run = run_id deps inst trigger v"
  using run
proof (rule processTrigger_created)
  fix w0
  let ?run = "fresh_run deps inst trigger v (d_now deps (w_clock w))"
  assume w0: "w_chain w0 = w_chain w" "w_budgets w0 = w_budgets w"
    and d: "driveRun deps inst config trigger pending assetIds ?run w0 = (Inr run, w')"
  let ?w1 = "w0\<lparr>w_clock := Suc (w_clock w0)\<rparr>"
  have u: "unfilled ?run" by (simp add: unfilled_def fresh_run_def createRun_def)
  have ok1: "ledger_ok (budgetStore_get (w_budgets ?w1) (si_instanceId inst))"
    "findEntry (budgetStore_get (w_budgets ?w1) (si_instanceId inst)) (sr_runId ?run) = None"
    using ok free w0 by (simp_all add: fresh_run_id)
  have b: "w_budgets ?w1 = w_budgets w" using w0 by simp
  have "settled ?w1 (si_instanceId inst) run w' \<and> sr_runId run = sr_runId ?run"
  proof (cases "armedGate inst trigger (d_now deps (w_clock w0)) pending")
    case None
    then have "snapshotStage deps inst config trigger assetIds ?run ?w1 = (Inr run, w')"
      using d by (simp add: driveRun_def bindW_def)
    then show ?thesis using snapshotStage_settles [OF ok1 _ u] lower by (simp add: fresh_run_id)
  next
    case (Some gate)
    then have "stepRun deps ?run BLOCKED_BY_POLICY (because gate) ?w1 = (Inr run, w')"
      using d by (simp add: driveRun_def bindW_def)
    from stop_settles [OF ok1 u this] show ?thesis by simp
  qed
  then show ?thesis using settled_before [OF b] by (simp add: fresh_run_id)
qed

lemma processTrigger_goes:
  fixes deps :: "('c, 'cfg) SentinelEngineDeps"
  assumes sc: "sentinel_chain (d_chain deps) gw"
    and clock: "\<And>k. d_now deps k = t"
    and new: "map_of (w_runs w) (run_id deps inst trigger v) = None"
    and gate: "armedGate inst trigger t pending = None"
    and ledger: "ledger_ok (budgetStore_get (w_budgets w) (si_instanceId inst))"
      "findEntry (budgetStore_get (w_budgets w) (si_instanceId inst)) (run_id deps inst trigger v) = None"
      "is_lower (run_id deps inst trigger v)"
    and snap: "fst (buildSnapshot (d_chain deps) inst t assetIds (w_chain w)) = Inr snap"
    and template: "map_of (d_templates deps) (si_templateId inst) = Some runtime"
      "tr_compile runtime config snap trigger = Inr compiled" "cr_plan compiled = Some plan"
    and valid: "validatePlan inst snap plan trigger (budgetStore_get (w_budgets w) (si_instanceId inst))
        (tr_riskClass runtime) t = Inr V_OK"
    and reserve: "planNotionalUsd18 plan = Inr notional"
      "reserveBudget (budgetStore_get (w_budgets w) (si_instanceId inst)) (run_id deps inst trigger v)
         notional ''0'' t = Inr l'"
    and auth: "fst (checkAuthorization (d_chain deps) inst snap plan t (w_chain w)) = Inr AUTH_OK"
    and gw: "\<And>r. sr_runId r = run_id deps inst trigger v \<Longrightarrow>
       d_gateway deps (request_for inst snap plan r) (w_chain w) = (Inr result, c')"
    and ok: "ex_outcome result = EX_SUCCESS"
  shows "\<exists>run w'. processTrigger deps inst config trigger v pending assetIds w = (Inr (run, True), w')
    \<and> sr_state run = COMPLETE \<and> sr_runId run = run_id deps inst trigger v \<and> stored w' run \<and> w_chain w' = c'"
proof -
  let ?run = "fresh_run deps inst trigger v (d_now deps (w_clock w))"
  let ?w = "w\<lparr>w_clock := Suc (w_clock w), w_runs := AList.update (run_id deps inst trigger v) ?run (w_runs w)\<rparr>"
  let ?w' = "?w\<lparr>w_clock := Suc (Suc (w_clock w))\<rparr>"
  have st: "stored ?w' ?run" by (simp add: stored_def fresh_run_id alist_update_map)
  have "sr_state ?run = TRIGGER_OBSERVED" by (simp add: fresh_run_def createRun_def)
  have "goes (snapshotStage deps inst config trigger assetIds ?run) ?w' (run_id deps inst trigger v) c'"
    by (rule snapshotStage_goes [OF sc clock \<open>sr_state ?run = TRIGGER_OBSERVED\<close> st fresh_run_id
          _ _ ledger(3) _ template _ reserve(1) _ _ _ ok])
      (use ledger snap valid reserve(2) auth gw in simp_all)
  then obtain run' w' where s: "snapshotStage deps inst config trigger assetIds ?run ?w' = (Inr run', w')"
    and r: "sr_state run' = COMPLETE" "sr_runId run' = run_id deps inst trigger v" "stored w' run'" "w_chain w' = c'"
    unfolding goes_def by blast
  have "driveRun deps inst config trigger pending assetIds ?run ?w = (Inr run', w')"
    using s gate clock by (simp add: driveRun_def bindW_def)
  then have "processTrigger deps inst config trigger v pending assetIds w = (Inr (run', True), w')"
    unfolding processTrigger_new [OF new refl] by simp
  then show ?thesis using r by blast
qed

section \<open>Reconciliation\<close>

lemma reconcile_still_unknown:
  "cv_transactionOutcome (d_chain deps) (last (sr_transactions run)) (w_chain w) = (Inr None, w_chain w) \<Longrightarrow>
   reconcile deps run inst w = (Inr run, w)"
  by (cases "sr_transactions run") (simp_all add: reconcile_def on_chain_def bindW_def)

lemma reconcile_idle:
  "isRunTerminal (sr_state run) \<or> sr_transactions run = [] \<Longrightarrow> reconcile deps run inst w = (Inr run, w)"
  by (auto simp: reconcile_def)

lemma reconcile_quiet:
  assumes "sentinel_chain (d_chain deps) gw"
  shows "preserves w_chain (reconcile deps run inst)"
proof -
  note out = on_chain_reads [OF sentinel_chain.outcome_reads [OF assms]]
  show ?thesis
    unfolding reconcile_def
    by (auto simp del: stepAll_Cons intro!: preserves_bind stepAll_preserves out
        split: list.split option.split TxOutcome.split)
qed

definition reconcile_success ::
  "('c, 'cfg) SentinelEngineDeps \<Rightarrow> SentinelInstance \<Rightarrow> SentinelRun \<Rightarrow> ('c, SentinelRun) engine" where
  "reconcile_success deps inst run =
     bindW (settle_budget confirmBudget (si_instanceId inst) (sr_runId run)) (\<lambda>_.
     bindW (if sr_state run = SUBMITTED then stepRun deps run FILLED no_options else ret run) (\<lambda>run.
     bindW (if sr_state run \<noteq> RECONCILING then stepRun deps run RECONCILING no_options else ret run) (\<lambda>run.
       stepAll deps [(RECONCILED, no_options), (COMPLETE, no_options)] run)))"

definition reconcile_reverted ::
  "('c, 'cfg) SentinelEngineDeps \<Rightarrow> SentinelInstance \<Rightarrow> SentinelRun \<Rightarrow> ('c, SentinelRun) engine" where
  "reconcile_reverted deps inst run =
     bindW (settle_budget releaseBudget (si_instanceId inst) (sr_runId run)) (\<lambda>_.
     bindW (if sr_state run = SUBMITTED then stepRun deps run EXECUTION_UNKNOWN no_options else ret run) (\<lambda>run.
       stepAll deps [(RECONCILING, because ''reverted onchain''), (RECONCILED, no_options),
                     (COMPLETE, no_options)] run))"

lemma reconcile_known:
  assumes "\<not> isRunTerminal (sr_state run)" "sr_transactions run \<noteq> []"
    and "cv_transactionOutcome (d_chain deps) (last (sr_transactions run)) (w_chain w) = (Inr (Some out), w_chain w)"
  shows "reconcile deps run inst w =
    (case out of tx_success \<Rightarrow> reconcile_success deps inst run w | tx_reverted \<Rightarrow> reconcile_reverted deps inst run w)"
  using assms
  by (cases "sr_transactions run"; cases out)
    (simp_all add: reconcile_def on_chain_def bindW_def reconcile_success_def reconcile_reverted_def del: stepAll_Cons)

lemma stepRun_same:
  "stepRun deps run dst opts w = (Inr run', w') \<Longrightarrow> w_budgets w' = w_budgets w \<and> sr_runId run' = sr_runId run"
  using stepRun_went [of deps run dst opts w run' w'] by (simp add: went_def)

lemma reconcile_success_settles:
  assumes ok: "ledger_ok (budgetStore_get (w_budgets w) (si_instanceId inst))"
    and run: "reconcile_success deps inst run w = (Inr run', w')"
  shows "moved w (si_instanceId inst) (sr_runId run) (Some CONFIRMED) w' \<and> sr_state run' = COMPLETE
    \<and> sr_runId run' = sr_runId run"
  using run unfolding reconcile_success_def
  apply -
proof ((erule bindW_InrE)+)
  fix u w1 run1 w2 run2 w3
  assume 1: "settle_budget confirmBudget (si_instanceId inst) (sr_runId run) w = (Inr u, w1)"
    and 2: "(if sr_state run = SUBMITTED then stepRun deps run FILLED no_options else ret run) w1 = (Inr run1, w2)"
    and 3: "(if sr_state run1 \<noteq> RECONCILING then stepRun deps run1 RECONCILING no_options else ret run1) w2 = (Inr run2, w3)"
    and 4: "stepAll deps [(RECONCILED, no_options), (COMPLETE, no_options)] run2 w3 = (Inr run', w')"
  have b: "w_budgets w2 = w_budgets w1 \<and> sr_runId run1 = sr_runId run" "w_budgets w3 = w_budgets w2 \<and> sr_runId run2 = sr_runId run1"
    using 2 3 by (auto split: if_splits dest!: stepRun_same)
  note s = stepAll_went [OF 4]
  show ?thesis
    using settle_confirm [OF ok 1] b s by (auto simp: went_def moved_def)
qed

lemma reconcile_reverted_settles:
  assumes ok: "ledger_ok (budgetStore_get (w_budgets w) (si_instanceId inst))"
    and run: "reconcile_reverted deps inst run w = (Inr run', w')"
  shows "moved w (si_instanceId inst) (sr_runId run) (Some RELEASED) w' \<and> sr_state run' = COMPLETE
    \<and> sr_runId run' = sr_runId run"
  using run unfolding reconcile_reverted_def
  apply -
proof ((erule bindW_InrE)+)
  fix u w1 run1 w2
  assume 1: "settle_budget releaseBudget (si_instanceId inst) (sr_runId run) w = (Inr u, w1)"
    and 2: "(if sr_state run = SUBMITTED then stepRun deps run EXECUTION_UNKNOWN no_options else ret run) w1 = (Inr run1, w2)"
    and 4: "stepAll deps [(RECONCILING, because ''reverted onchain''), (RECONCILED, no_options),
                     (COMPLETE, no_options)] run1 w2 = (Inr run', w')"
  have b: "w_budgets w2 = w_budgets w1 \<and> sr_runId run1 = sr_runId run"
    using 2 by (auto split: if_splits dest!: stepRun_same)
  note s = stepAll_went [OF 4]
  show ?thesis
    using settle_release [OF ok 1] b s by (auto simp: went_def moved_def)
qed

text \<open>
  A run that was interrupted between two of the closing steps: once its transaction is known to have
  reverted, a run in \<open>RECONCILING\<close> cannot be recovered, and a run in \<open>RECONCILED\<close> never can.
\<close>

lemma stuck_step: "\<not> canTransitionRun (sr_state run) dst \<Longrightarrow>
  stepRun deps run dst opts w = (Inl (IllegalRunTransition (sr_state run) dst), w\<lparr>w_clock := Suc (w_clock w)\<rparr>)"
  by (simp add: stepRun_def bindW_def lift_def advanceRun_def)

lemma reconciling_reverted_stuck:
  assumes "sr_state run = RECONCILING" "sr_transactions run \<noteq> []"
    and "cv_transactionOutcome (d_chain deps) (last (sr_transactions run)) (w_chain w) = (Inr (Some tx_reverted), w_chain w)"
  shows "\<exists>e. fst (reconcile deps run inst w) = Inl e"
proof -
  have "\<not> isRunTerminal (sr_state run)" by (simp add: assms(1) isRunTerminal_def)
  from reconcile_known [OF this assms(2,3)]
  have "reconcile deps run inst w = reconcile_reverted deps inst run w" by simp
  moreover have "\<not> canTransitionRun (sr_state run) RECONCILING" by (simp add: assms(1) canTransitionRun_def)
  ultimately show ?thesis
    by (auto simp: reconcile_reverted_def bindW_def assms(1) stuck_step split: prod.splits sum.splits)
qed

lemma reconciled_stuck:
  assumes "sr_state run = RECONCILED" "sr_transactions run \<noteq> []"
    and "cv_transactionOutcome (d_chain deps) (last (sr_transactions run)) (w_chain w) = (Inr (Some out), w_chain w)"
  shows "\<exists>e. fst (reconcile deps run inst w) = Inl e"
proof -
  have "\<not> isRunTerminal (sr_state run)" by (simp add: assms(1) isRunTerminal_def)
  note k = reconcile_known [OF this assms(2,3), of inst]
  have "\<not> canTransitionRun (sr_state run) RECONCILING" by (simp add: assms(1) canTransitionRun_def)
  then show ?thesis
    by (cases out) (auto simp: k reconcile_reverted_def reconcile_success_def bindW_def assms(1) stuck_step
        split: prod.splits sum.splits)
qed

section \<open>The supervisor\<close>

lemma rank_le: "priorityRank p \<le> priorityRank P4_YIELD_OPPORTUNISTIC"
  by (cases p) (simp_all add: priorityRank_def SENTINEL_PRIORITIES_def)

lemma claims_iff: "claims it \<longleftrightarrow> si_priorityClass (it_instance it) \<noteq> P4_YIELD_OPPORTUNISTIC"
  by (cases "si_priorityClass (it_instance it)") (simp_all add: claims_def priorityRank_def SENTINEL_PRIORITIES_def)

lemma pending_yield_blocked:
  assumes "processTrigger deps inst config trigger v True assetIds w = (Inr (run, True), w')"
    "si_priorityClass inst = P4_YIELD_OPPORTUNISTIC"
  shows "sr_state run = BLOCKED_BY_POLICY"
  using assms(1)
proof (rule processTrigger_created)
  fix w0
  assume d: "driveRun deps inst config trigger True assetIds
       (fresh_run deps inst trigger v (d_now deps (w_clock w))) w0 = (Inr run, w')"
  obtain gate where "armedGate inst trigger (d_now deps (w_clock w0)) True = Some gate"
    using armedGate_None(5) [of inst trigger "d_now deps (w_clock w0)" True] assms(2) by fastforce
  with d have "stepRun deps (fresh_run deps inst trigger v (d_now deps (w_clock w))) BLOCKED_BY_POLICY (because gate)
      (w0\<lparr>w_clock := Suc (w_clock w0)\<rparr>) = (Inr run, w')"
    by (simp add: driveRun_def bindW_def)
  from stepRun_went(1) [OF this] show ?thesis by (simp add: went_def)
qed

definition accounts_of :: "'cfg SupervisorItem list \<Rightarrow> string set" where
  "accounts_of items = (\<lambda>it. si_account (it_instance it)) ` {it \<in> set items. claims it}"

lemma drainItems_yield:
  "drainItems deps accounts items w = (Inr rs, w') \<Longrightarrow>
   length rs = length items \<and>
   (\<forall>k < length items. \<not> claims (items ! k) \<longrightarrow>
      si_account (it_instance (items ! k)) \<in> set accounts \<union> accounts_of (take k items) \<longrightarrow>
      snd (rs ! k) \<longrightarrow> sr_state (fst (rs ! k)) = BLOCKED_BY_POLICY)"
proof (induction items arbitrary: accounts w rs w')
  case Nil then show ?case by simp
next
  case (Cons it items)
  let ?acc = "if claims it then set_add (si_account (it_instance it)) accounts else accounts"
  from Cons.prems [unfolded drainItems.simps] show ?case
    apply -
  proof ((erule bindW_InrE)+)
    fix r w1 rs' w2
    assume 1: "processTrigger deps (it_instance it) (it_config it) (it_trigger it) (it_triggerVersion it)
              (si_account (it_instance it) \<in> set accounts) [] w = (Inr r, w1)"
      and 2: "drainItems deps ?acc items w1 = (Inr rs', w2)" and 3: "ret (r # rs') w2 = (Inr rs, w')"
    note ih = Cons.IH [OF 2]
    have rs: "rs = r # rs'" using 3 by simp
    have head: "sr_state (fst r) = BLOCKED_BY_POLICY"
      if "\<not> claims it" "si_account (it_instance it) \<in> set accounts" "snd r"
      using pending_yield_blocked [of deps "it_instance it" "it_config it" "it_trigger it" "it_triggerVersion it"
          "[]" w "fst r" w1] 1 that by (cases r) (simp add: claims_iff)
    have acc: "set ?acc \<union> accounts_of (take k items) = set accounts \<union> accounts_of (take (Suc k) (it # items))" for k
      by (auto simp: accounts_of_def set_add_def)
    show ?thesis
    proof (intro conjI allI impI)
      show "length rs = length (it # items)" using ih rs by simp
      fix k assume k: "k < length (it # items)" "\<not> claims ((it # items) ! k)"
        "si_account (it_instance ((it # items) ! k)) \<in> set accounts \<union> accounts_of (take k (it # items))" "snd (rs ! k)"
      show "sr_state (fst (rs ! k)) = BLOCKED_BY_POLICY"
      proof (cases k)
        case 0
        then show ?thesis using k rs head by (simp add: accounts_of_def)
      next
        case (Suc j)
        then have "si_account (it_instance (items ! j)) \<in> set ?acc \<union> accounts_of (take j items)"
          using k(3) acc [of j] by simp
        moreover have "j < length items" "\<not> claims (items ! j)" "snd (rs' ! j)" using Suc k rs by simp_all
        ultimately have "sr_state (fst (rs' ! j)) = BLOCKED_BY_POLICY" using conjunct2 [OF ih] by blast
        then show ?thesis using Suc rs by simp
      qed
    qed
  qed
qed

end
