(* ===== verification/Mock_Chain.thy ===== *)
theory Mock_Chain
  imports Sentinel_Invariants
begin

text \<open>
  The in-memory chain of \<open>services/sentinel/src/chain.ts\<close>: the reads of \<open>MockChain\<close> and the
  gateway that applies a plan to the same state. The interpretation at the end of the first section
  shows that it is a chain as the engine expects one; the rest follows an executed plan into the
  account it changes. Hashing is a parameter.
\<close>

section \<open>State and reads\<close>

record MockAccount =
  ma_recognised :: int
  ma_debt :: int
  ma_borrowLimit :: int
  ma_maintenance :: int
  ma_reserved :: int

record MockChain =
  mc_epoch :: int
  mc_blockNumber :: int
  mc_accounts :: "(string \<times> MockAccount) list"
  mc_mandates :: "(string \<times> MandateSnapshot) list"
  mc_passports :: "(string \<times> PassportRef) list"
  mc_txs :: "(string \<times> TxOutcome) list"
  mc_session :: SentinelSession
  mc_txSeq :: nat
  mc_chainId :: int

definition newMockChain :: "int \<Rightarrow> MockChain" where
  "newMockChain chainId = \<lparr>mc_epoch = 1, mc_blockNumber = 38000000, mc_accounts = [], mc_mandates = [],
     mc_passports = [], mc_txs = [], mc_session = SESSION_OPEN, mc_txSeq = 0, mc_chainId = chainId\<rparr>"

definition setAccount ::
  "string \<Rightarrow> string \<Rightarrow> string \<Rightarrow> string \<Rightarrow> string \<Rightarrow> string option \<Rightarrow> MockChain \<Rightarrow> sentinel_error + MockChain" where
  "setAccount account recognisedUsd18 debtUsd18 borrowLimitUsd18 maintenanceLimitUsd18 reservedUsd18 c =
     bindR (parseUsd18 recognisedUsd18) (\<lambda>recognised.
     bindR (parseUsd18 debtUsd18) (\<lambda>debt.
     bindR (parseUsd18 borrowLimitUsd18) (\<lambda>borrowLimit.
     bindR (parseUsd18 maintenanceLimitUsd18) (\<lambda>maintenance.
     bindR (parseUsd18 (option_default reservedUsd18 ''0'')) (\<lambda>reserved.
       Inr (c\<lparr>mc_accounts := AList.update account
              \<lparr>ma_recognised = recognised, ma_debt = debt, ma_borrowLimit = borrowLimit,
               ma_maintenance = maintenance, ma_reserved = reserved\<rparr> (mc_accounts c)\<rparr>))))))"

definition setMandate :: "string \<Rightarrow> MandateSnapshot \<Rightarrow> MockChain \<Rightarrow> MockChain" where
  "setMandate mandateId m c = c\<lparr>mc_mandates := AList.update mandateId m (mc_mandates c)\<rparr>"

definition setPassport :: "PassportRef \<Rightarrow> MockChain \<Rightarrow> MockChain" where
  "setPassport p c = c\<lparr>mc_passports := AList.update (pf_assetId p) p (mc_passports c)\<rparr>"

definition setEpoch :: "int \<Rightarrow> MockChain \<Rightarrow> MockChain" where
  "setEpoch epoch c = c\<lparr>mc_epoch := epoch\<rparr>"

definition setMarketSession :: "SentinelSession \<Rightarrow> MockChain \<Rightarrow> MockChain" where
  "setMarketSession session c = c\<lparr>mc_session := session\<rparr>"

definition revokeMandate :: "string \<Rightarrow> MockChain \<Rightarrow> MockChain" where
  "revokeMandate mandateId c =
     (case map_of (mc_mandates c) mandateId of
        None \<Rightarrow> c | Some m \<Rightarrow> setMandate mandateId (m\<lparr>ms_live := False\<rparr>) c)"

definition mockBuffer :: "MockAccount \<Rightarrow> int" where
  "mockBuffer a = (if ma_maintenance a = 0 then 10000
     else if ma_maintenance a \<le> ma_debt a then 0
     else ((ma_maintenance a - ma_debt a) * 10000) sdiv ma_maintenance a)"

definition derive :: "MockAccount \<Rightarrow> sentinel_error + AccountState" where
  "derive a =
     (let status = (if ma_debt a = 0 \<or> ma_debt a \<le> ma_borrowLimit a then ''HEALTHY''
                    else if ma_debt a \<le> ma_maintenance a then ''MARGIN_CALL'' else ''LIQUIDATABLE'');
          available = (if ma_debt a < ma_borrowLimit a then ma_borrowLimit a - ma_debt a else 0)
      in bindR (formatUsd18 (ma_recognised a)) (\<lambda>recognised.
         bindR (formatUsd18 (ma_debt a)) (\<lambda>debt.
         bindR (formatUsd18 (ma_borrowLimit a)) (\<lambda>borrowLimit.
         bindR (formatUsd18 (ma_maintenance a)) (\<lambda>maintenance.
         bindR (formatUsd18 available) (\<lambda>available.
         bindR (formatUsd18 (ma_reserved a)) (\<lambda>reserved.
           Inr \<lparr>as_status = status, as_recognisedUsd18 = recognised, as_debtUsd18 = debt,
                as_borrowLimitUsd18 = borrowLimit, as_maintenanceLimitUsd18 = maintenance,
                as_availableBorrowUsd18 = available, as_reservedUsd18 = reserved,
                as_bufferBps = mockBuffer a\<rparr>)))))))"

definition mockPassport :: "MockChain \<Rightarrow> string \<Rightarrow> PassportRef" where
  "mockPassport c asset = option_default (map_of (mc_passports c) asset)
     \<lparr>pf_assetId = asset, pf_version = 0, pf_status = ''NONE''\<rparr>"

definition mockView :: "(string \<Rightarrow> string) \<Rightarrow> MockChain SentinelChainView" where
  "mockView keccak =
     \<lparr>cv_block = (\<lambda>c. (Inr \<lparr>br_chainId = mc_chainId c, br_number = mc_blockNumber c,
         br_hash = keccak (''block-'' @ show_int (mc_blockNumber c))\<rparr>, c)),
      cv_currentRiskEpoch = (\<lambda>c. (Inr (mc_epoch c), c)),
      cv_accountState = (\<lambda>account c. (case map_of (mc_accounts c) account of
           None \<Rightarrow> Inl (SentinelJsError (JsError (''mock chain has no account '' @ account)))
         | Some a \<Rightarrow> derive a, c)),
      cv_mandateState = (\<lambda>mandateId c. (Inr (map_of (mc_mandates c) mandateId), c)),
      cv_passportVersions = (\<lambda>assetIds c. (Inr (map (mockPassport c) assetIds), c)),
      cv_marketSession = (\<lambda>account c. (Inr (mc_session c), c)),
      cv_transactionOutcome = (\<lambda>txHash c. (Inr (map_of (mc_txs c) txHash), c))\<rparr>"

section \<open>The gateway\<close>

definition mockRevert :: "string \<Rightarrow> string \<Rightarrow> (MockChain, ExecutionResult) read" where
  "mockRevert txHash reason = (\<lambda>c.
     (Inr \<lparr>ex_txHash = txHash, ex_outcome = EX_REVERTED, ex_revertReason = Some reason\<rparr>,
      c\<lparr>mc_txs := AList.update txHash tx_reverted (mc_txs c)\<rparr>))"

fun mockApply :: "SentinelPlan \<Rightarrow> MockAccount \<Rightarrow> sentinel_error + MockAccount" where
  "mockApply (repayPlan amountUsd18 repayAll) a =
     bindR (parseUsd18 amountUsd18) (\<lambda>amount.
       Inr (a\<lparr>ma_debt := (if amount < ma_debt a then ma_debt a - amount else 0)\<rparr>))"
| "mockApply (addCollateralPlan assetId amountTokens decimals) a =
     bindR (tokensUsd18 amountTokens decimals) (\<lambda>tokens.
       Inr (a\<lparr>ma_recognised := ma_recognised a + tokens,
              ma_borrowLimit := ma_borrowLimit a + tokens sdiv 2,
              ma_maintenance := ma_maintenance a + (tokens * 6) sdiv 10\<rparr>))"
| "mockApply plan a = Inr a"

definition mockGateway :: "(string \<Rightarrow> string) \<Rightarrow> MockChain DelegationGatewayClient" where
  "mockGateway keccak req c0 =
     (let txHash = keccak (''tx-'' @ er_runId req @ ''-'' @ show_nat (mc_txSeq c0));
          c = c0\<lparr>mc_txSeq := Suc (mc_txSeq c0)\<rparr>
      in case (map_of (mc_accounts c) (er_account req), map_of (mc_mandates c) (er_mandateId req)) of
           (Some a, Some m) \<Rightarrow>
             if \<not> ms_live m then mockRevert txHash ''mandate not live'' c
             else if er_expectedEpoch req \<noteq> mc_epoch c then mockRevert txHash ''risk epoch moved'' c
             else if \<not> in_mask (ms_allowedActions m) (planActionBit (er_plan req))
             then mockRevert txHash ''action not in mandate'' c
             else (case mockApply (er_plan req) a of
                 Inl e \<Rightarrow> (Inl e, c)
               | Inr a' \<Rightarrow>
                   (Inr \<lparr>ex_txHash = txHash, ex_outcome = EX_SUCCESS, ex_revertReason = None\<rparr>,
                    c\<lparr>mc_accounts := AList.update (er_account req) a' (mc_accounts c),
                      mc_txs := AList.update txHash tx_success (mc_txs c)\<rparr>))
         | _ \<Rightarrow> mockRevert txHash ''mandate not live'' c)"

lemma mockGateway_recorded:
  "mockGateway keccak req c = (Inr r, c') \<Longrightarrow>
     ex_outcome r \<noteq> EX_UNKNOWN \<and>
     map_of (mc_txs c') (ex_txHash r) = Some (if ex_outcome r = EX_SUCCESS then tx_success else tx_reverted)"
  by (auto simp: mockGateway_def mockRevert_def Let_def update_conv split: option.splits if_splits sum.splits)

interpretation mock_chain: sentinel_chain "mockView keccak" "mockGateway keccak" for keccak
  by unfold_locales
    (auto simp: mockView_def dest!: mockGateway_recorded split: option.splits)

end
