(* ===== verification/Sentinel_Properties.thy ===== *)
theory Sentinel_Properties
  imports Sentinel_Delivery Mock_Chain
begin

text \<open>
  The properties of the Sentinel runtime, over any chain that satisfies the interface
  \<open>sentinel_chain\<close>, and, where a plan is followed into an account, over the in-memory chain. A
  concrete Sentinel that repays once serves as the example each of them is applied to.
\<close>

section \<open>A concrete Sentinel\<close>

text \<open>
  A safety-buffer instance on the in-memory chain: debt 95 against a maintenance limit of 100 leaves
  a buffer of 500 bps, below the action level of 1000, and the target of 2000 asks for a repayment of 15.
\<close>

definition demo_address :: string where "demo_address = zeros 40"
definition demo_id :: string where "demo_id = zeros 64"
definition demo_keccak :: "string \<Rightarrow> string" where "demo_keccak s = zeros 64"

definition demo_account :: MockAccount where
  "demo_account = \<lparr>ma_recognised = 200, ma_debt = 95, ma_borrowLimit = 90, ma_maintenance = 100, ma_reserved = 0\<rparr>"

definition demo_mandate :: MandateSnapshot where
  "demo_mandate = \<lparr>ms_live = True, ms_expiresAt = 1000, ms_remainingDebtUsd18 = ''0'',
     ms_remainingNotionalUsd18 = ''0'', ms_allowedActions = 2, ms_agentExecutor = demo_address\<rparr>"

definition demo_chain :: MockChain where
  "demo_chain = (newMockChain 1952)\<lparr>mc_accounts := [(demo_address, demo_account)],
     mc_mandates := [(demo_id, demo_mandate)]\<rparr>"

definition demo_config :: SafetyBufferConfig where
  "demo_config = \<lparr>sb_targetBufferBps = 2000, sb_warningBufferBps = 1500, sb_actionBufferBps = 1000,
     sb_maxRepayPerRunUsd18 = ''40'', sb_dailyCapUsd18 = ''90'', sb_cooldownSeconds = 0\<rparr>"

definition demo_deps :: "(MockChain, SafetyBufferConfig) SentinelEngineDeps" where
  "demo_deps = \<lparr>d_keccak = demo_keccak, d_chain = mockView demo_keccak, d_gateway = mockGateway demo_keccak,
     d_templates = [(demo_id, safetyBufferRuntime demo_keccak)], d_now = (\<lambda>k. 100)\<rparr>"

definition demo_instance :: SentinelInstance where
  "demo_instance = \<lparr>si_instanceId = demo_id, si_owner = demo_address, si_account = demo_address,
     si_templateId = demo_id, si_templateVersion = 1, si_manifestHash = demo_id,
     si_agentExecutor = demo_address, si_mandateId = demo_id, si_configHash = demo_id,
     si_triggerPolicy = \<lparr>tp_triggers = [singleSpec (riskStateSpec EPOCH_CHANGED None)],
       tp_allowedAuthorityClasses = [DETERMINISTIC_ONCHAIN]\<rparr>,
     si_budgetPolicy = sample_budget, si_priorityClass = P1_SAFETY_MAINTENANCE,
     si_confirmationPolicy = AUTO_WITHIN_MANDATE, si_status = ARMED, si_createdAt = 0, si_validAfter = 0,
     si_expiresAt = 1000, si_lastRunId = None, si_lastSuccessfulRunAt = None\<rparr>"

definition demo_world :: "MockChain SentinelWorld" where
  "demo_world = \<lparr>w_runs = [], w_budgets = [], w_chain = demo_chain, w_clock = 0\<rparr>"

definition demo_snapshot :: SentinelSnapshot where
  "demo_snapshot = \<lparr>sn_chainId = 1952, sn_blockNumber = 38000000, sn_blockHash = demo_id,
     sn_account = demo_address, sn_accountStatus = ''MARGIN_CALL'', sn_recognisedUsd18 = ''200'',
     sn_debtUsd18 = ''95'', sn_borrowLimitUsd18 = ''90'', sn_maintenanceLimitUsd18 = ''100'',
     sn_availableBorrowUsd18 = ''0'', sn_reservedUsd18 = ''0'', sn_bufferBps = 500, sn_riskEpoch = 1,
     sn_mandate = \<lparr>sm_mandateId = demo_id, sm_live = True, sm_expiresAt = 1000,
       sm_remainingDebtUsd18 = ''0'', sm_remainingNotionalUsd18 = ''0''\<rparr>,
     sn_passports = [], sn_marketSession = Some SESSION_OPEN, sn_instanceConfigHash = demo_id,
     sn_takenAt = 100\<rparr>"

definition demo_compiled :: CompileResult where
  "demo_compiled = \<lparr>cr_plan = Some (repayPlan ''15'' False),
     cr_reason = ''repay to restore the buffer toward 2000bps''\<rparr>"

lemma demo_decimals:
  "show_int 200 = ''200''" "show_int 95 = ''95''" "show_int 90 = ''90''" "show_int 100 = ''100''"
  "show_int 0 = ''0''" "show_int 15 = ''15''" "show_int 2000 = ''2000''"
  "canonical_decimal ''200''" "canonical_decimal ''95''" "canonical_decimal ''15''"
  "usd ''95'' = 95" "usd ''15'' = 15"
  by code_simp+

lemma demo_parse:
  "parseUsd18 ''95'' = Inr 95" "parseUsd18 ''100'' = Inr 100" "parseUsd18 ''40'' = Inr 40"
  "parseUsd18 ''15'' = Inr 15" "parseUsd18 ''0'' = Inr 0" "parseUsd18 ''50'' = Inr 50"
  "parseUsd18 ''90'' = Inr 90" "parseUsd18 ''80'' = Inr 80" "parseUsd18 ''5'' = Inr 5"
  by (simp_all add: parseUsd18_ok usd18StringSchema_def sample_numerals demo_decimals)

lemma demo_derive: "derive demo_account = Inr \<lparr>as_status = ''MARGIN_CALL'', as_recognisedUsd18 = ''200'',
     as_debtUsd18 = ''95'', as_borrowLimitUsd18 = ''90'', as_maintenanceLimitUsd18 = ''100'',
     as_availableBorrowUsd18 = ''0'', as_reservedUsd18 = ''0'', as_bufferBps = 500\<rparr>"
  by (simp add: derive_def demo_account_def formatUsd18_def demo_decimals mockBuffer_def Let_def)

lemmas demo_ids = demo_id_def demo_address_def zeros_ok zeros_schemas

lemma demo_build:
  "fst (buildSnapshot (mockView demo_keccak) demo_instance 100 [] demo_chain) = Inr demo_snapshot"
  by (simp add: buildSnapshot_def mockView_def demo_chain_def newMockChain_def demo_instance_def demo_derive
      demo_snapshot_def demo_mandate_def demo_keccak_def parseSnapshot_def sentinelSnapshotSchema_def
      demo_ids usd18StringSchema_def sample_numerals demo_decimals bpsSchema_def unixSecondsSchema_def)

lemma demo_config_ok: "safetyBufferConfigSchema demo_config"
  by (simp add: safetyBufferConfigSchema_def demo_config_def bpsSchema_def usd18StringSchema_def sample_numerals)

lemma demo_compile: "safetyBufferCompile demo_config demo_snapshot trigger = Inr demo_compiled"
  by (simp add: safetyBufferCompile_def demo_config_ok demo_snapshot_def demo_parse)
    (simp add: demo_config_def demo_parse formatUsd18_def demo_decimals demo_compiled_def
      signed_divide_int_def Let_def)

lemma demo_within: "withinBudget sample_budget [] ''15'' ''0'' 100 = Inr None"
  by (simp add: withinBudget_def demo_parse sample_budget_def or_else_def over_cap_def spentUsd18_def
      spentSinceUsd18_def feeSpentUsd18_def committed_def sumUsd18_def runCountSince_def lastEffectiveAt_def)

lemma demo_valid:
  "validatePlan demo_instance demo_snapshot (repayPlan ''15'' False) (epoch_event []) [] RISK_REDUCING_ONLY 100 = Inr V_OK"
  by (simp add: validatePlan_def usd18StringSchema_def demo_decimals demo_instance_def demo_within
      confirmationRequired_def)

lemma demo_authorized:
  "fst (checkAuthorization (mockView demo_keccak) demo_instance demo_snapshot (repayPlan ''15'' False) 100 demo_chain)
     = Inr AUTH_OK"
proof -
  have "in_mask 2 1" by (simp add: in_mask_bit bit_iff_odd)
  then show ?thesis
    by (simp add: checkAuthorization_def mockView_def demo_chain_def newMockChain_def demo_snapshot_def
        demo_instance_def mandateGate_def demo_mandate_def)
qed

lemma demo_gate: "armedGate demo_instance (epoch_event []) 100 False = None"
  by (simp add: armedGate_def demo_instance_def triggerMatchesInstance_def epoch_event_def)

lemma demo_gateway:
  "sr_runId r = zeros 64 \<Longrightarrow>
   mockGateway demo_keccak (request_for demo_instance demo_snapshot (repayPlan ''15'' False) r) demo_chain
     = (Inr \<lparr>ex_txHash = zeros 64, ex_outcome = EX_SUCCESS, ex_revertReason = None\<rparr>,
        demo_chain\<lparr>mc_txSeq := 1, mc_accounts := [(demo_address, demo_account\<lparr>ma_debt := 80\<rparr>)],
                   mc_txs := [(zeros 64, tx_success)]\<rparr>)"
proof -
  have "in_mask 2 1" by (simp add: in_mask_bit bit_iff_odd)
  then show ?thesis
    by (simp add: mockGateway_def request_for_def demo_chain_def newMockChain_def demo_snapshot_def
        demo_instance_def demo_mandate_def demo_keccak_def Let_def demo_parse demo_account_def)
qed

lemma demo_reserve: "\<exists>l'. reserveBudget [] (zeros 64) ''15'' ''0'' 100 = Inr l'"
  by (simp add: reserveBudget_def findEntry_def Let_def budgetLedgerEntrySchema_def zeros_schemas
      usd18StringSchema_def sample_numerals demo_decimals unixSecondsSchema_def)

section \<open>Properties of one delivery\<close>

lemma demo_run_id: "run_id demo_deps demo_instance trigger v = zeros 64"
  by (simp add: run_id_def runIdFor_def demo_deps_def demo_keccak_def)

lemma demo_chain_ok: "sentinel_chain (d_chain demo_deps) (d_gateway demo_deps)"
  by (simp add: demo_deps_def mock_chain.sentinel_chain_axioms)

lemma demo_goes:
  "\<exists>run w'. processTrigger demo_deps demo_instance demo_config (epoch_event []) 1 False [] demo_world
       = (Inr (run, True), w')
     \<and> sr_state run = COMPLETE \<and> sr_runId run = run_id demo_deps demo_instance (epoch_event []) 1
     \<and> stored w' run
     \<and> w_chain w' = demo_chain\<lparr>mc_txSeq := 1, mc_accounts := [(demo_address, demo_account\<lparr>ma_debt := 80\<rparr>)],
                   mc_txs := [(zeros 64, tx_success)]\<rparr>"
proof -
  obtain l' where l': "reserveBudget [] (zeros 64) ''15'' ''0'' 100 = Inr l'" using demo_reserve by blast
  have b: "budgetStore_get (w_budgets demo_world) (si_instanceId demo_instance) = []"
    by (simp add: demo_world_def budgetStore_get_def)
  have t: "map_of (d_templates demo_deps) (si_templateId demo_instance) = Some (safetyBufferRuntime demo_keccak)"
    by (simp add: demo_deps_def demo_instance_def)
  show ?thesis
    by (rule processTrigger_goes [OF demo_chain_ok, where t = 100 and snap = demo_snapshot
          and compiled = demo_compiled and runtime = "safetyBufferRuntime demo_keccak"
          and plan = "repayPlan ''15'' False" and notional = "''15''" and l' = l'
          and result = "\<lparr>ex_txHash = zeros 64, ex_outcome = EX_SUCCESS, ex_revertReason = None\<rparr>"])
      (unfold b demo_run_id,
       simp_all add: t l' demo_gate demo_gateway demo_authorized demo_build demo_compile demo_valid
        zeros_schemas demo_compiled_def safetyBufferRuntime_def findEntry_def,
       simp_all add: demo_world_def demo_deps_def demo_build demo_authorized demo_gateway)
qed

text \<open>
  C2: the gateway is reached only by a cleared trigger. If one delivery moved the chain, it was a
  first delivery; the instance was armed, inside its validity window and subscribed to the trigger,
  and not a yield instance behind a pending one; the plan came from its template's compiler on the
  snapshot of the very chain state that was moved, passed validation against the ledger of that moment;
  and at that state the risk epoch was the snapshot's and the mandate live, unexpired and allowing the action.
\<close>

theorem execution_is_cleared:
  assumes "sentinel_chain (d_chain deps) (d_gateway deps)"
    and "w_chain (snd (processTrigger deps inst config trigger v pending assetIds w)) \<noteq> w_chain w"
  shows "runStore_get (w_runs w) (run_id deps inst trigger v) = None
    \<and> si_status inst = ARMED \<and> si_validAfter inst \<le> d_now deps (Suc (w_clock w))
    \<and> d_now deps (Suc (w_clock w)) < si_expiresAt inst \<and> triggerMatchesInstance inst trigger
    \<and> \<not> (pending \<and> si_priorityClass inst = P4_YIELD_OPPORTUNISTIC)
    \<and> (\<exists>runtime snap compiled plan m k1 k2 k3.
          map_of (d_templates deps) (si_templateId inst) = Some runtime
        \<and> fst (buildSnapshot (d_chain deps) inst (d_now deps k1) assetIds (w_chain w)) = Inr snap
        \<and> tr_compile runtime config snap trigger = Inr compiled \<and> cr_plan compiled = Some plan
        \<and> validatePlan inst snap plan trigger (budgetStore_get (w_budgets w) (si_instanceId inst))
            (tr_riskClass runtime) (d_now deps k2) = Inr V_OK
        \<and> fst (cv_currentRiskEpoch (d_chain deps) (w_chain w)) = Inr (sn_riskEpoch snap)
        \<and> fst (cv_mandateState (d_chain deps) (si_mandateId inst) (w_chain w)) = Inr (Some m)
        \<and> ms_live m \<and> d_now deps k3 < ms_expiresAt m
        \<and> in_mask (ms_allowedActions m) (planActionBit plan))"
proof -
  note m = processTrigger_moves [OF assms]
  then obtain snap k where snap: "fst (buildSnapshot (d_chain deps) inst (d_now deps k) assetIds (w_chain w)) = Inr snap"
    and cl: "cleared deps inst config trigger snap (budgetStore_get (w_budgets w) (si_instanceId inst)) (w_chain w)"
    by blast
  note g = armedGate_None [OF conjunct1 [OF conjunct2 [OF m]]]
  show ?thesis
    using m g snap cl unfolding cleared_def authorized_def runStore_get_def by blast
qed

theorem execution_is_cleared_witness:
  "si_status demo_instance = ARMED
   \<and> runStore_get (w_runs demo_world) (run_id demo_deps demo_instance (epoch_event []) 1) = None"
proof -
  obtain run w' where p: "processTrigger demo_deps demo_instance demo_config (epoch_event []) 1 False [] demo_world
       = (Inr (run, True), w')"
    and c: "w_chain w' = demo_chain\<lparr>mc_txSeq := 1, mc_accounts := [(demo_address, demo_account\<lparr>ma_debt := 80\<rparr>)],
                   mc_txs := [(zeros 64, tx_success)]\<rparr>"
    using demo_goes by blast
  have "w_chain w' \<noteq> w_chain demo_world"
    by (simp add: c demo_world_def demo_chain_def newMockChain_def)
  with execution_is_cleared [OF demo_chain_ok, of demo_instance demo_config "epoch_event []" 1 False "[]" demo_world] p
  show ?thesis by simp
qed

text \<open>
  C40: a cleared trigger completes. With a steady clock, a trigger not delivered before, on an armed
  instance whose template compiles to a plan that validates, can be reserved and is authorised at the
  current chain state, and a gateway that executes it, the delivery returns a run that is complete and
  stored, and the chain is the one the gateway left.
\<close>

theorem cleared_trigger_completes:
  assumes "sentinel_chain (d_chain deps) (d_gateway deps)" "\<And>k. d_now deps k = t"
    and "runStore_get (w_runs w) (run_id deps inst trigger v) = None"
    and "armedGate inst trigger t pending = None"
    and "ledger_ok (budgetStore_get (w_budgets w) (si_instanceId inst))"
      "findEntry (budgetStore_get (w_budgets w) (si_instanceId inst)) (run_id deps inst trigger v) = None"
      "is_lower (run_id deps inst trigger v)"
    and "fst (buildSnapshot (d_chain deps) inst t assetIds (w_chain w)) = Inr snap"
    and "map_of (d_templates deps) (si_templateId inst) = Some runtime"
      "tr_compile runtime config snap trigger = Inr compiled" "cr_plan compiled = Some plan"
    and "validatePlan inst snap plan trigger (budgetStore_get (w_budgets w) (si_instanceId inst))
        (tr_riskClass runtime) t = Inr V_OK"
    and "planNotionalUsd18 plan = Inr notional"
      "reserveBudget (budgetStore_get (w_budgets w) (si_instanceId inst)) (run_id deps inst trigger v)
         notional ''0'' t = Inr l'"
    and "fst (checkAuthorization (d_chain deps) inst snap plan t (w_chain w)) = Inr AUTH_OK"
    and "\<And>r. sr_runId r = run_id deps inst trigger v \<Longrightarrow>
       d_gateway deps (request_for inst snap plan r) (w_chain w) = (Inr result, c')"
    and "ex_outcome result = EX_SUCCESS"
  shows "\<exists>run w'. processTrigger deps inst config trigger v pending assetIds w = (Inr (run, True), w')
    \<and> sr_state run = COMPLETE \<and> runStore_get (w_runs w') (run_id deps inst trigger v) = Some run
    \<and> w_chain w' = c'"
  using processTrigger_goes [OF assms(1,2) assms(3) [unfolded runStore_get_def] assms(4-)]
  by (auto simp: stored_def runStore_get_def)

theorem cleared_trigger_completes_witness:
  "\<exists>run w'. processTrigger demo_deps demo_instance demo_config (epoch_event []) 1 False [] demo_world
       = (Inr (run, True), w') \<and> sr_state run = COMPLETE"
proof -
  obtain l' where l': "reserveBudget [] (zeros 64) ''15'' ''0'' 100 = Inr l'" using demo_reserve by blast
  have b: "budgetStore_get (w_budgets demo_world) (si_instanceId demo_instance) = []"
    by (simp add: demo_world_def budgetStore_get_def)
  have t: "map_of (d_templates demo_deps) (si_templateId demo_instance) = Some (safetyBufferRuntime demo_keccak)"
    by (simp add: demo_deps_def demo_instance_def)
  let ?c = "demo_chain\<lparr>mc_txSeq := 1, mc_accounts := [(demo_address, demo_account\<lparr>ma_debt := 80\<rparr>)],
                   mc_txs := [(zeros 64, tx_success)]\<rparr>"
  have "\<exists>run w'. processTrigger demo_deps demo_instance demo_config (epoch_event []) 1 False [] demo_world
       = (Inr (run, True), w') \<and> sr_state run = COMPLETE
     \<and> runStore_get (w_runs w') (run_id demo_deps demo_instance (epoch_event []) 1) = Some run \<and> w_chain w' = ?c"
    by (rule cleared_trigger_completes [OF demo_chain_ok, where t = 100 and snap = demo_snapshot
          and compiled = demo_compiled and runtime = "safetyBufferRuntime demo_keccak"
          and plan = "repayPlan ''15'' False" and notional = "''15''" and l' = l'
          and result = "\<lparr>ex_txHash = zeros 64, ex_outcome = EX_SUCCESS, ex_revertReason = None\<rparr>"])
      (unfold b demo_run_id,
       simp_all add: t l' demo_gate demo_gateway demo_authorized demo_build demo_compile demo_valid
        zeros_schemas demo_compiled_def safetyBufferRuntime_def findEntry_def,
       simp_all add: demo_world_def demo_deps_def demo_build demo_authorized demo_gateway runStore_get_def)
  then show ?thesis by blast
qed

text \<open>
  C23: a reservation follows the outcome of its run. When a first delivery returns, the ledger is
  well-formed and its entry for the run is confirmed if the run filled, released if it completed
  without filling, still reserved if the outcome is unknown, and absent or released otherwise; no
  other run's entry and no other instance's ledger has changed.
\<close>

theorem reservation_follows_outcome:
  assumes "ledger_ok (budgetStore_get (w_budgets w) (si_instanceId inst))"
    and "findEntry (budgetStore_get (w_budgets w) (si_instanceId inst)) (run_id deps inst trigger v) = None"
    and "is_lower (run_id deps inst trigger v)"
    and "processTrigger deps inst config trigger v pending assetIds w = (Inr (run, True), w')"
  shows "(let before = budgetStore_get (w_budgets w) (si_instanceId inst);
              after = budgetStore_get (w_budgets w') (si_instanceId inst);
              i = run_id deps inst trigger v; filled = FILLED \<in> rt_to ` set (sr_history run)
          in sr_runId run = i \<and> ledger_ok after
           \<and> (sr_state run = COMPLETE \<and> filled \<longrightarrow> entry_state after i = Some CONFIRMED)
           \<and> (sr_state run = COMPLETE \<and> \<not> filled \<longrightarrow> entry_state after i = Some RELEASED)
           \<and> (sr_state run = EXECUTION_UNKNOWN \<longrightarrow> entry_state after i = Some RESERVED)
           \<and> (sr_state run \<noteq> COMPLETE \<and> sr_state run \<noteq> EXECUTION_UNKNOWN \<longrightarrow>
                entry_state after i = None \<or> entry_state after i = Some RELEASED)
           \<and> (\<forall>r. r \<noteq> i \<longrightarrow> findEntry after r = findEntry before r)
           \<and> (\<forall>j. j \<noteq> si_instanceId inst \<longrightarrow>
                budgetStore_get (w_budgets w') j = budgetStore_get (w_budgets w) j))"
  using processTrigger_settles [OF assms]
  by (auto simp: settled_def moved_def ledger_moves_def settles_as_def Let_def split: if_splits)

theorem reservation_follows_outcome_witness:
  "\<exists>run w'. processTrigger demo_deps demo_instance demo_config (epoch_event []) 1 False [] demo_world
       = (Inr (run, True), w') \<and> sr_runId run = zeros 64
     \<and> ledger_ok (budgetStore_get (w_budgets w') demo_id)"
proof -
  obtain run w' where p: "processTrigger demo_deps demo_instance demo_config (epoch_event []) 1 False [] demo_world
       = (Inr (run, True), w')" using demo_goes by blast
  have b: "budgetStore_get (w_budgets demo_world) (si_instanceId demo_instance) = []"
    by (simp add: demo_world_def budgetStore_get_def)
  from reservation_follows_outcome [OF _ _ _ p] have
    "sr_runId run = zeros 64 \<and> ledger_ok (budgetStore_get (w_budgets w') (si_instanceId demo_instance))"
    unfolding b demo_run_id by (simp add: Let_def zeros_schemas findEntry_def)
  then show ?thesis using p by (auto simp: demo_instance_def)
qed

text \<open>
  A trigger is acted on at most once. Whatever the first delivery did, including throwing, a
  second delivery of the same occurrence to the same instance, under any configuration, options and
  time, returns the stored run as not created and changes nothing but the clock: no run, no ledger,
  no chain state; the first delivery wrote no run but its own.
\<close>

theorem redelivery_changes_nothing:
  assumes "triggerIdFor (d_keccak deps) trigger' = triggerIdFor (d_keccak deps) trigger"
    and "si_instanceId inst' = si_instanceId inst"
    and "w1 = snd (processTrigger deps inst config trigger v pending assetIds w)"
  shows "\<exists>r. processTrigger deps inst' config' trigger' v pending' assetIds' w1
          = (Inr (r, False), w1\<lparr>w_clock := Suc (w_clock w1)\<rparr>)
      \<and> (\<forall>run c. fst (processTrigger deps inst config trigger v pending assetIds w) = Inr (run, c) \<longrightarrow> run = r)
      \<and> (\<forall>j. j \<noteq> run_id deps inst trigger v \<longrightarrow> runStore_get (w_runs w1) j = runStore_get (w_runs w) j)"
proof -
  obtain r where r: "map_of (w_runs w1) = (map_of (w_runs w))(run_id deps inst trigger v \<mapsto> r)"
    "\<forall>run c. fst (processTrigger deps inst config trigger v pending assetIds w) = Inr (run, c) \<longrightarrow> run = r"
    using processTrigger_runs [of deps inst config trigger v pending assetIds w] assms(3) by blast
  have "run_id deps inst' trigger' v = run_id deps inst trigger v" by (simp add: run_id_def assms(1,2))
  then show ?thesis
    using r processTrigger_existing [of w1 deps inst' trigger' v r] by (auto simp: runStore_get_def)
qed

theorem redelivery_changes_nothing_witness:
  "\<exists>w1 r. processTrigger demo_deps demo_instance demo_config ((epoch_event [])\<lparr>te_observedAt := 99\<rparr>) 1 False [] w1
      = (Inr (r, False), w1\<lparr>w_clock := Suc (w_clock w1)\<rparr>)"
proof -
  have "triggerIdFor (d_keccak demo_deps) ((epoch_event [])\<lparr>te_observedAt := 99\<rparr>)
      = triggerIdFor (d_keccak demo_deps) (epoch_event [])"
    by (simp add: triggerIdFor_def epoch_event_def)
  from redelivery_changes_nothing [OF this refl refl, where inst = demo_instance and config = demo_config
      and v = 1 and pending = False and assetIds = "[]" and w = demo_world and config' = demo_config
      and pending' = False and assetIds' = "[]"] show ?thesis by blast
qed

text \<open>
  C27: every stored run is a lawful history. Delivering a trigger, draining a queue and recovering
  after a restart each keep, whether they return or throw, that every stored run is filed under its
  own id and has a history that is a path of the transition table from the first state to its current
  one, stamped with the time of its last step and with its submissions counted.
\<close>

theorem stored_runs_lawful:
  assumes "list_all (\<lambda>(i, r). sr_runId r = i \<and> run_ok r) (w_runs w)"
  shows "list_all (\<lambda>(i, r). sr_runId r = i \<and> run_ok r)
      (w_runs (snd (processTrigger deps inst config trigger v pending assetIds w)))
    \<and> list_all (\<lambda>(i, r). sr_runId r = i \<and> run_ok r) (w_runs (snd (drain deps queue w)))
    \<and> list_all (\<lambda>(i, r). sr_runId r = i \<and> run_ok r) (w_runs (snd (recover deps resolve w)))"
proof -
  have ok: "runs_ok w" using assms by (simp add: runs_ok_def list_all_iff)
  have p: "runs_ok (snd (processTrigger deps inst config trigger v pending assetIds w))"
    by (rule processTrigger_lawful [OF ok])
  have d: "runs_ok (snd (drain deps queue w))"
    using keeps_drainItems [of deps "[]" "drainOrder queue"] ok by (simp add: drain_def keeps_def)
  have r: "runs_ok (snd (recover deps resolve w))"
    using keeps_recoverRuns [OF resumable_lawful [OF ok], of deps resolve] ok by (simp add: recover_def keeps_def)
  show ?thesis using p d r unfolding runs_ok_def list_all_iff by blast
qed

theorem stored_runs_lawful_witness:
  "list_all (\<lambda>(i, r). sr_runId r = i \<and> run_ok r)
     (w_runs (snd (processTrigger demo_deps demo_instance demo_config (epoch_event []) 1 False [] demo_world)))"
  using stored_runs_lawful [of demo_world demo_deps demo_instance demo_config "epoch_event []" 1 False "[]"]
  by (simp add: demo_world_def)

section \<open>Recovery\<close>

text \<open>
  Recovery follows the chain. Reconciling a run never moves the chain. While the chain does not
  know the outcome of the last transaction nothing changes at all; once it does, a reconciliation
  that returns has completed the run and confirmed its reservation if the transaction succeeded and
  released it if it reverted, touching no other run's entry.
\<close>

theorem reconcile_follows_chain:
  assumes "sentinel_chain (d_chain deps) (d_gateway deps)"
    and "\<not> isRunTerminal (sr_state run)" "sr_transactions run \<noteq> []"
    and "ledger_ok (budgetStore_get (w_budgets w) (si_instanceId inst))"
    and "fst (cv_transactionOutcome (d_chain deps) (last (sr_transactions run)) (w_chain w)) = Inr known"
  shows "w_chain (snd (reconcile deps run inst w)) = w_chain w
    \<and> (known = None \<longrightarrow> reconcile deps run inst w = (Inr run, w))
    \<and> (\<forall>out run' w'. known = Some out \<and> reconcile deps run inst w = (Inr run', w') \<longrightarrow>
          sr_state run' = COMPLETE \<and> sr_runId run' = sr_runId run
        \<and> entry_state (budgetStore_get (w_budgets w') (si_instanceId inst)) (sr_runId run)
            = Some (case out of tx_success \<Rightarrow> CONFIRMED | tx_reverted \<Rightarrow> RELEASED)
        \<and> (\<forall>r. r \<noteq> sr_runId run \<longrightarrow> findEntry (budgetStore_get (w_budgets w') (si_instanceId inst)) r
              = findEntry (budgetStore_get (w_budgets w) (si_instanceId inst)) r))"
proof -
  have out: "cv_transactionOutcome (d_chain deps) (last (sr_transactions run)) (w_chain w) = (Inr known, w_chain w)"
    using sentinel_chain.outcome_reads [OF assms(1), of "last (sr_transactions run)" "w_chain w"] assms(5)
    by (simp add: prod_eq_iff)
  have q: "w_chain (snd (reconcile deps run inst w)) = w_chain w"
    using reconcile_quiet [OF assms(1), of run inst] by (simp add: preserves_def)
  have n: "reconcile deps run inst w = (Inr run, w)" if "known = None"
    using reconcile_still_unknown out that by simp
  have s: "sr_state run' = COMPLETE \<and> sr_runId run' = sr_runId run
        \<and> moved w (si_instanceId inst) (sr_runId run)
            (Some (case out of tx_success \<Rightarrow> CONFIRMED | tx_reverted \<Rightarrow> RELEASED)) w'"
    if "known = Some out" "reconcile deps run inst w = (Inr run', w')" for out run' w'
    using that reconcile_known [OF assms(2,3), of deps w out inst] out
      reconcile_success_settles [OF assms(4), of deps run run' w']
      reconcile_reverted_settles [OF assms(4), of deps run run' w']
    by (cases out) simp_all
  show ?thesis
  proof (intro conjI allI impI)
    show "w_chain (snd (reconcile deps run inst w)) = w_chain w" by (rule q)
    show "reconcile deps run inst w = (Inr run, w)" if "known = None" by (rule n [OF that])
    fix out run' w' assume "known = Some out \<and> reconcile deps run inst w = (Inr run', w')"
    then have "known = Some out" "reconcile deps run inst w = (Inr run', w')" by simp_all
    note t = s [OF this]
    show "sr_state run' = COMPLETE" "sr_runId run' = sr_runId run" using t by simp_all
    show "entry_state (budgetStore_get (w_budgets w') (si_instanceId inst)) (sr_runId run)
        = Some (case out of tx_success \<Rightarrow> CONFIRMED | tx_reverted \<Rightarrow> RELEASED)"
      using t by (simp add: moved_def ledger_moves_def)
    show "findEntry (budgetStore_get (w_budgets w') (si_instanceId inst)) r
        = findEntry (budgetStore_get (w_budgets w) (si_instanceId inst)) r" if "r \<noteq> sr_runId run" for r
      using t that by (simp add: moved_def ledger_moves_def)
  qed
qed

definition demo_lost_run :: SentinelRun where
  "demo_lost_run = (createRun (zeros 64) demo_id (epoch_event []) demo_id 1 100)
     \<lparr>sr_state := EXECUTION_UNKNOWN, sr_transactions := [zeros 64]\<rparr>"

theorem reconcile_follows_chain_witness:
  "reconcile demo_deps demo_lost_run demo_instance demo_world = (Inr demo_lost_run, demo_world)"
proof -
  have "ledger_ok (budgetStore_get (w_budgets demo_world) (si_instanceId demo_instance))"
    by (simp add: demo_world_def budgetStore_get_def)
  moreover have "fst (cv_transactionOutcome (d_chain demo_deps) (last (sr_transactions demo_lost_run))
      (w_chain demo_world)) = Inr None"
    by (simp add: demo_deps_def mockView_def demo_world_def demo_chain_def newMockChain_def)
  moreover have "\<not> isRunTerminal (sr_state demo_lost_run)" "sr_transactions demo_lost_run \<noteq> []"
    by (simp_all add: demo_lost_run_def isRunTerminal_def)
  ultimately show ?thesis using reconcile_follows_chain [OF demo_chain_ok] by blast
qed

lemma drainOrder_claims_first:
  assumes "k < length (drainOrder queue)" "\<not> claims (drainOrder queue ! k)"
  shows "accounts_of (take k (drainOrder queue)) = accounts_of queue"
proof -
  let ?q = "drainOrder queue" and ?r = "\<lambda>it. priorityRank (si_priorityClass (it_instance it))"
  have sorted: "sorted (map ?r ?q)" by (simp add: drainOrder_def)
  have "claims it \<Longrightarrow> it \<in> set ?q \<Longrightarrow> it \<in> set (take k ?q)" for it
  proof -
    assume it: "claims it" "it \<in> set ?q"
    then obtain j where j: "j < length ?q" "?q ! j = it" by (auto simp: in_set_conv_nth)
    have "j < k"
    proof (rule ccontr)
      assume "\<not> j < k"
      then have "?r (?q ! k) \<le> ?r (?q ! j)"
        using sorted_nth_mono [OF sorted, of k j] j(1) assms(1) by simp
      then show False using it j assms(2) by (simp add: claims_def)
    qed
    then show ?thesis using j by (auto simp: in_set_conv_nth)
  qed
  moreover have "set ?q = set queue" by (simp add: drainOrder_def)
  ultimately show ?thesis using set_take_subset [of k ?q] by (auto simp: accounts_of_def)
qed

text \<open>
  A yield instance gives way. A drain that returns gives one result per queued item, in order of
  priority; if the queue holds a higher-priority item on the same account, a yield item's run, when it
  is created by the drain, is blocked.
\<close>

theorem yield_gives_way:
  assumes "drain deps queue w = (Inr results, w')"
  shows "length results = length queue
    \<and> sorted (map (\<lambda>it. priorityRank (si_priorityClass (it_instance it))) (drainOrder queue))
    \<and> (\<forall>k < length queue. \<forall>it \<in> set queue.
          si_priorityClass (it_instance (drainOrder queue ! k)) = P4_YIELD_OPPORTUNISTIC
        \<and> si_priorityClass (it_instance it) \<noteq> P4_YIELD_OPPORTUNISTIC
        \<and> si_account (it_instance it) = si_account (it_instance (drainOrder queue ! k))
        \<and> snd (results ! k) \<longrightarrow> sr_state (fst (results ! k)) = BLOCKED_BY_POLICY)"
proof -
  have len: "length (drainOrder queue) = length queue" by (simp add: drainOrder_def)
  note y = drainItems_yield [OF assms [unfolded drain_def]]
  have "sr_state (fst (results ! k)) = BLOCKED_BY_POLICY"
    if k: "k < length queue" "it \<in> set queue"
      "si_priorityClass (it_instance (drainOrder queue ! k)) = P4_YIELD_OPPORTUNISTIC"
      "si_priorityClass (it_instance it) \<noteq> P4_YIELD_OPPORTUNISTIC"
      "si_account (it_instance it) = si_account (it_instance (drainOrder queue ! k))" "snd (results ! k)" for k it
  proof -
    have nc: "\<not> claims (drainOrder queue ! k)" using k(3) by (simp add: claims_iff)
    have "si_account (it_instance (drainOrder queue ! k)) \<in> accounts_of (take k (drainOrder queue))"
      unfolding drainOrder_claims_first [OF k(1) [folded len] nc] unfolding accounts_of_def k(5) [symmetric]
      using k(2,4) by (auto simp: claims_iff)
    then show ?thesis using y k(1,6) nc len by simp
  qed
  then show ?thesis using y len by (auto simp: drainOrder_def)
qed

definition demo_item :: "SafetyBufferConfig SupervisorItem" where
  "demo_item = \<lparr>it_instance = demo_instance, it_config = demo_config, it_trigger = epoch_event [],
     it_triggerVersion = 1\<rparr>"

theorem yield_gives_way_witness:
  "\<exists>results w'. drain demo_deps [demo_item] demo_world = (Inr results, w') \<and> length results = 1"
proof -
  obtain run w' where p: "processTrigger demo_deps demo_instance demo_config (epoch_event []) 1 False [] demo_world
       = (Inr (run, True), w')" using demo_goes by blast
  have "drain demo_deps [demo_item] demo_world = (Inr [(run, True)], w')"
    by (simp add: drain_def drainOrder_def demo_item_def p)
  with yield_gives_way [OF this] show ?thesis by auto
qed

section \<open>Plans\<close>

text \<open>
  What a plan has to be to be executed without a human. Validation admits a plan exactly when it is
  well-formed, an increase of risk comes from a template that may increase risk and a trigger of at
  least verified-external authority, a venue action finds an unrestricted session, the notional is
  within the budget, and the instance's policy asks for no confirmation.
\<close>

theorem plan_admitted_iff:
  "validatePlan inst snap plan trigger ledger rc t = Inr V_OK \<longleftrightarrow>
     sentinelPlanSchema plan
   \<and> (riskDirection plan = INCREASING \<longrightarrow>
        rc \<noteq> RISK_REDUCING_ONLY \<and> authorityAtLeast (te_authority trigger) VERIFIED_EXTERNAL)
   \<and> \<not> (venueAction plan \<and> isSessionRestrictive (option_default (sn_marketSession snap) SESSION_UNPROVEN))
   \<and> (\<exists>n. planNotionalUsd18 plan = Inr n \<and> withinBudget (si_budgetPolicy inst) ledger n ''0'' t = Inr None
        \<and> confirmationRequired (si_confirmationPolicy inst) plan trigger n = Inr None)"
  by (auto simp: validatePlan_def Let_def bindR_Inr_iff split: option.splits if_splits)

theorem plan_admitted_iff_witness:
  "sentinelPlanSchema (repayPlan ''15'' False)"
  using plan_admitted_iff [of demo_instance demo_snapshot "repayPlan ''15'' False" "epoch_event []" "[]"
      RISK_REDUCING_ONLY 100] demo_valid by blast

text \<open>
  An interpreted observation never makes an account riskier (I-66). Whatever authority an AI
  observation claims, the trigger built from it never lets a risk-increasing plan through validation,
  under any instance, template, ledger and snapshot.
\<close>

theorem observation_never_raises_risk:
  assumes "observationTrigger contentHash observationType claimed observedAt account detail = Inr trigger"
    and "riskDirection plan = INCREASING"
  shows "validatePlan inst snap plan trigger ledger rc t \<noteq> Inr V_OK"
proof -
  have "te_authority trigger = clampAuthority AI_OBSERVATION claimed"
    using assms(1) by (auto simp: observationTrigger_def build_def Let_def split: if_splits)
  then have "\<not> authorityAtLeast (te_authority trigger) VERIFIED_EXTERNAL"
    by (cases claimed) (simp_all add: clampAuthority_def authorityAtLeast_def)
  then show ?thesis using assms(2)
    by (auto simp: validatePlan_def Let_def bindR_Inr_iff split: option.splits if_splits)
qed

theorem observation_never_raises_risk_witness:
  "validatePlan demo_instance demo_snapshot (venueTradePlan \<lparr>vt_action = TRADE, vt_venueId = ''v'',
      vt_assetId = zeros 64, vt_side = BUY, vt_notionalUsd18 = ''15'', vt_maxSlippageBps = 10,
      vt_riskDirection = INCREASING\<rparr>) \<lparr>te_class = AI_OBSERVATION, te_authority = AI_INTERPRETED,
      te_identity = [(''content'', ''0x1''), (''type'', ''news'')], te_observedAt = 5, te_detail = None,
      te_account = None\<rparr> [] RISK_INCREASING 100 \<noteq> Inr V_OK"
proof -
  have "observationTrigger ''0x1'' ''news'' DETERMINISTIC_ONCHAIN 5 None None
    = Inr \<lparr>te_class = AI_OBSERVATION, te_authority = AI_INTERPRETED,
      te_identity = [(''content'', ''0x1''), (''type'', ''news'')], te_observedAt = 5, te_detail = None,
      te_account = None\<rparr>"
    by (simp add: observationTrigger_def build_def Let_def clampAuthority_def authorityAtLeast_def
        triggerEventSchema_def unixSecondsSchema_def truthy_def)
  from observation_never_raises_risk [OF this] show ?thesis by simp
qed

section \<open>The safety buffer, end to end\<close>

lemma target_debt:
  fixes m t :: int
  assumes "0 \<le> m" "0 \<le> t" "t \<le> 10000"
  shows "0 \<le> (m * (10000 - t)) div 10000" "(m * (10000 - t)) div 10000 \<le> m"
    "m * t \<le> (m - (m * (10000 - t)) div 10000) * 10000"
proof -
  let ?d = "(m * (10000 - t)) div 10000"
  have "?d * 10000 \<le> m * (10000 - t)" by (simp add: mult.commute times_div_less_eq_dividend)
  then show c: "m * t \<le> (m - ?d) * 10000" by (simp add: algebra_simps)
  have "0 \<le> m * (10000 - t)" using assms by (intro mult_nonneg_nonneg) simp_all
  then show "0 \<le> ?d" by (simp add: pos_imp_zdiv_nonneg_iff)
  have "m * (10000 - t) \<le> m * 10000" using assms by (simp add: mult_left_mono)
  then have "?d \<le> (m * 10000) div 10000" by (rule zdiv_mono1) simp
  then show "?d \<le> m" by simp
qed

text \<open>
  The compiler only ever repays, and just enough. From a well-formed snapshot a plan it returns is
  a repayment of a positive amount, at most the per-run cap and at most the debt, asked for only when
  the buffer is at or below the action level; if the cap did not bind, the debt left brings the buffer
  to the target.
\<close>

theorem safety_buffer_repays_enough:
  assumes "sentinelSnapshotSchema snap" "safetyBufferCompile c snap trigger = Inr compiled"
    and "cr_plan compiled = Some plan"
  shows "\<exists>amount. plan = repayPlan amount False \<and> usd18StringSchema amount \<and> riskDirection plan = REDUCING
    \<and> 0 < usd amount \<and> usd amount \<le> usd (sb_maxRepayPerRunUsd18 c) \<and> usd amount \<le> usd (sn_debtUsd18 snap)
    \<and> sn_bufferBps snap \<le> sb_actionBufferBps c
    \<and> (usd amount < usd (sb_maxRepayPerRunUsd18 c) \<longrightarrow>
         usd (sn_maintenanceLimitUsd18 snap) * sb_targetBufferBps c
           \<le> (usd (sn_maintenanceLimitUsd18 snap) - (usd (sn_debtUsd18 snap) - usd amount)) * 10000)"
proof -
  have n: "parseUsd18 (sn_debtUsd18 snap) = Inr (usd (sn_debtUsd18 snap))"
    "parseUsd18 (sn_maintenanceLimitUsd18 snap) = Inr (usd (sn_maintenanceLimitUsd18 snap))"
    using assms(1) by (simp_all add: sentinelSnapshotSchema_def parseUsd18_ok)
  have cfg: "safetyBufferConfigSchema c" using assms(2) by (auto simp: safetyBufferCompile_def split: if_splits)
  then have cap: "parseUsd18 (sb_maxRepayPerRunUsd18 c) = Inr (usd (sb_maxRepayPerRunUsd18 c))"
    and t: "0 \<le> sb_targetBufferBps c" "sb_targetBufferBps c \<le> 10000"
    by (simp_all add: safetyBufferConfigSchema_def parseUsd18_ok bpsSchema_def)
  define D where "D = usd (sn_debtUsd18 snap)"
  define M where "M = usd (sn_maintenanceLimitUsd18 snap)"
  define C where "C = usd (sb_maxRepayPerRunUsd18 c)"
  define T where "T = (M * (10000 - sb_targetBufferBps c)) div 10000"
  have nn: "0 \<le> D" "0 \<le> M" "0 \<le> C" by (simp_all add: D_def M_def C_def)
  note td = target_debt [OF nn(2) t, folded T_def]
  have T: "(M * (10000 - sb_targetBufferBps c)) sdiv 10000 = T"
    using nn t by (simp add: T_def sdiv_nonneg)
  define r where "r = (if C < (if T < D then D - T else 0) then C else (if T < D then D - T else 0))"
  have nz: "\<not> (D = 0 \<or> M = 0)" "\<not> sb_actionBufferBps c < sn_bufferBps snap" "\<not> r \<le> 0"
    using assms(2,3)
    by (auto simp: safetyBufferCompile_def cfg n cap no_plan_def Let_def D_def [symmetric] M_def [symmetric]
        C_def [symmetric] T r_def [symmetric] split: if_splits)
  have plan: "plan = repayPlan (show_int r) False"
    using assms(2,3) nz
    by (auto simp: safetyBufferCompile_def cfg n cap no_plan_def Let_def D_def [symmetric] M_def [symmetric]
        C_def [symmetric] T r_def [symmetric] formatUsd18_def split: if_splits)
  have r: "show_int r = show_nat (nat r)" "usd (show_int r) = r"
    using nz(3) by (simp_all add: show_int_def)
  have bounds: "r \<le> C" "r \<le> D" using nz(3) td(1) nn by (auto simp: r_def split: if_splits)
  have enough: "M * sb_targetBufferBps c \<le> (M - (D - r)) * 10000" if "r < C"
    using that nz(3) td(3) by (auto simp: r_def split: if_splits)
  show ?thesis
  proof (intro exI [of _ "show_int r"] conjI impI)
    show "plan = repayPlan (show_int r) False" by (rule plan)
    show "usd18StringSchema (show_int r)" by (simp add: r(1) usd18StringSchema_def canonical_show_nat)
    show "riskDirection plan = REDUCING" by (simp add: plan)
    show "0 < usd (show_int r)" "usd (show_int r) \<le> usd (sb_maxRepayPerRunUsd18 c)"
      "usd (show_int r) \<le> usd (sn_debtUsd18 snap)" "sn_bufferBps snap \<le> sb_actionBufferBps c"
      using nz bounds by (simp_all add: r(2) C_def D_def)
    show "usd (sn_maintenanceLimitUsd18 snap) * sb_targetBufferBps c
           \<le> (usd (sn_maintenanceLimitUsd18 snap) - (usd (sn_debtUsd18 snap) - usd (show_int r))) * 10000"
      if "usd (show_int r) < usd (sb_maxRepayPerRunUsd18 c)"
      using enough that by (simp add: r(2) C_def D_def M_def)
  qed
qed

lemma demo_snapshot_ok: "sentinelSnapshotSchema demo_snapshot"
  by (simp add: sentinelSnapshotSchema_def demo_snapshot_def demo_ids usd18StringSchema_def sample_numerals
      demo_decimals bpsSchema_def unixSecondsSchema_def)

theorem safety_buffer_repays_enough_witness:
  "0 < usd ''15'' \<and> usd ''15'' \<le> usd ''40'' \<and> usd ''15'' \<le> usd ''95''"
proof -
  have "cr_plan demo_compiled = Some (repayPlan ''15'' False)" by (simp add: demo_compiled_def)
  from safety_buffer_repays_enough [OF demo_snapshot_ok demo_compile this] show ?thesis
    by (auto simp: demo_config_def demo_snapshot_def)
qed

section \<open>What one delivery can do to the chain\<close>

definition reaches :: "('c \<Rightarrow> 'c \<Rightarrow> bool) \<Rightarrow> ('c, 'a) engine \<Rightarrow> bool" where
  "reaches Q m \<longleftrightarrow> (\<forall>w. w_chain (snd (m w)) = w_chain w \<or> Q (w_chain w) (w_chain (snd (m w))))"

lemma reaches_preserves: "preserves w_chain m \<Longrightarrow> reaches Q m"
  by (simp add: reaches_def preserves_def)

lemma reaches_step [simp]: "reaches Q (stepRun deps run dst opts)" and reaches_ret [simp]: "reaches Q (ret a)"
  by (simp_all add: reaches_preserves)

lemma reaches_after:
  assumes m: "preserves w_chain m" and f: "\<And>a. reaches Q (f a)"
  shows "reaches Q (bindW m f)"
  unfolding reaches_def
proof
  fix w
  show "w_chain (snd (bindW m f w)) = w_chain w \<or> Q (w_chain w) (w_chain (snd (bindW m f w)))"
  proof (cases "m w")
    case (Pair r v)
    then have "w_chain v = w_chain w" using preservesD [OF m] by blast
    then show ?thesis using Pair f by (cases r) (auto simp: reaches_def, metis)
  qed
qed

lemma reaches_before:
  assumes m: "reaches Q m" and f: "\<And>a. preserves w_chain (f a)"
  shows "reaches Q (bindW m f)"
  unfolding reaches_def
proof
  fix w
  show "w_chain (snd (bindW m f w)) = w_chain w \<or> Q (w_chain w) (w_chain (snd (bindW m f w)))"
  proof (cases "m w")
    case (Pair r v)
    then have "w_chain v = w_chain w \<or> Q (w_chain w) (w_chain v)" using m by (auto simp: reaches_def dest: spec [of _ w])
    then show ?thesis using Pair f by (cases r) (simp_all add: preserves_def)
  qed
qed

lemma reaches_lift:
  assumes "\<And>a. x = Inr a \<Longrightarrow> reaches Q (f a)"
  shows "reaches Q (bindW (lift x) f)"
  using assms by (cases x) (simp_all add: reaches_def)

definition executes ::
  "('c, 'cfg) SentinelEngineDeps \<Rightarrow> SentinelInstance \<Rightarrow> SentinelPlan \<Rightarrow> 'c \<Rightarrow> 'c \<Rightarrow> bool" where
  "executes deps inst plan c c' \<longleftrightarrow>
     (\<exists>snap r. c' = snd (d_gateway deps (request_for inst snap plan r) c))"

lemma execute_reaches: "reaches (executes deps inst plan) (execute deps inst run snap plan)"
  unfolding execute_def
proof (rule reaches_after)
  fix r
  have "preserves w_chain (settleOutcome deps inst result run)" for result run
    unfolding settleOutcome_def by (auto simp del: stepAll_Cons intro!: preserves_bind stepAll_preserves)
  then have "preserves w_chain (bindW (stepRun deps r SUBMITTED opts) (settleOutcome deps inst result))" for result opts
    by (intro preserves_bind) simp_all
  moreover have "reaches (executes deps inst plan) (on_chain (d_gateway deps (request_for inst snap plan r)))"
    unfolding reaches_def executes_def on_chain_def by (auto split: prod.split) (metis snd_conv)
  ultimately show "reaches (executes deps inst plan) (bindW (on_chain (d_gateway deps (request_for inst snap plan r)))
      (\<lambda>result. bindW (stepRun deps r SUBMITTED (no_options\<lparr>ao_transaction := Some (ex_txHash result)\<rparr>))
        (settleOutcome deps inst result)))"
    by (rule reaches_before [rotated])
qed simp

lemma authorizeStage_reaches:
  assumes sc: "sentinel_chain (d_chain deps) gw"
  shows "reaches (executes deps inst plan) (authorizeStage deps inst snap plan run)"
  unfolding authorizeStage_def
  by (intro reaches_after on_chain_reads [OF sentinel_chain.checkAuthorization_reads [OF sc]])
    (auto intro!: reaches_after execute_reaches split: AuthorizeOutcome.split)

lemma validateStage_reaches:
  assumes sc: "sentinel_chain (d_chain deps) gw"
  shows "reaches (executes deps inst plan) (validateStage deps inst trigger runtime snap plan run)"
  unfolding validateStage_def
  by (intro reaches_after)
    (auto intro!: reaches_after authorizeStage_reaches [OF sc] split: ValidateOutcome.split)

definition acts ::
  "('c, 'cfg) SentinelEngineDeps \<Rightarrow> SentinelInstance \<Rightarrow> 'cfg \<Rightarrow> TriggerEvent \<Rightarrow> 'c \<Rightarrow> 'c \<Rightarrow> bool" where
  "acts deps inst config trigger c c' \<longleftrightarrow>
     (\<exists>runtime snap compiled plan. map_of (d_templates deps) (si_templateId inst) = Some runtime
        \<and> tr_compile runtime config snap trigger = Inr compiled \<and> cr_plan compiled = Some plan
        \<and> executes deps inst plan c c')"

lemma compileStage_reaches:
  assumes sc: "sentinel_chain (d_chain deps) gw"
  shows "reaches (acts deps inst config trigger) (compileStage deps inst config trigger snap run)"
  unfolding compileStage_def
proof (rule reaches_after)
  fix r
  show "reaches (acts deps inst config trigger) (case map_of (d_templates deps) (si_templateId inst) of
         None \<Rightarrow> stepRun deps r PLAN_REJECTED (because ''unknown template - no compiler'')
       | Some runtime \<Rightarrow>
           bindW (lift (tr_compile runtime config snap trigger)) (\<lambda>compiled.
             case cr_plan compiled of
               None \<Rightarrow> stepRun deps r NO_ACTION_REQUIRED (because (cr_reason compiled))
             | Some plan \<Rightarrow>
                 bindW (stepRun deps r PLAN_READY ((because (cr_reason compiled))\<lparr>ao_plan := Some plan\<rparr>))
                   (\<lambda>run. validateStage deps inst trigger runtime snap plan run)))"
  proof (cases "map_of (d_templates deps) (si_templateId inst)")
    case None then show ?thesis by (simp add: reaches_preserves)
  next
    case (Some runtime)
    have "reaches (acts deps inst config trigger) (case cr_plan compiled of
               None \<Rightarrow> stepRun deps r NO_ACTION_REQUIRED (because (cr_reason compiled))
             | Some plan \<Rightarrow>
                 bindW (stepRun deps r PLAN_READY ((because (cr_reason compiled))\<lparr>ao_plan := Some plan\<rparr>))
                   (\<lambda>run. validateStage deps inst trigger runtime snap plan run))"
      if c: "tr_compile runtime config snap trigger = Inr compiled" for compiled
    proof (cases "cr_plan compiled")
      case None then show ?thesis by (simp add: reaches_preserves)
    next
      case (Some plan)
      have "acts deps inst config trigger c0 c1" if "executes deps inst plan c0 c1" for c0 c1
        using that c Some \<open>map_of _ _ = Some runtime\<close> by (auto simp: acts_def)
      then have "reaches (executes deps inst plan) m \<Longrightarrow> reaches (acts deps inst config trigger) m"
        for m :: "('a, SentinelRun) engine"
        by (auto simp: reaches_def)
      then have "reaches (acts deps inst config trigger) (validateStage deps inst trigger runtime snap plan run)" for run
        using validateStage_reaches [OF sc] by blast
      then show ?thesis using Some by (simp add: reaches_after)
    qed
    then show ?thesis using Some by (simp add: reaches_lift)
  qed
qed simp

lemma processTrigger_reaches:
  assumes sc: "sentinel_chain (d_chain deps) gw"
  shows "reaches (acts deps inst config trigger) (processTrigger deps inst config trigger v pending assetIds)"
proof -
  have s: "reaches (acts deps inst config trigger) (snapshotStage deps inst config trigger assetIds run)" for run
    unfolding snapshotStage_def
    by (intro reaches_after on_chain_reads [OF sentinel_chain.buildSnapshot_reads [OF sc]]
        compileStage_reaches [OF sc]) simp_all
  have b: "reaches (acts deps inst config trigger) (bindW (case armedGate inst trigger t pending of
                  Some gate \<Rightarrow> stepRun deps run BLOCKED_BY_POLICY (because gate)
                | None \<Rightarrow> snapshotStage deps inst config trigger assetIds run)
           (\<lambda>run. ret (run, True)))" for t run
    by (intro reaches_before) (auto intro: s split: option.split)
  have d: "reaches (acts deps inst config trigger) (bindW (now deps) (\<lambda>t.
         bindW (case armedGate inst trigger t pending of
                  Some gate \<Rightarrow> stepRun deps run BLOCKED_BY_POLICY (because gate)
                | None \<Rightarrow> snapshotStage deps inst config trigger assetIds run)
           (\<lambda>run. ret (run, True))))" for run
    by (rule reaches_after [OF now_preserves(1) b])
  show ?thesis
    unfolding processTrigger_def
    by (rule reaches_after [OF openRun_preserves(1)]) (simp add: d split: prod.split)
qed

section \<open>A Sentinel on the in-memory chain\<close>

text \<open>
  The gateway applies a plan only under the conjunction. When the in-memory gateway answers, the
  outcome is success exactly if the account exists, its mandate is live and allows the action, and the
  risk epoch is the expected one; a revert changes no account; a success changes no account but the
  requested one; no answer changes a mandate or the epoch; and the outcome is on record for
  reconciliation.
\<close>

theorem gateway_conjunction:
  assumes "mockGateway keccak req c = (Inr result, c')"
  shows "(ex_outcome result = EX_SUCCESS \<longleftrightarrow>
            (\<exists>a m. map_of (mc_accounts c) (er_account req) = Some a
               \<and> map_of (mc_mandates c) (er_mandateId req) = Some m \<and> ms_live m
               \<and> er_expectedEpoch req = mc_epoch c
               \<and> in_mask (ms_allowedActions m) (planActionBit (er_plan req))))
    \<and> (ex_outcome result \<noteq> EX_SUCCESS \<longrightarrow> mc_accounts c' = mc_accounts c)
    \<and> (\<forall>b. b \<noteq> er_account req \<longrightarrow> map_of (mc_accounts c') b = map_of (mc_accounts c) b)
    \<and> mc_mandates c' = mc_mandates c \<and> mc_epoch c' = mc_epoch c
    \<and> fst (cv_transactionOutcome (mockView keccak) (ex_txHash result) c')
        = Inr (Some (if ex_outcome result = EX_SUCCESS then tx_success else tx_reverted))"
  using assms
  by (auto simp: mockGateway_def mockRevert_def Let_def update_conv mockView_def
      split: option.splits if_splits sum.splits)

theorem gateway_conjunction_witness:
  "mc_epoch demo_chain = 1 \<and> in_mask (ms_allowedActions demo_mandate) 1"
proof -
  have g: "mockGateway demo_keccak (request_for demo_instance demo_snapshot (repayPlan ''15'' False)
      ((createRun (zeros 64) demo_id (epoch_event []) demo_id 1 100))) demo_chain
     = (Inr \<lparr>ex_txHash = zeros 64, ex_outcome = EX_SUCCESS, ex_revertReason = None\<rparr>,
        demo_chain\<lparr>mc_txSeq := 1, mc_accounts := [(demo_address, demo_account\<lparr>ma_debt := 80\<rparr>)],
                   mc_txs := [(zeros 64, tx_success)]\<rparr>)"
    by (rule demo_gateway) (simp add: createRun_def)
  have "in_mask (ms_allowedActions demo_mandate) 1" by (simp add: demo_mandate_def in_mask_bit bit_iff_odd)
  then show ?thesis using gateway_conjunction [OF g] by (simp add: demo_chain_def newMockChain_def)
qed

lemma mockBuffer_mono:
  assumes "0 \<le> ma_debt b" "ma_debt b \<le> ma_debt a" "0 \<le> ma_maintenance a" "ma_maintenance b = ma_maintenance a"
  shows "mockBuffer a \<le> mockBuffer b"
proof -
  have m: "(ma_maintenance a - ma_debt a) * 10000 div ma_maintenance a
      \<le> (ma_maintenance a - ma_debt b) * 10000 div ma_maintenance a"
    if "0 < ma_maintenance a" using assms that by (intro zdiv_mono1) simp_all
  then show ?thesis using assms by (auto simp: mockBuffer_def sdiv_nonneg pos_imp_zdiv_nonneg_iff)
qed

definition safer :: "MockAccount \<Rightarrow> MockAccount \<Rightarrow> bool" where
  "safer a b \<longleftrightarrow> b = a\<lparr>ma_debt := ma_debt b\<rparr> \<and> 0 \<le> ma_debt b \<and> ma_debt b \<le> ma_debt a
     \<and> mockBuffer a \<le> mockBuffer b"

text \<open>Besides the accounts, at most one entry of the transaction log and the sequence number differ.\<close>

definition logged_only :: "MockChain \<Rightarrow> MockChain \<Rightarrow> bool" where
  "logged_only c c' \<longleftrightarrow>
     c' = c\<lparr>mc_accounts := mc_accounts c', mc_txs := mc_txs c', mc_txSeq := mc_txSeq c'\<rparr>
   \<and> (\<exists>h. \<forall>k. k \<noteq> h \<longrightarrow> map_of (mc_txs c') k = map_of (mc_txs c) k)
   \<and> mc_txSeq c \<le> mc_txSeq c' \<and> mc_txSeq c' \<le> Suc (mc_txSeq c)"

lemma logged_only_refl [simp]: "logged_only c c"
  by (simp add: logged_only_def)

lemma safer_refl: "0 \<le> ma_debt a \<Longrightarrow> safer a a"
  by (simp add: safer_def)

lemma gateway_repay:
  assumes plan: "er_plan req = repayPlan amount b" "parseUsd18 amount = Inr n" "0 \<le> n"
    and ok: "\<And>x a. map_of (mc_accounts c) x = Some a \<Longrightarrow> 0 \<le> ma_debt a \<and> 0 \<le> ma_maintenance a"
    and c': "c' = snd (mockGateway keccak req c)"
  shows "mc_mandates c' = mc_mandates c \<and> mc_epoch c' = mc_epoch c
    \<and> (\<forall>x. x \<noteq> er_account req \<longrightarrow> map_of (mc_accounts c') x = map_of (mc_accounts c) x)
    \<and> rel_option safer (map_of (mc_accounts c) (er_account req)) (map_of (mc_accounts c') (er_account req))
    \<and> logged_only c c'"
proof -
  let ?x = "er_account req"
  have refl: "rel_option safer (map_of (mc_accounts c) ?x) (map_of (mc_accounts c) ?x)"
    using ok [of ?x] safer_refl by (cases "map_of (mc_accounts c) ?x") auto
  have s: "safer a (a\<lparr>ma_debt := (if n < ma_debt a then ma_debt a - n else 0)\<rparr>)"
    if "map_of (mc_accounts c) ?x = Some a" for a
    using ok [OF that] plan(3) by (auto simp: safer_def intro!: mockBuffer_mono)
  show ?thesis
    using refl s
    by (auto simp: c' mockGateway_def mockRevert_def Let_def plan update_conv logged_only_def split: option.splits)
qed

lemma safetyBuffer_repays:
  assumes "safetyBufferCompile cfg snap trigger = Inr compiled" "cr_plan compiled = Some plan"
  shows "\<exists>amount n. plan = repayPlan amount False \<and> parseUsd18 amount = Inr n \<and> 0 \<le> n"
proof -
  obtain D M where n: "parseUsd18 (sn_debtUsd18 snap) = Inr D" "parseUsd18 (sn_maintenanceLimitUsd18 snap) = Inr M"
    using assms(1) by (cases "parseUsd18 (sn_debtUsd18 snap)"; cases "parseUsd18 (sn_maintenanceLimitUsd18 snap)")
      (auto simp: safetyBufferCompile_def split: if_splits)
  obtain C where cap: "parseUsd18 (sb_maxRepayPerRunUsd18 cfg) = Inr C"
    using assms by (cases "parseUsd18 (sb_maxRepayPerRunUsd18 cfg)")
      (auto simp: safetyBufferCompile_def n no_plan_def Let_def split: if_splits)
  define T where "T = (M * (10000 - sb_targetBufferBps cfg)) sdiv 10000"
  define r where "r = (if C < (if T < D then D - T else 0) then C else (if T < D then D - T else 0))"
  have r: "0 < r" "plan = repayPlan (show_int r) False"
    using assms
    by (auto simp: safetyBufferCompile_def n cap no_plan_def Let_def T_def [symmetric] r_def [symmetric]
        formatUsd18_def split: if_splits)
  have "parseUsd18 (show_int r) = Inr r" using r(1) by (simp add: parseUsd18_def show_int_def)
  then show ?thesis using r by force
qed

text \<open>
  C12: a safety-buffer Sentinel only ever makes its account safer. On the in-memory chain, with templates
  that all compile safety buffers, one delivery under any trigger, configuration, ledger and outcome,
  exceptions included, changes of the chain at most its own account, one entry of the transaction log
  and its sequence number: no other account, no mandate, no passport, not the epoch, the session, the
  block or the chain. Its own account keeps everything but the debt, which never rises, so its buffer
  never falls. The accounts start with debts and maintenance limits that are not negative.
\<close>

theorem sentinel_only_makes_safer:
  assumes "d_chain deps = mockView keccak" "d_gateway deps = mockGateway keccak"
    and "\<forall>(i, runtime) \<in> set (d_templates deps). tr_compile runtime = safetyBufferCompile"
    and "\<forall>x a. map_of (mc_accounts (w_chain w)) x = Some a \<longrightarrow> 0 \<le> ma_debt a \<and> 0 \<le> ma_maintenance a"
    and "c' = w_chain (snd (processTrigger deps inst config trigger v pending assetIds w))"
  shows "c' = (w_chain w)\<lparr>mc_accounts := mc_accounts c', mc_txs := mc_txs c', mc_txSeq := mc_txSeq c'\<rparr>
    \<and> mc_mandates c' = mc_mandates (w_chain w) \<and> mc_passports c' = mc_passports (w_chain w)
    \<and> mc_epoch c' = mc_epoch (w_chain w) \<and> mc_session c' = mc_session (w_chain w)
    \<and> (\<exists>h. \<forall>k. k \<noteq> h \<longrightarrow> map_of (mc_txs c') k = map_of (mc_txs (w_chain w)) k)
    \<and> mc_txSeq (w_chain w) \<le> mc_txSeq c' \<and> mc_txSeq c' \<le> Suc (mc_txSeq (w_chain w))
    \<and> (\<forall>x. x \<noteq> si_account inst \<longrightarrow> map_of (mc_accounts c') x = map_of (mc_accounts (w_chain w)) x)
    \<and> (\<forall>a. map_of (mc_accounts (w_chain w)) (si_account inst) = Some a \<longrightarrow>
          (\<exists>b. map_of (mc_accounts c') (si_account inst) = Some b \<and> b = a\<lparr>ma_debt := ma_debt b\<rparr>
             \<and> 0 \<le> ma_debt b \<and> ma_debt b \<le> ma_debt a \<and> mockBuffer a \<le> mockBuffer b))"
proof -
  let ?c = "w_chain w"
  have sc: "sentinel_chain (d_chain deps) (mockGateway keccak)"
    by (simp add: assms(1) mock_chain.sentinel_chain_axioms)
  have "c' = ?c \<or> acts deps inst config trigger ?c c'"
    using processTrigger_reaches [OF sc, of inst config trigger v pending assetIds] assms(5)
    by (auto simp: reaches_def)
  then show ?thesis
  proof
    assume "c' = ?c"
    then show ?thesis using assms(4) by (auto intro!: exI)
  next
    assume "acts deps inst config trigger ?c c'"
    then obtain runtime snap compiled plan where
      t: "map_of (d_templates deps) (si_templateId inst) = Some runtime"
        "tr_compile runtime config snap trigger = Inr compiled" "cr_plan compiled = Some plan"
      and e: "executes deps inst plan ?c c'" unfolding acts_def by blast
    have "tr_compile runtime = safetyBufferCompile" using assms(3) map_of_SomeD [OF t(1)] by auto
    with t(2,3) safetyBuffer_repays obtain amount n where
      p: "plan = repayPlan amount False" "parseUsd18 amount = Inr n" "0 \<le> n" by metis
    from e obtain snap' r where
      c': "c' = snd (mockGateway keccak (request_for inst snap' plan r) ?c)"
      unfolding executes_def assms(2) by blast
    have "er_plan (request_for inst snap' plan r) = repayPlan amount False"
      "er_account (request_for inst snap' plan r) = si_account inst"
      by (simp_all add: request_for_def p(1))
    from gateway_repay [OF this(1) p(2,3) _ c', unfolded this(2)] assms(4)
    have "mc_mandates c' = mc_mandates ?c \<and> mc_epoch c' = mc_epoch ?c
      \<and> (\<forall>x. x \<noteq> si_account inst \<longrightarrow> map_of (mc_accounts c') x = map_of (mc_accounts ?c) x)
      \<and> rel_option safer (map_of (mc_accounts ?c) (si_account inst)) (map_of (mc_accounts c') (si_account inst))
      \<and> logged_only ?c c'"
      by blast
    moreover from this have e: "c' = ?c\<lparr>mc_accounts := mc_accounts c', mc_txs := mc_txs c', mc_txSeq := mc_txSeq c'\<rparr>"
      by (simp only: logged_only_def)
    then have "mc_passports c' = mc_passports ?c" "mc_session c' = mc_session ?c"
      by (metis MockChain.select_convs(5,7) MockChain.surjective MockChain.update_convs(3,6,8))+
    ultimately show ?thesis using e unfolding logged_only_def by (auto simp: option_rel_Some1 safer_def)
  qed
qed

theorem sentinel_only_makes_safer_witness:
  "\<exists>run w' b. processTrigger demo_deps demo_instance demo_config (epoch_event []) 1 False [] demo_world
       = (Inr (run, True), w')
     \<and> ma_debt demo_account = 95 \<and> map_of (mc_accounts (w_chain w')) demo_address = Some b \<and> ma_debt b = 80
     \<and> mockBuffer demo_account \<le> mockBuffer b \<and> mc_mandates (w_chain w') = mc_mandates demo_chain"
proof -
  obtain run w' where p: "processTrigger demo_deps demo_instance demo_config (epoch_event []) 1 False [] demo_world
       = (Inr (run, True), w')"
    and c: "w_chain w' = demo_chain\<lparr>mc_txSeq := 1, mc_accounts := [(demo_address, demo_account\<lparr>ma_debt := 80\<rparr>)],
                   mc_txs := [(zeros 64, tx_success)]\<rparr>"
    using demo_goes by blast
  have acc: "mc_accounts demo_chain = [(demo_address, demo_account)]" "w_chain demo_world = demo_chain"
    by (simp_all add: demo_world_def demo_chain_def)
  have "\<forall>x a. map_of (mc_accounts (w_chain demo_world)) x = Some a \<longrightarrow> 0 \<le> ma_debt a \<and> 0 \<le> ma_maintenance a"
    by (auto simp: acc demo_account_def split: if_splits)
  moreover have "d_chain demo_deps = mockView demo_keccak" "d_gateway demo_deps = mockGateway demo_keccak"
    "\<forall>(i, runtime) \<in> set (d_templates demo_deps). tr_compile runtime = safetyBufferCompile"
    "si_account demo_instance = demo_address"
    by (simp_all add: demo_deps_def safetyBufferRuntime_def demo_instance_def)
  moreover have "w_chain w' = w_chain (snd (processTrigger demo_deps demo_instance demo_config (epoch_event []) 1 False [] demo_world))"
    by (simp add: p)
  ultimately show ?thesis
    using sentinel_only_makes_safer [of demo_deps demo_keccak demo_world "w_chain w'" demo_instance demo_config
        "epoch_event []" 1 False "[]"] acc c p
    by (auto simp: demo_account_def)
qed

end
