(* ===== verification/Evidence_Workflow.thy ===== *)
theory Evidence_Workflow
  imports Interfaces Js_Json
begin

text \<open>
  The evidence-to-Passport workflow of \<open>services/evidence/src/workflow.ts\<close> and
  \<open>workflow-store.ts\<close>: the transition table, the record and its transitions, the keyed store with
  optimistic concurrency, and the reconciler that resolves an unknown submission by asking the chain.
  \<open>keccak256\<close> is a parameter; the chain is a record of the answers one reconciliation gets, each of
  which may be a rejected promise. Strings the identity is derived from are ASCII.
\<close>

section \<open>States\<close>

datatype WorkflowState =
    CREATED
  | EVIDENCE_RESOLVING
  | EVIDENCE_READY
  | EXTRACTION_RUNNING
  | EXTRACTION_COMPLETE
  | CORROBORATING
  | SINGLE_SOURCE
  | CLAIM_CONFLICT
  | EVIDENCE_VERIFIED
  | PASSPORT_BUILDING
  | PASSPORT_CANDIDATE_READY
  | ADMISSION_EVALUATING
  | EVIDENCE_COMMIT_PENDING
  | EVIDENCE_COMMIT_SUBMITTED
  | EVIDENCE_COMMIT_CONFIRMED
  | PASSPORT_COMMIT_PENDING
  | PASSPORT_COMMIT_SUBMITTED
  | PASSPORT_COMMIT_CONFIRMED
  | RISK_REEVALUATING
  | RISK_EPOCH_ACTIVATED
  | ACCOUNT_REEVALUATING
  | COMPLETE
  | SOURCE_UNAVAILABLE
  | EXTRACTION_FAILED
  | CORROBORATION_FAILED
  | NEEDS_EVIDENCE
  | POLICY_REJECTED
  | COMMIT_FAILED
  | CONFIRMATION_UNKNOWN
  | RECONCILIATION_REQUIRED

fun workflow_state_name :: "WorkflowState \<Rightarrow> string" where
  "workflow_state_name CREATED = ''CREATED''"
| "workflow_state_name EVIDENCE_RESOLVING = ''EVIDENCE_RESOLVING''"
| "workflow_state_name EVIDENCE_READY = ''EVIDENCE_READY''"
| "workflow_state_name EXTRACTION_RUNNING = ''EXTRACTION_RUNNING''"
| "workflow_state_name EXTRACTION_COMPLETE = ''EXTRACTION_COMPLETE''"
| "workflow_state_name CORROBORATING = ''CORROBORATING''"
| "workflow_state_name SINGLE_SOURCE = ''SINGLE_SOURCE''"
| "workflow_state_name CLAIM_CONFLICT = ''CLAIM_CONFLICT''"
| "workflow_state_name EVIDENCE_VERIFIED = ''EVIDENCE_VERIFIED''"
| "workflow_state_name PASSPORT_BUILDING = ''PASSPORT_BUILDING''"
| "workflow_state_name PASSPORT_CANDIDATE_READY = ''PASSPORT_CANDIDATE_READY''"
| "workflow_state_name ADMISSION_EVALUATING = ''ADMISSION_EVALUATING''"
| "workflow_state_name EVIDENCE_COMMIT_PENDING = ''EVIDENCE_COMMIT_PENDING''"
| "workflow_state_name EVIDENCE_COMMIT_SUBMITTED = ''EVIDENCE_COMMIT_SUBMITTED''"
| "workflow_state_name EVIDENCE_COMMIT_CONFIRMED = ''EVIDENCE_COMMIT_CONFIRMED''"
| "workflow_state_name PASSPORT_COMMIT_PENDING = ''PASSPORT_COMMIT_PENDING''"
| "workflow_state_name PASSPORT_COMMIT_SUBMITTED = ''PASSPORT_COMMIT_SUBMITTED''"
| "workflow_state_name PASSPORT_COMMIT_CONFIRMED = ''PASSPORT_COMMIT_CONFIRMED''"
| "workflow_state_name RISK_REEVALUATING = ''RISK_REEVALUATING''"
| "workflow_state_name RISK_EPOCH_ACTIVATED = ''RISK_EPOCH_ACTIVATED''"
| "workflow_state_name ACCOUNT_REEVALUATING = ''ACCOUNT_REEVALUATING''"
| "workflow_state_name COMPLETE = ''COMPLETE''"
| "workflow_state_name SOURCE_UNAVAILABLE = ''SOURCE_UNAVAILABLE''"
| "workflow_state_name EXTRACTION_FAILED = ''EXTRACTION_FAILED''"
| "workflow_state_name CORROBORATION_FAILED = ''CORROBORATION_FAILED''"
| "workflow_state_name NEEDS_EVIDENCE = ''NEEDS_EVIDENCE''"
| "workflow_state_name POLICY_REJECTED = ''POLICY_REJECTED''"
| "workflow_state_name COMMIT_FAILED = ''COMMIT_FAILED''"
| "workflow_state_name CONFIRMATION_UNKNOWN = ''CONFIRMATION_UNKNOWN''"
| "workflow_state_name RECONCILIATION_REQUIRED = ''RECONCILIATION_REQUIRED''"

definition TERMINAL_STATES :: "WorkflowState list" where
  "TERMINAL_STATES = [COMPLETE, CLAIM_CONFLICT, POLICY_REJECTED, RECONCILIATION_REQUIRED]"

definition isTerminal :: "WorkflowState \<Rightarrow> bool" where
  "isTerminal s \<longleftrightarrow> s \<in> set TERMINAL_STATES"

definition IN_FLIGHT_STATES :: "WorkflowState list" where
  "IN_FLIGHT_STATES = [EVIDENCE_COMMIT_SUBMITTED, PASSPORT_COMMIT_SUBMITTED, CONFIRMATION_UNKNOWN]"

fun TRANSITIONS :: "WorkflowState \<Rightarrow> WorkflowState list" where
  "TRANSITIONS CREATED = [EVIDENCE_RESOLVING]"
| "TRANSITIONS EVIDENCE_RESOLVING = [EVIDENCE_READY, SOURCE_UNAVAILABLE]"
| "TRANSITIONS EVIDENCE_READY = [EXTRACTION_RUNNING]"
| "TRANSITIONS EXTRACTION_RUNNING = [EXTRACTION_COMPLETE, EXTRACTION_FAILED]"
| "TRANSITIONS EXTRACTION_COMPLETE = [CORROBORATING]"
| "TRANSITIONS CORROBORATING = [EVIDENCE_VERIFIED, SINGLE_SOURCE, CLAIM_CONFLICT, CORROBORATION_FAILED]"
| "TRANSITIONS SINGLE_SOURCE = [PASSPORT_BUILDING]"
| "TRANSITIONS EVIDENCE_VERIFIED = [PASSPORT_BUILDING]"
| "TRANSITIONS CLAIM_CONFLICT = []"
| "TRANSITIONS PASSPORT_BUILDING = [PASSPORT_CANDIDATE_READY, NEEDS_EVIDENCE]"
| "TRANSITIONS PASSPORT_CANDIDATE_READY = [ADMISSION_EVALUATING]"
| "TRANSITIONS ADMISSION_EVALUATING = [EVIDENCE_COMMIT_PENDING, POLICY_REJECTED, NEEDS_EVIDENCE]"
| "TRANSITIONS EVIDENCE_COMMIT_PENDING = [EVIDENCE_COMMIT_SUBMITTED, COMMIT_FAILED]"
| "TRANSITIONS EVIDENCE_COMMIT_SUBMITTED =
     [EVIDENCE_COMMIT_CONFIRMED, CONFIRMATION_UNKNOWN, COMMIT_FAILED]"
| "TRANSITIONS EVIDENCE_COMMIT_CONFIRMED = [PASSPORT_COMMIT_PENDING]"
| "TRANSITIONS PASSPORT_COMMIT_PENDING = [PASSPORT_COMMIT_SUBMITTED, COMMIT_FAILED]"
| "TRANSITIONS PASSPORT_COMMIT_SUBMITTED =
     [PASSPORT_COMMIT_CONFIRMED, CONFIRMATION_UNKNOWN, COMMIT_FAILED]"
| "TRANSITIONS PASSPORT_COMMIT_CONFIRMED = [RISK_REEVALUATING]"
| "TRANSITIONS RISK_REEVALUATING = [RISK_EPOCH_ACTIVATED, RECONCILIATION_REQUIRED]"
| "TRANSITIONS RISK_EPOCH_ACTIVATED = [ACCOUNT_REEVALUATING]"
| "TRANSITIONS ACCOUNT_REEVALUATING = [COMPLETE, RECONCILIATION_REQUIRED]"
| "TRANSITIONS COMPLETE = []"
| "TRANSITIONS SOURCE_UNAVAILABLE = [EVIDENCE_RESOLVING, RECONCILIATION_REQUIRED]"
| "TRANSITIONS EXTRACTION_FAILED = [EXTRACTION_RUNNING, RECONCILIATION_REQUIRED]"
| "TRANSITIONS CORROBORATION_FAILED = [CORROBORATING, RECONCILIATION_REQUIRED]"
| "TRANSITIONS NEEDS_EVIDENCE = [EVIDENCE_RESOLVING, RECONCILIATION_REQUIRED]"
| "TRANSITIONS POLICY_REJECTED = []"
| "TRANSITIONS COMMIT_FAILED =
     [EVIDENCE_COMMIT_PENDING, PASSPORT_COMMIT_PENDING, RECONCILIATION_REQUIRED]"
| "TRANSITIONS CONFIRMATION_UNKNOWN =
     [EVIDENCE_COMMIT_CONFIRMED, PASSPORT_COMMIT_CONFIRMED, EVIDENCE_COMMIT_PENDING,
      PASSPORT_COMMIT_PENDING, RECONCILIATION_REQUIRED]"
| "TRANSITIONS RECONCILIATION_REQUIRED = []"

definition canTransition :: "WorkflowState \<Rightarrow> WorkflowState \<Rightarrow> bool" where
  "canTransition src dst \<longleftrightarrow> dst \<in> set (TRANSITIONS src)"

definition nextStates :: "WorkflowState \<Rightarrow> WorkflowState list" where
  "nextStates src = TRANSITIONS src"

datatype workflow_error =
    IllegalTransition WorkflowState WorkflowState
  | WorkflowConflict string
  | ChainReadFailed string

interpretation workflow_table: transition_table TRANSITIONS canTransition isTerminal
proof
  fix a b :: WorkflowState
  show "canTransition a b \<longleftrightarrow> b \<in> set (TRANSITIONS a)" by (simp add: canTransition_def)
  show "isTerminal a \<longleftrightarrow> TRANSITIONS a = []"
    by (cases a) (simp_all add: isTerminal_def TERMINAL_STATES_def)
qed

section \<open>Identity and record\<close>

record WorkflowIdentity =
  wi_assetId :: string
  wi_evidenceIds :: "string list"
  wi_passportSchemaVersion :: string
  wi_admissionPolicyVersion :: string

definition workflowIdFor :: "(string \<Rightarrow> string) \<Rightarrow> WorkflowIdentity \<Rightarrow> string" where
  "workflowIdFor keccak i = keccak (JSON_stringify (JObj
     [(''assetId'', JStr (toLowerCase (wi_assetId i))),
      (''evidenceIds'', JArr (map JStr (sort (map toLowerCase (wi_evidenceIds i))))),
      (''passportSchemaVersion'', JStr (wi_passportSchemaVersion i)),
      (''admissionPolicyVersion'', JStr (wi_admissionPolicyVersion i))]))"

record WorkflowTransition =
  wt_at :: int
  wt_from :: WorkflowState
  wt_to :: WorkflowState
  wt_note :: "string option"

datatype WorkflowTxStatus = wtx_submitted | wtx_success | wtx_reverted

record WorkflowTransactionRef =
  tr_label :: string
  tr_txHash :: string
  tr_blockNumber :: "int option"
  tr_status :: WorkflowTxStatus

record WorkflowRecord =
  wr_workflowId :: string
  wr_identity :: WorkflowIdentity
  wr_chainId :: int
  wr_state :: WorkflowState
  wr_candidateId :: "string option"
  wr_passportVersion :: "int option"
  wr_evidenceRoot :: "string option"
  wr_claimsRoot :: "string option"
  wr_singleSource :: "bool option"
  wr_riskEpoch :: "int option"
  wr_transactions :: "WorkflowTransactionRef list"
  wr_history :: "WorkflowTransition list"
  wr_failureReason :: "string option"
  wr_attempts :: int
  wr_createdAt :: int
  wr_updatedAt :: int

definition createWorkflow :: "(string \<Rightarrow> string) \<Rightarrow> WorkflowIdentity \<Rightarrow> int \<Rightarrow> int \<Rightarrow> WorkflowRecord" where
  "createWorkflow keccak identity chainId now =
     \<lparr>wr_workflowId = workflowIdFor keccak identity, wr_identity = identity, wr_chainId = chainId,
      wr_state = CREATED, wr_candidateId = None, wr_passportVersion = None, wr_evidenceRoot = None,
      wr_claimsRoot = None, wr_singleSource = None, wr_riskEpoch = None, wr_transactions = [],
      wr_history = [], wr_failureReason = None, wr_attempts = 0, wr_createdAt = now,
      wr_updatedAt = now\<rparr>"

text \<open>A patch names the fields it sets; a named field may be set to \<open>null\<close>.\<close>

record WorkflowPatch =
  pa_candidateId :: "string option option"
  pa_passportVersion :: "int option option"
  pa_evidenceRoot :: "string option option"
  pa_claimsRoot :: "string option option"
  pa_singleSource :: "bool option option"
  pa_riskEpoch :: "int option option"

definition no_patch :: WorkflowPatch where
  "no_patch = \<lparr>pa_candidateId = None, pa_passportVersion = None, pa_evidenceRoot = None,
     pa_claimsRoot = None, pa_singleSource = None, pa_riskEpoch = None\<rparr>"

record AdvanceOptions =
  op_note :: "string option"
  op_failureReason :: "string option"
  op_patch :: WorkflowPatch
  op_transaction :: "WorkflowTransactionRef option"

definition no_advance_options :: AdvanceOptions where
  "no_advance_options = \<lparr>op_note = None, op_failureReason = None, op_patch = no_patch, op_transaction = None\<rparr>"

definition apply_patch :: "WorkflowPatch \<Rightarrow> WorkflowRecord \<Rightarrow> WorkflowRecord" where
  "apply_patch p r = r\<lparr>
     wr_candidateId := option_default (pa_candidateId p) (wr_candidateId r),
     wr_passportVersion := option_default (pa_passportVersion p) (wr_passportVersion r),
     wr_evidenceRoot := option_default (pa_evidenceRoot p) (wr_evidenceRoot r),
     wr_claimsRoot := option_default (pa_claimsRoot p) (wr_claimsRoot r),
     wr_singleSource := option_default (pa_singleSource p) (wr_singleSource r),
     wr_riskEpoch := option_default (pa_riskEpoch p) (wr_riskEpoch r)\<rparr>"

definition advance ::
  "WorkflowRecord \<Rightarrow> WorkflowState \<Rightarrow> int \<Rightarrow> AdvanceOptions \<Rightarrow> workflow_error + WorkflowRecord" where
  "advance r dst now options =
     (if \<not> canTransition (wr_state r) dst then Inl (IllegalTransition (wr_state r) dst)
      else Inr ((apply_patch (op_patch options) r)\<lparr>
        wr_state := dst,
        wr_attempts := (if dst = EVIDENCE_COMMIT_SUBMITTED \<or> dst = PASSPORT_COMMIT_SUBMITTED
                        then wr_attempts r + 1 else wr_attempts r),
        wr_transactions := (case op_transaction options of
            Some t \<Rightarrow> filter (\<lambda>u. tr_txHash u \<noteq> tr_txHash t) (wr_transactions r) @ [t]
          | None \<Rightarrow> wr_transactions r),
        wr_history := wr_history r
            @ [\<lparr>wt_at = now, wt_from = wr_state r, wt_to = dst, wt_note = op_note options\<rparr>],
        wr_failureReason := option_or (op_failureReason options)
            (if isTerminal dst then wr_failureReason r else None),
        wr_updatedAt := now\<rparr>))"

section \<open>The store\<close>

type_synonym workflow_store = "(string \<times> WorkflowRecord) list"

type_synonym 'a workflow = "(workflow_store, workflow_error, 'a) action"

definition RESUMABLE :: "WorkflowState list" where
  "RESUMABLE = [EVIDENCE_COMMIT_SUBMITTED, PASSPORT_COMMIT_SUBMITTED, CONFIRMATION_UNKNOWN, COMMIT_FAILED]"

definition workflowStore_get :: "workflow_store \<Rightarrow> string \<Rightarrow> WorkflowRecord option" where
  "workflowStore_get st workflowId = map_of st workflowId"

definition workflowStore_save ::
  "workflow_store \<Rightarrow> WorkflowRecord \<Rightarrow> int option option \<Rightarrow> workflow_error + workflow_store" where
  "workflowStore_save st r expectedUpdatedAt =
     (case expectedUpdatedAt of
        None \<Rightarrow> Inr (AList.update (wr_workflowId r) r st)
      | Some e \<Rightarrow>
          if map_option wr_updatedAt (map_of st (wr_workflowId r)) \<noteq> e
          then Inl (WorkflowConflict (wr_workflowId r))
          else Inr (AList.update (wr_workflowId r) r st))"

definition workflowStore_list :: "workflow_store \<Rightarrow> WorkflowState option \<Rightarrow> WorkflowRecord list" where
  "workflowStore_list st state =
     sort_key wr_createdAt (filter (\<lambda>r. state = None \<or> Some (wr_state r) = state) (map_values st))"

definition workflowStore_resumable :: "workflow_store \<Rightarrow> WorkflowRecord list" where
  "workflowStore_resumable st = filter (\<lambda>r. wr_state r \<in> set RESUMABLE) (workflowStore_list st None)"

lemma alist_update_fun: "map_of (AList.update k v m) = (map_of m)(k \<mapsto> v)"
  by (rule ext) (simp add: update_conv)

interpretation workflow_store: versioned_store workflowStore_get workflowStore_save
  wr_workflowId wr_updatedAt WorkflowConflict
  by unfold_locales
    (auto simp: workflowStore_get_def [abs_def] workflowStore_save_def alist_update_fun split: option.splits)

definition load_workflow :: "string \<Rightarrow> WorkflowRecord option workflow" where
  "load_workflow workflowId = (\<lambda>st. (Inr (workflowStore_get st workflowId), st))"

definition save_workflow :: "WorkflowRecord \<Rightarrow> int option option \<Rightarrow> WorkflowRecord workflow" where
  "save_workflow r expected = (\<lambda>st. case workflowStore_save st r expected of
       Inl e \<Rightarrow> (Inl e, st) | Inr st' \<Rightarrow> (Inr r, st'))"

section \<open>The driver\<close>

definition openWorkflow ::
  "(string \<Rightarrow> string) \<Rightarrow> WorkflowIdentity \<Rightarrow> int \<Rightarrow> int \<Rightarrow> (WorkflowRecord \<times> bool) workflow" where
  "openWorkflow keccak identity chainId now =
     bindW (load_workflow (workflowIdFor keccak identity)) (\<lambda>existing.
       case existing of
         Some r \<Rightarrow> ret (r, False)
       | None \<Rightarrow>
           let r = createWorkflow keccak identity chainId now
           in bindW (save_workflow r (Some None)) (\<lambda>_. ret (r, True)))"

definition stepWorkflow ::
  "WorkflowRecord \<Rightarrow> WorkflowState \<Rightarrow> int \<Rightarrow> AdvanceOptions \<Rightarrow> WorkflowRecord workflow" where
  "stepWorkflow r dst now options =
     bindW (lift (advance r dst now options)) (\<lambda>n. save_workflow n (Some (Some (wr_updatedAt r))))"

record ChainView =
  cv_evidenceIsCommitted :: "string \<Rightarrow> string \<Rightarrow> workflow_error + bool"
  cv_currentPassportVersion :: "string \<Rightarrow> workflow_error + int"
  cv_currentRiskEpoch :: "workflow_error + int"

datatype ReconcileAction = ALREADY_DONE | RESUBMIT | ESCALATED | NOTHING_TO_DO

record ReconcileResult =
  rr_record :: WorkflowRecord
  rr_action :: ReconcileAction
  rr_detail :: string

definition note_only :: "string \<Rightarrow> AdvanceOptions" where
  "note_only n = no_advance_options\<lparr>op_note := Some n\<rparr>"

definition evidence_answer :: "ChainView \<Rightarrow> WorkflowIdentity \<Rightarrow> workflow_error + bool" where
  "evidence_answer chain i =
     bindR (mapR (cv_evidenceIsCommitted chain (wi_assetId i)) (wi_evidenceIds i))
       (\<lambda>committed. Inr (list_all id committed))"

definition passport_answer :: "ChainView \<Rightarrow> WorkflowRecord \<Rightarrow> workflow_error + int option" where
  "passport_answer chain r =
     bindR (cv_currentPassportVersion chain (wi_assetId (wr_identity r))) (\<lambda>onchain.
       Inr (case wr_passportVersion r of
              Some v \<Rightarrow> if onchain \<ge> v then Some onchain else None
            | None \<Rightarrow> None))"

text \<open>
  The reconciler, in the two parts of its body: what it decides once the record is marked unknown, and
  the guard and the marking before it.
\<close>

definition resolveSubmission ::
  "WorkflowState \<Rightarrow> WorkflowRecord \<Rightarrow> ChainView \<Rightarrow> int \<Rightarrow> int \<Rightarrow> ReconcileResult workflow" where
  "resolveSubmission submittedStage r chain now maxAttempts =
     bindW (lift (if submittedStage = EVIDENCE_COMMIT_SUBMITTED \<or> wr_state r = CONFIRMATION_UNKNOWN
                  then evidence_answer chain (wr_identity r) else Inr False)) (\<lambda>evidenceLanded.
     if evidenceLanded then
       bindW (stepWorkflow r EVIDENCE_COMMIT_CONFIRMED now
                (note_only ''recovered from chain: every cited evidence id is committed'')) (\<lambda>n.
       ret \<lparr>rr_record = n, rr_action = ALREADY_DONE, rr_detail = ''evidence was already onchain''\<rparr>)
     else
       bindW (lift (if submittedStage = PASSPORT_COMMIT_SUBMITTED \<or> wr_state r = CONFIRMATION_UNKNOWN
                    then passport_answer chain r else Inr None)) (\<lambda>landed.
       case landed of
         Some onchain \<Rightarrow>
           bindW (lift (cv_currentRiskEpoch chain)) (\<lambda>epoch.
           bindW (stepWorkflow r PASSPORT_COMMIT_CONFIRMED now
                    ((note_only (''recovered from chain: registry reports version '' @ show_int onchain))
                       \<lparr>op_patch := no_patch\<lparr>pa_riskEpoch := Some (Some epoch)\<rparr>\<rparr>)) (\<lambda>n.
           ret \<lparr>rr_record = n, rr_action = ALREADY_DONE,
                rr_detail = ''Passport v'' @ show_int onchain @ '' was already onchain''\<rparr>))
       | None \<Rightarrow>
           if wr_attempts r \<ge> maxAttempts then
             bindW (stepWorkflow r RECONCILIATION_REQUIRED now
                      ((note_only ''attempts exhausted'')\<lparr>op_failureReason :=
                         Some (show_int (wr_attempts r) @ '' submission attempts without a confirmed commit'')\<rparr>)) (\<lambda>n.
             ret \<lparr>rr_record = n, rr_action = ESCALATED,
                  rr_detail = ''attempts exhausted; a human owns this''\<rparr>)
           else
             let target = (if submittedStage = PASSPORT_COMMIT_SUBMITTED \<or> wr_passportVersion r \<noteq> None
                           then PASSPORT_COMMIT_PENDING else EVIDENCE_COMMIT_PENDING)
             in bindW (stepWorkflow r target now
                         (note_only ''chain has no record of the submission; the work must be redone'')) (\<lambda>n.
                ret \<lparr>rr_record = n, rr_action = RESUBMIT,
                     rr_detail = ''nothing onchain; returned to '' @ workflow_state_name target\<rparr>)))"

definition reconcileWorkflow ::
  "WorkflowRecord \<Rightarrow> ChainView \<Rightarrow> int \<Rightarrow> int \<Rightarrow> ReconcileResult workflow" where
  "reconcileWorkflow r chain now maxAttempts =
     (if isTerminal (wr_state r)
      then ret \<lparr>rr_record = r, rr_action = NOTHING_TO_DO,
                rr_detail = ''already terminal in '' @ workflow_state_name (wr_state r)\<rparr>
      else
        let submittedStage = wr_state r;
            wasSubmitted = (submittedStage = EVIDENCE_COMMIT_SUBMITTED
                            \<or> submittedStage = PASSPORT_COMMIT_SUBMITTED)
        in bindW (if wasSubmitted
                  then stepWorkflow r CONFIRMATION_UNKNOWN now (note_only
                    (''reconciling '' @ workflow_state_name submittedStage
                     @ '': the submission outcome has not been confirmed locally''))
                  else ret r) (\<lambda>current.
           resolveSubmission submittedStage current chain now maxAttempts))"

section \<open>Receipts\<close>

definition endsWith :: "string \<Rightarrow> string \<Rightarrow> bool" where
  "endsWith s suf \<longleftrightarrow> length suf \<le> length s \<and> drop (length s - length suf) s = suf"

definition workflowReceiptStatus :: "WorkflowState \<Rightarrow> string" where
  "workflowReceiptStatus state =
     (if state = COMPLETE then ''CONFIRMED''
      else if state = CONFIRMATION_UNKNOWN then ''CONFIRMATION_UNKNOWN''
      else if state = POLICY_REJECTED \<or> state = CLAIM_CONFLICT then ''REJECTED_BY_POLICY''
      else if state = RECONCILIATION_REQUIRED then ''FAILED''
      else if endsWith (workflow_state_name state) ''_SUBMITTED'' then ''SUBMITTED''
      else if endsWith (workflow_state_name state) ''_FAILED'' \<or> state = SOURCE_UNAVAILABLE
              \<or> state = NEEDS_EVIDENCE then ''FAILED''
      else ''PENDING'')"

record WorkflowReceiptView =
  rv_workflowId :: string
  rv_assetId :: string
  rv_evidenceIds :: "string list"
  rv_candidateId :: "string option"
  rv_passportVersion :: "int option"
  rv_state :: WorkflowState
  rv_status :: string
  rv_chainId :: int
  rv_transactions :: "WorkflowTransactionRef list"
  rv_failureReason :: "string option"
  rv_createdAt :: int
  rv_updatedAt :: int

definition toReceiptView :: "WorkflowRecord \<Rightarrow> WorkflowReceiptView" where
  "toReceiptView r =
     \<lparr>rv_workflowId = wr_workflowId r, rv_assetId = wi_assetId (wr_identity r),
      rv_evidenceIds = wi_evidenceIds (wr_identity r), rv_candidateId = wr_candidateId r,
      rv_passportVersion = wr_passportVersion r, rv_state = wr_state r,
      rv_status = workflowReceiptStatus (wr_state r), rv_chainId = wr_chainId r,
      rv_transactions = filter (\<lambda>t. tr_status t \<noteq> wtx_submitted) (wr_transactions r),
      rv_failureReason = wr_failureReason r, rv_createdAt = wr_createdAt r,
      rv_updatedAt = wr_updatedAt r\<rparr>"

section \<open>Every record is a lawful history\<close>

lemma advance_inv:
  assumes "advance r dst now options = Inr r'"
  shows "canTransition (wr_state r) dst" "wr_state r' = dst" "wr_updatedAt r' = now"
    "wr_workflowId r' = wr_workflowId r" "wr_identity r' = wr_identity r" "wr_chainId r' = wr_chainId r"
    "wr_createdAt r' = wr_createdAt r"
    "wr_history r' = wr_history r
       @ [\<lparr>wt_at = now, wt_from = wr_state r, wt_to = dst, wt_note = op_note options\<rparr>]"
    "wr_attempts r' = (if dst \<in> {EVIDENCE_COMMIT_SUBMITTED, PASSPORT_COMMIT_SUBMITTED}
                       then wr_attempts r + 1 else wr_attempts r)"
    "wr_transactions r' = (case op_transaction options of
       Some t \<Rightarrow> filter (\<lambda>u. tr_txHash u \<noteq> tr_txHash t) (wr_transactions r) @ [t]
     | None \<Rightarrow> wr_transactions r)"
    "wr_passportVersion r' = option_default (pa_passportVersion (op_patch options)) (wr_passportVersion r)"
  using assms by (auto simp: advance_def apply_patch_def split: if_splits)

definition visited :: "WorkflowRecord \<Rightarrow> WorkflowState list" where
  "visited r = CREATED # map wt_to (wr_history r)"

definition submissions :: "WorkflowState list \<Rightarrow> WorkflowState list" where
  "submissions xs = filter (\<lambda>s. s \<in> {EVIDENCE_COMMIT_SUBMITTED, PASSPORT_COMMIT_SUBMITTED}) xs"

definition workflow_ok :: "WorkflowRecord \<Rightarrow> bool" where
  "workflow_ok r \<longleftrightarrow>
     legal_path TRANSITIONS (visited r) \<and> last (visited r) = wr_state r
   \<and> map wt_from (wr_history r) = butlast (visited r)
   \<and> wr_attempts r = int (length (submissions (visited r)))
   \<and> distinct (map tr_txHash (wr_transactions r))"

lemma createWorkflow_ok: "workflow_ok (createWorkflow keccak identity chainId now)"
  by (simp add: workflow_ok_def createWorkflow_def visited_def submissions_def)

lemma advance_ok:
  assumes ok: "workflow_ok r" and adv: "advance r dst now options = Inr r'"
  shows "workflow_ok r'"
proof -
  note i = advance_inv [OF adv]
  have v: "visited r' = visited r @ [dst]" by (simp add: visited_def i(8))
  have "legal_path TRANSITIONS (visited r @ [dst])"
    using ok i(1) by (intro workflow_table.path_extend) (auto simp: workflow_ok_def visited_def)
  moreover have "map wt_from (wr_history r') = butlast (visited r')"
    using ok append_butlast_last_id [of "visited r"]
    by (simp add: v i(8) workflow_ok_def) (simp add: visited_def)
  moreover have "wr_attempts r' = int (length (submissions (visited r')))"
    using ok by (simp add: v i(9) workflow_ok_def submissions_def)
  moreover have "distinct (map tr_txHash (wr_transactions r'))"
    using ok by (auto simp: i(10) workflow_ok_def distinct_map_filter split: option.splits)
  ultimately show ?thesis by (simp add: workflow_ok_def v i(2))
qed

inductive workflow_reachable :: "(string \<Rightarrow> string) \<Rightarrow> WorkflowIdentity \<Rightarrow> WorkflowRecord \<Rightarrow> bool" for keccak identity where
  created: "workflow_reachable keccak identity (createWorkflow keccak identity chainId now)"
| advanced: "workflow_reachable keccak identity r \<Longrightarrow> advance r dst now options = Inr r' \<Longrightarrow>
    workflow_reachable keccak identity r'"

lemma workflow_reachable_ok:
  "workflow_reachable keccak identity r \<Longrightarrow>
   workflow_ok r \<and> wr_workflowId r = workflowIdFor keccak identity \<and> wr_identity r = identity"
proof (induction rule: workflow_reachable.induct)
  case (created chainId now)
  then show ?case using createWorkflow_ok by (simp add: createWorkflow_def)
next
  case (advanced r dst now options r')
  then show ?case using advance_ok [OF _ advanced.hyps(2)] advance_inv(4,5) [OF advanced.hyps(2)] by simp
qed

definition COMMITTING :: "WorkflowState set" where
  "COMMITTING = {EVIDENCE_COMMIT_PENDING, EVIDENCE_COMMIT_SUBMITTED, EVIDENCE_COMMIT_CONFIRMED,
     PASSPORT_COMMIT_PENDING, PASSPORT_COMMIT_SUBMITTED, PASSPORT_COMMIT_CONFIRMED, RISK_REEVALUATING,
     RISK_EPOCH_ACTIVATED, ACCOUNT_REEVALUATING, COMPLETE, COMMIT_FAILED, CONFIRMATION_UNKNOWN}"

definition ACTIVATING :: "WorkflowState set" where
  "ACTIVATING = {RISK_REEVALUATING, RISK_EPOCH_ACTIVATED, ACCOUNT_REEVALUATING, COMPLETE}"

lemma gate_admission:
  assumes "workflow_ok r" "s \<in> set (visited r)" "s \<in> COMMITTING"
  shows "{CORROBORATING, PASSPORT_CANDIDATE_READY, ADMISSION_EVALUATING} \<subseteq> set (visited r)"
proof -
  have p: "legal_path TRANSITIONS (visited r)" "visited r \<noteq> []" "hd (visited r) = CREATED"
    using assms(1) by (simp_all add: workflow_ok_def visited_def)
  define pre where "pre = {CREATED, EVIDENCE_RESOLVING, EVIDENCE_READY, EXTRACTION_RUNNING,
    EXTRACTION_COMPLETE, SOURCE_UNAVAILABLE, EXTRACTION_FAILED, RECONCILIATION_REQUIRED}"
  define mid where "mid = pre \<union> {CORROBORATING, SINGLE_SOURCE, EVIDENCE_VERIFIED, CLAIM_CONFLICT,
    CORROBORATION_FAILED, PASSPORT_BUILDING, NEEDS_EVIDENCE}"
  have "set (visited r) \<subseteq> - COMMITTING - {ADMISSION_EVALUATING} \<or> ADMISSION_EVALUATING \<in> set (visited r)"
  proof (rule path_gate [OF p(1,2)])
    show "hd (visited r) \<in> - COMMITTING - {ADMISSION_EVALUATING}" by (simp add: p(3) COMMITTING_def)
    show "b = ADMISSION_EVALUATING \<or> b \<in> - COMMITTING - {ADMISSION_EVALUATING}"
      if "a \<in> - COMMITTING - {ADMISSION_EVALUATING}" "b \<in> set (TRANSITIONS a)" for a b
      using that by (cases a) (auto simp: COMMITTING_def)
  qed
  moreover have "set (visited r) \<subseteq> mid \<or> PASSPORT_CANDIDATE_READY \<in> set (visited r)"
  proof (rule path_gate [OF p(1,2)])
    show "hd (visited r) \<in> mid" by (simp add: p(3) mid_def pre_def)
    show "b = PASSPORT_CANDIDATE_READY \<or> b \<in> mid" if "a \<in> mid" "b \<in> set (TRANSITIONS a)" for a b
      using that by (cases a) (auto simp: mid_def pre_def)
  qed
  moreover have "set (visited r) \<subseteq> pre \<or> CORROBORATING \<in> set (visited r)"
  proof (rule path_gate [OF p(1,2)])
    show "hd (visited r) \<in> pre" by (simp add: p(3) pre_def)
    show "b = CORROBORATING \<or> b \<in> pre" if "a \<in> pre" "b \<in> set (TRANSITIONS a)" for a b
      using that by (cases a) (auto simp: pre_def)
  qed
  ultimately show ?thesis using assms(2,3) by (auto simp: COMMITTING_def mid_def pre_def)
qed

lemma gate_passport:
  assumes "workflow_ok r" "s \<in> set (visited r)" "s \<in> ACTIVATING"
  shows "PASSPORT_COMMIT_CONFIRMED \<in> set (visited r)"
proof -
  have p: "legal_path TRANSITIONS (visited r)" "visited r \<noteq> []" "hd (visited r) = CREATED"
    using assms(1) by (simp_all add: workflow_ok_def visited_def)
  have "set (visited r) \<subseteq> - ACTIVATING - {PASSPORT_COMMIT_CONFIRMED} \<or> PASSPORT_COMMIT_CONFIRMED \<in> set (visited r)"
  proof (rule path_gate [OF p(1,2)])
    show "hd (visited r) \<in> - ACTIVATING - {PASSPORT_COMMIT_CONFIRMED}" by (simp add: p(3) ACTIVATING_def)
    show "b = PASSPORT_COMMIT_CONFIRMED \<or> b \<in> - ACTIVATING - {PASSPORT_COMMIT_CONFIRMED}"
      if "a \<in> - ACTIVATING - {PASSPORT_COMMIT_CONFIRMED}" "b \<in> set (TRANSITIONS a)" for a b
      using that by (cases a) (auto simp: ACTIVATING_def)
  qed
  then show ?thesis using assms(2,3) by auto
qed

section \<open>Steps of a stored workflow\<close>

lemma stepWorkflow_ok:
  assumes "workflowStore_get st (wr_workflowId r) = Some r" "canTransition (wr_state r) dst"
  obtains r' st' where "advance r dst now options = Inr r'"
    "stepWorkflow r dst now options st = (Inr r', st')"
    "workflowStore_get st' = (workflowStore_get st)(wr_workflowId r \<mapsto> r')"
proof -
  obtain r' where a: "advance r dst now options = Inr r'" using assms(2) by (simp add: advance_def)
  have "wr_workflowId r' = wr_workflowId r" by (rule advance_inv(4) [OF a])
  then obtain st' where "workflowStore_save st r' (Some (Some (wr_updatedAt r))) = Inr st'"
    "workflowStore_get st' = (workflowStore_get st)(wr_workflowId r \<mapsto> r')"
    using workflow_store.save_accepts [of "Some (Some (wr_updatedAt r))" st r'] assms(1) by auto
  then show thesis using a that by (simp add: stepWorkflow_def save_workflow_def)
qed

lemma stepWorkflow_inv:
  assumes "stepWorkflow r dst now options st = (Inr r', st')"
  shows "advance r dst now options = Inr r'"
    "workflowStore_get st' = (workflowStore_get st)(wr_workflowId r \<mapsto> r')"
proof -
  show a: "advance r dst now options = Inr r'"
    using assms by (auto simp: stepWorkflow_def bindW_def lift_def save_workflow_def split: sum.splits)
  have "workflowStore_save st r' (Some (Some (wr_updatedAt r))) = Inr st'"
    using assms a by (auto simp: stepWorkflow_def save_workflow_def split: sum.splits)
  then show "workflowStore_get st' = (workflowStore_get st)(wr_workflowId r \<mapsto> r')"
    using workflow_store.save_inv(1) advance_inv(4) [OF a] by metis
qed

lemma reachable_path:
  assumes "workflow_reachable keccak identity r" "legal_path TRANSITIONS (wr_state r # dsts)"
  shows "\<exists>r'. workflow_reachable keccak identity r' \<and> wr_state r' = last (wr_state r # dsts)
    \<and> visited r' = visited r @ dsts"
  using assms
proof (induction dsts arbitrary: r)
  case (Cons d ds)
  then have "canTransition (wr_state r) d" by (simp add: canTransition_def)
  then obtain r1 where a: "advance r d 0 no_advance_options = Inr r1" by (simp add: advance_def)
  note i = advance_inv [OF a]
  have "visited r1 = visited r @ [d]" by (simp add: visited_def i(8))
  moreover have "workflow_reachable keccak identity r1" by (rule workflow_reachable.advanced [OF Cons.prems(1) a])
  ultimately show ?case using Cons.IH [of r1] Cons.prems(2) by (simp add: i(2))
qed auto

lemma created_path:
  assumes "legal_path TRANSITIONS (CREATED # dsts)"
  obtains r where "workflow_reachable keccak identity r" "wr_state r = last (CREATED # dsts)"
    "visited r = CREATED # dsts"
  using reachable_path [OF workflow_reachable.created [where chainId = 0 and now = 0], of keccak identity dsts] assms
  by (auto simp: createWorkflow_def visited_def)

section \<open>Reconciliation\<close>

lemma note_only_no_transaction [simp]: "op_transaction (note_only n) = None"
  by (simp add: note_only_def no_advance_options_def)

lemma resolve_decides:
  assumes st: "workflowStore_get st (wr_workflowId r) = Some r" "wr_state r = CONFIRMATION_UNKNOWN"
    and ev: "evidence_answer chain (wr_identity r) = Inr landed"
    and pa: "passport_answer chain r = Inr onchain" and ep: "cv_currentRiskEpoch chain = Inr epoch"
  shows "\<exists>rr st'. resolveSubmission stage r chain now maxAttempts st = (Inr rr, st')
    \<and> workflowStore_get st' = (workflowStore_get st)(wr_workflowId r \<mapsto> rr_record rr)
    \<and> wr_attempts (rr_record rr) = wr_attempts r \<and> wr_transactions (rr_record rr) = wr_transactions r
    \<and> (rr_action rr, wr_state (rr_record rr)) =
       (if landed then (ALREADY_DONE, EVIDENCE_COMMIT_CONFIRMED)
        else if onchain \<noteq> None then (ALREADY_DONE, PASSPORT_COMMIT_CONFIRMED)
        else if maxAttempts \<le> wr_attempts r then (ESCALATED, RECONCILIATION_REQUIRED)
        else (RESUBMIT, if stage = PASSPORT_COMMIT_SUBMITTED \<or> wr_passportVersion r \<noteq> None
                        then PASSPORT_COMMIT_PENDING else EVIDENCE_COMMIT_PENDING))"
proof -
  let ?dst = "if landed then EVIDENCE_COMMIT_CONFIRMED
        else if onchain \<noteq> None then PASSPORT_COMMIT_CONFIRMED
        else if maxAttempts \<le> wr_attempts r then RECONCILIATION_REQUIRED
        else if stage = PASSPORT_COMMIT_SUBMITTED \<or> wr_passportVersion r \<noteq> None
        then PASSPORT_COMMIT_PENDING else EVIDENCE_COMMIT_PENDING"
  have can: "canTransition (wr_state r) ?dst" by (simp add: st(2) canTransition_def)
  have step: "\<exists>r' st'. stepWorkflow r ?dst now options st = (Inr r', st')
     \<and> workflowStore_get st' = (workflowStore_get st)(wr_workflowId r \<mapsto> r')
     \<and> wr_state r' = ?dst \<and> wr_attempts r' = wr_attempts r
     \<and> (op_transaction options = None \<longrightarrow> wr_transactions r' = wr_transactions r)" for options
  proof -
    obtain r' st' where s: "advance r ?dst now options = Inr r'" "stepWorkflow r ?dst now options st = (Inr r', st')"
      "workflowStore_get st' = (workflowStore_get st)(wr_workflowId r \<mapsto> r')"
      by (rule stepWorkflow_ok [OF st(1) can])
    show ?thesis using s advance_inv(2,9,10) [OF s(1)] by auto
  qed
  note facts = st(2) ev pa ep resolveSubmission_def Let_def
  consider "landed" | v where "\<not> landed" "onchain = Some v" | "\<not> landed" "onchain = None" "maxAttempts \<le> wr_attempts r"
    | "\<not> landed" "onchain = None" "\<not> maxAttempts \<le> wr_attempts r" by (cases onchain) auto
  then show ?thesis
  proof cases
    case 1
    then show ?thesis
      using step [of "note_only ''recovered from chain: every cited evidence id is committed''"]
      by (auto simp: facts)
  next
    case (2 v)
    then show ?thesis
      using step [of "(note_only (''recovered from chain: registry reports version '' @ show_int v))
                        \<lparr>op_patch := no_patch\<lparr>pa_riskEpoch := Some (Some epoch)\<rparr>\<rparr>"]
      by (auto simp: facts)
  next
    case 3
    then show ?thesis
      using step [of "(note_only ''attempts exhausted'')\<lparr>op_failureReason :=
          Some (show_int (wr_attempts r) @ '' submission attempts without a confirmed commit'')\<rparr>"]
      by (auto simp: facts)
  next
    case 4
    then show ?thesis
      using step [of "note_only ''chain has no record of the submission; the work must be redone''"]
      by (auto simp: facts)
  qed
qed

definition in_flight :: "WorkflowState \<Rightarrow> bool" where
  "in_flight s \<longleftrightarrow> s \<in> set IN_FLIGHT_STATES"

lemma reconcile_decides:
  assumes st: "workflowStore_get st (wr_workflowId r) = Some r" "in_flight (wr_state r)"
    and ev: "evidence_answer chain (wr_identity r) = Inr landed"
    and pa: "passport_answer chain r = Inr onchain" and ep: "cv_currentRiskEpoch chain = Inr epoch"
  shows "\<exists>rr st'. reconcileWorkflow r chain now maxAttempts st = (Inr rr, st')
    \<and> workflowStore_get st' = (workflowStore_get st)(wr_workflowId r \<mapsto> rr_record rr)
    \<and> wr_attempts (rr_record rr) = wr_attempts r \<and> wr_transactions (rr_record rr) = wr_transactions r
    \<and> (rr_action rr, wr_state (rr_record rr)) =
       (if landed then (ALREADY_DONE, EVIDENCE_COMMIT_CONFIRMED)
        else if onchain \<noteq> None then (ALREADY_DONE, PASSPORT_COMMIT_CONFIRMED)
        else if maxAttempts \<le> wr_attempts r then (ESCALATED, RECONCILIATION_REQUIRED)
        else (RESUBMIT, if wr_state r = PASSPORT_COMMIT_SUBMITTED \<or> wr_passportVersion r \<noteq> None
                        then PASSPORT_COMMIT_PENDING else EVIDENCE_COMMIT_PENDING))"
proof -
  have nt: "\<not> isTerminal (wr_state r)"
    using st(2) by (auto simp: in_flight_def IN_FLIGHT_STATES_def isTerminal_def TERMINAL_STATES_def)
  show ?thesis
  proof (cases "wr_state r = CONFIRMATION_UNKNOWN")
    case True
    then show ?thesis
      using resolve_decides [OF st(1) True ev pa ep, of "wr_state r" now maxAttempts] nt
      by (simp add: reconcileWorkflow_def Let_def)
  next
    case False
    then have sub: "wr_state r = EVIDENCE_COMMIT_SUBMITTED \<or> wr_state r = PASSPORT_COMMIT_SUBMITTED"
      using st(2) by (auto simp: in_flight_def IN_FLIGHT_STATES_def)
    let ?o = "note_only (''reconciling '' @ workflow_state_name (wr_state r)
                @ '': the submission outcome has not been confirmed locally'')"
    have "canTransition (wr_state r) CONFIRMATION_UNKNOWN" using sub by (auto simp: canTransition_def)
    then obtain r1 st1 where s: "advance r CONFIRMATION_UNKNOWN now ?o = Inr r1"
      "stepWorkflow r CONFIRMATION_UNKNOWN now ?o st = (Inr r1, st1)"
      "workflowStore_get st1 = (workflowStore_get st)(wr_workflowId r \<mapsto> r1)"
      by (rule stepWorkflow_ok [OF st(1)])
    note i = advance_inv [OF s(1)]
    have v: "wr_passportVersion r1 = wr_passportVersion r"
      using i(11) by (simp add: note_only_def no_advance_options_def no_patch_def)
    have r1: "workflowStore_get st1 (wr_workflowId r1) = Some r1" "evidence_answer chain (wr_identity r1) = Inr landed"
      "passport_answer chain r1 = Inr onchain"
      using ev pa by (simp_all add: s(3) i(4,5) passport_answer_def v)
    show ?thesis
      using resolve_decides [OF r1(1) i(2) r1(2,3) ep, of "wr_state r" now maxAttempts] nt sub s(2)
      by (auto simp: reconcileWorkflow_def Let_def s(3) i(2,4,5,9,10) v)
  qed
qed

section \<open>What reconciliation leaves open\<close>

text \<open>
  A lost Passport submission is looked up only after the evidence: the evidence of a Passport that was
  submitted is committed, so the workflow goes back to the state whose only way on is a second
  submission, whether or not the registry already has the Passport, and whatever the attempts were.
\<close>

lemma landed_passport_resubmitted:
  assumes "workflowStore_get st (wr_workflowId r) = Some r" "wr_state r = PASSPORT_COMMIT_SUBMITTED"
    and "evidence_answer chain (wr_identity r) = Inr True"
    and "passport_answer chain r = Inr (Some onchain)" "cv_currentRiskEpoch chain = Inr epoch"
  shows "\<exists>rr st'. reconcileWorkflow r chain now maxAttempts st = (Inr rr, st')
    \<and> rr_action rr = ALREADY_DONE \<and> nextStates (wr_state (rr_record rr)) = [PASSPORT_COMMIT_PENDING]"
  using reconcile_decides [OF assms(1) _ assms(3,4,5), of now maxAttempts] assms(2)
  by (auto simp: in_flight_def IN_FLIGHT_STATES_def nextStates_def)

lemma resubmission_unbounded:
  assumes "workflowStore_get st (wr_workflowId r) = Some r" "wr_state r = PASSPORT_COMMIT_SUBMITTED"
    and "evidence_answer chain (wr_identity r) = Inr True"
    and "passport_answer chain r = Inr onchain" "cv_currentRiskEpoch chain = Inr epoch"
  shows "\<exists>rr st' p s. reconcileWorkflow r chain now maxAttempts st = (Inr rr, st')
    \<and> advance (rr_record rr) PASSPORT_COMMIT_PENDING now no_advance_options = Inr p
    \<and> advance p PASSPORT_COMMIT_SUBMITTED now no_advance_options = Inr s
    \<and> wr_state s = PASSPORT_COMMIT_SUBMITTED \<and> wr_attempts s = wr_attempts r + 1"
proof -
  obtain rr st' where rr: "reconcileWorkflow r chain now maxAttempts st = (Inr rr, st')"
    "wr_attempts (rr_record rr) = wr_attempts r" "wr_state (rr_record rr) = EVIDENCE_COMMIT_CONFIRMED"
    using reconcile_decides [OF assms(1) _ assms(3,4,5), of now maxAttempts] assms(2)
    by (auto simp: in_flight_def IN_FLIGHT_STATES_def)
  obtain p where p: "advance (rr_record rr) PASSPORT_COMMIT_PENDING now no_advance_options = Inr p"
    using rr(3) by (simp add: advance_def canTransition_def)
  obtain s where s: "advance p PASSPORT_COMMIT_SUBMITTED now no_advance_options = Inr s"
    using advance_inv(2) [OF p] by (simp add: advance_def canTransition_def)
  show ?thesis using rr(1,2) p s advance_inv(2,9) [OF p] advance_inv(2,9) [OF s] by auto
qed

text \<open>A failed commit goes back to be sent again without the chain being asked at all.\<close>

lemma failed_commit_not_asked:
  "wr_state r = COMMIT_FAILED \<Longrightarrow> reconcileWorkflow r chain now n st = reconcileWorkflow r chain' now n st"
  by (simp add: reconcileWorkflow_def resolveSubmission_def Let_def isTerminal_def TERMINAL_STATES_def
      bindW_def lift_def ret_def)

text \<open>And a failed evidence commit may go on to the Passport: a workflow completes without it.\<close>

lemma evidence_commit_skipped:
  "\<exists>r. workflow_reachable keccak identity r \<and> wr_state r = COMPLETE
     \<and> EVIDENCE_COMMIT_CONFIRMED \<notin> set (visited r)"
proof -
  have "legal_path TRANSITIONS (CREATED # [EVIDENCE_RESOLVING, EVIDENCE_READY, EXTRACTION_RUNNING,
    EXTRACTION_COMPLETE, CORROBORATING, EVIDENCE_VERIFIED, PASSPORT_BUILDING, PASSPORT_CANDIDATE_READY,
    ADMISSION_EVALUATING, EVIDENCE_COMMIT_PENDING, COMMIT_FAILED, PASSPORT_COMMIT_PENDING,
    PASSPORT_COMMIT_SUBMITTED, PASSPORT_COMMIT_CONFIRMED, RISK_REEVALUATING, RISK_EPOCH_ACTIVATED,
    ACCOUNT_REEVALUATING, COMPLETE])" by simp
  from created_path [OF this, of keccak identity] show ?thesis by (metis (no_types, lifting) last.simps
        list.distinct(1) WorkflowState.distinct set_ConsD list.set_intros empty_iff list.set(1))
qed

section \<open>Properties\<close>

text \<open>
  Every workflow is a lawful history. The record any sequence of accepted transitions leads to
  keeps the identity it was created with, its history is a path of the transition table from the
  first state to the current one with each entry starting where the last ended, its attempts count
  the submissions in that path, no transaction hash is recorded twice, and a record in a terminal
  state accepts no transition.
\<close>

theorem workflow_history_lawful:
  assumes "workflow_reachable keccak identity r"
  shows "wr_workflowId r = workflowIdFor keccak identity \<and> wr_identity r = identity
    \<and> legal_path TRANSITIONS (visited r) \<and> last (visited r) = wr_state r
    \<and> map wt_from (wr_history r) = butlast (visited r)
    \<and> wr_attempts r = int (length (submissions (visited r)))
    \<and> distinct (map tr_txHash (wr_transactions r))
    \<and> (isTerminal (wr_state r) \<longrightarrow> (\<forall>dst now options. \<exists>e. advance r dst now options = Inl e))"
  using workflow_reachable_ok [OF assms] workflow_table.terminal_stuck [of "wr_state r"]
  by (simp add: workflow_ok_def advance_def)

theorem workflow_history_lawful_witness:
  "wr_attempts (createWorkflow id \<lparr>wi_assetId = ''0x1'', wi_evidenceIds = [''0x2''],
     wi_passportSchemaVersion = ''1'', wi_admissionPolicyVersion = ''1''\<rparr> 196 7) = 0"
  using workflow_history_lawful [OF workflow_reachable.created [of id
    "\<lparr>wi_assetId = ''0x1'', wi_evidenceIds = [''0x2''], wi_passportSchemaVersion = ''1'',
      wi_admissionPolicyVersion = ''1''\<rparr>" 196 7]]
  by (simp add: createWorkflow_def visited_def submissions_def)

text \<open>
  C14: nothing is committed that was not admitted. A workflow that ever reaches a commit, a commit
  failure or an unknown confirmation has corroborated its claims, built its candidate and evaluated
  admission; one that ever re-evaluates risk, activates an epoch or completes has its Passport
  confirmed; and a conflict of claims or a rejection by policy is the end of the workflow.
\<close>

theorem workflow_admission_first:
  assumes "workflow_reachable keccak identity r" "s \<in> set (visited r)"
  shows "(s \<in> COMMITTING \<longrightarrow>
            {CORROBORATING, PASSPORT_CANDIDATE_READY, ADMISSION_EVALUATING} \<subseteq> set (visited r))
    \<and> (s \<in> ACTIVATING \<longrightarrow> PASSPORT_COMMIT_CONFIRMED \<in> set (visited r))
    \<and> (s \<in> {CLAIM_CONFLICT, POLICY_REJECTED} \<longrightarrow> wr_state r = s)"
proof -
  have ok: "workflow_ok r" using workflow_reachable_ok [OF assms(1)] by blast
  have "wr_state r = s" if t: "isTerminal s"
  proof -
    obtain i where i: "i < length (visited r)" "visited r ! i = s" using assms(2) by (auto simp: in_set_conv_nth)
    have p: "legal_path TRANSITIONS (visited r)" "last (visited r) = wr_state r"
      using ok by (simp_all add: workflow_ok_def)
    have "\<not> Suc i < length (visited r)"
      using workflow_table.path_terminal_last [OF p(1), of i] i(2) t by blast
    then have "i = length (visited r) - 1" "visited r \<noteq> []" using i(1) by (linarith, auto)
    then show ?thesis using i(2) p(2) by (simp add: last_conv_nth)
  qed
  then show ?thesis using gate_admission [OF ok assms(2)] gate_passport [OF ok assms(2)]
    by (auto simp: isTerminal_def TERMINAL_STATES_def)
qed

theorem workflow_admission_first_witness:
  "\<exists>r. workflow_reachable id \<lparr>wi_assetId = ''0x1'', wi_evidenceIds = [''0x2''],
       wi_passportSchemaVersion = ''1'', wi_admissionPolicyVersion = ''1''\<rparr> r
     \<and> wr_state r = EVIDENCE_COMMIT_PENDING \<and> ADMISSION_EVALUATING \<in> set (visited r)"
proof -
  let ?i = "\<lparr>wi_assetId = ''0x1'', wi_evidenceIds = [''0x2''],
       wi_passportSchemaVersion = ''1'', wi_admissionPolicyVersion = ''1''\<rparr>"
  let ?p = "[EVIDENCE_RESOLVING, EVIDENCE_READY, EXTRACTION_RUNNING,
    EXTRACTION_COMPLETE, CORROBORATING, SINGLE_SOURCE, PASSPORT_BUILDING, PASSPORT_CANDIDATE_READY,
    ADMISSION_EVALUATING, EVIDENCE_COMMIT_PENDING]"
  have p: "legal_path TRANSITIONS (CREATED # ?p)" by simp
  obtain r where r: "workflow_reachable id ?i r" "wr_state r = last (CREATED # ?p)" "visited r = CREATED # ?p"
    by (rule created_path [OF p])
  have "EVIDENCE_COMMIT_PENDING \<in> set (visited r)" by (simp add: r(3))
  from workflow_admission_first [OF r(1) this] have "ADMISSION_EVALUATING \<in> set (visited r)"
    by (simp add: COMMITTING_def)
  then show ?thesis using r(1,2) by auto
qed

text \<open>
  An unknown submission is resolved by the chain. A stored workflow with a submission in flight,
  reconciled with a chain that answers, moves by exactly one decision: every cited evidence id
  committed confirms the evidence; otherwise a registry version that has caught up confirms the
  Passport; otherwise exhausted attempts escalate to a human; otherwise it goes back to be sent again,
  to the Passport commit if that is what was sent or a version is known. Reconciling sends nothing:
  attempts and transactions stay, and no other workflow is touched.
\<close>

theorem workflow_reconcile_decides:
  assumes "workflowStore_get st (wr_workflowId r) = Some r" "wr_state r \<in> set IN_FLIGHT_STATES"
    and "evidence_answer chain (wr_identity r) = Inr landed"
    and "passport_answer chain r = Inr onchain" "cv_currentRiskEpoch chain = Inr epoch"
  shows "\<exists>rr st'. reconcileWorkflow r chain now maxAttempts st = (Inr rr, st')
    \<and> workflowStore_get st' = (workflowStore_get st)(wr_workflowId r \<mapsto> rr_record rr)
    \<and> wr_attempts (rr_record rr) = wr_attempts r \<and> wr_transactions (rr_record rr) = wr_transactions r
    \<and> (rr_action rr, wr_state (rr_record rr)) =
       (if landed then (ALREADY_DONE, EVIDENCE_COMMIT_CONFIRMED)
        else if onchain \<noteq> None then (ALREADY_DONE, PASSPORT_COMMIT_CONFIRMED)
        else if maxAttempts \<le> wr_attempts r then (ESCALATED, RECONCILIATION_REQUIRED)
        else (RESUBMIT, if wr_state r = PASSPORT_COMMIT_SUBMITTED \<or> wr_passportVersion r \<noteq> None
                        then PASSPORT_COMMIT_PENDING else EVIDENCE_COMMIT_PENDING))"
  using assms(1) _ assms(3-5) by (rule reconcile_decides) (simp add: in_flight_def assms(2))

definition lost_workflow :: WorkflowRecord where
  "lost_workflow = (createWorkflow id \<lparr>wi_assetId = ''0x1'', wi_evidenceIds = [''0x2'', ''0x3''],
      wi_passportSchemaVersion = ''1'', wi_admissionPolicyVersion = ''1''\<rparr> 196 7)
      \<lparr>wr_state := EVIDENCE_COMMIT_SUBMITTED, wr_attempts := 1\<rparr>"

definition half_landed :: ChainView where
  "half_landed = \<lparr>cv_evidenceIsCommitted = (\<lambda>a e. Inr (e = ''0x2'')), cv_currentPassportVersion = (\<lambda>a. Inr 0),
     cv_currentRiskEpoch = Inr 4\<rparr>"

theorem workflow_reconcile_decides_witness:
  "\<exists>rr st'. reconcileWorkflow lost_workflow half_landed 9 5 [(wr_workflowId lost_workflow, lost_workflow)]
       = (Inr rr, st') \<and> rr_action rr = RESUBMIT \<and> wr_state (rr_record rr) = EVIDENCE_COMMIT_PENDING"
proof -
  have "workflowStore_get [(wr_workflowId lost_workflow, lost_workflow)] (wr_workflowId lost_workflow)
      = Some lost_workflow" by (simp add: workflowStore_get_def)
  moreover have "wr_state lost_workflow \<in> set IN_FLIGHT_STATES"
    by (simp add: lost_workflow_def IN_FLIGHT_STATES_def)
  moreover have "evidence_answer half_landed (wr_identity lost_workflow) = Inr False"
    "passport_answer half_landed lost_workflow = Inr None" "cv_currentRiskEpoch half_landed = Inr 4"
    by (simp_all add: lost_workflow_def half_landed_def createWorkflow_def evidence_answer_def passport_answer_def)
  ultimately show ?thesis
    using workflow_reconcile_decides [of "[(wr_workflowId lost_workflow, lost_workflow)]" lost_workflow
        half_landed False None 4 9 5]
    by (auto simp: lost_workflow_def createWorkflow_def)
qed

text \<open>
  One unit of work is one workflow, and two workers cannot both advance it. Opening the same asset,
  evidence (in any order and letter case) and versions again finds the record that is there and
  changes nothing, a terminal one included. After a worker has advanced a stored record, another that
  still holds the old one is refused, whatever it attempts, unless the two fall on the same second.
\<close>

theorem workflow_opened_once:
  assumes "openWorkflow keccak i chainId now st = (Inr (r, created), st1)"
    and "mset (map toLowerCase (wi_evidenceIds j)) = mset (map toLowerCase (wi_evidenceIds i))"
    and "toLowerCase (wi_assetId j) = toLowerCase (wi_assetId i)"
    and "wi_passportSchemaVersion j = wi_passportSchemaVersion i"
    and "wi_admissionPolicyVersion j = wi_admissionPolicyVersion i"
    and "stepWorkflow r dst t options st1 = (Inr r', st2)" "t \<noteq> wr_updatedAt r"
  shows "openWorkflow keccak j chainId' now' st1 = (Inr (r, False), st1)
    \<and> (canTransition (wr_state r) dst' \<longrightarrow>
         stepWorkflow r dst' t' options' st2 = (Inl (WorkflowConflict (wr_workflowId r)), st2))"
proof -
  have "sort (map toLowerCase (wi_evidenceIds j)) = sort (map toLowerCase (wi_evidenceIds i))"
    using assms(2) by (metis properties_for_sort mset_sort sorted_sort)
  then have same: "workflowIdFor keccak j = workflowIdFor keccak i"
    by (simp add: workflowIdFor_def assms(3-5))
  have there: "workflowStore_get st1 (workflowIdFor keccak i) = Some r"
  proof (cases "workflowStore_get st (workflowIdFor keccak i)")
    case None
    then obtain n where "workflowStore_save st n (Some None) = Inr st1" "r = n"
        "wr_workflowId n = workflowIdFor keccak i"
      using assms(1) by (auto simp: openWorkflow_def load_workflow_def bindW_def save_workflow_def ret_def
          Let_def createWorkflow_def split: sum.splits)
    then show ?thesis using workflow_store.save_inv(1) [of st n "Some None" st1] by simp
  next
    case (Some x)
    then show ?thesis using assms(1) by (simp add: openWorkflow_def load_workflow_def bindW_def ret_def)
  qed
  then have "openWorkflow keccak j chainId' now' st1 = (Inr (r, False), st1)"
    by (simp add: openWorkflow_def load_workflow_def bindW_def ret_def same)
  moreover have "stepWorkflow r dst' t' options' st2 = (Inl (WorkflowConflict (wr_workflowId r)), st2)"
    if c: "canTransition (wr_state r) dst'"
  proof -
    obtain n where n: "advance r dst' t' options' = Inr n" using c by (simp add: advance_def)
    note i = stepWorkflow_inv [OF assms(6)]
    have "workflowStore_save st2 n (Some (Some (wr_updatedAt r))) = Inl (WorkflowConflict (wr_workflowId n))"
      using assms(7) advance_inv(3) [OF i(1)] advance_inv(4) [OF n]
      by (intro workflow_store.save_refuses) (simp add: i(2))
    then show ?thesis using n advance_inv(4) [OF n] by (simp add: stepWorkflow_def save_workflow_def)
  qed
  ultimately show ?thesis by blast
qed

theorem workflow_opened_once_witness:
  "\<exists>r st1 r' st2. openWorkflow id \<lparr>wi_assetId = ''0xA'', wi_evidenceIds = [''0x2'', ''0x3''],
       wi_passportSchemaVersion = ''1'', wi_admissionPolicyVersion = ''1''\<rparr> 196 7 [] = (Inr (r, True), st1)
     \<and> openWorkflow id \<lparr>wi_assetId = ''0xa'', wi_evidenceIds = [''0x3'', ''0x2''],
       wi_passportSchemaVersion = ''1'', wi_admissionPolicyVersion = ''1''\<rparr> 196 8 st1 = (Inr (r, False), st1)
     \<and> stepWorkflow r EVIDENCE_RESOLVING 9 no_advance_options st1 = (Inr r', st2)
     \<and> stepWorkflow r EVIDENCE_RESOLVING 10 no_advance_options st2
         = (Inl (WorkflowConflict (wr_workflowId r)), st2)"
proof -
  let ?i = "\<lparr>wi_assetId = ''0xA'', wi_evidenceIds = [''0x2'', ''0x3''],
       wi_passportSchemaVersion = ''1'', wi_admissionPolicyVersion = ''1''\<rparr>"
  let ?j = "\<lparr>wi_assetId = ''0xa'', wi_evidenceIds = [''0x3'', ''0x2''],
       wi_passportSchemaVersion = ''1'', wi_admissionPolicyVersion = ''1''\<rparr>"
  let ?r = "createWorkflow id ?i 196 7"
  have o: "openWorkflow id ?i 196 7 [] = (Inr (?r, True), [(wr_workflowId ?r, ?r)])"
    by (simp add: openWorkflow_def load_workflow_def save_workflow_def workflowStore_get_def
        workflowStore_save_def Let_def bindW_def ret_def)
  have "workflowStore_get [(wr_workflowId ?r, ?r)] (wr_workflowId ?r) = Some ?r"
    by (simp add: workflowStore_get_def)
  moreover have "canTransition (wr_state ?r) EVIDENCE_RESOLVING" by (simp add: createWorkflow_def canTransition_def)
  ultimately obtain r' st2 where s: "stepWorkflow ?r EVIDENCE_RESOLVING 9 no_advance_options
      [(wr_workflowId ?r, ?r)] = (Inr r', st2)"
    by (rule stepWorkflow_ok)
  have can: "canTransition (wr_state ?r) EVIDENCE_RESOLVING" by (simp add: createWorkflow_def canTransition_def)
  have low: "toLowerCase ''0xA'' = ''0xa''" "toLowerCase ''0xa'' = ''0xa''" by code_simp+
  have "9 \<noteq> wr_updatedAt ?r" by (simp add: createWorkflow_def)
  then have "openWorkflow id ?j 196 8 [(wr_workflowId ?r, ?r)] = (Inr (?r, False), [(wr_workflowId ?r, ?r)])
    \<and> (canTransition (wr_state ?r) EVIDENCE_RESOLVING \<longrightarrow>
         stepWorkflow ?r EVIDENCE_RESOLVING 10 no_advance_options st2
           = (Inl (WorkflowConflict (wr_workflowId ?r)), st2))"
    by (intro workflow_opened_once [OF o _ _ _ _ s]) (simp_all add: low)
  then show ?thesis using o s can by blast
qed

end
