(* ===== verification/Evidence_Queue.thy ===== *)
theory Evidence_Queue
  imports Interfaces Js_Strings "HOL-Library.Product_Lexorder"
begin

text \<open>
  The work queue of \<open>services/evidence/src/queue.ts\<close>: enqueue by idempotency key, lease, settle with
  bounded jittered backoff, and the worker that runs one due job; with the key and the submission of
  a pipeline job from \<open>jobs.ts\<close>. A queue is a value and an operation returns the next one; what a
  rejected call threw is \<open>Inl\<close>. The clock readings and random draws of an operation are its
  arguments: a draw is the numerator of \<open>Math.random()\<close>, a multiple of \<open>1/2^53\<close>.
\<close>

section \<open>Jobs\<close>

datatype JobState = PENDING | LEASED | SUCCEEDED | RECONCILIATION_REQUIRED | REJECTED

record 'p JobRecord =
  jr_jobId :: string
  jr_idempotencyKey :: string
  jr_kind :: string
  jr_payload :: 'p
  jr_state :: JobState
  jr_attempts :: int
  jr_maxAttempts :: int
  jr_nextAttemptAt :: int
  jr_leaseExpiresAt :: "int option"
  jr_lastError :: "string option"
  jr_createdAt :: int
  jr_updatedAt :: int

record 'p EnqueueRequest =
  er_idempotencyKey :: string
  er_kind :: string
  er_payload :: 'p
  er_maxAttempts :: "int option"
  er_notBefore :: "int option"

record 'p WorkQueue =
  q_jobs :: "(string \<times> 'p JobRecord) list"
  q_byKey :: "(string \<times> string) list"

datatype queue_error = UnknownJob string

definition empty_queue :: "'p WorkQueue" where
  "empty_queue = \<lparr>q_jobs = [], q_byKey = []\<rparr>"

definition DEFAULT_MAX_ATTEMPTS :: int where "DEFAULT_MAX_ATTEMPTS = 5"
definition DEFAULT_BACKOFF_BASE_SECONDS :: int where "DEFAULT_BACKOFF_BASE_SECONDS = 2"
definition DEFAULT_BACKOFF_CAP_SECONDS :: int where "DEFAULT_BACKOFF_CAP_SECONDS = 900"

definition jobIdFor :: "(string \<Rightarrow> string) \<Rightarrow> string \<Rightarrow> string" where
  "jobIdFor keccak idempotencyKey = keccak idempotencyKey"

definition RANDOM_SCALE :: int where "RANDOM_SCALE = 2 ^ 53"

definition backoffSeconds :: "int \<Rightarrow> int \<Rightarrow> int \<Rightarrow> int \<Rightarrow> int" where
  "backoffSeconds attempt draw baseSeconds capSeconds =
     (let exponential = min (baseSeconds * 2 ^ nat (max 0 (attempt - 1))) capSeconds
      in max 1 ((exponential * draw) div RANDOM_SCALE))"

section \<open>Operations\<close>

definition put_job :: "'p JobRecord \<Rightarrow> 'p WorkQueue \<Rightarrow> 'p WorkQueue" where
  "put_job j q = q\<lparr>q_jobs := AList.update (jr_jobId j) j (q_jobs q)\<rparr>"

definition getJob :: "'p WorkQueue \<Rightarrow> string \<Rightarrow> 'p JobRecord option" where
  "getJob q jobId = map_of (q_jobs q) jobId"

definition byIdempotencyKey :: "'p WorkQueue \<Rightarrow> string \<Rightarrow> 'p JobRecord option" where
  "byIdempotencyKey q key = (case map_of (q_byKey q) key of
       None \<Rightarrow> None
     | Some i \<Rightarrow> if i = [] then None else getJob q i)"

definition listJobs :: "'p WorkQueue \<Rightarrow> JobState option \<Rightarrow> 'p JobRecord list" where
  "listJobs q state = (case state of None \<Rightarrow> map_values (q_jobs q)
     | Some s \<Rightarrow> filter (\<lambda>j. jr_state j = s) (map_values (q_jobs q)))"

definition enqueue ::
  "(string \<Rightarrow> string) \<Rightarrow> 'p EnqueueRequest \<Rightarrow> int \<Rightarrow> 'p WorkQueue \<Rightarrow> 'p JobRecord \<times> 'p WorkQueue" where
  "enqueue keccak req t q =
     (let jobId = jobIdFor keccak (er_idempotencyKey req)
      in case getJob q jobId of
           Some existing \<Rightarrow> (existing, q)
         | None \<Rightarrow>
             let r = \<lparr>jr_jobId = jobId, jr_idempotencyKey = er_idempotencyKey req, jr_kind = er_kind req,
                      jr_payload = er_payload req, jr_state = PENDING, jr_attempts = 0,
                      jr_maxAttempts = option_default (er_maxAttempts req) DEFAULT_MAX_ATTEMPTS,
                      jr_nextAttemptAt = option_default (er_notBefore req) t, jr_leaseExpiresAt = None,
                      jr_lastError = None, jr_createdAt = t, jr_updatedAt = t\<rparr>
             in (r, (put_job r q)\<lparr>q_byKey := AList.update (er_idempotencyKey req) jobId (q_byKey q)\<rparr>))"

definition claimable :: "string list \<Rightarrow> int \<Rightarrow> 'p JobRecord \<Rightarrow> bool" where
  "claimable kinds now j \<longleftrightarrow>
     jr_kind j \<in> set kinds \<and> jr_nextAttemptAt j \<le> now
   \<and> (jr_state j = PENDING
      \<or> jr_state j = LEASED \<and> (case jr_leaseExpiresAt j of None \<Rightarrow> False | Some e \<Rightarrow> e \<le> now))"

definition due_jobs :: "'p WorkQueue \<Rightarrow> string list \<Rightarrow> int \<Rightarrow> 'p JobRecord list" where
  "due_jobs q kinds now =
     sort_key (\<lambda>j. (jr_nextAttemptAt j, jr_jobId j)) (filter (claimable kinds now) (map_values (q_jobs q)))"

definition lease_job :: "int \<Rightarrow> int \<Rightarrow> 'p JobRecord \<Rightarrow> 'p JobRecord" where
  "lease_job now leaseSeconds j =
     j\<lparr>jr_state := LEASED, jr_leaseExpiresAt := Some (now + leaseSeconds), jr_updatedAt := now\<rparr>"

definition claim ::
  "string list \<Rightarrow> int \<Rightarrow> int \<Rightarrow> 'p WorkQueue \<Rightarrow> 'p JobRecord option \<times> 'p WorkQueue" where
  "claim kinds now leaseSeconds q =
     (case due_jobs q kinds now of
        [] \<Rightarrow> (None, q)
      | j # _ \<Rightarrow> let leased = lease_job now leaseSeconds j in (Some leased, put_job leased q))"

definition require :: "'p WorkQueue \<Rightarrow> string \<Rightarrow> queue_error + 'p JobRecord" where
  "require q jobId = (case getJob q jobId of None \<Rightarrow> Inl (UnknownJob jobId) | Some j \<Rightarrow> Inr j)"

definition succeed :: "string \<Rightarrow> int \<Rightarrow> 'p WorkQueue \<Rightarrow> (queue_error + 'p JobRecord) \<times> 'p WorkQueue" where
  "succeed jobId now q = (case require q jobId of
       Inl e \<Rightarrow> (Inl e, q)
     | Inr j \<Rightarrow> let n = j\<lparr>jr_state := SUCCEEDED, jr_leaseExpiresAt := None, jr_updatedAt := now\<rparr>
              in (Inr n, put_job n q))"

definition fail_state :: "bool \<Rightarrow> 'p JobRecord \<Rightarrow> JobState" where
  "fail_state terminal j =
     (if terminal then REJECTED
      else if jr_attempts j + 1 \<ge> jr_maxAttempts j then RECONCILIATION_REQUIRED
      else PENDING)"

definition fail ::
  "string \<Rightarrow> int \<Rightarrow> string \<Rightarrow> bool \<Rightarrow> int \<Rightarrow> 'p WorkQueue \<Rightarrow> (queue_error + 'p JobRecord) \<times> 'p WorkQueue" where
  "fail jobId now err terminal draw q = (case require q jobId of
       Inl e \<Rightarrow> (Inl e, q)
     | Inr j \<Rightarrow>
         let attempts = jr_attempts j + 1; state = fail_state terminal j;
             n = j\<lparr>jr_state := state, jr_attempts := attempts, jr_lastError := Some err,
                   jr_leaseExpiresAt := None,
                   jr_nextAttemptAt := (if state = PENDING
                      then now + backoffSeconds attempts draw DEFAULT_BACKOFF_BASE_SECONDS DEFAULT_BACKOFF_CAP_SECONDS
                      else jr_nextAttemptAt j),
                   jr_updatedAt := now\<rparr>
         in (Inr n, put_job n q))"

text \<open>
  The handler may itself use the queue. A job that vanished under it makes both settlements throw.
\<close>

definition runOne ::
  "string list \<Rightarrow> int \<Rightarrow> int \<Rightarrow> ('p JobRecord \<Rightarrow> ('p WorkQueue, string, unit) action) \<Rightarrow>
   (string \<Rightarrow> bool) \<Rightarrow> int \<Rightarrow> ('p WorkQueue, queue_error, 'p JobRecord option) action" where
  "runOne kinds now leaseSeconds handler isTerminal draw =
     (\<lambda>q. case claim kinds now leaseSeconds q of
        (None, q1) \<Rightarrow> (Inr None, q1)
      | (Some job, q1) \<Rightarrow>
          (case handler job q1 of
             (Inr _, q2) \<Rightarrow>
               (case succeed (jr_jobId job) now q2 of
                  (Inr j, q3) \<Rightarrow> (Inr (Some j), q3)
                | (Inl e, q3) \<Rightarrow> (Inl e, q3))
           | (Inl err, q2) \<Rightarrow>
               (case fail (jr_jobId job) now err (isTerminal err) draw q2 of
                  (Inr j, q3) \<Rightarrow> (Inr (Some j), q3)
                | (Inl e, q3) \<Rightarrow> (Inl e, q3))))"

section \<open>Pipeline jobs\<close>

definition PIPELINE_JOB_KIND :: string where "PIPELINE_JOB_KIND = ''evidence.pipeline''"

record PipelineJobPayload =
  pj_assetId :: string
  pj_version :: int
  pj_expiresAt :: int
  pj_uri :: string
  pj_issuerId :: string
  pj_sourceClass :: nat
  pj_mediaType :: string
  pj_retrievedAt :: int
  pj_effectiveAt :: int
  pj_assertedSourceHash :: string
  pj_rawDigest :: string

definition pipelineJobKey :: "PipelineJobPayload \<Rightarrow> string" where
  "pipelineJobKey p = PIPELINE_JOB_KIND @ '':'' @ toLowerCase (pj_assetId p) @ '':'' @ show_int (pj_version p)
     @ '':'' @ toLowerCase (pj_rawDigest p)"

definition enqueuePipelineJob ::
  "(string \<Rightarrow> string) \<Rightarrow> PipelineJobPayload \<Rightarrow> int option \<Rightarrow> int \<Rightarrow> PipelineJobPayload WorkQueue \<Rightarrow>
   PipelineJobPayload JobRecord \<times> PipelineJobPayload WorkQueue" where
  "enqueuePipelineJob keccak payload maxAttempts t q =
     enqueue keccak \<lparr>er_idempotencyKey = pipelineJobKey payload, er_kind = PIPELINE_JOB_KIND,
       er_payload = payload, er_maxAttempts = maxAttempts, er_notBefore = None\<rparr> t q"

section \<open>Well-formed queues\<close>

definition job_ok :: "'p JobRecord \<Rightarrow> bool" where
  "job_ok j \<longleftrightarrow> (jr_state j = LEASED \<longleftrightarrow> jr_leaseExpiresAt j \<noteq> None)
     \<and> 0 \<le> jr_attempts j \<and> (jr_state j \<in> {PENDING, LEASED} \<longrightarrow> jr_attempts j < jr_maxAttempts j)"

definition queue_ok :: "'p WorkQueue \<Rightarrow> bool" where
  "queue_ok q \<longleftrightarrow> distinct (map fst (q_jobs q)) \<and> (\<forall>(i, j) \<in> set (q_jobs q). jr_jobId j = i \<and> job_ok j)"

lemma empty_queue_ok [simp]: "queue_ok empty_queue"
  by (simp add: queue_ok_def empty_queue_def)

lemma put_job_ok [simp]: "queue_ok q \<Longrightarrow> job_ok j \<Longrightarrow> queue_ok (put_job j q)"
  using set_update_subset [of "jr_jobId j" j "q_jobs q"]
  by (auto simp: queue_ok_def put_job_def distinct_update)

lemma queue_ok_byKey [simp]: "queue_ok (q\<lparr>q_byKey := m\<rparr>) \<longleftrightarrow> queue_ok q"
  by (simp add: queue_ok_def)

lemma getJob_put [simp]: "getJob (put_job j q) i = (if i = jr_jobId j then Some j else getJob q i)"
  by (simp add: getJob_def put_job_def)

lemma getJob_byKey [simp]: "getJob (q\<lparr>q_byKey := m\<rparr>) i = getJob q i"
  by (simp add: getJob_def)

lemma getJob_ok: "queue_ok q \<Longrightarrow> getJob q i = Some j \<Longrightarrow> jr_jobId j = i \<and> job_ok j"
  by (auto simp: queue_ok_def getJob_def dest!: map_of_SomeD)

lemma in_queue:
  assumes ok: "queue_ok q"
  shows "j \<in> set (map_values (q_jobs q)) \<longleftrightarrow> getJob q (jr_jobId j) = Some j"
proof
  assume "j \<in> set (map_values (q_jobs q))"
  then obtain i where i: "(i, j) \<in> set (q_jobs q)" by (auto simp: map_values_def)
  moreover have "jr_jobId j = i" using ok i by (auto simp: queue_ok_def)
  ultimately show "getJob q (jr_jobId j) = Some j"
    using ok by (simp add: getJob_def queue_ok_def map_of_is_SomeI)
next
  assume "getJob q (jr_jobId j) = Some j"
  then show "j \<in> set (map_values (q_jobs q))"
    by (force simp: map_values_def getJob_def dest: map_of_SomeD)
qed

lemma lease_job_simps [simp]:
  "jr_jobId (lease_job now L j) = jr_jobId j" "jr_state (lease_job now L j) = LEASED"
  "jr_leaseExpiresAt (lease_job now L j) = Some (now + L)" "jr_attempts (lease_job now L j) = jr_attempts j"
  "jr_maxAttempts (lease_job now L j) = jr_maxAttempts j" "jr_kind (lease_job now L j) = jr_kind j"
  by (simp_all add: lease_job_def)

lemma lease_job_ok: "job_ok j \<Longrightarrow> claimable kinds now j \<Longrightarrow> job_ok (lease_job now' L j)"
  by (auto simp: job_ok_def claimable_def)

lemma due_jobs_set: "queue_ok q \<Longrightarrow>
   j \<in> set (due_jobs q kinds now) \<longleftrightarrow> getJob q (jr_jobId j) = Some j \<and> claimable kinds now j"
  by (auto simp: due_jobs_def in_queue)

lemma claim_cases:
  assumes "queue_ok q"
  obtains "due_jobs q kinds now = []" "claim kinds now L q = (None, q)"
  | j js where "due_jobs q kinds now = j # js" "getJob q (jr_jobId j) = Some j" "claimable kinds now j"
      "claim kinds now L q = (Some (lease_job now L j), put_job (lease_job now L j) q)"
proof (cases "due_jobs q kinds now")
  case Nil
  then show thesis using that(1) by (simp add: claim_def)
next
  case (Cons j js)
  then have "j \<in> set (due_jobs q kinds now)" by simp
  then show thesis using that(2) [OF Cons] due_jobs_set [OF assms, of j kinds now] Cons by (simp add: claim_def Let_def)
qed

lemma claim_ok [simp]: "queue_ok q \<Longrightarrow> queue_ok (snd (claim kinds now L q))"
  by (rule claim_cases [of q kinds now L]) (auto dest: getJob_ok intro!: put_job_ok lease_job_ok)

lemma enqueue_ok [simp]:
  "queue_ok q \<Longrightarrow> 0 < option_default (er_maxAttempts req) DEFAULT_MAX_ATTEMPTS \<Longrightarrow>
   queue_ok (snd (enqueue keccak req t q))"
  by (auto simp: enqueue_def Let_def job_ok_def split: option.splits intro!: put_job_ok)

lemma succeed_ok [simp]: "queue_ok q \<Longrightarrow> queue_ok (snd (succeed i now q))"
  by (auto simp: succeed_def require_def Let_def job_ok_def split: option.splits
      dest: getJob_ok intro!: put_job_ok)

lemma fail_ok [simp]: "queue_ok q \<Longrightarrow> queue_ok (snd (fail i now err terminal draw q))"
  by (auto simp: fail_def fail_state_def require_def Let_def job_ok_def split: option.splits if_splits
      dest: getJob_ok intro!: put_job_ok)

section \<open>Backoff\<close>

lemma backoff_bounds:
  assumes "0 \<le> draw" "draw < RANDOM_SCALE" "0 \<le> base" "1 \<le> cap"
  shows "1 \<le> backoffSeconds n draw base cap" "backoffSeconds n draw base cap \<le> cap"
proof -
  define e where "e = min (base * 2 ^ nat (max 0 (n - 1))) cap"
  have e: "0 \<le> e" "e \<le> cap" using assms(3,4) by (simp_all add: e_def)
  have "(e * draw) div RANDOM_SCALE \<le> e"
    using muldiv_le [of e draw RANDOM_SCALE] e assms(1,2) by (simp add: RANDOM_SCALE_def)
  then show "1 \<le> backoffSeconds n draw base cap" "backoffSeconds n draw base cap \<le> cap"
    using e assms(4) by (simp_all add: backoffSeconds_def Let_def e_def [symmetric])
qed

section \<open>Claiming is taking the head of the due list\<close>

fun repeatedly :: "('q \<Rightarrow> 'j option \<times> 'q) \<Rightarrow> nat \<Rightarrow> 'q \<Rightarrow> 'j list \<times> 'q" where
  "repeatedly f 0 q = ([], q)"
| "repeatedly f (Suc n) q = (case f q of
     (None, q1) \<Rightarrow> ([], q1)
   | (Some j, q1) \<Rightarrow> (case repeatedly f n q1 of (js, q2) \<Rightarrow> (j # js, q2)))"

text \<open>What a worker loop relies on: taking hands out the first due job and leaves the rest due.\<close>

locale dispatcher =
  fixes due :: "'q \<Rightarrow> 'j list"
    and take_one :: "'q \<Rightarrow> 'j option \<times> 'q"
    and mark :: "'j \<Rightarrow> 'j"
    and wf_queue :: "'q \<Rightarrow> bool"
  assumes hands_out_first: "wf_queue q \<Longrightarrow> fst (take_one q) = (case due q of [] \<Rightarrow> None | j # _ \<Rightarrow> Some (mark j))"
    and leaves_rest: "wf_queue q \<Longrightarrow> due (snd (take_one q)) = tl (due q)"
    and keeps_wf: "wf_queue q \<Longrightarrow> wf_queue (snd (take_one q))"
begin

lemma hands_out_all:
  "wf_queue q \<Longrightarrow> fst (repeatedly take_one n q) = map mark (take n (due q))
     \<and> due (snd (repeatedly take_one n q)) = drop n (due q)"
proof (induction n arbitrary: q)
  case (Suc n)
  show ?case
  proof (cases "take_one q")
    case (Pair r q1)
    note law = hands_out_first [OF Suc.prems] leaves_rest [OF Suc.prems] keeps_wf [OF Suc.prems]
    show ?thesis
    proof (cases "due q")
      case Nil
      then show ?thesis using law Pair by (simp add: drop_Suc)
    next
      case (Cons j js)
      then have "r = Some (mark j)" "due q1 = js" "wf_queue q1" using law Pair by simp_all
      then show ?thesis using Suc.IH [of q1] Pair Cons by (cases "repeatedly take_one n q1") simp
    qed
  qed
qed simp

end

lemma distinct_ids: "queue_ok q \<Longrightarrow> distinct (map jr_jobId (map_values (q_jobs q)))"
proof -
  assume ok: "queue_ok q"
  have "map jr_jobId (map_values (q_jobs q)) = map fst (q_jobs q)"
    using ok by (auto simp: map_values_def queue_ok_def)
  then show ?thesis using ok by (simp add: queue_ok_def)
qed

lemma values_update:
  "distinct (map fst m) \<Longrightarrow> \<forall>(i, j) \<in> set m. f j = i \<Longrightarrow> f n \<in> fst ` set m \<Longrightarrow>
   map_values (AList.update (f n) n m) = map (\<lambda>x. if f x = f n then n else x) (map_values m)"
proof (induction m)
  case (Cons p m)
  obtain k v where p: "p = (k, v)" by (cases p)
  have v: "f v = k" using Cons.prems(2) by (simp add: p)
  show ?case
  proof (cases "k = f n")
    case True
    then have "\<forall>(i, j) \<in> set m. f j \<noteq> f n" using Cons.prems(1,2) by (force simp: p)
    then have "map (\<lambda>x. if f x = f n then n else x) (map snd m) = map snd m" by (auto intro: map_idI)
    then show ?thesis using True v by (simp add: p map_values_def)
  next
    case False
    then show ?thesis using Cons v by (simp add: p map_values_def)
  qed
qed simp

lemma due_after_lease:
  assumes ok: "queue_ok q" and j: "getJob q (jr_jobId j) = Some j" and L: "0 < L"
  shows "due_jobs (put_job (lease_job now L j) q) kinds now
       = filter (\<lambda>x. jr_jobId x \<noteq> jr_jobId j) (due_jobs q kinds now)"
proof -
  let ?n = "lease_job now L j"
  have nc: "\<not> claimable kinds now ?n" using L by (simp add: claimable_def)
  have "jr_jobId ?n \<in> fst ` set (q_jobs q)" using j by (force simp: getJob_def dest: map_of_SomeD)
  then have v: "map_values (q_jobs (put_job ?n q))
      = map (\<lambda>x. if jr_jobId x = jr_jobId j then ?n else x) (map_values (q_jobs q))"
    using values_update [of "q_jobs q" jr_jobId ?n] ok by (auto simp: queue_ok_def put_job_def)
  have "filter (claimable kinds now) (map (\<lambda>x. if jr_jobId x = jr_jobId j then ?n else x) xs)
      = filter (\<lambda>x. jr_jobId x \<noteq> jr_jobId j) (filter (claimable kinds now) xs)" for xs
    using nc by (induction xs) auto
  then show ?thesis by (simp only: due_jobs_def v filter_sort)
qed

lemma due_distinct: "queue_ok q \<Longrightarrow> distinct (map jr_jobId (due_jobs q kinds now))"
proof -
  assume "queue_ok q"
  then have "distinct (map jr_jobId (filter (claimable kinds now) (map_values (q_jobs q))))"
    by (intro distinct_map_filter distinct_ids)
  then show ?thesis
    by (simp add: due_jobs_def distinct_map)
qed

interpretation worker: dispatcher "\<lambda>q. due_jobs q kinds now" "claim kinds now L" "lease_job now L"
  "\<lambda>q. queue_ok q \<and> 0 < L" for kinds :: "string list" and now L :: int
proof
  fix q :: "'p WorkQueue"
  assume q: "queue_ok q \<and> 0 < L"
  then have ok: "queue_ok q" by simp
  show "fst (claim kinds now L q) = (case due_jobs q kinds now of [] \<Rightarrow> None | j # _ \<Rightarrow> Some (lease_job now L j))"
    by (rule claim_cases [OF ok, of kinds now L]) simp_all
  show "due_jobs (snd (claim kinds now L q)) kinds now = tl (due_jobs q kinds now)"
  proof (rule claim_cases [OF ok, of kinds now L])
    fix j js
    assume d: "due_jobs q kinds now = j # js" "getJob q (jr_jobId j) = Some j"
      and c: "claim kinds now L q = (Some (lease_job now L j), put_job (lease_job now L j) q)"
    have "filter (\<lambda>x. jr_jobId x \<noteq> jr_jobId j) js = js"
      using due_distinct [OF ok, of kinds now] d(1) by (auto simp: image_iff intro!: filter_True)
    then show "due_jobs (snd (claim kinds now L q)) kinds now = tl (due_jobs q kinds now)"
      using due_after_lease [OF ok d(2)] q by (simp add: c d(1))
  qed simp
  show "queue_ok (snd (claim kinds now L q)) \<and> 0 < L" using q by simp
qed

section \<open>Histories of a queue\<close>

datatype 'p queue_op =
    Enqueue "'p EnqueueRequest" int
  | Claim "string list" int int
  | Succeed string int
  | Fail string int string bool int

fun run_op :: "(string \<Rightarrow> string) \<Rightarrow> 'p queue_op \<Rightarrow> 'p WorkQueue \<Rightarrow> 'p JobRecord option \<times> 'p WorkQueue" where
  "run_op keccak (Enqueue req t) q = (None, snd (enqueue keccak req t q))"
| "run_op keccak (Claim kinds now L) q = claim kinds now L q"
| "run_op keccak (Succeed i now) q = (None, snd (succeed i now q))"
| "run_op keccak (Fail i now err terminal draw) q = (None, snd (fail i now err terminal draw q))"

text \<open>The jobs handed out along a sequence of operations, and the queue after it.\<close>

fun run_ops :: "(string \<Rightarrow> string) \<Rightarrow> 'p queue_op list \<Rightarrow> 'p WorkQueue \<Rightarrow> 'p JobRecord list \<times> 'p WorkQueue" where
  "run_ops keccak [] q = ([], q)"
| "run_ops keccak (x # xs) q =
     (case run_op keccak x q of (r, q1) \<Rightarrow>
      case run_ops keccak xs q1 of (js, q2) \<Rightarrow> ((case r of None \<Rightarrow> [] | Some j \<Rightarrow> [j]) @ js, q2))"

fun op_wf :: "'p queue_op \<Rightarrow> bool" where
  "op_wf (Enqueue req t) \<longleftrightarrow> 0 < option_default (er_maxAttempts req) DEFAULT_MAX_ATTEMPTS"
| "op_wf _ \<longleftrightarrow> True"

fun settles :: "string \<Rightarrow> 'p queue_op \<Rightarrow> bool" where
  "settles i (Succeed i' now) \<longleftrightarrow> i = i'"
| "settles i (Fail i' now err terminal draw) \<longleftrightarrow> i = i'"
| "settles i _ \<longleftrightarrow> False"

fun claims_by :: "int \<Rightarrow> 'p queue_op \<Rightarrow> bool" where
  "claims_by limit (Claim kinds now L) \<longleftrightarrow> now < limit"
| "claims_by limit _ \<longleftrightarrow> True"

lemma run_op_ok: "queue_ok q \<Longrightarrow> op_wf x \<Longrightarrow> queue_ok (snd (run_op keccak x q))"
  by (cases x) simp_all

lemma snd_run_ops: "snd (run_ops keccak (x # xs) q) = snd (run_ops keccak xs (snd (run_op keccak x q)))"
  by (cases "run_op keccak x q") (simp split: prod.split)

lemma run_ops_append:
  "snd (run_ops keccak (xs @ ys) q) = snd (run_ops keccak ys (snd (run_ops keccak xs q)))"
  by (induction xs arbitrary: q) (simp_all add: snd_run_ops del: run_ops.simps(2))

lemma run_ops_ok: "queue_ok q \<Longrightarrow> list_all op_wf xs \<Longrightarrow> queue_ok (snd (run_ops keccak xs q))"
proof (induction xs arbitrary: q)
  case (Cons x xs)
  have "queue_ok (snd (run_op keccak x q))" using run_op_ok [OF Cons.prems(1), of x keccak] Cons.prems(2) by simp
  then show ?case using Cons.IH [of "snd (run_op keccak x q)"] Cons.prems(2) by (simp add: snd_run_ops del: run_ops.simps(2))
qed simp

text \<open>A job no claim may take and nobody settles.\<close>

definition held :: "'p JobRecord \<Rightarrow> int \<Rightarrow> bool" where
  "held j limit \<longleftrightarrow> jr_state j \<in> {SUCCEEDED, RECONCILIATION_REQUIRED, REJECTED}
     \<or> jr_state j = LEASED \<and> (case jr_leaseExpiresAt j of None \<Rightarrow> False | Some e \<Rightarrow> limit \<le> e)"

lemma held_unclaimable: "held j limit \<Longrightarrow> now < limit \<Longrightarrow> \<not> claimable kinds now j"
  by (auto simp: held_def claimable_def split: option.splits)

lemma run_op_held:
  assumes ok: "queue_ok q" and j: "getJob q i = Some j" "held j limit"
    and x: "\<not> settles i x" "claims_by limit x \<or> jr_state j \<noteq> LEASED"
  shows "getJob (snd (run_op keccak x q)) i = Some j
    \<and> (case fst (run_op keccak x q) of None \<Rightarrow> True | Some k \<Rightarrow> jr_jobId k \<noteq> i)"
proof (cases x)
  case (Enqueue req t)
  then show ?thesis using j(1) by (auto simp: enqueue_def Let_def split: option.splits)
next
  case (Claim kinds now L)
  have nc: "\<not> claimable kinds now j"
    using held_unclaimable [OF j(2), of now] x(2) Claim j(2) by (auto simp: held_def claimable_def)
  show ?thesis
  proof (rule claim_cases [OF ok, of kinds now L])
    fix k ks
    assume k: "getJob q (jr_jobId k) = Some k" "claimable kinds now k"
      "claim kinds now L q = (Some (lease_job now L k), put_job (lease_job now L k) q)"
    then have "jr_jobId k \<noteq> i" using j(1) nc by auto
    then show ?thesis using Claim j(1) k(3) by simp
  qed (use Claim j(1) in simp)
next
  case (Succeed i' now)
  then show ?thesis using j(1) x(1) ok
    by (auto simp: succeed_def require_def Let_def split: option.splits dest: getJob_ok)
next
  case (Fail i' now err terminal draw)
  then show ?thesis using j(1) x(1) ok
    by (auto simp: fail_def require_def Let_def split: option.splits dest: getJob_ok)
qed

lemma run_ops_held:
  assumes "queue_ok q" "list_all op_wf xs" "getJob q i = Some j" "held j limit"
    and "list_all (\<lambda>x. \<not> settles i x) xs" "list_all (claims_by limit) xs \<or> jr_state j \<noteq> LEASED"
  shows "getJob (snd (run_ops keccak xs q)) i = Some j \<and> i \<notin> jr_jobId ` set (fst (run_ops keccak xs q))"
  using assms
proof (induction xs arbitrary: q)
  case (Cons x xs)
  obtain r q1 where r: "run_op keccak x q = (r, q1)" by (cases "run_op keccak x q")
  have "queue_ok q1" using run_op_ok [OF Cons.prems(1), of x keccak] Cons.prems(2) r by simp
  moreover have q1: "getJob q1 i = Some j" "case r of None \<Rightarrow> True | Some k \<Rightarrow> jr_jobId k \<noteq> i"
    using run_op_held [OF Cons.prems(1,3,4), of x keccak] Cons.prems(5,6) r by auto
  ultimately have "getJob (snd (run_ops keccak xs q1)) i = Some j \<and> i \<notin> jr_jobId ` set (fst (run_ops keccak xs q1))"
    using Cons.IH [of q1] Cons.prems by auto
  then show ?case using r q1(2) by (auto split: prod.splits option.splits)
qed simp

definition reached :: "(string \<Rightarrow> string) \<Rightarrow> 'p queue_op list \<Rightarrow> 'p WorkQueue" where
  "reached keccak xs = snd (run_ops keccak xs empty_queue)"

lemma reached_ok: "list_all op_wf xs \<Longrightarrow> queue_ok (reached keccak xs)"
  by (simp add: reached_def run_ops_ok)

section \<open>What settling does not check\<close>

text \<open>
  A settlement looks at neither the state nor the lease of the job: a worker whose lease ran out can
  fail a job another worker has finished, and the finished job is handed out again.
\<close>

lemma late_failure_reopens:
  assumes "getJob q i = Some j" "queue_ok q" "jr_state j = SUCCEEDED" "jr_attempts j + 1 < jr_maxAttempts j"
  shows "\<exists>j' q'. fail i now err False draw q = (Inr j', q') \<and> jr_state j' = PENDING"
  using assms by (auto simp: fail_def fail_state_def require_def Let_def)

text \<open>
  Only a recorded failure is counted: however often a lease runs out, the attempts stay, so a job that
  kills its worker is handed out again for ever.
\<close>

lemma crash_not_counted:
  assumes "queue_ok q" "fst (claim kinds now L q) = Some j" "now + L \<le> now'" "jr_nextAttemptAt j \<le> now'"
  shows "claimable kinds now' j \<and> (\<exists>j0. getJob q (jr_jobId j) = Some j0 \<and> jr_attempts j0 = jr_attempts j)"
proof (rule claim_cases [OF assms(1), of kinds now L])
  fix k ks
  assume k: "getJob q (jr_jobId k) = Some k" "claimable kinds now k"
    "claim kinds now L q = (Some (lease_job now L k), put_job (lease_job now L k) q)"
  then have j: "j = lease_job now L k" using assms(2) by simp
  then show ?thesis using assms(3,4) k(1,2) by (auto simp: claimable_def)
qed (use assms(2) in simp)

section \<open>Properties\<close>

text \<open>
  C30: claiming hands out what is due, in order, once each. On any queue that operations lead to whose
  enqueued jobs may be tried at least once, claiming n times at one instant, with a positive lease, gives
  the first n of the jobs due then, leased: those of the kinds asked for whose next attempt is not in the
  future and which are pending, or leased under a lease that has run out. They come ordered by the time of
  their next attempt and then by id, each once, and what is due afterwards is the rest of them.
\<close>

theorem queue_hands_out_due:
  assumes "list_all op_wf xs" "0 < L"
  shows "let q = reached keccak xs; (out, q') = repeatedly (claim kinds now L) n q;
             due = (\<lambda>q. {j \<in> set (map_values (q_jobs q)). jr_kind j \<in> set kinds \<and> jr_nextAttemptAt j \<le> now
               \<and> (jr_state j = PENDING
                  \<or> jr_state j = LEASED \<and> (\<exists>e. jr_leaseExpiresAt j = Some e \<and> e \<le> now))})
         in \<exists>ds. set ds = due q \<and> distinct (map jr_jobId ds)
            \<and> sorted (map (\<lambda>j. (jr_nextAttemptAt j, jr_jobId j)) ds)
            \<and> out = map (\<lambda>j. j\<lparr>jr_state := LEASED, jr_leaseExpiresAt := Some (now + L), jr_updatedAt := now\<rparr>) (take n ds)
            \<and> due q' = set (drop n ds)"
proof -
  let ?due = "\<lambda>q. {j \<in> set (map_values (q_jobs q)). jr_kind j \<in> set kinds \<and> jr_nextAttemptAt j \<le> now
      \<and> (jr_state j = PENDING \<or> jr_state j = LEASED \<and> (\<exists>e. jr_leaseExpiresAt j = Some e \<and> e \<le> now))}"
  have d: "set (due_jobs q kinds now) = ?due q" for q :: "'a WorkQueue"
    by (auto simp: due_jobs_def claimable_def split: option.splits)
  have l: "map (lease_job now L) js
      = map (\<lambda>j. j\<lparr>jr_state := LEASED, jr_leaseExpiresAt := Some (now + L), jr_updatedAt := now\<rparr>) js" for js :: "'a JobRecord list"
    by (simp add: lease_job_def)
  let ?q = "reached keccak xs"
  have h: "fst (repeatedly (claim kinds now L) n ?q) = map (lease_job now L) (take n (due_jobs ?q kinds now))"
    "due_jobs (snd (repeatedly (claim kinds now L) n ?q)) kinds now = drop n (due_jobs ?q kinds now)"
    "distinct (map jr_jobId (due_jobs ?q kinds now))"
    "sorted (map (\<lambda>j. (jr_nextAttemptAt j, jr_jobId j)) (due_jobs ?q kinds now))"
    using worker.hands_out_all [of ?q L kinds now n] reached_ok [OF assms(1), of keccak]
      due_distinct [OF reached_ok [OF assms(1)]] assms(2)
    by (simp_all add: due_jobs_def)
  have "?due (snd (repeatedly (claim kinds now L) n ?q)) = set (drop n (due_jobs ?q kinds now))"
    unfolding d [symmetric] h(2) ..
  then show ?thesis
    using h(1,3,4) d [of ?q] unfolding Let_def case_prod_beta l by (intro exI [of _ "due_jobs ?q kinds now"] conjI)
qed

definition demo_history :: "nat queue_op list" where
  "demo_history =
     [Enqueue \<lparr>er_idempotencyKey = ''b'', er_kind = ''k'', er_payload = 1, er_maxAttempts = None, er_notBefore = Some 3\<rparr> 0,
      Enqueue \<lparr>er_idempotencyKey = ''a'', er_kind = ''k'', er_payload = 2, er_maxAttempts = None, er_notBefore = Some 1\<rparr> 0,
      Claim [''k''] 1 10, Fail ''a'' 2 ''down'' False 0]"

lemma demo_history_wf: "list_all op_wf demo_history"
  by (simp add: demo_history_def DEFAULT_MAX_ATTEMPTS_def)

lemma demo_due: "map jr_jobId (due_jobs (reached id demo_history) [''k''] 5) = [''a'', ''b'']"
  by code_simp

theorem queue_hands_out_due_witness:
  "set (map jr_jobId (fst (repeatedly (claim [''k''] 2 10) 3 (reached id demo_history)))) \<subseteq> {''a'', ''b''}
     \<and> \<not> list_ex (\<lambda>j. jr_nextAttemptAt j > 2) (fst (repeatedly (claim [''k''] 2 10) 3 (reached id demo_history)))
     \<and> map jr_jobId (fst (repeatedly (claim [''k''] 5 10) 2 (reached id demo_history))) = [''a'', ''b'']"
proof -
  have all: "jr_jobId ` set (map_values (q_jobs (reached id demo_history))) = {''a'', ''b''}" by code_simp
  obtain ds where ds: "set ds \<subseteq> {j \<in> set (map_values (q_jobs (reached id demo_history))). jr_nextAttemptAt j \<le> 2}"
    "fst (repeatedly (claim [''k''] 2 10) 3 (reached id demo_history))
       = map (\<lambda>j. j\<lparr>jr_state := LEASED, jr_leaseExpiresAt := Some (2 + 10), jr_updatedAt := 2\<rparr>) (take 3 ds)"
    using queue_hands_out_due [OF demo_history_wf, of 10 id "[''k'']" 2 3] by (auto simp: Let_def case_prod_beta)
  have "set (take 3 ds) \<subseteq> set ds" by (rule set_take_subset)
  with ds(1) have "\<forall>j\<in>set (take 3 ds). jr_jobId j \<in> {''a'', ''b''} \<and> jr_nextAttemptAt j \<le> 2" using all by blast
  moreover have "map jr_jobId (fst (repeatedly (claim [''k''] 5 10) 2 (reached id demo_history))) = [''a'', ''b'']" by code_simp
  ultimately show ?thesis unfolding ds(2) by (auto simp: list_ex_iff)
qed

text \<open>
  A leased job belongs to its worker, and a finished one to nobody. Whatever is enqueued, claimed
  (for a leased job: before the lease ends) or settled besides, a job that is leased, succeeded,
  rejected or handed to a human is never handed out and its record does not change; submitting its
  key again returns that record and changes nothing.
\<close>

theorem queue_job_left_alone:
  assumes "list_all op_wf xs" "getJob (reached keccak xs) i = Some j" "held j limit"
    and "list_all op_wf ys" "list_all (\<lambda>y. \<not> settles i y) ys"
    and "list_all (claims_by limit) ys \<or> jr_state j \<noteq> LEASED"
  shows "getJob (reached keccak (xs @ ys)) i = Some j
    \<and> i \<notin> jr_jobId ` set (fst (run_ops keccak ys (reached keccak xs)))
    \<and> (jobIdFor keccak (er_idempotencyKey req) = i \<longrightarrow>
         enqueue keccak req t (reached keccak (xs @ ys)) = (j, reached keccak (xs @ ys)))"
proof -
  have split: "reached keccak (xs @ ys) = snd (run_ops keccak ys (reached keccak xs))"
    by (simp add: reached_def run_ops_append)
  have r: "getJob (reached keccak (xs @ ys)) i = Some j"
    "i \<notin> jr_jobId ` set (fst (run_ops keccak ys (reached keccak xs)))"
    using run_ops_held [OF reached_ok [OF assms(1)] assms(4,2,3,5,6)] by (simp_all add: split)
  then show ?thesis by (simp add: enqueue_def Let_def)
qed

theorem queue_job_left_alone_witness:
  "getJob (reached id ([Enqueue \<lparr>er_idempotencyKey = ''a'', er_kind = ''k'', er_payload = (2::nat),
       er_maxAttempts = None, er_notBefore = None\<rparr> 1, Claim [''k''] 1 10] @ [Claim [''k''] 5 10])) ''a''
   = Some \<lparr>jr_jobId = ''a'', jr_idempotencyKey = ''a'', jr_kind = ''k'', jr_payload = 2, jr_state = LEASED,
       jr_attempts = 0, jr_maxAttempts = 5, jr_nextAttemptAt = 1, jr_leaseExpiresAt = Some 11,
       jr_lastError = None, jr_createdAt = 1, jr_updatedAt = 1\<rparr>"
proof -
  let ?xs = "[Enqueue \<lparr>er_idempotencyKey = ''a'', er_kind = ''k'', er_payload = (2::nat),
       er_maxAttempts = None, er_notBefore = None\<rparr> 1, Claim [''k''] 1 10]"
  let ?j = "\<lparr>jr_jobId = ''a'', jr_idempotencyKey = ''a'', jr_kind = ''k'', jr_payload = (2::nat), jr_state = LEASED,
       jr_attempts = 0, jr_maxAttempts = 5, jr_nextAttemptAt = 1, jr_leaseExpiresAt = Some 11,
       jr_lastError = None, jr_createdAt = 1, jr_updatedAt = 1\<rparr>"
  have "getJob (reached id ?xs) ''a'' = Some ?j" by code_simp
  moreover have "held ?j 11" by (simp add: held_def)
  moreover have "list_all op_wf ?xs" by (simp add: DEFAULT_MAX_ATTEMPTS_def)
  ultimately show ?thesis
    using queue_job_left_alone [of ?xs id "''a''" ?j 11 "[Claim [''k''] 5 10]"] by simp
qed

text \<open>
  A retry is counted, delayed and bounded. On any queue a history leads to, a failed attempt on a
  job that is pending or leased adds one to its attempts; a terminal failure rejects the job, an
  attempt that reaches the allowance hands it to a human with exactly that many attempts, and any
  other makes it pending again, due at least one second and at most 900 seconds later.
\<close>

theorem queue_retry_budget:
  assumes "list_all op_wf xs" "getJob (reached keccak xs) i = Some j" "jr_state j \<in> {PENDING, LEASED}"
    and "0 \<le> draw" "draw < RANDOM_SCALE"
  shows "\<exists>j' q'. fail i now err terminal draw (reached keccak xs) = (Inr j', q') \<and> getJob q' i = Some j'
    \<and> jr_attempts j' = jr_attempts j + 1
    \<and> (if terminal then jr_state j' = REJECTED
       else if jr_attempts j' < jr_maxAttempts j
       then jr_state j' = PENDING \<and> now + 1 \<le> jr_nextAttemptAt j' \<and> jr_nextAttemptAt j' \<le> now + 900
       else jr_state j' = RECONCILIATION_REQUIRED \<and> jr_attempts j' = jr_maxAttempts j)"
proof -
  have j: "jr_jobId j = i" "jr_attempts j < jr_maxAttempts j"
    using getJob_ok [OF reached_ok [OF assms(1)] assms(2)] assms(3) by (auto simp: job_ok_def)
  have b: "1 \<le> backoffSeconds n draw DEFAULT_BACKOFF_BASE_SECONDS DEFAULT_BACKOFF_CAP_SECONDS"
    "backoffSeconds n draw DEFAULT_BACKOFF_BASE_SECONDS DEFAULT_BACKOFF_CAP_SECONDS \<le> 900" for n
    using backoff_bounds [OF assms(4,5), of DEFAULT_BACKOFF_BASE_SECONDS DEFAULT_BACKOFF_CAP_SECONDS n]
    by (simp_all add: DEFAULT_BACKOFF_BASE_SECONDS_def DEFAULT_BACKOFF_CAP_SECONDS_def)
  show ?thesis
    using assms(2) j b [of "jr_attempts j + 1"] by (auto simp: fail_def fail_state_def require_def Let_def)
qed

theorem queue_retry_budget_witness:
  "\<exists>j' q'. fail ''a'' 7 ''down'' False 0 (reached id demo_history) = (Inr j', q') \<and> jr_attempts j' = 2
     \<and> jr_state j' = PENDING \<and> 8 \<le> jr_nextAttemptAt j'"
proof -
  obtain j where j: "getJob (reached id demo_history) ''a'' = Some j" "jr_state j = PENDING" "jr_attempts j = 1"
    "jr_maxAttempts j = 5"
  proof -
    have "map_option (\<lambda>j. (jr_state j, jr_attempts j, jr_maxAttempts j)) (getJob (reached id demo_history) ''a'')
        = Some (PENDING, 1, 5)" by code_simp
    then show thesis using that by auto
  qed
  show ?thesis
    using queue_retry_budget [OF demo_history_wf j(1), of 0 7 "''down''" False] j(2-4)
    by (auto simp: RANDOM_SCALE_def)
qed

end
