(* ===== verification/Evidence_Claims.thy ===== *)
theory Evidence_Claims
  imports Schema_Primitives Interfaces
begin

text \<open>
  Claims and their corroboration: the claim values of \<open>packages/schemas/src/primitives.ts\<close>, the
  evidence schemas of \<open>evidence.ts\<close> and \<open>source-class.ts\<close>, the validation of an extraction
  (\<open>services/evidence/src/extract.ts\<close>) and the field-by-field comparison of \<open>corroborate.ts\<close>. A
  value that is \<open>UNKNOWN\<close> is \<open>None\<close>. Unicode normalisation is the argument \<open>nfc\<close>; text is code
  units below 256.
\<close>

section \<open>Claim values\<close>

datatype ClaimValue =
    CV_bool bool
  | CV_bps int
  | CV_seconds int
  | CV_enum int string
  | CV_string string
  | CV_address string

fun claimValueSchema :: "ClaimValue \<Rightarrow> bool" where
  "claimValueSchema (CV_bool b) \<longleftrightarrow> True"
| "claimValueSchema (CV_bps n) \<longleftrightarrow> bpsSchema n"
| "claimValueSchema (CV_seconds n) \<longleftrightarrow> 0 \<le> n"
| "claimValueSchema (CV_enum n name) \<longleftrightarrow> 0 \<le> n \<and> name \<noteq> []"
| "claimValueSchema (CV_string s) \<longleftrightarrow> True"
| "claimValueSchema (CV_address a) \<longleftrightarrow> addressSchema a"

text \<open>\<open>replace(/\s+/g, " ")\<close>: each run of white space becomes one space.\<close>

fun collapse_from :: "bool \<Rightarrow> string \<Rightarrow> string" where
  "collapse_from inside [] = []"
| "collapse_from inside (c # cs) =
     (if is_ws c then (if inside then collapse_from True cs else CHR '' '' # collapse_from True cs)
      else c # collapse_from False cs)"

definition collapse_ws :: "string \<Rightarrow> string" where
  "collapse_ws s = collapse_from False s"

definition normalizeForComparison :: "(string \<Rightarrow> string) \<Rightarrow> ClaimValue option \<Rightarrow> string" where
  "normalizeForComparison nfc v = (case v of
       None \<Rightarrow> ''UNKNOWN''
     | Some (CV_bool b) \<Rightarrow> ''bool:'' @ (if b then ''1'' else ''0'')
     | Some (CV_bps n) \<Rightarrow> ''bps:'' @ show_int n
     | Some (CV_seconds n) \<Rightarrow> ''seconds:'' @ show_int n
     | Some (CV_enum n name) \<Rightarrow> ''enum:'' @ show_int n
     | Some (CV_string s) \<Rightarrow> ''string:'' @ trim (collapse_ws (toLowerCase (nfc s)))
     | Some (CV_address a) \<Rightarrow> ''address:'' @ toLowerCase a)"

definition claimValuesEqual :: "(string \<Rightarrow> string) \<Rightarrow> ClaimValue option \<Rightarrow> ClaimValue option \<Rightarrow> bool" where
  "claimValuesEqual nfc a b \<longleftrightarrow> normalizeForComparison nfc a = normalizeForComparison nfc b"

section \<open>Source classes\<close>

definition SOURCE_CLASS_NAMES :: "string list" where
  "SOURCE_CLASS_NAMES = [''SOCIAL'', ''NEWS'', ''MARKET_DATA'', ''INDEPENDENT_PROVIDER'', ''ISSUER_DOC'',
     ''REGULATORY_FILING'', ''ISSUER_SIGNED'']"

definition sourceClassSchema :: "nat \<Rightarrow> bool" where
  "sourceClassSchema c \<longleftrightarrow> c < length SOURCE_CLASS_NAMES"

definition LOW_TRUST_CLASSES :: "nat list" where "LOW_TRUST_CLASSES = [0, 1, 2]"

definition isLowTrust :: "nat \<Rightarrow> bool" where
  "isLowTrust c \<longleftrightarrow> c \<in> set LOW_TRUST_CLASSES"

definition canSupersede :: "nat \<Rightarrow> nat \<Rightarrow> bool" where
  "canSupersede existing replacement \<longleftrightarrow> replacement \<ge> existing"

definition MIN_CLAIM_CLASS :: nat where "MIN_CLAIM_CLASS = 3"

definition maySupportClaim :: "nat \<Rightarrow> bool" where
  "maySupportClaim c \<longleftrightarrow> c \<ge> MIN_CLAIM_CLASS"

section \<open>Claims\<close>

record DocumentLocator =
  dl_section :: "string option"
  dl_startOffset :: "int option"
  dl_endOffset :: "int option"
  dl_quote :: string

definition text_between :: "nat \<Rightarrow> nat \<Rightarrow> string \<Rightarrow> bool" where
  "text_between lo hi s \<longleftrightarrow> lo \<le> length s \<and> length s \<le> hi"

definition documentLocatorSchema :: "DocumentLocator \<Rightarrow> bool" where
  "documentLocatorSchema l \<longleftrightarrow>
     opt_ok (text_between 1 200) (dl_section l) \<and> opt_ok (\<lambda>n. 0 \<le> n) (dl_startOffset l)
   \<and> opt_ok (\<lambda>n. 0 \<le> n) (dl_endOffset l) \<and> text_between 1 2000 (dl_quote l)"

record EvidenceClaim =
  ec_field :: string
  ec_value :: "ClaimValue option"
  ec_locator :: "DocumentLocator option"
  ec_evidenceId :: string
  ec_sourceClass :: nat
  ec_retrievedAt :: int
  ec_effectiveAt :: int
  ec_expiresAt :: "int option"
  ec_extractor :: string
  ec_confidenceBps :: int
  ec_corroboratingEvidenceIds :: "string list"
  ec_attestation :: "string option"

definition lower_letter :: "char \<Rightarrow> bool" where
  "lower_letter c \<longleftrightarrow> 97 \<le> (of_char c :: nat) \<and> (of_char c :: nat) \<le> 122"

definition upper_letter :: "char \<Rightarrow> bool" where
  "upper_letter c \<longleftrightarrow> 65 \<le> (of_char c :: nat) \<and> (of_char c :: nat) \<le> 90"

text \<open>\<open>/^[a-z][a-zA-Z0-9]*(\.[a-z][a-zA-Z0-9]*)*$/\<close>\<close>

definition dotted_path :: "string \<Rightarrow> bool" where
  "dotted_path s \<longleftrightarrow> list_all (\<lambda>w. case w of [] \<Rightarrow> False
     | c # cs \<Rightarrow> lower_letter c \<and> list_all (\<lambda>d. lower_letter d \<or> upper_letter d \<or> is_digit d) cs)
     (split_on (CHR ''.'') s)"

definition evidenceClaimSchema :: "EvidenceClaim \<Rightarrow> bool" where
  "evidenceClaimSchema c \<longleftrightarrow>
     text_between 1 120 (ec_field c) \<and> dotted_path (ec_field c) \<and> opt_ok claimValueSchema (ec_value c)
   \<and> opt_ok documentLocatorSchema (ec_locator c) \<and> hex32Schema (ec_evidenceId c)
   \<and> sourceClassSchema (ec_sourceClass c) \<and> unixSecondsSchema (ec_retrievedAt c)
   \<and> unixSecondsSchema (ec_effectiveAt c) \<and> opt_ok unixSecondsSchema (ec_expiresAt c)
   \<and> text_between 1 120 (ec_extractor c) \<and> bpsSchema (ec_confidenceBps c)
   \<and> list_all hex32Schema (ec_corroboratingEvidenceIds c) \<and> length (ec_corroboratingEvidenceIds c) \<le> 32
   \<and> opt_ok (\<lambda>a. take 2 a = ''0x'' \<and> list_all hex_char (drop 2 a)) (ec_attestation c)
   \<and> \<not> (ec_value c \<noteq> None \<and> ec_locator c = None)"

text \<open>Parsing lowers hexadecimal text.\<close>

definition parsed_claim :: "EvidenceClaim \<Rightarrow> EvidenceClaim" where
  "parsed_claim c = c\<lparr>
     ec_value := map_option (\<lambda>v. case v of CV_address a \<Rightarrow> CV_address (toLowerCase a) | _ \<Rightarrow> v) (ec_value c),
     ec_evidenceId := toLowerCase (ec_evidenceId c),
     ec_corroboratingEvidenceIds := map toLowerCase (ec_corroboratingEvidenceIds c)\<rparr>"

record ClaimSet =
  cs_extractor :: string
  cs_independenceGroup :: string
  cs_claims :: "EvidenceClaim list"

definition claimSetSchema :: "ClaimSet \<Rightarrow> bool" where
  "claimSetSchema s \<longleftrightarrow> cs_extractor s \<noteq> [] \<and> cs_independenceGroup s \<noteq> []
     \<and> list_all evidenceClaimSchema (cs_claims s)"

definition parsed_claim_set :: "ClaimSet \<Rightarrow> ClaimSet" where
  "parsed_claim_set s = s\<lparr>cs_claims := map parsed_claim (cs_claims s)\<rparr>"

record CanonicalDocument =
  cd_evidenceId :: string
  cd_contentHash :: string
  cd_sourceHash :: string
  cd_sourceClass :: nat
  cd_canonicalizerVersion :: string
  cd_mediaType :: string
  cd_bytes :: "nat list"
  cd_retrievedAt :: int
  cd_effectiveAt :: int

section \<open>Corroboration\<close>

datatype FieldOutcome = AGREED | CONFLICT | SINGLE | ABSENT

record FieldComparison =
  fc_field :: string
  fc_outcome :: FieldOutcome
  fc_byExtractor :: "(string \<times> ClaimValue option) list"

datatype CorroborationOutcome = CORROBORATED | SINGLE_SOURCE | CLAIM_CONFLICT

record Corroboration =
  co_outcome :: CorroborationOutcome
  co_fields :: "FieldComparison list"
  co_independentPathCount :: nat

definition RISK_BEARING_FIELDS :: "string list" where
  "RISK_BEARING_FIELDS = [''redemption.supported'', ''redemption.floorBps'',
     ''redemption.estimatedWindowSeconds'', ''transfer.permissionModel'', ''backing.model'',
     ''legal.holderRights'', ''corporateActions.mechanism'']"

definition isRiskBearing :: "string \<Rightarrow> bool" where
  "isRiskBearing field \<longleftrightarrow> field \<in> set RISK_BEARING_FIELDS"

definition claimed_fields :: "ClaimSet list \<Rightarrow> string list" where
  "claimed_fields sets = set_adds (concat (map (\<lambda>s. map ec_field (cs_claims s)) sets)) []"

definition contributingGroups :: "ClaimSet list \<Rightarrow> string list" where
  "contributingGroups sets = set_adds
     (map cs_independenceGroup (filter (\<lambda>s. list_ex (\<lambda>c. ec_value c \<noteq> None) (cs_claims s)) sets)) []"

definition claim_value :: "string \<Rightarrow> ClaimSet \<Rightarrow> ClaimValue option" where
  "claim_value field s = (case find (\<lambda>c. ec_field c = field) (cs_claims s) of
       None \<Rightarrow> None | Some c \<Rightarrow> ec_value c)"

definition byExtractor :: "string \<Rightarrow> ClaimSet list \<Rightarrow> (string \<times> ClaimValue option) list" where
  "byExtractor field sets = foldl (\<lambda>m s. AList.update (cs_extractor s) (claim_value field s) m) [] sets"

definition add_reading ::
  "(string \<Rightarrow> string) \<Rightarrow> string \<Rightarrow> (string \<times> string list) list \<Rightarrow> ClaimSet \<Rightarrow> (string \<times> string list) list" where
  "add_reading nfc field m s = (case claim_value field s of
       None \<Rightarrow> m
     | Some v \<Rightarrow> AList.update (cs_independenceGroup s)
         (set_add (normalizeForComparison nfc (Some v)) (option_default (map_of m (cs_independenceGroup s)) [])) m)"

definition byGroup :: "(string \<Rightarrow> string) \<Rightarrow> string \<Rightarrow> ClaimSet list \<Rightarrow> (string \<times> string list) list" where
  "byGroup nfc field sets = foldl (add_reading nfc field) [] sets"

definition compare_field :: "(string \<Rightarrow> string) \<Rightarrow> ClaimSet list \<Rightarrow> string \<Rightarrow> FieldComparison" where
  "compare_field nfc sets field =
     (let groups = byGroup nfc field sets;
          groupsWithValue = map fst groups;
          distinctValues = set_adds (concat (map_values groups)) []
      in \<lparr>fc_field = field,
          fc_outcome = (if length groupsWithValue = 0 then ABSENT
                        else if length distinctValues > 1 then CONFLICT
                        else if length groupsWithValue = 1 then SINGLE
                        else AGREED),
          fc_byExtractor = byExtractor field sets\<rparr>)"

definition corroborate :: "(string \<Rightarrow> string) \<Rightarrow> ClaimSet list \<Rightarrow> Corroboration" where
  "corroborate nfc sets =
     (let comparisons = map (compare_field nfc sets) (sort (claimed_fields sets));
          anyConflict = list_ex (\<lambda>c. fc_outcome c = CONFLICT \<and> isRiskBearing (fc_field c)) comparisons;
          paths = length (contributingGroups sets)
      in \<lparr>co_outcome =
            (if anyConflict then CLAIM_CONFLICT
             else if paths \<ge> 2 \<and> list_ex (\<lambda>c. fc_outcome c = AGREED) comparisons then CORROBORATED
             else SINGLE_SOURCE),
          co_fields = comparisons, co_independentPathCount = paths\<rparr>)"

section \<open>Corroboration, declaratively\<close>

text \<open>What the sets read for a field: which group, and what value in normal form.\<close>

definition readings :: "(string \<Rightarrow> string) \<Rightarrow> ClaimSet list \<Rightarrow> string \<Rightarrow> (string \<times> string) set" where
  "readings nfc sets field =
     {(cs_independenceGroup s, normalizeForComparison nfc (claim_value field s)) | s.
        s \<in> set sets \<and> claim_value field s \<noteq> None}"

lemma readings_Nil [simp]: "readings nfc [] field = {}"
  by (simp add: readings_def)

lemma readings_snoc: "readings nfc (sets @ [s]) field = readings nfc sets field \<union>
   (if claim_value field s = None then {} else
     {(cs_independenceGroup s, normalizeForComparison nfc (claim_value field s))})"
  by (auto simp: readings_def)

lemma readings_set: "set sets = set sets' \<Longrightarrow> readings nfc sets field = readings nfc sets' field"
  by (simp add: readings_def)

definition groups_are :: "(string \<times> string list) list \<Rightarrow> (string \<times> string) set \<Rightarrow> bool" where
  "groups_are m R \<longleftrightarrow> distinct (map fst m) \<and> (\<forall>g. map_of m g \<noteq> Some [])
     \<and> (\<forall>g n. (\<exists>vs. map_of m g = Some vs \<and> n \<in> set vs) \<longleftrightarrow> (g, n) \<in> R)"

lemma groups_are_add:
  assumes "groups_are m R"
  shows "groups_are (AList.update g (set_add n (option_default (map_of m g) [])) m) (insert (g, n) R)"
proof -
  let ?vs = "set_add n (option_default (map_of m g) [])"
  have up: "map_of (AList.update g ?vs m) g' = (if g' = g then Some ?vs else map_of m g')" for g'
    by (rule map_of_update_alist)
  have old: "map_of m g' \<noteq> Some []" "(\<exists>vs. map_of m g' = Some vs \<and> n' \<in> set vs) \<longleftrightarrow> (g', n') \<in> R" for g' n'
    using assms unfolding groups_are_def by blast+
  have "distinct (map fst (AList.update g ?vs m))" using assms by (simp add: groups_are_def distinct_update)
  moreover have "map_of (AList.update g ?vs m) g' \<noteq> Some []" for g'
    unfolding up using old(1) by (auto simp: set_add_def)
  moreover have "(\<exists>vs. map_of (AList.update g ?vs m) g' = Some vs \<and> n' \<in> set vs) \<longleftrightarrow> (g', n') \<in> insert (g, n) R" for g' n'
    unfolding up using old(2) [of g' n'] by (cases "map_of m g") auto
  ultimately show ?thesis unfolding groups_are_def by blast
qed

lemma byGroup_are: "groups_are (byGroup nfc field sets) (readings nfc sets field)"
proof (induction sets rule: rev_induct)
  case Nil
  then show ?case by (simp add: byGroup_def groups_are_def)
next
  case (snoc s sets)
  have "byGroup nfc field (sets @ [s]) = add_reading nfc field (byGroup nfc field sets) s"
    by (simp add: byGroup_def)
  then show ?case
    using snoc groups_are_add [OF snoc, of "cs_independenceGroup s"]
    by (auto simp: readings_snoc add_reading_def split: option.splits)
qed

lemma groups_are_sets:
  assumes "groups_are m R"
  shows "fst ` set m = fst ` R" "set (concat (map_values m)) = snd ` R"
proof -
  have d: "distinct (map fst m)" using assms by (simp add: groups_are_def)
  have mem: "(g, vs) \<in> set m \<longleftrightarrow> map_of m g = Some vs" for g vs
    using d by simp
  have ne: "vs \<noteq> []" if "(g, vs) \<in> set m" for g vs using assms that mem unfolding groups_are_def by blast
  have R: "(g, n) \<in> R \<longleftrightarrow> (\<exists>vs. (g, vs) \<in> set m \<and> n \<in> set vs)" for g n
    using assms unfolding groups_are_def mem by blast
  show "fst ` set m = fst ` R"
  proof
    show "fst ` set m \<subseteq> fst ` R"
    proof
      fix g assume "g \<in> fst ` set m"
      then obtain vs where v: "(g, vs) \<in> set m" by auto
      then obtain n where "n \<in> set vs" using ne by (meson last_in_set)
      with v show "g \<in> fst ` R" using R by (metis fst_conv image_eqI)
    qed
    show "fst ` R \<subseteq> fst ` set m" using R by force
  qed
  show "set (concat (map_values m)) = snd ` R"
    using R by (force simp: map_values_def)
qed

lemma length_set_adds: "length (set_adds xs []) = card (set xs)"
  using distinct_card [of "set_adds xs []"] by simp

lemma more_than_one: "finite A \<Longrightarrow> 1 < card A \<longleftrightarrow> (\<exists>a\<in>A. \<exists>b\<in>A. a \<noteq> b)"
  using card_le_Suc0_iff_eq [of A] by (auto simp: not_less [symmetric])

lemma finite_readings [simp]: "finite (readings nfc sets field)"
proof -
  have "readings nfc sets field \<subseteq>
      (\<lambda>s. (cs_independenceGroup s, normalizeForComparison nfc (claim_value field s))) ` set sets"
    by (auto simp: readings_def)
  then show ?thesis by (rule finite_subset) simp
qed

lemma compare_field_outcome:
  "fc_outcome (compare_field nfc sets field) =
     (if card (fst ` readings nfc sets field) = 0 then ABSENT
      else if 1 < card (snd ` readings nfc sets field) then CONFLICT
      else if card (fst ` readings nfc sets field) = 1 then SINGLE
      else AGREED)"
proof -
  let ?m = "byGroup nfc field sets" and ?R = "readings nfc sets field"
  note are = byGroup_are [of nfc field sets]
  have k: "length (map fst ?m) = card (fst ` ?R)"
    using are groups_are_sets(1) [OF are] distinct_card [of "map fst ?m"] by (simp add: groups_are_def)
  have v: "length (set_adds (concat (map_values ?m)) []) = card (snd ` ?R)"
    using groups_are_sets(2) [OF are] by (simp add: length_set_adds)
  show ?thesis unfolding compare_field_def Let_def FieldComparison.simps k v ..
qed

lemma fc_field_compare [simp]: "fc_field (compare_field nfc sets field) = field"
  by (simp add: compare_field_def Let_def)

lemma set_claimed: "set (claimed_fields sets) = (\<Union>s\<in>set sets. ec_field ` set (cs_claims s))"
  by (simp add: claimed_fields_def)

lemma set_contributing: "set (contributingGroups sets) =
   cs_independenceGroup ` {s \<in> set sets. \<exists>c\<in>set (cs_claims s). ec_value c \<noteq> None}"
  by (auto simp: contributingGroups_def list_ex_iff)

lemma claim_value_known: "claim_value field s \<noteq> None \<Longrightarrow> \<exists>c\<in>set (cs_claims s). ec_field c = field \<and> ec_value c \<noteq> None"
proof (cases "find (\<lambda>c. ec_field c = field) (cs_claims s)")
  case (Some c)
  assume "claim_value field s \<noteq> None"
  then show ?thesis using find_Some_in [OF Some] Some by (auto simp: claim_value_def)
qed (simp add: claim_value_def)

lemma read_is_claimed:
  assumes "s \<in> set sets" "claim_value field s \<noteq> None"
  shows "field \<in> set (claimed_fields sets)" "cs_independenceGroup s \<in> set (contributingGroups sets)"
  using claim_value_known [OF assms(2)] assms(1) unfolding set_claimed set_contributing by blast+

lemma readings_images:
  "fst ` readings nfc sets field = cs_independenceGroup ` {s \<in> set sets. claim_value field s \<noteq> None}"
  "snd ` readings nfc sets field = (\<lambda>s. normalizeForComparison nfc (claim_value field s))
     ` {s \<in> set sets. claim_value field s \<noteq> None}"
proof -
  have "readings nfc sets field = (\<lambda>s. (cs_independenceGroup s, normalizeForComparison nfc (claim_value field s)))
     ` {s \<in> set sets. claim_value field s \<noteq> None}" by (simp only: readings_def) blast
  then show "fst ` readings nfc sets field = cs_independenceGroup ` {s \<in> set sets. claim_value field s \<noteq> None}"
    "snd ` readings nfc sets field = (\<lambda>s. normalizeForComparison nfc (claim_value field s))
       ` {s \<in> set sets. claim_value field s \<noteq> None}"
    by (simp_all add: image_image)
qed

lemma contributing_card: "length (contributingGroups sets) = card (set (contributingGroups sets))"
  by (simp add: contributingGroups_def length_set_adds)

definition disputed :: "(string \<Rightarrow> string) \<Rightarrow> ClaimSet list \<Rightarrow> string \<Rightarrow> bool" where
  "disputed nfc sets field \<longleftrightarrow> (\<exists>s\<in>set sets. \<exists>s'\<in>set sets. claim_value field s \<noteq> None \<and> claim_value field s' \<noteq> None
     \<and> \<not> claimValuesEqual nfc (claim_value field s) (claim_value field s'))"

definition read_by_two :: "ClaimSet list \<Rightarrow> string \<Rightarrow> bool" where
  "read_by_two sets field \<longleftrightarrow> (\<exists>s\<in>set sets. \<exists>s'\<in>set sets. claim_value field s \<noteq> None \<and> claim_value field s' \<noteq> None
     \<and> cs_independenceGroup s \<noteq> cs_independenceGroup s')"

lemma outcome_facts:
  "fc_outcome (compare_field nfc sets field) = CONFLICT \<longleftrightarrow> disputed nfc sets field"
  "fc_outcome (compare_field nfc sets field) = AGREED \<longleftrightarrow> \<not> disputed nfc sets field \<and> read_by_two sets field"
proof -
  have d: "disputed nfc sets field \<longleftrightarrow> 1 < card (snd ` readings nfc sets field)"
    unfolding more_than_one [OF finite_imageI [OF finite_readings]]
    unfolding disputed_def readings_images claimValuesEqual_def by blast
  have t: "read_by_two sets field \<longleftrightarrow> 1 < card (fst ` readings nfc sets field)"
    unfolding more_than_one [OF finite_imageI [OF finite_readings]]
    unfolding read_by_two_def readings_images by blast
  have cases: "(outcome = CONFLICT \<longleftrightarrow> 1 < B) \<and> (outcome = AGREED \<longleftrightarrow> \<not> 1 < B \<and> 1 < A)"
    if "outcome = (if A = 0 then ABSENT else if 1 < B then CONFLICT else if A = 1 then SINGLE else AGREED)"
      "A = 0 \<Longrightarrow> B = 0" for A B :: nat and outcome
    using that by (auto split: if_splits)
  have "card (fst ` readings nfc sets field) = 0 \<Longrightarrow> card (snd ` readings nfc sets field) = 0" by simp
  from cases [OF compare_field_outcome this]
  show "fc_outcome (compare_field nfc sets field) = CONFLICT \<longleftrightarrow> disputed nfc sets field"
    "fc_outcome (compare_field nfc sets field) = AGREED \<longleftrightarrow> \<not> disputed nfc sets field \<and> read_by_two sets field"
    unfolding d t by blast+
qed

lemma disputed_claimed: "disputed nfc sets field \<Longrightarrow> field \<in> set (claimed_fields sets)"
  using read_is_claimed by (auto simp: disputed_def)

lemma read_by_two_claimed:
  assumes "read_by_two sets field"
  shows "field \<in> set (claimed_fields sets)" "2 \<le> length (contributingGroups sets)"
proof -
  obtain s s' where s: "s \<in> set sets" "s' \<in> set sets" "claim_value field s \<noteq> None" "claim_value field s' \<noteq> None"
    "cs_independenceGroup s \<noteq> cs_independenceGroup s'" using assms by (auto simp: read_by_two_def)
  show "field \<in> set (claimed_fields sets)" using read_is_claimed s by blast
  have "cs_independenceGroup s \<in> set (contributingGroups sets)" "cs_independenceGroup s' \<in> set (contributingGroups sets)"
    using read_is_claimed s by blast+
  then have "\<exists>a\<in>set (contributingGroups sets). \<exists>b\<in>set (contributingGroups sets). a \<noteq> b" using s(5) by blast
  then have "1 < card (set (contributingGroups sets))" by (simp only: more_than_one [OF finite_set])
  then show "2 \<le> length (contributingGroups sets)" by (simp add: contributing_card)
qed

lemma corroborate_conflict_iff:
  "co_outcome (corroborate nfc sets) = CLAIM_CONFLICT \<longleftrightarrow> (\<exists>f. isRiskBearing f \<and> disputed nfc sets f)"
  using disputed_claimed by (auto simp: corroborate_def Let_def list_ex_iff outcome_facts)

lemma corroborate_corroborated_iff:
  "co_outcome (corroborate nfc sets) = CORROBORATED \<longleftrightarrow>
     \<not> (\<exists>f. isRiskBearing f \<and> disputed nfc sets f) \<and> (\<exists>f. \<not> disputed nfc sets f \<and> read_by_two sets f)"
  using disputed_claimed read_by_two_claimed by (auto simp: corroborate_def Let_def list_ex_iff outcome_facts)

text \<open>
  The roll-up of section 6 of \<open>spec/evidence-model.md\<close>, over the same comparisons: a conflict on a
  risk-bearing field, then a single reading of one, then corroboration. The code rolls up otherwise: one
  agreed field of any kind makes the sets corroborated, whatever else was read by one group only.
\<close>

definition spec_outcome :: "(string \<Rightarrow> string) \<Rightarrow> ClaimSet list \<Rightarrow> CorroborationOutcome" where
  "spec_outcome nfc sets =
     (let outcomes = map (\<lambda>f. fc_outcome (compare_field nfc sets f)) RISK_BEARING_FIELDS
      in if CONFLICT \<in> set outcomes then CLAIM_CONFLICT
         else if SINGLE \<in> set outcomes then SINGLE_SOURCE else CORROBORATED)"

definition read_by_one :: "(string \<Rightarrow> string) \<Rightarrow> ClaimSet list \<Rightarrow> string \<Rightarrow> bool" where
  "read_by_one nfc sets field \<longleftrightarrow> \<not> disputed nfc sets field \<and> \<not> read_by_two sets field
     \<and> (\<exists>s\<in>set sets. claim_value field s \<noteq> None)"

lemma outcome_single: "fc_outcome (compare_field nfc sets field) = SINGLE \<longleftrightarrow> read_by_one nfc sets field"
proof -
  have "fc_outcome (compare_field nfc sets field) = ABSENT \<longleftrightarrow> readings nfc sets field = {}"
    unfolding compare_field_outcome by (simp add: card_eq_0_iff)
  also have "\<dots> \<longleftrightarrow> \<not> (\<exists>s\<in>set sets. claim_value field s \<noteq> None)" by (auto simp: readings_def)
  finally have a: "fc_outcome (compare_field nfc sets field) = ABSENT \<longleftrightarrow>
    \<not> (\<exists>s\<in>set sets. claim_value field s \<noteq> None)" .
  then show ?thesis
    using outcome_facts [of nfc sets field] unfolding read_by_one_def
    by (cases "fc_outcome (compare_field nfc sets field)") auto
qed

lemma spec_outcome_iff:
  "spec_outcome nfc sets = CLAIM_CONFLICT \<longleftrightarrow> (\<exists>f. isRiskBearing f \<and> disputed nfc sets f)"
  "spec_outcome nfc sets = SINGLE_SOURCE \<longleftrightarrow> \<not> (\<exists>f. isRiskBearing f \<and> disputed nfc sets f)
     \<and> (\<exists>f. isRiskBearing f \<and> read_by_one nfc sets f)"
proof -
  have "CONFLICT \<in> set (map (\<lambda>f. fc_outcome (compare_field nfc sets f)) RISK_BEARING_FIELDS)
      \<longleftrightarrow> (\<exists>f. isRiskBearing f \<and> disputed nfc sets f)"
    "SINGLE \<in> set (map (\<lambda>f. fc_outcome (compare_field nfc sets f)) RISK_BEARING_FIELDS)
      \<longleftrightarrow> (\<exists>f. isRiskBearing f \<and> read_by_one nfc sets f)"
    by (auto simp: isRiskBearing_def outcome_facts outcome_single image_iff eq_commute [of CONFLICT] eq_commute [of SINGLE])
  then show "spec_outcome nfc sets = CLAIM_CONFLICT \<longleftrightarrow> (\<exists>f. isRiskBearing f \<and> disputed nfc sets f)"
    "spec_outcome nfc sets = SINGLE_SOURCE \<longleftrightarrow> \<not> (\<exists>f. isRiskBearing f \<and> disputed nfc sets f)
     \<and> (\<exists>f. isRiskBearing f \<and> read_by_one nfc sets f)"
    by (simp_all add: spec_outcome_def Let_def)
qed

lemma code_against_spec:
  "co_outcome (corroborate nfc sets) = CORROBORATED \<and> spec_outcome nfc sets = SINGLE_SOURCE \<longleftrightarrow>
     \<not> (\<exists>f. isRiskBearing f \<and> disputed nfc sets f) \<and> (\<exists>f. \<not> disputed nfc sets f \<and> read_by_two sets f)
       \<and> (\<exists>f. isRiskBearing f \<and> read_by_one nfc sets f)"
  "co_outcome (corroborate nfc sets) = SINGLE_SOURCE \<and> spec_outcome nfc sets = CORROBORATED \<longleftrightarrow>
     \<not> (\<exists>f. isRiskBearing f \<and> disputed nfc sets f) \<and> \<not> (\<exists>f. \<not> disputed nfc sets f \<and> read_by_two sets f)
       \<and> \<not> (\<exists>f. isRiskBearing f \<and> read_by_one nfc sets f)"
  "co_outcome (corroborate nfc sets) = CLAIM_CONFLICT \<longleftrightarrow> spec_outcome nfc sets = CLAIM_CONFLICT"
proof -
  note c = corroborate_conflict_iff [of nfc sets] corroborate_corroborated_iff [of nfc sets] spec_outcome_iff [of nfc sets]
  note e = CorroborationOutcome.exhaust [of "co_outcome (corroborate nfc sets)"]
    CorroborationOutcome.exhaust [of "spec_outcome nfc sets"]
  show "co_outcome (corroborate nfc sets) = CLAIM_CONFLICT \<longleftrightarrow> spec_outcome nfc sets = CLAIM_CONFLICT"
    using c by simp
  show "co_outcome (corroborate nfc sets) = CORROBORATED \<and> spec_outcome nfc sets = SINGLE_SOURCE \<longleftrightarrow>
     \<not> (\<exists>f. isRiskBearing f \<and> disputed nfc sets f) \<and> (\<exists>f. \<not> disputed nfc sets f \<and> read_by_two sets f)
       \<and> (\<exists>f. isRiskBearing f \<and> read_by_one nfc sets f)"
    unfolding c(2,4) by blast
  show "co_outcome (corroborate nfc sets) = SINGLE_SOURCE \<and> spec_outcome nfc sets = CORROBORATED \<longleftrightarrow>
     \<not> (\<exists>f. isRiskBearing f \<and> disputed nfc sets f) \<and> \<not> (\<exists>f. \<not> disputed nfc sets f \<and> read_by_two sets f)
       \<and> \<not> (\<exists>f. isRiskBearing f \<and> read_by_one nfc sets f)"
    using c e by (metis CorroborationOutcome.distinct)
qed

section \<open>Validating an extraction\<close>

datatype ProviderRoute = DIRECT | ROUTER
datatype VerificationMode = VM_NONE | TEE_ML | TEE_TLS
datatype ResponseIntegrity = UNVERIFIED | RESPONSE_INTEGRITY_VERIFIED | SERVICE_AUTOMATED_CHECKS_PASSED
  | MANUAL_TEE_REVIEW_RECORDED

record InferenceProvenance =
  ip_provider :: string
  ip_model :: string
  ip_providerRoute :: ProviderRoute
  ip_verificationMode :: VerificationMode
  ip_responseIntegrity :: ResponseIntegrity
  ip_requestDigest :: string
  ip_responseDigest :: string
  ip_providerAttestation :: "string option"
  ip_sourceEvidenceIds :: "string list"
  ip_issuedAt :: int
  ip_expiresAt :: "int option"
  ip_rawProofReference :: "string option"

definition inferenceProvenanceSchema :: "InferenceProvenance \<Rightarrow> bool" where
  "inferenceProvenanceSchema p \<longleftrightarrow>
     text_between 1 200 (ip_provider p) \<and> text_between 1 200 (ip_model p)
   \<and> hex32Schema (ip_requestDigest p) \<and> hex32Schema (ip_responseDigest p)
   \<and> opt_ok (text_between 1 4000) (ip_providerAttestation p)
   \<and> 1 \<le> length (ip_sourceEvidenceIds p) \<and> length (ip_sourceEvidenceIds p) \<le> 32
   \<and> list_all hex32Schema (ip_sourceEvidenceIds p) \<and> unixSecondsSchema (ip_issuedAt p)
   \<and> opt_ok unixSecondsSchema (ip_expiresAt p) \<and> opt_ok (text_between 1 2000) (ip_rawProofReference p)"

definition parsed_provenance :: "InferenceProvenance \<Rightarrow> InferenceProvenance" where
  "parsed_provenance p = p\<lparr>ip_requestDigest := toLowerCase (ip_requestDigest p),
     ip_responseDigest := toLowerCase (ip_responseDigest p),
     ip_sourceEvidenceIds := map toLowerCase (ip_sourceEvidenceIds p)\<rparr>"

record Extraction =
  ex_extractor :: string
  ex_documentEvidenceId :: string
  ex_claims :: "EvidenceClaim list"
  ex_startedAt :: int
  ex_finishedAt :: int
  ex_warnings :: "string list"
  ex_provenance :: "InferenceProvenance option"

definition extractionSchema :: "Extraction \<Rightarrow> bool" where
  "extractionSchema e \<longleftrightarrow>
     ex_extractor e \<noteq> [] \<and> hex32Schema (ex_documentEvidenceId e) \<and> list_all evidenceClaimSchema (ex_claims e)
   \<and> unixSecondsSchema (ex_startedAt e) \<and> unixSecondsSchema (ex_finishedAt e)
   \<and> opt_ok inferenceProvenanceSchema (ex_provenance e)"

definition parsed_extraction :: "Extraction \<Rightarrow> Extraction" where
  "parsed_extraction e = e\<lparr>
     ex_documentEvidenceId := toLowerCase (ex_documentEvidenceId e),
     ex_claims := map parsed_claim (ex_claims e),
     ex_provenance := map_option parsed_provenance (ex_provenance e)\<rparr>"

text \<open>What an extractor throws, and what validating its output throws.\<close>

datatype extract_error =
    ProviderUnavailable string
  | ProviderOutputRejected string
  | ExtractionSchemaInvalid string string
  | RiskParameterFieldRejected string string
  | NoExtractionPathAvailable "string list"
  | ExtractorThrew string

fun extract_message :: "extract_error \<Rightarrow> string" where
  "extract_message (ProviderUnavailable m) = m"
| "extract_message (ProviderOutputRejected m) = m"
| "extract_message (ExtractionSchemaInvalid x d) =
     ''extraction from '' @ x @ '' failed validation: '' @ d"
| "extract_message (RiskParameterFieldRejected x f) =
     ''extractor '' @ x @ '' emitted the field '' @ [CHR 0x22] @ f @ [CHR 0x22]
     @ '', which names a risk parameter. Risk parameters are written by GOVERNANCE through ''
     @ ''RiskPolicyRegistry and by nothing else. The extraction is discarded.''"
| "extract_message (NoExtractionPathAvailable rs) =
     ''no extraction path produced a result: '' @ join_with '' | '' rs
     @ ''. Nothing is fabricated to fill the gap, so the Passport does not move.''"
| "extract_message (ExtractorThrew m) = m"

definition RISK_PARAMETER_WORDS :: "string list" where
  "RISK_PARAMETER_WORDS = [''ltv'', ''haircut'', ''riskpolicy'', ''risk_policy'', ''liquidationthreshold'',
     ''borrowlimit'', ''creditlimit'', ''collateralfactor'', ''maxconcentration'', ''exitcurve'', ''recoverybps'']"

fun has_word :: "string \<Rightarrow> string \<Rightarrow> bool" where
  "has_word w [] \<longleftrightarrow> w = []"
| "has_word w (c # cs) \<longleftrightarrow> take (length w) (c # cs) = w \<or> has_word w cs"

definition names_risk_parameter :: "string \<Rightarrow> bool" where
  "names_risk_parameter field \<longleftrightarrow> list_ex (\<lambda>w. has_word w (toLowerCase field)) RISK_PARAMETER_WORDS"

definition check_claim :: "CanonicalDocument \<Rightarrow> string \<Rightarrow> EvidenceClaim \<Rightarrow> extract_error + unit" where
  "check_claim doc x c =
     (if ec_extractor c \<noteq> x
      then Inl (ExtractionSchemaInvalid x (''claim '' @ ec_field c @ '' has a different extractor identity''))
      else if names_risk_parameter (ec_field c) then Inl (RiskParameterFieldRejected x (ec_field c))
      else if ec_evidenceId c \<noteq> cd_evidenceId doc
      then Inl (ExtractionSchemaInvalid x (''claim '' @ ec_field c @ '' cites evidence '' @ ec_evidenceId c))
      else if ec_sourceClass c \<noteq> cd_sourceClass doc
      then Inl (ExtractionSchemaInvalid x (''claim '' @ ec_field c @ '' asserts sourceClass ''
             @ show_nat (ec_sourceClass c) @ '', document is '' @ show_nat (cd_sourceClass doc)))
      else if ec_retrievedAt c \<noteq> cd_retrievedAt doc \<or> ec_effectiveAt c \<noteq> cd_effectiveAt doc
      then Inl (ExtractionSchemaInvalid x (''claim '' @ ec_field c @ '' restates timestamps incorrectly''))
      else Inr ())"

text \<open>The text of the schema's own issues is zod's; it is the argument \<open>issues\<close>.\<close>

definition validateExtraction ::
  "(Extraction \<Rightarrow> string) \<Rightarrow> CanonicalDocument \<Rightarrow> Extraction \<Rightarrow> string \<Rightarrow> extract_error + ClaimSet" where
  "validateExtraction issues doc extraction independenceGroup =
     (if \<not> extractionSchema extraction
      then Inl (ExtractionSchemaInvalid (ex_extractor extraction) (issues extraction))
      else
        let e = parsed_extraction extraction
        in if ex_documentEvidenceId e \<noteq> cd_evidenceId doc
           then Inl (ExtractionSchemaInvalid (ex_extractor e)
                  (''documentEvidenceId '' @ ex_documentEvidenceId e @ '' is not the document's '' @ cd_evidenceId doc))
           else if (case ex_provenance e of None \<Rightarrow> False
                    | Some p \<Rightarrow> cd_evidenceId doc \<notin> set (ip_sourceEvidenceIds p))
           then Inl (ExtractionSchemaInvalid (ex_extractor e)
                  ''inference provenance does not bind this evidence document'')
           else bindR (mapR (check_claim doc (ex_extractor e)) (ex_claims e)) (\<lambda>_.
                Inr \<lparr>cs_extractor = ex_extractor e, cs_independenceGroup = independenceGroup,
                     cs_claims = ex_claims e\<rparr>))"

datatype PathFailureKind = UNAVAILABLE | OUTPUT_REJECTED | FAILED

record PathFailure =
  pf_extractor :: string
  pf_independenceGroup :: string
  pf_kind :: PathFailureKind
  pf_reason :: string

record EvidenceExtractor =
  xt_id :: string
  xt_independenceGroup :: string
  xt_extract :: "CanonicalDocument \<Rightarrow> extract_error + Extraction"

record ExtractionOutcome =
  eo_claimSets :: "ClaimSet list"
  eo_extractions :: "Extraction list"
  eo_failures :: "PathFailure list"
  eo_independentPathCount :: nat

fun classify :: "extract_error \<Rightarrow> PathFailureKind" where
  "classify (ProviderUnavailable m) = UNAVAILABLE"
| "classify (ProviderOutputRejected m) = OUTPUT_REJECTED"
| "classify (ExtractionSchemaInvalid x d) = OUTPUT_REJECTED"
| "classify (RiskParameterFieldRejected x f) = OUTPUT_REJECTED"
| "classify _ = FAILED"

definition run_path ::
  "(Extraction \<Rightarrow> string) \<Rightarrow> CanonicalDocument \<Rightarrow> EvidenceExtractor \<Rightarrow> extract_error + ClaimSet \<times> Extraction" where
  "run_path issues doc x =
     bindR (xt_extract x doc) (\<lambda>e. bindR (validateExtraction issues doc e (xt_independenceGroup x)) (\<lambda>s. Inr (s, e)))"

definition extraction_step ::
  "(Extraction \<Rightarrow> string) \<Rightarrow> CanonicalDocument \<Rightarrow>
   ClaimSet list \<times> Extraction list \<times> PathFailure list \<Rightarrow> EvidenceExtractor \<Rightarrow>
   ClaimSet list \<times> Extraction list \<times> PathFailure list" where
  "extraction_step issues doc acc x = (case acc of (sets, es, fs) \<Rightarrow>
     (case run_path issues doc x of
        Inr (s, e) \<Rightarrow> (sets @ [s], es @ [e], fs)
      | Inl err \<Rightarrow> (sets, es, fs @ [\<lparr>pf_extractor = xt_id x, pf_independenceGroup = xt_independenceGroup x,
                                   pf_kind = classify err, pf_reason = extract_message err\<rparr>])))"

definition runExtractors ::
  "(Extraction \<Rightarrow> string) \<Rightarrow> CanonicalDocument \<Rightarrow> EvidenceExtractor list \<Rightarrow> extract_error + ExtractionOutcome" where
  "runExtractors issues doc extractors =
     (case foldl (extraction_step issues doc) ([], [], []) extractors of (sets, es, fs) \<Rightarrow>
        if sets = [] then Inl (NoExtractionPathAvailable (map (\<lambda>f. pf_extractor f @ '': '' @ pf_reason f) fs))
        else Inr \<lparr>eo_claimSets = sets, eo_extractions = es, eo_failures = fs,
                  eo_independentPathCount = length (set_adds (map cs_independenceGroup sets) [])\<rparr>)"

definition hasAnyValue :: "ClaimSet \<Rightarrow> bool" where
  "hasAnyValue s \<longleftrightarrow> list_ex (\<lambda>c. ec_value c \<noteq> None) (cs_claims s)"

section \<open>Every surviving claim is about the document\<close>

definition about_document :: "CanonicalDocument \<Rightarrow> ClaimSet \<Rightarrow> bool" where
  "about_document doc s \<longleftrightarrow> (\<forall>c\<in>set (cs_claims s).
     ec_evidenceId c = cd_evidenceId doc \<and> ec_sourceClass c = cd_sourceClass doc
   \<and> ec_retrievedAt c = cd_retrievedAt doc \<and> ec_effectiveAt c = cd_effectiveAt doc
   \<and> ec_extractor c = cs_extractor s \<and> \<not> names_risk_parameter (ec_field c))"

lemma mapR_all: "mapR f xs = Inr ys \<Longrightarrow> x \<in> set xs \<Longrightarrow> \<exists>y. f x = Inr y"
  by (induction xs arbitrary: ys) auto

lemma check_claim_inv:
  "check_claim doc x c = Inr u \<Longrightarrow>
     ec_evidenceId c = cd_evidenceId doc \<and> ec_sourceClass c = cd_sourceClass doc
   \<and> ec_retrievedAt c = cd_retrievedAt doc \<and> ec_effectiveAt c = cd_effectiveAt doc
   \<and> ec_extractor c = x \<and> \<not> names_risk_parameter (ec_field c)"
  by (simp add: check_claim_def split: if_splits)

lemma validateExtraction_inv:
  assumes "validateExtraction issues doc extraction g = Inr s"
  shows "about_document doc s" "cs_independenceGroup s = g" "extractionSchema extraction"
    "cs_claims s = map parsed_claim (ex_claims extraction)" "cs_extractor s = ex_extractor extraction"
proof -
  let ?e = "parsed_extraction extraction"
  have s: "extractionSchema extraction" "\<exists>us. mapR (check_claim doc (ex_extractor ?e)) (ex_claims ?e) = Inr us"
    "s = \<lparr>cs_extractor = ex_extractor ?e, cs_independenceGroup = g, cs_claims = ex_claims ?e\<rparr>"
    using assms by (auto simp: validateExtraction_def Let_def split: if_splits)
  then obtain us where us: "mapR (check_claim doc (ex_extractor ?e)) (ex_claims ?e) = Inr us" by blast
  show "about_document doc s"
    unfolding about_document_def s(3)
    using mapR_all [OF us] check_claim_inv by (metis ClaimSet.select_convs(1,3))
  show "cs_independenceGroup s = g" "extractionSchema extraction"
    "cs_claims s = map parsed_claim (ex_claims extraction)" "cs_extractor s = ex_extractor extraction"
    using s by (simp_all add: parsed_extraction_def)
qed

end
