(* ===== verification/Evidence_Candidate.thy ===== *)
theory Evidence_Candidate
  imports Evidence_Claims
begin

text \<open>
  The Passport candidate of \<open>services/evidence/src/candidate.ts\<close>, the sorted-pair Merkle root of
  \<open>packages/schemas/src/ids.ts\<close> and the registry arguments of \<open>passport.ts\<close>: identifiers compared as
  numbers, evidence ids as a sorted set, one leaf per distinct reading, and the redemption pair. The
  optional identity section of a candidate is not modelled: nothing in the pipeline sets it.
\<close>

section \<open>Roots over sorted sets\<close>

text \<open>
  \<open>keccak256(encodeAbiParameters(...))\<close> of the viem package is the argument \<open>keccak\<close>, on the list of
  encoded values. An identifier is compared as the number \<open>BigInt\<close> reads from it, which may throw.
\<close>

datatype abi_value = ABI_string string | ABI_bytes32 string | ABI_uint int

definition hex_value :: "string \<Rightarrow> int" where
  "hex_value s = (case bigint_of_string s of Inr n \<Rightarrow> n | Inl _ \<Rightarrow> 0)"

definition sort_hex :: "string list \<Rightarrow> string list result" where
  "sort_hex xs = (if length xs \<le> 1 then Inr xs
     else bindR (mapR bigint_of_string xs) (\<lambda>_. Inr (sort_key hex_value xs)))"

definition hashPair :: "(abi_value list \<Rightarrow> string) \<Rightarrow> string \<Rightarrow> string \<Rightarrow> string result" where
  "hashPair keccak a b =
     bindR (bigint_of_string a) (\<lambda>x. bindR (bigint_of_string b) (\<lambda>y.
       Inr (keccak (if x \<le> y then [ABI_bytes32 a, ABI_bytes32 b] else [ABI_bytes32 b, ABI_bytes32 a]))))"

fun merkle_level :: "(abi_value list \<Rightarrow> string) \<Rightarrow> string list \<Rightarrow> string list result" where
  "merkle_level keccak (a # b # xs) =
     bindR (hashPair keccak a b) (\<lambda>h. bindR (merkle_level keccak xs) (\<lambda>hs. Inr (h # hs)))"
| "merkle_level keccak xs = Inr xs"

lemma merkle_level_shrinks: "merkle_level keccak xs = Inr ys \<Longrightarrow> length ys = (length xs + 1) div 2"
  by (induction keccak xs arbitrary: ys rule: merkle_level.induct) auto

lemma bindR_cong [fundef_cong]:
  "m = m' \<Longrightarrow> (\<And>a. m' = Inr a \<Longrightarrow> f a = g a) \<Longrightarrow> bindR m f = bindR m' g"
  by (cases m') simp_all

function merkle_up :: "(abi_value list \<Rightarrow> string) \<Rightarrow> string list \<Rightarrow> string list result" where
  "merkle_up keccak level =
     (if length level > 1 then bindR (merkle_level keccak level) (merkle_up keccak) else Inr level)"
  by pat_completeness auto
termination
  by (relation "measure (\<lambda>(k, level). length level)") (auto dest!: merkle_level_shrinks)

declare merkle_up.simps [simp del]

definition ZERO32 :: string where "ZERO32 = ''0x'' @ replicate 64 (CHR ''0'')"

definition merkleRoot :: "(abi_value list \<Rightarrow> string) \<Rightarrow> string list \<Rightarrow> string result" where
  "merkleRoot keccak leaves =
     (if leaves = [] then Inr ZERO32
      else bindR (sort_hex leaves) (\<lambda>sorted. bindR (merkle_up keccak sorted) (\<lambda>top. Inr (hd top))))"

definition claimLeaf :: "(abi_value list \<Rightarrow> string) \<Rightarrow> string \<Rightarrow> string \<Rightarrow> string \<Rightarrow> string" where
  "claimLeaf keccak field normalizedValue evidence =
     keccak [ABI_string field, ABI_string normalizedValue, ABI_bytes32 evidence]"



section \<open>Identifiers are compared as numbers\<close>

lemma char_code_eq: "c = d \<longleftrightarrow> (of_char c :: nat) = of_char d"
  by (metis char_of_char)

lemma hex_char_code: "hex_char c \<longleftrightarrow>
   48 \<le> (of_char c :: nat) \<and> (of_char c :: nat) \<le> 57 \<or> 97 \<le> (of_char c :: nat) \<and> (of_char c :: nat) \<le> 102
   \<or> 65 \<le> (of_char c :: nat) \<and> (of_char c :: nat) \<le> 70"
proof -
  have a: "97 \<le> n \<and> n \<le> 102 \<longleftrightarrow> n \<in> {97, 98, 99, 100, 101, 102}"
    and b: "65 \<le> n \<and> n \<le> 70 \<longleftrightarrow> n \<in> {65, 66, 67, 68, 69, 70}" for n :: nat by auto
  show ?thesis unfolding hex_char_def is_digit_def a b by (simp add: char_code_eq [of c])
qed

definition lower_hex :: "char \<Rightarrow> bool" where
  "lower_hex c \<longleftrightarrow> 48 \<le> (of_char c :: nat) \<and> (of_char c :: nat) \<le> 57
     \<or> 97 \<le> (of_char c :: nat) \<and> (of_char c :: nat) \<le> 102"

lemma lower_hex_lower: "hex_char c \<Longrightarrow> lower_hex (lower_char c)"
  by (auto simp: hex_char_code lower_hex_def lower_char_def Let_def)

lemma lower_hex_digit:
  assumes "lower_hex c"
  shows "base_digit 16 c = Some (if (of_char c :: nat) \<le> 57 then of_char c - 48 else of_char c - 87)"
  using assms by (auto simp: lower_hex_def base_digit_def Let_def)

lemma lower_hex_digit_inj:
  "lower_hex c \<Longrightarrow> lower_hex d \<Longrightarrow> base_digit 16 c = base_digit 16 d \<Longrightarrow> c = d"
proof -
  assume c: "lower_hex c" and d: "lower_hex d" and eq: "base_digit 16 c = base_digit 16 d"
  define n m :: nat where "n = of_char c" and "m = of_char d"
  have "(if n \<le> 57 then n - 48 else n - 87) = (if m \<le> 57 then m - 48 else m - 87)"
    using eq unfolding lower_hex_digit [OF c] lower_hex_digit [OF d] n_def m_def option.inject .
  moreover have "48 \<le> n \<and> n \<le> 57 \<or> 97 \<le> n \<and> n \<le> 102" "48 \<le> m \<and> m \<le> 57 \<or> 97 \<le> m \<and> m \<le> 102"
    using c d by (simp_all add: lower_hex_def n_def m_def)
  ultimately have "n = m" by (simp split: if_splits) linarith+
  then show "c = d" unfolding char_code_eq [of c] by (simp only: n_def m_def)
qed

lemma base_digit_bound: "base_digit b c = Some d \<Longrightarrow> d < b"
  by (auto simp: base_digit_def Let_def split: option.splits if_splits)

lemma base_value_inj:
  "list_all lower_hex s \<Longrightarrow> list_all lower_hex t \<Longrightarrow> length s = length t \<Longrightarrow>
   base_value 16 a s = Some n \<Longrightarrow> base_value 16 b t = Some n \<Longrightarrow> a = b \<and> s = t"
proof (induction s arbitrary: t a b)
  case (Cons c cs)
  then obtain d ds where t: "t = d # ds" by (cases t) auto
  have lc: "lower_hex c" "list_all lower_hex cs" and ld: "lower_hex d" "list_all lower_hex ds"
    and len: "length cs = length ds"
    using Cons.prems(1-3) by (simp_all add: t)
  obtain x y where x: "base_digit 16 c = Some x" and y: "base_digit 16 d = Some y"
    using lower_hex_digit [OF lc(1)] lower_hex_digit [OF ld(1)] by blast
  have "base_value 16 (16 * a + x) cs = Some n" "base_value 16 (16 * b + y) ds = Some n"
    using Cons.prems(4,5) by (simp_all add: t x y)
  then have eq: "16 * a + x = 16 * b + y \<and> cs = ds"
    by (rule Cons.IH [OF lc(2) ld(2) len])
  have "x < 16" "y < 16" using base_digit_bound x y by auto
  then have "x = y \<and> a = b" using eq by (metis div_mult_self4 div_less mod_less mod_mult_self4 add_0_right zero_neq_numeral)
  then show ?case using eq t x y lower_hex_digit_inj [OF lc(1) ld(1)] by simp
qed simp

lemma base_value_total: "list_all lower_hex s \<Longrightarrow> \<exists>n. base_value 16 a s = Some n"
proof (induction s arbitrary: a)
  case (Cons c cs)
  then obtain x where "base_digit 16 c = Some x" using lower_hex_digit [of c] by auto
  moreover have "list_all lower_hex cs" using Cons.prems by simp
  ultimately show ?case using Cons.IH [of "16 * a + x"] by simp
qed simp

text \<open>An identifier as the schema leaves it.\<close>

definition hex_id :: "string \<Rightarrow> bool" where
  "hex_id s \<longleftrightarrow> length s = 66 \<and> take 2 s = ''0x'' \<and> list_all lower_hex (drop 2 s)"

lemma toLowerCase_hex_id: "hex32Schema s \<Longrightarrow> hex_id (toLowerCase s)"
proof -
  assume h: "hex32Schema s"
  then have "take 2 s = ''0x''" "length s = 66" "list_all hex_char (drop 2 s)"
    by (simp_all add: hex32Schema_def hex_of_length_def)
  moreover have "map lower_char ''0x'' = ''0x''" by code_simp
  ultimately show ?thesis
    by (auto simp: hex_id_def toLowerCase_def take_map drop_map list_all_iff lower_hex_lower)
qed

lemma hex_id_trim: "hex_id s \<Longrightarrow> trim s = s"
proof -
  assume h: "hex_id s"
  have w: "\<not> is_ws c" if "lower_hex c" for c using that by (auto simp: lower_hex_def is_ws_def)
  have "\<not> is_ws c" if "c \<in> set s" for c
  proof -
    have "set s = set (take 2 s) \<union> set (drop 2 s)" by (metis append_take_drop_id set_append)
    then have "c \<in> set ''0x'' \<or> c \<in> set (drop 2 s)" using that h by (auto simp: hex_id_def)
    then show ?thesis using h w by (auto simp: hex_id_def list_all_iff is_ws_def)
  qed
  then show ?thesis by (intro trim_no_ws) (auto simp: list_all_iff)
qed

lemma hex_id_value:
  assumes "hex_id s"
  obtains n where "bigint_of_string s = Inr (int n)" "base_value 16 0 (drop 2 s) = Some n"
proof -
  obtain n where n: "base_value 16 0 (drop 2 s) = Some n"
    using base_value_total assms by (auto simp: hex_id_def)
  have "s \<noteq> []" "drop 2 s \<noteq> []" using assms by (auto simp: hex_id_def)
  then have "bigint_of_string s = Inr (int n)"
    using hex_id_trim [OF assms] assms n
    by (simp add: bigint_of_string_def Let_def hex_id_def digits_in_base_def)
  then show thesis using n by (rule that)
qed

lemma hex_value_inj: "hex_id s \<Longrightarrow> hex_id t \<Longrightarrow> hex_value s = hex_value t \<Longrightarrow> s = t"
proof -
  assume s: "hex_id s" and t: "hex_id t" and eq: "hex_value s = hex_value t"
  obtain n where n: "bigint_of_string s = Inr (int n)" "base_value 16 0 (drop 2 s) = Some n"
    by (rule hex_id_value [OF s])
  obtain m where m: "bigint_of_string t = Inr (int m)" "base_value 16 0 (drop 2 t) = Some m"
    by (rule hex_id_value [OF t])
  have "n = m" using eq n(1) m(1) by (simp add: hex_value_def)
  then have "drop 2 s = drop 2 t"
    using base_value_inj [of "drop 2 s" "drop 2 t" 0 n 0] n m s t by (simp add: hex_id_def)
  then show "s = t" using s t by (metis append_take_drop_id hex_id_def)
qed

lemma mapR_bigint: "list_all hex_id xs \<Longrightarrow> \<exists>ns. mapR bigint_of_string xs = Inr ns"
  by (rule mapR_Inr_ex) (metis hex_id_value list_all_iff)

lemma sort_hex_ok: "list_all hex_id xs \<Longrightarrow> sort_hex xs = Inr (sort_key hex_value xs)"
proof -
  assume h: "list_all hex_id xs"
  have "sort_key hex_value xs = xs" if "length xs \<le> 1"
    using that by (cases xs) auto
  then show ?thesis using mapR_bigint [OF h] by (auto simp: sort_hex_def)
qed

lemma mset_short_eq: "mset xs = mset ys \<Longrightarrow> length ys \<le> 1 \<Longrightarrow> xs = ys"
  by (cases ys) auto

lemma sort_hex_perm:
  assumes "mset xs = mset ys" "list_all hex_id xs" "distinct xs"
  shows "sort_key hex_value ys = sort_key hex_value xs"
proof -
  have "inj_on hex_value (set xs)" using assms(2) hex_value_inj by (auto simp: inj_on_def list_all_iff)
  then have d: "distinct (map hex_value xs)" using assms(3) by (simp add: distinct_map)
  show ?thesis
  proof (rule properties_for_sort_key)
    show "mset (sort_key hex_value xs) = mset ys" by (simp add: assms(1))
    show "sorted (map hex_value (sort_key hex_value xs))" by simp
    fix k assume "k \<in> set (sort_key hex_value xs)"
    have one: "length (filter (\<lambda>x. hex_value k = hex_value x) zs) \<le> 1" if "mset zs = mset xs" for zs
    proof -
      have "distinct (map hex_value zs)" using d that by (metis mset_eq_imp_distinct_iff mset_map)
      then show ?thesis
      proof (induction zs)
        case (Cons z zs)
        then show ?case by (auto simp: filter_empty_conv image_iff length_Suc_conv le_Suc_eq)
      qed simp
    qed
    have "mset (filter (\<lambda>x. hex_value k = hex_value x) (sort_key hex_value xs))
        = mset (filter (\<lambda>x. hex_value k = hex_value x) ys)" by (simp add: assms(1))
    moreover have "length (filter (\<lambda>x. hex_value k = hex_value x) ys) \<le> 1" using one assms(1) by simp
    ultimately show "filter (\<lambda>x. hex_value k = hex_value x) (sort_key hex_value xs)
        = filter (\<lambda>x. hex_value k = hex_value x) ys"
      by (rule mset_short_eq)
  qed
qed

section \<open>The Passport candidate\<close>

definition BUILDER_VERSION :: string where "BUILDER_VERSION = ''usance-passport-builder/1''"
definition REDEMPTION_SUPPORTED_FIELD :: string where "REDEMPTION_SUPPORTED_FIELD = ''redemption.supported''"
definition REDEMPTION_FLOOR_FIELD :: string where "REDEMPTION_FLOOR_FIELD = ''redemption.floorBps''"

datatype candidate_error =
    ConflictedClaimSetRejected "string list"
  | NoDocuments
  | IdentifierUnreadable js_error
  | CandidateSchemaInvalid

record PassportCandidate =
  pc_assetId :: string
  pc_version :: int
  pc_evidenceRoot :: string
  pc_claimsRoot :: string
  pc_expiresAt :: int
  pc_redemptionSupported :: bool
  pc_redemptionFloorBps :: int
  pc_singleSource :: bool
  pc_evidenceIds :: "string list"
  pc_claimSets :: "ClaimSet list"
  pc_strongestSourceClass :: nat
  pc_corroborationOutcome :: CorroborationOutcome
  pc_builtAt :: int
  pc_builderVersion :: string

definition passportCandidateSchema :: "PassportCandidate \<Rightarrow> bool" where
  "passportCandidateSchema p \<longleftrightarrow>
     hex32Schema (pc_assetId p) \<and> 0 < pc_version p \<and> hex32Schema (pc_evidenceRoot p)
   \<and> hex32Schema (pc_claimsRoot p) \<and> unixSecondsSchema (pc_expiresAt p)
   \<and> bpsSchema (pc_redemptionFloorBps p) \<and> list_all hex32Schema (pc_evidenceIds p) \<and> pc_evidenceIds p \<noteq> []
   \<and> list_all claimSetSchema (pc_claimSets p) \<and> pc_claimSets p \<noteq> []
   \<and> sourceClassSchema (pc_strongestSourceClass p) \<and> unixSecondsSchema (pc_builtAt p)
   \<and> pc_builderVersion p \<noteq> []
   \<and> \<not> (\<not> pc_redemptionSupported p \<and> pc_redemptionFloorBps p \<noteq> 0)
   \<and> \<not> (pc_corroborationOutcome p = SINGLE_SOURCE \<and> \<not> pc_singleSource p)
   \<and> pc_corroborationOutcome p \<noteq> CLAIM_CONFLICT"

definition parsed_candidate :: "PassportCandidate \<Rightarrow> PassportCandidate" where
  "parsed_candidate p = p\<lparr>pc_assetId := toLowerCase (pc_assetId p),
     pc_evidenceRoot := toLowerCase (pc_evidenceRoot p), pc_claimsRoot := toLowerCase (pc_claimsRoot p),
     pc_evidenceIds := map toLowerCase (pc_evidenceIds p),
     pc_claimSets := map parsed_claim_set (pc_claimSets p)\<rparr>"

record BuildCandidateRequest =
  br_assetId :: string
  br_version :: int
  br_documents :: "CanonicalDocument list"
  br_claimSets :: "ClaimSet list"
  br_corroboration :: Corroboration
  br_expiresAt :: int
  br_builtAt :: int
  br_builderVersion :: "string option"

record BuiltCandidate =
  bc_candidate :: PassportCandidate
  bc_resolved :: "(string \<times> ClaimValue option) list"
  bc_claimLeaves :: "string list"
  bc_redemptionWithheldReason :: "string option"

definition conflictingRiskFields :: "Corroboration \<Rightarrow> string list" where
  "conflictingRiskFields c =
     map fc_field (filter (\<lambda>f. fc_outcome f = CONFLICT \<and> isRiskBearing (fc_field f)) (co_fields c))"

definition firstValue :: "FieldComparison option \<Rightarrow> ClaimValue option" where
  "firstValue cmp = (case cmp of None \<Rightarrow> None
     | Some f \<Rightarrow> (case filter (\<lambda>v. v \<noteq> None) (map_values (fc_byExtractor f)) of [] \<Rightarrow> None | v # _ \<Rightarrow> v))"

definition find_field :: "Corroboration \<Rightarrow> string \<Rightarrow> FieldComparison option" where
  "find_field c field = find (\<lambda>f. fc_field f = field) (co_fields c)"

definition resolveFields :: "Corroboration \<Rightarrow> (string \<times> ClaimValue option) list" where
  "resolveFields c = foldl (\<lambda>m f. AList.update (fc_field f) (firstValue (Some f)) m) [] (co_fields c)"

definition uniqueSorted :: "string list \<Rightarrow> string list result" where
  "uniqueSorted ids = sort_hex (set_adds (map toLowerCase ids) [])"

definition strongestSourceClass :: "CanonicalDocument list \<Rightarrow> nat" where
  "strongestSourceClass docs =
     foldl (\<lambda>m d. if cd_sourceClass d > m then cd_sourceClass d else m) (cd_sourceClass (hd docs)) docs"

definition leaf_step ::
  "(string \<Rightarrow> string) \<Rightarrow> (abi_value list \<Rightarrow> string) \<Rightarrow> string list \<times> string list \<Rightarrow> EvidenceClaim \<Rightarrow>
   string list \<times> string list" where
  "leaf_step nfc keccak acc c = (case acc of (seen, leaves) \<Rightarrow>
     (case ec_value c of
        None \<Rightarrow> (seen, leaves)
      | Some v \<Rightarrow>
          let normalized = normalizeForComparison nfc (Some v);
              key = ec_field c @ '' '' @ normalized @ '' '' @ ec_evidenceId c
          in if key \<in> set seen then (seen, leaves)
             else (seen @ [key], leaves @ [claimLeaf keccak (ec_field c) normalized (ec_evidenceId c)])))"

definition buildClaimLeaves ::
  "(string \<Rightarrow> string) \<Rightarrow> (abi_value list \<Rightarrow> string) \<Rightarrow> ClaimSet list \<Rightarrow> string list" where
  "buildClaimLeaves nfc keccak sets = snd (foldl (leaf_step nfc keccak) ([], []) (concat (map cs_claims sets)))"

fun outcome_name :: "FieldOutcome \<Rightarrow> string" where
  "outcome_name AGREED = ''AGREED''"
| "outcome_name CONFLICT = ''CONFLICT''"
| "outcome_name SINGLE = ''SINGLE''"
| "outcome_name ABSENT = ''ABSENT''"

record Redemption =
  re_supported :: bool
  re_floorBps :: int
  re_withheldReason :: "string option"

definition withheld :: "string \<Rightarrow> Redemption" where
  "withheld reason = \<lparr>re_supported = False, re_floorBps = 0, re_withheldReason = Some reason\<rparr>"

definition resolveRedemption :: "Corroboration \<Rightarrow> Redemption" where
  "resolveRedemption c =
     (let floorCmp = find_field c REDEMPTION_FLOOR_FIELD;
          supportedValue = firstValue (find_field c REDEMPTION_SUPPORTED_FIELD);
          floorValue = firstValue floorCmp
      in if supportedValue \<noteq> Some (CV_bool True)
         then withheld (if supportedValue = None
           then ''no path established redemption.supported; the floor term is omitted from recognised value''
           else ''the document states redemption is not supported'')
         else case floorValue of
           Some (CV_bps n) \<Rightarrow>
             if n = 0 then withheld (''redemption is supported but no usable redemption.floorBps was established. ''
               @ ''Committing supported=true with a zero floor would drive recognised value to zero, so the ''
               @ ''term is omitted instead and the asset is valued on haircut and stressed exit alone.'')
             else if map_option fc_outcome floorCmp \<noteq> Some AGREED
             then withheld (''redemption.floorBps was ''
               @ (case floorCmp of None \<Rightarrow> ''ABSENT'' | Some f \<Rightarrow> outcome_name (fc_outcome f))
               @ '', not AGREED. A floor is the only Passport field that can raise recognised value, so it is ''
               @ ''carried only when two independent paths read the same number.'')
             else \<lparr>re_supported = True, re_floorBps = n, re_withheldReason = None\<rparr>
         | _ \<Rightarrow> withheld (''redemption is supported but no usable redemption.floorBps was established. ''
               @ ''Committing supported=true with a zero floor would drive recognised value to zero, so the ''
               @ ''term is omitted instead and the asset is valued on haircut and stressed exit alone.''))"

definition unreadable :: "'a result \<Rightarrow> candidate_error + 'a" where
  "unreadable r = (case r of Inl e \<Rightarrow> Inl (IdentifierUnreadable e) | Inr x \<Rightarrow> Inr x)"

definition parse_candidate :: "PassportCandidate \<Rightarrow> candidate_error + PassportCandidate" where
  "parse_candidate p = (if passportCandidateSchema p then Inr (parsed_candidate p) else Inl CandidateSchemaInvalid)"

definition buildCandidate ::
  "(string \<Rightarrow> string) \<Rightarrow> (abi_value list \<Rightarrow> string) \<Rightarrow> BuildCandidateRequest \<Rightarrow> candidate_error + BuiltCandidate" where
  "buildCandidate nfc keccak req =
     (if co_outcome (br_corroboration req) = CLAIM_CONFLICT
      then Inl (ConflictedClaimSetRejected (conflictingRiskFields (br_corroboration req)))
      else if br_documents req = [] then Inl NoDocuments
      else
        bindR (unreadable (uniqueSorted (map cd_evidenceId (br_documents req)))) (\<lambda>evidenceIds.
        bindR (unreadable (merkleRoot keccak evidenceIds)) (\<lambda>evidenceRoot.
        let claimLeaves = buildClaimLeaves nfc keccak (br_claimSets req)
        in bindR (unreadable (merkleRoot keccak claimLeaves)) (\<lambda>claimsRoot.
        let redemption = resolveRedemption (br_corroboration req)
        in bindR (parse_candidate
             \<lparr>pc_assetId = br_assetId req, pc_version = br_version req, pc_evidenceRoot = evidenceRoot,
              pc_claimsRoot = claimsRoot, pc_expiresAt = br_expiresAt req,
              pc_redemptionSupported = re_supported redemption,
              pc_redemptionFloorBps = re_floorBps redemption,
              pc_singleSource = (co_outcome (br_corroboration req) = SINGLE_SOURCE),
              pc_evidenceIds = evidenceIds, pc_claimSets = br_claimSets req,
              pc_strongestSourceClass = strongestSourceClass (br_documents req),
              pc_corroborationOutcome = co_outcome (br_corroboration req), pc_builtAt = br_builtAt req,
              pc_builderVersion = option_default (br_builderVersion req) BUILDER_VERSION\<rparr>) (\<lambda>candidate.
           Inr \<lparr>bc_candidate = candidate, bc_resolved = resolveFields (br_corroboration req),
                bc_claimLeaves = claimLeaves,
                bc_redemptionWithheldReason = re_withheldReason redemption\<rparr>)))))"

section \<open>The registry's arguments\<close>

record CommitPassportArgs =
  ca_assetId :: string
  ca_version :: int
  ca_evidenceIds :: "string list"
  ca_evidenceRoot :: string
  ca_claimsRoot :: string
  ca_expiresAt :: int
  ca_redemptionSupported :: bool
  ca_redemptionFloorBps :: int
  ca_singleSource :: bool

definition commitPassportArgs :: "PassportCandidate \<Rightarrow> CommitPassportArgs result" where
  "commitPassportArgs p =
     bindR (sort_hex (pc_evidenceIds p)) (\<lambda>ids.
     Inr \<lparr>ca_assetId = pc_assetId p, ca_version = pc_version p, ca_evidenceIds = ids,
          ca_evidenceRoot = pc_evidenceRoot p, ca_claimsRoot = pc_claimsRoot p,
          ca_expiresAt = pc_expiresAt p, ca_redemptionSupported = pc_redemptionSupported p,
          ca_redemptionFloorBps = pc_redemptionFloorBps p, ca_singleSource = pc_singleSource p\<rparr>)"

section \<open>What a candidate rests on\<close>

lemma lower_char_idem [simp]: "lower_char (lower_char c) = lower_char c"
  by (auto simp: lower_char_def Let_def)

lemma toLowerCase_idem [simp]: "toLowerCase (toLowerCase s) = toLowerCase s"
  by (simp add: toLowerCase_def)

lemma find_field_corroborate:
  "find_field (corroborate nfc sets) field = Some f \<Longrightarrow> f = compare_field nfc sets field"
  by (auto simp: find_field_def corroborate_def Let_def dest!: find_Some_in)

lemma byExtractor_values:
  "v \<in> set (map_values (byExtractor field sets)) \<Longrightarrow> \<exists>s\<in>set sets. claim_value field s = v"
proof (induction sets rule: rev_induct)
  case (snoc s sets)
  have "byExtractor field (sets @ [s]) = AList.update (cs_extractor s) (claim_value field s) (byExtractor field sets)"
    by (simp add: byExtractor_def)
  then show ?case using snoc in_values_update by fastforce
qed (simp add: byExtractor_def map_values_def)

lemma firstValue_read:
  assumes "firstValue (find_field (corroborate nfc sets) field) = Some v"
  shows "\<exists>s\<in>set sets. claim_value field s = Some v"
proof -
  obtain f where f: "find_field (corroborate nfc sets) field = Some f"
    using assms by (cases "find_field (corroborate nfc sets) field") (auto simp: firstValue_def)
  let ?vs = "map_values (fc_byExtractor f)"
  have "Some v \<in> set (filter (\<lambda>v. v \<noteq> None) ?vs)"
    using assms by (cases "filter (\<lambda>v. v \<noteq> None) ?vs") (auto simp: f firstValue_def)
  then have "Some v \<in> set (map_values (byExtractor field sets))"
    using find_field_corroborate [OF f] by (simp add: compare_field_def Let_def)
  then show ?thesis by (rule byExtractor_values)
qed

lemma resolveRedemption_cases:
  assumes "resolveRedemption c = red"
  shows "if re_supported red
     then firstValue (find_field c REDEMPTION_SUPPORTED_FIELD) = Some (CV_bool True)
        \<and> firstValue (find_field c REDEMPTION_FLOOR_FIELD) = Some (CV_bps (re_floorBps red))
        \<and> re_floorBps red \<noteq> 0
        \<and> map_option fc_outcome (find_field c REDEMPTION_FLOOR_FIELD) = Some AGREED
        \<and> re_withheldReason red = None
     else re_floorBps red = 0 \<and> re_withheldReason red \<noteq> None"
  using assms
  by (auto simp: resolveRedemption_def withheld_def Let_def split: if_splits option.splits ClaimValue.splits)

lemma uniqueSorted_inv:
  assumes "uniqueSorted ids = Inr out"
  shows "set out = toLowerCase ` set ids" "distinct out" "sorted (map hex_value out)"
proof -
  let ?xs = "set_adds (map toLowerCase ids) []"
  have "out = sort_key hex_value ?xs \<or> out = ?xs \<and> length ?xs \<le> 1"
    using assms by (auto simp: uniqueSorted_def sort_hex_def split: if_splits)
  moreover have "sorted (map hex_value ?xs)" if "length ?xs \<le> 1"
    using that by (cases ?xs) auto
  ultimately show "set out = toLowerCase ` set ids" "distinct out" "sorted (map hex_value out)" by auto
qed

lemma buildCandidate_inv:
  assumes "buildCandidate nfc keccak req = Inr built"
  obtains ids er cr where
    "co_outcome (br_corroboration req) \<noteq> CLAIM_CONFLICT" "br_documents req \<noteq> []"
    "uniqueSorted (map cd_evidenceId (br_documents req)) = Inr ids" "merkleRoot keccak ids = Inr er"
    "merkleRoot keccak (buildClaimLeaves nfc keccak (br_claimSets req)) = Inr cr"
    "list_all hex32Schema ids"
    "pc_evidenceIds (bc_candidate built) = ids" "pc_evidenceRoot (bc_candidate built) = toLowerCase er"
    "pc_singleSource (bc_candidate built) \<longleftrightarrow> co_outcome (br_corroboration req) = SINGLE_SOURCE"
    "pc_redemptionSupported (bc_candidate built) = re_supported (resolveRedemption (br_corroboration req))"
    "pc_redemptionFloorBps (bc_candidate built) = re_floorBps (resolveRedemption (br_corroboration req))"
    "bpsSchema (re_floorBps (resolveRedemption (br_corroboration req)))"
    "bc_redemptionWithheldReason built = re_withheldReason (resolveRedemption (br_corroboration req))"
proof -
  have nc: "co_outcome (br_corroboration req) \<noteq> CLAIM_CONFLICT" "br_documents req \<noteq> []"
    using assms by (auto simp: buildCandidate_def split: if_splits)
  obtain ids where ids: "uniqueSorted (map cd_evidenceId (br_documents req)) = Inr ids"
    using assms nc by (auto simp: buildCandidate_def unreadable_def split: sum.splits)
  obtain er where er: "merkleRoot keccak ids = Inr er"
    using assms nc ids by (auto simp: buildCandidate_def unreadable_def split: sum.splits)
  obtain cr where cr: "merkleRoot keccak (buildClaimLeaves nfc keccak (br_claimSets req)) = Inr cr"
    using assms nc ids er by (auto simp: buildCandidate_def unreadable_def Let_def split: sum.splits)
  have low: "map toLowerCase ids = ids"
    using uniqueSorted_inv(1) [OF ids] by (auto intro!: map_idI)
  note rest = assms nc ids er cr low
  show thesis
    using rest
    by (intro that [OF nc ids er cr])
      (auto simp: buildCandidate_def unreadable_def Let_def parse_candidate_def passportCandidateSchema_def
        parsed_candidate_def split: if_splits)
qed

lemma strongest_is_max: "docs \<noteq> [] \<Longrightarrow> strongestSourceClass docs = Max (cd_sourceClass ` set docs)"
proof -
  assume ne: "docs \<noteq> []"
  have fold: "foldl (\<lambda>m d. if cd_sourceClass d > m then cd_sourceClass d else m) k ds
      = Max (insert k (cd_sourceClass ` set ds))" for k ds
  proof (induction ds arbitrary: k)
    case (Cons d ds)
    have "(if cd_sourceClass d > k then cd_sourceClass d else k) = max k (cd_sourceClass d)" by auto
    then show ?case using Cons by (cases "ds = []") (simp_all add: max.assoc max.left_commute max.commute)
  qed simp
  have "insert (cd_sourceClass (hd docs)) (cd_sourceClass ` set docs) = cd_sourceClass ` set docs"
    using ne by (auto simp: insert_absorb)
  then show ?thesis by (simp add: strongestSourceClass_def fold)
qed

lemma uniqueSorted_set:
  assumes "set ids' = set ids" "list_all hex32Schema ids"
  shows "uniqueSorted ids' = uniqueSorted ids"
proof -
  let ?u = "\<lambda>xs. set_adds (map toLowerCase xs) []"
  have h: "list_all hex_id (?u xs)" if "set xs = set ids" for xs
    using assms(2) that toLowerCase_hex_id by (auto simp: list_all_iff)
  have "set (?u ids') = set (?u ids)" using assms(1) by simp
  then have "mset (?u ids') = mset (?u ids)" by (intro set_eq_iff_mset_eq_distinct [THEN iffD1]) simp_all
  then have "sort_key hex_value (?u ids') = sort_key hex_value (?u ids)"
    using sort_hex_perm [of "?u ids" "?u ids'"] h [OF refl] by simp
  then show ?thesis using sort_hex_ok h [OF assms(1)] h [OF refl] by (simp add: uniqueSorted_def)
qed

section \<open>A worked example\<close>

definition sample_claim :: "string \<Rightarrow> string \<Rightarrow> ClaimValue option \<Rightarrow> EvidenceClaim" where
  "sample_claim x field v = \<lparr>ec_field = field, ec_value = v,
     ec_locator = Some \<lparr>dl_section = None, dl_startOffset = None, dl_endOffset = None, dl_quote = ''q''\<rparr>,
     ec_evidenceId = ZERO32, ec_sourceClass = 4, ec_retrievedAt = 20, ec_effectiveAt = 10, ec_expiresAt = None,
     ec_extractor = x, ec_confidenceBps = 9000, ec_corroboratingEvidenceIds = [], ec_attestation = None\<rparr>"

definition sample_set :: "string \<Rightarrow> string \<Rightarrow> ClaimValue option \<Rightarrow> ClaimSet" where
  "sample_set x g floor = \<lparr>cs_extractor = x, cs_independenceGroup = g,
     cs_claims = [sample_claim x ''redemption.supported'' (Some (CV_bool True)),
                  sample_claim x ''redemption.floorBps'' floor]\<rparr>"

definition sample_doc :: CanonicalDocument where
  "sample_doc = \<lparr>cd_evidenceId = ZERO32, cd_contentHash = ZERO32, cd_sourceHash = ZERO32, cd_sourceClass = 4,
     cd_canonicalizerVersion = ''usance-text/1'', cd_mediaType = ''text/plain'', cd_bytes = [],
     cd_retrievedAt = 20, cd_effectiveAt = 10\<rparr>"

definition agreed_sets :: "ClaimSet list" where
  "agreed_sets = [sample_set ''parser'' ''rules'' (Some (CV_bps 9000)), sample_set ''model'' ''llm'' (Some (CV_bps 9000))]"

definition zero_hash :: "abi_value list \<Rightarrow> string" where "zero_hash vs = ZERO32"

definition sample_request :: BuildCandidateRequest where
  "sample_request = \<lparr>br_assetId = ZERO32, br_version = 1, br_documents = [sample_doc], br_claimSets = agreed_sets,
     br_corroboration = corroborate id agreed_sets, br_expiresAt = 0, br_builtAt = 30, br_builderVersion = None\<rparr>"



lemmas sample_defs = agreed_sets_def sample_set_def sample_claim_def

lemma sample_keys: "normalizeForComparison id (Some (CV_bool True)) = ''bool:1''"
  "normalizeForComparison id (Some (CV_bps 9000)) = ''bps:'' @ show_int 9000"
  by (simp_all add: normalizeForComparison_def)

lemma sample_leaves: "buildClaimLeaves id zero_hash agreed_sets = [ZERO32, ZERO32]"
  by (simp add: buildClaimLeaves_def sample_defs leaf_step_def sample_keys claimLeaf_def zero_hash_def)

lemma sample_fields: "sort (claimed_fields agreed_sets) = [''redemption.floorBps'', ''redemption.supported'']"
  by (simp add: claimed_fields_def sample_defs set_adds_def set_add_def less_eq_char_def)

lemma sample_comparisons:
  "compare_field id agreed_sets ''redemption.supported'' = \<lparr>fc_field = ''redemption.supported'', fc_outcome = AGREED,
     fc_byExtractor = [(''parser'', Some (CV_bool True)), (''model'', Some (CV_bool True))]\<rparr>"
  "compare_field id agreed_sets ''redemption.floorBps'' = \<lparr>fc_field = ''redemption.floorBps'', fc_outcome = AGREED,
     fc_byExtractor = [(''parser'', Some (CV_bps 9000)), (''model'', Some (CV_bps 9000))]\<rparr>"
  by (simp_all add: compare_field_def byGroup_def add_reading_def claim_value_def byExtractor_def sample_defs
      set_adds_def set_add_def map_values_def sample_keys)

lemma sample_corroboration:
  "corroborate id agreed_sets = \<lparr>co_outcome = CORROBORATED,
     co_fields = [compare_field id agreed_sets ''redemption.floorBps'', compare_field id agreed_sets ''redemption.supported''],
     co_independentPathCount = 2\<rparr>"
proof -
  have "contributingGroups agreed_sets = [''rules'', ''llm'']"
    by (simp add: contributingGroups_def sample_defs set_adds_def set_add_def)
  moreover have "fc_outcome (compare_field id agreed_sets ''redemption.supported'') = AGREED"
    "fc_outcome (compare_field id agreed_sets ''redemption.floorBps'') = AGREED"
    by (simp_all only: sample_comparisons FieldComparison.simps)
  ultimately show ?thesis by (simp add: corroborate_def Let_def sample_fields)
qed

lemma sample_redemption:
  "resolveRedemption (corroborate id agreed_sets)
     = \<lparr>re_supported = True, re_floorBps = 9000, re_withheldReason = None\<rparr>"
  by (simp add: resolveRedemption_def sample_corroboration find_field_def sample_comparisons firstValue_def
      map_values_def REDEMPTION_FLOOR_FIELD_def REDEMPTION_SUPPORTED_FIELD_def)

lemma zero32_lower: "toLowerCase ZERO32 = ZERO32" by code_simp
lemma zero32_ok: "hex32Schema ZERO32" by code_simp
lemma zero32_value: "bigint_of_string ZERO32 = Inr 0" by code_simp

lemma sample_schema: "list_all claimSetSchema agreed_sets" by code_simp

lemma sample_roots: "uniqueSorted [ZERO32] = Inr [ZERO32]" "merkleRoot zero_hash [ZERO32] = Inr ZERO32"
  "merkleRoot zero_hash [ZERO32, ZERO32] = Inr ZERO32"
  by (simp_all add: uniqueSorted_def sort_hex_def set_adds_def set_add_def zero32_lower merkleRoot_def
      merkle_up.simps hashPair_def zero32_value zero_hash_def)

lemma sample_outcome: "co_outcome (corroborate id agreed_sets) = CORROBORATED"
  by (simp add: sample_corroboration)

lemma sample_builds:
  "\<exists>built. buildCandidate id zero_hash sample_request = Inr built \<and> pc_redemptionSupported (bc_candidate built)
     \<and> pc_redemptionFloorBps (bc_candidate built) = 9000"
  by (simp add: buildCandidate_def sample_request_def sample_outcome sample_redemption sample_leaves
      sample_roots unreadable_def Let_def sample_doc_def parse_candidate_def passportCandidateSchema_def zero32_ok
      sample_schema parsed_candidate_def strongestSourceClass_def sourceClassSchema_def SOURCE_CLASS_NAMES_def
      unixSecondsSchema_def bpsSchema_def BUILDER_VERSION_def)
    (simp add: agreed_sets_def)


section \<open>Properties\<close>

lemma outcome_of_set:
  assumes "set sets' = set sets"
  shows "co_outcome (corroborate nfc sets') = co_outcome (corroborate nfc sets)"
proof -
  have "disputed nfc sets' f = disputed nfc sets f" "read_by_two sets' f = read_by_two sets f" for f
    by (simp_all add: disputed_def read_by_two_def assms)
  then have "(co_outcome (corroborate nfc sets') = CLAIM_CONFLICT) = (co_outcome (corroborate nfc sets) = CLAIM_CONFLICT)"
    "(co_outcome (corroborate nfc sets') = CORROBORATED) = (co_outcome (corroborate nfc sets) = CORROBORATED)"
    by (simp_all add: corroborate_conflict_iff corroborate_corroborated_iff)
  then show ?thesis using CorroborationOutcome.exhaust by metis
qed

text \<open>
  Two groups agree that redemption is supported, and one of them alone reads a floor, which is
  risk-bearing. The specification calls this single-source, the code corroborated.
\<close>

definition partly_single :: "ClaimSet list" where
  "partly_single = [sample_set ''parser'' ''rules'' (Some (CV_bps 9000)), sample_set ''model'' ''llm'' None]"

lemma partly_single_is_corroborated:
  "co_outcome (corroborate id partly_single) = CORROBORATED" "spec_outcome id partly_single = SINGLE_SOURCE"
proof -
  let ?p = "sample_set ''parser'' ''rules'' (Some (CV_bps 9000))" and ?m = "sample_set ''model'' ''llm'' None"
  have v: "claim_value ''redemption.supported'' ?p = Some (CV_bool True)"
    "claim_value ''redemption.supported'' ?m = Some (CV_bool True)"
    "claim_value ''redemption.floorBps'' ?p = Some (CV_bps 9000)" "claim_value ''redemption.floorBps'' ?m = None"
    "f \<noteq> ''redemption.supported'' \<Longrightarrow> f \<noteq> ''redemption.floorBps'' \<Longrightarrow> claim_value f ?p = None"
    "f \<noteq> ''redemption.supported'' \<Longrightarrow> claim_value f ?m = None" for f
    by (simp_all add: claim_value_def sample_set_def sample_claim_def)
  have g: "cs_independenceGroup ?p = ''rules''" "cs_independenceGroup ?m = ''llm''" by (simp_all add: sample_set_def)
  have nd: "\<not> disputed id partly_single f" for f
    by (cases "f = ''redemption.supported''"; cases "f = ''redemption.floorBps''")
      (simp_all add: disputed_def partly_single_def v claimValuesEqual_def)
  have two: "read_by_two partly_single ''redemption.supported''"
    by (simp add: read_by_two_def partly_single_def v g)
  have one: "read_by_one id partly_single ''redemption.floorBps''" "isRiskBearing ''redemption.floorBps''"
    by (simp_all add: read_by_one_def nd) (simp_all add: read_by_two_def partly_single_def v isRiskBearing_def RISK_BEARING_FIELDS_def)
  show "co_outcome (corroborate id partly_single) = CORROBORATED" "spec_outcome id partly_single = SINGLE_SOURCE"
    using nd two one unfolding corroborate_corroborated_iff spec_outcome_iff by blast+
qed

text \<open>
  C26: corroboration says what the readings say. The outcome is a conflict exactly when two claim sets
  read different values, in normal form, for one risk-bearing field; it is corroborated exactly when
  there is no such conflict and some undisputed field is read by two independence groups. So one group,
  however many extractors it runs, never corroborates, and neither the order nor the repetition of
  the claim sets matters. The roll-up of section 6 of \<open>spec/evidence-model.md\<close> is another one, and
  the statement says where the code departs from it: both have the same conflicts; the code says
  corroborated where the specification says single-source exactly when, without a conflict, two groups
  agree on some field and some risk-bearing field is read by one group only; it says single-source
  where the specification says corroborated exactly when, without a conflict, no field is agreed and
  no risk-bearing field is read by one group only.
\<close>

theorem corroboration_outcomes:
  "(co_outcome (corroborate nfc sets) = CLAIM_CONFLICT \<longleftrightarrow>
      (\<exists>f. isRiskBearing f \<and> (\<exists>s\<in>set sets. \<exists>s'\<in>set sets. claim_value f s \<noteq> None \<and> claim_value f s' \<noteq> None
         \<and> \<not> claimValuesEqual nfc (claim_value f s) (claim_value f s'))))
    \<and> (co_outcome (corroborate nfc sets) = CORROBORATED \<longleftrightarrow>
         co_outcome (corroborate nfc sets) \<noteq> CLAIM_CONFLICT
       \<and> (\<exists>f. \<not> disputed nfc sets f \<and> (\<exists>s\<in>set sets. \<exists>s'\<in>set sets. claim_value f s \<noteq> None
            \<and> claim_value f s' \<noteq> None \<and> cs_independenceGroup s \<noteq> cs_independenceGroup s')))
    \<and> (set sets' = set sets \<longrightarrow> co_outcome (corroborate nfc sets') = co_outcome (corroborate nfc sets))
    \<and> (co_outcome (corroborate nfc sets) = CLAIM_CONFLICT \<longleftrightarrow> spec_outcome nfc sets = CLAIM_CONFLICT)
    \<and> (co_outcome (corroborate nfc sets) = CORROBORATED \<and> spec_outcome nfc sets = SINGLE_SOURCE \<longleftrightarrow>
         co_outcome (corroborate nfc sets) = CORROBORATED \<and> (\<exists>f. isRiskBearing f \<and> read_by_one nfc sets f))
    \<and> (co_outcome (corroborate nfc sets) = SINGLE_SOURCE \<and> spec_outcome nfc sets = CORROBORATED \<longleftrightarrow>
         co_outcome (corroborate nfc sets) = SINGLE_SOURCE \<and> \<not> (\<exists>f. isRiskBearing f \<and> read_by_one nfc sets f))"
proof -
  have single: "co_outcome (corroborate nfc sets) = SINGLE_SOURCE \<longleftrightarrow>
      \<not> (\<exists>f. isRiskBearing f \<and> disputed nfc sets f) \<and> \<not> (\<exists>f. \<not> disputed nfc sets f \<and> read_by_two sets f)"
    using corroborate_conflict_iff [of nfc sets] corroborate_corroborated_iff [of nfc sets]
    by (cases "co_outcome (corroborate nfc sets)") auto
  show ?thesis
    using outcome_of_set [of sets' sets nfc] corroborate_corroborated_iff [of nfc sets] single
      code_against_spec [of nfc sets]
    unfolding corroborate_conflict_iff disputed_def [symmetric] read_by_two_def [symmetric] by blast
qed

theorem corroboration_outcomes_witness:
  "co_outcome (corroborate id (rev agreed_sets @ agreed_sets)) = CORROBORATED
     \<and> (\<exists>f. isRiskBearing f \<and> read_by_one id partly_single f)
     \<and> co_outcome (corroborate id (rev partly_single)) = CORROBORATED"
  using corroboration_outcomes [of id agreed_sets "rev agreed_sets @ agreed_sets"]
    corroboration_outcomes [of id partly_single "rev partly_single"]
  by (simp add: sample_outcome partly_single_is_corroborated)

lemma candidate_evidence:
  assumes "buildCandidate nfc keccak req = Inr built"
    and "br_corroboration req = corroborate nfc (br_claimSets req)"
  shows "\<not> (\<exists>f. isRiskBearing f \<and> disputed nfc (br_claimSets req) f)
    \<and> (pc_singleSource (bc_candidate built) \<longleftrightarrow>
         \<not> (\<exists>f. \<not> disputed nfc (br_claimSets req) f \<and> read_by_two (br_claimSets req) f))
    \<and> set (pc_evidenceIds (bc_candidate built)) = (toLowerCase \<circ> cd_evidenceId) ` set (br_documents req)
    \<and> distinct (pc_evidenceIds (bc_candidate built))
    \<and> sorted (map hex_value (pc_evidenceIds (bc_candidate built)))
    \<and> (if pc_redemptionSupported (bc_candidate built)
       then 0 < pc_redemptionFloorBps (bc_candidate built) \<and> pc_redemptionFloorBps (bc_candidate built) \<le> 10000
          \<and> \<not> disputed nfc (br_claimSets req) REDEMPTION_FLOOR_FIELD
          \<and> read_by_two (br_claimSets req) REDEMPTION_FLOOR_FIELD
          \<and> (\<exists>s\<in>set (br_claimSets req).
               claim_value REDEMPTION_FLOOR_FIELD s = Some (CV_bps (pc_redemptionFloorBps (bc_candidate built))))
          \<and> (\<exists>s\<in>set (br_claimSets req). claim_value REDEMPTION_SUPPORTED_FIELD s = Some (CV_bool True))
       else pc_redemptionFloorBps (bc_candidate built) = 0 \<and> bc_redemptionWithheldReason built \<noteq> None)"
proof -
  let ?c = "corroborate nfc (br_claimSets req)" and ?red = "resolveRedemption (corroborate nfc (br_claimSets req))"
  obtain ids where b: "co_outcome ?c \<noteq> CLAIM_CONFLICT" "uniqueSorted (map cd_evidenceId (br_documents req)) = Inr ids"
    "pc_evidenceIds (bc_candidate built) = ids"
    "pc_singleSource (bc_candidate built) \<longleftrightarrow> co_outcome ?c = SINGLE_SOURCE"
    "pc_redemptionSupported (bc_candidate built) = re_supported ?red"
    "pc_redemptionFloorBps (bc_candidate built) = re_floorBps ?red" "bpsSchema (re_floorBps ?red)"
    "bc_redemptionWithheldReason built = re_withheldReason ?red"
    using assms(1) by (rule buildCandidate_inv) (simp add: assms(2))
  have nd: "\<not> (\<exists>f. isRiskBearing f \<and> disputed nfc (br_claimSets req) f)"
    using b(1) by (simp add: corroborate_conflict_iff)
  have ss: "co_outcome ?c = SINGLE_SOURCE \<longleftrightarrow>
      \<not> (\<exists>f. \<not> disputed nfc (br_claimSets req) f \<and> read_by_two (br_claimSets req) f)"
    using b(1) nd corroborate_corroborated_iff [of nfc "br_claimSets req"] by (cases "co_outcome ?c") auto
  have red: "if re_supported ?red
     then 0 < re_floorBps ?red \<and> re_floorBps ?red \<le> 10000
        \<and> \<not> disputed nfc (br_claimSets req) REDEMPTION_FLOOR_FIELD
        \<and> read_by_two (br_claimSets req) REDEMPTION_FLOOR_FIELD
        \<and> (\<exists>s\<in>set (br_claimSets req). claim_value REDEMPTION_FLOOR_FIELD s = Some (CV_bps (re_floorBps ?red)))
        \<and> (\<exists>s\<in>set (br_claimSets req). claim_value REDEMPTION_SUPPORTED_FIELD s = Some (CV_bool True))
     else re_floorBps ?red = 0 \<and> re_withheldReason ?red \<noteq> None"
  proof (cases "re_supported ?red")
    case True
    then have r: "firstValue (find_field ?c REDEMPTION_SUPPORTED_FIELD) = Some (CV_bool True)"
      "firstValue (find_field ?c REDEMPTION_FLOOR_FIELD) = Some (CV_bps (re_floorBps ?red))" "re_floorBps ?red \<noteq> 0"
      "map_option fc_outcome (find_field ?c REDEMPTION_FLOOR_FIELD) = Some AGREED"
      using resolveRedemption_cases [of ?c ?red] by simp_all
    then have "fc_outcome (compare_field nfc (br_claimSets req) REDEMPTION_FLOOR_FIELD) = AGREED"
      using find_field_corroborate by fastforce
    then show ?thesis
      using True r(3) b(7) firstValue_read [OF r(1)] firstValue_read [OF r(2)] outcome_facts(2)
      by (simp add: bpsSchema_def)
  next
    case False
    then show ?thesis using resolveRedemption_cases [of ?c ?red] by simp
  qed
  show ?thesis using nd ss red uniqueSorted_inv [OF b(2)] unfolding b(3-6,8) by (simp add: image_comp)
qed

text \<open>
  C4: what a candidate takes from its evidence. A candidate built from claim sets with their own
  corroboration has no disputed risk-bearing field and cites each document once, by number. It carries
  a redemption floor only if some set says redemption is supported, the floor is between 1 and 10000
  basis points, some set reads exactly that floor, none reads another and two groups read one; in
  every other case it carries none and says why. Claims of one group alone are always marked
  single-source. The mark is the code's own, though: it is set exactly when no undisputed field is read
  by two groups, which is less than section 6 of \<open>spec/evidence-model.md\<close> asks for, and the last
  part says when the mark is missing where the specification wants it: exactly when two groups agree on
  some field and some risk-bearing field is read by one group only.
\<close>

theorem candidate_rests_on_evidence:
  assumes "buildCandidate nfc keccak req = Inr built"
    and "br_corroboration req = corroborate nfc (br_claimSets req)"
  shows "\<not> (\<exists>f. isRiskBearing f \<and> disputed nfc (br_claimSets req) f)
    \<and> (pc_singleSource (bc_candidate built) \<longleftrightarrow>
         \<not> (\<exists>f. \<not> disputed nfc (br_claimSets req) f \<and> read_by_two (br_claimSets req) f))
    \<and> set (pc_evidenceIds (bc_candidate built)) = (toLowerCase \<circ> cd_evidenceId) ` set (br_documents req)
    \<and> distinct (pc_evidenceIds (bc_candidate built))
    \<and> sorted (map hex_value (pc_evidenceIds (bc_candidate built)))
    \<and> (if pc_redemptionSupported (bc_candidate built)
       then 0 < pc_redemptionFloorBps (bc_candidate built) \<and> pc_redemptionFloorBps (bc_candidate built) \<le> 10000
          \<and> \<not> disputed nfc (br_claimSets req) REDEMPTION_FLOOR_FIELD
          \<and> read_by_two (br_claimSets req) REDEMPTION_FLOOR_FIELD
          \<and> (\<exists>s\<in>set (br_claimSets req).
               claim_value REDEMPTION_FLOOR_FIELD s = Some (CV_bps (pc_redemptionFloorBps (bc_candidate built))))
          \<and> (\<exists>s\<in>set (br_claimSets req). claim_value REDEMPTION_SUPPORTED_FIELD s = Some (CV_bool True))
       else pc_redemptionFloorBps (bc_candidate built) = 0 \<and> bc_redemptionWithheldReason built \<noteq> None)
    \<and> (card (cs_independenceGroup ` set (br_claimSets req)) \<le> 1 \<longrightarrow> pc_singleSource (bc_candidate built))
    \<and> (spec_outcome nfc (br_claimSets req) = SINGLE_SOURCE \<and> \<not> pc_singleSource (bc_candidate built) \<longleftrightarrow>
         (\<exists>f. \<not> disputed nfc (br_claimSets req) f \<and> read_by_two (br_claimSets req) f)
       \<and> (\<exists>f. isRiskBearing f \<and> read_by_one nfc (br_claimSets req) f))"
proof -
  have "\<not> (\<exists>f. read_by_two (br_claimSets req) f)" if c: "card (cs_independenceGroup ` set (br_claimSets req)) \<le> 1"
  proof -
    have "\<not> (\<exists>a\<in>cs_independenceGroup ` set (br_claimSets req). \<exists>b\<in>cs_independenceGroup ` set (br_claimSets req). a \<noteq> b)"
      using c unfolding more_than_one [OF finite_imageI [OF finite_set], symmetric] by simp
    then show ?thesis unfolding read_by_two_def by blast
  qed
  moreover have "\<not> (\<exists>f. isRiskBearing f \<and> disputed nfc (br_claimSets req) f)"
    "pc_singleSource (bc_candidate built) \<longleftrightarrow>
       \<not> (\<exists>f. \<not> disputed nfc (br_claimSets req) f \<and> read_by_two (br_claimSets req) f)"
    using candidate_evidence [OF assms] by simp_all
  ultimately have "card (cs_independenceGroup ` set (br_claimSets req)) \<le> 1 \<longrightarrow> pc_singleSource (bc_candidate built)"
    "spec_outcome nfc (br_claimSets req) = SINGLE_SOURCE \<and> \<not> pc_singleSource (bc_candidate built) \<longleftrightarrow>
         (\<exists>f. \<not> disputed nfc (br_claimSets req) f \<and> read_by_two (br_claimSets req) f)
       \<and> (\<exists>f. isRiskBearing f \<and> read_by_one nfc (br_claimSets req) f)"
    unfolding spec_outcome_iff by blast+
  with candidate_evidence [OF assms] show ?thesis by (elim conjE) (intro conjI; assumption)
qed

theorem candidate_rests_on_evidence_witness:
  "\<exists>built. buildCandidate id zero_hash sample_request = Inr built \<and> pc_redemptionFloorBps (bc_candidate built) = 9000
     \<and> read_by_two agreed_sets REDEMPTION_FLOOR_FIELD \<and> \<not> pc_singleSource (bc_candidate built)"
proof -
  obtain built where b: "buildCandidate id zero_hash sample_request = Inr built"
    "pc_redemptionSupported (bc_candidate built)" "pc_redemptionFloorBps (bc_candidate built) = 9000"
    using sample_builds by blast
  have s: "br_claimSets sample_request = agreed_sets" "br_corroboration sample_request = corroborate id agreed_sets"
    by (simp_all add: sample_request_def)
  have "br_corroboration sample_request = corroborate id (br_claimSets sample_request)" by (simp add: s)
  from candidate_rests_on_evidence [OF b(1) this] b show ?thesis by (auto simp: s)
qed

text \<open>
  The documents are a set. Building from the same documents in another order, or with some of them
  repeated, gives the same candidate, roots included, or the same rejection.
\<close>

theorem candidate_documents_are_a_set:
  assumes "set docs = set (br_documents req)" "list_all (hex32Schema \<circ> cd_evidenceId) (br_documents req)"
  shows "buildCandidate nfc keccak (req\<lparr>br_documents := docs\<rparr>) = buildCandidate nfc keccak req"
proof (cases "br_documents req = []")
  case False
  then have ne: "docs \<noteq> []" using assms(1) by auto
  have "uniqueSorted (map cd_evidenceId docs) = uniqueSorted (map cd_evidenceId (br_documents req))"
    using assms by (intro uniqueSorted_set) (simp_all add: list_all_iff)
  moreover have "strongestSourceClass docs = strongestSourceClass (br_documents req)"
    using strongest_is_max ne False assms(1) by simp
  ultimately show ?thesis using ne False by (simp add: buildCandidate_def)
qed (use assms(1) in \<open>simp add: buildCandidate_def\<close>)

theorem candidate_documents_are_a_set_witness:
  "buildCandidate id zero_hash (sample_request\<lparr>br_documents := [sample_doc, sample_doc]\<rparr>)
     = buildCandidate id zero_hash sample_request"
  by (rule candidate_documents_are_a_set) (simp_all add: sample_request_def sample_doc_def zero32_ok)

lemma runExtractors_bound:
  assumes "runExtractors issues doc extractors = Inr out"
  shows "list_all (about_document doc) (eo_claimSets out) \<and> eo_claimSets out \<noteq> []
    \<and> length (eo_claimSets out) + length (eo_failures out) = length extractors
    \<and> length (eo_extractions out) = length (eo_claimSets out)
    \<and> eo_independentPathCount out = card (cs_independenceGroup ` set (eo_claimSets out))
    \<and> cs_independenceGroup ` set (eo_claimSets out) \<subseteq> xt_independenceGroup ` set extractors"
proof -
  have inv: "(case foldl (extraction_step issues doc) ([], [], []) xs of (sets, es, fs) \<Rightarrow>
      list_all (about_document doc) sets \<and> length sets + length fs = length xs \<and> length es = length sets
      \<and> cs_independenceGroup ` set sets \<subseteq> xt_independenceGroup ` set xs)" for xs
  proof (induction xs rule: rev_induct)
    case (snoc x xs)
    obtain sets es fs where f: "foldl (extraction_step issues doc) ([], [], []) xs = (sets, es, fs)"
      by (cases "foldl (extraction_step issues doc) ([], [], []) xs") auto
    show ?case
    proof (cases "run_path issues doc x")
      case (Inr p)
      obtain s e where p: "p = (s, e)" by (cases p)
      then have "validateExtraction issues doc e (xt_independenceGroup x) = Inr s"
        using Inr by (auto simp: run_path_def)
      then have "about_document doc s" "cs_independenceGroup s = xt_independenceGroup x"
        by (rule validateExtraction_inv(1), rule validateExtraction_inv(2))
      moreover have "extraction_step issues doc (sets, es, fs) x = (sets @ [s], es @ [e], fs)"
        by (simp add: extraction_step_def Inr p)
      ultimately show ?thesis using snoc f by auto
    next
      case (Inl err)
      then obtain fs' where "extraction_step issues doc (sets, es, fs) x = (sets, es, fs @ [fs'])"
        by (simp add: extraction_step_def)
      then show ?thesis using snoc f by auto
    qed
  qed simp
  show ?thesis
    using assms inv [of extractors]
    by (auto simp: runExtractors_def length_set_adds split: prod.splits if_splits)
qed

text \<open>
  Every surviving claim is about the document. When running the extractors over a document returns,
  every claim of every returned set cites that document's evidence id, source class and timestamps,
  carries the identity of its own extraction and names no risk parameter; each extractor is accounted
  for by one claim set or one failure, and when none produced a set the call throws.
\<close>

theorem extraction_bound_to_document:
  assumes "runExtractors issues doc extractors = Inr out"
  shows "list_all (about_document doc) (eo_claimSets out) \<and> eo_claimSets out \<noteq> []
    \<and> length (eo_claimSets out) + length (eo_failures out) = length extractors
    \<and> length (eo_extractions out) = length (eo_claimSets out)
    \<and> eo_independentPathCount out = card (cs_independenceGroup ` set (eo_claimSets out))
    \<and> cs_independenceGroup ` set (eo_claimSets out) \<subseteq> xt_independenceGroup ` set extractors"
  using runExtractors_bound [OF assms] .

definition silent_extractor :: EvidenceExtractor where
  "silent_extractor = \<lparr>xt_id = ''parser'', xt_independenceGroup = ''rules'', xt_extract = (\<lambda>doc.
     Inr \<lparr>ex_extractor = ''parser'', ex_documentEvidenceId = ZERO32, ex_claims = [], ex_startedAt = 1,
          ex_finishedAt = 2, ex_warnings = [], ex_provenance = None\<rparr>)\<rparr>"

definition broken_extractor :: EvidenceExtractor where
  "broken_extractor = \<lparr>xt_id = ''model'', xt_independenceGroup = ''llm'',
     xt_extract = (\<lambda>doc. Inl (ProviderUnavailable ''no credential''))\<rparr>"

theorem extraction_bound_to_document_witness:
  "\<exists>out. runExtractors (\<lambda>e. []) sample_doc [silent_extractor, broken_extractor] = Inr out
     \<and> eo_independentPathCount out = 1 \<and> length (eo_failures out) = 1"
proof -
  have "validateExtraction (\<lambda>e. []) sample_doc \<lparr>ex_extractor = ''parser'', ex_documentEvidenceId = ZERO32,
      ex_claims = [], ex_startedAt = 1, ex_finishedAt = 2, ex_warnings = [], ex_provenance = None\<rparr> ''rules''
    = Inr \<lparr>cs_extractor = ''parser'', cs_independenceGroup = ''rules'', cs_claims = []\<rparr>"
    by (simp add: validateExtraction_def extractionSchema_def parsed_extraction_def zero32_ok zero32_lower
        sample_doc_def unixSecondsSchema_def)
  then obtain out where out: "runExtractors (\<lambda>e. []) sample_doc [silent_extractor, broken_extractor] = Inr out"
    "eo_claimSets out = [\<lparr>cs_extractor = ''parser'', cs_independenceGroup = ''rules'', cs_claims = []\<rparr>]"
    by (auto simp: runExtractors_def extraction_step_def run_path_def silent_extractor_def broken_extractor_def)
  from extraction_bound_to_document [OF out(1)] out show ?thesis by simp
qed


section \<open>A set that contradicts itself\<close>

text \<open>
  Only the first claim of a set for a field is compared. A set that reads a floor of 9000 and, further
  on, of 9900 disputes nothing and corroborates 9000, while both readings become leaves of the root.
\<close>

definition two_faced :: ClaimSet where
  "two_faced = (sample_set ''model'' ''llm'' (Some (CV_bps 9000)))
     \<lparr>cs_claims := cs_claims (sample_set ''model'' ''llm'' (Some (CV_bps 9000)))
        @ [sample_claim ''model'' ''redemption.floorBps'' (Some (CV_bps 9900))]\<rparr>"

lemma contradiction_within_a_set_unseen:
  "co_outcome (corroborate id [sample_set ''parser'' ''rules'' (Some (CV_bps 9000)), two_faced]) = CORROBORATED"
  "length (buildClaimLeaves id zero_hash [two_faced]) = 3"
proof -
  have v: "claim_value f two_faced = claim_value f (sample_set ''model'' ''llm'' (Some (CV_bps 9000)))" for f
    by (simp add: two_faced_def claim_value_def sample_set_def sample_claim_def)
  have g: "cs_independenceGroup two_faced = ''llm''" by (simp add: two_faced_def sample_set_def)
  have "disputed id [sample_set ''parser'' ''rules'' (Some (CV_bps 9000)), two_faced] f = disputed id agreed_sets f"
    "read_by_two [sample_set ''parser'' ''rules'' (Some (CV_bps 9000)), two_faced] f = read_by_two agreed_sets f" for f
    by (simp_all add: disputed_def read_by_two_def agreed_sets_def v g) (simp_all add: sample_set_def)
  then show "co_outcome (corroborate id [sample_set ''parser'' ''rules'' (Some (CV_bps 9000)), two_faced]) = CORROBORATED"
    using sample_outcome by (simp add: corroborate_corroborated_iff)
  have "show_int 9900 \<noteq> show_int 9000" by (simp add: show_int_def show_nat_inj)
  then show "length (buildClaimLeaves id zero_hash [two_faced]) = 3"
    by (simp add: buildClaimLeaves_def two_faced_def sample_set_def sample_claim_def leaf_step_def
        normalizeForComparison_def)
qed

end
