(* ===== verification/Passport_Value.thy ===== *)
theory Passport_Value
  imports Evidence_Candidate Risk_Engine
begin

text \<open>
  What a Passport's redemption terms do to the valuation of \<open>packages/domain/src/risk.ts\<close>. The evidence
  service withholds a redemption floor that two readings do not agree on; the valuation then has one
  candidate fewer to take the least of, so withholding a floor never lowers the recognised value.
\<close>

definition with_redemption :: "bool \<Rightarrow> int \<Rightarrow> AssetRiskInput \<Rightarrow> AssetRiskInput" where
  "with_redemption supported floor a = a\<lparr>a_redemptionSupported := supported, a_redemptionFloorBps := floor\<rparr>"

lemma reduce_min_snoc: "reduce_min m (xs @ [x]) \<le> reduce_min m xs"
  by (simp add: reduce_min_def)

lemma withheld_floor_never_lowers:
  assumes "valueAsset (with_redemption True n a) = Inr v" "valueAsset (with_redemption False 0 a) = Inr w"
  shows "v_recognizedUsd18 v \<le> v_recognizedUsd18 w"
proof -
  obtain m s f where "v_recognizedUsd18 v = reduce_min m ([s] @ [f])" "v_recognizedUsd18 w = reduce_min m [s]"
    using assms by (auto simp: valueAsset_def with_redemption_def)
  then show ?thesis using reduce_min_snoc [of m "[s]" f] by simp
qed
text \<open>With a floor of 9000 basis points two paths agree on, the sample asset is recognised at 900 dollars;
  with the same floor read by one path, so withheld, at 980.\<close>

lemma withheld_floor_raises:
  "(case valueAsset (with_redemption True 9000 ustb_asset) of Inl e \<Rightarrow> 0 | Inr v \<Rightarrow> v_recognizedUsd18 v)
     = 900000000000000000000"
  "(case valueAsset (with_redemption False 0 ustb_asset) of Inl e \<Rightarrow> 0 | Inr v \<Rightarrow> v_recognizedUsd18 v)
     = 980130906562500000000"
  by code_simp+

end
