(* ===== verification/Indexer_Projection.thy ===== *)
theory Indexer_Projection
  imports Js_Strings "HOL-Library.Product_Lexorder"
begin

text \<open>
  The indexer's projections of chain events (\<open>services/indexer/src/projection.ts\<close>) and its cursor
  (\<open>cursor.ts\<close>). The projections are a value and applying an event returns the next one; a JavaScript
  map keeps its insertion order. Block numbers and log indices are integers.
\<close>

section \<open>Events and projections\<close>

record EventRef =
  ref_blockNumber :: int
  ref_logIndex :: int
  ref_txHash :: string

definition eventKey :: "EventRef \<Rightarrow> string" where
  "eventKey e = show_int (ref_blockNumber e) @ '':'' @ show_int (ref_logIndex e) @ '':'' @ ref_txHash e"

datatype MandateProjectionStatus = ACTIVE | PAUSED | REVOKED | EXPIRED

record MandateProjection =
  mp_mandateId :: string
  mp_owner :: string
  mp_agent :: string
  mp_nonce :: string
  mp_expiresAt :: int
  mp_status :: MandateProjectionStatus
  mp_debtDrawnUsd18 :: string
  mp_notionalTradedUsd18 :: string
  mp_createdTx :: "string option"
  mp_pausedTx :: "string option"
  mp_resumedTx :: "string option"
  mp_revokedTx :: "string option"
  mp_revocationReason :: "string option"
  mp_firstSeenBlock :: int
  mp_lastSeenBlock :: int

record AccountEvent =
  ae_kind :: string
  ae_ref :: EventRef
  ae_detail :: "(string \<times> string) list"

record AccountProjection =
  ap_account :: string
  ap_events :: "AccountEvent list"

record IndexerState =
  is_mandates :: "(string \<times> MandateProjection) list"
  is_accounts :: "(string \<times> AccountProjection) list"
  is_applied :: "string list"

datatype IndexedEvent =
    MandateRegistered (ev_ref: EventRef) string string string string int
  | MandatePaused (ev_ref: EventRef) string
  | MandateResumed (ev_ref: EventRef) string
  | MandateRevoked (ev_ref: EventRef) string string
  | MandateConsumed (ev_ref: EventRef) string string string
  | DelegatedExecution (ev_ref: EventRef) string string string int string

definition no_projections :: IndexerState where
  "no_projections = \<lparr>is_mandates = [], is_accounts = [], is_applied = []\<rparr>"

definition ZERO_ADDRESS :: string where "ZERO_ADDRESS = ''0x'' @ replicate 40 (CHR ''0'')"

definition blank_mandate :: "string \<Rightarrow> EventRef \<Rightarrow> MandateProjection" where
  "blank_mandate i r = \<lparr>mp_mandateId = i, mp_owner = ZERO_ADDRESS, mp_agent = ZERO_ADDRESS, mp_nonce = ''0'',
     mp_expiresAt = 0, mp_status = ACTIVE, mp_debtDrawnUsd18 = ''0'', mp_notionalTradedUsd18 = ''0'',
     mp_createdTx = None, mp_pausedTx = None, mp_resumedTx = None, mp_revokedTx = None,
     mp_revocationReason = None, mp_firstSeenBlock = ref_blockNumber r, mp_lastSeenBlock = ref_blockNumber r\<rparr>"

definition patch ::
  "string \<Rightarrow> EventRef \<Rightarrow> (MandateProjection \<Rightarrow> MandateProjection) \<Rightarrow> IndexerState \<Rightarrow> IndexerState" where
  "patch i r fn s =
     (let current = fn (option_default (map_of (is_mandates s) i) (blank_mandate i r))
      in s\<lparr>is_mandates := AList.update i
             (current\<lparr>mp_lastSeenBlock := max (mp_lastSeenBlock current) (ref_blockNumber r)\<rparr>)
             (is_mandates s)\<rparr>)"

definition chain_order :: "AccountEvent \<Rightarrow> int \<times> int" where
  "chain_order e = (ref_blockNumber (ae_ref e), ref_logIndex (ae_ref e))"

definition record_event ::
  "string \<Rightarrow> string \<Rightarrow> EventRef \<Rightarrow> (string \<times> string) list \<Rightarrow> IndexerState \<Rightarrow> IndexerState" where
  "record_event account kind r detail s =
     (let a = option_default (map_of (is_accounts s) account) \<lparr>ap_account = account, ap_events = []\<rparr>;
          events = sort_key chain_order
            (ap_events a @ [\<lparr>ae_kind = kind, ae_ref = r, ae_detail = detail\<rparr>])
      in s\<lparr>is_accounts := AList.update account (a\<lparr>ap_events := events\<rparr>) (is_accounts s)\<rparr>)"

definition registered ::
  "EventRef \<Rightarrow> string \<Rightarrow> string \<Rightarrow> string \<Rightarrow> string \<Rightarrow> int \<Rightarrow> MandateProjection option \<Rightarrow> MandateProjection" where
  "registered r i owner agent nonce expiresAt existing =
     \<lparr>mp_mandateId = i, mp_owner = owner, mp_agent = agent, mp_nonce = nonce, mp_expiresAt = expiresAt,
      mp_status = (if map_option mp_status existing = Some REVOKED then REVOKED
                   else option_default (map_option mp_status existing) ACTIVE),
      mp_debtDrawnUsd18 = option_default (map_option mp_debtDrawnUsd18 existing) ''0'',
      mp_notionalTradedUsd18 = option_default (map_option mp_notionalTradedUsd18 existing) ''0'',
      mp_createdTx = Some (ref_txHash r),
      mp_pausedTx = Option.bind existing mp_pausedTx,
      mp_resumedTx = Option.bind existing mp_resumedTx,
      mp_revokedTx = Option.bind existing mp_revokedTx,
      mp_revocationReason = Option.bind existing mp_revocationReason,
      mp_firstSeenBlock = min (option_default (map_option mp_firstSeenBlock existing) (ref_blockNumber r))
                              (ref_blockNumber r),
      mp_lastSeenBlock = max (option_default (map_option mp_lastSeenBlock existing) 0) (ref_blockNumber r)\<rparr>"

fun project :: "IndexedEvent \<Rightarrow> IndexerState \<Rightarrow> IndexerState" where
  "project (MandateRegistered r i owner agent nonce expiresAt) s =
     s\<lparr>is_mandates := AList.update i
         (registered r i owner agent nonce expiresAt (map_of (is_mandates s) i)) (is_mandates s)\<rparr>"
| "project (MandatePaused r i) s = patch i r (\<lambda>m.
     (if mp_status m \<noteq> REVOKED then m\<lparr>mp_status := PAUSED\<rparr> else m)\<lparr>mp_pausedTx := Some (ref_txHash r)\<rparr>) s"
| "project (MandateResumed r i) s = patch i r (\<lambda>m.
     (if mp_status m \<noteq> REVOKED then m\<lparr>mp_status := ACTIVE\<rparr> else m)\<lparr>mp_resumedTx := Some (ref_txHash r)\<rparr>) s"
| "project (MandateRevoked r i reason) s = patch i r (\<lambda>m.
     m\<lparr>mp_status := REVOKED, mp_revokedTx := Some (ref_txHash r), mp_revocationReason := Some reason\<rparr>) s"
| "project (MandateConsumed r i debt notional) s = patch i r (\<lambda>m.
     m\<lparr>mp_debtDrawnUsd18 := debt, mp_notionalTradedUsd18 := notional\<rparr>) s"
| "project (DelegatedExecution r account agent i action amount) s =
     record_event account ''DelegatedExecution'' r
       [(''agent'', agent), (''mandateId'', i), (''action'', show_int action), (''amountUsd18'', amount)] s"

definition apply_event :: "IndexedEvent \<Rightarrow> IndexerState \<Rightarrow> bool \<times> IndexerState" where
  "apply_event e s =
     (let key = eventKey (ev_ref e)
      in if key \<in> set (is_applied s) then (False, s)
         else (True, project e (s\<lparr>is_applied := is_applied s @ [key]\<rparr>)))"

definition apply_all :: "IndexedEvent list \<Rightarrow> IndexerState \<Rightarrow> IndexerState" where
  "apply_all es s = foldl (\<lambda>s e. snd (apply_event e s)) s es"

text \<open>\<open>Number(key.split(":")[0])\<close>, which is \<open>NaN\<close> on anything but a decimal.\<close>

definition js_number :: "string \<Rightarrow> int option" where
  "js_number s = (if s \<noteq> [] \<and> list_all is_digit s then Some (int (nat_of_digits s))
     else if s \<noteq> [] \<and> hd s = CHR ''-'' \<and> tl s \<noteq> [] \<and> list_all is_digit (tl s)
     then Some (- int (nat_of_digits (tl s))) else None)"

definition key_block :: "string \<Rightarrow> int option" where
  "key_block key = js_number (hd (split_on (CHR '':'') key))"

definition key_reached :: "int \<Rightarrow> string \<Rightarrow> bool" where
  "key_reached blockNumber key \<longleftrightarrow> (case key_block key of None \<Rightarrow> False | Some n \<Rightarrow> n \<ge> blockNumber)"

definition roll_account :: "int \<Rightarrow> AccountProjection \<Rightarrow> AccountProjection" where
  "roll_account blockNumber a =
     a\<lparr>ap_events := filter (\<lambda>e. ref_blockNumber (ae_ref e) < blockNumber) (ap_events a)\<rparr>"

definition rollbackTo :: "int \<Rightarrow> IndexerState \<Rightarrow> nat \<times> IndexerState" where
  "rollbackTo blockNumber s =
     (length (filter (key_reached blockNumber) (is_applied s)),
      \<lparr>is_mandates = filter (\<lambda>(i, m). \<not> mp_firstSeenBlock m \<ge> blockNumber) (is_mandates s),
       is_accounts = filter (\<lambda>(addr, a). ap_events a \<noteq> [])
         (map (\<lambda>(addr, a). (addr, roll_account blockNumber a)) (is_accounts s)),
       is_applied = filter (\<lambda>k. \<not> key_reached blockNumber k) (is_applied s)\<rparr>)"

definition mandate :: "IndexerState \<Rightarrow> string \<Rightarrow> MandateProjection option" where
  "mandate s i = map_of (is_mandates s) i"

definition mandatesFor :: "IndexerState \<Rightarrow> string \<Rightarrow> MandateProjection list" where
  "mandatesFor s owner =
     (let want = toLowerCase owner
      in sort_key (\<lambda>m. - mp_firstSeenBlock m)
           (filter (\<lambda>m. toLowerCase (mp_owner m) = want \<or> toLowerCase (mp_agent m) = want)
             (map_values (is_mandates s))))"

definition statusAt :: "IndexerState \<Rightarrow> string \<Rightarrow> int \<Rightarrow> MandateProjectionStatus option" where
  "statusAt s i now = (case map_of (is_mandates s) i of
       None \<Rightarrow> None
     | Some m \<Rightarrow> if mp_status m = REVOKED then Some REVOKED
         else if mp_expiresAt m \<noteq> 0 \<and> now \<ge> mp_expiresAt m then Some EXPIRED
         else Some (mp_status m))"

section \<open>The cursor\<close>

record Cursor =
  cu_height :: int
  cu_chainId :: int
  cu_deploymentDigest :: string
  cu_deployedAt :: int
  cu_updatedAt :: int

datatype cursor_error = DeploymentChanged string string

definition resume :: "int \<Rightarrow> string \<Rightarrow> int \<Rightarrow> int \<Rightarrow> Cursor option \<Rightarrow> (cursor_error + Cursor) \<times> Cursor option" where
  "resume chainId deploymentDigest deployedAt now store =
     (case store of
        Some existing \<Rightarrow>
          if cu_chainId existing \<noteq> chainId
          then (Inl (DeploymentChanged (''chain '' @ show_int (cu_chainId existing)) (''chain '' @ show_int chainId)), store)
          else if cu_deploymentDigest existing \<noteq> deploymentDigest
          then (Inl (DeploymentChanged (cu_deploymentDigest existing) deploymentDigest), store)
          else (Inr existing, store)
      | None \<Rightarrow>
          let fresh = \<lparr>cu_height = deployedAt - 1, cu_chainId = chainId, cu_deploymentDigest = deploymentDigest,
                       cu_deployedAt = deployedAt, cu_updatedAt = now\<rparr>
          in (Inr fresh, Some fresh))"

section \<open>Applying an event\<close>

lemma split_hd: "d \<notin> set s \<Longrightarrow> hd (split_on d (s @ d # t)) = s \<and> split_on d (s @ d # t) \<noteq> []"
proof (induction s)
  case (Cons c s)
  then show ?case by (cases "split_on d (s @ d # t)") auto
qed simp

lemma show_int_plain: "CHR '':'' \<notin> set (show_int n)" "js_number (show_int n) = Some n"
proof -
  have d: "\<forall>c\<in>set (show_nat k). is_digit c" "show_nat k \<noteq> []" for k by (rule show_nat_digits, rule show_nat_nonempty)
  have nd: "\<not> is_digit (CHR '':'')" "\<not> is_digit (CHR ''-'')" by (simp_all add: is_digit_def)
  show "CHR '':'' \<notin> set (show_int n)" using d(1) nd by (auto simp: show_int_def)
  show "js_number (show_int n) = Some n"
    using d nd by (auto simp: show_int_def js_number_def list_all_iff)
qed

lemma key_block_eventKey [simp]: "key_block (eventKey r) = Some (ref_blockNumber r)"
  using split_hd [OF show_int_plain(1), of "ref_blockNumber r" "show_int (ref_logIndex r) @ '':'' @ ref_txHash r"]
  by (simp add: key_block_def eventKey_def show_int_plain(2))

lemma patch_applied [simp]: "is_applied (patch i r fn s) = is_applied s"
  by (simp add: patch_def Let_def)

lemma patch_accounts [simp]: "is_accounts (patch i r fn s) = is_accounts s"
  by (simp add: patch_def Let_def)

lemma record_event_simps [simp]:
  "is_applied (record_event a k r d s) = is_applied s" "is_mandates (record_event a k r d s) = is_mandates s"
  by (simp_all add: record_event_def Let_def)

lemma project_applied [simp]: "is_applied (project e s) = is_applied s"
  by (cases e) simp_all

lemma apply_seen: "eventKey (ev_ref e) \<in> set (is_applied s) \<Longrightarrow> apply_event e s = (False, s)"
  by (simp add: apply_event_def Let_def)

lemma apply_applied: "set (is_applied (snd (apply_event e s))) = insert (eventKey (ev_ref e)) (set (is_applied s))"
  by (auto simp: apply_event_def Let_def)

lemma apply_all_simps [simp]:
  "apply_all [] s = s" "apply_all (e # es) s = apply_all es (snd (apply_event e s))"
  "apply_all (es @ fs) s = apply_all fs (apply_all es s)"
  by (simp_all add: apply_all_def)

definition key_of :: "IndexedEvent \<Rightarrow> string" where "key_of e = eventKey (ev_ref e)"

text \<open>The first delivery of each event.\<close>

fun first_deliveries :: "string list \<Rightarrow> IndexedEvent list \<Rightarrow> IndexedEvent list" where
  "first_deliveries seen [] = []"
| "first_deliveries seen (e # es) =
     (if key_of e \<in> set seen then first_deliveries seen es else e # first_deliveries (key_of e # seen) es)"

lemma first_deliveries_apply:
  "set seen = set (is_applied s) \<Longrightarrow> apply_all (first_deliveries seen es) s = apply_all es s"
proof (induction es arbitrary: seen s)
  case (Cons e es)
  show ?case
  proof (cases "key_of e \<in> set seen")
    case True
    then show ?thesis using Cons apply_seen [of e s] by (simp add: key_of_def)
  next
    case False
    have "set (key_of e # seen) = set (is_applied (snd (apply_event e s)))"
      using Cons.prems by (simp add: apply_applied key_of_def)
    from Cons.IH [OF this] False show ?thesis by simp
  qed
qed simp

section \<open>Revocation\<close>

definition revoked :: "IndexerState \<Rightarrow> string \<Rightarrow> bool" where
  "revoked s i \<longleftrightarrow> map_option mp_status (mandate s i) = Some REVOKED"

lemma mandate_patch: "mandate (patch i r fn s) j = (if j = i
   then Some (let c = fn (option_default (mandate s i) (blank_mandate i r))
              in c\<lparr>mp_lastSeenBlock := max (mp_lastSeenBlock c) (ref_blockNumber r)\<rparr>)
   else mandate s j)"
  by (simp add: patch_def mandate_def Let_def)

lemma mandate_record [simp]: "mandate (record_event a k r d s) j = mandate s j"
  by (simp add: mandate_def)

lemma mandate_applied [simp]: "mandate (s\<lparr>is_applied := xs\<rparr>) j = mandate s j"
  by (simp add: mandate_def)

lemma project_revoked: "revoked s i \<Longrightarrow> revoked (project e s) i"
proof (cases e)
  case (MandateRegistered r j owner agent nonce expiresAt)
  assume "revoked s i"
  then show ?thesis by (auto simp: MandateRegistered revoked_def mandate_def registered_def)
qed (auto simp: revoked_def mandate_patch Let_def)

lemma apply_revoked: "revoked s i \<Longrightarrow> revoked (snd (apply_event e s)) i"
  using project_revoked [of "s\<lparr>is_applied := is_applied s @ [eventKey (ev_ref e)]\<rparr>" i e]
  by (simp add: apply_event_def Let_def revoked_def)

lemma apply_all_revoked: "revoked s i \<Longrightarrow> revoked (apply_all es s) i"
  by (induction es arbitrary: s) (simp_all add: apply_revoked)

lemma revoked_status: "revoked s i \<Longrightarrow> statusAt s i now = Some REVOKED"
  by (auto simp: revoked_def statusAt_def mandate_def)

section \<open>Rollback\<close>

lemma filter_update_same:
  "\<forall>(k, v) \<in> set ms. k = i \<longrightarrow> \<not> P (k, v) \<Longrightarrow> \<not> P (i, v') \<Longrightarrow> filter P (AList.update i v' ms) = filter P ms"
  by (induction ms) auto

definition rolled :: "int \<Rightarrow> (string \<times> AccountProjection) list \<Rightarrow> (string \<times> AccountProjection) list" where
  "rolled b ms = filter (\<lambda>(addr, a). ap_events a \<noteq> []) (map (\<lambda>(addr, a). (addr, roll_account b a)) ms)"

lemma rolled_update:
  "(case map_of ms addr of None \<Rightarrow> ap_events (roll_account b a') = [] | Some a \<Rightarrow> roll_account b a' = roll_account b a) \<Longrightarrow>
   rolled b (AList.update addr a' ms) = rolled b ms"
  by (induction ms) (auto simp: rolled_def split: if_splits)

definition in_order :: "IndexerState \<Rightarrow> bool" where
  "in_order s \<longleftrightarrow> (\<forall>(addr, a) \<in> set (is_accounts s). sorted (map chain_order (ap_events a)))"

lemma record_event_accounts:
  obtains v x where "is_accounts (record_event a k r d s) = AList.update a v (is_accounts s)"
    "ap_events v = sort_key chain_order (ap_events (option_default (map_of (is_accounts s) a)
        \<lparr>ap_account = a, ap_events = []\<rparr>) @ [x])"
    "ae_ref x = r" "ap_account v = ap_account (option_default (map_of (is_accounts s) a) \<lparr>ap_account = a, ap_events = []\<rparr>)"
  by (intro that [of "(option_default (map_of (is_accounts s) a) \<lparr>ap_account = a, ap_events = []\<rparr>)
      \<lparr>ap_events := sort_key chain_order (ap_events (option_default (map_of (is_accounts s) a)
        \<lparr>ap_account = a, ap_events = []\<rparr>) @ [\<lparr>ae_kind = k, ae_ref = r, ae_detail = d\<rparr>])\<rparr>"
      "\<lparr>ae_kind = k, ae_ref = r, ae_detail = d\<rparr>"]) (simp_all add: record_event_def Let_def)

lemma record_event_order: "in_order s \<Longrightarrow> in_order (record_event a k r d s)"
proof -
  assume o: "in_order s"
  obtain v x where v: "is_accounts (record_event a k r d s) = AList.update a v (is_accounts s)"
    "ap_events v = sort_key chain_order (ap_events (option_default (map_of (is_accounts s) a)
        \<lparr>ap_account = a, ap_events = []\<rparr>) @ [x])"
    by (rule record_event_accounts)
  have "sorted (map chain_order (ap_events v))" by (simp only: v(2) sorted_sort_key)
  then show ?thesis using o set_update_subset [of a v "is_accounts s"] by (auto simp: in_order_def v(1))
qed

lemma apply_order: "in_order s \<Longrightarrow> in_order (snd (apply_event e s))"
proof -
  assume "in_order s"
  then have "in_order (s\<lparr>is_applied := xs\<rparr>)" for xs by (simp add: in_order_def)
  then have "in_order (project e (s\<lparr>is_applied := xs\<rparr>))" for xs
    by (cases e) (simp_all add: record_event_order, simp_all add: in_order_def)
  then show ?thesis using \<open>in_order s\<close> by (simp add: apply_event_def Let_def)
qed

text \<open>The mandates a rollback to \<open>b\<close> keeps.\<close>

definition older :: "int \<Rightarrow> IndexerState \<Rightarrow> string set" where
  "older b s = {i. \<exists>m. (i, m) \<in> set (is_mandates s) \<and> mp_firstSeenBlock m < b}"

fun mandate_of :: "IndexedEvent \<Rightarrow> string option" where
  "mandate_of (MandateRegistered r i owner agent nonce expiresAt) = Some i"
| "mandate_of (MandatePaused r i) = Some i"
| "mandate_of (MandateResumed r i) = Some i"
| "mandate_of (MandateRevoked r i reason) = Some i"
| "mandate_of (MandateConsumed r i debt notional) = Some i"
| "mandate_of (DelegatedExecution r account agent i action amount) = None"

lemma project_mandate:
  assumes "mandate_of e = Some i"
  obtains m where "is_mandates (project e s) = AList.update i m (is_mandates s)"
    "is_accounts (project e s) = is_accounts s"
    "mp_firstSeenBlock m = (case mandate s i of None \<Rightarrow> ref_blockNumber (ev_ref e)
       | Some m0 \<Rightarrow> mp_firstSeenBlock m0)
     \<or> mp_firstSeenBlock m = (case mandate s i of None \<Rightarrow> ref_blockNumber (ev_ref e)
       | Some m0 \<Rightarrow> min (mp_firstSeenBlock m0) (ref_blockNumber (ev_ref e)))"
proof (cases e)
  case (MandateRegistered r j owner agent nonce expiresAt)
  then show thesis using assms
    by (intro that [of "registered r i owner agent nonce expiresAt (map_of (is_mandates s) i)"])
      (auto simp: registered_def mandate_def split: option.splits)
qed (use assms in \<open>auto simp: patch_def Let_def mandate_def blank_mandate_def intro!: that split: option.splits\<close>)

lemma project_account:
  assumes "mandate_of e = None"
  obtains account kind detail where "project e s = record_event account kind (ev_ref e) detail s"
  using assms by (cases e) auto

lemma rollbackTo_parts:
  "is_mandates (snd (rollbackTo b s)) = filter (\<lambda>(i, m). \<not> mp_firstSeenBlock m \<ge> b) (is_mandates s)"
  "is_accounts (snd (rollbackTo b s)) = rolled b (is_accounts s)"
  "is_applied (snd (rollbackTo b s)) = filter (\<lambda>k. \<not> key_reached b k) (is_applied s)"
  by (simp_all add: rollbackTo_def rolled_def)

lemma key_reached_key [simp]: "key_reached b (eventKey r) \<longleftrightarrow> b \<le> ref_blockNumber r"
  by (simp add: key_reached_def)

lemma sort_key_sorted: "sorted (map f xs) \<Longrightarrow> sort_key f xs = xs"
  by (simp add: sorted_sort_id sort_key_id_if_sorted)

text \<open>Undoing an event at or above the rollback block that touches no older mandate.\<close>

lemma older_update:
  assumes "mandate s i = None \<or> i \<notin> older b s" "is_mandates s' = AList.update i m (is_mandates s)" "b \<le> mp_firstSeenBlock m"
  shows "filter (\<lambda>(i, m). \<not> mp_firstSeenBlock m \<ge> b) (is_mandates s') = filter (\<lambda>(i, m). \<not> mp_firstSeenBlock m \<ge> b) (is_mandates s)"
    and "older b s' = older b s"
proof -
  have young: "\<not> (k = i \<and> mp_firstSeenBlock v < b)" if "(k, v) \<in> set (is_mandates s)" for k v
    using that assms(1) by (auto simp: older_def mandate_def map_of_eq_None_iff image_iff)
  then show f: "filter (\<lambda>(i, m). \<not> mp_firstSeenBlock m \<ge> b) (is_mandates s') = filter (\<lambda>(i, m). \<not> mp_firstSeenBlock m \<ge> b) (is_mandates s)"
    unfolding assms(2) using assms(3) by (intro filter_update_same) fastforce+
  have o: "older b t = fst ` set (filter (\<lambda>(i, m). \<not> mp_firstSeenBlock m \<ge> b) (is_mandates t))" for t
    by (force simp: older_def)
  show "older b s' = older b s" unfolding o f ..
qed

lemma roll_record:
  assumes "in_order s" "b \<le> ref_blockNumber r"
  shows "rolled b (is_accounts (record_event a k r d s)) = rolled b (is_accounts s)"
proof -
  let ?old = "option_default (map_of (is_accounts s) a) \<lparr>ap_account = a, ap_events = []\<rparr>"
  obtain v x where v: "is_accounts (record_event a k r d s) = AList.update a v (is_accounts s)"
    "ap_events v = sort_key chain_order (ap_events ?old @ [x])" "ae_ref x = r" "ap_account v = ap_account ?old"
    by (rule record_event_accounts)
  have o: "sorted (map chain_order (ap_events ?old))"
    using assms(1) by (cases "map_of (is_accounts s) a") (auto simp: in_order_def dest: map_of_SomeD)
  let ?P = "\<lambda>e. ref_blockNumber (ae_ref e) < b"
  have "filter ?P (ap_events v) = sort_key chain_order (filter ?P (ap_events ?old))"
    using assms(2) v(3) by (simp add: v(2) filter_sort)
  also have "\<dots> = filter ?P (ap_events ?old)"
    using o by (intro sort_key_sorted sorted_filter)
  finally have "roll_account b v = roll_account b ?old"
    using v(4) by (simp add: roll_account_def)
  then show ?thesis unfolding v(1)
    by (intro rolled_update) (cases "map_of (is_accounts s) a"; simp add: roll_account_def)
qed

lemma undo_event:
  assumes ord: "in_order s" and b: "b \<le> ref_blockNumber (ev_ref e)"
    and new: "\<forall>i. mandate_of e = Some i \<longrightarrow> i \<notin> older b s"
  shows "snd (rollbackTo b (snd (apply_event e s))) = snd (rollbackTo b s)"
    and "older b (snd (apply_event e s)) = older b s"
proof -
  let ?t = "s\<lparr>is_applied := is_applied s @ [eventKey (ev_ref e)]\<rparr>"
  have t: "older b ?t = older b s" "in_order ?t" using ord by (simp_all add: older_def in_order_def)
  have p: "snd (rollbackTo b (project e ?t)) = snd (rollbackTo b s) \<and> older b (project e ?t) = older b s"
  proof (cases "mandate_of e")
    case None
    obtain a k d where r: "project e ?t = record_event a k (ev_ref e) d ?t" by (rule project_account [OF None])
    have "is_accounts ?t = is_accounts s" by simp
    then have "rolled b (is_accounts (project e ?t)) = rolled b (is_accounts s)"
      unfolding r using roll_record [OF t(2) b] by metis
    moreover have "older b (project e ?t) = older b s" by (simp add: r older_def)
    ultimately show ?thesis
      by (intro conjI IndexerState.equality) (simp_all add: rollbackTo_parts r b)
  next
    case (Some i)
    have n: "i \<notin> older b ?t" using new Some t(1) by simp
    obtain m where m: "is_mandates (project e ?t) = AList.update i m (is_mandates ?t)"
      "is_accounts (project e ?t) = is_accounts ?t"
      "mp_firstSeenBlock m = (case mandate ?t i of None \<Rightarrow> ref_blockNumber (ev_ref e) | Some m0 \<Rightarrow> mp_firstSeenBlock m0)
       \<or> mp_firstSeenBlock m = (case mandate ?t i of None \<Rightarrow> ref_blockNumber (ev_ref e)
       | Some m0 \<Rightarrow> min (mp_firstSeenBlock m0) (ref_blockNumber (ev_ref e)))"
      by (rule project_mandate [OF Some])
    have "b \<le> mp_firstSeenBlock m0" if "mandate ?t i = Some m0" for m0
      using n that map_of_SomeD by (fastforce simp: older_def mandate_def)
    then have "b \<le> mp_firstSeenBlock m" using m(3) b by (cases "mandate ?t i") auto
    note o = older_update [OF disjI2 [OF n] m(1) this]
    have "snd (rollbackTo b (project e ?t)) = snd (rollbackTo b s)"
      using o(1) m(2) b by (intro IndexerState.equality) (simp_all add: rollbackTo_parts)
    moreover have "older b (project e ?t) = older b s" using o(2) t(1) by simp
    ultimately show ?thesis by blast
  qed
  then show "snd (rollbackTo b (snd (apply_event e s))) = snd (rollbackTo b s)"
    "older b (snd (apply_event e s)) = older b s"
    by (simp_all add: apply_event_def Let_def)
qed

lemma undo_events:
  "in_order s \<Longrightarrow> list_all (\<lambda>e. b \<le> ref_blockNumber (ev_ref e)) es \<Longrightarrow>
   list_all (\<lambda>e. \<forall>i. mandate_of e = Some i \<longrightarrow> i \<notin> older b s) es \<Longrightarrow>
   snd (rollbackTo b (apply_all es s)) = snd (rollbackTo b s)"
proof (induction es arbitrary: s)
  case (Cons e es)
  have u: "snd (rollbackTo b (snd (apply_event e s))) = snd (rollbackTo b s)" "older b (snd (apply_event e s)) = older b s"
    using Cons.prems by (intro undo_event; simp)+
  show ?case using Cons.IH [of "snd (apply_event e s)"] Cons.prems apply_order [of s e] u by simp
qed simp

section \<open>A projection below the rollback block\<close>

definition below :: "int \<Rightarrow> IndexerState \<Rightarrow> bool" where
  "below b s \<longleftrightarrow> in_order s \<and> (\<forall>(i, m) \<in> set (is_mandates s). mp_firstSeenBlock m < b)
     \<and> (\<forall>(addr, a) \<in> set (is_accounts s). ap_events a \<noteq> [] \<and> (\<forall>e\<in>set (ap_events a). ref_blockNumber (ae_ref e) < b))
     \<and> (\<forall>k\<in>set (is_applied s). \<not> key_reached b k)"

lemma below_start: "below b no_projections"
  by (simp add: below_def no_projections_def in_order_def)

lemma below_apply:
  assumes s: "below b s" and e: "ref_blockNumber (ev_ref e) < b"
  shows "below b (snd (apply_event e s))"
proof (cases "eventKey (ev_ref e) \<in> set (is_applied s)")
  case True
  then show ?thesis using s apply_seen by simp
next
  case False
  let ?t = "s\<lparr>is_applied := is_applied s @ [eventKey (ev_ref e)]\<rparr>"
  have t: "below b ?t" using s e by (auto simp: below_def in_order_def)
  have ord: "in_order (snd (apply_event e s))" using s apply_order by (simp add: below_def)
  have r: "snd (apply_event e s) = project e ?t" using False by (simp add: apply_event_def Let_def)
  show ?thesis
  proof (cases "mandate_of e")
    case None
    obtain a k d where p: "project e ?t = record_event a k (ev_ref e) d ?t" by (rule project_account [OF None])
    obtain v x where v: "is_accounts (record_event a k (ev_ref e) d ?t) = AList.update a v (is_accounts ?t)"
      "ap_events v = sort_key chain_order (ap_events (option_default (map_of (is_accounts ?t) a)
          \<lparr>ap_account = a, ap_events = []\<rparr>) @ [x])" "ae_ref x = ev_ref e"
      by (rule record_event_accounts)
    have "\<forall>y\<in>set (ap_events (option_default (map_of (is_accounts ?t) a) \<lparr>ap_account = a, ap_events = []\<rparr>)).
        ref_blockNumber (ae_ref y) < b"
      using t by (cases "map_of (is_accounts ?t) a") (auto simp: below_def dest!: map_of_SomeD)
    then have "ap_events v \<noteq> [] \<and> (\<forall>y\<in>set (ap_events v). ref_blockNumber (ae_ref y) < b)"
      using v(3) e by (auto simp: v(2) simp flip: length_0_conv)
    moreover have "p = (a, v) \<or> p \<in> set (is_accounts ?t)" if "p \<in> set (AList.update a v (is_accounts ?t))" for p
      using that set_update_subset by fastforce
    ultimately have "\<forall>(addr, a) \<in> set (AList.update a v (is_accounts ?t)).
        ap_events a \<noteq> [] \<and> (\<forall>e\<in>set (ap_events a). ref_blockNumber (ae_ref e) < b)"
      using t unfolding below_def by blast
    then show ?thesis using t ord unfolding r p by (simp add: below_def v(1))
  next
    case (Some i)
    obtain m where m: "is_mandates (project e ?t) = AList.update i m (is_mandates ?t)"
      "is_accounts (project e ?t) = is_accounts ?t"
      "mp_firstSeenBlock m = (case mandate ?t i of None \<Rightarrow> ref_blockNumber (ev_ref e) | Some m0 \<Rightarrow> mp_firstSeenBlock m0)
       \<or> mp_firstSeenBlock m = (case mandate ?t i of None \<Rightarrow> ref_blockNumber (ev_ref e)
       | Some m0 \<Rightarrow> min (mp_firstSeenBlock m0) (ref_blockNumber (ev_ref e)))"
      by (rule project_mandate [OF Some])
    have "mp_firstSeenBlock m0 < b" if "mandate ?t i = Some m0" for m0
      using t that by (auto simp: below_def mandate_def dest!: map_of_SomeD)
    then have "mp_firstSeenBlock m < b" using m(3) e by (cases "mandate ?t i") auto
    then show ?thesis
      using t ord set_update_subset [of i m "is_mandates ?t"] unfolding r
      by (auto simp: below_def m(1,2))
  qed
qed

lemma below_apply_all:
  "below b s \<Longrightarrow> list_all (\<lambda>e. ref_blockNumber (ev_ref e) < b) es \<Longrightarrow> below b (apply_all es s)"
  by (induction es arbitrary: s) (simp_all add: below_apply)

lemma rollback_below:
  assumes "below b s"
  shows "snd (rollbackTo b s) = s"
proof (rule IndexerState.equality)
  have "filter (\<lambda>(i, m). \<not> mp_firstSeenBlock m \<ge> b) (is_mandates s) = is_mandates s"
    using assms by (auto simp: below_def intro!: filter_True)
  then show "is_mandates (snd (rollbackTo b s)) = is_mandates s" by (simp add: rollbackTo_parts)
  have "map (\<lambda>(addr, a). (addr, roll_account b a)) (is_accounts s) = is_accounts s"
  proof (rule map_idI)
    fix p assume "p \<in> set (is_accounts s)"
    then have "filter (\<lambda>e. ref_blockNumber (ae_ref e) < b) (ap_events (snd p)) = ap_events (snd p)"
      using assms by (intro filter_True) (auto simp: below_def)
    then show "(case p of (addr, a) \<Rightarrow> (addr, roll_account b a)) = p" by (cases p) (simp add: roll_account_def)
  qed
  moreover have "filter (\<lambda>(addr, a). ap_events a \<noteq> []) (is_accounts s) = is_accounts s"
    using assms by (auto simp: below_def intro!: filter_True)
  ultimately show "is_accounts (snd (rollbackTo b s)) = is_accounts s" by (simp add: rollbackTo_parts rolled_def)
  show "is_applied (snd (rollbackTo b s)) = is_applied s"
    using assms by (auto simp: below_def rollbackTo_parts intro!: filter_True)
qed simp

section \<open>What a rollback leaves behind\<close>

text \<open>
  A mandate first seen below the rollback block is kept as it is, with what the orphaned blocks did to
  it: a revocation that the chain no longer has still counts, and the event that made it is forgotten.
\<close>

lemma rollback_keeps_orphaned_revocation:
  "statusAt (snd (rollbackTo 5 (apply_all
     [MandateRegistered \<lparr>ref_blockNumber = 1, ref_logIndex = 0, ref_txHash = ''0xa''\<rparr> ''m'' ''o'' ''g'' ''0'' 0,
      MandateRevoked \<lparr>ref_blockNumber = 10, ref_logIndex = 0, ref_txHash = ''0xb''\<rparr> ''m'' ''lost'']
     no_projections))) ''m'' 0 = Some REVOKED"
  "is_applied (snd (rollbackTo 5 (apply_all
     [MandateRegistered \<lparr>ref_blockNumber = 1, ref_logIndex = 0, ref_txHash = ''0xa''\<rparr> ''m'' ''o'' ''g'' ''0'' 0,
      MandateRevoked \<lparr>ref_blockNumber = 10, ref_logIndex = 0, ref_txHash = ''0xb''\<rparr> ''m'' ''lost'']
     no_projections))) = [''1:0:0xa'']"
  by code_simp+

section \<open>The cursor\<close>

lemma resume_inv:
  assumes "resume chainId digest deployedAt now store = (Inr c, store')"
  shows "cu_chainId c = chainId \<and> cu_deploymentDigest c = digest \<and> store' = Some c
    \<and> (store = Some c \<or> store = None \<and> cu_height c = deployedAt - 1)"
  using assms by (auto simp: resume_def Let_def split: option.splits if_splits)

section \<open>Properties\<close>

text \<open>
  Applying an event twice changes nothing. Whatever deliveries repeat, wherever they come, the
  projections are those of the first delivery of each event; and each repeated delivery reports that
  it was already applied.
\<close>

theorem projection_idempotent:
  "apply_all es no_projections = apply_all (first_deliveries [] es) no_projections
    \<and> (key_of e \<in> key_of ` set es \<longrightarrow>
         apply_event e (apply_all es no_projections) = (False, apply_all es no_projections))"
proof -
  have "set (is_applied (apply_all es s)) = key_of ` set es \<union> set (is_applied s)" for s
    by (induction es arbitrary: s) (auto simp: apply_applied key_of_def)
  then have "set (is_applied (apply_all es no_projections)) = key_of ` set es"
    by (simp add: no_projections_def)
  then show ?thesis
    using first_deliveries_apply [of "[]" no_projections es] apply_seen [of e "apply_all es no_projections"]
    by (auto simp: no_projections_def key_of_def)
qed

theorem projection_idempotent_witness:
  "apply_event (MandatePaused \<lparr>ref_blockNumber = 3, ref_logIndex = 0, ref_txHash = ''0xa''\<rparr> ''m'')
     (apply_all [MandatePaused \<lparr>ref_blockNumber = 3, ref_logIndex = 0, ref_txHash = ''0xa''\<rparr> ''m''] no_projections)
   = (False, apply_all [MandatePaused \<lparr>ref_blockNumber = 3, ref_logIndex = 0, ref_txHash = ''0xa''\<rparr> ''m'']
       no_projections)"
  using projection_idempotent [of "[MandatePaused \<lparr>ref_blockNumber = 3, ref_logIndex = 0, ref_txHash = ''0xa''\<rparr> ''m'']"
    "MandatePaused \<lparr>ref_blockNumber = 3, ref_logIndex = 0, ref_txHash = ''0xa''\<rparr> ''m''"] by simp

text \<open>
  Revocation is final. Once a revocation of a mandate has been applied, no sequence of further
  events makes it anything but revoked, its own registration arriving late, a pause or a resume
  included, and its status reads as revoked at every time.
\<close>

theorem revocation_final:
  assumes "apply_event (MandateRevoked r i reason) s = (True, s')"
  shows "statusAt (apply_all es s') i now = Some REVOKED"
proof -
  have "revoked s' i"
    using assms by (auto simp: apply_event_def Let_def revoked_def mandate_patch split: if_splits)
  then show ?thesis by (intro revoked_status apply_all_revoked)
qed

theorem revocation_final_witness:
  "statusAt (apply_all [MandateRegistered \<lparr>ref_blockNumber = 1, ref_logIndex = 0, ref_txHash = ''0xa''\<rparr>
       ''m'' ''o'' ''g'' ''0'' 0]
     (snd (apply_event (MandateRevoked \<lparr>ref_blockNumber = 2, ref_logIndex = 0, ref_txHash = ''0xb''\<rparr> ''m'' ''lost'')
       no_projections))) ''m'' 9 = Some REVOKED"
proof -
  obtain s' where "apply_event (MandateRevoked \<lparr>ref_blockNumber = 2, ref_logIndex = 0, ref_txHash = ''0xb''\<rparr>
      ''m'' ''lost'') no_projections = (True, s')"
    by (simp add: apply_event_def no_projections_def)
  from revocation_final [OF this, of "[MandateRegistered \<lparr>ref_blockNumber = 1, ref_logIndex = 0, ref_txHash = ''0xa''\<rparr>
       ''m'' ''o'' ''g'' ''0'' 0]" 9] this show ?thesis by simp
qed

text \<open>
  C31: a rollback undoes the orphaned blocks for what they first showed. After events below a block and
  then events at or above it, rolling back to that block gives exactly the projections of the events
  below it, provided the later events touch only mandates the earlier ones had not shown: the
  mandates, account histories and applied keys the later ones added are all gone, in whatever order
  they came.
\<close>

theorem rollback_undoes:
  assumes "list_all (\<lambda>e. ref_blockNumber (ev_ref e) < b) es" "list_all (\<lambda>e. b \<le> ref_blockNumber (ev_ref e)) fs"
    and "list_all (\<lambda>e. mandate_of e = None \<or> mandate (apply_all es no_projections) (the (mandate_of e)) = None) fs"
  shows "snd (rollbackTo b (apply_all (es @ fs) no_projections)) = apply_all es no_projections"
proof -
  let ?s = "apply_all es no_projections"
  have s: "below b ?s" by (rule below_apply_all [OF below_start assms(1)])
  have "i \<notin> older b ?s" if "mandate ?s i = None" for i
    using that by (auto simp: older_def mandate_def map_of_eq_None_iff image_iff)
  then have "list_all (\<lambda>e. \<forall>i. mandate_of e = Some i \<longrightarrow> i \<notin> older b ?s) fs"
    using assms(3) by (auto simp: list_all_iff)
  then show ?thesis
    using undo_events [OF _ assms(2)] s rollback_below [OF s] by (simp add: below_def)
qed

theorem rollback_undoes_witness:
  "snd (rollbackTo 5 (apply_all ([MandateRegistered \<lparr>ref_blockNumber = 1, ref_logIndex = 0, ref_txHash = ''0xa''\<rparr>
        ''m'' ''o'' ''g'' ''0'' 0] @
      [MandateRevoked \<lparr>ref_blockNumber = 10, ref_logIndex = 0, ref_txHash = ''0xb''\<rparr> ''n'' ''lost'']) no_projections))
   = apply_all [MandateRegistered \<lparr>ref_blockNumber = 1, ref_logIndex = 0, ref_txHash = ''0xa''\<rparr>
        ''m'' ''o'' ''g'' ''0'' 0] no_projections"
  by (rule rollback_undoes)
    (simp_all add: apply_event_def no_projections_def mandate_def)

end
