(* ===== verification/Indexer_Facility.thy ===== *)
theory Indexer_Facility
  imports Evidence_Candidate
begin

text \<open>
  The indexer's view of instruments and facilities: the binding chain of
  \<open>packages/schemas/src/instrument.ts\<close> (\<open>resolveInstrument\<close>), \<open>services/indexer/src/instrument.ts\<close>, and
  the positions and their aggregate of \<open>facility.ts\<close>. The artifacts are given parsed; the hash of the
  viem package is the argument \<open>keccak\<close>.
\<close>

section \<open>Instruments\<close>

record InstrumentBinding =
  ib_bindingId :: string
  ib_legacyAssetId :: string
  ib_legacyAssetIdKind :: string
  ib_instrumentId :: string
  ib_boundAt :: int
  ib_boundAtBlock :: int
  ib_boundBy :: string
  ib_boundAtDomain :: string
  ib_deploymentDigest :: string
  ib_supersedes :: string
  ib_note :: string

record ResolvedInstrument =
  ri_legacyAssetId :: string
  ri_instrumentId :: string
  ri_chain :: "InstrumentBinding list"
  ri_active :: InstrumentBinding

definition binding_chain :: "InstrumentBinding list \<Rightarrow> string \<Rightarrow> InstrumentBinding list" where
  "binding_chain bindings want = sort_key ib_boundAt (filter (\<lambda>b. toLowerCase (ib_legacyAssetId b) = want) bindings)"

definition resolveInstrument ::
  "InstrumentBinding list \<Rightarrow> string \<Rightarrow> int option \<Rightarrow> ResolvedInstrument option" where
  "resolveInstrument bindings legacyAssetId at =
     (let want = toLowerCase legacyAssetId; chain = binding_chain bindings want
      in if chain = [] then None
         else let active = (case at of
                     None \<Rightarrow> last chain
                   | Some t \<Rightarrow> let eligible = filter (\<lambda>b. ib_boundAt b \<le> t) chain
                             in if eligible \<noteq> [] then last eligible else hd chain)
              in Some \<lparr>ri_legacyAssetId = want, ri_instrumentId = ib_instrumentId active, ri_chain = chain,
                       ri_active = active\<rparr>)"

record InstrumentRecord =
  ir_instrumentId :: string
  ir_domainId :: string
  ir_caip2 :: string
  ir_issuerId :: string
  ir_issuerLegalName :: string
  ir_instrumentStandard :: string
  ir_instrumentVersion :: int
  ir_underlyingReferenceId :: string
  ir_accountingMode :: string

record InstrumentBindings =
  bs_bindings :: "InstrumentBinding list"
  bs_byInstrumentId :: "(string \<times> InstrumentRecord) list"

definition instrument_bindings :: "InstrumentRecord list \<Rightarrow> InstrumentBinding list \<Rightarrow> InstrumentBindings" where
  "instrument_bindings instruments bindings =
     \<lparr>bs_bindings = bindings,
      bs_byInstrumentId = foldl (\<lambda>m i. AList.update (toLowerCase (ir_instrumentId i)) i m) [] instruments\<rparr>"

record ResolvedAssetIdentity =
  ra_legacyAssetId :: string
  ra_instrumentId :: string
  ra_binding :: InstrumentBinding
  ra_chain :: "InstrumentBinding list"
  ra_instrument :: InstrumentRecord
  ra_caip2 :: string

definition instrument :: "InstrumentBindings \<Rightarrow> string \<Rightarrow> InstrumentRecord option" where
  "instrument bs instrumentId = map_of (bs_byInstrumentId bs) (toLowerCase instrumentId)"

definition homeDomain :: "InstrumentBindings \<Rightarrow> string \<Rightarrow> string option" where
  "homeDomain bs instrumentId = map_option ir_caip2 (instrument bs instrumentId)"

definition all_instruments :: "InstrumentBindings \<Rightarrow> InstrumentRecord list" where
  "all_instruments bs = map_values (bs_byInstrumentId bs)"

definition resolve_asset :: "InstrumentBindings \<Rightarrow> string \<Rightarrow> int option \<Rightarrow> ResolvedAssetIdentity option" where
  "resolve_asset bs assetId at =
     (case resolveInstrument (bs_bindings bs) assetId at of
        None \<Rightarrow> None
      | Some r \<Rightarrow> (case instrument bs (ri_instrumentId r) of
            None \<Rightarrow> None
          | Some i \<Rightarrow> Some \<lparr>ra_legacyAssetId = ri_legacyAssetId r, ra_instrumentId = ri_instrumentId r,
                          ra_binding = ri_active r, ra_chain = ri_chain r, ra_instrument = i,
                          ra_caip2 = ir_caip2 i\<rparr>))"

section \<open>Facilities and positions\<close>

datatype Finality = safe | stale | unknown

record FacilityDomainView =
  fd_caip2 :: string
  fd_label :: string
  fd_environment :: string
  fd_safeDepthBlocks :: int
  fd_status :: string

record FacilityView =
  fv_facilityId :: string
  fv_facilityType :: string
  fv_homeDomain :: string
  fv_controller :: "string option"
  fv_settlementAssetId :: string
  fv_status :: string
  fv_discriminator :: string

text \<open>A facility and a domain as the artifact lists them.\<close>

record FacilityRow =
  fr_facilityId :: string
  fr_facilityType :: string
  fr_homeDomainCaip2 :: string
  fr_controllerAddress :: "string option"
  fr_controllerNativeId :: "string option"
  fr_settlementAssetId :: string
  fr_status :: string
  fr_discriminator :: string

record FacilityDescriptors =
  ds_byFacilityId :: "(string \<times> FacilityView) list"
  ds_byDomain :: "(string \<times> FacilityDomainView) list"

definition facility_view :: "FacilityRow \<Rightarrow> FacilityView" where
  "facility_view f = \<lparr>fv_facilityId = fr_facilityId f, fv_facilityType = fr_facilityType f,
     fv_homeDomain = fr_homeDomainCaip2 f,
     fv_controller = option_or (fr_controllerAddress f) (fr_controllerNativeId f),
     fv_settlementAssetId = fr_settlementAssetId f, fv_status = fr_status f,
     fv_discriminator = fr_discriminator f\<rparr>"

definition facility_descriptors :: "FacilityDomainView list \<Rightarrow> FacilityRow list \<Rightarrow> FacilityDescriptors" where
  "facility_descriptors domains facilities =
     \<lparr>ds_byFacilityId = foldl (\<lambda>m f. AList.update (toLowerCase (fr_facilityId f)) (facility_view f) m) [] facilities,
      ds_byDomain = foldl (\<lambda>m d. AList.update (fd_caip2 d) d m) [] domains\<rparr>"

definition facility :: "FacilityDescriptors \<Rightarrow> string \<Rightarrow> FacilityView option" where
  "facility ds facilityId = map_of (ds_byFacilityId ds) (toLowerCase facilityId)"

definition facility_domain :: "FacilityDescriptors \<Rightarrow> string \<Rightarrow> FacilityDomainView option" where
  "facility_domain ds caip2 = map_of (ds_byDomain ds) caip2"

definition facilities :: "FacilityDescriptors \<Rightarrow> FacilityView list" where
  "facilities ds = map_values (ds_byFacilityId ds)"

record PositionInstrument =
  pi_legacyAssetId :: string
  pi_instrumentId :: "string option"
  pi_homeDomain :: "string option"
  pi_recognizedUsd18 :: int

record FacilityPositionView =
  fp_facilityId :: string
  fp_positionId :: string
  fp_homeDomain :: string
  fp_controller :: "string option"
  fp_instruments :: "PositionInstrument list"
  fp_observedAtBlock :: int
  fp_finality :: Finality
  fp_usableRestricted :: bool

definition facilityPositionId :: "(abi_value list \<Rightarrow> string) \<Rightarrow> string \<Rightarrow> string \<Rightarrow> string" where
  "facilityPositionId keccak facilityId accountId = keccak [ABI_bytes32 facilityId, ABI_bytes32 accountId]"

text \<open>An unknown domain has an infinite safe depth.\<close>

definition finality_at :: "FacilityDomainView option \<Rightarrow> int \<Rightarrow> int option \<Rightarrow> Finality" where
  "finality_at dv observedAtBlock headBlock = (case headBlock of
       None \<Rightarrow> unknown
     | Some head \<Rightarrow> if (case dv of None \<Rightarrow> False | Some d \<Rightarrow> head - observedAtBlock \<ge> fd_safeDepthBlocks d)
                  then safe else stale)"

definition positionView ::
  "(abi_value list \<Rightarrow> string) \<Rightarrow> FacilityDescriptors \<Rightarrow> string \<Rightarrow> string \<Rightarrow> (string \<times> int) list \<Rightarrow>
   InstrumentBindings \<Rightarrow> int \<Rightarrow> int option \<Rightarrow> FacilityPositionView option" where
  "positionView keccak ds facilityId accountId heldAssets bindings observedAtBlock headBlock =
     (case facility ds facilityId of
        None \<Rightarrow> None
      | Some f \<Rightarrow>
          let finality = finality_at (facility_domain ds (fv_homeDomain f)) observedAtBlock headBlock
          in Some \<lparr>fp_facilityId = fv_facilityId f,
                   fp_positionId = facilityPositionId keccak (fv_facilityId f) accountId,
                   fp_homeDomain = fv_homeDomain f, fp_controller = fv_controller f,
                   fp_instruments = map (\<lambda>(asset, recognized).
                     let r = resolve_asset bindings asset None
                     in \<lparr>pi_legacyAssetId = asset, pi_instrumentId = map_option ra_instrumentId r,
                         pi_homeDomain = map_option ra_caip2 r, pi_recognizedUsd18 = recognized\<rparr>) heldAssets,
                   fp_observedAtBlock = observedAtBlock, fp_finality = finality,
                   fp_usableRestricted = (finality \<noteq> safe)\<rparr>)"

record DomainLine =
  dm_homeDomain :: string
  dm_finality :: Finality
  dm_recognizedUsd18 :: int
  dm_counted :: bool

record PortfolioAggregate =
  pg_usableRecognizedUsd18 :: int
  pg_restricted :: "FacilityPositionView list"
  pg_perDomain :: "DomainLine list"
  pg_note :: string

definition position_value :: "FacilityPositionView \<Rightarrow> int" where
  "position_value p = foldl (\<lambda>s i. s + pi_recognizedUsd18 i) 0 (fp_instruments p)"

definition aggregate_step ::
  "int \<times> FacilityPositionView list \<times> DomainLine list \<Rightarrow> FacilityPositionView \<Rightarrow>
   int \<times> FacilityPositionView list \<times> DomainLine list" where
  "aggregate_step acc p = (case acc of (usable, restricted, perDomain) \<Rightarrow>
     let value = position_value p; counted = (fp_finality p = safe);
         line = \<lparr>dm_homeDomain = fp_homeDomain p, dm_finality = fp_finality p, dm_recognizedUsd18 = value,
                 dm_counted = counted\<rparr>
     in if counted then (usable + value, restricted, perDomain @ [line])
        else (usable, restricted @ [p], perDomain @ [line]))"

definition aggregatePortfolio :: "FacilityPositionView list \<Rightarrow> PortfolioAggregate" where
  "aggregatePortfolio positions =
     (case foldl aggregate_step (0, [], []) positions of (usable, restricted, perDomain) \<Rightarrow>
        \<lparr>pg_usableRecognizedUsd18 = usable, pg_restricted = restricted, pg_perDomain = perDomain,
         pg_note = (if length restricted = 0 then ''all domain state is confirmed''
           else show_nat (length restricted)
                @ '' position(s) on stale or unreachable domains are shown but excluded from usable capital'')\<rparr>)"

section \<open>Aggregation\<close>

lemma position_value_sum: "position_value p = sum_list (map pi_recognizedUsd18 (fp_instruments p))"
proof -
  have "foldl (\<lambda>s i. s + pi_recognizedUsd18 i) k xs = k + sum_list (map pi_recognizedUsd18 xs)"
    for k and xs :: "PositionInstrument list"
    by (induction xs arbitrary: k) simp_all
  then show ?thesis by (simp add: position_value_def)
qed

lemma aggregate_sum:
  "pg_usableRecognizedUsd18 (aggregatePortfolio ps)
     = sum_list (map position_value (filter (\<lambda>p. fp_finality p = safe) ps))"
  "pg_restricted (aggregatePortfolio ps) = filter (\<lambda>p. fp_finality p \<noteq> safe) ps"
  "map dm_recognizedUsd18 (pg_perDomain (aggregatePortfolio ps)) = map position_value ps"
  "map dm_counted (pg_perDomain (aggregatePortfolio ps)) = map (\<lambda>p. fp_finality p = safe) ps"
proof -
  have f: "foldl aggregate_step (u, rs, ls) ps
      = (u + sum_list (map position_value (filter (\<lambda>p. fp_finality p = safe) ps)),
         rs @ filter (\<lambda>p. fp_finality p \<noteq> safe) ps,
         ls @ map (\<lambda>p. \<lparr>dm_homeDomain = fp_homeDomain p, dm_finality = fp_finality p,
            dm_recognizedUsd18 = position_value p, dm_counted = (fp_finality p = safe)\<rparr>) ps)" for u rs ls
    by (induction ps arbitrary: u rs ls) (auto simp: aggregate_step_def Let_def)
  show "pg_usableRecognizedUsd18 (aggregatePortfolio ps)
     = sum_list (map position_value (filter (\<lambda>p. fp_finality p = safe) ps))"
    "pg_restricted (aggregatePortfolio ps) = filter (\<lambda>p. fp_finality p \<noteq> safe) ps"
    "map dm_recognizedUsd18 (pg_perDomain (aggregatePortfolio ps)) = map position_value ps"
    "map dm_counted (pg_perDomain (aggregatePortfolio ps)) = map (\<lambda>p. fp_finality p = safe) ps"
    by (simp_all add: aggregatePortfolio_def f comp_def)
qed

section \<open>Properties\<close>

text \<open>
  A stale domain is never counted. A position built against a facility counts towards usable
  capital, with exactly the sum of the holdings' recognised values, when the head is known, the home
  domain is listed and the observation is at least that domain's safe depth below the head; in every
  other case it is listed as restricted and the usable capital is the one without it.
\<close>

theorem stale_position_not_counted:
  assumes "positionView keccak ds facilityId accountId held bindings observed head = Some p"
  shows "if (\<exists>f d h. facility ds facilityId = Some f \<and> facility_domain ds (fv_homeDomain f) = Some d
              \<and> head = Some h \<and> fd_safeDepthBlocks d \<le> h - observed)
     then pg_usableRecognizedUsd18 (aggregatePortfolio (ps @ p # qs))
            = pg_usableRecognizedUsd18 (aggregatePortfolio (ps @ qs)) + sum_list (map snd held)
        \<and> pg_restricted (aggregatePortfolio (ps @ p # qs)) = pg_restricted (aggregatePortfolio (ps @ qs))
     else pg_usableRecognizedUsd18 (aggregatePortfolio (ps @ p # qs))
            = pg_usableRecognizedUsd18 (aggregatePortfolio (ps @ qs))
        \<and> p \<in> set (pg_restricted (aggregatePortfolio (ps @ p # qs))) \<and> fp_usableRestricted p"
proof -
  obtain f where f: "facility ds facilityId = Some f"
    and fin: "fp_finality p = finality_at (facility_domain ds (fv_homeDomain f)) observed head"
    and r: "fp_usableRestricted p \<longleftrightarrow> fp_finality p \<noteq> safe"
    and i: "map pi_recognizedUsd18 (fp_instruments p) = map snd held"
    using assms by (auto simp: positionView_def Let_def comp_def split_def split: option.splits)
  let ?held = "\<exists>f d h. facility ds facilityId = Some f \<and> facility_domain ds (fv_homeDomain f) = Some d
      \<and> head = Some h \<and> fd_safeDepthBlocks d \<le> h - observed"
  have c: "?held \<longleftrightarrow> fp_finality p = safe"
    by (auto simp: fin f finality_at_def split: option.splits)
  show ?thesis unfolding c by (simp add: aggregate_sum position_value_sum i r)
qed

definition demo_descriptors :: FacilityDescriptors where
  "demo_descriptors = facility_descriptors
     [\<lparr>fd_caip2 = ''eip155:196'', fd_label = ''X'', fd_environment = ''mainnet'', fd_safeDepthBlocks = 64, fd_status = ''ACTIVE''\<rparr>]
     [\<lparr>fr_facilityId = ''0xf1'', fr_facilityType = ''REVOLVING_CREDIT'', fr_homeDomainCaip2 = ''eip155:196'',
       fr_controllerAddress = None, fr_controllerNativeId = None, fr_settlementAssetId = ''0x1'',
       fr_status = ''ACTIVE'', fr_discriminator = ''0x1''\<rparr>]"

theorem stale_position_not_counted_witness:
  "\<exists>p. positionView zero_hash demo_descriptors ''0xf1'' ''0xa'' [(''0x1'', 7)] (instrument_bindings [] []) 90 (Some 100)
      = Some p \<and> pg_usableRecognizedUsd18 (aggregatePortfolio [p]) = 0"
proof -
  obtain f where f: "facility demo_descriptors ''0xf1'' = Some f"
    and d: "map_option fd_safeDepthBlocks (facility_domain demo_descriptors (fv_homeDomain f)) = Some 64"
    by (simp add: demo_descriptors_def facility_descriptors_def facility_def facility_domain_def toLowerCase_def facility_view_def)
  then obtain p where p: "positionView zero_hash demo_descriptors ''0xf1'' ''0xa'' [(''0x1'', 7)]
      (instrument_bindings [] []) 90 (Some 100) = Some p"
    by (auto simp: positionView_def Let_def)
  from stale_position_not_counted [OF p, of "[]" "[]"] f d show ?thesis
    by (intro exI [of _ p]) (auto simp: p aggregatePortfolio_def split: if_splits)
qed

end
