(* ===== verification/Evidence_Text.thy ===== *)
theory Evidence_Text
  imports Schema_Primitives "HOL-Library.Sublist"
begin

text \<open>
  From bytes to canonical text: the canonicaliser of \<open>packages/schemas/src/canonical.ts\<close> and the media
  decoder of \<open>services/evidence/src/media.ts\<close>. Here a text is the list of its UTF-16 code units, since
  what is removed lies outside Latin-1. Unicode normalisation is the argument \<open>nfc\<close>; each regular
  expression is the function it denotes.
\<close>

section \<open>Texts\<close>

type_synonym utf16 = "nat list"

definition units :: "string \<Rightarrow> utf16" where "units s = map of_char s"

text \<open>The white space of \<open>trim\<close> and of \<open>\s\<close>.\<close>

definition is_white :: "nat \<Rightarrow> bool" where
  "is_white c \<longleftrightarrow> 9 \<le> c \<and> c \<le> 13 \<or> c = 32 \<or> c = 0xa0 \<or> c = 0x1680 \<or> 0x2000 \<le> c \<and> c \<le> 0x200a
     \<or> c \<in> {0x2028, 0x2029, 0x202f, 0x205f, 0x3000, 0xfeff}"

definition strip :: "utf16 \<Rightarrow> utf16" where
  "strip t = rev (dropWhile is_white (rev (dropWhile is_white t)))"

fun lines_of :: "utf16 \<Rightarrow> utf16 list" where
  "lines_of [] = [[]]"
| "lines_of (c # t) = (if c = 10 then [] # lines_of t
     else (case lines_of t of [] \<Rightarrow> [[c]] | l # ls \<Rightarrow> (c # l) # ls))"

fun join_lines :: "utf16 list \<Rightarrow> utf16" where
  "join_lines [] = []"
| "join_lines [l] = l"
| "join_lines (l # ls) = l @ 10 # join_lines ls"

section \<open>The canonicaliser\<close>

definition CANONICALIZER_VERSION :: string where "CANONICALIZER_VERSION = ''usance-text/1''"

definition ZERO_WIDTH :: "nat \<Rightarrow> bool" where
  "ZERO_WIDTH c \<longleftrightarrow> 0x200b \<le> c \<and> c \<le> 0x200d \<or> c = 0x2060 \<or> c = 0xfeff"

definition UNICODE_SPACES :: "nat \<Rightarrow> bool" where
  "UNICODE_SPACES c \<longleftrightarrow> c = 0xa0 \<or> c = 0x1680 \<or> 0x2000 \<le> c \<and> c \<le> 0x200a \<or> c \<in> {0x202f, 0x205f, 0x3000}"

text \<open>\<open>replace(/\r\n?/g, "\n")\<close>\<close>

fun newlines :: "utf16 \<Rightarrow> utf16" where
  "newlines [] = []"
| "newlines [c] = [if c = 13 then 10 else c]"
| "newlines (c # d # t) =
     (if c \<noteq> 13 then c # newlines (d # t) else if d = 10 then 10 # newlines t else 10 # newlines (d # t))"

text \<open>\<open>replace(/[ \t]+/g, " ")\<close>, inside a run of blanks or not.\<close>

fun squeeze :: "bool \<Rightarrow> utf16 \<Rightarrow> utf16" where
  "squeeze inside [] = []"
| "squeeze inside (c # t) =
     (if c = 32 \<or> c = 9 then (if inside then squeeze True t else 32 # squeeze True t)
      else c # squeeze False t)"

definition tidy_line :: "utf16 \<Rightarrow> utf16" where
  "tidy_line l = strip (squeeze False l)"

text \<open>\<open>replace(/\n{3,}/g, "\n\n")\<close>, after \<open>k\<close> newlines.\<close>

fun limit_newlines :: "nat \<Rightarrow> utf16 \<Rightarrow> utf16" where
  "limit_newlines k [] = []"
| "limit_newlines k (c # t) =
     (if c = 10 then (if k < 2 then 10 # limit_newlines (Suc k) t else limit_newlines k t)
      else c # limit_newlines 0 t)"

definition tidy_lines :: "utf16 \<Rightarrow> utf16" where
  "tidy_lines t = strip (limit_newlines 0 (join_lines (map tidy_line (lines_of t))))"

definition canonicalizeText :: "(utf16 \<Rightarrow> utf16) \<Rightarrow> utf16 \<Rightarrow> utf16" where
  "canonicalizeText nfc input =
     tidy_lines (newlines (map (\<lambda>c. if UNICODE_SPACES c then 32 else c)
       (filter (\<lambda>c. \<not> ZERO_WIDTH c) (nfc input))))"

section \<open>Clean texts\<close>

text \<open>
  What a canonical text looks like, without the steps that make it: no invisible character, no tab,
  no exotic space or carriage return; no two spaces in a row, no blank beside a line break, no three
  line breaks in a row, and no white space at either end.
\<close>

definition beside :: "nat \<Rightarrow> nat \<Rightarrow> bool" where
  "beside a b \<longleftrightarrow> \<not> (a = 32 \<and> b = 32) \<and> \<not> (a = 10 \<and> is_white b \<and> b \<noteq> 10) \<and> \<not> (is_white a \<and> a \<noteq> 10 \<and> b = 10)"

definition plain_unit :: "nat \<Rightarrow> bool" where
  "plain_unit c \<longleftrightarrow> \<not> ZERO_WIDTH c \<and> \<not> UNICODE_SPACES c \<and> c \<noteq> 13 \<and> c \<noteq> 9"

definition ends_solid :: "utf16 \<Rightarrow> bool" where
  "ends_solid t \<longleftrightarrow> t = [] \<or> \<not> is_white (hd t) \<and> \<not> is_white (last t)"

definition clean :: "utf16 \<Rightarrow> bool" where
  "clean t \<longleftrightarrow> list_all plain_unit t \<and> successively beside t \<and> \<not> sublist [10, 10, 10] t \<and> ends_solid t"

lemma is_white_simps [simp]: "is_white 10" "is_white 32" "is_white 9" "is_white 13"
  by (simp_all add: is_white_def)

lemma join_lines_of [simp]: "join_lines (lines_of t) = t"
proof (induction t)
  case (Cons c t)
  then show ?case by (cases "lines_of t" rule: join_lines.cases) auto
qed simp

lemma lines_of_ne [simp]: "lines_of t \<noteq> []"
  by (cases t) (auto split: list.splits)

lemma lines_no_break: "l \<in> set (lines_of t) \<Longrightarrow> 10 \<notin> set l"
  by (induction t arbitrary: l) (auto split: if_splits list.splits)

lemma set_lines: "l \<in> set (lines_of t) \<Longrightarrow> set l \<subseteq> set t"
proof (induction t arbitrary: l)
  case (Cons c t)
  then show ?case by (fastforce split: if_splits list.splits)
qed simp

lemma set_join: "set (join_lines ls) \<subseteq> insert 10 (\<Union>l\<in>set ls. set l)"
  by (induction ls rule: join_lines.induct) auto

lemma strip_sublist: "sublist (strip t) t"
proof -
  have "suffix (dropWhile is_white t) t" for t by (rule suffix_dropWhile)
  then have "prefix (strip t) (dropWhile is_white t)"
    by (metis rev_rev_ident strip_def suffix_dropWhile suffix_to_prefix)
  then show ?thesis by (meson prefix_imp_sublist sublist_order.order_trans suffix_dropWhile suffix_imp_sublist)
qed

lemma strip_solid: "ends_solid (strip t)"
proof (cases "strip t = []")
  case False
  let ?u = "dropWhile is_white t"
  have u: "?u \<noteq> []"
  proof
    assume "?u = []"
    then have "strip t = []" unfolding strip_def by (subst \<open>?u = []\<close>) simp
    with False show False ..
  qed
  have p: "strip t = rev (dropWhile is_white (rev ?u))" by (simp add: strip_def)
  then obtain v where v: "?u = strip t @ v"
    by (metis rev_append rev_rev_ident takeWhile_dropWhile_id)
  have "hd (strip t) = hd (strip t @ v)" using False by simp
  then have "hd (strip t) = hd ?u" by (simp only: v)
  moreover have "\<not> is_white (hd ?u)" using u by (rule hd_dropWhile)
  moreover have "last (strip t) = hd (dropWhile is_white (rev ?u))" using False by (simp add: p last_rev)
  moreover have "\<not> is_white (hd (dropWhile is_white (rev ?u)))" using False by (intro hd_dropWhile notI) (simp add: p)
  ultimately show ?thesis by (simp add: ends_solid_def)
qed (simp add: ends_solid_def)

lemma strip_fixed: "ends_solid t \<Longrightarrow> strip t = t"
proof (cases t)
  case (Cons c u)
  assume "ends_solid t"
  then have s: "\<not> is_white (hd t)" "\<not> is_white (last t)" using Cons by (auto simp: ends_solid_def)
  have "dropWhile is_white t = t" using s(1) Cons by simp
  moreover have "dropWhile is_white (rev t) = rev t"
    using s(2) Cons by (metis dropWhile_eq_self_iff hd_rev rev_is_Nil_conv list.distinct(1))
  ultimately show ?thesis by (simp add: strip_def)
qed (simp add: strip_def)

lemma strip_set: "set (strip t) \<subseteq> set t"
  by (meson set_mono_sublist strip_sublist)

lemma newlines_plain: "13 \<notin> set (newlines t)" "set (newlines t) \<subseteq> insert 10 (set t)"
  by (induction t rule: newlines.induct) auto

lemma newlines_fixed: "13 \<notin> set t \<Longrightarrow> newlines t = t"
  by (induction t rule: newlines.induct) auto

lemma squeeze_set: "set (squeeze b t) \<subseteq> insert 32 (set t)" "9 \<notin> set (squeeze b t)"
  by (induction b t rule: squeeze.induct) auto

lemma squeeze_beside:
  "10 \<notin> set t \<Longrightarrow> successively beside (squeeze b t) \<and> 10 \<notin> set (squeeze b t)
    \<and> (b \<longrightarrow> squeeze b t = [] \<or> hd (squeeze b t) \<noteq> 32)"
proof (induction b t rule: squeeze.induct)
  case (2 inside c t)
  have "beside c d" if "c \<noteq> 32" "c \<noteq> 10" "d \<noteq> 10" for d using that by (simp add: beside_def)
  moreover have "beside 32 d" if "d \<noteq> 32" "d \<noteq> 10" for d using that by (simp add: beside_def)
  ultimately show ?case using 2 by (cases "squeeze False t"; cases "squeeze True t") auto
qed simp

lemma squeeze_fixed:
  "successively beside t \<Longrightarrow> 9 \<notin> set t \<Longrightarrow> b \<longrightarrow> t = [] \<or> hd t \<noteq> 32 \<Longrightarrow> squeeze b t = t"
  by (induction b t rule: squeeze.induct) (auto simp: successively_Cons beside_def)

lemma successively_sublist: "sublist s t \<Longrightarrow> successively P t \<Longrightarrow> successively P s"
  by (auto simp: sublist_def successively_append_iff)

definition tidy_ok :: "nat list \<Rightarrow> bool" where
  "tidy_ok l \<longleftrightarrow> 10 \<notin> set l \<and> 9 \<notin> set l \<and> successively beside l \<and> ends_solid l"

lemma tidy_line_ok: "10 \<notin> set l \<Longrightarrow> tidy_ok (tidy_line l)"
  using squeeze_beside [of l False] squeeze_set [of False l] strip_set [of "squeeze False l"]
    successively_sublist [OF strip_sublist] strip_solid
  by (auto simp: tidy_ok_def tidy_line_def)

lemma tidy_line_fixed: "tidy_ok l \<Longrightarrow> tidy_line l = l"
  by (simp add: tidy_ok_def tidy_line_def squeeze_fixed strip_fixed)

lemma beside_break: "beside 10 b \<longleftrightarrow> b = 10 \<or> \<not> is_white b" "beside a 10 \<longleftrightarrow> a = 10 \<or> \<not> is_white a"
  by (auto simp: beside_def)

lemma join_lines_beside: "\<forall>l\<in>set ls. tidy_ok l \<Longrightarrow> successively beside (join_lines ls)
    \<and> (join_lines ls \<noteq> [] \<longrightarrow> hd (join_lines ls) = 10 \<or> \<not> is_white (hd (join_lines ls)))"
proof (induction ls rule: join_lines.induct)
  case (3 l m ls)
  let ?j = "join_lines (m # ls)"
  have j: "successively beside ?j" "?j \<noteq> [] \<Longrightarrow> hd ?j = 10 \<or> \<not> is_white (hd ?j)"
    using 3 by simp_all
  have "successively beside (10 # ?j)" using j by (cases ?j) (auto simp: beside_break)
  moreover have l: "successively beside l" "l \<noteq> [] \<Longrightarrow> \<not> is_white (last l)" "l \<noteq> [] \<Longrightarrow> \<not> is_white (hd l)"
    using 3(2) by (auto simp: tidy_ok_def ends_solid_def)
  ultimately have "successively beside (l @ 10 # ?j)"
    by (auto simp: successively_append_iff beside_break simp del: join_lines.simps)
  then show ?case using l(3) by (cases l) simp_all
qed (auto simp: tidy_ok_def ends_solid_def)

lemma limit_set: "set (limit_newlines k t) \<subseteq> set t"
  by (induction k t rule: limit_newlines.induct) auto

lemma limit_beside:
  "successively beside (c # t) \<Longrightarrow> (0 < k \<longrightarrow> c = 10) \<Longrightarrow> successively beside (c # limit_newlines k t)"
proof (induction t arbitrary: c k)
  case (Cons d u)
  have c: "beside c d" "successively beside (d # u)" using Cons.prems(1) by auto
  show ?case
  proof (cases "d = 10 \<and> 2 \<le> k")
    case True
    with Cons.prems(2) c(2) Cons.IH [of 10 k] show ?thesis by simp
  next
    case False
    let ?k = "if d = 10 then Suc k else 0"
    have "limit_newlines k (d # u) = d # limit_newlines ?k u" using False by auto
    moreover have "successively beside (d # limit_newlines ?k u)" using c(2) by (intro Cons.IH) auto
    ultimately show ?thesis using c(1) by simp
  qed
qed simp

lemma limit_idem: "k \<le> 2 \<Longrightarrow> limit_newlines k (limit_newlines k t) = limit_newlines k t"
  by (induction k t rule: limit_newlines.induct) auto

lemma limit_length: "length (limit_newlines k t) \<le> length t"
  by (induction k t rule: limit_newlines.induct) auto

lemma triple_after_other:
  "c \<noteq> 10 \<Longrightarrow> k \<le> 2 \<Longrightarrow> sublist [10, 10, 10] (replicate k 10 @ c # t) \<longleftrightarrow> sublist [10, 10, 10::nat] t"
proof -
  assume c: "c \<noteq> 10" "k \<le> 2"
  then consider "k = 0" | "k = 1" | "k = 2" by linarith
  then show ?thesis using c by cases (simp_all add: sublist_Cons_right numeral_2_eq_2)
qed

lemma limit_fixed_iff:
  "k \<le> 2 \<Longrightarrow> limit_newlines k t = t \<longleftrightarrow> \<not> sublist [10, 10, 10] (replicate k 10 @ t)"
proof (induction k t rule: limit_newlines.induct)
  case (1 k)
  then have "length (replicate k (10::nat)) < length [10, 10, 10::nat]" by simp
  then show ?case by (auto dest: sublist_length_le)
next
  case (2 k c t)
  show ?case
  proof (cases "c = 10")
    case False
    then show ?thesis using 2 by (simp add: triple_after_other)
  next
    case True
    show ?thesis
    proof (cases "k < 2")
      case True
      then show ?thesis using 2(1) [OF \<open>c = 10\<close> True] \<open>c = 10\<close> by (simp add: replicate_app_Cons_same)
    next
      case False
      then have "k = 2" using 2(4) by simp
      then have "sublist [10, 10, 10] (replicate k 10 @ c # t)" using True by (simp add: numeral_2_eq_2)
      moreover have "limit_newlines k (c # t) \<noteq> c # t"
        using limit_length [of k t] False True by (auto dest: arg_cong [of _ _ length])
      ultimately show ?thesis by simp
    qed
  qed
qed

lemma limit_no_triple: "\<not> sublist [10, 10, 10] (limit_newlines 0 t)"
  using limit_idem [of 0 t] by (simp add: limit_fixed_iff)

section \<open>Canonical texts are the clean ones\<close>

lemma tidy_lines_clean:
  assumes "list_all (\<lambda>c. \<not> ZERO_WIDTH c \<and> \<not> UNICODE_SPACES c \<and> c \<noteq> 13) t"
  shows "clean (tidy_lines t)"
proof -
  let ?ls = "map tidy_line (lines_of t)" and ?j = "join_lines (map tidy_line (lines_of t))"
  have ok: "\<forall>l\<in>set ?ls. tidy_ok l" using lines_no_break by (auto intro: tidy_line_ok)
  have "set l \<subseteq> insert 32 (set t) - {9}" if "l \<in> set ?ls" for l
    using that set_lines [of _ t] squeeze_set [of False] strip_set by (fastforce simp: tidy_line_def)
  then have "set ?j \<subseteq> insert 10 (insert 32 (set t) - {9})" using set_join [of ?ls] by blast
  then have "set (tidy_lines t) \<subseteq> insert 10 (insert 32 (set t) - {9})"
    using strip_set [of "limit_newlines 0 ?j"] limit_set [of 0 ?j] by (auto simp: tidy_lines_def)
  moreover have "plain_unit 10" "plain_unit 32" by (simp_all add: plain_unit_def ZERO_WIDTH_def UNICODE_SPACES_def)
  ultimately have "list_all plain_unit (tidy_lines t)" using assms by (fastforce simp: list_all_iff plain_unit_def)
  moreover have "successively beside ?j" using join_lines_beside [OF ok] by simp
  then have "successively beside (limit_newlines 0 ?j)"
    by (cases ?j) (use limit_beside [of _ _ 0] limit_beside [of 10 _ 1] in auto)
  then have "successively beside (tidy_lines t)"
    unfolding tidy_lines_def by (rule successively_sublist [OF strip_sublist])
  moreover have "\<not> sublist [10, 10, 10] (tidy_lines t)"
    using limit_no_triple [of ?j] strip_sublist [of "limit_newlines 0 ?j"] sublist_order.order_trans
    unfolding tidy_lines_def by blast
  ultimately show ?thesis by (simp add: clean_def tidy_lines_def strip_solid)
qed

lemma lines_tidy:
  "successively beside (join_lines ls) \<Longrightarrow> \<forall>l\<in>set ls. 10 \<notin> set l \<and> 9 \<notin> set l \<Longrightarrow> ls \<noteq> []
    \<Longrightarrow> hd ls = [] \<or> \<not> is_white (hd (hd ls)) \<Longrightarrow> last ls = [] \<or> \<not> is_white (last (last ls))
    \<Longrightarrow> \<forall>l\<in>set ls. tidy_ok l"
proof (induction ls rule: join_lines.induct)
  case (3 l m ls)
  let ?j = "join_lines (m # ls)"
  have a: "successively beside (l @ 10 # ?j)" using 3(2) by simp
  then have s: "successively beside l" "successively beside (10 # ?j)" "l \<noteq> [] \<Longrightarrow> beside (last l) 10"
    by (simp_all add: successively_append_iff del: join_lines.simps)
  have l: "l \<noteq> [] \<Longrightarrow> \<not> is_white (last l)"
    using s(3) 3(3) by (auto simp: beside_break dest: last_in_set)
  have j: "successively beside ?j" "?j \<noteq> [] \<Longrightarrow> beside 10 (hd ?j)" using s(2) by (cases ?j; simp)+
  have m: "m \<noteq> [] \<Longrightarrow> \<not> is_white (hd m)"
  proof -
    assume "m \<noteq> []"
    then have "?j \<noteq> []" "hd ?j = hd m" "hd m \<noteq> 10" using 3(3) by (cases ls; cases m; auto)+
    then show ?thesis using j(2) by (simp add: beside_break)
  qed
  have "\<forall>l\<in>set (m # ls). tidy_ok l" using 3(1) j(1) m 3(3,6) by auto
  moreover have "tidy_ok l" using s(1) l 3(3,5) by (auto simp: tidy_ok_def ends_solid_def)
  ultimately show ?case by simp
qed (auto simp: tidy_ok_def ends_solid_def)

lemma tidy_lines_fixed:
  assumes "clean t"
  shows "tidy_lines t = t"
proof -
  let ?ls = "lines_of t"
  have c: "successively beside (join_lines ?ls)" "9 \<notin> set t" "ends_solid t" "\<not> sublist [10, 10, 10] t"
    using assms by (auto simp: clean_def list_all_iff plain_unit_def)
  have "hd ?ls = [] \<or> \<not> is_white (hd (hd ?ls))"
    using c(3) by (cases t) (auto simp: ends_solid_def split: list.splits)
  moreover have "last (join_lines ls) = last (last ls)" "join_lines ls \<noteq> []" if "last ls \<noteq> []" "ls \<noteq> []" for ls
    using that by (induction ls rule: join_lines.induct) auto
  from this(1) [of ?ls] have "last ?ls = [] \<or> \<not> is_white (last (last ?ls))"
    using c(3) by (cases "t = []") (auto simp: ends_solid_def)
  moreover have "\<forall>l\<in>set ?ls. 10 \<notin> set l \<and> 9 \<notin> set l" using c(2) lines_no_break set_lines by blast
  ultimately have "\<forall>l\<in>set ?ls. tidy_ok l" using lines_tidy [OF c(1)] by simp
  then have "map tidy_line ?ls = ?ls" by (intro map_idI tidy_line_fixed) simp
  moreover have "limit_newlines 0 t = t" using c(4) by (simp add: limit_fixed_iff)
  ultimately show ?thesis by (simp add: tidy_lines_def strip_fixed [OF c(3)])
qed

lemma canonical_clean: "clean (canonicalizeText nfc s)"
proof -
  have "set (newlines u) \<subseteq> insert 10 (set u)" "13 \<notin> set (newlines u)" for u by (rule newlines_plain)+
  moreover have "\<not> ZERO_WIDTH 10" "\<not> UNICODE_SPACES 10" "\<not> ZERO_WIDTH 32" "\<not> UNICODE_SPACES 32"
    by (simp_all add: ZERO_WIDTH_def UNICODE_SPACES_def)
  ultimately show ?thesis
    unfolding canonicalizeText_def by (intro tidy_lines_clean) (fastforce simp: list_all_iff)
qed

lemma canonical_fixed:
  assumes "clean t" "nfc t = t"
  shows "canonicalizeText nfc t = t"
proof -
  have p: "\<forall>c\<in>set t. \<not> ZERO_WIDTH c \<and> \<not> UNICODE_SPACES c \<and> c \<noteq> 13"
    using assms(1) by (auto simp: clean_def list_all_iff plain_unit_def)
  then have "filter (\<lambda>c. \<not> ZERO_WIDTH c) t = t" by simp
  moreover have "map (\<lambda>c. if UNICODE_SPACES c then 32 else c) t = t" using p by (simp add: map_idI)
  moreover have "newlines t = t" using p by (intro newlines_fixed) blast
  ultimately show ?thesis using assms by (simp add: canonicalizeText_def tidy_lines_fixed)
qed

section \<open>Bytes to text\<close>

text \<open>
  The \<open>TextDecoder\<close> of the platform, not fatal: the state is the code point so far, how many
  continuation bytes are still due and the bounds of the next one. A byte that does not continue
  the sequence yields U+FFFD and is read again as a first byte.
\<close>

function utf8_decode :: "nat \<Rightarrow> nat \<Rightarrow> nat \<Rightarrow> nat \<Rightarrow> nat list \<Rightarrow> nat list" where
  "utf8_decode cp due lo hi [] = (if due = 0 then [] else [0xfffd])"
| "utf8_decode cp due lo hi (b # bs) =
     (if due = 0 then
        (if b \<le> 0x7f then b # utf8_decode 0 0 0x80 0xbf bs
         else if 0xc2 \<le> b \<and> b \<le> 0xdf then utf8_decode (b - 0xc0) 1 0x80 0xbf bs
         else if 0xe0 \<le> b \<and> b \<le> 0xef then
           utf8_decode (b - 0xe0) 2 (if b = 0xe0 then 0xa0 else 0x80) (if b = 0xed then 0x9f else 0xbf) bs
         else if 0xf0 \<le> b \<and> b \<le> 0xf4 then
           utf8_decode (b - 0xf0) 3 (if b = 0xf0 then 0x90 else 0x80) (if b = 0xf4 then 0x8f else 0xbf) bs
         else 0xfffd # utf8_decode 0 0 0x80 0xbf bs)
      else if lo \<le> b \<and> b \<le> hi then
        (let cp' = cp * 64 + (b - 0x80)
         in if due = 1 then cp' # utf8_decode 0 0 0x80 0xbf bs else utf8_decode cp' (due - 1) 0x80 0xbf bs)
      else 0xfffd # utf8_decode 0 0 0x80 0xbf (b # bs))"
  by pat_completeness auto
termination
  by (relation "measures [\<lambda>(cp, due, lo, hi, bs). length bs, \<lambda>(cp, due, lo, hi, bs). due]") auto

text \<open>\<open>String.fromCodePoint\<close>\<close>

definition code_units :: "nat \<Rightarrow> utf16" where
  "code_units cp = (if cp < 0x10000 then [cp] else [0xd800 + (cp - 0x10000) div 0x400, 0xdc00 + (cp - 0x10000) mod 0x400])"

definition text_decoder :: "nat list \<Rightarrow> utf16" where
  "text_decoder bs = concat (map code_units
     (utf8_decode 0 0 0x80 0xbf (if take 3 bs = [0xef, 0xbb, 0xbf] then drop 3 bs else bs)))"

section \<open>Replacing every match of a pattern\<close>

text \<open>
  A matcher looks at the text from one position on and gives, when the pattern matches there, what
  replaces the match and the text after it.
\<close>

type_synonym matcher = "utf16 \<Rightarrow> (utf16 \<times> utf16) option"

function replace_all :: "matcher \<Rightarrow> utf16 \<Rightarrow> utf16" where
  "replace_all m [] = []"
| "replace_all m (c # t) =
     (case m (c # t) of
        None \<Rightarrow> c # replace_all m t
      | Some (out, rest) \<Rightarrow> if length rest \<le> length t then out @ replace_all m rest else out @ rest)"
  by pat_completeness auto
termination
  by (relation "measure (length \<circ> snd)") auto

definition lower_unit :: "nat \<Rightarrow> nat" where
  "lower_unit c = (if 65 \<le> c \<and> c \<le> 90 then c + 32 else c)"

definition is_digit_unit :: "nat \<Rightarrow> bool" where "is_digit_unit c \<longleftrightarrow> 48 \<le> c \<and> c \<le> 57"

definition is_alpha :: "nat \<Rightarrow> bool" where
  "is_alpha c \<longleftrightarrow> 97 \<le> lower_unit c \<and> lower_unit c \<le> 122"

definition is_alnum :: "nat \<Rightarrow> bool" where "is_alnum c \<longleftrightarrow> is_alpha c \<or> is_digit_unit c"

text \<open>The units between which \<open>\b\<close> is no boundary.\<close>

definition is_word :: "nat \<Rightarrow> bool" where "is_word c \<longleftrightarrow> is_alnum c \<or> c = 95"

text \<open>\<open>[^>]*>\<close>\<close>

fun past_gt :: "utf16 \<Rightarrow> utf16 option" where
  "past_gt [] = None"
| "past_gt (c # t) = (if c = 62 then Some t else past_gt t)"

section \<open>Markup\<close>

fun past_comment_end :: "utf16 \<Rightarrow> utf16 option" where
  "past_comment_end (a # b # c # t) =
     (if a = 45 \<and> b = 45 \<and> c = 62 then Some t else past_comment_end (b # c # t))"
| "past_comment_end _ = None"

definition comment_at :: matcher where
  "comment_at t = (if take 4 t = [60, 33, 45, 45] then map_option (Pair [32]) (past_comment_end (drop 4 t)) else None)"

definition HIDDEN_TAGS :: "utf16 list" where
  "HIDDEN_TAGS = map units [''script'', ''style'', ''noscript'', ''template'']"

text \<open>\<open></\1\s*>\<close> at this position.\<close>

definition closing_at :: "utf16 \<Rightarrow> utf16 \<Rightarrow> utf16 option" where
  "closing_at name t =
     (if take 2 t = [60, 47] \<and> map lower_unit (take (length name) (drop 2 t)) = name
      then case dropWhile is_white (drop (2 + length name) t) of
             [] \<Rightarrow> None
           | c # u \<Rightarrow> if c = 62 then Some u else None
      else None)"

fun past_closing :: "utf16 \<Rightarrow> utf16 \<Rightarrow> utf16 option" where
  "past_closing name [] = None"
| "past_closing name (c # t) =
     (case closing_at name (c # t) of Some u \<Rightarrow> Some u | None \<Rightarrow> past_closing name t)"

definition raw_element_at :: matcher where
  "raw_element_at t =
     (case t of
        [] \<Rightarrow> None
      | c # u \<Rightarrow>
          (let name = map lower_unit (takeWhile is_word u)
           in if c = 60 \<and> name \<in> set HIDDEN_TAGS
              then case past_gt (dropWhile is_word u) of
                     None \<Rightarrow> None
                   | Some body \<Rightarrow> map_option (Pair [32]) (past_closing name body)
              else None))"

definition BLOCK_TAGS :: "utf16 list" where
  "BLOCK_TAGS = map units
     [''p'', ''div'', ''br'', ''hr'', ''tr'', ''table'', ''thead'', ''tbody'', ''li'', ''ul'', ''ol'',
      ''h1'', ''h2'', ''h3'', ''h4'', ''h5'', ''h6'', ''section'', ''article'', ''header'', ''footer'',
      ''blockquote'', ''pre'', ''dd'', ''dt'', ''dl'', ''caption'', ''figure'', ''figcaption'']"

definition after_slash :: "utf16 \<Rightarrow> utf16" where
  "after_slash t =
     (let u = dropWhile is_white t
      in dropWhile is_white (case u of [] \<Rightarrow> [] | c # v \<Rightarrow> if c = 47 then v else u))"

definition block_at :: matcher where
  "block_at t =
     (case t of
        [] \<Rightarrow> None
      | c # u \<Rightarrow>
          (let w = after_slash u
           in if c = 60 \<and> map lower_unit (takeWhile is_word w) \<in> set BLOCK_TAGS
              then map_option (Pair [10]) (past_gt (dropWhile is_word w))
              else None))"

definition any_tag_at :: matcher where
  "any_tag_at t =
     (case t of [] \<Rightarrow> None | c # u \<Rightarrow> if c = 60 then map_option (Pair []) (past_gt u) else None)"

section \<open>Entities\<close>

definition NAMED_ENTITIES :: "(utf16 \<times> nat) list" where
  "NAMED_ENTITIES = map (map_prod units id)
     [(''amp'', 0x26), (''lt'', 0x3c), (''gt'', 0x3e), (''quot'', 0x22), (''apos'', 0x27), (''nbsp'', 0xa0),
      (''ndash'', 0x2013), (''mdash'', 0x2014), (''lsquo'', 0x2018), (''rsquo'', 0x2019),
      (''ldquo'', 0x201c), (''rdquo'', 0x201d), (''hellip'', 0x2026), (''trade'', 0x2122), (''reg'', 0xae),
      (''copy'', 0xa9), (''deg'', 0xb0), (''bull'', 0x2022), (''sect'', 0xa7), (''dagger'', 0x2020),
      (''Dagger'', 0x2021), (''euro'', 0x20ac), (''pound'', 0xa3), (''yen'', 0xa5), (''cent'', 0xa2)]"

text \<open>
  \<open>NAMED_ENTITIES[body]\<close> also finds the functions every object inherits from \<open>Object.prototype\<close>; the
  replacement is then the text of the function, here as V8 prints it.
\<close>

definition INHERITED_NAMES :: "(utf16 \<times> string) list" where
  "INHERITED_NAMES = map (\<lambda>n. (units n, if n = ''constructor'' then ''Object'' else n))
     [''constructor'', ''toString'', ''valueOf'', ''hasOwnProperty'', ''isPrototypeOf'',
      ''propertyIsEnumerable'', ''toLocaleString'']"

definition entity_named :: "utf16 \<Rightarrow> utf16 option" where
  "entity_named body =
     (case map_of NAMED_ENTITIES body of
        Some c \<Rightarrow> Some [c]
      | None \<Rightarrow> map_option (\<lambda>f. units (''function '' @ f @ ''() { [native code] }'')) (map_of INHERITED_NAMES body))"

definition hex_unit_value :: "nat \<Rightarrow> nat option" where
  "hex_unit_value c =
     (if is_digit_unit c then Some (c - 48)
      else if 97 \<le> lower_unit c \<and> lower_unit c \<le> 102 then Some (lower_unit c - 87) else None)"

definition is_hex_unit :: "nat \<Rightarrow> bool" where "is_hex_unit c \<longleftrightarrow> hex_unit_value c \<noteq> None"

text \<open>\<open>Number.parseInt\<close> on digits of the base.\<close>

definition units_value :: "nat \<Rightarrow> utf16 \<Rightarrow> nat" where
  "units_value base ds = foldl (\<lambda>n c. n * base + the (hex_unit_value c)) 0 ds"

definition code_reference :: "nat \<Rightarrow> utf16 option" where
  "code_reference code =
     (if code = 0 \<or> code > 0x10ffff then None
      else if 0xd800 \<le> code \<and> code \<le> 0xdfff then None
      else Some (code_units code))"

text \<open>What stands between \<open>&\<close> and \<open>;\<close> and what it decodes to, when the pattern matches.\<close>

definition entity_body :: "utf16 \<Rightarrow> (utf16 \<times> utf16 option) option" where
  "entity_body t =
     (case t of
        [] \<Rightarrow> None
      | c # u \<Rightarrow>
          if c = 35 then
            (case takeWhile is_digit_unit u of
               [] \<Rightarrow> (case u of
                   [] \<Rightarrow> None
                 | x # v \<Rightarrow>
                     (let ds = takeWhile is_hex_unit v
                      in if (x = 120 \<or> x = 88) \<and> ds \<noteq> []
                         then Some (c # x # ds, code_reference (units_value 16 ds)) else None))
             | d # ds \<Rightarrow> Some (c # d # ds, code_reference (units_value 10 (d # ds))))
          else
            (let name = takeWhile is_alnum t
             in if is_alpha c \<and> 2 \<le> length name \<and> length name \<le> 32 then Some (name, entity_named name) else None))"

definition entity_at :: matcher where
  "entity_at t =
     (case t of
        [] \<Rightarrow> None
      | c # u \<Rightarrow>
          if c \<noteq> 38 then None
          else (case entity_body u of
             None \<Rightarrow> None
           | Some (body, meaning) \<Rightarrow>
               (case drop (length body) u of
                  [] \<Rightarrow> None
                | s # rest \<Rightarrow>
                    if s \<noteq> 59 then None
                    else Some (case meaning of Some t' \<Rightarrow> t' | None \<Rightarrow> 38 # body @ [59], rest))))"

definition decodeEntities :: "utf16 \<Rightarrow> utf16" where
  "decodeEntities = replace_all entity_at"

section \<open>The decoder\<close>

definition MEDIA_DECODER_VERSION :: string where "MEDIA_DECODER_VERSION = ''usance-media/1''"

definition SUPPORTED_MEDIA_TYPES :: "string list" where
  "SUPPORTED_MEDIA_TYPES = [''text/plain'', ''text/markdown'', ''text/html'']"

definition baseMediaType :: "string \<Rightarrow> string" where
  "baseMediaType m = toLowerCase (trim (takeWhile (\<lambda>c. c \<noteq> CHR '';'') m))"

definition isSupportedMediaType :: "string \<Rightarrow> bool" where
  "isSupportedMediaType m \<longleftrightarrow> baseMediaType m \<in> set SUPPORTED_MEDIA_TYPES"

definition html_space :: "nat \<Rightarrow> bool" where
  "html_space c \<longleftrightarrow> c = 0xa0 \<or> 0x2000 \<le> c \<and> c \<le> 0x200a \<or> c \<in> {0x202f, 0x205f, 0x3000}"

definition drop_hidden :: "utf16 \<Rightarrow> utf16" where
  "drop_hidden html = replace_all raw_element_at (replace_all comment_at html)"

definition htmlToText :: "utf16 \<Rightarrow> utf16" where
  "htmlToText html =
     (let s = replace_all any_tag_at (replace_all block_at (drop_hidden html));
          s = map (\<lambda>c. if html_space c then 32 else c) (decodeEntities s)
      in tidy_lines (newlines s))"

datatype media_error = UnsupportedMediaType string

definition decodeToText :: "nat list \<Rightarrow> string \<Rightarrow> media_error + utf16" where
  "decodeToText bytes mediaType =
     (if \<not> isSupportedMediaType (baseMediaType mediaType) then Inl (UnsupportedMediaType mediaType)
      else let raw = text_decoder bytes;
               t = (case raw of [] \<Rightarrow> [] | c # u \<Rightarrow> if c = 0xfeff then u else raw)
           in Inr (if baseMediaType mediaType = ''text/html'' then htmlToText t else t))"

section \<open>What the steps of the decoder leave alone\<close>

lemma replace_all_skip:
  "(\<And>x c y. a = x @ c # y \<Longrightarrow> m (c # y @ u) = None) \<Longrightarrow> replace_all m (a @ u) = a @ replace_all m u"
proof (induction a)
  case (Cons c a)
  have "m (c # a @ u) = None" using Cons.prems [of "[]" c a] by simp
  moreover have "replace_all m (a @ u) = a @ replace_all m u"
    using Cons.prems by (intro Cons.IH) (metis append_Cons)
  ultimately show ?case by simp
qed simp

text \<open>Markup starts with \<open><\<close>; a comment with \<open><!\<close>, a closing tag with \<open></\<close>.\<close>

lemma raw_needs_lt: "c \<noteq> 60 \<Longrightarrow> raw_element_at (c # t) = None"
  by (simp add: raw_element_at_def)

lemma comment_needs: "take 2 t \<noteq> [60, 33] \<Longrightarrow> comment_at t = None"
proof -
  assume a: "take 2 t \<noteq> [60, 33]"
  have "take 4 t \<noteq> [60, 33, 45, 45]"
  proof
    assume "take 4 t = [60, 33, 45, 45]"
    then have "take 2 (take 4 t) = [60, 33]" by simp
    with a show False by (simp add: min_def)
  qed
  then show ?thesis by (simp add: comment_at_def)
qed

lemma closing_needs: "take 2 t \<noteq> [60, 47] \<Longrightarrow> closing_at name t = None"
  by (simp add: closing_at_def)

lemma past_gt_app: "62 \<notin> set a \<Longrightarrow> past_gt (a @ 62 # t) = Some t"
  by (induction a) auto

text \<open>A body without \<open><!\<close> and \<open></\<close>.\<close>

definition no_markup_end :: "utf16 \<Rightarrow> bool" where
  "no_markup_end body \<longleftrightarrow> successively (\<lambda>a b. a = 60 \<longrightarrow> b \<noteq> 33 \<and> b \<noteq> 47) body"

lemma no_markup_end_take:
  assumes "no_markup_end (x @ c # y)" "u = 60 # v"
  shows "take 2 (c # y @ u) \<noteq> [60, 33]" "take 2 (c # y @ u) \<noteq> [60, 47]"
  using assms by (cases y; auto simp: no_markup_end_def successively_append_iff successively_Cons numeral_2_eq_2)+

lemma past_closing_skip:
  assumes "no_markup_end body" "closing_at name (60 # v) = Some r"
  shows "past_closing name (body @ 60 # v) = Some r"
  using assms(1)
proof (induction body)
  case Nil
  then show ?case using assms(2) by simp
next
  case (Cons c b)
  have "closing_at name ((c # b) @ 60 # v) = None"
    using no_markup_end_take(2) [of "[]" c b _ v] Cons.prems by (intro closing_needs) simp
  moreover have "no_markup_end b" using Cons.prems by (auto simp: no_markup_end_def successively_Cons)
  ultimately show ?case using Cons.IH by simp
qed

definition hidden_element :: "utf16 \<Rightarrow> utf16 \<Rightarrow> utf16 \<Rightarrow> utf16 \<Rightarrow> utf16 \<Rightarrow> utf16" where
  "hidden_element open_name attrs body close_name ws =
     [60] @ open_name @ attrs @ [62] @ body @ [60, 47] @ close_name @ ws @ [62]"

lemma hidden_names_are_words: "name \<in> set HIDDEN_TAGS \<Longrightarrow> name \<noteq> [] \<and> list_all is_word name \<and> 60 \<notin> set name \<and> 33 \<notin> set name"
  by (auto simp: HIDDEN_TAGS_def units_def is_word_def is_alnum_def is_alpha_def lower_unit_def is_digit_unit_def)

lemma is_word_lower: "is_word (lower_unit c) = is_word c"
  by (auto simp: is_word_def is_alnum_def is_alpha_def lower_unit_def is_digit_unit_def)

lemma word_of_lower: "list_all is_word (map lower_unit n) = list_all is_word n"
  by (simp add: list_all_iff is_word_lower)

lemma takeWhile_word:
  "list_all P n \<Longrightarrow> a = [] \<or> \<not> P (hd a) \<Longrightarrow> \<not> P z \<Longrightarrow>
     takeWhile P (n @ a @ z # t) = n \<and> dropWhile P (n @ a @ z # t) = a @ z # t"
  by (cases a) (induction n; simp)+

lemma raw_element_hidden:
  assumes "map lower_unit open_name \<in> set HIDDEN_TAGS" "map lower_unit close_name = map lower_unit open_name"
    and "attrs = [] \<or> \<not> is_word (hd attrs)" "62 \<notin> set attrs" "list_all is_white ws" "no_markup_end body"
  shows "raw_element_at (hidden_element open_name attrs body close_name ws @ post) = Some ([32], post)"
proof -
  let ?n = "map lower_unit open_name" and ?rest = "47 # close_name @ ws @ 62 # post"
  have w: "list_all is_word open_name"
    using hidden_names_are_words [OF assms(1)] by (simp add: word_of_lower)
  have "\<not> is_word 62" by (simp add: is_word_def is_alnum_def is_alpha_def lower_unit_def is_digit_unit_def)
  note tw = takeWhile_word [OF w assms(3) this, of "body @ 60 # ?rest"]
  have "dropWhile is_white (ws @ 62 # post) = 62 # post"
    using assms(5) by (subst dropWhile_append2) (auto simp: list_all_iff is_white_def)
  moreover have "length close_name = length open_name" using assms(2) map_eq_imp_length_eq by blast
  ultimately have "closing_at ?n (60 # ?rest) = Some post"
    using assms(2) by (simp add: closing_at_def)
  then have "past_closing ?n (body @ 60 # ?rest) = Some post" by (rule past_closing_skip [OF assms(6)])
  moreover have "past_gt (attrs @ 62 # body @ 60 # ?rest) = Some (body @ 60 # ?rest)"
    using assms(4) by (rule past_gt_app)
  ultimately show ?thesis
    using assms(1) tw by (simp add: raw_element_at_def hidden_element_def Let_def)
qed

lemma replace_raw_skip: "60 \<notin> set pre \<Longrightarrow> replace_all raw_element_at (pre @ u) = pre @ replace_all raw_element_at u"
  by (rule replace_all_skip) (auto intro: raw_needs_lt)

lemma replace_comment_skip: "60 \<notin> set pre \<Longrightarrow> replace_all comment_at (pre @ u) = pre @ replace_all comment_at u"
  by (rule replace_all_skip) (auto intro!: comment_needs simp: numeral_2_eq_2)

lemma replace_all_at: "m (c # t) = Some (out, rest) \<Longrightarrow> length rest \<le> length t
    \<Longrightarrow> replace_all m (c # t) = out @ replace_all m rest"
  by simp

lemma replace_comment_hidden:
  assumes "map lower_unit open_name \<in> set HIDDEN_TAGS" "map lower_unit close_name = map lower_unit open_name"
    and "attrs = [] \<or> \<not> is_word (hd attrs)" "60 \<notin> set attrs" "list_all is_white ws" "no_markup_end body"
  shows "replace_all comment_at (hidden_element open_name attrs body close_name ws @ post)
    = hidden_element open_name attrs body close_name ws @ replace_all comment_at post"
proof -
  have nm: "60 \<notin> set n \<and> n \<noteq> [] \<and> hd n \<noteq> 33" if "map lower_unit n \<in> set HIDDEN_TAGS" for n
    using hidden_names_are_words [OF that] by (cases n) (auto simp: lower_unit_def image_iff split: if_splits)
  have o: "60 \<notin> set open_name" "hd open_name \<noteq> 33" "open_name \<noteq> []" using nm assms(1) by blast+
  have c: "60 \<notin> set close_name" using nm [of close_name] assms(1,2) by simp
  have "60 \<notin> set ws" using assms(5) by (auto simp: list_all_iff is_white_def)
  then have tail: "replace_all comment_at ((47 # close_name @ ws @ [62]) @ post)
      = (47 # close_name @ ws @ [62]) @ replace_all comment_at post"
    using c by (intro replace_comment_skip) simp
  have lt: "comment_at (60 # d # t) = None" if "d \<noteq> 33" for d t using that by (intro comment_needs) simp
  have "replace_all comment_at (60 # ((47 # close_name @ ws @ [62]) @ post))
      = 60 # (47 # close_name @ ws @ [62]) @ replace_all comment_at post"
    using tail lt [of 47] by simp
  moreover have "replace_all comment_at (body @ 60 # ((47 # close_name @ ws @ [62]) @ post))
      = body @ replace_all comment_at (60 # ((47 # close_name @ ws @ [62]) @ post))"
    using no_markup_end_take(1) assms(6) by (intro replace_all_skip comment_needs) auto
  moreover have "replace_all comment_at ((open_name @ attrs @ [62]) @ u) = (open_name @ attrs @ [62]) @ replace_all comment_at u" for u
    using o assms(4) by (intro replace_comment_skip) simp
  moreover have "comment_at (60 # open_name @ u) = None" for u
    using o by (cases open_name) (auto intro!: lt)
  ultimately show ?thesis by (simp add: hidden_element_def)
qed

lemma drop_hidden_element:
  assumes "map lower_unit open_name \<in> set HIDDEN_TAGS" "map lower_unit close_name = map lower_unit open_name"
    and "attrs = [] \<or> \<not> is_word (hd attrs)" "60 \<notin> set attrs" "62 \<notin> set attrs"
    and "list_all is_white ws" "no_markup_end body" "60 \<notin> set pre"
  shows "drop_hidden (pre @ hidden_element open_name attrs body close_name ws @ post) = drop_hidden (pre @ 32 # post)"
proof -
  let ?e = "hidden_element open_name attrs body close_name ws"
  have "replace_all raw_element_at (?e @ u) = 32 # replace_all raw_element_at u" for u
    using replace_all_at [of raw_element_at 60 _ "[32]" u]
      raw_element_hidden [OF assms(1-3,5-7), of u] by (simp add: hidden_element_def)
  moreover have "comment_at (32 # u) = None" "raw_element_at (32 # u) = None" for u
    by (intro comment_needs raw_needs_lt; simp)+
  ultimately show ?thesis
    using assms(8) replace_comment_hidden [OF assms(1-4,6,7)]
    by (simp add: drop_hidden_def replace_comment_skip replace_raw_skip)
qed

section \<open>Properties\<close>

text \<open>
  C29: Canonicalisation always gives a clean text: one with no invisible or exotic space character,
  no doubled blank, no blank beside a line break, at most two line breaks in a row and nothing blank
  at its ends. A text that Unicode normalisation leaves alone is its own canonical form exactly when
  it is clean, so nothing else is ever removed from it.
\<close>

theorem canonical_exactly_clean:
  assumes "nfc t = t"
  shows "clean (canonicalizeText nfc s) \<and> (canonicalizeText nfc t = t) = clean t"
  using canonical_clean [of nfc s] canonical_clean [of nfc t] canonical_fixed [of t nfc] assms by metis

theorem canonical_exactly_clean_witness:
  "clean (canonicalizeText id (units '' a'')) \<and> (canonicalizeText id (units ''a  b'') = units ''a  b'') = clean (units ''a  b'')
     \<and> \<not> clean (units ''a  b'')"
  using canonical_exactly_clean [of id "units ''a  b''" "units '' a''"]
  by (simp add: clean_def beside_def units_def)

corollary canonical_idempotent:
  "nfc (canonicalizeText nfc s) = canonicalizeText nfc s \<Longrightarrow>
     canonicalizeText nfc (canonicalizeText nfc s) = canonicalizeText nfc s"
  using canonical_fixed [OF canonical_clean] .

text \<open>
  Without that condition it need not be: an invisible character between a letter and a combining
  accent keeps normalisation from composing them, and the second run does what the first could not.
\<close>

definition composing :: "utf16 \<Rightarrow> utf16" where
  "composing t = (if t = [0x65, 0x301] then [0xe9] else t)"

lemma canonical_not_idempotent:
  "composing (composing t) = composing t"
  "canonicalizeText composing [0x65, 0x200d, 0x301] = [0x65, 0x301]"
  "canonicalizeText composing [0x65, 0x301] = [0xe9]"
  by (simp_all add: composing_def canonicalizeText_def ZERO_WIDTH_def UNICODE_SPACES_def tidy_lines_def
      tidy_line_def strip_def is_white_def)

text \<open>
  What stands inside a script, style, noscript or template element never reaches the text: whatever
  its body (short of a closing tag or a comment), its attributes and the case of its tags, an
  element with a matching end reads as one space, and the text around it is read as before.
\<close>

theorem hidden_body_never_read:
  assumes "map lower_unit open_name \<in> set HIDDEN_TAGS" "map lower_unit close_name = map lower_unit open_name"
    and "attrs = [] \<or> \<not> is_word (hd attrs)" "60 \<notin> set attrs" "62 \<notin> set attrs"
    and "list_all is_white ws" "no_markup_end body" "60 \<notin> set pre"
  shows "htmlToText (pre @ hidden_element open_name attrs body close_name ws @ post) = htmlToText (pre @ 32 # post)"
  using drop_hidden_element [OF assms] by (simp add: htmlToText_def)

lemmas unit_class_defs = is_word_def is_alnum_def is_alpha_def lower_unit_def is_digit_unit_def is_white_def

theorem hidden_body_never_read_witness:
  "htmlToText (units ''a'' @ hidden_element (units ''Script'') (units '' src=x'') (units ''if (a<b) say(redeemable)'')
     (units ''SCRIPT'') (units '' '') @ units ''<b>b</b>'') = htmlToText (units ''a'' @ 32 # units ''<b>b</b>'')"
  by (rule hidden_body_never_read)
    (simp_all add: HIDDEN_TAGS_def units_def unit_class_defs no_markup_end_def)

text \<open>Two readings that are not what the decoder means.\<close>

lemma inherited_entity_decodes:
  "decodeEntities (units ''&toString;'') = units ''function toString() { [native code] }''"
  by (simp add: decodeEntities_def entity_at_def entity_body_def entity_named_def NAMED_ENTITIES_def
      INHERITED_NAMES_def units_def unit_class_defs)

lemma unclosed_script_read:
  "htmlToText (units ''<script>say()'') = units ''say()''"
proof -
  have "drop_hidden (units ''<script>say()'') = units ''<script>say()''"
    by (simp add: drop_hidden_def comment_at_def raw_element_at_def HIDDEN_TAGS_def units_def unit_class_defs
        closing_at_def)
  moreover have "replace_all block_at (units ''<script>say()'') = units ''<script>say()''"
    by (simp add: block_at_def after_slash_def BLOCK_TAGS_def units_def unit_class_defs)
  moreover have "replace_all any_tag_at (units ''<script>say()'') = units ''say()''"
    by (simp add: any_tag_at_def units_def)
  moreover have "decodeEntities (units ''say()'') = units ''say()''"
    by (simp add: decodeEntities_def entity_at_def units_def)
  ultimately show ?thesis
    by (simp add: htmlToText_def html_space_def tidy_lines_def tidy_line_def strip_def units_def is_white_def)
qed

end
