(* ===== verification/Evidence_Store.thy ===== *)
theory Evidence_Store
  imports Evidence_Text Evidence_Candidate Js_Json
begin

text \<open>
  Where the bytes of evidence are kept: the three object stores of \<open>services/evidence/src/store.ts\<close> and
  \<open>archive.ts\<close> and the archive manifests. The contract they share is the locale \<open>object_store\<close>.
  The digest \<open>keccak256\<close> of the viem package is the argument \<open>keccakB\<close>, the transport of the archive
  the arguments \<open>upload\<close> and \<open>download\<close>; whether the abort signal is set and the clock are arguments too.
\<close>

section \<open>The contract\<close>

record StoredObject =
  so_digest :: string
  so_size :: nat
  so_mediaType :: string
  so_storedAt :: int

record PutResult = StoredObject +
  pr_created :: bool

definition put_result :: "StoredObject \<Rightarrow> bool \<Rightarrow> PutResult" where
  "put_result m created = StoredObject.extend m (PutResult.fields created)"

lemma put_result_simps [simp]:
  "so_digest (put_result m c) = so_digest m" "so_size (put_result m c) = so_size m"
  "so_mediaType (put_result m c) = so_mediaType m" "so_storedAt (put_result m c) = so_storedAt m"
  "pr_created (put_result m c) = c" "put_result m c = put_result m' c' \<longleftrightarrow> m = m' \<and> c = c'"
  "StoredObject.truncate (put_result m c) = m"
  by (auto simp: put_result_def StoredObject.defs PutResult.defs)

datatype store_error = Aborted | WriteFailed | TransportFailed | ArchivedBytesMismatch string string

type_synonym bytes = "nat list"
type_synonym 'st putting = "bool \<Rightarrow> int \<Rightarrow> bytes \<Rightarrow> string \<Rightarrow> 'st \<Rightarrow> (store_error + PutResult) \<times> 'st"

definition objectKey :: "(bytes \<Rightarrow> string) \<Rightarrow> bytes \<Rightarrow> string" where
  "objectKey keccakB bs = keccakB bs"

locale object_store =
  fixes key :: "bytes \<Rightarrow> string"
    and put :: "'st putting"
    and get :: "string \<Rightarrow> 'st \<Rightarrow> store_error + bytes option"
    and head :: "string \<Rightarrow> 'st \<Rightarrow> StoredObject option"
    and sound :: "'st \<Rightarrow> bool"
    and digest :: "string \<Rightarrow> bool"
  assumes key_digest: "digest (key bs)"
    and put_sound: "sound st \<Longrightarrow> sound (snd (put aborted now bs mt st))"
    and get_sound: "sound st \<Longrightarrow> digest d \<Longrightarrow> get d st = Inr (Some bs) \<Longrightarrow> key bs = d"
    and put_present: "\<not> aborted \<Longrightarrow> head (key bs) st = Some m
        \<Longrightarrow> put aborted now bs mt st = (Inr (put_result m False), st)"
    and put_absent: "put aborted now bs mt st = (Inr r, st') \<Longrightarrow> head (key bs) st = None
        \<Longrightarrow> \<exists>m. r = put_result m True \<and> head (key bs) st' = Some m
              \<and> so_digest m = key bs \<and> so_size m = length bs \<and> so_mediaType m = mt"
    and put_refused: "put aborted now bs mt st = (Inl e, st') \<Longrightarrow> digest d \<Longrightarrow> head d st' = head d st"
    and put_aborted: "put True now bs mt st = (Inr r, st') \<Longrightarrow> put False now bs mt st = (Inr r, st')"
    and put_others: "digest d \<Longrightarrow> d \<noteq> key bs \<Longrightarrow> head d (snd (put aborted now bs mt st)) = head d st"
    and head_digest: "sound st \<Longrightarrow> digest d \<Longrightarrow> head d st = Some m \<Longrightarrow> so_digest m = d"
begin

lemma put_returns:
  assumes "put aborted now bs mt st = (Inr r, st')"
  obtains m where "head (key bs) st' = Some m" "r = put_result m (head (key bs) st = None)"
    "head (key bs) st \<noteq> None \<Longrightarrow> st' = st \<and> head (key bs) st = Some m"
proof (cases "head (key bs) st")
  case None
  with put_absent [OF assms] that show ?thesis by auto
next
  case (Some m)
  have "put False now bs mt st = (Inr r, st')"
  proof (cases aborted)
    case True
    with assms show ?thesis by (intro put_aborted) simp
  qed (use assms in simp)
  moreover have "put False now bs mt st = (Inr (put_result m False), st)"
    using Some by (intro put_present) simp_all
  ultimately have "r = put_result m False" "st' = st" by (metis Pair_inject sum.inject(2))+
  then show ?thesis using Some by (intro that [of m]) simp_all
qed

text \<open>Storing the same bytes again changes nothing and says so.\<close>

lemma put_again:
  assumes "put aborted now bs mt st = (Inr r, st')"
  shows "put False now' bs mt' st' = (Inr (put_result (StoredObject.truncate r) False), st')"
  using assms by (elim put_returns) (simp add: put_present)

text \<open>What is stored stays as it is.\<close>

lemma head_kept:
  assumes "head d st = Some m" "digest d"
  shows "head d (snd (put aborted now bs mt st)) = Some m"
proof (cases "d = key bs")
  case True
  obtain r st' where p: "put aborted now bs mt st = (r, st')" by fastforce
  show ?thesis
  proof (cases r)
    case (Inl e)
    with p assms put_refused [of aborted now bs mt st e st' d] show ?thesis by simp
  next
    case (Inr r')
    then have "put aborted now bs mt st = (Inr r', st')" using p by simp
    then show ?thesis using p assms(1) True by (elim put_returns) auto
  qed
qed (use assms put_others in simp)

end

section \<open>In memory\<close>

record MemoryStore =
  ms_objects :: "(string \<times> bytes \<times> StoredObject) list"
  ms_writes :: nat

definition memory_put :: "(bytes \<Rightarrow> string) \<Rightarrow> MemoryStore putting" where
  "memory_put keccakB aborted now bs mediaType st =
     (if aborted then (Inl Aborted, st)
      else let digest = objectKey keccakB bs
           in case map_of (ms_objects st) digest of
                Some (_, meta) \<Rightarrow> (Inr (put_result meta False), st)
              | None \<Rightarrow>
                  let meta = \<lparr>so_digest = digest, so_size = length bs, so_mediaType = mediaType, so_storedAt = now\<rparr>
                  in (Inr (put_result meta True),
                      \<lparr>ms_objects = AList.update digest (bs, meta) (ms_objects st), ms_writes = ms_writes st + 1\<rparr>))"

definition memory_get :: "bool \<Rightarrow> string \<Rightarrow> MemoryStore \<Rightarrow> store_error + bytes option" where
  "memory_get aborted d st =
     (if aborted then Inl Aborted else Inr (map_option fst (map_of (ms_objects st) d)))"

definition memory_head :: "bool \<Rightarrow> string \<Rightarrow> MemoryStore \<Rightarrow> store_error + StoredObject option" where
  "memory_head aborted d st =
     (if aborted then Inl Aborted else Inr (map_option snd (map_of (ms_objects st) d)))"

definition memory_sound :: "(bytes \<Rightarrow> string) \<Rightarrow> MemoryStore \<Rightarrow> bool" where
  "memory_sound keccakB st \<longleftrightarrow> list_all (\<lambda>(d, bs, m). keccakB bs = d \<and> so_digest m = d) (ms_objects st)"

lemma memory_sound_of: "memory_sound keccakB st \<Longrightarrow> map_of (ms_objects st) d = Some (bs, m) \<Longrightarrow> keccakB bs = d \<and> so_digest m = d"
  by (auto simp: memory_sound_def list_all_iff dest!: map_of_SomeD)

lemma list_all_update: "list_all P xs \<Longrightarrow> P (k, v) \<Longrightarrow> list_all P (AList.update k v xs)"
  by (induction xs) auto

definition read_head :: "store_error + StoredObject option \<Rightarrow> StoredObject option" where
  "read_head r = (case r of Inl _ \<Rightarrow> None | Inr m \<Rightarrow> m)"

interpretation mem: object_store "objectKey keccakB" "memory_put keccakB" "memory_get False"
  "\<lambda>d st. read_head (memory_head False d st)" "memory_sound keccakB" "\<lambda>_. True" for keccakB
  by unfold_locales
    (auto simp: memory_put_def memory_get_def memory_head_def read_head_def objectKey_def update_conv' Let_def
      memory_sound_def list_all_update dest!: memory_sound_of [unfolded memory_sound_def]
      split: option.splits if_splits)

section \<open>In the file system\<close>

text \<open>
  A file is a blob with its modification time or a sidecar, kept as what \<open>JSON.parse\<close> makes of it
  (\<open>None\<close> when it throws). Paths are \<open>root/ab/cdef...\<close>; sidecars and temporary files add a suffix.
  \<open>mkdir\<close> is not seen again and is left out, as are failures of the disk itself.
\<close>

datatype fs_file = Blob bytes int | Sidecar "json option"

record FileStore =
  fs_root :: string
  fs_files :: "string \<Rightarrow> fs_file option"

definition pathFor :: "string \<Rightarrow> string \<Rightarrow> string" where
  "pathFor root d = (let hex = drop 2 d in root @ ''/'' @ take 2 hex @ ''/'' @ drop 2 hex)"

definition meta_path :: "string \<Rightarrow> string" where "meta_path target = target @ ''.meta.json''"

definition tmp_path :: "string \<Rightarrow> string \<Rightarrow> string \<Rightarrow> string" where
  "tmp_path target pid random = target @ ''.'' @ pid @ ''.'' @ random @ ''.tmp''"

definition meta_json :: "StoredObject \<Rightarrow> json" where
  "meta_json m = JObj [(''digest'', JStr (so_digest m)), (''size'', JNum (int (so_size m))),
     (''mediaType'', JStr (so_mediaType m)), (''storedAt'', JNum (so_storedAt m))]"

definition json_field :: "string \<Rightarrow> json \<Rightarrow> json option" where
  "json_field k j = (case j of JObj fs \<Rightarrow> map_of fs k | _ \<Rightarrow> None)"

definition fs_get :: "bool \<Rightarrow> string \<Rightarrow> FileStore \<Rightarrow> store_error + bytes option" where
  "fs_get aborted d st =
     (if aborted then Inl Aborted
      else Inr (case fs_files st (pathFor (fs_root st) d) of Some (Blob bs _) \<Rightarrow> Some bs | _ \<Rightarrow> None))"

fun read_object :: "string \<Rightarrow> fs_file option \<Rightarrow> fs_file option \<Rightarrow> StoredObject option" where
  "read_object d (Some (Blob bs mtime)) (Some (Sidecar (Some j))) =
     (if j = JNull then None
      else Some \<lparr>so_digest = d, so_size = length bs,
        so_mediaType = (case json_field ''mediaType'' j of Some (JStr t) \<Rightarrow> t | _ \<Rightarrow> ''application/octet-stream''),
        so_storedAt = (case json_field ''storedAt'' j of Some (JNum n) \<Rightarrow> n | _ \<Rightarrow> mtime)\<rparr>)"
| "read_object d _ _ = None"

definition fs_head :: "bool \<Rightarrow> string \<Rightarrow> FileStore \<Rightarrow> store_error + StoredObject option" where
  "fs_head aborted d st =
     (if aborted then Inl Aborted
      else let target = pathFor (fs_root st) d
           in Inr (read_object d (fs_files st target) (fs_files st (meta_path target))))"

definition write_file :: "string \<Rightarrow> fs_file option \<Rightarrow> FileStore \<Rightarrow> FileStore" where
  "write_file p f st = st\<lparr>fs_files := (fs_files st)(p := f)\<rparr>"

definition rename_file :: "string \<Rightarrow> string \<Rightarrow> FileStore \<Rightarrow> FileStore" where
  "rename_file p q st = st\<lparr>fs_files := (fs_files st)(q := fs_files st p, p := None)\<rparr>"

definition fs_meta :: "(bytes \<Rightarrow> string) \<Rightarrow> int \<Rightarrow> bytes \<Rightarrow> string \<Rightarrow> StoredObject" where
  "fs_meta keccakB now bs mediaType =
     \<lparr>so_digest = objectKey keccakB bs, so_size = length bs, so_mediaType = mediaType, so_storedAt = now\<rparr>"

text \<open>
  The steps \<open>put\<close> takes on the disk, in order. The temporary file is created exclusively (\<open>wx\<close>), so
  creating it throws when the name is taken; a sidecar is written over whatever was there.
\<close>

datatype fs_step = CreateFile string bytes int | RenameFile string string | WriteSidecar string json

definition put_steps ::
  "(bytes \<Rightarrow> string) \<Rightarrow> string \<Rightarrow> string \<Rightarrow> int \<Rightarrow> bytes \<Rightarrow> string \<Rightarrow> FileStore \<Rightarrow> fs_step list" where
  "put_steps keccakB pid random now bs mediaType st =
     (let target = pathFor (fs_root st) (objectKey keccakB bs);
          tmp = tmp_path target pid random
      in [CreateFile tmp bs now, RenameFile tmp target,
          WriteSidecar (meta_path target) (meta_json (fs_meta keccakB now bs mediaType))])"

fun do_step :: "fs_step \<Rightarrow> FileStore \<Rightarrow> FileStore option" where
  "do_step (CreateFile p bs t) st = (if fs_files st p \<noteq> None then None else Some (write_file p (Some (Blob bs t)) st))"
| "do_step (RenameFile p q) st = Some (rename_file p q st)"
| "do_step (WriteSidecar p j) st = Some (write_file p (Some (Sidecar (Some j))) st)"

fun do_steps :: "fs_step list \<Rightarrow> FileStore \<Rightarrow> bool \<times> FileStore" where
  "do_steps [] st = (True, st)"
| "do_steps (s # ss) st = (case do_step s st of None \<Rightarrow> (False, st) | Some st' \<Rightarrow> do_steps ss st')"

text \<open>When creating the temporary file throws, the handler removes that file and throws on.\<close>

definition fs_put :: "(bytes \<Rightarrow> string) \<Rightarrow> string \<Rightarrow> string \<Rightarrow> FileStore putting" where
  "fs_put keccakB pid random aborted now bs mediaType st =
     (if aborted then (Inl Aborted, st)
      else let digest = objectKey keccakB bs
        in case read_head (fs_head False digest st) of
             Some existing \<Rightarrow> (Inr (put_result existing False), st)
           | None \<Rightarrow>
               (case do_steps (put_steps keccakB pid random now bs mediaType st) st of
                  (True, st') \<Rightarrow> (Inr (put_result (fs_meta keccakB now bs mediaType) True), st')
                | (False, st') \<Rightarrow> (Inl WriteFailed, write_file (tmp_path (pathFor (fs_root st) digest) pid random) None st')))"

text \<open>
  The process may die before any of these steps has begun (\<open>None\<close>) or in it: the steps before it are
  done, and of the step itself there is what was written so far. A temporary file holds some bytes,
  a sidecar is cut short, and a renaming is atomic. With all three steps done the put is complete.
\<close>

fun died_in :: "fs_step \<Rightarrow> bytes option \<Rightarrow> FileStore \<Rightarrow> FileStore" where
  "died_in s None st = st"
| "died_in (CreateFile p bs t) (Some part) st =
     (if fs_files st p \<noteq> None then st else write_file p (Some (Blob part t)) st)"
| "died_in (RenameFile p q) (Some part) st = st"
| "died_in (WriteSidecar p j) (Some part) st = write_file p (Some (Sidecar None)) st"

definition fs_put_crashed ::
  "(bytes \<Rightarrow> string) \<Rightarrow> string \<Rightarrow> string \<Rightarrow> nat \<Rightarrow> bytes option \<Rightarrow> int \<Rightarrow> bytes \<Rightarrow> string \<Rightarrow>
   FileStore \<Rightarrow> FileStore" where
  "fs_put_crashed keccakB pid random n part now bs mediaType st =
     (if read_head (fs_head False (objectKey keccakB bs) st) \<noteq> None then st
      else let ss = put_steps keccakB pid random now bs mediaType st
           in case do_steps (take n ss) st of
                (False, st') \<Rightarrow> st'
              | (True, st') \<Rightarrow> (case drop n ss of [] \<Rightarrow> st' | s # _ \<Rightarrow> died_in s part st'))"

text \<open>The steps of a put, spelled out.\<close>

lemma fs_put_eq:
  "fs_put keccakB pid random aborted now bs mediaType st =
     (if aborted then (Inl Aborted, st)
      else let digest = objectKey keccakB bs
        in case read_head (fs_head False digest st) of
             Some existing \<Rightarrow> (Inr (put_result existing False), st)
           | None \<Rightarrow>
               let target = pathFor (fs_root st) digest;
                   meta = fs_meta keccakB now bs mediaType;
                   tmp = tmp_path target pid random
               in if fs_files st tmp \<noteq> None then (Inl WriteFailed, write_file tmp None st)
                  else let st = write_file tmp (Some (Blob bs now)) st;
                           st = rename_file tmp target st;
                           st = write_file (meta_path target) (Some (Sidecar (Some (meta_json meta)))) st
                       in (Inr (put_result meta True), st))"
  by (auto simp: fs_put_def put_steps_def Let_def split: option.split)

lemma fs_put_crashed_cases:
  assumes "target = pathFor (fs_root st) (objectKey keccakB bs)" "tmp = tmp_path target pid random"
  shows "fs_put_crashed keccakB pid random n part now bs mt st = snd (fs_put keccakB pid random False now bs mt st)
    \<or> fs_put_crashed keccakB pid random n part now bs mt st = st
    \<or> (\<exists>written. fs_put_crashed keccakB pid random n part now bs mt st = write_file tmp (Some (Blob written now)) st)
    \<or> fs_put_crashed keccakB pid random n part now bs mt st
        = rename_file tmp target (write_file tmp (Some (Blob bs now)) st)
    \<or> fs_put_crashed keccakB pid random n part now bs mt st
        = write_file (meta_path target) (Some (Sidecar None)) (rename_file tmp target (write_file tmp (Some (Blob bs now)) st))"
proof -
  consider "n = 0" | "n = 1" | "n = 2" | m where "n = Suc (Suc (Suc m))"
    by (metis One_nat_def numeral_2_eq_2 old.nat.exhaust)
  then show ?thesis
    by cases (cases part; auto simp: fs_put_crashed_def fs_put_def put_steps_def Let_def assms numeral_2_eq_2
        split: option.split)+
qed

text \<open>A digest is \<open>0x\<close> and sixty-four characters.\<close>

definition digest_shape :: "string \<Rightarrow> bool" where
  "digest_shape d \<longleftrightarrow> length d = 66 \<and> take 2 d = ''0x''"

definition fs_sound :: "(bytes \<Rightarrow> string) \<Rightarrow> FileStore \<Rightarrow> bool" where
  "fs_sound keccakB st \<longleftrightarrow>
     (\<forall>d bs t. digest_shape d \<longrightarrow> fs_files st (pathFor (fs_root st) d) = Some (Blob bs t) \<longrightarrow> keccakB bs = d)"

lemma pathFor_length: "digest_shape d \<Longrightarrow> length (pathFor root d) = length root + 66"
  by (simp add: digest_shape_def pathFor_def Let_def)

lemma digest_split: "digest_shape d \<Longrightarrow> d = ''0x'' @ take 2 (drop 2 d) @ drop 2 (drop 2 d)"
  unfolding digest_shape_def by (metis append_take_drop_id)

lemma pathFor_inj:
  assumes "digest_shape d" "digest_shape d'" "pathFor root d = pathFor root d'"
  shows "d = d'"
proof -
  have l: "length (take 2 (drop 2 d)) = length (take 2 (drop 2 d'))" using assms by (simp add: digest_shape_def)
  have "take 2 (drop 2 d) @ ''/'' @ drop 2 (drop 2 d) = take 2 (drop 2 d') @ ''/'' @ drop 2 (drop 2 d')"
    using assms(3) by (simp add: pathFor_def Let_def)
  then have "take 2 (drop 2 d) = take 2 (drop 2 d') \<and> ''/'' @ drop 2 (drop 2 d) = ''/'' @ drop 2 (drop 2 d')"
    using l by simp
  then show ?thesis using digest_split [OF assms(1)] digest_split [OF assms(2)] by simp
qed

lemma path_distinct:
  assumes "digest_shape d" "digest_shape d'"
  shows "tmp_path (pathFor root d) p r \<noteq> pathFor root d'" "meta_path (pathFor root d) \<noteq> pathFor root d'"
    "pathFor root d' \<noteq> meta_path (pathFor root d)" "pathFor root d' \<noteq> tmp_path (pathFor root d) p r"
proof -
  have "length (tmp_path (pathFor root d) p r) \<noteq> length (pathFor root d')"
    "length (meta_path (pathFor root d)) \<noteq> length (pathFor root d')"
    using assms by (simp_all add: pathFor_length tmp_path_def meta_path_def)
  then show "tmp_path (pathFor root d) p r \<noteq> pathFor root d'" "meta_path (pathFor root d) \<noteq> pathFor root d'"
    "pathFor root d' \<noteq> meta_path (pathFor root d)" "pathFor root d' \<noteq> tmp_path (pathFor root d) p r"
    by metis+
qed

lemma meta_not_tmp: "meta_path t \<noteq> tmp_path t' p r" "tmp_path t' p r \<noteq> meta_path t"
proof -
  have "last (meta_path t) \<noteq> last (tmp_path t' p r)" by (simp add: meta_path_def tmp_path_def)
  then show "meta_path t \<noteq> tmp_path t' p r" "tmp_path t' p r \<noteq> meta_path t" by metis+
qed

lemma meta_path_inj: "digest_shape d \<Longrightarrow> digest_shape d' \<Longrightarrow>
    meta_path (pathFor root d) = meta_path (pathFor root d') \<Longrightarrow> d = d'"
  by (simp add: meta_path_def pathFor_inj)

lemmas fs_file_defs = write_file_def rename_file_def
lemmas fs_paths = path_distinct meta_not_tmp

text \<open>What the disk holds for a digest: the object and its sidecar. Nothing else is ever read.\<close>

definition look :: "FileStore \<Rightarrow> string \<Rightarrow> fs_file option \<times> fs_file option" where
  "look st d = (fs_files st (pathFor (fs_root st) d), fs_files st (meta_path (pathFor (fs_root st) d)))"

lemma fs_root_steps [simp]: "fs_root (write_file p f st) = fs_root st" "fs_root (rename_file p q st) = fs_root st"
  by (simp_all add: fs_file_defs)

lemma look_steps:
  assumes "digest_shape d" "digest_shape d'" "root = fs_root st"
  shows "look (write_file (tmp_path (pathFor root d') p r) f st) d = look st d"
    and "look (rename_file (tmp_path (pathFor root d') p r) (pathFor root d') st) d
      = (if d = d' then (fs_files st (tmp_path (pathFor root d') p r), snd (look st d)) else look st d)"
    and "look (write_file (meta_path (pathFor root d')) f st) d = (if d = d' then (fst (look st d), f) else look st d)"
  using assms by (auto simp: look_def fs_file_defs fs_paths dest: pathFor_inj meta_path_inj)

lemma look_head: "look st d = look st' d \<Longrightarrow> fs_head False d st = fs_head False d st'"
  by (simp add: look_def fs_head_def Let_def)

lemma look_get: "fs_get False d st = Inr (case fst (look st d) of Some (Blob bs _) \<Rightarrow> Some bs | _ \<Rightarrow> None)"
  by (simp add: look_def fs_get_def)

lemma fs_sound_look: "fs_sound keccakB st \<longleftrightarrow>
    (\<forall>d bs t. digest_shape d \<longrightarrow> fst (look st d) = Some (Blob bs t) \<longrightarrow> keccakB bs = d)"
  by (simp add: fs_sound_def look_def)

lemma written_tmp: "fs_files (write_file p f st) p = f"
  by (simp add: write_file_def)

lemma fs_put_look:
  assumes "digest_shape (keccakB bs)" "digest_shape d"
  shows "look (snd (fs_put keccakB p r a n bs mt st)) d = look st d
    \<or> d = keccakB bs \<and> fst (fs_put keccakB p r a n bs mt st) = Inr (put_result (fs_meta keccakB n bs mt) True)
      \<and> look (snd (fs_put keccakB p r a n bs mt st)) d
          = (Some (Blob bs n), Some (Sidecar (Some (meta_json (fs_meta keccakB n bs mt)))))"
  using assms
  by (auto simp: fs_put_eq Let_def objectKey_def look_steps written_tmp split: option.split)

lemma fs_crash_look:
  assumes "digest_shape (keccakB bs)" "digest_shape d"
  shows "look (fs_put_crashed keccakB p r n part t bs mt st) d = look st d
    \<or> d = keccakB bs \<and> fst (look (fs_put_crashed keccakB p r n part t bs mt st) d) = Some (Blob bs t)"
proof -
  define target where "target = pathFor (fs_root st) (keccakB bs)"
  define tmp where "tmp = tmp_path target p r"
  define wrote where "wrote = rename_file tmp target (write_file tmp (Some (Blob bs t)) st)"
  have w: "look (write_file tmp x st) d = look st d" for x using assms by (simp add: tmp_def target_def look_steps)
  have m: "look wrote d = (if d = keccakB bs then (Some (Blob bs t), snd (look st d)) else look st d)"
    using assms by (simp add: wrote_def tmp_def target_def look_steps written_tmp)
  have "fs_root wrote = fs_root st" by (simp add: wrote_def)
  then have c: "look (write_file (meta_path target) f wrote) d = (if d = keccakB bs then (fst (look wrote d), f) else look wrote d)" for f
    using look_steps(3) [OF assms(2,1), of "fs_root st" wrote f] by (simp add: target_def)
  have "target = pathFor (fs_root st) (objectKey keccakB bs)" by (simp add: target_def objectKey_def)
  note cs = fs_put_crashed_cases [OF this tmp_def, of n part t mt, folded wrote_def]
  have ok: "look x d = look st d \<or> d = keccakB bs \<and> fst (look x d) = Some (Blob bs t)"
    if "x \<in> {snd (fs_put keccakB p r False t bs mt st), st, write_file tmp f st, wrote, write_file (meta_path target) g wrote}" for x f g
    using that
  proof (elim insertE)
    assume "x = snd (fs_put keccakB p r False t bs mt st)"
    then show ?thesis using fs_put_look [of keccakB bs d p r False t mt st] assms by (metis fst_conv)
  next
    assume "x = write_file (meta_path target) g wrote"
    then show ?thesis using c [of g] m by (cases "d = keccakB bs") simp_all
  next
    assume "x = wrote"
    then show ?thesis using m by (cases "d = keccakB bs") simp_all
  qed (simp_all add: w)
  from cs have "\<exists>f g. fs_put_crashed keccakB p r n part t bs mt st
      \<in> {snd (fs_put keccakB p r False t bs mt st), st, write_file tmp f st, wrote, write_file (meta_path target) g wrote}"
    unfolding insert_iff by metis
  then show ?thesis using ok by blast
qed

lemma fs_head_written:
  assumes "look st (keccakB bs) = (Some (Blob bs n), Some (Sidecar (Some (meta_json (fs_meta keccakB m bs mt)))))"
  shows "fs_head False (keccakB bs) st = Inr (Some (fs_meta keccakB m bs mt))"
  using assms
  by (simp add: look_def fs_head_def Let_def meta_json_def fs_meta_def json_field_def objectKey_def)

lemma fs_put_soundness:
  assumes "\<And>b. digest_shape (keccakB b)" "fs_sound keccakB st"
  shows "fs_sound keccakB (snd (fs_put keccakB p r a n bs mt st))"
    and "fs_sound keccakB (fs_put_crashed keccakB p r k part n bs mt st)"
  using assms fs_put_look [of keccakB bs, OF assms(1)] fs_crash_look [of keccakB bs, OF assms(1)]
  unfolding fs_sound_look by (metis fs_file.inject(1) fst_conv option.inject)+

lemma fs_head_digest: "fs_head False d st = Inr (Some m) \<Longrightarrow> so_digest m = d"
  by (cases "(d, fs_files st (pathFor (fs_root st) d), fs_files st (meta_path (pathFor (fs_root st) d)))"
      rule: read_object.cases) (auto simp: fs_head_def Let_def split: if_splits)

lemma read_head_fs: "read_head (fs_head False d st) = x \<longleftrightarrow> fs_head False d st = Inr x"
  by (auto simp: fs_head_def read_head_def Let_def)

lemma fs_object_store:
  assumes shape: "\<And>bs. digest_shape (keccakB bs)"
  shows "object_store (objectKey keccakB) (fs_put keccakB p r) (fs_get False)
    (\<lambda>d st. read_head (fs_head False d st)) (fs_sound keccakB) digest_shape"
proof
  fix bs d st m aborted now mt e st' pr
  note look = fs_put_look [of keccakB bs d, OF shape]
  show "digest_shape (objectKey keccakB bs)" by (simp add: objectKey_def shape)
  show "fs_sound keccakB st \<Longrightarrow> fs_sound keccakB (snd (fs_put keccakB p r aborted now bs mt st))"
    by (rule fs_put_soundness(1) [OF shape])
  show "fs_sound keccakB st \<Longrightarrow> digest_shape d \<Longrightarrow> fs_get False d st = Inr (Some bs) \<Longrightarrow> objectKey keccakB bs = d"
    by (auto simp: fs_sound_look look_get objectKey_def split: option.splits fs_file.splits)
  show "\<not> aborted \<Longrightarrow> read_head (fs_head False (objectKey keccakB bs) st) = Some m
      \<Longrightarrow> fs_put keccakB p r aborted now bs mt st = (Inr (put_result m False), st)"
    by (simp add: fs_put_eq)
  show "digest_shape d \<Longrightarrow> d \<noteq> objectKey keccakB bs \<Longrightarrow>
      read_head (fs_head False d (snd (fs_put keccakB p r aborted now bs mt st))) = read_head (fs_head False d st)"
    using look [of p r aborted now mt st] by (metis look_head objectKey_def)
  show "fs_put keccakB p r aborted now bs mt st = (Inl e, st') \<Longrightarrow> digest_shape d \<Longrightarrow>
      read_head (fs_head False d st') = read_head (fs_head False d st)"
    using look [of p r aborted now mt st] by (metis Inl_Inr_False fst_conv look_head snd_conv)
  show "fs_put keccakB p r True now bs mt st = (Inr pr, st') \<Longrightarrow> fs_put keccakB p r False now bs mt st = (Inr pr, st')"
    by (simp add: fs_put_eq)
  show "fs_sound keccakB st \<Longrightarrow> digest_shape d \<Longrightarrow> read_head (fs_head False d st) = Some m \<Longrightarrow> so_digest m = d"
    by (simp add: read_head_fs fs_head_digest)
  show "fs_put keccakB p r aborted now bs mt st = (Inr pr, st') \<Longrightarrow> read_head (fs_head False (objectKey keccakB bs) st) = None
      \<Longrightarrow> \<exists>m. pr = put_result m True \<and> read_head (fs_head False (objectKey keccakB bs) st') = Some m
            \<and> so_digest m = objectKey keccakB bs \<and> so_size m = length bs \<and> so_mediaType m = mt"
  proof -
    assume a: "fs_put keccakB p r aborted now bs mt st = (Inr pr, st')"
      and n: "read_head (fs_head False (objectKey keccakB bs) st) = None"
    let ?m = "fs_meta keccakB now bs mt"
    from a n have "pr = put_result ?m True" by (auto simp: fs_put_eq Let_def split: if_splits)
    moreover from a n have "look st' (keccakB bs) = (Some (Blob bs now), Some (Sidecar (Some (meta_json ?m))))"
      using shape by (auto simp: fs_put_eq Let_def objectKey_def look_steps written_tmp split: if_splits)
    then have "fs_head False (keccakB bs) st' = Inr (Some ?m)" by (rule fs_head_written)
    ultimately show ?thesis by (intro exI [of _ ?m]) (simp add: read_head_def objectKey_def fs_meta_def)
  qed
qed

section \<open>In the decentralised archive\<close>

record ZeroGArchiveRecord =
  za_root :: string
  za_storedAt :: int

type_synonym ZeroGStore = "(string \<times> StoredObject \<times> string) list"
type_synonym uploading = "bytes \<Rightarrow> string \<Rightarrow> store_error + ZeroGArchiveRecord"
type_synonym downloading = "string \<Rightarrow> store_error + bytes option"

definition zerog_put :: "(bytes \<Rightarrow> string) \<Rightarrow> uploading \<Rightarrow> bytes \<Rightarrow> string \<Rightarrow> ZeroGStore
    \<Rightarrow> (store_error + PutResult) \<times> ZeroGStore" where
  "zerog_put keccakB upload bs mediaType st =
     (let digest = objectKey keccakB bs
      in case map_of st digest of
           Some (stored, _) \<Rightarrow> (Inr (put_result stored False), st)
         | None \<Rightarrow>
             (case upload bs mediaType of
                Inl e \<Rightarrow> (Inl e, st)
              | Inr remote \<Rightarrow>
                  let stored = \<lparr>so_digest = digest, so_size = length bs, so_mediaType = mediaType,
                                so_storedAt = za_storedAt remote\<rparr>
                  in (Inr (put_result stored True), AList.update digest (stored, za_root remote) st)))"

definition zerog_get :: "(bytes \<Rightarrow> string) \<Rightarrow> downloading \<Rightarrow> string \<Rightarrow> ZeroGStore \<Rightarrow> store_error + bytes option" where
  "zerog_get keccakB download d st =
     (case map_of st d of
        None \<Rightarrow> Inr None
      | Some (_, root) \<Rightarrow> bindR (download root) (\<lambda>r. case r of
            None \<Rightarrow> Inr None
          | Some bs \<Rightarrow> let actual = objectKey keccakB bs
              in if actual \<noteq> d then Inl (ArchivedBytesMismatch d actual) else Inr (Some bs)))"

definition zerog_head :: "string \<Rightarrow> ZeroGStore \<Rightarrow> StoredObject option" where
  "zerog_head d st = map_option fst (map_of st d)"

definition rootFor :: "string \<Rightarrow> ZeroGStore \<Rightarrow> string option" where
  "rootFor d st = map_option snd (map_of st d)"

definition zerog_sound :: "ZeroGStore \<Rightarrow> bool" where
  "zerog_sound st \<longleftrightarrow> list_all (\<lambda>(d, m, root). so_digest m = d) st"

lemma zerog_sound_of: "zerog_sound st \<Longrightarrow> map_of st d = Some (m, root) \<Longrightarrow> so_digest m = d"
  by (auto simp: zerog_sound_def list_all_iff dest!: map_of_SomeD)

interpretation zg: object_store "objectKey keccakB" "\<lambda>aborted now. zerog_put keccakB upload"
  "zerog_get keccakB download" zerog_head zerog_sound "\<lambda>_. True" for keccakB upload download
  by unfold_locales
    (auto simp: zerog_put_def zerog_get_def zerog_head_def objectKey_def update_conv' Let_def
      zerog_sound_def list_all_update dest!: zerog_sound_of [unfolded zerog_sound_def]
      split: option.splits sum.splits if_splits)

section \<open>Archive manifests\<close>

datatype EvidenceArchiveClassification = PUBLIC | APPROVED_ARCHIVE | CONFIDENTIAL | RESTRICTED

record EvidenceArchiveManifest =
  am_evidenceId :: string
  am_sourceDigest :: string
  am_canonicalContentHash :: string
  am_mediaType :: string
  am_size :: nat
  am_classification :: EvidenceArchiveClassification
  am_storageRoot :: string
  am_archivedAt :: int

datatype archive_error =
    ArchiveEligibilityRejected EvidenceArchiveClassification
  | ArchiveStoreFailed store_error
  | NoRootRetained
  | ArchiveUnavailable string
  | ArchiveMismatch string string

definition archiveApprovedEvidence ::
  "(bytes \<Rightarrow> string) \<Rightarrow> uploading \<Rightarrow> EvidenceArchiveClassification \<Rightarrow> string \<Rightarrow> string \<Rightarrow> bytes \<Rightarrow> string
     \<Rightarrow> ZeroGStore \<Rightarrow> (archive_error + EvidenceArchiveManifest) \<times> ZeroGStore" where
  "archiveApprovedEvidence keccakB upload classification evidence canonicalContentHash bs mediaType st =
     (if classification \<noteq> PUBLIC \<and> classification \<noteq> APPROVED_ARCHIVE
      then (Inl (ArchiveEligibilityRejected classification), st)
      else case zerog_put keccakB upload bs mediaType st of
             (Inl e, st) \<Rightarrow> (Inl (ArchiveStoreFailed e), st)
           | (Inr stored, st) \<Rightarrow>
               (case rootFor (so_digest stored) st of
                  None \<Rightarrow> (Inl NoRootRetained, st)
                | Some root \<Rightarrow>
                    (Inr \<lparr>am_evidenceId = evidence, am_sourceDigest = so_digest stored,
                       am_canonicalContentHash = canonicalContentHash, am_mediaType = so_mediaType stored,
                       am_size = so_size stored, am_classification = classification,
                       am_storageRoot = root, am_archivedAt = so_storedAt stored\<rparr>, st)))"

definition verifyArchivedEvidence ::
  "(bytes \<Rightarrow> string) \<Rightarrow> downloading \<Rightarrow> EvidenceArchiveManifest \<Rightarrow> archive_error + bytes" where
  "verifyArchivedEvidence keccakB download manifest =
     (case download (am_storageRoot manifest) of
        Inl e \<Rightarrow> Inl (ArchiveStoreFailed e)
      | Inr None \<Rightarrow> Inl (ArchiveUnavailable (am_storageRoot manifest))
      | Inr (Some bs) \<Rightarrow>
          let actual = objectKey keccakB bs
          in if actual \<noteq> am_sourceDigest manifest then Inl (ArchiveMismatch (am_sourceDigest manifest) actual)
             else Inr bs)"

section \<open>Properties\<close>

text \<open>Everything a process can do to the directory: puts that finish or throw, and puts that die.\<close>

inductive fs_run :: "(bytes \<Rightarrow> string) \<Rightarrow> string \<Rightarrow> FileStore \<Rightarrow> bool" for keccakB root where
  fs_empty: "fs_run keccakB root \<lparr>fs_root = root, fs_files = Map.empty\<rparr>"
| fs_putting: "fs_run keccakB root st \<Longrightarrow> fs_run keccakB root (snd (fs_put keccakB pid random aborted now bs mt st))"
| fs_crashing: "fs_run keccakB root st \<Longrightarrow> fs_run keccakB root (fs_put_crashed keccakB pid random n part now bs mt st)"

lemma fs_run_sound:
  assumes "fs_run keccakB root st" "\<forall>bs. digest_shape (keccakB bs)"
  shows "fs_sound keccakB st"
  using assms by (induction rule: fs_run.induct) (auto simp: fs_put_soundness, simp add: fs_sound_def)

lemma put_then_get:
  assumes "digest_shape (keccakB bs)" "fs_put keccakB pid random aborted now bs mt st = (Inr r, st')"
  shows "\<exists>bs'. fs_get False (keccakB bs) st' = Inr (Some bs')"
proof -
  from assms(2) consider m where "fs_head False (keccakB bs) st' = Inr (Some m)"
    | "look st' (keccakB bs) = (Some (Blob bs now), Some (Sidecar (Some (meta_json (fs_meta keccakB now bs mt)))))"
    using assms(1) by (auto simp: fs_put_eq Let_def objectKey_def look_steps written_tmp read_head_fs split: if_splits option.splits)
  then show ?thesis
  proof cases
    case 1
    then show ?thesis
      by (cases "(keccakB bs, fs_files st' (pathFor (fs_root st') (keccakB bs)), fs_files st' (meta_path (pathFor (fs_root st') (keccakB bs))))"
          rule: read_object.cases) (auto simp: fs_head_def fs_get_def Let_def)
  qed (simp add: look_get)
qed

lemma put_keeps_reading:
  assumes "\<forall>bs. digest_shape (keccakB bs)" "digest_shape d" "fs_get False d st = Inr (Some got)"
    and "st' = snd (fs_put keccakB pid random aborted now bs mt st) \<or> st' = fs_put_crashed keccakB pid random n part now bs mt st"
  shows "\<exists>got'. fs_get False d st' = Inr (Some got')"
proof -
  obtain t where "fst (look st d) = Some (Blob got t)"
    using assms(3) by (auto simp: look_get split: option.splits fs_file.splits)
  moreover have "look st' d = look st d \<or> (\<exists>b u. fst (look st' d) = Some (Blob b u))"
    using assms(4) fs_put_look [of keccakB bs d pid random aborted now mt st]
      fs_crash_look [of keccakB bs d pid random n part now mt st] assms(1,2) by auto
  ultimately have "\<exists>b u. fst (look st' d) = Some (Blob b u)" by metis
  then show ?thesis by (auto simp: look_get)
qed

text \<open>
  C7: However the file store was used and wherever processes died inside a write, what it gives back
  under a digest hashes to that digest, so a truncated or swapped object is never served. From any
  such state, the empty one included and also after a first write that died, storing bytes under a temporary name that is
  free succeeds and makes them readable, up to bytes of the same digest; and what is readable stays
  readable through every later put, also one that throws or dies.
\<close>

theorem crashed_store_never_lies:
  assumes "fs_run keccakB root st" "\<forall>bs. digest_shape (keccakB bs)"
  shows "(digest_shape d \<and> fs_get False d st = Inr (Some got) \<longrightarrow> keccakB got = d
      \<and> (\<exists>got'. fs_get False d (snd (fs_put keccakB pid random aborted now bs mt st)) = Inr (Some got') \<and> keccakB got' = d)
      \<and> (\<exists>got'. fs_get False d (fs_put_crashed keccakB pid random n part now bs mt st) = Inr (Some got') \<and> keccakB got' = d))
    \<and> (fs_files st (tmp_path (pathFor (fs_root st) (keccakB bs)) pid random) = None \<longrightarrow>
        (\<exists>r st' again. fs_put keccakB pid random False now bs mt st = (Inr r, st')
          \<and> fs_get False (keccakB bs) st' = Inr (Some again) \<and> keccakB again = keccakB bs))"
proof -
  note st = fs_object_store [of keccakB pid random]
  have read: "keccakB b = d" if "fs_run keccakB root u" "digest_shape d" "fs_get False d u = Inr (Some b)" for u d b
    using object_store.get_sound [OF st fs_run_sound [OF that(1) assms(2)] that(2,3)] assms(2) by (simp add: objectKey_def)
  have kept: "keccakB got = d
      \<and> (\<exists>got'. fs_get False d (snd (fs_put keccakB pid random aborted now bs mt st)) = Inr (Some got') \<and> keccakB got' = d)
      \<and> (\<exists>got'. fs_get False d (fs_put_crashed keccakB pid random n part now bs mt st) = Inr (Some got') \<and> keccakB got' = d)"
    if "digest_shape d" "fs_get False d st = Inr (Some got)"
    using read [OF assms(1) that] put_keeps_reading [OF assms(2) that] read [OF fs_putting [OF assms(1)] that(1)]
      read [OF fs_crashing [OF assms(1)] that(1)] by metis
  have again: "\<exists>r st' again. fs_put keccakB pid random False now bs mt st = (Inr r, st')
          \<and> fs_get False (keccakB bs) st' = Inr (Some again) \<and> keccakB again = keccakB bs"
    if free: "fs_files st (tmp_path (pathFor (fs_root st) (keccakB bs)) pid random) = None"
  proof -
    obtain r st' where p: "fs_put keccakB pid random False now bs mt st = (Inr r, st')"
      using free by (cases "read_head (fs_head False (keccakB bs) st)") (auto simp: fs_put_eq Let_def objectKey_def)
    then obtain b where g: "fs_get False (keccakB bs) st' = Inr (Some b)"
      using put_then_get assms(2) by blast
    moreover have "fs_run keccakB root st'" using fs_putting [OF assms(1), of pid random False now bs mt] p by simp
    ultimately show ?thesis using p read assms(2) by blast
  qed
  show ?thesis using kept again by blast
qed

definition length_digest :: "bytes \<Rightarrow> string" where
  "length_digest bs = ''0x'' @ replicate 64 (digit_char (length bs mod 10))"

lemma length_digest_shape: "digest_shape (length_digest bs)"
  by (simp add: length_digest_def digest_shape_def)

theorem crashed_store_never_lies_witness:
  "\<exists>st got. fs_get False (length_digest [7]) st = Inr (Some got) \<and> length_digest got = length_digest [7]
     \<and> fs_head False (length_digest [7]) st = Inr None
     \<and> (\<exists>r st' again. fs_put length_digest ''1'' ''b'' False 5 [7] ''text/plain'' st = (Inr r, st')
          \<and> fs_get False (length_digest [7]) st' = Inr (Some again) \<and> length_digest again = length_digest [7])
     \<and> (\<exists>r st' again. fs_put length_digest ''1'' ''a'' False 5 [7] ''text/plain'' \<lparr>fs_root = ''data'', fs_files = Map.empty\<rparr> = (Inr r, st')
          \<and> fs_get False (length_digest [7]) st' = Inr (Some again) \<and> length_digest again = length_digest [7])"
proof -
  let ?e = "\<lparr>fs_root = ''data'', fs_files = Map.empty\<rparr>" and ?d = "length_digest [7]"
  let ?s = "fs_put_crashed length_digest ''1'' ''a'' 2 None 5 [7] ''text/plain'' ?e"
  have run: "fs_run length_digest ''data'' ?s" by (intro fs_crashing fs_empty)
  have shape: "\<forall>bs. digest_shape (length_digest bs)" by (simp add: length_digest_shape)
  have "fs_head False ?d ?e = Inr None" by (simp add: fs_head_def)
  then have s: "?s = rename_file (tmp_path (pathFor ''data'' ?d) ''1'' ''a'') (pathFor ''data'' ?d)
      (write_file (tmp_path (pathFor ''data'' ?d) ''1'' ''a'') (Some (Blob [7] 5)) ?e)"
    by (simp add: fs_put_crashed_def put_steps_def objectKey_def read_head_def Let_def numeral_2_eq_2)
  note dist = length_digest_shape fs_paths
  have get: "fs_get False ?d ?s = Inr (Some [7])" and head: "fs_head False ?d ?s = Inr None"
    unfolding s by (simp_all add: fs_get_def fs_head_def fs_file_defs dist)
  have "tmp_path t ''1'' ''b'' \<noteq> tmp_path t ''1'' ''a''" for t by (simp add: tmp_path_def)
  then have free: "fs_files ?s (tmp_path (pathFor (fs_root ?s) ?d) ''1'' ''b'') = None"
    unfolding s by (simp add: fs_file_defs dist)
  have e: "fs_files ?e (tmp_path (pathFor (fs_root ?e) ?d) ''1'' ''a'') = None" by simp
  note crashed = crashed_store_never_lies [OF run shape, of ?d "[7]" "''1''" "''b''" False 5 "[7]" "''text/plain''" 0 None]
  note empty = crashed_store_never_lies [OF fs_empty [of length_digest "''data''"] shape, of ?d "[7]" "''1''" "''a''" False 5 "[7]" "''text/plain''" 0 None]
  show ?thesis
    using conjunct1 [OF crashed] conjunct2 [OF crashed, THEN mp, OF free] conjunct2 [OF empty, THEN mp, OF e] length_digest_shape get head
    by blast
qed

text \<open>
  Confidential and restricted evidence is refused for the public archive whatever the transport
  would say, with nothing stored. For eligible evidence the manifest names the digest of the bytes,
  and verification against it accepts the archived bytes and refuses any bytes of another digest.
\<close>

theorem archive_eligible_and_verified:
  assumes "zerog_sound st"
    and "archiveApprovedEvidence keccakB upload classification evidence contentHash bs mt st = (Inr manifest, st')"
  shows "classification \<in> {PUBLIC, APPROVED_ARCHIVE} \<and> am_sourceDigest manifest = keccakB bs
    \<and> (download (am_storageRoot manifest) = Inr (Some bs) \<longrightarrow> verifyArchivedEvidence keccakB download manifest = Inr bs)
    \<and> (verifyArchivedEvidence keccakB download manifest = Inr got \<longrightarrow> keccakB got = keccakB bs)
    \<and> archiveApprovedEvidence keccakB upload CONFIDENTIAL e' h' bs' mt' st' = (Inl (ArchiveEligibilityRejected CONFIDENTIAL), st')
    \<and> archiveApprovedEvidence keccakB upload RESTRICTED e' h' bs' mt' st' = (Inl (ArchiveEligibilityRejected RESTRICTED), st')"
proof -
  have c: "classification \<in> {PUBLIC, APPROVED_ARCHIVE}"
    using assms(2) by (auto simp: archiveApprovedEvidence_def split: if_splits)
  then obtain r st1 where p: "zerog_put keccakB upload bs mt st = (Inr r, st1)"
    and m: "am_sourceDigest manifest = so_digest r"
    using assms(2) by (fastforce simp: archiveApprovedEvidence_def split: prod.splits sum.splits option.splits)
  obtain s where s: "zerog_head (keccakB bs) st1 = Some s" "so_digest r = so_digest s"
    using p by (elim zg.put_returns) (simp add: objectKey_def)
  have "zerog_sound st1" using zg.put_sound [OF assms(1), of keccakB upload bs mt] p by simp
  then have "am_sourceDigest manifest = keccakB bs" using zg.head_digest [OF _ _ s(1)] s(2) m by simp
  then show ?thesis
    using c by (auto simp: verifyArchivedEvidence_def archiveApprovedEvidence_def Let_def objectKey_def
        split: sum.splits option.splits if_splits)
qed

theorem archive_eligible_and_verified_witness:
  "\<exists>manifest st'. archiveApprovedEvidence length_digest (\<lambda>_ _. Inr \<lparr>za_root = ''r'', za_storedAt = 5\<rparr>) PUBLIC
       ''e'' ''h'' [7] ''text/plain'' [] = (Inr manifest, st')
     \<and> am_sourceDigest manifest = length_digest [7]
     \<and> verifyArchivedEvidence length_digest (\<lambda>_. Inr (Some [7])) manifest = Inr [7]"
proof -
  let ?up = "\<lambda>(_ :: bytes) (_ :: string). Inr \<lparr>za_root = ''r'', za_storedAt = 5\<rparr> :: store_error + ZeroGArchiveRecord"
  have "\<exists>manifest st'. archiveApprovedEvidence length_digest ?up PUBLIC ''e'' ''h'' [7] ''text/plain'' [] = (Inr manifest, st')"
    by (simp add: archiveApprovedEvidence_def zerog_put_def Let_def rootFor_def)
  then obtain manifest st' where a: "archiveApprovedEvidence length_digest ?up PUBLIC ''e'' ''h'' [7] ''text/plain'' [] = (Inr manifest, st')"
    by blast
  have "zerog_sound []" by (simp add: zerog_sound_def)
  from archive_eligible_and_verified [OF this a, of "\<lambda>_. Inr (Some [7])"] a show ?thesis by blast
qed

end
