(* ===== verification/Evidence_Ingest.thy ===== *)
theory Evidence_Ingest
  imports Evidence_Store
begin

text \<open>
  The ingest stage of \<open>services/evidence/src/ingest.ts\<close>: raw bytes and their asserted origin to a document
  record, every check before the one write. What comes from other packages is the record \<open>externals\<close>:
  Unicode normalisation, \<open>stringToBytes\<close> and \<open>keccak256\<close> of the viem package, on bytes and on ABI values.
  The ABI encoder may refuse its values, such as an issuer identity that is not 32 bytes or a date outside
  64 bits: what it throws for which values is the parameter \<open>encodeError\<close>.
\<close>

section \<open>Hashes\<close>

record externals =
  nfc_text :: "utf16 \<Rightarrow> utf16"
  nfc_string :: "string \<Rightarrow> string"
  stringToBytes :: "utf16 \<Rightarrow> bytes"
  keccakBytes :: "bytes \<Rightarrow> string"
  keccakAbi :: "abi_value list \<Rightarrow> string"
  encodeError :: "abi_value list \<Rightarrow> js_error option"

definition canonicalBytes :: "externals \<Rightarrow> utf16 \<Rightarrow> bytes" where
  "canonicalBytes x input = stringToBytes x (canonicalizeText (nfc_text x) input)"

definition contentHash :: "externals \<Rightarrow> bytes \<Rightarrow> string" where
  "contentHash x canonicalised = keccakBytes x canonicalised"

definition contentHashOfText :: "externals \<Rightarrow> utf16 \<Rightarrow> string" where
  "contentHashOfText x input = contentHash x (canonicalBytes x input)"

definition abiHash :: "externals \<Rightarrow> abi_value list \<Rightarrow> string result" where
  "abiHash x vs = (case encodeError x vs of Some e \<Rightarrow> Inl e | None \<Rightarrow> Inr (keccakAbi x vs))"

definition sourceHash :: "externals \<Rightarrow> string \<Rightarrow> string \<Rightarrow> string result" where
  "sourceHash x uri issuer = abiHash x [ABI_string (nfc_string x (trim uri)), ABI_bytes32 issuer]"

definition evidenceId :: "externals \<Rightarrow> string \<Rightarrow> string \<Rightarrow> int \<Rightarrow> string result" where
  "evidenceId x source content effectiveAt = abiHash x [ABI_bytes32 source, ABI_bytes32 content, ABI_uint effectiveAt]"

section \<open>Ingest\<close>

record IngestRequest =
  iq_uri :: string
  iq_issuerId :: string
  iq_sourceClass :: nat
  iq_bytes :: bytes
  iq_mediaType :: string
  iq_retrievedAt :: int
  iq_effectiveAt :: int
  iq_assertedSourceHash :: string
  iq_assertedContentHash :: "string option"

record IngestResult =
  in_document :: CanonicalDocument
  in_rawDigest :: string
  in_stored :: PutResult
  in_canonicalText :: utf16
  in_canonicalizerVersion :: string
  in_mediaDecoderVersion :: string

datatype ingest_error =
    LowTrustSourceRejected nat
  | EncodingFailed js_error
  | SourceHashMismatch string string string
  | Undecodable media_error
  | ContentHashMismatch string string string
  | DocumentSchemaInvalid
  | StoreFailed store_error

definition canonicalDocumentSchema :: "CanonicalDocument \<Rightarrow> bool" where
  "canonicalDocumentSchema d \<longleftrightarrow>
     hex32Schema (cd_evidenceId d) \<and> hex32Schema (cd_contentHash d) \<and> hex32Schema (cd_sourceHash d)
   \<and> sourceClassSchema (cd_sourceClass d) \<and> cd_canonicalizerVersion d \<noteq> [] \<and> cd_mediaType d \<noteq> []
   \<and> unixSecondsSchema (cd_retrievedAt d) \<and> unixSecondsSchema (cd_effectiveAt d)"

definition parsed_document :: "CanonicalDocument \<Rightarrow> CanonicalDocument" where
  "parsed_document d = d\<lparr>cd_evidenceId := toLowerCase (cd_evidenceId d),
     cd_contentHash := toLowerCase (cd_contentHash d), cd_sourceHash := toLowerCase (cd_sourceHash d)\<rparr>"

text \<open>The document a request asks for, with its two hashes, before it is checked.\<close>

definition ingest_document :: "externals \<Rightarrow> IngestRequest \<Rightarrow> utf16 \<Rightarrow> string \<Rightarrow> string \<Rightarrow> CanonicalDocument" where
  "ingest_document x req t source evidence =
     (let bs = canonicalBytes x t
      in \<lparr>cd_evidenceId = evidence, cd_contentHash = contentHash x bs,
          cd_sourceHash = source, cd_sourceClass = iq_sourceClass req,
          cd_canonicalizerVersion = CANONICALIZER_VERSION, cd_mediaType = baseMediaType (iq_mediaType req),
          cd_bytes = bs, cd_retrievedAt = iq_retrievedAt req, cd_effectiveAt = iq_effectiveAt req\<rparr>)"

definition ingest ::
  "externals \<Rightarrow> 'st putting \<Rightarrow> bool \<Rightarrow> int \<Rightarrow> IngestRequest \<Rightarrow> 'st \<Rightarrow> (ingest_error + IngestResult) \<times> 'st" where
  "ingest x put aborted now req st =
     (if isLowTrust (iq_sourceClass req) then (Inl (LowTrustSourceRejected (iq_sourceClass req)), st)
      else
        case sourceHash x (iq_uri req) (iq_issuerId req) of
          Inl e \<Rightarrow> (Inl (EncodingFailed e), st)
        | Inr source \<Rightarrow>
           if toLowerCase source \<noteq> toLowerCase (iq_assertedSourceHash req)
           then (Inl (SourceHashMismatch (iq_assertedSourceHash req) source (iq_uri req)), st)
           else
             (case decodeToText (iq_bytes req) (iq_mediaType req) of
                Inl e \<Rightarrow> (Inl (Undecodable e), st)
              | Inr t \<Rightarrow>
                  let content = contentHashOfText x t
                  in if (case iq_assertedContentHash req of None \<Rightarrow> False | Some h \<Rightarrow> toLowerCase h \<noteq> content)
                     then (Inl (ContentHashMismatch (the (iq_assertedContentHash req)) content (iq_uri req)), st)
                     else
                       (case evidenceId x source content (iq_effectiveAt req) of
                          Inl e \<Rightarrow> (Inl (EncodingFailed e), st)
                        | Inr evidence \<Rightarrow>
                            let document = ingest_document x req t source evidence
                            in if \<not> canonicalDocumentSchema document then (Inl DocumentSchemaInvalid, st)
                               else
                                 (case put aborted now (iq_bytes req) (baseMediaType (iq_mediaType req)) st of
                                    (Inl e, st') \<Rightarrow> (Inl (StoreFailed e), st')
                                  | (Inr stored, st') \<Rightarrow>
                                      (Inr \<lparr>in_document = parsed_document document, in_rawDigest = so_digest stored,
                                         in_stored = stored, in_canonicalText = canonicalizeText (nfc_text x) t,
                                         in_canonicalizerVersion = CANONICALIZER_VERSION,
                                         in_mediaDecoderVersion = MEDIA_DECODER_VERSION\<rparr>, st')))))"

section \<open>Properties\<close>

lemma ingest_inv:
  assumes "ingest x put aborted now req st = (Inr res, st')"
  obtains t source evidence where "\<not> isLowTrust (iq_sourceClass req)"
    "sourceHash x (iq_uri req) (iq_issuerId req) = Inr source"
    "toLowerCase source = toLowerCase (iq_assertedSourceHash req)"
    "decodeToText (iq_bytes req) (iq_mediaType req) = Inr t"
    "evidenceId x source (contentHashOfText x t) (iq_effectiveAt req) = Inr evidence"
    "in_document res = parsed_document (ingest_document x req t source evidence)"
    "in_canonicalText res = canonicalizeText (nfc_text x) t"
    "canonicalDocumentSchema (ingest_document x req t source evidence)"
    "in_rawDigest res = so_digest (in_stored res)"
    "iq_assertedContentHash req = None \<or> map_option toLowerCase (iq_assertedContentHash req) = Some (contentHashOfText x t)"
    "put aborted now (iq_bytes req) (baseMediaType (iq_mediaType req)) st = (Inr (in_stored res), st')"
proof -
  have low: "\<not> isLowTrust (iq_sourceClass req)" using assms by (auto simp: ingest_def)
  obtain source where src: "sourceHash x (iq_uri req) (iq_issuerId req) = Inr source"
    "toLowerCase source = toLowerCase (iq_assertedSourceHash req)"
    using assms low by (auto simp: ingest_def split: sum.splits if_splits)
  obtain t where t: "decodeToText (iq_bytes req) (iq_mediaType req) = Inr t"
    using assms low src by (auto simp: ingest_def Let_def split: sum.splits)
  have c: "\<not> (case iq_assertedContentHash req of None \<Rightarrow> False | Some h \<Rightarrow> toLowerCase h \<noteq> contentHashOfText x t)"
    using assms low src t by (auto simp: ingest_def Let_def split: if_splits)
  obtain evidence where e: "evidenceId x source (contentHashOfText x t) (iq_effectiveAt req) = Inr evidence"
    using assms low src t c by (auto simp: ingest_def Let_def split: sum.splits)
  let ?d = "ingest_document x req t source evidence"
  have sch: "canonicalDocumentSchema ?d"
    using assms low src t c e by (auto simp: ingest_def Let_def split: if_splits)
  obtain stored where p: "put aborted now (iq_bytes req) (baseMediaType (iq_mediaType req)) st = (Inr stored, st')"
    using assms low src t c e sch by (auto simp: ingest_def Let_def split: prod.splits sum.splits)
  have r: "in_document res = parsed_document ?d" "in_stored res = stored"
    "in_canonicalText res = canonicalizeText (nfc_text x) t" "in_rawDigest res = so_digest stored"
    using assms low src t c e sch p by (auto simp: ingest_def Let_def)
  have "iq_assertedContentHash req = None \<or> map_option toLowerCase (iq_assertedContentHash req) = Some (contentHashOfText x t)"
    using c by (cases "iq_assertedContentHash req") simp_all
  with low src t e sch p r show thesis by (intro that [of source t evidence]) simp_all
qed

definition ingestible :: "externals \<Rightarrow> IngestRequest \<Rightarrow> bool" where
  "ingestible x req \<longleftrightarrow> \<not> isLowTrust (iq_sourceClass req)
     \<and> (case sourceHash x (iq_uri req) (iq_issuerId req) of
          Inl e \<Rightarrow> False
        | Inr source \<Rightarrow> toLowerCase source = toLowerCase (iq_assertedSourceHash req)
            \<and> (case decodeToText (iq_bytes req) (iq_mediaType req) of
                 Inl e \<Rightarrow> False
               | Inr t \<Rightarrow>
                   (case iq_assertedContentHash req of None \<Rightarrow> True | Some h \<Rightarrow> toLowerCase h = contentHashOfText x t)
                 \<and> (case evidenceId x source (contentHashOfText x t) (iq_effectiveAt req) of
                      Inl e \<Rightarrow> False
                    | Inr evidence \<Rightarrow> canonicalDocumentSchema (ingest_document x req t source evidence))))"

lemma ingest_store_or_nothing:
  "snd (ingest x put aborted now req st) = st \<and> (\<exists>e. fst (ingest x put aborted now req st) = Inl e) \<and> \<not> ingestible x req
   \<or> ingestible x req \<and> snd (ingest x put aborted now req st)
        = snd (put aborted now (iq_bytes req) (baseMediaType (iq_mediaType req)) st)
      \<and> ((\<exists>e. fst (ingest x put aborted now req st) = Inl e)
          \<longleftrightarrow> (\<exists>e. fst (put aborted now (iq_bytes req) (baseMediaType (iq_mediaType req)) st) = Inl e))"
proof (cases "sourceHash x (iq_uri req) (iq_issuerId req)")
  case (Inr source)
  note src = Inr
  obtain r st' where p: "put aborted now (iq_bytes req) (baseMediaType (iq_mediaType req)) st = (r, st')"
    by (cases "put aborted now (iq_bytes req) (baseMediaType (iq_mediaType req)) st")
  show ?thesis
  proof (cases "decodeToText (iq_bytes req) (iq_mediaType req)")
    case (Inl e)
    then show ?thesis using src by (simp add: ingest_def ingestible_def Let_def)
  next
    case (Inr t)
    show ?thesis
      using src Inr p
      by (cases r; cases "evidenceId x source (contentHashOfText x t) (iq_effectiveAt req)")
        (auto simp: ingest_def ingestible_def Let_def split: option.splits)
  qed
qed (simp add: ingest_def ingestible_def)

text \<open>
  C36: Ingest refuses exactly the requests that are not ingestible (low-trust origin, an identity or a date
  the ABI encoder refuses, an origin digest that does not recompute, a container without a decoder, a
  content digest that does not recompute, a malformed document), whatever the store, and what it refuses
  leaves the store untouched.
\<close>

theorem ingest_refuses_before_writing:
  "(\<not> ingestible x req \<longrightarrow> (\<exists>e. ingest x put aborted now req st = (Inl e, st)))
   \<and> (ingestible x req \<longrightarrow> (\<exists>res. ingest x (memory_put (keccakBytes x)) False now req mem
        = (Inr res, snd (memory_put (keccakBytes x) False now (iq_bytes req) (baseMediaType (iq_mediaType req)) mem))))"
proof -
  have "\<exists>e. ingest x put aborted now req st = (Inl e, st)" if "\<not> ingestible x req"
    using ingest_store_or_nothing [of x put aborted now req st] that by (auto simp: prod_eq_iff)
  moreover have "\<exists>res. ingest x (memory_put (keccakBytes x)) False now req mem
        = (Inr res, snd (memory_put (keccakBytes x) False now (iq_bytes req) (baseMediaType (iq_mediaType req)) mem))"
    if i: "ingestible x req"
  proof -
    have "\<nexists>e. fst (memory_put (keccakBytes x) False now (iq_bytes req) (baseMediaType (iq_mediaType req)) mem) = Inl e"
      by (simp add: memory_put_def Let_def split: option.split)
    with ingest_store_or_nothing [of x "memory_put (keccakBytes x)" False now req mem] i
    show ?thesis by (metis prod.collapse sum.exhaust_sel)
  qed
  ultimately show ?thesis by blast
qed

text \<open>
  C19: What ingest lets through is bound to its origin: the text is clean, the document's bytes are the
  encoded text, its identifiers are recomputed from the canonical bytes, the origin and the effective
  date, and the raw bytes are in the store under their own digest. Ingesting the request again gives
  the same document, reports that nothing was created and leaves the store as it is.
\<close>

theorem ingest_binds_document:
  assumes "ingest x (memory_put (keccakBytes x)) aborted now req st = (Inr res, st')"
    and "memory_sound (keccakBytes x) st"
  shows "let d = in_document res in
      clean (in_canonicalText res) \<and> cd_bytes d = stringToBytes x (in_canonicalText res)
    \<and> cd_contentHash d = toLowerCase (keccakBytes x (cd_bytes d))
    \<and> cd_sourceHash d = toLowerCase (iq_assertedSourceHash req)
    \<and> (\<exists>source evidence. sourceHash x (iq_uri req) (iq_issuerId req) = Inr source
         \<and> evidenceId x source (keccakBytes x (cd_bytes d)) (iq_effectiveAt req) = Inr evidence
         \<and> cd_sourceHash d = toLowerCase source \<and> cd_evidenceId d = toLowerCase evidence)
    \<and> in_rawDigest res = keccakBytes x (iq_bytes req)
    \<and> (\<exists>bs. memory_get False (in_rawDigest res) st' = Inr (Some bs) \<and> keccakBytes x bs = in_rawDigest res)
    \<and> ingest x (memory_put (keccakBytes x)) False later req st'
        = (Inr (res\<lparr>in_stored := put_result (StoredObject.truncate (in_stored res)) False\<rparr>), st')"
proof -
  obtain t source evidence where t: "\<not> isLowTrust (iq_sourceClass req)"
    "sourceHash x (iq_uri req) (iq_issuerId req) = Inr source"
    "toLowerCase source = toLowerCase (iq_assertedSourceHash req)"
    "decodeToText (iq_bytes req) (iq_mediaType req) = Inr t"
    "evidenceId x source (contentHashOfText x t) (iq_effectiveAt req) = Inr evidence"
    "in_document res = parsed_document (ingest_document x req t source evidence)"
    "in_canonicalText res = canonicalizeText (nfc_text x) t"
    "in_rawDigest res = so_digest (in_stored res)"
    "memory_put (keccakBytes x) aborted now (iq_bytes req) (baseMediaType (iq_mediaType req)) st = (Inr (in_stored res), st')"
    using assms(1) by (rule ingest_inv)
  note put = t(9)
  have sound: "memory_sound (keccakBytes x) st'" using mem.put_sound [OF assms(2)] put by (metis snd_conv)
  obtain m where m: "read_head (memory_head False (objectKey (keccakBytes x) (iq_bytes req)) st') = Some m"
    "StoredObject.truncate (in_stored res) = m" "so_digest (in_stored res) = so_digest m"
    using put by (elim mem.put_returns) simp
  then have dig: "so_digest (in_stored res) = keccakBytes x (iq_bytes req)"
    using mem.head_digest [OF sound _ m(1)] by (simp add: objectKey_def)
  obtain bs where bs: "memory_get False (in_rawDigest res) st' = Inr (Some bs)"
    using m(1) dig t(8) by (auto simp: memory_get_def memory_head_def read_head_def objectKey_def)
  moreover have "keccakBytes x bs = in_rawDigest res"
    using mem.get_sound [OF sound _ bs] by (simp add: objectKey_def)
  moreover have "ingest x (memory_put (keccakBytes x)) False later req st'
      = (Inr (res\<lparr>in_stored := put_result m False\<rparr>), st')"
    using assms(1) mem.put_again [OF put, of later "baseMediaType (iq_mediaType req)"] t(1-5) m(2,3) put
    by (cases res) (auto simp: ingest_def Let_def split: if_splits)
  ultimately show ?thesis
    using t dig m(2) canonical_clean
    by (auto simp: Let_def parsed_document_def ingest_document_def canonicalBytes_def contentHash_def contentHashOfText_def)
qed

section \<open>A worked example\<close>

definition plain_externals :: externals where
  "plain_externals = \<lparr>nfc_text = id, nfc_string = id, stringToBytes = id, keccakBytes = length_digest,
     keccakAbi = zero_hash, encodeError = (\<lambda>vs. None)\<rparr>"

definition sample_ingest :: IngestRequest where
  "sample_ingest = \<lparr>iq_uri = ''u'', iq_issuerId = ZERO32, iq_sourceClass = 4, iq_bytes = [0x61, 0x20, 0x20, 0x62],
     iq_mediaType = ''text/plain'', iq_retrievedAt = 20, iq_effectiveAt = 10, iq_assertedSourceHash = ZERO32,
     iq_assertedContentHash = None\<rparr>"

lemma sample_decode: "decodeToText [0x61, 0x20, 0x20, 0x62] ''text/plain'' = Inr [0x61, 0x20, 0x20, 0x62]"
proof -
  have "baseMediaType ''text/plain'' = ''text/plain''" by code_simp
  then show ?thesis
    by (simp add: decodeToText_def isSupportedMediaType_def SUPPORTED_MEDIA_TYPES_def text_decoder_def code_units_def)
qed

lemma hex32_zero: "hex32Schema ZERO32" "toLowerCase ZERO32 = ZERO32"
  by code_simp+

lemma length_digest_hex: "hex32Schema (length_digest bs)"
proof -
  have "n < 10 \<Longrightarrow> hex_char (digit_char n)" for n
    by (auto simp: hex_char_def is_digit_def digit_char_def of_char_of)
  then show ?thesis by (simp add: hex32Schema_def hex_of_length_def length_digest_def list_all_iff)
qed

lemma sample_ingestible: "ingestible plain_externals sample_ingest"
proof -
  have "baseMediaType ''text/plain'' \<noteq> []" by code_simp
  then show ?thesis
    using sample_decode hex32_zero length_digest_hex
    by (simp add: ingestible_def sample_ingest_def isLowTrust_def LOW_TRUST_CLASSES_def sourceHash_def abiHash_def plain_externals_def
        zero_hash_def canonicalDocumentSchema_def ingest_document_def evidenceId_def contentHash_def contentHashOfText_def
        sourceClassSchema_def SOURCE_CLASS_NAMES_def unixSecondsSchema_def CANONICALIZER_VERSION_def Let_def)
qed

theorem ingest_refuses_before_writing_witness:
  "\<exists>res st'. ingest plain_externals (memory_put length_digest) False 30 sample_ingest \<lparr>ms_objects = [], ms_writes = 0\<rparr> = (Inr res, st')
     \<and> ms_writes st' = 1"
proof -
  have k: "keccakBytes plain_externals = length_digest" by (simp add: plain_externals_def)
  show ?thesis
    using ingest_refuses_before_writing [of plain_externals sample_ingest "memory_put length_digest" False 30 _ "\<lparr>ms_objects = [], ms_writes = 0\<rparr>"]
      sample_ingestible unfolding k by (auto simp: memory_put_def Let_def)
qed

theorem ingest_binds_document_witness:
  "\<exists>res st'. ingest plain_externals (memory_put length_digest) False 30 sample_ingest \<lparr>ms_objects = [], ms_writes = 0\<rparr> = (Inr res, st')
     \<and> clean (in_canonicalText res) \<and> in_rawDigest res = length_digest [0x61, 0x20, 0x20, 0x62]
     \<and> cd_bytes (in_document res) = in_canonicalText res"
proof -
  have k: "keccakBytes plain_externals = length_digest" by (simp add: plain_externals_def)
  let ?e = "\<lparr>ms_objects = [], ms_writes = 0\<rparr>"
  have "\<nexists>e. fst (memory_put length_digest False 30 bs mt ?e) = Inl e" for bs mt
    by (simp add: memory_put_def Let_def)
  then obtain res st' where i: "ingest plain_externals (memory_put length_digest) False 30 sample_ingest ?e = (Inr res, st')"
    using ingest_store_or_nothing [of plain_externals "memory_put length_digest" False 30 sample_ingest ?e] sample_ingestible
    by (metis prod.collapse sum.exhaust_sel)
  have "memory_sound length_digest ?e" by (simp add: memory_sound_def)
  from ingest_binds_document [of plain_externals False 30 sample_ingest ?e res st' 31] this i
  show ?thesis unfolding k Let_def by (intro exI [of _ res] exI [of _ st']) (simp add: plain_externals_def sample_ingest_def)
qed

end
