(* ===== verification/Evidence_Pipeline.thy ===== *)
theory Evidence_Pipeline
  imports Evidence_Ingest Evidence_Queue
begin

text \<open>
  The pipeline of \<open>services/evidence/src/pipeline.ts\<close>: ingest, extract, corroborate, build, and the calldata of
  \<open>commit.ts\<close> it stops at. The encoder and the selector of the viem package are arguments, as is the
  wording of errors: an outcome carries the error itself. An error that leaves \<open>runPipeline\<close> is \<open>Inl\<close>.
\<close>

section \<open>Calldata\<close>

datatype call_arg = Arg_bytes32 string | Arg_bytes32s "string list" | Arg_uint int | Arg_bool bool

record encoder =
  encodeFunctionData :: "string \<Rightarrow> call_arg list \<Rightarrow> string"
  toFunctionSelector :: "string \<Rightarrow> string"

datatype registry_contract = PassportRegistry | EvidenceRegistry | RiskPolicyRegistry
datatype required_role = ADMISSION | ADMISSION_OR_GUARDIAN

record Calldata =
  cl_contract :: registry_contract
  cl_functionName :: string
  cl_signature :: string
  cl_selector :: string
  cl_data :: string
  cl_requiredRole :: required_role

definition COMMIT_PASSPORT_SIGNATURE :: string where
  "COMMIT_PASSPORT_SIGNATURE = ''commitPassport(bytes32,uint64,bytes32[],bytes32,bytes32,uint64,bool,uint16,bool)''"
definition RESTRICT_PASSPORT_SIGNATURE :: string where
  "RESTRICT_PASSPORT_SIGNATURE = ''restrict(bytes32,uint64,uint8)''"
definition COMMIT_EVIDENCE_SIGNATURE :: string where
  "COMMIT_EVIDENCE_SIGNATURE = ''commit(bytes32,bytes32,bytes32,uint64,uint64,uint8)''"
definition BUMP_EPOCH_SIGNATURE :: string where "BUMP_EPOCH_SIGNATURE = ''bumpEpoch(bytes32)''"

datatype PassportStatusName = PS_NONE | PS_ACTIVE | PS_STALE | PS_CONFLICTED | PS_SUSPENDED | PS_REVOKED

fun PASSPORT_STATUS :: "PassportStatusName \<Rightarrow> int" where
  "PASSPORT_STATUS PS_NONE = 0"
| "PASSPORT_STATUS PS_ACTIVE = 1"
| "PASSPORT_STATUS PS_STALE = 2"
| "PASSPORT_STATUS PS_CONFLICTED = 3"
| "PASSPORT_STATUS PS_SUSPENDED = 4"
| "PASSPORT_STATUS PS_REVOKED = 5"

definition call_of ::
  "encoder \<Rightarrow> registry_contract \<Rightarrow> string \<Rightarrow> string \<Rightarrow> call_arg list \<Rightarrow> required_role \<Rightarrow> Calldata" where
  "call_of en contract fn signature args role =
     \<lparr>cl_contract = contract, cl_functionName = fn, cl_signature = signature,
      cl_selector = toFunctionSelector en signature, cl_data = encodeFunctionData en fn args,
      cl_requiredRole = role\<rparr>"

definition commitPassportCalldata :: "encoder \<Rightarrow> PassportCandidate \<Rightarrow> Calldata result" where
  "commitPassportCalldata en candidate = bindR (commitPassportArgs candidate) (\<lambda>a.
     Inr (call_of en PassportRegistry ''commitPassport'' COMMIT_PASSPORT_SIGNATURE
       [Arg_bytes32 (ca_assetId a), Arg_uint (ca_version a), Arg_bytes32s (ca_evidenceIds a),
        Arg_bytes32 (ca_evidenceRoot a), Arg_bytes32 (ca_claimsRoot a), Arg_uint (ca_expiresAt a),
        Arg_bool (ca_redemptionSupported a), Arg_uint (ca_redemptionFloorBps a), Arg_bool (ca_singleSource a)]
       ADMISSION))"

definition restrictPassportCalldata :: "encoder \<Rightarrow> string \<Rightarrow> int \<Rightarrow> PassportStatusName \<Rightarrow> Calldata" where
  "restrictPassportCalldata en asset version status =
     call_of en PassportRegistry ''restrict'' RESTRICT_PASSPORT_SIGNATURE
       [Arg_bytes32 asset, Arg_uint version, Arg_uint (PASSPORT_STATUS status)] ADMISSION_OR_GUARDIAN"

definition commitEvidenceCalldata :: "encoder \<Rightarrow> string \<Rightarrow> CanonicalDocument \<Rightarrow> Calldata" where
  "commitEvidenceCalldata en asset doc =
     call_of en EvidenceRegistry ''commit'' COMMIT_EVIDENCE_SIGNATURE
       [Arg_bytes32 asset, Arg_bytes32 (cd_contentHash doc), Arg_bytes32 (cd_sourceHash doc),
        Arg_uint (cd_effectiveAt doc), Arg_uint (cd_retrievedAt doc), Arg_uint (int (cd_sourceClass doc))] ADMISSION"

definition CAUSE_CLAIM_CONFLICT :: "externals \<Rightarrow> string" where
  "CAUSE_CLAIM_CONFLICT x = keccakBytes x (stringToBytes x (units ''CLAIM_CONFLICT''))"

definition CAUSE_PASSPORT_COMMIT :: "externals \<Rightarrow> string" where
  "CAUSE_PASSPORT_COMMIT x = keccakBytes x (stringToBytes x (units ''PASSPORT_COMMIT''))"

definition bumpEpochCalldata :: "encoder \<Rightarrow> string \<Rightarrow> Calldata" where
  "bumpEpochCalldata en cause =
     call_of en RiskPolicyRegistry ''bumpEpoch'' BUMP_EPOCH_SIGNATURE [Arg_bytes32 cause] ADMISSION"

section \<open>The pipeline\<close>

datatype PipelineStage = FETCHED | HASHED | CANONICALIZED | EXTRACTED | VALIDATED | CORROBORATED_STAGE | COMMITTED

datatype PipelineBranch = SCHEMA_INVALID_BRANCH | CLAIM_CONFLICT_BRANCH | SINGLE_SOURCE_BRANCH

record PipelineTrace =
  tr_stages :: "PipelineStage list"
  tr_branch :: "PipelineBranch option"

record PipelineRequest =
  pr_assetId :: string
  pr_version :: int
  pr_document :: IngestRequest
  pr_expiresAt :: int

datatype pipeline_error =
    IngestFailed ingest_error
  | ExtractFailed extract_error
  | BuildFailed candidate_error
  | EncodeFailed js_error
  | ObjectMissingFromStore string
  | ReadFailed store_error
  | OutcomeHandlerThrew string
  | QueueThrew queue_error

record ReadyToCommit =
  rc_trace :: PipelineTrace
  rc_ingest :: IngestResult
  rc_claimSets :: "ClaimSet list"
  rc_corroboration :: Corroboration
  rc_built :: BuiltCandidate
  rc_candidate :: PassportCandidate
  rc_singleSource :: bool
  rc_calls :: "Calldata list"
  rc_pathFailures :: "PathFailure list"

record SchemaInvalid =
  si_trace :: PipelineTrace
  si_reason :: pipeline_error
  si_terminal :: bool
  si_pathFailures :: "PathFailure list"

record ClaimConflict =
  cc_trace :: PipelineTrace
  cc_ingest :: IngestResult
  cc_claimSets :: "ClaimSet list"
  cc_corroboration :: Corroboration
  cc_conflictingFields :: "string list"
  cc_calls :: "Calldata list"
  cc_pathFailures :: "PathFailure list"

datatype PipelineOutcome = READY_TO_COMMIT ReadyToCommit | SCHEMA_INVALID SchemaInvalid | CONFLICTING ClaimConflict

fun isTerminalPipelineError :: "pipeline_error \<Rightarrow> bool" where
  "isTerminalPipelineError (IngestFailed (SourceHashMismatch e r u)) = True"
| "isTerminalPipelineError (IngestFailed (ContentHashMismatch e r u)) = True"
| "isTerminalPipelineError (IngestFailed (LowTrustSourceRejected c)) = True"
| "isTerminalPipelineError (IngestFailed (Undecodable (UnsupportedMediaType m))) = True"
| "isTerminalPipelineError (ExtractFailed (ExtractionSchemaInvalid i d)) = True"
| "isTerminalPipelineError (ExtractFailed (RiskParameterFieldRejected i f)) = True"
| "isTerminalPipelineError (BuildFailed (ConflictedClaimSetRejected fs)) = True"
| "isTerminalPipelineError _ = False"

definition schema_invalid :: "PipelineStage list \<Rightarrow> pipeline_error \<Rightarrow> PathFailure list \<Rightarrow> PipelineOutcome" where
  "schema_invalid stages e failures =
     SCHEMA_INVALID \<lparr>si_trace = \<lparr>tr_stages = stages, tr_branch = Some SCHEMA_INVALID_BRANCH\<rparr>, si_reason = e,
       si_terminal = isTerminalPipelineError e, si_pathFailures = failures\<rparr>"

record 'st PipelineDeps =
  pd_put :: "'st putting"
  pd_extractors :: "EvidenceExtractor list"
  pd_corroborator :: "(ClaimSet list \<Rightarrow> Corroboration) option"

text \<open>What the pipeline does with the claim sets of an ingested document.\<close>

definition conclude ::
  "externals \<Rightarrow> encoder \<Rightarrow> (ClaimSet list \<Rightarrow> Corroboration) \<Rightarrow> int \<Rightarrow> PipelineRequest \<Rightarrow> IngestResult
     \<Rightarrow> ExtractionOutcome \<Rightarrow> pipeline_error + PipelineOutcome" where
  "conclude x en compare now req ingested extraction =
     (let stages = [FETCHED, HASHED, CANONICALIZED, EXTRACTED, VALIDATED];
          sets = eo_claimSets extraction; failures = eo_failures extraction;
          corroboration = compare sets
      in if co_outcome corroboration = CLAIM_CONFLICT then
           (let currentVersion = pr_version req - 1
            in Inr (CONFLICTING \<lparr>cc_trace = \<lparr>tr_stages = stages, tr_branch = Some CLAIM_CONFLICT_BRANCH\<rparr>,
                 cc_ingest = ingested, cc_claimSets = sets, cc_corroboration = corroboration,
                 cc_conflictingFields = conflictingRiskFields corroboration,
                 cc_calls = (if currentVersion \<ge> 1
                   then [restrictPassportCalldata en (pr_assetId req) currentVersion PS_CONFLICTED,
                         bumpEpochCalldata en (CAUSE_CLAIM_CONFLICT x)]
                   else [bumpEpochCalldata en (CAUSE_CLAIM_CONFLICT x)]),
                 cc_pathFailures = failures\<rparr>))
         else
           (let stages = stages @ [CORROBORATED_STAGE]
            in case buildCandidate (nfc_string x) (keccakAbi x)
                 \<lparr>br_assetId = pr_assetId req, br_version = pr_version req, br_documents = [in_document ingested],
                  br_claimSets = sets, br_corroboration = corroboration, br_expiresAt = pr_expiresAt req,
                  br_builtAt = now, br_builderVersion = None\<rparr> of
               Inl e \<Rightarrow> Inr (schema_invalid stages (BuildFailed e) failures)
             | Inr built \<Rightarrow>
                 (let candidate = bc_candidate built
                  in case commitPassportCalldata en candidate of
                       Inl e \<Rightarrow> Inl (EncodeFailed e)
                     | Inr commit \<Rightarrow>
                         Inr (READY_TO_COMMIT
                           \<lparr>rc_trace = \<lparr>tr_stages = stages,
                              tr_branch = (if pc_singleSource candidate then Some SINGLE_SOURCE_BRANCH else None)\<rparr>,
                            rc_ingest = ingested, rc_claimSets = sets, rc_corroboration = corroboration,
                            rc_built = built, rc_candidate = candidate, rc_singleSource = pc_singleSource candidate,
                            rc_calls = [commitEvidenceCalldata en (pr_assetId req) (in_document ingested), commit,
                                        bumpEpochCalldata en (CAUSE_PASSPORT_COMMIT x)],
                            rc_pathFailures = failures\<rparr>))))"

definition runPipeline ::
  "externals \<Rightarrow> encoder \<Rightarrow> (Extraction \<Rightarrow> string) \<Rightarrow> 'st PipelineDeps \<Rightarrow> bool \<Rightarrow> int \<Rightarrow> PipelineRequest \<Rightarrow> 'st
     \<Rightarrow> (pipeline_error + PipelineOutcome) \<times> 'st" where
  "runPipeline x en issues deps aborted now req st =
     (let compare = option_default (pd_corroborator deps) (corroborate (nfc_string x))
      in case ingest x (pd_put deps) aborted now (pr_document req) st of
           (Inl e, st') \<Rightarrow> (Inr (schema_invalid [FETCHED] (IngestFailed e) []), st')
         | (Inr ingested, st') \<Rightarrow>
             (case runExtractors issues (in_document ingested) (pd_extractors deps) of
                Inl e \<Rightarrow> (Inr (schema_invalid [FETCHED, HASHED, CANONICALIZED] (ExtractFailed e) []), st')
              | Inr extraction \<Rightarrow> (conclude x en compare now req ingested extraction, st')))"

datatype documents_outcome =
    DocumentsReady BuiltCandidate Corroboration
  | DocumentsConflict Corroboration "string list"

definition buildFromDocuments ::
  "externals \<Rightarrow> (ClaimSet list \<Rightarrow> Corroboration) option \<Rightarrow> string \<Rightarrow> int \<Rightarrow> CanonicalDocument list
     \<Rightarrow> ClaimSet list \<Rightarrow> int \<Rightarrow> int \<Rightarrow> candidate_error + documents_outcome" where
  "buildFromDocuments x corroborator asset version documents sets expiresAt builtAt =
     (let corroboration = option_default corroborator (corroborate (nfc_string x)) sets
      in if co_outcome corroboration = CLAIM_CONFLICT
         then Inr (DocumentsConflict corroboration (conflictingRiskFields corroboration))
         else bindR (buildCandidate (nfc_string x) (keccakAbi x)
           \<lparr>br_assetId = asset, br_version = version, br_documents = documents, br_claimSets = sets,
            br_corroboration = corroboration, br_expiresAt = expiresAt, br_builtAt = builtAt,
            br_builderVersion = None\<rparr>) (\<lambda>built. Inr (DocumentsReady built corroboration)))"

section \<open>Pipeline jobs\<close>

definition job_request :: "PipelineJobPayload \<Rightarrow> bytes \<Rightarrow> PipelineRequest" where
  "job_request p bs =
     \<lparr>pr_assetId = pj_assetId p, pr_version = pj_version p,
      pr_document = \<lparr>iq_uri = pj_uri p, iq_issuerId = pj_issuerId p, iq_sourceClass = pj_sourceClass p, iq_bytes = bs,
        iq_mediaType = pj_mediaType p, iq_retrievedAt = pj_retrievedAt p, iq_effectiveAt = pj_effectiveAt p,
        iq_assertedSourceHash = pj_assertedSourceHash p, iq_assertedContentHash = None\<rparr>,
      pr_expiresAt = pj_expiresAt p\<rparr>"

text \<open>One attempt at the job's work: what it concluded or what was thrown.\<close>

definition attempt_job ::
  "externals \<Rightarrow> encoder \<Rightarrow> (Extraction \<Rightarrow> string) \<Rightarrow> 'st PipelineDeps \<Rightarrow> (string \<Rightarrow> 'st \<Rightarrow> store_error + bytes option)
     \<Rightarrow> bool \<Rightarrow> int \<Rightarrow> PipelineJobPayload \<Rightarrow> 'st \<Rightarrow> (pipeline_error + PipelineOutcome) \<times> 'st" where
  "attempt_job x en issues deps get aborted clock p st =
     (case get (pj_rawDigest p) st of
        Inl e \<Rightarrow> (Inl (ReadFailed e), st)
      | Inr None \<Rightarrow> (Inl (ObjectMissingFromStore (pj_rawDigest p)), st)
      | Inr (Some bs) \<Rightarrow> runPipeline x en issues deps aborted clock (job_request p bs) st)"

text \<open>
  \<open>now\<close> is the worker's, \<open>clock\<close> the pipeline's own reading; \<open>render\<close> words an error. Whatever throws
  inside the attempt, the settlement included, fails the job.
\<close>

definition runPipelineJobOnce ::
  "externals \<Rightarrow> encoder \<Rightarrow> (Extraction \<Rightarrow> string) \<Rightarrow> (pipeline_error \<Rightarrow> string) \<Rightarrow> 'st PipelineDeps
     \<Rightarrow> (string \<Rightarrow> 'st \<Rightarrow> store_error + bytes option) \<Rightarrow> bool \<Rightarrow> int \<Rightarrow> int \<Rightarrow> int
     \<Rightarrow> (PipelineOutcome \<Rightarrow> PipelineJobPayload JobRecord \<Rightarrow> pipeline_error + unit) \<Rightarrow> int
     \<Rightarrow> PipelineJobPayload WorkQueue \<Rightarrow> 'st
     \<Rightarrow> (queue_error + PipelineJobPayload JobRecord option) \<times> PipelineJobPayload WorkQueue \<times> 'st" where
  "runPipelineJobOnce x en issues render deps get aborted clock now leaseSeconds onOutcome draw q st =
     (case claim [PIPELINE_JOB_KIND] now leaseSeconds q of
        (None, q) \<Rightarrow> (Inr None, q, st)
      | (Some job, q) \<Rightarrow>
          (let (r, st) = attempt_job x en issues deps get aborted clock (jr_payload job) st;
               failed = (\<lambda>e terminal q. case fail (jr_jobId job) now (render e) terminal draw q of
                  (Inl e, q) \<Rightarrow> (Inl e, q, st) | (Inr j, q) \<Rightarrow> (Inr (Some j), q, st));
               throws = (\<lambda>e q. failed e (isTerminalPipelineError e) q)
           in case r of
                Inl e \<Rightarrow> throws e q
              | Inr (SCHEMA_INVALID s) \<Rightarrow>
                  (case fail (jr_jobId job) now (render (si_reason s)) (si_terminal s) draw q of
                     (Inl e, q) \<Rightarrow> throws (QueueThrew e) q
                   | (Inr j, q) \<Rightarrow> (Inr (Some j), q, st))
              | Inr outcome \<Rightarrow>
                  (case onOutcome outcome job of
                     Inl e \<Rightarrow> throws e q
                   | Inr _ \<Rightarrow>
                       (case succeed (jr_jobId job) now q of
                          (Inl e, q) \<Rightarrow> throws (QueueThrew e) q
                        | (Inr j, q) \<Rightarrow> (Inr (Some j), q, st)))))"

section \<open>What an outcome rests on\<close>

lemma runPipeline_cases:
  assumes "runPipeline x en issues deps aborted now req st = (r, st')"
  obtains e where "ingest x (pd_put deps) aborted now (pr_document req) st = (Inl e, st')"
      "r = Inr (schema_invalid [FETCHED] (IngestFailed e) [])"
  | ingested e where "ingest x (pd_put deps) aborted now (pr_document req) st = (Inr ingested, st')"
      "runExtractors issues (in_document ingested) (pd_extractors deps) = Inl e"
      "r = Inr (schema_invalid [FETCHED, HASHED, CANONICALIZED] (ExtractFailed e) [])"
  | ingested extraction where "ingest x (pd_put deps) aborted now (pr_document req) st = (Inr ingested, st')"
      "runExtractors issues (in_document ingested) (pd_extractors deps) = Inr extraction"
      "r = conclude x en (option_default (pd_corroborator deps) (corroborate (nfc_string x))) now req ingested extraction"
  using assms by (auto simp: runPipeline_def Let_def split: prod.splits sum.splits)

lemma schema_invalid_neq [simp]:
  "schema_invalid s e f \<noteq> READY_TO_COMMIT r" "READY_TO_COMMIT r \<noteq> schema_invalid s e f"
  "schema_invalid s e f \<noteq> CONFLICTING c" "CONFLICTING c \<noteq> schema_invalid s e f"
  by (simp_all add: schema_invalid_def)

definition request_for :: "PipelineRequest \<Rightarrow> IngestResult \<Rightarrow> ClaimSet list \<Rightarrow> Corroboration \<Rightarrow> int \<Rightarrow> BuildCandidateRequest" where
  "request_for req ingested sets corroboration now =
     \<lparr>br_assetId = pr_assetId req, br_version = pr_version req, br_documents = [in_document ingested],
      br_claimSets = sets, br_corroboration = corroboration, br_expiresAt = pr_expiresAt req,
      br_builtAt = now, br_builderVersion = None\<rparr>"

lemma request_for_simps [simp]:
  "br_corroboration (request_for req i sets c now) = c" "br_claimSets (request_for req i sets c now) = sets"
  "br_documents (request_for req i sets c now) = [in_document i]"
  by (simp_all add: request_for_def)

lemma conclude_ready:
  assumes "conclude x en compare now req ingested extraction = Inr (READY_TO_COMMIT r)"
  obtains commit where "rc_ingest r = ingested" "rc_claimSets r = eo_claimSets extraction"
    "rc_corroboration r = compare (eo_claimSets extraction)" "co_outcome (rc_corroboration r) \<noteq> CLAIM_CONFLICT"
    "buildCandidate (nfc_string x) (keccakAbi x)
       (request_for req ingested (eo_claimSets extraction) (compare (eo_claimSets extraction)) now) = Inr (rc_built r)"
    "rc_candidate r = bc_candidate (rc_built r)" "commitPassportCalldata en (rc_candidate r) = Inr commit"
    "rc_calls r = [commitEvidenceCalldata en (pr_assetId req) (in_document ingested), commit,
       bumpEpochCalldata en (CAUSE_PASSPORT_COMMIT x)]"
    "tr_stages (rc_trace r) = [FETCHED, HASHED, CANONICALIZED, EXTRACTED, VALIDATED, CORROBORATED_STAGE]"
    "rc_singleSource r = pc_singleSource (rc_candidate r)"
  using assms
  by (auto simp: conclude_def request_for_def Let_def split: if_splits sum.splits)

lemma conclude_conflict:
  assumes "conclude x en compare now req ingested extraction = Inr (CONFLICTING c)"
  shows "co_outcome (compare (eo_claimSets extraction)) = CLAIM_CONFLICT" "cc_claimSets c = eo_claimSets extraction"
    "cc_calls c = (if 2 \<le> pr_version req
       then [restrictPassportCalldata en (pr_assetId req) (pr_version req - 1) PS_CONFLICTED,
             bumpEpochCalldata en (CAUSE_CLAIM_CONFLICT x)]
       else [bumpEpochCalldata en (CAUSE_CLAIM_CONFLICT x)])"
    "cc_conflictingFields c = conflictingRiskFields (compare (eo_claimSets extraction))"
  using assms by (auto simp: conclude_def Let_def split: if_splits sum.splits)

lemma commitPassport_call:
  "commitPassportCalldata en p = Inr call \<Longrightarrow> cl_functionName call = ''commitPassport''
     \<and> cl_contract call = PassportRegistry
     \<and> (\<exists>a. commitPassportArgs p = Inr a \<and> ca_redemptionSupported a = pc_redemptionSupported p
          \<and> ca_redemptionFloorBps a = pc_redemptionFloorBps p \<and> ca_singleSource a = pc_singleSource p)"
  by (auto simp: commitPassportCalldata_def commitPassportArgs_def call_of_def)

lemmas call_names = commitEvidenceCalldata_def restrictPassportCalldata_def bumpEpochCalldata_def call_of_def

lemma buildCandidate_claims:
  assumes "buildCandidate nfc keccak req = Inr built"
  shows "pc_claimSets (bc_candidate built) = map parsed_claim_set (br_claimSets req)"
proof -
  obtain ids er cr where "co_outcome (br_corroboration req) \<noteq> CLAIM_CONFLICT" "br_documents req \<noteq> []"
    "uniqueSorted (map cd_evidenceId (br_documents req)) = Inr ids" "merkleRoot keccak ids = Inr er"
    "merkleRoot keccak (buildClaimLeaves nfc keccak (br_claimSets req)) = Inr cr"
    using assms by (rule buildCandidate_inv)
  with assms show ?thesis
    by (auto simp: buildCandidate_def unreadable_def Let_def parse_candidate_def parsed_candidate_def split: if_splits)
qed

lemma distinct_singleton: "set xs = {a} \<Longrightarrow> distinct xs \<Longrightarrow> xs = [a]"
  by (cases xs; cases "tl xs") auto

section \<open>Properties\<close>

lemma conflicting_fields:
  "set (conflictingRiskFields (corroborate nfc sets)) = {f. isRiskBearing f \<and> disputed nfc sets f}"
proof -
  have "set (conflictingRiskFields (corroborate nfc sets))
    = {f \<in> set (claimed_fields sets). fc_outcome (compare_field nfc sets f) = CONFLICT \<and> isRiskBearing f}"
    by (auto simp: conflictingRiskFields_def corroborate_def Let_def intro!: rev_image_eqI)
  then show ?thesis using disputed_claimed by (auto simp: outcome_facts)
qed

text \<open>
  C6: The pipeline concludes by reading, never by choosing. With the deterministic corroborator: when it
  is ready to commit, no two paths differ on a risk-bearing field and the calls are exactly the evidence
  of the ingested document, the Passport of the candidate, which cites exactly that document, and the
  epoch bump for a commit; when it reports a conflict, the reported fields are exactly the risk-bearing
  ones on which two paths differ, there is one, and nothing is committed: the calls are exactly the
  restriction of the version that exists, if one does, to a status above ACTIVE, and the epoch bump for
  a conflict.
\<close>

theorem conflict_never_commits:
  assumes "runPipeline x en issues deps aborted now req st = (Inr out, st')" "pd_corroborator deps = None"
  shows "(\<forall>r. out = READY_TO_COMMIT r \<longrightarrow>
        \<not> (\<exists>f. isRiskBearing f \<and> disputed (nfc_string x) (rc_claimSets r) f)
      \<and> (\<exists>commit. commitPassportCalldata en (rc_candidate r) = Inr commit
          \<and> rc_calls r = [commitEvidenceCalldata en (pr_assetId req) (in_document (rc_ingest r)), commit,
                          bumpEpochCalldata en (CAUSE_PASSPORT_COMMIT x)])
      \<and> map cl_functionName (rc_calls r) = [''commit'', ''commitPassport'', ''bumpEpoch'']
      \<and> map cl_contract (rc_calls r) = [EvidenceRegistry, PassportRegistry, RiskPolicyRegistry]
      \<and> pc_evidenceIds (rc_candidate r) = [toLowerCase (cd_evidenceId (in_document (rc_ingest r)))])
    \<and> (\<forall>c. out = CONFLICTING c \<longrightarrow>
        (\<exists>f. isRiskBearing f \<and> disputed (nfc_string x) (cc_claimSets c) f)
      \<and> set (cc_conflictingFields c) = {f. isRiskBearing f \<and> disputed (nfc_string x) (cc_claimSets c) f}
      \<and> cc_calls c = (if 2 \<le> pr_version req
           then [restrictPassportCalldata en (pr_assetId req) (pr_version req - 1) PS_CONFLICTED,
                 bumpEpochCalldata en (CAUSE_CLAIM_CONFLICT x)]
           else [bumpEpochCalldata en (CAUSE_CLAIM_CONFLICT x)])
      \<and> map cl_functionName (cc_calls c) = (if 2 \<le> pr_version req then [''restrict'', ''bumpEpoch''] else [''bumpEpoch''])
      \<and> map cl_contract (cc_calls c) = (if 2 \<le> pr_version req
           then [PassportRegistry, RiskPolicyRegistry] else [RiskPolicyRegistry])
      \<and> PASSPORT_STATUS PS_ACTIVE < PASSPORT_STATUS PS_CONFLICTED)"
  using assms(1)
proof (cases rule: runPipeline_cases)
  case (3 ingested extraction)
  let ?sets = "eo_claimSets extraction" and ?cmp = "corroborate (nfc_string x)"
  have c: "conclude x en ?cmp now req ingested extraction = Inr out" using 3(3) assms(2) by simp
  show ?thesis
  proof (cases out)
    case (READY_TO_COMMIT r)
    obtain commit where r: "rc_ingest r = ingested" "rc_claimSets r = ?sets" "rc_corroboration r = ?cmp ?sets"
      "co_outcome (rc_corroboration r) \<noteq> CLAIM_CONFLICT"
      "buildCandidate (nfc_string x) (keccakAbi x) (request_for req ingested ?sets (?cmp ?sets) now) = Inr (rc_built r)"
      "rc_candidate r = bc_candidate (rc_built r)" "commitPassportCalldata en (rc_candidate r) = Inr commit"
      "rc_calls r = [commitEvidenceCalldata en (pr_assetId req) (in_document ingested), commit,
         bumpEpochCalldata en (CAUSE_PASSPORT_COMMIT x)]"
      using c unfolding READY_TO_COMMIT by (rule conclude_ready)
    let ?ids = "pc_evidenceIds (rc_candidate r)"
    have "set ?ids = {toLowerCase (cd_evidenceId (in_document ingested))}" "distinct ?ids"
      using candidate_evidence [OF r(5)] r(6) by auto
    then have "?ids = [toLowerCase (cd_evidenceId (in_document ingested))]" by (rule distinct_singleton)
    then show ?thesis
      using r(1-4,7,8) commitPassport_call [OF r(7)] by (simp add: READY_TO_COMMIT corroborate_conflict_iff call_names)
  next
    case (CONFLICTING c')
    then show ?thesis
      using conclude_conflict [OF c [unfolded CONFLICTING]]
      by (simp add: corroborate_conflict_iff conflicting_fields call_names)
  qed simp
qed simp_all

text \<open>
  No low-trust word reaches the chain. Every claim of a candidate the pipeline is ready to commit
  cites the ingested document and carries its source class, which is strong enough to support a claim
  and is not social, news or market data; none names a risk parameter; and the raw bytes the document
  was read from are in the store under their digest.
\<close>

theorem ready_claims_are_trusted:
  assumes "runPipeline x en issues deps aborted now req st = (Inr (READY_TO_COMMIT r), st')"
    and "pd_put deps = memory_put (keccakBytes x)" "memory_sound (keccakBytes x) st"
    and "s \<in> set (pc_claimSets (rc_candidate r))" "c \<in> set (cs_claims s)"
  shows "ec_evidenceId c = cd_evidenceId (in_document (rc_ingest r))
    \<and> ec_sourceClass c = iq_sourceClass (pr_document req) \<and> maySupportClaim (ec_sourceClass c)
    \<and> \<not> isLowTrust (ec_sourceClass c) \<and> \<not> names_risk_parameter (ec_field c)
    \<and> memory_head False (keccakBytes x (iq_bytes (pr_document req))) st' \<noteq> Inr None"
proof -
  obtain ingested extraction where i: "ingest x (pd_put deps) aborted now (pr_document req) st = (Inr ingested, st')"
    and e: "runExtractors issues (in_document ingested) (pd_extractors deps) = Inr extraction"
    and c: "conclude x en (option_default (pd_corroborator deps) (corroborate (nfc_string x))) now req ingested extraction
      = Inr (READY_TO_COMMIT r)"
    using assms(1) by (cases rule: runPipeline_cases) auto
  obtain t source evidence where t: "\<not> isLowTrust (iq_sourceClass (pr_document req))"
    "in_document ingested = parsed_document (ingest_document x (pr_document req) t source evidence)"
    "memory_put (keccakBytes x) aborted now (iq_bytes (pr_document req)) (baseMediaType (iq_mediaType (pr_document req))) st
      = (Inr (in_stored ingested), st')"
    using i unfolding assms(2) by (rule ingest_inv)
  have doc: "cd_sourceClass (in_document ingested) = iq_sourceClass (pr_document req)"
    "toLowerCase (cd_evidenceId (in_document ingested)) = cd_evidenceId (in_document ingested)"
    by (simp_all add: t(2) parsed_document_def ingest_document_def Let_def)
  have r: "rc_ingest r = ingested" "pc_claimSets (rc_candidate r) = map parsed_claim_set (eo_claimSets extraction)"
    using c by (auto elim!: conclude_ready dest!: buildCandidate_claims)
  have about: "list_all (about_document (in_document ingested)) (eo_claimSets extraction)"
    using runExtractors_bound [OF e] by blast
  obtain c0 where c0: "c = parsed_claim c0"
    "ec_evidenceId c0 = cd_evidenceId (in_document ingested) \<and> ec_sourceClass c0 = cd_sourceClass (in_document ingested)
       \<and> \<not> names_risk_parameter (ec_field c0)"
    using assms(4,5) r(2) about
    by (fastforce simp: parsed_claim_set_def list_all_iff about_document_def)
  have "memory_head False (keccakBytes x (iq_bytes (pr_document req))) st' \<noteq> Inr None"
    using t(3) by (elim mem.put_returns) (auto simp: objectKey_def read_head_def memory_head_def)
  then show ?thesis
    using c0 doc r(1) t(1)
    by (auto simp: parsed_claim_def isLowTrust_def LOW_TRUST_CLASSES_def maySupportClaim_def MIN_CLAIM_CLASS_def)
qed

text \<open>
  One path never raises a value. When all extractors that are configured belong to one independence
  group, a candidate that is ready to commit is single-source and the registry's arguments carry no
  redemption, so nothing a single path says can raise what the asset is recognised for.
\<close>

theorem one_path_never_raises:
  assumes "runPipeline x en issues deps aborted now req st = (Inr (READY_TO_COMMIT r), st')"
    and "pd_corroborator deps = None" "\<forall>e\<in>set (pd_extractors deps). xt_independenceGroup e = g"
  shows "rc_singleSource r \<and> (\<exists>a. commitPassportArgs (rc_candidate r) = Inr a
    \<and> ca_singleSource a \<and> \<not> ca_redemptionSupported a \<and> ca_redemptionFloorBps a = 0)"
proof -
  obtain ingested extraction where e: "runExtractors issues (in_document ingested) (pd_extractors deps) = Inr extraction"
    and c: "conclude x en (corroborate (nfc_string x)) now req ingested extraction = Inr (READY_TO_COMMIT r)"
    using assms(1,2) by (cases rule: runPipeline_cases) auto
  have "cs_independenceGroup ` set (eo_claimSets extraction) \<subseteq> {g}"
    using runExtractors_bound [OF e] assms(3) by auto
  then have two: "\<not> read_by_two (eo_claimSets extraction) f" for f by (auto simp: read_by_two_def)
  obtain commit where r: "buildCandidate (nfc_string x) (keccakAbi x)
       (request_for req ingested (eo_claimSets extraction) (corroborate (nfc_string x) (eo_claimSets extraction)) now)
       = Inr (rc_built r)" "rc_candidate r = bc_candidate (rc_built r)"
    "commitPassportCalldata en (rc_candidate r) = Inr commit" "rc_singleSource r = pc_singleSource (rc_candidate r)"
    using c by (rule conclude_ready)
  have "pc_singleSource (rc_candidate r)" "\<not> pc_redemptionSupported (rc_candidate r)" "pc_redemptionFloorBps (rc_candidate r) = 0"
    using candidate_evidence [OF r(1)] two r(2) by (auto split: if_splits)
  then show ?thesis using commitPassport_call [OF r(3)] r(4) by auto
qed

section \<open>A worked run\<close>

definition reading_extractor :: "int \<Rightarrow> string \<Rightarrow> string \<Rightarrow> EvidenceExtractor" where
  "reading_extractor n i g = \<lparr>xt_id = i, xt_independenceGroup = g, xt_extract = (\<lambda>doc.
     Inr \<lparr>ex_extractor = i, ex_documentEvidenceId = ZERO32, ex_claims = cs_claims (sample_set i g (Some (CV_bps n))),
          ex_startedAt = 1, ex_finishedAt = 2, ex_warnings = [], ex_provenance = None\<rparr>)\<rparr>"

definition sample_encoder :: encoder where
  "sample_encoder = \<lparr>encodeFunctionData = (\<lambda>f args. f), toFunctionSelector = id\<rparr>"

definition sample_pipeline :: PipelineRequest where
  "sample_pipeline = \<lparr>pr_assetId = ZERO32, pr_version = 1, pr_document = sample_ingest, pr_expiresAt = 0\<rparr>"

definition sample_deps :: "EvidenceExtractor list \<Rightarrow> MemoryStore PipelineDeps" where
  "sample_deps xs = \<lparr>pd_put = memory_put length_digest, pd_extractors = xs, pd_corroborator = None\<rparr>"

definition no_objects :: MemoryStore where "no_objects = \<lparr>ms_objects = [], ms_writes = 0\<rparr>"

abbreviation two_paths :: "EvidenceExtractor list" where
  "two_paths \<equiv> [reading_extractor 9000 ''parser'' ''rules'', reading_extractor 9000 ''model'' ''llm'']"

text \<open>Two paths that read two floors.\<close>

abbreviation opposed_paths :: "EvidenceExtractor list" where
  "opposed_paths \<equiv> [reading_extractor 9000 ''parser'' ''rules'', reading_extractor 5000 ''model'' ''llm'']"

definition opposed_sets :: "ClaimSet list" where
  "opposed_sets = [sample_set ''parser'' ''rules'' (Some (CV_bps 9000)), sample_set ''model'' ''llm'' (Some (CV_bps 5000))]"

lemma plain_simps [simp]: "nfc_string plain_externals = id" "keccakAbi plain_externals = zero_hash"
  "keccakBytes plain_externals = length_digest"
  by (simp_all add: plain_externals_def)

lemma empty_sound [simp]: "memory_sound length_digest no_objects"
  by (simp add: memory_sound_def no_objects_def)

definition sample_facts :: "CanonicalDocument \<Rightarrow> bool" where
  "sample_facts d \<longleftrightarrow> cd_evidenceId d = ZERO32 \<and> cd_sourceClass d = 4 \<and> cd_retrievedAt d = 20 \<and> cd_effectiveAt d = 10"

lemma sample_ingested:
  obtains res st' where "ingest plain_externals (memory_put length_digest) False 30 sample_ingest no_objects = (Inr res, st')"
    "sample_facts (in_document res)"
proof -
  have "\<nexists>e. fst (memory_put length_digest False 30 bs mt no_objects) = Inl e" for bs mt
    by (simp add: memory_put_def Let_def no_objects_def)
  then obtain res st' where i: "ingest plain_externals (memory_put length_digest) False 30 sample_ingest no_objects = (Inr res, st')"
    using ingest_store_or_nothing [of plain_externals "memory_put length_digest" False 30 sample_ingest no_objects] sample_ingestible
    by (metis prod.collapse sum.exhaust_sel)
  then obtain t source evidence where "sourceHash plain_externals (iq_uri sample_ingest) (iq_issuerId sample_ingest) = Inr source"
    "evidenceId plain_externals source (contentHashOfText plain_externals t) (iq_effectiveAt sample_ingest) = Inr evidence"
    "in_document res = parsed_document (ingest_document plain_externals sample_ingest t source evidence)"
    by (rule ingest_inv)
  then have "sample_facts (in_document res)"
    by (auto simp: sample_facts_def parsed_document_def ingest_document_def Let_def sample_ingest_def evidenceId_def
        sourceHash_def abiHash_def plain_externals_def zero_hash_def zero32_lower)
  with i show thesis by (rule that)
qed

definition reading :: "int \<Rightarrow> string \<Rightarrow> string \<Rightarrow> Extraction" where
  "reading n i g = \<lparr>ex_extractor = i, ex_documentEvidenceId = ZERO32,
     ex_claims = cs_claims (sample_set i g (Some (CV_bps n))),
     ex_startedAt = 1, ex_finishedAt = 2, ex_warnings = [], ex_provenance = None\<rparr>"

lemma reading_ok: "extractionSchema (reading 9000 ''parser'' ''rules'')" "extractionSchema (reading 9000 ''model'' ''llm'')"
  "extractionSchema (reading 5000 ''model'' ''llm'')"
  by code_simp+

lemma reading_parsed: "parsed_extraction (reading n i g) = reading n i g"
  by (simp add: reading_def parsed_extraction_def sample_defs parsed_claim_def zero32_lower)

lemma sample_field_ok: "\<not> names_risk_parameter ''redemption.supported''" "\<not> names_risk_parameter ''redemption.floorBps''"
  by code_simp+

lemma reading_validated:
  assumes "sample_facts d" "extractionSchema (reading n i g)"
  shows "run_path (\<lambda>_. []) d (reading_extractor n i g) = Inr (sample_set i g (Some (CV_bps n)), reading n i g)"
proof -
  have "xt_extract (reading_extractor n i g) d = Inr (reading n i g)" "xt_independenceGroup (reading_extractor n i g) = g"
    by (simp_all add: reading_extractor_def reading_def)
  moreover have "mapR (check_claim d i) (cs_claims (sample_set i g (Some (CV_bps n)))) = Inr [(), ()]"
    using assms(1) by (simp add: sample_defs check_claim_def sample_facts_def sample_field_ok)
  then have "validateExtraction (\<lambda>_. []) d (reading n i g) g = Inr (sample_set i g (Some (CV_bps n)))"
    using assms by (simp add: validateExtraction_def reading_parsed Let_def)
      (simp add: reading_def sample_facts_def sample_defs)
  ultimately show ?thesis by (simp add: run_path_def)
qed

lemma two_paths_extracted:
  assumes "sample_facts d"
  obtains ex where "runExtractors (\<lambda>_. []) d two_paths = Inr ex" "eo_claimSets ex = agreed_sets"
  using reading_validated [OF assms reading_ok(1)] reading_validated [OF assms reading_ok(2)]
  by (simp add: runExtractors_def extraction_step_def agreed_sets_def)

lemma opposed_paths_extracted:
  assumes "sample_facts d"
  obtains ex where "runExtractors (\<lambda>_. []) d opposed_paths = Inr ex" "eo_claimSets ex = opposed_sets"
  using reading_validated [OF assms reading_ok(1)] reading_validated [OF assms reading_ok(3)]
  by (simp add: runExtractors_def extraction_step_def opposed_sets_def)

lemma one_path_extracted:
  assumes "sample_facts d"
  obtains ex where "runExtractors (\<lambda>_. []) d [silent_extractor] = Inr ex"
    "eo_claimSets ex = [\<lparr>cs_extractor = ''parser'', cs_independenceGroup = ''rules'', cs_claims = []\<rparr>]"
proof -
  have "validateExtraction (\<lambda>_. []) d \<lparr>ex_extractor = ''parser'', ex_documentEvidenceId = ZERO32,
      ex_claims = [], ex_startedAt = 1, ex_finishedAt = 2, ex_warnings = [], ex_provenance = None\<rparr> ''rules''
    = Inr \<lparr>cs_extractor = ''parser'', cs_independenceGroup = ''rules'', cs_claims = []\<rparr>"
    using assms by (simp add: validateExtraction_def extractionSchema_def parsed_extraction_def zero32_ok zero32_lower
        sample_facts_def unixSecondsSchema_def)
  then show thesis
    by (intro that, simp add: runExtractors_def extraction_step_def run_path_def silent_extractor_def) simp
qed

lemmas sample_build_defs = buildCandidate_def unreadable_def Let_def sample_facts_def parse_candidate_def
  passportCandidateSchema_def zero32_ok parsed_candidate_def strongestSourceClass_def sourceClassSchema_def
  SOURCE_CLASS_NAMES_def unixSecondsSchema_def bpsSchema_def BUILDER_VERSION_def request_for_def sample_pipeline_def

lemma two_paths_build:
  assumes "sample_facts (in_document i)"
  shows "\<exists>built. buildCandidate id zero_hash (request_for sample_pipeline i agreed_sets (corroborate id agreed_sets) 30) = Inr built
    \<and> pc_evidenceIds (bc_candidate built) = [ZERO32]"
  using assms sample_schema
  by (simp add: sample_build_defs sample_outcome sample_redemption sample_leaves sample_roots zero32_lower)
    (simp add: agreed_sets_def)

lemma one_path_build:
  assumes "sample_facts (in_document i)"
  defines "s \<equiv> [\<lparr>cs_extractor = ''parser'', cs_independenceGroup = ''rules'', cs_claims = []\<rparr>]"
  shows "\<exists>built. buildCandidate id zero_hash (request_for sample_pipeline i s (corroborate id s) 30) = Inr built
    \<and> pc_evidenceIds (bc_candidate built) = [ZERO32]" "co_outcome (corroborate id s) = SINGLE_SOURCE"
proof -
  have c: "corroborate id s = \<lparr>co_outcome = SINGLE_SOURCE, co_fields = [], co_independentPathCount = 0\<rparr>"
    by (simp add: corroborate_def s_def claimed_fields_def contributingGroups_def set_adds_def Let_def)
  then show "co_outcome (corroborate id s) = SINGLE_SOURCE" by simp
  have "buildClaimLeaves id zero_hash s = []" "merkleRoot zero_hash [] = Inr ZERO32"
    by (simp_all add: buildClaimLeaves_def s_def merkleRoot_def)
  moreover have "list_all claimSetSchema s" by (simp add: s_def claimSetSchema_def)
  moreover have "resolveRedemption (corroborate id s)
      = withheld ''no path established redemption.supported; the floor term is omitted from recognised value''"
    by (simp add: c resolveRedemption_def find_field_def firstValue_def Let_def)
  ultimately show "\<exists>built. buildCandidate id zero_hash (request_for sample_pipeline i s (corroborate id s) 30) = Inr built
    \<and> pc_evidenceIds (bc_candidate built) = [ZERO32]"
    using assms(1) by (simp add: sample_build_defs c withheld_def sample_roots zero32_lower) (simp add: s_def)
qed

lemma ready_run:
  assumes "ingest plain_externals (memory_put length_digest) False 30 sample_ingest no_objects = (Inr i, st')"
    and "runExtractors (\<lambda>_. []) (in_document i) xs = Inr ex" "co_outcome (corroborate id (eo_claimSets ex)) \<noteq> CLAIM_CONFLICT"
    and "buildCandidate id zero_hash (request_for sample_pipeline i (eo_claimSets ex) (corroborate id (eo_claimSets ex)) 30) = Inr built"
    and "pc_evidenceIds (bc_candidate built) = [ZERO32]"
  shows "\<exists>r. runPipeline plain_externals sample_encoder (\<lambda>_. []) (sample_deps xs) False 30 sample_pipeline no_objects
      = (Inr (READY_TO_COMMIT r), st') \<and> rc_ingest r = i \<and> rc_claimSets r = eo_claimSets ex \<and> rc_candidate r = bc_candidate built"
proof -
  have "\<exists>a. commitPassportCalldata sample_encoder (bc_candidate built) = Inr a"
    by (simp add: commitPassportCalldata_def commitPassportArgs_def assms(5) sort_hex_def)
  then show ?thesis
    using assms(1-4) unfolding request_for_def
    by (auto simp: runPipeline_def sample_deps_def sample_pipeline_def conclude_def Let_def option_default_def)
qed

lemma two_paths_ready:
  obtains r st' where "runPipeline plain_externals sample_encoder (\<lambda>_. []) (sample_deps two_paths) False 30 sample_pipeline no_objects
      = (Inr (READY_TO_COMMIT r), st')" "rc_claimSets r = agreed_sets" "pc_claimSets (rc_candidate r) = map parsed_claim_set agreed_sets"
proof -
  obtain i st' where i: "ingest plain_externals (memory_put length_digest) False 30 sample_ingest no_objects = (Inr i, st')"
    "sample_facts (in_document i)" by (rule sample_ingested)
  obtain ex where ex: "runExtractors (\<lambda>_. []) (in_document i) two_paths = Inr ex" "eo_claimSets ex = agreed_sets"
    using i(2) by (rule two_paths_extracted)
  obtain built where b: "buildCandidate id zero_hash (request_for sample_pipeline i agreed_sets (corroborate id agreed_sets) 30) = Inr built"
    "pc_evidenceIds (bc_candidate built) = [ZERO32]" using two_paths_build [OF i(2)] by blast
  show thesis
    using ready_run [OF i(1) ex(1), of built] b ex(2) sample_outcome buildCandidate_claims [OF b(1)]
    by (auto intro: that)
qed

lemma one_path_ready:
  obtains r st' where "runPipeline plain_externals sample_encoder (\<lambda>_. []) (sample_deps [silent_extractor]) False 30 sample_pipeline no_objects
      = (Inr (READY_TO_COMMIT r), st')"
proof -
  obtain i st' where i: "ingest plain_externals (memory_put length_digest) False 30 sample_ingest no_objects = (Inr i, st')"
    "sample_facts (in_document i)" by (rule sample_ingested)
  obtain ex where ex: "runExtractors (\<lambda>_. []) (in_document i) [silent_extractor] = Inr ex"
    "eo_claimSets ex = [\<lparr>cs_extractor = ''parser'', cs_independenceGroup = ''rules'', cs_claims = []\<rparr>]"
    using i(2) by (rule one_path_extracted)
  show thesis
    using one_path_build [OF i(2)] ready_run [OF i(1) ex(1)] ex(2) by (auto intro: that)
qed

lemma opposed_conflict: "isRiskBearing ''redemption.floorBps''" "disputed id opposed_sets ''redemption.floorBps''"
proof -
  let ?p = "sample_set ''parser'' ''rules'' (Some (CV_bps 9000))" and ?m = "sample_set ''model'' ''llm'' (Some (CV_bps 5000))"
  have "claim_value ''redemption.floorBps'' ?p = Some (CV_bps 9000)" "claim_value ''redemption.floorBps'' ?m = Some (CV_bps 5000)"
    by (simp_all add: claim_value_def sample_defs)
  moreover have "\<not> claimValuesEqual id (Some (CV_bps 9000)) (Some (CV_bps 5000))"
    by (simp add: claimValuesEqual_def normalizeForComparison_def show_int_def show_nat_inj)
  ultimately show "disputed id opposed_sets ''redemption.floorBps''" unfolding disputed_def opposed_sets_def by force
  show "isRiskBearing ''redemption.floorBps''" by (simp add: isRiskBearing_def RISK_BEARING_FIELDS_def)
qed

lemma opposed_paths_conflict:
  obtains c st' where "runPipeline plain_externals sample_encoder (\<lambda>_. []) (sample_deps opposed_paths) False 30
      (sample_pipeline\<lparr>pr_version := 3\<rparr>) no_objects = (Inr (CONFLICTING c), st')" "cc_claimSets c = opposed_sets"
proof -
  obtain i st' where i: "ingest plain_externals (memory_put length_digest) False 30 sample_ingest no_objects = (Inr i, st')"
    "sample_facts (in_document i)" by (rule sample_ingested)
  obtain ex where ex: "runExtractors (\<lambda>_. []) (in_document i) opposed_paths = Inr ex" "eo_claimSets ex = opposed_sets"
    using i(2) by (rule opposed_paths_extracted)
  have "co_outcome (corroborate id opposed_sets) = CLAIM_CONFLICT"
    using opposed_conflict corroborate_conflict_iff by blast
  then show thesis
    using i ex by (auto simp: runPipeline_def sample_deps_def sample_pipeline_def conclude_def Let_def option_default_def
        intro!: that)
qed

theorem conflict_never_commits_witness:
  "(\<exists>r st'. runPipeline plain_externals sample_encoder (\<lambda>_. []) (sample_deps two_paths) False 30 sample_pipeline no_objects
      = (Inr (READY_TO_COMMIT r), st')
      \<and> map cl_functionName (rc_calls r) = [''commit'', ''commitPassport'', ''bumpEpoch'']
      \<and> \<not> disputed id agreed_sets ''redemption.floorBps'')
   \<and> (\<exists>c st'. runPipeline plain_externals sample_encoder (\<lambda>_. []) (sample_deps opposed_paths) False 30
        (sample_pipeline\<lparr>pr_version := 3\<rparr>) no_objects = (Inr (CONFLICTING c), st')
      \<and> ''redemption.floorBps'' \<in> set (cc_conflictingFields c)
      \<and> map cl_functionName (cc_calls c) = [''restrict'', ''bumpEpoch''])"
proof -
  obtain r st' where r: "runPipeline plain_externals sample_encoder (\<lambda>_. []) (sample_deps two_paths) False 30 sample_pipeline no_objects
      = (Inr (READY_TO_COMMIT r), st')" "rc_claimSets r = agreed_sets" by (rule two_paths_ready)
  obtain c st'' where c: "runPipeline plain_externals sample_encoder (\<lambda>_. []) (sample_deps opposed_paths) False 30
      (sample_pipeline\<lparr>pr_version := 3\<rparr>) no_objects = (Inr (CONFLICTING c), st'')" "cc_claimSets c = opposed_sets"
    by (rule opposed_paths_conflict)
  have "pd_corroborator (sample_deps xs) = None" for xs by (simp add: sample_deps_def)
  then show ?thesis
    using conflict_never_commits [OF r(1)] conflict_never_commits [OF c(1)] r c opposed_conflict by auto
qed

theorem ready_claims_are_trusted_witness:
  "\<exists>r st' s c. runPipeline plain_externals sample_encoder (\<lambda>_. []) (sample_deps two_paths) False 30 sample_pipeline no_objects
      = (Inr (READY_TO_COMMIT r), st') \<and> s \<in> set (pc_claimSets (rc_candidate r)) \<and> c \<in> set (cs_claims s)
    \<and> ec_sourceClass c = 4 \<and> maySupportClaim (ec_sourceClass c)"
proof -
  obtain r st' where r: "runPipeline plain_externals sample_encoder (\<lambda>_. []) (sample_deps two_paths) False 30 sample_pipeline no_objects
      = (Inr (READY_TO_COMMIT r), st')" "pc_claimSets (rc_candidate r) = map parsed_claim_set agreed_sets" by (rule two_paths_ready)
  let ?s = "parsed_claim_set (sample_set ''parser'' ''rules'' (Some (CV_bps 9000)))"
  have s: "?s \<in> set (pc_claimSets (rc_candidate r))" by (simp add: r(2) agreed_sets_def)
  have c: "hd (cs_claims ?s) \<in> set (cs_claims ?s)" by (simp add: parsed_claim_set_def sample_defs)
  have "pd_put (sample_deps two_paths) = memory_put (keccakBytes plain_externals)" by (simp add: sample_deps_def)
  moreover have "iq_sourceClass (pr_document sample_pipeline) = 4" by (simp add: sample_pipeline_def sample_ingest_def)
  ultimately show ?thesis using ready_claims_are_trusted [OF r(1) _ _ s c] r(1) s c by auto
qed

theorem one_path_never_raises_witness:
  "\<exists>r st'. runPipeline plain_externals sample_encoder (\<lambda>_. []) (sample_deps [silent_extractor]) False 30 sample_pipeline no_objects
      = (Inr (READY_TO_COMMIT r), st') \<and> rc_singleSource r"
proof -
  obtain r st' where r: "runPipeline plain_externals sample_encoder (\<lambda>_. []) (sample_deps [silent_extractor]) False 30 sample_pipeline no_objects
      = (Inr (READY_TO_COMMIT r), st')" by (rule one_path_ready)
  show ?thesis
    using one_path_never_raises [OF r, of "''rules''"] r by (auto simp: sample_deps_def silent_extractor_def)
qed

section \<open>Settling a pipeline job\<close>

definition settled_well :: "(PipelineOutcome \<Rightarrow> pipeline_error + unit) \<Rightarrow> pipeline_error + PipelineOutcome \<Rightarrow> bool" where
  "settled_well handler r \<longleftrightarrow> (\<exists>out. r = Inr out \<and> (\<forall>s. out \<noteq> SCHEMA_INVALID s) \<and> handler out = Inr ())"

text \<open>The error a job is failed with, when it is.\<close>

definition failure_of :: "(PipelineOutcome \<Rightarrow> pipeline_error + unit) \<Rightarrow> pipeline_error + PipelineOutcome \<Rightarrow> pipeline_error option" where
  "failure_of handler r = (case r of
       Inl e \<Rightarrow> Some e
     | Inr (SCHEMA_INVALID s) \<Rightarrow> Some (si_reason s)
     | Inr out \<Rightarrow> (case handler out of Inl e \<Rightarrow> Some e | Inr _ \<Rightarrow> None))"

lemma failure_iff: "failure_of handler r = None \<longleftrightarrow> settled_well handler r"
  by (auto simp: failure_of_def settled_well_def split: sum.splits PipelineOutcome.splits)

lemma runPipeline_schema_invalid:
  "runPipeline x en issues deps aborted now req st = (Inr (SCHEMA_INVALID s), st')
     \<Longrightarrow> si_terminal s = isTerminalPipelineError (si_reason s)"
  by (erule runPipeline_cases)
    (auto simp: schema_invalid_def conclude_def Let_def split: if_splits sum.splits)

lemma attempt_schema_invalid:
  "attempt_job x en issues deps get aborted clock p st = (Inr (SCHEMA_INVALID s), st')
     \<Longrightarrow> si_terminal s = isTerminalPipelineError (si_reason s)"
  by (auto simp: attempt_job_def split: sum.splits option.splits dest: runPipeline_schema_invalid)

lemma fail_known:
  assumes "getJob q i = Some j0" "queue_ok q"
  shows "\<exists>j. fail i now err terminal draw q = (Inr j, put_job j q) \<and> jr_jobId j = i \<and> jr_state j = fail_state terminal j0"
  using assms getJob_ok [OF assms(2,1)] by (simp add: fail_def require_def Let_def)

lemma succeed_known:
  assumes "getJob q i = Some j0" "queue_ok q"
  shows "\<exists>j. succeed i now q = (Inr j, put_job j q) \<and> jr_jobId j = i \<and> jr_state j = SUCCEEDED"
  using assms getJob_ok [OF assms(2,1)] by (simp add: succeed_def require_def Let_def)

lemma job_run_cases:
  assumes "queue_ok q" "claim [PIPELINE_JOB_KIND] now L q = (Some job, q1)"
    and "attempt_job x en issues deps get aborted clock (jr_payload job) st = (r, st')"
  shows "\<exists>j. runPipelineJobOnce x en issues render deps get aborted clock now L onOutcome draw q st
        = (Inr (Some j), put_job j q1, st') \<and> jr_jobId j = jr_jobId job
      \<and> jr_state j = (case failure_of (\<lambda>out. onOutcome out job) r of
            None \<Rightarrow> SUCCEEDED | Some e \<Rightarrow> fail_state (isTerminalPipelineError e) job)"
proof -
  have q1: "queue_ok q1" using claim_ok [OF assms(1), of "[PIPELINE_JOB_KIND]" now L] assms(2) by simp
  have job: "getJob q1 (jr_jobId job) = Some job"
    using assms(1,2) by (auto elim!: claim_cases [of q "[PIPELINE_JOB_KIND]" now L])
  have f: "\<exists>j. fail (jr_jobId job) now err terminal draw q1 = (Inr j, put_job j q1) \<and> jr_jobId j = jr_jobId job
      \<and> jr_state j = fail_state terminal job" for err terminal using job q1 by (rule fail_known)
  have s: "\<exists>j. succeed (jr_jobId job) now q1 = (Inr j, put_job j q1) \<and> jr_jobId j = jr_jobId job \<and> jr_state j = SUCCEEDED"
    using job q1 by (rule succeed_known)
  have t: "si_terminal i = isTerminalPipelineError (si_reason i)" if "r = Inr (SCHEMA_INVALID i)" for i
    using assms(3) unfolding that by (rule attempt_schema_invalid)
  show ?thesis
  proof (cases "failure_of (\<lambda>out. onOutcome out job) r")
    case None
    then show ?thesis
      using s assms(2,3) by (auto simp: runPipelineJobOnce_def Let_def failure_of_def
          split: sum.splits PipelineOutcome.splits)
  next
    case (Some e)
    then show ?thesis
      using f [of "render e" "isTerminalPipelineError e"] assms(2,3) t
      by (auto simp: runPipelineJobOnce_def Let_def failure_of_def split: sum.splits PipelineOutcome.splits)
  qed
qed

text \<open>
  A pipeline job is settled by what the pipeline found. A claimed job always comes back settled and no
  longer leased, with every other job as it was; it has succeeded exactly when the pipeline reached a
  conclusion, a conflict included, and the handler took it; it is rejected exactly when it failed with
  an error that no retry can mend; and a document of a low-trust class is rejected at its first attempt.
\<close>

theorem job_settled_by_conclusion:
  assumes "queue_ok q" "claim [PIPELINE_JOB_KIND] now L q = (Some job, q1)"
    and "attempt_job x en issues deps get aborted clock (jr_payload job) st = (r, st')"
    and "runPipelineJobOnce x en issues render deps get aborted clock now L onOutcome draw q st = (res, q', st'')"
  shows "\<exists>j. res = Inr (Some j) \<and> getJob q' (jr_jobId job) = Some j \<and> jr_state j \<noteq> LEASED \<and> st'' = st'
    \<and> (\<forall>i. i \<noteq> jr_jobId job \<longrightarrow> getJob q' i = getJob q i)
    \<and> (jr_state j = SUCCEEDED \<longleftrightarrow> settled_well (\<lambda>out. onOutcome out job) r)
    \<and> (jr_state j = REJECTED \<longleftrightarrow> (\<exists>e. failure_of (\<lambda>out. onOutcome out job) r = Some e \<and> isTerminalPipelineError e))
    \<and> (isLowTrust (pj_sourceClass (jr_payload job)) \<and> get (pj_rawDigest (jr_payload job)) st = Inr (Some bs)
        \<longrightarrow> jr_state j = REJECTED)"
proof -
  let ?f = "failure_of (\<lambda>out. onOutcome out job) r"
  obtain j where j: "res = Inr (Some j)" "q' = put_job j q1" "st'' = st'" "jr_jobId j = jr_jobId job"
    "jr_state j = (case ?f of None \<Rightarrow> SUCCEEDED | Some e \<Rightarrow> fail_state (isTerminalPipelineError e) job)"
    using job_run_cases [OF assms(1-3), of render onOutcome draw] assms(4) by auto
  have st: "(jr_state j = SUCCEEDED \<longleftrightarrow> ?f = None)" "(jr_state j = REJECTED \<longleftrightarrow> (\<exists>e. ?f = Some e \<and> isTerminalPipelineError e))"
    "jr_state j \<noteq> LEASED"
    using j(5) by (auto simp: fail_state_def split: option.splits if_splits)
  have other: "getJob q1 i = getJob q i" if "i \<noteq> jr_jobId job" for i
    using assms(1,2) that by (auto elim!: claim_cases [of q "[PIPELINE_JOB_KIND]" now L])
  have low: "jr_state j = REJECTED"
    if "isLowTrust (pj_sourceClass (jr_payload job))" "get (pj_rawDigest (jr_payload job)) st = Inr (Some bs)"
  proof -
    have "r = Inr (schema_invalid [FETCHED] (IngestFailed (LowTrustSourceRejected (pj_sourceClass (jr_payload job)))) [])"
      using assms(3) that by (auto simp: attempt_job_def runPipeline_def ingest_def job_request_def Let_def)
    then show ?thesis using st(2) by (simp add: failure_of_def schema_invalid_def)
  qed
  show ?thesis
    using j(1-4) st other low by (simp add: failure_iff)
qed

definition low_payload :: PipelineJobPayload where
  "low_payload = \<lparr>pj_assetId = ZERO32, pj_version = 1, pj_expiresAt = 0, pj_uri = ''u'', pj_issuerId = ZERO32,
     pj_sourceClass = 1, pj_mediaType = ''text/plain'', pj_retrievedAt = 20, pj_effectiveAt = 10,
     pj_assertedSourceHash = ZERO32, pj_rawDigest = length_digest [7]\<rparr>"

definition low_job :: "PipelineJobPayload JobRecord" where
  "low_job = \<lparr>jr_jobId = ''j'', jr_idempotencyKey = ''k'', jr_kind = PIPELINE_JOB_KIND, jr_payload = low_payload,
     jr_state = PENDING, jr_attempts = 0, jr_maxAttempts = 5, jr_nextAttemptAt = 0, jr_leaseExpiresAt = None,
     jr_lastError = None, jr_createdAt = 0, jr_updatedAt = 0\<rparr>"

theorem job_settled_by_conclusion_witness:
  "\<exists>j q' st'. runPipelineJobOnce plain_externals sample_encoder (\<lambda>_. []) (\<lambda>_. []) (sample_deps two_paths)
      (\<lambda>d st. Inr (Some [7])) False 30 30 60 (\<lambda>_ _. Inr ()) 0 (put_job low_job empty_queue) no_objects
      = (Inr (Some j), q', st') \<and> jr_state j = REJECTED"
proof -
  let ?q = "put_job low_job empty_queue"
  have ok: "queue_ok ?q" by (simp add: low_job_def job_ok_def)
  have c: "claim [PIPELINE_JOB_KIND] 30 60 ?q = (Some (lease_job 30 60 low_job), put_job (lease_job 30 60 low_job) ?q)"
    by (simp add: claim_def due_jobs_def put_job_def empty_queue_def map_values_def low_job_def claimable_def Let_def)
  obtain r st' where a: "attempt_job plain_externals sample_encoder (\<lambda>_. []) (sample_deps two_paths)
      (\<lambda>d st. Inr (Some [7])) False 30 (jr_payload (lease_job 30 60 low_job)) no_objects = (r, st')" by fastforce
  obtain res q' st'' where run: "runPipelineJobOnce plain_externals sample_encoder (\<lambda>_. []) (\<lambda>_. []) (sample_deps two_paths)
      (\<lambda>d st. Inr (Some [7])) False 30 30 60 (\<lambda>_ _. Inr ()) 0 ?q no_objects = (res, q', st'')" by (metis prod_cases3)
  have "isLowTrust (pj_sourceClass (jr_payload (lease_job 30 60 low_job)))"
    by (simp add: lease_job_def low_job_def low_payload_def isLowTrust_def LOW_TRUST_CLASSES_def)
  with job_settled_by_conclusion [OF ok c a run, of "[7]"] run show ?thesis by blast
qed

text \<open>
  The stages after ingest never end a job for good: when every extractor's output fails validation, what
  the pipeline reports is that no path was available, and the job is retried.
\<close>

lemma failed_validation_is_retried:
  assumes "runPipeline x en issues deps aborted now req st = (Inr (SCHEMA_INVALID s), st')"
    and "si_reason s = ExtractFailed e"
  shows "\<not> si_terminal s"
proof -
  have "\<exists>rs. e = NoExtractionPathAvailable rs"
    using assms
    by (elim runPipeline_cases)
      (auto simp: schema_invalid_def conclude_def runExtractors_def Let_def split: if_splits sum.splits prod.splits)
  then show ?thesis using runPipeline_schema_invalid [OF assms(1)] assms(2) by auto
qed

end
