(* ===== verification/Identity.thy ===== *)
theory Identity
  imports Indexer_Facility Evidence_Ingest
begin

text \<open>
  Identity: the schemas of \<open>packages/schemas/src/instrument.ts\<close>, \<open>domain.ts\<close> and \<open>facility.ts\<close> with the
  derivations of \<open>ids.ts\<close>. A schema is a predicate on the input and a function that gives what parsing
  returns. An enumeration is the list of its names. Missing texts with a default are empty strings. The
  capitals of two Latin-1 letters lie outside Latin-1 and are left as they are. Fields no code here reads
  (notes, adapter versions, optional provenance) are left out of the records.
\<close>

section \<open>Identifiers\<close>

definition upper_char :: "char \<Rightarrow> string" where
  "upper_char c =
     (let n = of_char c :: nat
      in if 97 \<le> n \<and> n \<le> 122 \<or> 224 \<le> n \<and> n \<le> 254 \<and> n \<noteq> 247 then [char_of (n - 32)]
         else if n = 223 then ''SS'' else [c])"

definition toUpperCase :: "string \<Rightarrow> string" where
  "toUpperCase s = concat (map upper_char s)"

definition issuerId :: "externals \<Rightarrow> string \<Rightarrow> string \<Rightarrow> string" where
  "issuerId x legalName jurisdiction =
     keccakAbi x [ABI_string (toLowerCase (nfc_string x (trim legalName))), ABI_string (toUpperCase (trim jurisdiction))]"

definition domainId :: "externals \<Rightarrow> string \<Rightarrow> string" where
  "domainId x caip2 = keccakAbi x [ABI_string ''USANCE_DOMAIN_V1'', ABI_string caip2]"

definition instrumentStandardId :: "externals \<Rightarrow> string \<Rightarrow> string" where
  "instrumentStandardId x standard = keccakAbi x [ABI_string ''USANCE_INSTRUMENT_STANDARD_V1'', ABI_string standard]"

definition evmCanonicalRef :: "string \<Rightarrow> string" where
  "evmCanonicalRef token =
     (let t = toLowerCase token; digits = (if take 2 t = ''0x'' then drop 2 t else t)
      in ''0x'' @ padStart digits 64 (CHR ''0''))"

definition nativeCanonicalRef :: "externals \<Rightarrow> string \<Rightarrow> string" where
  "nativeCanonicalRef x nativeId = keccakAbi x [ABI_string ''USANCE_NATIVE_REF_V1'', ABI_string nativeId]"

definition underlyingReferenceId :: "externals \<Rightarrow> string \<Rightarrow> string \<Rightarrow> string \<Rightarrow> string \<Rightarrow> string \<Rightarrow> string" where
  "underlyingReferenceId x assetClass isin figi ticker name =
     keccakAbi x (map ABI_string [''USANCE_UNDERLYING_REF_V1'', assetClass, isin, figi, ticker, name])"

definition instrumentId :: "externals \<Rightarrow> string \<Rightarrow> string \<Rightarrow> string \<Rightarrow> string \<Rightarrow> int \<Rightarrow> string" where
  "instrumentId x domain canonicalRef issuer standard version =
     keccakAbi x [ABI_bytes32 domain, ABI_bytes32 canonicalRef, ABI_bytes32 issuer, ABI_bytes32 standard, ABI_uint version]"

definition instrumentBindingId :: "externals \<Rightarrow> string \<Rightarrow> string \<Rightarrow> int \<Rightarrow> string" where
  "instrumentBindingId x legacyAssetId inst boundAt =
     keccakAbi x [ABI_bytes32 legacyAssetId, ABI_bytes32 inst, ABI_uint boundAt]"

definition facilityId :: "externals \<Rightarrow> string \<Rightarrow> string \<Rightarrow> string \<Rightarrow> string \<Rightarrow> string" where
  "facilityId x facilityType home controller discriminator =
     keccakAbi x [ABI_string ''USANCE_FACILITY_V1'', ABI_string facilityType, ABI_bytes32 home,
       ABI_bytes32 controller, ABI_bytes32 discriminator]"

section \<open>Instruments\<close>

definition INSTRUMENT_STANDARDS :: "string list" where
  "INSTRUMENT_STANDARDS = [''ERC20'', ''B20'', ''XSTOCKS_TRACKER_CERT'', ''HTS'', ''ATS_ERC1400'']"

definition ASSET_CLASSES :: "string list" where
  "ASSET_CLASSES = [''EQUITY'', ''FUND'', ''MONEY_MARKET_FUND'', ''TREASURY'', ''PRIVATE_CREDIT'', ''COMMODITY'',
     ''CASH'', ''OTHER'']"

definition INSTRUMENT_ACCOUNTING_MODES :: "string list" where
  "INSTRUMENT_ACCOUNTING_MODES = [''FIXED_UNIT'', ''EXTERNALLY_SCALED'', ''REBASING_BALANCE'',
     ''SHARE_BASED_CUSTODY'', ''EXTERNALLY_MANAGED'']"

definition LEGACY_ASSET_ID_KINDS :: "string list" where
  "LEGACY_ASSET_ID_KINDS = [''DERIVED'', ''FIXTURE_LABEL'']"

definition normalizeName :: "externals \<Rightarrow> string \<Rightarrow> string" where
  "normalizeName x s = toLowerCase (nfc_string x (trim s))"

definition caip2_parsed :: "string \<Rightarrow> string" where
  "caip2_parsed s = toLowerCase (trim s)"

text \<open>\<open>/^[a-z0-9]+:[a-zA-Z0-9._-]+$/\<close>\<close>

definition caip2_form :: "string \<Rightarrow> bool" where
  "caip2_form s \<longleftrightarrow>
     (let p = takeWhile (\<lambda>c. c \<noteq> CHR '':'') s; r = drop (Suc (length p)) s
      in p \<noteq> [] \<and> list_all (\<lambda>c. lower_letter c \<or> is_digit c) p \<and> r \<noteq> []
       \<and> list_all (\<lambda>c. lower_letter c \<or> upper_letter c \<or> is_digit c \<or> c \<in> set ''._-'') r)"

definition caip2Schema :: "string \<Rightarrow> bool" where
  "caip2Schema s \<longleftrightarrow> caip2_form (caip2_parsed s)"

record IssuerIdentity =
  is_legalName :: string
  is_jurisdiction :: string

record UnderlyingReference =
  ur_assetClass :: string
  ur_isin :: string
  ur_figi :: string
  ur_ticker :: string
  ur_name :: string

datatype CanonicalRef = Evm_token string | Native_id string | Raw_value string

fun canonicalRefSchema :: "CanonicalRef \<Rightarrow> bool" where
  "canonicalRefSchema (Evm_token t) \<longleftrightarrow> addressSchema t"
| "canonicalRefSchema (Native_id n) \<longleftrightarrow> n \<noteq> []"
| "canonicalRefSchema (Raw_value v) \<longleftrightarrow> hex32Schema v"

fun canonicalRef_parsed :: "CanonicalRef \<Rightarrow> CanonicalRef" where
  "canonicalRef_parsed (Evm_token t) = Evm_token (toLowerCase t)"
| "canonicalRef_parsed (Native_id n) = Native_id n"
| "canonicalRef_parsed (Raw_value v) = Raw_value (toLowerCase v)"

fun canonicalRefOf :: "externals \<Rightarrow> CanonicalRef \<Rightarrow> string" where
  "canonicalRefOf x (Evm_token t) = evmCanonicalRef t"
| "canonicalRefOf x (Native_id n) = nativeCanonicalRef x n"
| "canonicalRefOf x (Raw_value v) = v"

definition issuerIdentitySchema :: "IssuerIdentity \<Rightarrow> bool" where
  "issuerIdentitySchema i \<longleftrightarrow> is_legalName i \<noteq> [] \<and> is_jurisdiction i \<noteq> []"

definition underlyingReferenceSchema :: "UnderlyingReference \<Rightarrow> bool" where
  "underlyingReferenceSchema u \<longleftrightarrow> ur_assetClass u \<in> set ASSET_CLASSES
     \<and> list_ex (\<lambda>v. trim v \<noteq> []) [ur_isin u, ur_figi u, ur_name u]"

definition underlying_id :: "externals \<Rightarrow> UnderlyingReference \<Rightarrow> string" where
  "underlying_id x u = underlyingReferenceId x (ur_assetClass u) (trim (ur_isin u)) (trim (ur_figi u))
     (trim (ur_ticker u)) (normalizeName x (ur_name u))"

record InstrumentInput =
  ii_caip2 :: string
  ii_label :: string
  ii_canonicalRef :: CanonicalRef
  ii_issuer :: IssuerIdentity
  ii_standard :: string
  ii_instrumentVersion :: int
  ii_underlying :: UnderlyingReference
  ii_accountingMode :: string

definition standard_fits_mode :: "string \<Rightarrow> string \<Rightarrow> bool" where
  "standard_fits_mode standard mode \<longleftrightarrow>
     \<not> (standard = ''B20'' \<and> mode \<noteq> ''EXTERNALLY_SCALED'')
   \<and> \<not> (standard = ''XSTOCKS_TRACKER_CERT'' \<and> mode \<noteq> ''REBASING_BALANCE'' \<and> mode \<noteq> ''SHARE_BASED_CUSTODY'')
   \<and> \<not> (standard = ''ATS_ERC1400'' \<and> mode \<noteq> ''EXTERNALLY_MANAGED'')"

definition instrumentIdentitySchema :: "InstrumentInput \<Rightarrow> bool" where
  "instrumentIdentitySchema i \<longleftrightarrow>
     caip2Schema (ii_caip2 i) \<and> ii_label i \<noteq> [] \<and> canonicalRefSchema (ii_canonicalRef i)
   \<and> issuerIdentitySchema (ii_issuer i) \<and> ii_standard i \<in> set INSTRUMENT_STANDARDS
   \<and> 1 \<le> ii_instrumentVersion i \<and> ii_instrumentVersion i \<le> 0xffffffff
   \<and> underlyingReferenceSchema (ii_underlying i) \<and> ii_accountingMode i \<in> set INSTRUMENT_ACCOUNTING_MODES
   \<and> standard_fits_mode (ii_standard i) (ii_accountingMode i)"

text \<open>What parsing adds to the input.\<close>

record InstrumentIdentity =
  id_input :: InstrumentInput
  id_domainId :: string
  id_issuerId :: string
  id_underlyingReferenceId :: string
  id_instrumentStandardId :: string
  id_canonicalRefHex :: string
  id_instrumentId :: string

definition instrumentIdentity :: "externals \<Rightarrow> InstrumentInput \<Rightarrow> InstrumentIdentity option" where
  "instrumentIdentity x i =
     (if \<not> instrumentIdentitySchema i then None
      else let domain = domainId x (caip2_parsed (ii_caip2 i));
               issuer = issuerId x (is_legalName (ii_issuer i)) (is_jurisdiction (ii_issuer i));
               standard = instrumentStandardId x (ii_standard i);
               ref = canonicalRef_parsed (ii_canonicalRef i);
               canonical = canonicalRefOf x ref
           in Some \<lparr>id_input = i\<lparr>ii_caip2 := caip2_parsed (ii_caip2 i), ii_canonicalRef := ref\<rparr>,
                id_domainId = domain, id_issuerId = issuer,
                id_underlyingReferenceId = underlying_id x (ii_underlying i),
                id_instrumentStandardId = standard, id_canonicalRefHex = canonical,
                id_instrumentId = instrumentId x domain canonical issuer standard (ii_instrumentVersion i)\<rparr>)"

section \<open>The bindings artifact\<close>

definition instrumentBindingSchema :: "InstrumentBinding \<Rightarrow> bool" where
  "instrumentBindingSchema b \<longleftrightarrow>
     hex32Schema (ib_bindingId b) \<and> hex32Schema (ib_legacyAssetId b)
   \<and> ib_legacyAssetIdKind b \<in> set LEGACY_ASSET_ID_KINDS \<and> hex32Schema (ib_instrumentId b)
   \<and> 0 \<le> ib_boundAt b \<and> 0 \<le> ib_boundAtBlock b \<and> ib_boundBy b \<noteq> [] \<and> caip2Schema (ib_boundAtDomain b)
   \<and> ib_deploymentDigest b \<noteq> [] \<and> hex32Schema (ib_supersedes b) \<and> ib_note b \<noteq> []"

definition binding_parsed :: "InstrumentBinding \<Rightarrow> InstrumentBinding" where
  "binding_parsed b = b\<lparr>ib_bindingId := toLowerCase (ib_bindingId b),
     ib_legacyAssetId := toLowerCase (ib_legacyAssetId b), ib_instrumentId := toLowerCase (ib_instrumentId b),
     ib_boundAtDomain := caip2_parsed (ib_boundAtDomain b), ib_supersedes := toLowerCase (ib_supersedes b)\<rparr>"

record InstrumentIdentityRecord =
  rr_instrumentId :: string
  rr_domainId :: string
  rr_caip2 :: string
  rr_canonicalRef :: string
  rr_canonicalRefKind :: string
  rr_token :: "string option"
  rr_nativeId :: "string option"
  rr_issuerId :: string
  rr_issuerLegalName :: string
  rr_issuerJurisdiction :: string
  rr_instrumentStandard :: string
  rr_instrumentStandardId :: string
  rr_instrumentVersion :: int
  rr_underlyingReferenceId :: string
  rr_underlying :: UnderlyingReference
  rr_accountingMode :: string

definition instrumentIdentityRecordSchema :: "InstrumentIdentityRecord \<Rightarrow> bool" where
  "instrumentIdentityRecordSchema r \<longleftrightarrow>
     hex32Schema (rr_instrumentId r) \<and> hex32Schema (rr_domainId r) \<and> caip2Schema (rr_caip2 r)
   \<and> hex32Schema (rr_canonicalRef r) \<and> rr_canonicalRefKind r \<in> set [''evm'', ''native'', ''raw'']
   \<and> opt_ok addressSchema (rr_token r) \<and> hex32Schema (rr_issuerId r) \<and> rr_issuerLegalName r \<noteq> []
   \<and> rr_issuerJurisdiction r \<noteq> [] \<and> rr_instrumentStandard r \<in> set INSTRUMENT_STANDARDS
   \<and> hex32Schema (rr_instrumentStandardId r) \<and> 1 \<le> rr_instrumentVersion r
   \<and> hex32Schema (rr_underlyingReferenceId r) \<and> ur_assetClass (rr_underlying r) \<in> set ASSET_CLASSES
   \<and> rr_accountingMode r \<in> set INSTRUMENT_ACCOUNTING_MODES"

definition record_parsed :: "InstrumentIdentityRecord \<Rightarrow> InstrumentIdentityRecord" where
  "record_parsed r = r\<lparr>rr_instrumentId := toLowerCase (rr_instrumentId r), rr_domainId := toLowerCase (rr_domainId r),
     rr_caip2 := caip2_parsed (rr_caip2 r), rr_canonicalRef := toLowerCase (rr_canonicalRef r),
     rr_token := map_option toLowerCase (rr_token r), rr_issuerId := toLowerCase (rr_issuerId r),
     rr_instrumentStandardId := toLowerCase (rr_instrumentStandardId r),
     rr_underlyingReferenceId := toLowerCase (rr_underlyingReferenceId r)\<rparr>"

record ArtifactProvenance =
  ap_generatedAt :: string
  ap_generatedBy :: string
  ap_gitCommit :: string
  ap_inputDigest :: string
  ap_schema :: int

definition artifactProvenanceSchema :: "ArtifactProvenance \<Rightarrow> bool" where
  "artifactProvenanceSchema p \<longleftrightarrow> ap_generatedAt p \<noteq> [] \<and> ap_generatedBy p \<noteq> [] \<and> ap_gitCommit p \<noteq> []
     \<and> ap_inputDigest p \<noteq> [] \<and> ap_schema p = 1"

record InstrumentBindingsArtifact =
  ba_provenance :: ArtifactProvenance
  ba_instruments :: "InstrumentIdentityRecord list"
  ba_bindings :: "InstrumentBinding list"

definition by_legacy :: "InstrumentBinding list \<Rightarrow> string \<Rightarrow> InstrumentBinding list" where
  "by_legacy bindings legacy = filter (\<lambda>b. ib_legacyAssetId b = legacy) bindings"

definition chain_ok :: "InstrumentBinding list \<Rightarrow> bool" where
  "chain_ok bs \<longleftrightarrow> length (filter (\<lambda>b. ib_supersedes b = ZERO32) bs) = 1
     \<and> list_all (\<lambda>b. ib_supersedes b = ZERO32 \<or> list_ex (\<lambda>c. ib_bindingId c = ib_supersedes b) bs) bs"

definition bindings_refine :: "InstrumentBindingsArtifact \<Rightarrow> bool" where
  "bindings_refine a \<longleftrightarrow>
     list_all (\<lambda>b. ib_instrumentId b \<in> set (map rr_instrumentId (ba_instruments a))) (ba_bindings a)
   \<and> distinct (map ib_bindingId (ba_bindings a))
   \<and> list_all (\<lambda>legacy. chain_ok (by_legacy (ba_bindings a) legacy)) (map ib_legacyAssetId (ba_bindings a))"

definition parse_bindings :: "InstrumentBindingsArtifact \<Rightarrow> InstrumentBindingsArtifact option" where
  "parse_bindings a =
     (if artifactProvenanceSchema (ba_provenance a) \<and> list_all instrumentIdentityRecordSchema (ba_instruments a)
         \<and> list_all instrumentBindingSchema (ba_bindings a) \<and> ba_bindings a \<noteq> []
      then let a' = a\<lparr>ba_instruments := map record_parsed (ba_instruments a),
                      ba_bindings := map binding_parsed (ba_bindings a)\<rparr>
           in if bindings_refine a' then Some a' else None
      else None)"

definition instrument_record :: "InstrumentIdentityRecord \<Rightarrow> InstrumentRecord" where
  "instrument_record r =
     \<lparr>ir_instrumentId = rr_instrumentId r, ir_domainId = rr_domainId r, ir_caip2 = rr_caip2 r,
      ir_issuerId = rr_issuerId r, ir_issuerLegalName = rr_issuerLegalName r,
      ir_instrumentStandard = rr_instrumentStandard r, ir_instrumentVersion = rr_instrumentVersion r,
      ir_underlyingReferenceId = rr_underlyingReferenceId r, ir_accountingMode = rr_accountingMode r\<rparr>"

definition fromArtifact :: "InstrumentBindingsArtifact \<Rightarrow> InstrumentBindings option" where
  "fromArtifact raw = map_option (\<lambda>a. instrument_bindings (map instrument_record (ba_instruments a)) (ba_bindings a))
     (parse_bindings raw)"

section \<open>What an instrument's identity is made of\<close>

text \<open>The inputs that are hashed, in the form in which they are hashed.\<close>

definition identity_parts :: "externals \<Rightarrow> InstrumentInput \<Rightarrow> string \<times> string \<times> string \<times> string \<times> string \<times> int" where
  "identity_parts x i =
     (caip2_parsed (ii_caip2 i), canonicalRefOf x (canonicalRef_parsed (ii_canonicalRef i)),
      toLowerCase (nfc_string x (trim (is_legalName (ii_issuer i)))), toUpperCase (trim (is_jurisdiction (ii_issuer i))),
      ii_standard i, ii_instrumentVersion i)"

definition hash_collision :: "externals \<Rightarrow> bool" where
  "hash_collision x \<longleftrightarrow> (\<exists>u v. u \<noteq> v \<and> keccakAbi x u = keccakAbi x v)"

lemma hash_eq: "\<not> hash_collision x \<Longrightarrow> keccakAbi x u = keccakAbi x v \<longleftrightarrow> u = v"
  by (auto simp: hash_collision_def)

lemma identity_id:
  "instrumentIdentity x i = Some a \<Longrightarrow> id_instrumentId a =
     (case identity_parts x i of (c, r, n, j, s, v) \<Rightarrow>
        keccakAbi x [ABI_bytes32 (domainId x c), ABI_bytes32 r, ABI_bytes32 (keccakAbi x [ABI_string n, ABI_string j]),
          ABI_bytes32 (instrumentStandardId x s), ABI_uint v])"
  by (auto simp: instrumentIdentity_def identity_parts_def Let_def instrumentId_def issuerId_def split: if_splits)

section \<open>What the artifact guarantees\<close>

lemma parse_bindings_inv:
  assumes "parse_bindings raw = Some a"
  shows "bindings_refine a" "ba_bindings a = map binding_parsed (ba_bindings raw)"
    "ba_instruments a = map record_parsed (ba_instruments raw)"
  using assms by (auto simp: parse_bindings_def Let_def split: if_splits)

lemma update_chain_some:
  "k \<in> f ` set xs \<or> map_of m k \<noteq> None \<Longrightarrow> map_of (foldl (\<lambda>m i. AList.update (f i) (g i) m) m xs) k \<noteq> None"
  by (induction xs arbitrary: m) (auto simp: update_conv')

lemma update_chain_from:
  "map_of (foldl (\<lambda>m i. AList.update (f i) (g i) m) m xs) k = Some v
     \<Longrightarrow> map_of m k = Some v \<or> (\<exists>i\<in>set xs. f i = k \<and> g i = v)"
  by (induction xs arbitrary: m) (fastforce simp: update_conv' split: if_splits)+

lemma artifact_lookup:
  assumes "parse_bindings raw = Some a" "b \<in> set (ba_bindings a)"
  defines "bs \<equiv> instrument_bindings (map instrument_record (ba_instruments a)) (ba_bindings a)"
  shows "\<exists>i. instrument bs (ib_instrumentId b) = Some i \<and> ir_instrumentId i = ib_instrumentId b"
    "toLowerCase (ib_legacyAssetId b) = ib_legacyAssetId b"
proof -
  have known: "ib_instrumentId b \<in> rr_instrumentId ` set (ba_instruments a)"
    using parse_bindings_inv(1) [OF assms(1)] assms(2) by (auto simp: bindings_refine_def list_all_iff)
  have low: "toLowerCase (ib_instrumentId b) = ib_instrumentId b" and leg: "toLowerCase (ib_legacyAssetId b) = ib_legacyAssetId b"
    using assms(2) parse_bindings_inv(2) [OF assms(1)] by (auto simp: binding_parsed_def)
  have lowr: "toLowerCase (rr_instrumentId r) = rr_instrumentId r" if "r \<in> set (ba_instruments a)" for r
    using that parse_bindings_inv(3) [OF assms(1)] by (auto simp: record_parsed_def)
  have "instrument bs (ib_instrumentId b) \<noteq> None"
    using known low lowr
    unfolding instrument_def bs_def instrument_bindings_def InstrumentBindings.simps
    by (intro update_chain_some) (force simp: image_iff instrument_record_def)
  moreover have "ir_instrumentId i = ib_instrumentId b" if "instrument bs (ib_instrumentId b) = Some i" for i
    using that low lowr
    by (auto simp: instrument_def bs_def instrument_bindings_def instrument_record_def dest!: update_chain_from)
  ultimately show "\<exists>i. instrument bs (ib_instrumentId b) = Some i \<and> ir_instrumentId i = ib_instrumentId b" by auto
  show "toLowerCase (ib_legacyAssetId b) = ib_legacyAssetId b" by (rule leg)
qed

lemma resolveInstrument_none:
  "resolveInstrument bindings asset at = None \<longleftrightarrow> (\<forall>b\<in>set bindings. toLowerCase (ib_legacyAssetId b) \<noteq> toLowerCase asset)"
proof -
  have "binding_chain bindings (toLowerCase asset) = []
      \<longleftrightarrow> filter (\<lambda>b. toLowerCase (ib_legacyAssetId b) = toLowerCase asset) bindings = []"
    by (metis binding_chain_def set_sort set_empty)
  then show ?thesis by (simp add: resolveInstrument_def Let_def filter_empty_conv)
qed

lemma resolveInstrument_active:
  assumes "resolveInstrument bindings asset at = Some r"
  shows "ri_active r \<in> set bindings" "toLowerCase (ib_legacyAssetId (ri_active r)) = toLowerCase asset"
    "ri_instrumentId r = ib_instrumentId (ri_active r)"
proof -
  let ?c = "binding_chain bindings (toLowerCase asset)"
  have ne: "?c \<noteq> []" and id: "ri_instrumentId r = ib_instrumentId (ri_active r)"
    using assms by (auto simp: resolveInstrument_def Let_def split: if_splits)
  have "ri_active r \<in> set ?c"
  proof (cases "at")
    case None
    then show ?thesis using assms ne by (auto simp: resolveInstrument_def Let_def)
  next
    case (Some t)
    let ?e = "filter (\<lambda>b. ib_boundAt b \<le> t) ?c"
    have "ri_active r = (if ?e \<noteq> [] then last ?e else hd ?c)"
      using assms ne Some by (auto simp: resolveInstrument_def Let_def)
    moreover have "?e \<noteq> [] \<Longrightarrow> last ?e \<in> set ?c" by (meson filter_is_subset last_in_set subsetD)
    ultimately show ?thesis using ne by auto
  qed
  then have "ri_active r \<in> set bindings \<and> toLowerCase (ib_legacyAssetId (ri_active r)) = toLowerCase asset"
    by (auto simp: binding_chain_def)
  with id show "ri_active r \<in> set bindings" "toLowerCase (ib_legacyAssetId (ri_active r)) = toLowerCase asset"
    "ri_instrumentId r = ib_instrumentId (ri_active r)" by simp_all
qed

section \<open>Properties\<close>

text \<open>
  C28: An instrument is identified by its domain, reference, issuer, standard and version and by nothing
  else. Two accepted inputs with the same parts, whatever their label, underlying or accounting mode
  and however chain, issuer or reference are capitalised and spaced, have the same identifier; and two
  with the same identifier have the same parts, unless the hash collides.
\<close>

theorem instrument_identified_by_parts:
  assumes "instrumentIdentity x i = Some a" "instrumentIdentity x j = Some b"
  shows "(identity_parts x i = identity_parts x j \<longrightarrow> id_instrumentId a = id_instrumentId b)
    \<and> (id_instrumentId a = id_instrumentId b \<longrightarrow> identity_parts x i = identity_parts x j \<or> hash_collision x)"
proof -
  have "identity_parts x i = identity_parts x j" if "id_instrumentId a = id_instrumentId b" "\<not> hash_collision x"
    using that(1) identity_id [OF assms(1)] identity_id [OF assms(2)]
    by (auto simp: hash_eq [OF that(2)] domainId_def instrumentStandardId_def split: prod.splits)
  then show ?thesis using identity_id [OF assms(1)] identity_id [OF assms(2)] by auto
qed

text \<open>
  C38: A binding that passed the artifact's schema always resolves. The indexer resolves an asset id, in
  any letter case and at any time, exactly when the artifact binds it, to a binding of that asset and
  to the instrument record that binding names: the lookup the code calls impossible to miss is never
  missed.
\<close>

theorem bound_assets_resolve:
  assumes "fromArtifact raw = Some bs"
  shows "(resolve_asset bs asset at \<noteq> None \<longleftrightarrow>
        (\<exists>b\<in>set (ba_bindings raw). toLowerCase (ib_legacyAssetId b) = toLowerCase asset))
    \<and> (\<forall>r. resolve_asset bs asset at = Some r \<longrightarrow>
        ra_binding r \<in> binding_parsed ` set (ba_bindings raw)
      \<and> ib_legacyAssetId (ra_binding r) = toLowerCase asset
      \<and> ra_instrumentId r = ib_instrumentId (ra_binding r)
      \<and> ir_instrumentId (ra_instrument r) = ra_instrumentId r)"
proof -
  obtain a where a: "parse_bindings raw = Some a"
    and bs: "bs = instrument_bindings (map instrument_record (ba_instruments a)) (ba_bindings a)"
    using assms by (auto simp: fromArtifact_def)
  have bb: "bs_bindings bs = ba_bindings a" by (simp add: bs instrument_bindings_def)
  have conv: "(\<exists>b\<in>set (ba_bindings raw). toLowerCase (ib_legacyAssetId b) = toLowerCase asset)
      \<longleftrightarrow> (\<exists>b\<in>set (ba_bindings a). toLowerCase (ib_legacyAssetId b) = toLowerCase asset)"
    by (simp add: parse_bindings_inv(2) [OF a] binding_parsed_def)
  show ?thesis
  proof (cases "resolveInstrument (ba_bindings a) asset at")
    case None
    then have "resolve_asset bs asset at = None" by (simp add: resolve_asset_def bb)
    then show ?thesis using None conv by (simp add: resolveInstrument_none)
  next
    case (Some r)
    note act = resolveInstrument_active [OF Some]
    obtain i where i: "instrument bs (ri_instrumentId r) = Some i" "ir_instrumentId i = ri_instrumentId r"
      using artifact_lookup(1) [OF a act(1)] act(3) bs by auto
    then have "resolve_asset bs asset at = Some \<lparr>ra_legacyAssetId = ri_legacyAssetId r, ra_instrumentId = ri_instrumentId r,
        ra_binding = ri_active r, ra_chain = ri_chain r, ra_instrument = i, ra_caip2 = ir_caip2 i\<rparr>"
      by (simp add: resolve_asset_def bb Some)
    moreover have "\<exists>b\<in>set (ba_bindings raw). toLowerCase (ib_legacyAssetId b) = toLowerCase asset"
      using conv act(1,2) by blast
    moreover have "ri_active r \<in> binding_parsed ` set (ba_bindings raw)"
      using act(1) by (simp add: parse_bindings_inv(2) [OF a])
    ultimately show ?thesis using act(2,3) artifact_lookup(2) [OF a act(1)] i(2) by simp
  qed
qed

section \<open>A worked example\<close>

definition hx :: "char \<Rightarrow> string" where "hx c = ''0x'' @ replicate 64 c"

lemma hx_simps [simp]:
  "hex32Schema (hx c) \<longleftrightarrow> hex_char c" "toLowerCase (hx c) = hx (lower_char c)" "hx c = hx d \<longleftrightarrow> c = d"
  by (simp_all add: hx_def hex32Schema_def hex_of_length_def list_all_iff toLowerCase_def lower_char_def)

lemma ZERO32_hx: "ZERO32 = hx (CHR ''0'')"
  by (simp add: ZERO32_def hx_def)

definition one_fund :: InstrumentInput where
  "one_fund = \<lparr>ii_caip2 = ''eip155:1'', ii_label = ''Main'', ii_canonicalRef = Native_id ''F'',
     ii_issuer = \<lparr>is_legalName = ''Fund'', is_jurisdiction = ''US''\<rparr>, ii_standard = ''ERC20'', ii_instrumentVersion = 1,
     ii_underlying = \<lparr>ur_assetClass = ''FUND'', ur_isin = [], ur_figi = [], ur_ticker = ''F'', ur_name = ''Fund''\<rparr>,
     ii_accountingMode = ''FIXED_UNIT''\<rparr>"

definition same_fund :: InstrumentInput where
  "same_fund = one_fund\<lparr>ii_caip2 := '' EIP155:1'', ii_label := ''Other'',
     ii_issuer := \<lparr>is_legalName = ''FUND '', is_jurisdiction = '' us''\<rparr>,
     ii_underlying := \<lparr>ur_assetClass = ''FUND'', ur_isin = ''US1'', ur_figi = [], ur_ticker = [], ur_name = []\<rparr>\<rparr>"

lemma funds_ok: "instrumentIdentitySchema one_fund" "instrumentIdentitySchema same_fund"
  by code_simp+

theorem instrument_identified_by_parts_witness:
  "\<exists>a b. instrumentIdentity plain_externals one_fund = Some a \<and> instrumentIdentity plain_externals same_fund = Some b
     \<and> id_instrumentId a = id_instrumentId b"
proof -
  obtain a b where ab: "instrumentIdentity plain_externals one_fund = Some a" "instrumentIdentity plain_externals same_fund = Some b"
    using funds_ok by (simp add: instrumentIdentity_def Let_def)
  have norm: "caip2_parsed '' EIP155:1'' = caip2_parsed ''eip155:1''" "toLowerCase (trim ''FUND '') = toLowerCase (trim ''Fund'')"
    "toUpperCase (trim '' us'') = toUpperCase (trim ''US'')" by code_simp+
  have "nfc_string plain_externals = id" by (simp add: plain_externals_def)
  then have "identity_parts plain_externals one_fund = identity_parts plain_externals same_fund"
    by (simp add: identity_parts_def one_fund_def same_fund_def norm)
  with instrument_identified_by_parts [OF ab] ab show ?thesis by blast
qed

definition bound_fund :: InstrumentBinding where
  "bound_fund = \<lparr>ib_bindingId = hx (CHR ''1''), ib_legacyAssetId = hx (CHR ''A''),
     ib_legacyAssetIdKind = ''DERIVED'', ib_instrumentId = hx (CHR ''2''), ib_boundAt = 10,
     ib_boundAtBlock = 1, ib_boundBy = ''ops'', ib_boundAtDomain = ''eip155:1'', ib_deploymentDigest = ''d'',
     ib_supersedes = ZERO32, ib_note = ''n''\<rparr>"

definition fund_record :: InstrumentIdentityRecord where
  "fund_record = \<lparr>rr_instrumentId = hx (CHR ''2''), rr_domainId = ZERO32, rr_caip2 = ''eip155:1'',
     rr_canonicalRef = ZERO32, rr_canonicalRefKind = ''evm'', rr_token = None, rr_nativeId = None, rr_issuerId = ZERO32,
     rr_issuerLegalName = ''Fund'', rr_issuerJurisdiction = ''US'', rr_instrumentStandard = ''ERC20'',
     rr_instrumentStandardId = ZERO32, rr_instrumentVersion = 1, rr_underlyingReferenceId = ZERO32,
     rr_underlying = \<lparr>ur_assetClass = ''FUND'', ur_isin = [], ur_figi = [], ur_ticker = [], ur_name = ''fund''\<rparr>,
     rr_accountingMode = ''FIXED_UNIT''\<rparr>"

definition fund_artifact :: "InstrumentBinding list \<Rightarrow> InstrumentBindingsArtifact" where
  "fund_artifact bs = \<lparr>ba_provenance = \<lparr>ap_generatedAt = ''t'', ap_generatedBy = ''s'', ap_gitCommit = ''c'',
       ap_inputDigest = ''i'', ap_schema = 1\<rparr>, ba_instruments = [fund_record], ba_bindings = bs\<rparr>"

lemma caip2_ok: "caip2Schema ''eip155:1''" by code_simp

lemma hex_chars: "hex_char (CHR ''0'')" "hex_char (CHR ''1'')" "hex_char (CHR ''2'')" "hex_char (CHR ''3'')"
  "hex_char (CHR ''4'')" "hex_char (CHR ''5'')" "hex_char (CHR ''A'')" by code_simp+

lemma lower_chars: "lower_char (CHR ''0'') = CHR ''0''" "lower_char (CHR ''1'') = CHR ''1''"
  "lower_char (CHR ''2'') = CHR ''2''" "lower_char (CHR ''3'') = CHR ''3''" "lower_char (CHR ''4'') = CHR ''4''"
  "lower_char (CHR ''5'') = CHR ''5''" "lower_char (CHR ''A'') = CHR ''a''" "lower_char (CHR ''a'') = CHR ''a''" by code_simp+

lemmas artifact_defs = parse_bindings_def fund_artifact_def artifactProvenanceSchema_def fund_record_def
  instrumentIdentityRecordSchema_def instrumentBindingSchema_def record_parsed_def binding_parsed_def bindings_refine_def
  by_legacy_def chain_ok_def caip2_ok hex_chars lower_chars ZERO32_hx LEGACY_ASSET_ID_KINDS_def INSTRUMENT_STANDARDS_def
  ASSET_CLASSES_def INSTRUMENT_ACCOUNTING_MODES_def bound_fund_def opt_ok_def Let_def

lemma fund_artifact_ok: "parse_bindings (fund_artifact [bound_fund]) \<noteq> None"
  by (simp add: artifact_defs)

theorem bound_assets_resolve_witness:
  "\<exists>bs. fromArtifact (fund_artifact [bound_fund]) = Some bs
     \<and> resolve_asset bs (hx (CHR ''a'')) None \<noteq> None"
proof -
  obtain bs where bs: "fromArtifact (fund_artifact [bound_fund]) = Some bs"
    using fund_artifact_ok by (auto simp: fromArtifact_def)
  have "toLowerCase (ib_legacyAssetId bound_fund) = toLowerCase (hx (CHR ''a''))" by (simp add: bound_fund_def lower_chars)
  then show ?thesis
    using bound_assets_resolve [OF bs, of "hx (CHR ''a'')" None] bs by (simp add: fund_artifact_def)
qed

text \<open>
  Resolution goes by time and ignores \<open>supersedes\<close>: a binding that another accepted binding supersedes
  is still the active one when it was bound later. Nor need the chain hang together: bindings that
  supersede each other in a circle beside the root are accepted.
\<close>

definition superseding :: InstrumentBinding where
  "superseding = bound_fund\<lparr>ib_bindingId := hx (CHR ''3''), ib_boundAt := 5,
     ib_supersedes := hx (CHR ''1'')\<rparr>"

definition circular :: "InstrumentBinding list" where
  "circular = [bound_fund,
     superseding\<lparr>ib_bindingId := hx (CHR ''4''), ib_supersedes := hx (CHR ''5'')\<rparr>,
     superseding\<lparr>ib_bindingId := hx (CHR ''5''), ib_supersedes := hx (CHR ''4'')\<rparr>]"

lemma superseded_binding_active:
  "parse_bindings (fund_artifact [bound_fund, superseding]) \<noteq> None"
  "map_option (ib_bindingId \<circ> ri_active)
     (resolveInstrument [bound_fund, superseding] (ib_legacyAssetId bound_fund) None) = Some (ib_bindingId bound_fund)"
  "ib_supersedes superseding = ib_bindingId bound_fund"
  by (simp_all add: artifact_defs superseding_def resolveInstrument_def binding_chain_def)

lemma circular_chain_accepted: "parse_bindings (fund_artifact circular) \<noteq> None"
  by (simp add: artifact_defs circular_def superseding_def)

section \<open>Facilities\<close>

definition FACILITY_TYPES :: "string list" where
  "FACILITY_TYPES = [''REVOLVING_CREDIT'', ''TERM_SECURED_CREDIT'', ''REPO'', ''SECURITIES_LENDING'', ''COLLATERAL_ONLY'']"

datatype FacilityStatus = F_DRAFT | F_PENDING_ACTIVATION | F_ACTIVE | F_SUSPENDED | F_SETTLING | F_SETTLED | F_MIGRATED

definition ACTIVATED_STATUSES :: "FacilityStatus list" where
  "ACTIVATED_STATUSES = [F_ACTIVE, F_SUSPENDED, F_SETTLING, F_SETTLED, F_MIGRATED]"

datatype ControllerRef = Evm_controller string | Native_controller string

fun controllerRefSchema :: "ControllerRef \<Rightarrow> bool" where
  "controllerRefSchema (Evm_controller a) \<longleftrightarrow> addressSchema a"
| "controllerRefSchema (Native_controller n) \<longleftrightarrow> n \<noteq> []"

fun controllerRefOf :: "externals \<Rightarrow> ControllerRef \<Rightarrow> string" where
  "controllerRefOf x (Evm_controller a) = evmCanonicalRef (toLowerCase a)"
| "controllerRefOf x (Native_controller n) = nativeCanonicalRef x n"

record FacilityInput =
  fi_facilityType :: string
  fi_homeDomainCaip2 :: string
  fi_controller :: ControllerRef
  fi_discriminator :: string
  fi_settlementAssetId :: string
  fi_status :: FacilityStatus
  fi_implementation :: "string list"
  fi_migratedTo :: "string option"
  fi_note :: string

record CapitalFacilityDescriptor =
  cf_facilityType :: string
  cf_homeDomainCaip2 :: string
  cf_discriminator :: string
  cf_settlementAssetId :: string
  cf_status :: FacilityStatus
  cf_migratedTo :: "string option"
  cf_controllerRef :: string
  cf_homeDomainId :: string
  cf_facilityId :: string

definition capitalFacilityDescriptor :: "externals \<Rightarrow> FacilityInput \<Rightarrow> CapitalFacilityDescriptor option" where
  "capitalFacilityDescriptor x d =
     (if fi_facilityType d \<in> set FACILITY_TYPES \<and> caip2Schema (fi_homeDomainCaip2 d) \<and> controllerRefSchema (fi_controller d)
         \<and> hex32Schema (fi_discriminator d) \<and> hex32Schema (fi_settlementAssetId d)
         \<and> list_all (\<lambda>c. c \<noteq> []) (fi_implementation d) \<and> opt_ok hex32Schema (fi_migratedTo d)
         \<and> \<not> (fi_status d = F_MIGRATED \<and> fi_migratedTo d = None)
         \<and> \<not> (fi_status d \<noteq> F_MIGRATED \<and> fi_migratedTo d \<noteq> None)
      then let home = caip2_parsed (fi_homeDomainCaip2 d); controller = controllerRefOf x (fi_controller d);
               homeDomain = domainId x home; discriminator = toLowerCase (fi_discriminator d)
           in Some \<lparr>cf_facilityType = fi_facilityType d, cf_homeDomainCaip2 = home, cf_discriminator = discriminator,
                cf_settlementAssetId = toLowerCase (fi_settlementAssetId d), cf_status = fi_status d,
                cf_migratedTo = map_option toLowerCase (fi_migratedTo d), cf_controllerRef = controller,
                cf_homeDomainId = homeDomain,
                cf_facilityId = facilityId x (fi_facilityType d) homeDomain controller discriminator\<rparr>
      else None)"

datatype TransitionReason =
    TypeFrozen | HomeDomainFrozen | ControllerFrozen | FacilityIdFrozen | SettledTerminal | MigratedTerminal

record FacilityTransitionResult =
  ft_ok :: bool
  ft_reasons :: "TransitionReason list"

definition assertValidFacilityTransition ::
  "CapitalFacilityDescriptor \<Rightarrow> CapitalFacilityDescriptor \<Rightarrow> FacilityTransitionResult" where
  "assertValidFacilityTransition prev next =
     (let reasons =
        (if cf_status prev \<in> set ACTIVATED_STATUSES then
           (if cf_facilityType next \<noteq> cf_facilityType prev then [TypeFrozen] else [])
         @ (if cf_homeDomainCaip2 next \<noteq> cf_homeDomainCaip2 prev then [HomeDomainFrozen] else [])
         @ (if cf_controllerRef next \<noteq> cf_controllerRef prev then [ControllerFrozen] else [])
         @ (if cf_facilityId next \<noteq> cf_facilityId prev then [FacilityIdFrozen] else [])
         @ (if cf_status prev = F_SETTLED \<and> cf_status next \<noteq> F_SETTLED then [SettledTerminal] else [])
         @ (if cf_status prev = F_MIGRATED \<and> cf_status next \<noteq> F_MIGRATED then [MigratedTerminal] else [])
         else [])
      in \<lparr>ft_ok = (reasons = []), ft_reasons = reasons\<rparr>)"

section \<open>Admission profiles\<close>

datatype AdmissionProfile = LEGACY_V1 | MULTI_DOMAIN_V2

record PassportIdentitySection =
  px_instrumentId :: string
  px_domainId :: string
  px_issuerId :: string
  px_underlyingReferenceId :: string
  px_instrumentStandard :: string
  px_instrumentVersion :: int
  px_accountingMode :: string

definition passportIdentitySectionSchema :: "PassportIdentitySection \<Rightarrow> bool" where
  "passportIdentitySectionSchema s \<longleftrightarrow>
     hex32Schema (px_instrumentId s) \<and> hex32Schema (px_domainId s) \<and> hex32Schema (px_issuerId s)
   \<and> hex32Schema (px_underlyingReferenceId s) \<and> px_instrumentStandard s \<in> set INSTRUMENT_STANDARDS
   \<and> 1 \<le> px_instrumentVersion s \<and> px_instrumentVersion s \<le> 0xffffffff
   \<and> px_accountingMode s \<in> set INSTRUMENT_ACCOUNTING_MODES"

datatype CompletenessReason =
    SectionMissing | InstrumentDiffers | DomainDiffers | IssuerDiffers | StandardDiffers | VersionDiffers | ModeDiffers

record IdentityCompletenessResult =
  ic_ok :: bool
  ic_profile :: AdmissionProfile
  ic_reasons :: "CompletenessReason list"

definition assertInstrumentIdentityComplete ::
  "PassportIdentitySection option \<Rightarrow> InstrumentIdentity \<Rightarrow> AdmissionProfile \<Rightarrow> IdentityCompletenessResult" where
  "assertInstrumentIdentityComplete identity inst profile =
     (if profile = LEGACY_V1 then \<lparr>ic_ok = True, ic_profile = profile, ic_reasons = []\<rparr>
      else case identity of
          None \<Rightarrow> \<lparr>ic_ok = False, ic_profile = profile, ic_reasons = [SectionMissing]\<rparr>
        | Some s \<Rightarrow>
            let reasons =
                (if toLowerCase (px_instrumentId s) \<noteq> toLowerCase (id_instrumentId inst) then [InstrumentDiffers] else [])
              @ (if toLowerCase (px_domainId s) \<noteq> toLowerCase (id_domainId inst) then [DomainDiffers] else [])
              @ (if toLowerCase (px_issuerId s) \<noteq> toLowerCase (id_issuerId inst) then [IssuerDiffers] else [])
              @ (if px_instrumentStandard s \<noteq> ii_standard (id_input inst) then [StandardDiffers] else [])
              @ (if px_instrumentVersion s \<noteq> ii_instrumentVersion (id_input inst) then [VersionDiffers] else [])
              @ (if px_accountingMode s \<noteq> ii_accountingMode (id_input inst) then [ModeDiffers] else [])
            in \<lparr>ic_ok = (reasons = []), ic_profile = profile, ic_reasons = reasons\<rparr>)"

section \<open>The descriptors artifact\<close>

record DomainRecord =
  dr_domainId :: string
  dr_caip2 :: string
  dr_label :: string
  dr_environment :: string
  dr_finalityKind :: string
  dr_safeDepthBlocks :: int
  dr_nativeSymbol :: string
  dr_nativeDecimals :: int
  dr_explorerUrl :: string
  dr_status :: string

definition domain_fields_ok :: "DomainRecord \<Rightarrow> bool" where
  "domain_fields_ok d \<longleftrightarrow> caip2Schema (dr_caip2 d) \<and> dr_label d \<noteq> []
   \<and> dr_environment d \<in> set [''PRODUCTION'', ''TESTNET'', ''LOCAL'']
   \<and> dr_finalityKind d \<in> set [''l2-sequencer'', ''pos'', ''hashgraph'', ''other''] \<and> 0 \<le> dr_safeDepthBlocks d
   \<and> dr_nativeSymbol d \<noteq> [] \<and> 0 \<le> dr_nativeDecimals d \<and> dr_nativeDecimals d \<le> 36 \<and> dr_explorerUrl d \<noteq> []
   \<and> dr_status d \<in> set [''ACTIVE'', ''PAUSED'', ''RETIRED'']"

text \<open>An authored domain has no identifier; parsing derives it.\<close>

definition domainDescriptor :: "externals \<Rightarrow> DomainRecord \<Rightarrow> DomainRecord option" where
  "domainDescriptor x d =
     (if domain_fields_ok d
      then let caip2 = caip2_parsed (dr_caip2 d) in Some (d\<lparr>dr_caip2 := caip2, dr_domainId := domainId x caip2\<rparr>)
      else None)"

definition domainRecordSchema :: "DomainRecord \<Rightarrow> bool" where
  "domainRecordSchema d \<longleftrightarrow> hex32Schema (dr_domainId d) \<and> domain_fields_ok d"

definition domain_parsed :: "DomainRecord \<Rightarrow> DomainRecord" where
  "domain_parsed d = d\<lparr>dr_domainId := toLowerCase (dr_domainId d), dr_caip2 := caip2_parsed (dr_caip2 d)\<rparr>"

record FacilityRecord =
  fq_facilityId :: string
  fq_facilityType :: string
  fq_homeDomainCaip2 :: string
  fq_homeDomainId :: string
  fq_controllerRef :: string
  fq_controllerAddress :: "string option"
  fq_controllerNativeId :: "string option"
  fq_discriminator :: string
  fq_settlementAssetId :: string
  fq_status :: string
  fq_migratedTo :: "string option"

definition FACILITY_STATUSES :: "string list" where
  "FACILITY_STATUSES = [''DRAFT'', ''PENDING_ACTIVATION'', ''ACTIVE'', ''SUSPENDED'', ''SETTLING'', ''SETTLED'', ''MIGRATED'']"

definition facilityRecordSchema :: "FacilityRecord \<Rightarrow> bool" where
  "facilityRecordSchema f \<longleftrightarrow>
     hex32Schema (fq_facilityId f) \<and> fq_facilityType f \<in> set FACILITY_TYPES \<and> caip2Schema (fq_homeDomainCaip2 f)
   \<and> hex32Schema (fq_homeDomainId f) \<and> hex32Schema (fq_controllerRef f) \<and> opt_ok addressSchema (fq_controllerAddress f)
   \<and> hex32Schema (fq_discriminator f) \<and> hex32Schema (fq_settlementAssetId f) \<and> fq_status f \<in> set FACILITY_STATUSES
   \<and> opt_ok hex32Schema (fq_migratedTo f)"

definition facility_parsed :: "FacilityRecord \<Rightarrow> FacilityRecord" where
  "facility_parsed f = f\<lparr>fq_facilityId := toLowerCase (fq_facilityId f),
     fq_homeDomainCaip2 := caip2_parsed (fq_homeDomainCaip2 f), fq_homeDomainId := toLowerCase (fq_homeDomainId f),
     fq_controllerRef := toLowerCase (fq_controllerRef f),
     fq_controllerAddress := map_option toLowerCase (fq_controllerAddress f),
     fq_discriminator := toLowerCase (fq_discriminator f), fq_settlementAssetId := toLowerCase (fq_settlementAssetId f),
     fq_migratedTo := map_option toLowerCase (fq_migratedTo f)\<rparr>"

record FacilityDescriptorsArtifact =
  fa_provenance :: ArtifactProvenance
  fa_domains :: "DomainRecord list"
  fa_facilities :: "FacilityRecord list"

definition parse_facilities :: "FacilityDescriptorsArtifact \<Rightarrow> FacilityDescriptorsArtifact option" where
  "parse_facilities a =
     (if artifactProvenanceSchema (fa_provenance a) \<and> list_all domainRecordSchema (fa_domains a) \<and> fa_domains a \<noteq> []
         \<and> list_all facilityRecordSchema (fa_facilities a) \<and> fa_facilities a \<noteq> []
      then let ds = map domain_parsed (fa_domains a); fs = map facility_parsed (fa_facilities a)
           in if list_all (\<lambda>f. toLowerCase (fq_homeDomainId f) \<in> set (map (toLowerCase \<circ> dr_domainId) ds)) fs
                 \<and> distinct (map (toLowerCase \<circ> fq_facilityId) fs)
              then Some (a\<lparr>fa_domains := ds, fa_facilities := fs\<rparr>) else None
      else None)"

definition facilities_fromArtifact :: "FacilityDescriptorsArtifact \<Rightarrow> FacilityDescriptors option" where
  "facilities_fromArtifact raw = map_option (\<lambda>a. facility_descriptors
     (map (\<lambda>d. \<lparr>fd_caip2 = dr_caip2 d, fd_label = dr_label d, fd_environment = dr_environment d,
        fd_safeDepthBlocks = dr_safeDepthBlocks d, fd_status = dr_status d\<rparr>) (fa_domains a))
     (map (\<lambda>f. \<lparr>fr_facilityId = fq_facilityId f, fr_facilityType = fq_facilityType f,
        fr_homeDomainCaip2 = fq_homeDomainCaip2 f, fr_controllerAddress = fq_controllerAddress f,
        fr_controllerNativeId = fq_controllerNativeId f, fr_settlementAssetId = fq_settlementAssetId f,
        fr_status = fq_status f, fr_discriminator = fq_discriminator f\<rparr>) (fa_facilities a)))
     (parse_facilities raw)"

section \<open>What transitions keep\<close>

definition moves :: "CapitalFacilityDescriptor \<Rightarrow> CapitalFacilityDescriptor \<Rightarrow> bool" where
  "moves prev next \<longleftrightarrow> ft_ok (assertValidFacilityTransition prev next)"

definition live :: "CapitalFacilityDescriptor \<Rightarrow> bool" where
  "live d \<longleftrightarrow> cf_status d \<in> set ACTIVATED_STATUSES"

definition same_identity :: "CapitalFacilityDescriptor \<Rightarrow> CapitalFacilityDescriptor \<Rightarrow> bool" where
  "same_identity d e \<longleftrightarrow> cf_facilityType d = cf_facilityType e \<and> cf_homeDomainCaip2 d = cf_homeDomainCaip2 e
     \<and> cf_controllerRef d = cf_controllerRef e \<and> cf_facilityId d = cf_facilityId e"

definition closed :: "CapitalFacilityDescriptor \<Rightarrow> bool" where
  "closed d \<longleftrightarrow> cf_status d = F_SETTLED \<or> cf_status d = F_MIGRATED"

lemma moves_frozen: "moves d e \<Longrightarrow> live d \<Longrightarrow> same_identity d e \<and> (closed d \<longrightarrow> cf_status e = cf_status d)"
  by (auto simp: moves_def assertValidFacilityTransition_def Let_def live_def same_identity_def closed_def split: if_splits)

lemma closed_live: "closed d \<Longrightarrow> live d"
  by (auto simp: closed_def live_def ACTIVATED_STATUSES_def)

text \<open>
  A live facility keeps its identity. Along any series of accepted transitions, as long as the
  facility stays at or past activation its type, home domain, controller and identifier never change;
  and once it is settled or migrated, no accepted series ever changes them or its status again.
\<close>

theorem live_facility_frozen:
  assumes "successively moves (d # ds)" "closed d \<or> list_all live (d # ds)"
  shows "list_all (same_identity d) ds \<and> (closed d \<longrightarrow> list_all (\<lambda>e. cf_status e = cf_status d) ds)"
  using assms
proof (induction ds arbitrary: d)
  case (Cons e ds)
  have m: "moves d e" "successively moves (e # ds)" using Cons.prems(1) by auto
  have l: "live d" using Cons.prems(2) closed_live by auto
  note f = moves_frozen [OF m(1) l]
  have "closed d \<Longrightarrow> closed e" using f by (auto simp: closed_def)
  then have IH: "list_all (same_identity e) ds \<and> (closed e \<longrightarrow> list_all (\<lambda>g. cf_status g = cf_status e) ds)"
    using Cons.prems(2) by (intro Cons.IH m(2)) auto
  then show ?case
    using f \<open>closed d \<Longrightarrow> closed e\<close> by (auto simp: list_all_iff same_identity_def)
qed simp

definition some_facility :: "FacilityStatus \<Rightarrow> string \<Rightarrow> FacilityInput" where
  "some_facility s controller = \<lparr>fi_facilityType = ''REPO'', fi_homeDomainCaip2 = ''eip155:1'',
     fi_controller = Native_controller controller, fi_discriminator = ZERO32, fi_settlementAssetId = ZERO32, fi_status = s,
     fi_implementation = [], fi_migratedTo = None, fi_note = []\<rparr>"

text \<open>A hash under which the two controllers below differ.\<close>

fun short_hash :: "abi_value list \<Rightarrow> string" where
  "short_hash [_, ABI_string s] = s"
| "short_hash [_, _, _, ABI_bytes32 s, _] = s"
| "short_hash _ = []"

definition short_externals :: externals where
  "short_externals = plain_externals\<lparr>keccakAbi := short_hash\<rparr>"

lemmas facility_defs = capitalFacilityDescriptor_def some_facility_def FACILITY_TYPES_def caip2_ok ZERO32_hx hex_chars
  lower_chars opt_ok_def Let_def

definition some_descriptor :: "externals \<Rightarrow> FacilityStatus \<Rightarrow> string \<Rightarrow> CapitalFacilityDescriptor" where
  "some_descriptor x s c = \<lparr>cf_facilityType = ''REPO'', cf_homeDomainCaip2 = caip2_parsed ''eip155:1'',
     cf_discriminator = ZERO32, cf_settlementAssetId = ZERO32, cf_status = s, cf_migratedTo = None,
     cf_controllerRef = nativeCanonicalRef x c, cf_homeDomainId = domainId x (caip2_parsed ''eip155:1''),
     cf_facilityId = facilityId x ''REPO'' (domainId x (caip2_parsed ''eip155:1'')) (nativeCanonicalRef x c) ZERO32\<rparr>"

lemma some_facility_parsed:
  "s \<noteq> F_MIGRATED \<Longrightarrow> c \<noteq> [] \<Longrightarrow> capitalFacilityDescriptor x (some_facility s c) = Some (some_descriptor x s c)"
  by (simp add: facility_defs some_descriptor_def)

lemma some_moves:
  "moves (some_descriptor x F_ACTIVE c) (some_descriptor x s c)" "moves (some_descriptor x F_SETTLED c) (some_descriptor x F_SETTLED c)"
  "moves (some_descriptor x F_DRAFT c) (some_descriptor x s c')" "\<not> moves (some_descriptor x F_SETTLED c) (some_descriptor x F_ACTIVE c)"
  "live (some_descriptor x F_ACTIVE c)" "live (some_descriptor x F_SETTLED c)"
  by (simp_all add: some_descriptor_def moves_def live_def ACTIVATED_STATUSES_def assertValidFacilityTransition_def)

theorem live_facility_frozen_witness:
  "\<exists>a b. capitalFacilityDescriptor short_externals (some_facility F_ACTIVE ''one'') = Some a
     \<and> capitalFacilityDescriptor short_externals (some_facility F_SETTLED ''one'') = Some b
     \<and> moves a b \<and> moves b b \<and> same_identity a b \<and> \<not> moves b a"
proof -
  let ?a = "some_descriptor short_externals F_ACTIVE ''one''" and ?b = "some_descriptor short_externals F_SETTLED ''one''"
  have "successively moves (?a # [?b, ?b])" "closed ?a \<or> list_all live (?a # [?b, ?b])" by (simp_all add: some_moves)
  from live_facility_frozen [OF this] show ?thesis
    by (intro exI [of _ ?a] exI [of _ ?b]) (simp add: some_facility_parsed some_moves)
qed

text \<open>
  The guard looks at one step only: an active facility may be put back to draft, and a draft may become
  active with another controller, so two accepted steps give a live facility a new identity.
\<close>

lemma frozen_identity_thaws:
  defines "a \<equiv> some_descriptor short_externals F_ACTIVE ''one''"
    and "b \<equiv> some_descriptor short_externals F_DRAFT ''one''"
    and "c \<equiv> some_descriptor short_externals F_ACTIVE ''two''"
  shows "capitalFacilityDescriptor short_externals (some_facility F_ACTIVE ''one'') = Some a"
    and "capitalFacilityDescriptor short_externals (some_facility F_DRAFT ''one'') = Some b"
    and "capitalFacilityDescriptor short_externals (some_facility F_ACTIVE ''two'') = Some c"
    and "moves a b" "moves b c" "live a" "live c" "cf_facilityId a \<noteq> cf_facilityId c"
  by (simp_all add: assms some_facility_parsed some_moves)
    (simp add: some_descriptor_def nativeCanonicalRef_def facilityId_def short_externals_def)

section \<open>Facilities the indexer knows\<close>

lemma update_chain_keys:
  "distinct (map f xs) \<Longrightarrow> set (map fst m) \<inter> f ` set xs = {} \<Longrightarrow>
     length (foldl (\<lambda>m i. AList.update (f i) (g i) m) m xs) = length m + length xs"
proof (induction xs arbitrary: m)
  case (Cons a xs)
  have "AList.update (f a) (g a) m = m @ [(f a, g a)]" using Cons.prems by (induction m) auto
  then show ?case using Cons.IH [of "m @ [(f a, g a)]"] Cons.prems by auto
qed simp

text \<open>
  The indexer knows exactly the facilities of an accepted artifact, one row each: a facility is found,
  in any letter case, exactly when the artifact lists it, and no two rows of the artifact collapse.
\<close>

theorem listed_facilities_found:
  assumes "facilities_fromArtifact raw = Some ds"
  shows "(facility ds fid \<noteq> None \<longleftrightarrow> (\<exists>f\<in>set (fa_facilities raw). toLowerCase (fq_facilityId f) = toLowerCase fid))
    \<and> length (facilities ds) = length (fa_facilities raw)
    \<and> (\<forall>v. facility ds fid = Some v \<longrightarrow> fv_facilityId v = toLowerCase fid)"
proof -
  obtain a where a: "parse_facilities raw = Some a" "ds = the (facilities_fromArtifact raw)"
    using assms by (auto simp: facilities_fromArtifact_def)
  have fs: "fa_facilities a = map facility_parsed (fa_facilities raw)" "distinct (map (toLowerCase \<circ> fq_facilityId) (fa_facilities a))"
    using a(1) by (auto simp: parse_facilities_def Let_def split: if_splits)
  define key where "key = (\<lambda>f :: FacilityRecord. toLowerCase (fq_facilityId f))"
  define row where "row = (\<lambda>f :: FacilityRecord. facility_view \<lparr>fr_facilityId = fq_facilityId f, fr_facilityType = fq_facilityType f,
        fr_homeDomainCaip2 = fq_homeDomainCaip2 f, fr_controllerAddress = fq_controllerAddress f,
        fr_controllerNativeId = fq_controllerNativeId f, fr_settlementAssetId = fq_settlementAssetId f,
        fr_status = fq_status f, fr_discriminator = fq_discriminator f\<rparr>)"
  have m: "ds_byFacilityId ds = foldl (\<lambda>m f. AList.update (key f) (row f) m) [] (fa_facilities a)"
    using assms a(1) by (auto simp: facilities_fromArtifact_def facility_descriptors_def foldl_map key_def row_def)
  have keys: "key ` set (fa_facilities a) = (toLowerCase \<circ> fq_facilityId) ` set (fa_facilities raw)"
    by (simp add: fs key_def image_comp facility_parsed_def)
  have "length (facilities ds) = length (fa_facilities raw)"
    using update_chain_keys [of key "fa_facilities a" "[]" row] fs by (simp add: facilities_def map_values_def m key_def comp_def)
  moreover have "facility ds fid \<noteq> None" if "toLowerCase fid \<in> key ` set (fa_facilities a)"
    unfolding facility_def m using that by (intro update_chain_some) simp
  moreover have "toLowerCase fid \<in> key ` set (fa_facilities a)" if "facility ds fid = Some v" for v
    using update_chain_from [of key row "[]" "fa_facilities a" "toLowerCase fid" v] that unfolding facility_def m by (auto intro: rev_image_eqI)
  moreover have "fv_facilityId v = toLowerCase fid" if "facility ds fid = Some v" for v
    using update_chain_from [of key row "[]" "fa_facilities a" "toLowerCase fid" v] that fs(1)
    by (auto simp: facility_def m key_def row_def facility_view_def facility_parsed_def)
  moreover have "toLowerCase fid \<in> key ` set (fa_facilities a)
      \<longleftrightarrow> (\<exists>f\<in>set (fa_facilities raw). toLowerCase (fq_facilityId f) = toLowerCase fid)"
    unfolding keys by (simp add: image_iff eq_commute)
  ultimately show ?thesis by blast
qed

definition facility_artifact :: FacilityDescriptorsArtifact where
  "facility_artifact = \<lparr>fa_provenance = \<lparr>ap_generatedAt = ''t'', ap_generatedBy = ''s'', ap_gitCommit = ''c'',
       ap_inputDigest = ''i'', ap_schema = 1\<rparr>,
     fa_domains = [\<lparr>dr_domainId = hx (CHR ''1''), dr_caip2 = ''eip155:1'', dr_label = ''Main'', dr_environment = ''LOCAL'',
       dr_finalityKind = ''pos'', dr_safeDepthBlocks = 6, dr_nativeSymbol = ''E'', dr_nativeDecimals = 18,
       dr_explorerUrl = ''u'', dr_status = ''ACTIVE''\<rparr>],
     fa_facilities = [\<lparr>fq_facilityId = hx (CHR ''A''), fq_facilityType = ''REPO'', fq_homeDomainCaip2 = ''eip155:1'',
       fq_homeDomainId = hx (CHR ''1''), fq_controllerRef = ZERO32, fq_controllerAddress = None,
       fq_controllerNativeId = None, fq_discriminator = ZERO32, fq_settlementAssetId = ZERO32, fq_status = ''ACTIVE'',
       fq_migratedTo = None\<rparr>]\<rparr>"

theorem listed_facilities_found_witness:
  "\<exists>ds. facilities_fromArtifact facility_artifact = Some ds \<and> facility ds (hx (CHR ''a'')) \<noteq> None \<and> length (facilities ds) = 1"
proof -
  have "parse_facilities facility_artifact \<noteq> None"
    by (simp add: parse_facilities_def facility_artifact_def artifactProvenanceSchema_def domainRecordSchema_def
        domain_fields_ok_def facilityRecordSchema_def FACILITY_STATUSES_def FACILITY_TYPES_def caip2_ok ZERO32_hx
        hex_chars lower_chars opt_ok_def Let_def domain_parsed_def facility_parsed_def)
  then obtain ds where ds: "facilities_fromArtifact facility_artifact = Some ds"
    by (auto simp: facilities_fromArtifact_def)
  from listed_facilities_found [OF ds, of "hx (CHR ''a'')"] ds show ?thesis
    by (auto simp: facility_artifact_def lower_chars)
qed

end
