(* ===== verification/Evidence_Parser.thy ===== *)
theory Evidence_Parser
  imports Evidence_Pipeline "HOL-Library.Sublist"
begin

text \<open>
  The deterministic extraction path, \<open>packages/chaingpt/src/parser-extractor.ts\<close>, on texts in Latin-1: the
  decoder of the document's bytes is the argument \<open>decode\<close>. Its regular expressions are values of \<open>regex\<close>,
  matched by the backtracking search they denote.
\<close>

section \<open>Regular expressions\<close>

text \<open>
  A state of the search is what was captured, the character before the position and the text after it;
  a pattern yields the states it can end in, in the order a backtracking matcher tries them. Literals
  ignore case.
\<close>

datatype regex =
    Lit string
  | Many "char \<Rightarrow> bool"
  | Boundary
  | Then regex regex
  | Either regex regex
  | Maybe regex
  | Group regex

type_synonym match_state = "string list \<times> char option \<times> string"

definition word_char :: "char \<Rightarrow> bool" where
  "word_char c \<longleftrightarrow> lower_letter c \<or> upper_letter c \<or> is_digit c \<or> c = CHR ''_''"

definition ascii_lower :: "char \<Rightarrow> char" where
  "ascii_lower c = (if upper_letter c then char_of (of_char c + 32 :: nat) else c)"

definition at_boundary :: "char option \<Rightarrow> string \<Rightarrow> bool" where
  "at_boundary prev t \<longleftrightarrow>
     (case prev of None \<Rightarrow> False | Some p \<Rightarrow> word_char p) \<noteq> (case t of [] \<Rightarrow> False | c # _ \<Rightarrow> word_char c)"

definition skip :: "nat \<Rightarrow> match_state \<Rightarrow> match_state" where
  "skip n s = (case s of (caps, prev, t) \<Rightarrow> (caps, if n = 0 then prev else Some (t ! (n - 1)), drop n t))"

fun ends :: "regex \<Rightarrow> match_state \<Rightarrow> match_state list" where
  "ends (Lit w) s = (case s of (caps, prev, t) \<Rightarrow>
     if length w \<le> length t \<and> map ascii_lower (take (length w) t) = w then [skip (length w) s] else [])"
| "ends (Many P) s = (case s of (caps, prev, t) \<Rightarrow>
     map (\<lambda>n. skip n s) (rev [1 ..< Suc (length (takeWhile P t))]))"
| "ends Boundary s = (case s of (caps, prev, t) \<Rightarrow> if at_boundary prev t then [s] else [])"
| "ends (Then a b) s = concat (map (ends b) (ends a s))"
| "ends (Either a b) s = ends a s @ ends b s"
| "ends (Maybe a) s = ends a s @ [s]"
| "ends (Group a) s = (case s of (caps, prev, t) \<Rightarrow>
     map (\<lambda>(c, p, u). (c @ [take (length t - length u) t], p, u)) (ends a s))"

text \<open>\<open>text.match(p)\<close>: the first position where the pattern matches, and its groups.\<close>

fun match_from :: "regex \<Rightarrow> nat \<Rightarrow> char option \<Rightarrow> string \<Rightarrow> (nat \<times> string list) option" where
  "match_from p i prev t =
     (case ends p ([], prev, t) of
        (caps, _, _) # _ \<Rightarrow> Some (i, caps)
      | [] \<Rightarrow> (case t of [] \<Rightarrow> None | c # u \<Rightarrow> match_from p (Suc i) (Some c) u))"

definition text_match :: "regex \<Rightarrow> string \<Rightarrow> (nat \<times> string list) option" where
  "text_match p t = match_from p 0 None t"

definition ws :: regex where "ws = Many is_ws"

fun seq :: "regex list \<Rightarrow> regex" where
  "seq [p] = p"
| "seq (p # ps) = Then p (seq ps)"
| "seq [] = Lit []"

fun alt :: "string list \<Rightarrow> regex" where
  "alt [w] = Lit w"
| "alt (w # vs) = Either (Lit w) (alt vs)"
| "alt [] = Lit []"

section \<open>Sentences\<close>

definition slice :: "nat \<Rightarrow> nat \<Rightarrow> string \<Rightarrow> string" where
  "slice a b t = take (b - a) (drop a t)"

definition sentence_start :: "string \<Rightarrow> nat \<Rightarrow> nat" where
  "sentence_start t index =
     (let p = take (Suc index) t in length p - length (takeWhile (\<lambda>c. c \<noteq> CHR ''.'') (rev p)))"

definition sentence_end :: "string \<Rightarrow> nat \<Rightarrow> nat" where
  "sentence_end t index =
     (let q = drop index t
      in if CHR ''.'' \<in> set q then index + length (takeWhile (\<lambda>c. c \<noteq> CHR ''.'') q) + 1
         else min (length t) (index + 200))"

definition sentenceAround :: "string \<Rightarrow> nat \<Rightarrow> string" where
  "sentenceAround t index = trim (slice (sentence_start t index) (sentence_end t index) t)"

fun search :: "string \<Rightarrow> regex list \<Rightarrow> (string list \<times> string) option" where
  "search t [] = None"
| "search t (p # ps) =
     (case text_match p t of Some (i, caps) \<Rightarrow> Some (caps, sentenceAround t i) | None \<Rightarrow> search t ps)"

section \<open>The five readings\<close>

definition REDEMPTION_DENIED :: "regex list" where
  "REDEMPTION_DENIED =
     [seq [Boundary, alt [''not'', ''no'', ''cannot'', ''may not'', ''shall not''], ws, Maybe (Then (Lit ''be'') ws),
           Lit ''redeem'', Maybe (alt [''able'', ''ed'']), Boundary],
      seq [Boundary, Lit ''redemption'', ws, Maybe (Then (Lit ''is'') ws),
           Either (seq [Lit ''not'', ws, Lit ''available'']) (alt [''suspended'', ''prohibited'', ''unavailable'']), Boundary],
      seq [Boundary, Lit ''no'', ws, Lit ''redemption'', ws, Lit ''right'']]"

definition REDEMPTION_GRANTED :: "regex list" where
  "REDEMPTION_GRANTED =
     [seq [Boundary, Lit ''redemption'', ws, Maybe (Then (Lit ''is'') ws), alt [''supported'', ''available'', ''permitted''], Boundary],
      seq [Boundary, alt [''holders'', ''holder'', ''investors'', ''investor''], ws, Lit ''may'', ws, Lit ''redeem'', Boundary],
      seq [Boundary, Lit ''redeemable'', ws, alt [''at'', ''for'', ''into''], Boundary],
      seq [Boundary, Lit ''right'', ws, Lit ''to'', ws, Lit ''redeem'', Boundary]]"

definition day_unit :: regex where
  "day_unit = Group (Either (alt [''hour'', ''hours'', ''day'', ''days'']) (seq [Lit ''business'', ws, Lit ''days'']))"

definition WINDOW_PATTERNS :: "regex list" where
  "WINDOW_PATTERNS =
     [seq [Boundary, Lit ''within'', ws, Group (Many is_digit), ws, day_unit, Boundary],
      seq [Boundary, alt [''settlement'', ''redemption''], ws, alt [''period'', ''window''], ws, Lit ''of'', ws,
           Group (Many is_digit), ws, day_unit, Boundary],
      seq [Boundary, Lit ''t+'', Group (Many is_digit), Boundary]]"

definition TRANSFER_RESTRICTED :: "regex list" where
  "TRANSFER_RESTRICTED =
     [seq [Boundary, Lit ''whitelist'', Maybe (alt [''ed'', ''ing'']), Boundary],
      seq [Boundary, Lit ''transfer'', ws, Maybe (Then (Lit ''is'') ws), Lit ''restrict'', alt [''ed'', ''ions''], Boundary],
      seq [Boundary, Lit ''eligible'', ws, alt [''holders'', ''holder'', ''investors'', ''investor''], ws, Lit ''only'', Boundary],
      seq [Boundary, Lit ''permissioned'', ws, Lit ''transfer''],
      seq [Boundary, Lit ''transfer'', ws, Lit ''agent'', ws, Lit ''approval'', Boundary]]"

definition TRANSFER_OPEN :: "regex list" where
  "TRANSFER_OPEN =
     [seq [Boundary, Lit ''freely'', ws, Lit ''transferable'', Boundary],
      seq [Boundary, Lit ''no'', ws, Lit ''transfer'', ws, alt [''restrictions'', ''restriction''], Boundary]]"

definition FULLY_BACKED_PATTERNS :: "regex list" where
  "FULLY_BACKED_PATTERNS =
     [seq [Boundary, Lit ''1'', Maybe ws, alt ['':'', ''-''], Maybe ws, Lit ''1'', ws, Lit ''backed'', Boundary],
      seq [Boundary, Lit ''fully'', ws, alt [''backed'', ''collateralised'', ''collateralized''], Boundary],
      seq [Boundary, Lit ''backed'', ws, Maybe (Then (Lit ''1:1'') ws), Lit ''by'', ws, Maybe (Then (Lit ''the'') ws),
           Lit ''underlying'', Boundary]]"

definition SYNTHETIC_PATTERNS :: "regex list" where
  "SYNTHETIC_PATTERNS =
     [seq [Boundary, Lit ''synthetic'', ws, Lit ''exposure'', Boundary],
      seq [Boundary, Lit ''not'', ws, Lit ''backed'', ws, Lit ''by'', Boundary]]"

definition REBASE_PATTERNS :: "regex list" where
  "REBASE_PATTERNS =
     [seq [Boundary, Lit ''rebas'', alt [''e'', ''ing'', ''ed''], Boundary],
      seq [Boundary, Lit ''reflected'', ws, alt [''in'', ''by''], ws, Maybe (Then (Lit ''a'') ws),
           Maybe (Then (Lit ''token'') ws), alt [''balance'', ''supply''], ws, Lit ''adjust'']]"

definition DISTRIBUTION_PATTERNS :: "regex list" where
  "DISTRIBUTION_PATTERNS =
     [seq [Boundary, alt [''dividends'', ''dividend''], ws, Maybe (Then (Lit ''are'') ws), alt [''paid'', ''distributed''], Boundary]]"

record Found =
  fo_value :: "ClaimValue option"
  fo_quote :: "string option"

definition nothing_found :: Found where "nothing_found = \<lparr>fo_value = None, fo_quote = None\<rparr>"

definition found :: "ClaimValue \<Rightarrow> string \<Rightarrow> Found" where
  "found v q = \<lparr>fo_value = Some v, fo_quote = Some q\<rparr>"

definition findRedemption :: "string \<Rightarrow> Found" where
  "findRedemption t = (case search t REDEMPTION_DENIED of
       Some (_, q) \<Rightarrow> found (CV_bool False) q
     | None \<Rightarrow> (case search t REDEMPTION_GRANTED of
           Some (_, q) \<Rightarrow> found (CV_bool True) q
         | None \<Rightarrow> nothing_found))"

text \<open>\<open>Math.ceil(n * (7 / 5))\<close>; the product of doubles never exceeds the exact one.\<close>

definition window_seconds :: "nat \<Rightarrow> string \<Rightarrow> int" where
  "window_seconds n unit =
     (if take 4 unit = ''hour'' then int n * 3600
      else if has_word ''business'' unit then int ((7 * n + 4) div 5) * 86400
      else int n * 86400)"

definition findRedemptionWindow :: "string \<Rightarrow> Found" where
  "findRedemptionWindow t = (case search t WINDOW_PATTERNS of
       None \<Rightarrow> nothing_found
     | Some (caps, q) \<Rightarrow>
         let n = nat_of_digits (hd caps); unit = map ascii_lower (if length caps \<ge> 2 then caps ! 1 else ''days'')
         in if n > 3650 then nothing_found else found (CV_seconds (window_seconds n unit)) q)"

definition findTransferModel :: "string \<Rightarrow> Found" where
  "findTransferModel t = (case search t TRANSFER_RESTRICTED of
       Some (_, q) \<Rightarrow> found (CV_enum 1 ''PERMISSIONED'') q
     | None \<Rightarrow> (case search t TRANSFER_OPEN of
           Some (_, q) \<Rightarrow> found (CV_enum 0 ''OPEN'') q
         | None \<Rightarrow> nothing_found))"

definition findBackingModel :: "string \<Rightarrow> Found" where
  "findBackingModel t = (case search t FULLY_BACKED_PATTERNS of
       Some (_, q) \<Rightarrow> found (CV_enum 1 ''FULLY_BACKED'') q
     | None \<Rightarrow> (case search t SYNTHETIC_PATTERNS of
           Some (_, q) \<Rightarrow> found (CV_enum 2 ''SYNTHETIC'') q
         | None \<Rightarrow> nothing_found))"

definition findCorporateActions :: "string \<Rightarrow> Found" where
  "findCorporateActions t = (case search t REBASE_PATTERNS of
       Some (_, q) \<Rightarrow> found (CV_enum 1 ''REBASE'') q
     | None \<Rightarrow> (case search t DISTRIBUTION_PATTERNS of
           Some (_, q) \<Rightarrow> found (CV_enum 2 ''DISTRIBUTION'') q
         | None \<Rightarrow> nothing_found))"

section \<open>The extractor\<close>

definition PARSER_ID :: string where "PARSER_ID = ''parser@1''"
definition PARSER_GROUP :: string where "PARSER_GROUP = ''deterministic-parser''"

definition parser_claim :: "CanonicalDocument \<Rightarrow> string \<Rightarrow> Found \<Rightarrow> EvidenceClaim" where
  "parser_claim doc field f =
     \<lparr>ec_field = field, ec_value = fo_value f,
      ec_locator = (if fo_value f = None then None
        else Some \<lparr>dl_section = None, dl_startOffset = None, dl_endOffset = None, dl_quote = option_default (fo_quote f) []\<rparr>),
      ec_evidenceId = cd_evidenceId doc, ec_sourceClass = cd_sourceClass doc, ec_retrievedAt = cd_retrievedAt doc,
      ec_effectiveAt = cd_effectiveAt doc, ec_expiresAt = None, ec_extractor = PARSER_ID,
      ec_confidenceBps = (if fo_value f = None then 0 else 10000), ec_corroboratingEvidenceIds = [],
      ec_attestation = None\<rparr>"

definition PARSER_FIELDS :: "string list" where
  "PARSER_FIELDS = [''redemption.supported'', ''redemption.estimatedWindowSeconds'', ''transfer.permissionModel'',
     ''backing.model'', ''corporateActions.mechanism'']"

definition parser_readings :: "string \<Rightarrow> Found list" where
  "parser_readings t = [findRedemption t, findRedemptionWindow t, findTransferModel t, findBackingModel t,
     findCorporateActions t]"

definition parser_claims :: "CanonicalDocument \<Rightarrow> string \<Rightarrow> EvidenceClaim list" where
  "parser_claims doc t = map2 (parser_claim doc) PARSER_FIELDS (parser_readings t)"

definition parser_extract :: "(nat list \<Rightarrow> string) \<Rightarrow> int \<Rightarrow> int \<Rightarrow> CanonicalDocument \<Rightarrow> Extraction" where
  "parser_extract decode startedAt finishedAt doc =
     (let claims = parser_claims doc (decode (cd_bytes doc))
      in \<lparr>ex_extractor = PARSER_ID, ex_documentEvidenceId = cd_evidenceId doc, ex_claims = claims,
          ex_startedAt = startedAt, ex_finishedAt = finishedAt,
          ex_warnings = (if list_all (\<lambda>c. ec_value c = None) claims
            then [''no field matched any known phrasing; the document may need a new parser rule''] else []),
          ex_provenance = None\<rparr>)"

definition DeterministicParserExtractor :: "(nat list \<Rightarrow> string) \<Rightarrow> int \<Rightarrow> int \<Rightarrow> EvidenceExtractor" where
  "DeterministicParserExtractor decode startedAt finishedAt =
     \<lparr>xt_id = PARSER_ID, xt_independenceGroup = PARSER_GROUP,
      xt_extract = (\<lambda>doc. Inr (parser_extract decode startedAt finishedAt doc))\<rparr>"

section \<open>Where a match stands\<close>






section \<open>Quotes\<close>







text \<open>No stretch of the text between two full stops is longer than a quote may be.\<close>

definition short_sentences :: "string \<Rightarrow> bool" where
  "short_sentences t \<longleftrightarrow> list_all (\<lambda>r. length r < 2000) (split_on (CHR ''.'') t)"

lemma split_on_ne [simp]: "split_on d t \<noteq> []"
  by (cases t) (auto split: list.splits)







definition good_quote :: "string \<Rightarrow> string \<Rightarrow> bool" where
  "good_quote t q \<longleftrightarrow> q \<noteq> [] \<and> sublist q t \<and> (short_sentences t \<longrightarrow> length q \<le> 2000)"


section \<open>The parser's claims\<close>




definition good_found :: "string \<Rightarrow> Found \<Rightarrow> bool" where
  "good_found t f \<longleftrightarrow> (case fo_value f of
       None \<Rightarrow> True
     | Some v \<Rightarrow> claimValueSchema v \<and> (\<exists>q. fo_quote f = Some q \<and> good_quote t q))"

lemma good_found_simps [simp]:
  "good_found t nothing_found" "good_found t (found v q) \<longleftrightarrow> claimValueSchema v \<and> good_quote t q"
  by (simp_all add: good_found_def nothing_found_def found_def)




lemma parser_claim_fields [simp]: "map ec_field (parser_claims doc t) = PARSER_FIELDS"
  by (simp add: parser_claims_def parser_claim_def PARSER_FIELDS_def parser_readings_def)










section \<open>Properties\<close>





section \<open>Where the parser misreads\<close>

text \<open>Denials that none of the negative patterns knows are read as what they deny.\<close>

lemma denial_read_as_affirmation:
  "findRedemption ''Holders have no right to redeem.'' = found (CV_bool True) ''Holders have no right to redeem.''"
  by code_simp

lemma not_transferable_read_as_open:
  "findTransferModel ''Not freely transferable.'' = found (CV_enum 0 ''OPEN'') ''Not freely transferable.''"
  by code_simp

lemma not_backed_read_as_backed:
  "findBackingModel ''Not fully backed.'' = found (CV_enum 1 ''FULLY_BACKED'') ''Not fully backed.''"
  by code_simp

text \<open>One long stretch without a full stop makes a quote too long and costs the whole extraction.\<close>

definition long_text :: string where
  "long_text = ''whitelist '' @ replicate 1991 (CHR ''x'') @ ''.''"

lemma long_quote: "findTransferModel long_text = found (CV_enum 1 ''PERMISSIONED'') long_text"
proof -
  have m: "text_match (hd TRANSFER_RESTRICTED) long_text = Some (0, [])"
    by (simp add: TRANSFER_RESTRICTED_def text_match_def long_text_def at_boundary_def word_char_def
        lower_letter_def upper_letter_def is_digit_def ascii_lower_def skip_def)
  have x: "CHR ''.'' \<notin> set (replicate 1991 (CHR ''x''))" by simp
  have e: "sentence_end long_text 0 = length long_text"
    by (simp add: sentence_end_def Let_def long_text_def takeWhile_append)
  have s: "sentence_start long_text 0 = 0"
    by (simp add: sentence_start_def Let_def long_text_def)
  have "trim long_text = long_text"
    by (simp add: trim_def long_text_def is_ws_def)
  then have "sentenceAround long_text 0 = long_text"
    by (simp add: sentenceAround_def s e slice_def)
  moreover have "search long_text TRANSFER_RESTRICTED = Some ([], sentenceAround long_text 0)"
    using m by (cases TRANSFER_RESTRICTED) (simp_all add: TRANSFER_RESTRICTED_def)
  ultimately show ?thesis by (simp add: findTransferModel_def)
qed

lemma long_sentence_loses_the_path:
  assumes "decode (cd_bytes doc) = long_text"
  shows "run_path issues doc (DeterministicParserExtractor decode a b)
    = Inl (ExtractionSchemaInvalid PARSER_ID (issues (parser_extract decode a b doc)))"
proof -
  have "\<not> evidenceClaimSchema (parser_claim doc ''transfer.permissionModel'' (findTransferModel long_text))"
    unfolding long_quote
    by (simp add: evidenceClaimSchema_def parser_claim_def found_def opt_ok_def documentLocatorSchema_def
        text_between_def long_text_def)
  then have "\<not> extractionSchema (parser_extract decode a b doc)"
    using assms by (simp add: extractionSchema_def parser_extract_def parser_claims_def PARSER_FIELDS_def parser_readings_def Let_def)
  then show ?thesis
    by (simp add: run_path_def DeterministicParserExtractor_def validateExtraction_def)
      (simp add: parser_extract_def Let_def)
qed

section \<open>Chunking\<close>

text \<open>
  \<open>packages/chaingpt/src/chunk.ts\<close>. The hash of a chunk is the argument \<open>hash\<close>; the heading recorded
  beside a chunk is read from the lines before it.
\<close>

definition CHUNK_TARGET_CHARS :: nat where "CHUNK_TARGET_CHARS = 6000"
definition CHUNK_OVERLAP_CHARS :: nat where "CHUNK_OVERLAP_CHARS = 400"

record DocumentChunk =
  ck_index :: nat
  ck_total :: nat
  ck_startOffset :: nat
  ck_endOffset :: nat
  ck_text :: string
  ck_chunkHash :: string
  ck_section :: "string option"

text \<open>The nearest of the sixty lines before a chunk that looks like a heading.\<close>

definition numbered_heading :: "string \<Rightarrow> bool" where
  "numbered_heading line \<longleftrightarrow>
     list_ex (\<lambda>w. map ascii_lower (take (length w) line) = w
        \<and> (let rest = drop (length w) line; after = dropWhile is_ws rest
            in after \<noteq> [] \<and> after \<noteq> rest \<and> (is_digit (hd after) \<or> lower_letter (hd after) \<or> upper_letter (hd after))))
       [''section'', ''item'', ''part'', ''article'']"

text \<open>The Latin-1 letters that \<open>toUpperCase\<close> changes.\<close>

definition has_upper_form :: "char \<Rightarrow> bool" where
  "has_upper_form c \<longleftrightarrow> lower_letter c
     \<or> (let n = of_char c :: nat in n = 181 \<or> (223 \<le> n \<and> n \<noteq> 247))"

fun four_capitals :: "string \<Rightarrow> bool" where
  "four_capitals [] = False"
| "four_capitals (c # cs) \<longleftrightarrow> (length cs \<ge> 3 \<and> list_all upper_letter (take 4 (c # cs))) \<or> four_capitals cs"

definition title_heading :: "string \<Rightarrow> bool" where
  "title_heading line \<longleftrightarrow> (case line of [] \<Rightarrow> False
     | c # cs \<Rightarrow> upper_letter c \<and> 3 \<le> length cs \<and> length cs \<le> 80 \<and> list_all (\<lambda>d. d \<notin> set ''.!?'') cs)"

definition isHeading :: "string \<Rightarrow> bool" where
  "isHeading line \<longleftrightarrow> numbered_heading line \<or> (list_all (\<lambda>c. \<not> has_upper_form c) line \<and> four_capitals line)
     \<or> title_heading line"

definition headingBefore :: "string \<Rightarrow> nat \<Rightarrow> string option" where
  "headingBefore t offset =
     find (\<lambda>line. line \<noteq> [] \<and> length line \<le> 90 \<and> isHeading line)
       (map trim (take 59 (rev (split_on (CHR 0x0A) (take offset t)))))"

text \<open>\<open>lastIndexOf\<close>\<close>

definition last_index :: "string \<Rightarrow> string \<Rightarrow> nat option" where
  "last_index w s = find (\<lambda>i. take (length s) (drop i w) = s) (rev [0 ..< Suc (length w - length s)])"

definition cut_floor :: "nat \<Rightarrow> nat" where "cut_floor target = 3 * target div 4"

fun first_cut :: "string \<Rightarrow> nat \<Rightarrow> string list \<Rightarrow> nat option" where
  "first_cut w lowest [] = None"
| "first_cut w lowest (s # ss) =
     (case last_index w s of
        Some i \<Rightarrow> if lowest \<le> i then Some (i + length s) else first_cut w lowest ss
      | None \<Rightarrow> first_cut w lowest ss)"

definition BREAKS :: "string list" where
  "BREAKS = [[CHR 0x0A, CHR 0x0A], [CHR 0x0A], ''. '']"

definition chunk_end :: "nat \<Rightarrow> string \<Rightarrow> nat \<Rightarrow> nat" where
  "chunk_end target t cursor =
     (let hardEnd = min (cursor + target) (length t)
      in if hardEnd < length t
         then (case first_cut (slice cursor hardEnd t) (cut_floor target) BREAKS of Some k \<Rightarrow> cursor + k | None \<Rightarrow> hardEnd)
         else hardEnd)"

function chunk_bounds :: "nat \<Rightarrow> nat \<Rightarrow> string \<Rightarrow> nat \<Rightarrow> (nat \<times> nat) list" where
  "chunk_bounds target overlap t cursor =
     (if cursor < length t then
        (let e = chunk_end target t cursor
         in (cursor, e) # (if e \<ge> length t then [] else chunk_bounds target overlap t (max (e - overlap) (cursor + 1))))
      else [])"
  by pat_completeness auto
termination
  by (relation "measure (\<lambda>(target, overlap, t, cursor). length t - cursor)") auto

declare chunk_bounds.simps [simp del]

definition chunkDocument :: "(string \<Rightarrow> string) \<Rightarrow> nat \<Rightarrow> nat \<Rightarrow> string \<Rightarrow> DocumentChunk list" where
  "chunkDocument hash target overlap t =
     (if length t \<le> target
      then [\<lparr>ck_index = 0, ck_total = 1, ck_startOffset = 0, ck_endOffset = length t, ck_text = t, ck_chunkHash = hash t,
           ck_section = headingBefore t 0\<rparr>]
      else let bounds = chunk_bounds target overlap t 0
           in map (\<lambda>(i, s, e). \<lparr>ck_index = i, ck_total = length bounds, ck_startOffset = s, ck_endOffset = e,
                    ck_text = slice s e t, ck_chunkHash = hash (slice s e t), ck_section = headingBefore t s\<rparr>) (enumerate 0 bounds))"

lemma find_SomeD: "find P xs = Some x \<Longrightarrow> P x \<and> x \<in> set xs"
  by (induction xs) (auto split: if_splits)

lemma last_index_bound: "last_index w s = Some i \<Longrightarrow> i + length s \<le> length w"
proof -
  assume "last_index w s = Some i"
  then have i: "i \<le> length w - length s" "take (length s) (drop i w) = s"
    unfolding last_index_def by (auto dest!: find_SomeD simp del: upt_Suc)
  from i(2) have "length s \<le> length w - i" by (metis length_drop length_take min.cobounded1)
  with i(1) show ?thesis by linarith
qed

lemma first_cut_bound: "list_all (\<lambda>s. s \<noteq> []) ss \<Longrightarrow> first_cut w lowest ss = Some k \<Longrightarrow> lowest < k \<and> k \<le> length w"
proof (induction w lowest ss rule: first_cut.induct)
  case (2 w lowest s ss)
  then show ?case using last_index_bound [of w s]
    by (cases "last_index w s"; cases s) (fastforce split: if_splits)+
qed simp

lemma chunk_end_bounds:
  assumes "cursor < length t" "1 \<le> target"
  shows "cursor < chunk_end target t cursor" "chunk_end target t cursor \<le> cursor + target"
    "chunk_end target t cursor \<le> length t"
    "chunk_end target t cursor = length t \<or> cursor + cut_floor target < chunk_end target t cursor"
proof -
  let ?h = "min (cursor + target) (length t)"
  have fl: "cut_floor target < target" using assms(2) by (simp add: cut_floor_def)
  have bk: "list_all (\<lambda>s. s \<noteq> []) BREAKS" by (simp add: BREAKS_def)
  have w: "length (slice cursor ?h t) = ?h - cursor" by (simp add: slice_def)
  have cut: "cut_floor target < k \<and> k \<le> ?h - cursor"
    if "first_cut (slice cursor ?h t) (cut_floor target) BREAKS = Some k" for k
    using first_cut_bound [OF bk that] w by simp
  have "cursor < chunk_end target t cursor \<and> chunk_end target t cursor \<le> cursor + target
      \<and> chunk_end target t cursor \<le> length t
      \<and> (chunk_end target t cursor = length t \<or> cursor + cut_floor target < chunk_end target t cursor)"
  proof (cases "?h < length t")
    case True
    show ?thesis
    proof (cases "first_cut (slice cursor ?h t) (cut_floor target) BREAKS")
      case None
      then have "chunk_end target t cursor = ?h"
        unfolding chunk_end_def Let_def by (simp only: None True if_True option.case)
      then show ?thesis using True assms fl by linarith
    next
      case (Some k)
      then have "chunk_end target t cursor = cursor + k" using True
        unfolding chunk_end_def Let_def by (simp only: if_True option.case)
      then show ?thesis using cut [OF Some] True by linarith
    qed
  next
    case False
    then have "chunk_end target t cursor = length t" by (simp add: chunk_end_def Let_def)
    then show ?thesis using assms False by simp
  qed
  then show "cursor < chunk_end target t cursor" "chunk_end target t cursor \<le> cursor + target"
    "chunk_end target t cursor \<le> length t"
    "chunk_end target t cursor = length t \<or> cursor + cut_floor target < chunk_end target t cursor" by blast+
qed

lemma chunk_bounds_in:
  assumes "1 \<le> target" "(s, e) \<in> set (chunk_bounds target overlap t cursor)"
  shows "cursor \<le> s \<and> s < e \<and> e \<le> length t \<and> e - s \<le> target"
  using assms
proof (induction target overlap t cursor rule: chunk_bounds.induct)
  case (1 target overlap t cursor)
  have c: "cursor < length t"
  proof (rule ccontr)
    assume "\<not> cursor < length t"
    then show False using 1(3) chunk_bounds.simps [of target overlap t cursor] by simp
  qed
  note b = chunk_end_bounds [OF c 1(2)]
  let ?e = "chunk_end target t cursor"
  from 1(3) consider "s = cursor" "e = ?e"
    | "?e < length t" "(s, e) \<in> set (chunk_bounds target overlap t (max (?e - overlap) (cursor + 1)))"
    using chunk_bounds.simps [of target overlap t cursor] c by (auto simp: Let_def split: if_splits)
  then show ?case
  proof cases
    case 2
    then show ?thesis using 1(1) [OF c refl] 1(2) by fastforce
  qed (use b in auto)
qed

text \<open>A stretch of the text that is no longer than the overlap stands whole in some chunk.\<close>

lemma chunk_bounds_cover:
  assumes "1 \<le> target" "cursor \<le> a" "a < b" "b \<le> length t" "b - a \<le> overlap + 1" "b - a \<le> cut_floor target + 1"
  shows "\<exists>(s, e) \<in> set (chunk_bounds target overlap t cursor). s \<le> a \<and> b \<le> e"
  using assms
proof (induction target overlap t cursor rule: chunk_bounds.induct)
  case (1 target overlap t cursor)
  have c: "cursor < length t" using 1 by simp
  note e = chunk_end_bounds [OF c 1(2)]
  let ?e = "chunk_end target t cursor" and ?n = "max (chunk_end target t cursor - overlap) (cursor + 1)"
  show ?case
  proof (cases "b \<le> ?e")
    case True
    then show ?thesis using 1(3) c by (subst chunk_bounds.simps) (auto simp: Let_def)
  next
    case False
    then have l: "\<not> ?e \<ge> length t" using 1(5) by simp
    have "?n \<le> a" using False l e(4) 1(3-7) by auto
    then have "\<exists>(s, e) \<in> set (chunk_bounds target overlap t ?n). s \<le> a \<and> b \<le> e"
      by (rule 1(1) [OF c refl l 1(2) _ 1(4-7)])
    then show ?thesis using c l by (subst chunk_bounds.simps) (auto simp: Let_def)
  qed
qed

lemma chunk_bounds_count: "length (chunk_bounds target overlap t cursor) \<le> length t - cursor"
proof (induction target overlap t cursor rule: chunk_bounds.induct)
  case (1 target overlap t cursor)
  show ?case
  proof (cases "cursor < length t")
    case True
    then show ?thesis using 1 by (subst chunk_bounds.simps) (fastforce simp: Let_def)
  qed (subst chunk_bounds.simps, simp)
qed

lemma in_chunks:
  assumes "target < length t"
  shows "c \<in> set (chunkDocument hash target overlap t) \<Longrightarrow>
      (ck_startOffset c, ck_endOffset c) \<in> set (chunk_bounds target overlap t 0)
      \<and> ck_text c = slice (ck_startOffset c) (ck_endOffset c) t \<and> ck_chunkHash c = hash (ck_text c)"
    and "(s, e) \<in> set (chunk_bounds target overlap t 0) \<Longrightarrow>
      \<exists>c\<in>set (chunkDocument hash target overlap t). ck_startOffset c = s \<and> ck_endOffset c = e"
proof -
  let ?b = "chunk_bounds target overlap t 0"
  let ?f = "\<lambda>(i, s, e). \<lparr>ck_index = i, ck_total = length ?b, ck_startOffset = s, ck_endOffset = e,
      ck_text = slice s e t, ck_chunkHash = hash (slice s e t), ck_section = headingBefore t s\<rparr>"
  have d: "chunkDocument hash target overlap t = map ?f (enumerate 0 ?b)" using assms by (simp add: chunkDocument_def Let_def)
  show "(ck_startOffset c, ck_endOffset c) \<in> set ?b
      \<and> ck_text c = slice (ck_startOffset c) (ck_endOffset c) t \<and> ck_chunkHash c = hash (ck_text c)"
    if in_chunk: "c \<in> set (chunkDocument hash target overlap t)"
  proof -
    obtain z where "z \<in> set (enumerate 0 ?b)" "c = ?f z" using in_chunk unfolding d set_map by blast
    moreover obtain i s e where "z = (i, s, e)" by (rule prod_cases3)
    ultimately have "(i, s, e) \<in> set (enumerate 0 ?b)" "c = ?f (i, s, e)" by simp_all
    moreover from this(1) have "(s, e) \<in> set ?b" by (metis set_map image_eqI map_snd_enumerate snd_conv)
    ultimately show ?thesis by simp
  qed
  show "\<exists>c\<in>set (chunkDocument hash target overlap t). ck_startOffset c = s \<and> ck_endOffset c = e" if bound: "(s, e) \<in> set ?b"
  proof -
    obtain i where "i < length ?b" "?b ! i = (s, e)" using bound by (metis in_set_conv_nth)
    then have "(i, s, e) \<in> set (enumerate 0 ?b)" by (simp add: in_set_enumerate_eq)
    then have "?f (i, s, e) \<in> set (map ?f (enumerate 0 ?b))" unfolding set_map by (rule imageI)
    then show ?thesis unfolding d by (rule bexI [rotated]) simp
  qed
qed

text \<open>
  Chunking loses nothing. Every chunk is a verbatim stretch of the text at the offsets it records, no
  longer than the target (or the whole text), hashed as it stands; and every stretch of the text that
  is no longer than the overlap plus one, and than three quarters of the target plus one, stands whole
  inside one chunk, so a fact that crosses a boundary is still read in one piece.
\<close>

theorem chunks_keep_facts_whole:
  assumes "1 \<le> target" "a < b" "b \<le> length t" "b - a \<le> overlap + 1" "b - a \<le> cut_floor target + 1"
  shows "(\<exists>c\<in>set (chunkDocument hash target overlap t). ck_startOffset c \<le> a \<and> b \<le> ck_endOffset c)
    \<and> list_all (\<lambda>c. ck_text c = slice (ck_startOffset c) (ck_endOffset c) t \<and> length (ck_text c) \<le> target
         \<and> ck_chunkHash c = hash (ck_text c)) (chunkDocument hash target overlap t)"
proof (cases "target < length t")
  case True
  obtain s e where se: "(s, e) \<in> set (chunk_bounds target overlap t 0)" "s \<le> a" "b \<le> e"
    using chunk_bounds_cover [OF assms(1) _ assms(2-5), of 0] by auto
  have "length (ck_text c) \<le> target" if "c \<in> set (chunkDocument hash target overlap t)" for c
    using chunk_bounds_in [OF assms(1)] in_chunks(1) [OF True that] by (fastforce simp: slice_def)
  then show ?thesis
    using in_chunks [OF True] chunk_bounds_in [OF assms(1)] se by (fastforce simp: list_all_iff)
next
  case False
  then show ?thesis using assms by (simp add: chunkDocument_def slice_def)
qed

theorem chunks_keep_facts_whole_witness:
  "\<exists>c. c \<in> set (chunkDocument id 4 2 ''abcdefgh'') \<and> ck_startOffset c \<le> 3 \<and> 6 \<le> ck_endOffset c"
  using chunks_keep_facts_whole [of 4 3 6 "''abcdefgh''" 2 id] by (auto simp: cut_floor_def)

text \<open>
  Chunking ends, whatever the target and the overlap, even a target of zero or an overlap larger than
  the target: there are never more chunks than characters (and one for an empty text), and each starts
  after the one before it.
\<close>

lemma chunk_bounds_increasing: "sorted_wrt (<) (map fst (chunk_bounds target overlap t cursor))
    \<and> list_all (\<lambda>s. cursor \<le> s) (map fst (chunk_bounds target overlap t cursor))"
proof (induction target overlap t cursor rule: chunk_bounds.induct)
  case (1 target overlap t cursor)
  let ?e = "chunk_end target t cursor" and ?n = "max (chunk_end target t cursor - overlap) (cursor + 1)"
  consider "\<not> cursor < length t" | "cursor < length t" "length t \<le> ?e" | "cursor < length t" "\<not> length t \<le> ?e" by blast
  then show ?case
  proof cases
    case 3
    have u: "chunk_bounds target overlap t cursor = (cursor, ?e) # chunk_bounds target overlap t ?n"
      using 3 by (simp add: chunk_bounds.simps [of _ _ _ cursor] Let_def)
    have "list_all (\<lambda>s. ?n \<le> s) (map fst (chunk_bounds target overlap t ?n))"
      "sorted_wrt (<) (map fst (chunk_bounds target overlap t ?n))" using 1 [OF 3(1) refl 3(2)] by blast+
    then show ?thesis unfolding u by (fastforce simp: list_all_iff)
  qed (simp_all add: chunk_bounds.simps [of _ _ _ cursor] Let_def)
qed

theorem chunking_ends:
  "length (chunkDocument hash target overlap t) \<le> max 1 (length t)
    \<and> sorted_wrt (<) (map ck_startOffset (chunkDocument hash target overlap t))"
proof (cases "target < length t")
  case True
  let ?b = "chunk_bounds target overlap t 0"
  have "map ck_startOffset (chunkDocument hash target overlap t) = map fst ?b"
    using True by (simp add: chunkDocument_def Let_def comp_def case_prod_unfold)
      (metis (no_types, lifting) map_map comp_apply map_snd_enumerate list.map_cong0)
  moreover from this have "length (chunkDocument hash target overlap t) = length ?b" by (metis length_map)
  ultimately show ?thesis using chunk_bounds_count [of target overlap t 0] chunk_bounds_increasing [of target overlap t 0] by simp
qed (simp add: chunkDocument_def)

text \<open>A window with no break in its last quarter is cut where it ends, in the middle of a sentence.\<close>

lemma chunk_cuts_mid_sentence:
  "map ck_text (chunkDocument id 20 4 ''Redemption is not available.'') = [''Redemption is not av'', ''t available.'']"
  by code_simp

end
