(* ===== verification/Receipts.thy ===== *)
theory Receipts
  imports Sentinel_Properties Identity
begin

text \<open>
  Receipts: the canonical receipt of \<open>services/evidence/src/receipt.ts\<close> and the projection of a Sentinel
  run onto it (\<open>services/sentinel/src/receipt.ts\<close>). The kinds and statuses are the texts of the schema's
  enumerations.
\<close>

section \<open>The canonical receipt\<close>

definition receiptKindSchema :: "string list" where
  "receiptKindSchema =
     [''EVIDENCE_COMMITTED'', ''PASSPORT_COMMITTED'', ''RISK_EPOCH_ACTIVATED'', ''COLLATERAL_DEPOSITED'', ''BORROWED'',
      ''BORROW_REJECTED'', ''REPAID'', ''COLLATERAL_WITHDRAWN'', ''ACCOUNT_RESTRICTED'', ''LIQUIDATED'',
      ''MANDATE_DELEGATED'', ''SENTINEL_RUN_EXECUTED'', ''SENTINEL_RUN_BLOCKED'', ''SENTINEL_RUN_NO_ACTION'',
      ''FACILITY_CREATED'', ''FACILITY_ACTIVATED'', ''COLLATERAL_COMMITTED'', ''SUBSTITUTION_REQUESTED'',
      ''SUBSTITUTION_REJECTED'', ''REPLACEMENT_COMMITTED'', ''COLLATERAL_RELEASED'', ''FACILITY_REPAID'',
      ''FACILITY_SETTLED'', ''FACILITY_DEFAULTED'']"

definition receiptStatusSchema :: "string list" where
  "receiptStatusSchema =
     [''PENDING'', ''SUBMITTED'', ''CONFIRMED'', ''CONFIRMATION_UNKNOWN'', ''FAILED'', ''REJECTED_BY_POLICY'']"

definition TX_STATUSES :: "string list" where
  "TX_STATUSES = [''submitted'', ''success'', ''reverted'', ''unknown'']"

record BuilderAttribution =
  bt_schema :: int
  bt_code :: string
  bt_verified :: bool

record ReceiptTransaction =
  rx_chainId :: int
  rx_contract :: string
  rx_txHash :: string
  rx_blockNumber :: "int option"
  rx_action :: string
  rx_status :: string
  rx_revertReason :: "string option"
  rx_builderAttribution :: "BuilderAttribution option"

definition receiptTransactionSchema :: "ReceiptTransaction \<Rightarrow> bool" where
  "receiptTransactionSchema t \<longleftrightarrow> hex32Schema (rx_txHash t) \<and> rx_status t \<in> set TX_STATUSES"

record StateTransition =
  tn_at :: int
  tn_from :: string
  tn_to :: string
  tn_note :: "string option"

definition stateTransitionSchema :: "StateTransition \<Rightarrow> bool" where
  "stateTransitionSchema t \<longleftrightarrow> unixSecondsSchema (tn_at t)"

record UsanceReceipt =
  ur_receiptId :: string
  ur_kind :: string
  ur_status :: string
  ur_chainId :: int
  ur_accountId :: "string option"
  ur_evidenceAssetId :: "string option"
  ur_financialAssetId :: "string option"
  ur_homeDomain :: "string option"
  ur_instrumentId :: "string option"
  ur_workflowId :: "string option"
  ur_intentId :: "string option"
  ur_passportVersion :: "int option"
  ur_evidenceRoot :: "string option"
  ur_claimsRoot :: "string option"
  ur_singleSource :: "bool option"
  ur_riskPolicyVersion :: "int option"
  ur_riskEpoch :: "int option"
  ur_transactions :: "ReceiptTransaction list"
  ur_stateTransitions :: "StateTransition list"
  ur_createdAt :: int
  ur_completedAt :: "int option"

definition confirmed_is_cited :: "UsanceReceipt \<Rightarrow> bool" where
  "confirmed_is_cited r \<longleftrightarrow>
     \<not> (ur_status r = ''CONFIRMED'' \<and> ur_transactions r = [])
   \<and> \<not> (ur_status r = ''CONFIRMED'' \<and> \<not> list_ex (\<lambda>t. rx_status t = ''success'') (ur_transactions r))"

definition usanceReceiptSchema :: "UsanceReceipt \<Rightarrow> bool" where
  "usanceReceiptSchema r \<longleftrightarrow>
     ur_receiptId r \<noteq> [] \<and> ur_kind r \<in> set receiptKindSchema \<and> ur_status r \<in> set receiptStatusSchema
   \<and> list_all (opt_ok hex32Schema)
       [ur_evidenceAssetId r, ur_financialAssetId r, ur_instrumentId r, ur_intentId r, ur_evidenceRoot r, ur_claimsRoot r]
   \<and> opt_ok caip2Schema (ur_homeDomain r)
   \<and> list_all receiptTransactionSchema (ur_transactions r) \<and> list_all stateTransitionSchema (ur_stateTransitions r)
   \<and> unixSecondsSchema (ur_createdAt r) \<and> opt_ok unixSecondsSchema (ur_completedAt r) \<and> confirmed_is_cited r"

text \<open>Parsing lowers identifiers and normalises the domain; the transactions' hashes stay as they are.\<close>

definition receipt_parsed :: "UsanceReceipt \<Rightarrow> UsanceReceipt" where
  "receipt_parsed r = r\<lparr>
     ur_evidenceAssetId := map_option toLowerCase (ur_evidenceAssetId r),
     ur_financialAssetId := map_option toLowerCase (ur_financialAssetId r),
     ur_homeDomain := map_option caip2_parsed (ur_homeDomain r),
     ur_instrumentId := map_option toLowerCase (ur_instrumentId r),
     ur_intentId := map_option toLowerCase (ur_intentId r),
     ur_evidenceRoot := map_option toLowerCase (ur_evidenceRoot r),
     ur_claimsRoot := map_option toLowerCase (ur_claimsRoot r)\<rparr>"

definition parse_receipt :: "UsanceReceipt \<Rightarrow> UsanceReceipt option" where
  "parse_receipt r = (if usanceReceiptSchema r then Some (receipt_parsed r) else None)"

definition strip_0x :: "string \<Rightarrow> string" where
  "strip_0x s = (if take 2 s = ''0x'' then drop 2 s else s)"

definition receiptIdFor :: "string \<Rightarrow> int \<Rightarrow> string \<Rightarrow> string" where
  "receiptIdFor kind chainId primaryTxOrKey =
     map (\<lambda>c. if c = CHR ''_'' then CHR ''-'' else c) (toLowerCase kind) @ ''-'' @ show_int chainId @ ''-''
     @ take 16 (strip_0x primaryTxOrKey)"

section \<open>The receipt of a run\<close>

fun run_state_name :: "RunState \<Rightarrow> string" where
  "run_state_name TRIGGER_OBSERVED = ''TRIGGER_OBSERVED''"
| "run_state_name TRIGGER_VALIDATED = ''TRIGGER_VALIDATED''"
| "run_state_name SNAPSHOT_PINNING = ''SNAPSHOT_PINNING''"
| "run_state_name SNAPSHOT_PINNED = ''SNAPSHOT_PINNED''"
| "run_state_name PLANNING = ''PLANNING''"
| "run_state_name PLAN_READY = ''PLAN_READY''"
| "run_state_name PLAN_REJECTED = ''PLAN_REJECTED''"
| "run_state_name NO_ACTION_REQUIRED = ''NO_ACTION_REQUIRED''"
| "run_state_name WAITING_USER_CONFIRMATION = ''WAITING_USER_CONFIRMATION''"
| "run_state_name AUTHORIZATION_CHECKING = ''AUTHORIZATION_CHECKING''"
| "run_state_name AUTHORIZED = ''AUTHORIZED''"
| "run_state_name AUTHORIZATION_REJECTED = ''AUTHORIZATION_REJECTED''"
| "run_state_name RESERVING = ''RESERVING''"
| "run_state_name CAPITAL_RESERVED = ''CAPITAL_RESERVED''"
| "run_state_name RESERVATION_REJECTED = ''RESERVATION_REJECTED''"
| "run_state_name SUBMITTING = ''SUBMITTING''"
| "run_state_name SUBMITTED = ''SUBMITTED''"
| "run_state_name CONFIRMATION_UNKNOWN = ''CONFIRMATION_UNKNOWN''"
| "run_state_name PARTIALLY_FILLED = ''PARTIALLY_FILLED''"
| "run_state_name FILLED = ''FILLED''"
| "run_state_name EXECUTION_UNKNOWN = ''EXECUTION_UNKNOWN''"
| "run_state_name RECONCILING = ''RECONCILING''"
| "run_state_name RECONCILED = ''RECONCILED''"
| "run_state_name COMPLETE = ''COMPLETE''"
| "run_state_name BLOCKED_BY_POLICY = ''BLOCKED_BY_POLICY''"
| "run_state_name BLOCKED_BY_MANDATE = ''BLOCKED_BY_MANDATE''"
| "run_state_name BLOCKED_BY_BUDGET = ''BLOCKED_BY_BUDGET''"
| "run_state_name BLOCKED_BY_RISK_EPOCH = ''BLOCKED_BY_RISK_EPOCH''"
| "run_state_name BLOCKED_BY_VENUE = ''BLOCKED_BY_VENUE''"
| "run_state_name BLOCKED_BY_LIQUIDITY = ''BLOCKED_BY_LIQUIDITY''"
| "run_state_name BLOCKED_BY_MARKET_SESSION = ''BLOCKED_BY_MARKET_SESSION''"

definition run_executed :: "SentinelRun \<Rightarrow> bool" where
  "run_executed run \<longleftrightarrow> list_ex (\<lambda>h. rt_to h = FILLED) (sr_history run)"

definition run_verdict :: "SentinelRun \<Rightarrow> string \<times> string \<times> string" where
  "run_verdict run =
     (if sr_state run = COMPLETE \<and> run_executed run then (''SENTINEL_RUN_EXECUTED'', ''CONFIRMED'', ''success'')
      else if sr_state run = COMPLETE then (''SENTINEL_RUN_BLOCKED'', ''FAILED'', ''reverted'')
      else (''SENTINEL_RUN_BLOCKED'', ''REJECTED_BY_POLICY'', ''reverted''))"

definition run_transactions :: "SentinelRun \<Rightarrow> int \<Rightarrow> string \<Rightarrow> ReceiptTransaction list" where
  "run_transactions run chainId lastTxStatus =
     map (\<lambda>(i, tx). let isLast = (i = length (sr_transactions run) - 1) in
        \<lparr>rx_chainId = chainId, rx_contract = ''DelegationGateway'', rx_txHash = tx,
         rx_blockNumber = map_option sn_blockNumber (sr_snapshot run),
         rx_action = option_default (map_option plan_action_name (sr_plan run)) ''UNKNOWN'',
         rx_status = (if isLast then lastTxStatus else ''success''),
         rx_revertReason = (if lastTxStatus = ''reverted'' \<and> isLast
           then Some (option_default (if sr_history run = [] then None else rt_reason (last (sr_history run))) ''reverted'')
           else None),
         rx_builderAttribution = None\<rparr>)
       (enumerate 0 (sr_transactions run))"

fun transitions_from :: "string \<Rightarrow> RunTransitionRecord list \<Rightarrow> StateTransition list" where
  "transitions_from prev [] = []"
| "transitions_from prev (h # hs) =
     \<lparr>tn_at = rt_at h, tn_from = prev, tn_to = run_state_name (rt_to h), tn_note = rt_reason h\<rparr>
       # transitions_from (run_state_name (rt_to h)) hs"

definition run_receipt :: "SentinelRun \<Rightarrow> SentinelInstance \<Rightarrow> UsanceReceipt" where
  "run_receipt run inst =
     (let (kind, status, lastTxStatus) = run_verdict run;
          chainId = option_default (map_option sn_chainId (sr_snapshot run)) 1952;
          primaryTx = (case sr_transactions run of [] \<Rightarrow> sr_runId run | t # _ \<Rightarrow> t)
      in \<lparr>ur_receiptId = receiptIdFor kind chainId primaryTx, ur_kind = kind, ur_status = status, ur_chainId = chainId,
          ur_accountId = Some (si_account inst), ur_evidenceAssetId = None, ur_financialAssetId = None,
          ur_homeDomain = None, ur_instrumentId = None, ur_workflowId = Some (sr_runId run), ur_intentId = sr_intentId run,
          ur_passportVersion = None, ur_evidenceRoot = None, ur_claimsRoot = None, ur_singleSource = None,
          ur_riskPolicyVersion = None, ur_riskEpoch = map_option sn_riskEpoch (sr_snapshot run),
          ur_transactions = run_transactions run chainId lastTxStatus,
          ur_stateTransitions = transitions_from [] (sr_history run),
          ur_createdAt = sr_createdAt run, ur_completedAt = Some (sr_updatedAt run)\<rparr>)"

text \<open>\<open>Inl ()\<close> is the exception of the schema's \<open>parse\<close>, \<open>Inr None\<close> the returned \<open>null\<close>.\<close>

definition sentinelRunReceipt :: "SentinelRun \<Rightarrow> SentinelInstance \<Rightarrow> unit + UsanceReceipt option" where
  "sentinelRunReceipt run inst =
     (if \<not> isRunTerminal (sr_state run) \<or> sr_state run = NO_ACTION_REQUIRED then Inr None
      else case parse_receipt (run_receipt run inst) of None \<Rightarrow> Inl () | Some r \<Rightarrow> Inr (Some r))"

section \<open>What a receipt says\<close>

lemma run_receipt_fields:
  "ur_status (run_receipt run inst) = fst (snd (run_verdict run))" "ur_kind (run_receipt run inst) = fst (run_verdict run)"
  "map rx_txHash (ur_transactions (run_receipt run inst)) = sr_transactions run"
  "map tn_to (ur_stateTransitions (run_receipt run inst)) = map (run_state_name \<circ> rt_to) (sr_history run)"
proof -
  have t: "map tn_to (transitions_from p hs) = map (run_state_name \<circ> rt_to) hs" for p hs
    by (induction hs arbitrary: p) simp_all
  have x: "map rx_txHash (run_transactions run c s) = sr_transactions run" for c s
    by (simp add: run_transactions_def comp_def case_prod_unfold Let_def)
  show "ur_status (run_receipt run inst) = fst (snd (run_verdict run))" "ur_kind (run_receipt run inst) = fst (run_verdict run)"
    "map rx_txHash (ur_transactions (run_receipt run inst)) = sr_transactions run"
    "map tn_to (ur_stateTransitions (run_receipt run inst)) = map (run_state_name \<circ> rt_to) (sr_history run)"
    by (simp_all add: run_receipt_def Let_def case_prod_unfold t x)
qed

lemma last_transaction_status:
  "sr_transactions run \<noteq> [] \<Longrightarrow> rx_status (last (run_transactions run c s)) = s"
  by (simp add: run_transactions_def last_map Let_def case_prod_unfold last_conv_nth nth_enumerate_eq enumerate_eq_zip)

definition receiptable :: "SentinelRun \<Rightarrow> bool" where
  "receiptable run \<longleftrightarrow> list_all hex32Schema (sr_transactions run) \<and> opt_ok hex32Schema (sr_intentId run)
     \<and> list_all (\<lambda>h. 0 \<le> rt_at h) (sr_history run) \<and> 0 \<le> sr_createdAt run \<and> 0 \<le> sr_updatedAt run"

lemma verdict_confirmed:
  "fst (snd (run_verdict run)) = ''CONFIRMED'' \<longleftrightarrow> sr_state run = COMPLETE \<and> run_executed run"
  "fst (run_verdict run) = ''SENTINEL_RUN_EXECUTED'' \<longleftrightarrow> sr_state run = COMPLETE \<and> run_executed run"
  by (simp_all add: run_verdict_def)

lemma run_transactions_ok:
  assumes "list_all hex32Schema (sr_transactions run)" "s \<in> {''success'', ''reverted''}"
  shows "list_all receiptTransactionSchema (run_transactions run c s)"
proof -
  have "receiptTransactionSchema t" if "t \<in> set (run_transactions run c s)" for t
  proof -
    have "map rx_txHash (run_transactions run c s) = sr_transactions run"
      by (simp add: run_transactions_def comp_def case_prod_unfold Let_def)
    then have "rx_txHash t \<in> set (sr_transactions run)" using that by (metis image_eqI list.set_map)
    moreover have "rx_status t \<in> {s, ''success''}" using that by (auto simp: run_transactions_def Let_def)
    ultimately show ?thesis using assms by (auto simp: receiptTransactionSchema_def TX_STATUSES_def list_all_iff)
  qed
  then show ?thesis by (simp add: list_all_iff)
qed

lemma transitions_ok: "list_all (\<lambda>h. 0 \<le> rt_at h) hs \<Longrightarrow> list_all stateTransitionSchema (transitions_from p hs)"
  by (induction hs arbitrary: p) (simp_all add: stateTransitionSchema_def unixSecondsSchema_def)

lemma receipt_schema:
  assumes "receiptable run" "\<not> (sr_state run = COMPLETE \<and> run_executed run \<and> sr_transactions run = [])"
  shows "usanceReceiptSchema (run_receipt run inst)"
proof -
  obtain k s t where v: "run_verdict run = (k, s, t)" by (rule prod_cases3)
  have k: "k \<in> set receiptKindSchema" "s \<in> set receiptStatusSchema" "t \<in> {''success'', ''reverted''}" "k \<noteq> []"
    using v by (auto simp: run_verdict_def receiptKindSchema_def receiptStatusSchema_def split: if_splits)
  let ?r = "run_receipt run inst"
  have c: "confirmed_is_cited ?r"
  proof (cases "sr_state run = COMPLETE \<and> run_executed run")
    case True
    then have n: "sr_transactions run \<noteq> []" using assms(2) by blast
    have tx: "ur_transactions ?r = run_transactions run (option_default (map_option sn_chainId (sr_snapshot run)) 1952) ''success''"
      using True by (simp add: run_receipt_def run_verdict_def Let_def)
    have "ur_transactions ?r \<noteq> []" using n run_receipt_fields(3) [of run inst] by (metis list.simps(8))
    moreover from this have "list_ex (\<lambda>t. rx_status t = ''success'') (ur_transactions ?r)"
      using last_transaction_status [OF n] unfolding tx list_ex_iff by (metis last_in_set)
    ultimately show ?thesis by (simp add: confirmed_is_cited_def)
  next
    case False
    then have "ur_status ?r \<noteq> ''CONFIRMED''" using verdict_confirmed(1) run_receipt_fields(1) by metis
    then show ?thesis by (simp add: confirmed_is_cited_def)
  qed
  have "list_all receiptTransactionSchema (ur_transactions ?r)"
    using run_transactions_ok [OF _ k(3)] assms(1) v by (simp add: run_receipt_def receiptable_def Let_def)
  moreover have "list_all stateTransitionSchema (ur_stateTransitions ?r)"
    using assms(1) transitions_ok by (simp add: run_receipt_def receiptable_def Let_def case_prod_unfold)
  ultimately show ?thesis
    using c k assms(1) v
    by (simp add: usanceReceiptSchema_def receiptable_def unixSecondsSchema_def)
      (simp add: run_receipt_def receiptIdFor_def Let_def unixSecondsSchema_def)
qed

text \<open>
  A receipt says what the run did. A run has a receipt exactly when it has ended and had something
  to do; for a well-formed run that cites a transaction if it was filled the projection never
  throws, and its receipt is confirmed exactly when the run was filled and completed, names exactly the
  run's transactions and states, and cites a successful transaction whenever it is confirmed.
\<close>

theorem receipt_tells_outcome:
  assumes "receiptable run" "\<not> (sr_state run = COMPLETE \<and> run_executed run \<and> sr_transactions run = [])"
  shows "case sentinelRunReceipt run inst of Inl e \<Rightarrow> False
    | Inr None \<Rightarrow> \<not> isRunTerminal (sr_state run) \<or> sr_state run = NO_ACTION_REQUIRED
    | Inr (Some r) \<Rightarrow> isRunTerminal (sr_state run) \<and> sr_state run \<noteq> NO_ACTION_REQUIRED
        \<and> (ur_status r = ''CONFIRMED'') = (sr_state run = COMPLETE \<and> run_executed run)
        \<and> (ur_status r = ''CONFIRMED'') = (ur_kind r = ''SENTINEL_RUN_EXECUTED'')
        \<and> map rx_txHash (ur_transactions r) = sr_transactions run
        \<and> map tn_to (ur_stateTransitions r) = map (run_state_name \<circ> rt_to) (sr_history run)
        \<and> (ur_status r \<noteq> ''CONFIRMED'' \<or> list_ex (\<lambda>t. rx_status t = ''success'') (ur_transactions r))"
proof (cases "\<not> isRunTerminal (sr_state run) \<or> sr_state run = NO_ACTION_REQUIRED")
  case True
  then show ?thesis by (simp add: sentinelRunReceipt_def)
next
  case False
  have s: "usanceReceiptSchema (run_receipt run inst)" by (rule receipt_schema [OF assms])
  then have "confirmed_is_cited (run_receipt run inst)" by (simp add: usanceReceiptSchema_def)
  then show ?thesis
    using False s run_receipt_fields [of run inst] verdict_confirmed [of run]
    by (auto simp: sentinelRunReceipt_def parse_receipt_def receipt_parsed_def confirmed_is_cited_def)
qed

definition filled_run :: SentinelRun where
  "filled_run = (createRun (zeros 64) demo_id (epoch_event []) demo_id 1 100)
     \<lparr>sr_state := COMPLETE, sr_transactions := [zeros 64],
      sr_history := [\<lparr>rt_to = FILLED, rt_at = 100, rt_reason = None\<rparr>]\<rparr>"

theorem receipt_tells_outcome_witness:
  "\<exists>r. sentinelRunReceipt filled_run demo_instance = Inr (Some r) \<and> ur_status r = ''CONFIRMED''"
proof -
  have "receiptable filled_run"
    by (simp add: filled_run_def receiptable_def createRun_def zeros_schemas)
  then show ?thesis
    using receipt_tells_outcome [of filled_run demo_instance]
    by (auto simp: filled_run_def isRunTerminal_def run_executed_def split: sum.splits option.splits)
qed

section \<open>Where a receipt is wrong\<close>

text \<open>
  A run whose confirmation was lost and found again is completed without the state \<open>FILLED\<close>, so the
  receipt of its successful transaction says that it reverted.
\<close>

lemma reconciled_success_reads_reverted:
  assumes "sr_state run \<in> {CONFIRMATION_UNKNOWN, EXECUTION_UNKNOWN}" "sr_transactions run \<noteq> []" "\<not> run_executed run"
    and "cv_transactionOutcome (d_chain deps) (last (sr_transactions run)) (w_chain w) = (Inr (Some tx_success), w_chain w)"
    and "reconcile deps run inst w = (Inr run', w')"
  shows "sr_state run' = COMPLETE" "run_verdict run' = (''SENTINEL_RUN_BLOCKED'', ''FAILED'', ''reverted'')"
proof -
  have "reconcile_success deps inst run w = (Inr run', w')"
    using reconcile_known [OF _ assms(2,4), of inst] assms(1,5) by (auto simp: isRunTerminal_def)
  then obtain w1 w2 run2 where 1: "stepRun deps run RECONCILING no_options w1 = (Inr run2, w2)"
    "stepAll deps [(RECONCILED, no_options), (COMPLETE, no_options)] run2 w2 = (Inr run', w')"
    using assms(1) unfolding reconcile_success_def
    by (elim bindW_InrE) (auto simp: ret_def simp del: stepAll_Cons)
  have h: "map rt_to (sr_history run') = map rt_to (sr_history run) @ [RECONCILING, RECONCILED, COMPLETE]"
    and c: "sr_state run' = COMPLETE"
    using stepRun_went(1) [OF 1(1)] stepAll_went [OF 1(2)] by (simp_all add: went_def)
  have "FILLED \<notin> set (map rt_to (sr_history run'))"
    using assms(3) unfolding h by (auto simp: run_executed_def list_ex_iff)
  then have "\<not> run_executed run'" unfolding run_executed_def list_ex_iff by (metis image_eqI list.set_map)
  then show "sr_state run' = COMPLETE" "run_verdict run' = (''SENTINEL_RUN_BLOCKED'', ''FAILED'', ''reverted'')"
    using c by (simp_all add: run_verdict_def)
qed

end
