(* ===== verification/Evidence_History.thy ===== *)
theory Evidence_History
  imports Evidence_Model Evidence_Ingest
begin

text \<open>
  What two filings, and the news between them, may say of an asset: \<open>services/evidence/src/history.ts\<close>
  compares the normalised claims of a filing with its successor's and classifies the difference;
  \<open>packages/chaingpt/src/observations.ts\<close> polls a news feed, and
  \<open>services/evidence/src/observations.ts\<close> says what a headline may cause. A claim's value is a JSON
  value; \<open>Date.parse\<close> is the argument \<open>date_ms\<close> and the JSON reader the argument \<open>parse\<close>.
\<close>

section \<open>Two filings\<close>

datatype ChangeClassification =
    NO_MATERIAL_CHANGE
  | MATERIAL_CHANGE_NO_RISK_IMPACT
  | MATERIAL_RISK_IMPROVEMENT
  | MATERIAL_RISK_DETERIORATION

datatype MovedRisk = DETERIORATION | IMPROVEMENT

definition MATERIAL_FIELD_GROUPS :: "(string \<times> string list) list" where
  "MATERIAL_FIELD_GROUPS =
     [(''legal structure'', [''issuer.legalStructure'', ''issuer.jurisdiction'', ''issuer.regulatoryStatus'']),
      (''holder rights'', [''holder.rights'', ''transfer.permissionModel'', ''transfer.restrictions'']),
      (''backing'', [''backing.model'', ''backing.custodian'', ''backing.assets'']),
      (''redemption'', [''redemption.supported'', ''redemption.estimatedWindowSeconds'', ''redemption.gateable'',
                       ''redemption.floorBps'']),
      (''eligibility'', [''eligibility.investorClass'', ''eligibility.jurisdictionRestrictions'']),
      (''corporate actions'', [''corporateActions.mechanism'', ''corporateActions.noticePeriodSeconds''])]"

definition MATERIAL_FIELDS :: "string list" where
  "MATERIAL_FIELDS = concat (map snd MATERIAL_FIELD_GROUPS)"

text \<open>
  A look-up in the table of ranks. A name that every object inherits is found too: it yields no
  number but an object, given here by its name and by the text it is compared with.
\<close>

datatype rank = Rank int | Inherited string string

definition INHERITED :: "(string \<times> string) list" where
  "INHERITED =
     (let native = (\<lambda>f. ''function '' @ f @ ''() { [native code] }'')
      in (''constructor'', native ''Object'') # (''__proto__'', ''[object Object]'')
         # map (\<lambda>f. (f, native f))
             [''toString'', ''toLocaleString'', ''valueOf'', ''hasOwnProperty'', ''isPrototypeOf'',
              ''propertyIsEnumerable'', ''__defineGetter__'', ''__defineSetter__'', ''__lookupGetter__'',
              ''__lookupSetter__''])"

definition PERMISSION_RANK :: "string \<Rightarrow> rank option" where
  "PERMISSION_RANK name =
     (case map_of [(''PERMISSIONLESS'', 0), (''PERMISSIONED'', 1), (''RESTRICTED'', 2)] name of
        Some n \<Rightarrow> Some (Rank n)
      | None \<Rightarrow> map_option (Inherited name) (map_of INHERITED name))"

text \<open>\<open>b > a\<close> on two such results: numbers by size, two objects by their texts, and an object is no number.\<close>

fun rank_less :: "rank \<Rightarrow> rank \<Rightarrow> bool" where
  "rank_less (Rank a) (Rank b) \<longleftrightarrow> a < b"
| "rank_less (Inherited _ a) (Inherited _ b) \<longleftrightarrow> a < b"
| "rank_less _ _ \<longleftrightarrow> False"

text \<open>\<open>String(v)\<close>.\<close>

fun js_text :: "json \<Rightarrow> string" where
  "js_text JNull = ''null''"
| "js_text (JBool b) = (if b then ''true'' else ''false'')"
| "js_text (JNum n) = show_int n"
| "js_text (JStr s) = s"
| "js_text (JArr xs) = join_with '','' (map (\<lambda>x. if x = JNull then [] else js_text x) xs)"
| "js_text (JObj _) = ''[object Object]''"

definition nameOf :: "json \<Rightarrow> string option" where
  "nameOf v = map_option js_text (json_field ''name'' v)"

definition numberOf :: "json \<Rightarrow> int option" where
  "numberOf v =
     (case v of JNum n \<Rightarrow> Some n
      | _ \<Rightarrow> (case json_field ''value'' v of Some (JNum n) \<Rightarrow> Some n | _ \<Rightarrow> None))"

definition boolOf :: "json \<Rightarrow> bool option" where
  "boolOf v =
     (case v of JBool b \<Rightarrow> Some b
      | _ \<Rightarrow> (case json_field ''value'' v of Some (JBool b) \<Rightarrow> Some b | _ \<Rightarrow> None))"

text \<open>
  The direction of a change between two readings of a field: none where either is unreadable or they
  are equal.
\<close>

definition moved_by :: "('a \<Rightarrow> 'a \<Rightarrow> bool) \<Rightarrow> 'a option \<Rightarrow> 'a option \<Rightarrow> MovedRisk option" where
  "moved_by worse a b =
     (case (a, b) of
        (Some x, Some y) \<Rightarrow> if x = y then None else if worse x y then Some DETERIORATION else Some IMPROVEMENT
      | _ \<Rightarrow> None)"

definition rank_of :: "json \<Rightarrow> rank option" where
  "rank_of v = PERMISSION_RANK (case nameOf v of Some n \<Rightarrow> n | None \<Rightarrow> js_text v)"

definition RISK_DIRECTION :: "string \<Rightarrow> json \<Rightarrow> json \<Rightarrow> MovedRisk option" where
  "RISK_DIRECTION field from to =
     (if field = ''redemption.supported'' then moved_by (\<lambda>a b. \<not> b) (boolOf from) (boolOf to)
      else if field = ''redemption.estimatedWindowSeconds'' then moved_by (\<lambda>a b. b > a) (numberOf from) (numberOf to)
      else if field = ''redemption.gateable'' then moved_by (\<lambda>a b. b) (boolOf from) (boolOf to)
      else if field = ''redemption.floorBps'' then moved_by (\<lambda>a b. b < a) (numberOf from) (numberOf to)
      else if field = ''transfer.permissionModel'' then moved_by rank_less (rank_of from) (rank_of to)
      else None)"

datatype ChangeKind = VALUE_CHANGE | COVERAGE_DIFFERENCE

record FieldChange =
  fc_group :: string
  fc_field :: string
  fc_kind :: ChangeKind
  fc_from :: json
  fc_to :: json
  fc_riskDirection :: "MovedRisk option"

record DiffCoverage =
  dc_fieldsInScope :: nat
  dc_fieldsComparedOnBothSides :: nat
  dc_comparedFields :: "string list"
  dc_fieldsAbsentFromBoth :: nat
  dc_absentFields :: "string list"
  dc_note :: string

record FilingSnapshot =
  fs_id :: string
  fs_contentHash :: string
  fs_claims :: "string \<Rightarrow> json option"

record SemanticDiff =
  sd_from :: string
  sd_to :: string
  sd_classification :: ChangeClassification
  sd_materialChanges :: nat
  sd_coverageDifferences :: nat
  sd_changes :: "FieldChange list"
  sd_coverage :: DiffCoverage
  sd_contentHashesDiffer :: bool

definition norm_claim :: "json option \<Rightarrow> string option" where
  "norm_claim v = map_option JSON_stringify v"

definition scoped_fields :: "(string \<times> string) list" where
  "scoped_fields = concat (map (\<lambda>(group, fields). map (Pair group) fields) MATERIAL_FIELD_GROUPS)"

text \<open>The body of the loop of \<open>diffFilings\<close>: what one field adds to the changes.\<close>

definition change_at :: "FilingSnapshot \<Rightarrow> FilingSnapshot \<Rightarrow> string \<times> string \<Rightarrow> FieldChange option" where
  "change_at before after gf =
     (let a = fs_claims before (snd gf); b = fs_claims after (snd gf)
      in if norm_claim a = norm_claim b then None
         else
           let kind = (if a = None \<or> b = None then COVERAGE_DIFFERENCE else VALUE_CHANGE)
           in Some \<lparr>fc_group = fst gf, fc_field = snd gf, fc_kind = kind,
                    fc_from = (case a of Some v \<Rightarrow> v | None \<Rightarrow> JNull), fc_to = (case b of Some v \<Rightarrow> v | None \<Rightarrow> JNull),
                    fc_riskDirection = (if kind = VALUE_CHANGE then RISK_DIRECTION (snd gf) (the a) (the b) else None)\<rparr>)"

definition classify_changes :: "FieldChange list \<Rightarrow> ChangeClassification" where
  "classify_changes cs =
     (if cs = [] then NO_MATERIAL_CHANGE
      else if filter (\<lambda>c. fc_riskDirection c = Some DETERIORATION) cs \<noteq> [] then MATERIAL_RISK_DETERIORATION
      else if filter (\<lambda>c. fc_riskDirection c = Some IMPROVEMENT) cs \<noteq> [] then MATERIAL_RISK_IMPROVEMENT
      else MATERIAL_CHANGE_NO_RISK_IMPACT)"

definition diffFilings :: "FilingSnapshot \<Rightarrow> FilingSnapshot \<Rightarrow> SemanticDiff" where
  "diffFilings before after =
     (let fields = map snd scoped_fields;
          changes = List.map_filter (change_at before after) scoped_fields;
          compared = filter (\<lambda>f. fs_claims before f \<noteq> None \<and> fs_claims after f \<noteq> None) fields;
          absent = filter (\<lambda>f. fs_claims before f = None \<and> fs_claims after f = None) fields;
          valueChanges = filter (\<lambda>c. fc_kind c = VALUE_CHANGE) changes
      in \<lparr>sd_from = fs_id before, sd_to = fs_id after, sd_classification = classify_changes valueChanges,
          sd_materialChanges = length valueChanges, sd_coverageDifferences = length changes - length valueChanges,
          sd_changes = changes,
          sd_coverage = \<lparr>dc_fieldsInScope = length MATERIAL_FIELDS, dc_fieldsComparedOnBothSides = length compared,
             dc_comparedFields = compared, dc_fieldsAbsentFromBoth = length absent, dc_absentFields = absent,
             dc_note = (if length compared = 0 then ''no field was comparable on both sides; this transition asserts nothing''
                        else show_nat (length compared) @ '' of '' @ show_nat (length MATERIAL_FIELDS)
                          @ '' fields were comparable; the rest were absent from both filings and say nothing about stability'')\<rparr>,
          sd_contentHashesDiffer = (fs_contentHash before \<noteq> fs_contentHash after)\<rparr>)"

section \<open>The classification\<close>

text \<open>What a value change is, read off the two filings alone.\<close>

definition value_moved :: "FilingSnapshot \<Rightarrow> FilingSnapshot \<Rightarrow> string \<Rightarrow> json \<Rightarrow> json \<Rightarrow> bool" where
  "value_moved before after field a b \<longleftrightarrow>
     field \<in> set MATERIAL_FIELDS \<and> fs_claims before field = Some a \<and> fs_claims after field = Some b
     \<and> JSON_stringify a \<noteq> JSON_stringify b"

lemma scoped_fields_snd: "map snd scoped_fields = MATERIAL_FIELDS"
  by (simp add: scoped_fields_def MATERIAL_FIELDS_def map_concat comp_def case_prod_beta)

lemma distinct_material: "distinct MATERIAL_FIELDS"
  by (simp add: MATERIAL_FIELDS_def MATERIAL_FIELD_GROUPS_def)

lemma change_at_kind:
  "change_at before after gf = Some c \<Longrightarrow>
     fc_kind c = VALUE_CHANGE \<longleftrightarrow> fs_claims before (snd gf) \<noteq> None \<and> fs_claims after (snd gf) \<noteq> None"
  by (auto simp: change_at_def Let_def split: if_splits)

lemma value_change_iff:
  "change_at before after gf = Some c \<and> fc_kind c = VALUE_CHANGE \<longleftrightarrow>
     (\<exists>a b. fs_claims before (snd gf) = Some a \<and> fs_claims after (snd gf) = Some b \<and> JSON_stringify a \<noteq> JSON_stringify b
       \<and> c = \<lparr>fc_group = fst gf, fc_field = snd gf, fc_kind = VALUE_CHANGE, fc_from = a, fc_to = b,
              fc_riskDirection = RISK_DIRECTION (snd gf) a b\<rparr>)"
  by (cases "fs_claims before (snd gf)"; cases "fs_claims after (snd gf)")
    (auto simp: change_at_def Let_def norm_claim_def split: if_splits)

lemma set_map_filter_some: "set (List.map_filter f xs) = {y. \<exists>x \<in> set xs. f x = Some y}"
  by (induction xs) (auto simp: List.map_filter_simps split: option.splits)

lemma value_changes_set:
  "{c \<in> set (sd_changes (diffFilings before after)). fc_kind c = VALUE_CHANGE} =
     {c. \<exists>gf a b. gf \<in> set scoped_fields \<and> value_moved before after (snd gf) a b
        \<and> c = \<lparr>fc_group = fst gf, fc_field = snd gf, fc_kind = VALUE_CHANGE, fc_from = a, fc_to = b,
              fc_riskDirection = RISK_DIRECTION (snd gf) a b\<rparr>}" (is "?L = ?R")
proof -
  have m: "snd gf \<in> set MATERIAL_FIELDS" if "gf \<in> set scoped_fields" for gf
    using that scoped_fields_snd by (metis image_eqI list.set_map)
  have "?L = {c. \<exists>gf \<in> set scoped_fields. change_at before after gf = Some c \<and> fc_kind c = VALUE_CHANGE}"
    unfolding diffFilings_def Let_def SemanticDiff.select_convs set_map_filter_some by blast
  also have "\<dots> = ?R" unfolding value_change_iff value_moved_def using m by blast
  finally show ?thesis .
qed

lemma classify_changes_iff:
  "classify_changes cs = MATERIAL_RISK_DETERIORATION \<longleftrightarrow> (\<exists>c \<in> set cs. fc_riskDirection c = Some DETERIORATION)"
  "classify_changes cs = NO_MATERIAL_CHANGE \<longleftrightarrow> cs = []"
  "classify_changes cs = MATERIAL_RISK_IMPROVEMENT \<longleftrightarrow>
     (\<exists>c \<in> set cs. fc_riskDirection c = Some IMPROVEMENT) \<and> (\<forall>c \<in> set cs. fc_riskDirection c \<noteq> Some DETERIORATION)"
  by (auto simp: classify_changes_def filter_empty_conv)

lemma moved_by_swap:
  assumes "\<And>x y. x \<noteq> y \<Longrightarrow> worse x y \<longleftrightarrow> \<not> worse y x"
  shows "moved_by worse b a = Some DETERIORATION \<longleftrightarrow> moved_by worse a b = Some IMPROVEMENT"
  using assms [of "the a" "the b"] by (cases a; cases b) (auto simp: moved_by_def)

section \<open>Properties\<close>

lemma filing_deteriorates_iff:
  "sd_classification (diffFilings before after) = MATERIAL_RISK_DETERIORATION \<longleftrightarrow>
     (\<exists>field a b. value_moved before after field a b \<and> RISK_DIRECTION field a b = Some DETERIORATION)"
  "sd_classification (diffFilings before after) = NO_MATERIAL_CHANGE \<longleftrightarrow>
     (\<nexists>field a b. value_moved before after field a b)"
  "sd_classification (diffFilings before after) = MATERIAL_RISK_IMPROVEMENT \<longleftrightarrow>
     (\<exists>field a b. value_moved before after field a b \<and> RISK_DIRECTION field a b = Some IMPROVEMENT)
     \<and> (\<nexists>field a b. value_moved before after field a b \<and> RISK_DIRECTION field a b = Some DETERIORATION)"
proof -
  let ?cs = "filter (\<lambda>c. fc_kind c = VALUE_CHANGE) (sd_changes (diffFilings before after))"
  have cl: "sd_classification (diffFilings before after) = classify_changes ?cs"
    by (simp add: diffFilings_def Let_def)
  have m: "\<exists>gf \<in> set scoped_fields. snd gf = field" if "value_moved before after field a b" for field a b
  proof -
    have "field \<in> snd ` set scoped_fields"
      using that by (simp add: value_moved_def flip: scoped_fields_snd)
    then show ?thesis by auto
  qed
  have s: "set ?cs = {c. \<exists>gf a b. gf \<in> set scoped_fields \<and> value_moved before after (snd gf) a b
        \<and> c = \<lparr>fc_group = fst gf, fc_field = snd gf, fc_kind = VALUE_CHANGE, fc_from = a, fc_to = b,
              fc_riskDirection = RISK_DIRECTION (snd gf) a b\<rparr>}"
    unfolding value_changes_set [symmetric] by auto
  have d: "(\<exists>c \<in> set ?cs. fc_riskDirection c = Some r) \<longleftrightarrow>
      (\<exists>field a b. value_moved before after field a b \<and> RISK_DIRECTION field a b = Some r)" for r
    unfolding s using m by fastforce
  have e: "?cs = [] \<longleftrightarrow> (\<nexists>field a b. value_moved before after field a b)"
  proof -
    have "?cs = [] \<longleftrightarrow> set ?cs = {}" by (simp only: set_empty)
    also have "\<dots> \<longleftrightarrow> (\<nexists>field a b. value_moved before after field a b)" unfolding s using m by fastforce
    finally show ?thesis .
  qed
  show "sd_classification (diffFilings before after) = MATERIAL_RISK_DETERIORATION \<longleftrightarrow>
     (\<exists>field a b. value_moved before after field a b \<and> RISK_DIRECTION field a b = Some DETERIORATION)"
    unfolding cl classify_changes_iff using d by simp
  show "sd_classification (diffFilings before after) = NO_MATERIAL_CHANGE \<longleftrightarrow>
     (\<nexists>field a b. value_moved before after field a b)"
    unfolding cl classify_changes_iff using e by simp
  show "sd_classification (diffFilings before after) = MATERIAL_RISK_IMPROVEMENT \<longleftrightarrow>
     (\<exists>field a b. value_moved before after field a b \<and> RISK_DIRECTION field a b = Some IMPROVEMENT)
     \<and> (\<nexists>field a b. value_moved before after field a b \<and> RISK_DIRECTION field a b = Some DETERIORATION)"
    unfolding cl classify_changes_iff using d [of DETERIORATION] d [of IMPROVEMENT] by blast
qed

text \<open>A permission model is plainly ranked when its rank, if any, is one of the table's own.\<close>

definition plainly_ranked :: "FilingSnapshot \<Rightarrow> bool" where
  "plainly_ranked f \<longleftrightarrow>
     (case fs_claims f ''transfer.permissionModel'' of
        None \<Rightarrow> True
      | Some v \<Rightarrow> (case rank_of v of Some (Inherited _ _) \<Rightarrow> False | _ \<Rightarrow> True))"

lemma direction_swaps:
  assumes "field = ''transfer.permissionModel'' \<Longrightarrow> \<nexists>n t. rank_of a = Some (Inherited n t)"
    and "field = ''transfer.permissionModel'' \<Longrightarrow> \<nexists>n t. rank_of b = Some (Inherited n t)"
  shows "RISK_DIRECTION field b a = Some DETERIORATION \<longleftrightarrow> RISK_DIRECTION field a b = Some IMPROVEMENT"
proof (cases "field = ''transfer.permissionModel''")
  case True
  have r: "x = None \<or> (\<exists>k. x = Some (Rank k))" if "\<nexists>n t. x = Some (Inherited n t)" for x
    using that by (cases x rule: option.exhaust) (auto, metis rank.exhaust)
  show ?thesis
    using r [OF assms(1) [OF True]] r [OF assms(2) [OF True]] True
    by (auto simp: RISK_DIRECTION_def moved_by_def split: if_splits)
next
  case False
  have s: "moved_by (\<lambda>a b. \<not> b) x y = Some DETERIORATION \<longleftrightarrow> moved_by (\<lambda>a b. \<not> b) y x = Some IMPROVEMENT"
    "moved_by (\<lambda>a b. b) x y = Some DETERIORATION \<longleftrightarrow> moved_by (\<lambda>a b. b) y x = Some IMPROVEMENT"
    "moved_by (\<lambda>a b. b > a) u v = Some DETERIORATION \<longleftrightarrow> moved_by (\<lambda>a b. b > a) v u = Some IMPROVEMENT"
    "moved_by (\<lambda>a b. b < a) u v = Some DETERIORATION \<longleftrightarrow> moved_by (\<lambda>a b. b < a) v u = Some IMPROVEMENT"
    for x y :: "bool option" and u v :: "int option"
    by (rule moved_by_swap, fastforce; fail)+
  show ?thesis
    unfolding RISK_DIRECTION_def using False by (simp add: s)
qed

lemma coverage_changes:
  assumes "c \<in> set (sd_changes (diffFilings before after))"
  shows "(fc_kind c = COVERAGE_DIFFERENCE \<longleftrightarrow> (fs_claims before (fc_field c) = None) \<noteq> (fs_claims after (fc_field c) = None))
    \<and> (fc_kind c = COVERAGE_DIFFERENCE \<longrightarrow> fc_riskDirection c = None)"
proof -
  obtain gf where "change_at before after gf = Some c"
    using assms by (auto simp: diffFilings_def Let_def set_map_filter_some)
  then show ?thesis by (auto simp: change_at_def Let_def norm_claim_def split: if_splits)
qed

text \<open>
  When a move of a field is for the worse, written out: redemption is withdrawn, the wait for it grows, a
  gate is added, the floor falls, or the permission model goes to a more restrictive one of the three
  it knows.
\<close>

definition model_name :: "json \<Rightarrow> string" where
  "model_name v = (case nameOf v of Some n \<Rightarrow> n | None \<Rightarrow> js_text v)"

definition worse_reading :: "string \<Rightarrow> json \<Rightarrow> json \<Rightarrow> bool" where
  "worse_reading field from to \<longleftrightarrow>
     field = ''redemption.supported'' \<and> boolOf from = Some True \<and> boolOf to = Some False
   \<or> field = ''redemption.gateable'' \<and> boolOf from = Some False \<and> boolOf to = Some True
   \<or> field = ''redemption.estimatedWindowSeconds''
       \<and> (\<exists>m n. numberOf from = Some m \<and> numberOf to = Some n \<and> m < n)
   \<or> field = ''redemption.floorBps'' \<and> (\<exists>m n. numberOf from = Some m \<and> numberOf to = Some n \<and> n < m)
   \<or> field = ''transfer.permissionModel'' \<and> (model_name from, model_name to) \<in>
       {(''PERMISSIONLESS'', ''PERMISSIONED''), (''PERMISSIONLESS'', ''RESTRICTED''), (''PERMISSIONED'', ''RESTRICTED'')}"

lemma rank_plain:
  "rank_of v = Some (Rank n) \<longleftrightarrow> (model_name v, n) \<in> {(''PERMISSIONLESS'', 0), (''PERMISSIONED'', 1), (''RESTRICTED'', 2)}"
  by (auto simp: rank_of_def model_name_def PERMISSION_RANK_def split: option.splits if_splits)

lemma permission_worse:
  assumes "\<nexists>n t. rank_of a = Some (Inherited n t)" "\<nexists>n t. rank_of b = Some (Inherited n t)"
  shows "moved_by rank_less (rank_of a) (rank_of b) = Some DETERIORATION \<longleftrightarrow>
    (model_name a, model_name b) \<in>
      {(''PERMISSIONLESS'', ''PERMISSIONED''), (''PERMISSIONLESS'', ''RESTRICTED''), (''PERMISSIONED'', ''RESTRICTED'')}"
proof -
  have ranked: "x = None \<or> (\<exists>k. x = Some (Rank k))" if "\<nexists>n t. x = Some (Inherited n t)" for x
    using that by (cases x rule: option.exhaust) (auto, metis rank.exhaust)
  have "moved_by rank_less (rank_of a) (rank_of b) = Some DETERIORATION \<longleftrightarrow>
    (\<exists>m n. rank_of a = Some (Rank m) \<and> rank_of b = Some (Rank n) \<and> m < n)"
    using ranked [OF assms(1)] ranked [OF assms(2)] by (auto simp: moved_by_def split: if_splits)
  then show ?thesis unfolding rank_plain by auto
qed

lemma direction_worse:
  assumes "field = ''transfer.permissionModel'' \<Longrightarrow> \<nexists>n t. rank_of a = Some (Inherited n t)"
    and "field = ''transfer.permissionModel'' \<Longrightarrow> \<nexists>n t. rank_of b = Some (Inherited n t)"
  shows "RISK_DIRECTION field a b = Some DETERIORATION \<longleftrightarrow> worse_reading field a b"
proof (cases "field = ''transfer.permissionModel''")
  case True
  then show ?thesis using permission_worse [OF assms(1,2)] by (simp add: RISK_DIRECTION_def worse_reading_def)
next
  case False
  then show ?thesis
    by (auto simp: RISK_DIRECTION_def worse_reading_def moved_by_def split: option.splits if_splits)
qed

lemma worse_moves: "worse_reading field a b \<Longrightarrow> field \<in> set MATERIAL_FIELDS \<and> a \<noteq> b"
  by (auto simp: worse_reading_def MATERIAL_FIELDS_def MATERIAL_FIELD_GROUPS_def)

text \<open>A field both filings state, with different texts.\<close>

definition moved :: "FilingSnapshot \<Rightarrow> FilingSnapshot \<Rightarrow> string \<Rightarrow> json \<Rightarrow> json \<Rightarrow> bool" where
  "moved before after field a b \<longleftrightarrow> fs_claims before field = Some a \<and> fs_claims after field = Some b
     \<and> JSON_stringify a \<noteq> JSON_stringify b"

lemma plain_direction:
  assumes "plainly_ranked before" "plainly_ranked after" "moved before after field a b"
  shows "RISK_DIRECTION field a b = Some DETERIORATION \<longleftrightarrow> worse_reading field a b"
    "RISK_DIRECTION field a b = Some IMPROVEMENT \<longleftrightarrow> worse_reading field b a"
proof -
  have p: "\<nexists>n t. rank_of v = Some (Inherited n t)"
    if "plainly_ranked f" "fs_claims f field = Some v" "field = ''transfer.permissionModel''" for f v
    using that by (auto simp: plainly_ranked_def)
  have v: "fs_claims before field = Some a" "fs_claims after field = Some b" using assms(3) by (simp_all add: moved_def)
  note pa = p [OF assms(1) v(1)] and pb = p [OF assms(2) v(2)]
  show "RISK_DIRECTION field a b = Some DETERIORATION \<longleftrightarrow> worse_reading field a b"
    by (rule direction_worse [OF pa pb])
  show "RISK_DIRECTION field a b = Some IMPROVEMENT \<longleftrightarrow> worse_reading field b a"
    using direction_swaps [OF pa pb] direction_worse [OF pb pa] by simp
qed

text \<open>
  C18: What the comparison of two filings reports. A deterioration is never hidden by improvements
  beside it, and never invented: the classification is one exactly when both filings state the support of
  redemption and it is withdrawn, or its window and it grows, or a gate and it is added, or the floor and
  it falls, or the permission model and it goes from one of the names PERMISSIONLESS, PERMISSIONED,
  RESTRICTED to a later one. No other field has a direction, nor has a permission model under any other name, OPEN
  among them. It is an improvement exactly when there is no such move but one in the opposite
  direction. No change is reported exactly when no compared field that both state has moved, so a field that
  one filing leaves out changes no classification and has no direction. The permission models are plainly
  ranked: their names are not those of properties every object inherits.
\<close>

theorem deterioration_never_hidden:
  assumes "plainly_ranked before" "plainly_ranked after"
  shows "(sd_classification (diffFilings before after) = MATERIAL_RISK_DETERIORATION \<longleftrightarrow>
      (\<exists>field a b. moved before after field a b \<and> worse_reading field a b))
    \<and> (sd_classification (diffFilings before after) = MATERIAL_RISK_IMPROVEMENT \<longleftrightarrow>
      (\<exists>field a b. moved before after field a b \<and> worse_reading field b a)
      \<and> (\<nexists>field a b. moved before after field a b \<and> worse_reading field a b))
    \<and> (sd_classification (diffFilings before after) = NO_MATERIAL_CHANGE \<longleftrightarrow>
      (\<nexists>field a b. value_moved before after field a b))
    \<and> list_all (\<lambda>c. (fc_kind c = COVERAGE_DIFFERENCE) =
           ((fs_claims before (fc_field c) = None) \<noteq> (fs_claims after (fc_field c) = None))
         \<and> (fc_kind c = COVERAGE_DIFFERENCE \<longrightarrow> fc_riskDirection c = None)) (sd_changes (diffFilings before after))"
proof -
  have d: "value_moved before after field a b \<and> RISK_DIRECTION field a b = Some DETERIORATION \<longleftrightarrow>
      moved before after field a b \<and> worse_reading field a b"
    "value_moved before after field a b \<and> RISK_DIRECTION field a b = Some IMPROVEMENT \<longleftrightarrow>
      moved before after field a b \<and> worse_reading field b a" for field a b
    using plain_direction [OF assms, of field a b] worse_moves [of field a b] worse_moves [of field b a]
    by (auto simp: value_moved_def moved_def)
  show ?thesis
    using filing_deteriorates_iff [of before after] coverage_changes [of _ before after]
    unfolding d by (simp add: list_all_iff)
qed

definition filing :: "(string \<times> json) list \<Rightarrow> FilingSnapshot" where
  "filing cs = \<lparr>fs_id = ''f'', fs_contentHash = ''h'', fs_claims = map_of cs\<rparr>"

definition a_bool :: "bool \<Rightarrow> json" where
  "a_bool b = JObj [(''kind'', JStr ''bool''), (''value'', JBool b)]"

text \<open>A filing that shortens the window while it adds a gate.\<close>

definition earlier :: FilingSnapshot where
  "earlier = filing [(''redemption.gateable'', a_bool False), (''redemption.estimatedWindowSeconds'', JNum 604800)]"

definition later :: FilingSnapshot where
  "later = filing [(''redemption.gateable'', a_bool True), (''redemption.estimatedWindowSeconds'', JNum 172800)]"

theorem deterioration_never_hidden_witness:
  "plainly_ranked earlier \<and> plainly_ranked later
   \<and> sd_classification (diffFilings earlier later) = MATERIAL_RISK_DETERIORATION"
proof -
  have p: "plainly_ranked earlier" "plainly_ranked later"
    by (simp_all add: plainly_ranked_def earlier_def later_def filing_def)
  have "moved earlier later ''redemption.gateable'' (a_bool False) (a_bool True)"
    by (simp add: moved_def earlier_def later_def filing_def MATERIAL_FIELDS_def MATERIAL_FIELD_GROUPS_def a_bool_def)
  moreover have "worse_reading ''redemption.gateable'' (a_bool False) (a_bool True)"
    by (simp add: worse_reading_def boolOf_def a_bool_def json_field_def)
  ultimately show ?thesis
    using deterioration_never_hidden [OF p] p by blast
qed

text \<open>
  The parser names an open permission model \<open>OPEN\<close>, which the table of ranks does not know: a filing
  that restricts an open asset is a change with no risk impact.
\<close>

definition a_model :: "int \<Rightarrow> string \<Rightarrow> json" where
  "a_model n name = JObj [(''kind'', JStr ''enum''), (''ordinal'', JNum n), (''name'', JStr name)]"

lemma open_to_permissioned_has_no_impact:
  "sd_classification (diffFilings (filing [(''transfer.permissionModel'', a_model 0 ''OPEN'')])
     (filing [(''transfer.permissionModel'', a_model 1 ''PERMISSIONED'')])) = MATERIAL_CHANGE_NO_RISK_IMPACT"
  by (simp add: diffFilings_def Let_def scoped_fields_def MATERIAL_FIELD_GROUPS_def List.map_filter_simps change_at_def
      norm_claim_def filing_def a_model_def RISK_DIRECTION_def rank_of_def nameOf_def json_field_def PERMISSION_RANK_def
      INHERITED_def moved_by_def classify_changes_def json_string_def json_escape_def)

text \<open>
  The names under which the extractors report the issuer's jurisdiction, the custodian and the
  holder's rights are not the names compared: a change in them goes unreported.
\<close>

lemma extracted_names_not_compared:
  "''legal.issuerJurisdiction'' \<in> set EXTRACTABLE_FIELDS" "''legal.issuerJurisdiction'' \<notin> set MATERIAL_FIELDS"
  "''backing.custodianName'' \<in> set EXTRACTABLE_FIELDS" "''backing.custodianName'' \<notin> set MATERIAL_FIELDS"
  "''legal.holderRights'' \<in> set EXTRACTABLE_FIELDS" "''legal.holderRights'' \<notin> set MATERIAL_FIELDS"
  by (simp_all add: EXTRACTABLE_FIELDS_def FIELD_KINDS_def MATERIAL_FIELDS_def MATERIAL_FIELD_GROUPS_def)

section \<open>News\<close>

record Observation =
  ob_observationId :: string
  ob_sourceClass :: nat
  ob_headline :: string
  ob_uri :: string
  ob_observedAt :: int
  ob_assetIds :: "string list"

definition observationSchema :: "Observation \<Rightarrow> bool" where
  "observationSchema o' \<longleftrightarrow> ob_observationId o' \<noteq> [] \<and> ob_sourceClass o' \<in> {0, 1, 2} \<and> ob_headline o' \<noteq> []
     \<and> ob_uri o' \<noteq> [] \<and> unixSecondsSchema (ob_observedAt o') \<and> list_all hex32Schema (ob_assetIds o')"

record ObservationQuery =
  oq_topics :: "string list"
  oq_assetIds :: "string list"
  oq_since :: int
  oq_limit :: int

datatype poll_error =
    ClientFailed chat_error
  | NotJson string
  | TypeError
  | NotLowTrust

text \<open>\<open>getJson\<close>: one request, spaced but not retried.\<close>

definition getJson :: "client \<Rightarrow> json_parser \<Rightarrow> string \<Rightarrow> net \<Rightarrow> (poll_error + json) \<times> net" where
  "getJson c parse path n =
     (if \<not> client_available c then (Inl (ClientFailed KeyRequired), n)
      else
        (case send_request c (units path) (enqueue_wait c n) of
           (TransportThrew m, n') \<Rightarrow> (Inl (ClientFailed (TransportError m)), n')
         | (Responded status body, n') \<Rightarrow>
             (if \<not> (200 \<le> status \<and> status \<le> 299) then Inl (ClientFailed (HttpError status body))
              else (case parse body of Inl e \<Rightarrow> Inl (NotJson e) | Inr j \<Rightarrow> Inr j), n')))"

text \<open>\<open>a ?? b\<close> of two properties, and the conditions under which a date is missing.\<close>

definition coalesce :: "json option \<Rightarrow> json option \<Rightarrow> json option" where
  "coalesce a b = (case a of None \<Rightarrow> b | Some JNull \<Rightarrow> b | _ \<Rightarrow> a)"

fun falsy :: "json option \<Rightarrow> bool" where
  "falsy None = True"
| "falsy (Some JNull) = True"
| "falsy (Some (JBool b)) = (\<not> b)"
| "falsy (Some (JNum n)) = (n = 0)"
| "falsy (Some (JStr s)) = (s = [])"
| "falsy (Some _) = False"

definition toUnixSeconds :: "(string \<Rightarrow> int option) \<Rightarrow> json option \<Rightarrow> int" where
  "toUnixSeconds date_ms stamp =
     (if falsy stamp then 0
      else case date_ms (js_text (the stamp)) of None \<Rightarrow> 0 | Some t \<Rightarrow> t div 1000)"

definition matchesTopic :: "(string \<Rightarrow> string) \<Rightarrow> json \<Rightarrow> string list \<Rightarrow> bool" where
  "matchesTopic lower item topics =
     (let text_of = (\<lambda>k. case json_field k item of Some (JStr s) \<Rightarrow> [s] | _ \<Rightarrow> []);
          tags = JSON_stringify (case coalesce (json_field ''newsTags'' item) (Some (JStr [])) of Some j \<Rightarrow> j | None \<Rightarrow> JNull);
          hay = lower (join_with '' '' (text_of ''title'' @ text_of ''description'' @ text_of ''category''
                                        @ text_of ''token'' @ [tags]))
      in list_ex (\<lambda>t. sublist (lower t) hay) topics)"

definition item_id :: "json \<Rightarrow> string" where
  "item_id item = (case json_field ''id'' item of None \<Rightarrow> ''undefined'' | Some j \<Rightarrow> js_text j)"

definition NEWS :: nat where "NEWS = 1"

definition candidate_observation :: "json \<Rightarrow> string \<Rightarrow> int \<Rightarrow> Observation" where
  "candidate_observation item headline observedAt =
     \<lparr>ob_observationId = ''chaingpt-news:'' @ item_id item, ob_sourceClass = NEWS, ob_headline = headline,
      ob_uri = ''https://api.chaingpt.org/news#'' @ item_id item, ob_observedAt = observedAt, ob_assetIds = []\<rparr>"

text \<open>The body of the loop of \<open>poll\<close>: the observation an article becomes, or none.\<close>

definition observe_item ::
  "(string \<Rightarrow> string) \<Rightarrow> (string \<Rightarrow> int option) \<Rightarrow> ObservationQuery \<Rightarrow> json \<Rightarrow> poll_error + Observation option" where
  "observe_item lower date_ms q item =
     (case (item, coalesce (json_field ''title'' item) (Some (JStr []))) of
        (JNull, _) \<Rightarrow> Inl TypeError
      | (_, Some (JStr title)) \<Rightarrow>
          let headline = trim title;
              observedAt = toUnixSeconds date_ms (coalesce (json_field ''pubDate'' item) (json_field ''createdAt'' item));
              o' = candidate_observation item headline observedAt
          in if headline = [] then Inr None
             else if observedAt < oq_since q then Inr None
             else if length (oq_topics q) > 0 \<and> \<not> matchesTopic lower item (oq_topics q) then Inr None
             else if \<not> observationSchema o' then Inr None
             else if \<not> isLowTrust (ob_sourceClass o') then Inl NotLowTrust
             else Inr (Some o')
      | _ \<Rightarrow> Inl TypeError)"

text \<open>The articles of a response; the characters of a text are articles without a title.\<close>

definition response_items :: "json \<Rightarrow> poll_error + json list" where
  "response_items j =
     (if j = JNull then Inl TypeError
      else
        (case coalesce (json_field ''data'' j) (Some (JArr [])) of
           Some (JArr xs) \<Rightarrow> Inr xs
         | Some (JStr s) \<Rightarrow> Inr (map (\<lambda>c. JStr [c]) s)
         | _ \<Rightarrow> Inl TypeError))"

definition poll_limit :: "ObservationQuery \<Rightarrow> int" where
  "poll_limit q = max 1 (min (if oq_limit q = 0 then 25 else oq_limit q) 100)"

definition observe_all ::
  "(string \<Rightarrow> string) \<Rightarrow> (string \<Rightarrow> int option) \<Rightarrow> ObservationQuery \<Rightarrow> json \<Rightarrow> poll_error + Observation list" where
  "observe_all lower date_ms q j =
     (case response_items j of
        Inl e \<Rightarrow> Inl e
      | Inr items \<Rightarrow>
          (case mapR (observe_item lower date_ms q) items of
             Inl e \<Rightarrow> Inl e
           | Inr os \<Rightarrow> Inr (List.map_filter id os)))"

definition poll ::
  "client \<Rightarrow> json_parser \<Rightarrow> (string \<Rightarrow> string) \<Rightarrow> (string \<Rightarrow> int option) \<Rightarrow> ObservationQuery \<Rightarrow> net
     \<Rightarrow> (poll_error + Observation list) \<times> net" where
  "poll c parse lower date_ms q n =
     (case getJson c parse (''/news?limit='' @ show_int (poll_limit q)) n of
        (Inl e, n') \<Rightarrow> (Inl e, n')
      | (Inr j, n') \<Rightarrow> (observe_all lower date_ms q j, n'))"

section \<open>What an observation may cause\<close>

datatype ReviewActionKind = REVIEW_REQUIRED | PASSPORT_REFRESH

record ReviewAction =
  ra_action :: ReviewActionKind
  ra_observationId :: string
  ra_headline :: string
  ra_uri :: string
  ra_observedAt :: int
  ra_assetIds :: "string list"
  ra_reason :: string

datatype review_error = ObservationNotLowTrust string nat

fun review_message :: "review_error \<Rightarrow> string" where
  "review_message (ObservationNotLowTrust i c) =
     ''observation '' @ i @ '' carries sourceClass '' @ show_nat c @ '' (''
     @ (if c < length SOURCE_CLASS_NAMES then SOURCE_CLASS_NAMES ! c else ''undefined'')
     @ ''), which is not a low-trust class. ''
     @ ''An observation is never promoted to a claim; a document of that class must go through ingest.''"

definition BSLASH :: string where "BSLASH = [CHR 0x5C]"

text \<open>Each trigger with its source text, as \<open>String\<close> prints it.\<close>

definition trigger_word :: "string \<Rightarrow> string \<times> regex" where
  "trigger_word w = (''/'' @ BSLASH @ ''b'' @ w @ ''/i'', seq [Boundary, Lit w])"

definition REFRESH_TRIGGERS :: "(string \<times> regex) list" where
  "REFRESH_TRIGGERS =
     map trigger_word [''redemption'', ''redeem'', ''suspend'', ''halt'']
     @ [(''/'' @ BSLASH @ ''bgate[sd]?'' @ BSLASH @ ''b/i'', seq [Boundary, Lit ''gate'', Maybe (alt [''s'', ''d'']), Boundary])]
     @ map trigger_word [''default'', ''delist'', ''prospectus'', ''regulat'']
     @ [(''/'' @ BSLASH @ ''bwind[- ]?down/i'', seq [Boundary, Lit ''wind'', Maybe (alt [''-'', '' '']), Lit ''down''])]
     @ map trigger_word [''liquidat'', ''issuer'', ''custodian'', ''depeg'']"

definition refresh_trigger :: "string \<Rightarrow> string option" where
  "refresh_trigger headline =
     map_option fst (List.find (\<lambda>(_, p). text_match p headline \<noteq> None) REFRESH_TRIGGERS)"

definition review_action :: "string list \<Rightarrow> Observation \<Rightarrow> review_error + ReviewAction" where
  "review_action watched o' =
     (if \<not> isLowTrust (ob_sourceClass o') then Inl (ObservationNotLowTrust (ob_observationId o') (ob_sourceClass o'))
      else
        let trigger = refresh_trigger (ob_headline o')
        in Inr \<lparr>ra_action = (if trigger \<noteq> None then PASSPORT_REFRESH else REVIEW_REQUIRED),
                ra_observationId = ob_observationId o', ra_headline = ob_headline o', ra_uri = ob_uri o',
                ra_observedAt = ob_observedAt o', ra_assetIds = watched,
                ra_reason = (case trigger of
                    Some t \<Rightarrow> ''headline matched '' @ t @ ''; re-read the authoritative source. The re-read may ''
                      @ ''change a claim. This observation cannot.''
                  | None \<Rightarrow> ''low-trust observation recorded for human review; it changes no claim and no limit'')\<rparr>)"

definition reviewActionsFor :: "Observation list \<Rightarrow> string list \<Rightarrow> review_error + ReviewAction list" where
  "reviewActionsFor observations watched = mapR (review_action watched) observations"

section \<open>Properties of the low-trust channel\<close>

lemma observe_item_ok:
  assumes "observe_item lower date_ms q item = Inr (Some o')"
  shows "isLowTrust (ob_sourceClass o') \<and> ob_assetIds o' = [] \<and> observationSchema o' \<and> oq_since q \<le> ob_observedAt o'
    \<and> ob_observationId o' = ''chaingpt-news:'' @ item_id item"
proof -
  obtain h t where o: "o' = candidate_observation item h t" and s: "observationSchema o'" "isLowTrust (ob_sourceClass o')"
    and t: "oq_since q \<le> t"
    using assms by (auto simp: observe_item_def Let_def split: json.splits option.splits if_splits)
  show ?thesis using s t by (simp add: o candidate_observation_def)
qed

lemma observe_all_ok:
  assumes "observe_all lower date_ms q j = Inr os" "o' \<in> set os"
  shows "isLowTrust (ob_sourceClass o') \<and> ob_assetIds o' = [] \<and> observationSchema o' \<and> oq_since q \<le> ob_observedAt o'"
proof -
  obtain items rs where m: "mapR (observe_item lower date_ms q) items = Inr rs" and os: "os = List.map_filter id rs"
    using assms(1) by (auto simp: observe_all_def split: sum.splits)
  have "Some o' \<in> set rs" using assms(2) os by (auto simp: set_map_filter_some)
  then obtain item where "observe_item lower date_ms q item = Inr (Some o')"
    using m by (induction items arbitrary: rs) (auto simp: bindR_def split: sum.splits)
  then show ?thesis using observe_item_ok by blast
qed

lemma getJson_sends_one:
  assumes "getJson c parse path n = (r, n')" "client_available c"
  shows "\<exists>t. nt_sent n' = nt_sent n @ [(t, units path)]"
proof -
  obtain a n2 where s: "send_request c (units path) (enqueue_wait c n) = (a, n2)" by force
  have "nt_sent (enqueue_wait c n) = nt_sent n" by (simp add: enqueue_wait_def Let_def)
  then have "nt_sent n2 = nt_sent n @ [(nt_now (enqueue_wait c n), units path)]"
    using send_request_effect [OF s] by simp
  moreover have "n' = n2" using assms s by (auto simp: getJson_def split: answer.splits if_splits)
  ultimately show ?thesis by blast
qed

lemma reviews_of_low_trust:
  assumes "list_all (\<lambda>o'. isLowTrust (ob_sourceClass o')) os"
  shows "\<exists>as. reviewActionsFor os watched = Inr as
    \<and> list_all2 (\<lambda>o' a. ra_observationId a = ob_observationId o' \<and> ra_assetIds a = watched
         \<and> (ra_action a = PASSPORT_REFRESH \<longleftrightarrow> refresh_trigger (ob_headline o') \<noteq> None)) os as"
  using assms
proof (induction os)
  case Nil
  then show ?case by (simp add: reviewActionsFor_def)
next
  case (Cons o' os)
  then obtain as where as: "mapR (review_action watched) os = Inr as"
    and rel: "list_all2 (\<lambda>o' a. ra_observationId a = ob_observationId o' \<and> ra_assetIds a = watched
         \<and> (ra_action a = PASSPORT_REFRESH \<longleftrightarrow> refresh_trigger (ob_headline o') \<noteq> None)) os as"
    by (auto simp: reviewActionsFor_def)
  obtain a where a: "review_action watched o' = Inr a" "ra_observationId a = ob_observationId o'" "ra_assetIds a = watched"
      "ra_action a = PASSPORT_REFRESH \<longleftrightarrow> refresh_trigger (ob_headline o') \<noteq> None"
    using Cons.prems by (simp add: review_action_def Let_def)
  show ?case using as rel a by (simp add: reviewActionsFor_def bindR_def)
qed

text \<open>
  C25: A poisoned feed cannot make the system lend more. Whatever a feed answers, every observation a
  poll returns is of a low-trust class, names no asset and is recent enough; the whole poll is one
  request. Each becomes exactly one review action, about the watched assets only and a refresh exactly
  when its headline names a trigger; and the ingest refuses a document of its class, leaving
  its store untouched.
\<close>

theorem news_never_becomes_claim:
  assumes "poll c parse lower date_ms q n = (Inr os, n')"
  shows "list_all (\<lambda>o'. isLowTrust (ob_sourceClass o') \<and> ob_assetIds o' = [] \<and> oq_since q \<le> ob_observedAt o') os
    \<and> length (nt_sent n') = length (nt_sent n) + 1
    \<and> (\<exists>as. reviewActionsFor os watched = Inr as
         \<and> list_all2 (\<lambda>o' a. ra_observationId a = ob_observationId o' \<and> ra_assetIds a = watched
              \<and> (ra_action a = PASSPORT_REFRESH \<longleftrightarrow> refresh_trigger (ob_headline o') \<noteq> None)) os as)
    \<and> list_all (\<lambda>o'. ingest x put aborted now (req\<lparr>iq_sourceClass := ob_sourceClass o'\<rparr>) st
                      = (Inl (LowTrustSourceRejected (ob_sourceClass o')), st)) os"
proof -
  obtain j where g: "getJson c parse (''/news?limit='' @ show_int (poll_limit q)) n = (Inr j, n')"
    and os: "observe_all lower date_ms q j = Inr os"
    using assms by (auto simp: poll_def split: prod.splits sum.splits)
  have av: "client_available c" using g by (auto simp: getJson_def split: if_splits)
  have low: "list_all (\<lambda>o'. isLowTrust (ob_sourceClass o')) os"
    using observe_all_ok [OF os] by (simp add: list_all_iff)
  have "list_all (\<lambda>o'. ingest x put aborted now (req\<lparr>iq_sourceClass := ob_sourceClass o'\<rparr>) st
                      = (Inl (LowTrustSourceRejected (ob_sourceClass o')), st)) os"
    using low by (simp add: list_all_iff ingest_def)
  moreover have "list_all (\<lambda>o'. isLowTrust (ob_sourceClass o') \<and> ob_assetIds o' = [] \<and> oq_since q \<le> ob_observedAt o') os"
    using observe_all_ok [OF os] by (simp add: list_all_iff)
  moreover have "length (nt_sent n') = length (nt_sent n) + 1" using getJson_sends_one [OF g av] by auto
  ultimately show ?thesis using reviews_of_low_trust [OF low] by blast
qed

text \<open>A feed with one article of note.\<close>

definition sample_feed :: json where
  "sample_feed = JObj [(''data'', JArr [JObj [(''id'', JNum 7), (''title'', JStr ''Gates'')]])]"

definition any_news :: ObservationQuery where
  "any_news = \<lparr>oq_topics = [], oq_assetIds = [], oq_since = 0, oq_limit = 0\<rparr>"

lemma sample_observed:
  "observe_all id (\<lambda>_. None) any_news sample_feed =
     Inr [candidate_observation (JObj [(''id'', JNum 7), (''title'', JStr ''Gates'')]) ''Gates'' 0]"
proof -
  have t: "trim ''Gates'' = ''Gates''" by (simp add: trim_def is_ws_def)
  show ?thesis
    by (simp add: observe_all_def response_items_def sample_feed_def coalesce_def json_field_def observe_item_def
        Let_def t toUnixSeconds_def any_news_def observationSchema_def candidate_observation_def NEWS_def
        unixSecondsSchema_def isLowTrust_def LOW_TRUST_CLASSES_def bindR_def List.map_filter_simps)
qed

theorem news_never_becomes_claim_witness:
  "\<exists>os n' as. poll quick_client (\<lambda>_. Inr sample_feed) id (\<lambda>_. None) any_news one_answer = (Inr os, n') \<and> length os = 1
     \<and> length (nt_sent n') = 1 \<and> reviewActionsFor os [''asset''] = Inr as \<and> length as = 1"
proof -
  have av: "client_available quick_client" by (simp add: client_available_def quick_client_def)
  have "\<exists>n2. send_request quick_client q (enqueue_wait quick_client one_answer) = (Responded 201 ''{}'', n2)" for q
    by (simp add: send_request_def enqueue_wait_def Let_def one_answer_def request_limit_def quick_client_def)
  then obtain n' where "send_request quick_client (units (''/news?limit='' @ show_int (poll_limit any_news)))
      (enqueue_wait quick_client one_answer) = (Responded 201 ''{}'', n')"
    by blast
  then have g: "getJson quick_client (\<lambda>_. Inr sample_feed) (''/news?limit='' @ show_int (poll_limit any_news)) one_answer
      = (Inr sample_feed, n')"
    by (simp only: getJson_def av) simp
  have p: "poll quick_client (\<lambda>_. Inr sample_feed) id (\<lambda>_. None) any_news one_answer =
      (Inr [candidate_observation (JObj [(''id'', JNum 7), (''title'', JStr ''Gates'')]) ''Gates'' 0], n')"
    unfolding poll_def g by (simp add: sample_observed)
  show ?thesis
    using news_never_becomes_claim [OF p, where watched = "[''asset'']"] p
    by (force simp: one_answer_def dest: list_all2_lengthD)
qed

end
