(* ===== verification/Institutional_Auth.thy ===== *)
theory Institutional_Auth
  imports Js_Json Evidence_Store
begin

text \<open>
  Who may ask for a substitution: the sign-in of \<open>apps/web/lib/institutional-auth.ts\<close>, its routes under
  \<open>apps/web/app/api/auth\<close>, and the database functions they call
  (\<open>supabase/migrations/202609100004\<close> to \<open>202609100006\<close>). A table is the list of its rows; where a query
  takes any one row, the model takes the first. Addresses and signatures (\<open>isAddress\<close>, \<open>verifyMessage\<close>
  of viem), the digest, the origin of a URL and the text of an instant are arguments, in \<open>auth_env\<close>;
  identifiers and nonces are drawn by the caller.
\<close>

section \<open>The database\<close>

record Organization =
  og_id :: string
  og_slug :: string
  og_display_name :: string
  og_environment :: string

record Membership =
  mb_organization_id :: string
  mb_wallet_address :: string
  mb_role :: string
  mb_status :: string
  mb_revoked_at :: "int option"

record AuthChallenge =
  ch_id :: string
  ch_wallet_address :: string
  ch_nonce_hash :: string
  ch_domain :: string
  ch_uri :: string
  ch_chain_id :: int
  ch_statement :: string
  ch_issued_at :: int
  ch_expires_at :: int
  ch_consumed_at :: "int option"

record SessionRow =
  sr_id :: string
  sr_token_hash :: string
  sr_wallet_address :: string
  sr_organization_id :: string
  sr_expires_at :: int
  sr_revoked_at :: "int option"

record AuthSession =
  as_session_id :: string
  as_wallet_address :: string
  as_organization_id :: string
  as_organization_slug :: string
  as_organization_display_name :: string
  as_membership_role :: string
  as_expires_at :: int

record auth_db =
  ad_organizations :: "Organization list"
  ad_memberships :: "Membership list"
  ad_challenges :: "AuthChallenge list"
  ad_sessions :: "SessionRow list"

datatype auth_sql_error =
    UniqueViolation
  | CHALLENGE_NOT_FOUND
  | CHALLENGE_CONSUMED
  | CHALLENGE_EXPIRED
  | CHALLENGE_WALLET_MISMATCH
  | MEMBERSHIP_NOT_FOUND
  | ROLE_NOT_ALLOWED
  | MEMBERSHIP_INACTIVE

definition create_auth_challenge :: "AuthChallenge \<Rightarrow> auth_db \<Rightarrow> (auth_sql_error + AuthChallenge) \<times> auth_db" where
  "create_auth_challenge c db =
     (let row = c\<lparr>ch_wallet_address := toLowerCase (ch_wallet_address c), ch_consumed_at := None\<rparr>
      in if list_ex (\<lambda>r. ch_nonce_hash r = ch_nonce_hash row \<or> ch_id r = ch_id row) (ad_challenges db) then (Inl UniqueViolation, db)
         else (Inr row, db\<lparr>ad_challenges := ad_challenges db @ [row]\<rparr>))"

definition active_member :: "Membership \<Rightarrow> bool" where
  "active_member m \<longleftrightarrow> mb_status m = ''ACTIVE'' \<and> mb_revoked_at m = None"

definition joined :: "SessionRow \<Rightarrow> Organization \<Rightarrow> Membership \<Rightarrow> AuthSession" where
  "joined s og m =
     \<lparr>as_session_id = sr_id s, as_wallet_address = sr_wallet_address s, as_organization_id = og_id og,
      as_organization_slug = og_slug og, as_organization_display_name = og_display_name og,
      as_membership_role = mb_role m, as_expires_at = sr_expires_at s\<rparr>"

definition find_org :: "string \<Rightarrow> auth_db \<Rightarrow> Organization option" where
  "find_org i db = List.find (\<lambda>og. og_id og = i \<and> og_environment og = ''TESTNET'') (ad_organizations db)"

definition consume_auth_challenge_and_create_session ::
  "string \<Rightarrow> string \<Rightarrow> string \<Rightarrow> int \<Rightarrow> string \<Rightarrow> int \<Rightarrow> auth_db \<Rightarrow> (auth_sql_error + AuthSession) \<times> auth_db" where
  "consume_auth_challenge_and_create_session challenge_id wallet token_hash session_expires sid now db =
     (case List.find (\<lambda>r. ch_id r = challenge_id) (ad_challenges db) of
        None \<Rightarrow> (Inl CHALLENGE_NOT_FOUND, db)
      | Some c \<Rightarrow>
          if ch_consumed_at c \<noteq> None then (Inl CHALLENGE_CONSUMED, db)
          else if ch_expires_at c \<le> now then (Inl CHALLENGE_EXPIRED, db)
          else if ch_wallet_address c \<noteq> toLowerCase wallet then (Inl CHALLENGE_WALLET_MISMATCH, db)
          else
            (case List.find (\<lambda>m. mb_wallet_address m = ch_wallet_address c \<and> active_member m) (ad_memberships db) of
               None \<Rightarrow> (Inl MEMBERSHIP_NOT_FOUND, db)
             | Some m \<Rightarrow>
                 if mb_role m \<noteq> ''TESTNET_OPERATOR'' then (Inl ROLE_NOT_ALLOWED, db)
                 else
                   (case find_org (mb_organization_id m) db of
                      None \<Rightarrow> (Inl MEMBERSHIP_INACTIVE, db)
                    | Some og \<Rightarrow>
                        let s = \<lparr>sr_id = sid, sr_token_hash = token_hash, sr_wallet_address = ch_wallet_address c,
                                 sr_organization_id = og_id og, sr_expires_at = session_expires, sr_revoked_at = None\<rparr>
                        in if list_ex (\<lambda>r. sr_token_hash r = token_hash \<or> sr_id r = sid) (ad_sessions db)
                           then (Inl UniqueViolation, db)
                           else (Inr (joined s og m),
                                 db\<lparr>ad_challenges := map (\<lambda>r. if ch_id r = ch_id c then r\<lparr>ch_consumed_at := Some now\<rparr> else r)
                                                      (ad_challenges db),
                                    ad_sessions := ad_sessions db @ [s]\<rparr>))))"

definition revoke_auth_session :: "string \<Rightarrow> int \<Rightarrow> auth_db \<Rightarrow> bool \<times> auth_db" where
  "revoke_auth_session token_hash now db =
     (list_ex (\<lambda>r. sr_token_hash r = token_hash) (ad_sessions db),
      db\<lparr>ad_sessions := map (\<lambda>r. if sr_token_hash r = token_hash
                               then r\<lparr>sr_revoked_at := Some (case sr_revoked_at r of Some t \<Rightarrow> t | None \<Rightarrow> now)\<rparr> else r)
                          (ad_sessions db)\<rparr>)"

definition live_row :: "int \<Rightarrow> SessionRow \<Rightarrow> bool" where
  "live_row now r \<longleftrightarrow> sr_revoked_at r = None \<and> sr_expires_at r > now"

definition lookup_auth_session :: "string \<Rightarrow> int \<Rightarrow> auth_db \<Rightarrow> AuthSession list" where
  "lookup_auth_session token_hash now db =
     take 1 (concat (map (\<lambda>r. concat (map (\<lambda>m. concat (map (\<lambda>og.
         if sr_token_hash r = token_hash \<and> live_row now r
            \<and> mb_organization_id m = sr_organization_id r \<and> mb_wallet_address m = sr_wallet_address r \<and> active_member m
            \<and> og_id og = sr_organization_id r \<and> og_environment og = ''TESTNET''
         then [joined r og m] else []) (ad_organizations db))) (ad_memberships db))) (ad_sessions db)))"

section \<open>The library\<close>

record auth_env =
  ax_expectedOrigin :: string
  ax_host :: string
  ax_isAddress :: "string \<Rightarrow> bool"
  ax_verifyMessage :: "string \<Rightarrow> string \<Rightarrow> string \<Rightarrow> bool"
  ax_sha256 :: "string \<Rightarrow> string"
  ax_time :: "int \<Rightarrow> string"
  ax_decodeURIComponent :: "string \<Rightarrow> string option"
  ax_reachable :: bool

record web_request =
  wr_origin :: "string option"
  wr_cookie :: "string option"
  wr_body :: "json option"

definition AUTH_CHALLENGE_TTL_SECONDS :: int where "AUTH_CHALLENGE_TTL_SECONDS = 5 * 60"
definition AUTH_SESSION_TTL_SECONDS :: int where "AUTH_SESSION_TTL_SECONDS = 8 * 60 * 60"
definition INSTITUTIONAL_SESSION_COOKIE :: string where "INSTITUTIONAL_SESSION_COOKIE = ''usance_institutional_session''"

definition FACILITY_ORGANIZATION_SLUG :: "(string \<times> string) list" where
  "FACILITY_ORGANIZATION_SLUG =
     [(''0x6534fdf67d36afeeb7118c7d81c7f4e06ab548735483ca249afcf12e6f75b1ee'', ''usance-phase07-testnet'')]"

definition isCallerAssignedToFacility :: "AuthSession \<Rightarrow> string \<Rightarrow> bool" where
  "isCallerAssignedToFacility caller facilityId \<longleftrightarrow>
     map_of FACILITY_ORGANIZATION_SLUG (toLowerCase facilityId) = Some (as_organization_slug caller)"

definition isSameOrigin :: "auth_env \<Rightarrow> web_request \<Rightarrow> bool" where
  "isSameOrigin x rq \<longleftrightarrow> wr_origin rq = Some (ax_expectedOrigin x)"

definition NEWLINE :: string where "NEWLINE = [CHR 0x0A]"

definition authMessage :: "auth_env \<Rightarrow> AuthChallenge \<Rightarrow> string \<Rightarrow> string" where
  "authMessage x c rawNonce = join_with NEWLINE
     [ch_domain c @ '' wants you to sign in with your account:'', ch_wallet_address c, [], ch_statement c, [],
      ''URI: '' @ ch_uri c, ''Version: 1'', ''Chain ID: '' @ show_int (ch_chain_id c), ''Nonce: '' @ rawNonce,
      ''Issued At: '' @ ax_time x (ch_issued_at c), ''Expiration Time: '' @ ax_time x (ch_expires_at c)]"

definition hex_of :: "nat \<Rightarrow> string \<Rightarrow> bool" where
  "hex_of n s \<longleftrightarrow> length s = n \<and> list_all hex_char s"

definition signature_shape :: "string \<Rightarrow> bool" where
  "signature_shape s \<longleftrightarrow> take 2 s = ''0x'' \<and> hex_of 130 (drop 2 s)"

definition signatureMatches :: "auth_env \<Rightarrow> AuthChallenge \<Rightarrow> string \<Rightarrow> string \<Rightarrow> bool" where
  "signatureMatches x c rawNonce signature \<longleftrightarrow>
     ax_isAddress x (ch_wallet_address c) \<and> signature_shape signature
     \<and> ax_verifyMessage x (ch_wallet_address c) (authMessage x c rawNonce) signature"

datatype auth_error = INVALID_WALLET_ADDRESS | INSTITUTIONAL_AUTH_UNAVAILABLE

definition STATEMENT :: string where
  "STATEMENT = ''This signature signs you in to the Usance institutional testnet workspace. It does not move funds and costs no gas.''"

definition createChallenge ::
  "auth_env \<Rightarrow> string \<Rightarrow> string \<Rightarrow> string \<Rightarrow> int \<Rightarrow> auth_db \<Rightarrow> (auth_error + AuthChallenge \<times> string) \<times> auth_db" where
  "createChallenge x walletAddress rawNonce uuid now db =
     (if \<not> ax_isAddress x walletAddress then (Inl INVALID_WALLET_ADDRESS, db)
      else if \<not> ax_reachable x then (Inl INSTITUTIONAL_AUTH_UNAVAILABLE, db)
      else
        let asked = \<lparr>ch_id = uuid, ch_wallet_address = toLowerCase walletAddress, ch_nonce_hash = ax_sha256 x rawNonce,
                     ch_domain = ax_host x, ch_uri = ax_expectedOrigin x, ch_chain_id = 11155111, ch_statement = STATEMENT,
                     ch_issued_at = now, ch_expires_at = now + AUTH_CHALLENGE_TTL_SECONDS * 1000, ch_consumed_at = None\<rparr>
        in (case create_auth_challenge asked db of
              (Inl _, db') \<Rightarrow> (Inl INSTITUTIONAL_AUTH_UNAVAILABLE, db')
            | (Inr c, db') \<Rightarrow> (Inr (c, authMessage x c rawNonce), db')))"

definition findChallenge :: "auth_env \<Rightarrow> string \<Rightarrow> auth_db \<Rightarrow> auth_error + AuthChallenge option" where
  "findChallenge x i db =
     (if \<not> ax_reachable x then Inl INSTITUTIONAL_AUTH_UNAVAILABLE
      else Inr (List.find (\<lambda>r. ch_id r = i) (ad_challenges db)))"

definition createSession ::
  "auth_env \<Rightarrow> AuthChallenge \<Rightarrow> string \<Rightarrow> string \<Rightarrow> int \<Rightarrow> int \<Rightarrow> auth_db \<Rightarrow> (auth_error + AuthSession) \<times> auth_db" where
  "createSession x c token uuid now dbnow db =
     (if \<not> ax_reachable x then (Inl INSTITUTIONAL_AUTH_UNAVAILABLE, db)
      else
        (case consume_auth_challenge_and_create_session (ch_id c) (ch_wallet_address c) (ax_sha256 x token)
                (now + AUTH_SESSION_TTL_SECONDS * 1000) uuid dbnow db of
           (Inl _, db') \<Rightarrow> (Inl INSTITUTIONAL_AUTH_UNAVAILABLE, db')
         | (Inr s, db') \<Rightarrow>
             (if as_membership_role s \<noteq> ''TESTNET_OPERATOR'' then Inl INSTITUTIONAL_AUTH_UNAVAILABLE else Inr s, db')))"

definition lookupSession :: "auth_env \<Rightarrow> string \<Rightarrow> int \<Rightarrow> auth_db \<Rightarrow> auth_error + AuthSession option" where
  "lookupSession x token dbnow db =
     (if \<not> ax_reachable x then Inl INSTITUTIONAL_AUTH_UNAVAILABLE
      else Inr (case lookup_auth_session (ax_sha256 x token) dbnow db of [] \<Rightarrow> None | s # _ \<Rightarrow> Some s))"

definition revokeSession :: "auth_env \<Rightarrow> string \<Rightarrow> int \<Rightarrow> auth_db \<Rightarrow> (auth_error + unit) \<times> auth_db" where
  "revokeSession x token dbnow db =
     (if \<not> ax_reachable x then (Inl INSTITUTIONAL_AUTH_UNAVAILABLE, db)
      else (Inr (), snd (revoke_auth_session (ax_sha256 x token) dbnow db)))"

text \<open>\<open>cookieToken\<close>: no cookie, its value, or the error of a value that does not decode.\<close>

datatype cookie = NoCookie | Token string | Malformed

definition cookieToken :: "auth_env \<Rightarrow> web_request \<Rightarrow> cookie" where
  "cookieToken x rq =
     (let name = INSTITUTIONAL_SESSION_COOKIE @ ''=''
      in case List.find (\<lambda>e. take (length name) e = name)
                (map trim (split_on (CHR '';'') (case wr_cookie rq of Some h \<Rightarrow> h | None \<Rightarrow> []))) of
           None \<Rightarrow> NoCookie
         | Some e \<Rightarrow> (case ax_decodeURIComponent x (drop (length name) e) of None \<Rightarrow> Malformed | Some t \<Rightarrow> Token t))"

section \<open>The routes\<close>

datatype auth_reply =
    Refused nat string
  | Challenged string string int
  | SignedIn AuthSession string
  | Caller AuthSession
  | LoggedOut
  | Unhandled

definition body_text :: "string \<Rightarrow> json \<Rightarrow> string option" where
  "body_text k b = (case json_field k b of Some (JStr s) \<Rightarrow> Some s | _ \<Rightarrow> None)"

definition challenge_route :: "auth_env \<Rightarrow> web_request \<Rightarrow> string \<Rightarrow> string \<Rightarrow> int \<Rightarrow> auth_db \<Rightarrow> auth_reply \<times> auth_db" where
  "challenge_route x rq rawNonce uuid now db =
     (if \<not> isSameOrigin x rq then (Refused 403 ''ORIGIN_REJECTED'', db)
      else
        (case Option.bind (wr_body rq) (body_text ''walletAddress'') of
           None \<Rightarrow> (Refused 400 ''BAD_REQUEST'', db)
         | Some w \<Rightarrow>
             if w = [] then (Refused 400 ''BAD_REQUEST'', db)
             else
               (case createChallenge x w rawNonce uuid now db of
                  (Inl INVALID_WALLET_ADDRESS, db') \<Rightarrow> (Refused 400 ''BAD_REQUEST'', db')
                | (Inl INSTITUTIONAL_AUTH_UNAVAILABLE, db') \<Rightarrow> (Refused 503 ''AUTH_UNAVAILABLE'', db')
                | (Inr (c, message), db') \<Rightarrow> (Challenged (ch_id c) message (ch_expires_at c), db'))))"

definition nonce_shape :: "string \<Rightarrow> bool" where
  "nonce_shape s \<longleftrightarrow> length s = 64 \<and> list_all (\<lambda>c. is_digit c \<or> c \<in> set ''abcdef'') s"

definition verify_route ::
  "auth_env \<Rightarrow> web_request \<Rightarrow> string \<Rightarrow> string \<Rightarrow> int \<Rightarrow> int \<Rightarrow> auth_db \<Rightarrow> auth_reply \<times> auth_db" where
  "verify_route x rq token uuid now dbnow db =
     (if \<not> isSameOrigin x rq then (Refused 403 ''ORIGIN_REJECTED'', db)
      else
        (case wr_body rq of
           None \<Rightarrow> (Refused 400 ''BAD_REQUEST'', db)
         | Some JNull \<Rightarrow> (Unhandled, db)
         | Some b \<Rightarrow>
             (case (body_text ''challengeId'' b, body_text ''nonce'' b, body_text ''signature'' b) of
                (Some i, Some n, Some signature) \<Rightarrow>
                  if \<not> nonce_shape n then (Refused 400 ''BAD_REQUEST'', db)
                  else
                    (case findChallenge x i db of
                       Inl _ \<Rightarrow> (Refused 503 ''AUTH_UNAVAILABLE'', db)
                     | Inr None \<Rightarrow> (Refused 401 ''AUTHENTICATION_REJECTED'', db)
                     | Inr (Some c) \<Rightarrow>
                         if ch_consumed_at c \<noteq> None \<or> ch_expires_at c \<le> now \<or> ax_sha256 x n \<noteq> ch_nonce_hash c
                            \<or> \<not> signatureMatches x c n signature
                         then (Refused 401 ''AUTHENTICATION_REJECTED'', db)
                         else
                           (case createSession x c token uuid now dbnow db of
                              (Inl _, db') \<Rightarrow> (Refused 503 ''AUTH_UNAVAILABLE'', db')
                            | (Inr s, db') \<Rightarrow> (SignedIn s token, db')))
              | _ \<Rightarrow> (Refused 400 ''BAD_REQUEST'', db))))"

definition session_route :: "auth_env \<Rightarrow> web_request \<Rightarrow> int \<Rightarrow> auth_db \<Rightarrow> auth_reply" where
  "session_route x rq dbnow db =
     (case cookieToken x rq of
        NoCookie \<Rightarrow> Refused 401 []
      | Malformed \<Rightarrow> Unhandled
      | Token t \<Rightarrow>
          if t = [] then Refused 401 []
          else (case lookupSession x t dbnow db of
                  Inl _ \<Rightarrow> Refused 503 ''AUTH_UNAVAILABLE''
                | Inr None \<Rightarrow> Refused 401 []
                | Inr (Some s) \<Rightarrow> Caller s))"

definition logout_route :: "auth_env \<Rightarrow> web_request \<Rightarrow> int \<Rightarrow> auth_db \<Rightarrow> auth_reply \<times> auth_db" where
  "logout_route x rq dbnow db =
     (if \<not> isSameOrigin x rq then (Refused 403 ''ORIGIN_REJECTED'', db)
      else
        (case cookieToken x rq of
           NoCookie \<Rightarrow> (LoggedOut, db)
         | Malformed \<Rightarrow> (Unhandled, db)
         | Token t \<Rightarrow>
             if t = [] then (LoggedOut, db)
             else (case revokeSession x t dbnow db of
                     (Inl _, db') \<Rightarrow> (Refused 503 ''AUTH_UNAVAILABLE'', db')
                   | (Inr _, db') \<Rightarrow> (LoggedOut, db'))))"

section \<open>Properties of the sign-in\<close>

lemma find_row: "List.find P xs = Some y \<Longrightarrow> y \<in> set xs \<and> P y"
  by (auto simp: find_Some_iff)

text \<open>What holds of the tables: keys are keys, and each session was bought with a challenge.\<close>

definition consumed :: "auth_db \<Rightarrow> AuthChallenge list" where
  "consumed db = filter (\<lambda>c. ch_consumed_at c \<noteq> None) (ad_challenges db)"

definition auth_ok :: "auth_db \<Rightarrow> bool" where
  "auth_ok db \<longleftrightarrow> distinct (map ch_id (ad_challenges db)) \<and> distinct (map sr_token_hash (ad_sessions db))
     \<and> length (ad_sessions db) = length (consumed db)
     \<and> sr_wallet_address ` set (ad_sessions db) \<subseteq> ch_wallet_address ` set (consumed db)"

lemma consume_inv:
  assumes "consume_auth_challenge_and_create_session i w h e sid now db = (Inr s, db')"
  obtains c m og where "List.find (\<lambda>r. ch_id r = i) (ad_challenges db) = Some c" "ch_consumed_at c = None" "ch_expires_at c > now"
    "ch_wallet_address c = toLowerCase w" "m \<in> set (ad_memberships db)" "mb_wallet_address m = ch_wallet_address c"
    "active_member m" "mb_role m = ''TESTNET_OPERATOR''" "find_org (mb_organization_id m) db = Some og"
    "h \<notin> sr_token_hash ` set (ad_sessions db)"
    "s = joined \<lparr>sr_id = sid, sr_token_hash = h, sr_wallet_address = ch_wallet_address c,
                 sr_organization_id = og_id og, sr_expires_at = e, sr_revoked_at = None\<rparr> og m"
    "db' = db\<lparr>ad_challenges := map (\<lambda>r. if ch_id r = ch_id c then r\<lparr>ch_consumed_at := Some now\<rparr> else r) (ad_challenges db),
              ad_sessions := ad_sessions db @ [\<lparr>sr_id = sid, sr_token_hash = h, sr_wallet_address = ch_wallet_address c,
                 sr_organization_id = og_id og, sr_expires_at = e, sr_revoked_at = None\<rparr>]\<rparr>"
proof -
  obtain c where c: "List.find (\<lambda>r. ch_id r = i) (ad_challenges db) = Some c"
    using assms by (auto simp: consume_auth_challenge_and_create_session_def split: option.splits)
  have c2: "ch_consumed_at c = None" "\<not> ch_expires_at c \<le> now" "ch_wallet_address c = toLowerCase w"
    using assms c by (auto simp: consume_auth_challenge_and_create_session_def split: if_splits)
  obtain m where m: "List.find (\<lambda>m. mb_wallet_address m = ch_wallet_address c \<and> active_member m) (ad_memberships db) = Some m"
    using assms c c2 by (auto simp: consume_auth_challenge_and_create_session_def split: option.splits)
  have r: "mb_role m = ''TESTNET_OPERATOR''"
    using assms c c2 m by (auto simp: consume_auth_challenge_and_create_session_def split: if_splits)
  obtain og where og: "find_org (mb_organization_id m) db = Some og"
    using assms c c2 m r by (auto simp: consume_auth_challenge_and_create_session_def split: option.splits)
  have fin: "\<not> list_ex (\<lambda>r. sr_token_hash r = h \<or> sr_id r = sid) (ad_sessions db)"
    using assms c c2 m r og by (auto simp: consume_auth_challenge_and_create_session_def Let_def split: if_splits)
  have m2: "m \<in> set (ad_memberships db)" "mb_wallet_address m = ch_wallet_address c" "active_member m"
    using find_row [OF m] by auto
  show thesis
    using that [OF c c2(1) _ c2(3) m2 r og] assms c c2 m r og fin
    by (auto simp: consume_auth_challenge_and_create_session_def Let_def list_ex_iff)
qed

lemma consume_one_count:
  assumes "distinct (map ch_id cs)" "c \<in> set cs" "ch_consumed_at c = None"
  shows "length (filter (\<lambda>r. ch_consumed_at r \<noteq> None)
      (map (\<lambda>r. if ch_id r = ch_id c then r\<lparr>ch_consumed_at := Some now\<rparr> else r) cs))
    = Suc (length (filter (\<lambda>r. ch_consumed_at r \<noteq> None) cs))"
  using assms
proof (induction cs)
  case (Cons a cs)
  show ?case
  proof (cases "a = c")
    case True
    have "map (\<lambda>r. if ch_id r = ch_id c then r\<lparr>ch_consumed_at := Some now\<rparr> else r) cs = cs"
      using Cons.prems(1) True by (intro map_idI) (auto simp: image_iff)
    then show ?thesis using True Cons.prems(3) by simp
  next
    case False
    then have "ch_id a \<noteq> ch_id c" "c \<in> set cs" using Cons.prems by (auto simp: image_iff)
    then show ?thesis using Cons by simp
  qed
qed simp

lemma consume_ok:
  assumes "auth_ok db" "consume_auth_challenge_and_create_session i w h e sid now db = (r, db')"
  shows "auth_ok db'"
proof (cases r)
  case (Inl err)
  then have "db' = db"
    using assms(2)
    by (auto simp: consume_auth_challenge_and_create_session_def Let_def split: option.splits if_splits)
  then show ?thesis using assms(1) by simp
next
  case (Inr s)
  then have settled: "consume_auth_challenge_and_create_session i w h e sid now db = (Inr s, db')" using assms(2) by simp
  obtain c and og :: Organization where f: "List.find (\<lambda>r. ch_id r = i) (ad_challenges db) = Some c" "ch_consumed_at c = None"
    and h: "h \<notin> sr_token_hash ` set (ad_sessions db)"
    and db': "db' = db\<lparr>ad_challenges := map (\<lambda>r. if ch_id r = ch_id c then r\<lparr>ch_consumed_at := Some now\<rparr> else r) (ad_challenges db),
              ad_sessions := ad_sessions db @ [\<lparr>sr_id = sid, sr_token_hash = h, sr_wallet_address = ch_wallet_address c,
                 sr_organization_id = og_id og, sr_expires_at = e, sr_revoked_at = None\<rparr>]\<rparr>"
    by (rule consume_inv [OF settled]) blast
  have c: "c \<in> set (ad_challenges db)" using find_row [OF f(1)] by blast
  have ids: "map ch_id (map (\<lambda>r. if ch_id r = ch_id c then r\<lparr>ch_consumed_at := Some now\<rparr> else r) (ad_challenges db))
      = map ch_id (ad_challenges db)" by simp
  have "distinct (map ch_id (ad_challenges db))" using assms(1) by (simp add: auth_ok_def)
  then have n: "length (consumed db') = Suc (length (consumed db))"
    using consume_one_count [OF _ c f(2)] by (simp add: consumed_def db')
  have w: "ch_wallet_address ` set (consumed db) \<subseteq> ch_wallet_address ` set (consumed db')"
  proof
    fix a assume "a \<in> ch_wallet_address ` set (consumed db)"
    then obtain d where d: "d \<in> set (ad_challenges db)" "ch_consumed_at d \<noteq> None" "a = ch_wallet_address d"
      by (auto simp: consumed_def)
    have "(if ch_id d = ch_id c then d\<lparr>ch_consumed_at := Some now\<rparr> else d) \<in> set (consumed db')"
      using d by (auto simp: consumed_def db')
    moreover have "a = ch_wallet_address (if ch_id d = ch_id c then d\<lparr>ch_consumed_at := Some now\<rparr> else d)" using d(3) by simp
    ultimately show "a \<in> ch_wallet_address ` set (consumed db')" by (rule rev_image_eqI)
  qed
  have cw: "ch_wallet_address c \<in> ch_wallet_address ` set (consumed db')"
  proof -
    have "c\<lparr>ch_consumed_at := Some now\<rparr> \<in> set (consumed db')" using c by (force simp: consumed_def db')
    moreover have "ch_wallet_address c = ch_wallet_address (c\<lparr>ch_consumed_at := Some now\<rparr>)" by simp
    ultimately show ?thesis by (rule rev_image_eqI)
  qed
  have "sr_wallet_address ` set (ad_sessions db') = insert (ch_wallet_address c) (sr_wallet_address ` set (ad_sessions db))"
    by (simp add: db')
  then have "sr_wallet_address ` set (ad_sessions db') \<subseteq> ch_wallet_address ` set (consumed db')"
    using assms(1) w cw by (simp only: auth_ok_def insert_subset) (intro conjI TrueI, elim conjE, rule subset_trans)
  moreover have "distinct (map ch_id (ad_challenges db')) \<and> distinct (map sr_token_hash (ad_sessions db'))
      \<and> length (ad_sessions db') = Suc (length (consumed db))"
    using assms(1) h by (simp add: auth_ok_def db' ids del: map_map)
  ultimately show ?thesis using n by (simp add: auth_ok_def)
qed

lemma find_consumed:
  assumes "List.find (\<lambda>r. ch_id r = i) cs = Some c"
  shows "List.find (\<lambda>r. ch_id r = i) (map (\<lambda>r. if ch_id r = ch_id c then r\<lparr>ch_consumed_at := Some now\<rparr> else r) cs)
    = Some (c\<lparr>ch_consumed_at := Some now\<rparr>)"
  using assms by (induction cs) (auto split: if_splits)

text \<open>The requests, and the states they lead to.\<close>

inductive auth_step :: "auth_env \<Rightarrow> auth_db \<Rightarrow> auth_db \<Rightarrow> bool" for x where
  challenged: "challenge_route x rq rawNonce uuid now db = (r, db') \<Longrightarrow> auth_step x db db'"
| verified: "verify_route x rq token uuid now dbnow db = (r, db') \<Longrightarrow> auth_step x db db'"
| logged_out: "logout_route x rq dbnow db = (r, db') \<Longrightarrow> auth_step x db db'"

inductive auth_reachable :: "auth_env \<Rightarrow> auth_db \<Rightarrow> auth_db \<Rightarrow> bool" for x db where
  start: "auth_reachable x db db"
| step: "auth_reachable x db db1 \<Longrightarrow> auth_step x db1 db2 \<Longrightarrow> auth_reachable x db db2"

lemma create_auth_challenge_db:
  assumes "create_auth_challenge c db = (r, db')"
  shows "db' = db \<or> (\<exists>c. ch_consumed_at c = None \<and> ch_id c \<notin> ch_id ` set (ad_challenges db)
           \<and> db' = db\<lparr>ad_challenges := ad_challenges db @ [c]\<rparr>)"
proof (cases "db' = db")
  case False
  let ?c = "c\<lparr>ch_wallet_address := toLowerCase (ch_wallet_address c), ch_consumed_at := None\<rparr>"
  have "db' = db\<lparr>ad_challenges := ad_challenges db @ [?c]\<rparr>" "ch_id ?c \<notin> ch_id ` set (ad_challenges db)"
    using assms False by (auto simp: create_auth_challenge_def Let_def list_ex_iff split: if_splits)
  then show ?thesis by (intro disjI2 exI [of _ ?c]) simp
qed simp

lemma challenge_route_db:
  assumes "challenge_route x rq rawNonce uuid now db = (r, db')"
  shows "db' = db \<or> (\<exists>c. ch_consumed_at c = None \<and> ch_id c \<notin> ch_id ` set (ad_challenges db)
           \<and> db' = db\<lparr>ad_challenges := ad_challenges db @ [c]\<rparr>)"
proof -
  have "db' = db \<or> (\<exists>c r. create_auth_challenge c db = (r, db'))"
    using assms
    by (auto simp: challenge_route_def createChallenge_def Let_def
        split: option.splits if_splits sum.splits prod.splits auth_error.splits)
  then show ?thesis using create_auth_challenge_db by blast
qed

lemma verify_route_db:
  assumes "verify_route x rq token uuid now dbnow db = (r, db')"
  shows "db' = db \<or> (\<exists>i w h e s. consume_auth_challenge_and_create_session i w h e uuid dbnow db = (Inr s, db'))"
proof -
  have "db' = db \<or> (\<exists>i w h e r. consume_auth_challenge_and_create_session i w h e uuid dbnow db = (r, db'))"
    using assms
    by (auto simp: verify_route_def createSession_def split: option.splits if_splits sum.splits prod.splits json.splits)
  moreover have "db' = db" if "consume_auth_challenge_and_create_session i w h e uuid dbnow db = (Inl err, db')" for i w h e err
    using that by (auto simp: consume_auth_challenge_and_create_session_def Let_def split: option.splits if_splits)
  ultimately show ?thesis by (metis sum.exhaust)
qed

lemma revoke_keeps_keys:
  "map sr_token_hash (ad_sessions (snd (revoke_auth_session h now db))) = map sr_token_hash (ad_sessions db)"
  "sr_wallet_address ` set (ad_sessions (snd (revoke_auth_session h now db))) = sr_wallet_address ` set (ad_sessions db)"
  "length (ad_sessions (snd (revoke_auth_session h now db))) = length (ad_sessions db)"
  "ad_challenges (snd (revoke_auth_session h now db)) = ad_challenges db"
proof -
  have "map sr_wallet_address (ad_sessions (snd (revoke_auth_session h now db))) = map sr_wallet_address (ad_sessions db)"
    by (simp add: revoke_auth_session_def)
  then show "sr_wallet_address ` set (ad_sessions (snd (revoke_auth_session h now db))) = sr_wallet_address ` set (ad_sessions db)"
    by (metis list.set_map)
qed (simp_all add: revoke_auth_session_def)

lemma auth_step_ok: "auth_step x db db' \<Longrightarrow> auth_ok db \<Longrightarrow> auth_ok db'"
proof (induction rule: auth_step.induct)
  case (challenged rq rawNonce uuid now db r db')
  then have "consumed db' = consumed db \<and> ad_sessions db' = ad_sessions db \<and> distinct (map ch_id (ad_challenges db'))"
    using challenge_route_db [OF challenged(1)] by (auto simp: auth_ok_def consumed_def)
  then show ?case using challenged(2) by (simp add: auth_ok_def)
next
  case (verified rq token uuid now dbnow db r db')
  then show ?case using verify_route_db [OF verified(1)] consume_ok by blast
next
  case (logged_out rq dbnow db r db')
  have "db' = db \<or> (\<exists>t. db' = snd (revoke_auth_session (ax_sha256 x t) dbnow db))"
    using logged_out(1) by (auto simp: logout_route_def revokeSession_def split: if_splits cookie.splits)
  then show ?case
    using logged_out(2) unfolding auth_ok_def consumed_def by (elim disjE exE) (simp_all only: revoke_keeps_keys)
qed


lemma auth_reachable_ok: "auth_reachable x db db' \<Longrightarrow> auth_ok db \<Longrightarrow> auth_ok db'"
  by (induction rule: auth_reachable.induct) (auto intro: auth_step_ok)

lemma verify_inv:
  assumes "verify_route x rq token uuid now dbnow db = (SignedIn s t, db')"
  obtains b i n sg c where "isSameOrigin x rq" "wr_body rq = Some b" "body_text ''challengeId'' b = Some i"
    "body_text ''nonce'' b = Some n" "body_text ''signature'' b = Some sg" "nonce_shape n" "ax_reachable x"
    "List.find (\<lambda>r. ch_id r = i) (ad_challenges db) = Some c"
    "ch_consumed_at c = None" "ch_expires_at c > now" "ax_sha256 x n = ch_nonce_hash c" "signatureMatches x c n sg" "t = token"
    "consume_auth_challenge_and_create_session (ch_id c) (ch_wallet_address c) (ax_sha256 x token)
                (now + AUTH_SESSION_TTL_SECONDS * 1000) uuid dbnow db = (Inr s, db')"
proof -
  obtain b where o: "isSameOrigin x rq" and b: "wr_body rq = Some b" "b \<noteq> JNull"
    using assms by (auto simp: verify_route_def split: if_splits option.splits json.splits)
  have v: "verify_route x rq token uuid now dbnow db =
     (case (body_text ''challengeId'' b, body_text ''nonce'' b, body_text ''signature'' b) of
                (Some i, Some n, Some signature) \<Rightarrow>
                  if \<not> nonce_shape n then (Refused 400 ''BAD_REQUEST'', db)
                  else
                    (case findChallenge x i db of
                       Inl _ \<Rightarrow> (Refused 503 ''AUTH_UNAVAILABLE'', db)
                     | Inr None \<Rightarrow> (Refused 401 ''AUTHENTICATION_REJECTED'', db)
                     | Inr (Some c) \<Rightarrow>
                         if ch_consumed_at c \<noteq> None \<or> ch_expires_at c \<le> now \<or> ax_sha256 x n \<noteq> ch_nonce_hash c
                            \<or> \<not> signatureMatches x c n signature
                         then (Refused 401 ''AUTHENTICATION_REJECTED'', db)
                         else
                           (case createSession x c token uuid now dbnow db of
                              (Inl _, db') \<Rightarrow> (Refused 503 ''AUTH_UNAVAILABLE'', db')
                            | (Inr s, db') \<Rightarrow> (SignedIn s token, db')))
              | _ \<Rightarrow> (Refused 400 ''BAD_REQUEST'', db))"
    using o b by (cases b) (simp_all add: verify_route_def)
  obtain i n sg where p: "body_text ''challengeId'' b = Some i" "body_text ''nonce'' b = Some n" "body_text ''signature'' b = Some sg"
    using assms unfolding v by (auto split: option.splits)
  have ns: "nonce_shape n" using assms unfolding v p by (auto split: if_splits)
  obtain c where f: "findChallenge x i db = Inr (Some c)"
    using assms ns unfolding v p by (auto split: sum.splits option.splits)
  have g: "ch_consumed_at c = None" "ch_expires_at c > now" "ax_sha256 x n = ch_nonce_hash c" "signatureMatches x c n sg"
    using assms ns by (simp_all add: v p f split: if_splits)
  have cs: "createSession x c token uuid now dbnow db = (Inr s, db') \<and> t = token"
    using assms ns g by (simp add: v p f split: prod.splits sum.splits)
  have r: "ax_reachable x" "List.find (\<lambda>r. ch_id r = i) (ad_challenges db) = Some c"
    using f by (auto simp: findChallenge_def split: if_splits)
  have "consume_auth_challenge_and_create_session (ch_id c) (ch_wallet_address c) (ax_sha256 x token)
                (now + AUTH_SESSION_TTL_SECONDS * 1000) uuid dbnow db = (Inr s, db')"
    using cs r(1) by (auto simp: createSession_def split: prod.splits sum.splits if_splits)
  then show thesis using that o b(1) p ns r g cs by blast
qed

text \<open>
  C17: Who gets a session, and for how much. A request is signed in only against a challenge of the
  table that is unused and not expired, with the nonce it was issued for and a signature, by the wallet it was issued to,
  of the exact text that names the nonce; the wallet is an active operator of a testnet organisation,
  and the session is that wallet's. The challenge is used up: no later request signs in with it. And
  over all requests, as many sessions were created as challenges were used.
\<close>

theorem session_needs_signed_challenge:
  assumes "auth_reachable x db0 db" "auth_ok db0"
    and "verify_route x rq token uuid now dbnow db = (SignedIn s t, db')"
  shows "(\<exists>c m n sg. c \<in> set (ad_challenges db) \<and> ch_consumed_at c = None \<and> now < ch_expires_at c
       \<and> ax_sha256 x n = ch_nonce_hash c \<and> ax_verifyMessage x (ch_wallet_address c) (authMessage x c n) sg
       \<and> m \<in> set (ad_memberships db) \<and> active_member m \<and> mb_role m = ''TESTNET_OPERATOR''
       \<and> mb_wallet_address m = ch_wallet_address c \<and> as_wallet_address s = ch_wallet_address c
       \<and> Option.bind (wr_body rq) (body_text ''challengeId'') = Some (ch_id c))
    \<and> as_expires_at s = now + AUTH_SESSION_TTL_SECONDS * 1000
    \<and> length (ad_sessions db') = length (consumed db') \<and> length (ad_sessions db') = length (ad_sessions db) + 1
    \<and> (Option.bind (wr_body rq') (body_text ''challengeId'') = Option.bind (wr_body rq) (body_text ''challengeId'')
        \<longrightarrow> fst (verify_route x rq' token' uuid' now' dbnow' db') \<noteq> SignedIn s' t')"
proof -
  obtain b i n sg c where v: "wr_body rq = Some b" "body_text ''challengeId'' b = Some i"
    "List.find (\<lambda>r. ch_id r = i) (ad_challenges db) = Some c"
    "ch_consumed_at c = None" "ch_expires_at c > now" "ax_sha256 x n = ch_nonce_hash c" "signatureMatches x c n sg"
    "consume_auth_challenge_and_create_session (ch_id c) (ch_wallet_address c) (ax_sha256 x token)
                (now + AUTH_SESSION_TTL_SECONDS * 1000) uuid dbnow db = (Inr s, db')"
    by (rule verify_inv [OF assms(3)]) blast
  have ok: "auth_ok db" by (rule auth_reachable_ok [OF assms(1,2)])
  have ci: "ch_id c = i" "c \<in> set (ad_challenges db)" using find_row [OF v(3)] by auto
  obtain c' m og where w: "List.find (\<lambda>r. ch_id r = ch_id c) (ad_challenges db) = Some c'"
    "m \<in> set (ad_memberships db)" "mb_wallet_address m = ch_wallet_address c'" "active_member m" "mb_role m = ''TESTNET_OPERATOR''"
    "s = joined \<lparr>sr_id = uuid, sr_token_hash = ax_sha256 x token, sr_wallet_address = ch_wallet_address c',
                 sr_organization_id = og_id og, sr_expires_at = now + AUTH_SESSION_TTL_SECONDS * 1000, sr_revoked_at = None\<rparr> og m"
    "db' = db\<lparr>ad_challenges := map (\<lambda>r. if ch_id r = ch_id c' then r\<lparr>ch_consumed_at := Some dbnow\<rparr> else r) (ad_challenges db),
              ad_sessions := ad_sessions db @ [\<lparr>sr_id = uuid, sr_token_hash = ax_sha256 x token, sr_wallet_address = ch_wallet_address c',
                 sr_organization_id = og_id og, sr_expires_at = now + AUTH_SESSION_TTL_SECONDS * 1000, sr_revoked_at = None\<rparr>]\<rparr>"
    by (rule consume_inv [OF v(8)]) blast
  have cc: "c' = c" using w(1) v(3) ci by simp
  have used: "List.find (\<lambda>r. ch_id r = i) (ad_challenges db') = Some (c\<lparr>ch_consumed_at := Some dbnow\<rparr>)"
    using find_consumed [OF v(3)] by (simp add: w(7) cc)
  have replay: "fst (verify_route x rq' token' uuid' now' dbnow' db') \<noteq> SignedIn s' t'"
    if same: "Option.bind (wr_body rq') (body_text ''challengeId'') = Option.bind (wr_body rq) (body_text ''challengeId'')"
  proof
    assume "fst (verify_route x rq' token' uuid' now' dbnow' db') = SignedIn s' t'"
    then obtain db2 where "verify_route x rq' token' uuid' now' dbnow' db' = (SignedIn s' t', db2)" by (metis prod.collapse)
    then obtain b' i' c2 where "wr_body rq' = Some b'" "body_text ''challengeId'' b' = Some i'"
      "List.find (\<lambda>r. ch_id r = i') (ad_challenges db') = Some c2" "ch_consumed_at c2 = None"
      by (rule verify_inv) blast
    then show False using same v(1,2) used by auto
  qed
  have "auth_ok db'" using consume_ok [OF ok v(8)] .
  then have n: "length (ad_sessions db') = length (consumed db')" by (simp add: auth_ok_def)
  have l: "length (ad_sessions db') = length (ad_sessions db) + 1" by (simp add: w(7))
  have sw: "as_wallet_address s = ch_wallet_address c" "as_expires_at s = now + AUTH_SESSION_TTL_SECONDS * 1000"
    by (simp_all add: w(6) cc joined_def)
  show ?thesis
    using v ci w(2-5) sw n l replay unfolding cc signatureMatches_def by auto
qed

definition sample_auth :: auth_env where
  "sample_auth = \<lparr>ax_expectedOrigin = ''https://usance'', ax_host = ''usance'', ax_isAddress = (\<lambda>a. a = ''0xw''),
     ax_verifyMessage = (\<lambda>a m sg. a = ''0xw''), ax_sha256 = id, ax_time = show_int, ax_decodeURIComponent = Some, ax_reachable = True\<rparr>"

definition sample_nonce :: string where "sample_nonce = replicate 64 (CHR ''a'')"

definition sample_challenge :: AuthChallenge where
  "sample_challenge = \<lparr>ch_id = ''c'', ch_wallet_address = ''0xw'', ch_nonce_hash = sample_nonce, ch_domain = ''usance'',
     ch_uri = ''https://usance'', ch_chain_id = 1, ch_statement = [], ch_issued_at = 0, ch_expires_at = 10, ch_consumed_at = None\<rparr>"

definition sample_auth_db :: auth_db where
  "sample_auth_db = \<lparr>ad_organizations = [\<lparr>og_id = ''o'', og_slug = ''s'', og_display_name = ''S'', og_environment = ''TESTNET''\<rparr>],
     ad_memberships = [\<lparr>mb_organization_id = ''o'', mb_wallet_address = ''0xw'', mb_role = ''TESTNET_OPERATOR'', mb_status = ''ACTIVE'',
                        mb_revoked_at = None\<rparr>],
     ad_challenges = [sample_challenge], ad_sessions = []\<rparr>"

definition sample_sign_in :: web_request where
  "sample_sign_in = \<lparr>wr_origin = Some ''https://usance'', wr_cookie = None,
     wr_body = Some (JObj [(''challengeId'', JStr ''c''), (''nonce'', JStr sample_nonce),
                           (''signature'', JStr (''0x'' @ replicate 130 (CHR ''1'')))])\<rparr>"

lemma sample_signs_in:
  "\<exists>s db'. verify_route sample_auth sample_sign_in ''t'' ''u'' 5 5 sample_auth_db = (SignedIn s ''t'', db')"
proof -
  have w: "toLowerCase ''0xw'' = ''0xw''" by code_simp
  have n: "nonce_shape sample_nonce" by (simp add: nonce_shape_def sample_nonce_def list_all_iff)
  have sg: "signature_shape (''0x'' @ replicate 130 (CHR ''1''))"
  proof -
    have "hex_char (CHR ''1'')" by (simp add: hex_char_def is_digit_def)
    then show ?thesis by (simp add: signature_shape_def hex_of_def list_all_iff)
  qed
  have m: "signatureMatches sample_auth sample_challenge sample_nonce (''0x'' @ replicate 130 (CHR ''1''))"
    using sg by (simp add: signatureMatches_def sample_auth_def sample_challenge_def)
  have f: "findChallenge sample_auth ''c'' sample_auth_db = Inr (Some sample_challenge)"
    by (simp add: findChallenge_def sample_auth_def sample_auth_db_def sample_challenge_def)
  have "\<exists>s db'. createSession sample_auth sample_challenge ''t'' ''u'' 5 5 sample_auth_db = (Inr s, db')"
    by (simp add: createSession_def consume_auth_challenge_and_create_session_def sample_auth_def sample_auth_db_def
        sample_challenge_def w active_member_def find_org_def joined_def)
  then obtain s db' where c: "createSession sample_auth sample_challenge ''t'' ''u'' 5 5 sample_auth_db = (Inr s, db')" by blast
  have b: "body_text ''challengeId'' (JObj [(''challengeId'', JStr ''c''), (''nonce'', JStr sample_nonce), (''signature'', JStr g)]) = Some ''c''"
    "body_text ''nonce'' (JObj [(''challengeId'', JStr ''c''), (''nonce'', JStr sample_nonce), (''signature'', JStr g)]) = Some sample_nonce"
    "body_text ''signature'' (JObj [(''challengeId'', JStr ''c''), (''nonce'', JStr sample_nonce), (''signature'', JStr g)]) = Some g" for g
    by (simp_all add: body_text_def json_field_def)
  have e: "ch_consumed_at sample_challenge = None" "ch_expires_at sample_challenge = 10" "ch_nonce_hash sample_challenge = sample_nonce"
    "ax_sha256 sample_auth sample_nonce = sample_nonce"
    by (simp_all add: sample_challenge_def sample_auth_def)
  have o: "isSameOrigin sample_auth sample_sign_in" by (simp add: isSameOrigin_def sample_auth_def sample_sign_in_def)
  show ?thesis
    unfolding verify_route_def using o
    by (simp only: sample_sign_in_def web_request.simps option.case json.case b prod.case n f m c e sum.case) simp
qed

theorem session_needs_signed_challenge_witness:
  "\<exists>s db'. verify_route sample_auth sample_sign_in ''t'' ''u'' 5 5 sample_auth_db = (SignedIn s ''t'', db')
     \<and> length (ad_sessions db') = 1 \<and> length (consumed db') = 1
     \<and> fst (verify_route sample_auth sample_sign_in ''t2'' ''u2'' 6 6 db') \<noteq> SignedIn s ''t2''"
proof -
  obtain s db' where v: "verify_route sample_auth sample_sign_in ''t'' ''u'' 5 5 sample_auth_db = (SignedIn s ''t'', db')"
    using sample_signs_in by blast
  have ok: "auth_ok sample_auth_db" by (simp add: auth_ok_def sample_auth_db_def consumed_def sample_challenge_def)
  have l: "length (ad_sessions sample_auth_db) = 0" by (simp add: sample_auth_db_def)
  show ?thesis
    using session_needs_signed_challenge [OF auth_reachable.start ok v, of sample_sign_in "''t2''" "''u2''" 6 6 s "''t2''"] v l by auto
qed

end
