(* ===== verification/Substitution_Desk.thy ===== *)
theory Substitution_Desk
  imports Institutional_Auth Evidence_Ingest
begin

text \<open>
  The desk that prepares a substitution of a facility's collateral: \<open>apps/web/lib/substitution-*.ts\<close>,
  \<open>facility-decision.ts\<close>, \<open>current-authority.ts\<close>, \<open>institutional-*-readiness.ts\<close>,
  \<open>hedera-facility.ts\<close>, \<open>hedera-reconciliation.ts\<close>, the routes under
  \<open>apps/web/app/api/facilities/[facilityId]/substitutions\<close>, and the database functions of
  \<open>supabase/migrations/202609100001\<close> and \<open>202609100003\<close>. What a chain answers is an argument: a
  record of the values read, or the message of the error. Instants are numbers. The status with which
  the database's gateway reports an error is the argument \<open>dv_status\<close> of the environment.
\<close>

section \<open>Operation states\<close>

definition TERMINAL_SUBSTITUTION_STATES :: "string list" where
  "TERMINAL_SUBSTITUTION_STATES = [''COMPLETED'', ''REFUSED'', ''EXPIRED'', ''CANCELLED'']"

definition SUBSTITUTION_OPERATION_STATES :: "string list" where
  "SUBSTITUTION_OPERATION_STATES =
     [''CREATED'', ''AUTHORITY_RESOLVING'', ''AUTHORITY_VALID'', ''AUTHORITY_REQUIRED'', ''AUTHORITY_REVOKED'',
      ''AUTHORITY_EXPIRED'', ''AUTHORITY_UNAVAILABLE'', ''ORG_APPROVAL_PENDING'', ''ORG_APPROVED'',
      ''AUTHORITY_APPROVED_ONCHAIN'', ''ORG_APPROVAL_INVALID'', ''ORG_APPROVAL_EXPIRED'', ''ORG_APPROVAL_UNAVAILABLE'',
      ''POLICY_PENDING'', ''POLICY_ALLOWED'', ''POLICY_APPROVED_ONCHAIN'', ''POLICY_DENIED'', ''POLICY_UNAVAILABLE'',
      ''AWAITING_FINANCIAL_SAFETY'', ''SUBSTITUTION_REQUESTED'', ''REPLACEMENT_COMMITTED'', ''RELEASE_BLOCKED'',
      ''COMMITMENT_UNKNOWN'', ''RELEASE_UNKNOWN''] @ TERMINAL_SUBSTITUTION_STATES"

definition NON_FINANCIAL_STATES :: "string list" where
  "NON_FINANCIAL_STATES =
     [''CREATED'', ''AUTHORITY_RESOLVING'', ''AUTHORITY_VALID'', ''AUTHORITY_REQUIRED'', ''AUTHORITY_REVOKED'',
      ''AUTHORITY_EXPIRED'', ''AUTHORITY_UNAVAILABLE'', ''ORG_APPROVAL_PENDING'', ''ORG_APPROVED'',
      ''AUTHORITY_APPROVED_ONCHAIN'', ''ORG_APPROVAL_INVALID'', ''ORG_APPROVAL_EXPIRED'', ''ORG_APPROVAL_UNAVAILABLE'',
      ''POLICY_PENDING'', ''POLICY_ALLOWED'', ''POLICY_APPROVED_ONCHAIN'', ''POLICY_DENIED'', ''POLICY_UNAVAILABLE'',
      ''SUBSTITUTION_REQUESTED'', ''RELEASE_BLOCKED'']"

definition BLOCKED_STATES :: "string list" where
  "BLOCKED_STATES =
     [''AUTHORITY_REQUIRED'', ''AUTHORITY_REVOKED'', ''AUTHORITY_EXPIRED'', ''AUTHORITY_UNAVAILABLE'', ''ORG_APPROVAL_INVALID'',
      ''ORG_APPROVAL_EXPIRED'', ''ORG_APPROVAL_UNAVAILABLE'', ''POLICY_DENIED'', ''POLICY_UNAVAILABLE'', ''RELEASE_BLOCKED'']"

definition terminal_state :: "string \<Rightarrow> bool" where
  "terminal_state s \<longleftrightarrow> s \<in> set TERMINAL_SUBSTITUTION_STATES"

definition canAdvanceOperation :: "string \<Rightarrow> string \<Rightarrow> bool" where
  "canAdvanceOperation from to \<longleftrightarrow>
     (if terminal_state from then False
      else if from = ''COMMITMENT_UNKNOWN'' \<or> from = ''RELEASE_UNKNOWN''
      then to = ''AWAITING_FINANCIAL_SAFETY'' \<or> to = ''REPLACEMENT_COMMITTED'' \<or> terminal_state to
      else True)"

definition isBlocked :: "string \<Rightarrow> bool" where
  "isBlocked s \<longleftrightarrow> s \<in> set BLOCKED_STATES"

section \<open>The two prices a release needs\<close>

datatype PriceInputStatus = PRICE_READY | PRICE_STALE | PRICE_UNAVAILABLE | PRICE_UNKNOWN

record PriceInputReadiness =
  pi_status :: PriceInputStatus
  pi_assetId :: string
  pi_price :: "int option"
  pi_updatedAt :: "int option"
  pi_ageSeconds :: "int option"
  pi_maxAgeSeconds :: "int option"

record ValuationReadiness =
  vr_observedAt :: int
  vr_settlementPrice :: PriceInputReadiness
  vr_replacementCollateralPrice :: PriceInputReadiness
  vr_allInputsReady :: bool

text \<open>A price read: the price and its time, or nothing where the call fails.\<close>

definition readPriceInput :: "string \<Rightarrow> int option \<Rightarrow> int \<Rightarrow> (int \<times> int) option \<Rightarrow> PriceInputReadiness" where
  "readPriceInput assetId maxAge now answer =
     (case answer of
        None \<Rightarrow> \<lparr>pi_status = PRICE_UNKNOWN, pi_assetId = assetId, pi_price = None, pi_updatedAt = None, pi_ageSeconds = None,
                 pi_maxAgeSeconds = maxAge\<rparr>
      | Some (price, updatedAt) \<Rightarrow>
          if price = 0
          then \<lparr>pi_status = PRICE_UNAVAILABLE, pi_assetId = assetId, pi_price = Some 0, pi_updatedAt = Some updatedAt,
                pi_ageSeconds = None, pi_maxAgeSeconds = maxAge\<rparr>
          else
            let age = now div 1000 - updatedAt
            in \<lparr>pi_status = (case maxAge of None \<Rightarrow> PRICE_UNKNOWN | Some m \<Rightarrow> if age > m then PRICE_STALE else PRICE_READY),
                pi_assetId = assetId, pi_price = Some price, pi_updatedAt = Some updatedAt, pi_ageSeconds = Some age,
                pi_maxAgeSeconds = maxAge\<rparr>)"

text \<open>What the valuation reads: the replacement's maximal age, and the two prices.\<close>

record valuation_reads =
  vl_replacementMaxAge :: "int option"
  vl_settlement :: "(int \<times> int) option"
  vl_replacement :: "(int \<times> int) option"

text \<open>The deployment record: the facility, its settlement feed, and the adapters by their letter.\<close>

record deployment =
  dp_facilityId :: string
  dp_settlementAssetId :: string
  dp_settlementMaxPriceAge :: int
  dp_adapters :: "(string \<times> string) list"

definition readValuationReadiness :: "deployment \<Rightarrow> string \<Rightarrow> int \<Rightarrow> valuation_reads \<Rightarrow> ValuationReadiness" where
  "readValuationReadiness dp replacementAssetId now v =
     (let s = readPriceInput (dp_settlementAssetId dp) (Some (dp_settlementMaxPriceAge dp)) now (vl_settlement v);
          r = readPriceInput replacementAssetId (vl_replacementMaxAge v) now (vl_replacement v)
      in \<lparr>vr_observedAt = now, vr_settlementPrice = s, vr_replacementCollateralPrice = r,
          vr_allInputsReady = (pi_status s = PRICE_READY \<and> pi_status r = PRICE_READY)\<rparr>)"

section \<open>Is a replacement ready to be prepared?\<close>

definition FACILITY_STATUS :: "string list" where
  "FACILITY_STATUS = [''DRAFT'', ''PENDING_ACTIVATION'', ''ACTIVE'', ''SUBSTITUTION_PENDING'', ''RECALLING'', ''MATURED'',
     ''SETTLED'', ''DEFAULTED'']"

definition SUBSTITUTION_STATE :: "string list" where
  "SUBSTITUTION_STATE = [''NONE'', ''REQUESTED'', ''REPLACEMENT_COMMITTING'', ''COMMITMENT_UNKNOWN'', ''REPLACEMENT_COMMITTED'']"

definition name_at :: "string list \<Rightarrow> nat \<Rightarrow> string" where
  "name_at names i = (if i < length names then names ! i else ''UNKNOWN'')"

record facility_reads =
  fr_blockNumber :: nat
  fr_blockTime :: int
  fr_status :: nat
  fr_collateralAssetId :: string
  fr_collateralInstrumentRef :: string
  fr_collateralUnits :: int
  fr_substitution :: nat
  fr_epoch :: int
  fr_authorityConfigured :: bool
  fr_authorityRevoked :: bool
  fr_policyConfigured :: bool
  fr_assetId :: string
  fr_instrumentRef :: string
  fr_canCommit :: "bool \<times> string"
  fr_transferable :: "bool \<times> string"
  fr_committedUnits :: int
  fr_ensRoleLive :: bool
  fr_valuation :: valuation_reads

datatype ReadinessOutcome =
    PREPARATION_READY
  | FACILITY_UNAVAILABLE
  | FACILITY_NOT_ACTIVE
  | SUBSTITUTION_ALREADY_PENDING
  | READINESS_COMMITMENT_UNKNOWN
  | ATS_RESTRICTED
  | READINESS_AUTHORITY_REVOKED
  | READINESS_AUTHORITY_REQUIRED
  | CRE_REQUIRED
  | REPLACEMENT_UNSAFE

fun readiness_name :: "ReadinessOutcome \<Rightarrow> string" where
  "readiness_name PREPARATION_READY = ''PREPARATION_READY''"
| "readiness_name FACILITY_UNAVAILABLE = ''FACILITY_UNAVAILABLE''"
| "readiness_name FACILITY_NOT_ACTIVE = ''FACILITY_NOT_ACTIVE''"
| "readiness_name SUBSTITUTION_ALREADY_PENDING = ''SUBSTITUTION_ALREADY_PENDING''"
| "readiness_name READINESS_COMMITMENT_UNKNOWN = ''COMMITMENT_UNKNOWN''"
| "readiness_name ATS_RESTRICTED = ''ATS_RESTRICTED''"
| "readiness_name READINESS_AUTHORITY_REVOKED = ''AUTHORITY_REVOKED''"
| "readiness_name READINESS_AUTHORITY_REQUIRED = ''AUTHORITY_REQUIRED''"
| "readiness_name CRE_REQUIRED = ''CRE_REQUIRED''"
| "readiness_name REPLACEMENT_UNSAFE = ''REPLACEMENT_UNSAFE''"

record SubstitutionReadiness =
  rd_outcome :: ReadinessOutcome
  rd_facilityId :: string
  rd_observedAt :: int
  rd_observedAtBlock :: "nat option"
  rd_replacement :: string
  rd_requestedUnits :: int
  rd_facilityStatus :: string
  rd_riskEpoch :: "int option"
  rd_collateralAssetId :: string
  rd_collateralInstrumentRef :: string
  rd_collateralUnits :: "int option"
  rd_substitutionState :: string
  rd_identity :: "(string \<times> string \<times> string) option"
  rd_canCommit :: bool
  rd_transferable :: bool
  rd_reason :: "string option"
  rd_authority :: "bool \<times> bool \<times> bool"
  rd_policyConfigured :: bool
  rd_valuation :: "ValuationReadiness option"
  rd_enforcedAtRelease :: bool
  rd_blockingReasons :: "string list"

definition unavailable :: "deployment \<Rightarrow> string \<Rightarrow> int \<Rightarrow> ReadinessOutcome \<Rightarrow> string \<Rightarrow> int \<Rightarrow> SubstitutionReadiness" where
  "unavailable dp replacement units' outcome reason now =
     \<lparr>rd_outcome = outcome, rd_facilityId = dp_facilityId dp, rd_observedAt = now, rd_observedAtBlock = None,
      rd_replacement = replacement, rd_requestedUnits = units', rd_facilityStatus = ''UNKNOWN'', rd_riskEpoch = None,
      rd_collateralAssetId = ''UNKNOWN'', rd_collateralInstrumentRef = ''UNKNOWN'', rd_collateralUnits = None,
      rd_substitutionState = ''UNKNOWN'', rd_identity = None, rd_canCommit = False, rd_transferable = False, rd_reason = None,
      rd_authority = (False, False, False), rd_policyConfigured = False, rd_valuation = None, rd_enforcedAtRelease = False,
      rd_blockingReasons = [reason]\<rparr>"

definition bytesReason :: "string \<Rightarrow> string option" where
  "bytesReason v = (if take 2 v = ''0x'' \<and> drop 2 v \<noteq> [] \<and> list_all (\<lambda>c. c = CHR ''0'') (drop 2 v) then None else Some v)"

definition gate_outcome :: "facility_reads \<Rightarrow> ReadinessOutcome \<times> string list" where
  "gate_outcome fr =
     (let status = name_at FACILITY_STATUS (fr_status fr); sub = name_at SUBSTITUTION_STATE (fr_substitution fr)
      in if status \<noteq> ''ACTIVE'' then (FACILITY_NOT_ACTIVE, [''Facility status is '' @ status @ ''.''])
         else if sub = ''COMMITMENT_UNKNOWN''
         then (READINESS_COMMITMENT_UNKNOWN, [''An existing commitment requires authoritative reconciliation.''])
         else if sub \<noteq> ''NONE'' then (SUBSTITUTION_ALREADY_PENDING, [''Only one substitution may be active.''])
         else if \<not> fst (fr_canCommit fr) \<or> \<not> fst (fr_transferable fr)
         then (ATS_RESTRICTED, [''The proposed ATS replacement is currently restricted.''])
         else if \<not> fr_authorityConfigured fr
         then (READINESS_AUTHORITY_REQUIRED, [''The facility has no configured authority verifier.''])
         else if fr_authorityRevoked fr \<or> \<not> fr_ensRoleLive fr
         then (READINESS_AUTHORITY_REVOKED,
               [''The current ENS authority is revoked or absent; historical proof cannot authorize a new request.''])
         else if \<not> fr_policyConfigured fr then (CRE_REQUIRED, [''The confidential-policy verifier is not configured.''])
         else (PREPARATION_READY, []))"

fun price_word :: "PriceInputStatus \<Rightarrow> string" where
  "price_word PRICE_READY = ''ready''"
| "price_word PRICE_STALE = ''stale''"
| "price_word PRICE_UNAVAILABLE = ''unavailable''"
| "price_word PRICE_UNKNOWN = ''unknown''"

definition price_reasons :: "ValuationReadiness \<Rightarrow> string list" where
  "price_reasons v =
     (if pi_status (vr_settlementPrice v) \<noteq> PRICE_READY
      then [''Settlement valuation input is '' @ price_word (pi_status (vr_settlementPrice v)) @ ''.''] else [])
     @ (if pi_status (vr_replacementCollateralPrice v) \<noteq> PRICE_READY
        then [''Replacement collateral valuation input is '' @ price_word (pi_status (vr_replacementCollateralPrice v)) @ ''.''] else [])"

definition replacement_candidate :: "deployment \<Rightarrow> string \<Rightarrow> (string \<times> string) option" where
  "replacement_candidate dp replacement =
     List.find (\<lambda>(key, _). toLowerCase key = toLowerCase replacement) (dp_adapters dp)"

text \<open>
  The source reads the valuation under a handler that answers null, under which a preparation would count as
  ready. The handler is never entered: \<open>readPriceInput\<close> and \<open>readReplacementMaxAge\<close> return every failure of
  a read as a value, and nothing else in \<open>readValuationReadiness\<close> throws, so it is left out.
\<close>

definition readSubstitutionReadiness ::
  "deployment \<Rightarrow> string \<Rightarrow> int \<Rightarrow> int \<Rightarrow> string + facility_reads \<Rightarrow> SubstitutionReadiness" where
  "readSubstitutionReadiness dp replacement units' now answer =
     (case replacement_candidate dp replacement of
        None \<Rightarrow> unavailable dp replacement units' REPLACEMENT_UNSAFE ''Replacement selection or requested units are invalid.'' now
      | Some (key, adapter) \<Rightarrow>
          if units' \<le> 0
          then unavailable dp replacement units' REPLACEMENT_UNSAFE ''Replacement selection or requested units are invalid.'' now
          else
            (case answer of
               Inl message \<Rightarrow> unavailable dp replacement units' FACILITY_UNAVAILABLE (take 180 message) now
             | Inr fr \<Rightarrow>
                 let (gated, reasons) = gate_outcome fr;
                     valuation = (if gated = PREPARATION_READY
                                  then Some (readValuationReadiness dp (fr_assetId fr) now (fr_valuation fr)) else None);
                     unsafe = (case valuation of Some v \<Rightarrow> \<not> vr_allInputsReady v | None \<Rightarrow> False);
                     outcome = (if unsafe then REPLACEMENT_UNSAFE else gated)
                 in \<lparr>rd_outcome = outcome, rd_facilityId = dp_facilityId dp, rd_observedAt = fr_blockTime fr * 1000,
                     rd_observedAtBlock = Some (fr_blockNumber fr), rd_replacement = key, rd_requestedUnits = units',
                     rd_facilityStatus = name_at FACILITY_STATUS (fr_status fr), rd_riskEpoch = Some (fr_epoch fr),
                     rd_collateralAssetId = fr_collateralAssetId fr, rd_collateralInstrumentRef = fr_collateralInstrumentRef fr,
                     rd_collateralUnits = Some (fr_collateralUnits fr),
                     rd_substitutionState = name_at SUBSTITUTION_STATE (fr_substitution fr),
                     rd_identity = Some (fr_assetId fr, fr_instrumentRef fr, adapter), rd_canCommit = fst (fr_canCommit fr),
                     rd_transferable = fst (fr_transferable fr),
                     rd_reason = option_or (bytesReason (snd (fr_canCommit fr))) (bytesReason (snd (fr_transferable fr))),
                     rd_authority = (fr_authorityConfigured fr, fr_authorityRevoked fr, fr_ensRoleLive fr),
                     rd_policyConfigured = fr_policyConfigured fr, rd_valuation = valuation,
                     rd_enforcedAtRelease = (outcome = PREPARATION_READY),
                     rd_blockingReasons = reasons @ (case valuation of Some v \<Rightarrow> if unsafe then price_reasons v else [] | None \<Rightarrow> [])\<rparr>))"

section \<open>The current authority\<close>

record ConfiguredAuthority =
  ca_facilityId :: string
  ca_authorityVerifier :: string
  ca_expectedEnsDigest :: string
  ca_orgApprover :: string
  ca_ensRoleRevoked :: bool
  ca_configured :: bool
  ca_hederaBlock :: nat

datatype ObservedAuthority = Observed bool nat int | NotObserved string int

definition readObservedAuthority :: "int \<Rightarrow> string + bool \<times> nat \<Rightarrow> ObservedAuthority" where
  "readObservedAuthority observedAt answer =
     (case answer of Inl m \<Rightarrow> NotObserved (take 180 m) observedAt | Inr (hasRoles, block) \<Rightarrow> Observed hasRoles block observedAt)"

datatype CurrentAuthority =
    AUTHORITY_VALID string string ConfiguredAuthority ObservedAuthority
  | AUTHORITY_REVOKED string int ConfiguredAuthority ObservedAuthority
  | AUTHORITY_REQUIRED int ConfiguredAuthority ObservedAuthority
  | AUTHORITY_UNAVAILABLE string

fun authority_outcome :: "CurrentAuthority \<Rightarrow> string" where
  "authority_outcome (AUTHORITY_VALID _ _ _ _) = ''AUTHORITY_VALID''"
| "authority_outcome (AUTHORITY_REVOKED _ _ _ _) = ''AUTHORITY_REVOKED''"
| "authority_outcome (AUTHORITY_REQUIRED _ _ _) = ''AUTHORITY_REQUIRED''"
| "authority_outcome (AUTHORITY_UNAVAILABLE _) = ''AUTHORITY_UNAVAILABLE''"

record authority_reads =
  au_configured :: "string + ConfiguredAuthority"
  au_observed :: "string + bool \<times> nat"

definition readCurrentEnsAuthority :: "int \<Rightarrow> authority_reads \<Rightarrow> CurrentAuthority" where
  "readCurrentEnsAuthority now au =
     (case au_configured au of
        Inl m \<Rightarrow> AUTHORITY_UNAVAILABLE (''Hedera read failed: '' @ take 160 m)
      | Inr c \<Rightarrow>
          let o' = readObservedAuthority now (au_observed au)
          in if \<not> ca_configured c then AUTHORITY_REQUIRED now c o'
             else if ca_ensRoleRevoked c
             then AUTHORITY_REVOKED ''Hedera EthOnlineAuthorityVerifier.ensRoleRevoked is set.'' now c o'
             else (case o' of
                     NotObserved reason _ \<Rightarrow> AUTHORITY_UNAVAILABLE (''Sepolia read failed: '' @ reason)
                   | Observed hasRoles _ _ \<Rightarrow>
                       if \<not> hasRoles
                       then AUTHORITY_REVOKED ''The live Sepolia EAC role read returned false for the configured resource/delegate.'' now c o'
                       else AUTHORITY_VALID (ca_expectedEnsDigest c) (ca_orgApprover c) c o'))"

section \<open>The decision to be approved\<close>

datatype FacilityOperation = ACTIVATE | SUBSTITUTE | RECALL | SETTLE

fun FACILITY_OPERATION :: "FacilityOperation \<Rightarrow> int" where
  "FACILITY_OPERATION ACTIVATE = 0"
| "FACILITY_OPERATION SUBSTITUTE = 1"
| "FACILITY_OPERATION RECALL = 2"
| "FACILITY_OPERATION SETTLE = 3"

record FacilityDecision =
  fd_facilityId :: string
  fd_operation :: int
  fd_subjectAssetId :: string
  fd_subjectInstrumentRef :: string
  fd_requestId :: string
  fd_pinnedEpoch :: int
  fd_collateralPolicyVersion :: int
  fd_decisionVersion :: int
  fd_expiry :: int
  fd_nonce :: int
  fd_proofRef :: string
  fd_attestationHash :: string

definition decisionHash :: "externals \<Rightarrow> FacilityDecision \<Rightarrow> string" where
  "decisionHash x d = keccakAbi x
     [ABI_string ''USANCE_FACILITY_DECISION_V1'', ABI_bytes32 (fd_facilityId d), ABI_uint (fd_operation d),
      ABI_bytes32 (fd_subjectAssetId d), ABI_bytes32 (fd_subjectInstrumentRef d), ABI_bytes32 (fd_requestId d),
      ABI_uint (fd_pinnedEpoch d), ABI_uint (fd_collateralPolicyVersion d), ABI_uint (fd_decisionVersion d),
      ABI_uint (fd_expiry d), ABI_uint (fd_nonce d), ABI_bytes32 (fd_proofRef d), ABI_bytes32 (fd_attestationHash d)]"

definition orgApprovalHash :: "externals \<Rightarrow> string \<Rightarrow> string \<Rightarrow> string" where
  "orgApprovalHash x dHash ensDigest =
     keccakAbi x [ABI_string ''USANCE_ORG_APPROVAL_V1'', ABI_bytes32 dHash, ABI_bytes32 ensDigest]"

text \<open>A boolean is encoded as the number 0 or 1.\<close>

definition creReportHash :: "externals \<Rightarrow> string \<Rightarrow> bool \<Rightarrow> string \<Rightarrow> int \<Rightarrow> string \<Rightarrow> int \<Rightarrow> string" where
  "creReportHash x dHash allow policyCommitment workflowVersion reasonCode expiry = keccakAbi x
     [ABI_string ''USANCE_CRE_POLICY_V1'', ABI_bytes32 dHash, ABI_uint (if allow then 1 else 0), ABI_bytes32 policyCommitment,
      ABI_uint workflowVersion, ABI_bytes32 reasonCode, ABI_uint expiry]"

record OrgApprovalPreparation =
  oa_decision :: FacilityDecision
  oa_decisionHash :: string
  oa_ensDigest :: string
  oa_orgApprovalHash :: string
  oa_orgApprover :: string

definition remainingValiditySeconds :: "FacilityDecision \<Rightarrow> int \<Rightarrow> int" where
  "remainingValiditySeconds d now = fd_expiry d - now div 1000"

section \<open>Reconciliation with the chain\<close>

record HederaFacility =
  hf_status :: string
  hf_outstanding :: int
  hf_riskEpochAtActivation :: int
  hf_collateral :: "string \<times> string \<times> string \<times> int \<times> int"
  hf_substitutionState :: string
  hf_requestId :: string
  hf_requiredUnits :: int
  hf_authorityExpiry :: int

record hedera_reads =
  hr_blockNumber :: nat
  hr_status :: nat
  hr_outstanding :: int
  hr_riskEpoch :: int
  hr_collateral :: "string \<times> string \<times> string \<times> int \<times> int"
  hr_substitution :: nat
  hr_requestId :: string
  hr_requiredUnits :: int
  hr_authorityExpiry :: int

definition readHederaFacility :: "string + hedera_reads \<Rightarrow> string + nat \<times> HederaFacility" where
  "readHederaFacility answer =
     (case answer of
        Inl m \<Rightarrow> Inl (take 180 m)
      | Inr h \<Rightarrow> Inr (hr_blockNumber h,
          \<lparr>hf_status = name_at FACILITY_STATUS (hr_status h), hf_outstanding = hr_outstanding h,
           hf_riskEpochAtActivation = hr_riskEpoch h, hf_collateral = hr_collateral h,
           hf_substitutionState = name_at SUBSTITUTION_STATE (hr_substitution h), hf_requestId = hr_requestId h,
           hf_requiredUnits = hr_requiredUnits h, hf_authorityExpiry = hr_authorityExpiry h\<rparr>))"

definition ReconciliationOutcome :: "string list" where
  "ReconciliationOutcome = [''NONE'', ''REQUESTED'', ''REPLACEMENT_COMMITTING'', ''COMMITMENT_UNKNOWN'', ''REPLACEMENT_COMMITTED'',
     ''OLD_RELEASED'', ''EXTERNAL_ATTEMPT_DETECTED'', ''UNAVAILABLE'']"

definition mapReconciliationOutcome :: "string \<Rightarrow> bool \<Rightarrow> bool \<Rightarrow> bool \<Rightarrow> string" where
  "mapReconciliationOutcome onChainState matches zeroRequestId operationAlreadyCompleted =
     (if onChainState = ''COMMITMENT_UNKNOWN'' then ''COMMITMENT_UNKNOWN''
      else if \<not> matches \<and> \<not> zeroRequestId then ''EXTERNAL_ATTEMPT_DETECTED''
      else if onChainState = ''NONE''
      then (if matches then ''OLD_RELEASED'' else if zeroRequestId \<and> operationAlreadyCompleted then ''OLD_RELEASED'' else ''NONE'')
      else if onChainState = ''REQUESTED'' then ''REQUESTED''
      else if onChainState = ''REPLACEMENT_COMMITTING'' then ''REPLACEMENT_COMMITTING''
      else if onChainState = ''REPLACEMENT_COMMITTED'' then ''REPLACEMENT_COMMITTED''
      else ''UNAVAILABLE'')"

record Reconciliation =
  rn_outcome :: string
  rn_observedAt :: int
  rn_observedAtBlock :: "nat option"
  rn_onChainSubstitutionState :: string
  rn_onChainRequestId :: string
  rn_matchesThisOperation :: bool
  rn_readiness :: "SubstitutionReadiness option"
  rn_reason :: "string option"

definition zero_id :: "string \<Rightarrow> bool" where
  "zero_id s \<longleftrightarrow> bytesReason s = None"

definition reconcileSubstitutionOperation ::
  "string \<Rightarrow> bool \<Rightarrow> int \<Rightarrow> string + hedera_reads \<Rightarrow> SubstitutionReadiness \<Rightarrow> Reconciliation" where
  "reconcileSubstitutionOperation requestId operationAlreadyCompleted now answer readiness =
     (case readHederaFacility answer of
        Inl reason \<Rightarrow>
          \<lparr>rn_outcome = ''UNAVAILABLE'', rn_observedAt = now, rn_observedAtBlock = None, rn_onChainSubstitutionState = ''UNKNOWN'',
           rn_onChainRequestId = ''UNKNOWN'', rn_matchesThisOperation = False, rn_readiness = None, rn_reason = Some reason\<rparr>
      | Inr (block, f) \<Rightarrow>
          let matches = (toLowerCase (hf_requestId f) = toLowerCase requestId)
          in \<lparr>rn_outcome = mapReconciliationOutcome (hf_substitutionState f) matches (zero_id (hf_requestId f)) operationAlreadyCompleted,
              rn_observedAt = now, rn_observedAtBlock = Some block, rn_onChainSubstitutionState = hf_substitutionState f,
              rn_onChainRequestId = hf_requestId f, rn_matchesThisOperation = matches,
              rn_readiness = (if rd_outcome readiness = FACILITY_UNAVAILABLE then None else Some readiness), rn_reason = None\<rparr>)"

section \<open>The operation store\<close>

record SupabaseOperation =
  so_operation_id :: string
  so_request_id :: string
  so_facility_id :: string
  so_home_domain :: string
  so_old_instrument_id :: string
  so_replacement_instrument_id :: string
  so_requested_units :: int
  so_state :: string
  so_version :: nat
  so_created_at :: int
  so_updated_at :: int
  so_completed_at :: "int option"

text \<open>What an event carries: the JSON of the value named.\<close>

datatype payload =
    PEmpty
  | PRequest string
  | PAuthority CurrentAuthority
  | PReadiness SubstitutionReadiness
  | PPreparation OrgApprovalPreparation
  | PReconciliation Reconciliation

record SupabaseOperationEvent =
  oe_operation_id :: string
  oe_sequence :: nat
  oe_event_type :: string
  oe_payload :: payload
  oe_source :: string
  oe_source_reference :: "string option"
  oe_created_at :: int

record outbox_row =
  ob_operation :: string
  ob_event_type :: string
  ob_delivered_at :: "int option"

record desk_db =
  ds_operations :: "SupabaseOperation list"
  ds_events :: "SupabaseOperationEvent list"
  ds_outbox :: "outbox_row list"

datatype desk_sql_error = OperationNotFound | StaleVersion | TerminalOperation | DeskUniqueViolation | UnitsNotPositive

definition active_for :: "string \<Rightarrow> SupabaseOperation \<Rightarrow> bool" where
  "active_for facility o' \<longleftrightarrow> so_facility_id o' = facility \<and> \<not> terminal_state (so_state o')"

definition add_outbox :: "string \<Rightarrow> string \<Rightarrow> desk_db \<Rightarrow> desk_db" where
  "add_outbox i e db =
     (if list_ex (\<lambda>r. ob_operation r = i \<and> ob_event_type r = e \<and> ob_delivered_at r = None) (ds_outbox db) then db
      else db\<lparr>ds_outbox := ds_outbox db @ [\<lparr>ob_operation = i, ob_event_type = e, ob_delivered_at = None\<rparr>]\<rparr>)"

text \<open>
  \<open>create_substitution_operation\<close>: the row of an earlier call with the same request is returned as it
  is; a new row must be the only active one of its facility.
\<close>

definition create_substitution_operation ::
  "SupabaseOperation \<Rightarrow> int \<Rightarrow> desk_db \<Rightarrow> (desk_sql_error + SupabaseOperation) \<times> desk_db" where
  "create_substitution_operation asked now db =
     (case List.find (\<lambda>r. so_request_id r = so_request_id asked) (ds_operations db) of
        Some r \<Rightarrow> if so_operation_id r = so_operation_id asked then (Inl DeskUniqueViolation, db) else (Inr r, db)
      | None \<Rightarrow>
          if so_requested_units asked \<le> 0 then (Inl UnitsNotPositive, db)
          else if list_ex (\<lambda>r. so_operation_id r = so_operation_id asked) (ds_operations db)
                  \<or> \<not> terminal_state (so_state asked) \<and> list_ex (active_for (so_facility_id asked)) (ds_operations db)
          then (Inl DeskUniqueViolation, db)
          else
            let row = asked\<lparr>so_version := 1, so_created_at := now, so_updated_at := now, so_completed_at := None\<rparr>;
                i = so_operation_id asked
            in (Inr row,
                add_outbox i ''RECONCILE_OPERATION''
                  (db\<lparr>ds_operations := ds_operations db @ [row],
                      ds_events := ds_events db @ [\<lparr>oe_operation_id = i, oe_sequence = 1, oe_event_type = ''OPERATION_CREATED'',
                         oe_payload = PRequest (so_request_id asked), oe_source = ''USANCE_API'', oe_source_reference = None,
                         oe_created_at = now\<rparr>]\<rparr>)))"

definition events_of :: "string \<Rightarrow> desk_db \<Rightarrow> SupabaseOperationEvent list" where
  "events_of i db = filter (\<lambda>e. oe_operation_id e = i) (ds_events db)"

record transition =
  tr_operationId :: string
  tr_expectedVersion :: nat
  tr_nextState :: string
  tr_eventType :: string
  tr_payload :: payload
  tr_source :: string
  tr_sourceReference :: "string option"
  tr_outboxEventType :: "string option"

definition transition_substitution_operation ::
  "transition \<Rightarrow> int \<Rightarrow> desk_db \<Rightarrow> (desk_sql_error + SupabaseOperation) \<times> desk_db" where
  "transition_substitution_operation t now db =
     (case List.find (\<lambda>r. so_operation_id r = tr_operationId t) (ds_operations db) of
        None \<Rightarrow> (Inl OperationNotFound, db)
      | Some r \<Rightarrow>
          if so_version r \<noteq> tr_expectedVersion t then (Inl StaleVersion, db)
          else if terminal_state (so_state r) then (Inl TerminalOperation, db)
          else
            let next_sequence = foldr max (map oe_sequence (events_of (tr_operationId t) db)) 0 + 1;
                row = r\<lparr>so_state := tr_nextState t, so_version := so_version r + 1, so_updated_at := now\<rparr>;
                db = db\<lparr>ds_operations := map (\<lambda>q. if so_operation_id q = tr_operationId t then row else q) (ds_operations db),
                        ds_events := ds_events db @ [\<lparr>oe_operation_id = tr_operationId t, oe_sequence = next_sequence,
                          oe_event_type = tr_eventType t, oe_payload = tr_payload t, oe_source = tr_source t,
                          oe_source_reference = tr_sourceReference t, oe_created_at = now\<rparr>]\<rparr>
            in (Inr row, case tr_outboxEventType t of None \<Rightarrow> db | Some e \<Rightarrow> add_outbox (tr_operationId t) e db))"

text \<open>The client of the store.\<close>

datatype desk_store_error = SUBSTITUTION_STORE_UNAVAILABLE | SUBSTITUTION_OPERATION_STALE

record desk_env =
  dv_externals :: externals
  dv_deployment :: deployment
  dv_reachable :: bool
  dv_status :: "desk_sql_error \<Rightarrow> nat"
  dv_enabled :: bool

definition createDurableSubstitutionOperation ::
  "desk_env \<Rightarrow> SupabaseOperation \<Rightarrow> int \<Rightarrow> desk_db \<Rightarrow> (desk_store_error + SupabaseOperation) \<times> desk_db" where
  "createDurableSubstitutionOperation v input now db =
     (if \<not> dv_reachable v then (Inl SUBSTITUTION_STORE_UNAVAILABLE, db)
      else (case create_substitution_operation input now db of
              (Inl _, db') \<Rightarrow> (Inl SUBSTITUTION_STORE_UNAVAILABLE, db')
            | (Inr r, db') \<Rightarrow> (Inr r, db')))"

definition transitionDurableSubstitutionOperation ::
  "desk_env \<Rightarrow> transition \<Rightarrow> int \<Rightarrow> desk_db \<Rightarrow> (desk_store_error + SupabaseOperation) \<times> desk_db" where
  "transitionDurableSubstitutionOperation v t now db =
     (if \<not> dv_reachable v then (Inl SUBSTITUTION_STORE_UNAVAILABLE, db)
      else (case transition_substitution_operation t now db of
              (Inl e, db') \<Rightarrow> (Inl (if dv_status v e = 409 then SUBSTITUTION_OPERATION_STALE else SUBSTITUTION_STORE_UNAVAILABLE), db')
            | (Inr r, db') \<Rightarrow> (Inr r, db')))"

definition findActiveSubstitutionOperation :: "desk_env \<Rightarrow> string \<Rightarrow> desk_db \<Rightarrow> desk_store_error + SupabaseOperation option" where
  "findActiveSubstitutionOperation v facilityId db =
     (if \<not> dv_reachable v then Inl SUBSTITUTION_STORE_UNAVAILABLE
      else Inr (List.find (active_for (toLowerCase facilityId)) (ds_operations db)))"

text \<open>Of the rows of a facility the one created last; the first of those created together.\<close>

definition latest :: "SupabaseOperation list \<Rightarrow> SupabaseOperation option" where
  "latest rs = (case sort_key (\<lambda>r. - so_created_at r) rs of [] \<Rightarrow> None | r # _ \<Rightarrow> Some r)"

definition findMostRecentSubstitutionOperation :: "desk_env \<Rightarrow> string \<Rightarrow> desk_db \<Rightarrow> desk_store_error + SupabaseOperation option" where
  "findMostRecentSubstitutionOperation v facilityId db =
     (if \<not> dv_reachable v then Inl SUBSTITUTION_STORE_UNAVAILABLE
      else Inr (latest (filter (\<lambda>r. so_facility_id r = toLowerCase facilityId) (ds_operations db))))"

definition findSubstitutionOperationByRequestId :: "desk_env \<Rightarrow> string \<Rightarrow> desk_db \<Rightarrow> desk_store_error + SupabaseOperation option" where
  "findSubstitutionOperationByRequestId v requestId db =
     (if \<not> dv_reachable v then Inl SUBSTITUTION_STORE_UNAVAILABLE
      else Inr (List.find (\<lambda>r. so_request_id r = toLowerCase requestId) (ds_operations db)))"

definition listSubstitutionOperationEvents :: "desk_env \<Rightarrow> string \<Rightarrow> desk_db \<Rightarrow> desk_store_error + SupabaseOperationEvent list" where
  "listSubstitutionOperationEvents v operationId db =
     (if \<not> dv_reachable v then Inl SUBSTITUTION_STORE_UNAVAILABLE
      else Inr (sort_key oe_sequence (events_of operationId db)))"

section \<open>Preparation\<close>

definition DECISION_EXPIRY_SECONDS :: int where "DECISION_EXPIRY_SECONDS = 3600"

definition mapReadinessToBlockedState :: "string \<Rightarrow> string" where
  "mapReadinessToBlockedState outcome =
     (if outcome = ''AUTHORITY_REVOKED'' then ''AUTHORITY_REVOKED''
      else if outcome = ''AUTHORITY_REQUIRED'' then ''AUTHORITY_REQUIRED''
      else if outcome = ''CRE_REQUIRED'' then ''POLICY_UNAVAILABLE''
      else if outcome = ''COMMITMENT_UNKNOWN'' then ''COMMITMENT_UNKNOWN''
      else ''AUTHORITY_UNAVAILABLE'')"

datatype PreparationMode = INITIAL | REFRESH

definition transition_of :: "SupabaseOperation \<Rightarrow> string \<Rightarrow> string \<Rightarrow> payload \<Rightarrow> transition" where
  "transition_of o' nextState eventType p =
     \<lparr>tr_operationId = so_operation_id o', tr_expectedVersion = so_version o', tr_nextState = nextState, tr_eventType = eventType,
      tr_payload = p, tr_source = ''USANCE_API'', tr_sourceReference = None, tr_outboxEventType = None\<rparr>"

definition text_hash :: "externals \<Rightarrow> string \<Rightarrow> string" where
  "text_hash x s = keccakBytes x (stringToBytes x (units s))"

definition prepared_decision :: "externals \<Rightarrow> SupabaseOperation \<Rightarrow> string \<times> string \<times> string \<Rightarrow> int \<Rightarrow> int \<Rightarrow> FacilityDecision" where
  "prepared_decision x o' identity epoch now =
     \<lparr>fd_facilityId = so_facility_id o', fd_operation = FACILITY_OPERATION SUBSTITUTE, fd_subjectAssetId = fst identity,
      fd_subjectInstrumentRef = fst (snd identity), fd_requestId = so_request_id o', fd_pinnedEpoch = epoch,
      fd_collateralPolicyVersion = epoch, fd_decisionVersion = 1, fd_expiry = now div 1000 + DECISION_EXPIRY_SECONDS,
      fd_nonce = now, fd_proofRef = text_hash x (''proof:SUBSTITUTE:'' @ so_request_id o'),
      fd_attestationHash = text_hash x (''att:SUBSTITUTE:'' @ so_request_id o')\<rparr>"

definition org_approval :: "externals \<Rightarrow> FacilityDecision \<Rightarrow> string \<Rightarrow> string \<Rightarrow> OrgApprovalPreparation" where
  "org_approval x d digest approver =
     \<lparr>oa_decision = d, oa_decisionHash = decisionHash x d, oa_ensDigest = digest,
      oa_orgApprovalHash = orgApprovalHash x (decisionHash x d) digest, oa_orgApprover = approver\<rparr>"

text \<open>What the preparation reads of the chains, and the clock.\<close>

record preparation_reads =
  pr_now :: int
  pr_authority :: authority_reads
  pr_facility :: "string + facility_reads"

type_synonym preparing = "(desk_store_error + SupabaseOperation \<times> OrgApprovalPreparation option) \<times> desk_db"

definition stop_at :: "desk_env \<Rightarrow> SupabaseOperation \<Rightarrow> string \<Rightarrow> string \<Rightarrow> payload \<Rightarrow> int \<Rightarrow> desk_db \<Rightarrow> preparing" where
  "stop_at v o' nextState eventType p now db =
     (case transitionDurableSubstitutionOperation v (transition_of o' nextState eventType p) now db of
        (Inl e, db') \<Rightarrow> (Inl e, db')
      | (Inr stopped, db') \<Rightarrow> (Inr (stopped, None), db'))"

definition prepare_approval ::
  "desk_env \<Rightarrow> SupabaseOperation \<Rightarrow> PreparationMode \<Rightarrow> CurrentAuthority \<Rightarrow> string \<Rightarrow> string \<Rightarrow> string \<times> string \<times> string \<Rightarrow> int
     \<Rightarrow> int \<Rightarrow> desk_db \<Rightarrow> preparing" where
  "prepare_approval v resolving mode authority digest approver identity epoch now db =
     (case transitionDurableSubstitutionOperation v
             (transition_of resolving ''AUTHORITY_VALID'' ''AUTHORITY_VALID'' (PAuthority authority)) now db of
        (Inl e, db') \<Rightarrow> (Inl e, db')
      | (Inr valid, db') \<Rightarrow>
          let preparation = org_approval (dv_externals v) (prepared_decision (dv_externals v) resolving identity epoch now) digest approver
          in (case transitionDurableSubstitutionOperation v
                     (transition_of valid ''ORG_APPROVAL_PENDING''
                        (if mode = REFRESH then ''DECISION_REFRESHED'' else ''ORG_APPROVAL_PENDING'') (PPreparation preparation)) now db' of
                (Inl e, db'') \<Rightarrow> (Inl e, db'')
              | (Inr pending, db'') \<Rightarrow> (Inr (pending, Some preparation), db'')))"

definition resolveAuthorityAndPrepareOrgApproval ::
  "desk_env \<Rightarrow> SupabaseOperation \<Rightarrow> PreparationMode \<Rightarrow> preparation_reads \<Rightarrow> desk_db \<Rightarrow> preparing" where
  "resolveAuthorityAndPrepareOrgApproval v operation mode rs db =
     (case transitionDurableSubstitutionOperation v
             (transition_of operation ''AUTHORITY_RESOLVING'' ''AUTHORITY_RESOLVING_STARTED'' PEmpty) (pr_now rs) db of
        (Inl e, db') \<Rightarrow> (Inl e, db')
      | (Inr resolving, db') \<Rightarrow>
          let authority = readCurrentEnsAuthority (pr_now rs) (pr_authority rs)
          in (case authority of
                AUTHORITY_VALID digest approver _ _ \<Rightarrow>
                  let readiness = readSubstitutionReadiness (dv_deployment v) (so_replacement_instrument_id operation)
                                    (so_requested_units operation) (pr_now rs) (pr_facility rs)
                  in (case (rd_outcome readiness, rd_identity readiness, rd_riskEpoch readiness) of
                        (PREPARATION_READY, Some identity, Some epoch) \<Rightarrow>
                          prepare_approval v resolving mode authority digest approver identity epoch (pr_now rs) db'
                      | _ \<Rightarrow> stop_at v resolving (mapReadinessToBlockedState (readiness_name (rd_outcome readiness)))
                               (''READINESS_'' @ readiness_name (rd_outcome readiness)) (PReadiness readiness) (pr_now rs) db')
              | _ \<Rightarrow> stop_at v resolving (authority_outcome authority) (authority_outcome authority) (PAuthority authority)
                       (pr_now rs) db'))"

section \<open>The timeline\<close>

text \<open>The long dash of one detail is written \<open>-\<close>.\<close>

datatype EvidenceProvenance = DURABLE_EVENT | ONCHAIN_EVIDENCE | PROOF_MANIFEST | CURRENT_STATE

record TimelineItem =
  tl_provenance :: EvidenceProvenance
  tl_title :: string
  tl_detail :: "string option"
  tl_timestamp :: "int option"
  tl_txHash :: "string option"
  tl_network :: "string option"

definition DURABLE_EVENT_LABELS :: "(string \<times> string) list" where
  "DURABLE_EVENT_LABELS =
     [(''OPERATION_CREATED'', ''Substitution request created''),
      (''AUTHORITY_RESOLVING_STARTED'', ''Resolving organization authority''),
      (''AUTHORITY_VALID'', ''Organization authority resolved''),
      (''AUTHORITY_REQUIRED'', ''Organization authority not configured''),
      (''AUTHORITY_REVOKED'', ''Organization authority revoked''),
      (''AUTHORITY_UNAVAILABLE'', ''Organization authority unavailable''),
      (''ORG_APPROVAL_PENDING'', ''Awaiting organization approval''),
      (''ORG_APPROVED'', ''Organization approval recorded''),
      (''AUTHORITY_APPROVED_ONCHAIN'', ''Organization approval recorded on Hedera''),
      (''DECISION_REFRESHED'', ''Approval package refreshed''),
      (''POLICY_APPROVED_ONCHAIN'', ''Lender policy verdict recorded on Hedera''),
      (''SUBSTITUTION_REQUESTED'', ''Replacement collateral requested''),
      (''REPLACEMENT_COMMITTED'', ''Replacement collateral secured''),
      (''RELEASE_BLOCKED'', ''Release paused: settlement valuation was stale''),
      (''RELEASE_BLOCKED_REPLACEMENT_PRICE_STALE'', ''Release paused: replacement valuation was stale''),
      (''RECONCILED'', ''Reconciled against current facility state''),
      (''COMPLETED'', ''Collateral replacement completed'')]"

definition onchain_step :: "string \<Rightarrow> string option \<Rightarrow> string \<Rightarrow> TimelineItem" where
  "onchain_step title detail tx =
     \<lparr>tl_provenance = ONCHAIN_EVIDENCE, tl_title = title, tl_detail = detail, tl_timestamp = None, tl_txHash = Some tx,
      tl_network = Some ''hedera-testnet''\<rparr>"

definition REFRESHED_MARK :: string where
  "REFRESHED_MARK = ''Test-fixture price value unchanged; only its observation timestamp was refreshed.''"

definition PROOF_MANIFEST_STEPS :: "(string \<times> TimelineItem list) list" where
  "PROOF_MANIFEST_STEPS =
     [(''0xb1d927f704bd47533a34d800609827fec3ad95c94620b2843e35ac4a67809526'',
       [onchain_step ''One recovery transaction reverted because its gas limit was insufficient''
          (Some (''No partial state change occurred - confirmed via the Hedera mirror node'' @ [CHR 0x27] @ ''s transaction trace.''))
          ''0x76efa45503611713546523ed66117a30bc70c4fd29355133a2f3ee5342e84e98'',
        onchain_step ''Recovery completed with a corrected gas limit'' None
          ''0xca010e03741ab9cb51a5bb95ee21d3382be2f1834efd309f50fe3f48c42a73c9'',
        onchain_step ''Settlement valuation freshness restored'' (Some REFRESHED_MARK)
          ''0x50aa4c99f9ec8933c76fdfe2c40f3158c3a51b9f6c6f897b782a0113074b5c3d'',
        onchain_step ''Organization approval recorded on Hedera (refreshed package)'' None
          ''0xd8d7a20e2ff46cf5590aa1abcd60e9e49c6190a912912058a9b839e677f00a29'',
        onchain_step ''Lender policy verdict recorded on Hedera (refreshed package)'' None
          ''0xd2ad97c71b1a9b42da75907afe67c0559cb4a1df98aa53ae99d86433d8bf3e76'',
        onchain_step ''Replacement collateral requested again'' None
          ''0x9efa559e54ab0d7378092eee483e5412432d7f1a94180e85b534e89f1926dce4'',
        onchain_step ''Replacement collateral secured again'' None
          ''0x2cd4a70ab2c40caf22ba73a10d9ca1ae16d87973d5ed6293f96a03a145f1b85d'',
        onchain_step ''Replacement valuation freshness restored'' (Some REFRESHED_MARK)
          ''0xa1209b13e7262d223631a26874d94e36205333288fb3059a991a7486cc698f87'',
        onchain_step ''Existing collateral released'' None
          ''0x37924db3ee4c712e7f2cd3a5c00200703f243a7e63f12b655e06f4fd018f55da''])]"

definition event_title :: "string \<Rightarrow> string" where
  "event_title e =
     (case map_of DURABLE_EVENT_LABELS e of
        Some l \<Rightarrow> l
      | None \<Rightarrow> toLowerCase (map (\<lambda>c. if c = CHR ''_'' then CHR '' '' else c) e))"

definition durable_item :: "SupabaseOperationEvent \<Rightarrow> TimelineItem" where
  "durable_item e = \<lparr>tl_provenance = DURABLE_EVENT, tl_title = event_title (oe_event_type e), tl_detail = None,
     tl_timestamp = Some (oe_created_at e), tl_txHash = None, tl_network = None\<rparr>"

definition first_at :: "('a \<Rightarrow> bool) \<Rightarrow> 'a list \<Rightarrow> nat option" where
  "first_at P xs = (let n = length (takeWhile (\<lambda>a. \<not> P a) xs) in if n < length xs then Some n else None)"

definition buildEvidenceTimeline :: "SupabaseOperation \<Rightarrow> SupabaseOperationEvent list \<Rightarrow> TimelineItem list" where
  "buildEvidenceTimeline operation events =
     (let durable = map durable_item events;
          manifest = (case map_of PROOF_MANIFEST_STEPS (toLowerCase (so_request_id operation)) of Some m \<Rightarrow> m | None \<Rightarrow> [])
      in if manifest = [] then durable
         else
           (case first_at (\<lambda>i. tl_title i = event_title ''RELEASE_BLOCKED'') durable of
              None \<Rightarrow> durable @ manifest
            | Some gap \<Rightarrow> take (gap + 1) durable @ manifest @ drop (gap + 1) durable))"

section \<open>The routes of the desk\<close>

text \<open>\<open>toJsonSafePreparation\<close>: the numbers of a decision as decimal texts.\<close>

definition toJsonSafePreparation :: "OrgApprovalPreparation \<Rightarrow> json" where
  "toJsonSafePreparation p =
     (let d = oa_decision p
      in JObj [(''decision'', JObj
           [(''facilityId'', JStr (fd_facilityId d)), (''operation'', JNum (fd_operation d)),
            (''subjectAssetId'', JStr (fd_subjectAssetId d)), (''subjectInstrumentRef'', JStr (fd_subjectInstrumentRef d)),
            (''requestId'', JStr (fd_requestId d)), (''pinnedEpoch'', JStr (show_int (fd_pinnedEpoch d))),
            (''collateralPolicyVersion'', JStr (show_int (fd_collateralPolicyVersion d))),
            (''decisionVersion'', JNum (fd_decisionVersion d)), (''expiry'', JStr (show_int (fd_expiry d))),
            (''nonce'', JStr (show_int (fd_nonce d))), (''proofRef'', JStr (fd_proofRef d)),
            (''attestationHash'', JStr (fd_attestationHash d))]),
         (''decisionHash'', JStr (oa_decisionHash p)), (''ensDigest'', JStr (oa_ensDigest p)),
         (''orgApprovalHash'', JStr (oa_orgApprovalHash p)), (''orgApprover'', JStr (oa_orgApprover p))])"

datatype desk_reply =
    DeskRefused nat string
  | DeskUnhandled
  | NotReady SubstitutionReadiness
  | Created SupabaseOperation "json option" SubstitutionReadiness AuthSession
  | Refreshed SupabaseOperation "json option" "int option"
  | Reconciled SupabaseOperation Reconciliation bool
  | Viewed SupabaseOperation "SupabaseOperationEvent list" Reconciliation "TimelineItem list"
  | FoundOperation SupabaseOperation
  | NoOperation

definition operator_of :: "auth_env \<Rightarrow> web_request \<Rightarrow> int \<Rightarrow> auth_db \<Rightarrow> desk_reply + AuthSession" where
  "operator_of x rq now adb =
     (case cookieToken x rq of
        NoCookie \<Rightarrow> Inl (DeskRefused 401 ''AUTHENTICATION_REQUIRED'')
      | Malformed \<Rightarrow> Inl DeskUnhandled
      | Token t \<Rightarrow>
          if t = [] then Inl (DeskRefused 401 ''AUTHENTICATION_REQUIRED'')
          else
            (case lookupSession x t now adb of
               Inl _ \<Rightarrow> Inl (DeskRefused 503 ''AUTH_UNAVAILABLE'')
             | Inr None \<Rightarrow> Inl (DeskRefused 401 ''AUTHENTICATION_REQUIRED'')
             | Inr (Some s) \<Rightarrow>
                 if as_membership_role s \<noteq> ''TESTNET_OPERATOR'' then Inl (DeskRefused 401 ''AUTHENTICATION_REQUIRED'') else Inr s))"

definition our_facility :: "desk_env \<Rightarrow> string \<Rightarrow> bool" where
  "our_facility v facilityId \<longleftrightarrow> toLowerCase facilityId = toLowerCase (dp_facilityId (dv_deployment v))"

definition request_id_shape :: "string \<Rightarrow> bool" where
  "request_id_shape s \<longleftrightarrow> take 2 s = ''0x'' \<and> nonce_shape (drop 2 s)"

definition any_request_id :: "string \<Rightarrow> bool" where
  "any_request_id s \<longleftrightarrow> map lower_char (take 2 s) = ''0x'' \<and> hex_of 64 (drop 2 s)"

definition units_shape :: "string \<Rightarrow> bool" where
  "units_shape s \<longleftrightarrow> s \<noteq> [] \<and> list_all is_digit s \<and> hd s \<noteq> CHR ''0''"

definition body_or_empty :: "string \<Rightarrow> json \<Rightarrow> string" where
  "body_or_empty k b = (case body_text k b of Some s \<Rightarrow> s | None \<Rightarrow> [])"

definition creating ::
  "desk_env \<Rightarrow> AuthSession \<Rightarrow> string \<Rightarrow> string \<Rightarrow> int \<Rightarrow> string \<Rightarrow> preparation_reads \<Rightarrow> preparation_reads \<Rightarrow> desk_db
     \<Rightarrow> desk_reply \<times> desk_db" where
  "creating v caller replacement requestId units' uuid first later db =
     (let readiness = readSubstitutionReadiness (dv_deployment v) replacement units' (pr_now first) (pr_facility first);
          asked = \<lparr>so_operation_id = uuid, so_request_id = requestId, so_facility_id = rd_facilityId readiness,
                   so_home_domain = ''hedera:testnet:296'', so_old_instrument_id = rd_collateralAssetId readiness,
                   so_replacement_instrument_id = replacement, so_requested_units = units', so_state = ''CREATED'',
                   so_version = 1, so_created_at = pr_now first, so_updated_at = pr_now first, so_completed_at = None\<rparr>
      in if rd_outcome readiness = FACILITY_UNAVAILABLE then (NotReady readiness, db)
         else
           (case createDurableSubstitutionOperation v asked (pr_now first) db of
              (Inl _, db') \<Rightarrow> (DeskRefused 503 ''OPERATION_STORE_UNAVAILABLE'', db')
            | (Inr created, db') \<Rightarrow>
                if so_state created \<noteq> ''CREATED'' then (Created created None readiness caller, db')
                else
                  (case resolveAuthorityAndPrepareOrgApproval v created INITIAL later db' of
                     (Inl _, db'') \<Rightarrow> (DeskRefused 503 ''OPERATION_STORE_UNAVAILABLE'', db'')
                   | (Inr (operation, preparation), db'') \<Rightarrow>
                       (Created operation (map_option toJsonSafePreparation preparation) readiness caller, db''))))"

definition create_route ::
  "desk_env \<Rightarrow> auth_env \<Rightarrow> web_request \<Rightarrow> string \<Rightarrow> string \<Rightarrow> preparation_reads \<Rightarrow> preparation_reads \<Rightarrow> auth_db \<Rightarrow> desk_db
     \<Rightarrow> desk_reply \<times> desk_db" where
  "create_route v x rq facilityId uuid first later adb db =
     (if \<not> isSameOrigin x rq then (DeskRefused 403 ''ORIGIN_REJECTED'', db)
      else if \<not> dv_enabled v then (DeskRefused 503 ''OPERATION_CREATION_DISABLED'', db)
      else
        (case operator_of x rq (pr_now first) adb of
           Inl r \<Rightarrow> (r, db)
         | Inr caller \<Rightarrow>
             if \<not> our_facility v facilityId then (DeskRefused 404 ''NOT_FOUND'', db)
             else if \<not> isCallerAssignedToFacility caller facilityId then (DeskRefused 403 ''FACILITY_NOT_ASSIGNED'', db)
             else
               (case wr_body rq of
                  None \<Rightarrow> (DeskRefused 400 ''BAD_REQUEST'', db)
                | Some JNull \<Rightarrow> (DeskUnhandled, db)
                | Some b \<Rightarrow>
                    let requestId = toLowerCase (body_or_empty ''requestId'' b); us = body_or_empty ''units'' b
                    in if \<not> units_shape us \<or> \<not> request_id_shape requestId then (DeskRefused 400 ''BAD_REQUEST'', db)
                       else creating v caller (body_or_empty ''replacement'' b) requestId (int (nat_of_digits us)) uuid first later db)))"

text \<open>What the refresh and the reconciliation check before they look at an operation.\<close>

definition operation_for ::
  "desk_env \<Rightarrow> auth_env \<Rightarrow> web_request \<Rightarrow> string \<Rightarrow> string \<Rightarrow> int \<Rightarrow> auth_db \<Rightarrow> desk_db \<Rightarrow> desk_reply + SupabaseOperation" where
  "operation_for v x rq facilityId requestId now adb db =
     (if \<not> isSameOrigin x rq then Inl (DeskRefused 403 ''ORIGIN_REJECTED'')
      else if \<not> our_facility v facilityId then Inl (DeskRefused 404 ''NOT_FOUND'')
      else if \<not> any_request_id requestId then Inl (DeskRefused 400 ''BAD_REQUEST'')
      else
        (case operator_of x rq now adb of
           Inl r \<Rightarrow> Inl r
         | Inr caller \<Rightarrow>
             if \<not> isCallerAssignedToFacility caller facilityId then Inl (DeskRefused 403 ''FACILITY_NOT_ASSIGNED'')
             else
               (case findSubstitutionOperationByRequestId v requestId db of
                  Inl _ \<Rightarrow> Inl (DeskRefused 503 ''OPERATION_STORE_UNAVAILABLE'')
                | Inr None \<Rightarrow> Inl (DeskRefused 404 ''NOT_FOUND'')
                | Inr (Some r) \<Rightarrow> Inr r)))"

definition refresh_route ::
  "desk_env \<Rightarrow> auth_env \<Rightarrow> web_request \<Rightarrow> string \<Rightarrow> string \<Rightarrow> preparation_reads \<Rightarrow> int \<Rightarrow> auth_db \<Rightarrow> desk_db
     \<Rightarrow> desk_reply \<times> desk_db" where
  "refresh_route v x rq facilityId requestId rs answered adb db =
     (case operation_for v x rq facilityId requestId (pr_now rs) adb db of
        Inl r \<Rightarrow> (r, db)
      | Inr operation \<Rightarrow>
          if terminal_state (so_state operation) then (DeskRefused 409 ''TERMINAL_OPERATION'', db)
          else
            (case resolveAuthorityAndPrepareOrgApproval v operation REFRESH rs db of
               (Inl _, db') \<Rightarrow> (DeskUnhandled, db')
             | (Inr (refreshed, preparation), db') \<Rightarrow>
                 (Refreshed refreshed (map_option toJsonSafePreparation preparation)
                    (map_option (\<lambda>p. remainingValiditySeconds (oa_decision p) answered) preparation), db')))"

definition RECONCILIATION_STATE :: "(string \<times> string) list" where
  "RECONCILIATION_STATE =
     [(''COMMITMENT_UNKNOWN'', ''COMMITMENT_UNKNOWN''), (''EXTERNAL_ATTEMPT_DETECTED'', ''COMMITMENT_UNKNOWN'')]"

record reconciliation_reads =
  rc_now :: int
  rc_hedera :: "string + hedera_reads"
  rc_facility :: "string + facility_reads"

definition current_view :: "desk_env \<Rightarrow> string \<Rightarrow> bool \<Rightarrow> SupabaseOperation \<Rightarrow> reconciliation_reads \<Rightarrow> Reconciliation" where
  "current_view v requestId completed operation rs =
     reconcileSubstitutionOperation requestId completed (rc_now rs) (rc_hedera rs)
       (readSubstitutionReadiness (dv_deployment v) (so_replacement_instrument_id operation) (so_requested_units operation)
          (rc_now rs) (rc_facility rs))"

definition reconcile_route ::
  "desk_env \<Rightarrow> auth_env \<Rightarrow> web_request \<Rightarrow> string \<Rightarrow> string \<Rightarrow> reconciliation_reads \<Rightarrow> auth_db \<Rightarrow> desk_db
     \<Rightarrow> desk_reply \<times> desk_db" where
  "reconcile_route v x rq facilityId requestId rs adb db =
     (case operation_for v x rq facilityId requestId (rc_now rs) adb db of
        Inl r \<Rightarrow> (r, db)
      | Inr operation \<Rightarrow>
          let current = current_view v requestId False operation rs
          in if terminal_state (so_state operation) then (Reconciled operation current False, db)
             else
               let nextState = (case map_of RECONCILIATION_STATE (rn_outcome current) of Some s \<Rightarrow> s | None \<Rightarrow> so_state operation)
               in (case transitionDurableSubstitutionOperation v
                          ((transition_of operation nextState ''RECONCILED'' (PReconciliation current))
                             \<lparr>tr_sourceReference := Some (rn_onChainRequestId current)\<rparr>) (rc_now rs) db of
                     (Inr updated, db') \<Rightarrow> (Reconciled updated current False, db')
                   | (Inl SUBSTITUTION_OPERATION_STALE, db') \<Rightarrow> (Reconciled operation current True, db')
                   | (Inl _, db') \<Rightarrow> (DeskRefused 503 ''OPERATION_STORE_UNAVAILABLE'', db')))"

definition view_route ::
  "desk_env \<Rightarrow> string \<Rightarrow> string \<Rightarrow> reconciliation_reads \<Rightarrow> desk_db \<Rightarrow> desk_reply" where
  "view_route v facilityId requestId rs db =
     (if \<not> our_facility v facilityId then DeskRefused 404 ''NOT_FOUND''
      else if \<not> any_request_id requestId then DeskRefused 400 ''BAD_REQUEST''
      else
        (case findSubstitutionOperationByRequestId v requestId db of
           Inl _ \<Rightarrow> DeskRefused 503 ''OPERATION_STORE_UNAVAILABLE''
         | Inr None \<Rightarrow> DeskRefused 404 ''NOT_FOUND''
         | Inr (Some operation) \<Rightarrow>
             let events = (case listSubstitutionOperationEvents v (so_operation_id operation) db of Inr es \<Rightarrow> es | Inl _ \<Rightarrow> []);
                 current = current_view v requestId (so_state operation = ''COMPLETED'') operation rs
             in Viewed operation events current (buildEvidenceTimeline operation events)))"

definition current_route :: "desk_env \<Rightarrow> auth_env \<Rightarrow> web_request \<Rightarrow> string \<Rightarrow> int \<Rightarrow> auth_db \<Rightarrow> desk_db \<Rightarrow> desk_reply" where
  "current_route v x rq facilityId now adb db =
     (if \<not> our_facility v facilityId then DeskRefused 404 ''NOT_FOUND''
      else
        (case operator_of x rq now adb of
           Inl r \<Rightarrow> r
         | Inr caller \<Rightarrow>
             if \<not> isCallerAssignedToFacility caller facilityId then DeskRefused 403 ''FACILITY_NOT_ASSIGNED''
             else
               (case findActiveSubstitutionOperation v facilityId db of
                  Inl _ \<Rightarrow> DeskRefused 503 ''OPERATION_STORE_UNAVAILABLE''
                | Inr (Some r) \<Rightarrow> FoundOperation r
                | Inr None \<Rightarrow>
                    (case findMostRecentSubstitutionOperation v facilityId db of
                       Inl _ \<Rightarrow> DeskRefused 503 ''OPERATION_STORE_UNAVAILABLE''
                     | Inr (Some r) \<Rightarrow> FoundOperation r
                     | Inr None \<Rightarrow> NoOperation))))"

section \<open>The gas of a write\<close>

datatype HederaAtsMethod = abortCommittedSubstitution | commitReplacement | releaseOld

fun GAS_FLOORS :: "HederaAtsMethod \<Rightarrow> int" where
  "GAS_FLOORS abortCommittedSubstitution = 900000"
| "GAS_FLOORS commitReplacement = 1150000"
| "GAS_FLOORS releaseOld = 900000"

record GasSelection =
  gs_method :: HederaAtsMethod
  gs_estimatedGas :: "int option"
  gs_floorGas :: int
  gs_selectedGas :: int
  gs_estimatorExceededFloor :: bool

definition selectHederaAtsGas :: "HederaAtsMethod \<Rightarrow> int option \<Rightarrow> int \<Rightarrow> GasSelection option" where
  "selectHederaAtsGas method estimated blockGasLimit =
     (let floorGas = GAS_FLOORS method
      in if floorGas \<ge> blockGasLimit then None
         else Some \<lparr>gs_method = method, gs_estimatedGas = estimated, gs_floorGas = floorGas, gs_selectedGas = floorGas,
                gs_estimatorExceededFloor = (case estimated of None \<Rightarrow> False | Some e \<Rightarrow> e > floorGas)\<rparr>)"

end
