(* ===== verification/Substitution_Properties.thy ===== *)
theory Substitution_Properties
  imports Substitution_Desk
begin

text \<open>
  What the desk of \<open>Substitution_Desk\<close> keeps over every history of requests and database calls, what a
  prepared approval rests on, what a reconciliation may do, and where the code departs from its own rules.
\<close>

section \<open>The tables of the desk\<close>

definition unfinished :: "desk_db \<Rightarrow> SupabaseOperation list" where
  "unfinished db = filter (\<lambda>r. \<not> terminal_state (so_state r)) (ds_operations db)"

definition desk_ok :: "desk_db \<Rightarrow> bool" where
  "desk_ok db \<longleftrightarrow>
     distinct (map so_operation_id (ds_operations db)) \<and> distinct (map so_request_id (ds_operations db))
     \<and> distinct (map so_facility_id (unfinished db))
     \<and> list_all (\<lambda>r. map oe_sequence (events_of (so_operation_id r) db) = [1 ..< Suc (so_version r)]) (ds_operations db)
     \<and> oe_operation_id ` set (ds_events db) \<subseteq> so_operation_id ` set (ds_operations db)"

text \<open>The database calls, by the desk or by any other holder of its key.\<close>

inductive sql_step :: "desk_db \<Rightarrow> desk_db \<Rightarrow> bool" where
  created: "create_substitution_operation asked now db = (r, db') \<Longrightarrow> sql_step db db'"
| moved: "transition_substitution_operation t now db = (r, db') \<Longrightarrow> sql_step db db'"

lemma add_outbox_tables [simp]:
  "ds_operations (add_outbox i e db) = ds_operations db" "ds_events (add_outbox i e db) = ds_events db"
  by (simp_all add: add_outbox_def)

lemma desk_ok_tables:
  "ds_operations db' = ds_operations db \<Longrightarrow> ds_events db' = ds_events db \<Longrightarrow> desk_ok db' \<longleftrightarrow> desk_ok db"
  by (simp add: desk_ok_def unfinished_def events_of_def)

lemma create_inv:
  assumes "create_substitution_operation asked now db = (r, db')"
  shows "db' = db \<or> (\<exists>row. so_operation_id row \<notin> so_operation_id ` set (ds_operations db)
      \<and> so_request_id row \<notin> so_request_id ` set (ds_operations db) \<and> so_version row = 1
      \<and> (\<not> terminal_state (so_state row) \<longrightarrow> so_facility_id row \<notin> so_facility_id ` set (unfinished db))
      \<and> ds_operations db' = ds_operations db @ [row]
      \<and> (\<exists>e. oe_operation_id e = so_operation_id row \<and> oe_sequence e = 1 \<and> ds_events db' = ds_events db @ [e]))"
proof (cases "db' = db")
  case False
  let ?row = "asked\<lparr>so_version := 1, so_created_at := now, so_updated_at := now, so_completed_at := None\<rparr>"
  let ?e = "\<lparr>oe_operation_id = so_operation_id asked, oe_sequence = 1, oe_event_type = ''OPERATION_CREATED'',
              oe_payload = PRequest (so_request_id asked), oe_source = ''USANCE_API'', oe_source_reference = None,
              oe_created_at = now\<rparr>"
  have n: "List.find (\<lambda>r. so_request_id r = so_request_id asked) (ds_operations db) = None"
    using assms False by (auto simp: create_substitution_operation_def split: option.splits if_splits)
  have f: "\<not> list_ex (\<lambda>r. so_operation_id r = so_operation_id asked) (ds_operations db)"
    "\<not> (\<not> terminal_state (so_state asked) \<and> list_ex (active_for (so_facility_id asked)) (ds_operations db))"
    "ds_operations db' = ds_operations db @ [?row]" "ds_events db' = ds_events db @ [?e]"
    using assms False n by (auto simp: create_substitution_operation_def Let_def split: if_splits)
  have "so_operation_id ?row \<notin> so_operation_id ` set (ds_operations db)" using f(1) by (auto simp: list_ex_iff)
  moreover have "so_request_id ?row \<notin> so_request_id ` set (ds_operations db)" using n by (auto simp: find_None_iff)
  moreover have "\<not> terminal_state (so_state ?row) \<longrightarrow> so_facility_id ?row \<notin> so_facility_id ` set (unfinished db)"
    using f(2) by (auto simp: list_ex_iff unfinished_def active_for_def)
  moreover have "so_version ?row = 1" by simp
  moreover have "\<exists>e. oe_operation_id e = so_operation_id ?row \<and> oe_sequence e = 1 \<and> ds_events db' = ds_events db @ [e]"
    using f(4) by (intro exI [of _ ?e]) simp
  ultimately show ?thesis using f(3) by blast
qed simp

lemma transition_inv:
  assumes "transition_substitution_operation t now db = (Inr row, db')"
  obtains r e where "List.find (\<lambda>r. so_operation_id r = tr_operationId t) (ds_operations db) = Some r"
    "so_version r = tr_expectedVersion t" "\<not> terminal_state (so_state r)"
    "row = r\<lparr>so_state := tr_nextState t, so_version := so_version r + 1, so_updated_at := now\<rparr>"
    "ds_operations db' = map (\<lambda>q. if so_operation_id q = tr_operationId t then row else q) (ds_operations db)"
    "ds_events db' = ds_events db @ [e]" "oe_operation_id e = tr_operationId t" "oe_event_type e = tr_eventType t"
    "oe_sequence e = foldr max (map oe_sequence (events_of (tr_operationId t) db)) 0 + 1"
proof -
  obtain r where r: "List.find (\<lambda>r. so_operation_id r = tr_operationId t) (ds_operations db) = Some r"
    using assms by (auto simp: transition_substitution_operation_def split: option.splits)
  have g: "so_version r = tr_expectedVersion t" "\<not> terminal_state (so_state r)"
    using assms r by (auto simp: transition_substitution_operation_def split: if_splits)
  show thesis
    using assms r g that
    by (auto simp: transition_substitution_operation_def Let_def split: option.splits)
qed

lemma transition_refused: "transition_substitution_operation t now db = (Inl e, db') \<Longrightarrow> db' = db"
  by (auto simp: transition_substitution_operation_def Let_def split: option.splits if_splits)

lemma foldr_max_last: "\<forall>x\<in>set xs. x \<le> n \<Longrightarrow> foldr max xs n = (n :: nat)"
  by (induction xs) auto

lemma max_of_upto: "foldr max [1 ..< Suc n] 0 = n"
proof (cases n)
  case (Suc m)
  have "foldr max [1 ..< Suc n] 0 = foldr max [1 ..< n] n" using Suc by simp
  also have "\<dots> = n" by (rule foldr_max_last) auto
  finally show ?thesis .
qed simp

lemma distinct_filter_map:
  assumes "distinct (map f (filter P xs))" "\<And>x. x \<in> set xs \<Longrightarrow> P (g x) \<Longrightarrow> P x \<and> f (g x) = f x"
  shows "distinct (map f (filter P (map g xs))) \<and> f ` set (filter P (map g xs)) \<subseteq> f ` set (filter P xs)"
  using assms
proof (induction xs)
  case (Cons a xs)
  then have ih: "distinct (map f (filter P (map g xs)))" "f ` set (filter P (map g xs)) \<subseteq> f ` set (filter P xs)"
    by (auto split: if_splits)
  show ?case
  proof (cases "P (g a)")
    case True
    then have p: "P a" "f (g a) = f a" using Cons.prems(2) [of a] by simp_all
    then have "f a \<notin> f ` set (filter P xs)" using Cons.prems(1) by simp
    then have "f a \<notin> f ` set (filter P (map g xs))" using ih(2) by blast
    then show ?thesis using True p ih by auto
  next
    case False
    then show ?thesis using ih by auto
  qed
qed simp

lemma desk_okD:
  assumes "desk_ok db"
  shows "distinct (map so_operation_id (ds_operations db))" "distinct (map so_request_id (ds_operations db))"
    "distinct (map so_facility_id (unfinished db))"
    "r \<in> set (ds_operations db) \<Longrightarrow> map oe_sequence (events_of (so_operation_id r) db) = [1 ..< Suc (so_version r)]"
    "e \<in> set (ds_events db) \<Longrightarrow> oe_operation_id e \<in> so_operation_id ` set (ds_operations db)"
  using assms by (auto simp: desk_ok_def list_all_iff)

lemma desk_okI:
  assumes "distinct (map so_operation_id (ds_operations db))" "distinct (map so_request_id (ds_operations db))"
    "distinct (map so_facility_id (unfinished db))"
    "\<And>r. r \<in> set (ds_operations db) \<Longrightarrow> map oe_sequence (events_of (so_operation_id r) db) = [1 ..< Suc (so_version r)]"
    "\<And>e. e \<in> set (ds_events db) \<Longrightarrow> oe_operation_id e \<in> so_operation_id ` set (ds_operations db)"
  shows "desk_ok db"
  using assms by (auto simp: desk_ok_def list_all_iff)

lemma create_ok:
  assumes "desk_ok db" "create_substitution_operation asked now db = (r, db')"
  shows "desk_ok db'"
proof (cases "db' = db")
  case False
  obtain row e where f: "so_operation_id row \<notin> so_operation_id ` set (ds_operations db)"
      "so_request_id row \<notin> so_request_id ` set (ds_operations db)" "so_version row = 1"
      "\<not> terminal_state (so_state row) \<Longrightarrow> so_facility_id row \<notin> so_facility_id ` set (unfinished db)"
    and ops: "ds_operations db' = ds_operations db @ [row]" and ev: "ds_events db' = ds_events db @ [e]"
    and e: "oe_operation_id e = so_operation_id row" "oe_sequence e = 1"
    using create_inv [OF assms(2)] False by blast
  note D = desk_okD [OF assms(1)]
  have "oe_operation_id e' \<noteq> so_operation_id row" if "e' \<in> set (ds_events db)" for e'
    using D(5) [OF that] f(1) by metis
  then have none: "events_of (so_operation_id row) db = []" by (simp add: events_of_def filter_empty_conv)
  have same: "events_of (so_operation_id q) db' = events_of (so_operation_id q) db" if "q \<in> set (ds_operations db)" for q
  proof -
    have "so_operation_id q \<noteq> so_operation_id row" using that f(1) by (metis image_eqI)
    then show ?thesis using e(1) by (simp add: events_of_def ev)
  qed
  have mine: "events_of (so_operation_id row) db' = [e]" using none e(1) by (simp add: events_of_def ev)
  have uf: "unfinished db' = unfinished db @ (if terminal_state (so_state row) then [] else [row])"
    by (simp add: unfinished_def ops)
  show ?thesis
  proof (rule desk_okI)
    show "distinct (map so_operation_id (ds_operations db'))" "distinct (map so_request_id (ds_operations db'))"
      using D(1,2) f(1,2) by (simp_all add: ops)
    show "distinct (map so_facility_id (unfinished db'))" using D(3) f(4) by (simp add: uf)
    show "map oe_sequence (events_of (so_operation_id q) db') = [1 ..< Suc (so_version q)]" if "q \<in> set (ds_operations db')" for q
    proof (cases "q = row")
      case True
      then show ?thesis using mine e(2) f(3) by simp
    next
      case False
      then have "q \<in> set (ds_operations db)" using that by (simp add: ops)
      then show ?thesis using same D(4) by (simp only:)
    qed
    show "oe_operation_id e' \<in> so_operation_id ` set (ds_operations db')" if "e' \<in> set (ds_events db')" for e'
      using that D(5) e(1) by (auto simp: ops ev)
  qed
qed (use assms in simp)

lemma transition_ok:
  assumes "desk_ok db" "transition_substitution_operation t now db = (res, db')"
  shows "desk_ok db'"
proof (cases res)
  case (Inl e)
  then show ?thesis using assms transition_refused by blast
next
  case (Inr row)
  then have tr: "transition_substitution_operation t now db = (Inr row, db')" using assms(2) by simp
  obtain r e where fd: "List.find (\<lambda>r. so_operation_id r = tr_operationId t) (ds_operations db) = Some r"
    and nt: "\<not> terminal_state (so_state r)"
    and row: "row = r\<lparr>so_state := tr_nextState t, so_version := so_version r + 1, so_updated_at := now\<rparr>"
    and ops: "ds_operations db' = map (\<lambda>q. if so_operation_id q = tr_operationId t then row else q) (ds_operations db)"
    and ev: "ds_events db' = ds_events db @ [e]" "oe_operation_id e = tr_operationId t"
    and sq: "oe_sequence e = foldr max (map oe_sequence (events_of (tr_operationId t) db)) 0 + 1"
    by (rule transition_inv [OF tr]) blast
  have r: "r \<in> set (ds_operations db)" "so_operation_id r = tr_operationId t" using find_row [OF fd] by auto
  note D = desk_okD [OF assms(1)]
  have only: "q = r" if "q \<in> set (ds_operations db)" "so_operation_id q = tr_operationId t" for q
    using D(1) that r unfolding distinct_map inj_on_def by metis
  let ?g = "\<lambda>q. if so_operation_id q = tr_operationId t then row else q"
  have keys: "map f (ds_operations db') = map f (ds_operations db)" if "f row = f r" for f :: "SupabaseOperation \<Rightarrow> string"
    unfolding ops map_map by (rule map_cong [OF refl]) (use only that in auto)
  have ids: "so_operation_id row = tr_operationId t" "so_operation_id ` set (ds_operations db') = so_operation_id ` set (ds_operations db)"
    using r(2) keys [of so_operation_id] by (simp add: row, metis list.set_map row SupabaseOperation.ext_inject SupabaseOperation.surjective SupabaseOperation.update_convs SupabaseOperation.select_convs(1))
  have seq_r: "map oe_sequence (events_of (tr_operationId t) db) = [1 ..< Suc (so_version r)]" using D(4) [OF r(1)] r(2) by simp
  have evs: "events_of i db' = events_of i db @ (if i = tr_operationId t then [e] else [])" for i
    using ev by (simp add: events_of_def)
  show ?thesis
  proof (rule desk_okI)
    show "distinct (map so_operation_id (ds_operations db'))" using D(1) keys [of so_operation_id] by (simp add: row)
    show "distinct (map so_request_id (ds_operations db'))" using D(2) keys [of so_request_id] by (simp add: row)
    have "\<not> terminal_state (so_state (?g q)) \<Longrightarrow> \<not> terminal_state (so_state q) \<and> so_facility_id (?g q) = so_facility_id q"
      if "q \<in> set (ds_operations db)" for q
      using only [OF that] nt by (cases "so_operation_id q = tr_operationId t") (simp_all add: row)
    then have "distinct (map so_facility_id (filter (\<lambda>q. \<not> terminal_state (so_state q)) (map ?g (ds_operations db))))"
      by (intro conjunct1 [OF distinct_filter_map [where f = so_facility_id and P = "\<lambda>q. \<not> terminal_state (so_state q)"
            and xs = "ds_operations db" and g = ?g]] D(3) [unfolded unfinished_def]) blast+
    then show "distinct (map so_facility_id (unfinished db'))" by (simp only: unfinished_def ops)
    show "map oe_sequence (events_of (so_operation_id q) db') = [1 ..< Suc (so_version q)]" if "q \<in> set (ds_operations db')" for q
    proof (cases "so_operation_id q = tr_operationId t")
      case True
      then have "q = row" using that by (auto simp: ops)
      then show ?thesis using seq_r max_of_upto True by (simp add: evs sq row)
    next
      case False
      then have "q \<in> set (ds_operations db)" using that ids(1) by (auto simp: ops)
      then show ?thesis using False D(4) by (simp add: evs)
    qed
    show "oe_operation_id e' \<in> so_operation_id ` set (ds_operations db')" if "e' \<in> set (ds_events db')" for e'
    proof -
      have "tr_operationId t \<in> so_operation_id ` set (ds_operations db)" using r by (metis image_eqI)
      then show ?thesis using that D(5) ev(2) by (auto simp: ids(2) ev(1))
    qed
  qed
qed

section \<open>Histories of the desk\<close>

text \<open>What may become of a row: its request stays, its version grows, and a finished row stays as it is.\<close>

definition later_row :: "SupabaseOperation \<Rightarrow> SupabaseOperation \<Rightarrow> bool" where
  "later_row r r' \<longleftrightarrow> so_operation_id r' = so_operation_id r \<and> so_request_id r' = so_request_id r
     \<and> so_facility_id r' = so_facility_id r \<and> so_requested_units r' = so_requested_units r
     \<and> so_version r \<le> so_version r' \<and> (terminal_state (so_state r) \<longrightarrow> r' = r)"

definition grown :: "desk_db \<Rightarrow> desk_db \<Rightarrow> bool" where
  "grown db db' \<longleftrightarrow> (\<exists>es. ds_events db' = ds_events db @ es)
     \<and> list_all (\<lambda>r. list_ex (later_row r) (ds_operations db')) (ds_operations db)"

lemma later_row_refl: "later_row r r"
  by (simp add: later_row_def)

lemma later_row_trans: "later_row a b \<Longrightarrow> later_row b c \<Longrightarrow> later_row a c"
  by (cases "terminal_state (so_state a)") (auto simp: later_row_def)

lemma grown_refl: "grown db db"
  by (auto simp: grown_def list_all_iff list_ex_iff intro: later_row_refl)

lemma grown_trans: "grown a b \<Longrightarrow> grown b c \<Longrightarrow> grown a c"
  unfolding grown_def list_all_iff list_ex_iff by (metis append_assoc later_row_trans)

lemma sql_step_ok: "sql_step db db' \<Longrightarrow> desk_ok db \<Longrightarrow> desk_ok db'"
  by (induction rule: sql_step.induct) (auto intro: create_ok transition_ok)

lemma sql_step_grown:
  assumes "sql_step db db'" "desk_ok db"
  shows "grown db db'"
  using assms
proof (induction rule: sql_step.induct)
  case (created asked now db r db')
  then have "db' = db \<or> (\<exists>row e. ds_operations db' = ds_operations db @ [row] \<and> ds_events db' = ds_events db @ [e])"
    using create_inv [OF created(1)] by blast
  then show ?case by (auto simp: grown_def list_all_iff list_ex_iff intro: later_row_refl)
next
  case (moved t now db res db')
  show ?case
  proof (cases res)
    case (Inl e)
    then show ?thesis using moved(1) transition_refused grown_refl by blast
  next
    case (Inr row)
    then have tr: "transition_substitution_operation t now db = (Inr row, db')" using moved(1) by simp
    obtain r e where fd: "List.find (\<lambda>r. so_operation_id r = tr_operationId t) (ds_operations db) = Some r"
      and nt: "\<not> terminal_state (so_state r)"
      and row: "row = r\<lparr>so_state := tr_nextState t, so_version := so_version r + 1, so_updated_at := now\<rparr>"
      and ops: "ds_operations db' = map (\<lambda>q. if so_operation_id q = tr_operationId t then row else q) (ds_operations db)"
      and ev: "ds_events db' = ds_events db @ [e]"
      by (rule transition_inv [OF tr]) blast
    have r: "r \<in> set (ds_operations db)" "so_operation_id r = tr_operationId t" using find_row [OF fd] by auto
    have only: "q = r" if "q \<in> set (ds_operations db)" "so_operation_id q = tr_operationId t" for q
      using desk_okD(1) [OF moved(2)] that r unfolding distinct_map inj_on_def by metis
    have "list_ex (later_row q) (ds_operations db')" if q: "q \<in> set (ds_operations db)" for q
    proof (cases "so_operation_id q = tr_operationId t")
      case True
      then have "row \<in> set (ds_operations db')" "later_row q row"
        using q only [OF q True] nt by (force simp: ops, auto simp: row later_row_def)
      then show ?thesis by (auto simp: list_ex_iff)
    next
      case False
      then have "q \<in> set (ds_operations db')" using q by (force simp: ops)
      then show ?thesis using later_row_refl by (auto simp: list_ex_iff)
    qed
    then show ?thesis using ev by (auto simp: grown_def list_all_iff)
  qed
qed

abbreviation sql_steps :: "desk_db \<Rightarrow> desk_db \<Rightarrow> bool" where
  "sql_steps \<equiv> sql_step\<^sup>*\<^sup>*"

lemma sql_steps_ok: "sql_steps db db' \<Longrightarrow> desk_ok db \<Longrightarrow> desk_ok db' \<and> grown db db'"
proof (induction rule: rtranclp_induct)
  case base
  then show ?case by (simp add: grown_refl)
next
  case (step y z)
  then show ?case using sql_step_ok sql_step_grown grown_trans by blast
qed

lemma transition_steps: "transitionDurableSubstitutionOperation v t now db = (r, db') \<Longrightarrow> sql_steps db db'"
  by (auto simp: transitionDurableSubstitutionOperation_def intro: sql_step.moved split: if_splits prod.splits sum.splits)

lemma creation_steps: "createDurableSubstitutionOperation v asked now db = (r, db') \<Longrightarrow> sql_steps db db'"
  by (auto simp: createDurableSubstitutionOperation_def intro: sql_step.created split: if_splits prod.splits sum.splits)

lemma stop_steps: "stop_at v o' s e p now db = (r, db') \<Longrightarrow> sql_steps db db'"
  by (auto simp: stop_at_def dest: transition_steps split: prod.splits sum.splits)

lemma approval_steps: "prepare_approval v o' mode a d ap i e now db = (r, db') \<Longrightarrow> sql_steps db db'"
  by (auto simp: prepare_approval_def Let_def dest!: transition_steps split: prod.splits sum.splits)

lemma resolve_steps:
  assumes "resolveAuthorityAndPrepareOrgApproval v o' mode rs db = (r, db')"
  shows "sql_steps db db'"
proof -
  obtain a db1 where a: "transitionDurableSubstitutionOperation v
      (transition_of o' ''AUTHORITY_RESOLVING'' ''AUTHORITY_RESOLVING_STARTED'' PEmpty) (pr_now rs) db = (a, db1)" by force
  have "sql_steps db1 db'"
    using assms a
    by (auto simp: resolveAuthorityAndPrepareOrgApproval_def Let_def dest: stop_steps approval_steps
        split: sum.splits CurrentAuthority.splits ReadinessOutcome.splits option.splits)
  then show ?thesis using transition_steps [OF a] by auto
qed

lemma create_route_steps:
  assumes "create_route v x rq f uuid first later adb db = (r, db')"
  shows "sql_steps db db'"
proof -
  have c: "sql_steps db db'" if "creating v caller rep i us uuid first later db = (r, db')" for caller rep i us r
  proof -
    have "db' = db \<or> (\<exists>asked a db1. createDurableSubstitutionOperation v asked (pr_now first) db = (a, db1)
        \<and> (db' = db1 \<or> (\<exists>c b. resolveAuthorityAndPrepareOrgApproval v c INITIAL later db1 = (b, db'))))"
      using that by (auto simp: creating_def Let_def split: if_splits prod.splits sum.splits)
    then show ?thesis using creation_steps resolve_steps by (metis rtranclp.rtrancl_refl rtranclp_trans)
  qed
  have "db' = db \<or> (\<exists>caller rep i us r. creating v caller rep i us uuid first later db = (r, db'))"
    using assms by (auto simp: create_route_def Let_def split: if_splits sum.splits option.splits json.splits)
  then show ?thesis using c by auto
qed

lemma refresh_route_steps: "refresh_route v x rq f i rs answered adb db = (r, db') \<Longrightarrow> sql_steps db db'"
  by (auto simp: refresh_route_def dest: resolve_steps split: if_splits sum.splits prod.splits)

lemma reconcile_route_steps: "reconcile_route v x rq f i rs adb db = (r, db') \<Longrightarrow> sql_steps db db'"
  by (auto simp: reconcile_route_def Let_def dest: transition_steps
      split: if_splits sum.splits prod.splits desk_store_error.splits)

text \<open>The requests to the desk, and the calls of the operators' own scripts.\<close>

inductive desk_step :: "desk_env \<Rightarrow> auth_env \<Rightarrow> desk_db \<Rightarrow> desk_db \<Rightarrow> bool" for v x where
  asked: "create_route v x rq f uuid first later adb db = (r, db') \<Longrightarrow> desk_step v x db db'"
| refreshed: "refresh_route v x rq f i rs answered adb db = (r, db') \<Longrightarrow> desk_step v x db db'"
| reconciled: "reconcile_route v x rq f i rcs adb db = (r, db') \<Longrightarrow> desk_step v x db db'"
| scripted: "sql_step db db' \<Longrightarrow> desk_step v x db db'"

inductive desk_reachable :: "desk_env \<Rightarrow> auth_env \<Rightarrow> desk_db \<Rightarrow> desk_db \<Rightarrow> bool" for v x db where
  start: "desk_reachable v x db db"
| step: "desk_reachable v x db db1 \<Longrightarrow> desk_step v x db1 db2 \<Longrightarrow> desk_reachable v x db db2"

lemma desk_step_steps: "desk_step v x db db' \<Longrightarrow> sql_steps db db'"
  by (induction rule: desk_step.induct) (auto intro: create_route_steps refresh_route_steps reconcile_route_steps)

lemma desk_reachable_steps: "desk_reachable v x db db' \<Longrightarrow> sql_steps db db'"
  by (induction rule: desk_reachable.induct) (auto dest: desk_step_steps)

section \<open>Properties of the desk\<close>

text \<open>
  C8: The books of the desk, over every sequence of requests and of the operators' own database calls.
  A facility has at most one unfinished operation and a request one operation; the events of an
  operation are numbered without gaps from its creation to its version. Nothing is taken back: events
  are only appended, an operation keeps its request, its facility and its units, its version never falls, and a
  finished operation stays as it is.
\<close>

theorem desk_keeps_its_books:
  assumes "desk_reachable v x db0 db" "desk_ok db0"
  shows "distinct (map so_facility_id (filter (\<lambda>r. \<not> terminal_state (so_state r)) (ds_operations db)))
    \<and> distinct (map so_request_id (ds_operations db))
    \<and> list_all (\<lambda>r. map oe_sequence (events_of (so_operation_id r) db) = [1 ..< Suc (so_version r)]) (ds_operations db)
    \<and> (\<exists>es. ds_events db = ds_events db0 @ es)
    \<and> list_all (\<lambda>r. list_ex (later_row r) (ds_operations db)) (ds_operations db0)"
proof -
  have "desk_ok db \<and> grown db0 db" using sql_steps_ok [OF desk_reachable_steps [OF assms(1)] assms(2)] .
  then show ?thesis by (simp add: desk_ok_def unfinished_def grown_def)
qed

lemma gate_open:
  assumes "fst (gate_outcome fr) = PREPARATION_READY"
  shows "name_at FACILITY_STATUS (fr_status fr) = ''ACTIVE'' \<and> name_at SUBSTITUTION_STATE (fr_substitution fr) = ''NONE''
    \<and> fst (fr_canCommit fr) \<and> fst (fr_transferable fr) \<and> fr_authorityConfigured fr \<and> \<not> fr_authorityRevoked fr
    \<and> fr_ensRoleLive fr \<and> fr_policyConfigured fr"
  using assms by (auto simp: gate_outcome_def Let_def split: if_splits)

lemma ready_inv:
  assumes "rd_outcome (readSubstitutionReadiness dp replacement us now answer) = PREPARATION_READY"
  obtains fr key adapter where "answer = Inr fr" "replacement_candidate dp replacement = Some (key, adapter)" "0 < us"
    "fst (gate_outcome fr) = PREPARATION_READY" "vr_allInputsReady (readValuationReadiness dp (fr_assetId fr) now (fr_valuation fr))"
    "rd_identity (readSubstitutionReadiness dp replacement us now answer) = Some (fr_assetId fr, fr_instrumentRef fr, adapter)"
    "rd_riskEpoch (readSubstitutionReadiness dp replacement us now answer) = Some (fr_epoch fr)"
proof -
  obtain key adapter where c: "replacement_candidate dp replacement = Some (key, adapter)"
    using assms by (auto simp: readSubstitutionReadiness_def unavailable_def split: option.splits)
  have u: "0 < us" using assms c by (auto simp: readSubstitutionReadiness_def unavailable_def split: if_splits)
  obtain fr where fr: "answer = Inr fr"
    using assms c u by (cases answer) (auto simp: readSubstitutionReadiness_def unavailable_def)
  obtain g rs where g: "gate_outcome fr = (g, rs)" by force
  have "g = PREPARATION_READY \<and> vr_allInputsReady (readValuationReadiness dp (fr_assetId fr) now (fr_valuation fr))"
    using assms c u fr g by (auto simp: readSubstitutionReadiness_def Let_def split: if_splits)
  then show thesis using that [OF fr c u] c u fr g by (auto simp: readSubstitutionReadiness_def Let_def)
qed

lemma authority_inv:
  assumes "readCurrentEnsAuthority now au = AUTHORITY_VALID digest approver c o'"
  shows "au_configured au = Inr c \<and> ca_configured c \<and> \<not> ca_ensRoleRevoked c \<and> digest = ca_expectedEnsDigest c
    \<and> approver = ca_orgApprover c \<and> (\<exists>block. au_observed au = Inr (True, block))"
  using assms
  by (auto simp: readCurrentEnsAuthority_def readObservedAuthority_def Let_def split: sum.splits if_splits ObservedAuthority.splits)

lemma durable_inv:
  assumes "transitionDurableSubstitutionOperation v t now db = (Inr row, db')"
  shows "so_version row = tr_expectedVersion t + 1 \<and> so_state row = tr_nextState t \<and> so_operation_id row = tr_operationId t
    \<and> length (ds_events db') = length (ds_events db) + 1"
proof -
  have "transition_substitution_operation t now db = (Inr row, db')"
    using assms by (auto simp: transitionDurableSubstitutionOperation_def split: if_splits prod.splits sum.splits)
  then obtain r e where "List.find (\<lambda>r. so_operation_id r = tr_operationId t) (ds_operations db) = Some r"
    "so_version r = tr_expectedVersion t"
    "row = r\<lparr>so_state := tr_nextState t, so_version := so_version r + 1, so_updated_at := now\<rparr>"
    "ds_events db' = ds_events db @ [e]"
    by (rule transition_inv) blast
  then show ?thesis using find_row by fastforce
qed

lemma durable_keeps:
  assumes "transitionDurableSubstitutionOperation v t now db = (Inr row, db')"
  shows "\<exists>r \<in> set (ds_operations db). so_operation_id r = tr_operationId t \<and> so_facility_id row = so_facility_id r
    \<and> so_request_id row = so_request_id r"
proof -
  have "transition_substitution_operation t now db = (Inr row, db')"
    using assms by (auto simp: transitionDurableSubstitutionOperation_def split: if_splits prod.splits sum.splits)
  then obtain r where "List.find (\<lambda>r. so_operation_id r = tr_operationId t) (ds_operations db) = Some r"
    "row = r\<lparr>so_state := tr_nextState t, so_version := so_version r + 1, so_updated_at := now\<rparr>"
    by (rule transition_inv) blast
  then show ?thesis using find_row by fastforce
qed

text \<open>
  C9: An approval is prepared only under the authority of the moment. When the desk hands out a digest to sign, the
  authority configured on the facility's chain and the role read live on the other both stood,
  the facility was active with no substitution under way, the replacement could be committed and transferred, its
  policy was configured and both prices were fresh; the digest binds the facility, the request, the
  replacement just read, the current epoch and an expiry one hour away. The operation then waits for
  the approval, three recorded steps later.
\<close>

theorem preparation_needs_live_authority:
  assumes "resolveAuthorityAndPrepareOrgApproval v operation mode rs db = (Inr (pending, Some p), db')"
    and "operation \<in> set (ds_operations db)" "desk_ok db"
  shows "\<exists>c block fr. au_configured (pr_authority rs) = Inr c \<and> ca_configured c \<and> \<not> ca_ensRoleRevoked c
      \<and> au_observed (pr_authority rs) = Inr (True, block)
      \<and> pr_facility rs = Inr fr \<and> name_at FACILITY_STATUS (fr_status fr) = ''ACTIVE''
      \<and> name_at SUBSTITUTION_STATE (fr_substitution fr) = ''NONE'' \<and> fst (fr_canCommit fr) \<and> fst (fr_transferable fr)
      \<and> fr_authorityConfigured fr \<and> \<not> fr_authorityRevoked fr \<and> fr_ensRoleLive fr \<and> fr_policyConfigured fr
      \<and> vr_allInputsReady (readValuationReadiness (dv_deployment v) (fr_assetId fr) (pr_now rs) (fr_valuation fr))
      \<and> fd_facilityId (oa_decision p) = so_facility_id operation \<and> fd_requestId (oa_decision p) = so_request_id operation
      \<and> fd_operation (oa_decision p) = FACILITY_OPERATION SUBSTITUTE \<and> fd_subjectAssetId (oa_decision p) = fr_assetId fr
      \<and> fd_pinnedEpoch (oa_decision p) = fr_epoch fr
      \<and> remainingValiditySeconds (oa_decision p) (pr_now rs) = DECISION_EXPIRY_SECONDS
      \<and> oa_orgApprovalHash p = orgApprovalHash (dv_externals v) (decisionHash (dv_externals v) (oa_decision p)) (ca_expectedEnsDigest c)
      \<and> oa_orgApprover p = ca_orgApprover c
      \<and> so_state pending = ''ORG_APPROVAL_PENDING'' \<and> so_version pending = so_version operation + 3
      \<and> length (ds_events db') = length (ds_events db) + 3"
proof -
  let ?rd = "readSubstitutionReadiness (dv_deployment v) (so_replacement_instrument_id operation) (so_requested_units operation)
      (pr_now rs) (pr_facility rs)"
  let ?t = "transition_of operation ''AUTHORITY_RESOLVING'' ''AUTHORITY_RESOLVING_STARTED'' PEmpty"
  let ?a = "readCurrentEnsAuthority (pr_now rs) (pr_authority rs)"
  obtain resolving db1 where t1: "transitionDurableSubstitutionOperation v ?t (pr_now rs) db = (Inr resolving, db1)"
    using assms(1) by (auto simp: resolveAuthorityAndPrepareOrgApproval_def split: prod.splits sum.splits)
  have nostop: "stop_at v q s e pl now d \<noteq> (Inr (pending, Some p), d')" for q s e pl now d d'
    by (auto simp: stop_at_def split: prod.splits sum.splits)
  obtain digest approver c o' where a: "?a = AUTHORITY_VALID digest approver c o'"
    using assms(1) t1 nostop by (auto simp: resolveAuthorityAndPrepareOrgApproval_def Let_def split: CurrentAuthority.splits)
  have ready: "rd_outcome ?rd = PREPARATION_READY"
    using assms(1) t1 nostop a
    by (auto simp: resolveAuthorityAndPrepareOrgApproval_def Let_def split: ReadinessOutcome.splits)
  obtain fr key adapter where fr: "pr_facility rs = Inr fr" "fst (gate_outcome fr) = PREPARATION_READY"
    "vr_allInputsReady (readValuationReadiness (dv_deployment v) (fr_assetId fr) (pr_now rs) (fr_valuation fr))"
    and id: "rd_identity ?rd = Some (fr_assetId fr, fr_instrumentRef fr, adapter)" "rd_riskEpoch ?rd = Some (fr_epoch fr)"
    by (rule ready_inv [OF ready]) blast
  have pa: "prepare_approval v resolving mode ?a digest approver (fr_assetId fr, fr_instrumentRef fr, adapter) (fr_epoch fr)
      (pr_now rs) db1 = (Inr (pending, Some p), db')"
    using assms(1) by (simp add: resolveAuthorityAndPrepareOrgApproval_def Let_def t1 a ready id)
  obtain valid db2 where t2: "transitionDurableSubstitutionOperation v
      (transition_of resolving ''AUTHORITY_VALID'' ''AUTHORITY_VALID'' (PAuthority ?a)) (pr_now rs) db1 = (Inr valid, db2)"
    using pa by (auto simp: prepare_approval_def split: prod.splits sum.splits)
  let ?p = "org_approval (dv_externals v) (prepared_decision (dv_externals v) resolving
      (fr_assetId fr, fr_instrumentRef fr, adapter) (fr_epoch fr) (pr_now rs)) digest approver"
  have t3: "transitionDurableSubstitutionOperation v (transition_of valid ''ORG_APPROVAL_PENDING''
      (if mode = REFRESH then ''DECISION_REFRESHED'' else ''ORG_APPROVAL_PENDING'') (PPreparation ?p)) (pr_now rs) db2 = (Inr pending, db')
      \<and> p = ?p"
    using pa t2 by (auto simp: prepare_approval_def Let_def split: prod.splits sum.splits)
  have v: "so_version pending = so_version operation + 3" "so_state pending = ''ORG_APPROVAL_PENDING''"
    "length (ds_events db') = length (ds_events db) + 3"
    using durable_inv [OF t1] durable_inv [OF t2] durable_inv [OF conjunct1 [OF t3]] by (simp_all add: transition_of_def)
  obtain r where "r \<in> set (ds_operations db)" "so_operation_id r = so_operation_id operation"
    "so_facility_id resolving = so_facility_id r" "so_request_id resolving = so_request_id r"
    using durable_keeps [OF t1] by (auto simp: transition_of_def)
  moreover have "inj_on so_operation_id (set (ds_operations db))" using desk_okD(1) [OF assms(3)] by (simp add: distinct_map)
  ultimately have "so_facility_id resolving = so_facility_id operation \<and> so_request_id resolving = so_request_id operation"
    using assms(2) by (metis inj_onD)
  then show ?thesis
    using authority_inv [OF a] gate_open [OF fr(2)] fr v conjunct2 [OF t3]
    by (auto simp: org_approval_def prepared_decision_def remainingValiditySeconds_def)
qed

lemma zero_id_zeros: "zero_id s \<longleftrightarrow> (\<exists>k. s = ''0x'' @ replicate (Suc k) (CHR ''0''))"
proof
  assume z: "zero_id s"
  then have "take 2 s = ''0x''" "drop 2 s \<noteq> []" "list_all (\<lambda>c. c = CHR ''0'') (drop 2 s)"
    by (auto simp: zero_id_def bytesReason_def split: if_splits)
  then have "s = ''0x'' @ drop 2 s" "drop 2 s = replicate (length (drop 2 s)) (CHR ''0'')"
    by (metis append_take_drop_id, intro replicate_eqI) (simp_all add: list_all_iff)
  then show "\<exists>k. s = ''0x'' @ replicate (Suc k) (CHR ''0'')"
    using \<open>drop 2 s \<noteq> []\<close> by (metis length_0_conv not0_implies_Suc)
qed (auto simp: zero_id_def bytesReason_def list_all_iff)

lemma state_unknown_iff: "name_at SUBSTITUTION_STATE n = ''COMMITMENT_UNKNOWN'' \<longleftrightarrow> n = 3"
  by (auto simp: name_at_def SUBSTITUTION_STATE_def nth_Cons numeral_eq_Suc less_Suc_eq split: if_splits nat.splits)

lemma outcome_doubtful:
  "mapReconciliationOutcome s m z d \<in> {''COMMITMENT_UNKNOWN'', ''EXTERNAL_ATTEMPT_DETECTED''} \<longleftrightarrow>
     s = ''COMMITMENT_UNKNOWN'' \<or> \<not> m \<and> \<not> z"
  by (simp add: mapReconciliationOutcome_def)

lemma view_doubtful:
  "rn_outcome (current_view v requestId d r rs) \<in> {''COMMITMENT_UNKNOWN'', ''EXTERNAL_ATTEMPT_DETECTED''} \<longleftrightarrow>
     (\<exists>h. rc_hedera rs = Inr h \<and> (hr_substitution h = 3
        \<or> toLowerCase (hr_requestId h) \<noteq> toLowerCase requestId
          \<and> (\<nexists>k. hr_requestId h = ''0x'' @ replicate (Suc k) (CHR ''0''))))"
  by (cases "rc_hedera rs")
    (simp_all only: current_view_def reconcileSubstitutionOperation_def readHederaFacility_def sum.case prod.case Let_def
      Reconciliation.select_convs HederaFacility.select_convs outcome_doubtful state_unknown_iff zero_id_zeros [symmetric], auto)

text \<open>
  C24: a reconciliation only raises doubt. It leaves a finished operation alone, and moves any other at most
  to \<open>COMMITMENT_UNKNOWN\<close>, exactly when the chain has answered and its substitution is in the state of an unknown
  commitment (number 3) or carries a request identifier that is neither this request's, in any case of
  letters, nor all zeros; in every other case, the silence of the chain included, the state stays. It
  never finishes an operation.
\<close>

theorem reconciliation_only_raises_doubt:
  assumes "reconcile_route v x rq facilityId requestId rs adb db = (Reconciled updated current stale, db')"
  shows "\<exists>r \<in> set (ds_operations db). so_request_id r = toLowerCase requestId
      \<and> (updated = r \<and> db' = db \<and> (terminal_state (so_state r) \<or> stale)
         \<or> \<not> terminal_state (so_state r) \<and> \<not> stale \<and> so_operation_id updated = so_operation_id r
           \<and> so_version updated = so_version r + 1 \<and> length (ds_events db') = length (ds_events db) + 1
           \<and> so_state updated =
               (if \<exists>h. rc_hedera rs = Inr h \<and> (hr_substitution h = 3
                     \<or> toLowerCase (hr_requestId h) \<noteq> toLowerCase requestId
                       \<and> (\<nexists>k. hr_requestId h = ''0x'' @ replicate (Suc k) (CHR ''0'')))
                then ''COMMITMENT_UNKNOWN'' else so_state r))
      \<and> (terminal_state (so_state updated) \<longrightarrow> terminal_state (so_state r))
      \<and> (case rc_hedera rs of Inl _ \<Rightarrow> so_state updated = so_state r | Inr _ \<Rightarrow> True)"
proof -
  obtain r where o: "operation_for v x rq facilityId requestId (rc_now rs) adb db = Inr r"
    using assms by (auto simp: reconcile_route_def operation_for_def operator_of_def
        split: sum.splits if_splits option.splits cookie.splits)
  have r: "r \<in> set (ds_operations db)" "so_request_id r = toLowerCase requestId"
    using o find_row [of _ "ds_operations db" r]
    by (auto simp: operation_for_def findSubstitutionOperationByRequestId_def split: if_splits sum.splits option.splits)
  let ?c = "current_view v requestId False r rs"
  let ?next = "case map_of RECONCILIATION_STATE (rn_outcome ?c) of Some s \<Rightarrow> s | None \<Rightarrow> so_state r"
  let ?t = "(transition_of r ?next ''RECONCILED'' (PReconciliation ?c))\<lparr>tr_sourceReference := Some (rn_onChainRequestId ?c)\<rparr>"
  have next_eq: "?next = (if rn_outcome ?c \<in> {''COMMITMENT_UNKNOWN'', ''EXTERNAL_ATTEMPT_DETECTED''} then ''COMMITMENT_UNKNOWN'' else so_state r)"
    by (simp add: RECONCILIATION_STATE_def)
  have ct: "\<not> terminal_state ''COMMITMENT_UNKNOWN''" by (simp add: terminal_state_def TERMINAL_SUBSTITUTION_STATES_def)
  have dark: "rn_outcome ?c = ''UNAVAILABLE''" if "rc_hedera rs = Inl m" for m
    by (simp add: current_view_def reconcileSubstitutionOperation_def readHederaFacility_def that)
  show ?thesis
  proof (cases "terminal_state (so_state r)")
    case True
    then have "updated = r \<and> db' = db" using assms o by (auto simp: reconcile_route_def Let_def)
    then show ?thesis using r True by (intro bexI [of _ r]) (auto split: sum.split)
  next
    case False
    obtain a db1 where t: "transitionDurableSubstitutionOperation v ?t (rc_now rs) db = (a, db1)" by force
    show ?thesis
    proof (cases a)
      case (Inl e)
      have "db1 = db"
        using t Inl transition_refused
        by (auto simp: transitionDurableSubstitutionOperation_def split: if_splits prod.splits sum.splits)
      moreover have "updated = r \<and> stale \<and> db' = db1"
        using assms o False t Inl by (cases e) (simp_all add: reconcile_route_def Let_def)
      ultimately show ?thesis using r False by (intro bexI [of _ r]) (auto split: sum.split)
    next
      case (Inr row)
      have u: "updated = row \<and> current = ?c \<and> \<not> stale \<and> db' = db1"
        using assms o False t Inr by (simp add: reconcile_route_def Let_def)
      have d: "so_version row = so_version r + 1" "so_state row = ?next" "so_operation_id row = so_operation_id r"
        "length (ds_events db1) = length (ds_events db) + 1"
        using durable_inv [OF t [unfolded Inr]] by (simp_all add: transition_of_def)
      have nt: "\<not> terminal_state (so_state row)" using d(2) False ct unfolding next_eq by (simp split: if_splits)
      have dk: "case rc_hedera rs of Inl _ \<Rightarrow> so_state row = so_state r | Inr _ \<Rightarrow> True"
        using d(2) dark unfolding next_eq by (auto split: sum.split)
      show ?thesis
        using r False u d nt dk unfolding next_eq view_doubtful by (intro bexI [of _ r]) (auto split: sum.splits)
    qed
  qed
qed

section \<open>The desk at work\<close>

lemma lower_hex_fixed: "is_digit c \<or> c \<in> set ''abcdef'' \<Longrightarrow> lower_char c = c"
  by (auto simp: lower_char_def is_digit_def)

definition FACILITY :: string where
  "FACILITY = ''0x6534fdf67d36afeeb7118c7d81c7f4e06ab548735483ca249afcf12e6f75b1ee''"

definition sample_desk :: desk_env where
  "sample_desk = \<lparr>dv_externals = plain_externals,
     dv_deployment = \<lparr>dp_facilityId = FACILITY, dp_settlementAssetId = ''s'', dp_settlementMaxPriceAge = 60,
                      dp_adapters = [(''B'', ''0xb'')]\<rparr>,
     dv_reachable = True, dv_status = (\<lambda>_. 500), dv_enabled = True\<rparr>"

definition sample_operation :: SupabaseOperation where
  "sample_operation = \<lparr>so_operation_id = ''op'', so_request_id = ''0x'' @ replicate 64 (CHR ''1''), so_facility_id = FACILITY,
     so_home_domain = ''hedera:testnet:296'', so_old_instrument_id = ''A'', so_replacement_instrument_id = ''B'',
     so_requested_units = 5, so_state = ''CREATED'', so_version = 1, so_created_at = 0, so_updated_at = 0, so_completed_at = None\<rparr>"

definition no_books :: desk_db where "no_books = \<lparr>ds_operations = [], ds_events = [], ds_outbox = []\<rparr>"

definition one_book :: desk_db where
  "one_book = snd (create_substitution_operation sample_operation 0 no_books)"

lemma one_book_tables:
  "ds_operations one_book = [sample_operation]" "length (ds_events one_book) = 1"
  by (simp_all add: one_book_def create_substitution_operation_def no_books_def sample_operation_def Let_def)

lemma no_books_ok: "desk_ok no_books"
  by (simp add: desk_ok_def no_books_def unfinished_def)

lemma one_book_reachable: "desk_reachable sample_desk sample_auth no_books one_book"
proof -
  obtain r where "create_substitution_operation sample_operation 0 no_books = (r, one_book)"
    unfolding one_book_def by (metis prod.collapse)
  then show ?thesis by (meson desk_reachable.intros desk_step.scripted sql_step.created)
qed

theorem desk_keeps_its_books_witness:
  "map so_facility_id (ds_operations one_book) = [FACILITY] \<and> distinct (map so_request_id (ds_operations one_book))
   \<and> map oe_sequence (events_of ''op'' one_book) = [1]"
  using desk_keeps_its_books [OF one_book_reachable no_books_ok] by (simp add: one_book_tables sample_operation_def)

definition live_authority :: authority_reads where
  "live_authority = \<lparr>au_configured = Inr \<lparr>ca_facilityId = FACILITY, ca_authorityVerifier = ''v'', ca_expectedEnsDigest = ''d'',
     ca_orgApprover = ''a'', ca_ensRoleRevoked = False, ca_configured = True, ca_hederaBlock = 9\<rparr>, au_observed = Inr (True, 8)\<rparr>"

definition ready_facility :: facility_reads where
  "ready_facility = \<lparr>fr_blockNumber = 9, fr_blockTime = 10, fr_status = 2, fr_collateralAssetId = ''A'', fr_collateralInstrumentRef = ''iA'',
     fr_collateralUnits = 5, fr_substitution = 0, fr_epoch = 3, fr_authorityConfigured = True, fr_authorityRevoked = False,
     fr_policyConfigured = True, fr_assetId = ''B'', fr_instrumentRef = ''iB'', fr_canCommit = (True, ''0x0''),
     fr_transferable = (True, ''0x0''), fr_committedUnits = 0, fr_ensRoleLive = True,
     fr_valuation = \<lparr>vl_replacementMaxAge = Some 60, vl_settlement = Some (1, 5), vl_replacement = Some (1, 5)\<rparr>\<rparr>"

definition live_reads :: preparation_reads where
  "live_reads = \<lparr>pr_now = 10000, pr_authority = live_authority, pr_facility = Inr ready_facility\<rparr>"

lemma moves_on:
  assumes "dv_reachable v" "List.find (\<lambda>r. so_operation_id r = tr_operationId t) (ds_operations db) = Some r"
    "so_version r = tr_expectedVersion t" "\<not> terminal_state (so_state r)"
  obtains row db' where "transitionDurableSubstitutionOperation v t now db = (Inr row, db')"
    "row = r\<lparr>so_state := tr_nextState t, so_version := so_version r + 1, so_updated_at := now\<rparr>"
    "List.find (\<lambda>r. so_operation_id r = tr_operationId t) (ds_operations db') = Some row"
    "ds_operations db' = map (\<lambda>q. if so_operation_id q = tr_operationId t then row else q) (ds_operations db)"
proof -
  let ?row = "r\<lparr>so_state := tr_nextState t, so_version := so_version r + 1, so_updated_at := now\<rparr>"
  obtain db' where tr: "transition_substitution_operation t now db = (Inr ?row, db')"
    using assms(2-4) by (auto simp: transition_substitution_operation_def Let_def)
  have i: "so_operation_id r = tr_operationId t" using find_row [OF assms(2)] by simp
  have ops: "ds_operations db' = map (\<lambda>q. if so_operation_id q = tr_operationId t then ?row else q) (ds_operations db)"
    by (rule transition_inv [OF tr]) blast
  have "List.find (\<lambda>r. so_operation_id r = tr_operationId t)
      (map (\<lambda>q. if so_operation_id q = tr_operationId t then ?row else q) qs) = Some ?row"
    if "List.find (\<lambda>r. so_operation_id r = tr_operationId t) qs = Some r" for qs
    using that i by (induction qs) (auto split: if_splits)
  then have "List.find (\<lambda>r. so_operation_id r = tr_operationId t) (ds_operations db') = Some ?row"
    using assms(2) by (simp only: ops)
  then show thesis using that [OF _ refl _ ops] tr assms(1) by (simp add: transitionDurableSubstitutionOperation_def)
qed

lemma live_ready:
  "rd_outcome (readSubstitutionReadiness (dv_deployment sample_desk) ''B'' 5 10000 (Inr ready_facility)) = PREPARATION_READY"
  "rd_identity (readSubstitutionReadiness (dv_deployment sample_desk) ''B'' 5 10000 (Inr ready_facility)) = Some (''B'', ''iB'', ''0xb'')"
  "rd_riskEpoch (readSubstitutionReadiness (dv_deployment sample_desk) ''B'' 5 10000 (Inr ready_facility)) = Some 3"
proof -
  have c: "replacement_candidate (dv_deployment sample_desk) ''B'' = Some (''B'', ''0xb'')"
    by (simp add: replacement_candidate_def sample_desk_def)
  have g: "gate_outcome ready_facility = (PREPARATION_READY, [])"
    by (simp add: gate_outcome_def ready_facility_def name_at_def FACILITY_STATUS_def SUBSTITUTION_STATE_def Let_def)
  have v: "vr_allInputsReady (readValuationReadiness (dv_deployment sample_desk) (fr_assetId ready_facility) 10000 (fr_valuation ready_facility))"
    by (simp add: readValuationReadiness_def readPriceInput_def ready_facility_def sample_desk_def Let_def)
  show "rd_outcome (readSubstitutionReadiness (dv_deployment sample_desk) ''B'' 5 10000 (Inr ready_facility)) = PREPARATION_READY"
    "rd_identity (readSubstitutionReadiness (dv_deployment sample_desk) ''B'' 5 10000 (Inr ready_facility)) = Some (''B'', ''iB'', ''0xb'')"
    "rd_riskEpoch (readSubstitutionReadiness (dv_deployment sample_desk) ''B'' 5 10000 (Inr ready_facility)) = Some 3"
    using v by (simp_all add: readSubstitutionReadiness_def c g Let_def) (simp_all add: ready_facility_def)
qed

lemma sample_prepares:
  "\<exists>pending p db'. resolveAuthorityAndPrepareOrgApproval sample_desk sample_operation INITIAL live_reads one_book
     = (Inr (pending, Some p), db')"
proof -
  have up: "dv_reachable sample_desk" by (simp add: sample_desk_def)
  have nt: "\<not> terminal_state s" if "s \<in> {''CREATED'', ''AUTHORITY_RESOLVING'', ''AUTHORITY_VALID''}" for s
    using that by (auto simp: terminal_state_def TERMINAL_SUBSTITUTION_STATES_def)
  obtain resolving db1 where t1: "transitionDurableSubstitutionOperation sample_desk
      (transition_of sample_operation ''AUTHORITY_RESOLVING'' ''AUTHORITY_RESOLVING_STARTED'' PEmpty) 10000 one_book = (Inr resolving, db1)"
    and r1: "so_state resolving = ''AUTHORITY_RESOLVING''" "so_operation_id resolving = ''op''"
      "List.find (\<lambda>r. so_operation_id r = ''op'') (ds_operations db1) = Some resolving"
    by (rule moves_on [OF up, where r = sample_operation and now = 10000 and db = one_book
          and t = "transition_of sample_operation ''AUTHORITY_RESOLVING'' ''AUTHORITY_RESOLVING_STARTED'' PEmpty"])
      (auto simp: transition_of_def one_book_tables sample_operation_def nt)
  obtain digest approver c o' where a: "readCurrentEnsAuthority 10000 live_authority = AUTHORITY_VALID digest approver c o'"
    by (simp add: readCurrentEnsAuthority_def live_authority_def readObservedAuthority_def Let_def)
  let ?a = "AUTHORITY_VALID digest approver c o'"
  let ?t2 = "transition_of resolving ''AUTHORITY_VALID'' ''AUTHORITY_VALID'' (PAuthority ?a)"
  obtain valid db2 where t2: "transitionDurableSubstitutionOperation sample_desk ?t2 10000 db1 = (Inr valid, db2)"
    and r2: "so_state valid = ''AUTHORITY_VALID''" "so_operation_id valid = ''op''"
      "List.find (\<lambda>r. so_operation_id r = ''op'') (ds_operations db2) = Some valid"
    by (rule moves_on [OF up, where r = resolving and now = 10000 and db = db1 and t = ?t2])
      (use r1 nt in \<open>auto simp: transition_of_def\<close>)
  have t3: "\<exists>row db3. transitionDurableSubstitutionOperation sample_desk (transition_of valid s e pl) 10000 db2 = (Inr row, db3)" for s e pl
    by (rule moves_on [OF up, where r = valid and now = 10000 and db = db2 and t = "transition_of valid s e pl"])
      (use r2 nt in \<open>auto simp: transition_of_def\<close>)
  have o: "so_replacement_instrument_id sample_operation = ''B''" "so_requested_units sample_operation = 5"
    by (simp_all add: sample_operation_def)
  let ?p = "org_approval (dv_externals sample_desk)
      (prepared_decision (dv_externals sample_desk) resolving (''B'', ''iB'', ''0xb'') 3 10000) digest approver"
  obtain row db3 where t4: "transitionDurableSubstitutionOperation sample_desk
      (transition_of valid ''ORG_APPROVAL_PENDING'' ''ORG_APPROVAL_PENDING'' (PPreparation ?p)) 10000 db2 = (Inr row, db3)"
    using t3 by blast
  have "prepare_approval sample_desk resolving INITIAL ?a digest approver (''B'', ''iB'', ''0xb'') 3 10000 db1
      = (Inr (row, Some ?p), db3)"
    by (simp add: prepare_approval_def t2 t4 Let_def)
  then show ?thesis
    by (simp add: resolveAuthorityAndPrepareOrgApproval_def live_reads_def t1 a Let_def o live_ready)
qed

theorem preparation_needs_live_authority_witness:
  "\<exists>pending p db'. resolveAuthorityAndPrepareOrgApproval sample_desk sample_operation INITIAL live_reads one_book
     = (Inr (pending, Some p), db') \<and> so_state pending = ''ORG_APPROVAL_PENDING'' \<and> so_version pending = 4
     \<and> remainingValiditySeconds (oa_decision p) 10000 = 3600"
proof -
  obtain pending p db' where s: "resolveAuthorityAndPrepareOrgApproval sample_desk sample_operation INITIAL live_reads one_book
     = (Inr (pending, Some p), db')"
    using sample_prepares by blast
  have ok: "desk_ok one_book" using sql_steps_ok [OF desk_reachable_steps [OF one_book_reachable] no_books_ok] by blast
  have i: "sample_operation \<in> set (ds_operations one_book)" by (simp add: one_book_tables)
  show ?thesis
    using preparation_needs_live_authority [OF s i ok] s
    by (auto simp: live_reads_def DECISION_EXPIRY_SECONDS_def sample_operation_def)
qed

definition operator_db :: auth_db where
  "operator_db = \<lparr>ad_organizations = [\<lparr>og_id = ''o'', og_slug = ''usance-phase07-testnet'', og_display_name = ''S'', og_environment = ''TESTNET''\<rparr>],
     ad_memberships = [\<lparr>mb_organization_id = ''o'', mb_wallet_address = ''0xw'', mb_role = ''TESTNET_OPERATOR'', mb_status = ''ACTIVE'',
                        mb_revoked_at = None\<rparr>],
     ad_challenges = [], ad_sessions = [\<lparr>sr_id = ''s'', sr_token_hash = ''t'', sr_wallet_address = ''0xw'', sr_organization_id = ''o'',
                        sr_expires_at = 100000, sr_revoked_at = None\<rparr>]\<rparr>"

definition operator_request :: web_request where
  "operator_request = \<lparr>wr_origin = Some ''https://usance'', wr_cookie = Some ''usance_institutional_session=t'', wr_body = None\<rparr>"

definition foreign_reads :: reconciliation_reads where
  "foreign_reads = \<lparr>rc_now = 10000,
     rc_hedera = Inr \<lparr>hr_blockNumber = 9, hr_status = 3, hr_outstanding = 0, hr_riskEpoch = 3, hr_collateral = (''A'', ''iA'', ''0xa'', 5, 1),
                      hr_substitution = 1, hr_requestId = ''0x2'', hr_requiredUnits = 5, hr_authorityExpiry = 0\<rparr>,
     rc_facility = Inr ready_facility\<rparr>"

lemma sample_caller:
  "\<exists>s. operator_of sample_auth operator_request 10000 operator_db = Inr s \<and> as_organization_slug s = ''usance-phase07-testnet''"
proof -
  have c: "cookieToken sample_auth operator_request = Token ''t''"
    by (simp add: cookieToken_def operator_request_def sample_auth_def INSTITUTIONAL_SESSION_COOKIE_def trim_def is_ws_def)
  have l: "lookup_auth_session ''t'' 10000 operator_db
      = [joined (hd (ad_sessions operator_db)) (hd (ad_organizations operator_db)) (hd (ad_memberships operator_db))]"
    by (simp add: lookup_auth_session_def operator_db_def live_row_def active_member_def)
  have "lookupSession sample_auth ''t'' 10000 operator_db
      = Inr (Some (joined (hd (ad_sessions operator_db)) (hd (ad_organizations operator_db)) (hd (ad_memberships operator_db))))"
    using l by (simp add: lookupSession_def sample_auth_def)
  then show ?thesis
    by (simp add: operator_of_def c) (simp add: joined_def operator_db_def)
qed

lemma facility_lower: "toLowerCase FACILITY = FACILITY"
proof -
  have "lower_char c = c" if "is_digit c \<or> c \<in> set ''abcdefx''" for c
    using that by (auto simp: lower_char_def is_digit_def)
  moreover have "list_all (\<lambda>c. is_digit c \<or> c \<in> set ''abcdefx'') FACILITY" by (simp add: FACILITY_def is_digit_def)
  ultimately show ?thesis unfolding toLowerCase_def list_all_iff by (intro map_idI) blast
qed

lemma sample_found:
  "operation_for sample_desk sample_auth operator_request FACILITY (so_request_id sample_operation) 10000 operator_db one_book
     = Inr sample_operation"
proof -
  have o: "isSameOrigin sample_auth operator_request" by (simp add: isSameOrigin_def sample_auth_def operator_request_def)
  have f: "our_facility sample_desk FACILITY" by (simp add: our_facility_def sample_desk_def)
  have i: "any_request_id (so_request_id sample_operation)"
  proof -
    have "hex_char (CHR ''1'')" by (simp add: hex_char_def is_digit_def)
    then show ?thesis by (simp add: any_request_id_def sample_operation_def hex_of_def list_all_iff lower_char_def)
  qed
  have a: "isCallerAssignedToFacility s FACILITY" if "as_organization_slug s = ''usance-phase07-testnet''" for s
    using facility_lower by (simp add: isCallerAssignedToFacility_def that FACILITY_ORGANIZATION_SLUG_def FACILITY_def)
  have "toLowerCase (so_request_id sample_operation) = so_request_id sample_operation"
    by (simp add: toLowerCase_def sample_operation_def lower_char_def)
  then have "findSubstitutionOperationByRequestId sample_desk (so_request_id sample_operation) one_book = Inr (Some sample_operation)"
    by (simp add: findSubstitutionOperationByRequestId_def one_book_tables sample_desk_def)
  then show ?thesis
    using sample_caller a by (auto simp: operation_for_def o f i)
qed

theorem reconciliation_only_raises_doubt_witness:
  "\<exists>updated current db'. reconcile_route sample_desk sample_auth operator_request FACILITY (so_request_id sample_operation) foreign_reads
      operator_db one_book = (Reconciled updated current False, db')
    \<and> so_state updated = ''COMMITMENT_UNKNOWN'' \<and> so_version updated = 2 \<and> length (ds_events db') = 2"
proof -
  let ?i = "so_request_id sample_operation"
  let ?c = "current_view sample_desk ?i False sample_operation foreign_reads"
  have n: "toLowerCase ''0x2'' \<noteq> toLowerCase ?i"
  proof
    assume "toLowerCase ''0x2'' = toLowerCase ?i"
    then have "length (toLowerCase ''0x2'') = length (toLowerCase ?i)" by simp
    then show False by (simp add: toLowerCase_def sample_operation_def)
  qed
  have "rn_outcome ?c = ''EXTERNAL_ATTEMPT_DETECTED''"
    using n by (simp add: current_view_def reconcileSubstitutionOperation_def readHederaFacility_def foreign_reads_def
        mapReconciliationOutcome_def zero_id_def bytesReason_def name_at_def SUBSTITUTION_STATE_def Let_def)
  then have c: "rn_outcome ?c = ''EXTERNAL_ATTEMPT_DETECTED''" .
  have nt: "\<not> terminal_state (so_state sample_operation)"
    by (simp add: terminal_state_def TERMINAL_SUBSTITUTION_STATES_def sample_operation_def)
  have now: "rc_now foreign_reads = 10000" by (simp add: foreign_reads_def)
  let ?t = "(transition_of sample_operation ''COMMITMENT_UNKNOWN'' ''RECONCILED'' (PReconciliation ?c))
      \<lparr>tr_sourceReference := Some (rn_onChainRequestId ?c)\<rparr>"
  obtain row db' where t: "transitionDurableSubstitutionOperation sample_desk ?t 10000 one_book = (Inr row, db')"
    by (rule moves_on [where v = sample_desk and r = sample_operation and now = 10000 and db = one_book and t = ?t])
      (use nt in \<open>auto simp: transition_of_def one_book_tables sample_desk_def\<close>)
  have r: "reconcile_route sample_desk sample_auth operator_request FACILITY ?i foreign_reads operator_db one_book
      = (Reconciled row ?c False, db')"
    using t by (simp add: reconcile_route_def now sample_found nt Let_def c RECONCILIATION_STATE_def)
  let ?doubt = "\<exists>h. rc_hedera foreign_reads = Inr h \<and> (hr_substitution h = 3
        \<or> toLowerCase (hr_requestId h) \<noteq> toLowerCase ?i \<and> (\<nexists>k. hr_requestId h = ''0x'' @ replicate (Suc k) (CHR ''0'')))"
  have "rn_outcome ?c \<in> {''COMMITMENT_UNKNOWN'', ''EXTERNAL_ATTEMPT_DETECTED''}" by (simp add: c)
  then have doubt: ?doubt by (simp only: view_doubtful)
  have op: "r = sample_operation" if "r \<in> set (ds_operations one_book)" for r using that by (simp add: one_book_tables)
  have "so_state row = ''COMMITMENT_UNKNOWN'' \<and> so_version row = so_version sample_operation + 1
      \<and> length (ds_events db') = length (ds_events one_book) + 1"
    using reconciliation_only_raises_doubt [OF r] nt op unfolding if_P [OF doubt] by (metis (no_types, lifting))
  then show ?thesis using r by (simp add: one_book_tables sample_operation_def)
qed

section \<open>Findings\<close>

text \<open>
  A refresh asks only whether the operation is finished: one whose commitment is unknown is moved on,
  to a state \<open>canAdvanceOperation\<close> forbids, and the doubt is lost.
\<close>

lemma refresh_forgets_unknown:
  assumes "dv_reachable v" "operation \<in> set (ds_operations db)" "desk_ok db" "so_state operation = ''COMMITMENT_UNKNOWN''"
    and "au_configured (pr_authority rs) = Inl m"
  shows "\<exists>moved db'. resolveAuthorityAndPrepareOrgApproval v operation REFRESH rs db = (Inr (moved, None), db')
    \<and> so_state moved = ''AUTHORITY_UNAVAILABLE'' \<and> \<not> canAdvanceOperation (so_state operation) (so_state moved)"
proof -
  have nt: "\<not> terminal_state ''COMMITMENT_UNKNOWN''" "\<not> terminal_state ''AUTHORITY_RESOLVING''"
    by (simp_all add: terminal_state_def TERMINAL_SUBSTITUTION_STATES_def)
  have f: "List.find (\<lambda>r. so_operation_id r = so_operation_id operation) qs = Some operation"
    if "operation \<in> set qs" "distinct (map so_operation_id qs)" for qs
    using that by (induction qs) (auto simp: image_iff)
  have f1: "List.find (\<lambda>r. so_operation_id r = so_operation_id operation) (ds_operations db) = Some operation"
    by (rule f [OF assms(2) desk_okD(1) [OF assms(3)]])
  let ?t = "transition_of operation ''AUTHORITY_RESOLVING'' ''AUTHORITY_RESOLVING_STARTED'' PEmpty"
  obtain r1 db1 where t1: "transitionDurableSubstitutionOperation v ?t (pr_now rs) db = (Inr r1, db1)"
    and r1: "so_state r1 = ''AUTHORITY_RESOLVING''" "so_operation_id r1 = so_operation_id operation"
      "List.find (\<lambda>r. so_operation_id r = so_operation_id operation) (ds_operations db1) = Some r1"
    by (rule moves_on [OF assms(1), where r = operation and now = "pr_now rs" and db = db and t = ?t])
      (use f1 nt assms(4) in \<open>auto simp: transition_of_def\<close>)
  let ?a = "AUTHORITY_UNAVAILABLE (''Hedera read failed: '' @ take 160 m)"
  have a: "readCurrentEnsAuthority (pr_now rs) (pr_authority rs) = ?a" by (simp add: readCurrentEnsAuthority_def assms(5))
  let ?s = "transition_of r1 ''AUTHORITY_UNAVAILABLE'' ''AUTHORITY_UNAVAILABLE'' (PAuthority ?a)"
  obtain r2 db2 where t2: "transitionDurableSubstitutionOperation v ?s (pr_now rs) db1 = (Inr r2, db2)"
    and r2: "so_state r2 = ''AUTHORITY_UNAVAILABLE''"
    by (rule moves_on [OF assms(1), where r = r1 and now = "pr_now rs" and db = db1 and t = ?s])
      (use r1 nt in \<open>auto simp: transition_of_def\<close>)
  show ?thesis
    using t2 r2 by (simp add: resolveAuthorityAndPrepareOrgApproval_def t1 a stop_at_def assms(4) canAdvanceOperation_def nt Let_def)
      (simp add: terminal_state_def TERMINAL_SUBSTITUTION_STATES_def)
qed

text \<open>
  A replacement that does not exist is recorded all the same, against a collateral \<open>UNKNOWN\<close>, and
  occupies the facility: the next request is turned away.
\<close>

lemma invalid_replacement_blocks_facility:
  assumes "dv_reachable v" "replacement_candidate (dv_deployment v) replacement = None" "0 < us"
    and "pr_authority later = live_authority" "rid \<noteq> requestId"
  shows "\<exists>reply db' row. creating v caller replacement requestId us uuid first later no_books = (reply, db')
    \<and> ds_operations db' = [row] \<and> so_old_instrument_id row = ''UNKNOWN'' \<and> so_state row = ''AUTHORITY_UNAVAILABLE''
    \<and> fst (createDurableSubstitutionOperation v (row\<lparr>so_request_id := rid, so_operation_id := uuid', so_state := ''CREATED''\<rparr>) now db')
        = Inl SUBSTITUTION_STORE_UNAVAILABLE"
proof -
  let ?rd = "readSubstitutionReadiness (dv_deployment v) replacement us (pr_now first) (pr_facility first)"
  have rd: "rd_outcome ?rd = REPLACEMENT_UNSAFE" "rd_facilityId ?rd = dp_facilityId (dv_deployment v)"
    "rd_collateralAssetId ?rd = ''UNKNOWN''"
    by (simp_all add: readSubstitutionReadiness_def assms(2) unavailable_def)
  have nt: "\<not> terminal_state ''CREATED''" "\<not> terminal_state ''AUTHORITY_RESOLVING''" "\<not> terminal_state ''AUTHORITY_UNAVAILABLE''"
    by (simp_all add: terminal_state_def TERMINAL_SUBSTITUTION_STATES_def)
  let ?asked = "\<lparr>so_operation_id = uuid, so_request_id = requestId, so_facility_id = dp_facilityId (dv_deployment v),
                   so_home_domain = ''hedera:testnet:296'', so_old_instrument_id = ''UNKNOWN'',
                   so_replacement_instrument_id = replacement, so_requested_units = us, so_state = ''CREATED'',
                   so_version = 1, so_created_at = pr_now first, so_updated_at = pr_now first, so_completed_at = None\<rparr>"
  obtain db1 where c: "createDurableSubstitutionOperation v ?asked (pr_now first) no_books = (Inr ?asked, db1)"
    and d1: "ds_operations db1 = [?asked]"
    using assms(1,3) by (simp add: createDurableSubstitutionOperation_def create_substitution_operation_def no_books_def Let_def nt)
  let ?t = "transition_of ?asked ''AUTHORITY_RESOLVING'' ''AUTHORITY_RESOLVING_STARTED'' PEmpty"
  obtain r1 db2 where t1: "transitionDurableSubstitutionOperation v ?t (pr_now later) db1 = (Inr r1, db2)"
    and r1: "r1 = ?asked\<lparr>so_state := ''AUTHORITY_RESOLVING'', so_version := 2, so_updated_at := pr_now later\<rparr>"
    and f1: "List.find (\<lambda>r. so_operation_id r = uuid) (ds_operations db2) = Some r1" and d2: "ds_operations db2 = [r1]"
    by (rule moves_on [OF assms(1), where r = ?asked and now = "pr_now later" and db = db1 and t = ?t])
      (auto simp: transition_of_def d1 nt)
  let ?rd2 = "readSubstitutionReadiness (dv_deployment v) replacement us (pr_now later) (pr_facility later)"
  have rd2: "rd_outcome ?rd2 = REPLACEMENT_UNSAFE" by (simp add: readSubstitutionReadiness_def assms(2) unavailable_def)
  let ?s = "transition_of r1 ''AUTHORITY_UNAVAILABLE'' ''READINESS_REPLACEMENT_UNSAFE'' (PReadiness ?rd2)"
  obtain r2 db3 where t2: "transitionDurableSubstitutionOperation v ?s (pr_now later) db2 = (Inr r2, db3)"
    and r2: "r2 = r1\<lparr>so_state := ''AUTHORITY_UNAVAILABLE'', so_version := 3, so_updated_at := pr_now later\<rparr>"
    and d3: "ds_operations db3 = [r2]"
    by (rule moves_on [OF assms(1), where r = r1 and now = "pr_now later" and db = db2 and t = ?s])
      (use f1 r1 d2 nt in \<open>auto simp: transition_of_def\<close>)
  obtain digest approver c o' where a: "readCurrentEnsAuthority (pr_now later) live_authority = AUTHORITY_VALID digest approver c o'"
    by (simp add: readCurrentEnsAuthority_def live_authority_def readObservedAuthority_def Let_def)
  have m: "mapReadinessToBlockedState ''REPLACEMENT_UNSAFE'' = ''AUTHORITY_UNAVAILABLE''" by (simp add: mapReadinessToBlockedState_def)
  have "resolveAuthorityAndPrepareOrgApproval v ?asked INITIAL later db1 = (Inr (r2, None), db3)"
    using t2 by (simp add: resolveAuthorityAndPrepareOrgApproval_def t1 assms(4) a rd2 m stop_at_def Let_def del: One_nat_def)
  then have "creating v caller replacement requestId us uuid first later no_books = (Created r2 None ?rd caller, db3)"
    by (simp add: creating_def rd c Let_def del: One_nat_def)
  moreover have "fst (createDurableSubstitutionOperation v (r2\<lparr>so_request_id := rid, so_operation_id := uuid', so_state := ''CREATED''\<rparr>) now db3)
        = Inl SUBSTITUTION_STORE_UNAVAILABLE"
    using assms(1,3,5)
    by (simp add: createDurableSubstitutionOperation_def create_substitution_operation_def d3 r2 r1 nt active_for_def)
  ultimately show ?thesis using d3 r2 r1 by simp
qed

text \<open>The store reports a version overtaken as a conflict only where its gateway answers that error with 409.\<close>

lemma overtaken_version_unreported:
  assumes "dv_status v StaleVersion \<noteq> 409" "dv_reachable v"
    and "List.find (\<lambda>r. so_operation_id r = tr_operationId t) (ds_operations db) = Some r" "so_version r \<noteq> tr_expectedVersion t"
  shows "transitionDurableSubstitutionOperation v t now db = (Inl SUBSTITUTION_STORE_UNAVAILABLE, db)"
  using assms by (simp add: transitionDurableSubstitutionOperation_def transition_substitution_operation_def)

text \<open>
  A completed operation is released for a reader and has no substitution for a reconciliation: the second does not pass on
  that the operation is complete.
\<close>

lemma views_of_completed_disagree:
  assumes "rc_hedera rs = Inr h" "hr_substitution h = 0" "hr_requestId h = ''0x0''" "length requestId = 66"
  shows "rn_outcome (current_view v requestId True operation rs) = ''OLD_RELEASED''
    \<and> rn_outcome (current_view v requestId False operation rs) = ''NONE''"
proof -
  have "toLowerCase ''0x0'' \<noteq> toLowerCase requestId"
  proof
    assume "toLowerCase ''0x0'' = toLowerCase requestId"
    then have "length (toLowerCase ''0x0'') = length (toLowerCase requestId)" by simp
    then show False using assms(4) by (simp add: toLowerCase_def)
  qed
  then show ?thesis
    using assms by (simp add: current_view_def reconcileSubstitutionOperation_def readHederaFacility_def name_at_def
        SUBSTITUTION_STATE_def mapReconciliationOutcome_def zero_id_def bytesReason_def Let_def)
qed

text \<open>A restricted replacement, under an authority just found valid, is recorded as an authority that is unavailable.\<close>

lemma restricted_replacement_blamed_on_authority:
  "mapReadinessToBlockedState (readiness_name ATS_RESTRICTED) = ''AUTHORITY_UNAVAILABLE''"
  "mapReadinessToBlockedState (readiness_name REPLACEMENT_UNSAFE) = ''AUTHORITY_UNAVAILABLE''"
  "mapReadinessToBlockedState (readiness_name SUBSTITUTION_ALREADY_PENDING) = ''AUTHORITY_UNAVAILABLE''"
  by (simp_all add: mapReadinessToBlockedState_def)

text \<open>The floor of a commitment is not the one its comment derives, a quarter above 900215.\<close>

lemma commit_floor_above_comment: "GAS_FLOORS commitReplacement \<noteq> (900215 * 5 + 3) div 4"
  by simp

end
