(* ===== verification/Builder_Code.thy ===== *)
theory Builder_Code
  imports Js_Json
begin

text \<open>
  The attribution of transactions, \<open>packages/xlayer/src/builder-code.ts\<close>: the suffix appended to
  calldata, how it is recognised, and how the code is read back from the end.
\<close>

section \<open>Hexadecimal text\<close>

text \<open>\<open>n.toString(16)\<close>, and \<open>parseInt(s, 16)\<close> on text that holds hexadecimal digits only (none is \<open>NaN\<close>).\<close>

fun show_hex :: "nat \<Rightarrow> string" where
  "show_hex n = (if n < 16 then [hex_digit n] else show_hex (n div 16) @ [hex_digit (n mod 16)])"

declare show_hex.simps [simp del]

definition parse_hex :: "string \<Rightarrow> nat option" where
  "parse_hex s = (if s = [] then None else base_value 16 0 s)"

definition byte_hex :: "nat \<Rightarrow> string" where
  "byte_hex n = padStart (show_hex n) 2 (CHR ''0'')"

definition is_hex :: "string \<Rightarrow> bool" where
  "is_hex s \<longleftrightarrow> take 2 s = ''0x'' \<and> list_all hex_char (drop 2 s)"

section \<open>The suffix\<close>

definition ERC8021_MARKER :: string where "ERC8021_MARKER = ''80218021802180218021802180218021''"

definition ERC8021_SCHEMA_0 :: nat where "ERC8021_SCHEMA_0 = 0"

definition DEFAULT_BUILDER_CODE :: string where "DEFAULT_BUILDER_CODE = ''usance''"

datatype BuilderCodeError =
    NotAscii string
  | EmptyCode
  | CodeTooLong
  | NotHexCalldata string
  | NotWholeBytes

definition asciiToHex :: "string \<Rightarrow> BuilderCodeError + string" where
  "asciiToHex s =
     (if list_ex (\<lambda>c. 0x7F < (of_char c :: nat)) s then Inl (NotAscii s)
      else Inr (concat (map (\<lambda>c. byte_hex (of_char c)) s)))"

definition encodeBuilderSuffix :: "string \<Rightarrow> BuilderCodeError + string" where
  "encodeBuilderSuffix code =
     (if code = [] then Inl EmptyCode
      else bindR (asciiToHex code) (\<lambda>codeHex.
        let byteLength = length codeHex div 2
        in if 0xFF < byteLength then Inl CodeTooLong
           else let schemaData = byte_hex byteLength @ codeHex;
                    schemaId = byte_hex ERC8021_SCHEMA_0
                in Inr (schemaData @ schemaId @ ERC8021_MARKER)))"

text \<open>\<open>s.slice(-n)\<close>, \<open>s.slice(0, -n)\<close> and \<open>s.slice(-m, -n)\<close>.\<close>

definition last_of :: "nat \<Rightarrow> string \<Rightarrow> string" where "last_of n s = drop (length s - n) s"

definition all_but :: "nat \<Rightarrow> string \<Rightarrow> string" where "all_but n s = take (length s - n) s"

definition hasBuilderSuffix :: "string \<Rightarrow> bool" where
  "hasBuilderSuffix data =
     (if \<not> is_hex data then False
      else let hex = drop 2 data
           in if length hex < (16 + 1 + 2) * 2 then False
              else if toLowerCase (last_of (length ERC8021_MARKER) hex) \<noteq> ERC8021_MARKER then False
              else parse_hex (all_but (length ERC8021_MARKER) (last_of (length ERC8021_MARKER + 2) hex))
                   = Some ERC8021_SCHEMA_0)"

definition withBuilderCode :: "string \<Rightarrow> string \<Rightarrow> BuilderCodeError + string" where
  "withBuilderCode data code =
     (if \<not> is_hex data then Inl (NotHexCalldata data)
      else if length data mod 2 \<noteq> 0 then Inl NotWholeBytes
      else if hasBuilderSuffix data then Inr data
      else bindR (encodeBuilderSuffix code) (\<lambda>suffix. Inr (''0x'' @ drop 2 data @ suffix)))"

section \<open>Reading the code back\<close>

text \<open>
  The bytes of the candidate: reading stops at the first that is not printable. An index past the end
  of the text gives an empty slice, so a candidate is read in pairs of digits only.
\<close>

fun printable_code :: "string \<Rightarrow> string option" where
  "printable_code (a # b # r) =
     (case parse_hex [a, b] of
        None \<Rightarrow> None
      | Some c \<Rightarrow> if c < 0x20 \<or> 0x7E < c then None else map_option (\<lambda>t. char_of c # t) (printable_code r))"
| "printable_code [a] = None"
| "printable_code [] = Some []"

definition code_at :: "string \<Rightarrow> nat \<Rightarrow> string option" where
  "code_at schemaData len =
     (if length schemaData < (len + 1) * 2 then None
      else let lenPos = length schemaData - (len + 1) * 2
           in if parse_hex (take 2 (drop lenPos schemaData)) \<noteq> Some len then None
              else printable_code (drop (lenPos + 2) schemaData))"

fun decode_from :: "string \<Rightarrow> nat \<Rightarrow> string list option" where
  "decode_from schemaData 0 = None"
| "decode_from schemaData (Suc n) =
     (case code_at schemaData (Suc n) of Some code \<Rightarrow> Some [code] | None \<Rightarrow> decode_from schemaData n)"

definition decodeBuilderCodes :: "string \<Rightarrow> string list option" where
  "decodeBuilderCodes data =
     (if \<not> hasBuilderSuffix data then None
      else let hex = drop 2 data; schemaData = all_but (length ERC8021_MARKER + 2) hex
           in decode_from schemaData (min 0xFF (length schemaData div 2 - 1)))"

definition builderCodeFromEnv :: "(string \<Rightarrow> string option) \<Rightarrow> string" where
  "builderCodeFromEnv env = option_default (env ''USANCE_BUILDER_CODE'') DEFAULT_BUILDER_CODE"

section \<open>Hexadecimal text reads back\<close>

lemma of_hex_digit: "d < 16 \<Longrightarrow> (of_char (hex_digit d) :: nat) = (if d < 10 then 48 + d else 87 + d)"
  by (simp add: hex_digit_def)

lemma hex_digit_read: "d < 16 \<Longrightarrow> base_digit 16 (hex_digit d) = Some d"
  by (simp add: base_digit_def of_hex_digit Let_def)

lemma hex_char_letter: "97 \<le> (of_char c :: nat) \<Longrightarrow> of_char c \<le> (102 :: nat) \<Longrightarrow> hex_char c"
proof -
  assume a: "97 \<le> (of_char c :: nat)" "of_char c \<le> (102 :: nat)"
  have "c = char_of (of_char c :: nat)" by simp
  moreover have "(of_char c :: nat) \<in> {97, 98, 99, 100, 101, 102}" using a by auto
  ultimately have "c \<in> {CHR ''a'', CHR ''b'', CHR ''c'', CHR ''d'', CHR ''e'', CHR ''f''}"
    by (auto simp: char_of_def bit_iff_odd)
  then show ?thesis by (auto simp: hex_char_def)
qed

lemma hex_digit_char: "d < 16 \<Longrightarrow> hex_char (hex_digit d)"
  by (cases "d < 10") (simp add: hex_char_def is_digit_def of_hex_digit, rule hex_char_letter, simp_all add: of_hex_digit)

lemma byte_hex_pair: "n < 256 \<Longrightarrow> byte_hex n = [hex_digit (n div 16), hex_digit (n mod 16)]"
  by (cases "n < 16")
    (simp_all add: byte_hex_def padStart_def show_hex.simps [of n] show_hex.simps [of "n div 16"] less_mult_imp_div_less
      hex_digit_def char_of_def bit_Suc_0_iff)

lemma length_byte_hex: "n < 256 \<Longrightarrow> length (byte_hex n) = 2"
  by (simp add: byte_hex_pair)

lemma byte_hex_hex: "n < 256 \<Longrightarrow> list_all hex_char (byte_hex n)"
  by (simp add: byte_hex_pair hex_digit_char less_mult_imp_div_less)

lemma parse_byte_hex: "n < 256 \<Longrightarrow> parse_hex (byte_hex n) = Some n"
  by (simp add: byte_hex_pair parse_hex_def hex_digit_read less_mult_imp_div_less)

definition bytes_hex :: "string \<Rightarrow> string" where
  "bytes_hex s = concat (map (\<lambda>c. byte_hex (of_char c)) s)"

lemma bytes_hex_simps [simp]:
  "bytes_hex [] = []" "bytes_hex (c # s) = byte_hex (of_char c) @ bytes_hex s"
  by (simp_all add: bytes_hex_def)

lemma char_less [simp]: "(of_char c :: nat) < 256"
  by (metis nat_of_char_less_256)

lemma length_bytes_hex [simp]: "length (bytes_hex s) = 2 * length s"
  by (induction s) (simp_all add: length_byte_hex)

lemma bytes_hex_hex: "list_all hex_char (bytes_hex s)"
  by (induction s) (simp_all add: byte_hex_hex)

definition printable :: "char \<Rightarrow> bool" where
  "printable c \<longleftrightarrow> 0x20 \<le> (of_char c :: nat) \<and> (of_char c :: nat) \<le> 0x7E"

lemma printable_byte:
  "n < 256 \<Longrightarrow> printable_code (byte_hex n @ r)
     = (if n < 0x20 \<or> 0x7E < n then None else map_option (\<lambda>t. char_of n # t) (printable_code r))"
  using parse_byte_hex [of n] by (simp add: byte_hex_pair)

lemma printable_bytes: "list_all printable s \<Longrightarrow> printable_code (bytes_hex s) = Some s"
  by (induction s) (auto simp: printable_byte printable_def)

text \<open>A text read past the length byte of the code holds that byte as a character.\<close>

lemma read_past:
  assumes "printable_code (u @ byte_hex n @ bytes_hex s) = Some c" "even (length u)" "n < 256" "list_all printable s"
  shows "0x20 \<le> n \<and> n \<le> 0x7E \<and> (\<exists>p. c = p @ char_of n # s)"
  using assms
proof (induction u arbitrary: c rule: printable_code.induct)
  case (1 a b r)
  obtain k where k: "parse_hex [a, b] = Some k"
    and "map_option (\<lambda>t. char_of k # t) (printable_code (r @ byte_hex n @ bytes_hex s)) = Some c"
    using 1(2) by (auto split: option.splits if_splits)
  then obtain t where t: "printable_code (r @ byte_hex n @ bytes_hex s) = Some t" "c = char_of k # t" by auto
  have "\<not> (k < 0x20 \<or> 0x7E < k)" using 1(2) k by (auto split: if_splits)
  then have "0x20 \<le> n \<and> n \<le> 0x7E \<and> (\<exists>p. t = p @ char_of n # s)" using 1(1) [OF k _ t(1)] 1(3-5) by simp
  then show ?case using t(2) by (metis append_Cons)
next
  case 3
  then have "\<not> (n < 0x20 \<or> 0x7E < n)" "c = char_of n # s"
    by (auto simp: printable_byte printable_bytes split: if_splits)
  then show ?case by auto
qed simp

section \<open>The suffix is recognised and read\<close>

lemma marker_facts:
  "length ERC8021_MARKER = 32" "list_all hex_char ERC8021_MARKER" "toLowerCase ERC8021_MARKER = ERC8021_MARKER"
  by (simp_all add: ERC8021_MARKER_def hex_char_def is_digit_def toLowerCase_def lower_char_def)

lemma zero_byte: "byte_hex 0 = ''00''"
  by (simp add: byte_hex_pair hex_digit_def char_of_def bit_Suc_0_iff)

lemma suffix_recognised:
  assumes "4 \<le> length x" "list_all hex_char x"
  shows "hasBuilderSuffix (''0x'' @ x @ byte_hex 0 @ ERC8021_MARKER)"
proof -
  let ?h = "x @ byte_hex 0 @ ERC8021_MARKER"
  have "is_hex (''0x'' @ ?h)" using assms(2) marker_facts(2) by (simp add: is_hex_def byte_hex_hex)
  moreover have "last_of 32 ?h = ERC8021_MARKER" "last_of 34 ?h = byte_hex 0 @ ERC8021_MARKER"
    using marker_facts(1) by (simp_all add: last_of_def zero_byte)
  moreover have "all_but 32 (byte_hex 0 @ ERC8021_MARKER) = byte_hex 0"
    using marker_facts(1) by (simp add: all_but_def)
  ultimately show ?thesis using assms(1) marker_facts parse_byte_hex [of 0]
    by (simp add: hasBuilderSuffix_def Let_def length_byte_hex ERC8021_SCHEMA_0_def)
qed

lemma already_attributed: "hasBuilderSuffix d \<Longrightarrow> even (length d) \<Longrightarrow> withBuilderCode d code = Inr d"
proof -
  assume s: "hasBuilderSuffix d" "even (length d)"
  then have "is_hex d" by (simp add: hasBuilderSuffix_def split: if_splits)
  with s show ?thesis by (simp add: withBuilderCode_def odd_iff_mod_2_eq_one [symmetric])
qed

lemma schema_data_of: "all_but 34 (x @ byte_hex 0 @ ERC8021_MARKER) = x"
  by (simp add: all_but_def length_byte_hex marker_facts)

lemma suffix_of: "code \<noteq> [] \<Longrightarrow> length code \<le> 0xFF \<Longrightarrow> list_all (\<lambda>c. (of_char c :: nat) \<le> 0x7F) code
   \<Longrightarrow> encodeBuilderSuffix code = Inr (byte_hex (length code) @ bytes_hex code @ byte_hex 0 @ ERC8021_MARKER)"
  by (auto simp: encodeBuilderSuffix_def asciiToHex_def list_ex_iff list_all_iff ERC8021_SCHEMA_0_def bytes_hex_def [symmetric])

lemma encode_refuses:
  "(\<exists>e. encodeBuilderSuffix code = Inl e) \<longleftrightarrow> code = [] \<or> 0xFF < length code \<or> \<not> list_all (\<lambda>c. (of_char c :: nat) \<le> 0x7F) code"
  by (auto simp: encodeBuilderSuffix_def asciiToHex_def list_ex_iff list_all_iff Let_def bytes_hex_def [symmetric] not_le)

lemma code_at_own:
  assumes "length code \<le> 0xFF" "list_all printable code"
  shows "code_at (h @ byte_hex (length code) @ bytes_hex code) (length code) = Some code"
  using assms by (simp add: code_at_def length_byte_hex parse_byte_hex printable_bytes)

lemma code_at_longer:
  assumes "code_at (h @ byte_hex (length code) @ bytes_hex code) len = Some c" "length code < len" "even (length h)"
    "length code \<le> 0xFF" "list_all printable code"
  shows "0x20 \<le> length code \<and> length code \<le> 0x7E \<and> (\<exists>p. c = p @ char_of (length code) # code)"
proof -
  let ?L = "length code"
  let ?x = "h @ byte_hex ?L @ bytes_hex code"
  have l: "(len + 1) * 2 \<le> length ?x" using assms(1) by (auto simp: code_at_def split: if_splits)
  then have k: "len * 2 \<le> length h + ?L * 2" using assms(4) by (simp add: length_byte_hex)
  have "n - (len + 1) * 2 + 2 = n - len * 2" if "(len + 1) * 2 \<le> n" for n :: nat using that by simp
  note e = this [OF l]
  have p: "printable_code (drop (length ?x - len * 2) ?x) = Some c"
    using assms(1) unfolding code_at_def Let_def e by (simp split: if_splits)
  have "length ?x - len * 2 = length h + 2 + ?L * 2 - len * 2" using assms(4) by (simp add: length_byte_hex)
  then have "length ?x - len * 2 \<le> length h" using assms(2) by simp
  then have "drop (length ?x - len * 2) ?x = drop (length ?x - len * 2) h @ byte_hex ?L @ bytes_hex code" by simp
  moreover have "even (length (drop (length ?x - len * 2) h))"
    using assms(2,3,4) k by (simp add: length_byte_hex)
  ultimately show ?thesis using read_past [of _ ?L code c] p assms(4,5) by simp
qed

lemma decode_from_own:
  assumes "length code \<le> n" "code \<noteq> []" "even (length h)" "length code \<le> 0xFF" "list_all printable code"
  shows "\<exists>c. decode_from (h @ byte_hex (length code) @ bytes_hex code) n = Some [c]
     \<and> (c = code \<or> 0x20 \<le> length code \<and> length code \<le> 0x7E \<and> (\<exists>p. c = p @ char_of (length code) # code))"
  using assms(1)
proof (induction n)
  case (Suc n)
  show ?case
  proof (cases "code_at (h @ byte_hex (length code) @ bytes_hex code) (Suc n)")
    case None
    then have "length code \<noteq> Suc n" using code_at_own [OF assms(4,5)] by auto
    then show ?thesis using Suc None by simp
  next
    case (Some c)
    show ?thesis
    proof (cases "length code = Suc n")
      case True
      then show ?thesis using code_at_own [OF assms(4,5), of h] by simp
    next
      case False
      then show ?thesis using code_at_longer [OF Some _ assms(3-5)] Suc.prems Some by auto
    qed
  qed
qed (use assms(2) in simp)


section \<open>Properties\<close>

text \<open>
  C37: Attribution reads back. Calldata that carries no suffix gets one behind its own bytes; the result is
  recognised, is never attributed a second time, and the code read from it is the code written, except
  that a code of 32 to 126 characters may be read with the calldata's own last bytes in front of it,
  when these happen to be printable behind a length that fits.
\<close>

theorem attribution_reads_back:
  assumes "is_hex data" "even (length data)" "\<not> hasBuilderSuffix data"
    and "code \<noteq> []" "length code \<le> 255" "list_all printable code"
  shows "\<exists>d. withBuilderCode data code = Inr d \<and> take (length data) d = data
    \<and> length d = length data + 2 * length code + 36
    \<and> hasBuilderSuffix d \<and> withBuilderCode d code' = Inr d
    \<and> (\<exists>c. decodeBuilderCodes d = Some [c]
         \<and> (c = code \<or> 32 \<le> length code \<and> length code \<le> 126 \<and> (\<exists>p. c = p @ char_of (length code) # code)))"
proof -
  obtain h where h: "data = ''0x'' @ h" using assms(1) unfolding is_hex_def by (metis append_take_drop_id)
  let ?x = "h @ byte_hex (length code) @ bytes_hex code"
  let ?d = "''0x'' @ ?x @ byte_hex 0 @ ERC8021_MARKER"
  have "list_all (\<lambda>c. (of_char c :: nat) \<le> 0x7F) code" using assms(6) by (auto simp: list_all_iff printable_def)
  then have e: "encodeBuilderSuffix code = Inr (byte_hex (length code) @ bytes_hex code @ byte_hex 0 @ ERC8021_MARKER)"
    using assms(4,5) by (intro suffix_of) simp_all
  have ev: "even (length h)" using assms(2) h by simp
  have w: "withBuilderCode data code = Inr ?d"
    using assms(1-3) h e by (simp add: withBuilderCode_def odd_iff_mod_2_eq_one)
  have x: "4 \<le> length ?x" "list_all hex_char ?x"
    using assms(1,4,5) h by (cases code; simp add: is_hex_def length_byte_hex byte_hex_hex bytes_hex_hex)+
  have s: "hasBuilderSuffix ?d" using suffix_recognised [OF x] .
  have again: "withBuilderCode ?d code' = Inr ?d"
    using ev assms(5) by (intro already_attributed [OF s]) (simp add: length_byte_hex marker_facts)
  have "length code \<le> min 0xFF (length ?x div 2 - 1)" using assms(5) by (simp add: length_byte_hex)
  from decode_from_own [OF this assms(4) ev _ assms(6)] assms(5)
  have "\<exists>c. decodeBuilderCodes ?d = Some [c]
     \<and> (c = code \<or> 32 \<le> length code \<and> length code \<le> 126 \<and> (\<exists>p. c = p @ char_of (length code) # code))"
    using s schema_data_of [of ?x] by (simp add: decodeBuilderCodes_def Let_def marker_facts)
  then show ?thesis using w s again h assms(5) by (intro exI [of _ ?d]) (simp add: length_byte_hex marker_facts)
qed


lemma repay_call_facts:
  "is_hex ''0x371fd8e6'' \<and> \<not> hasBuilderSuffix ''0x371fd8e6'' \<and> list_all printable DEFAULT_BUILDER_CODE"
  by (simp add: is_hex_def hex_char_def is_digit_def hasBuilderSuffix_def printable_def DEFAULT_BUILDER_CODE_def)

theorem attribution_reads_back_witness:
  "\<exists>d. withBuilderCode ''0x371fd8e6'' DEFAULT_BUILDER_CODE = Inr d \<and> decodeBuilderCodes d = Some [DEFAULT_BUILDER_CODE]"
proof -
  have n: "DEFAULT_BUILDER_CODE \<noteq> []" "length DEFAULT_BUILDER_CODE = 6" by (simp_all add: DEFAULT_BUILDER_CODE_def)
  then show ?thesis
    using attribution_reads_back [of "''0x371fd8e6''" DEFAULT_BUILDER_CODE "[]"] repay_call_facts by auto
qed

section \<open>Where attribution goes wrong\<close>

text \<open>A code with a control character is written and cannot be read back.\<close>

lemma decode_of:
  assumes "list_all hex_char h" "even (length h)" "code \<noteq> []" "length code \<le> 0xFF"
  shows "decodeBuilderCodes (''0x'' @ (h @ byte_hex (length code) @ bytes_hex code) @ byte_hex 0 @ ERC8021_MARKER)
    = decode_from (h @ byte_hex (length code) @ bytes_hex code) (min 0xFF (length h div 2 + length code))"
proof -
  let ?x = "h @ byte_hex (length code) @ bytes_hex code"
  have "4 \<le> length ?x" "list_all hex_char ?x"
    using assms by (cases code; simp add: length_byte_hex byte_hex_hex bytes_hex_hex)+
  from suffix_recognised [OF this] have s: "hasBuilderSuffix (''0x'' @ ?x @ byte_hex 0 @ ERC8021_MARKER)" .
  have "length ?x div 2 - 1 = length h div 2 + length code" using assms(2,4) by (simp add: length_byte_hex)
  then show ?thesis using s schema_data_of [of ?x]
    by (simp add: decodeBuilderCodes_def Let_def marker_facts del: append_assoc)
qed

lemma control_code_unreadable:
  "\<exists>d. withBuilderCode ''0x'' [CHR 0x0A] = Inr d \<and> hasBuilderSuffix d \<and> decodeBuilderCodes d = None"
proof -
  let ?x = "[] @ byte_hex (length [CHR 0x0A]) @ bytes_hex [CHR 0x0A]"
  have b: "byte_hex 1 = ''01''" "byte_hex 10 = ''0a''"
    by (simp_all add: byte_hex_pair hex_digit_def char_of_def bit_Suc_0_iff bit_iff_odd)
  have "encodeBuilderSuffix [CHR 0x0A] = Inr (''010a'' @ byte_hex 0 @ ERC8021_MARKER)"
    using suffix_of [of "[CHR 0x0A]"] b by simp
  moreover have "4 \<le> length ''010a''" "list_all hex_char ''010a''" by (simp_all add: hex_char_def is_digit_def)
  note suffix_recognised [OF this]
  moreover have "\<not> hasBuilderSuffix ''0x''" "is_hex ''0x''" by (simp_all add: hasBuilderSuffix_def is_hex_def)
  moreover have "decodeBuilderCodes (''0x'' @ ''010a'' @ byte_hex 0 @ ERC8021_MARKER) = None"
    using decode_of [of "[]" "[CHR 0x0A]"] b
    by (simp add: code_at_def parse_hex_def base_digit_def Let_def)
  ultimately show ?thesis by (simp add: withBuilderCode_def)
qed

text \<open>An amount whose last byte is 33 is read as the length of a longer code.\<close>

lemma amount_read_as_length:
  "\<exists>d c. withBuilderCode ''0x21'' (replicate 32 (CHR ''a'')) = Inr d \<and> decodeBuilderCodes d = Some [c]
     \<and> c = CHR '' '' # replicate 32 (CHR ''a'')"
proof -
  let ?c = "replicate 32 (CHR ''a'')"
  have p: "list_all printable ?c" by (simp add: list_all_iff printable_def)
  have "encodeBuilderSuffix ?c = Inr (byte_hex 32 @ bytes_hex ?c @ byte_hex 0 @ ERC8021_MARKER)"
    using suffix_of [of ?c] by (simp add: list_all_iff)
  moreover have "\<not> hasBuilderSuffix ''0x21''" "is_hex ''0x21''"
    by (simp_all add: hasBuilderSuffix_def is_hex_def hex_char_def is_digit_def)
  moreover have "code_at (''21'' @ byte_hex 32 @ bytes_hex ?c) 33 = Some (CHR '' '' # ?c)"
    using p printable_byte [of 32 "bytes_hex ?c"] printable_bytes [OF p]
    by (simp add: code_at_def length_byte_hex parse_hex_def base_digit_def Let_def char_of_def bit_iff_odd)
  moreover have "decodeBuilderCodes (''0x'' @ (''21'' @ byte_hex 32 @ bytes_hex ?c) @ byte_hex 0 @ ERC8021_MARKER)
    = decode_from (''21'' @ byte_hex 32 @ bytes_hex ?c) 33"
    using decode_of [of "''21''" ?c] by (simp add: hex_char_def is_digit_def)
  moreover have "decode_from x 33 = (case code_at x 33 of Some code \<Rightarrow> Some [code] | None \<Rightarrow> decode_from x 32)" for x
    using decode_from.simps(2) [of x 32] by simp
  ultimately show ?thesis by (simp add: withBuilderCode_def)
qed

end
