(* ===== verification/Wallet_Flow.thy ===== *)
theory Wallet_Flow
  imports Builder_Code Evidence_Store
begin

text \<open>
  The wallet of the browser: \<open>packages/xlayer/src/chains.ts\<close>, \<open>apps/web/lib/wallet.ts\<close> and the one
  function through which every write goes, \<open>sendTransaction\<close> of \<open>apps/web/lib/tx.ts\<close>.

  A wallet is external: it answers each request, after some time, with a value or by throwing one,
  and what it answers may depend on all requests so far. Values that cross this boundary are JSON. An em dash in a
  text stands as a hyphen.
\<close>

section \<open>Values of JavaScript\<close>

text \<open>Whether a value counts as true, and an element of an array or a character of a text.\<close>

definition js_truthy :: "json \<Rightarrow> bool" where
  "js_truthy j = (case j of JNull \<Rightarrow> False | JBool b \<Rightarrow> b | JNum n \<Rightarrow> n \<noteq> 0 | JStr s \<Rightarrow> s \<noteq> [] | _ \<Rightarrow> True)"

definition first_element :: "json \<Rightarrow> json option" where
  "first_element j = (case j of JArr (x # _) \<Rightarrow> Some x | JStr (c # _) \<Rightarrow> Some (JStr [c]) | JObj fs \<Rightarrow> map_of fs ''0'' | _ \<Rightarrow> None)"

text \<open>\<open>String(j)\<close>.\<close>

fun js_string :: "json \<Rightarrow> string" where
  "js_string JNull = ''null''"
| "js_string (JBool b) = (if b then ''true'' else ''false'')"
| "js_string (JNum n) = show_int n"
| "js_string (JStr s) = s"
| "js_string (JArr xs) = join_with '','' (map (\<lambda>x. if x = JNull then [] else js_string x) xs)"
| "js_string (JObj fs) = ''[object Object]''"

text \<open>\<open>parseInt(s, 16)\<close> of any text; none is \<open>NaN\<close>.\<close>

definition parse_int_16 :: "string \<Rightarrow> int option" where
  "parse_int_16 s =
     (let t = dropWhile is_ws s;
          neg = (t \<noteq> [] \<and> hd t = CHR ''-'');
          t = (if t \<noteq> [] \<and> hd t \<in> {CHR ''-'', CHR ''+''} then tl t else t);
          t = (if take 2 t \<in> {''0x'', ''0X''} then drop 2 t else t)
      in map_option (\<lambda>n. if neg then - int n else int n) (parse_hex (takeWhile hex_char t)))"

section \<open>The networks\<close>

definition X_LAYER_MAINNET_ID :: int where "X_LAYER_MAINNET_ID = 196"
definition X_LAYER_TESTNET_ID :: int where "X_LAYER_TESTNET_ID = 1952"

record NativeCurrency =
  nc_name :: string
  nc_symbol :: string
  nc_decimals :: int

record ChainConfig =
  cc_id :: int
  cc_name :: string
  cc_network :: string
  cc_nativeCurrency :: NativeCurrency
  cc_rpcUrl :: string
  cc_explorerUrl :: string
  cc_layerZeroEid :: int
  cc_layerZeroEndpoint :: string
  cc_testnet :: bool

type_synonym env_vars = "string \<Rightarrow> string option"

definition xLayerMainnet :: "env_vars \<Rightarrow> ChainConfig" where
  "xLayerMainnet env =
     \<lparr>cc_id = X_LAYER_MAINNET_ID, cc_name = ''X Layer'', cc_network = ''xlayer'',
      cc_nativeCurrency = \<lparr>nc_name = ''OKB'', nc_symbol = ''OKB'', nc_decimals = 18\<rparr>,
      cc_rpcUrl = option_default (env ''XLAYER_RPC_URL'') ''https://rpc.xlayer.tech'',
      cc_explorerUrl = ''https://www.oklink.com/xlayer'', cc_layerZeroEid = 30274,
      cc_layerZeroEndpoint = ''0x1a44076050125825900e736c501f859c50fe728c'', cc_testnet = False\<rparr>"

definition xLayerTestnet :: "env_vars \<Rightarrow> ChainConfig" where
  "xLayerTestnet env =
     \<lparr>cc_id = X_LAYER_TESTNET_ID, cc_name = ''X Layer Testnet'', cc_network = ''xlayer-testnet'',
      cc_nativeCurrency = \<lparr>nc_name = ''Test OKB'', nc_symbol = ''OKB'', nc_decimals = 18\<rparr>,
      cc_rpcUrl = option_default (env ''XLAYER_TESTNET_RPC_URL'') ''https://testrpc.xlayer.tech'',
      cc_explorerUrl = ''https://www.oklink.com/x-layer-testnet'', cc_layerZeroEid = 40269,
      cc_layerZeroEndpoint = ''0x6edce65403992e310a62460808c4b910d972f10f'', cc_testnet = True\<rparr>"

definition chainById :: "env_vars \<Rightarrow> int \<Rightarrow> ChainConfig option" where
  "chainById env i = map_of [(X_LAYER_MAINNET_ID, xLayerMainnet env), (X_LAYER_TESTNET_ID, xLayerTestnet env)] i"

definition isXLayer :: "int option \<Rightarrow> bool" where
  "isXLayer i \<longleftrightarrow> i = Some X_LAYER_MAINNET_ID \<or> i = Some X_LAYER_TESTNET_ID"

definition txUrl :: "env_vars \<Rightarrow> int \<Rightarrow> string \<Rightarrow> string" where
  "txUrl env chainId h = (case chainById env chainId of Some c \<Rightarrow> cc_explorerUrl c @ ''/tx/'' @ h | None \<Rightarrow> h)"

definition addressUrl :: "env_vars \<Rightarrow> int \<Rightarrow> string \<Rightarrow> string" where
  "addressUrl env chainId a = (case chainById env chainId of Some c \<Rightarrow> cc_explorerUrl c @ ''/address/'' @ a | None \<Rightarrow> a)"

definition chain_hex :: "int \<Rightarrow> string" where "chain_hex i = ''0x'' @ show_hex (nat i)"

definition addChainParams :: "ChainConfig \<Rightarrow> json" where
  "addChainParams c = JObj
     [(''chainId'', JStr (chain_hex (cc_id c))), (''chainName'', JStr (cc_name c)),
      (''nativeCurrency'', JObj [(''name'', JStr (nc_name (cc_nativeCurrency c))),
         (''symbol'', JStr (nc_symbol (cc_nativeCurrency c))), (''decimals'', JNum (nc_decimals (cc_nativeCurrency c)))]),
      (''rpcUrls'', JArr [JStr (cc_rpcUrl c)]), (''blockExplorerUrls'', JArr [JStr (cc_explorerUrl c)])]"

text \<open>The configured identifier is the text of an integer; any other text counts as \<open>NaN\<close>.\<close>

definition activeChain :: "env_vars \<Rightarrow> js_error + ChainConfig" where
  "activeChain env =
     (let unknown = (\<lambda>i. Inl (JsError (''NEXT_PUBLIC_XLAYER_CHAIN_ID is not an X Layer chain: '' @ i)))
      in case bigint_of_string (option_default (env ''NEXT_PUBLIC_XLAYER_CHAIN_ID'') ''1952'') of
           Inl e \<Rightarrow> unknown ''NaN''
         | Inr i \<Rightarrow> (case chainById env i of None \<Rightarrow> unknown (show_int i) | Some c \<Rightarrow> Inr c))"

section \<open>The provider\<close>

type_synonym request = "string \<times> json list"

text \<open>What a wallet answers to the last of a sequence of requests: the time it takes and what it gives, \<open>Inl\<close> a thrown value.\<close>

type_synonym provider = "request list \<Rightarrow> nat \<times> (json + json)"

record browser =
  bw_now :: int
  bw_requests :: "request list"

definition request :: "provider \<Rightarrow> string \<Rightarrow> json list \<Rightarrow> browser \<Rightarrow> (json + json) \<times> browser" where
  "request p method params w =
     (let rs = bw_requests w @ [(method, params)]
      in (snd (p rs), w\<lparr>bw_now := bw_now w + int (fst (p rs)), bw_requests := rs\<rparr>))"

datatype WalletKind = OKX | INJECTED | NO_WALLET

record window =
  wd_okxwallet :: "provider option"
  wd_ethereum :: "provider option"

definition detectProvider :: "window option \<Rightarrow> provider option \<times> WalletKind" where
  "detectProvider win =
     (case win of
        None \<Rightarrow> (None, NO_WALLET)
      | Some w \<Rightarrow>
          (case wd_okxwallet w of
             Some p \<Rightarrow> (Some p, OKX)
           | None \<Rightarrow> (case wd_ethereum w of Some p \<Rightarrow> (Some p, INJECTED) | None \<Rightarrow> (None, NO_WALLET))))"

definition wallet_isUserRejection :: "json \<Rightarrow> bool" where
  "wallet_isUserRejection e \<longleftrightarrow> json_field ''code'' e = Some (JNum 4001) \<or> json_field ''code'' e = Some (JStr ''ACTION_REJECTED'')"

datatype wallet_code = NO_PROVIDER | WALLET_REJECTED | CHAIN_ADD_FAILED | CHAIN_SWITCH_FAILED | WALLET_UNKNOWN

text \<open>The errors that leave the wallet's functions: its own, those of the attribution, and a \<open>TypeError\<close> of the language.\<close>

datatype wallet_error =
    WalletError string wallet_code
  | Attribution BuilderCodeError
  | EncodingFailed string
  | TypeMismatch

text \<open>The message of a thrown value, where \<open>e.message\<close> of null throws itself.\<close>

definition thrown_message :: "json \<Rightarrow> string \<Rightarrow> wallet_error + string" where
  "thrown_message e d =
     (if e = JNull then Inl TypeMismatch
      else Inr (case json_field ''message'' e of None \<Rightarrow> d | Some JNull \<Rightarrow> d | Some m \<Rightarrow> js_string m))"

section \<open>Connecting\<close>

record connection =
  cx_address :: json
  cx_chainId :: "int option"
  cx_kind :: WalletKind

definition no_wallet_found :: wallet_error where
  "no_wallet_found = WalletError
     ''No wallet was found in this browser. Install OKX Wallet, or open Usance inside a wallet browser.'' NO_PROVIDER"

definition connect_failed :: "json \<Rightarrow> wallet_error" where
  "connect_failed e =
     (if wallet_isUserRejection e then WalletError ''Connection was declined in the wallet.'' WALLET_REJECTED
      else case thrown_message e ''Could not connect.'' of Inl t \<Rightarrow> t | Inr m \<Rightarrow> WalletError m WALLET_UNKNOWN)"

text \<open>\<open>accounts[0]\<close> of null throws inside the block, and is reported with the text the language gives it.\<close>

definition connect :: "string \<Rightarrow> window option \<Rightarrow> browser \<Rightarrow> (wallet_error + connection) \<times> browser" where
  "connect null_text win w =
     (case detectProvider win of
        (None, kind) \<Rightarrow> (Inl no_wallet_found, w)
      | (Some p, kind) \<Rightarrow>
          (case request p ''eth_requestAccounts'' [] w of
             (Inl e, w) \<Rightarrow> (Inl (connect_failed e), w)
           | (Inr accounts, w) \<Rightarrow>
               (case request p ''eth_chainId'' [] w of
                  (Inl e, w) \<Rightarrow> (Inl (connect_failed e), w)
                | (Inr chainIdHex, w) \<Rightarrow>
                    if accounts = JNull then (Inl (WalletError null_text WALLET_UNKNOWN), w)
                    else (case first_element accounts of
                        None \<Rightarrow> (Inl (WalletError ''The wallet returned no accounts.'' WALLET_UNKNOWN), w)
                      | Some a \<Rightarrow>
                          if \<not> js_truthy a then (Inl (WalletError ''The wallet returned no accounts.'' WALLET_UNKNOWN), w)
                          else (Inr \<lparr>cx_address = a, cx_chainId = parse_int_16 (js_string chainIdHex), cx_kind = kind\<rparr>, w)))))"

definition switch_to :: "ChainConfig \<Rightarrow> json list" where
  "switch_to target = [JObj [(''chainId'', JStr (chain_hex (cc_id target)))]]"

definition ensureChain :: "window option \<Rightarrow> ChainConfig \<Rightarrow> browser \<Rightarrow> (wallet_error + unit) \<times> browser" where
  "ensureChain win target w =
     (case fst (detectProvider win) of
        None \<Rightarrow> (Inl (WalletError ''No wallet found.'' NO_PROVIDER), w)
      | Some p \<Rightarrow>
          (case request p ''wallet_switchEthereumChain'' (switch_to target) w of
             (Inr _, w) \<Rightarrow> (Inr (), w)
           | (Inl e, w) \<Rightarrow>
               if wallet_isUserRejection e
               then (Inl (WalletError (''Switching to '' @ cc_name target @ '' was declined.'') WALLET_REJECTED), w)
               else if json_field ''code'' e \<noteq> Some (JNum 4902)
               then (Inl (WalletError (''Could not switch to '' @ cc_name target @ ''.'') CHAIN_SWITCH_FAILED), w)
               else
                 let failed = (\<lambda>e. if wallet_isUserRejection e
                       then WalletError (''Adding '' @ cc_name target @ '' was declined.'') WALLET_REJECTED
                       else WalletError (''Could not add '' @ cc_name target @ '' to the wallet.'') CHAIN_ADD_FAILED)
                 in (case request p ''wallet_addEthereumChain'' [addChainParams target] w of
                       (Inl e, w) \<Rightarrow> (Inl (failed e), w)
                     | (Inr _, w) \<Rightarrow>
                         (case request p ''wallet_switchEthereumChain'' (switch_to target) w of
                            (Inl e, w) \<Rightarrow> (Inl (failed e), w)
                          | (Inr _, w) \<Rightarrow> (Inr (), w)))))"

section \<open>The session signature\<close>

definition sessionMessage :: "string \<Rightarrow> string \<Rightarrow> int \<Rightarrow> string \<Rightarrow> string \<Rightarrow> string" where
  "sessionMessage host address chainId nonce issuedAt =
     join_with [CHR 0x0A]
       [host @ '' wants you to sign in with your account:'', address, [],
        ''This signature signs you in. It does not move funds and costs no gas.'', [],
        ''URI: https://'' @ host, ''Version: 1'', ''Chain ID: '' @ show_int chainId, ''Nonce: '' @ nonce,
        ''Issued At: '' @ issuedAt]"

record session_signature =
  ss_message :: string
  ss_signature :: json
  ss_nonce :: string

definition signSession ::
  "window option \<Rightarrow> string \<Rightarrow> string \<Rightarrow> string \<Rightarrow> int \<Rightarrow> string \<Rightarrow> browser \<Rightarrow> (wallet_error + session_signature) \<times> browser" where
  "signSession win uuid issuedAt address chainId host w =
     (case fst (detectProvider win) of
        None \<Rightarrow> (Inl (WalletError ''No wallet found.'' NO_PROVIDER), w)
      | Some p \<Rightarrow>
          let nonce = take 16 (filter (\<lambda>c. c \<noteq> CHR ''-'') uuid);
              message = sessionMessage host address chainId nonce issuedAt
          in (case request p ''personal_sign'' [JStr message, JStr address] w of
                (Inl e, w) \<Rightarrow>
                  (Inl (if wallet_isUserRejection e
                        then WalletError ''Sign-in was declined. You can keep browsing in read-only mode.'' WALLET_REJECTED
                        else WalletError ''Could not sign in.'' WALLET_UNKNOWN), w)
              | (Inr s, w) \<Rightarrow> (Inr \<lparr>ss_message = message, ss_signature = s, ss_nonce = nonce\<rparr>, w)))"

section \<open>What the protocol says when it refuses\<close>

datatype abi_word = ABig int | ANum int | ABytes string | ABool bool

record ProtocolError =
  pe_name :: string
  pe_args :: "abi_word list"
  pe_title :: string
  pe_body :: string
  pe_repair :: string

definition ACCOUNT_STATUS_COPY :: "string list" where
  "ACCOUNT_STATUS_COPY =
     [''healthy'', ''blocked from taking new risk'', ''reduce-only'', ''in a margin call'', ''being liquidated'',
      ''settled'', ''in bad debt'']"

text \<open>An argument that is missing or not a \<open>bigint\<close> is shown as a dash.\<close>

definition tx_usd :: "abi_word option \<Rightarrow> string" where
  "tx_usd v =
     (case v of
        Some (ABig n) \<Rightarrow>
          let whole = n sdiv 10 ^ 18; frac = take 2 (padStart (show_int (n smod 10 ^ 18)) 18 (CHR ''0''))
          in ''$'' @ thousands (show_int whole) @ ''.'' @ frac
      | _ \<Rightarrow> ''-'')"

definition arg_at :: "nat \<Rightarrow> abi_word list \<Rightarrow> abi_word option" where
  "arg_at i as = (if i < length as then Some (as ! i) else None)"

definition how_far_over :: "abi_word option \<Rightarrow> abi_word option \<Rightarrow> abi_word" where
  "how_far_over requested maximum =
     (case (requested, maximum) of
        (Some (ABig r), Some (ABig m)) \<Rightarrow> ABig (if m < r then r - m else 0)
      | _ \<Rightarrow> ABig 0)"

definition status_copy :: "abi_word option \<Rightarrow> string" where
  "status_copy s =
     (case s of
        Some (ANum n) \<Rightarrow> if 0 \<le> n \<and> nat n < length ACCOUNT_STATUS_COPY then ACCOUNT_STATUS_COPY ! nat n else ''restricted''
      | Some (ABig n) \<Rightarrow> if 0 \<le> n \<and> nat n < length ACCOUNT_STATUS_COPY then ACCOUNT_STATUS_COPY ! nat n else ''restricted''
      | _ \<Rightarrow> ''restricted'')"

definition explainProtocolError :: "string \<Rightarrow> abi_word list \<Rightarrow> ProtocolError" where
  "explainProtocolError name args =
     (let said = (\<lambda>title body repair. \<lparr>pe_name = name, pe_args = args, pe_title = title, pe_body = body, pe_repair = repair\<rparr>);
          a0 = arg_at 0 args; a1 = arg_at 1 args
      in if name = ''RiskLimitExceeded'' then
           said ''That is more than you can borrow right now''
             (''You asked for '' @ tx_usd a0 @ '', which is '' @ tx_usd (Some (how_far_over a0 a1))
              @ '' above your current limit of '' @ tx_usd a1 @ ''.'')
             (''Reduce the amount to '' @ tx_usd a1 @ '', or add more collateral.'')
         else if name = ''AccountNotHealthy'' then
           said ''Your account cannot take on new risk'' (''The account is currently '' @ status_copy a0 @ ''.'')
             ''Repay some debt or add collateral, then try again.''
         else if name = ''WithdrawWouldBreachMaintenance'' then
           said ''That withdrawal would leave your account unsafe''
             (''You can withdraw up to '' @ tx_usd a0 @ '' of value without breaching your collateral requirement.'')
             ''Withdraw the safe maximum, or repay debt first to unlock more.''
         else if name = ''StaleRiskEpoch'' then
           said ''Risk policy changed while you were reviewing''
             ''Usance re-priced your quote because the policy behind one of your assets moved.''
             ''Review the updated numbers and confirm again.''
         else if name = ''InsufficientProtocolLiquidity'' then
           said ''Not enough lender liquidity right now''
             (''You asked for '' @ tx_usd a1 @ '' and the vault currently holds '' @ tx_usd a0
              @ '' of deployable cash. This is a liquidity limit, not a limit on your collateral.'')
             ''Borrow a smaller amount, or wait for lenders to supply more.''
         else if name = ''ReservationOutstanding'' then
           said ''Capital is reserved for an in-flight action''
             ''You have an execution that has not finished reconciling, so collateral cannot move yet.''
             ''Wait for it to settle, then try again. Do not resubmit.''
         else if name = ''AssetNotCollateral'' then
           said ''This asset cannot be used as collateral''
             ''Usance has not admitted this asset for collateral use, or it is currently suspended.''
             ''Check the asset page for its current status.''
         else if name = ''NoDebt'' then said ''Nothing to repay'' ''This account has no outstanding debt.'' []
         else if name = ''ZeroAmount'' then said ''Enter an amount'' [] []
         else said ''The protocol refused this action'' (''Reason: '' @ name @ ''.'')
                ''Nothing moved. You can adjust and try again.'')"

text \<open>The revert payload, looked for under the keys in their order. Thrown values are trees, so no object is met twice.\<close>

definition revert_data :: "json \<Rightarrow> string option" where
  "revert_data j = (case j of JStr s \<Rightarrow> if is_hex s \<and> 10 \<le> length s then Some s else None | _ \<Rightarrow> None)"

definition REVERT_KEYS :: "string list" where
  "REVERT_KEYS = [''data'', ''error'', ''cause'', ''info'', ''originalError'']"

fun first_found :: "('a \<Rightarrow> 'b option) \<Rightarrow> 'a list \<Rightarrow> 'b option" where
  "first_found f [] = None"
| "first_found f (x # xs) = (case f x of Some y \<Rightarrow> Some y | None \<Rightarrow> first_found f xs)"

fun extractRevertData :: "json \<Rightarrow> string option" where
  "extractRevertData (JObj fs) =
     (let found = map (\<lambda>kv. (fst kv, case revert_data (snd kv) of Some s \<Rightarrow> Some s | None \<Rightarrow> extractRevertData (snd kv))) fs
      in first_found (\<lambda>k. Option.bind (map_of found k) id) REVERT_KEYS)"
| "extractRevertData j = None"

text \<open>The decoder of the viem package, for the ABI of the call: the error's name and arguments, none where it throws.\<close>

type_synonym error_decoder = "string \<Rightarrow> (string \<times> abi_word list) option"

definition decodeProtocolError :: "error_decoder \<Rightarrow> json \<Rightarrow> ProtocolError option" where
  "decodeProtocolError decode e =
     (case extractRevertData e of
        None \<Rightarrow> None
      | Some data \<Rightarrow> map_option (\<lambda>(name, args). explainProtocolError name args) (decode data))"

section \<open>Submission\<close>

datatype TxStage =
    TX_IDLE | TX_PREVIEW | TX_APPROVAL_REQUIRED | TX_AWAITING_WALLET | TX_SUBMITTED | TX_CONFIRMING | TX_RECONCILING
  | TX_COMPLETE | TX_REJECTED | TX_CONFIRMATION_UNKNOWN | TX_FAILED

record TxState =
  tx_stage :: TxStage
  tx_hash :: "json option"
  tx_reason :: "ProtocolError option"
  tx_message :: "string option"

definition at_stage :: "TxStage \<Rightarrow> TxState" where
  "at_stage s = \<lparr>tx_stage = s, tx_hash = None, tx_reason = None, tx_message = None\<rparr>"

text \<open>The waiting time is kept in hundredths of a millisecond; a timer waits for whole milliseconds, at least one.\<close>

definition RECEIPT_TIMEOUT_MS :: int where "RECEIPT_TIMEOUT_MS = 90000"

definition sleep_for :: "int \<Rightarrow> browser \<Rightarrow> browser" where
  "sleep_for delay w = w\<lparr>bw_now := bw_now w + max 1 (delay div 100)\<rparr>"

definition next_delay :: "int \<Rightarrow> int" where "next_delay delay = min (delay * 14 div 10) 600000"

lemma request_time: "request p m ps w = (r, w') \<Longrightarrow> bw_now w \<le> bw_now w'"
  by (auto simp: request_def Let_def)

function wait_from :: "provider \<Rightarrow> json \<Rightarrow> int \<Rightarrow> int \<Rightarrow> browser \<Rightarrow> json option \<times> browser" where
  "wait_from p h started delay w =
     (if bw_now w - started < RECEIPT_TIMEOUT_MS
      then case request p ''eth_getTransactionReceipt'' [h] w of
             (Inl e, w') \<Rightarrow> (None, w')
           | (Inr r, w') \<Rightarrow>
               if js_truthy r then (Some r, w')
               else wait_from p h started (next_delay delay) (sleep_for delay w')
      else (None, w))"
  by pat_completeness auto
termination
  by (relation "measure (\<lambda>(p, h, started, delay, w). nat (started + RECEIPT_TIMEOUT_MS - bw_now w))")
    (auto simp: sleep_for_def dest: request_time [OF sym])

declare wait_from.simps [simp del]

definition waitForReceipt :: "provider \<Rightarrow> json \<Rightarrow> browser \<Rightarrow> json option \<times> browser" where
  "waitForReceipt p h w = wait_from p h (bw_now w) 100000 w"

record SendOptions =
  so_to :: string
  so_calldata :: "wallet_error + string"
  so_decode :: error_decoder
  so_from :: string

text \<open>
  What a call of \<open>sendTransaction\<close> shows: the states given to the listener, the last of which it returns,
  or the exception that leaves it. The encoded call (\<open>encodeFunctionData\<close> of viem, which may throw) is part of the options.
\<close>

definition follow :: "provider \<Rightarrow> json \<Rightarrow> browser \<Rightarrow> TxState list \<times> browser" where
  "follow p h w =
     (let with_hash = (\<lambda>s. (at_stage s)\<lparr>tx_hash := Some h\<rparr>)
      in case waitForReceipt p h w of
           (Some receipt, w) \<Rightarrow>
             (if json_field ''status'' receipt = Some (JStr ''0x0'')
              then [(with_hash TX_FAILED)\<lparr>tx_message := Some ''The transaction was included but reverted.''\<rparr>]
              else [with_hash TX_RECONCILING, with_hash TX_COMPLETE], w)
         | (None, w) \<Rightarrow>
             ([(with_hash TX_CONFIRMATION_UNKNOWN)\<lparr>tx_message := Some
                 ''Your transaction was submitted but we lost track of it. Usance is checking the chain. Do not resubmit.''\<rparr>], w))"

definition not_sent :: "error_decoder \<Rightarrow> json \<Rightarrow> wallet_error + TxState" where
  "not_sent decode e =
     (if wallet_isUserRejection e
      then Inr ((at_stage TX_REJECTED)\<lparr>tx_message := Some ''You declined the transaction in your wallet.''\<rparr>)
      else case decodeProtocolError decode e of
             Some reason \<Rightarrow> Inr ((at_stage TX_FAILED)\<lparr>tx_reason := Some reason\<rparr>)
           | None \<Rightarrow> bindR (thrown_message e ''The transaction could not be sent.'') (\<lambda>m.
                       Inr ((at_stage TX_FAILED)\<lparr>tx_message := Some m\<rparr>)))"

definition sendTransaction ::
  "env_vars \<Rightarrow> window option \<Rightarrow> SendOptions \<Rightarrow> browser \<Rightarrow> wallet_error option \<times> TxState list \<times> browser" where
  "sendTransaction env win opts w =
     (case fst (detectProvider win) of
        None \<Rightarrow> (None, [(at_stage TX_FAILED)\<lparr>tx_message := Some ''No wallet is connected.''\<rparr>], w)
      | Some p \<Rightarrow>
          (case so_calldata opts of
             Inl e \<Rightarrow> (Some e, [], w)
           | Inr bare \<Rightarrow>
               (case withBuilderCode bare (builderCodeFromEnv env) of
                  Inl e \<Rightarrow> (Some (Attribution e), [], w)
                | Inr data \<Rightarrow>
                    let asking = at_stage TX_AWAITING_WALLET
                    in (case request p ''eth_sendTransaction''
                           [JObj [(''from'', JStr (so_from opts)), (''to'', JStr (so_to opts)), (''data'', JStr data)]] w of
                          (Inl e, w) \<Rightarrow>
                            (case not_sent (so_decode opts) e of
                               Inl x \<Rightarrow> (Some x, [asking], w)
                             | Inr s \<Rightarrow> (None, [asking, s], w))
                        | (Inr h, w) \<Rightarrow>
                            (case follow p h w of
                               (states, w) \<Rightarrow> (None, [asking, (at_stage TX_SUBMITTED)\<lparr>tx_hash := Some h\<rparr>] @ states, w))))))"

section \<open>How a write goes\<close>

lemma suffix_written: "is_hex data \<Longrightarrow> withBuilderCode data code = Inr d \<Longrightarrow> hasBuilderSuffix d \<and> take (length data) d = data"
proof -
  assume a: "is_hex data" and w: "withBuilderCode data code = Inr d"
  obtain h where h: "data = ''0x'' @ h" using a unfolding is_hex_def by (metis append_take_drop_id)
  show ?thesis
  proof (cases "hasBuilderSuffix data")
    case True
    then show ?thesis using w by (auto simp: withBuilderCode_def split: if_splits)
  next
    case False
    then obtain s where s: "encodeBuilderSuffix code = Inr s" "d = ''0x'' @ drop 2 data @ s"
      using w by (auto simp: withBuilderCode_def split: if_splits elim!: bindR_InrE)
    then have c: "code \<noteq> []" "length code \<le> 0xFF" "list_all (\<lambda>c. (of_char c :: nat) \<le> 0x7F) code"
      using encode_refuses [of code] by auto
    have "s = byte_hex (length code) @ bytes_hex code @ byte_hex 0 @ ERC8021_MARKER" using s(1) suffix_of [OF c] by simp
    moreover have "4 \<le> length (h @ byte_hex (length code) @ bytes_hex code)" "list_all hex_char (h @ byte_hex (length code) @ bytes_hex code)"
      using a c h by (cases code; simp add: is_hex_def length_byte_hex byte_hex_hex bytes_hex_hex)+
    note suffix_recognised [OF this]
    ultimately show ?thesis using s(2) h by simp
  qed
qed

definition poll_of :: "json \<Rightarrow> request" where "poll_of h = (''eth_getTransactionReceipt'', [h])"

lemma request_simps [simp]:
  "fst (request p m ps w) = snd (p (bw_requests w @ [(m, ps)]))"
  "bw_requests (snd (request p m ps w)) = bw_requests w @ [(m, ps)]"
  by (simp_all add: request_def Let_def)

lemma requestD:
  assumes "request p m ps w = (r, w')"
  shows "r = snd (p (bw_requests w @ [(m, ps)]))" "bw_requests w' = bw_requests w @ [(m, ps)]" "bw_now w \<le> bw_now w'"
  using assms by (auto simp: request_def Let_def)

definition gave :: "provider \<Rightarrow> request list \<Rightarrow> json option \<Rightarrow> bool" where
  "gave p rs r \<longleftrightarrow> (case snd (p rs) of Inl e \<Rightarrow> r = None | Inr j \<Rightarrow> if js_truthy j then r = Some j else r = None)"

lemma wait_effect:
  assumes "wait_from p h started delay w = (r, w')" "100000 \<le> delay" "bw_now w - started < RECEIPT_TIMEOUT_MS"
  shows "\<exists>n. 0 < n \<and> bw_requests w' = bw_requests w @ replicate n (poll_of h) \<and> gave p (bw_requests w') r
     \<and> 1000 * (int n - 1) < RECEIPT_TIMEOUT_MS - (bw_now w - started)"
  using assms
proof (induction p h started delay w rule: wait_from.induct)
  case (1 p h started delay w)
  obtain a w1 where q: "request p ''eth_getTransactionReceipt'' [h] w = (a, w1)" by fastforce
  note f = requestD [OF q]
  show ?case
  proof (cases "\<exists>j. a = Inr j \<and> \<not> js_truthy j")
    case False
    then have "r = (case a of Inl e \<Rightarrow> None | Inr j \<Rightarrow> Some j) \<and> w' = w1"
      using 1(2,4) q by (subst (asm) wait_from.simps) (auto split: sum.splits)
    then show ?thesis using False f 1(4)
      by (intro exI [of _ 1]) (auto simp: poll_of_def gave_def split: sum.splits)
  next
    case True
    then obtain j where j: "a = Inr j" "\<not> js_truthy j" by blast
    let ?w2 = "sleep_for delay w1"
    have w: "wait_from p h started (next_delay delay) ?w2 = (r, w')"
      using 1(2,4) q j by (subst (asm) wait_from.simps) simp
    have d: "100000 \<le> next_delay delay" using 1(3) by (simp add: next_delay_def)
    have t: "bw_now w + 1000 \<le> bw_now ?w2" using f(3) 1(3) by (simp add: sleep_for_def)
    show ?thesis
    proof (cases "bw_now ?w2 - started < RECEIPT_TIMEOUT_MS")
      case more: True
      from 1(1) [OF 1(4) q [symmetric] j w d more]
      obtain n where n: "0 < n" "bw_requests w' = bw_requests ?w2 @ replicate n (poll_of h)" "gave p (bw_requests w') r"
        "1000 * (int n - 1) < RECEIPT_TIMEOUT_MS - (bw_now ?w2 - started)" by blast
      then show ?thesis using f(2) t
        by (intro exI [of _ "Suc n"]) (simp add: poll_of_def sleep_for_def)
    next
      case False
      then have "r = None" "w' = ?w2" using w by (simp_all add: wait_from.simps [of p h started "next_delay delay"])
      then show ?thesis using f 1(4) j
        by (intro exI [of _ 1]) (auto simp: poll_of_def gave_def sleep_for_def split: sum.splits)
    qed
  qed
qed


definition submission :: "SendOptions \<Rightarrow> string \<Rightarrow> request" where
  "submission opts data = (''eth_sendTransaction'',
     [JObj [(''from'', JStr (so_from opts)), (''to'', JStr (so_to opts)), (''data'', JStr data)]])"

text \<open>How a write that has a hash ends, by the last answer of the wallet.\<close>

definition ending :: "json + json \<Rightarrow> TxStage list" where
  "ending answer =
     (case answer of
        Inl e \<Rightarrow> [TX_CONFIRMATION_UNKNOWN]
      | Inr j \<Rightarrow>
          if j \<in> {JNull, JBool False, JNum 0, JStr []} then [TX_CONFIRMATION_UNKNOWN]
          else if json_field ''status'' j = Some (JStr ''0x0'') then [TX_FAILED]
          else [TX_RECONCILING, TX_COMPLETE])"

lemma follow_effect:
  assumes "follow p h w = (states, w')"
  shows "\<exists>n. 0 < n \<and> n \<le> 90 \<and> bw_requests w' = bw_requests w @ replicate n (poll_of h)
    \<and> list_all (\<lambda>s. tx_hash s = Some h) states \<and> map tx_stage states = ending (snd (p (bw_requests w')))"
proof -
  obtain r w1 where q: "wait_from p h (bw_now w) 100000 w = (r, w1)" by fastforce
  then have w': "w' = w1" using assms by (auto simp: follow_def waitForReceipt_def split: option.splits)
  from wait_effect [OF q] obtain n where n: "0 < n" "bw_requests w1 = bw_requests w @ replicate n (poll_of h)"
    "gave p (bw_requests w1) r" "1000 * (int n - 1) < 90000"
    by (auto simp: RECEIPT_TIMEOUT_MS_def)
  have truthy: "js_truthy j \<longleftrightarrow> j \<notin> {JNull, JBool False, JNum 0, JStr []}" for j
    by (cases j) (auto simp: js_truthy_def)
  show ?thesis
  proof (cases r)
    case None
    then show ?thesis using assms q n w'
      by (intro exI [of _ n]) (auto simp: follow_def waitForReceipt_def at_stage_def gave_def ending_def truthy
          split: sum.splits if_splits)
  next
    case (Some j)
    then have j: "snd (p (bw_requests w1)) = Inr j" "js_truthy j" using n(3) by (auto simp: gave_def split: sum.splits if_splits)
    show ?thesis using assms q n(1,2,4) w' j(1) j(2) [unfolded truthy] Some
      by (intro exI [of _ n]) (auto simp: follow_def waitForReceipt_def at_stage_def ending_def split: if_splits)
  qed
qed

section \<open>Properties\<close>

text \<open>
  C10: a write is submitted once. Whatever the wallet answers, \<open>sendTransaction\<close> submits at most once, with
  the call it was given and the attribution behind it, and asks for the receipt at most ninety times.
  Once the wallet has answered with a hash no exception leaves it, every state it shows after that
  carries the hash, and the states are determined by the last answer to the polling: completion when it
  is a receipt whose status is not the text 0x0, failure when it is one with that status, and a loss of
  track when the poll threw or there is no receipt yet. It never says then that the transaction was rejected
  or asks for another. Without a hash it never says that anything was sent, and it says rejected
  exactly when the wallet reports the user's refusal.
\<close>

theorem write_submitted_once:
  assumes "sendTransaction env win opts w = (x, states, w')" "fst (detectProvider win) = Some p"
    and "so_calldata opts = Inr bare" "is_hex bare"
  shows "(w' = w \<and> states = [] \<and> (\<exists>e. x = Some (Attribution e)))
    \<or> (\<exists>data n. hasBuilderSuffix data \<and> take (length bare) data = bare \<and> n \<le> 90
      \<and> (case snd (p (bw_requests w @ [submission opts data])) of
           Inl e \<Rightarrow> bw_requests w' = bw_requests w @ [submission opts data]
             \<and> list_all (\<lambda>s. tx_hash s = None \<and> tx_stage s \<in> {TX_AWAITING_WALLET, TX_REJECTED, TX_FAILED}) states
             \<and> (TX_REJECTED \<in> tx_stage ` set states \<longleftrightarrow> wallet_isUserRejection e)
         | Inr h \<Rightarrow> bw_requests w' = bw_requests w @ submission opts data # replicate n (poll_of h)
             \<and> 0 < n \<and> x = None \<and> list_all (\<lambda>s. tx_hash s = Some h) (tl states)
             \<and> map tx_stage states = [TX_AWAITING_WALLET, TX_SUBMITTED] @
                 (case snd (p (bw_requests w')) of
                    Inl e \<Rightarrow> [TX_CONFIRMATION_UNKNOWN]
                  | Inr j \<Rightarrow>
                      if j \<in> {JNull, JBool False, JNum 0, JStr []} then [TX_CONFIRMATION_UNKNOWN]
                      else if json_field ''status'' j = Some (JStr ''0x0'') then [TX_FAILED]
                      else [TX_RECONCILING, TX_COMPLETE])))"
proof (cases "withBuilderCode bare (builderCodeFromEnv env)")
  case (Inl e)
  then show ?thesis using assms by (auto simp: sendTransaction_def)
next
  case (Inr data)
  note d = suffix_written [OF assms(4) Inr]
  obtain a w1 where q: "request p ''eth_sendTransaction''
      [JObj [(''from'', JStr (so_from opts)), (''to'', JStr (so_to opts)), (''data'', JStr data)]] w = (a, w1)" by fastforce
  note f = requestD [OF q, folded submission_def]
  show ?thesis
  proof (cases a)
    case (Inl e)
    have "list_all (\<lambda>s. tx_hash s = None \<and> tx_stage s \<in> {TX_AWAITING_WALLET, TX_REJECTED, TX_FAILED}) states \<and> w' = w1"
      "TX_REJECTED \<in> tx_stage ` set states \<longleftrightarrow> wallet_isUserRejection e"
      using assms Inr q Inl
      by (auto simp: sendTransaction_def Let_def not_sent_def at_stage_def split: sum.splits if_splits option.splits elim!: bindR_InrE)
    then show ?thesis using d f Inl by (intro disjI2 exI [of _ data] exI [of _ 0]) (auto split: sum.splits)
  next
    case h: (Inr h)
    obtain ss w2 where fo: "follow p h w1 = (ss, w2)" by fastforce
    then have s: "x = None" "w' = w2" "states = [at_stage TX_AWAITING_WALLET, (at_stage TX_SUBMITTED)\<lparr>tx_hash := Some h\<rparr>] @ ss"
      using assms Inr q h by (simp_all add: sendTransaction_def Let_def)
    from follow_effect [OF fo] obtain n where n: "0 < n" "n \<le> 90" "bw_requests w2 = bw_requests w1 @ replicate n (poll_of h)"
      "list_all (\<lambda>s. tx_hash s = Some h) ss" "map tx_stage ss = ending (snd (p (bw_requests w2)))" by blast
    have "snd (p (bw_requests w @ [submission opts data])) = Inr h" using f(1) h by simp
    then show ?thesis using d f(2) s n
      by (intro disjI2 exI [of _ data] exI [of _ n]) (simp add: at_stage_def ending_def)
  qed
qed


definition prompt_wallet :: provider where
  "prompt_wallet rs = (5, if length rs < 2 then Inr (JStr ''0xab'') else Inr (JObj [(''status'', JStr ''0x1'')]))"

definition a_window :: "window option" where
  "a_window = Some \<lparr>wd_okxwallet = Some prompt_wallet, wd_ethereum = None\<rparr>"

definition a_call :: SendOptions where
  "a_call = \<lparr>so_to = ''0x01'', so_calldata = Inr ''0x371fd8e6'', so_decode = (\<lambda>_. None), so_from = ''0x02''\<rparr>"

theorem write_submitted_once_witness:
  "\<exists>x states w' data n. sendTransaction (\<lambda>_. None) a_window a_call \<lparr>bw_now = 0, bw_requests = []\<rparr> = (x, states, w')
     \<and> bw_requests w' = submission a_call data # replicate n (poll_of (JStr ''0xab'')) \<and> n \<le> 90
     \<and> map tx_stage states = [TX_AWAITING_WALLET, TX_SUBMITTED, TX_RECONCILING, TX_COMPLETE]"
proof -
  obtain x states w' where s: "sendTransaction (\<lambda>_. None) a_window a_call \<lparr>bw_now = 0, bw_requests = []\<rparr> = (x, states, w')"
    by (metis prod_cases3)
  have "is_hex ''0x371fd8e6''" using repay_call_facts by blast
  moreover have "fst (detectProvider a_window) = Some prompt_wallet" "so_calldata a_call = Inr ''0x371fd8e6''"
    by (simp_all add: a_window_def a_call_def detectProvider_def)
  moreover have "\<not> (\<exists>e. withBuilderCode ''0x371fd8e6'' (builderCodeFromEnv (\<lambda>_. None)) = Inl e)"
    using encode_refuses [of DEFAULT_BUILDER_CODE] repay_call_facts
    by (auto simp: withBuilderCode_def builderCodeFromEnv_def DEFAULT_BUILDER_CODE_def printable_def bindR_Inl_iff split: if_splits)
  then obtain d where "withBuilderCode ''0x371fd8e6'' (builderCodeFromEnv (\<lambda>_. None)) = Inr d"
    by (cases "withBuilderCode ''0x371fd8e6'' (builderCodeFromEnv (\<lambda>_. None))") auto
  then have "states \<noteq> []" using s
    by (auto simp: sendTransaction_def a_call_def a_window_def detectProvider_def Let_def split: prod.splits sum.splits)
  ultimately show ?thesis
    using write_submitted_once [OF s, of prompt_wallet "''0x371fd8e6''"] s
    by (auto simp: prompt_wallet_def json_field_def split: sum.splits)
qed

section \<open>Where a write goes wrong\<close>

text \<open>A wallet that refuses with null makes the error handling itself throw: the listener is left waiting for the wallet.\<close>

lemma null_refusal_escapes:
  "not_sent decode JNull = Inl TypeMismatch"
  by (simp add: not_sent_def wallet_isUserRejection_def json_field_def decodeProtocolError_def thrown_message_def)

text \<open>A receipt that does not say how the transaction ended counts as success.\<close>

lemma statusless_receipt_completes:
  assumes "\<And>rs. p rs = (t, Inr (JObj [(''blockNumber'', JStr ''0x1'')]))"
  shows "map tx_stage (fst (follow p h w)) = [TX_RECONCILING, TX_COMPLETE]"
  using assms by (simp add: follow_def waitForReceipt_def wait_from.simps request_def RECEIPT_TIMEOUT_MS_def Let_def js_truthy_def
      json_field_def at_stage_def)

text \<open>An empty setting is not the missing setting: with it every write throws before it reaches the wallet.\<close>

lemma empty_code_blocks_writes:
  assumes "env ''USANCE_BUILDER_CODE'' = Some []" "so_calldata opts = Inr bare" "is_hex bare" "even (length bare)"
    "\<not> hasBuilderSuffix bare" "fst (detectProvider win) = Some p"
  shows "sendTransaction env win opts w = (Some (Attribution EmptyCode), [], w)"
  using assms by (simp add: sendTransaction_def withBuilderCode_def builderCodeFromEnv_def encodeBuilderSuffix_def
      odd_iff_mod_2_eq_one [symmetric])

end
