(* ===== verification/Account_Views.thy ===== *)
theory Account_Views
  imports Wallet_Flow Risk_Engine Sentinel_Schemas
begin

text \<open>
  What the application shows of an account: \<open>deployments.ts\<close>, \<open>account.ts\<close>, \<open>quote.ts\<close>, \<open>alerts.ts\<close>,
  \<open>actions.ts\<close>, \<open>earn-actions.ts\<close>, \<open>vault.ts\<close>, \<open>session.ts\<close>, the mandate files \<open>mandate.ts\<close>,
  \<open>mandate-read.ts\<close> and \<open>mandate-sign.ts\<close>, and \<open>sentinel-read.ts\<close> of \<open>apps/web/lib\<close>. The contracts are external: each view function is a
  reading that gives a value or fails with a message; a pinned reading names its block. Of several
  readings made together the first that fails, in their order, is the one reported. Amounts are shown by the browser's
  locale, which is an argument.
\<close>

section \<open>Deployments\<close>

record Contracts =
  ct_riskPolicyRegistry :: string
  ct_passportRegistry :: string
  ct_collateralVault :: string
  ct_liquidityVault :: string
  ct_financingEngine :: string
  ct_clearingHouse :: string
  ct_oracleAdapter :: string
  ct_mandateRegistry :: "string option"
  ct_sentinelInstanceRegistry :: "string option"

record DeployedAsset =
  da_assetId :: string
  da_symbol :: string
  da_name :: string
  da_token :: string
  da_decimals :: nat
  da_isTestFixture :: bool

record SettlementAsset =
  sa_assetId :: string
  sa_symbol :: string
  sa_token :: string
  sa_decimals :: nat

record Deployment =
  dp_contracts :: Contracts
  dp_assets :: "DeployedAsset list"
  dp_settlementAsset :: SettlementAsset

type_synonym deployments = "int \<Rightarrow> Deployment option"

definition loadDeployment :: "deployments \<Rightarrow> int \<Rightarrow> Deployment option" where
  "loadDeployment ds chainId = ds chainId"

section \<open>Readings\<close>

type_synonym 'a reading = "string + 'a"

record AccountHealth =
  ah_totalRecognizedUsd18 :: int
  ah_borrowLimitUsd18 :: int
  ah_maintenanceLimitUsd18 :: int
  ah_liquidationLimitUsd18 :: int
  ah_debtUsd18 :: int
  ah_availableBorrowUsd18 :: int
  ah_status :: nat
  ah_gates :: int

record HealthRow =
  va_assetId :: string
  va_marketValueUsd18 :: int
  va_haircutMarkUsd18 :: int
  va_stressedExitUsd18 :: int
  va_recognizedUsd18 :: int

text \<open>The views of the deployed contracts: the address, the arguments, and the block or the latest one.\<close>

record chain_views =
  vw_blockNumber :: "int reading"
  vw_accountHealth :: "string \<Rightarrow> string \<Rightarrow> int option \<Rightarrow> (AccountHealth \<times> HealthRow list) reading"
  vw_availableBorrow :: "string \<Rightarrow> string \<Rightarrow> (int \<times> bool) reading"
  vw_settlementFreshness :: "string \<Rightarrow> (bool \<times> int) reading"
  vw_getPrice :: "string \<Rightarrow> string \<Rightarrow> (int \<times> int) reading"
  vw_rate :: "string \<Rightarrow> (int \<times> int \<times> int \<times> int \<times> int) reading"
  vw_withdrawalRequest :: "string \<Rightarrow> int \<Rightarrow> (string \<times> int \<times> int \<times> int \<times> int \<times> bool) reading"
  vw_uint :: "string \<Rightarrow> string \<Rightarrow> abi_word list \<Rightarrow> int option \<Rightarrow> int reading"

section \<open>The account\<close>

record PositionAsset =
  pa_assetId :: string
  pa_marketValueUsd18 :: int
  pa_haircutMarkUsd18 :: int
  pa_stressedExitUsd18 :: int
  pa_recognizedUsd18 :: int

record AccountView =
  av_account :: string
  av_chainId :: int
  av_blockNumber :: int
  av_recognized :: int
  av_borrowLimit :: int
  av_maintenanceLimit :: int
  av_liquidationLimit :: int
  av_debt :: int
  av_availableBorrow :: int
  av_reserved :: int
  av_status :: AccountStatus
  av_gates :: int
  av_riskEpoch :: int
  av_assets :: "PositionAsset list"

datatype AccountLookup = ACCOUNT_OK AccountView | NOT_DEPLOYED | ACCOUNT_UNREADABLE string

text \<open>An ordinal the ladder does not know is shown as \<open>NORMAL\<close>.\<close>

definition status_at :: "nat \<Rightarrow> AccountStatus" where
  "status_at i = (if i < length ACCOUNT_STATUS then ACCOUNT_STATUS ! i else NORMAL)"

definition position_of :: "HealthRow \<Rightarrow> PositionAsset" where
  "position_of v = \<lparr>pa_assetId = va_assetId v, pa_marketValueUsd18 = va_marketValueUsd18 v,
     pa_haircutMarkUsd18 = va_haircutMarkUsd18 v, pa_stressedExitUsd18 = va_stressedExitUsd18 v,
     pa_recognizedUsd18 = va_recognizedUsd18 v\<rparr>"

definition account_view :: "string \<Rightarrow> int \<Rightarrow> int \<Rightarrow> AccountHealth \<Rightarrow> HealthRow list \<Rightarrow> int \<Rightarrow> int \<Rightarrow> AccountView" where
  "account_view account chainId block r valuations reserved riskEpoch =
     \<lparr>av_account = account, av_chainId = chainId, av_blockNumber = block, av_recognized = ah_totalRecognizedUsd18 r,
      av_borrowLimit = ah_borrowLimitUsd18 r, av_maintenanceLimit = ah_maintenanceLimitUsd18 r,
      av_liquidationLimit = ah_liquidationLimitUsd18 r, av_debt = ah_debtUsd18 r,
      av_availableBorrow = ah_availableBorrowUsd18 r, av_reserved = reserved, av_status = status_at (ah_status r),
      av_gates = ah_gates r, av_riskEpoch = riskEpoch, av_assets = map position_of valuations\<rparr>"

definition loadAccount :: "ChainConfig \<Rightarrow> deployments \<Rightarrow> chain_views \<Rightarrow> string \<Rightarrow> AccountLookup" where
  "loadAccount chain ds vw account =
     (case loadDeployment ds (cc_id chain) of
        None \<Rightarrow> NOT_DEPLOYED
      | Some d \<Rightarrow>
          (let c = dp_contracts d
           in case bindR (vw_blockNumber vw) (\<lambda>block.
                bindR (vw_accountHealth vw (ct_clearingHouse c) account (Some block)) (\<lambda>(r, valuations).
                bindR (vw_uint vw (ct_clearingHouse c) ''reservedOf'' [ABytes account] (Some block)) (\<lambda>reserved.
                bindR (vw_uint vw (ct_riskPolicyRegistry c) ''riskEpoch'' [] (Some block)) (\<lambda>riskEpoch.
                  Inr (account_view account (cc_id chain) block r valuations reserved riskEpoch))))) of
                Inr view \<Rightarrow> ACCOUNT_OK view
              | Inl message \<Rightarrow> ACCOUNT_UNREADABLE (take 160 message)))"

record permissions =
  pm_borrow :: bool
  pm_withdraw :: bool
  pm_repay :: bool
  pm_addCollateral :: bool

fun permittedActions :: "AccountStatus \<Rightarrow> permissions" where
  "permittedActions NORMAL = \<lparr>pm_borrow = True, pm_withdraw = True, pm_repay = True, pm_addCollateral = True\<rparr>"
| "permittedActions NO_NEW_RISK = \<lparr>pm_borrow = False, pm_withdraw = True, pm_repay = True, pm_addCollateral = True\<rparr>"
| "permittedActions SETTLED = \<lparr>pm_borrow = False, pm_withdraw = True, pm_repay = False, pm_addCollateral = False\<rparr>"
| "permittedActions BAD_DEBT = \<lparr>pm_borrow = False, pm_withdraw = False, pm_repay = False, pm_addCollateral = False\<rparr>"
| "permittedActions s = \<lparr>pm_borrow = False, pm_withdraw = False, pm_repay = True, pm_addCollateral = True\<rparr>"

section \<open>Quotes\<close>

definition QUOTE_TTL_SECONDS :: int where "QUOTE_TTL_SECONDS = 30"

datatype QuoteAction = Q_BORROW | Q_REPAY | Q_ADD_COLLATERAL | Q_WITHDRAW

record OracleFreshness =
  of_configured :: bool
  of_maxAgeSeconds :: int
  of_ageSeconds :: "int option"
  of_stale :: bool

record Quote =
  qt_chainId :: int
  qt_account :: string
  qt_assetId :: "string option"
  qt_action :: QuoteAction
  qt_passportVersion :: "int option"
  qt_riskEpoch :: int
  qt_oracleUpdatedAt :: "int option"
  qt_oracleFreshness :: OracleFreshness
  qt_amountUsd :: int
  qt_recognisedBefore :: int
  qt_recognisedAfter :: int
  qt_debtBefore :: int
  qt_debtAfter :: int
  qt_availableBorrowBefore :: int
  qt_availableBorrowAfter :: int
  qt_statusBefore :: AccountStatus
  qt_statusAfter :: AccountStatus
  qt_maintenanceLimit :: int
  qt_liquidationLimit :: int
  qt_protocolLiquidity :: int
  qt_limitedByLiquidity :: bool
  qt_walletBalance :: int
  qt_allowance :: int
  qt_createdAt :: int
  qt_expiresAt :: int

definition projectStatus :: "int \<Rightarrow> int \<Rightarrow> int \<Rightarrow> int \<Rightarrow> AccountStatus \<Rightarrow> AccountStatus" where
  "projectStatus debt borrowLimit maintenanceLimit liquidationLimit least =
     (let base = (if debt = 0 \<or> debt \<le> borrowLimit then NORMAL
                  else if debt \<le> maintenanceLimit then NO_NEW_RISK
                  else if debt \<le> liquidationLimit then REDUCE_ONLY else MARGIN_CALL)
      in if indexOf least ACCOUNT_STATUS < indexOf base ACCOUNT_STATUS then base else least)"

definition nonzero :: "int \<Rightarrow> int option" where "nonzero n = (if n = 0 then None else Some n)"

definition asset_readings :: "chain_views \<Rightarrow> Contracts \<Rightarrow> string option \<Rightarrow> (int option \<times> int option) reading" where
  "asset_readings vw c asset =
     (case asset of
        None \<Rightarrow> Inr (None, None)
      | Some a \<Rightarrow>
          bindR (vw_getPrice vw (ct_oracleAdapter c) a) (\<lambda>(price, updatedAt).
          bindR (vw_uint vw (ct_passportRegistry c) ''currentVersion'' [ABytes a] None) (\<lambda>version.
            Inr (nonzero updatedAt, nonzero version))))"

definition wallet_readings :: "chain_views \<Rightarrow> Contracts \<Rightarrow> string \<Rightarrow> string \<Rightarrow> (int \<times> int) reading" where
  "wallet_readings vw c settlement account =
     (if settlement = [] then Inr (0, 0)
      else bindR (vw_uint vw settlement ''balanceOf'' [ABytes account] None) (\<lambda>balance.
           bindR (vw_uint vw settlement ''allowance'' [ABytes account, ABytes (ct_clearingHouse c)] None) (\<lambda>allowance.
             Inr (balance, allowance))))"

definition quoteFor ::
  "env_vars \<Rightarrow> deployments \<Rightarrow> chain_views \<Rightarrow> int \<Rightarrow> string \<Rightarrow> QuoteAction \<Rightarrow> int \<Rightarrow> string option \<Rightarrow> string + Quote" where
  "quoteFor env ds vw now account action amountUsd assetId =
     (case activeChain env of
        Inl (JsError m) \<Rightarrow> Inl m
      | Inl _ \<Rightarrow> Inl []
      | Inr chain \<Rightarrow>
     (case loadDeployment ds (cc_id chain) of
        None \<Rightarrow> Inl (''Usance is not deployed on '' @ cc_name chain)
      | Some deployment \<Rightarrow>
     (let c = dp_contracts deployment in
      bindR (vw_accountHealth vw (ct_clearingHouse c) account None) (\<lambda>(r, _).
      bindR (vw_availableBorrow vw (ct_clearingHouse c) account) (\<lambda>(available, limitedByLiquidity).
      bindR (vw_uint vw (ct_riskPolicyRegistry c) ''riskEpoch'' [] None) (\<lambda>epoch.
      bindR (vw_settlementFreshness vw (ct_clearingHouse c)) (\<lambda>(configured, maxAge).
      bindR (vw_uint vw (ct_liquidityVault c) ''availableCash'' [] None) (\<lambda>liquidity.
      let recognised = ah_totalRecognizedUsd18 r; borrowLimit = ah_borrowLimitUsd18 r;
          maintenanceLimit = ah_maintenanceLimitUsd18 r; liquidationLimit = ah_liquidationLimitUsd18 r;
          debt = ah_debtUsd18 r; statusBefore = status_at (ah_status r);
          asset = (case assetId of Some a \<Rightarrow> Some a
                   | None \<Rightarrow> (case dp_assets deployment of [] \<Rightarrow> None | a # _ \<Rightarrow> Some (da_assetId a)))
      in
      bindR (asset_readings vw c asset) (\<lambda>(oracleUpdatedAt, passportVersion).
      let ageSeconds = map_option (\<lambda>u. max 0 (now - u)) oracleUpdatedAt in
      bindR (wallet_readings vw c (sa_token (dp_settlementAsset deployment)) account) (\<lambda>(walletBalance, allowance).
      let debtAfter = (case action of Q_BORROW \<Rightarrow> debt + amountUsd
                       | Q_REPAY \<Rightarrow> if amountUsd < debt then debt - amountUsd else 0 | _ \<Rightarrow> debt);
          recognisedAfter = (case action of Q_ADD_COLLATERAL \<Rightarrow> recognised + amountUsd
                             | Q_WITHDRAW \<Rightarrow> if amountUsd < recognised then recognised - amountUsd else 0
                             | _ \<Rightarrow> recognised)
      in Inr \<lparr>qt_chainId = cc_id chain, qt_account = account, qt_assetId = asset, qt_action = action,
         qt_passportVersion = passportVersion, qt_riskEpoch = epoch, qt_oracleUpdatedAt = oracleUpdatedAt,
         qt_oracleFreshness = \<lparr>of_configured = configured, of_maxAgeSeconds = maxAge, of_ageSeconds = ageSeconds,
           of_stale = (configured \<and> (case ageSeconds of None \<Rightarrow> False | Some a \<Rightarrow> maxAge < a))\<rparr>,
         qt_amountUsd = amountUsd, qt_recognisedBefore = recognised, qt_recognisedAfter = recognisedAfter,
         qt_debtBefore = debt, qt_debtAfter = debtAfter, qt_availableBorrowBefore = available,
         qt_availableBorrowAfter = (if debtAfter < borrowLimit then borrowLimit - debtAfter else 0),
         qt_statusBefore = statusBefore,
         qt_statusAfter = projectStatus debtAfter borrowLimit maintenanceLimit liquidationLimit statusBefore,
         qt_maintenanceLimit = maintenanceLimit, qt_liquidationLimit = liquidationLimit,
         qt_protocolLiquidity = liquidity, qt_limitedByLiquidity = limitedByLiquidity,
         qt_walletBalance = walletBalance, qt_allowance = allowance, qt_createdAt = now,
         qt_expiresAt = now + QUOTE_TTL_SECONDS\<rparr>))))))))))"

definition quoteIsValid :: "Quote \<Rightarrow> int \<Rightarrow> int \<Rightarrow> bool" where
  "quoteIsValid q currentEpoch now \<longleftrightarrow> qt_riskEpoch q = currentEpoch \<and> now < qt_expiresAt q"

definition quoteInvalidReason :: "Quote \<Rightarrow> int \<Rightarrow> int \<Rightarrow> string option" where
  "quoteInvalidReason q currentEpoch now =
     (if qt_riskEpoch q \<noteq> currentEpoch
      then Some ''Risk conditions changed. Review the updated values before signing.''
      else if qt_expiresAt q \<le> now then Some ''This quote has expired. Refreshing it now.'' else None)"

datatype deployment_mismatch = DeploymentMismatch string string

definition assertDeploymentMatches :: "Deployment \<Rightarrow> string \<Rightarrow> deployment_mismatch + unit" where
  "assertDeploymentMatches d expected =
     (if toLowerCase (ct_clearingHouse (dp_contracts d)) \<noteq> toLowerCase expected
      then Inl (DeploymentMismatch expected (ct_clearingHouse (dp_contracts d))) else Inr ())"

section \<open>Alerts\<close>

datatype AlertSeverity = INFO | WARN | URGENT

record Alert =
  al_id :: string
  al_severity :: AlertSeverity
  al_title :: string
  al_what :: string
  al_why :: string
  al_action :: "(string \<times> string) option"

record AlertMandate =
  am_mandateId :: string
  am_status :: string
  am_expiresAt :: int
  am_agent :: string

record AlertInputs =
  ai_status :: AccountStatus
  ai_debt :: int
  ai_maintenanceLimit :: int
  ai_borrowLimit :: int
  ai_reserved :: int
  ai_riskEpoch :: int
  ai_lastSeenEpoch :: "int option"
  ai_gates :: int
  ai_withdrawableNow :: int
  ai_queuedForWithdrawal :: int
  ai_mandates :: "AlertMandate list"
  ai_now :: int

text \<open>The money texts are the browser's; an ellipsis stands as three full stops.\<close>

definition status_alerts :: "(int \<Rightarrow> string) \<Rightarrow> AlertInputs \<Rightarrow> Alert list" where
  "status_alerts money i =
     (if ai_status i = MARGIN_CALL \<or> ai_status i = LIQUIDATING then
        let shortfall = (if ai_maintenanceLimit i < ai_debt i then ai_debt i - ai_maintenanceLimit i else 0)
        in [\<lparr>al_id = ''margin-call'', al_severity = URGENT,
             al_title = (if ai_status i = LIQUIDATING then ''Your position is being liquidated''
                         else ''Action required on your account''),
             al_what = ''Your debt is $'' @ money shortfall @ '' above the maintenance limit.'',
             al_why = ''Below this limit the protocol will let a liquidator sell part of your collateral to reduce ''
               @ ''the debt. You keep the rest, and you can stop it by repairing the shortfall yourself.'',
             al_action = Some (''Repay $'' @ money shortfall, ''/app/repay'')\<rparr>]
      else if ai_status i = REDUCE_ONLY then
        [\<lparr>al_id = ''reduce-only'', al_severity = WARN, al_title = ''Withdrawal is paused on your account'',
          al_what = ''Your debt is above the level where Usance will let collateral leave.'',
          al_why = ''Repaying or adding collateral restores it. Nothing is being sold and no deadline is running.'',
          al_action = Some (''Add collateral'', ''/app/collateral/add'')\<rparr>]
      else if ai_status i = NO_NEW_RISK then
        [\<lparr>al_id = ''no-new-risk'', al_severity = WARN, al_title = ''New borrowing is paused on your account'',
          al_what = ''Recognised collateral fell, or an input the protocol depends on became untrustworthy.'',
          al_why = ''You can still repay, add collateral and withdraw within the maintenance limit. This is a ''
            @ ''restriction, not a liquidation.'',
          al_action = Some (''See your position'', ''/app/positions'')\<rparr>]
      else [])"

definition gate_alerts :: "AlertInputs \<Rightarrow> Alert list" where
  "gate_alerts i =
     (if ai_gates i \<noteq> 0 then
        [\<lparr>al_id = ''input-gated'', al_severity = WARN, al_title = ''An input the protocol depends on was refused'',
          al_what = ''A price feed, sequencer check or asset status gate is currently failing.'',
          al_why = ''Usance refuses to take on new risk against an input it cannot trust. Every risk-reducing ''
            @ ''action stays open. This usually clears itself when the input recovers.'',
          al_action = Some (''Integration status'', ''/status'')\<rparr>]
      else [])"

definition epoch_alerts :: "AlertInputs \<Rightarrow> Alert list" where
  "epoch_alerts i =
     (case ai_lastSeenEpoch i of
        Some e \<Rightarrow>
          if e < ai_riskEpoch i then
            [\<lparr>al_id = ''epoch-changed'', al_severity = INFO, al_title = ''Risk policy changed since you last looked'',
              al_what = ''The risk epoch moved from '' @ show_int e @ '' to '' @ show_int (ai_riskEpoch i) @ ''.'',
              al_why = ''Any quote you were holding is now refused rather than executed under rules you were never ''
                @ ''shown. Re-open the action to get current numbers.'',
              al_action = Some (''Refresh your position'', ''/app/positions'')\<rparr>]
          else []
      | None \<Rightarrow> [])"

definition capital_alerts :: "(int \<Rightarrow> string) \<Rightarrow> AlertInputs \<Rightarrow> Alert list" where
  "capital_alerts money i =
     (if 0 < ai_reserved i then
        [\<lparr>al_id = ''capital-reserved'', al_severity = INFO, al_title = ''Capital is reserved for an in-flight execution'',
          al_what = ''$'' @ money (ai_reserved i) @ '' is committed and cannot be borrowed against or withdrawn.'',
          al_why = ''It is released when the execution reconciles. A reservation is never released on a timeout ''
            @ ''alone, because a timeout does not prove the execution failed.'',
          al_action = Some (''See your intents'', ''/app/intents'')\<rparr>]
      else [])
     @ (if 0 < ai_withdrawableNow i \<and> 0 < ai_queuedForWithdrawal i then
          [\<lparr>al_id = ''withdrawal-ready'', al_severity = INFO, al_title = ''A queued withdrawal is ready to claim'',
            al_what = ''$'' @ money (ai_withdrawableNow i) @ '' of your queued redemption has been funded.'',
            al_why = ''Queued redemptions are paid in order as capital returns. This one is yours to take.'',
            al_action = Some (''Claim it'', ''/earn/positions'')\<rparr>]
        else [])"

definition EXPIRY_WARNING_SECONDS :: int where "EXPIRY_WARNING_SECONDS = 72 * 3600"

definition mandate_alerts :: "int \<Rightarrow> AlertMandate \<Rightarrow> Alert list" where
  "mandate_alerts now m =
     (if am_status m = ''REVOKED'' then
        [\<lparr>al_id = ''mandate-revoked-'' @ am_mandateId m, al_severity = INFO, al_title = ''A mandate was revoked'',
          al_what = ''The agent '' @ take 10 (am_agent m) @ ''... no longer has authority over your account.'',
          al_why = ''Revocation is permanent. Authorising that agent again needs a new signature.'',
          al_action = Some (''See the mandate'', ''/app/mandates/'' @ am_mandateId m)\<rparr>]
      else
        let remaining = am_expiresAt m - now
        in if am_status m = ''ACTIVE'' \<and> 0 < remaining \<and> remaining < EXPIRY_WARNING_SECONDS then
             [\<lparr>al_id = ''mandate-expiring-'' @ am_mandateId m, al_severity = WARN, al_title = ''A mandate expires soon'',
               al_what = ''Authority for '' @ take 10 (am_agent m) @ ''... ends in ''
                 @ show_int (max 1 ((remaining + 1800) div 3600)) @ '' hours.'',
               al_why = ''When it lapses the agent stops acting. If it was maintaining a safety buffer for you, ''
                 @ ''that stops too - and nothing will warn you again once it has expired.'',
               al_action = Some (''Review it'', ''/app/mandates/'' @ am_mandateId m)\<rparr>]
           else [])"

fun severity_rank :: "AlertSeverity \<Rightarrow> nat" where
  "severity_rank URGENT = 0"
| "severity_rank WARN = 1"
| "severity_rank INFO = 2"

definition alertsFor :: "(int \<Rightarrow> string) \<Rightarrow> AlertInputs \<Rightarrow> Alert list" where
  "alertsFor money i =
     sort_key (\<lambda>a. severity_rank (al_severity a))
       (status_alerts money i @ gate_alerts i @ epoch_alerts i @ capital_alerts money i
        @ concat (map (mandate_alerts (ai_now i)) (ai_mandates i)))"

section \<open>Units\<close>

definition usd18ToToken :: "int \<Rightarrow> nat \<Rightarrow> int" where
  "usd18ToToken usd18 decimals =
     (if 18 \<le> decimals then usd18 * 10 ^ (decimals - 18)
      else let d = 10 ^ (18 - decimals) in (usd18 + d - 1) sdiv d)"

definition tokenToUsd18 :: "int \<Rightarrow> nat \<Rightarrow> int" where
  "tokenToUsd18 amount decimals =
     (if 18 \<le> decimals then amount sdiv 10 ^ (decimals - 18) else amount * 10 ^ (18 - decimals))"

section \<open>The session\<close>

datatype SessionState = SESSION_ACTIVE string | NO_SESSION | SESSION_NO_WALLET | ACCOUNT_CHANGED

text \<open>What the tab stores; an account that is no text has no \<open>toLowerCase\<close>.\<close>

definition recordSession :: "string \<Rightarrow> string option" where "recordSession address = Some (toLowerCase address)"

definition readSession ::
  "window option \<Rightarrow> string option \<Rightarrow> browser \<Rightarrow> (wallet_error + SessionState) \<times> string option \<times> browser" where
  "readSession win stored w =
     (case fst (detectProvider win) of
        None \<Rightarrow> (Inr SESSION_NO_WALLET, stored, w)
      | Some p \<Rightarrow>
          (case (case stored of Some s \<Rightarrow> if s = [] then None else Some s | None \<Rightarrow> None) of
             None \<Rightarrow> (Inr NO_SESSION, stored, w)
           | Some s \<Rightarrow>
               (case request p ''eth_accounts'' [] w of
                  (Inl e, w) \<Rightarrow> (Inr SESSION_NO_WALLET, stored, w)
                | (Inr accounts, w) \<Rightarrow>
                    if accounts = JNull then (Inr SESSION_NO_WALLET, stored, w)
                    else (case first_element accounts of
                        None \<Rightarrow> (Inr NO_SESSION, stored, w)
                      | Some a \<Rightarrow>
                          if \<not> js_truthy a then (Inr NO_SESSION, stored, w)
                          else (case a of
                              JStr account \<Rightarrow>
                                if toLowerCase account \<noteq> s then (Inr ACCOUNT_CHANGED, None, w)
                                else (Inr (SESSION_ACTIVE account), stored, w)
                            | _ \<Rightarrow> (Inl TypeMismatch, stored, w))))))"

definition connectedAccount ::
  "window option \<Rightarrow> string option \<Rightarrow> browser \<Rightarrow> (wallet_error + string option) \<times> string option \<times> browser" where
  "connectedAccount win stored w =
     (case readSession win stored w of
        (Inr (SESSION_ACTIVE a), stored, w) \<Rightarrow> (Inr (Some a), stored, w)
      | (Inr _, stored, w) \<Rightarrow> (Inr None, stored, w)
      | (Inl e, stored, w) \<Rightarrow> (Inl e, stored, w))"

section \<open>The four actions of an account\<close>

record AddQuote =
  aq_clearingHouse :: string
  aq_collateralVault :: string
  aq_token :: string
  aq_assetId :: string
  aq_symbol :: string
  aq_decimals :: nat
  aq_walletBalance :: int
  aq_allowance :: int

definition two_balances :: "chain_views \<Rightarrow> string \<Rightarrow> string \<Rightarrow> string \<Rightarrow> (int \<times> int) reading" where
  "two_balances vw token user spender =
     bindR (vw_uint vw token ''balanceOf'' [ABytes user] None) (\<lambda>balance.
     bindR (vw_uint vw token ''allowance'' [ABytes user, ABytes spender] None) (\<lambda>allowance. Inr (balance, allowance)))"

definition addCollateralQuote :: "ChainConfig \<Rightarrow> deployments \<Rightarrow> chain_views \<Rightarrow> string \<Rightarrow> AddQuote option reading" where
  "addCollateralQuote chain ds vw user =
     (case loadDeployment ds (cc_id chain) of
        None \<Rightarrow> Inr None
      | Some d \<Rightarrow>
          (case dp_assets d of
             [] \<Rightarrow> Inr None
           | asset # _ \<Rightarrow>
               let collateralVault = ct_collateralVault (dp_contracts d)
               in bindR (two_balances vw (da_token asset) user collateralVault) (\<lambda>(walletBalance, allowance).
                    Inr (Some \<lparr>aq_clearingHouse = ct_clearingHouse (dp_contracts d), aq_collateralVault = collateralVault,
                      aq_token = da_token asset, aq_assetId = da_assetId asset, aq_symbol = da_symbol asset,
                      aq_decimals = da_decimals asset, aq_walletBalance = walletBalance, aq_allowance = allowance\<rparr>))))"

record BorrowQuote =
  bq_clearingHouse :: string
  bq_byRisk :: int
  bq_byLiquidity :: int
  bq_limitedByLiquidity :: bool
  bq_debtNow :: int
  bq_borrowLimit :: int
  bq_maintenanceLimit :: int
  bq_rateBps :: "int option"
  bq_epoch :: int
  bq_status :: AccountStatus
  bq_settlementSymbol :: string

definition rate_of :: "chain_views \<Rightarrow> Contracts \<Rightarrow> (int \<times> int) option" where
  "rate_of vw c = (case vw_rate vw (ct_financingEngine c) of
     Inr (_, _, borrowRate, _, protocolShare) \<Rightarrow> Some (borrowRate, protocolShare) | Inl _ \<Rightarrow> None)"

definition borrowQuote :: "ChainConfig \<Rightarrow> deployments \<Rightarrow> chain_views \<Rightarrow> string \<Rightarrow> BorrowQuote option reading" where
  "borrowQuote chain ds vw user =
     (case loadDeployment ds (cc_id chain) of
        None \<Rightarrow> Inr None
      | Some d \<Rightarrow>
          (case loadAccount chain ds vw user of
             ACCOUNT_OK v \<Rightarrow>
               bindR (vw_uint vw (ct_liquidityVault (dp_contracts d)) ''availableCash'' [] None) (\<lambda>cashTokens.
                 let byLiquidity = tokenToUsd18 cashTokens (sa_decimals (dp_settlementAsset d))
                 in Inr (Some \<lparr>bq_clearingHouse = ct_clearingHouse (dp_contracts d), bq_byRisk = av_availableBorrow v,
                      bq_byLiquidity = byLiquidity, bq_limitedByLiquidity = (byLiquidity < av_availableBorrow v),
                      bq_debtNow = av_debt v, bq_borrowLimit = av_borrowLimit v, bq_maintenanceLimit = av_maintenanceLimit v,
                      bq_rateBps = map_option fst (rate_of vw (dp_contracts d)), bq_epoch = av_riskEpoch v,
                      bq_status = av_status v, bq_settlementSymbol = sa_symbol (dp_settlementAsset d)\<rparr>))
           | _ \<Rightarrow> Inr None))"

record RepayQuote =
  rq_clearingHouse :: string
  rq_liquidityVault :: string
  rq_settlementToken :: string
  rq_settlementDecimals :: nat
  rq_settlementSymbol :: string
  rq_debt :: int
  rq_maintenanceLimit :: int
  rq_status :: AccountStatus
  rq_walletBalance :: int
  rq_allowance :: int

definition repayQuote :: "ChainConfig \<Rightarrow> deployments \<Rightarrow> chain_views \<Rightarrow> string \<Rightarrow> RepayQuote option reading" where
  "repayQuote chain ds vw user =
     (case loadDeployment ds (cc_id chain) of
        None \<Rightarrow> Inr None
      | Some d \<Rightarrow>
          (case loadAccount chain ds vw user of
             ACCOUNT_OK v \<Rightarrow>
               let liquidityVault = ct_liquidityVault (dp_contracts d); settlement = dp_settlementAsset d
               in bindR (two_balances vw (sa_token settlement) user liquidityVault) (\<lambda>(walletBalance, allowance).
                    Inr (Some \<lparr>rq_clearingHouse = ct_clearingHouse (dp_contracts d), rq_liquidityVault = liquidityVault,
                      rq_settlementToken = sa_token settlement, rq_settlementDecimals = sa_decimals settlement,
                      rq_settlementSymbol = sa_symbol settlement, rq_debt = av_debt v,
                      rq_maintenanceLimit = av_maintenanceLimit v, rq_status = av_status v,
                      rq_walletBalance = walletBalance, rq_allowance = allowance\<rparr>))
           | _ \<Rightarrow> Inr None))"

record WithdrawQuote =
  wq_clearingHouse :: string
  wq_assetId :: string
  wq_symbol :: string
  wq_decimals :: nat
  wq_deposited :: int
  wq_withdrawable :: int
  wq_debtUsd :: int
  wq_recognizedUsd :: int
  wq_status :: AccountStatus
  wq_epoch :: int
  wq_debtFree :: bool

definition withdrawQuote :: "ChainConfig \<Rightarrow> deployments \<Rightarrow> chain_views \<Rightarrow> string \<Rightarrow> WithdrawQuote option reading" where
  "withdrawQuote chain ds vw user =
     (case loadDeployment ds (cc_id chain) of
        None \<Rightarrow> Inr None
      | Some d \<Rightarrow>
          (case dp_assets d of
             [] \<Rightarrow> Inr None
           | asset # _ \<Rightarrow>
              (case loadAccount chain ds vw user of
                 ACCOUNT_OK v \<Rightarrow>
                   let clearingHouse = ct_clearingHouse (dp_contracts d);
                       held = List.find (\<lambda>a. toLowerCase (pa_assetId a) = toLowerCase (da_assetId asset)) (av_assets v)
                   in bindR (vw_uint vw clearingHouse ''maxWithdrawable'' [ABytes user, ABytes (da_assetId asset)] None) (\<lambda>withdrawable.
                      bindR (vw_uint vw (ct_collateralVault (dp_contracts d)) ''balanceOf'' [ABytes (da_assetId asset), ABytes user] None)
                        (\<lambda>deposited.
                        Inr (Some \<lparr>wq_clearingHouse = clearingHouse, wq_assetId = da_assetId asset, wq_symbol = da_symbol asset,
                          wq_decimals = da_decimals asset, wq_deposited = deposited, wq_withdrawable = withdrawable,
                          wq_debtUsd = av_debt v,
                          wq_recognizedUsd = (case held of Some a \<Rightarrow> pa_recognizedUsd18 a | None \<Rightarrow> 0),
                          wq_status = av_status v, wq_epoch = av_riskEpoch v, wq_debtFree = (av_debt v = 0)\<rparr>)))
               | _ \<Rightarrow> Inr None)))"

section \<open>The lender\<close>

record DepositQuote =
  dq_vault :: string
  dq_settlementToken :: string
  dq_decimals :: nat
  dq_symbol :: string
  dq_walletBalance :: int
  dq_allowance :: int
  dq_previewShares :: "int option"

definition positive :: "int option \<Rightarrow> int option" where
  "positive n = (case n of Some k \<Rightarrow> if 0 < k then Some k else None | None \<Rightarrow> None)"

definition converted :: "chain_views \<Rightarrow> string \<Rightarrow> string \<Rightarrow> int option \<Rightarrow> int option reading" where
  "converted vw vault view n =
     (case positive n of
        None \<Rightarrow> Inr None
      | Some k \<Rightarrow> bindR (vw_uint vw vault view [ABig k] None) (\<lambda>m. Inr (Some m)))"

definition depositQuote :: "ChainConfig \<Rightarrow> deployments \<Rightarrow> chain_views \<Rightarrow> string \<Rightarrow> int option \<Rightarrow> DepositQuote option reading" where
  "depositQuote chain ds vw user amount =
     (case loadDeployment ds (cc_id chain) of
        None \<Rightarrow> Inr None
      | Some d \<Rightarrow>
          let vault = ct_liquidityVault (dp_contracts d); settlement = dp_settlementAsset d
          in bindR (two_balances vw (sa_token settlement) user vault) (\<lambda>(walletBalance, allowance).
             bindR (converted vw vault ''convertToShares'' amount) (\<lambda>previewShares.
               Inr (Some \<lparr>dq_vault = vault, dq_settlementToken = sa_token settlement, dq_decimals = sa_decimals settlement,
                 dq_symbol = sa_symbol settlement, dq_walletBalance = walletBalance, dq_allowance = allowance,
                 dq_previewShares = previewShares\<rparr>))))"

record WithdrawPreview =
  wp_vault :: string
  wp_decimals :: nat
  wp_symbol :: string
  wp_shares :: int
  wp_value :: int
  wp_withdrawableNow :: int
  wp_previewAmount :: "int option"
  wp_mustQueue :: bool

definition shares_and_limit :: "chain_views \<Rightarrow> string \<Rightarrow> string \<Rightarrow> (int \<times> int) reading" where
  "shares_and_limit vw vault user =
     bindR (vw_uint vw vault ''balanceOf'' [ABytes user] None) (\<lambda>shares.
     bindR (vw_uint vw vault ''maxWithdraw'' [ABytes user] None) (\<lambda>withdrawableNow. Inr (shares, withdrawableNow)))"

definition withdrawPreview :: "ChainConfig \<Rightarrow> deployments \<Rightarrow> chain_views \<Rightarrow> string \<Rightarrow> int option \<Rightarrow> WithdrawPreview option reading" where
  "withdrawPreview chain ds vw user shares =
     (case loadDeployment ds (cc_id chain) of
        None \<Rightarrow> Inr None
      | Some d \<Rightarrow>
          let vault = ct_liquidityVault (dp_contracts d)
          in bindR (shares_and_limit vw vault user) (\<lambda>(heldShares, withdrawableNow).
             bindR (converted vw vault ''convertToAssets'' (Some heldShares)) (\<lambda>value.
             bindR (converted vw vault ''convertToAssets'' shares) (\<lambda>previewAmount.
               Inr (Some \<lparr>wp_vault = vault, wp_decimals = sa_decimals (dp_settlementAsset d),
                 wp_symbol = sa_symbol (dp_settlementAsset d), wp_shares = heldShares,
                 wp_value = option_default value 0, wp_withdrawableNow = withdrawableNow, wp_previewAmount = previewAmount,
                 wp_mustQueue = (case previewAmount of None \<Rightarrow> False | Some a \<Rightarrow> withdrawableNow < a)\<rparr>)))))"

section \<open>The vault of the lenders\<close>

record VaultView =
  vv_address :: string
  vv_chainId :: int
  vv_settlementSymbol :: string
  vv_decimals :: int
  vv_totalSupplied :: int
  vv_availableCash :: int
  vv_deployedPrincipal :: int
  vv_accruedReceivables :: int
  vv_reserves :: int
  vv_badDebt :: int
  vv_utilizationBps :: int
  vv_queuedLiabilities :: "int option"
  vv_queuedFunded :: "int option"
  vv_borrowRateBps :: "int option"
  vv_protocolShareBps :: "int option"
  vv_lenderShareBps :: "int option"

text \<open>\<open>Math.round\<close> of a quotient rounds a half up.\<close>

definition round_div :: "int \<Rightarrow> int \<Rightarrow> int" where "round_div a b = (2 * a + b) div (2 * b)"

definition tolerated :: "'a reading \<Rightarrow> 'a option" where
  "tolerated r = (case r of Inl e \<Rightarrow> None | Inr a \<Rightarrow> Some a)"

definition loadVault :: "ChainConfig \<Rightarrow> deployments \<Rightarrow> chain_views \<Rightarrow> VaultView option reading" where
  "loadVault chain ds vw =
     (case loadDeployment ds (cc_id chain) of
        None \<Rightarrow> Inr None
      | Some d \<Rightarrow>
          let vault = ct_liquidityVault (dp_contracts d); read = (\<lambda>view. vw_uint vw vault view [] None);
              rate = rate_of vw (dp_contracts d)
          in bindR (read ''decimals'') (\<lambda>decimals.
             bindR (read ''totalAssets'') (\<lambda>totalSupplied.
             bindR (read ''availableCash'') (\<lambda>availableCash.
             bindR (read ''totalPrincipal'') (\<lambda>deployedPrincipal.
             bindR (read ''accruedReceivables'') (\<lambda>accruedReceivables.
             bindR (read ''reserves'') (\<lambda>reserves.
             bindR (read ''badDebt'') (\<lambda>badDebt.
             bindR (read ''utilizationBps'') (\<lambda>utilizationBps.
               Inr (Some \<lparr>vv_address = vault, vv_chainId = cc_id chain,
                 vv_settlementSymbol = sa_symbol (dp_settlementAsset d), vv_decimals = decimals,
                 vv_totalSupplied = totalSupplied, vv_availableCash = availableCash,
                 vv_deployedPrincipal = deployedPrincipal, vv_accruedReceivables = accruedReceivables,
                 vv_reserves = reserves, vv_badDebt = badDebt, vv_utilizationBps = utilizationBps,
                 vv_queuedLiabilities = tolerated (read ''queuedLiabilities''),
                 vv_queuedFunded = tolerated (read ''queuedFunded''),
                 vv_borrowRateBps = map_option fst rate, vv_protocolShareBps = map_option snd rate,
                 vv_lenderShareBps = map_option (\<lambda>(b, s). round_div (b * (10000 - s)) 10000) rate\<rparr>))))))))))"

record LenderRequest =
  lr_id :: int
  lr_shares :: int
  lr_amount :: int
  lr_funded :: int
  lr_requestedAt :: int
  lr_claimed :: bool
  lr_claimable :: bool

record LenderPosition =
  lp_shares :: int
  lp_value :: int
  lp_withdrawableNow :: int
  lp_requests :: "LenderRequest list"

definition own_request :: "string \<Rightarrow> int \<Rightarrow> string \<times> int \<times> int \<times> int \<times> int \<times> bool \<Rightarrow> LenderRequest list" where
  "own_request account i r =
     (case r of (owner, shares, amount, funded, requestedAt, claimed) \<Rightarrow>
        if toLowerCase owner \<noteq> toLowerCase account then []
        else [\<lparr>lr_id = i, lr_shares = shares, lr_amount = amount, lr_funded = funded, lr_requestedAt = requestedAt,
               lr_claimed = claimed, lr_claimable = (\<not> claimed \<and> amount \<le> funded)\<rparr>])"

definition scan_from :: "int \<Rightarrow> int" where "scan_from nextId = (if 200 < nextId then nextId - 200 else 1)"

definition loadPosition :: "ChainConfig \<Rightarrow> deployments \<Rightarrow> chain_views \<Rightarrow> string \<Rightarrow> LenderPosition option reading" where
  "loadPosition chain ds vw account =
     (case loadDeployment ds (cc_id chain) of
        None \<Rightarrow> Inr None
      | Some d \<Rightarrow>
          let vault = ct_liquidityVault (dp_contracts d)
          in bindR (shares_and_limit vw vault account) (\<lambda>(shares, withdrawableNow).
             bindR (vw_uint vw vault ''nextRequestId'' [] None) (\<lambda>nextId.
             bindR (converted vw vault ''convertToAssets'' (Some shares)) (\<lambda>value.
             bindR (mapR (\<lambda>i. bindR (vw_withdrawalRequest vw vault i) (\<lambda>r. Inr (own_request account i r)))
                      [scan_from nextId .. nextId - 1]) (\<lambda>found.
               Inr (Some \<lparr>lp_shares = shares, lp_value = option_default value 0, lp_withdrawableNow = withdrawableNow,
                 lp_requests = concat found\<rparr>))))))"

section \<open>What a mandate means\<close>

record WebMandateAction =
  wm_bit :: nat
  wm_name :: MandateActionName
  wm_label :: string
  wm_raisesRisk :: bool
  wm_delegable :: bool

definition WEB_MANDATE_ACTIONS :: "WebMandateAction list" where
  "WEB_MANDATE_ACTIONS =
     [\<lparr>wm_bit = 0, wm_name = BORROW, wm_label = ''Borrow against your collateral'', wm_raisesRisk = True, wm_delegable = False\<rparr>,
      \<lparr>wm_bit = 1, wm_name = REPAY_ACTION, wm_label = ''Repay your debt'', wm_raisesRisk = False, wm_delegable = True\<rparr>,
      \<lparr>wm_bit = 2, wm_name = ADD_COLLATERAL_ACTION, wm_label = ''Add collateral to your account'', wm_raisesRisk = False,
        wm_delegable = True\<rparr>,
      \<lparr>wm_bit = 3, wm_name = TRADE_ACTION, wm_label = ''Trade your exposure'', wm_raisesRisk = True, wm_delegable = False\<rparr>,
      \<lparr>wm_bit = 4, wm_name = HEDGE_ACTION, wm_label = ''Open a hedge'', wm_raisesRisk = True, wm_delegable = False\<rparr>,
      \<lparr>wm_bit = 5, wm_name = CLOSE_ACTION, wm_label = ''Close a position'', wm_raisesRisk = False, wm_delegable = False\<rparr>]"

definition actionsOf :: "int \<Rightarrow> WebMandateAction list" where
  "actionsOf bits = filter (\<lambda>a. and bits (push_bit (wm_bit a) 1) \<noteq> 0) WEB_MANDATE_ACTIONS"

definition canIncreaseRisk :: "int \<Rightarrow> bool" where
  "canIncreaseRisk bits \<longleftrightarrow> list_ex wm_raisesRisk (actionsOf bits)"

definition grantedButRefused :: "int \<Rightarrow> WebMandateAction list" where
  "grantedButRefused bits = filter (\<lambda>a. \<not> wm_delegable a) (actionsOf bits)"

definition web_bit :: "MandateActionName \<Rightarrow> nat" where
  "web_bit n = (case List.find (\<lambda>a. wm_name a = n) WEB_MANDATE_ACTIONS of Some a \<Rightarrow> wm_bit a | None \<Rightarrow> 0)"

definition maskFor :: "MandateActionName list \<Rightarrow> int" where
  "maskFor names = foldl (\<lambda>m n. or m (push_bit (web_bit n) 1)) 0 names"

record MandateTemplate =
  mt_id :: string
  mt_actions :: "MandateActionName list"
  mt_raisesRisk :: bool

definition MANDATE_TEMPLATES :: "MandateTemplate list" where
  "MANDATE_TEMPLATES =
     [\<lparr>mt_id = ''safety-buffer'', mt_actions = [REPAY_ACTION, ADD_COLLATERAL_ACTION], mt_raisesRisk = False\<rparr>,
      \<lparr>mt_id = ''auto-repay'', mt_actions = [REPAY_ACTION], mt_raisesRisk = False\<rparr>,
      \<lparr>mt_id = ''top-up'', mt_actions = [ADD_COLLATERAL_ACTION], mt_raisesRisk = False\<rparr>]"

section \<open>Reading a mandate\<close>

record RegisteredMandate =
  rm_owner :: string
  rm_agent :: string
  rm_validFrom :: int
  rm_expiresAt :: int
  rm_maxDebtUsd :: int
  rm_maxTradeNotionalUsd :: int
  rm_maxSlippageBps :: int
  rm_allowedActions :: int
  rm_nonce :: int

record RegisteredState =
  rs_exists :: bool
  rs_revoked :: bool
  rs_ownerPaused :: bool
  rs_guardianPaused :: bool
  rs_debtDrawnUsd18 :: int
  rs_notionalTradedUsd18 :: int

text \<open>The views of the two registries, by their address and the identifier.\<close>

record RawInstance =
  ri_owner :: string
  ri_account :: string
  ri_templateId :: string
  ri_templateVersion :: int
  ri_manifestHash :: string
  ri_agentExecutor :: string
  ri_mandateId :: string
  ri_configHash :: string
  ri_status :: nat
  ri_pausedByGuardian :: bool
  ri_createdAt :: int

record registry_views =
  rv_getMandate :: "string \<Rightarrow> string \<Rightarrow> RegisteredMandate reading"
  rv_getState :: "string \<Rightarrow> string \<Rightarrow> RegisteredState reading"
  rv_domainSeparator :: "string \<Rightarrow> string reading"
  rv_getInstance :: "string \<Rightarrow> string \<Rightarrow> RawInstance reading"
  rv_nonce :: "string \<Rightarrow> string \<Rightarrow> int reading"

datatype WebMandateStatus = WM_ACTIVE | WM_PAUSED | WM_REVOKED | WM_EXPIRED

record MandateDetail =
  md_mandateId :: string
  md_owner :: string
  md_agent :: string
  md_nonce :: string
  md_validFrom :: int
  md_expiresAt :: int
  md_maxDebtUsd :: string
  md_maxTradeNotionalUsd :: string
  md_maxSlippageBps :: int
  md_allowedActions :: int
  md_debtDrawnUsd18 :: string
  md_notionalTradedUsd18 :: string
  md_status :: WebMandateStatus
  md_registry :: string
  md_domainSeparator :: string

datatype 'a lookup = FOUND 'a | NOT_FOUND | UNREADABLE string

definition nonempty :: "string option \<Rightarrow> string option" where
  "nonempty s = (case s of Some t \<Rightarrow> if t = [] then None else Some t | None \<Rightarrow> None)"

definition reason_of :: "string \<Rightarrow> string" where
  "reason_of m = (if m = [] then ''The registry could not be reached.'' else m)"

definition mandate_status :: "RegisteredMandate \<Rightarrow> RegisteredState \<Rightarrow> int \<Rightarrow> WebMandateStatus" where
  "mandate_status m s now =
     (if rs_revoked s then WM_REVOKED
      else if rm_expiresAt m \<le> now then WM_EXPIRED
      else if rs_ownerPaused s \<or> rs_guardianPaused s then WM_PAUSED else WM_ACTIVE)"

definition loadMandate ::
  "(int \<Rightarrow> string) \<Rightarrow> ChainConfig \<Rightarrow> deployments \<Rightarrow> registry_views \<Rightarrow> int \<Rightarrow> string \<Rightarrow> MandateDetail lookup" where
  "loadMandate money chain ds rv now mandateId =
     (if \<not> hex32Schema mandateId then NOT_FOUND
      else case nonempty (Option.bind (loadDeployment ds (cc_id chain)) (\<lambda>d. ct_mandateRegistry (dp_contracts d))) of
        None \<Rightarrow> UNREADABLE ''No MandateRegistry is deployed on this network.''
      | Some registry \<Rightarrow>
          (case bindR (rv_getMandate rv registry mandateId) (\<lambda>m.
                bindR (rv_getState rv registry mandateId) (\<lambda>s.
                bindR (rv_domainSeparator rv registry) (\<lambda>sep. Inr (m, s, sep)))) of
             Inl e \<Rightarrow> UNREADABLE (reason_of e)
           | Inr (m, s, sep) \<Rightarrow>
               if \<not> rs_exists s then NOT_FOUND
               else FOUND \<lparr>md_mandateId = mandateId, md_owner = rm_owner m, md_agent = rm_agent m,
                 md_nonce = show_int (rm_nonce m), md_validFrom = rm_validFrom m, md_expiresAt = rm_expiresAt m,
                 md_maxDebtUsd = money (rm_maxDebtUsd m), md_maxTradeNotionalUsd = money (rm_maxTradeNotionalUsd m),
                 md_maxSlippageBps = rm_maxSlippageBps m, md_allowedActions = rm_allowedActions m,
                 md_debtDrawnUsd18 = money (rs_debtDrawnUsd18 s), md_notionalTradedUsd18 = money (rs_notionalTradedUsd18 s),
                 md_status = mandate_status m s now, md_registry = registry, md_domainSeparator = sep\<rparr>))"

section \<open>Signing a mandate\<close>

definition EIP712_DOMAIN_NAME :: string where "EIP712_DOMAIN_NAME = ''Usance Mandate''"
definition EIP712_DOMAIN_VERSION :: string where "EIP712_DOMAIN_VERSION = ''1''"

definition MANDATE_TYPES :: "(string \<times> string) list" where
  "MANDATE_TYPES =
     [(''owner'', ''address''), (''agent'', ''address''), (''accountId'', ''bytes32''), (''validFrom'', ''uint64''),
      (''expiresAt'', ''uint64''), (''maxDebtUsd'', ''uint256''), (''maxTradeNotionalUsd'', ''uint256''),
      (''maxEffectiveLeverageBps'', ''uint16''), (''maxSlippageBps'', ''uint16''), (''allowedActions'', ''uint16''),
      (''requiredPassportFreshness'', ''uint64''), (''allowedAssetsRoot'', ''bytes32''), (''allowedVenuesRoot'', ''bytes32''),
      (''nonce'', ''uint256'')]"

record MandateDraft =
  mr_owner :: string
  mr_agent :: string
  mr_accountId :: string
  mr_validFrom :: int
  mr_expiresAt :: int
  mr_maxDebtUsd :: int
  mr_maxTradeNotionalUsd :: int
  mr_maxEffectiveLeverageBps :: int
  mr_maxSlippageBps :: int
  mr_allowedActions :: int
  mr_requiredPassportFreshness :: int
  mr_allowedAssetsRoot :: string
  mr_allowedVenuesRoot :: string
  mr_nonce :: int

definition draftFrom ::
  "string \<Rightarrow> string \<Rightarrow> string \<Rightarrow> MandateActionName list \<Rightarrow> int \<Rightarrow> int \<Rightarrow> string \<Rightarrow> int \<Rightarrow> MandateDraft" where
  "draftFrom owner agent accountId actions maxDebtUsd durationDays assetsRoot now =
     \<lparr>mr_owner = owner, mr_agent = agent, mr_accountId = accountId, mr_validFrom = now - 60,
      mr_expiresAt = now + durationDays * 86400, mr_maxDebtUsd = maxDebtUsd, mr_maxTradeNotionalUsd = 0,
      mr_maxEffectiveLeverageBps = 30000, mr_maxSlippageBps = 50, mr_allowedActions = maskFor actions,
      mr_requiredPassportFreshness = 7 * 86400, mr_allowedAssetsRoot = assetsRoot, mr_allowedVenuesRoot = assetsRoot,
      mr_nonce = now\<rparr>"

definition typed_fields :: "(string \<times> string) list \<Rightarrow> json" where
  "typed_fields fs = JArr (map (\<lambda>(n, t). JObj [(''name'', JStr n), (''type'', JStr t)]) fs)"

definition draft_message :: "MandateDraft \<Rightarrow> json" where
  "draft_message d = JObj
     [(''owner'', JStr (mr_owner d)), (''agent'', JStr (mr_agent d)), (''accountId'', JStr (mr_accountId d)),
      (''validFrom'', JNum (mr_validFrom d)), (''expiresAt'', JNum (mr_expiresAt d)),
      (''maxDebtUsd'', JStr (show_int (mr_maxDebtUsd d))), (''maxTradeNotionalUsd'', JStr (show_int (mr_maxTradeNotionalUsd d))),
      (''maxEffectiveLeverageBps'', JNum (mr_maxEffectiveLeverageBps d)), (''maxSlippageBps'', JNum (mr_maxSlippageBps d)),
      (''allowedActions'', JNum (mr_allowedActions d)),
      (''requiredPassportFreshness'', JNum (mr_requiredPassportFreshness d)),
      (''allowedAssetsRoot'', JStr (mr_allowedAssetsRoot d)), (''allowedVenuesRoot'', JStr (mr_allowedVenuesRoot d)),
      (''nonce'', JStr (show_int (mr_nonce d)))]"

definition mandate_payload :: "MandateDraft \<Rightarrow> int \<Rightarrow> string \<Rightarrow> json" where
  "mandate_payload d chainId verifyingContract = JObj
     [(''types'', JObj
        [(''EIP712Domain'', typed_fields [(''name'', ''string''), (''version'', ''string''), (''chainId'', ''uint256''),
            (''verifyingContract'', ''address'')]),
         (''Mandate'', typed_fields MANDATE_TYPES)]),
      (''primaryType'', JStr ''Mandate''),
      (''domain'', JObj [(''name'', JStr EIP712_DOMAIN_NAME), (''version'', JStr EIP712_DOMAIN_VERSION),
         (''chainId'', JNum chainId), (''verifyingContract'', JStr verifyingContract)]),
      (''message'', draft_message d)]"

fun text_contains :: "string \<Rightarrow> string \<Rightarrow> bool" where
  "text_contains t [] \<longleftrightarrow> t = []"
| "text_contains t (c # s) \<longleftrightarrow> take (length t) (c # s) = t \<or> text_contains t s"

definition message_text :: "json \<Rightarrow> string" where
  "message_text e = (case json_field ''message'' e of None \<Rightarrow> [] | Some JNull \<Rightarrow> [] | Some m \<Rightarrow> js_string m)"

definition isRejection :: "json \<Rightarrow> bool" where
  "isRejection e \<longleftrightarrow> json_field ''code'' e = Some (JNum 4001)
     \<or> text_contains ''user rejected'' (toLowerCase (message_text e))
     \<or> text_contains ''user denied'' (toLowerCase (message_text e))"

datatype sign_error = NoWalletConnected | SignatureRejected | Rethrown json

definition signMandate ::
  "ChainConfig \<Rightarrow> window option \<Rightarrow> MandateDraft \<Rightarrow> string \<Rightarrow> browser \<Rightarrow> (sign_error + json) \<times> browser" where
  "signMandate chain win draft verifyingContract w =
     (case fst (detectProvider win) of
        None \<Rightarrow> (Inl NoWalletConnected, w)
      | Some p \<Rightarrow>
          (case request p ''eth_signTypedData_v4''
                  [JStr (mr_owner draft), JStr (JSON_stringify (mandate_payload draft (cc_id chain) verifyingContract))] w of
             (Inl e, w) \<Rightarrow> (Inl (if isRejection e then SignatureRejected else Rethrown e), w)
           | (Inr s, w) \<Rightarrow> (Inr s, w)))"

section \<open>Reading a Sentinel\<close>

datatype InstanceStatus = REGISTERED | INSTANCE_PAUSED | INSTANCE_REVOKED

definition instance_status_at :: "nat \<Rightarrow> InstanceStatus" where
  "instance_status_at i = (case i of 0 \<Rightarrow> REGISTERED | Suc 0 \<Rightarrow> INSTANCE_PAUSED | Suc (Suc 0) \<Rightarrow> INSTANCE_REVOKED | _ \<Rightarrow> REGISTERED)"

record InstanceDetail =
  id_instanceId :: string
  id_owner :: string
  id_account :: string
  id_templateId :: string
  id_templateVersion :: int
  id_manifestHash :: string
  id_agentExecutor :: string
  id_mandateId :: string
  id_configHash :: string
  id_status :: InstanceStatus
  id_pausedByGuardian :: bool
  id_createdAt :: int
  id_registry :: string

definition project_instance :: "string \<Rightarrow> RawInstance \<Rightarrow> string \<Rightarrow> InstanceDetail" where
  "project_instance instanceId i registry =
     \<lparr>id_instanceId = instanceId, id_owner = ri_owner i, id_account = ri_account i, id_templateId = ri_templateId i,
      id_templateVersion = ri_templateVersion i, id_manifestHash = ri_manifestHash i,
      id_agentExecutor = ri_agentExecutor i, id_mandateId = ri_mandateId i, id_configHash = ri_configHash i,
      id_status = instance_status_at (ri_status i), id_pausedByGuardian = ri_pausedByGuardian i,
      id_createdAt = ri_createdAt i, id_registry = registry\<rparr>"

definition registryAddress :: "ChainConfig \<Rightarrow> deployments \<Rightarrow> string option" where
  "registryAddress chain ds = Option.bind (loadDeployment ds (cc_id chain)) (\<lambda>d. ct_sentinelInstanceRegistry (dp_contracts d))"

definition no_instance_registry :: string where
  "no_instance_registry = ''No SentinelInstanceRegistry is deployed on this network.''"

definition loadInstance :: "ChainConfig \<Rightarrow> deployments \<Rightarrow> registry_views \<Rightarrow> string \<Rightarrow> InstanceDetail lookup" where
  "loadInstance chain ds rv instanceId =
     (if \<not> hex32Schema instanceId then NOT_FOUND
      else case nonempty (registryAddress chain ds) of
        None \<Rightarrow> UNREADABLE no_instance_registry
      | Some registry \<Rightarrow>
          (case rv_getInstance rv registry instanceId of
             Inr i \<Rightarrow> FOUND (project_instance instanceId i registry)
           | Inl e \<Rightarrow> if text_contains ''UnknownInstance'' e then NOT_FOUND else UNREADABLE (reason_of e)))"

text \<open>The identifier the contract derives: the hash of the encoded tag, owner and nonce, both of the viem package.\<close>

definition instanceIdFor :: "(string \<Rightarrow> string) \<Rightarrow> (abi_word list \<Rightarrow> string) \<Rightarrow> string \<Rightarrow> int \<Rightarrow> string" where
  "instanceIdFor keccak encode owner nonce = keccak (encode [ABytes ''USANCE_SENTINEL_V1'', ABytes owner, ABig nonce])"

definition listInstances ::
  "(string \<Rightarrow> string) \<Rightarrow> (abi_word list \<Rightarrow> string) \<Rightarrow> ChainConfig \<Rightarrow> deployments \<Rightarrow> registry_views \<Rightarrow> string \<Rightarrow>
   string + InstanceDetail list" where
  "listInstances keccak encode chain ds rv owner =
     (case nonempty (registryAddress chain ds) of
        None \<Rightarrow> Inl no_instance_registry
      | Some registry \<Rightarrow>
          (case rv_nonce rv registry owner of
             Inl e \<Rightarrow> Inl (reason_of e)
           | Inr many \<Rightarrow>
               Inr (rev (List.map_filter (\<lambda>n. let i = instanceIdFor keccak encode owner n
                      in map_option (\<lambda>r. project_instance i r registry) (tolerated (rv_getInstance rv registry i)))
                    [0 .. many - 1]))))"

end
