(* ===== verification/Account_Properties.thy ===== *)
theory Account_Properties
  imports Account_Views
begin

text \<open>
  What the account views promise: quotes against the risk pipeline and the wallet's decimals, the vocabulary of mandates
  against the schemas, the lender's view of the withdrawal queue, readings that fail, alerts, and the session.
\<close>

section \<open>Quotes against the risk pipeline\<close>

lemma rank_of_statuses: "indexOf s ACCOUNT_STATUS < indexOf t ACCOUNT_STATUS \<longleftrightarrow> s < t"
  by (simp add: less_AccountStatus_def)

lemma statusMax_pair: "statusMax [s, t] = max s t"
  by (cases s; cases t) (simp_all add: statusMax_def ACCOUNT_STATUS_def max_def less_eq_AccountStatus_def)

lemma projectStatus_pipeline: "projectStatus debt b m l least = statusMax [baseStatus debt b m l, least]"
  unfolding projectStatus_def baseStatus_def [symmetric] Let_def rank_of_statuses statusMax_pair
  by (auto simp: max_def)

lemma quoteFor_fields:
  assumes "quoteFor env ds vw now account action amount asset = Inr q"
  shows "\<exists>chain d r vs.
     activeChain env = Inr chain \<and> loadDeployment ds (cc_id chain) = Some d
     \<and> vw_accountHealth vw (ct_clearingHouse (dp_contracts d)) account None = Inr (r, vs)
     \<and> vw_uint vw (ct_riskPolicyRegistry (dp_contracts d)) ''riskEpoch'' [] None = Inr (qt_riskEpoch q)
     \<and> qt_statusBefore q = status_at (ah_status r)
     \<and> qt_debtBefore q = ah_debtUsd18 r
     \<and> qt_debtAfter q = (case action of Q_BORROW \<Rightarrow> ah_debtUsd18 r + amount
          | Q_REPAY \<Rightarrow> max 0 (ah_debtUsd18 r - amount) | _ \<Rightarrow> ah_debtUsd18 r)
     \<and> qt_statusAfter q = statusMax [baseStatus (qt_debtAfter q) (ah_borrowLimitUsd18 r) (ah_maintenanceLimitUsd18 r)
          (ah_liquidationLimitUsd18 r), qt_statusBefore q]
     \<and> qt_availableBorrowAfter q = max 0 (ah_borrowLimitUsd18 r - qt_debtAfter q)
     \<and> qt_recognisedBefore q = ah_totalRecognizedUsd18 r
     \<and> qt_recognisedAfter q = (case action of Q_ADD_COLLATERAL \<Rightarrow> ah_totalRecognizedUsd18 r + amount
          | Q_WITHDRAW \<Rightarrow> max 0 (ah_totalRecognizedUsd18 r - amount) | _ \<Rightarrow> ah_totalRecognizedUsd18 r)
     \<and> qt_createdAt q = now \<and> qt_expiresAt q = now + QUOTE_TTL_SECONDS"
  using assms
  by (cases action)
    (auto simp: quoteFor_def Let_def projectStatus_pipeline max_def split: sum.splits js_error.splits option.splits prod.splits)


lemma invalid_reason_iff: "quoteInvalidReason q e t = None \<longleftrightarrow> quoteIsValid q e t"
  by (auto simp: quoteInvalidReason_def quoteIsValid_def)

section \<open>The two copies of the mandate vocabulary\<close>

definition without_label :: "WebMandateAction \<Rightarrow> MandateAction" where
  "without_label a = mandate_action (wm_bit a) (wm_name a) (wm_raisesRisk a) (wm_delegable a)"

lemma web_table: "map without_label WEB_MANDATE_ACTIONS = MANDATE_ACTIONS"
  by (simp add: WEB_MANDATE_ACTIONS_def MANDATE_ACTIONS_def without_label_def)

lemma web_bits: "web_bit n = ma_bit (ACTION_BY_NAME n)"
  by (cases n) (simp_all add: web_bit_def WEB_MANDATE_ACTIONS_def ACTION_BY_NAME_def MANDATE_ACTIONS_def mandate_action_def)

lemma web_mask: "maskFor names = maskForActions names"
  by (simp add: maskFor_def maskForActions_def mask_bit_def web_bits)

lemma web_actions: "map without_label (actionsOf bits) = actionsInMask bits"
  unfolding actionsOf_def actionsInMask_def web_table [symmetric] filter_map
  by (rule arg_cong [of _ _ "map without_label"], rule filter_cong)
    (simp_all add: in_mask_def mask_bit_def without_label_def mandate_action_def)

section \<open>Lookups\<close>

lemma mapR_concat:
  "mapR (\<lambda>i. bindR (f i) (\<lambda>r. Inr (g i r))) xs = Inr found \<Longrightarrow>
     list_all2 (\<lambda>i l. \<exists>r. f i = Inr r \<and> l = g i r) xs found"
proof (induction xs arbitrary: found)
  case (Cons x xs)
  then obtain r fs where "f x = Inr r" "mapR (\<lambda>i. bindR (f i) (\<lambda>r. Inr (g i r))) xs = Inr fs" "found = g x r # fs"
    by (auto elim!: bindR_InrE)
  then show ?case using Cons.IH by auto
qed simp

lemma own_request_id: "l \<in> set (own_request account i r) \<Longrightarrow> lr_id l = i"
  by (auto simp: own_request_def split: prod.splits if_splits)

lemma concat_ids:
  assumes "list_all2 (\<lambda>i l. \<exists>r. f i = Inr r \<and> l = own_request account i r) is found"
  shows "map lr_id (concat found) = filter (\<lambda>i. \<exists>o' rest. f i = Inr (o', rest) \<and> toLowerCase o' = toLowerCase account) is"
  using assms
  by (induction rule: list_all2_induct) (auto simp: own_request_def split: prod.splits)

definition mandate_registry :: "ChainConfig \<Rightarrow> deployments \<Rightarrow> string option" where
  "mandate_registry chain ds = nonempty (Option.bind (loadDeployment ds (cc_id chain)) (\<lambda>d. ct_mandateRegistry (dp_contracts d)))"

lemma mandate_lookup:
  assumes "hex32Schema i"
  shows "(loadMandate money chain ds rv now i = NOT_FOUND \<longleftrightarrow>
      (\<exists>g m s sep. mandate_registry chain ds = Some g \<and> rv_getMandate rv g i = Inr m \<and> rv_getState rv g i = Inr s
         \<and> rv_domainSeparator rv g = Inr sep \<and> \<not> rs_exists s))
    \<and> (\<forall>d. loadMandate money chain ds rv now i = FOUND d \<longrightarrow>
        (\<exists>g m s. mandate_registry chain ds = Some g \<and> rv_getMandate rv g i = Inr m \<and> rv_getState rv g i = Inr s \<and> rs_exists s
          \<and> md_status d = mandate_status m s now \<and> md_allowedActions d = rm_allowedActions m))"
proof (cases "mandate_registry chain ds")
  case None
  then show ?thesis using assms by (simp add: loadMandate_def mandate_registry_def)
next
  case (Some g)
  have "loadMandate money chain ds rv now i = NOT_FOUND \<longleftrightarrow>
      (\<exists>m s sep. rv_getMandate rv g i = Inr m \<and> rv_getState rv g i = Inr s \<and> rv_domainSeparator rv g = Inr sep \<and> \<not> rs_exists s)"
    using assms Some
    by (cases "rv_getMandate rv g i"; cases "rv_getState rv g i"; cases "rv_domainSeparator rv g")
      (simp_all add: loadMandate_def mandate_registry_def)
  moreover have "\<exists>m s. rv_getMandate rv g i = Inr m \<and> rv_getState rv g i = Inr s \<and> rs_exists s
      \<and> md_status d = mandate_status m s now \<and> md_allowedActions d = rm_allowedActions m"
    if "loadMandate money chain ds rv now i = FOUND d" for d
    using that assms Some
    by (cases "rv_getMandate rv g i"; cases "rv_getState rv g i"; cases "rv_domainSeparator rv g")
      (auto simp: loadMandate_def mandate_registry_def split: if_splits)
  ultimately show ?thesis using Some by simp
qed

lemma instance_lookup:
  assumes "hex32Schema i"
  shows "loadInstance chain ds rv i = NOT_FOUND \<longleftrightarrow>
      (\<exists>g e. nonempty (registryAddress chain ds) = Some g \<and> rv_getInstance rv g i = Inl e \<and> text_contains ''UnknownInstance'' e)"
  using assms by (auto simp: loadInstance_def split: option.splits sum.splits)

section \<open>Properties\<close>

text \<open>
  C21: A preview of a debt follows the risk pipeline. The debt after a loan is the chain's debt and the
  amount, after a repayment the rest of it, and after any other action the chain's debt; the status a
  quote projects is the one the pipeline's ladder gives for that debt under the limits read from the chain, and
  never below the status the chain reports, so a gate the preview cannot see is not hidden by it; what can
  still be borrowed is the rest of the borrow limit. Collateral added or withdrawn moves the recognised value
  shown and nothing else: the limits stay those read, so the status and the credit shown for a withdrawal
  are those before it. The quote is good exactly for the epoch it was read under and for thirty seconds,
  and a quote that is not says why.
\<close>

theorem quote_follows_pipeline:
  assumes "quoteFor env ds vw now account action amount asset = Inr q"
  shows "qt_statusBefore q \<le> qt_statusAfter q
    \<and> (\<exists>chain d r vs. activeChain env = Inr chain \<and> loadDeployment ds (cc_id chain) = Some d
        \<and> vw_accountHealth vw (ct_clearingHouse (dp_contracts d)) account None = Inr (r, vs)
        \<and> qt_debtBefore q = ah_debtUsd18 r \<and> qt_recognisedBefore q = ah_totalRecognizedUsd18 r
        \<and> qt_debtAfter q = (case action of Q_BORROW \<Rightarrow> ah_debtUsd18 r + amount
             | Q_REPAY \<Rightarrow> max 0 (ah_debtUsd18 r - amount) | _ \<Rightarrow> ah_debtUsd18 r)
        \<and> qt_recognisedAfter q = (case action of Q_ADD_COLLATERAL \<Rightarrow> ah_totalRecognizedUsd18 r + amount
             | Q_WITHDRAW \<Rightarrow> max 0 (ah_totalRecognizedUsd18 r - amount) | _ \<Rightarrow> ah_totalRecognizedUsd18 r)
        \<and> qt_availableBorrowAfter q = max 0 (ah_borrowLimitUsd18 r - qt_debtAfter q)
        \<and> qt_statusBefore q = status_at (ah_status r)
        \<and> qt_statusAfter q = statusMax [baseStatus (qt_debtAfter q) (ah_borrowLimitUsd18 r) (ah_maintenanceLimitUsd18 r)
             (ah_liquidationLimitUsd18 r), qt_statusBefore q]
        \<and> (quoteIsValid q e t \<longleftrightarrow>
             vw_uint vw (ct_riskPolicyRegistry (dp_contracts d)) ''riskEpoch'' [] None = Inr e \<and> t < now + 30))
    \<and> (quoteInvalidReason q e t = None \<longleftrightarrow> quoteIsValid q e t)"
proof -
  from quoteFor_fields [OF assms] obtain chain d r vs where
    f: "activeChain env = Inr chain" "loadDeployment ds (cc_id chain) = Some d"
      "vw_accountHealth vw (ct_clearingHouse (dp_contracts d)) account None = Inr (r, vs)"
      "vw_uint vw (ct_riskPolicyRegistry (dp_contracts d)) ''riskEpoch'' [] None = Inr (qt_riskEpoch q)"
      "qt_statusBefore q = status_at (ah_status r)"
      "qt_statusAfter q = statusMax [baseStatus (qt_debtAfter q) (ah_borrowLimitUsd18 r) (ah_maintenanceLimitUsd18 r)
         (ah_liquidationLimitUsd18 r), qt_statusBefore q]"
      "qt_expiresAt q = now + QUOTE_TTL_SECONDS"
    and g: "qt_debtBefore q = ah_debtUsd18 r" "qt_recognisedBefore q = ah_totalRecognizedUsd18 r"
      "qt_debtAfter q = (case action of Q_BORROW \<Rightarrow> ah_debtUsd18 r + amount
         | Q_REPAY \<Rightarrow> max 0 (ah_debtUsd18 r - amount) | _ \<Rightarrow> ah_debtUsd18 r)"
      "qt_recognisedAfter q = (case action of Q_ADD_COLLATERAL \<Rightarrow> ah_totalRecognizedUsd18 r + amount
         | Q_WITHDRAW \<Rightarrow> max 0 (ah_totalRecognizedUsd18 r - amount) | _ \<Rightarrow> ah_totalRecognizedUsd18 r)"
      "qt_availableBorrowAfter q = max 0 (ah_borrowLimitUsd18 r - qt_debtAfter q)" by blast
  have "qt_statusBefore q \<le> qt_statusAfter q" using f(6) by (simp add: statusMax_pair)
  moreover have "quoteIsValid q e t \<longleftrightarrow>
      vw_uint vw (ct_riskPolicyRegistry (dp_contracts d)) ''riskEpoch'' [] None = Inr e \<and> t < now + 30"
    using f(4,7) by (auto simp: quoteIsValid_def QUOTE_TTL_SECONDS_def)
  ultimately show ?thesis
    using f(1-3,5,6) g invalid_reason_iff by (intro conjI exI [of _ chain] exI [of _ d] exI [of _ r] exI [of _ vs])
qed

text \<open>
  An approval is never one unit short. A number of tokens is worth at least an amount exactly when it is at
  least the amount's rescaling to tokens, at every number of decimals: the rescaling is the least that suffices.
\<close>

theorem approval_never_short:
  assumes "0 \<le> usd18" "0 \<le> tokens"
  shows "usd18ToToken usd18 decimals \<le> tokens \<longleftrightarrow> usd18 \<le> tokenToUsd18 tokens decimals"
proof (cases "18 \<le> decimals")
  case True
  then show ?thesis using assms
    by (simp add: usd18ToToken_def tokenToUsd18_def sdiv_nonneg le_div_iff_mult)
next
  case False
  define D :: int where "D = 10 ^ (18 - decimals)"
  have D: "0 < D" by (simp add: D_def)
  have "\<not> (tokens + 1) * D \<le> usd18 + D - 1 \<longleftrightarrow> usd18 \<le> tokens * D" by (auto simp: algebra_simps)
  moreover have "tokens + 1 \<le> (usd18 + D - 1) div D \<longleftrightarrow> (tokens + 1) * D \<le> usd18 + D - 1" using D by (rule le_div_iff_mult)
  moreover have "x \<le> tokens \<longleftrightarrow> \<not> tokens + 1 \<le> x" for x by auto
  ultimately have "(usd18 + D - 1) div D \<le> tokens \<longleftrightarrow> usd18 \<le> tokens * D" by blast
  then show ?thesis using False assms D
    by (simp add: usd18ToToken_def tokenToUsd18_def sdiv_nonneg D_def [symmetric] Let_def)
qed

text \<open>
  The two copies of the mandate vocabulary are one. The table the application shows is the canonical one
  with labels: names give the same mask, a mask the same actions in the same order, and what raises
  risk or is granted and still refused is decided alike.
\<close>

theorem web_vocabulary_agrees:
  "maskFor names = maskForActions names
   \<and> map without_label (actionsOf bits) = actionsInMask bits
   \<and> canIncreaseRisk bits = maskRaisesRisk bits
   \<and> map without_label (grantedButRefused bits) = filter (\<lambda>a. \<not> ma_delegable a) (actionsInMask bits)"
proof (intro conjI)
  show "maskFor names = maskForActions names" by (rule web_mask)
  show "map without_label (actionsOf bits) = actionsInMask bits" by (rule web_actions)
  have "list_ex wm_raisesRisk xs = list_ex ma_raisesRisk (map without_label xs)" for xs
    by (simp add: list_ex_iff without_label_def mandate_action_def)
  then show "canIncreaseRisk bits = maskRaisesRisk bits"
    by (simp add: canIncreaseRisk_def maskRaisesRisk_def web_actions)
  have "map without_label (filter (\<lambda>a. \<not> wm_delegable a) xs) = filter (\<lambda>a. \<not> ma_delegable a) (map without_label xs)" for xs
    by (simp add: filter_map comp_def without_label_def mandate_action_def)
  then show "map without_label (grantedButRefused bits) = filter (\<lambda>a. \<not> ma_delegable a) (actionsInMask bits)"
    by (simp add: grantedButRefused_def web_actions)
qed

text \<open>
  A lender sees the own requests. The position lists exactly the requests of the scanned window that
  belong to the account, in order and once each, and a request is claimable exactly when it is unclaimed and funded
  in full.
\<close>

theorem lender_sees_own_requests:
  assumes "loadPosition chain ds vw account = Inr (Some p)"
  shows "\<exists>d n. loadDeployment ds (cc_id chain) = Some d
     \<and> vw_uint vw (ct_liquidityVault (dp_contracts d)) ''nextRequestId'' [] None = Inr n
     \<and> map lr_id (lp_requests p) = filter (\<lambda>i. \<exists>o' rest.
          vw_withdrawalRequest vw (ct_liquidityVault (dp_contracts d)) i = Inr (o', rest)
          \<and> toLowerCase o' = toLowerCase account) [scan_from n .. n - 1]
     \<and> list_all (\<lambda>r. lr_claimable r \<longleftrightarrow> \<not> lr_claimed r \<and> lr_amount r \<le> lr_funded r) (lp_requests p)"
proof -
  obtain d where d: "loadDeployment ds (cc_id chain) = Some d"
    using assms by (auto simp: loadPosition_def split: option.splits)
  let ?v = "ct_liquidityVault (dp_contracts d)"
  obtain n found where n: "vw_uint vw ?v ''nextRequestId'' [] None = Inr n"
    and f: "mapR (\<lambda>i. bindR (vw_withdrawalRequest vw ?v i) (\<lambda>r. Inr (own_request account i r))) [scan_from n .. n - 1] = Inr found"
    and p: "lp_requests p = concat found"
    using assms d by (auto simp: loadPosition_def Let_def elim!: bindR_InrE split: prod.splits)
  note l = mapR_concat [OF f]
  have "list_all (\<lambda>r. lr_claimable r \<longleftrightarrow> \<not> lr_claimed r \<and> lr_amount r \<le> lr_funded r) (concat found)"
    using l by (induction rule: list_all2_induct) (auto simp: own_request_def split: prod.splits)
  then show ?thesis using d n p concat_ids [OF l] by auto
qed

text \<open>
  C35: What cannot be read is not missing. A mandate or a Sentinel is reported as not found only for an
  identifier that is none, or on the registry's own word; a registry that does not answer or is not
  deployed is reported as unreadable, and what is found carries the registry's state, revocation before
  expiry before a pause.
\<close>

theorem unreadable_is_not_missing:
  assumes "hex32Schema i"
  shows "(loadMandate money chain ds rv now i = NOT_FOUND \<longleftrightarrow>
      (\<exists>g m s sep. mandate_registry chain ds = Some g \<and> rv_getMandate rv g i = Inr m \<and> rv_getState rv g i = Inr s \<and> rv_domainSeparator rv g = Inr sep \<and> \<not> rs_exists s))
    \<and> (\<forall>d. loadMandate money chain ds rv now i = FOUND d \<longrightarrow>
        (\<exists>g m s. mandate_registry chain ds = Some g \<and> rv_getMandate rv g i = Inr m \<and> rv_getState rv g i = Inr s \<and> rs_exists s
          \<and> md_status d = mandate_status m s now \<and> md_allowedActions d = rm_allowedActions m))
    \<and> (loadInstance chain ds rv i = NOT_FOUND \<longleftrightarrow>
      (\<exists>g e. nonempty (registryAddress chain ds) = Some g \<and> rv_getInstance rv g i = Inl e \<and> text_contains ''UnknownInstance'' e))"
  using mandate_lookup [OF assms, of money chain ds rv now] instance_lookup [OF assms, of chain ds rv]
  by (intro conjI) blast+

lemma alerts_set: "set (alertsFor money i) = set (status_alerts money i) \<union> set (gate_alerts i) \<union> set (epoch_alerts i)
    \<union> set (capital_alerts money i) \<union> (\<Union>m \<in> set (ai_mandates i). set (mandate_alerts (ai_now i) m))"
  by (auto simp: alertsFor_def)

lemma mild_alerts:
  "a \<in> set (gate_alerts i) \<Longrightarrow> al_severity a \<noteq> URGENT"
  "a \<in> set (epoch_alerts i) \<Longrightarrow> al_severity a \<noteq> URGENT"
  "a \<in> set (capital_alerts money i) \<Longrightarrow> al_severity a \<noteq> URGENT"
  "a \<in> set (mandate_alerts now m) \<Longrightarrow> al_severity a \<noteq> URGENT"
  by (auto simp: gate_alerts_def epoch_alerts_def capital_alerts_def mandate_alerts_def Let_def split: option.splits if_splits)

lemma urgent_status:
  "(\<exists>a \<in> set (status_alerts money i). al_severity a = URGENT) \<longleftrightarrow> ai_status i = MARGIN_CALL \<or> ai_status i = LIQUIDATING"
  by (auto simp: status_alerts_def Let_def)

lemma status_alerts_only: "a \<in> set (status_alerts money i) \<Longrightarrow> al_severity a = URGENT \<Longrightarrow> al_id a = ''margin-call''"
  by (auto simp: status_alerts_def Let_def split: if_splits)

text \<open>
  What a user is told, and in which order. Alerts come with the most urgent first; something is urgent exactly
  when the account is called for margin or being liquidated, and it is the one that names the shortfall;
  a mandate is announced as expiring exactly when it is active and within its last three days; and an account
  in a restricted state is never without an alert.
\<close>

theorem alerts_tell_the_state:
  "sorted (map (\<lambda>a. severity_rank (al_severity a)) (alertsFor money i))
   \<and> (list_ex (\<lambda>a. al_severity a = URGENT) (alertsFor money i) \<longleftrightarrow> ai_status i = MARGIN_CALL \<or> ai_status i = LIQUIDATING)
   \<and> (list_ex (\<lambda>a. al_severity a = WARN) (mandate_alerts now m) \<longleftrightarrow>
        am_status m = ''ACTIVE'' \<and> now < am_expiresAt m \<and> am_expiresAt m < now + EXPIRY_WARNING_SECONDS)
   \<and> (alertsFor money i = [] \<longrightarrow> ai_status i \<in> {NORMAL, SETTLED, BAD_DEBT} \<and> ai_gates i = 0 \<and> ai_reserved i \<le> 0)"
proof (intro conjI)
  show "sorted (map (\<lambda>a. severity_rank (al_severity a)) (alertsFor money i))" by (simp add: alertsFor_def)
  show "list_ex (\<lambda>a. al_severity a = URGENT) (alertsFor money i) \<longleftrightarrow> ai_status i = MARGIN_CALL \<or> ai_status i = LIQUIDATING"
    unfolding list_ex_iff alerts_set using urgent_status [of money i] mild_alerts by blast
  show "list_ex (\<lambda>a. al_severity a = WARN) (mandate_alerts now m) \<longleftrightarrow>
        am_status m = ''ACTIVE'' \<and> now < am_expiresAt m \<and> am_expiresAt m < now + EXPIRY_WARNING_SECONDS"
    by (auto simp: mandate_alerts_def Let_def)
  show "alertsFor money i = [] \<longrightarrow> ai_status i \<in> {NORMAL, SETTLED, BAD_DEBT} \<and> ai_gates i = 0 \<and> ai_reserved i \<le> 0"
  proof
    assume "alertsFor money i = []"
    then have "status_alerts money i = []" "gate_alerts i = []" "capital_alerts money i = []" using alerts_set [of money i] by auto
    then show "ai_status i \<in> {NORMAL, SETTLED, BAD_DEBT} \<and> ai_gates i = 0 \<and> ai_reserved i \<le> 0"
      by (cases "ai_status i") (auto simp: status_alerts_def gate_alerts_def capital_alerts_def Let_def split: if_splits)
  qed
qed

text \<open>
  A session is this wallet's. A session counts as active only when what the tab stores is the account the wallet
  reports now; the wallet is asked at most for what it already permits, so no dialog opens, and a wallet
  that reports another account ends the session.
\<close>

theorem session_is_this_wallet:
  assumes "readSession win stored w = (Inr s, stored', w')"
  shows "(case s of
       SESSION_ACTIVE a \<Rightarrow> stored = Some (toLowerCase a) \<and> stored' = stored
         \<and> (\<exists>p j. fst (detectProvider win) = Some p \<and> snd (p (bw_requests w')) = Inr j \<and> first_element j = Some (JStr a))
     | ACCOUNT_CHANGED \<Rightarrow> stored' = None
     | _ \<Rightarrow> stored' = stored)
    \<and> (bw_requests w' = bw_requests w \<or> bw_requests w' = bw_requests w @ [(''eth_accounts'', [])])
    \<and> connectedAccount win stored w = (Inr (case s of SESSION_ACTIVE a \<Rightarrow> Some a | _ \<Rightarrow> None), stored', w')"
proof -
  have c: "connectedAccount win stored w = (Inr (case s of SESSION_ACTIVE a \<Rightarrow> Some a | _ \<Rightarrow> None), stored', w')"
    using assms by (simp add: connectedAccount_def split: SessionState.split)
  show ?thesis
  proof (cases "fst (detectProvider win)")
    case None
    then show ?thesis using assms c by (auto simp: readSession_def)
  next
    case (Some p)
    obtain a w1 where q: "request p ''eth_accounts'' [] w = (a, w1)" by fastforce
    note f = requestD [OF q]
    show ?thesis using assms Some q f c
      by (auto simp: readSession_def split: option.splits if_splits sum.splits json.splits)
  qed
qed

section \<open>Witnesses\<close>

definition calm_health :: AccountHealth where
  "calm_health = \<lparr>ah_totalRecognizedUsd18 = 1000, ah_borrowLimitUsd18 = 700, ah_maintenanceLimitUsd18 = 800,
     ah_liquidationLimitUsd18 = 900, ah_debtUsd18 = 500, ah_availableBorrowUsd18 = 200, ah_status = 0, ah_gates = 0\<rparr>"

definition calm_views :: chain_views where
  "calm_views = \<lparr>vw_blockNumber = Inr 7, vw_accountHealth = (\<lambda>_ _ _. Inr (calm_health, [])),
     vw_availableBorrow = (\<lambda>_ _. Inr (200, False)), vw_settlementFreshness = (\<lambda>_. Inr (True, 60)),
     vw_getPrice = (\<lambda>_ _. Inr (1, 90)), vw_rate = (\<lambda>_. Inl []),
     vw_withdrawalRequest = (\<lambda>_ i. Inr (''0xAB'', 5, 10, i, 3, False)), vw_uint = (\<lambda>_ _ _ _. Inr 3)\<rparr>"

definition a_deployment :: Deployment where
  "a_deployment = \<lparr>dp_contracts = \<lparr>ct_riskPolicyRegistry = ''r'', ct_passportRegistry = ''p'', ct_collateralVault = ''c'',
       ct_liquidityVault = ''l'', ct_financingEngine = ''f'', ct_clearingHouse = ''h'', ct_oracleAdapter = ''o'',
       ct_mandateRegistry = Some ''m'', ct_sentinelInstanceRegistry = None\<rparr>,
     dp_assets = [], dp_settlementAsset = \<lparr>sa_assetId = ''s'', sa_symbol = ''USD'', sa_token = ''t'', sa_decimals = 6\<rparr>\<rparr>"

definition calm_quote :: "QuoteAction \<Rightarrow> int \<Rightarrow> string + Quote" where
  "calm_quote action amount = quoteFor (\<lambda>_. None) (\<lambda>_. Some a_deployment) calm_views 100 ''0xab'' action amount None"

lemma testnet_default: "activeChain (\<lambda>_. None) = Inr (xLayerTestnet (\<lambda>_. None))"
proof -
  have "bigint_of_string ''1952'' = Inr 1952"
    using bigint_of_show_nat [of 1952] by (simp add: show_nat.simps digit_char_def char_of_def bit_iff_odd)
  then show ?thesis
    by (simp add: activeChain_def chainById_def X_LAYER_MAINNET_ID_def X_LAYER_TESTNET_ID_def Let_def)
qed

lemma calm_quote_ok: "\<exists>q. calm_quote action amount = Inr q"
  by (simp add: calm_quote_def quoteFor_def testnet_default loadDeployment_def calm_views_def a_deployment_def asset_readings_def
      wallet_readings_def Let_def split: prod.split)

theorem quote_follows_pipeline_witness:
  "\<exists>q. calm_quote Q_BORROW 350 = Inr q \<and> qt_debtAfter q = 850 \<and> qt_availableBorrowAfter q = 0
     \<and> qt_statusBefore q = NORMAL \<and> qt_statusAfter q = REDUCE_ONLY"
proof -
  obtain q where q: "calm_quote Q_BORROW 350 = Inr q" using calm_quote_ok by blast
  have "statusMax [baseStatus 850 700 800 900, NORMAL] = REDUCE_ONLY" "status_at 0 = NORMAL"
    by (simp_all add: baseStatus_def statusMax_def ACCOUNT_STATUS_def status_at_def)
  moreover from quote_follows_pipeline [OF q [unfolded calm_quote_def]]
  have "qt_debtAfter q = 850" "qt_availableBorrowAfter q = max 0 (700 - qt_debtAfter q)" "qt_statusBefore q = status_at 0"
    "qt_statusAfter q = statusMax [baseStatus (qt_debtAfter q) 700 800 900, qt_statusBefore q]"
    by (auto simp: calm_views_def calm_health_def)
  ultimately show ?thesis using q by simp
qed

theorem approval_never_short_witness: "usd18ToToken (10 ^ 12 + 1) 6 \<le> 2 \<and> \<not> usd18ToToken (10 ^ 12 + 1) 6 \<le> 1"
  using approval_never_short [of "10 ^ 12 + 1" 2 6] approval_never_short [of "10 ^ 12 + 1" 1 6] by (simp add: tokenToUsd18_def)

definition calm_position :: "LenderPosition option reading" where
  "calm_position = loadPosition (xLayerTestnet (\<lambda>_. None)) (\<lambda>_. Some a_deployment) calm_views ''0xab''"

lemma calm_position_ok: "\<exists>p. calm_position = Inr (Some p)"
  by (simp add: calm_position_def loadPosition_def loadDeployment_def calm_views_def shares_and_limit_def converted_def positive_def
      scan_from_def Let_def upto_rec1 split: prod.split)

theorem lender_sees_own_requests_witness:
  "\<exists>p. calm_position = Inr (Some p) \<and> map lr_id (lp_requests p) = [1, 2]"
proof -
  obtain p where p: "calm_position = Inr (Some p)" using calm_position_ok by blast
  have "\<exists>b. \<not> b" by blast
  with lender_sees_own_requests [OF p [unfolded calm_position_def]] show ?thesis using p
    by (auto simp: loadDeployment_def calm_views_def scan_from_def upto_rec1 toLowerCase_def lower_char_def char_of_def bit_iff_odd)
qed

definition one_mandate :: registry_views where
  "one_mandate = \<lparr>rv_getMandate = (\<lambda>_ _. Inl ''timeout''), rv_getState = (\<lambda>_ _. Inl ''timeout''),
     rv_domainSeparator = (\<lambda>_. Inl ''timeout''), rv_getInstance = (\<lambda>_ _. Inl ''UnknownInstance''), rv_nonce = (\<lambda>_ _. Inr 0)\<rparr>"

theorem unreadable_is_not_missing_witness:
  "loadMandate (\<lambda>_. []) (xLayerTestnet (\<lambda>_. None)) (\<lambda>_. Some a_deployment) one_mandate 5 (''0x'' @ replicate 64 (CHR ''0'')) \<noteq> NOT_FOUND"
proof -
  have "hex32Schema (''0x'' @ replicate 64 (CHR ''0''))"
    by (simp add: hex32Schema_def hex_of_length_def list_all_iff hex_char_def is_digit_def)
  from unreadable_is_not_missing [OF this] show ?thesis by (simp add: one_mandate_def)
qed

definition quiet_inputs :: AlertInputs where
  "quiet_inputs = \<lparr>ai_status = BAD_DEBT, ai_debt = 900, ai_maintenanceLimit = 0, ai_borrowLimit = 0, ai_reserved = 0, ai_riskEpoch = 3,
     ai_lastSeenEpoch = None, ai_gates = 0, ai_withdrawableNow = 0, ai_queuedForWithdrawal = 0, ai_mandates = [], ai_now = 0\<rparr>"

theorem alerts_tell_the_state_witness:
  "list_ex (\<lambda>a. al_severity a = URGENT) (alertsFor (\<lambda>_. []) (quiet_inputs\<lparr>ai_status := MARGIN_CALL\<rparr>))"
  using alerts_tell_the_state [of "\<lambda>_. []" "quiet_inputs\<lparr>ai_status := MARGIN_CALL\<rparr>"] by simp

definition account_wallet :: provider where "account_wallet rs = (1, Inr (JArr [JStr ''0xAB'']))"

theorem session_is_this_wallet_witness:
  "fst (connectedAccount (Some \<lparr>wd_okxwallet = None, wd_ethereum = Some account_wallet\<rparr>) (Some ''0xab'')
     \<lparr>bw_now = 0, bw_requests = []\<rparr>) = Inr (Some ''0xAB'')"
proof -
  let ?win = "Some \<lparr>wd_okxwallet = None, wd_ethereum = Some account_wallet\<rparr>"
  let ?w = "\<lparr>bw_now = 0, bw_requests = []\<rparr>"
  have "readSession ?win (Some ''0xab'') ?w
     = (Inr (SESSION_ACTIVE ''0xAB''), Some ''0xab'', snd (request account_wallet ''eth_accounts'' [] ?w))"
    by (simp add: readSession_def detectProvider_def request_def account_wallet_def first_element_def js_truthy_def
        toLowerCase_def lower_char_def char_of_def bit_iff_odd Let_def)
  from conjunct2 [OF conjunct2 [OF session_is_this_wallet [OF this]]] show ?thesis by simp
qed

section \<open>Where the application misleads\<close>

text \<open>
  The preview of a withdrawal looks at the debt only, which a withdrawal does not change, under the limits of
  the collateral before it: however much is withdrawn, the status it shows is the present one.
\<close>

lemma withdrawal_preview_ignores_amount:
  assumes "quoteFor env ds vw now account Q_WITHDRAW amount asset = Inr q"
    and "quoteFor env ds vw now account Q_WITHDRAW amount' asset = Inr q'"
  shows "qt_statusAfter q = qt_statusAfter q' \<and> qt_availableBorrowAfter q = qt_availableBorrowAfter q'"
  using quoteFor_fields [OF assms(1)] quoteFor_fields [OF assms(2)] by auto

text \<open>An account in bad debt, the state in which every action is refused, raises no alert at all.\<close>

lemma bad_debt_raises_no_alert: "alertsFor money quiet_inputs = []"
  by (simp add: alertsFor_def status_alerts_def gate_alerts_def epoch_alerts_def capital_alerts_def quiet_inputs_def)

text \<open>An ordinal outside the ladder is shown, and acted upon, as \<open>NORMAL\<close>.\<close>

lemma unknown_status_permits_everything:
  "7 \<le> i \<Longrightarrow> permittedActions (status_at i) = \<lparr>pm_borrow = True, pm_withdraw = True, pm_repay = True, pm_addCollateral = True\<rparr>"
  by (simp add: status_at_def ACCOUNT_STATUS_def)

text \<open>A request older than the last two hundred is not shown to its owner, claimable or not.\<close>

lemma old_request_unlisted:
  assumes "loadPosition chain (\<lambda>_. Some d) vw account = Inr (Some p)" "1 \<le> i" "i + 200 < n"
    and "vw_uint vw (ct_liquidityVault (dp_contracts d)) ''nextRequestId'' [] None = Inr n"
  shows "i \<notin> lr_id ` set (lp_requests p)"
proof -
  obtain found where f: "mapR (\<lambda>i. bindR (vw_withdrawalRequest vw (ct_liquidityVault (dp_contracts d)) i)
        (\<lambda>r. Inr (own_request account i r))) [scan_from n .. n - 1] = Inr found" and p: "lp_requests p = concat found"
    using assms(1,4) by (auto simp: loadPosition_def loadDeployment_def Let_def elim!: bindR_InrE split: prod.splits)
  have "lr_id ` set (lp_requests p) = set (map lr_id (concat found))" by (simp add: p)
  also have "\<dots> \<subseteq> {scan_from n .. n - 1}" unfolding concat_ids [OF mapR_concat [OF f]] by auto
  finally show ?thesis using assms(2,3) by (auto simp: scan_from_def)
qed

end
