(* ===== verification/Live_Chain.thy ===== *)
theory Live_Chain
  imports Sentinel_Properties
begin

text \<open>
  The live side of the Sentinel: the adapters over a node and a wallet (\<open>services/sentinel/src/live/xlayer.ts\<close>) and
  the signer boundary (\<open>signer.ts\<close>). The node and the wallet of the viem package are external: the node is a state with the
  answers of its views, and a wallet writes to it and waits for receipts.
\<close>

section \<open>The node and the wallet\<close>

record live_node =
  ln_block :: "sentinel_error + int \<times> string"
  ln_riskEpoch :: "sentinel_error + int"
  ln_accountHealth :: "string \<Rightarrow> sentinel_error + int list"
  ln_isLive :: "string \<Rightarrow> sentinel_error + bool"
  ln_receipts :: "string \<Rightarrow> sentinel_error + bool"

text \<open>A call of the gateway's \<open>execute\<close>, with an empty venue and no proofs.\<close>

record gateway_call =
  gc_account :: string
  gc_mandateId :: string
  gc_action :: nat
  gc_assetId :: string
  gc_amount :: int
  gc_venue :: string

record wallet_client =
  wc_account :: bool
  wc_write :: "gateway_call \<Rightarrow> (live_node, string) read"
  wc_wait :: "string \<Rightarrow> (live_node, bool) read"

section \<open>The chain view\<close>

definition LIVE_ACCOUNT_STATUS :: "string list" where
  "LIVE_ACCOUNT_STATUS =
     [''NORMAL'', ''NO_NEW_RISK'', ''REDUCE_ONLY'', ''MARGIN_CALL'', ''LIQUIDATING'', ''SETTLED'', ''BAD_DEBT'']"

definition NO_VENUE :: string where "NO_VENUE = ''0x'' @ replicate 64 (CHR ''0'')"

definition REPAY_ORDINAL :: nat where "REPAY_ORDINAL = 1"

record KnownMandate =
  km_mandateId :: string
  km_allowedActions :: int
  km_expiresAt :: int
  km_agentExecutor :: string

definition or_zero :: "nat \<Rightarrow> int list \<Rightarrow> int" where
  "or_zero i r = (if i < length r then r ! i else 0)"

definition live_bufferBps :: "int \<Rightarrow> int \<Rightarrow> int" where
  "live_bufferBps borrowLimit debt =
     (if borrowLimit = 0 then 10000 else if borrowLimit \<le> debt then 0
      else ((borrowLimit - debt) * 10000) sdiv borrowLimit)"

definition live_accountState :: "int list \<Rightarrow> AccountState" where
  "live_accountState r =
     (let recognised = or_zero 0 r; borrowLimit = or_zero 1 r; debt = or_zero 4 r; available = or_zero 5 r;
          statusIdx = or_zero 7 r
      in \<lparr>as_status = (if 0 \<le> statusIdx \<and> nat statusIdx < length LIVE_ACCOUNT_STATUS
                      then LIVE_ACCOUNT_STATUS ! nat statusIdx else ''UNKNOWN''),
          as_recognisedUsd18 = show_int recognised, as_debtUsd18 = show_int debt,
          as_borrowLimitUsd18 = show_int borrowLimit, as_maintenanceLimitUsd18 = show_int borrowLimit,
          as_availableBorrowUsd18 = show_int available, as_reservedUsd18 = ''0'',
          as_bufferBps = live_bufferBps borrowLimit debt\<rparr>)"

definition XLayerChainView :: "int \<Rightarrow> KnownMandate \<Rightarrow> live_node SentinelChainView" where
  "XLayerChainView chainId mandate =
     \<lparr>cv_block = (\<lambda>c. (bindR (ln_block c) (\<lambda>(n, h). Inr \<lparr>br_chainId = chainId, br_number = n, br_hash = h\<rparr>), c)),
      cv_currentRiskEpoch = (\<lambda>c. (bindR (ln_riskEpoch c) (\<lambda>e. Inr (max 1 e)), c)),
      cv_accountState = (\<lambda>account c. (bindR (ln_accountHealth c account) (\<lambda>r. Inr (live_accountState r)), c)),
      cv_mandateState = (\<lambda>mandateId c. (bindR (ln_isLive c (km_mandateId mandate)) (\<lambda>live.
         Inr (Some \<lparr>ms_live = live, ms_expiresAt = km_expiresAt mandate, ms_remainingDebtUsd18 = ''0'',
           ms_remainingNotionalUsd18 = ''0'', ms_allowedActions = km_allowedActions mandate,
           ms_agentExecutor = km_agentExecutor mandate\<rparr>)), c)),
      cv_passportVersions = (\<lambda>assetIds c. (Inr [], c)),
      cv_marketSession = (\<lambda>account c. (Inr SESSION_OPEN, c)),
      cv_transactionOutcome = (\<lambda>txHash c. (case ln_receipts c txHash of
           Inl e \<Rightarrow> Inr None
         | Inr ok \<Rightarrow> Inr (Some (if ok then tx_success else tx_reverted)), c))\<rparr>"

section \<open>The gateway\<close>

definition XLayerDelegationGateway ::
  "wallet_client \<Rightarrow> string \<Rightarrow> string \<Rightarrow> live_node DelegationGatewayClient" where
  "XLayerDelegationGateway wl assetId mandateId req =
     (case er_plan req of
        repayPlan amountUsd18 repayAll \<Rightarrow>
          if \<not> wc_account wl then lift (Inl (SentinelJsError (JsError ''agent wallet has no bound account'')))
          else bindW (lift (parseUsd18 amountUsd18)) (\<lambda>amount.
               bindW (wc_write wl \<lparr>gc_account = er_account req, gc_mandateId = mandateId, gc_action = REPAY_ORDINAL,
                        gc_assetId = assetId, gc_amount = amount, gc_venue = NO_VENUE\<rparr>) (\<lambda>txHash.
               bindW (wc_wait wl txHash) (\<lambda>ok.
                 ret \<lparr>ex_txHash = txHash, ex_outcome = (if ok then EX_SUCCESS else EX_REVERTED), ex_revertReason = None\<rparr>)))
      | _ \<Rightarrow> ret \<lparr>ex_txHash = NO_VENUE, ex_outcome = EX_REVERTED,
                ex_revertReason = Some ''live gateway proof supports REPAY only''\<rparr>)"

section \<open>Signers\<close>

datatype SignerProvider = LocalTestSigner string | EnvKeySigner string string | KmsSignerProvider string

definition new_LocalTestSigner :: "string \<Rightarrow> int \<Rightarrow> js_error + SignerProvider" where
  "new_LocalTestSigner addr chainId =
     (if chainId = 1 \<or> chainId = 196 then Inl (JsError ''LocalTestSigner refuses a production chain id'')
      else Inr (LocalTestSigner addr))"

definition new_EnvKeySigner :: "string \<Rightarrow> string option \<Rightarrow> SignerProvider" where
  "new_EnvKeySigner addr envVar = EnvKeySigner addr (option_default envVar ''SENTINEL_AGENT_KEY'')"

fun signer_label :: "SignerProvider \<Rightarrow> string" where
  "signer_label (LocalTestSigner a) = ''local-test-signer''"
| "signer_label (EnvKeySigner a v) = ''env-key-signer''"
| "signer_label (KmsSignerProvider a) = ''kms-signer''"

fun signer_accessRequired :: "SignerProvider \<Rightarrow> bool" where
  "signer_accessRequired (KmsSignerProvider a) = True"
| "signer_accessRequired s = False"

fun signer_address :: "(string \<Rightarrow> string option) \<Rightarrow> SignerProvider \<Rightarrow> js_error + string" where
  "signer_address env (LocalTestSigner a) = Inr a"
| "signer_address env (EnvKeySigner a v) =
     (case env v of None \<Rightarrow> Inl (JsError (v @ '' is not set''))
      | Some k \<Rightarrow> if k = [] then Inl (JsError (v @ '' is not set'')) else Inr a)"
| "signer_address env (KmsSignerProvider a) = Inr a"

definition signer_toJSON :: "string \<Rightarrow> json" where
  "signer_toJSON addr = JObj [(''label'', JStr ''env-key-signer''), (''address'', JStr addr), (''key'', JStr ''[redacted]'')]"

section \<open>The adapters against the interface\<close>

lemma view_reads:
  "snd (cv_block (XLayerChainView i m) c) = c" "snd (cv_currentRiskEpoch (XLayerChainView i m) c) = c"
  "snd (cv_accountState (XLayerChainView i m) a c) = c" "snd (cv_mandateState (XLayerChainView i m) k c) = c"
  "snd (cv_passportVersions (XLayerChainView i m) as c) = c" "snd (cv_marketSession (XLayerChainView i m) a c) = c"
  "snd (cv_transactionOutcome (XLayerChainView i m) tx c) = c"
  by (simp_all add: XLayerChainView_def)

lemma live_gateway_cases:
  assumes "XLayerDelegationGateway wl assetId mandateId req c = (Inr r, c')"
  shows "(\<exists>amount repayAll n tx c1 ok. er_plan req = repayPlan amount repayAll \<and> parseUsd18 amount = Inr n
      \<and> wc_write wl \<lparr>gc_account = er_account req, gc_mandateId = mandateId, gc_action = REPAY_ORDINAL, gc_assetId = assetId,
           gc_amount = n, gc_venue = NO_VENUE\<rparr> c = (Inr tx, c1)
      \<and> wc_wait wl tx c1 = (Inr ok, c')
      \<and> r = \<lparr>ex_txHash = tx, ex_outcome = (if ok then EX_SUCCESS else EX_REVERTED), ex_revertReason = None\<rparr>)
    \<or> (\<nexists>amount repayAll. er_plan req = repayPlan amount repayAll) \<and> c' = c
      \<and> ex_txHash r = NO_VENUE \<and> ex_outcome r = EX_REVERTED"
  using assms
  by (cases "er_plan req")
    (auto simp: XLayerDelegationGateway_def lift_def ret_def bindW_def split: prod.splits sum.splits if_splits)

text \<open>The gateway on the plans it serves; any other plan is not handed to it.\<close>

definition repays_only :: "'c DelegationGatewayClient \<Rightarrow> 'c DelegationGatewayClient" where
  "repays_only g req =
     (case er_plan req of repayPlan a b \<Rightarrow> g req | _ \<Rightarrow> lift (Inl (SentinelJsError (JsError ''not a repayment''))))"

lemma live_contract:
  assumes wait: "\<And>tx c ok c'. wc_wait wl tx c = (Inr ok, c') \<Longrightarrow> ln_receipts c' tx = Inr ok"
  shows "sentinel_chain (XLayerChainView chainId mandate) (repays_only (XLayerDelegationGateway wl assetId mandateId))"
proof -
  have rec: "fst (cv_transactionOutcome (XLayerChainView chainId mandate) (ex_txHash r) c')
      = Inr (Some (if ex_outcome r = EX_SUCCESS then tx_success else tx_reverted))"
    if g: "repays_only (XLayerDelegationGateway wl assetId mandateId) req c = (Inr r, c')" for req c r c'
  proof -
    have "XLayerDelegationGateway wl assetId mandateId req c = (Inr r, c') \<and> (\<exists>a b. er_plan req = repayPlan a b)"
      using g by (auto simp: repays_only_def lift_def split: SentinelPlan.splits)
    then obtain tx c1 ok where "wc_wait wl tx c1 = (Inr ok, c')"
      "r = \<lparr>ex_txHash = tx, ex_outcome = (if ok then EX_SUCCESS else EX_REVERTED), ex_revertReason = None\<rparr>"
      using live_gateway_cases by blast
    then show ?thesis using wait by (auto simp: XLayerChainView_def)
  qed
  show ?thesis
    by unfold_locales (simp_all add: view_reads rec)
qed

section \<open>A delivery on the live adapters\<close>

definition live_deps ::
  "(live_node, 'cfg) SentinelEngineDeps \<Rightarrow> int \<Rightarrow> KnownMandate \<Rightarrow> wallet_client \<Rightarrow> string \<Rightarrow> string \<Rightarrow>
   (live_node, 'cfg) SentinelEngineDeps" where
  "live_deps deps chainId mandate wl assetId mandateId =
     deps\<lparr>d_chain := XLayerChainView chainId mandate, d_gateway := XLayerDelegationGateway wl assetId mandateId\<rparr>"

definition live_call :: "SentinelInstance \<Rightarrow> string \<Rightarrow> string \<Rightarrow> int \<Rightarrow> gateway_call" where
  "live_call inst assetId mandateId n =
     \<lparr>gc_account = si_account inst, gc_mandateId = mandateId, gc_action = REPAY_ORDINAL, gc_assetId = assetId,
      gc_amount = n, gc_venue = NO_VENUE\<rparr>"

definition sent_once :: "wallet_client \<Rightarrow> gateway_call \<Rightarrow> live_node \<Rightarrow> live_node" where
  "sent_once wl call c =
     (case wc_write wl call c of (Inl e, c1) \<Rightarrow> c1 | (Inr tx, c1) \<Rightarrow> snd (wc_wait wl tx c1))"

lemma view_contract: "sentinel_chain (XLayerChainView i m) (\<lambda>req. lift (Inl e))"
  by unfold_locales (simp_all add: view_reads lift_def)

lemma live_gateway_moves:
  assumes "snd (XLayerDelegationGateway wl assetId mandateId req c) \<noteq> c"
  shows "\<exists>amount all n. er_plan req = repayPlan amount all \<and> wc_account wl \<and> parseUsd18 amount = Inr n
    \<and> snd (XLayerDelegationGateway wl assetId mandateId req c)
        = sent_once wl \<lparr>gc_account = er_account req, gc_mandateId = mandateId, gc_action = REPAY_ORDINAL,
            gc_assetId = assetId, gc_amount = n, gc_venue = NO_VENUE\<rparr> c"
  using assms
  by (cases "er_plan req")
    (auto simp: XLayerDelegationGateway_def lift_def ret_def bindW_def sent_once_def split: prod.splits sum.splits if_splits)

text \<open>
  C11: A live Sentinel can only repay. With the live view and gateway, one delivery, under any template registry,
  configuration, trigger, ledger, wallet and node, errors included, either leaves the node as it was or sends exactly one
  call: a repayment for the instance's account, under the mandate and of the asset the gateway was built with, of exactly
  the amount of a plan that the instance's template compiled, and then at most waits for that transaction.
\<close>

theorem live_sentinel_only_repays:
  "w_chain (snd (processTrigger (live_deps deps chainId mandate wl assetId mandateId) inst config trigger v pending assetIds w))
     = w_chain w
   \<or> (\<exists>runtime snap compiled amount all n. map_of (d_templates deps) (si_templateId inst) = Some runtime
        \<and> tr_compile runtime config snap trigger = Inr compiled \<and> cr_plan compiled = Some (repayPlan amount all)
        \<and> parseUsd18 amount = Inr n \<and> wc_account wl
        \<and> w_chain (snd (processTrigger (live_deps deps chainId mandate wl assetId mandateId)
              inst config trigger v pending assetIds w))
            = sent_once wl (live_call inst assetId mandateId n) (w_chain w))"
proof -
  let ?d = "live_deps deps chainId mandate wl assetId mandateId"
  let ?c = "w_chain w" and ?c' = "w_chain (snd (processTrigger ?d inst config trigger v pending assetIds w))"
  have d: "d_chain ?d = XLayerChainView chainId mandate" "d_gateway ?d = XLayerDelegationGateway wl assetId mandateId"
    "d_templates ?d = d_templates deps" by (simp_all add: live_deps_def)
  have "?c' = ?c \<or> acts ?d inst config trigger ?c ?c'"
    using processTrigger_reaches [of ?d] view_contract unfolding d(1) reaches_def by blast
  moreover
  { assume m: "?c' \<noteq> ?c" and "acts ?d inst config trigger ?c ?c'"
    then obtain runtime snap compiled plan snap' r where
      t: "map_of (d_templates deps) (si_templateId inst) = Some runtime" "tr_compile runtime config snap trigger = Inr compiled"
        "cr_plan compiled = Some plan"
      and c': "?c' = snd (XLayerDelegationGateway wl assetId mandateId (request_for inst snap' plan r) ?c)"
      unfolding acts_def executes_def d by blast
    from live_gateway_moves [of wl assetId mandateId "request_for inst snap' plan r" ?c] m c' obtain amount all n where
      g: "plan = repayPlan amount all" "wc_account wl" "parseUsd18 amount = Inr n"
        "?c' = sent_once wl (live_call inst assetId mandateId n) ?c"
      unfolding live_call_def request_for_def by auto
    then have ?thesis using t by blast }
  ultimately show ?thesis by blast
qed

section \<open>Limits of the adapters\<close>

text \<open>The node and the run of the counterexamples.\<close>

definition sample_node :: live_node where
  "sample_node = \<lparr>ln_block = Inr (1, ''0x1''), ln_riskEpoch = Inr 1, ln_accountHealth = (\<lambda>a. Inr [0, 0, 0, 0, 100, 0, 0, 4]),
     ln_isLive = (\<lambda>m. Inr True), ln_receipts = (\<lambda>tx. Inl (SentinelJsError (JsError ''no receipt'')))\<rparr>"

text \<open>
  A plan the gateway does not serve is answered with a reverted transaction whose hash, all zeros, the chain does not know,
  so the run's receipt cites a transaction that was never sent.
\<close>

lemma unserved_plan_cites_no_transaction:
  "XLayerDelegationGateway wl assetId mandateId
      (request_for inst snap (addCollateralPlan asset ''5'' 18) run) sample_node
     = (Inr \<lparr>ex_txHash = NO_VENUE, ex_outcome = EX_REVERTED,
          ex_revertReason = Some ''live gateway proof supports REPAY only''\<rparr>, sample_node)
   \<and> fst (cv_transactionOutcome (XLayerChainView chainId m) NO_VENUE sample_node) = Inr None"
  by (simp add: XLayerDelegationGateway_def request_for_def ret_def XLayerChainView_def sample_node_def)

text \<open>
  When the repayment is sent and waiting for its receipt fails, the run stays at \<open>SUBMITTING\<close> without the hash of the
  transaction, and reconciliation, which starts from that hash, leaves it there whatever the chain knows.
\<close>

lemma lost_receipt_strands_run:
  assumes w: "wc_account wl" "wc_write wl (live_call inst assetId mandateId n) (w_chain w1) = (Inr tx, c1)"
      "wc_wait wl tx c1 = (Inl e, c2)"
    and plan: "plan = repayPlan amount all" "parseUsd18 amount = Inr n"
    and step: "stepRun (live_deps deps chainId m wl assetId mandateId) run SUBMITTING no_options w = (Inr run1, w1)"
    and none: "sr_transactions run1 = []"
  shows "execute (live_deps deps chainId m wl assetId mandateId) inst run snap plan w = (Inl e, w1\<lparr>w_chain := c2\<rparr>)
    \<and> reconcile deps' run1 inst w' = (Inr run1, w')"
proof -
  have "XLayerDelegationGateway wl assetId mandateId (request_for inst snap plan run1) (w_chain w1) = (Inl e, c2)"
    using w(2) by (simp add: XLayerDelegationGateway_def request_for_def plan w(1,3) lift_def live_call_def)
  then have "on_chain (d_gateway (live_deps deps chainId m wl assetId mandateId) (request_for inst snap plan run1)) w1
      = (Inl e, w1\<lparr>w_chain := c2\<rparr>)"
    by (simp add: live_deps_def on_chain_def)
  then show ?thesis using step none by (simp add: execute_def reconcile_def ret_def)
qed

text \<open>
  An account in debt whose collateral has lost its whole value reads a full buffer, where the interface documents zero, and
  the safety buffer does not act for it.
\<close>

lemma worthless_collateral_reads_safe:
  "as_bufferBps (live_accountState [0, 0, 0, 0, 100, 0, 0, 4]) = 10000"
  "as_status (live_accountState [0, 0, 0, 0, 100, 0, 0, 4]) = ''LIQUIDATING''"
  "safetyBufferConfigSchema cfg \<Longrightarrow> sn_debtUsd18 snap = ''100'' \<Longrightarrow> sn_maintenanceLimitUsd18 snap = ''0'' \<Longrightarrow>
     safetyBufferCompile cfg snap trigger = Inr \<lparr>cr_plan = None, cr_reason = ''no debt to reduce''\<rparr>"
proof -
  show "as_bufferBps (live_accountState [0, 0, 0, 0, 100, 0, 0, 4]) = 10000"
    by (simp add: live_accountState_def or_zero_def live_bufferBps_def)
  show "as_status (live_accountState [0, 0, 0, 0, 100, 0, 0, 4]) = ''LIQUIDATING''"
    by (simp add: live_accountState_def or_zero_def LIVE_ACCOUNT_STATUS_def)
  assume a: "safetyBufferConfigSchema cfg" "sn_debtUsd18 snap = ''100''" "sn_maintenanceLimitUsd18 snap = ''0''"
  show "safetyBufferCompile cfg snap trigger = Inr \<lparr>cr_plan = None, cr_reason = ''no debt to reduce''\<rparr>"
    using a by (simp add: safetyBufferCompile_def no_plan_def demo_parse)
qed

end
