(* ===== verification/Spec2Isabelle.thy ===== *)
theory Spec2Isabelle
  imports Risk_Engine Portfolio_Risk Corporate_Actions Sentinel_Properties Evidence_Workflow Evidence_Queue
    Passport_Value Indexer_Projection Indexer_Facility Evidence_Pipeline Identity Evidence_Parser
    Evidence_Model Receipts Sentinel_Language Evidence_History
    Institutional_Auth Substitution_Properties Account_Properties Live_Chain
begin

text \<open>
  A verification development for the TypeScript core of Usance: what an asset is worth as collateral,
  how the evidence about it becomes a Passport, how a Sentinel acts on an account, and what the
  indexer shows of it.

  \<^bold>\<open>The program.\<close> A document about an asset is decoded, canonicalised and stored under its hash, claims
  are extracted from it by independent paths, corroborated and become a Passport candidate
  (\<open>services/evidence\<close>, \<open>packages/schemas\<close>, \<open>packages/chaingpt\<close>); a workflow takes the candidate
  through admission and two onchain commits, driven by a work queue. A committed
  Passport supplies the redemption terms that the risk pipeline (\<open>packages/domain\<close>) values an asset
  with; the portfolio model (\<open>packages/portfolio-risk\<close>) scales the recognised values of many positions
  under concentration, session and stress limits, and the corporate-action model
  (\<open>packages/corp-actions\<close>) says which quantity they are computed from. A Sentinel
  (\<open>services/sentinel\<close>) is armed by an owner with a budget and a mandate; a trigger becomes a run that
  pins a snapshot, compiles a plan, validates and authorises it and hands it to a gateway. The indexer
  (\<open>services/indexer\<close>) projects chain events and aggregates positions across domains.

  \<^bold>\<open>Theories.\<close>
  \<^item> \<open>Usance_Prelude\<close>, \<open>Js_Strings\<close>, \<open>Js_Json\<close>: throwing computations as sums, truncating division,
    maps and sets in insertion order, the string functions of the language, and canonical JSON
    (\<open>canonicalJson\<close> of \<open>sentinel-triggers.ts\<close>).
  \<^item> \<open>Interfaces\<close>: the contracts several components rely on, as locales: a table of legal transitions, a
    versioned keyed store, computations over a world. Each is interpreted on the code's own tables and
    stores in the component that provides them.
  \<^item> \<open>Risk_Engine\<close>: \<open>packages/domain/src/risk.ts\<close>. Valuation of one asset (\<open>valueAsset\<close>), gates, the
    capping pass and \<open>evaluate\<close>, interest, presentation. Lemmas: rounding laws, that a valuation is the
    least of its candidates, that limits are ordered, that a gate or more debt never frees credit.
  \<^item> \<open>Portfolio_Risk\<close>: \<open>packages/portfolio-risk/src\<close>. \<open>evaluatePortfolio\<close> and its stages. A closed form of
    the evaluation, then bounds, concentration caps, monotonicity in the policy, order independence,
    and the exact set of accepted inputs.
  \<^item> \<open>Corporate_Actions\<close>: \<open>packages/corp-actions/src\<close>. Factors and quantities, the share pool
    (\<open>applyAction\<close>), snapshot reconciliation, the bridge to the risk pipeline. An invariant of reachable
    pools gives conservation and the absence of dilution.
  \<^item> \<open>Schema_Primitives\<close>, \<open>Sentinel_Schemas\<close>, \<open>Sentinel_Policy\<close>: the schemas of \<open>packages/schemas/src\<close>,
    trigger identities, action masks, run transitions, budgets and the ledger.
  \<^item> \<open>Sentinel_Services\<close>, \<open>Sentinel_Engine\<close>: \<open>services/sentinel/src\<close>. \<open>processTrigger\<close> is composed of the
    stages the source has, over a world of stores and a chain; \<open>reconcile\<close>, \<open>drain\<close> and \<open>recover\<close>.
    \<open>Mock_Chain\<close> is the in-memory chain of \<open>chain.ts\<close>, an instance of the chain interface.
  \<^item> \<open>Sentinel_Safety\<close>, \<open>Sentinel_Invariants\<close>, \<open>Sentinel_Delivery\<close>, \<open>Sentinel_Properties\<close>: what has to hold
    when the chain moves, how a run settles its reservation, invariants of the stored runs, whole
    deliveries, and the properties of the runtime.
  \<^item> \<open>Evidence_Claims\<close>, \<open>Evidence_Candidate\<close>, \<open>Passport_Value\<close>: claim values, corroboration
    (\<open>corroborate.ts\<close>), validation of extractions (\<open>extract.ts\<close>), the Merkle root (\<open>ids.ts\<close>) and the
    candidate (\<open>candidate.ts\<close>, \<open>passport.ts\<close>), and what its redemption terms do to a valuation.
    Corroboration is shown equivalent to a statement about readings without maps or loops.
  \<^item> \<open>Evidence_Workflow\<close>, \<open>Evidence_Queue\<close>: the workflow (\<open>workflow.ts\<close>, \<open>workflow-store.ts\<close>) and the
    work queue (\<open>queue.ts\<close>, \<open>jobs.ts\<close>). Every stored record is a lawful history; claiming refines
    taking the head of the sorted list of due jobs.
  \<^item> \<open>Evidence_Text\<close>, \<open>Evidence_Store\<close>, \<open>Evidence_Ingest\<close>: canonical text (\<open>canonical.ts\<close>), decoding
    (\<open>media.ts\<close>), the content-addressed stores and the archive (\<open>store.ts\<close>, \<open>archive.ts\<close>), and \<open>ingest\<close>
    (\<open>ingest.ts\<close>). A canonical text is characterised without the steps that make it; the stores share
    the contract \<open>object_store\<close>, and the file store keeps its invariant through crashes inside a write.
  \<^item> \<open>Evidence_Pipeline\<close>: \<open>commit.ts\<close>, \<open>pipeline.ts\<close> and the runner of \<open>jobs.ts\<close>, composed of ingest,
    extraction, corroboration, the candidate and the queue.
  \<^item> \<open>Evidence_Parser\<close>: the deterministic extractor (\<open>parser-extractor.ts\<close>), its regular expressions as
    data with the backtracking matcher they denote, and \<open>chunk.ts\<close>.
  \<^item> \<open>Identity\<close>: the schemas and identifiers of instruments, bindings, facilities and domains
    (\<open>instrument.ts\<close>, \<open>facility.ts\<close>, \<open>domain.ts\<close>), and the indexer's tables built from them.
  \<^item> \<open>Indexer_Projection\<close>, \<open>Indexer_Facility\<close>: \<open>projection.ts\<close>, \<open>cursor.ts\<close>, \<open>instrument.ts\<close>,
    \<open>facility.ts\<close>. Idempotence, finality of revocations, rollback, and the exclusion of stale positions.

  \<^bold>\<open>Conventions.\<close> A \<open>bigint\<close> and a safe integer are \<open>int\<close>. A call that may throw returns \<open>'e + 'a\<close>,
  \<open>Inl\<close> the exception. A JavaScript map is an association list updated in place
  (\<open>AList.update\<close>), so that its insertion order is kept; a record with optional fields has
  \<open>option\<close> fields. Strings are character lists; characters are code units below 256. The clock is an
  argument, or in the engine a stream of readings counted by the world. An asynchronous call is a
  step, and the calls of one operation are not interleaved with another's; where two workers race, the
  race is a sequence of operations on the store.

  \<^bold>\<open>Parameters.\<close> Code outside the repository is an argument of the definitions that use it: the hash
  of the viem package (\<open>keccak\<close>) and its encoder, Unicode normalisation (\<open>nfc\<close>), zod's issue texts
  (\<open>issues\<close>), the extractors, the chain and the gateway. What the engine relies on of a chain is the locale
  \<open>sentinel_chain\<close>, interpreted on the in-memory chain.

  \<^bold>\<open>Termination.\<close> No definition uses fuel: loops are recursions over lists, the Merkle levels halve,
  and digits are divided away.

  \<^bold>\<open>Not modelled.\<close> The model-backed extractor and the other provider clients (HTTP and prompts); the
  history of filings and the presentation of receipts; the file-system versions of the workflow, run
  and cursor stores (file I/O around the operations modelled on the in-memory stores);
  natural-language drafts and receipts of the Sentinel; the web application, scripts, and the
  contracts.
\<close>

end
